(* ===== verification/Prelude.thy ===== *)
theory Prelude
  imports Main "HOL-Library.Char_ord" "HOL-Library.List_Lexorder" "HOL-Library.Product_Lexorder"
begin

text \<open>
  Shared vocabulary of the development: JavaScript truthiness of optional values, the
  \<open>??\<close> operator, generic lemmas on lists and options, and the reachable states of a step
  relation with the invariant rule every state machine of the development uses.
  JavaScript numbers that the code only ever fills with safe integers (timestamps,
  counters, generations) are \<open>int\<close>; strings are \<open>char list\<close> unless a theory says
  otherwise.
\<close>

named_theorems step_simps "equations that unfold one operation of a component"
named_theorems inv_intros "preservation lemmas of the components' invariants"

subsection \<open>JavaScript idioms\<close>

text \<open>\<open>x ?? d\<close>: the default is used only for an absent value.\<close>

definition or_default :: "'a option \<Rightarrow> 'a \<Rightarrow> 'a" where
  "or_default x d = (case x of None \<Rightarrow> d | Some v \<Rightarrow> v)"

lemma or_default_simps [simp]:
  "or_default None d = d"
  "or_default (Some v) d = v"
  by (simp_all add: or_default_def)

text \<open>Truthiness: an absent or empty string, and an absent or zero number, are falsy.\<close>

definition truthy_str :: "string option \<Rightarrow> bool" where
  "truthy_str x = (case x of None \<Rightarrow> False | Some s \<Rightarrow> s \<noteq> [])"

definition truthy_num :: "int option \<Rightarrow> bool" where
  "truthy_num x = (case x of None \<Rightarrow> False | Some n \<Rightarrow> n \<noteq> 0)"

lemma truthy_str_simps [simp]:
  "truthy_str None = False"
  "truthy_str (Some s) = (s \<noteq> [])"
  by (simp_all add: truthy_str_def)

lemma truthy_num_simps [simp]:
  "truthy_num None = False"
  "truthy_num (Some n) = (n \<noteq> 0)"
  by (simp_all add: truthy_num_def)

text \<open>An optional field of a schema: absent, or present and valid.\<close>

definition opt_all :: "('a \<Rightarrow> bool) \<Rightarrow> 'a option \<Rightarrow> bool" where
  "opt_all P x = (case x of None \<Rightarrow> True | Some v \<Rightarrow> P v)"

lemma opt_all_simps [simp]:
  "opt_all P None = True"
  "opt_all P (Some v) = P v"
  by (simp_all add: opt_all_def)

subsection \<open>Reachable states\<close>

inductive reach :: "('s \<Rightarrow> bool) \<Rightarrow> ('s \<Rightarrow> 's \<Rightarrow> bool) \<Rightarrow> 's \<Rightarrow> bool"
  for init :: "'s \<Rightarrow> bool" and step :: "'s \<Rightarrow> 's \<Rightarrow> bool" where
  reach_init: "init s \<Longrightarrow> reach init step s"
| reach_step: "reach init step s \<Longrightarrow> step s t \<Longrightarrow> reach init step t"

text \<open>
  The contract of an inductive invariant: the initial states have it and every step keeps
  it. Each state machine of the development interprets this locale on its own step
  relation.
\<close>

locale inductive_invariant =
  fixes init :: "'s \<Rightarrow> bool"
    and step :: "'s \<Rightarrow> 's \<Rightarrow> bool"
    and inv :: "'s \<Rightarrow> bool"
  assumes inv_init: "init s \<Longrightarrow> inv s"
    and inv_step: "inv s \<Longrightarrow> step s t \<Longrightarrow> inv t"
begin

lemma reach_inv: "reach init step s \<Longrightarrow> inv s"
  by (induction rule: reach.induct) (auto intro: inv_init inv_step)

lemma reach_inv_step: "reach init step s \<Longrightarrow> step s t \<Longrightarrow> inv s \<and> inv t"
  using reach_inv inv_step by blast

end

subsection \<open>Lists\<close>

lemma sorted_wrt_less_distinct: "sorted_wrt (<) (xs :: 'a :: linorder list) \<Longrightarrow> distinct xs"
  by (induction xs) auto

lemma length_filter_mono:
  "(\<And>x. x \<in> set xs \<Longrightarrow> P x \<Longrightarrow> Q x) \<Longrightarrow> length (filter P xs) \<le> length (filter Q xs)"
  by (induction xs) (auto simp: le_SucI)

lemma find_Some_iff_mem: "find P xs = Some x \<Longrightarrow> x \<in> set xs \<and> P x"
  by (auto simp: find_Some_iff)

subsection \<open>Splitting strings\<close>

text \<open>\<open>s.split(d)\<close> for a one-character separator.\<close>

fun split_on :: "char \<Rightarrow> string \<Rightarrow> string list" where
  "split_on d [] = [[]]"
| "split_on d (c # cs) =
     (if c = d then [] # split_on d cs
      else case split_on d cs of [] \<Rightarrow> [[c]] | p # ps \<Rightarrow> (c # p) # ps)"

lemma split_on_none: "d \<notin> set s \<Longrightarrow> split_on d s = [s]"
  by (induction s) auto

lemma split_on_append: "d \<notin> set s \<Longrightarrow> split_on d (s @ d # t) = s # split_on d t"
  by (induction s) auto

lemma split_on_nonempty: "split_on d s \<noteq> []"
  by (induction s) (auto split: list.splits)

lemma split_on_pair: "split_on d s = [a, b] \<Longrightarrow> s = a @ d # b"
proof (induction s arbitrary: a)
  case (Cons c cs)
  show ?case
  proof (cases "c = d")
    case True
    then have "a = []" "split_on d cs = [b]" using Cons.prems by auto
    moreover have "split_on d t = [b] \<Longrightarrow> t = b" for t b
    proof (induction t arbitrary: b)
      case (Cons e t)
      then show ?case using split_on_nonempty[of d t] by (auto split: if_splits list.splits)
    qed simp
    ultimately show ?thesis using True by simp
  next
    case False
    then show ?thesis using Cons by (auto split: list.splits)
  qed
qed simp

subsection \<open>Sorting with a comparator\<close>

text \<open>\<open>xs.sort(cmp)\<close>, which is stable; \<open>le a b\<close> is \<open>cmp(a, b) <= 0\<close>.\<close>

fun insert_by :: "('a \<Rightarrow> 'a \<Rightarrow> bool) \<Rightarrow> 'a \<Rightarrow> 'a list \<Rightarrow> 'a list" where
  "insert_by le x [] = [x]"
| "insert_by le x (y # ys) = (if le x y then x # y # ys else y # insert_by le x ys)"

definition stable_sort :: "('a \<Rightarrow> 'a \<Rightarrow> bool) \<Rightarrow> 'a list \<Rightarrow> 'a list" where
  "stable_sort le xs = foldr (insert_by le) xs []"

lemma set_insert_by [simp]: "set (insert_by le x ys) = insert x (set ys)"
  by (induction ys) auto

lemma length_insert_by [simp]: "length (insert_by le x ys) = Suc (length ys)"
  by (induction ys) auto

lemma set_stable_sort [simp]: "set (stable_sort le xs) = set xs"
  unfolding stable_sort_def by (induction xs) auto

lemma length_stable_sort [simp]: "length (stable_sort le xs) = length xs"
  unfolding stable_sort_def by (induction xs) auto

text \<open>The head of a sorted list is before every other element, for a total preorder.\<close>

definition head_first :: "('a \<Rightarrow> 'a \<Rightarrow> bool) \<Rightarrow> 'a list \<Rightarrow> bool" where
  "head_first le xs = (\<forall>r rs. xs = r # rs \<longrightarrow> (\<forall>y\<in>set xs. le r y))"

lemma insert_by_head:
  assumes "\<And>a b. le a b \<or> le b a" "\<And>a b c. le a b \<Longrightarrow> le b c \<Longrightarrow> le a c" "head_first le ys"
  shows "head_first le (insert_by le x ys)"
proof (cases ys)
  case Nil
  then show ?thesis using assms(1) by (auto simp: head_first_def)
next
  case (Cons y zs)
  then have y: "\<forall>z\<in>set (y # zs). le y z" using assms(3) by (simp add: head_first_def)
  then show ?thesis using Cons assms(1,2) by (auto simp: head_first_def)
qed

lemma stable_sort_head:
  assumes "\<And>a b. le a b \<or> le b a" "\<And>a b c. le a b \<Longrightarrow> le b c \<Longrightarrow> le a c"
  shows "stable_sort le xs = r # rs \<Longrightarrow> y \<in> set xs \<Longrightarrow> le r y"
proof -
  have "head_first le (stable_sort le xs)"
    unfolding stable_sort_def by (induction xs) (simp add: head_first_def, simp add: insert_by_head[OF assms])
  then show "stable_sort le xs = r # rs \<Longrightarrow> y \<in> set xs \<Longrightarrow> le r y"
    unfolding head_first_def using set_stable_sort by metis
qed

end
