(* ===== verification/Tables.thy ===== *)
theory Tables
  imports Prelude
begin

text \<open>
  The part of SQLite that the relay's D1 statements use. A table is the list of its rows in
  insertion order; a statement is a function on it, with the number of rows it changed where
  the code reads it (\<open>meta.changes\<close>, and \<open>changes()\<close> inside a later statement of the same
  batch). A batch is one transaction: it is the composition of its statements, and \<open>None\<close>
  where a constraint fails and nothing is written. The locale \<open>keyed_table\<close> is the contract
  of a table with a primary key, interpreted on each table of the relay.
\<close>

subsection \<open>Statements\<close>

definition sql_update :: "('r \<Rightarrow> bool) \<Rightarrow> ('r \<Rightarrow> 'r) \<Rightarrow> 'r list \<Rightarrow> 'r list" where
  "sql_update P f rows = map (\<lambda>r. if P r then f r else r) rows"

definition sql_count :: "('r \<Rightarrow> bool) \<Rightarrow> 'r list \<Rightarrow> nat" where
  "sql_count P rows = length (filter P rows)"

definition sql_delete :: "('r \<Rightarrow> bool) \<Rightarrow> 'r list \<Rightarrow> 'r list" where
  "sql_delete P rows = filter (\<lambda>r. \<not> P r) rows"

definition sql_exists :: "('r \<Rightarrow> bool) \<Rightarrow> 'r list \<Rightarrow> bool" where
  "sql_exists P rows = list_ex P rows"

text \<open>\<open>INSERT\<close> into a table whose rows are unique under \<open>key\<close>.\<close>

definition sql_insert :: "('r \<Rightarrow> 'k) \<Rightarrow> 'r \<Rightarrow> 'r list \<Rightarrow> 'r list option" where
  "sql_insert key r rows = (if list_ex (\<lambda>q. key q = key r) rows then None else Some (rows @ [r]))"

text \<open>\<open>INSERT ... ON CONFLICT DO NOTHING\<close>, with the number of rows written.\<close>

definition sql_insert_or_ignore :: "('r \<Rightarrow> 'k) \<Rightarrow> 'r \<Rightarrow> 'r list \<Rightarrow> 'r list \<times> nat" where
  "sql_insert_or_ignore key r rows =
     (case sql_insert key r rows of None \<Rightarrow> (rows, 0) | Some rows' \<Rightarrow> (rows', 1))"

text \<open>\<open>INSERT ... ON CONFLICT DO UPDATE SET\<close>: \<open>up old\<close> is the row that replaces the old one.\<close>

definition sql_upsert :: "('r \<Rightarrow> 'k) \<Rightarrow> ('r \<Rightarrow> 'r) \<Rightarrow> 'r \<Rightarrow> 'r list \<Rightarrow> 'r list" where
  "sql_upsert key up r rows =
     (if list_ex (\<lambda>q. key q = key r) rows
      then map (\<lambda>q. if key q = key r then up q else q) rows
      else rows @ [r])"

lemma sql_update_set: "set (sql_update P f rows) = f ` {r \<in> set rows. P r} \<union> {r \<in> set rows. \<not> P r}"
  by (auto simp: sql_update_def)

lemma sql_count_zero: "sql_count P rows = 0 \<longleftrightarrow> (\<forall>r\<in>set rows. \<not> P r)"
  by (auto simp: sql_count_def filter_empty_conv)

lemma sql_count_pos: "0 < sql_count P rows \<longleftrightarrow> (\<exists>r\<in>set rows. P r)"
  using sql_count_zero[of P rows] by auto

lemma sql_exists_iff [simp]: "sql_exists P rows \<longleftrightarrow> (\<exists>r\<in>set rows. P r)"
  by (simp add: sql_exists_def list_ex_iff)

lemma sql_update_none: "sql_count P rows = 0 \<Longrightarrow> sql_update P f rows = rows"
  unfolding sql_count_zero sql_update_def by (rule map_idI) auto

lemma clash: "list_ex (\<lambda>q. key q = key r) rows \<longleftrightarrow> key r \<in> key ` set rows"
  unfolding list_ex_iff image_iff by metis

lemma sql_insert_Some:
  "sql_insert key r rows = Some rows' \<longleftrightarrow> key r \<notin> key ` set rows \<and> rows' = rows @ [r]"
  unfolding sql_insert_def clash by auto

lemma sql_insert_None: "sql_insert key r rows = None \<longleftrightarrow> key r \<in> key ` set rows"
  unfolding sql_insert_def clash by auto

lemma find_unique:
  assumes "distinct (map key rows)" "r \<in> set rows" "P r" "\<And>q. P q \<Longrightarrow> key q = key r"
  shows "find P rows = Some r"
proof -
  obtain q where q: "find P rows = Some q" using assms(2,3) by (cases "find P rows") (auto simp: find_None_iff)
  then have "q \<in> set rows" "P q" using find_Some_iff_mem by fastforce+
  then have "q = r" using assms(1,2,4) unfolding distinct_map inj_on_def by blast
  then show ?thesis using q by simp
qed

subsection \<open>Primary keys\<close>

locale keyed_table =
  fixes key :: "'r \<Rightarrow> 'k"
begin

definition keyed :: "'r list \<Rightarrow> bool" where
  "keyed rows = distinct (map key rows)"

lemma keyed_nil: "keyed []"
  by (simp add: keyed_def)

lemma keyed_insert: "keyed rows \<Longrightarrow> sql_insert key r rows = Some rows' \<Longrightarrow> keyed rows'"
  by (auto simp: keyed_def sql_insert_Some)

lemma keyed_insert_or_ignore: "keyed rows \<Longrightarrow> keyed (fst (sql_insert_or_ignore key r rows))"
  by (auto simp: sql_insert_or_ignore_def keyed_insert split: option.splits)

lemma keyed_delete: "keyed rows \<Longrightarrow> keyed (sql_delete P rows)"
  by (simp add: keyed_def sql_delete_def distinct_map_filter)

lemma keyed_update: "keyed rows \<Longrightarrow> (\<And>r. key (f r) = key r) \<Longrightarrow> keyed (sql_update P f rows)"
proof -
  assume "keyed rows" "\<And>r. key (f r) = key r"
  then have "map key (sql_update P f rows) = map key rows" by (auto simp: sql_update_def)
  then show ?thesis using \<open>keyed rows\<close> by (simp add: keyed_def)
qed

lemma keyed_upsert: "keyed rows \<Longrightarrow> (\<And>q. key (up q) = key q) \<Longrightarrow> keyed (sql_upsert key up r rows)"
proof -
  assume k: "keyed rows" "\<And>q. key (up q) = key q"
  then have m: "map key (map (\<lambda>q. if key q = key r then up q else q) rows) = map key rows" by auto
  show ?thesis
  proof (cases "list_ex (\<lambda>q. key q = key r) rows")
    case True
    then show ?thesis using k(1) m unfolding keyed_def sql_upsert_def by (simp only: if_True m)
  next
    case False
    then show ?thesis using k(1) by (auto simp: keyed_def sql_upsert_def list_ex_iff)
  qed
qed

lemma keyed_eq: "keyed rows \<Longrightarrow> a \<in> set rows \<Longrightarrow> b \<in> set rows \<Longrightarrow> key a = key b \<Longrightarrow> a = b"
  by (auto simp: keyed_def distinct_map inj_on_def)

lemma count_le_one: "keyed rows \<Longrightarrow> (\<And>r. P r \<Longrightarrow> key r = k) \<Longrightarrow> sql_count P rows \<le> 1"
proof -
  assume k: "keyed rows" "\<And>r. P r \<Longrightarrow> key r = k"
  have "distinct (map key (filter P rows))" using k(1) by (simp add: keyed_def distinct_map_filter)
  moreover have "set (map key (filter P rows)) \<subseteq> {k}" using k(2) by auto
  ultimately have "length (map key (filter P rows)) \<le> card {k}"
    by (metis card_mono distinct_card finite.emptyI finite.insertI)
  then show ?thesis by (simp add: sql_count_def)
qed

lemma find_key: "keyed rows \<Longrightarrow> r \<in> set rows \<Longrightarrow> find (\<lambda>q. key q = key r) rows = Some r"
  unfolding keyed_def by (rule find_unique[of key]) auto

end

subsection \<open>Ledgers\<close>

text \<open>
  A ledger has an \<open>AUTOINCREMENT\<close> id: the next id is kept apart from the rows, so a deleted
  id is never given out again. Rows are in the order of their ids.
\<close>

definition ledger_ok :: "('r \<Rightarrow> nat) \<Rightarrow> nat \<Rightarrow> 'r list \<Rightarrow> bool" where
  "ledger_ok rid next_id rows = (sorted_wrt (<) (map rid rows) \<and> (\<forall>r\<in>set rows. 0 < rid r \<and> rid r < next_id) \<and> 0 < next_id)"

text \<open>
  \<open>DELETE ... WHERE org = ? AND id NOT IN (SELECT id ... WHERE org = ? ORDER BY id DESC LIMIT n)\<close>.
\<close>

definition latest_ids :: "('r \<Rightarrow> nat) \<Rightarrow> ('r \<Rightarrow> bool) \<Rightarrow> nat \<Rightarrow> 'r list \<Rightarrow> nat list" where
  "latest_ids rid P n rows = take n (rev (sort (map rid (filter P rows))))"

definition trim_ledger :: "('r \<Rightarrow> nat) \<Rightarrow> ('r \<Rightarrow> bool) \<Rightarrow> nat \<Rightarrow> 'r list \<Rightarrow> 'r list" where
  "trim_ledger rid P n rows = sql_delete (\<lambda>r. P r \<and> rid r \<notin> set (latest_ids rid P n rows)) rows"

lemma ledger_append:
  "ledger_ok rid nx rows \<Longrightarrow> rid r = nx \<Longrightarrow> ledger_ok rid (Suc nx) (rows @ [r])"
  by (auto simp: ledger_ok_def sorted_wrt_append less_Suc_eq)

lemma ledger_filter: "ledger_ok rid nx rows \<Longrightarrow> ledger_ok rid nx (filter Q rows)"
  unfolding ledger_ok_def by (auto simp: sorted_wrt_map sorted_wrt_filter)

lemma ledger_trim: "ledger_ok rid nx rows \<Longrightarrow> ledger_ok rid nx (trim_ledger rid P n rows)"
  by (simp add: trim_ledger_def sql_delete_def ledger_filter)

lemma sorted_filter_ids:
  assumes "ledger_ok rid nx rows"
  shows "sort (map rid (filter P rows)) = map rid (filter P rows)"
proof -
  have "sorted_wrt (<) (map rid (filter P rows))"
    using assms by (auto simp: ledger_ok_def sorted_wrt_map sorted_wrt_filter)
  then have "sorted (map rid (filter P rows))"
    by (metis strict_sorted_imp_sorted)
  then show ?thesis by (rule sorted_sort_id)
qed

lemma trim_count:
  assumes "ledger_ok rid nx rows"
  shows "sql_count P (trim_ledger rid P n rows) \<le> n"
proof -
  let ?keep = "filter P (trim_ledger rid P n rows)"
  have d: "distinct (map rid rows)" using assms by (auto simp: ledger_ok_def sorted_wrt_less_distinct)
  then have "distinct (map rid ?keep)"
    by (simp add: trim_ledger_def sql_delete_def distinct_map_filter)
  moreover have "set (map rid ?keep) \<subseteq> set (latest_ids rid P n rows)"
    by (auto simp: trim_ledger_def sql_delete_def)
  ultimately have "length (map rid ?keep) \<le> card (set (latest_ids rid P n rows))"
    by (metis List.finite_set card_mono distinct_card)
  also have "\<dots> \<le> length (latest_ids rid P n rows)" by (rule card_length)
  also have "\<dots> \<le> n" by (simp add: latest_ids_def)
  finally show ?thesis by (simp add: sql_count_def)
qed

text \<open>The trim never drops the newest row of its own selection.\<close>

lemma trim_keeps_last:
  assumes "ledger_ok rid nx (rows @ [r])" "P r" "0 < n"
  shows "r \<in> set (trim_ledger rid P n (rows @ [r]))"
proof -
  have "latest_ids rid P n (rows @ [r]) = take n (rid r # rev (map rid (filter P rows)))"
    using sorted_filter_ids[OF assms(1), of P] assms(2) by (simp add: latest_ids_def)
  then have "rid r \<in> set (latest_ids rid P n (rows @ [r]))" using assms(3) by (cases n) auto
  then show ?thesis by (simp add: trim_ledger_def sql_delete_def)
qed

lemma trim_other: "\<not> P r \<Longrightarrow> r \<in> set (trim_ledger rid P n rows) \<longleftrightarrow> r \<in> set rows"
  by (auto simp: trim_ledger_def sql_delete_def)

lemma trim_subset: "set (trim_ledger rid P n rows) \<subseteq> set rows"
  by (auto simp: trim_ledger_def sql_delete_def)

end
