(* ===== verification/Unicode.thy ===== *)
theory Unicode
  imports Prelude "HOL-Library.Word"
begin

text \<open>
  JavaScript strings and their UTF-8 encoding. A JavaScript string is a sequence of 16-bit
  code units; \<open>TextEncoder.encode\<close> reads surrogate pairs as one code point and replaces
  every lone surrogate by U+FFFD. The well-formedness test of
  \<open>packages/shared/src/e2ee.ts\<close> (\<open>isWellFormedUnicode\<close>) is exactly the condition under
  which the encoding loses nothing, which is what the signed encodings rest on.
\<close>

type_synonym byte = "8 word"
type_synonym code_unit = "16 word"
type_synonym js_string = "code_unit list"

definition js :: "string \<Rightarrow> js_string" where
  "js s = map (\<lambda>c. word_of_nat (of_char c)) s"

subsection \<open>Surrogates and well-formedness\<close>

definition is_high :: "code_unit \<Rightarrow> bool" where
  "is_high u = (0xd800 \<le> unat u \<and> unat u \<le> 0xdbff)"

definition is_low :: "code_unit \<Rightarrow> bool" where
  "is_low u = (0xdc00 \<le> unat u \<and> unat u \<le> 0xdfff)"

lemma high_not_low: "is_high u \<Longrightarrow> \<not> is_low u"
  by (simp add: is_high_def is_low_def)

text \<open>\<open>isWellFormedUnicode\<close>: the index loop, with the pair consumed in one step.\<close>

fun is_well_formed_unicode :: "js_string \<Rightarrow> bool" where
  "is_well_formed_unicode [] = True"
| "is_well_formed_unicode (u # us) =
     (if is_high u then
        (case us of [] \<Rightarrow> False | v # vs \<Rightarrow> is_low v \<and> is_well_formed_unicode vs)
      else if is_low u then False
      else is_well_formed_unicode us)"

subsection \<open>Code points\<close>

definition pair_point :: "code_unit \<Rightarrow> code_unit \<Rightarrow> nat" where
  "pair_point u v = 0x10000 + (unat u - 0xd800) * 0x400 + (unat v - 0xdc00)"

fun code_points :: "js_string \<Rightarrow> nat list" where
  "code_points [] = []"
| "code_points (u # us) =
     (if is_high u then
        (case us of
           v # vs \<Rightarrow> if is_low v then pair_point u v # code_points vs else 0xfffd # code_points us
         | [] \<Rightarrow> [0xfffd])
      else if is_low u then 0xfffd # code_points us
      else unat u # code_points us)"

definition scalar :: "nat \<Rightarrow> bool" where
  "scalar c = (c < 0x110000)"

lemma unat_code_unit: "unat (u :: code_unit) < 0x10000"
  using unsigned_less[of u, where ?'a = nat] by simp

lemma pair_point_scalar:
  assumes "is_high u" "is_low v"
  shows "scalar (pair_point u v) \<and> 0x10000 \<le> pair_point u v"
proof -
  have "unat u - 0xd800 \<le> 0x3ff" "unat v - 0xdc00 \<le> 0x3ff"
    using assms unfolding is_high_def is_low_def by linarith+
  then show ?thesis unfolding pair_point_def scalar_def by linarith
qed

lemma code_points_scalar: "c \<in> set (code_points s) \<Longrightarrow> scalar c"
proof (induction s arbitrary: c rule: code_points.induct)
  case (2 u us)
  have u: "scalar (unat u)" using unat_code_unit[of u] by (simp add: scalar_def)
  have f: "scalar 0xfffd" by (simp add: scalar_def)
  show ?case
  proof (cases "is_high u")
    case True
    then show ?thesis
      using "2.prems" "2.IH"(1,2)[OF True] f pair_point_scalar[OF True]
      by (cases us) (auto split: if_splits)
  next
    case False
    then show ?thesis using "2.prems" "2.IH"(3,4)[OF False] f u by (auto split: if_splits)
  qed
qed simp

lemma pair_point_inj:
  assumes "is_high u" "is_low v" "is_high u'" "is_low v'" "pair_point u v = pair_point u' v'"
  shows "u = u' \<and> v = v'"
proof -
  define a b a' b' where "a = unat u - 0xd800" and "b = unat v - 0xdc00"
    and "a' = unat u' - 0xd800" and "b' = unat v' - 0xdc00"
  have bnd: "b < 0x400" "b' < 0x400"
    using assms(2,4) unfolding is_low_def b_def b'_def by linarith+
  have eq: "a * 0x400 + b = a' * 0x400 + b'"
    using assms(5) unfolding pair_point_def a_def b_def a'_def b'_def by linarith
  have "a = a'" using arg_cong[OF eq, of "\<lambda>x. x div 0x400"] bnd by simp
  with eq have ab: "a = a'" "b = b'" by simp_all
  have "unat u = unat u'" using ab(1) assms(1,3) unfolding is_high_def a_def a'_def by linarith
  moreover have "unat v = unat v'" using ab(2) assms(2,4) unfolding is_low_def b_def b'_def by linarith
  ultimately show ?thesis by (simp add: word_unat_eq_iff)
qed

lemma code_points_inj:
  "is_well_formed_unicode s \<Longrightarrow> is_well_formed_unicode t \<Longrightarrow> code_points s = code_points t \<Longrightarrow> s = t"
proof (induction s arbitrary: t rule: is_well_formed_unicode.induct)
  case 1
  then show ?case by (cases t) (auto split: if_splits list.splits)
next
  case (2 u us)
  from "2.prems"(3) obtain u' us' where t: "t = u' # us'"
    by (cases t) (auto split: if_splits list.splits)
  show ?case
  proof (cases "is_high u")
    case True
    with "2.prems"(1) obtain v vs where us: "us = v # vs" "is_low v" "is_well_formed_unicode vs"
      by (auto split: list.splits)
    have big: "0x10000 \<le> pair_point u v" using True us(2) pair_point_scalar by blast
    have hu': "is_high u'"
    proof (rule ccontr)
      assume "\<not> is_high u'"
      then show False using "2.prems" t us True big unat_code_unit[of u']
        by (auto split: if_splits)
    qed
    with "2.prems"(2) t obtain v' vs' where us': "us' = v' # vs'" "is_low v'" "is_well_formed_unicode vs'"
      by (auto split: list.splits)
    from "2.prems"(3) t us us' True hu'
    have "pair_point u v = pair_point u' v'" "code_points vs = code_points vs'" by auto
    then show ?thesis using pair_point_inj True us us' hu' t "2.IH"(1)[OF True us(1) us(3,3) ] 
      "2.IH"(1) by (metis us'(3))
  next
    case False
    with "2.prems"(1) have lo: "\<not> is_low u" "is_well_formed_unicode us" by (simp_all split: if_splits)
    have nh: "\<not> is_high u'"
    proof
      assume h: "is_high u'"
      with "2.prems"(2) t obtain v' vs' where "us' = v' # vs'" "is_low v'" by (auto split: list.splits)
      then show False using h "2.prems"(3) t False lo pair_point_scalar[of u' v'] unat_code_unit[of u]
        by auto
    qed
    with "2.prems"(2) t have lo': "\<not> is_low u'" "is_well_formed_unicode us'" by (simp_all split: if_splits)
    from "2.prems"(3) t False lo nh lo' have "unat u = unat u'" "code_points us = code_points us'" by auto
    then show ?thesis using "2.IH"(2)[OF False lo(1) lo(2) lo'(2)] t by (simp add: word_unat_eq_iff)
  qed
qed

subsection \<open>UTF-8\<close>

fun utf8_point :: "nat \<Rightarrow> nat list" where
  "utf8_point c =
     (if c < 0x80 then [c]
      else if c < 0x800 then [0xc0 + c div 64, 0x80 + c mod 64]
      else if c < 0x10000 then [0xe0 + c div 4096, 0x80 + (c div 64) mod 64, 0x80 + c mod 64]
      else [0xf0 + c div 262144, 0x80 + (c div 4096) mod 64, 0x80 + (c div 64) mod 64, 0x80 + c mod 64])"

declare utf8_point.simps [simp del]

definition utf8_nats :: "js_string \<Rightarrow> nat list" where
  "utf8_nats s = concat (map utf8_point (code_points s))"

text \<open>\<open>new TextEncoder().encode(s)\<close>.\<close>

definition utf8 :: "js_string \<Rightarrow> byte list" where
  "utf8 s = map word_of_nat (utf8_nats s)"

lemma utf8_point_byte: "scalar c \<Longrightarrow> b \<in> set (utf8_point c) \<Longrightarrow> b < 256"
  by (auto simp: utf8_point.simps scalar_def split: if_splits)

lemma utf8_nats_byte: "b \<in> set (utf8_nats s) \<Longrightarrow> b < 256"
  using utf8_point_byte code_points_scalar by (fastforce simp: utf8_nats_def)

lemma recombine2: "c div 64 = d div 64 \<Longrightarrow> c mod 64 = d mod 64 \<Longrightarrow> c = (d :: nat)"
  by (metis div_mult_mod_eq)

lemma recombine3:
  assumes "c div 4096 = d div 4096" "(c div 64) mod 64 = (d div 64) mod 64" "c mod 64 = (d :: nat) mod 64"
  shows "c = d"
proof -
  have "(c div 64) div 64 = (d div 64) div 64"
    using assms(1) by (simp add: div_mult2_eq[symmetric])
  then have "c div 64 = d div 64" using assms(2) by (rule recombine2)
  then show ?thesis using assms(3) by (rule recombine2)
qed

lemma recombine4:
  assumes "c div 262144 = d div 262144" "(c div 4096) mod 64 = (d div 4096) mod 64"
    "(c div 64) mod 64 = (d div 64) mod 64" "c mod 64 = (d :: nat) mod 64"
  shows "c = d"
proof -
  have "(c div 4096) div 64 = (d div 4096) div 64"
    using assms(1) by (simp add: div_mult2_eq[symmetric])
  then have "c div 4096 = d div 4096" using assms(2) by (rule recombine2)
  then show ?thesis using assms(3,4) by (rule recombine3)
qed

text \<open>The code is prefix free: the first byte tells the number of bytes.\<close>

lemma utf8_point_prefix:
  assumes "scalar c" "scalar d" "utf8_point c @ xs = utf8_point d @ ys"
  shows "c = d \<and> xs = ys"
proof -
  have bounds: "c < 0x110000" "d < 0x110000" using assms(1,2) by (simp_all add: scalar_def)
  have m: "c mod 64 < 64" "d mod 64 < 64" by simp_all
  consider (1) "c < 0x80" | (2) "0x80 \<le> c" "c < 0x800" | (3) "0x800 \<le> c" "c < 0x10000" | (4) "0x10000 \<le> c"
    by linarith
  then show ?thesis
  proof cases
    case 1
    then show ?thesis using assms(3) by (simp add: utf8_point.simps split: if_splits)
  next
    case 2
    then have "c div 64 < 32" by (simp add: less_mult_imp_div_less)
    with 2 show ?thesis using assms(3)
      by (simp add: utf8_point.simps split: if_splits) (blast intro: recombine2)
  next
    case 3
    then have "c div 4096 < 16" by (simp add: less_mult_imp_div_less)
    moreover have "d < 0x800 \<Longrightarrow> d div 64 < 32" by (simp add: less_mult_imp_div_less)
    ultimately show ?thesis using 3 assms(3)
      by (simp add: utf8_point.simps split: if_splits) (blast intro: recombine3)
  next
    case 4
    moreover have "d < 0x800 \<Longrightarrow> d div 64 < 32" "d < 0x10000 \<Longrightarrow> d div 4096 < 16"
      by (simp_all add: less_mult_imp_div_less)
    ultimately show ?thesis using assms(3)
      by (simp add: utf8_point.simps split: if_splits) (blast intro: recombine4)
  qed
qed

lemma utf8_points_inj:
  "(\<And>c. c \<in> set cs \<Longrightarrow> scalar c) \<Longrightarrow> (\<And>d. d \<in> set ds \<Longrightarrow> scalar d) \<Longrightarrow>
   concat (map utf8_point cs) = concat (map utf8_point ds) \<Longrightarrow> cs = ds"
proof (induction cs arbitrary: ds)
  case Nil
  then show ?case by (cases ds) (auto simp: utf8_point.simps split: if_splits)
next
  case (Cons c cs)
  then obtain d ds' where ds: "ds = d # ds'"
    by (cases ds) (auto simp: utf8_point.simps split: if_splits)
  have "c = d \<and> concat (map utf8_point cs) = concat (map utf8_point ds')"
    using Cons.prems ds by (intro utf8_point_prefix) auto
  then show ?case using Cons.IH[of ds'] Cons.prems(1,2) ds by auto
qed

lemma map_word_of_nat_inj:
  "(\<And>x. x \<in> set xs \<Longrightarrow> x < 256) \<Longrightarrow> (\<And>y. y \<in> set ys \<Longrightarrow> y < 256) \<Longrightarrow>
   map (word_of_nat :: nat \<Rightarrow> byte) xs = map word_of_nat ys \<Longrightarrow> xs = ys"
proof (induction xs arbitrary: ys)
  case (Cons x xs)
  then obtain y ys' where ys: "ys = y # ys'" by (cases ys) auto
  have "unat (word_of_nat x :: byte) = unat (word_of_nat y :: byte)" using Cons.prems(3) ys by simp
  then have "x = y" using Cons.prems(1,2) ys by (simp add: unat_of_nat take_bit_nat_eq_self)
  then show ?case using Cons ys by auto
qed simp

lemma utf8_inj:
  assumes "is_well_formed_unicode s" "is_well_formed_unicode t" "utf8 s = utf8 t"
  shows "s = t"
proof -
  have "map (word_of_nat :: nat \<Rightarrow> byte) (utf8_nats s) = map word_of_nat (utf8_nats t)"
    using assms(3) by (simp add: utf8_def)
  then have "utf8_nats s = utf8_nats t"
    by (rule map_word_of_nat_inj[rotated 2]) (auto intro: utf8_nats_byte)
  then have "code_points s = code_points t"
    unfolding utf8_nats_def by (rule utf8_points_inj[rotated 2]) (auto intro: code_points_scalar)
  then show ?thesis using assms(1,2) code_points_inj by blast
qed

end
