(* ===== verification/Protocol.thy ===== *)
theory Protocol
  imports Unicode
begin

text \<open>
  \<open>packages/shared/src/protocol.ts\<close>: the limits, error taxonomy and identifier grammars of
  the wire protocol, addresses, W3C trace context normalisation, and the sanitizers that
  make peer-controlled text safe for a terminal. An identifier is a \<open>string\<close> (every
  pattern below admits ASCII only); free text is a \<open>js_string\<close> of UTF-16 code units.
\<close>

subsection \<open>Limits\<close>

definition MAX_TASK_ID_LENGTH :: nat where "MAX_TASK_ID_LENGTH = 64"
definition MAX_OFFERED_TASKS :: nat where "MAX_OFFERED_TASKS = 50"
definition MAX_MESSAGE_BYTES :: nat where "MAX_MESSAGE_BYTES = 64000"
definition MAX_REPLY_BYTES :: nat where "MAX_REPLY_BYTES = 256000"
definition MAX_DETAIL_LENGTH :: nat where "MAX_DETAIL_LENGTH = 500"
definition CONTEXT_TTL_MS :: int where "CONTEXT_TTL_MS = 30 * 60000"
definition MAX_CONTEXT_TURNS :: int where "MAX_CONTEXT_TURNS = 10"
definition MAX_CONTEXTS :: nat where "MAX_CONTEXTS = 100"
definition RELAY_CALL_TIMEOUT_MS :: int where "RELAY_CALL_TIMEOUT_MS = 360000"
definition AGENT_TIMEOUT_MS :: int where "AGENT_TIMEOUT_MS = 300000"
definition MAILBOX_TTL_MS :: int where "MAILBOX_TTL_MS = 72 * 60 * 60000"
definition MAILBOX_TOMBSTONE_TTL_MS :: int where "MAILBOX_TOMBSTONE_TTL_MS = 24 * 60 * 60000"
definition MAILBOX_MAX_QUEUED_TASKS :: int where "MAILBOX_MAX_QUEUED_TASKS = 100"
definition MAILBOX_MAX_OUTSTANDING_PER_CALLER :: int where "MAILBOX_MAX_OUTSTANDING_PER_CALLER = 10"
definition MAILBOX_MAX_STORED_CIPHERTEXT_BYTES :: int where
  "MAILBOX_MAX_STORED_CIPHERTEXT_BYTES = 32 * 1024 * 1024"
definition MAILBOX_MAX_STARTS_PER_DAY :: nat where "MAILBOX_MAX_STARTS_PER_DAY = 30"
definition RATE_LIMIT_PER_HOUR :: nat where "RATE_LIMIT_PER_HOUR = 30"

subsection \<open>Error taxonomy\<close>

datatype relay_error =
  ReUnknownHandle | ReOffline | ReTimeout | ReCanceled | ReUnauthorized
| ReRateLimited | ReMessageTooLarge | ReProtocolError | ReBusy

datatype peer_failure =
  PfBusy | PfTimeout | PfAgentError | PfBlocked | PfTaskUnknown | PfContextUnknown

text \<open>The literal the enum value is written as on the wire.\<close>

fun relay_error_code :: "relay_error \<Rightarrow> string" where
  "relay_error_code ReUnknownHandle = ''unknown_handle''"
| "relay_error_code ReOffline = ''offline''"
| "relay_error_code ReTimeout = ''timeout''"
| "relay_error_code ReCanceled = ''canceled''"
| "relay_error_code ReUnauthorized = ''unauthorized''"
| "relay_error_code ReRateLimited = ''rate_limited''"
| "relay_error_code ReMessageTooLarge = ''message_too_large''"
| "relay_error_code ReProtocolError = ''protocol_error''"
| "relay_error_code ReBusy = ''busy''"

datatype call_state = Ringing | Answered | CallWorking

datatype agent_kind = Claude | Codex

subsection \<open>Identifier grammars\<close>

definition lower_alnum :: "char \<Rightarrow> bool" where
  "lower_alnum c = ((CHR ''a'' \<le> c \<and> c \<le> CHR ''z'') \<or> (CHR ''0'' \<le> c \<and> c \<le> CHR ''9''))"

definition upper_alpha :: "char \<Rightarrow> bool" where
  "upper_alpha c = (CHR ''A'' \<le> c \<and> c \<le> CHR ''Z'')"

definition lower_hex :: "char \<Rightarrow> bool" where
  "lower_hex c = ((CHR ''a'' \<le> c \<and> c \<le> CHR ''f'') \<or> (CHR ''0'' \<le> c \<and> c \<le> CHR ''9''))"

definition base64url_char :: "char \<Rightarrow> bool" where
  "base64url_char c = (lower_alnum c \<or> upper_alpha c \<or> c = CHR ''_'' \<or> c = CHR ''-'')"

text \<open>\<open>[a-z0-9][a-z0-9-]{lo,hi}\<close>, the shape of organizations, handles and task ids.\<close>

definition slug :: "nat \<Rightarrow> nat \<Rightarrow> string \<Rightarrow> bool" where
  "slug lo hi s = (case s of [] \<Rightarrow> False
     | c # cs \<Rightarrow> lower_alnum c \<and> list_all (\<lambda>d. lower_alnum d \<or> d = CHR ''-'') cs
                \<and> lo \<le> length cs \<and> length cs \<le> hi)"

definition org_re :: "string \<Rightarrow> bool" where "org_re = slug 1 19"
definition handle_re :: "string \<Rightarrow> bool" where "handle_re = slug 1 30"
definition task_id_re :: "string \<Rightarrow> bool" where "task_id_re = slug 0 63"

definition hex_of_length :: "nat \<Rightarrow> string \<Rightarrow> bool" where
  "hex_of_length n s = (length s = n \<and> list_all lower_hex s)"

definition sha256_hex_re :: "string \<Rightarrow> bool" where
  "sha256_hex_re = hex_of_length 64"

text \<open>\<open>/^(?!0{32}$)[0-9a-f]{32}$/\<close>, shared by correlation and message ids.\<close>

definition correlation_id_re :: "string \<Rightarrow> bool" where
  "correlation_id_re s = (hex_of_length 32 s \<and> s \<noteq> replicate 32 (CHR ''0''))"

definition message_id_re :: "string \<Rightarrow> bool" where
  "message_id_re s = (hex_of_length 32 s \<and> s \<noteq> replicate 32 (CHR ''0''))"

definition context_id_re :: "string \<Rightarrow> bool" where
  "context_id_re s = (take 4 s = ''ctx_'' \<and> length s = 26 \<and> list_all base64url_char (drop 4 s))"

lemma task_id_length: "task_id_re s \<Longrightarrow> 1 \<le> length s \<and> length s \<le> MAX_TASK_ID_LENGTH"
  by (auto simp: task_id_re_def slug_def MAX_TASK_ID_LENGTH_def split: list.splits)

lemma slug_no_slash: "slug lo hi s \<Longrightarrow> CHR ''/'' \<notin> set s"
  by (auto simp: slug_def lower_alnum_def list_all_iff split: list.splits)

lemma slug_no_dot: "slug lo hi s \<Longrightarrow> CHR ''.'' \<notin> set s"
  by (auto simp: slug_def lower_alnum_def list_all_iff split: list.splits)

subsection \<open>Addresses\<close>

definition format_address :: "string \<Rightarrow> string \<Rightarrow> string" where
  "format_address org handle = ''@'' @ org @ ''/'' @ handle"

text \<open>
  \<open>/^@(ORG)\/(HANDLE)$/\<close>: no body contains a slash, so the match splits at the first one.
\<close>

definition parse_address :: "string \<Rightarrow> (string \<times> string) option" where
  "parse_address addr = (case addr of [] \<Rightarrow> None
     | c # rest \<Rightarrow>
       if c \<noteq> CHR ''@'' then None
       else let org = takeWhile (\<lambda>d. d \<noteq> CHR ''/'') rest;
                tail = dropWhile (\<lambda>d. d \<noteq> CHR ''/'') rest
            in case tail of [] \<Rightarrow> None
               | _ # handle \<Rightarrow> if org_re org \<and> handle_re handle then Some (org, handle) else None)"

definition address_re :: "string \<Rightarrow> bool" where
  "address_re addr = (parse_address addr \<noteq> None)"

lemma parse_format_address:
  assumes "org_re org" "handle_re handle"
  shows "parse_address (format_address org handle) = Some (org, handle)"
proof -
  have "CHR ''/'' \<notin> set org" using assms(1) slug_no_slash by (simp add: org_re_def)
  then have "takeWhile (\<lambda>d. d \<noteq> CHR ''/'') (org @ ''/'' @ handle) = org"
    "dropWhile (\<lambda>d. d \<noteq> CHR ''/'') (org @ ''/'' @ handle) = ''/'' @ handle"
    by (auto simp: takeWhile_append dropWhile_append)
  then show ?thesis using assms by (simp add: parse_address_def format_address_def)
qed

lemma parse_address_Some:
  assumes "parse_address addr = Some (org, handle)"
  shows "addr = format_address org handle \<and> org_re org \<and> handle_re handle"
proof -
  obtain rest where addr: "addr = CHR ''@'' # rest"
    using assms by (cases addr) (auto simp: parse_address_def split: if_splits)
  obtain d tl where tail: "dropWhile (\<lambda>d. d \<noteq> CHR ''/'') rest = d # tl"
    using assms addr by (auto simp: parse_address_def Let_def split: list.splits)
  have "d = CHR ''/''" using tail by (metis (full_types) hd_dropWhile list.discI list.sel(1))
  moreover have "rest = takeWhile (\<lambda>d. d \<noteq> CHR ''/'') rest @ d # tl"
    using tail by (metis takeWhile_dropWhile_id)
  ultimately show ?thesis using assms addr tail
    by (auto simp: parse_address_def format_address_def Let_def split: if_splits)
qed

lemma format_address_inj:
  assumes "CHR ''/'' \<notin> set org" "CHR ''/'' \<notin> set org'" "format_address org h = format_address org' h'"
  shows "org = org' \<and> h = h'"
proof -
  have eq: "org @ ''/'' @ h = org' @ ''/'' @ h'" using assms(3) by (simp add: format_address_def)
  have "takeWhile (\<lambda>d. d \<noteq> CHR ''/'') (org @ ''/'' @ h) = org"
    "takeWhile (\<lambda>d. d \<noteq> CHR ''/'') (org' @ ''/'' @ h') = org'"
    using assms(1,2) by (auto simp: takeWhile_append)
  then show ?thesis using eq by simp
qed

subsection \<open>Trace context\<close>

text \<open>\<open>/^00-([0-9a-f]{32})-([0-9a-f]{16})-(0[01])$/\<close>; the groups are fixed slices.\<close>

definition traceparent_v00 :: "string \<Rightarrow> (string \<times> string) option" where
  "traceparent_v00 s =
     (let trace = take 32 (drop 3 s); parent = take 16 (drop 36 s); flags = drop 53 s
      in if length s = 55 \<and> take 3 s = ''00-'' \<and> hex_of_length 32 trace \<and> s ! 35 = CHR ''-''
            \<and> hex_of_length 16 parent \<and> s ! 52 = CHR ''-'' \<and> (flags = ''00'' \<or> flags = ''01'')
         then Some (trace, parent) else None)"

text \<open>
  A value as \<open>JSON.parse\<close> returns it, or an absent property. \<open>JNum\<close> is a safe integer and
  \<open>JOtherNum\<close> any other number, which every numeric field of the schemas refuses. Object
  keys are distinct.
\<close>

datatype js_value =
  JUndefined | JNull | JBool bool | JNum int | JOtherNum | JStr string
| JArr "js_value list" | JObj "(string \<times> js_value) list"

definition normalize_traceparent :: "string option \<Rightarrow> js_value \<Rightarrow> string option" where
  "normalize_traceparent correlation_id value = (case (correlation_id, value) of
     (Some cid, JStr v) \<Rightarrow> (case traceparent_v00 v of None \<Rightarrow> None
        | Some (trace, parent) \<Rightarrow>
            if trace \<noteq> cid \<or> parent = replicate 16 (CHR ''0'') then None else Some v)
   | _ \<Rightarrow> None)"

text \<open>
  A frame before validation is an unknown value. An object is copied, its \<open>traceparent\<close>
  kept only when it is well formed and names the frame's correlation id, and dropped
  otherwise; anything that is not a plain object passes unchanged.
\<close>

definition obj_get :: "(string \<times> js_value) list \<Rightarrow> string \<Rightarrow> js_value" where
  "obj_get kvs k = (case map_of kvs k of None \<Rightarrow> JUndefined | Some v \<Rightarrow> v)"

definition obj_delete :: "string \<Rightarrow> (string \<times> js_value) list \<Rightarrow> (string \<times> js_value) list" where
  "obj_delete k kvs = filter (\<lambda>kv. fst kv \<noteq> k) kvs"

fun obj_set :: "string \<Rightarrow> js_value \<Rightarrow> (string \<times> js_value) list \<Rightarrow> (string \<times> js_value) list" where
  "obj_set k v [] = [(k, v)]"
| "obj_set k v ((k', v') # kvs) = (if k = k' then (k, v) # kvs else (k', v') # obj_set k v kvs)"

definition normalize_trace_context :: "js_value \<Rightarrow> js_value" where
  "normalize_trace_context input = (case input of
     JObj kvs \<Rightarrow>
       (let cid = (case obj_get kvs ''correlation_id'' of JStr s \<Rightarrow> Some s | _ \<Rightarrow> None)
        in case normalize_traceparent cid (obj_get kvs ''traceparent'') of
             None \<Rightarrow> JObj (obj_delete ''traceparent'' kvs)
           | Some tp \<Rightarrow> JObj (obj_set ''traceparent'' (JStr tp) kvs))
   | _ \<Rightarrow> input)"

lemma obj_get_delete: "obj_get (obj_delete k kvs) k' = (if k' = k then JUndefined else obj_get kvs k')"
proof -
  have "map_of (filter (\<lambda>kv. fst kv \<noteq> k) kvs) k' = (if k' = k then None else map_of kvs k')"
    by (induction kvs) auto
  then show ?thesis by (simp add: obj_get_def obj_delete_def)
qed

lemma obj_get_set: "obj_get (obj_set k v kvs) k' = (if k' = k then v else obj_get kvs k')"
  by (induction k v kvs rule: obj_set.induct) (auto simp: obj_get_def)

subsection \<open>Terminal sanitizers\<close>

definition bidi_format :: "nat \<Rightarrow> bool" where
  "bidi_format n = (n = 0x61c \<or> n = 0x200e \<or> n = 0x200f \<or> (0x202a \<le> n \<and> n \<le> 0x202e)
     \<or> (0x2066 \<le> n \<and> n \<le> 0x2069))"

definition terminal_controls_and_bidi :: "code_unit \<Rightarrow> bool" where
  "terminal_controls_and_bidi u =
     (let n = unat u in n \<le> 0x8 \<or> (0xb \<le> n \<and> n \<le> 0x1f) \<or> (0x7f \<le> n \<and> n \<le> 0x9f) \<or> bidi_format n)"

definition all_controls_and_bidi :: "code_unit \<Rightarrow> bool" where
  "all_controls_and_bidi u =
     (let n = unat u in n \<le> 0x1f \<or> (0x7f \<le> n \<and> n \<le> 0x9f) \<or> bidi_format n)"

definition json_unescaped_terminal_chars :: "code_unit \<Rightarrow> bool" where
  "json_unescaped_terminal_chars u =
     (let n = unat u in (0x7f \<le> n \<and> n \<le> 0x9f) \<or> bidi_format n)"

definition replace_class :: "(code_unit \<Rightarrow> bool) \<Rightarrow> js_string \<Rightarrow> js_string" where
  "replace_class cls s = map (\<lambda>u. if cls u then 0x20 else u) s"

definition sanitize_terminal_output :: "js_string \<Rightarrow> js_string" where
  "sanitize_terminal_output s = replace_class terminal_controls_and_bidi s"

definition sanitize_terminal_cell :: "js_string \<Rightarrow> js_string" where
  "sanitize_terminal_cell s = replace_class all_controls_and_bidi s"

text \<open>The length cut counts code units; a high surrogate left at the cut is trimmed.\<close>

definition sanitize_detail :: "js_string \<Rightarrow> nat \<Rightarrow> js_string" where
  "sanitize_detail detail mx =
     (let cleaned = replace_class all_controls_and_bidi detail
      in if length cleaned \<le> mx then cleaned
         else let cut = take mx cleaned
              in if cut \<noteq> [] \<and> is_high (last cut) then butlast cut else cut)"

text \<open>\<open>n.toString(16).padStart(4, "0")\<close> for a code unit, as code units.\<close>

definition hex_digit :: "nat \<Rightarrow> code_unit" where
  "hex_digit d = (if d < 10 then word_of_nat (0x30 + d) else word_of_nat (0x57 + d))"

definition hex4 :: "nat \<Rightarrow> js_string" where
  "hex4 n = [hex_digit (n div 4096 mod 16), hex_digit (n div 256 mod 16), hex_digit (n div 16 mod 16), hex_digit (n mod 16)]"

text \<open>
  \<open>stringifyTerminalSafeJson\<close> after \<open>JSON.stringify\<close>: the serialized text with the
  characters JSON leaves literal rewritten as \<open>\u\<close> escapes.
\<close>

definition terminal_safe_json :: "js_string \<Rightarrow> js_string" where
  "terminal_safe_json s =
     concat (map (\<lambda>u. if json_unescaped_terminal_chars u then [0x5c, 0x75] @ hex4 (unat u) else [u]) s)"

lemma space_not_class [simp]:
  "\<not> terminal_controls_and_bidi 0x20" "\<not> all_controls_and_bidi 0x20"
  by (simp_all add: terminal_controls_and_bidi_def all_controls_and_bidi_def bidi_format_def Let_def)

lemma replace_class_clean: "\<not> cls 0x20 \<Longrightarrow> u \<in> set (replace_class cls s) \<Longrightarrow> \<not> cls u"
  by (auto simp: replace_class_def)

lemma replace_class_length [simp]: "length (replace_class cls s) = length s"
  by (simp add: replace_class_def)

lemma class_not_surrogate:
  "all_controls_and_bidi u \<Longrightarrow> \<not> is_high u \<and> \<not> is_low u"
  "terminal_controls_and_bidi u \<Longrightarrow> \<not> is_high u \<and> \<not> is_low u"
  by (auto simp: all_controls_and_bidi_def terminal_controls_and_bidi_def bidi_format_def is_high_def is_low_def Let_def)

lemma space_not_surrogate [simp]: "\<not> is_high 0x20" "\<not> is_low 0x20"
  by (simp_all add: is_high_def is_low_def)

lemma replace_class_surrogates:
  assumes "\<And>u. cls u \<Longrightarrow> \<not> is_high u \<and> \<not> is_low u"
  shows "is_well_formed_unicode (replace_class cls s) = is_well_formed_unicode s"
  using assms
  by (induction s rule: is_well_formed_unicode.induct)
     (auto simp: replace_class_def split: list.splits)

text \<open>Cutting a well-formed string leaves at most a high surrogate hanging.\<close>

lemma take_well_formed:
  "is_well_formed_unicode s \<Longrightarrow>
   is_well_formed_unicode (if take n s \<noteq> [] \<and> is_high (last (take n s)) then butlast (take n s) else take n s)"
proof (induction s arbitrary: n rule: is_well_formed_unicode.induct)
  case (2 u us)
  show ?case
  proof (cases n)
    case (Suc m)
    show ?thesis
    proof (cases "is_high u")
      case True
      then obtain v vs where us: "us = v # vs" "is_low v" "is_well_formed_unicode vs"
        using "2.prems" by (auto split: list.splits)
      show ?thesis
      proof (cases m)
        case (Suc k)
        have nv: "\<not> is_high v" using us(2) high_not_low by blast
        obtain T where T: "take k vs = T" by simp
        have IH: "is_well_formed_unicode (if T \<noteq> [] \<and> is_high (last T) then butlast T else T)"
          using "2.IH"(1)[OF True us(1) us(3), of k] unfolding T .
        have tk: "take n (u # us) = u # v # T" using us(1) Suc \<open>n = Suc m\<close> T by simp
        show ?thesis unfolding tk using IH True us(2) nv by (cases T) (auto split: if_splits)
      qed (use True \<open>n = Suc m\<close> in simp)
    next
      case False
      then have wf: "\<not> is_low u" "is_well_formed_unicode us" using "2.prems" by (simp_all split: if_splits)
      obtain T where T: "take m us = T" by simp
      have IH: "is_well_formed_unicode (if T \<noteq> [] \<and> is_high (last T) then butlast T else T)"
        using "2.IH"(2)[OF False wf, of m] unfolding T .
      have tk: "take n (u # us) = u # T" using Suc T by simp
      show ?thesis unfolding tk using IH False wf(1) by (cases T) (auto split: if_splits)
    qed
  qed simp
qed simp

lemma sanitize_detail_well_formed:
  "is_well_formed_unicode s \<Longrightarrow> is_well_formed_unicode (sanitize_detail s mx)"
  using replace_class_surrogates[of all_controls_and_bidi s] class_not_surrogate(1)
    take_well_formed[of "replace_class all_controls_and_bidi s" mx]
  by (auto simp: sanitize_detail_def Let_def)

lemma sanitize_detail_length: "length (sanitize_detail s mx) \<le> mx"
  by (auto simp: sanitize_detail_def Let_def)

lemma sanitize_detail_subset: "set (sanitize_detail s mx) \<subseteq> set (replace_class all_controls_and_bidi s)"
proof -
  have "set (butlast (take mx r)) \<subseteq> set r" "set (take mx r) \<subseteq> set r" for r :: js_string
    by (auto dest: in_set_butlastD in_set_takeD)
  then show ?thesis unfolding sanitize_detail_def Let_def by (simp del: butlast_take)
qed

lemma sanitize_detail_clean: "u \<in> set (sanitize_detail s mx) \<Longrightarrow> \<not> all_controls_and_bidi u"
  using sanitize_detail_subset[of s mx] replace_class_clean[of all_controls_and_bidi u s] by auto

lemma unat_code_unit_of_nat: "n < 0x10000 \<Longrightarrow> unat (word_of_nat n :: code_unit) = n"
  by (simp add: unat_of_nat take_bit_nat_eq_self)

lemma js_unit_inj: "(word_of_nat (of_char c) :: code_unit) = word_of_nat (of_char d) \<Longrightarrow> c = d"
proof -
  assume "(word_of_nat (of_char c) :: code_unit) = word_of_nat (of_char d)"
  then have "unat (word_of_nat (of_char c) :: code_unit) = unat (word_of_nat (of_char d) :: code_unit)" by simp
  moreover have "unat (word_of_nat (of_char e) :: code_unit) = of_char e" for e :: char
    by (rule unat_code_unit_of_nat, rule less_trans[of _ 256]) simp_all
  ultimately have "(of_char c :: nat) = of_char d" by simp
  then show "c = d" by (metis char_of_char)
qed

lemma js_inj: "js s = js t \<Longrightarrow> s = t"
proof (induction s arbitrary: t)
  case (Cons c s)
  then show ?case by (cases t) (auto simp: js_def dest: js_unit_inj)
qed (simp add: js_def)

lemma js_eq_iff: "js s = js t \<longleftrightarrow> s = t"
  by (auto dest: js_inj)

lemma hex4_clean: "u \<in> set (hex4 n) \<Longrightarrow> \<not> json_unescaped_terminal_chars u"
proof -
  have d: "\<not> json_unescaped_terminal_chars (hex_digit d)" if "d < 16" for d
  proof -
    have "unat (hex_digit d) < 0x7f"
      unfolding hex_digit_def
      using that unat_code_unit_of_nat[of "0x30 + d"] unat_code_unit_of_nat[of "0x57 + d"]
      by (simp del: of_nat_add)
    then show ?thesis by (simp add: json_unescaped_terminal_chars_def bidi_format_def Let_def)
  qed
  show "u \<in> set (hex4 n) \<Longrightarrow> \<not> json_unescaped_terminal_chars u"
    using d by (auto simp: hex4_def)
qed

lemma terminal_safe_json_clean: "u \<in> set (terminal_safe_json s) \<Longrightarrow> \<not> json_unescaped_terminal_chars u"
  using hex4_clean
  by (auto simp: terminal_safe_json_def json_unescaped_terminal_chars_def bidi_format_def Let_def split: if_splits)

subsection \<open>Properties\<close>

text \<open>
  Parsing an address gives an organization and a handle exactly when the text is their
  formatted address and both match their patterns: \<open>parseAddress\<close> and \<open>formatAddress\<close> are
  inverse and an address names one pair.
\<close>

theorem address_round_trip:
  "parse_address addr = Some (org, handle) \<longleftrightarrow>
   addr = format_address org handle \<and> org_re org \<and> handle_re handle"
  using parse_format_address parse_address_Some by blast

text \<open>
  A sanitized error detail is within its length limit and holds no control or bidi
  formatting character, and cutting it never leaves half a surrogate pair.
\<close>

theorem sanitize_detail_safe:
  assumes "is_well_formed_unicode s"
  shows "length (sanitize_detail s mx) \<le> mx \<and>
    list_all (\<lambda>u. \<not> all_controls_and_bidi u) (sanitize_detail s mx) \<and>
    is_well_formed_unicode (sanitize_detail s mx)"
  using sanitize_detail_length sanitize_detail_clean sanitize_detail_well_formed[OF assms]
  by (auto simp: list_all_iff)

lemma sanitize_detail_safe_witness:
  "sanitize_detail [0x1b, 0x41, 0xd83d, 0xde00] 3 = [0x20, 0x41] \<and>
   is_well_formed_unicode (sanitize_detail [0x1b, 0x41, 0xd83d, 0xde00] 3)"
proof -
  have wf: "is_well_formed_unicode [0x1b, 0x41, 0xd83d, 0xde00]" by (simp add: is_high_def is_low_def)
  have "sanitize_detail [0x1b, 0x41, 0xd83d, 0xde00] 3 = [0x20, 0x41]"
    by (simp add: sanitize_detail_def replace_class_def all_controls_and_bidi_def bidi_format_def
        is_high_def Let_def)
  then show ?thesis using sanitize_detail_safe[OF wf, of 3] by (simp del: is_well_formed_unicode.simps)
qed

end
