(* ===== verification/CallLifecycle.thy ===== *)
theory CallLifecycle
  imports Protocol
begin

text \<open>
  \<open>apps/relay/src/call-lifecycle.ts\<close>: the lifecycle of an authorized call, from the
  principal authenticated by a route to a terminal reason, and the rank check that keeps
  duplicate or backward listener frames from moving a call backward.
\<close>

record principal =
  pr_organization :: string
  pr_participant :: string
  pr_credential_generation :: int

text \<open>The part of \<open>Identity\<close> (\<open>tenant.ts\<close>) a lifecycle is built from.\<close>

datatype org_role = Admin | Member

record identity =
  id_org :: string
  id_handle :: string
  id_agent_id :: string
  id_role :: org_role
  id_recovery_generation :: int

datatype live_phase = PhSubmitted | PhAccepted | PhWorking

datatype call_terminal = CtCompleted | CtFailed | CtCanceled | CtExpired

record call_lifecycle =
  lc_principal :: principal
  lc_phase :: live_phase
  lc_deadline :: int
  lc_terminal :: "call_terminal option"

fun phase_rank :: "live_phase \<Rightarrow> nat" where
  "phase_rank PhSubmitted = 0"
| "phase_rank PhAccepted = 1"
| "phase_rank PhWorking = 2"

definition team_call_principal :: "identity \<Rightarrow> principal" where
  "team_call_principal i =
     \<lparr>pr_organization = id_org i, pr_participant = id_handle i,
      pr_credential_generation = id_recovery_generation i\<rparr>"

definition begin_authorized_call :: "principal \<Rightarrow> int \<Rightarrow> call_lifecycle" where
  "begin_authorized_call p deadline =
     \<lparr>lc_principal = p, lc_phase = PhSubmitted, lc_deadline = deadline, lc_terminal = None\<rparr>"

definition advance_authorized_call :: "call_lifecycle \<Rightarrow> live_phase \<Rightarrow> call_lifecycle" where
  "advance_authorized_call lc requested =
     (if lc_terminal lc \<noteq> None \<or> phase_rank requested \<le> phase_rank (lc_phase lc) then lc
      else lc\<lparr>lc_phase := requested\<rparr>)"

definition terminate_authorized_call :: "call_lifecycle \<Rightarrow> call_terminal \<Rightarrow> call_lifecycle" where
  "terminate_authorized_call lc t =
     (if lc_terminal lc \<noteq> None then lc else lc\<lparr>lc_terminal := Some t\<rparr>)"

definition expire_authorized_call :: "call_lifecycle \<Rightarrow> int \<Rightarrow> call_lifecycle option" where
  "expire_authorized_call lc now =
     (if now \<ge> lc_deadline lc then Some (terminate_authorized_call lc CtExpired) else None)"

text \<open>
  One call as a run of the three operations. The order of frames is the network's: any
  sequence of requests may arrive.
\<close>

datatype lifecycle_event = Advance live_phase | Terminate call_terminal | ExpireAt int

fun lifecycle_step :: "call_lifecycle \<Rightarrow> lifecycle_event \<Rightarrow> call_lifecycle" where
  "lifecycle_step lc (Advance p) = advance_authorized_call lc p"
| "lifecycle_step lc (Terminate t) = terminate_authorized_call lc t"
| "lifecycle_step lc (ExpireAt now) = or_default (expire_authorized_call lc now) lc"

fun lifecycle_run :: "call_lifecycle \<Rightarrow> lifecycle_event list \<Rightarrow> call_lifecycle" where
  "lifecycle_run lc [] = lc"
| "lifecycle_run lc (e # es) = lifecycle_run (lifecycle_step lc e) es"

lemma lifecycle_step_rank: "phase_rank (lc_phase lc) \<le> phase_rank (lc_phase (lifecycle_step lc e))"
  by (cases e) (auto simp: advance_authorized_call_def terminate_authorized_call_def
      expire_authorized_call_def)

lemma lifecycle_step_frame:
  "lc_principal (lifecycle_step lc e) = lc_principal lc"
  "lc_deadline (lifecycle_step lc e) = lc_deadline lc"
  by (cases e; auto simp: advance_authorized_call_def terminate_authorized_call_def
      expire_authorized_call_def)+

lemma lifecycle_step_terminal:
  "lc_terminal lc = Some t \<Longrightarrow> lifecycle_step lc e = lc"
  by (cases e) (auto simp: advance_authorized_call_def terminate_authorized_call_def
      expire_authorized_call_def)

lemma lifecycle_run_rank: "phase_rank (lc_phase lc) \<le> phase_rank (lc_phase (lifecycle_run lc es))"
proof (induction es arbitrary: lc)
  case (Cons e es)
  then show ?case using lifecycle_step_rank[of lc e] by (force intro: order_trans)
qed simp

lemma lifecycle_run_frame:
  "lc_principal (lifecycle_run lc es) = lc_principal lc \<and> lc_deadline (lifecycle_run lc es) = lc_deadline lc"
  by (induction es arbitrary: lc) (auto simp: lifecycle_step_frame)

lemma lifecycle_run_terminal: "lc_terminal lc = Some t \<Longrightarrow> lifecycle_run lc es = lc"
  by (induction es) (auto simp: lifecycle_step_terminal)

subsection \<open>Properties\<close>

text \<open>
  C38: However frames are duplicated or reordered, a call's phase never moves backward, its
  principal and deadline never change, and once terminal it never changes at all.
\<close>

theorem lifecycle_never_regresses:
  "phase_rank (lc_phase lc) \<le> phase_rank (lc_phase (lifecycle_run lc es)) \<and>
   lc_principal (lifecycle_run lc es) = lc_principal lc \<and>
   lc_deadline (lifecycle_run lc es) = lc_deadline lc \<and>
   (case lc_terminal lc of None \<Rightarrow> True | Some t \<Rightarrow> lifecycle_run lc es = lc)"
  using lifecycle_run_rank lifecycle_run_frame lifecycle_run_terminal by (auto split: option.splits)

end
