(* ===== verification/AuditCommon.thy ===== *)
theory AuditCommon
  imports CallLifecycle
begin

text \<open>
  What the two writers of the audit ledger share (\<open>apps/relay/src/events.ts\<close>): the HTTP
  handlers, which write it in their own batch, and the mailbox, which drains its outbox.
\<close>

definition MAX_RETAINED_ORG_AUDIT_EVENTS :: nat where
  "MAX_RETAINED_ORG_AUDIT_EVENTS = 10000"

datatype audit_action = ActionC | ActionU

end
