(* ===== verification/RelayDb.thy ===== *)
theory RelayDb
  imports Tables AuditCommon
begin

text \<open>
  The D1 database the relay's HTTP handlers share: one record with a field per table
  (\<open>apps/relay/migrations\<close>), and the audit ledger of \<open>apps/relay/src/events.ts\<close>. Every
  handler of the theories that import this one is a function on \<open>relay_db\<close>.
\<close>

subsection \<open>Rows\<close>

record handle_row =
  hn_org :: string
  hn_handle :: string
  hn_token_hash :: string
  hn_agent_kind :: "agent_kind option"
  hn_created_at :: int
  hn_role :: org_role
  hn_agent_id :: string
  hn_recovery_hash :: "string option"
  hn_recovery_generation :: int
  hn_recovery_redeemed_at :: "int option"

record invite_row =
  iv_token_hash :: string
  iv_org :: string
  iv_created_by :: "string option"
  iv_created_at :: int
  iv_expires_at :: int
  iv_description :: string
  iv_role :: org_role
  iv_used_at :: "int option"
  iv_used_by :: "string option"
  iv_revoked_at :: "int option"

datatype audit_event =
  OrgInviteIssue | OrgInviteRedeem | OrgInviteRevoke
| CallSubmit | CallAccept | CallComplete | CallFail | CallCancel | CallTimeout
| AuditRetentionUpdate | AuditHoldCreate | AuditHoldRelease
| CredentialRecoveryIssue | CredentialRecoveryRedeem

datatype audit_actor = ActorHandle | ActorBootstrap | ActorInvite | ActorSystem | ActorRecovery

datatype audit_target = TargetInvite | TargetHandle | TargetCall | TargetRetentionPolicy | TargetLegalHold

record org_audit =
  oa_event_key :: "string option"
  oa_event :: audit_event
  oa_action :: audit_action
  oa_org :: string
  oa_actor :: string
  oa_actor_type :: audit_actor
  oa_target_type :: audit_target
  oa_target_id :: string
  oa_target_role :: "org_role option"
  oa_actor_ip :: "string option"
  oa_actor_country :: "string option"
  oa_description :: string
  oa_at :: int

record ledger_row =
  lr_id :: nat
  lr_audit :: org_audit

record receipt_row =
  rr_org :: string
  rr_handle :: string
  rr_consumed_generation :: int
  rr_operation_id :: string
  rr_consumed_recovery_hash :: string
  rr_client_token_hash :: string
  rr_client_public_id :: string
  rr_successor_recovery_hash :: string
  rr_successor_recovery_public_id :: string
  rr_committed_at :: int
  rr_expires_at :: int

record eviction_row =
  er_org :: string
  er_handle :: string
  er_recovery_generation :: int
  er_attempts :: int
  er_next_attempt :: int
  er_last_attempt :: "int option"

record identity_key_row =
  ik_org :: string
  ik_handle :: string
  ik_identity_pub :: string
  ik_relay_origin :: string
  ik_address :: string
  ik_created_at :: int

record encryption_key_row =
  xk_org :: string
  xk_handle :: string
  xk_key_id :: string
  xk_suite :: string
  xk_pub :: string
  xk_epoch :: int
  xk_not_before :: int
  xk_not_after :: int
  xk_prev :: "string option"
  xk_relay_origin :: string
  xk_address :: string
  xk_signature :: string
  xk_created_at :: int

record policy_row =
  pl_org :: string
  pl_event_retention_days :: int
  pl_version :: int
  pl_updated_by :: string
  pl_updated_at :: int
  pl_last_request_id :: string

record policy_request_row =
  pq_org :: string
  pq_request_id :: string
  pq_requested_days :: int
  pq_expected_version :: int
  pq_resulting_version :: int
  pq_actor :: string
  pq_at :: int

record hold_row =
  hd_org :: string
  hd_hold_id :: string
  hd_reason :: string
  hd_created_by :: string
  hd_created_at :: int
  hd_create_request_id :: string
  hd_released_by :: "string option"
  hd_released_at :: "int option"
  hd_release_request_id :: "string option"

record checkpoint =
  cp_org_event_id :: nat
  cp_org_event_count :: nat
  cp_roster_event_id :: nat
  cp_roster_event_count :: nat

record ack_row =
  ak_org :: string
  ak_checkpoint :: checkpoint
  ak_acknowledged_by :: string
  ak_acknowledged_at :: int

text \<open>Rows of \<open>roster_events\<close>; the relay only reads them.\<close>

record roster_row =
  ro_id :: nat
  ro_org :: string
  ro_event :: string
  ro_action_type :: string
  ro_roster_id :: "string option"
  ro_actor :: string
  ro_actor_type :: string
  ro_target_type :: "string option"
  ro_target_id :: "string option"
  ro_actor_ip :: "string option"
  ro_actor_country :: "string option"
  ro_description :: string
  ro_at :: int

record relay_db =
  rd_handles :: "handle_row list"
  rd_invites :: "invite_row list"
  rd_events :: "ledger_row list"
  rd_next_event :: nat
  rd_receipts :: "receipt_row list"
  rd_evictions :: "eviction_row list"
  rd_identity_keys :: "identity_key_row list"
  rd_encryption_keys :: "encryption_key_row list"
  rd_policies :: "policy_row list"
  rd_policy_requests :: "policy_request_row list"
  rd_holds :: "hold_row list"
  rd_acks :: "ack_row list"
  rd_roster :: "roster_row list"

definition empty_db :: relay_db where
  "empty_db = \<lparr>rd_handles = [], rd_invites = [], rd_events = [], rd_next_event = 1,
     rd_receipts = [], rd_evictions = [], rd_identity_keys = [], rd_encryption_keys = [],
     rd_policies = [], rd_policy_requests = [], rd_holds = [], rd_acks = [], rd_roster = []\<rparr>"

subsection \<open>Keys of the tables\<close>

definition handle_key :: "handle_row \<Rightarrow> string \<times> string" where
  "handle_key r = (hn_org r, hn_handle r)"

definition receipt_key :: "receipt_row \<Rightarrow> string \<times> string \<times> int \<times> string" where
  "receipt_key r = (rr_org r, rr_handle r, rr_consumed_generation r, rr_operation_id r)"

definition eviction_key :: "eviction_row \<Rightarrow> string \<times> string" where
  "eviction_key r = (er_org r, er_handle r)"

definition identity_key_of :: "identity_key_row \<Rightarrow> string \<times> string" where
  "identity_key_of r = (ik_org r, ik_handle r)"

definition encryption_key_of :: "encryption_key_row \<Rightarrow> string \<times> string \<times> int" where
  "encryption_key_of r = (xk_org r, xk_handle r, xk_epoch r)"

definition policy_request_key :: "policy_request_row \<Rightarrow> string \<times> string" where
  "policy_request_key r = (pq_org r, pq_request_id r)"

definition hold_key :: "hold_row \<Rightarrow> string \<times> string" where
  "hold_key r = (hd_org r, hd_hold_id r)"

interpretation handles_table: keyed_table handle_key .
interpretation invites_table: keyed_table iv_token_hash .
interpretation receipts_table: keyed_table receipt_key .
interpretation evictions_table: keyed_table eviction_key .
interpretation identity_table: keyed_table identity_key_of .
interpretation encryption_table: keyed_table encryption_key_of .
interpretation policies_table: keyed_table pl_org .
interpretation policy_requests_table: keyed_table policy_request_key .
interpretation holds_table: keyed_table hold_key .
interpretation acks_table: keyed_table ak_org .

subsection \<open>Answers\<close>

text \<open>
  A JSON answer: a success body, a status with the \<open>error\<close> it names, or an exception no
  handler catches, which the framework answers with a bare 500.
\<close>

datatype 'a http = Ok 'a | Refuse nat string | Uncaught

text \<open>
  A batch as the handler sees it: it may commit, be rejected, or commit and lose its reply.
  The last two, and a failed constraint, are an exception at the call.
\<close>

datatype batch_fate = Commits | Rejects | LosesReply

definition run_batch :: "batch_fate \<Rightarrow> (relay_db \<Rightarrow> (relay_db \<times> 'c) option) \<Rightarrow> relay_db \<Rightarrow> relay_db \<times> 'c option" where
  "run_batch fate batch db = (case batch db of
     None \<Rightarrow> (db, None)
   | Some (db', changes) \<Rightarrow>
       (case fate of Commits \<Rightarrow> (db', Some changes) | Rejects \<Rightarrow> (db, None) | LosesReply \<Rightarrow> (db', None)))"

lemma run_batch_cases:
  "run_batch fate batch db = (db', r) \<Longrightarrow> db' = db \<and> r = None \<or>
   (\<exists>c. batch db = Some (db', c) \<and> (r = Some c \<or> r = None))"
  by (auto simp: run_batch_def split: option.splits batch_fate.splits)

lemma run_batch_Some: "run_batch fate batch db = (db', Some c) \<Longrightarrow> batch db = Some (db', c)"
  by (auto simp: run_batch_def split: option.splits batch_fate.splits)

subsection \<open>The organization ledger\<close>

text \<open>
  \<open>orgAuditStatement\<close> with its two conditions: \<open>None\<close> where \<open>event_key\<close>, which is unique
  unless it is null, is taken. \<open>previous-change\<close> writes only when the statement before it
  in the batch changed a row.
\<close>

definition ledger_insert :: "org_audit \<Rightarrow> relay_db \<Rightarrow> relay_db option" where
  "ledger_insert a db =
     (if oa_event_key a \<noteq> None \<and> sql_exists (\<lambda>r. oa_event_key (lr_audit r) = oa_event_key a) (rd_events db)
      then None
      else Some (db\<lparr>rd_events := rd_events db @ [\<lparr>lr_id = rd_next_event db, lr_audit = a\<rparr>],
                    rd_next_event := Suc (rd_next_event db)\<rparr>))"

definition org_audit_statement :: "org_audit \<Rightarrow> bool \<Rightarrow> nat \<Rightarrow> relay_db \<Rightarrow> relay_db option" where
  "org_audit_statement a previous_change changes db =
     (if previous_change \<and> \<not> 0 < changes then Some db else ledger_insert a db)"

definition of_org :: "string \<Rightarrow> ledger_row \<Rightarrow> bool" where
  "of_org org r = (oa_org (lr_audit r) = org)"

definition org_audit_trim_statement :: "string \<Rightarrow> relay_db \<Rightarrow> relay_db" where
  "org_audit_trim_statement org db =
     db\<lparr>rd_events := trim_ledger lr_id (of_org org) MAX_RETAINED_ORG_AUDIT_EVENTS (rd_events db)\<rparr>"

text \<open>The two closing statements of most batches.\<close>

definition audit_and_trim :: "org_audit \<Rightarrow> nat \<Rightarrow> relay_db \<Rightarrow> relay_db option" where
  "audit_and_trim a changes db =
     map_option (org_audit_trim_statement (oa_org a)) (org_audit_statement a True changes db)"

subsection \<open>What the ledger keeps\<close>

definition event_key_of :: "ledger_row \<Rightarrow> string option" where
  "event_key_of r = oa_event_key (lr_audit r)"

definition event_keys :: "ledger_row list \<Rightarrow> string option list" where
  "event_keys rows = map event_key_of (filter (\<lambda>r. event_key_of r \<noteq> None) rows)"

definition events_ok :: "relay_db \<Rightarrow> bool" where
  "events_ok db = (ledger_ok lr_id (rd_next_event db) (rd_events db) \<and> distinct (event_keys (rd_events db)))"

lemma events_ok_empty: "events_ok empty_db"
  by (simp add: events_ok_def empty_db_def ledger_ok_def event_keys_def)

lemma event_keys_filter: "distinct (event_keys rows) \<Longrightarrow> distinct (event_keys (filter Q rows))"
proof -
  assume "distinct (event_keys rows)"
  then have "distinct (map event_key_of (filter Q (filter (\<lambda>r. event_key_of r \<noteq> None) rows)))"
    unfolding event_keys_def by (rule distinct_map_filter)
  then show ?thesis unfolding event_keys_def filter_filter by (simp add: conj_commute)
qed

lemma ledger_insert_Some:
  assumes "ledger_insert a db = Some db'"
  shows "db' = db\<lparr>rd_events := rd_events db @ [\<lparr>lr_id = rd_next_event db, lr_audit = a\<rparr>],
      rd_next_event := Suc (rd_next_event db)\<rparr>"
    and "oa_event_key a \<noteq> None \<Longrightarrow> oa_event_key a \<notin> event_key_of ` set (rd_events db)"
proof -
  show "db' = db\<lparr>rd_events := rd_events db @ [\<lparr>lr_id = rd_next_event db, lr_audit = a\<rparr>],
      rd_next_event := Suc (rd_next_event db)\<rparr>"
    using assms by (simp add: ledger_insert_def split: if_splits)
  assume "oa_event_key a \<noteq> None"
  then have "\<forall>r\<in>set (rd_events db). event_key_of r \<noteq> oa_event_key a"
    using assms by (simp add: ledger_insert_def event_key_of_def split: if_splits)
  then show "oa_event_key a \<notin> event_key_of ` set (rd_events db)" by force
qed

lemma events_ok_insert:
  assumes "events_ok db" "ledger_insert a db = Some db'"
  shows "events_ok db'"
proof -
  note db' = ledger_insert_Some(1)[OF assms(2)] and fresh = ledger_insert_Some(2)[OF assms(2)]
  have "distinct (event_keys (rd_events db @ [\<lparr>lr_id = rd_next_event db, lr_audit = a\<rparr>]))"
    using assms(1) fresh by (auto simp: events_ok_def event_keys_def event_key_of_def)
  then show ?thesis using assms(1) unfolding db' events_ok_def by (simp add: ledger_append)
qed

lemma events_ok_trim: "events_ok db \<Longrightarrow> events_ok (org_audit_trim_statement org db)"
  unfolding events_ok_def org_audit_trim_statement_def
  by (simp add: ledger_trim) (simp add: trim_ledger_def sql_delete_def event_keys_filter)

lemma events_ok_audit_and_trim:
  "events_ok db \<Longrightarrow> audit_and_trim a n db = Some db' \<Longrightarrow> events_ok db'"
  unfolding audit_and_trim_def org_audit_statement_def
  by (auto simp: events_ok_trim events_ok_insert split: if_splits)

text \<open>Both statements leave every other table alone.\<close>

lemma audit_and_trim_tables:
  assumes "audit_and_trim a n db = Some db'"
  shows "rd_handles db' = rd_handles db \<and> rd_invites db' = rd_invites db \<and>
    rd_receipts db' = rd_receipts db \<and> rd_evictions db' = rd_evictions db \<and>
    rd_identity_keys db' = rd_identity_keys db \<and> rd_encryption_keys db' = rd_encryption_keys db \<and>
    rd_policies db' = rd_policies db \<and> rd_policy_requests db' = rd_policy_requests db \<and>
    rd_holds db' = rd_holds db \<and> rd_acks db' = rd_acks db \<and> rd_roster db' = rd_roster db"
  using assms
  by (auto simp: audit_and_trim_def org_audit_statement_def ledger_insert_def org_audit_trim_statement_def
      split: if_splits)

lemma audit_and_trim_total: "oa_event_key a = None \<Longrightarrow> \<exists>db'. audit_and_trim a n db = Some db'"
  by (simp add: audit_and_trim_def org_audit_statement_def ledger_insert_def)

text \<open>
  A mutation that changed a row has its event in the ledger afterwards, as the newest row;
  one that changed nothing adds nothing.
\<close>

lemma audit_and_trim_recorded:
  assumes "events_ok db" "audit_and_trim a n db = Some db'" "0 < n"
  shows "\<lparr>lr_id = rd_next_event db, lr_audit = a\<rparr> \<in> set (rd_events db')"
proof -
  let ?r = "\<lparr>lr_id = rd_next_event db, lr_audit = a\<rparr>"
  obtain db1 where i: "ledger_insert a db = Some db1" and t: "db' = org_audit_trim_statement (oa_org a) db1"
    using assms(2,3) by (auto simp: audit_and_trim_def org_audit_statement_def)
  have e: "rd_events db1 = rd_events db @ [?r]"
    using i by (auto simp: ledger_insert_def split: if_splits)
  have "ledger_ok lr_id (rd_next_event db1) (rd_events db @ [?r])"
    using events_ok_insert[OF assms(1) i] e by (simp add: events_ok_def)
  then have "?r \<in> set (trim_ledger lr_id (of_org (oa_org a)) MAX_RETAINED_ORG_AUDIT_EVENTS (rd_events db @ [?r]))"
    by (rule trim_keeps_last) (simp_all add: of_org_def MAX_RETAINED_ORG_AUDIT_EVENTS_def)
  then show ?thesis using t e by (simp add: org_audit_trim_statement_def)
qed

lemma audit_and_trim_silent:
  assumes "audit_and_trim a 0 db = Some db'"
  shows "rd_next_event db' = rd_next_event db \<and> set (rd_events db') \<subseteq> set (rd_events db)"
  using assms trim_subset by (fastforce simp: audit_and_trim_def org_audit_statement_def org_audit_trim_statement_def)

lemma audit_and_trim_bound:
  assumes "events_ok db" "audit_and_trim a n db = Some db'"
  shows "sql_count (of_org (oa_org a)) (rd_events db') \<le> MAX_RETAINED_ORG_AUDIT_EVENTS"
proof -
  obtain db1 where "events_ok db1" "db' = org_audit_trim_statement (oa_org a) db1"
    using assms events_ok_insert
    by (auto simp: audit_and_trim_def org_audit_statement_def split: if_splits)
  then show ?thesis by (auto simp: org_audit_trim_statement_def events_ok_def intro: trim_count)
qed

text \<open>Other organizations keep their rows.\<close>

lemma audit_and_trim_other_org:
  assumes "audit_and_trim a n db = Some db'" "org \<noteq> oa_org a"
  shows "filter (of_org org) (rd_events db') = filter (of_org org) (rd_events db)"
proof -
  have f: "filter (of_org org) (trim_ledger lr_id (of_org (oa_org a)) k rows) = filter (of_org org) rows" for k rows
    unfolding trim_ledger_def sql_delete_def filter_filter
    by (rule filter_cong) (use assms(2) in \<open>auto simp: of_org_def\<close>)
  show ?thesis
    using assms
    by (auto simp: audit_and_trim_def org_audit_statement_def ledger_insert_def org_audit_trim_statement_def f of_org_def
        split: if_splits)
qed

end
