(* ===== verification/StorageKeys.thy ===== *)
theory StorageKeys
  imports Prelude
begin

text \<open>
  The composed storage keys of \<open>apps/relay/src/do.ts\<close>. A queue, due, start or audit key is a
  literal prefix, a timestamp written with \<open>String(at).padStart(16, "0")\<close>, and the call id
  (for an audit intent: its lifecycle rank and event key). The Durable Object lists keys in
  lexicographic order; \<open>time_key_less\<close> shows that this order is the order of
  (timestamp, rest) as long as timestamps stay below \<open>10 ^ 16\<close>, which every safe integer
  does. The mailbox model therefore indexes these families by the pair itself.
\<close>

subsection \<open>Decimal numerals\<close>

definition digit_char :: "nat \<Rightarrow> char" where
  "digit_char d = char_of (48 + d)"

fun dec_string :: "nat \<Rightarrow> string" where
  "dec_string n = (if n < 10 then [digit_char n] else dec_string (n div 10) @ [digit_char (n mod 10)])"

declare dec_string.simps [simp del]

definition js_number_string :: "int \<Rightarrow> string" where
  "js_number_string n = (if n < 0 then CHR ''-'' # dec_string (nat (- n)) else dec_string (nat n))"

definition pad_start :: "nat \<Rightarrow> char \<Rightarrow> string \<Rightarrow> string" where
  "pad_start w c s = replicate (w - length s) c @ s"

definition time_digits :: "int \<Rightarrow> string" where
  "time_digits at = pad_start 16 (CHR ''0'') (js_number_string at)"

subsection \<open>The keys\<close>

definition start_key :: "int \<Rightarrow> string \<Rightarrow> string" where
  "start_key at call_id = ''start:'' @ time_digits at @ '':'' @ call_id"

definition queue_key :: "int \<Rightarrow> string \<Rightarrow> string" where
  "queue_key created_at call_id = ''queue:'' @ time_digits created_at @ '':'' @ call_id"

definition due_key :: "int \<Rightarrow> string \<Rightarrow> string" where
  "due_key deadline call_id = ''due:'' @ time_digits deadline @ '':'' @ call_id"

text \<open>\<open>Number(key.slice(p, p + 16))\<close> for the digits the relay wrote.\<close>

fun read_digits :: "nat \<Rightarrow> string \<Rightarrow> nat" where
  "read_digits acc [] = acc"
| "read_digits acc (c # cs) = read_digits (acc * 10 + (of_char c - 48)) cs"

definition read_time :: "string \<Rightarrow> string \<Rightarrow> int" where
  "read_time prefix key = int (read_digits 0 (take 16 (drop (length prefix) key)))"

subsection \<open>Fixed-width digits\<close>

fun fixed_digits :: "nat \<Rightarrow> nat \<Rightarrow> string" where
  "fixed_digits 0 n = []"
| "fixed_digits (Suc w) n = fixed_digits w (n div 10) @ [digit_char (n mod 10)]"

lemma fixed_digits_length [simp]: "length (fixed_digits w n) = w"
  by (induction w n rule: fixed_digits.induct) auto

lemma digit_char_zero [simp]: "digit_char 0 = CHR ''0''"
  by code_simp

lemma fixed_digits_zero: "fixed_digits w 0 = replicate w (CHR ''0'')"
  by (induction w) (auto simp: replicate_append_same)

lemma dec_string_length: "n < 10 ^ Suc w \<Longrightarrow> length (dec_string n) \<le> Suc w"
proof (induction w arbitrary: n)
  case 0
  then show ?case by (subst dec_string.simps) simp
next
  case (Suc w)
  have "n div 10 < 10 ^ Suc w" using Suc.prems by (simp add: less_mult_imp_div_less mult.commute)
  then show ?case using Suc.IH[of "n div 10"] by (subst dec_string.simps) auto
qed

lemma pad_dec_fixed: "n < 10 ^ Suc w \<Longrightarrow> pad_start (Suc w) (CHR ''0'') (dec_string n) = fixed_digits (Suc w) n"
proof (induction w arbitrary: n)
  case 0
  then show ?case by (subst dec_string.simps) (simp add: pad_start_def)
next
  case (Suc w)
  show ?case
  proof (cases "n < 10")
    case True
    then show ?thesis
      by (subst dec_string.simps) (simp add: pad_start_def fixed_digits_zero replicate_append_same[symmetric])
  next
    case False
    have lt: "n div 10 < 10 ^ Suc w" using Suc.prems by (simp add: less_mult_imp_div_less mult.commute)
    have len: "length (dec_string (n div 10)) \<le> Suc w" using dec_string_length[OF lt] .
    have "pad_start (Suc (Suc w)) (CHR ''0'') (dec_string n) =
        pad_start (Suc w) (CHR ''0'') (dec_string (n div 10)) @ [digit_char (n mod 10)]"
      using False len by (subst dec_string.simps) (simp add: pad_start_def Suc_diff_le)
    also have "\<dots> = fixed_digits (Suc (Suc w)) n" using Suc.IH[OF lt] by simp
    finally show ?thesis .
  qed
qed

lemma time_digits_fixed: "0 \<le> at \<Longrightarrow> at < 10 ^ 16 \<Longrightarrow> time_digits at = fixed_digits 16 (nat at)"
  using pad_dec_fixed[of "nat at" 15]
  by (simp add: time_digits_def js_number_string_def nat_less_iff eval_nat_numeral(2)[symmetric])

subsection \<open>Lexicographic order\<close>

lemma list_less_append_same_length:
  "length xs = length ys \<Longrightarrow>
   (xs @ us < ys @ vs) = (xs < ys \<or> (xs = ys \<and> us < (vs :: 'a :: linorder list)))"
proof (induction xs arbitrary: ys)
  case (Cons x xs)
  then obtain y ys' where "ys = y # ys'" by (cases ys) auto
  then show ?case using Cons by auto
qed simp

lemma digit_char_less: "a < 10 \<Longrightarrow> b < 10 \<Longrightarrow> (digit_char a < digit_char b) = (a < b)"
  by (simp add: digit_char_def less_char_def)

lemma digit_char_inj: "a < 10 \<Longrightarrow> b < 10 \<Longrightarrow> (digit_char a = digit_char b) = (a = b)"
  using digit_char_less[of a b] digit_char_less[of b a] by (metis less_irrefl nat_neq_iff)

lemma fixed_digits_order:
  "a < 10 ^ w \<Longrightarrow> b < 10 ^ w \<Longrightarrow>
   (fixed_digits w a < fixed_digits w b \<longleftrightarrow> a < b) \<and> (fixed_digits w a = fixed_digits w b \<longleftrightarrow> a = b)"
proof (induction w arbitrary: a b)
  case (Suc w)
  have lt: "a div 10 < 10 ^ w" "b div 10 < 10 ^ w"
    using Suc.prems by (simp_all add: less_mult_imp_div_less mult.commute)
  note ih = Suc.IH[OF lt]
  have parts: "a = 10 * (a div 10) + a mod 10" "b = 10 * (b div 10) + b mod 10"
    "a mod 10 < 10" "b mod 10 < 10" by simp_all
  have split: "(a < b) = (a div 10 < b div 10 \<or> (a div 10 = b div 10 \<and> a mod 10 < b mod 10))"
    using parts by linarith
  have split_eq: "(a = b) = (a div 10 = b div 10 \<and> a mod 10 = b mod 10)"
    by (metis parts(1,2))
  show ?case
    unfolding fixed_digits.simps split split_eq
    using ih by (simp add: list_less_append_same_length digit_char_less digit_char_inj)
qed simp

lemma time_key_less:
  assumes "0 \<le> a" "a < 10 ^ 16" "0 \<le> b" "b < 10 ^ 16"
  shows "(p @ time_digits a @ x < p @ time_digits b @ y) = (a < b \<or> (a = b \<and> x < y))"
proof -
  have bnd: "nat a < 10 ^ 16" "nat b < 10 ^ 16" using assms by (simp_all add: nat_less_iff)
  have "(p @ time_digits a @ x < p @ time_digits b @ y) = (time_digits a @ x < time_digits b @ y)"
    by (induction p) auto
  also have "\<dots> = (nat a < nat b \<or> (nat a = nat b \<and> x < y))"
    using fixed_digits_order[OF bnd] assms
    by (simp add: time_digits_fixed list_less_append_same_length)
  also have "\<dots> = (a < b \<or> (a = b \<and> x < y))" using assms by auto
  finally show ?thesis .
qed

lemma time_key_inj:
  assumes "0 \<le> a" "a < 10 ^ 16" "0 \<le> b" "b < 10 ^ 16" "p @ time_digits a @ x = p @ time_digits b @ y"
  shows "a = b \<and> x = y"
  using time_key_less[OF assms(1-4), of p x y] time_key_less[OF assms(3,4,1,2), of p y x] assms(5)
  by (metis less_irrefl linorder_neqE)

subsection \<open>Reading the timestamp back\<close>

lemma read_digits_append: "read_digits acc (xs @ ys) = read_digits (read_digits acc xs) ys"
  by (induction xs arbitrary: acc) auto

lemma read_fixed_digits: "n < 10 ^ w \<Longrightarrow> read_digits 0 (fixed_digits w n) = n"
proof (induction w arbitrary: n)
  case (Suc w)
  have "n div 10 < 10 ^ w" using Suc.prems by (simp add: less_mult_imp_div_less mult.commute)
  moreover have "n mod 10 < 10" by simp
  ultimately show ?case
    by (simp add: read_digits_append Suc.IH digit_char_def)
qed simp

lemma read_time_key:
  assumes "0 \<le> at" "at < 10 ^ 16"
  shows "read_time p (p @ time_digits at @ x) = at"
  using assms read_fixed_digits[of "nat at" 16]
  by (simp add: read_time_def time_digits_fixed nat_less_iff)

subsection \<open>Properties\<close>

text \<open>
  Queue, due and start keys sort lexicographically as (timestamp, call id), so the first
  key of a listing is the earliest one, for every timestamp the clock can give.
\<close>

theorem storage_key_order:
  assumes "0 \<le> a" "a < 10 ^ 16" "0 \<le> b" "b < 10 ^ 16"
  shows "(queue_key a x < queue_key b y) = (a < b \<or> (a = b \<and> x < y)) \<and>
    (due_key a x < due_key b y) = (a < b \<or> (a = b \<and> x < y)) \<and>
    (start_key a x < start_key b y) = (a < b \<or> (a = b \<and> x < y))"
  using time_key_less[OF assms, of "''queue:''" "'':'' @ x" "'':'' @ y"]
    time_key_less[OF assms, of "''due:''" "'':'' @ x" "'':'' @ y"]
    time_key_less[OF assms, of "''start:''" "'':'' @ x" "'':'' @ y"]
  by (simp add: queue_key_def due_key_def start_key_def)

lemma storage_key_order_witness: "queue_key 999 ''z'' < queue_key 1000 ''a''"
  using storage_key_order[of 999 1000 "''z''" "''a''"] by simp

end
