(* ===== verification/Frames.thy ===== *)
theory Frames
  imports Protocol StorageKeys "HOL-Library.Monad_Syntax"
begin

text \<open>
  The wire frames the relay reads, from \<open>packages/shared/src/e2ee.ts\<close> and \<open>protocol.ts\<close>:
  the HPKE envelope, the caller's \<open>call_request\<close> and the listener's frames, each parsed from
  the value \<open>JSON.parse\<close> returned. A schema is a partial function on that value; a strict
  object refuses unknown keys, an optional field may be absent but not null. The pattern
  behind \<open>LeaseId\<close> belongs to the schema library and is the parameter \<open>uuid\<close>.
\<close>

subsection \<open>Patterns and limits\<close>

definition relay_origin_re :: "string \<Rightarrow> bool" where
  "relay_origin_re s =
     (1 \<le> length s \<and> length s \<le> 253 \<and>
      list_all (\<lambda>c. lower_alnum c \<or> c = CHR ''.'' \<or> c = CHR ''-'') s)"

definition key_id_re :: "string \<Rightarrow> bool" where
  "key_id_re = hex_of_length 32"

definition base64url_re :: "string \<Rightarrow> bool" where
  "base64url_re s = (s \<noteq> [] \<and> list_all base64url_char s)"

definition MAX_E2EE_CIPHERTEXT_BYTES :: nat where
  "MAX_E2EE_CIPHERTEXT_BYTES = MAX_REPLY_BYTES * 6 + 8192"

text \<open>\<open>Math.ceil(n * 4 / 3) + 4096\<close>.\<close>

definition MAX_E2EE_WIRE_BYTES :: nat where
  "MAX_E2EE_WIRE_BYTES = (MAX_E2EE_CIPHERTEXT_BYTES * 4 + 2) div 3 + 4096"

subsection \<open>Field readers\<close>

fun read_str :: "(string \<Rightarrow> bool) \<Rightarrow> js_value \<Rightarrow> string option" where
  "read_str P (JStr s) = (if P s then Some s else None)"
| "read_str P _ = None"

fun read_int :: "(int \<Rightarrow> bool) \<Rightarrow> js_value \<Rightarrow> int option" where
  "read_int P (JNum n) = (if P n then Some n else None)"
| "read_int P _ = None"

definition read_literal :: "string \<Rightarrow> js_value \<Rightarrow> unit option" where
  "read_literal l v = (if v = JStr l then Some () else None)"

definition optional :: "(js_value \<Rightarrow> 'a option) \<Rightarrow> js_value \<Rightarrow> 'a option option" where
  "optional rd v = (if v = JUndefined then Some None else map_option Some (rd v))"

fun read_all :: "(js_value \<Rightarrow> 'a option) \<Rightarrow> js_value list \<Rightarrow> 'a list option" where
  "read_all rd [] = Some []"
| "read_all rd (v # vs) = (case (rd v, read_all rd vs) of (Some x, Some xs) \<Rightarrow> Some (x # xs) | _ \<Rightarrow> None)"

fun read_array :: "(js_value \<Rightarrow> 'a option) \<Rightarrow> js_value \<Rightarrow> 'a list option" where
  "read_array rd (JArr vs) = read_all rd vs"
| "read_array rd _ = None"

text \<open>\<open>schema.default(d)\<close>.\<close>

definition read_default :: "'a \<Rightarrow> (js_value \<Rightarrow> 'a option) \<Rightarrow> js_value \<Rightarrow> 'a option" where
  "read_default d rd v = (if v = JUndefined then Some d else rd v)"

definition strict_keys :: "string list \<Rightarrow> (string \<times> js_value) list \<Rightarrow> bool" where
  "strict_keys shape kvs = list_all (\<lambda>kv. fst kv \<in> set shape) kvs"

fun read_agent_kind :: "js_value \<Rightarrow> agent_kind option" where
  "read_agent_kind (JStr s) =
     (if s = ''claude'' then Some Claude else if s = ''codex'' then Some Codex else None)"
| "read_agent_kind _ = None"

definition MAX_SAFE_INTEGER :: int where
  "MAX_SAFE_INTEGER = 2 ^ 53 - 1"

fun as_object :: "js_value \<Rightarrow> (string \<times> js_value) list option" where
  "as_object (JObj kvs) = Some kvs"
| "as_object _ = None"

subsection \<open>The envelope\<close>

datatype direction = Request | Response

record envelope =
  en_direction :: direction
  en_relay_origin :: string
  en_from :: string
  en_to :: string
  en_key_id :: string
  en_epoch :: int
  en_enc :: string
  en_ct :: string

fun direction_code :: "direction \<Rightarrow> string" where
  "direction_code Request = ''request''"
| "direction_code Response = ''response''"

fun read_direction :: "js_value \<Rightarrow> direction option" where
  "read_direction (JStr s) =
     (if s = ''request'' then Some Request else if s = ''response'' then Some Response else None)"
| "read_direction _ = None"

definition ct_ok :: "string \<Rightarrow> bool" where
  "ct_ok s = (base64url_re s \<and> (length s * 3 + 3) div 4 \<le> MAX_E2EE_CIPHERTEXT_BYTES)"

definition enc_ok :: "string \<Rightarrow> bool" where
  "enc_ok s = (base64url_re s \<and> length s \<le> 87)"

definition envelope_keys :: "string list" where
  "envelope_keys = [''v'', ''direction'', ''relay_origin'', ''from'', ''to'', ''key_id'', ''epoch'', ''enc'', ''ct'']"

definition parse_envelope :: "js_value \<Rightarrow> envelope option" where
  "parse_envelope value = do {
     kvs \<leftarrow> as_object value;
     _ \<leftarrow> (if strict_keys envelope_keys kvs then Some () else None);
     _ \<leftarrow> read_int (\<lambda>n. n = 1) (obj_get kvs ''v'');
     direction \<leftarrow> read_direction (obj_get kvs ''direction'');
     relay_origin \<leftarrow> read_str relay_origin_re (obj_get kvs ''relay_origin'');
     from \<leftarrow> read_str address_re (obj_get kvs ''from'');
     to \<leftarrow> read_str address_re (obj_get kvs ''to'');
     key_id \<leftarrow> read_str key_id_re (obj_get kvs ''key_id'');
     epoch \<leftarrow> read_int (\<lambda>n. 0 < n) (obj_get kvs ''epoch'');
     enc \<leftarrow> read_str enc_ok (obj_get kvs ''enc'');
     ct \<leftarrow> read_str ct_ok (obj_get kvs ''ct'');
     Some \<lparr>en_direction = direction, en_relay_origin = relay_origin, en_from = from, en_to = to,
           en_key_id = key_id, en_epoch = epoch, en_enc = enc, en_ct = ct\<rparr> }"

definition envelope_ok :: "envelope \<Rightarrow> bool" where
  "envelope_ok e = (relay_origin_re (en_relay_origin e) \<and> address_re (en_from e) \<and> address_re (en_to e) \<and>
     key_id_re (en_key_id e) \<and> 0 < en_epoch e \<and> enc_ok (en_enc e) \<and> ct_ok (en_ct e))"

lemma read_str_Some: "read_str P v = Some s \<longleftrightarrow> v = JStr s \<and> P s"
  by (cases v) auto

lemma read_int_Some: "read_int P v = Some n \<longleftrightarrow> v = JNum n \<and> P n"
  by (cases v) auto

lemmas read_strD = iffD1[OF read_str_Some]
lemmas read_intD = iffD1[OF read_int_Some]

lemma parse_envelope_ok: "parse_envelope v = Some e \<Longrightarrow> envelope_ok e"
  by (auto simp: parse_envelope_def envelope_ok_def read_str_Some read_int_Some
      split: Option.bind_splits if_splits)

subsection \<open>The envelope as JSON\<close>

text \<open>
  \<open>JSON.stringify\<close> of a parsed envelope, keys in the order of the schema. No field of a
  valid envelope holds a character JSON escapes.
\<close>

definition json_field :: "string \<Rightarrow> string \<Rightarrow> string" where
  "json_field name text = [CHR 0x22] @ name @ [CHR 0x22, CHR '':''] @ text"

definition json_text :: "string \<Rightarrow> string" where
  "json_text s = [CHR 0x22] @ s @ [CHR 0x22]"

definition envelope_json :: "envelope \<Rightarrow> string" where
  "envelope_json e =
     ''{'' @ json_field ''v'' ''1'' @ '',''
     @ json_field ''direction'' (json_text (direction_code (en_direction e))) @ '',''
     @ json_field ''relay_origin'' (json_text (en_relay_origin e)) @ '',''
     @ json_field ''from'' (json_text (en_from e)) @ '',''
     @ json_field ''to'' (json_text (en_to e)) @ '',''
     @ json_field ''key_id'' (json_text (en_key_id e)) @ '',''
     @ json_field ''epoch'' (js_number_string (en_epoch e)) @ '',''
     @ json_field ''enc'' (json_text (en_enc e)) @ '',''
     @ json_field ''ct'' (json_text (en_ct e)) @ ''}''"

text \<open>All of it is ASCII, so the UTF-8 length is the number of characters.\<close>

definition envelope_bytes :: "envelope \<Rightarrow> int" where
  "envelope_bytes e = int (length (envelope_json e))"

lemma envelope_bytes_pos: "0 < envelope_bytes e"
  by (simp add: envelope_bytes_def envelope_json_def)

lemma split_at_mark:
  assumes "x @ m # u = y @ m # v" "m \<notin> set x" "m \<notin> set y"
  shows "x = y \<and> u = v"
proof -
  have "takeWhile (\<lambda>c. c \<noteq> m) (x @ m # u) = x" "takeWhile (\<lambda>c. c \<noteq> m) (y @ m # v) = y"
    using assms(2,3) by (auto simp: takeWhile_append)
  then show ?thesis using assms(1) by simp
qed

definition no_quote :: "string \<Rightarrow> bool" where
  "no_quote s = (CHR 0x22 \<notin> set s)"

lemma json_text_split:
  "no_quote x \<Longrightarrow> no_quote y \<Longrightarrow> json_text x @ u = json_text y @ v \<Longrightarrow> x = y \<and> u = v"
  using split_at_mark[of x "CHR 0x22" u y v] by (simp add: json_text_def no_quote_def)

lemma digit_char_not_comma:
  assumes "d < 10"
  shows "digit_char d \<noteq> CHR '',''"
proof
  assume "digit_char d = CHR '',''"
  then have "(of_char (digit_char d) :: nat) = of_char (CHR '','')" by (rule arg_cong)
  then show False using assms by (simp add: digit_char_def)
qed

lemma dec_string_no_comma: "CHR '','' \<notin> set (dec_string n)"
proof (induction n rule: dec_string.induct)
  case (1 n)
  show ?case
    using 1 digit_char_not_comma[of n] digit_char_not_comma[of "n mod 10"]
    by (subst dec_string.simps) auto
qed

lemma read_digit: "d < 10 \<Longrightarrow> (of_char (digit_char d) :: nat) - 48 = d"
  by (simp add: digit_char_def)

lemma read_dec_string: "read_digits 0 (dec_string n) = n"
proof (induction n rule: dec_string.induct)
  case (1 n)
  then show ?case
    by (subst dec_string.simps) (simp add: read_digits_append read_digit)
qed

lemma dec_string_inj: "dec_string a = dec_string b \<Longrightarrow> a = b"
  by (metis read_dec_string)

lemma js_number_split:
  assumes "0 < a" "0 < b" "js_number_string a @ CHR '','' # u = js_number_string b @ CHR '','' # v"
  shows "a = b \<and> u = v"
proof -
  have "dec_string (nat a) = dec_string (nat b) \<and> u = v"
    using assms split_at_mark[OF _ dec_string_no_comma dec_string_no_comma]
    by (auto simp: js_number_string_def)
  then show ?thesis using assms(1,2) dec_string_inj[of "nat a" "nat b"] by (simp add: nat_eq_iff)
qed

lemma slug_no_quote: "slug lo hi s \<Longrightarrow> no_quote s"
  by (auto simp: no_quote_def slug_def lower_alnum_def list_all_iff split: list.splits)

lemma address_no_quote: "address_re a \<Longrightarrow> no_quote a"
proof -
  assume "address_re a"
  then obtain org h where p: "parse_address a = Some (org, h)" by (auto simp: address_re_def)
  note P = parse_address_Some[OF p]
  have "no_quote org" "no_quote h"
    using P slug_no_quote by (auto simp: org_re_def handle_re_def)
  then show "no_quote a" using P by (auto simp: no_quote_def format_address_def)
qed

lemma relay_origin_no_quote: "relay_origin_re s \<Longrightarrow> no_quote s"
  by (auto simp: relay_origin_re_def no_quote_def lower_alnum_def list_all_iff)

lemma hex_no_quote: "hex_of_length n s \<Longrightarrow> no_quote s"
  by (auto simp: hex_of_length_def no_quote_def lower_hex_def list_all_iff)

lemma base64url_no_quote: "base64url_re s \<Longrightarrow> no_quote s"
  by (auto simp: base64url_re_def no_quote_def base64url_char_def lower_alnum_def upper_alpha_def list_all_iff)

lemma direction_code_no_quote: "no_quote (direction_code d)"
  by (cases d) (simp_all add: no_quote_def)

lemma direction_code_inj: "direction_code d = direction_code d' \<Longrightarrow> d = d'"
  by (cases d; cases d') auto

lemma envelope_ok_no_quote:
  assumes "envelope_ok e"
  shows "no_quote (en_relay_origin e)" "no_quote (en_from e)" "no_quote (en_to e)"
    "no_quote (en_key_id e)" "no_quote (en_enc e)" "no_quote (en_ct e)"
  using assms
  by (auto simp: envelope_ok_def key_id_re_def enc_ok_def ct_ok_def
      intro: relay_origin_no_quote address_no_quote hex_no_quote base64url_no_quote)

text \<open>The text of an envelope from one field on.\<close>

definition json_ct :: "envelope \<Rightarrow> string" where
  "json_ct e = '','' @ json_field ''ct'' (json_text (en_ct e)) @ ''}''"

definition json_enc :: "envelope \<Rightarrow> string" where
  "json_enc e = json_field ''enc'' (json_text (en_enc e)) @ json_ct e"

definition json_epoch :: "envelope \<Rightarrow> string" where
  "json_epoch e = '','' @ json_field ''epoch'' (js_number_string (en_epoch e)) @ '','' @ json_enc e"

definition json_key_id :: "envelope \<Rightarrow> string" where
  "json_key_id e = '','' @ json_field ''key_id'' (json_text (en_key_id e)) @ json_epoch e"

definition json_to :: "envelope \<Rightarrow> string" where
  "json_to e = '','' @ json_field ''to'' (json_text (en_to e)) @ json_key_id e"

definition json_from :: "envelope \<Rightarrow> string" where
  "json_from e = '','' @ json_field ''from'' (json_text (en_from e)) @ json_to e"

definition json_origin :: "envelope \<Rightarrow> string" where
  "json_origin e = '','' @ json_field ''relay_origin'' (json_text (en_relay_origin e)) @ json_from e"

definition json_head :: string where
  "json_head = ''{'' @ json_field ''v'' ''1'' @ '',''"

lemma envelope_json_parts:
  "envelope_json e =
     json_head @ json_field ''direction'' (json_text (direction_code (en_direction e))) @ json_origin e"
  unfolding envelope_json_def json_head_def json_origin_def json_from_def json_to_def
    json_key_id_def json_epoch_def json_enc_def json_ct_def
  by (simp only: append_assoc)

lemma json_field_split:
  "no_quote x \<Longrightarrow> no_quote y \<Longrightarrow>
   json_field k (json_text x) @ u = json_field k (json_text y) @ v \<Longrightarrow> x = y \<and> u = v"
  unfolding json_field_def append_assoc same_append_eq by (rule json_text_split)

lemma json_epoch_split:
  assumes "0 < en_epoch e" "0 < en_epoch f" "json_epoch e = json_epoch f"
  shows "en_epoch e = en_epoch f \<and> json_enc e = json_enc f"
proof -
  have "js_number_string (en_epoch e) @ '','' @ json_enc e = js_number_string (en_epoch f) @ '','' @ json_enc f"
    using assms(3) unfolding json_epoch_def json_field_def append_assoc same_append_eq .
  then show ?thesis using js_number_split[OF assms(1,2)] by simp
qed

lemma envelope_json_unique:
  assumes e: "envelope_ok e" and f: "envelope_ok f" and eq: "envelope_json e = envelope_json f"
  shows "e = f"
proof -
  note q = envelope_ok_no_quote[OF e] envelope_ok_no_quote[OF f]
  have pos: "0 < en_epoch e" "0 < en_epoch f" using e f by (simp_all add: envelope_ok_def)
  note d = eq[unfolded envelope_json_parts same_append_eq]
  note 1 = json_field_split[OF direction_code_no_quote direction_code_no_quote d]
  note 2 = json_field_split[OF q(1) q(7) conjunct2[OF 1, unfolded json_origin_def same_append_eq]]
  note 3 = json_field_split[OF q(2) q(8) conjunct2[OF 2, unfolded json_from_def same_append_eq]]
  note 4 = json_field_split[OF q(3) q(9) conjunct2[OF 3, unfolded json_to_def same_append_eq]]
  note 5 = json_field_split[OF q(4) q(10) conjunct2[OF 4, unfolded json_key_id_def same_append_eq]]
  note 6 = json_epoch_split[OF pos conjunct2[OF 5]]
  note 7 = json_field_split[OF q(5) q(11) conjunct2[OF 6, unfolded json_enc_def]]
  note 8 = json_field_split[OF q(6) q(12) conjunct2[OF 7, unfolded json_ct_def same_append_eq]]
  show ?thesis
    using direction_code_inj[OF conjunct1[OF 1]] conjunct1[OF 2] conjunct1[OF 3] conjunct1[OF 4]
      conjunct1[OF 5] conjunct1[OF 6] conjunct1[OF 7] conjunct1[OF 8]
    by (simp add: envelope.equality)
qed

subsection \<open>Terminal reasons\<close>

datatype terminal_reason =
  TrCompleted | TrFailed | TrCanceled | TrExpired | TrDeliveryFailed | TrRevoked | TrIndeterminate

fun terminal_reason_code :: "terminal_reason \<Rightarrow> string" where
  "terminal_reason_code TrCompleted = ''completed''"
| "terminal_reason_code TrFailed = ''failed''"
| "terminal_reason_code TrCanceled = ''canceled''"
| "terminal_reason_code TrExpired = ''expired''"
| "terminal_reason_code TrDeliveryFailed = ''delivery_failed''"
| "terminal_reason_code TrRevoked = ''revoked''"
| "terminal_reason_code TrIndeterminate = ''indeterminate_execution''"

definition all_terminal_reasons :: "terminal_reason list" where
  "all_terminal_reasons =
     [TrCompleted, TrFailed, TrCanceled, TrExpired, TrDeliveryFailed, TrRevoked, TrIndeterminate]"

fun read_terminal_reason :: "js_value \<Rightarrow> terminal_reason option" where
  "read_terminal_reason (JStr s) = find (\<lambda>r. terminal_reason_code r = s) all_terminal_reasons"
| "read_terminal_reason _ = None"

lemma read_terminal_reason_code: "read_terminal_reason (JStr (terminal_reason_code r)) = Some r"
  by (cases r) (simp_all add: all_terminal_reasons_def)

subsection \<open>Frames the caller sends\<close>

datatype delivery_mode = Sync | Durable

fun read_delivery_mode :: "js_value \<Rightarrow> delivery_mode option" where
  "read_delivery_mode (JStr s) =
     (if s = ''sync'' then Some Sync else if s = ''durable'' then Some Durable else None)"
| "read_delivery_mode _ = None"

record call_request =
  cr_envelope :: envelope
  cr_message_id :: "string option"
  cr_delivery_mode :: "delivery_mode option"
  cr_correlation_id :: string
  cr_traceparent :: "string option"

definition request_envelope :: "js_value \<Rightarrow> envelope option" where
  "request_envelope v = do {
     e \<leftarrow> parse_envelope v;
     if en_direction e = Request then Some e else None }"

definition response_envelope :: "js_value \<Rightarrow> envelope option" where
  "response_envelope v = do {
     e \<leftarrow> parse_envelope v;
     if en_direction e = Response then Some e else None }"

definition call_request_keys :: "string list" where
  "call_request_keys =
     [''type'', ''envelope'', ''message_id'', ''delivery_mode'', ''correlation_id'', ''traceparent'']"

definition parse_call_request :: "js_value \<Rightarrow> call_request option" where
  "parse_call_request input = do {
     kvs \<leftarrow> as_object (normalize_trace_context input);
     _ \<leftarrow> (if strict_keys call_request_keys kvs then Some () else None);
     _ \<leftarrow> read_literal ''call_request'' (obj_get kvs ''type'');
     envelope \<leftarrow> request_envelope (obj_get kvs ''envelope'');
     message_id \<leftarrow> optional (read_str message_id_re) (obj_get kvs ''message_id'');
     mode \<leftarrow> optional read_delivery_mode (obj_get kvs ''delivery_mode'');
     correlation_id \<leftarrow> read_str correlation_id_re (obj_get kvs ''correlation_id'');
     traceparent \<leftarrow> optional (read_str (\<lambda>_. True)) (obj_get kvs ''traceparent'');
     if mode = Some Durable \<and> message_id = None then None
     else Some \<lparr>cr_envelope = envelope, cr_message_id = message_id, cr_delivery_mode = mode,
                cr_correlation_id = correlation_id, cr_traceparent = traceparent\<rparr> }"

text \<open>\<open>safeParseFrame\<close>: \<open>parsed\<close> is what \<open>JSON.parse\<close> returned, absent when it threw.\<close>

definition safe_parse_frame :: "(js_value \<Rightarrow> 'f option) \<Rightarrow> js_value option \<Rightarrow> 'f option" where
  "safe_parse_frame schema parsed = (case parsed of None \<Rightarrow> None | Some v \<Rightarrow> schema v)"

lemma optional_Some:
  "optional rd v = Some r \<longleftrightarrow> (v = JUndefined \<and> r = None) \<or> (v \<noteq> JUndefined \<and> (\<exists>x. rd v = Some x \<and> r = Some x))"
  by (auto simp: optional_def)

lemma request_envelope_Some:
  "request_envelope v = Some e \<Longrightarrow> envelope_ok e \<and> en_direction e = Request"
  by (auto simp: request_envelope_def dest: parse_envelope_ok split: Option.bind_splits if_splits)

lemma normalize_traceparent_Some:
  "normalize_traceparent cid v = Some tp \<Longrightarrow> v = JStr tp \<and> (\<exists>c parent. cid = Some c \<and> traceparent_v00 tp = Some (c, parent))"
  by (auto simp: normalize_traceparent_def split: option.splits js_value.splits prod.splits if_splits)

lemma parse_call_request_ok:
  assumes "parse_call_request input = Some f"
  shows "envelope_ok (cr_envelope f)" "en_direction (cr_envelope f) = Request"
    "correlation_id_re (cr_correlation_id f)"
    "cr_delivery_mode f = Some Durable \<Longrightarrow> \<exists>m. cr_message_id f = Some m \<and> message_id_re m"
  using assms
  by (auto simp: parse_call_request_def optional_Some read_str_Some
      dest: request_envelope_Some split: Option.bind_splits if_splits)

text \<open>A trace context that survives parsing names the frame's own correlation id.\<close>

lemma parse_call_request_traceparent:
  assumes "parse_call_request input = Some f" "cr_traceparent f = Some tp"
  shows "\<exists>parent. traceparent_v00 tp = Some (cr_correlation_id f, parent)"
proof -
  obtain kvs where norm: "normalize_trace_context input = JObj kvs"
    and cid: "obj_get kvs ''correlation_id'' = JStr (cr_correlation_id f)"
    and tp: "obj_get kvs ''traceparent'' = JStr tp"
    using assms
    by (cases "normalize_trace_context input")
       (auto simp: parse_call_request_def optional_Some read_str_Some
        split: Option.bind_splits if_splits)
  obtain kvs0 where input: "input = JObj kvs0"
    using norm by (cases input) (auto simp: normalize_trace_context_def)
  show ?thesis
  proof (cases "normalize_traceparent
      (case obj_get kvs0 ''correlation_id'' of JStr s \<Rightarrow> Some s | _ \<Rightarrow> None) (obj_get kvs0 ''traceparent'')")
    case None
    then have "obj_get kvs ''traceparent'' = JUndefined"
      using norm input by (auto simp: normalize_trace_context_def obj_get_delete)
    then show ?thesis using tp by simp
  next
    case (Some tp')
    then have kvs: "kvs = obj_set ''traceparent'' (JStr tp') kvs0"
      using norm input by (simp add: normalize_trace_context_def)
    then have "tp' = tp" using tp by (simp add: obj_get_set)
    moreover have "obj_get kvs0 ''correlation_id'' = JStr (cr_correlation_id f)"
      using cid kvs by (simp add: obj_get_set)
    ultimately show ?thesis using normalize_traceparent_Some[OF Some] by auto
  qed
qed

subsection \<open>Frames the listener sends\<close>

datatype outcome_terminal = OtCompleted | OtFailed

datatype cancel_phase = CpPending | CpRunning

datatype not_cancelled_reason = NcAlreadyTerminal | NcUnknown | NcTooLate

datatype listener_body =
  CallOutcome outcome_terminal "terminal_reason option" envelope
| CallAccepted
| CallStarted
| CallCancelled cancel_phase
| CallNotCancelled not_cancelled_reason
| CallRejected

record listener_frame =
  lf_call_id :: string
  lf_lease_id :: "string option"
  lf_body :: listener_body

fun read_outcome_terminal :: "js_value \<Rightarrow> outcome_terminal option" where
  "read_outcome_terminal (JStr s) =
     (if s = ''completed'' then Some OtCompleted else if s = ''failed'' then Some OtFailed else None)"
| "read_outcome_terminal _ = None"

fun read_cancel_phase :: "js_value \<Rightarrow> cancel_phase option" where
  "read_cancel_phase (JStr s) =
     (if s = ''pending'' then Some CpPending else if s = ''running'' then Some CpRunning else None)"
| "read_cancel_phase _ = None"

fun read_not_cancelled_reason :: "js_value \<Rightarrow> not_cancelled_reason option" where
  "read_not_cancelled_reason (JStr s) =
     (if s = ''already_terminal'' then Some NcAlreadyTerminal
      else if s = ''unknown'' then Some NcUnknown
      else if s = ''too_late'' then Some NcTooLate else None)"
| "read_not_cancelled_reason _ = None"

text \<open>\<open>type\<close>, \<open>call_id\<close> and \<open>lease_id\<close>, plus the keys of the branch, and nothing else.\<close>

definition listener_base ::
  "(string \<Rightarrow> bool) \<Rightarrow> string list \<Rightarrow> (string \<times> js_value) list \<Rightarrow> listener_body \<Rightarrow> listener_frame option" where
  "listener_base uuid extra kvs body = do {
     _ \<leftarrow> (if strict_keys ([''type'', ''call_id'', ''lease_id''] @ extra) kvs then Some () else None);
     call_id \<leftarrow> read_str (\<lambda>_. True) (obj_get kvs ''call_id'');
     lease_id \<leftarrow> optional (read_str uuid) (obj_get kvs ''lease_id'');
     Some \<lparr>lf_call_id = call_id, lf_lease_id = lease_id, lf_body = body\<rparr> }"

definition parse_call_outcome ::
  "(string \<Rightarrow> bool) \<Rightarrow> (string \<times> js_value) list \<Rightarrow> listener_frame option" where
  "parse_call_outcome uuid kvs = do {
     terminal \<leftarrow> read_outcome_terminal (obj_get kvs ''terminal'');
     reason \<leftarrow> optional read_terminal_reason (obj_get kvs ''terminal_reason'');
     envelope \<leftarrow> response_envelope (obj_get kvs ''envelope'');
     listener_base uuid [''terminal'', ''terminal_reason'', ''envelope''] kvs
       (CallOutcome terminal reason envelope) }"

definition parse_listener_frame :: "(string \<Rightarrow> bool) \<Rightarrow> js_value \<Rightarrow> listener_frame option" where
  "parse_listener_frame uuid input = do {
     kvs \<leftarrow> as_object input;
     (case obj_get kvs ''type'' of
        JStr t \<Rightarrow>
          if t = ''call_outcome'' then parse_call_outcome uuid kvs
          else if t = ''call_accepted'' then listener_base uuid [] kvs CallAccepted
          else if t = ''call_started'' then listener_base uuid [] kvs CallStarted
          else if t = ''call_cancelled'' then do {
            phase \<leftarrow> read_cancel_phase (obj_get kvs ''phase'');
            listener_base uuid [''phase''] kvs (CallCancelled phase) }
          else if t = ''call_not_cancelled'' then do {
            reason \<leftarrow> read_not_cancelled_reason (obj_get kvs ''reason'');
            listener_base uuid [''reason''] kvs (CallNotCancelled reason) }
          else if t = ''call_rejected'' then do {
            _ \<leftarrow> read_literal ''protocol_error'' (obj_get kvs ''code'');
            listener_base uuid [''code''] kvs CallRejected }
          else None
      | _ \<Rightarrow> None) }"

lemma parse_listener_outcome_envelope:
  assumes "parse_listener_frame uuid v = Some f" "lf_body f = CallOutcome t r e"
  shows "envelope_ok e \<and> en_direction e = Response"
proof -
  have base: "listener_base uuid ex kvs b = Some f \<Longrightarrow> b = CallOutcome t r e" for ex kvs b
    using assms(2) by (auto simp: listener_base_def split: Option.bind_splits if_splits)
  have "\<exists>kvs. parse_call_outcome uuid kvs = Some f"
    using assms(1)
    by (auto simp: parse_listener_frame_def dest!: base
        split: Option.bind_splits js_value.splits if_splits)
  then obtain kvs where p: "parse_call_outcome uuid kvs = Some f" ..
  then have "response_envelope (obj_get kvs ''envelope'') = Some e"
    by (auto simp: parse_call_outcome_def dest!: base split: Option.bind_splits)
  then show ?thesis
    by (auto simp: response_envelope_def dest: parse_envelope_ok split: Option.bind_splits if_splits)
qed

end
