(* ===== verification/SignedToken.thy ===== *)
theory SignedToken
  imports Frames
begin

text \<open>
  The base64url codec of \<open>packages/shared/src/signing.ts\<close> and the signed tokens of
  \<open>packages/shared/src/signed-token.ts\<close>. The platform's HMAC is the parameter \<open>hmac\<close>
  (\<open>subtle.verify\<close> recomputes and compares it), and \<open>JSON.stringify\<close>/\<open>JSON.parse\<close> with the
  UTF-8 codecs around them are the parameters \<open>json\<close> and \<open>parse\<close>.
\<close>

subsection \<open>base64url\<close>

definition b64_alphabet :: string where
  "b64_alphabet = ''ABCDEFGHIJKLMNOPQRSTUVWXYZabcdefghijklmnopqrstuvwxyz0123456789-_''"

definition b64_char :: "nat \<Rightarrow> char" where
  "b64_char n = b64_alphabet ! n"

fun index_of :: "char \<Rightarrow> string \<Rightarrow> nat option" where
  "index_of c [] = None"
| "index_of c (d # ds) = (if c = d then Some 0 else map_option Suc (index_of c ds))"

definition b64_index :: "char \<Rightarrow> nat option" where
  "b64_index c = index_of c b64_alphabet"

text \<open>The four sextets of a group of three bytes, and the bytes of a group of sextets.\<close>

definition sextet1 :: "byte \<Rightarrow> nat" where
  "sextet1 a = unat a div 4"

definition sextet2 :: "byte \<Rightarrow> byte \<Rightarrow> nat" where
  "sextet2 a b = unat a mod 4 * 16 + unat b div 16"

definition sextet3 :: "byte \<Rightarrow> byte \<Rightarrow> nat" where
  "sextet3 b c = unat b mod 16 * 4 + unat c div 64"

definition sextet4 :: "byte \<Rightarrow> nat" where
  "sextet4 c = unat c mod 64"

definition group_byte1 :: "nat \<Rightarrow> nat \<Rightarrow> byte" where
  "group_byte1 x y = word_of_nat (x * 4 + y div 16)"

definition group_byte2 :: "nat \<Rightarrow> nat \<Rightarrow> byte" where
  "group_byte2 y z = word_of_nat (y mod 16 * 16 + z div 4)"

definition group_byte3 :: "nat \<Rightarrow> nat \<Rightarrow> byte" where
  "group_byte3 z w = word_of_nat (z mod 4 * 64 + w)"

text \<open>\<open>btoa\<close> with the two characters replaced and the padding stripped.\<close>

fun to_base64url :: "byte list \<Rightarrow> string" where
  "to_base64url [] = []"
| "to_base64url [a] = [b64_char (sextet1 a), b64_char (sextet2 a 0)]"
| "to_base64url [a, b] = [b64_char (sextet1 a), b64_char (sextet2 a b), b64_char (sextet3 b 0)]"
| "to_base64url (a # b # c # rest) =
     [b64_char (sextet1 a), b64_char (sextet2 a b), b64_char (sextet3 b c), b64_char (sextet4 c)]
     @ to_base64url rest"

text \<open>
  \<open>atob\<close> after the padding is put back: a group of one character is not an encoding, an
  alien character throws, and the unused low bits of a last group are ignored.
\<close>

fun sextets_to_bytes :: "nat list \<Rightarrow> byte list option" where
  "sextets_to_bytes [] = Some []"
| "sextets_to_bytes [x] = None"
| "sextets_to_bytes [x, y] = Some [group_byte1 x y]"
| "sextets_to_bytes [x, y, z] = Some [group_byte1 x y, group_byte2 y z]"
| "sextets_to_bytes (x # y # z # w # rest) =
     map_option (\<lambda>bs. group_byte1 x y # group_byte2 y z # group_byte3 z w # bs) (sextets_to_bytes rest)"

fun sextets :: "string \<Rightarrow> nat list option" where
  "sextets [] = Some []"
| "sextets (c # cs) = (case b64_index c of None \<Rightarrow> None | Some n \<Rightarrow> map_option ((#) n) (sextets cs))"

definition from_base64url :: "string \<Rightarrow> byte list option" where
  "from_base64url s = Option.bind (sextets s) sextets_to_bytes"

definition from_base64url_strict :: "string \<Rightarrow> byte list option" where
  "from_base64url_strict value =
     (if \<not> base64url_re value then None
      else case from_base64url value of
             None \<Rightarrow> None
           | Some bytes \<Rightarrow> if to_base64url bytes = value then Some bytes else None)"

lemma b64_table: "list_all (\<lambda>n. b64_index (b64_char n) = Some n \<and> base64url_char (b64_char n)) [0..<64]"
  by code_simp

lemma b64_index_char: "n < 64 \<Longrightarrow> b64_index (b64_char n) = Some n"
  using b64_table by (auto simp: list_all_iff)

lemma b64_char_ok: "n < 64 \<Longrightarrow> base64url_char (b64_char n)"
  using b64_table by (auto simp: list_all_iff)

lemma unat_byte: "unat (a :: byte) < 256"
  using unsigned_less[of a] by simp

lemma sextet_bounds [simp]:
  "sextet1 a < 64" "sextet2 a b < 64" "sextet3 b c < 64" "sextet4 c < 64"
proof -
  have q: "unat a div 4 < 64" "unat b div 16 < 16" "unat c div 64 < 4"
    using unat_byte[of a] unat_byte[of b] unat_byte[of c] by linarith+
  have r: "unat a mod 4 < 4" "unat b mod 16 < 16" "unat c mod 64 < 64" by simp_all
  show "sextet1 a < 64" "sextet2 a b < 64" "sextet3 b c < 64" "sextet4 c < 64"
    unfolding sextet1_def sextet2_def sextet3_def sextet4_def using q r by linarith+
qed

lemma mul_add_div: "q < (k :: nat) \<Longrightarrow> (m * k + q) div k = m \<and> (m * k + q) mod k = q"
  by auto

lemma group_bytes [simp]:
  "group_byte1 (sextet1 a) (sextet2 a b) = a"
  "group_byte2 (sextet2 a b) (sextet3 b c) = b"
  "group_byte3 (sextet3 b c) (sextet4 c) = c"
proof -
  have q: "unat b div 16 < 16" "unat c div 64 < 4"
    using unat_byte[of b] unat_byte[of c] by linarith+
  have "group_byte1 (sextet1 a) (sextet2 a b) = word_of_nat (unat a div 4 * 4 + unat a mod 4)"
    unfolding group_byte1_def sextet1_def sextet2_def using mul_add_div[OF q(1), of "unat a mod 4"] by simp
  also have "unat a div 4 * 4 + unat a mod 4 = unat a" by (rule div_mult_mod_eq)
  finally show "group_byte1 (sextet1 a) (sextet2 a b) = a" by simp
  have "group_byte2 (sextet2 a b) (sextet3 b c) = word_of_nat (unat b div 16 * 16 + unat b mod 16)"
    unfolding group_byte2_def sextet2_def sextet3_def
    using mul_add_div[OF q(1), of "unat a mod 4"] mul_add_div[OF q(2), of "unat b mod 16"] by simp
  also have "unat b div 16 * 16 + unat b mod 16 = unat b" by (rule div_mult_mod_eq)
  finally show "group_byte2 (sextet2 a b) (sextet3 b c) = b" by simp
  have "group_byte3 (sextet3 b c) (sextet4 c) = word_of_nat (unat c div 64 * 64 + unat c mod 64)"
    unfolding group_byte3_def sextet3_def sextet4_def
    using mul_add_div[OF q(2), of "unat b mod 16"] by simp
  also have "unat c div 64 * 64 + unat c mod 64 = unat c" by (rule div_mult_mod_eq)
  finally show "group_byte3 (sextet3 b c) (sextet4 c) = c" by simp
qed

lemma from_to_base64url: "from_base64url (to_base64url bs) = Some bs"
proof -
  have "\<exists>ns. sextets (to_base64url bs) = Some ns \<and> sextets_to_bytes ns = Some bs"
    by (induction bs rule: to_base64url.induct)
       (auto simp: b64_index_char)
  then show ?thesis by (auto simp: from_base64url_def)
qed

lemma to_base64url_chars: "list_all base64url_char (to_base64url bs)"
  by (induction bs rule: to_base64url.induct) (simp_all add: b64_char_ok)

lemma to_base64url_re: "bs \<noteq> [] \<Longrightarrow> base64url_re (to_base64url bs)"
  using to_base64url_chars[of bs] by (cases bs rule: to_base64url.cases) (auto simp: base64url_re_def)

lemma from_base64url_strict_to: "bs \<noteq> [] \<Longrightarrow> from_base64url_strict (to_base64url bs) = Some bs"
  by (simp add: from_base64url_strict_def to_base64url_re from_to_base64url)

lemma from_base64url_strict_Some:
  "from_base64url_strict v = Some bs \<Longrightarrow> v = to_base64url bs"
  by (auto simp: from_base64url_strict_def split: if_splits option.splits)

subsection \<open>Signed tokens\<close>

definition encode_signed_token ::
  "('k \<Rightarrow> byte list \<Rightarrow> byte list) \<Rightarrow> ('p \<Rightarrow> byte list) \<Rightarrow> 'p \<Rightarrow> 'k \<Rightarrow> string" where
  "encode_signed_token hmac json payload key =
     (let encoded = json payload
      in to_base64url encoded @ ''.'' @ to_base64url (hmac key encoded))"

definition decode_signed_token ::
  "('k \<Rightarrow> byte list \<Rightarrow> byte list) \<Rightarrow> (byte list \<Rightarrow> 'p option) \<Rightarrow> string \<Rightarrow> 'k \<Rightarrow> nat \<Rightarrow> 'p option" where
  "decode_signed_token hmac parse token key max_length =
     (if length token > max_length then None
      else case split_on (CHR ''.'') token of
          [payload_value, signature_value] \<Rightarrow>
            if payload_value = [] \<or> signature_value = [] then None
            else (case (from_base64url_strict payload_value, from_base64url_strict signature_value) of
                (Some payload, Some signature) \<Rightarrow>
                  if hmac key payload = signature then parse payload else None
              | _ \<Rightarrow> None)
        | _ \<Rightarrow> None)"

lemma no_dot_base64url: "CHR ''.'' \<notin> set (to_base64url bs)"
proof
  assume "CHR ''.'' \<in> set (to_base64url bs)"
  then have "base64url_char (CHR ''.'')" using to_base64url_chars[of bs] by (auto simp: list_all_iff)
  then show False by (simp add: base64url_char_def lower_alnum_def upper_alpha_def less_eq_char_def)
qed

lemma to_base64url_nonempty: "bs \<noteq> [] \<Longrightarrow> to_base64url bs \<noteq> []"
  by (cases bs rule: to_base64url.cases) auto

lemma decode_encode_token:
  assumes "json p \<noteq> []" "hmac key (json p) \<noteq> []" "length (encode_signed_token hmac json p key) \<le> n"
  shows "decode_signed_token hmac parse (encode_signed_token hmac json p key) key n = parse (json p)"
  using assms
  by (simp add: decode_signed_token_def encode_signed_token_def Let_def split_on_append split_on_none
      no_dot_base64url from_base64url_strict_to to_base64url_nonempty)

lemma decode_token_authored:
  assumes "decode_signed_token hmac parse token key n = Some p"
  shows "\<exists>payload. token = to_base64url payload @ ''.'' @ to_base64url (hmac key payload) \<and>
    parse payload = Some p \<and> length token \<le> n"
proof -
  obtain a b where sp: "split_on (CHR ''.'') token = [a, b]" and n: "length token \<le> n"
    using assms by (auto simp: decode_signed_token_def split: if_splits list.splits)
  then obtain x where x: "from_base64url_strict a = Some x" "from_base64url_strict b = Some (hmac key x)"
    "parse x = Some p"
    using assms by (auto simp: decode_signed_token_def split: if_splits option.splits)
  have "a = to_base64url x" "b = to_base64url (hmac key x)"
    using x(1,2) from_base64url_strict_Some by blast+
  then show ?thesis using split_on_pair[OF sp] x(3) n by auto
qed

lemma decode_token_nonempty:
  assumes "decode_signed_token hmac parse (to_base64url x @ ''.'' @ to_base64url (hmac key x)) key n = Some p"
  shows "x \<noteq> [] \<and> hmac key x \<noteq> []"
  using assms
  by (auto simp: decode_signed_token_def split_on_append split_on_none no_dot_base64url split: if_splits)

subsection \<open>Properties\<close>

text \<open>
  C39: A token decodes exactly when it is the one textual form the relay emits for some
  non-empty payload bytes under the key, within the length limit, and the result is those
  bytes parsed: no re-spelled, extended, truncated or oversized token is accepted.
\<close>

theorem signed_token_canonical:
  "decode_signed_token hmac parse token key n = Some p \<longleftrightarrow>
   (\<exists>payload. payload \<noteq> [] \<and> hmac key payload \<noteq> [] \<and> length token \<le> n \<and>
      token = encode_signed_token hmac id payload key \<and> parse payload = Some p)"
proof
  assume d: "decode_signed_token hmac parse token key n = Some p"
  obtain x where x: "token = to_base64url x @ ''.'' @ to_base64url (hmac key x)" "parse x = Some p"
    "length token \<le> n"
    using decode_token_authored[OF d] by blast
  then show "\<exists>payload. payload \<noteq> [] \<and> hmac key payload \<noteq> [] \<and> length token \<le> n \<and>
      token = encode_signed_token hmac id payload key \<and> parse payload = Some p"
    using decode_token_nonempty[OF d[unfolded x(1)]] by (auto simp: encode_signed_token_def)
next
  assume "\<exists>payload. payload \<noteq> [] \<and> hmac key payload \<noteq> [] \<and> length token \<le> n \<and>
      token = encode_signed_token hmac id payload key \<and> parse payload = Some p"
  then show "decode_signed_token hmac parse token key n = Some p"
    using decode_encode_token[of id _ hmac key n parse] by force
qed

end
