(* ===== verification/SlidingWindow.thy ===== *)
theory SlidingWindow
  imports Prelude
begin

text \<open>
  The contract of a sliding-window limiter, shared by the per-caller call budget of a
  mailbox (\<open>call-rate-limit.ts\<close>) and by the HTTP limiter shards (\<open>ratelimit/do.ts\<close>): a
  check is admitted only when fewer than the limit of the key's hits are live, and it
  changes nothing about live hits but adding its own. The bound on every window follows
  once, here.
\<close>

definition live_hits :: "int \<Rightarrow> int \<Rightarrow> int list \<Rightarrow> int list" where
  "live_hits window now hits = filter (\<lambda>a. now - a < window) hits"

lemma live_hits_simps [simp]:
  "live_hits w now [] = []"
  "live_hits w now (xs @ ys) = live_hits w now xs @ live_hits w now ys"
  by (simp_all add: live_hits_def)

lemma live_hits_later: "now \<le> t \<Longrightarrow> live_hits w t (live_hits w now xs) = live_hits w t xs"
  unfolding live_hits_def filter_filter by (rule filter_cong) auto

text \<open>A run of checks, oldest first, and the hits it admitted.\<close>

fun run_checks ::
  "('s \<Rightarrow> string \<Rightarrow> int \<Rightarrow> 's \<times> bool) \<Rightarrow> 's \<Rightarrow> (string \<times> int) list \<Rightarrow> 's \<times> (string \<times> int) list" where
  "run_checks check s [] = (s, [])"
| "run_checks check s ((k, now) # cs) =
     (let (s', ok) = check s k now; (s'', admitted) = run_checks check s' cs
      in (s'', if ok then (k, now) # admitted else admitted))"

definition hits_of :: "string \<Rightarrow> (string \<times> int) list \<Rightarrow> int list" where
  "hits_of k admitted = map snd (filter (\<lambda>h. fst h = k) admitted)"

lemma hits_of_simps [simp]:
  "hits_of k [] = []"
  "hits_of k (xs @ ys) = hits_of k xs @ hits_of k ys"
  "hits_of k [(k', a)] = (if k' = k then [a] else [])"
  by (simp_all add: hits_of_def)

lemma hits_of_set: "a \<in> set (hits_of k l) \<longleftrightarrow> (k, a) \<in> set l"
  by (force simp: hits_of_def)

definition window_count :: "int \<Rightarrow> string \<Rightarrow> int \<Rightarrow> (string \<times> int) list \<Rightarrow> nat" where
  "window_count w k t admitted = length (filter (\<lambda>a. t - w < a \<and> a \<le> t) (hits_of k admitted))"

locale sliding_window =
  fixes check :: "'s \<Rightarrow> string \<Rightarrow> int \<Rightarrow> 's \<times> bool"
    and hits :: "'s \<Rightarrow> string \<Rightarrow> int list"
    and inv :: "'s \<Rightarrow> bool"
    and window :: int
    and limit :: nat
  assumes check_admits: "inv s \<Longrightarrow> snd (check s k now) \<Longrightarrow> length (live_hits window now (hits s k)) < limit"
    and check_hits: "inv s \<Longrightarrow> live_hits window now (hits (fst (check s k now)) k') =
      live_hits window now (hits s k') @ (if snd (check s k now) \<and> k' = k then [now] else [])"
    and check_inv: "inv s \<Longrightarrow> inv (fst (check s k now))"
begin

text \<open>What a state knows about the hits admitted so far, the last of them at \<open>since\<close>.\<close>

definition tracks :: "'s \<Rightarrow> int \<Rightarrow> (string \<times> int) list \<Rightarrow> bool" where
  "tracks s since admitted =
     (inv s \<and> (\<forall>k t. since \<le> t \<longrightarrow> live_hits window t (hits s k) = live_hits window t (hits_of k admitted)) \<and>
      (\<forall>h \<in> set admitted. snd h \<le> since) \<and> (\<forall>k t. window_count window k t admitted \<le> limit))"

lemma tracks_check:
  assumes "tracks s since admitted" "since \<le> now" "0 < window"
  shows "tracks (fst (check s k now)) now (if snd (check s k now) then admitted @ [(k, now)] else admitted)"
proof -
  let ?s = "fst (check s k now)" and ?ok = "snd (check s k now)"
  let ?log = "if ?ok then admitted @ [(k, now)] else admitted"
  have inv: "inv s" and same: "\<And>k t. since \<le> t \<Longrightarrow> live_hits window t (hits s k) = live_hits window t (hits_of k admitted)"
    and old: "\<And>h. h \<in> set admitted \<Longrightarrow> snd h \<le> since"
    and bound: "\<And>k t. window_count window k t admitted \<le> limit"
    using assms(1) by (auto simp: tracks_def)
  have now_live: "live_hits window now [now] = [now]" using assms(3) by (simp add: live_hits_def)
  have at_now: "live_hits window now (hits ?s k') = live_hits window now (hits_of k' ?log)" for k'
    using check_hits[OF inv, of now k k'] same[OF assms(2)] now_live by simp
  have later: "live_hits window t (hits ?s k') = live_hits window t (hits_of k' ?log)" if "now \<le> t" for k' t
    using at_now[of k'] live_hits_later[OF that] by metis
  have "window_count window k' t ?log \<le> limit" for k' t
  proof (cases "?ok \<and> k' = k \<and> now \<le> t")
    case True
    have le: "length (filter (\<lambda>a. t - window < a \<and> a \<le> t) (hits_of k admitted)) \<le>
        length (live_hits window now (hits_of k admitted))"
      unfolding live_hits_def using True by (intro length_filter_mono) auto
    have "length (live_hits window now (hits_of k admitted)) < limit"
      using check_admits[OF inv, of k now] True same[OF assms(2), of k] by simp
    then show ?thesis using True le by (simp add: window_count_def)
  next
    case False
    then have "window_count window k' t ?log = window_count window k' t admitted"
      by (auto simp: window_count_def)
    then show ?thesis using bound by simp
  qed
  moreover have "snd h \<le> now" if "h \<in> set ?log" for h
    using that old assms(2) by (fastforce split: if_splits)
  ultimately show ?thesis using later check_inv[OF inv] unfolding tracks_def by blast
qed

lemma run_tracks:
  "tracks s since admitted \<Longrightarrow> sorted (since # map snd cs) \<Longrightarrow> 0 < window \<Longrightarrow>
   \<exists>since'. tracks (fst (run_checks check s cs)) since' (admitted @ snd (run_checks check s cs))"
proof (induction cs arbitrary: s since admitted)
  case (Cons c cs)
  obtain k now where c: "c = (k, now)" by fastforce
  obtain s' ok where ck: "check s k now = (s', ok)" by fastforce
  have tr: "tracks s' now (if ok then admitted @ [(k, now)] else admitted)"
    using tracks_check[OF Cons.prems(1) _ Cons.prems(3), of now k] Cons.prems(2) c ck by simp
  have "sorted (now # map snd cs)" using Cons.prems(2) c by simp
  from Cons.IH[OF tr this Cons.prems(3)] show ?case
    using c ck by (cases ok) (simp_all add: split_beta)
qed auto

theorem window_bound:
  assumes "inv s" "\<And>k. hits s k = []" "sorted (map snd cs)" "0 < window"
  shows "window_count window k t (snd (run_checks check s cs)) \<le> limit"
proof (cases cs)
  case (Cons c rest)
  have "tracks s (snd c) []" using assms(1,2) by (simp add: tracks_def window_count_def)
  moreover have "sorted (snd c # map snd cs)" using assms(3) Cons by simp
  ultimately obtain l where "tracks (fst (run_checks check s cs)) l ([] @ snd (run_checks check s cs))"
    using run_tracks assms(4) by blast
  then show ?thesis by (simp add: tracks_def)
qed (simp add: window_count_def)

end

end
