(* ===== verification/Canonical.thy ===== *)
theory Canonical
  imports Unicode
begin

text \<open>
  \<open>packages/shared/src/canonical.ts\<close>: the tagged, length-prefixed encoding whose bytes are
  signed. The module promises that no two distinct value lists produce the same bytes; the
  lemma \<open>canonical_encode_inj\<close> proves it for strings that are well-formed Unicode and shorter
  than the four-byte length prefix can count, and \<open>canonical_lone_surrogate_collision\<close>
  shows that the first condition is needed.
\<close>

datatype canonical_value = CStr js_string | CNum int | CNull

datatype canonical_error = NotSafeInteger int

definition TAG_STRING :: byte where "TAG_STRING = 1"
definition TAG_INT :: byte where "TAG_INT = 2"
definition TAG_NULL :: byte where "TAG_NULL = 3"

text \<open>\<open>Number.isSafeInteger\<close> on the integers.\<close>

definition is_safe_integer :: "int \<Rightarrow> bool" where
  "is_safe_integer n = (\<bar>n\<bar> \<le> 2 ^ 53 - 1)"

text \<open>
  The big-endian writes of a \<open>DataView\<close>: the low \<open>k\<close> bytes of a number. \<open>setUint32\<close>
  reduces modulo \<open>2 ^ 32\<close> and \<open>setBigInt64\<close> stores two's complement, which is the number
  modulo \<open>2 ^ 64\<close>.
\<close>

fun be_bytes :: "nat \<Rightarrow> nat \<Rightarrow> byte list" where
  "be_bytes 0 x = []"
| "be_bytes (Suc k) x = be_bytes k (x div 256) @ [word_of_nat (x mod 256)]"

definition set_uint32 :: "nat \<Rightarrow> byte list" where
  "set_uint32 n = be_bytes 4 (n mod 2 ^ 32)"

definition set_big_int64 :: "int \<Rightarrow> byte list" where
  "set_big_int64 n = be_bytes 8 (nat (n mod 2 ^ 64))"

fun encode_value :: "canonical_value \<Rightarrow> canonical_error + byte list" where
  "encode_value CNull = Inr [TAG_NULL]"
| "encode_value (CNum n) =
     (if is_safe_integer n then Inr (TAG_INT # set_big_int64 n) else Inl (NotSafeInteger n))"
| "encode_value (CStr s) =
     (let bytes = utf8 s in Inr (TAG_STRING # set_uint32 (length bytes) @ bytes))"

fun encode_parts :: "canonical_value list \<Rightarrow> canonical_error + byte list list" where
  "encode_parts [] = Inr []"
| "encode_parts (v # vs) =
     (case encode_value v of
        Inl e \<Rightarrow> Inl e
      | Inr p \<Rightarrow> (case encode_parts vs of Inl e \<Rightarrow> Inl e | Inr ps \<Rightarrow> Inr (p # ps)))"

definition canonical_encode :: "canonical_value list \<Rightarrow> canonical_error + byte list" where
  "canonical_encode vs = map_sum id concat (encode_parts vs)"

subsection \<open>Big-endian bytes\<close>

lemma be_bytes_length [simp]: "length (be_bytes k x) = k"
  by (induction k x rule: be_bytes.induct) auto

lemma byte_of_nat_inj: "a < 256 \<Longrightarrow> b < 256 \<Longrightarrow> (word_of_nat a :: byte) = word_of_nat b \<Longrightarrow> a = b"
  using map_word_of_nat_inj[of "[a]" "[b]"] by simp

lemma be_bytes_inj: "be_bytes k x = be_bytes k y \<Longrightarrow> x < 256 ^ k \<Longrightarrow> y < 256 ^ k \<Longrightarrow> x = y"
proof (induction k arbitrary: x y)
  case (Suc k)
  from Suc.prems(1) have eq: "be_bytes k (x div 256) = be_bytes k (y div 256)"
    "(word_of_nat (x mod 256) :: byte) = word_of_nat (y mod 256)" by auto
  from eq(1) have "x div 256 = y div 256"
    using Suc.IH Suc.prems(2,3) by (simp add: less_mult_imp_div_less mult.commute)
  moreover from eq(2) have "x mod 256 = y mod 256" by (intro byte_of_nat_inj) auto
  ultimately show ?case by (metis div_mult_mod_eq)
qed simp

lemma set_uint32_length [simp]: "length (set_uint32 n) = 4"
  by (simp add: set_uint32_def)

lemma set_uint32_inj: "n < 2 ^ 32 \<Longrightarrow> m < 2 ^ 32 \<Longrightarrow> set_uint32 n = set_uint32 m \<Longrightarrow> n = m"
  unfolding set_uint32_def by (rule be_bytes_inj[of 4]) simp_all

lemma set_big_int64_length [simp]: "length (set_big_int64 n) = 8"
  by (simp add: set_big_int64_def)

lemma set_big_int64_inj:
  assumes "is_safe_integer n" "is_safe_integer m" "set_big_int64 n = set_big_int64 m"
  shows "n = m"
proof -
  have "nat (n mod 2 ^ 64) = nat (m mod 2 ^ 64)"
    using assms(3) unfolding set_big_int64_def by (rule be_bytes_inj) (simp_all add: nat_less_iff)
  then have "n mod 2 ^ 64 = m mod 2 ^ 64" by (simp add: eq_nat_nat_iff)
  moreover have "\<bar>n - m\<bar> < 2 ^ 64" using assms(1,2) by (simp add: is_safe_integer_def)
  ultimately show ?thesis by (simp add: mod_eq_dvd_iff) (metis dvd_imp_le_int eq_iff_diff_eq_0 not_less abs_numeral)
qed

subsection \<open>Injectivity\<close>

text \<open>What the encoding needs of a value to be lossless.\<close>

fun encodable :: "canonical_value \<Rightarrow> bool" where
  "encodable (CStr s) = (is_well_formed_unicode s \<and> length (utf8 s) < 2 ^ 32)"
| "encodable (CNum n) = True"
| "encodable CNull = True"

lemma encode_value_prefix_free:
  assumes "encodable v" "encodable w" "encode_value v = Inr p" "encode_value w = Inr q"
    and eq: "p @ xs = q @ ys"
  shows "v = w \<and> xs = ys"
proof (cases v)
  case v: (CStr s)
  show ?thesis
  proof (cases w)
    case w: (CStr t)
    have e: "set_uint32 (length (utf8 s)) @ utf8 s @ xs = set_uint32 (length (utf8 t)) @ utf8 t @ ys"
      using assms v w by (auto simp: Let_def)
    then have l: "set_uint32 (length (utf8 s)) = set_uint32 (length (utf8 t))"
      and r: "utf8 s @ xs = utf8 t @ ys" by (simp_all add: append_eq_append_conv)
    have "length (utf8 s) = length (utf8 t)" using l assms(1,2) v w by (intro set_uint32_inj) auto
    then show ?thesis using r assms(1,2) v w utf8_inj by auto
  qed (use assms v in \<open>auto simp: Let_def TAG_STRING_def TAG_INT_def TAG_NULL_def split: if_splits\<close>)
next
  case v: (CNum n)
  show ?thesis
  proof (cases w)
    case w: (CNum m)
    have "set_big_int64 n @ xs = set_big_int64 m @ ys" "is_safe_integer n" "is_safe_integer m"
      using assms v w by (auto split: if_splits)
    then show ?thesis using v w by (auto simp: append_eq_append_conv intro: set_big_int64_inj)
  qed (use assms v in \<open>auto simp: Let_def TAG_STRING_def TAG_INT_def TAG_NULL_def split: if_splits\<close>)
next
  case v: CNull
  then show ?thesis using assms
    by (cases w) (auto simp: Let_def TAG_STRING_def TAG_INT_def TAG_NULL_def split: if_splits)
qed

lemma encode_value_nonempty: "encode_value v = Inr p \<Longrightarrow> p \<noteq> []"
  by (cases v) (auto simp: Let_def split: if_splits)

lemma encode_parts_inj:
  "list_all encodable vs \<Longrightarrow> list_all encodable ws \<Longrightarrow>
   encode_parts vs = Inr ps \<Longrightarrow> encode_parts ws = Inr qs \<Longrightarrow> concat ps = concat qs \<Longrightarrow> vs = ws"
proof (induction vs arbitrary: ws ps qs)
  case Nil
  then show ?case by (cases ws) (auto split: sum.splits dest: encode_value_nonempty)
next
  case (Cons v vs)
  from Cons.prems(3) obtain p ps' where p: "encode_value v = Inr p" "encode_parts vs = Inr ps'" "ps = p # ps'"
    by (auto split: sum.splits)
  from Cons.prems(4,5) p obtain w ws' where ws: "ws = w # ws'"
    by (cases ws) (auto dest: encode_value_nonempty)
  from Cons.prems(4) ws obtain q qs' where q: "encode_value w = Inr q" "encode_parts ws' = Inr qs'" "qs = q # qs'"
    by (auto split: sum.splits)
  have "v = w \<and> concat ps' = concat qs'"
    using Cons.prems p q ws by (intro encode_value_prefix_free) auto
  then show ?case using Cons.IH[of ws' ps' qs'] Cons.prems(1,2) p q ws by simp
qed

lemma canonical_encode_Inr:
  "canonical_encode vs = Inr bs \<longleftrightarrow> (\<exists>ps. encode_parts vs = Inr ps \<and> bs = concat ps)"
  by (cases "encode_parts vs") (auto simp: canonical_encode_def)

lemma canonical_encode_unique:
  assumes "list_all encodable vs" "list_all encodable ws"
    "canonical_encode vs = Inr bs" "canonical_encode ws = Inr bs"
  shows "vs = ws"
  using assms encode_parts_inj by (auto simp: canonical_encode_Inr)

lemma encode_parts_total: "(\<forall>n. CNum n \<in> set vs \<longrightarrow> is_safe_integer n) \<Longrightarrow> \<exists>ps. encode_parts vs = Inr ps"
proof (induction vs)
  case (Cons v vs)
  then obtain ps where "encode_parts vs = Inr ps" by auto
  moreover have "\<exists>p. encode_value v = Inr p" using Cons.prems by (cases v) (auto simp: Let_def)
  ultimately show ?case by auto
qed simp

subsection \<open>Properties\<close>

text \<open>
  C36: Distinct value lists encode to distinct bytes, for strings that are well-formed
  Unicode and whose UTF-8 length fits the four-byte prefix.
\<close>

theorem canonical_encode_inj:
  assumes "list_all encodable vs" "list_all encodable ws" "vs \<noteq> ws" "canonical_encode vs = Inr bs"
  shows "canonical_encode ws \<noteq> Inr bs"
  using assms canonical_encode_unique by blast

lemma canonical_encode_inj_witness:
  "\<exists>bs. canonical_encode [CStr [0x61], CNum (-1), CNull] = Inr bs \<and>
        canonical_encode [CStr [0x61, 0x62]] \<noteq> Inr bs"
proof -
  have ok: "list_all encodable [CStr [0x61], CNum (-1), CNull]" "list_all encodable [CStr [0x61, 0x62]]"
    by (simp_all add: is_high_def is_low_def utf8_def utf8_nats_def utf8_point.simps)
  obtain bs where e: "canonical_encode [CStr [0x61], CNum (-1), CNull] = Inr bs"
    using encode_parts_total[of "[CStr [0x61], CNum (-1), CNull]"]
    by (auto simp: canonical_encode_Inr is_safe_integer_def)
  show ?thesis using canonical_encode_inj[OF ok _ e] e by auto
qed

text \<open>
  The condition is needed: a lone surrogate and the replacement character are different
  strings with the same encoding, so the claim in the module's comment does not hold for
  every pair of value lists.
\<close>

theorem canonical_lone_surrogate_collision:
  "canonical_encode [CStr [0xd800]] = canonical_encode [CStr [0xfffd]] \<and>
   CStr [0xd800] \<noteq> CStr [0xfffd] \<and> \<not> is_well_formed_unicode [0xd800]"
proof -
  have "utf8 [0xd800] = utf8 [0xfffd]"
    by (simp add: utf8_def utf8_nats_def is_high_def is_low_def)
  then show ?thesis by (simp add: canonical_encode_def is_high_def)
qed

end
