(* ===== verification/RateLimiter.thy ===== *)
theory RateLimiter
  imports SlidingWindow Unicode Canonical
begin

text \<open>
  The HTTP rate limiter of the relay: the SQLite shard of \<open>apps/relay/src/ratelimit/do.ts\<close>
  and the routing of \<open>ratelimit/index.ts\<close>, which hashes a key with FNV-1a to one of 64
  shards per policy. A fleet maps a Durable Object name to its state; a shard nobody
  addressed yet is empty.
\<close>

unbundle bit_operations_syntax

subsection \<open>One shard\<close>

record hit_row =
  hr_key :: string
  hr_at :: int
  hr_expires_at :: int

record limiter_state =
  lm_hits :: "hit_row list"
  lm_alarm :: "int option"

definition empty_limiter :: limiter_state where
  "empty_limiter = \<lparr>lm_hits = [], lm_alarm = None\<rparr>"

record check_request =
  ck_key :: string
  ck_now :: int
  ck_limit :: int
  ck_window_ms :: int

definition valid_check :: "check_request \<Rightarrow> bool" where
  "valid_check r =
     (if length (ck_key r) = 0 \<or> length (ck_key r) > 512 then False
      else is_safe_integer (ck_now r) \<and> is_safe_integer (ck_limit r) \<and> is_safe_integer (ck_window_ms r) \<and>
           is_safe_integer (ck_now r + ck_window_ms r) \<and>
           ck_now r \<ge> 0 \<and> ck_limit r > 0 \<and> ck_window_ms r > 0)"

definition delete_expired :: "int \<Rightarrow> hit_row list \<Rightarrow> hit_row list" where
  "delete_expired now rows = filter (\<lambda>h. \<not> hr_expires_at h \<le> now) rows"

definition count_hits :: "string \<Rightarrow> int \<Rightarrow> hit_row list \<Rightarrow> nat" where
  "count_hits key after rows = length (filter (\<lambda>h. hr_key h = key \<and> hr_at h > after) rows)"

text \<open>The synchronous transaction of \<open>fetch\<close>.\<close>

definition limiter_transaction :: "hit_row list \<Rightarrow> check_request \<Rightarrow> hit_row list \<times> bool" where
  "limiter_transaction rows r =
     (let rows1 = delete_expired (ck_now r) rows
      in if int (count_hits (ck_key r) (ck_now r - ck_window_ms r) rows1) \<ge> ck_limit r then (rows1, False)
         else (rows1 @ [\<lparr>hr_key = ck_key r, hr_at = ck_now r, hr_expires_at = ck_now r + ck_window_ms r\<rparr>], True))"

definition schedule_cleanup :: "bool \<Rightarrow> limiter_state \<Rightarrow> limiter_state" where
  "schedule_cleanup uses_test_clock s =
     (if uses_test_clock then s
      else case map hr_expires_at (lm_hits s) of
             [] \<Rightarrow> s
           | e # es \<Rightarrow> s\<lparr>lm_alarm := Some (fold min es e)\<rparr>)"

datatype limiter_response = LimiterBadRequest | LimiterSuccess bool

definition limiter_fetch :: "bool \<Rightarrow> limiter_state \<Rightarrow> check_request \<Rightarrow> limiter_state \<times> limiter_response" where
  "limiter_fetch test_clock s body =
     (if \<not> valid_check body then (s, LimiterBadRequest)
      else let (rows, success) = limiter_transaction (lm_hits s) body
           in (schedule_cleanup test_clock (s\<lparr>lm_hits := rows\<rparr>), LimiterSuccess success))"

definition limiter_alarm :: "bool \<Rightarrow> limiter_state \<Rightarrow> int \<Rightarrow> limiter_state" where
  "limiter_alarm test_clock s now =
     schedule_cleanup test_clock (s\<lparr>lm_hits := delete_expired now (lm_hits s)\<rparr>)"

subsection \<open>Routing\<close>

record durable_policy =
  dp_namespace :: string
  dp_limit :: int
  dp_window_ms :: int

definition REGISTER :: durable_policy where
  "REGISTER = \<lparr>dp_namespace = ''register'', dp_limit = 5, dp_window_ms = 60000\<rparr>"
definition ADMIN_WRITE :: durable_policy where
  "ADMIN_WRITE = \<lparr>dp_namespace = ''admin-write'', dp_limit = 10, dp_window_ms = 60000\<rparr>"
definition AUDIT_READ :: durable_policy where
  "AUDIT_READ = \<lparr>dp_namespace = ''audit-read'', dp_limit = 120, dp_window_ms = 60000\<rparr>"
definition AUDIT_WRITE :: durable_policy where
  "AUDIT_WRITE = \<lparr>dp_namespace = ''audit-write'', dp_limit = 30, dp_window_ms = 60000\<rparr>"

definition DURABLE_SHARDS :: nat where "DURABLE_SHARDS = 64"

text \<open>FNV-1a over the code units, on 32 bits as \<open>Math.imul\<close> and \<open>>>> 0\<close> compute it.\<close>

fun fnv1a :: "32 word \<Rightarrow> js_string \<Rightarrow> 32 word" where
  "fnv1a hash [] = hash"
| "fnv1a hash (u # us) = fnv1a ((hash XOR ucast u) * 0x01000193) us"

definition shard_for :: "string \<Rightarrow> nat" where
  "shard_for key = unat (fnv1a 0x811c9dc5 (js key)) mod DURABLE_SHARDS"

text \<open>\<open>`${policy.namespace}:${shardFor(key)}`\<close>, kept as the pair of its two parts.\<close>

type_synonym limiter_fleet = "(string \<times> nat) \<Rightarrow> limiter_state"

definition empty_fleet :: limiter_fleet where
  "empty_fleet = (\<lambda>_. empty_limiter)"

datatype limit_error = LimiterHttpError

definition check_limit ::
  "bool \<Rightarrow> durable_policy \<Rightarrow> limiter_fleet \<Rightarrow> string \<Rightarrow> int \<Rightarrow> limiter_fleet \<times> (limit_error + bool)" where
  "check_limit test_clock policy fleet key now =
     (let name = (dp_namespace policy, shard_for key);
          (s, response) = limiter_fetch test_clock (fleet name)
            \<lparr>ck_key = key, ck_now = now, ck_limit = dp_limit policy, ck_window_ms = dp_window_ms policy\<rparr>
      in (fleet(name := s),
          (case response of LimiterBadRequest \<Rightarrow> Inl LimiterHttpError | LimiterSuccess ok \<Rightarrow> Inr ok)))"

text \<open>Admission as the middleware reads it: an error is not an admission.\<close>

definition limiter_admit :: "bool \<Rightarrow> durable_policy \<Rightarrow> limiter_fleet \<Rightarrow> string \<Rightarrow> int \<Rightarrow> limiter_fleet \<times> bool" where
  "limiter_admit test_clock policy fleet key now =
     (let (fleet', r) = check_limit test_clock policy fleet key now in (fleet', r = Inr True))"

subsection \<open>Every policy is a sliding window\<close>

definition policy_hits :: "durable_policy \<Rightarrow> limiter_fleet \<Rightarrow> string \<Rightarrow> int list" where
  "policy_hits policy fleet key =
     map hr_at (filter (\<lambda>h. hr_key h = key) (lm_hits (fleet (dp_namespace policy, shard_for key))))"

definition policy_inv :: "durable_policy \<Rightarrow> limiter_fleet \<Rightarrow> bool" where
  "policy_inv policy fleet =
     (\<forall>n h. h \<in> set (lm_hits (fleet (dp_namespace policy, n))) \<longrightarrow> hr_expires_at h = hr_at h + dp_window_ms policy)"

lemma schedule_cleanup_hits [simp]: "lm_hits (schedule_cleanup tc s) = lm_hits s"
  by (simp add: schedule_cleanup_def split: list.splits)

lemma delete_expired_live:
  assumes "\<And>h. h \<in> set rows \<Longrightarrow> hr_expires_at h = hr_at h + w"
  shows "map hr_at (filter (\<lambda>h. hr_key h = k) (delete_expired now rows)) =
    live_hits w now (map hr_at (filter (\<lambda>h. hr_key h = k) rows))"
  using assms by (induction rows) (auto simp: delete_expired_def live_hits_def)

lemma count_hits_live:
  assumes "\<And>h. h \<in> set rows \<Longrightarrow> hr_expires_at h = hr_at h + w"
  shows "count_hits k (now - w) (delete_expired now rows) =
    length (live_hits w now (map hr_at (filter (\<lambda>h. hr_key h = k) rows)))"
  using assms by (induction rows) (auto simp: count_hits_def delete_expired_def live_hits_def)

lemma live_hits_again [simp]: "live_hits w now (live_hits w now xs) = live_hits w now xs"
  by (simp add: live_hits_def)

lemma delete_expired_subset: "set (delete_expired now rows) \<subseteq> set rows"
  by (auto simp: delete_expired_def)

lemma policy_sliding_window:
  assumes pos: "0 < dp_window_ms policy" "0 < dp_limit policy"
  shows "sliding_window (limiter_admit tc policy) (policy_hits policy) (policy_inv policy)
    (dp_window_ms policy) (nat (dp_limit policy))"
proof unfold_locales
  fix fleet k now k'
  assume inv: "policy_inv policy fleet"
  let ?w = "dp_window_ms policy" and ?name = "(dp_namespace policy, shard_for k)"
  let ?rows = "lm_hits (fleet ?name)"
  let ?req = "\<lparr>ck_key = k, ck_now = now, ck_limit = dp_limit policy, ck_window_ms = ?w\<rparr>"
  let ?row = "\<lparr>hr_key = k, hr_at = now, hr_expires_at = now + ?w\<rparr>"
  have exp: "hr_expires_at h = hr_at h + ?w" if "h \<in> set ?rows" for h
    using that inv by (auto simp: policy_inv_def)
  have hits: "live_hits ?w now (map hr_at (filter (\<lambda>h. hr_key h = k) ?rows)) = live_hits ?w now (policy_hits policy fleet k)"
    by (simp add: policy_hits_def)
  have cnt: "count_hits k (now - ?w) (delete_expired now ?rows) = length (live_hits ?w now (policy_hits policy fleet k))"
    using count_hits_live[of ?rows ?w k now] exp by (simp add: policy_hits_def)
  consider (bad) "\<not> valid_check ?req"
    | (full) "valid_check ?req" "limiter_transaction ?rows ?req = (delete_expired now ?rows, False)"
    | (ok) "valid_check ?req" "limiter_transaction ?rows ?req = (delete_expired now ?rows @ [?row], True)"
        "length (live_hits ?w now (policy_hits policy fleet k)) < nat (dp_limit policy)"
    by (cases "valid_check ?req"; cases "int (length (live_hits ?w now (policy_hits policy fleet k))) \<ge> dp_limit policy")
       (simp_all add: limiter_transaction_def Let_def cnt)
  note cases = this
  have res: "snd (limiter_admit tc policy fleet k now) = (valid_check ?req \<and> snd (limiter_transaction ?rows ?req))"
    "fst (limiter_admit tc policy fleet k now) =
      (if valid_check ?req
       then fleet(?name := schedule_cleanup tc ((fleet ?name)\<lparr>lm_hits := fst (limiter_transaction ?rows ?req)\<rparr>))
       else fleet)"
    by (auto simp: limiter_admit_def check_limit_def limiter_fetch_def Let_def split_beta fun_eq_iff)
  show "length (live_hits ?w now (policy_hits policy fleet k)) < nat (dp_limit policy)"
    if "snd (limiter_admit tc policy fleet k now)"
    using that res(1) cases by (cases rule: cases) auto
  show "policy_inv policy (fst (limiter_admit tc policy fleet k now))"
    using inv delete_expired_subset[of now ?rows] res(2)
    by (cases rule: cases) (auto simp: policy_inv_def)
  show "live_hits ?w now (policy_hits policy (fst (limiter_admit tc policy fleet k now)) k') =
      live_hits ?w now (policy_hits policy fleet k') @
      (if snd (limiter_admit tc policy fleet k now) \<and> k' = k then [now] else [])"
  proof (cases "shard_for k' = shard_for k")
    case True
    have del: "map hr_at (filter (\<lambda>h. hr_key h = k') (delete_expired now ?rows)) =
        live_hits ?w now (policy_hits policy fleet k')"
      using delete_expired_live[of ?rows ?w k' now] exp True by (simp add: policy_hits_def)
    have now_live: "live_hits ?w now [now] = [now]" using pos by (simp add: live_hits_def)
    show ?thesis
      using res True del now_live
      by (cases rule: cases) (auto simp: policy_hits_def)
  next
    case False
    then have "policy_hits policy (fst (limiter_admit tc policy fleet k now)) k' = policy_hits policy fleet k'"
      "k' \<noteq> k" using res(2) by (auto simp: policy_hits_def)
    then show ?thesis by simp
  qed
qed

interpretation register_limit:
  sliding_window "limiter_admit tc REGISTER" "policy_hits REGISTER" "policy_inv REGISTER" 60000 5 for tc
  using policy_sliding_window[of REGISTER tc] by (simp add: REGISTER_def)

interpretation admin_write_limit:
  sliding_window "limiter_admit tc ADMIN_WRITE" "policy_hits ADMIN_WRITE" "policy_inv ADMIN_WRITE" 60000 10 for tc
  using policy_sliding_window[of ADMIN_WRITE tc] by (simp add: ADMIN_WRITE_def)

interpretation audit_read_limit:
  sliding_window "limiter_admit tc AUDIT_READ" "policy_hits AUDIT_READ" "policy_inv AUDIT_READ" 60000 120 for tc
  using policy_sliding_window[of AUDIT_READ tc] by (simp add: AUDIT_READ_def)

interpretation audit_write_limit:
  sliding_window "limiter_admit tc AUDIT_WRITE" "policy_hits AUDIT_WRITE" "policy_inv AUDIT_WRITE" 60000 30 for tc
  using policy_sliding_window[of AUDIT_WRITE tc] by (simp add: AUDIT_WRITE_def)

lemma empty_fleet_start:
  "policy_inv policy empty_fleet" "policy_hits policy empty_fleet k = []"
  by (simp_all add: policy_inv_def policy_hits_def empty_fleet_def empty_limiter_def)

subsection \<open>Properties\<close>

text \<open>
  Starting from empty shards, in any minute each of the four durable policies admits at
  most its limit of requests per key, whatever keys share its shards.
\<close>

theorem http_limits_bound:
  assumes "sorted (map snd cs)"
  shows "window_count 60000 k t (snd (run_checks (limiter_admit tc REGISTER) empty_fleet cs)) \<le> 5 \<and>
    window_count 60000 k t (snd (run_checks (limiter_admit tc ADMIN_WRITE) empty_fleet cs)) \<le> 10 \<and>
    window_count 60000 k t (snd (run_checks (limiter_admit tc AUDIT_READ) empty_fleet cs)) \<le> 120 \<and>
    window_count 60000 k t (snd (run_checks (limiter_admit tc AUDIT_WRITE) empty_fleet cs)) \<le> 30"
  by (intro conjI register_limit.window_bound admin_write_limit.window_bound audit_read_limit.window_bound
      audit_write_limit.window_bound assms empty_fleet_start) simp_all

lemma http_limits_bound_witness:
  "window_count 60000 ''1.2.3.4'' 500
     (snd (run_checks (limiter_admit False REGISTER) empty_fleet (replicate 9 (''1.2.3.4'', 500)))) \<le> 5"
  using http_limits_bound[of "replicate 9 (''1.2.3.4'', 500)" "''1.2.3.4''" 500 False] by (simp add: sorted_replicate)

end
