(* ===== verification/Tenancy.thy ===== *)
theory Tenancy
  imports RelayDb SignedToken RateLimiter
begin

text \<open>
  Who a request acts for: \<open>apps/relay/src/auth.ts\<close>, \<open>tenant.ts\<close>, \<open>identity.ts\<close> and the
  gates of \<open>middleware.ts\<close>. SHA-256 is the parameter \<open>en_digest\<close> of the deployment.
\<close>

unbundle bit_operations_syntax

record relay_env =
  en_digest :: "byte list \<Rightarrow> byte list"
  en_mode :: "string option"
  en_self_hosted_org :: "string option"

subsection \<open>Credentials\<close>

definition hex_char :: "nat \<Rightarrow> char" where
  "hex_char n = ''0123456789abcdef'' ! n"

definition hex_byte :: "byte \<Rightarrow> string" where
  "hex_byte b = [hex_char (unat b div 16), hex_char (unat b mod 16)]"

definition sha256_hex :: "relay_env \<Rightarrow> string \<Rightarrow> string" where
  "sha256_hex env s = concat (map hex_byte (en_digest env (utf8 (js s))))"

text \<open>\<open>constantTimeEqual\<close>: the differences of all code units are collected, none ends the loop.\<close>

fun collect_diff :: "code_unit \<Rightarrow> js_string \<Rightarrow> js_string \<Rightarrow> code_unit" where
  "collect_diff diff (a # as) (b # bs) = collect_diff (diff OR (a XOR b)) as bs"
| "collect_diff diff as bs = diff"

definition constant_time_equal :: "string \<Rightarrow> string \<Rightarrow> bool" where
  "constant_time_equal a b = (if length a \<noteq> length b then False else collect_diff 0 (js a) (js b) = 0)"

text \<open>\<open>replace(/^Bearer\s+/i, "")\<close>.\<close>

definition ascii_lower :: "char \<Rightarrow> char" where
  "ascii_lower c = (if upper_alpha c then char_of (of_char c + 32 :: nat) else c)"

definition js_space :: "char \<Rightarrow> bool" where
  "js_space c = ((of_char c :: nat) \<in> {9, 10, 11, 12, 13, 32, 160})"

definition strip_bearer :: "string \<Rightarrow> string" where
  "strip_bearer s =
     (let rest = drop 6 s
      in if map ascii_lower (take 6 s) = ''bearer'' \<and> rest \<noteq> [] \<and> js_space (hd rest)
         then dropWhile js_space rest else s)"

definition bearer_token :: "string option \<Rightarrow> string" where
  "bearer_token authorization = strip_bearer (or_default authorization '''')"

definition select_handle :: "relay_db \<Rightarrow> string \<Rightarrow> string \<Rightarrow> handle_row option" where
  "select_handle db org handle = find (\<lambda>r. hn_org r = org \<and> hn_handle r = handle) (rd_handles db)"

text \<open>An empty \<open>agent_id\<close> is falsy, so a row without a principal authenticates nobody.\<close>

definition authenticated_handle ::
  "relay_env \<Rightarrow> relay_db \<Rightarrow> string \<Rightarrow> string \<Rightarrow> string \<Rightarrow> (string \<times> org_role \<times> int) option" where
  "authenticated_handle env db org handle token = (case select_handle db org handle of
     None \<Rightarrow> None
   | Some row \<Rightarrow>
       if \<not> constant_time_equal (hn_token_hash row) (sha256_hex env token) then None
       else if hn_agent_id row = [] then None
       else Some (hn_agent_id row, hn_role row, hn_recovery_generation row))"

subsection \<open>Tenants\<close>

definition deployment_org_allows :: "string option \<Rightarrow> string option \<Rightarrow> string \<Rightarrow> bool" where
  "deployment_org_allows mode configured org =
     (if mode = Some ''hosted'' then configured = None \<and> org_re org
      else mode = Some ''self-hosted'' \<and>
           (case configured of None \<Rightarrow> False | Some c \<Rightarrow> org_re c \<and> c = org))"

definition request_org :: "string option \<Rightarrow> string option \<Rightarrow> string option \<Rightarrow> string" where
  "request_org header mode configured =
     (let claimed = (if truthy_str header then the header else if truthy_str configured then the configured else '''')
      in if deployment_org_allows mode configured claimed then claimed else '''')"

record request_headers =
  rh_org :: "string option"
  rh_handle :: "string option"
  rh_authorization :: "string option"
  rh_connecting_ip :: "string option"
  rh_country :: "string option"

definition authenticate_request :: "relay_env \<Rightarrow> relay_db \<Rightarrow> request_headers \<Rightarrow> identity option" where
  "authenticate_request env db req =
     (let org = request_org (rh_org req) (en_mode env) (en_self_hosted_org env);
          handle = or_default (rh_handle req) '''';
          token = bearer_token (rh_authorization req)
      in if org = [] then None
         else case authenticated_handle env db org handle token of
             None \<Rightarrow> None
           | Some (agent_id, role, generation) \<Rightarrow>
               Some \<lparr>id_org = org, id_handle = handle, id_agent_id = agent_id, id_role = role,
                     id_recovery_generation = generation\<rparr>)"

definition require_org_admin :: "identity \<Rightarrow> bool" where
  "require_org_admin i = (id_role i = Admin)"

definition identity_object_name :: "string \<Rightarrow> string \<Rightarrow> string" where
  "identity_object_name org agent_id = org @ '':'' @ agent_id"

definition generate_agent_id :: "string \<Rightarrow> string" where
  "generate_agent_id uuid = ''agt_'' @ filter (\<lambda>c. c \<noteq> CHR ''-'') uuid"

definition resolve_agent_id :: "relay_db \<Rightarrow> string \<Rightarrow> string \<Rightarrow> string option" where
  "resolve_agent_id db org handle = map_option hn_agent_id (select_handle db org handle)"

subsection \<open>Gates\<close>

definition PUBLIC_V1_PATHS :: "string list" where
  "PUBLIC_V1_PATHS = [''/v1/register'', ''/v1/admin/invite'', ''/v1/recovery/redeem'']"

definition is_public_v1_path :: "string \<Rightarrow> bool" where
  "is_public_v1_path path =
     (path \<in> set PUBLIC_V1_PATHS \<or>
      (case split_on (CHR ''/'') path of
         [a, b, c, handle, d] \<Rightarrow>
           a = [] \<and> b = ''v1'' \<and> c = ''a2a'' \<and> handle \<noteq> [] \<and> (d = ''agent-card.json'' \<or> d = ''tasks'')
       | [a, b, c, handle, d, e] \<Rightarrow>
           a = [] \<and> b = ''v1'' \<and> c = ''a2a'' \<and> handle \<noteq> [] \<and> d = ''tasks'' \<and> e \<noteq> []
       | _ \<Rightarrow> False))"

datatype gate = Anonymous | Authenticated identity | Rejected

definition require_identity :: "relay_env \<Rightarrow> relay_db \<Rightarrow> string \<Rightarrow> request_headers \<Rightarrow> gate" where
  "require_identity env db path req =
     (if is_public_v1_path path then Anonymous
      else case authenticate_request env db req of None \<Rightarrow> Rejected | Some i \<Rightarrow> Authenticated i)"

text \<open>
  A route is a function on its state with an answer; the two middlewares run it or answer
  in its place.
\<close>

definition require_admin :: "identity \<Rightarrow> 's \<Rightarrow> 's \<times> 'a http \<Rightarrow> 's \<times> 'a http" where
  "require_admin i st route =
     (if require_org_admin i then route else (st, Refuse 403 ''administrator role required''))"

text \<open>
  \<open>jsonBody\<close>: a body that does not parse is \<open>null\<close>, and the fields a route takes from its
  path override the body's.
\<close>

fun spread :: "js_value \<Rightarrow> (string \<times> js_value) list" where
  "spread (JObj kvs) = kvs"
| "spread (JArr vs) = map (\<lambda>(i, v). (js_number_string (int i), v)) (enumerate 0 vs)"
| "spread _ = []"

definition json_body :: "(js_value \<Rightarrow> 'a option) \<Rightarrow> js_value option \<Rightarrow> (string \<times> js_value) list option \<Rightarrow> 'a option" where
  "json_body schema body overrides =
     (let raw = or_default body JNull
      in schema (case overrides of
           None \<Rightarrow> raw
         | Some os \<Rightarrow> JObj (fold (\<lambda>(k, v). obj_set k v) os (spread raw))))"

text \<open>
  Rate limits. A policy is counted by a limiter object (theory \<open>RateLimiter\<close>) or by one of
  the platform's bindings; a handler sees the admission of a key under a policy, which is
  the parameter \<open>admit\<close>.
\<close>

datatype limit_policy = DurableLimit durable_policy | NativeLimit string

definition NATIVE_CARD :: limit_policy where "NATIVE_CARD = NativeLimit ''CARD_RL''"
definition NATIVE_READ :: limit_policy where "NATIVE_READ = NativeLimit ''READ_RL''"

type_synonym admission = "limit_policy \<Rightarrow> string \<Rightarrow> bool"

datatype limit_by = ByIp | ByIdentity string

definition connecting_ip :: "request_headers \<Rightarrow> string" where
  "connecting_ip req = or_default (rh_connecting_ip req) ''unknown''"

definition rate_limit_key :: "limit_by \<Rightarrow> request_headers \<Rightarrow> identity \<Rightarrow> string" where
  "rate_limit_key by req i = (case by of
     ByIp \<Rightarrow> connecting_ip req
   | ByIdentity prefix \<Rightarrow> prefix @ id_org i @ '':'' @ id_handle i)"

definition rate_limit ::
  "admission \<Rightarrow> limit_policy \<Rightarrow> limit_by \<Rightarrow> request_headers \<Rightarrow> identity \<Rightarrow> 's \<Rightarrow> 's \<times> 'a http \<Rightarrow> 's \<times> 'a http" where
  "rate_limit admit policy by req i st route =
     (if admit policy (rate_limit_key by req i) then route else (st, Refuse 429 ''rate limited''))"

subsection \<open>Facts\<close>

lemma collect_diff_zero:
  "length as = length bs \<Longrightarrow> collect_diff diff as bs = 0 \<longleftrightarrow> diff = 0 \<and> as = bs"
proof (induction diff as bs rule: collect_diff.induct)
  case (1 diff a as b bs)
  have "diff OR (a XOR b) = 0 \<longleftrightarrow> diff = 0 \<and> a = b"
      by (metis or.left_neutral or_eq_0_iff xor_self_eq word_bw_comms(3) xor.left_neutral xor.assoc)
  then show ?case using 1 by auto
qed auto

lemma constant_time_equal_iff [simp]: "constant_time_equal a b \<longleftrightarrow> a = b"
  unfolding constant_time_equal_def
  by (auto simp: collect_diff_zero js_def[THEN arg_cong[where f = length]] js_eq_iff)

text \<open>
  An authenticated identity stands for one row of \<open>handles\<close>: the organization is one the
  deployment serves, and the presented token hashes to the row's digest. Nothing else of the
  request or of the database enters.
\<close>

lemma request_org_allowed:
  "request_org header mode configured \<noteq> [] \<Longrightarrow>
   deployment_org_allows mode configured (request_org header mode configured)"
  by (simp add: request_org_def Let_def split: if_splits)

lemma select_handle_Some:
  "select_handle db org handle = Some row \<Longrightarrow>
   row \<in> set (rd_handles db) \<and> hn_org row = org \<and> hn_handle row = handle"
  unfolding select_handle_def by (drule find_Some_iff_mem) simp

lemma select_handle_None:
  "select_handle db org handle = None \<longleftrightarrow> (org, handle) \<notin> handle_key ` set (rd_handles db)"
  by (auto simp: select_handle_def find_None_iff handle_key_def)

lemma select_handle_unique:
  assumes "handles_table.keyed (rd_handles db)" "row \<in> set (rd_handles db)"
  shows "select_handle db (hn_org row) (hn_handle row) = Some row"
  using handles_table.find_key[OF assms] by (simp add: select_handle_def handle_key_def)

lemma authenticate_request_Some:
  assumes "authenticate_request env db req = Some i"
  obtains row where "select_handle db (id_org i) (id_handle i) = Some row"
    "deployment_org_allows (en_mode env) (en_self_hosted_org env) (id_org i)"
    "hn_token_hash row = sha256_hex env (bearer_token (rh_authorization req))"
    "id_agent_id i = hn_agent_id row" "hn_agent_id row \<noteq> []" "id_role i = hn_role row"
    "id_recovery_generation i = hn_recovery_generation row"
    "id_org i = request_org (rh_org req) (en_mode env) (en_self_hosted_org env)"
proof -
  let ?org = "request_org (rh_org req) (en_mode env) (en_self_hosted_org env)"
  have o: "?org \<noteq> []" using assms by (auto simp: authenticate_request_def Let_def split: if_splits)
  then obtain row where r: "select_handle db ?org (or_default (rh_handle req) []) = Some row"
    "hn_token_hash row = sha256_hex env (bearer_token (rh_authorization req))" "hn_agent_id row \<noteq> []"
    "i = \<lparr>id_org = ?org, id_handle = or_default (rh_handle req) [], id_agent_id = hn_agent_id row,
       id_role = hn_role row, id_recovery_generation = hn_recovery_generation row\<rparr>"
    using assms by (auto simp: authenticate_request_def authenticated_handle_def Let_def split: option.splits if_splits)
  show thesis by (rule that[of row]) (use r request_org_allowed[OF o] in simp_all)
qed

lemma self_hosted_one_org:
  "deployment_org_allows (Some ''self-hosted'') configured org \<Longrightarrow> configured = Some org"
  by (auto simp: deployment_org_allows_def split: option.splits)

end
