(* ===== verification/Enrollment.thy ===== *)
theory Enrollment
  imports Tenancy
begin

text \<open>
  Joining an organization: the invites of \<open>apps/relay/src/invites.ts\<close>, and registration and
  token rotation of \<open>apps/relay/src/index.ts\<close>, with the request schemas of
  \<open>packages/shared/src/invite.ts\<close> and \<open>protocol.ts\<close>. A handler reads at one moment and
  commits a batch at a later one, so the two databases it sees are separate arguments.
\<close>

subsection \<open>Schemas\<close>

definition DAY_MS :: int where "DAY_MS = 86400000"
definition INVITE_RETENTION_MS :: int where "INVITE_RETENTION_MS = 30 * 86400000"
definition MAX_ACTIVE_ORG_INVITES :: nat where "MAX_ACTIVE_ORG_INVITES = 100"
definition MAX_LISTED_ORG_INVITES :: nat where "MAX_LISTED_ORG_INVITES = 200"
definition MAX_ORG_INVITE_DESCRIPTION :: nat where "MAX_ORG_INVITE_DESCRIPTION = 100"
definition DEFAULT_ORG_INVITE_EXPIRY_DAYS :: int where "DEFAULT_ORG_INVITE_EXPIRY_DAYS = 7"
definition MAX_ORG_INVITE_EXPIRY_DAYS :: int where "MAX_ORG_INVITE_EXPIRY_DAYS = 90"

definition org_invite_id_re :: "string \<Rightarrow> bool" where
  "org_invite_id_re s = (length s = 64 \<and> list_all lower_hex s)"

fun org_role_code :: "org_role \<Rightarrow> string" where
  "org_role_code Admin = ''admin''"
| "org_role_code Member = ''member''"

fun read_org_role :: "js_value \<Rightarrow> org_role option" where
  "read_org_role (JStr s) =
     (if s = ''admin'' then Some Admin else if s = ''member'' then Some Member else None)"
| "read_org_role _ = None"

record create_invite_request =
  cr_role :: org_role
  cr_description :: string
  cr_expires_in_days :: int

definition parse_create_invite :: "js_value \<Rightarrow> create_invite_request option" where
  "parse_create_invite v = (case as_object v of None \<Rightarrow> None | Some kvs \<Rightarrow>
     (case (read_default Member read_org_role (obj_get kvs ''role''),
            read_default [] (read_str (\<lambda>s. length s \<le> MAX_ORG_INVITE_DESCRIPTION)) (obj_get kvs ''description''),
            read_default DEFAULT_ORG_INVITE_EXPIRY_DAYS
              (read_int (\<lambda>n. 1 \<le> n \<and> n \<le> MAX_ORG_INVITE_EXPIRY_DAYS)) (obj_get kvs ''expires_in_days'')) of
        (Some role, Some description, Some days) \<Rightarrow>
          Some \<lparr>cr_role = role, cr_description = description, cr_expires_in_days = days\<rparr>
      | _ \<Rightarrow> None))"

definition parse_bootstrap_invite :: "js_value \<Rightarrow> (create_invite_request \<times> string) option" where
  "parse_bootstrap_invite v = (case as_object v of None \<Rightarrow> None | Some kvs \<Rightarrow>
     (case (parse_create_invite v, read_str org_re (obj_get kvs ''org'')) of
        (Some r, Some org) \<Rightarrow> Some (r, org) | _ \<Rightarrow> None))"

record register_request =
  rq_invite :: string
  rq_handle :: string
  rq_agent_kind :: "agent_kind option"

definition parse_register_request :: "js_value \<Rightarrow> register_request option" where
  "parse_register_request v = (case as_object v of None \<Rightarrow> None | Some kvs \<Rightarrow>
     (case (read_str (\<lambda>s. 40 \<le> length s \<and> length s \<le> 200) (obj_get kvs ''invite''),
            read_str handle_re (obj_get kvs ''handle''),
            optional read_agent_kind (obj_get kvs ''agent_kind'')) of
        (Some invite, Some handle, Some kind) \<Rightarrow>
          Some \<lparr>rq_invite = invite, rq_handle = handle, rq_agent_kind = kind\<rparr>
      | _ \<Rightarrow> None))"

subsection \<open>Invites\<close>

record invite_metadata =
  im_id :: string
  im_description :: string
  im_created_by :: "string option"
  im_created_at :: int
  im_expires_at :: int
  im_used_at :: "int option"
  im_used_by :: "string option"
  im_revoked_at :: "int option"
  im_role :: org_role

definition public_invite :: "invite_row \<Rightarrow> invite_metadata" where
  "public_invite r =
     \<lparr>im_id = iv_token_hash r, im_description = iv_description r, im_created_by = iv_created_by r,
      im_created_at = iv_created_at r, im_expires_at = iv_expires_at r, im_used_at = iv_used_at r,
      im_used_by = iv_used_by r, im_revoked_at = iv_revoked_at r, im_role = iv_role r\<rparr>"

definition invite_live :: "int \<Rightarrow> invite_row \<Rightarrow> bool" where
  "invite_live now r = (iv_used_at r = None \<and> iv_revoked_at r = None \<and> iv_expires_at r > now)"

definition invite_settled_at :: "invite_row \<Rightarrow> int" where
  "invite_settled_at r = (case iv_used_at r of
     Some u \<Rightarrow> u
   | None \<Rightarrow> (case iv_revoked_at r of Some v \<Rightarrow> v | None \<Rightarrow> iv_expires_at r))"

definition expired_invite_cleanup_statement :: "string \<Rightarrow> int \<Rightarrow> relay_db \<Rightarrow> relay_db" where
  "expired_invite_cleanup_statement org now db =
     db\<lparr>rd_invites := sql_delete (\<lambda>r. iv_org r = org \<and> invite_settled_at r < now - INVITE_RETENTION_MS)
          (rd_invites db)\<rparr>"

definition active_invites :: "string \<Rightarrow> int \<Rightarrow> relay_db \<Rightarrow> nat" where
  "active_invites org now db = sql_count (\<lambda>r. iv_org r = org \<and> invite_live now r) (rd_invites db)"

text \<open>The event of a handler, at the place its request came from.\<close>

definition audit_of ::
  "request_headers \<Rightarrow> audit_event \<Rightarrow> audit_action \<Rightarrow> string \<Rightarrow> string \<Rightarrow> audit_actor \<Rightarrow> audit_target \<Rightarrow> string
   \<Rightarrow> org_role option \<Rightarrow> string \<Rightarrow> int \<Rightarrow> org_audit" where
  "audit_of req event action org actor actor_type target_type target_id target_role description at =
     \<lparr>oa_event_key = None, oa_event = event, oa_action = action, oa_org = org, oa_actor = actor,
      oa_actor_type = actor_type, oa_target_type = target_type, oa_target_id = target_id,
      oa_target_role = target_role, oa_actor_ip = rh_connecting_ip req,
      oa_actor_country = rh_country req, oa_description = description, oa_at = at\<rparr>"

definition new_invite ::
  "string \<Rightarrow> string \<Rightarrow> string option \<Rightarrow> int \<Rightarrow> int \<Rightarrow> string \<Rightarrow> org_role \<Rightarrow> invite_row" where
  "new_invite invite_id org created_by now expires_at description role =
     \<lparr>iv_token_hash = invite_id, iv_org = org, iv_created_by = created_by, iv_created_at = now,
      iv_expires_at = expires_at, iv_description = description, iv_role = role,
      iv_used_at = None, iv_used_by = None, iv_revoked_at = None\<rparr>"

definition create_invite_batch :: "invite_row \<Rightarrow> org_audit \<Rightarrow> int \<Rightarrow> relay_db \<Rightarrow> (relay_db \<times> nat) option" where
  "create_invite_batch row audit now db =
     (let db1 = expired_invite_cleanup_statement (iv_org row) now db
      in if active_invites (iv_org row) now db1 < MAX_ACTIVE_ORG_INVITES
         then case sql_insert iv_token_hash row (rd_invites db1) of
                None \<Rightarrow> None
              | Some rows \<Rightarrow> map_option (\<lambda>d. (d, 1)) (audit_and_trim audit 1 (db1\<lparr>rd_invites := rows\<rparr>))
         else map_option (\<lambda>d. (d, 0)) (audit_and_trim audit 0 db1))"

definition create_invite ::
  "relay_env \<Rightarrow> batch_fate \<Rightarrow> request_headers \<Rightarrow> string \<Rightarrow> string option \<Rightarrow> string \<Rightarrow> audit_actor \<Rightarrow> create_invite_request
   \<Rightarrow> org_role \<Rightarrow> string \<Rightarrow> int \<Rightarrow> relay_db \<Rightarrow> relay_db \<times> (string \<times> invite_metadata) http" where
  "create_invite env fate req org created_by actor actor_type body role token now db =
     (let invite_id = sha256_hex env token;
          row = new_invite invite_id org created_by now (now + cr_expires_in_days body * DAY_MS)
                  (cr_description body) role;
          audit = audit_of req OrgInviteIssue ActionC org actor actor_type TargetInvite invite_id (Some role)
                    (actor @ '' issued '' @ org_role_code role @ '' organization invite '' @ invite_id) now;
          (db', changes) = run_batch fate (create_invite_batch row audit now) db
      in (db', (case changes of
             None \<Rightarrow> Uncaught
           | Some n \<Rightarrow> if n \<noteq> 1 then Refuse 409 ''active invite limit reached''
                     else Ok (token, public_invite row))))"

definition post_admin_invite ::
  "relay_env \<Rightarrow> batch_fate \<Rightarrow> admission \<Rightarrow> string option \<Rightarrow> request_headers \<Rightarrow> js_value option \<Rightarrow> string \<Rightarrow> int
   \<Rightarrow> relay_db \<Rightarrow> relay_db \<times> (string \<times> invite_metadata) http" where
  "post_admin_invite env fate admit bootstrap req body token now db =
     (if \<not> truthy_str bootstrap then (db, Refuse 404 ''404 Not Found'')
      else let supplied = bearer_token (rh_authorization req)
           in if \<not> constant_time_equal (sha256_hex env (the bootstrap)) (sha256_hex env supplied)
              then (db, Refuse 401 ''unauthorized'')
              else if \<not> admit (DurableLimit REGISTER) (''bootstrap:'' @ connecting_ip req)
              then (db, Refuse 429 ''rate limited'')
              else case json_body parse_bootstrap_invite body None of
                  None \<Rightarrow> (db, Refuse 400 ''invalid request'')
                | Some (r, org) \<Rightarrow>
                    if \<not> deployment_org_allows (en_mode env) (en_self_hosted_org env) org
                    then (db, Refuse 400 ''organization does not match this relay'')
                    else create_invite env fate req org None ''relay-operator'' ActorBootstrap r Admin token now db)"

definition post_invites ::
  "relay_env \<Rightarrow> batch_fate \<Rightarrow> admission \<Rightarrow> identity \<Rightarrow> request_headers \<Rightarrow> js_value option \<Rightarrow> string \<Rightarrow> int
   \<Rightarrow> relay_db \<Rightarrow> relay_db \<times> (string \<times> invite_metadata) http" where
  "post_invites env fate admit i req body token now db =
     rate_limit admit (DurableLimit REGISTER) (ByIdentity ''invite:'') req i db
       (require_admin i db
         (case json_body parse_create_invite body None of
            None \<Rightarrow> (db, Refuse 400 ''invalid request'')
          | Some r \<Rightarrow> create_invite env fate req (id_org i) (Some (id_handle i)) (id_handle i) ActorHandle r
                       (cr_role r) token now db))"

text \<open>Live invites first, then the newest, then by digest downwards.\<close>

definition invite_before :: "int \<Rightarrow> invite_row \<Rightarrow> invite_row \<Rightarrow> bool" where
  "invite_before now a b =
     (let ra = (if invite_live now a then 0 else 1 :: nat); rb = (if invite_live now b then 0 else 1)
      in ra < rb \<or> (ra = rb \<and> (iv_created_at b < iv_created_at a \<or>
           (iv_created_at b = iv_created_at a \<and> iv_token_hash b \<le> iv_token_hash a))))"

definition list_invites :: "admission \<Rightarrow> identity \<Rightarrow> request_headers \<Rightarrow> int \<Rightarrow> relay_db \<Rightarrow> relay_db \<times> invite_metadata list http" where
  "list_invites admit i req now db =
     rate_limit admit (DurableLimit ADMIN_WRITE) (ByIdentity ''invite-list:'') req i db
       (require_admin i db
         (db, Ok (map public_invite (take MAX_LISTED_ORG_INVITES
                (stable_sort (invite_before now) (filter (\<lambda>r. iv_org r = id_org i) (rd_invites db)))))))"

definition select_invite :: "relay_db \<Rightarrow> string \<Rightarrow> string \<Rightarrow> invite_row option" where
  "select_invite db invite_id org = find (\<lambda>r. iv_token_hash r = invite_id \<and> iv_org r = org) (rd_invites db)"

definition revocable :: "string \<Rightarrow> string \<Rightarrow> invite_row \<Rightarrow> bool" where
  "revocable invite_id org r =
     (iv_token_hash r = invite_id \<and> iv_org r = org \<and> iv_revoked_at r = None \<and> iv_used_at r = None)"

definition revoke_invite_batch :: "string \<Rightarrow> string \<Rightarrow> org_audit \<Rightarrow> int \<Rightarrow> relay_db \<Rightarrow> (relay_db \<times> nat) option" where
  "revoke_invite_batch invite_id org audit now db =
     (let n = sql_count (revocable invite_id org) (rd_invites db);
          db1 = db\<lparr>rd_invites := sql_update (revocable invite_id org) (\<lambda>r. r\<lparr>iv_revoked_at := Some now\<rparr>) (rd_invites db)\<rparr>
      in map_option (\<lambda>d. (expired_invite_cleanup_statement org now d, n)) (audit_and_trim audit n db1))"

text \<open>The database at the first read, at the batch, and at the read after a lost race.\<close>

definition revoke_invite ::
  "batch_fate \<Rightarrow> admission \<Rightarrow> identity \<Rightarrow> request_headers \<Rightarrow> string \<Rightarrow> int \<Rightarrow> relay_db \<Rightarrow> relay_db \<Rightarrow> (relay_db \<Rightarrow> relay_db)
   \<Rightarrow> relay_db \<times> (string \<times> int) http" where
  "revoke_invite fate admit i req invite_id now read_db db later =
     rate_limit admit (DurableLimit ADMIN_WRITE) (ByIdentity ''invite-revoke:'') req i db
       (require_admin i db
         (if \<not> org_invite_id_re invite_id then (db, Refuse 400 ''invalid invite id'')
          else case select_invite read_db invite_id (id_org i) of
              None \<Rightarrow> (db, Refuse 404 ''not found'')
            | Some existing \<Rightarrow>
                (case iv_revoked_at existing of
                   Some at \<Rightarrow> (db, Ok (invite_id, at))
                 | None \<Rightarrow>
                     (let audit = audit_of req OrgInviteRevoke ActionU (id_org i) (id_handle i) ActorHandle TargetInvite
                            invite_id (Some (iv_role existing))
                            (id_handle i @ '' revoked organization invite '' @ invite_id) now;
                          (db', changes) = run_batch fate (revoke_invite_batch invite_id (id_org i) audit now) db
                      in (db', (case changes of
                             None \<Rightarrow> Uncaught
                           | Some n \<Rightarrow>
                               if n = 1 then Ok (invite_id, now)
                               else (case Option.bind (select_invite (later db') invite_id (id_org i)) iv_revoked_at of
                                   Some at \<Rightarrow> Ok (invite_id, at)
                                 | None \<Rightarrow> Refuse 404 ''not found'')))))))"

subsection \<open>Registration\<close>

definition handle_exists :: "relay_db \<Rightarrow> string \<Rightarrow> string \<Rightarrow> bool" where
  "handle_exists db org handle = (select_handle db org handle \<noteq> None)"

definition redeemable :: "string \<Rightarrow> int \<Rightarrow> invite_row \<Rightarrow> bool" where
  "redeemable invite_hash now r = (iv_token_hash r = invite_hash \<and> invite_live now r)"

definition new_handle ::
  "invite_row \<Rightarrow> string \<Rightarrow> string \<Rightarrow> agent_kind option \<Rightarrow> int \<Rightarrow> string \<Rightarrow> handle_row" where
  "new_handle iv handle token_hash kind now agent_id =
     \<lparr>hn_org = iv_org iv, hn_handle = handle, hn_token_hash = token_hash, hn_agent_kind = kind,
      hn_created_at = now, hn_role = iv_role iv, hn_agent_id = agent_id, hn_recovery_hash = None,
      hn_recovery_generation = 0, hn_recovery_redeemed_at = None\<rparr>"

text \<open>
  The insert of a handle selects from the invite, so a spent invite inserts nothing. A taken
  address does nothing; a taken \<open>agent_id\<close> breaks a unique index and rejects the batch.
\<close>

definition insert_handle :: "handle_row option \<Rightarrow> relay_db \<Rightarrow> (relay_db \<times> nat) option" where
  "insert_handle row db = (case row of
     None \<Rightarrow> Some (db, 0)
   | Some r \<Rightarrow>
       (let (rows, n) = sql_insert_or_ignore handle_key r (rd_handles db)
        in if n = 1 \<and> sql_exists (\<lambda>q. hn_org q = hn_org r \<and> hn_agent_id q = hn_agent_id r) (rd_handles db)
           then None else Some (db\<lparr>rd_handles := rows\<rparr>, n)))"

definition claims_invite :: "string \<Rightarrow> string \<Rightarrow> string \<Rightarrow> relay_db \<Rightarrow> invite_row \<Rightarrow> bool" where
  "claims_invite invite_hash handle token_hash db r =
     (iv_token_hash r = invite_hash \<and> iv_used_at r = None \<and> iv_revoked_at r = None \<and>
      sql_exists (\<lambda>h. hn_org h = iv_org r \<and> hn_handle h = handle \<and> hn_token_hash h = token_hash) (rd_handles db))"

definition register_batch ::
  "string \<Rightarrow> string \<Rightarrow> string \<Rightarrow> agent_kind option \<Rightarrow> string \<Rightarrow> string \<Rightarrow> org_audit \<Rightarrow> int \<Rightarrow> relay_db
   \<Rightarrow> (relay_db \<times> nat \<times> nat) option" where
  "register_batch invite_hash handle token_hash kind agent_id org audit now db =
     (case insert_handle
         (map_option (\<lambda>iv. new_handle iv handle token_hash kind now agent_id)
           (find (redeemable invite_hash now) (rd_invites db))) db of
        None \<Rightarrow> None
      | Some (db1, n0) \<Rightarrow>
          (let claimed = claims_invite invite_hash handle token_hash db1;
               n1 = sql_count claimed (rd_invites db1);
               db2 = db1\<lparr>rd_invites := sql_update claimed
                       (\<lambda>r. r\<lparr>iv_used_at := Some now, iv_used_by := Some handle\<rparr>) (rd_invites db1)\<rparr>
           in map_option (\<lambda>d. (expired_invite_cleanup_statement org now d, n0, n1)) (audit_and_trim audit n1 db2)))"

definition register ::
  "relay_env \<Rightarrow> batch_fate \<Rightarrow> admission \<Rightarrow> request_headers \<Rightarrow> js_value option \<Rightarrow> string \<Rightarrow> string \<Rightarrow> int \<Rightarrow> int
   \<Rightarrow> relay_db option \<Rightarrow> relay_db \<Rightarrow> (relay_db \<Rightarrow> relay_db) \<Rightarrow> relay_db \<times> (string \<times> string) http" where
  "register env fate admit req body token uuid read_now now read_db db later =
     (if \<not> admit (DurableLimit REGISTER) (connecting_ip req) then (db, Refuse 429 ''rate limited'')
      else case json_body parse_register_request body None of
          None \<Rightarrow> (db, Refuse 400 ''invalid request'')
        | Some r \<Rightarrow>
            (case read_db of
               None \<Rightarrow> (db, Refuse 503 ''registration temporarily unavailable'')
             | Some rdb \<Rightarrow>
                 (let invite_hash = sha256_hex env (rq_invite r)
                  in case find (redeemable invite_hash read_now) (rd_invites rdb) of
                      None \<Rightarrow> (db, Refuse 404 ''invalid invite'')
                    | Some iv \<Rightarrow>
                        if \<not> deployment_org_allows (en_mode env) (en_self_hosted_org env) (iv_org iv)
                        then (db, Refuse 404 ''invalid invite'')
                        else (let org = iv_org iv; handle = rq_handle r;
                                  audit = audit_of req OrgInviteRedeem ActionC org invite_hash ActorInvite TargetHandle handle
                                    (Some (iv_role iv))
                                    (''Organization invite '' @ invite_hash @ '' enrolled '' @ handle @ '' as '' @
                                       org_role_code (iv_role iv)) now;
                                  (db', changes) = run_batch fate
                                    (register_batch invite_hash handle (sha256_hex env token) (rq_agent_kind r)
                                      (generate_agent_id uuid) org audit now) db
                              in (db', (case changes of
                                     None \<Rightarrow> Refuse 503 ''registration temporarily unavailable''
                                   | Some (n0, n1) \<Rightarrow>
                                       if n0 \<noteq> 1
                                       then if handle_exists (later db') org handle then Refuse 409 ''handle taken''
                                            else Refuse 404 ''invalid invite''
                                       else if n1 \<noteq> 1 then Refuse 503 ''registration temporarily unavailable''
                                       else Ok (org, token)))))))"

subsection \<open>Token rotation\<close>

definition holds_token :: "string \<Rightarrow> string \<Rightarrow> string \<Rightarrow> handle_row \<Rightarrow> bool" where
  "holds_token org handle token_hash r =
     (hn_org r = org \<and> hn_handle r = handle \<and> hn_token_hash r = token_hash)"

definition rotate_batch :: "string \<Rightarrow> string \<Rightarrow> string \<Rightarrow> string \<Rightarrow> relay_db \<Rightarrow> (relay_db \<times> nat) option" where
  "rotate_batch org handle presented_hash next_hash db =
     Some (db\<lparr>rd_handles := sql_update (holds_token org handle presented_hash)
              (\<lambda>r. r\<lparr>hn_token_hash := next_hash\<rparr>) (rd_handles db)\<rparr>,
           sql_count (holds_token org handle presented_hash) (rd_handles db))"

definition rotate_token ::
  "relay_env \<Rightarrow> batch_fate \<Rightarrow> admission \<Rightarrow> identity \<Rightarrow> request_headers \<Rightarrow> string \<Rightarrow> relay_db \<Rightarrow> relay_db \<times> string http" where
  "rotate_token env fate admit i req next_token db =
     rate_limit admit (DurableLimit REGISTER) (ByIdentity ''rotate:'') req i db
       (let presented = bearer_token (rh_authorization req);
            (db', changes) = run_batch fate
              (rotate_batch (id_org i) (id_handle i) (sha256_hex env presented) (sha256_hex env next_token)) db
        in (db', (case changes of
               None \<Rightarrow> Uncaught
             | Some n \<Rightarrow> if n \<noteq> 1 then Refuse 409 ''credential changed'' else Ok next_token)))"

end
