(* ===== verification/Recovery.thy ===== *)
theory Recovery
  imports Enrollment
begin

text \<open>
  Credential recovery, \<open>apps/relay/src/recovery.ts\<close>: an out-of-band proof of generation
  \<open>g\<close> is consumed once, replaces the online credential, names the proof of generation
  \<open>g + 1\<close>, and leaves a receipt that makes a retry of the same operation idempotent and a
  job that evicts the sockets of the old credential.
\<close>

subsection \<open>Schemas\<close>

definition prefixed_digest_re :: "string \<Rightarrow> string \<Rightarrow> bool" where
  "prefixed_digest_re prefix s =
     (take 4 s = prefix \<and> length s = 20 \<and> list_all lower_hex (drop 4 s))"

definition client_public_id_re :: "string \<Rightarrow> bool" where
  "client_public_id_re = prefixed_digest_re ''act_''"

definition recovery_public_id_re :: "string \<Rightarrow> bool" where
  "recovery_public_id_re = prefixed_digest_re ''agr_''"

definition recovery_operation_id_re :: "string \<Rightarrow> bool" where
  "recovery_operation_id_re s = (22 \<le> length s \<and> length s \<le> 64 \<and> list_all base64url_char s)"

record issue_request =
  is_expected_generation :: int
  is_successor_digest :: string
  is_successor_public_id :: string

definition parse_issue_request :: "js_value \<Rightarrow> issue_request option" where
  "parse_issue_request v = (case as_object v of None \<Rightarrow> None | Some kvs \<Rightarrow>
     if \<not> strict_keys [''expected_generation'', ''successor_recovery_digest'', ''successor_recovery_public_id''] kvs
     then None
     else (case (read_int (\<lambda>n. 0 \<le> n) (obj_get kvs ''expected_generation''),
                 read_str sha256_hex_re (obj_get kvs ''successor_recovery_digest''),
                 read_str recovery_public_id_re (obj_get kvs ''successor_recovery_public_id'')) of
        (Some g, Some d, Some p) \<Rightarrow>
          Some \<lparr>is_expected_generation = g, is_successor_digest = d, is_successor_public_id = p\<rparr>
      | _ \<Rightarrow> None))"

record redeem_request =
  rm_org :: string
  rm_handle :: string
  rm_generation :: int
  rm_current_proof :: string
  rm_operation_id :: string
  rm_client_token_digest :: string
  rm_client_public_id :: string
  rm_successor_digest :: string
  rm_successor_public_id :: string

definition redeem_request_keys :: "string list" where
  "redeem_request_keys =
     [''org'', ''handle'', ''generation'', ''current_recovery_proof'', ''operation_id'', ''client_token_digest'',
      ''client_public_id'', ''successor_recovery_digest'', ''successor_recovery_public_id'']"

definition parse_redeem_request :: "js_value \<Rightarrow> redeem_request option" where
  "parse_redeem_request v = (case as_object v of None \<Rightarrow> None | Some kvs \<Rightarrow>
     if \<not> strict_keys redeem_request_keys kvs then None
     else (case (read_str org_re (obj_get kvs ''org''), read_str handle_re (obj_get kvs ''handle''),
                 read_int (\<lambda>n. 0 < n) (obj_get kvs ''generation''),
                 read_str (\<lambda>s. 32 \<le> length s \<and> length s \<le> 200) (obj_get kvs ''current_recovery_proof''),
                 read_str recovery_operation_id_re (obj_get kvs ''operation_id''),
                 read_str sha256_hex_re (obj_get kvs ''client_token_digest''),
                 read_str client_public_id_re (obj_get kvs ''client_public_id''),
                 read_str sha256_hex_re (obj_get kvs ''successor_recovery_digest''),
                 read_str recovery_public_id_re (obj_get kvs ''successor_recovery_public_id'')) of
        (Some org, Some handle, Some g, Some proof, Some op, Some token, Some cid, Some succ, Some sid) \<Rightarrow>
          Some \<lparr>rm_org = org, rm_handle = handle, rm_generation = g, rm_current_proof = proof,
                rm_operation_id = op, rm_client_token_digest = token, rm_client_public_id = cid,
                rm_successor_digest = succ, rm_successor_public_id = sid\<rparr>
      | _ \<Rightarrow> None))"

subsection \<open>Public ids\<close>

definition RECEIPT_TTL_MS :: int where "RECEIPT_TTL_MS = 7 * 24 * 60 * 60000"
definition MAX_EVICTIONS_PER_ALARM :: nat where "MAX_EVICTIONS_PER_ALARM = 50"
definition MAX_EVICTION_BACKOFF_MS :: int where "MAX_EVICTION_BACKOFF_MS = 60 * 60000"

definition public_id :: "string \<Rightarrow> string \<Rightarrow> string" where
  "public_id kind digest = kind @ ''_'' @ take 16 digest"

definition valid_public_ids :: "redeem_request \<Rightarrow> bool" where
  "valid_public_ids r =
     (rm_client_public_id r = public_id ''act'' (rm_client_token_digest r) \<and>
      rm_successor_public_id r = public_id ''agr'' (rm_successor_digest r))"

subsection \<open>Evictions\<close>

definition eviction_job :: "string \<Rightarrow> string \<Rightarrow> int \<Rightarrow> eviction_row \<Rightarrow> bool" where
  "eviction_job org handle generation r =
     (er_org r = org \<and> er_handle r = handle \<and> er_recovery_generation r = generation)"

definition drop_eviction :: "string \<Rightarrow> string \<Rightarrow> int \<Rightarrow> relay_db \<Rightarrow> relay_db" where
  "drop_eviction org handle generation db =
     db\<lparr>rd_evictions := sql_delete (eviction_job org handle generation) (rd_evictions db)\<rparr>"

definition eviction_delay :: "int \<Rightarrow> int" where
  "eviction_delay attempts = min (5 * 60000 * 2 ^ nat (min (attempts - 1) 8)) MAX_EVICTION_BACKOFF_MS"

definition delay_eviction :: "string \<Rightarrow> string \<Rightarrow> int \<Rightarrow> int \<Rightarrow> relay_db \<Rightarrow> relay_db" where
  "delay_eviction org handle generation now db =
     (case find (eviction_job org handle generation) (rd_evictions db) of
        None \<Rightarrow> db
      | Some row \<Rightarrow>
          (let attempts = er_attempts row + 1; delay = eviction_delay attempts
           in db\<lparr>rd_evictions := sql_update (eviction_job org handle generation)
                   (\<lambda>r. r\<lparr>er_attempts := attempts, er_last_attempt := Some now, er_next_attempt := now + delay\<rparr>)
                   (rd_evictions db)\<rparr>))"

text \<open>
  The object of the evicted identity is asked with the headers of the call; \<open>accepts\<close> says
  whether it answers with success. \<open>fate\<close> is what becomes of the statement that drops the job.
\<close>

record evict_call =
  ec_object :: string
  ec_org :: string
  ec_handle :: string
  ec_agent_id :: string
  ec_generation :: int

definition evict_settled :: "(evict_call \<Rightarrow> bool) \<Rightarrow> string \<Rightarrow> string \<Rightarrow> int \<Rightarrow> relay_db \<Rightarrow> bool" where
  "evict_settled accepts org handle generation db = (case resolve_agent_id db org handle of
     None \<Rightarrow> True
   | Some agent_id \<Rightarrow> agent_id = [] \<or>
       accepts \<lparr>ec_object = identity_object_name org agent_id, ec_org = org, ec_handle = handle,
                ec_agent_id = agent_id, ec_generation = generation\<rparr>)"

definition evict ::
  "(evict_call \<Rightarrow> bool) \<Rightarrow> batch_fate \<Rightarrow> string \<Rightarrow> string \<Rightarrow> int \<Rightarrow> int \<Rightarrow> relay_db \<Rightarrow> relay_db \<times> bool" where
  "evict accepts fate org handle generation now db =
     (if \<not> evict_settled accepts org handle generation db
      then (delay_eviction org handle generation now db, False)
      else case fate of
          Commits \<Rightarrow> (drop_eviction org handle generation db, True)
        | Rejects \<Rightarrow> (delay_eviction org handle generation now db, False)
        | LosesReply \<Rightarrow> (delay_eviction org handle generation now (drop_eviction org handle generation db), False))"

definition due_evictions :: "int \<Rightarrow> relay_db \<Rightarrow> eviction_row list" where
  "due_evictions now db =
     take MAX_EVICTIONS_PER_ALARM (stable_sort (\<lambda>a b. er_next_attempt a \<le> er_next_attempt b)
       (filter (\<lambda>r. er_next_attempt r \<le> now) (rd_evictions db)))"

definition drain_recovery_evictions :: "(evict_call \<Rightarrow> bool) \<Rightarrow> batch_fate \<Rightarrow> int \<Rightarrow> relay_db \<Rightarrow> relay_db" where
  "drain_recovery_evictions accepts fate now db =
     fold (\<lambda>job d. fst (evict accepts fate (er_org job) (er_handle job) (er_recovery_generation job) now d))
       (due_evictions now db) db"

subsection \<open>Receipts\<close>

record receipt_json =
  rj_org :: string
  rj_handle :: string
  rj_operation_id :: string
  rj_consumed_generation :: int
  rj_recovery_generation :: int
  rj_client_public_id :: string
  rj_recovery_public_id :: string
  rj_committed_at :: int
  rj_eviction_confirmed :: bool
  rj_agent_kind :: "agent_kind option"

definition receipt_json :: "receipt_row \<Rightarrow> bool \<Rightarrow> agent_kind option \<Rightarrow> receipt_json" where
  "receipt_json row confirmed kind =
     \<lparr>rj_org = rr_org row, rj_handle = rr_handle row, rj_operation_id = rr_operation_id row,
      rj_consumed_generation = rr_consumed_generation row,
      rj_recovery_generation = rr_consumed_generation row + 1,
      rj_client_public_id = rr_client_public_id row,
      rj_recovery_public_id = rr_successor_recovery_public_id row,
      rj_committed_at = rr_committed_at row, rj_eviction_confirmed = confirmed, rj_agent_kind = kind\<rparr>"

definition agent_kind_for :: "relay_db \<Rightarrow> string \<Rightarrow> string \<Rightarrow> agent_kind option" where
  "agent_kind_for db org handle = Option.bind (select_handle db org handle) hn_agent_kind"

definition receipt_of :: "redeem_request \<Rightarrow> receipt_row \<Rightarrow> bool" where
  "receipt_of q r = (receipt_key r = (rm_org q, rm_handle q, rm_generation q, rm_operation_id q))"

definition find_receipt :: "relay_db \<Rightarrow> redeem_request \<Rightarrow> int \<Rightarrow> receipt_row option" where
  "find_receipt db q now = find (\<lambda>r. receipt_of q r \<and> rr_expires_at r > now) (rd_receipts db)"

definition exact_receipt :: "receipt_row \<Rightarrow> redeem_request \<Rightarrow> string \<Rightarrow> bool" where
  "exact_receipt row q current_hash =
     (constant_time_equal (rr_consumed_recovery_hash row) current_hash \<and>
      constant_time_equal (rr_client_token_hash row) (rm_client_token_digest q) \<and>
      rr_client_public_id row = rm_client_public_id q \<and>
      constant_time_equal (rr_successor_recovery_hash row) (rm_successor_digest q) \<and>
      rr_successor_recovery_public_id row = rm_successor_public_id q)"

subsection \<open>Status and issue\<close>

record recovery_status =
  rs_issued :: bool
  rs_generation :: int
  rs_recovery_public_id :: "string option"

definition recovery_status :: "identity \<Rightarrow> relay_db \<Rightarrow> recovery_status" where
  "recovery_status i db = (case select_handle db (id_org i) (id_handle i) of
     None \<Rightarrow> \<lparr>rs_issued = False, rs_generation = 0, rs_recovery_public_id = None\<rparr>
   | Some row \<Rightarrow>
       (let issued = truthy_str (hn_recovery_hash row) \<and> hn_recovery_generation row > 0
        in \<lparr>rs_issued = issued, rs_generation = hn_recovery_generation row,
            rs_recovery_public_id = (if issued then Some (public_id ''agr'' (the (hn_recovery_hash row))) else None)\<rparr>))"

definition issuable :: "string \<Rightarrow> string \<Rightarrow> string \<Rightarrow> int \<Rightarrow> handle_row \<Rightarrow> bool" where
  "issuable org handle token_hash generation r =
     (holds_token org handle token_hash r \<and> hn_recovery_generation r = generation)"

definition issue_batch ::
  "string \<Rightarrow> string \<Rightarrow> string \<Rightarrow> int \<Rightarrow> string \<Rightarrow> org_audit \<Rightarrow> relay_db \<Rightarrow> (relay_db \<times> nat) option" where
  "issue_batch org handle token_hash generation digest audit db =
     (let P = issuable org handle token_hash generation;
          n = sql_count P (rd_handles db);
          db1 = db\<lparr>rd_handles := sql_update P
                  (\<lambda>r. r\<lparr>hn_recovery_hash := Some digest, hn_recovery_generation := hn_recovery_generation r + 1,
                         hn_recovery_redeemed_at := None\<rparr>) (rd_handles db)\<rparr>
      in map_option (\<lambda>d. (d, n)) (audit_and_trim audit n db1))"

definition recovery_issue ::
  "relay_env \<Rightarrow> batch_fate \<Rightarrow> admission \<Rightarrow> identity \<Rightarrow> request_headers \<Rightarrow> js_value option \<Rightarrow> int \<Rightarrow> relay_db
   \<Rightarrow> relay_db \<times> (int \<times> string) http" where
  "recovery_issue env fate admit i req body now db =
     rate_limit admit (DurableLimit REGISTER) (ByIdentity ''recovery-issue:'') req i db
       (case json_body parse_issue_request body None of
          None \<Rightarrow> (db, Refuse 400 ''invalid request'')
        | Some r \<Rightarrow>
            if is_successor_public_id r \<noteq> public_id ''agr'' (is_successor_digest r)
            then (db, Refuse 400 ''invalid request'')
            else (let presented = bearer_token (rh_authorization req);
                      audit = audit_of req CredentialRecoveryIssue ActionU (id_org i) (id_handle i) ActorHandle TargetHandle
                        (id_handle i) None (id_handle i @ '' issued a new recovery generation'') now;
                      (db', changes) = run_batch fate
                        (issue_batch (id_org i) (id_handle i) (sha256_hex env presented) (is_expected_generation r)
                          (is_successor_digest r) audit) db
                  in (db', (case changes of
                         None \<Rightarrow> Uncaught
                       | Some n \<Rightarrow> if n \<noteq> 1 then Refuse 409 ''credential changed''
                                 else Ok (is_expected_generation r + 1, is_successor_public_id r)))))"

subsection \<open>Redemption\<close>

definition consumable :: "redeem_request \<Rightarrow> string \<Rightarrow> handle_row \<Rightarrow> bool" where
  "consumable q current_hash r =
     (hn_org r = rm_org q \<and> hn_handle r = rm_handle q \<and> hn_recovery_generation r = rm_generation q \<and>
      hn_recovery_hash r = Some current_hash)"

definition new_receipt :: "redeem_request \<Rightarrow> string \<Rightarrow> int \<Rightarrow> int \<Rightarrow> receipt_row" where
  "new_receipt q current_hash now expires_at =
     \<lparr>rr_org = rm_org q, rr_handle = rm_handle q, rr_consumed_generation = rm_generation q,
      rr_operation_id = rm_operation_id q, rr_consumed_recovery_hash = current_hash,
      rr_client_token_hash = rm_client_token_digest q, rr_client_public_id = rm_client_public_id q,
      rr_successor_recovery_hash = rm_successor_digest q,
      rr_successor_recovery_public_id = rm_successor_public_id q,
      rr_committed_at = now, rr_expires_at = expires_at\<rparr>"

definition insert_receipt :: "redeem_request \<Rightarrow> string \<Rightarrow> int \<Rightarrow> int \<Rightarrow> relay_db \<Rightarrow> (relay_db \<times> nat) option" where
  "insert_receipt q current_hash now expires_at db =
     (if \<not> sql_exists (consumable q current_hash) (rd_handles db) then Some (db, 0)
      else map_option (\<lambda>rows. (db\<lparr>rd_receipts := rows\<rparr>, 1))
             (sql_insert receipt_key (new_receipt q current_hash now expires_at) (rd_receipts db)))"

definition redeem_handle :: "redeem_request \<Rightarrow> int \<Rightarrow> handle_row \<Rightarrow> handle_row" where
  "redeem_handle q now r =
     r\<lparr>hn_token_hash := rm_client_token_digest q, hn_recovery_hash := Some (rm_successor_digest q),
       hn_recovery_generation := rm_generation q + 1, hn_recovery_redeemed_at := Some now\<rparr>"

definition new_eviction :: "redeem_request \<Rightarrow> int \<Rightarrow> eviction_row" where
  "new_eviction q now =
     \<lparr>er_org = rm_org q, er_handle = rm_handle q, er_recovery_generation = rm_generation q + 1,
      er_attempts = 0, er_next_attempt = now, er_last_attempt = None\<rparr>"

definition enqueue_eviction :: "redeem_request \<Rightarrow> int \<Rightarrow> relay_db \<Rightarrow> relay_db" where
  "enqueue_eviction q now db =
     (if sql_exists (\<lambda>r. hn_org r = rm_org q \<and> hn_handle r = rm_handle q \<and>
           hn_recovery_generation r = rm_generation q + 1 \<and> hn_token_hash r = rm_client_token_digest q \<and>
           hn_recovery_hash r = Some (rm_successor_digest q)) (rd_handles db)
         \<and> sql_exists (receipt_of q) (rd_receipts db)
      then db\<lparr>rd_evictions := sql_upsert eviction_key
             (\<lambda>old. old\<lparr>er_recovery_generation := rm_generation q + 1, er_attempts := 0, er_next_attempt := now,
                        er_last_attempt := None\<rparr>)
             (new_eviction q now) (rd_evictions db)\<rparr>
      else db)"

definition redeem_batch ::
  "redeem_request \<Rightarrow> string \<Rightarrow> org_audit \<Rightarrow> int \<Rightarrow> int \<Rightarrow> relay_db \<Rightarrow> (relay_db \<times> nat \<times> nat) option" where
  "redeem_batch q current_hash audit now expires_at db =
     (case insert_receipt q current_hash now expires_at db of
        None \<Rightarrow> None
      | Some (db1, n0) \<Rightarrow>
          (let P = (\<lambda>r. consumable q current_hash r \<and> sql_exists (receipt_of q) (rd_receipts db1));
               n1 = sql_count P (rd_handles db1);
               db2 = db1\<lparr>rd_handles := sql_update P (redeem_handle q now) (rd_handles db1)\<rparr>
           in case org_audit_statement audit True n1 db2 of
               None \<Rightarrow> None
             | Some db3 \<Rightarrow>
                 (let db4 = enqueue_eviction q now db3;
                      db5 = db4\<lparr>rd_receipts := sql_delete (\<lambda>r. rr_expires_at r \<le> now) (rd_receipts db4)\<rparr>
                  in Some (org_audit_trim_statement (rm_org q) db5, n0, n1))))"

text \<open>Every success evicts the old sockets first and reports whether that was confirmed.\<close>

definition redeem_reply ::
  "(evict_call \<Rightarrow> bool) \<Rightarrow> batch_fate \<Rightarrow> redeem_request \<Rightarrow> receipt_row \<Rightarrow> int \<Rightarrow> relay_db \<Rightarrow> relay_db \<times> receipt_json http" where
  "redeem_reply accepts fate q row now db =
     (let (db', confirmed) = evict accepts fate (rm_org q) (rm_handle q) (rm_generation q + 1) now db
      in (db', Ok (receipt_json row confirmed (agent_kind_for db' (rm_org q) (rm_handle q)))))"

text \<open>A concurrent first attempt may have committed the same operation in between.\<close>

definition concurrent_reply ::
  "(evict_call \<Rightarrow> bool) \<Rightarrow> batch_fate \<Rightarrow> redeem_request \<Rightarrow> string \<Rightarrow> int \<Rightarrow> receipt_json http \<Rightarrow> relay_db
   \<Rightarrow> relay_db \<times> receipt_json http" where
  "concurrent_reply accepts fate q current_hash now otherwise db = (case find_receipt db q now of
     None \<Rightarrow> (db, otherwise)
   | Some row \<Rightarrow> if exact_receipt row q current_hash then redeem_reply accepts fate q row now db else (db, otherwise))"

definition redeem_audit :: "request_headers \<Rightarrow> redeem_request \<Rightarrow> string \<Rightarrow> int \<Rightarrow> org_audit" where
  "redeem_audit req q current_hash now =
     (audit_of req CredentialRecoveryRedeem ActionU (rm_org q) (public_id ''agr'' current_hash) ActorRecovery TargetHandle
        (rm_handle q) None
        (''Recovery generation '' @ js_number_string (rm_generation q) @ '' reset '' @ rm_handle q @
         [CHR 0x27] @ ''s online credential'') now)
     \<lparr>oa_event_key := Some (''recovery:'' @ rm_org q @ '':'' @ rm_handle q @ '':'' @
        js_number_string (rm_generation q) @ '':'' @ rm_operation_id q)\<rparr>"

text \<open>
  \<open>read_db\<close> is the database of the two reads, \<open>db\<close> that of the batch, and \<open>later\<close> what the
  other requests do to it before the next statement.
\<close>

definition recovery_redeem ::
  "relay_env \<Rightarrow> (evict_call \<Rightarrow> bool) \<Rightarrow> batch_fate \<Rightarrow> batch_fate \<Rightarrow> admission \<Rightarrow> request_headers \<Rightarrow> js_value option \<Rightarrow> int
   \<Rightarrow> relay_db \<Rightarrow> relay_db \<Rightarrow> (relay_db \<Rightarrow> relay_db) \<Rightarrow> relay_db \<times> receipt_json http" where
  "recovery_redeem env accepts evict_fate fate admit req body now read_db db later =
     (if \<not> admit (DurableLimit REGISTER) (''recovery-ip:'' @ connecting_ip req) then (db, Refuse 429 ''rate limited'')
      else case json_body parse_redeem_request body None of
          None \<Rightarrow> (db, Refuse 401 ''unauthorized'')
        | Some q \<Rightarrow>
            if \<not> valid_public_ids q \<or> \<not> deployment_org_allows (en_mode env) (en_self_hosted_org env) (rm_org q)
            then (db, Refuse 401 ''unauthorized'')
            else (let current_hash = sha256_hex env (rm_current_proof q)
                  in if \<not> admit (DurableLimit REGISTER) (''recovery-proof:'' @ take 16 current_hash)
                     then (db, Refuse 429 ''rate limited'')
                     else case find_receipt read_db q now of
                         Some replay \<Rightarrow>
                           if \<not> exact_receipt replay q current_hash then (db, Refuse 401 ''unauthorized'')
                           else redeem_reply accepts evict_fate q replay now db
                       | None \<Rightarrow>
                           (case select_handle read_db (rm_org q) (rm_handle q) of
                              None \<Rightarrow> (db, Refuse 401 ''unauthorized'')
                            | Some live \<Rightarrow>
                                if \<not> truthy_str (hn_recovery_hash live) \<or> hn_recovery_generation live \<noteq> rm_generation q \<or>
                                   \<not> constant_time_equal (the (hn_recovery_hash live)) current_hash
                                then (db, Refuse 401 ''unauthorized'')
                                else (let (db', changes) = run_batch fate
                                            (redeem_batch q current_hash (redeem_audit req q current_hash now) now
                                              (now + RECEIPT_TTL_MS)) db
                                      in case changes of
                                          None \<Rightarrow> concurrent_reply accepts evict_fate q current_hash now
                                            (Refuse 503 ''recovery temporarily unavailable'') (later db')
                                        | Some (n0, n1) \<Rightarrow>
                                            if n0 \<noteq> 1 \<or> n1 \<noteq> 1
                                            then concurrent_reply accepts evict_fate q current_hash now
                                              (Refuse 401 ''unauthorized'') (later db')
                                            else redeem_reply accepts evict_fate q
                                              (new_receipt q current_hash now (now + RECEIPT_TTL_MS)) now (later db')))))"

end
