(* ===== verification/Transcripts.thy ===== *)
theory Transcripts
  imports Canonical Frames
begin

text \<open>
  What is signed and what is authenticated: the request and response payloads of
  \<open>packages/shared/src/e2ee.ts\<close> with their transcripts, the HPKE associated data, and the
  identity and encryption-key records of \<open>packages/shared/src/keys.ts\<close>. A schema the code
  applies with \<open>parse\<close> is a predicate, and a transcript of a payload that fails it is the
  error. Every transcript starts with a domain label.
\<close>

subsection \<open>ASCII fields\<close>

definition ascii :: "string \<Rightarrow> bool" where
  "ascii s = list_all (\<lambda>c. (of_char c :: nat) < 128) s"

definition cstr :: "string \<Rightarrow> canonical_value" where
  "cstr s = CStr (js s)"

definition copt :: "string option \<Rightarrow> canonical_value" where
  "copt x = (case x of None \<Rightarrow> CNull | Some s \<Rightarrow> cstr s)"

lemma cstr_inj [simp]: "cstr s = cstr t \<longleftrightarrow> s = t"
  by (auto simp: cstr_def dest: js_inj)

lemma cstr_not_null [simp]:
  "cstr s \<noteq> CNull" "cstr s \<noteq> CNum n" "CNull \<noteq> cstr s" "CNum n \<noteq> cstr s"
  by (simp_all add: cstr_def)

lemma copt_inj [simp]: "copt x = copt y \<longleftrightarrow> x = y"
  by (cases x; cases y) (simp_all add: copt_def)

lemma js_ascii:
  assumes "ascii s"
  shows "is_well_formed_unicode (js s) \<and> length (utf8 (js s)) = length s"
  using assms
proof (induction s)
  case (Cons c s)
  have "unat (word_of_nat (of_char c) :: code_unit) = of_char c"
    by (rule unat_code_unit_of_nat) (use Cons.prems in \<open>simp add: ascii_def\<close>)
  then have u: "unat (word_of_nat (of_char c) :: code_unit) < 128"
    using Cons.prems by (simp add: ascii_def)
  have nh: "\<not> is_high (word_of_nat (of_char c))" "\<not> is_low (word_of_nat (of_char c))"
    using u by (simp_all add: is_high_def is_low_def)
  have IH: "is_well_formed_unicode (js s)" "length (utf8 (js s)) = length s"
    using Cons by (simp_all add: ascii_def)
  have cp: "code_points (js (c # s)) = unat (word_of_nat (of_char c) :: code_unit) # code_points (js s)"
    using nh by (simp add: js_def)
  have "length (utf8 (js (c # s))) = Suc (length (utf8 (js s)))"
    using u unfolding utf8_def utf8_nats_def cp by (simp add: utf8_point.simps)
  then show ?case using IH nh by (simp add: js_def)
qed (simp add: js_def utf8_def utf8_nats_def)

lemma encodable_cstr: "ascii s \<Longrightarrow> length s < 2 ^ 32 \<Longrightarrow> encodable (cstr s)"
  using js_ascii[of s] by (simp add: cstr_def)

definition short_ascii :: "string \<Rightarrow> bool" where
  "short_ascii s = (ascii s \<and> length s \<le> 500)"

lemma encodable_short: "short_ascii s \<Longrightarrow> encodable (cstr s)"
  by (rule encodable_cstr) (auto simp: short_ascii_def)

lemma encodable_copt: "(\<And>s. x = Some s \<Longrightarrow> short_ascii s) \<Longrightarrow> encodable (copt x)"
  by (auto simp: copt_def encodable_short split: option.splits)

lemma char_le_code: "c \<le> d \<Longrightarrow> (of_char c :: nat) \<le> of_char d"
  by (simp add: less_eq_char_def)

lemma lower_alnum_ascii: "lower_alnum c \<Longrightarrow> (of_char c :: nat) < 128"
  by (auto simp: lower_alnum_def dest!: char_le_code)

lemma base64url_char_ascii: "base64url_char c \<Longrightarrow> (of_char c :: nat) < 128"
  by (auto simp: base64url_char_def upper_alpha_def dest!: char_le_code lower_alnum_ascii)

lemma lower_hex_ascii: "lower_hex c \<Longrightarrow> (of_char c :: nat) < 128"
  by (auto simp: lower_hex_def dest!: char_le_code)

lemma slug_short: "slug lo hi s \<Longrightarrow> hi \<le> 100 \<Longrightarrow> ascii s \<and> length s \<le> Suc hi"
  by (auto simp: slug_def ascii_def list_all_iff dest: lower_alnum_ascii split: list.splits)

lemma hex_short: "hex_of_length n s \<Longrightarrow> n \<le> 500 \<Longrightarrow> short_ascii s"
  by (auto simp: short_ascii_def hex_of_length_def ascii_def list_all_iff dest: lower_hex_ascii)

lemma relay_origin_short: "relay_origin_re s \<Longrightarrow> short_ascii s"
  by (auto simp: short_ascii_def relay_origin_re_def ascii_def list_all_iff dest: lower_alnum_ascii)

lemma address_short:
  assumes "address_re a" shows "short_ascii a"
proof -
  obtain org h where p: "parse_address a = Some (org, h)" using assms by (auto simp: address_re_def)
  note P = parse_address_Some[OF p]
  have "ascii org \<and> length org \<le> 20" "ascii h \<and> length h \<le> 31"
    using P slug_short[of 1 19 org] slug_short[of 1 30 h] by (auto simp: org_re_def handle_re_def)
  then show ?thesis using P by (auto simp: short_ascii_def ascii_def format_address_def)
qed

lemma task_id_short: "task_id_re s \<Longrightarrow> short_ascii s"
  using slug_short[of 0 63 s] by (auto simp: short_ascii_def task_id_re_def)

lemma key_id_short: "key_id_re s \<Longrightarrow> short_ascii s"
  using hex_short[of 32 s] by (auto simp: key_id_re_def)

lemma message_id_short: "message_id_re s \<Longrightarrow> short_ascii s"
  using hex_short[of 32 s] by (auto simp: message_id_re_def)

lemma context_id_short:
  assumes "context_id_re s" shows "short_ascii s"
proof -
  have "s = take 4 s @ drop 4 s" by simp
  moreover have "ascii (take 4 s)" using assms by (simp add: context_id_re_def ascii_def)
  moreover have "ascii (drop 4 s)"
    using assms by (auto simp: context_id_re_def ascii_def list_all_iff dest: base64url_char_ascii)
  ultimately have "ascii s" unfolding ascii_def by (metis list_all_append)
  then show ?thesis using assms by (simp add: short_ascii_def context_id_re_def)
qed

lemma sha256_short: "sha256_hex_re s \<Longrightarrow> short_ascii s"
  using hex_short[of 64 s] by (auto simp: sha256_hex_re_def)

subsection \<open>Payload schemas\<close>

definition utf8_text :: "nat \<Rightarrow> js_string \<Rightarrow> bool" where
  "utf8_text mx s = (is_well_formed_unicode s \<and> length (utf8 s) \<le> mx)"

definition safe_positive :: "int \<Rightarrow> bool" where
  "safe_positive n = (is_safe_integer n \<and> 0 < n)"

definition safe_nonneg :: "int \<Rightarrow> bool" where
  "safe_nonneg n = (is_safe_integer n \<and> 0 \<le> n)"

text \<open>The shared part of the two payloads, \<open>InnerBase\<close>; \<open>v\<close> is the literal 1.\<close>

record inner_base =
  ib_relay_origin :: string
  ib_from :: string
  ib_to :: string
  ib_message_id :: "string option"
  ib_delivery_mode :: "delivery_mode option"
  ib_request_id :: string
  ib_sender_identity_key_id :: string
  ib_recipient_encryption_key_id :: string
  ib_recipient_epoch :: int
  ib_issued_at :: int
  ib_expires_at :: int

definition is_durable :: "'a inner_base_scheme \<Rightarrow> bool" where
  "is_durable p = (ib_delivery_mode p = Some Durable)"

definition inner_base_ok :: "'a inner_base_scheme \<Rightarrow> bool" where
  "inner_base_ok p =
     (relay_origin_re (ib_relay_origin p) \<and> address_re (ib_from p) \<and> address_re (ib_to p) \<and>
      opt_all message_id_re (ib_message_id p) \<and> hex_of_length 32 (ib_request_id p) \<and>
      key_id_re (ib_sender_identity_key_id p) \<and> key_id_re (ib_recipient_encryption_key_id p) \<and>
      safe_positive (ib_recipient_epoch p) \<and> safe_nonneg (ib_issued_at p) \<and> safe_positive (ib_expires_at p))"

text \<open>The refinement both payloads carry: durable needs a message id, and bounded validity.\<close>

definition validity_ok :: "'a inner_base_scheme \<Rightarrow> bool" where
  "validity_ok p =
     (if is_durable p \<and> ib_message_id p = None then False
      else let maximum = (if is_durable p then MAILBOX_TTL_MS else RELAY_CALL_TIMEOUT_MS)
           in ib_expires_at p > ib_issued_at p \<and> ib_expires_at p - ib_issued_at p \<le> maximum)"

record request_payload = inner_base +
  rq_task :: "string option"
  rq_context_id :: "string option"
  rq_message :: js_string

definition request_payload_ok :: "request_payload \<Rightarrow> bool" where
  "request_payload_ok p =
     (inner_base_ok p \<and> opt_all task_id_re (rq_task p) \<and> opt_all context_id_re (rq_context_id p) \<and>
      utf8_text MAX_MESSAGE_BYTES (rq_message p) \<and> 1 \<le> length (rq_message p) \<and> validity_ok p)"

fun peer_failure_code :: "peer_failure \<Rightarrow> string" where
  "peer_failure_code PfBusy = ''busy''"
| "peer_failure_code PfTimeout = ''timeout''"
| "peer_failure_code PfAgentError = ''agent_error''"
| "peer_failure_code PfBlocked = ''blocked''"
| "peer_failure_code PfTaskUnknown = ''task_unknown''"
| "peer_failure_code PfContextUnknown = ''context_unknown''"

datatype e2ee_outcome =
  Reply js_string "string option" "string option"
| Failure peer_failure "js_string option" "string list option"

fun outcome_ok :: "e2ee_outcome \<Rightarrow> bool" where
  "outcome_ok (Reply text context_id task) =
     (utf8_text MAX_REPLY_BYTES text \<and> opt_all context_id_re context_id \<and> opt_all task_id_re task)"
| "outcome_ok (Failure code detail offered) =
     (opt_all (utf8_text MAX_DETAIL_LENGTH) detail \<and>
      opt_all (\<lambda>l. list_all task_id_re l \<and> length l \<le> MAX_OFFERED_TASKS) offered)"

record response_payload = inner_base +
  rs_request_transcript_hash :: string
  rs_outcome :: e2ee_outcome

definition response_payload_ok :: "response_payload \<Rightarrow> bool" where
  "response_payload_ok p =
     (inner_base_ok p \<and> sha256_hex_re (rs_request_transcript_hash p) \<and> outcome_ok (rs_outcome p) \<and> validity_ok p)"

subsection \<open>Transcripts\<close>

datatype transcript_error = SchemaError | EncodeError canonical_error

definition encode_transcript :: "bool \<Rightarrow> canonical_value list \<Rightarrow> transcript_error + byte list" where
  "encode_transcript ok vs = (if ok then map_sum EncodeError id (canonical_encode vs) else Inl SchemaError)"

definition durable_message_id :: "'a inner_base_scheme \<Rightarrow> canonical_value list" where
  "durable_message_id p = (if is_durable p then [copt (ib_message_id p)] else [])"

definition durable_suffix :: "'a inner_base_scheme \<Rightarrow> canonical_value list" where
  "durable_suffix p = (if is_durable p then [cstr ''durable''] else [])"

definition request_values :: "request_payload \<Rightarrow> canonical_value list" where
  "request_values p =
     [cstr (if is_durable p then ''agentcall/request/v2'' else ''agentcall/request/v1''),
      CNum 1, cstr ''request'', cstr (ib_relay_origin p), cstr (ib_from p), cstr (ib_to p)]
     @ durable_message_id p
     @ [cstr (ib_request_id p), cstr (ib_sender_identity_key_id p), cstr (ib_recipient_encryption_key_id p),
        CNum (ib_recipient_epoch p), CNum (ib_issued_at p), CNum (ib_expires_at p), copt (rq_task p),
        copt (rq_context_id p), CStr (rq_message p)]
     @ durable_suffix p"

definition request_transcript :: "request_payload \<Rightarrow> transcript_error + byte list" where
  "request_transcript p = encode_transcript (request_payload_ok p) (request_values p)"

fun outcome_values :: "e2ee_outcome \<Rightarrow> canonical_value list" where
  "outcome_values (Reply text context_id task) = [cstr ''reply'', CStr text, copt context_id, copt task]"
| "outcome_values (Failure code detail offered) =
     [cstr ''failure'', cstr (peer_failure_code code), (case detail of None \<Rightarrow> CNull | Some d \<Rightarrow> CStr d),
      CNum (int (length (or_default offered [])))] @ map cstr (or_default offered [])"

definition response_values :: "response_payload \<Rightarrow> canonical_value list" where
  "response_values p =
     [cstr (if is_durable p then ''agentcall/response/v2'' else ''agentcall/response/v1''),
      CNum 1, cstr ''response'', cstr (ib_relay_origin p), cstr (ib_from p), cstr (ib_to p)]
     @ durable_message_id p
     @ [cstr (ib_request_id p), cstr (ib_sender_identity_key_id p), cstr (ib_recipient_encryption_key_id p),
        CNum (ib_recipient_epoch p), CNum (ib_issued_at p), CNum (ib_expires_at p),
        cstr (rs_request_transcript_hash p)]
     @ outcome_values (rs_outcome p) @ durable_suffix p"

definition response_transcript :: "response_payload \<Rightarrow> transcript_error + byte list" where
  "response_transcript p = encode_transcript (response_payload_ok p) (response_values p)"

definition hpke_aad_values :: "envelope \<Rightarrow> canonical_value list" where
  "hpke_aad_values e =
     [cstr ''agentcall/hpke-aad/v1'', CNum 1, cstr (direction_code (en_direction e)),
      cstr (en_relay_origin e), cstr (en_from e), cstr (en_to e), cstr (en_key_id e), CNum (en_epoch e)]"

definition envelope_header_ok :: "envelope \<Rightarrow> bool" where
  "envelope_header_ok e =
     (relay_origin_re (en_relay_origin e) \<and> address_re (en_from e) \<and> address_re (en_to e) \<and>
      key_id_re (en_key_id e) \<and> safe_positive (en_epoch e))"

definition hpke_envelope_aad :: "envelope \<Rightarrow> transcript_error + byte list" where
  "hpke_envelope_aad e = encode_transcript (envelope_header_ok e) (hpke_aad_values e)"

subsection \<open>Published records\<close>

record identity_record =
  ir_relay_origin :: string
  ir_address :: string
  ir_identity_pub :: string

definition pub_ok :: "string \<Rightarrow> bool" where
  "pub_ok s = (base64url_re s \<and> length s \<le> 256)"

definition identity_record_ok :: "identity_record \<Rightarrow> bool" where
  "identity_record_ok r =
     (relay_origin_re (ir_relay_origin r) \<and> address_re (ir_address r) \<and> pub_ok (ir_identity_pub r))"

definition identity_values :: "identity_record \<Rightarrow> canonical_value list" where
  "identity_values r =
     [cstr ''agentcall/identity/v1'', CNum 1, cstr (ir_relay_origin r), cstr (ir_address r), cstr (ir_identity_pub r)]"

definition identity_transcript :: "identity_record \<Rightarrow> canonical_error + byte list" where
  "identity_transcript r = canonical_encode (identity_values r)"

definition HPKE_SUITE :: string where
  "HPKE_SUITE = ''DHKEM(P-256,HKDF-SHA256)/HKDF-SHA256/AES-128-GCM''"

definition MAX_ENCRYPTION_KEY_VALIDITY_MS :: int where
  "MAX_ENCRYPTION_KEY_VALIDITY_MS = 2592000000"

text \<open>\<open>v\<close> and \<open>suite\<close> are literals.\<close>

record encryption_key_record =
  ek_relay_origin :: string
  ek_address :: string
  ek_key_id :: string
  ek_pub :: string
  ek_epoch :: int
  ek_not_before :: int
  ek_not_after :: int
  ek_prev :: "string option"

definition encryption_key_record_ok :: "encryption_key_record \<Rightarrow> bool" where
  "encryption_key_record_ok r =
     (relay_origin_re (ek_relay_origin r) \<and> address_re (ek_address r) \<and> key_id_re (ek_key_id r) \<and>
      pub_ok (ek_pub r) \<and> safe_positive (ek_epoch r) \<and> safe_nonneg (ek_not_before r) \<and>
      safe_nonneg (ek_not_after r) \<and> opt_all (hex_of_length 32) (ek_prev r) \<and>
      ek_not_after r > ek_not_before r \<and>
      ek_not_after r - ek_not_before r \<le> MAX_ENCRYPTION_KEY_VALIDITY_MS \<and>
      ((ek_epoch r = 1) = (ek_prev r = None)))"

definition encryption_key_values :: "encryption_key_record \<Rightarrow> canonical_value list" where
  "encryption_key_values r =
     [cstr ''agentcall/encryption-key/v1'', CNum 1, cstr (ek_relay_origin r), cstr (ek_address r),
      cstr (ek_key_id r), cstr HPKE_SUITE, cstr (ek_pub r), CNum (ek_epoch r), CNum (ek_not_before r),
      CNum (ek_not_after r), copt (ek_prev r)]"

definition encryption_key_transcript :: "encryption_key_record \<Rightarrow> canonical_error + byte list" where
  "encryption_key_transcript r = canonical_encode (encryption_key_values r)"

subsection \<open>Everything a schema admits is encodable\<close>

lemma encodable_utf8_text: "utf8_text mx s \<Longrightarrow> mx < 2 ^ 32 \<Longrightarrow> encodable (CStr s)"
  by (simp add: utf8_text_def)

lemmas limit_defs = MAX_MESSAGE_BYTES_def MAX_REPLY_BYTES_def MAX_DETAIL_LENGTH_def

lemma encodable_code:
  "encodable (cstr ''agentcall/request/v1'')" "encodable (cstr ''agentcall/request/v2'')"
  "encodable (cstr ''agentcall/response/v1'')" "encodable (cstr ''agentcall/response/v2'')"
  "encodable (cstr ''agentcall/hpke-aad/v1'')" "encodable (cstr ''agentcall/identity/v1'')"
  "encodable (cstr ''agentcall/encryption-key/v1'')" "encodable (cstr ''request'')"
  "encodable (cstr ''response'')" "encodable (cstr ''durable'')" "encodable (cstr ''reply'')"
  "encodable (cstr ''failure'')" "encodable (cstr HPKE_SUITE)"
  by (rule encodable_short, simp add: short_ascii_def ascii_def HPKE_SUITE_def)+

lemma encodable_failure_code: "encodable (cstr (peer_failure_code c))"
  by (cases c; rule encodable_short; simp add: short_ascii_def ascii_def)

lemma pub_short: "pub_ok s \<Longrightarrow> short_ascii s"
  by (auto simp: short_ascii_def pub_ok_def base64url_re_def ascii_def list_all_iff dest: base64url_char_ascii)

lemmas field_short = relay_origin_short address_short task_id_short key_id_short message_id_short
  context_id_short sha256_short pub_short hex_short

lemma opt_all_short: "opt_all P x \<Longrightarrow> (\<And>s. P s \<Longrightarrow> short_ascii s) \<Longrightarrow> encodable (copt x)"
  by (cases x) (auto intro: encodable_copt simp: copt_def encodable_short)

lemma inner_base_encodable:
  assumes "inner_base_ok p"
  shows "encodable (cstr (ib_relay_origin p))" "encodable (cstr (ib_from p))" "encodable (cstr (ib_to p))"
    "encodable (copt (ib_message_id p))" "encodable (cstr (ib_request_id p))"
    "encodable (cstr (ib_sender_identity_key_id p))" "encodable (cstr (ib_recipient_encryption_key_id p))"
  using assms
  by (auto simp: inner_base_ok_def intro!: encodable_short
      intro: field_short opt_all_short[of message_id_re] hex_short[of 32])

lemma outcome_encodable: "outcome_ok outc \<Longrightarrow> list_all encodable (outcome_values outc)"
proof (cases outc)
  case (Reply body c t)
  assume "outcome_ok outc"
  then show ?thesis using Reply opt_all_short[of context_id_re c] opt_all_short[of task_id_re t]
    by (auto simp: encodable_code utf8_text_def limit_defs dest: field_short simp del: encodable.simps(1)
        intro!: encodable_utf8_text[of MAX_REPLY_BYTES])
next
  case (Failure c d off)
  assume ok: "outcome_ok outc"
  have "encodable (case d of None \<Rightarrow> CNull | Some d \<Rightarrow> CStr d)"
    using ok Failure encodable_utf8_text[of MAX_DETAIL_LENGTH] by (cases d) (auto simp: limit_defs)
  moreover have "list_all encodable (map cstr (or_default off []))"
    using ok Failure by (cases off) (auto simp: list_all_iff intro: encodable_short task_id_short)
  ultimately show ?thesis using Failure by (simp add: encodable_code encodable_failure_code)
qed

lemma request_values_encodable: "request_payload_ok p \<Longrightarrow> list_all encodable (request_values p)"
  using inner_base_encodable[of p] opt_all_short[of task_id_re "rq_task p"]
    opt_all_short[of context_id_re "rq_context_id p"] encodable_utf8_text[of MAX_MESSAGE_BYTES "rq_message p"]
  by (auto simp: request_payload_ok_def request_values_def durable_message_id_def durable_suffix_def
      encodable_code limit_defs dest: field_short simp del: encodable.simps(1))

lemma response_values_encodable: "response_payload_ok p \<Longrightarrow> list_all encodable (response_values p)"
  using inner_base_encodable[of p] outcome_encodable[of "rs_outcome p"]
  by (auto simp: response_payload_ok_def response_values_def durable_message_id_def durable_suffix_def
      encodable_code sha256_short encodable_short simp del: encodable.simps(1))

lemma hpke_aad_values_encodable: "envelope_header_ok e \<Longrightarrow> list_all encodable (hpke_aad_values e)"
  by (cases "en_direction e")
    (auto simp: envelope_header_ok_def hpke_aad_values_def encodable_code
      intro!: encodable_short dest: field_short)

lemma identity_values_encodable: "identity_record_ok r \<Longrightarrow> list_all encodable (identity_values r)"
  by (auto simp: identity_record_ok_def identity_values_def encodable_code intro!: encodable_short
      intro: field_short)

lemma encryption_key_values_encodable:
  "encryption_key_record_ok r \<Longrightarrow> list_all encodable (encryption_key_values r)"
  using opt_all_short[of "hex_of_length 32" "ek_prev r"]
  by (auto simp: encryption_key_record_ok_def encryption_key_values_def encodable_code hex_short
      intro!: encodable_short intro: field_short)

subsection \<open>Injectivity\<close>

lemma encode_transcript_Inr:
  "encode_transcript ok vs = Inr bs \<longleftrightarrow> ok \<and> canonical_encode vs = Inr bs"
  by (cases "canonical_encode vs") (auto simp: encode_transcript_def)

lemma outcome_values_inj:
  "outcome_values a @ x = outcome_values b @ y \<Longrightarrow> length x = length y \<Longrightarrow>
   (case (a, b) of
      (Reply t c k, Reply t' c' k') \<Rightarrow> t = t' \<and> c = c' \<and> k = k'
    | (Failure c d l, Failure c' d' l') \<Rightarrow> c = c' \<and> d = d' \<and> or_default l [] = or_default l' []
    | _ \<Rightarrow> False)"
proof (cases a; cases b)
  fix c d l c' d' l'
  assume ab: "a = Failure c d l" "b = Failure c' d' l'"
    and eq: "outcome_values a @ x = outcome_values b @ y" and len: "length x = length y"
  have "c = c'" using eq ab by (cases c; cases c') auto
  moreover have "d = d'" using eq ab by (auto split: option.splits)
  moreover have "map cstr (or_default l []) = map cstr (or_default l' [])"
    using eq ab len by (auto simp: append_eq_append_conv)
  moreover have "inj cstr" by (simp add: inj_def)
  ultimately show ?thesis using ab by (auto dest: map_injective)
qed (auto)

lemma transcript_values_eq:
  assumes "encode_transcript ok vs = Inr bs" "encode_transcript ok' ws = Inr bs"
    "list_all encodable vs" "list_all encodable ws"
  shows "vs = ws"
  using assms canonical_encode_unique by (auto simp: encode_transcript_Inr)

lemma request_transcript_Inr:
  "request_transcript p = Inr bs \<Longrightarrow> request_payload_ok p \<and> canonical_encode (request_values p) = Inr bs"
  by (simp add: request_transcript_def encode_transcript_Inr)

lemma response_transcript_Inr:
  "response_transcript p = Inr bs \<Longrightarrow> response_payload_ok p \<and> canonical_encode (response_values p) = Inr bs"
  by (simp add: response_transcript_def encode_transcript_Inr)

lemma hpke_envelope_aad_Inr:
  "hpke_envelope_aad e = Inr bs \<Longrightarrow> envelope_header_ok e \<and> canonical_encode (hpke_aad_values e) = Inr bs"
  by (simp add: hpke_envelope_aad_def encode_transcript_Inr)

lemma request_values_inj:
  assumes "request_values p = request_values q"
  shows "is_durable p = is_durable q \<and> (is_durable p \<longrightarrow> ib_message_id p = ib_message_id q) \<and>
    ib_relay_origin p = ib_relay_origin q \<and> ib_from p = ib_from q \<and> ib_to p = ib_to q \<and>
    ib_request_id p = ib_request_id q \<and> ib_sender_identity_key_id p = ib_sender_identity_key_id q \<and>
    ib_recipient_encryption_key_id p = ib_recipient_encryption_key_id q \<and>
    ib_recipient_epoch p = ib_recipient_epoch q \<and> ib_issued_at p = ib_issued_at q \<and>
    ib_expires_at p = ib_expires_at q \<and> rq_task p = rq_task q \<and> rq_context_id p = rq_context_id q \<and>
    rq_message p = rq_message q"
proof -
  have d: "is_durable p = is_durable q"
    using assms by (auto simp: request_values_def split: if_splits)
  show ?thesis
    using assms d
    by (cases "is_durable p") (simp_all add: request_values_def durable_message_id_def durable_suffix_def)
qed

lemma response_values_inj:
  assumes "response_values p = response_values q"
  shows "is_durable p = is_durable q \<and> (is_durable p \<longrightarrow> ib_message_id p = ib_message_id q) \<and>
    ib_relay_origin p = ib_relay_origin q \<and> ib_from p = ib_from q \<and> ib_to p = ib_to q \<and>
    ib_request_id p = ib_request_id q \<and> ib_sender_identity_key_id p = ib_sender_identity_key_id q \<and>
    ib_recipient_encryption_key_id p = ib_recipient_encryption_key_id q \<and>
    ib_recipient_epoch p = ib_recipient_epoch q \<and> ib_issued_at p = ib_issued_at q \<and>
    ib_expires_at p = ib_expires_at q \<and> rs_request_transcript_hash p = rs_request_transcript_hash q \<and>
    outcome_values (rs_outcome p) @ durable_suffix p = outcome_values (rs_outcome q) @ durable_suffix q"
proof -
  have d: "is_durable p = is_durable q"
    using assms by (auto simp: response_values_def split: if_splits)
  show ?thesis
    using assms d
    by (cases "is_durable p") (simp_all add: response_values_def durable_message_id_def)
qed

text \<open>An absent and an empty \<open>offered\<close> list sign the same bytes.\<close>

fun same_outcome :: "e2ee_outcome \<Rightarrow> e2ee_outcome \<Rightarrow> bool" where
  "same_outcome (Reply t c k) (Reply t' c' k') = (t = t' \<and> c = c' \<and> k = k')"
| "same_outcome (Failure c d l) (Failure c' d' l') = (c = c' \<and> d = d' \<and> or_default l [] = or_default l' [])"
| "same_outcome _ _ = False"

lemma outcome_values_same:
  "outcome_values a @ x = outcome_values b @ y \<Longrightarrow> length x = length y \<Longrightarrow> same_outcome a b"
  using outcome_values_inj[of a x b y] by (cases a; cases b) auto

lemma values_labels:
  "hd (request_values p) \<noteq> hd (response_values r)"
  "hd (request_values p) \<noteq> hd (hpke_aad_values e)"
  "hd (request_values p) \<noteq> hd (identity_values i)"
  "hd (request_values p) \<noteq> hd (encryption_key_values k)"
  "hd (response_values r) \<noteq> hd (hpke_aad_values e)"
  "hd (response_values r) \<noteq> hd (identity_values i)"
  "hd (response_values r) \<noteq> hd (encryption_key_values k)"
  "hd (hpke_aad_values e) \<noteq> hd (identity_values i)"
  "hd (hpke_aad_values e) \<noteq> hd (encryption_key_values k)"
  "hd (identity_values i) \<noteq> hd (encryption_key_values k)"
  by (simp_all add: request_values_def response_values_def hpke_aad_values_def identity_values_def
      encryption_key_values_def)

lemma different_label_bytes:
  assumes "canonical_encode vs = Inr a" "canonical_encode ws = Inr b"
    "list_all encodable vs" "list_all encodable ws" "hd vs \<noteq> hd ws"
  shows "a \<noteq> b"
  using canonical_encode_unique[OF assms(3,4,1)] assms(2,5) by auto

subsection \<open>Sample values\<close>

definition sample_request :: request_payload where
  "sample_request =
     \<lparr>ib_relay_origin = ''relay.example'', ib_from = ''@acme/alice'', ib_to = ''@acme/bob'',
      ib_message_id = None, ib_delivery_mode = None, ib_request_id = replicate 32 (CHR ''a''),
      ib_sender_identity_key_id = replicate 32 (CHR ''b''),
      ib_recipient_encryption_key_id = replicate 32 (CHR ''c''), ib_recipient_epoch = 1,
      ib_issued_at = 1000, ib_expires_at = 2000, rq_task = None, rq_context_id = None,
      rq_message = js ''hi''\<rparr>"

definition sample_response :: response_payload where
  "sample_response =
     \<lparr>ib_relay_origin = ''relay.example'', ib_from = ''@acme/bob'', ib_to = ''@acme/alice'',
      ib_message_id = None, ib_delivery_mode = None, ib_request_id = replicate 32 (CHR ''a''),
      ib_sender_identity_key_id = replicate 32 (CHR ''c''),
      ib_recipient_encryption_key_id = replicate 32 (CHR ''b''), ib_recipient_epoch = 1,
      ib_issued_at = 1000, ib_expires_at = 2000, rs_request_transcript_hash = replicate 64 (CHR ''d''),
      rs_outcome = Failure PfBusy None None\<rparr>"

definition sample_envelope :: envelope where
  "sample_envelope =
     \<lparr>en_direction = Request, en_relay_origin = ''relay.example'', en_from = ''@acme/alice'',
      en_to = ''@acme/bob'', en_key_id = replicate 32 (CHR ''c''), en_epoch = 1, en_enc = ''QQ'', en_ct = ''QQ''\<rparr>"

definition sample_identity :: identity_record where
  "sample_identity =
     \<lparr>ir_relay_origin = ''relay.example'', ir_address = ''@acme/alice'', ir_identity_pub = ''QQ''\<rparr>"

definition sample_key :: encryption_key_record where
  "sample_key =
     \<lparr>ek_relay_origin = ''relay.example'', ek_address = ''@acme/alice'', ek_key_id = replicate 32 (CHR ''c''),
      ek_pub = ''QQ'', ek_epoch = 1, ek_not_before = 0, ek_not_after = 1000, ek_prev = None\<rparr>"

lemma sample_fields:
  "relay_origin_re ''relay.example''" "address_re ''@acme/alice''" "address_re ''@acme/bob''"
  "pub_ok ''QQ''" "enc_ok ''QQ''" "base64url_re ''QQ''"
  by code_simp+

lemma sample_hex:
  "hex_of_length n (replicate n (CHR ''a''))" "hex_of_length n (replicate n (CHR ''b''))"
  "hex_of_length n (replicate n (CHR ''c''))" "hex_of_length n (replicate n (CHR ''d''))"
  by (simp_all add: hex_of_length_def lower_hex_def list_all_length less_eq_char_def)

lemma sample_message: "utf8_text MAX_MESSAGE_BYTES (js ''hi'') \<and> js ''hi'' \<noteq> []"
proof -
  have "ascii ''hi''" by (simp add: ascii_def)
  note J = js_ascii[OF this]
  have "js ''hi'' \<noteq> []" by (simp add: js_def)
  then show ?thesis using J by (simp add: utf8_text_def MAX_MESSAGE_BYTES_def del: is_well_formed_unicode.simps)
qed

lemma sample_safe: "is_safe_integer 0" "is_safe_integer 1" "is_safe_integer 1000" "is_safe_integer 2000"
  by (simp_all add: is_safe_integer_def)

lemmas sample_ok_defs = inner_base_ok_def validity_ok_def is_durable_def key_id_re_def sha256_hex_re_def
  safe_positive_def safe_nonneg_def sample_fields sample_safe sample_hex sample_message
  RELAY_CALL_TIMEOUT_MS_def

lemma sample_request_ok: "request_payload_ok sample_request"
  unfolding sample_request_def request_payload_ok_def by (simp add: sample_ok_defs Suc_le_eq)

lemma sample_response_ok: "response_payload_ok sample_response"
  unfolding sample_response_def response_payload_ok_def by (simp add: sample_ok_defs)

lemma sample_envelope_ok: "envelope_ok sample_envelope" "envelope_header_ok sample_envelope"
  unfolding sample_envelope_def envelope_header_ok_def envelope_ok_def
  by (simp_all add: sample_ok_defs ct_ok_def MAX_E2EE_CIPHERTEXT_BYTES_def MAX_REPLY_BYTES_def)

lemma sample_identity_ok: "identity_record_ok sample_identity"
  unfolding sample_identity_def identity_record_ok_def by (simp add: sample_ok_defs)

lemma sample_key_ok: "encryption_key_record_ok sample_key"
  unfolding sample_key_def encryption_key_record_ok_def
  by (simp add: sample_ok_defs MAX_ENCRYPTION_KEY_VALIDITY_MS_def)

text \<open>The signed numbers of a valid payload are safe integers, so encoding never fails.\<close>

lemma canonical_encode_total:
  "(\<forall>n. CNum n \<in> set vs \<longrightarrow> is_safe_integer n) \<Longrightarrow> \<exists>bs. canonical_encode vs = Inr bs"
  using encode_parts_total by (auto simp: canonical_encode_Inr)

lemma copt_not_num [simp]: "CNum n \<noteq> copt x"
  by (cases x) (simp_all add: copt_def)

lemma request_transcript_total: "request_payload_ok p \<Longrightarrow> \<exists>bs. request_transcript p = Inr bs"
  unfolding request_transcript_def encode_transcript_Inr
  using canonical_encode_total[of "request_values p"]
  by (auto simp: request_payload_ok_def inner_base_ok_def request_values_def durable_message_id_def
      durable_suffix_def safe_positive_def safe_nonneg_def is_safe_integer_def)

lemma outcome_values_num:
  "outcome_ok outc \<Longrightarrow> CNum n \<in> set (outcome_values outc) \<Longrightarrow> is_safe_integer n"
  by (cases outc)
     (auto simp: is_safe_integer_def MAX_OFFERED_TASKS_def opt_all_def or_default_def split: option.splits)

lemma response_transcript_total: "response_payload_ok p \<Longrightarrow> \<exists>bs. response_transcript p = Inr bs"
  unfolding response_transcript_def encode_transcript_Inr
  using canonical_encode_total[of "response_values p"] outcome_values_num[of "rs_outcome p"]
  by (auto simp: response_payload_ok_def inner_base_ok_def response_values_def durable_message_id_def
      durable_suffix_def safe_positive_def safe_nonneg_def is_safe_integer_def)

lemma hpke_envelope_aad_total: "envelope_header_ok e \<Longrightarrow> \<exists>bs. hpke_envelope_aad e = Inr bs"
  unfolding hpke_envelope_aad_def encode_transcript_Inr
  using canonical_encode_total[of "hpke_aad_values e"]
  by (auto simp: envelope_header_ok_def hpke_aad_values_def safe_positive_def is_safe_integer_def)

lemma identity_transcript_total: "\<exists>bs. identity_transcript r = Inr bs"
  unfolding identity_transcript_def
  by (rule canonical_encode_total) (auto simp: identity_values_def is_safe_integer_def)

lemma encryption_key_transcript_total:
  "encryption_key_record_ok r \<Longrightarrow> \<exists>bs. encryption_key_transcript r = Inr bs"
  unfolding encryption_key_transcript_def
  by (rule canonical_encode_total)
     (auto simp: encryption_key_record_ok_def encryption_key_values_def safe_positive_def safe_nonneg_def
       is_safe_integer_def)

subsection \<open>Properties\<close>

text \<open>
  C37: Two request payloads with the same transcript agree on every signed field: the
  delivery mode's durability, for a durable request the message id, and everything else
  in the payload. A signature over one request cannot be presented with another.
\<close>

theorem request_transcript_inj:
  assumes "request_transcript p = Inr bs" "request_transcript q = Inr bs"
  shows "is_durable p = is_durable q \<and> (is_durable p \<longrightarrow> ib_message_id p = ib_message_id q) \<and>
    p\<lparr>ib_message_id := None, ib_delivery_mode := None\<rparr> = q\<lparr>ib_message_id := None, ib_delivery_mode := None\<rparr>"
proof -
  note P = request_transcript_Inr[OF assms(1)] request_transcript_Inr[OF assms(2)]
  have "request_values p = request_values q"
    using canonical_encode_unique[OF request_values_encodable request_values_encodable] P by blast
  from request_values_inj[OF this] show ?thesis by simp
qed

definition sync_sample_request :: request_payload where
  "sync_sample_request = sample_request\<lparr>ib_delivery_mode := Some Sync\<rparr>"

lemma sync_sample_values:
  "request_payload_ok sync_sample_request" "request_values sync_sample_request = request_values sample_request"
  using sample_request_ok
  by (simp_all add: sync_sample_request_def request_payload_ok_def inner_base_ok_def validity_ok_def
      is_durable_def sample_request_def request_values_def durable_message_id_def durable_suffix_def)

lemma request_transcript_inj_witness:
  "is_durable sample_request = is_durable sync_sample_request \<and>
   sample_request\<lparr>ib_message_id := None, ib_delivery_mode := None\<rparr>
     = sync_sample_request\<lparr>ib_message_id := None, ib_delivery_mode := None\<rparr>"
proof -
  obtain bs where bs: "request_transcript sample_request = Inr bs"
    using request_transcript_total sample_request_ok by blast
  then have "request_transcript sync_sample_request = Inr bs"
    using sync_sample_values sample_request_ok by (simp add: request_transcript_def)
  from request_transcript_inj[OF bs this] show ?thesis by simp
qed

text \<open>
  Two response payloads with the same transcript agree on durability, message id, request
  hash, outcome and every other field, an absent and an empty offered list being the same.
\<close>

theorem response_transcript_inj:
  assumes "response_transcript p = Inr bs" "response_transcript q = Inr bs"
  shows "is_durable p = is_durable q \<and> (is_durable p \<longrightarrow> ib_message_id p = ib_message_id q) \<and>
    same_outcome (rs_outcome p) (rs_outcome q) \<and>
    p\<lparr>ib_message_id := None, ib_delivery_mode := None, rs_outcome := rs_outcome q\<rparr>
      = q\<lparr>ib_message_id := None, ib_delivery_mode := None\<rparr>"
proof -
  note P = response_transcript_Inr[OF assms(1)] response_transcript_Inr[OF assms(2)]
  have "response_values p = response_values q"
    using canonical_encode_unique[OF response_values_encodable response_values_encodable] P by blast
  note I = response_values_inj[OF this]
  have "length (durable_suffix p) = length (durable_suffix q)" using I by (simp add: durable_suffix_def)
  then have "same_outcome (rs_outcome p) (rs_outcome q)" using I outcome_values_same by blast
  then show ?thesis using I by simp
qed

definition empty_offer_response :: response_payload where
  "empty_offer_response = sample_response\<lparr>rs_outcome := Failure PfBusy None (Some [])\<rparr>"

lemma empty_offer_values:
  "response_payload_ok empty_offer_response" "response_values empty_offer_response = response_values sample_response"
  using sample_response_ok
  by (simp_all add: empty_offer_response_def response_payload_ok_def inner_base_ok_def validity_ok_def
      is_durable_def sample_response_def response_values_def durable_message_id_def durable_suffix_def)

lemma response_transcript_inj_witness:
  "same_outcome (rs_outcome sample_response) (rs_outcome empty_offer_response) \<and>
   sample_response\<lparr>ib_message_id := None, ib_delivery_mode := None, rs_outcome := rs_outcome empty_offer_response\<rparr>
     = empty_offer_response\<lparr>ib_message_id := None, ib_delivery_mode := None\<rparr>"
proof -
  obtain bs where bs: "response_transcript sample_response = Inr bs"
    using response_transcript_total sample_response_ok by blast
  then have "response_transcript empty_offer_response = Inr bs"
    using empty_offer_values sample_response_ok by (simp add: response_transcript_def)
  from response_transcript_inj[OF bs this] show ?thesis by simp
qed

text \<open>
  Domain separation: the transcripts of a request, a response, an envelope header, an
  identity record and an encryption-key record are pairwise different, so no signature or
  authenticated header of one kind passes for another.
\<close>

theorem transcript_domains_disjoint:
  assumes "request_transcript p = Inr a" "response_transcript r = Inr b" "hpke_envelope_aad e = Inr c"
    "identity_record_ok i" "identity_transcript i = Inr d"
    "encryption_key_record_ok k" "encryption_key_transcript k = Inr f"
  shows "distinct [a, b, c, d, f]"
proof -
  note P = request_transcript_Inr[OF assms(1)] response_transcript_Inr[OF assms(2)] hpke_envelope_aad_Inr[OF assms(3)]
  note D = assms(5)[unfolded identity_transcript_def] assms(7)[unfolded encryption_key_transcript_def]
  note p = conjunct2[OF P(1)] request_values_encodable[OF conjunct1[OF P(1)]]
  note r = conjunct2[OF P(2)] response_values_encodable[OF conjunct1[OF P(2)]]
  note e = conjunct2[OF P(3)] hpke_aad_values_encodable[OF conjunct1[OF P(3)]]
  note i = D(1) identity_values_encodable[OF assms(4)]
  note k = D(2) encryption_key_values_encodable[OF assms(6)]
  note ne = different_label_bytes
  have "a \<noteq> b" "a \<noteq> c" "a \<noteq> d" "a \<noteq> f"
    using ne[OF p(1) r(1) p(2) r(2)] ne[OF p(1) e(1) p(2) e(2)] ne[OF p(1) i(1) p(2) i(2)]
      ne[OF p(1) k(1) p(2) k(2)] values_labels by blast+
  moreover have "b \<noteq> c" "b \<noteq> d" "b \<noteq> f"
    using ne[OF r(1) e(1) r(2) e(2)] ne[OF r(1) i(1) r(2) i(2)] ne[OF r(1) k(1) r(2) k(2)]
      values_labels by blast+
  moreover have "c \<noteq> d" "c \<noteq> f" "d \<noteq> f"
    using ne[OF e(1) i(1) e(2) i(2)] ne[OF e(1) k(1) e(2) k(2)] ne[OF i(1) k(1) i(2) k(2)]
      values_labels by blast+
  ultimately show ?thesis by simp
qed

lemma transcript_domains_disjoint_witness:
  "\<exists>a b c d f. request_transcript sample_request = Inr a \<and> response_transcript sample_response = Inr b \<and>
     hpke_envelope_aad sample_envelope = Inr c \<and> identity_transcript sample_identity = Inr d \<and>
     encryption_key_transcript sample_key = Inr f \<and> distinct [a, b, c, d, f]"
proof -
  obtain a b c d f where "request_transcript sample_request = Inr a"
    "response_transcript sample_response = Inr b" "hpke_envelope_aad sample_envelope = Inr c"
    "identity_transcript sample_identity = Inr d" "encryption_key_transcript sample_key = Inr f"
    using request_transcript_total[OF sample_request_ok] response_transcript_total[OF sample_response_ok]
      hpke_envelope_aad_total[OF sample_envelope_ok(2)] identity_transcript_total[of sample_identity]
      encryption_key_transcript_total[OF sample_key_ok] by blast
  moreover from this have "distinct [a, b, c, d, f]"
    by (intro transcript_domains_disjoint[OF _ _ _ sample_identity_ok _ sample_key_ok])
  ultimately show ?thesis by blast
qed

end
