(* ===== verification/KeyDirectory.thy ===== *)
theory KeyDirectory
  imports Tenancy Transcripts
begin

text \<open>
  The relay's key directory, \<open>apps/relay/src/keys.ts\<close>: an identity key is published once, an
  encryption key record is signed by it and carries a growing epoch, and both are served as
  they were signed. Importing a key and verifying a signature are the parameters of
  \<open>key_platform\<close>.
\<close>

record key_platform =
  kl_import_ok :: "string \<Rightarrow> bool"
  kl_verify :: "string \<Rightarrow> byte list \<Rightarrow> string \<Rightarrow> bool"

subsection \<open>Schemas\<close>

definition prop_of :: "js_value \<Rightarrow> string \<Rightarrow> js_value" where
  "prop_of v k = (case v of JObj kvs \<Rightarrow> obj_get kvs k | _ \<Rightarrow> JUndefined)"

definition read_nullable :: "(js_value \<Rightarrow> 'a option) \<Rightarrow> js_value \<Rightarrow> 'a option option" where
  "read_nullable rd v = (if v = JNull then Some None else map_option Some (rd v))"

definition parse_identity_record :: "js_value \<Rightarrow> identity_record option" where
  "parse_identity_record v = (case as_object v of None \<Rightarrow> None | Some kvs \<Rightarrow>
     (case (read_int (\<lambda>n. n = 1) (obj_get kvs ''v''), read_str relay_origin_re (obj_get kvs ''relay_origin''),
            read_str address_re (obj_get kvs ''address''), read_str pub_ok (obj_get kvs ''identity_pub'')) of
        (Some _, Some origin, Some address, Some pub) \<Rightarrow>
          Some \<lparr>ir_relay_origin = origin, ir_address = address, ir_identity_pub = pub\<rparr>
      | _ \<Rightarrow> None))"

definition parse_encryption_key_record :: "js_value \<Rightarrow> encryption_key_record option" where
  "parse_encryption_key_record v = (case as_object v of None \<Rightarrow> None | Some kvs \<Rightarrow>
     (case (read_int (\<lambda>n. n = 1) (obj_get kvs ''v''), read_str relay_origin_re (obj_get kvs ''relay_origin''),
            read_str address_re (obj_get kvs ''address''), read_str key_id_re (obj_get kvs ''key_id''),
            read_literal HPKE_SUITE (obj_get kvs ''suite''), read_str pub_ok (obj_get kvs ''pub''),
            read_int safe_positive (obj_get kvs ''epoch''), read_int safe_nonneg (obj_get kvs ''not_before''),
            read_int safe_nonneg (obj_get kvs ''not_after''),
            read_nullable (read_str (hex_of_length 32)) (obj_get kvs ''prev'')) of
        (Some _, Some origin, Some address, Some key_id, Some _, Some pub, Some epoch, Some from, Some until, Some prev) \<Rightarrow>
          (let r = \<lparr>ek_relay_origin = origin, ek_address = address, ek_key_id = key_id, ek_pub = pub, ek_epoch = epoch,
                    ek_not_before = from, ek_not_after = until, ek_prev = prev\<rparr>
           in if ek_not_after r > ek_not_before r \<and>
                 ek_not_after r - ek_not_before r \<le> MAX_ENCRYPTION_KEY_VALIDITY_MS \<and>
                 (ek_epoch r = 1) = (ek_prev r = None)
              then Some r else None)
      | _ \<Rightarrow> None))"

subsection \<open>Publishing an identity\<close>

definition stored_identity_row :: "relay_db \<Rightarrow> string \<Rightarrow> string \<Rightarrow> identity_key_row option" where
  "stored_identity_row db org handle = find (\<lambda>r. ik_org r = org \<and> ik_handle r = handle) (rd_identity_keys db)"

definition address_for :: "string \<Rightarrow> string \<Rightarrow> string" where
  "address_for org handle = format_address org handle"

definition new_identity_row :: "identity \<Rightarrow> identity_record \<Rightarrow> int \<Rightarrow> identity_key_row" where
  "new_identity_row i r now =
     \<lparr>ik_org = id_org i, ik_handle = id_handle i, ik_identity_pub = ir_identity_pub r,
      ik_relay_origin = ir_relay_origin r, ik_address = ir_address r, ik_created_at = now\<rparr>"

definition insert_identity :: "identity_key_row \<Rightarrow> relay_db \<Rightarrow> (relay_db \<times> nat) option" where
  "insert_identity row db =
     (let (rows, n) = sql_insert_or_ignore identity_key_of row (rd_identity_keys db)
      in Some (db\<lparr>rd_identity_keys := rows\<rparr>, n))"

text \<open>A body that is not a valid record with a signature, then the checks in their order.\<close>

definition signed_body :: "(js_value \<Rightarrow> 'r option) \<Rightarrow> js_value option \<Rightarrow> ('r \<times> string) option" where
  "signed_body parse body =
     (let b = or_default body JNull
      in case (parse (prop_of b ''record''), prop_of b ''signature'') of
           (Some r, JStr signature) \<Rightarrow> Some (r, signature) | _ \<Rightarrow> None)"

definition put_identity ::
  "key_platform \<Rightarrow> batch_fate \<Rightarrow> admission \<Rightarrow> identity \<Rightarrow> request_headers \<Rightarrow> js_value option \<Rightarrow> int \<Rightarrow> relay_db
   \<Rightarrow> (relay_db \<Rightarrow> relay_db) \<Rightarrow> relay_db \<times> unit http" where
  "put_identity kl fate admit i req body now db later =
     rate_limit admit NATIVE_CARD (ByIdentity '''') req i db
       (case signed_body parse_identity_record body of
          None \<Rightarrow> (db, Refuse 400 ''invalid record'')
        | Some (r, signature) \<Rightarrow>
            if ir_address r \<noteq> address_for (id_org i) (id_handle i) then (db, Refuse 400 ''address mismatch'')
            else if \<not> kl_import_ok kl (ir_identity_pub r)
            then (db, Refuse 400 ''identity_pub is not a P-256 public key'')
            else (case identity_transcript r of
                    Inl _ \<Rightarrow> (db, Uncaught)
                  | Inr t \<Rightarrow>
                      if \<not> kl_verify kl (ir_identity_pub r) t signature
                      then (db, Refuse 400 ''signature does not verify'')
                      else (let (db', changes) = run_batch fate (insert_identity (new_identity_row i r now)) db
                            in (db', (case changes of
                                   None \<Rightarrow> Uncaught
                                 | Some n \<Rightarrow>
                                     if n = 1 then Ok ()
                                     else (case stored_identity_row (later db') (id_org i) (id_handle i) of
                                         Some existing \<Rightarrow>
                                           if ik_identity_pub existing = ir_identity_pub r \<and>
                                              ik_relay_origin existing = ir_relay_origin r \<and>
                                              ik_address existing = ir_address r
                                           then Ok () else Refuse 409 ''identity key already published''
                                       | None \<Rightarrow> Refuse 409 ''identity key already published''))))))"

subsection \<open>Publishing an encryption key\<close>

definition new_key_row :: "identity \<Rightarrow> encryption_key_record \<Rightarrow> string \<Rightarrow> int \<Rightarrow> encryption_key_row" where
  "new_key_row i r signature now =
     \<lparr>xk_org = id_org i, xk_handle = id_handle i, xk_key_id = ek_key_id r, xk_suite = HPKE_SUITE, xk_pub = ek_pub r,
      xk_epoch = ek_epoch r, xk_not_before = ek_not_before r, xk_not_after = ek_not_after r, xk_prev = ek_prev r,
      xk_relay_origin = ek_relay_origin r, xk_address = ek_address r, xk_signature = signature, xk_created_at = now\<rparr>"

definition key_owned :: "string \<Rightarrow> string \<Rightarrow> encryption_key_row \<Rightarrow> bool" where
  "key_owned org handle r = (xk_org r = org \<and> xk_handle r = handle)"

definition insert_key :: "encryption_key_row \<Rightarrow> relay_db \<Rightarrow> (relay_db \<times> nat) option" where
  "insert_key row db =
     (if sql_exists (\<lambda>r. key_owned (xk_org row) (xk_handle row) r \<and> xk_epoch r \<ge> xk_epoch row) (rd_encryption_keys db)
      then Some (db, 0)
      else map_option (\<lambda>rows. (db\<lparr>rd_encryption_keys := rows\<rparr>, 1))
             (sql_insert encryption_key_of row (rd_encryption_keys db)))"

text \<open>The row of a given epoch, when no later epoch exists.\<close>

definition current_epoch_row :: "relay_db \<Rightarrow> string \<Rightarrow> string \<Rightarrow> int \<Rightarrow> encryption_key_row option" where
  "current_epoch_row db org handle epoch =
     find (\<lambda>r. key_owned org handle r \<and> xk_epoch r = epoch \<and>
               list_all (\<lambda>q. key_owned org handle q \<longrightarrow> xk_epoch q \<le> epoch) (rd_encryption_keys db))
       (rd_encryption_keys db)"

definition same_published_key :: "encryption_key_row \<Rightarrow> encryption_key_record \<Rightarrow> string \<Rightarrow> bool" where
  "same_published_key x r signature =
     (xk_key_id x = ek_key_id r \<and> xk_suite x = HPKE_SUITE \<and> xk_pub x = ek_pub r \<and> xk_epoch x = ek_epoch r \<and>
      xk_not_before x = ek_not_before r \<and> xk_not_after x = ek_not_after r \<and> xk_prev x = ek_prev r \<and>
      xk_relay_origin x = ek_relay_origin r \<and> xk_address x = ek_address r \<and> xk_signature x = signature)"

definition put_encryption_key ::
  "key_platform \<Rightarrow> batch_fate \<Rightarrow> admission \<Rightarrow> identity \<Rightarrow> request_headers \<Rightarrow> js_value option \<Rightarrow> int \<Rightarrow> relay_db
   \<Rightarrow> relay_db \<Rightarrow> (relay_db \<Rightarrow> relay_db) \<Rightarrow> relay_db \<times> unit http" where
  "put_encryption_key kl fate admit i req body now read_db db later =
     rate_limit admit NATIVE_CARD (ByIdentity '''') req i db
       (case signed_body parse_encryption_key_record body of
          None \<Rightarrow> (db, Refuse 400 ''invalid record'')
        | Some (r, signature) \<Rightarrow>
            if ek_address r \<noteq> address_for (id_org i) (id_handle i) then (db, Refuse 400 ''address mismatch'')
            else (case stored_identity_row read_db (id_org i) (id_handle i) of
                    None \<Rightarrow> (db, Refuse 409 ''publish an identity key first'')
                  | Some publisher \<Rightarrow>
                      if \<not> kl_import_ok kl (ik_identity_pub publisher)
                      then (db, Refuse 409 ''stored identity key is unusable'')
                      else (case encryption_key_transcript r of
                              Inl _ \<Rightarrow> (db, Uncaught)
                            | Inr t \<Rightarrow>
                                if \<not> kl_verify kl (ik_identity_pub publisher) t signature
                                then (db, Refuse 400 ''signature does not verify'')
                                else (let (db', changes) = run_batch fate (insert_key (new_key_row i r signature now)) db
                                      in (db', (case changes of
                                             None \<Rightarrow> Uncaught
                                           | Some n \<Rightarrow>
                                               if n = 1 then Ok ()
                                               else (case current_epoch_row (later db') (id_org i) (id_handle i) (ek_epoch r) of
                                                   Some existing \<Rightarrow>
                                                     if same_published_key existing r signature then Ok ()
                                                     else Refuse 409 ''epoch must advance''
                                                 | None \<Rightarrow> Refuse 409 ''epoch must advance'')))))))"

subsection \<open>Serving\<close>

text \<open>\<open>ORDER BY epoch DESC LIMIT 1\<close>.\<close>

definition newest_key :: "relay_db \<Rightarrow> string \<Rightarrow> string \<Rightarrow> encryption_key_row option" where
  "newest_key db org handle =
     (case stable_sort (\<lambda>a b. xk_epoch b \<le> xk_epoch a) (filter (key_owned org handle) (rd_encryption_keys db)) of
        [] \<Rightarrow> None | r # _ \<Rightarrow> Some r)"

record served_keys =
  sk_identity :: identity_record
  sk_suite :: string
  sk_record :: encryption_key_record
  sk_signature :: string

definition served_bundle :: "identity_key_row \<Rightarrow> encryption_key_row \<Rightarrow> served_keys" where
  "served_bundle publisher row =
     \<lparr>sk_identity = \<lparr>ir_relay_origin = ik_relay_origin publisher, ir_address = ik_address publisher,
        ir_identity_pub = ik_identity_pub publisher\<rparr>,
      sk_suite = xk_suite row,
      sk_record = \<lparr>ek_relay_origin = xk_relay_origin row, ek_address = xk_address row, ek_key_id = xk_key_id row,
        ek_pub = xk_pub row, ek_epoch = xk_epoch row, ek_not_before = xk_not_before row,
        ek_not_after = xk_not_after row, ek_prev = xk_prev row\<rparr>,
      sk_signature = xk_signature row\<rparr>"

definition get_keys :: "admission \<Rightarrow> identity \<Rightarrow> request_headers \<Rightarrow> string \<Rightarrow> relay_db \<Rightarrow> relay_db \<times> served_keys http" where
  "get_keys admit i req target db =
     rate_limit admit NATIVE_READ ByIp req i db
       (case stored_identity_row db (id_org i) target of
          None \<Rightarrow> (db, Refuse 404 ''not found'')
        | Some publisher \<Rightarrow>
            (case newest_key db (id_org i) target of
               None \<Rightarrow> (db, Refuse 404 ''not found'')
             | Some row \<Rightarrow> (db, Ok (served_bundle publisher row))))"

subsection \<open>Schemas and their predicates\<close>

lemma parse_identity_record_ok: "parse_identity_record v = Some r \<Longrightarrow> identity_record_ok r"
  by (auto simp: parse_identity_record_def identity_record_ok_def split: option.splits dest!: read_strD)

lemma read_nullable_Some: "read_nullable rd v = Some x \<Longrightarrow> opt_all (\<lambda>y. rd v = Some y) x"
  by (auto simp: read_nullable_def split: if_splits)

lemma parse_encryption_key_record_ok:
  assumes "parse_encryption_key_record v = Some r"
  shows "encryption_key_record_ok r"
proof -
  obtain kvs where k: "as_object v = Some kvs" using assms by (auto simp: parse_encryption_key_record_def split: option.splits)
  show ?thesis
    using assms k
    by (auto simp: parse_encryption_key_record_def encryption_key_record_ok_def Let_def
        split: option.splits if_split_asm dest!: read_strD read_intD read_nullable_Some)
qed

lemma signed_body_Some:
  "signed_body parse body = Some (r, s) \<Longrightarrow> parse (prop_of (or_default body JNull) ''record'') = Some r"
  by (auto simp: signed_body_def Let_def split: option.splits js_value.splits)

end
