(* ===== verification/AuditControls.thy ===== *)
theory AuditControls
  imports Tenancy
begin

text \<open>
  The control plane of audit retention: the policy, legal hold and acknowledgement handlers
  of \<open>apps/relay/src/audit.ts\<close> and the readiness report of
  \<open>apps/relay/src/audit-retention.ts\<close>, with the schemas of \<open>packages/shared/src/audit.ts\<close>.
\<close>

subsection \<open>Schemas\<close>

definition DEFAULT_AUDIT_EVENT_RETENTION_DAYS :: int where "DEFAULT_AUDIT_EVENT_RETENTION_DAYS = 400"
definition MIN_AUDIT_EVENT_RETENTION_DAYS :: int where "MIN_AUDIT_EVENT_RETENTION_DAYS = 30"
definition MAX_AUDIT_EVENT_RETENTION_DAYS :: int where "MAX_AUDIT_EVENT_RETENTION_DAYS = 2555"
definition AUDIT_RETENTION_DAY_MS :: int where "AUDIT_RETENTION_DAY_MS = 86400000"

definition audit_control_request_id_re :: "string \<Rightarrow> bool" where
  "audit_control_request_id_re s = (16 \<le> length s \<and> length s \<le> 64 \<and> list_all base64url_char s)"

definition audit_hold_id_re :: "string \<Rightarrow> bool" where
  "audit_hold_id_re s = (take 5 s = ''hold_'' \<and> hex_of_length 32 (drop 5 s))"

definition retention_window :: "int \<Rightarrow> bool" where
  "retention_window n = (MIN_AUDIT_EVENT_RETENTION_DAYS \<le> n \<and> n \<le> MAX_AUDIT_EVENT_RETENTION_DAYS)"

record policy_update =
  pu_event_retention_days :: int
  pu_expected_version :: int
  pu_request_id :: string

definition parse_policy_update :: "js_value \<Rightarrow> policy_update option" where
  "parse_policy_update v = (case as_object v of None \<Rightarrow> None | Some kvs \<Rightarrow>
     if \<not> strict_keys [''event_retention_days'', ''expected_version'', ''request_id''] kvs then None
     else (case (read_int retention_window (obj_get kvs ''event_retention_days''),
                 read_int (\<lambda>n. 0 \<le> n) (obj_get kvs ''expected_version''),
                 read_str audit_control_request_id_re (obj_get kvs ''request_id'')) of
        (Some days, Some version, Some request) \<Rightarrow>
          Some \<lparr>pu_event_retention_days = days, pu_expected_version = version, pu_request_id = request\<rparr>
      | _ \<Rightarrow> None))"

text \<open>\<open>z.string().trim()\<close> trims before it measures. Strings here are Latin-1, so the white space
  of \<open>trim\<close> is that of the regular expressions.\<close>

definition js_trim :: "string \<Rightarrow> string" where
  "js_trim s = rev (dropWhile js_space (rev (dropWhile js_space s)))"

record hold_create =
  hc_reason :: string
  hc_request_id :: string

definition reason_ok :: "string \<Rightarrow> bool" where
  "reason_ok s = (1 \<le> length s \<and> length s \<le> 500)"

definition parse_hold_create :: "js_value \<Rightarrow> hold_create option" where
  "parse_hold_create v = (case as_object v of None \<Rightarrow> None | Some kvs \<Rightarrow>
     if \<not> strict_keys [''reason'', ''request_id''] kvs then None
     else (case (read_str (\<lambda>s. reason_ok (js_trim s)) (obj_get kvs ''reason''),
                 read_str audit_control_request_id_re (obj_get kvs ''request_id'')) of
        (Some reason, Some request) \<Rightarrow> Some \<lparr>hc_reason = js_trim reason, hc_request_id = request\<rparr>
      | _ \<Rightarrow> None))"

definition parse_hold_release :: "js_value \<Rightarrow> string option" where
  "parse_hold_release v = (case as_object v of None \<Rightarrow> None | Some kvs \<Rightarrow>
     if \<not> strict_keys [''request_id''] kvs then None
     else read_str audit_control_request_id_re (obj_get kvs ''request_id''))"

subsection \<open>The retention policy\<close>

text \<open>Version 0 is the default, which no administrator wrote.\<close>

record policy_json =
  pj_event_retention_days :: int
  pj_version :: int
  pj_updated_by :: "string option"
  pj_updated_at :: "int option"

definition retention_policy_from_row :: "policy_row option \<Rightarrow> policy_json" where
  "retention_policy_from_row row = (case row of
     Some r \<Rightarrow> \<lparr>pj_event_retention_days = pl_event_retention_days r, pj_version = pl_version r,
                pj_updated_by = Some (pl_updated_by r), pj_updated_at = Some (pl_updated_at r)\<rparr>
   | None \<Rightarrow> \<lparr>pj_event_retention_days = DEFAULT_AUDIT_EVENT_RETENTION_DAYS, pj_version = 0,
              pj_updated_by = None, pj_updated_at = None\<rparr>)"

definition select_policy :: "relay_db \<Rightarrow> string \<Rightarrow> policy_row option" where
  "select_policy db org = find (\<lambda>r. pl_org r = org) (rd_policies db)"

definition read_policy :: "relay_db \<Rightarrow> string \<Rightarrow> policy_json" where
  "read_policy db org = retention_policy_from_row (select_policy db org)"

definition get_retention_policy :: "admission \<Rightarrow> identity \<Rightarrow> request_headers \<Rightarrow> relay_db \<Rightarrow> relay_db \<times> policy_json http" where
  "get_retention_policy admit i req db =
     rate_limit admit (DurableLimit AUDIT_READ) (ByIdentity ''audit-retention-read:'') req i db
       (require_admin i db (db, Ok (read_policy db (id_org i))))"

definition read_policy_request :: "relay_db \<Rightarrow> string \<Rightarrow> string \<Rightarrow> policy_request_row option" where
  "read_policy_request db org request =
     find (\<lambda>r. policy_request_key r = (org, request)) (rd_policy_requests db)"

definition policy_from_request :: "policy_request_row \<Rightarrow> policy_json" where
  "policy_from_request r =
     \<lparr>pj_event_retention_days = pq_requested_days r, pj_version = pq_resulting_version r,
      pj_updated_by = Some (pq_actor r), pj_updated_at = Some (pq_at r)\<rparr>"

definition policy_request_matches :: "policy_request_row \<Rightarrow> int \<Rightarrow> int \<Rightarrow> bool" where
  "policy_request_matches r days version = (pq_requested_days r = days \<and> pq_expected_version r = version)"

text \<open>
  \<open>INSERT ... SELECT ... WHERE ? = 0 ON CONFLICT(org) DO UPDATE ... WHERE version = ?\<close>: only
  an update that expects version 0 selects a row to insert, and a row of the organization
  is only replaced when it has the expected version.
\<close>

definition upsert_policy :: "string \<Rightarrow> policy_update \<Rightarrow> string \<Rightarrow> int \<Rightarrow> relay_db \<Rightarrow> relay_db" where
  "upsert_policy org u actor now db =
     (if pu_expected_version u \<noteq> 0 then db
      else db\<lparr>rd_policies := sql_upsert pl_org
             (\<lambda>old. if pl_version old = pu_expected_version u
                    then old\<lparr>pl_event_retention_days := pu_event_retention_days u, pl_version := pl_version old + 1,
                             pl_updated_by := actor, pl_updated_at := now, pl_last_request_id := pu_request_id u\<rparr>
                    else old)
             \<lparr>pl_org = org, pl_event_retention_days = pu_event_retention_days u, pl_version = pu_expected_version u + 1,
              pl_updated_by = actor, pl_updated_at = now, pl_last_request_id = pu_request_id u\<rparr>
             (rd_policies db)\<rparr>)"

text \<open>The row of the request, when the policy is the one this request made and the id is new.\<close>

definition insert_policy_request :: "string \<Rightarrow> policy_update \<Rightarrow> string \<Rightarrow> int \<Rightarrow> relay_db \<Rightarrow> relay_db" where
  "insert_policy_request org u actor now db =
     (if sql_exists (\<lambda>r. pl_org r = org \<and> pl_version r = pu_expected_version u + 1 \<and>
             pl_last_request_id r = pu_request_id u) (rd_policies db)
         \<and> \<not> sql_exists (\<lambda>r. policy_request_key r = (org, pu_request_id u)) (rd_policy_requests db)
      then db\<lparr>rd_policy_requests := rd_policy_requests db @
             [\<lparr>pq_org = org, pq_request_id = pu_request_id u, pq_requested_days = pu_event_retention_days u,
               pq_expected_version = pu_expected_version u, pq_resulting_version = pu_expected_version u + 1,
               pq_actor = actor, pq_at = now\<rparr>]\<rparr>
      else db)"

definition event_key_free :: "org_audit \<Rightarrow> relay_db \<Rightarrow> bool" where
  "event_key_free a db = (\<not> sql_exists (\<lambda>r. event_key_of r = oa_event_key a) (rd_events db))"

definition control_audit ::
  "request_headers \<Rightarrow> string \<Rightarrow> audit_event \<Rightarrow> audit_action \<Rightarrow> identity \<Rightarrow> audit_target \<Rightarrow> string \<Rightarrow> string \<Rightarrow> int \<Rightarrow> org_audit" where
  "control_audit req key event action i target target_id description at =
     \<lparr>oa_event_key = Some key, oa_event = event, oa_action = action, oa_org = id_org i,
      oa_actor = id_handle i, oa_actor_type = ActorHandle, oa_target_type = target, oa_target_id = target_id,
      oa_target_role = None, oa_actor_ip = rh_connecting_ip req, oa_actor_country = rh_country req,
      oa_description = description, oa_at = at\<rparr>"

definition policy_batch :: "string \<Rightarrow> policy_update \<Rightarrow> string \<Rightarrow> org_audit \<Rightarrow> int \<Rightarrow> relay_db \<Rightarrow> (relay_db \<times> unit) option" where
  "policy_batch org u actor audit now db =
     (let db2 = insert_policy_request org u actor now (upsert_policy org u actor now db);
          wanted = sql_exists (\<lambda>r. policy_request_key r = (org, pu_request_id u)) (rd_policy_requests db2) \<and>
            event_key_free audit db2
      in map_option (\<lambda>d. (org_audit_trim_statement org d, ()))
           (if wanted then ledger_insert audit db2 else Some db2))"

datatype 'a policy_answer = PolicyIs 'a | PolicyChanged 'a | PolicyRequestConflict

definition put_retention_policy ::
  "batch_fate \<Rightarrow> admission \<Rightarrow> identity \<Rightarrow> request_headers \<Rightarrow> js_value option \<Rightarrow> int \<Rightarrow> relay_db \<Rightarrow> relay_db
   \<Rightarrow> (relay_db \<Rightarrow> relay_db) \<Rightarrow> relay_db \<times> policy_json policy_answer http" where
  "put_retention_policy fate admit i req body now read_db db later =
     rate_limit admit (DurableLimit AUDIT_WRITE) (ByIdentity ''audit-retention-write:'') req i db
       (require_admin i db
         (case json_body parse_policy_update body None of
            None \<Rightarrow> (db, Refuse 400 ''invalid request'')
          | Some u \<Rightarrow>
              (case read_policy_request read_db (id_org i) (pu_request_id u) of
                 Some existing \<Rightarrow>
                   (db, Ok (if \<not> policy_request_matches existing (pu_event_retention_days u) (pu_expected_version u)
                            then PolicyRequestConflict else PolicyIs (policy_from_request existing)))
               | None \<Rightarrow>
                   if pj_version (read_policy read_db (id_org i)) \<noteq> pu_expected_version u
                   then (db, Ok (PolicyChanged (read_policy read_db (id_org i))))
                   else (let audit = control_audit req (''audit-retention:'' @ id_org i @ '':'' @ pu_request_id u)
                               AuditRetentionUpdate ActionU i TargetRetentionPolicy ''event-retention''
                               (id_handle i @ '' set audit event retention to '' @
                                js_number_string (pu_event_retention_days u) @ '' days'') now;
                             (db', changes) = run_batch fate (policy_batch (id_org i) u (id_handle i) audit now) db
                         in (db', (case changes of
                                None \<Rightarrow> Refuse 503 ''audit retention update unavailable''
                              | Some _ \<Rightarrow>
                                  (case read_policy_request (later db') (id_org i) (pu_request_id u) of
                                     None \<Rightarrow> Ok (PolicyChanged (read_policy (later db') (id_org i)))
                                   | Some stored \<Rightarrow>
                                       Ok (if \<not> policy_request_matches stored (pu_event_retention_days u) (pu_expected_version u)
                                           then PolicyRequestConflict else PolicyIs (policy_from_request stored)))))))))"

subsection \<open>Legal holds\<close>

record hold_json =
  hj_hold_id :: string
  hj_reason :: string
  hj_created_by :: string
  hj_created_at :: int
  hj_released_by :: "string option"
  hj_released_at :: "int option"

definition public_audit_hold :: "hold_row option \<Rightarrow> hold_json option" where
  "public_audit_hold row = map_option (\<lambda>r.
     \<lparr>hj_hold_id = hd_hold_id r, hj_reason = hd_reason r, hj_created_by = hd_created_by r,
      hj_created_at = hd_created_at r, hj_released_by = hd_released_by r, hj_released_at = hd_released_at r\<rparr>) row"

definition read_hold_by_create_request :: "relay_db \<Rightarrow> string \<Rightarrow> string \<Rightarrow> hold_row option" where
  "read_hold_by_create_request db org request =
     find (\<lambda>r. hd_org r = org \<and> hd_create_request_id r = request) (rd_holds db)"

definition read_hold_by_release_request :: "relay_db \<Rightarrow> string \<Rightarrow> string \<Rightarrow> hold_row option" where
  "read_hold_by_release_request db org request =
     find (\<lambda>r. hd_org r = org \<and> hd_release_request_id r = Some request) (rd_holds db)"

definition read_hold :: "relay_db \<Rightarrow> string \<Rightarrow> string \<Rightarrow> hold_row option" where
  "read_hold db org hold_id = find (\<lambda>r. hold_key r = (org, hold_id)) (rd_holds db)"

definition active_hold_of :: "string \<Rightarrow> hold_row \<Rightarrow> bool" where
  "active_hold_of org r = (hd_org r = org \<and> hd_released_at r = None)"

definition read_active_hold :: "relay_db \<Rightarrow> string \<Rightarrow> hold_row option" where
  "read_active_hold db org = find (active_hold_of org) (rd_holds db)"

definition get_active_hold :: "admission \<Rightarrow> identity \<Rightarrow> request_headers \<Rightarrow> relay_db \<Rightarrow> relay_db \<times> hold_json option http" where
  "get_active_hold admit i req db =
     rate_limit admit (DurableLimit AUDIT_READ) (ByIdentity ''audit-hold-read:'') req i db
       (require_admin i db (db, Ok (public_audit_hold (read_active_hold db (id_org i)))))"

definition get_hold :: "admission \<Rightarrow> identity \<Rightarrow> request_headers \<Rightarrow> string \<Rightarrow> relay_db \<Rightarrow> relay_db \<times> hold_json option http" where
  "get_hold admit i req hold_id db =
     rate_limit admit (DurableLimit AUDIT_READ) (ByIdentity ''audit-hold-read:'') req i db
       (require_admin i db
         (if \<not> audit_hold_id_re hold_id then (db, Refuse 404 ''audit legal hold not found'')
          else case read_hold db (id_org i) hold_id of
              None \<Rightarrow> (db, Refuse 404 ''audit legal hold not found'')
            | Some r \<Rightarrow> (db, Ok (public_audit_hold (Some r)))))"

definition generate_hold_id :: "string \<Rightarrow> string" where
  "generate_hold_id uuid = ''hold_'' @ filter (\<lambda>c. c \<noteq> CHR ''-'') uuid"

text \<open>The primary key, the unique create request and the partial index on active holds.\<close>

definition hold_conflict :: "hold_row \<Rightarrow> hold_row \<Rightarrow> bool" where
  "hold_conflict a b =
     (hd_org a = hd_org b \<and>
      (hd_hold_id a = hd_hold_id b \<or> hd_create_request_id a = hd_create_request_id b \<or>
       (hd_released_at a = None \<and> hd_released_at b = None) \<or>
       (hd_release_request_id a \<noteq> None \<and> hd_release_request_id a = hd_release_request_id b)))"

definition insert_hold :: "hold_row \<Rightarrow> relay_db \<Rightarrow> relay_db option" where
  "insert_hold row db =
     (if sql_exists (hold_conflict row) (rd_holds db) then None
      else Some (db\<lparr>rd_holds := rd_holds db @ [row]\<rparr>))"

definition hold_create_batch :: "hold_row \<Rightarrow> org_audit \<Rightarrow> relay_db \<Rightarrow> (relay_db \<times> unit) option" where
  "hold_create_batch row audit db = (case insert_hold row db of
     None \<Rightarrow> None
   | Some db1 \<Rightarrow>
       map_option (\<lambda>d. (org_audit_trim_statement (hd_org row) d, ()))
         (if event_key_free audit db1 then ledger_insert audit db1 else Some db1))"

datatype hold_answer = HoldCreated "hold_json option" | HoldIs "hold_json option"

definition create_hold ::
  "batch_fate \<Rightarrow> admission \<Rightarrow> identity \<Rightarrow> request_headers \<Rightarrow> js_value option \<Rightarrow> string \<Rightarrow> int \<Rightarrow> relay_db \<Rightarrow> relay_db
   \<Rightarrow> (relay_db \<Rightarrow> relay_db) \<Rightarrow> relay_db \<times> hold_answer http" where
  "create_hold fate admit i req body uuid now read_db db later =
     rate_limit admit (DurableLimit AUDIT_WRITE) (ByIdentity ''audit-hold-write:'') req i db
       (require_admin i db
         (case json_body parse_hold_create body None of
            None \<Rightarrow> (db, Refuse 400 ''invalid request'')
          | Some h \<Rightarrow>
              (case read_hold_by_create_request read_db (id_org i) (hc_request_id h) of
                 Some existing \<Rightarrow>
                   (db, if hd_reason existing \<noteq> hc_reason h then Refuse 409 ''request id conflicts with an earlier hold''
                        else Ok (HoldIs (public_audit_hold (Some existing))))
               | None \<Rightarrow>
                   if read_active_hold read_db (id_org i) \<noteq> None
                   then (db, Refuse 409 ''an audit legal hold is already active'')
                   else (let hold_id = generate_hold_id uuid;
                             row = \<lparr>hd_org = id_org i, hd_hold_id = hold_id, hd_reason = hc_reason h,
                                    hd_created_by = id_handle i, hd_created_at = now, hd_create_request_id = hc_request_id h,
                                    hd_released_by = None, hd_released_at = None, hd_release_request_id = None\<rparr>;
                             audit = control_audit req (''audit-hold-create:'' @ id_org i @ '':'' @ hc_request_id h)
                               AuditHoldCreate ActionC i TargetLegalHold hold_id
                               (id_handle i @ '' created audit legal hold '' @ hold_id) now;
                             (db', changes) = run_batch fate (hold_create_batch row audit) db
                         in (db', (case changes of
                                Some _ \<Rightarrow> Ok (HoldCreated (public_audit_hold (read_hold (later db') (id_org i) hold_id)))
                              | None \<Rightarrow>
                                  (case read_hold_by_create_request (later db') (id_org i) (hc_request_id h) of
                                     Some raced \<Rightarrow>
                                       if hd_reason raced = hc_reason h then Ok (HoldIs (public_audit_hold (Some raced)))
                                       else if read_active_hold (later db') (id_org i) \<noteq> None
                                       then Refuse 409 ''an audit legal hold is already active''
                                       else Refuse 503 ''audit legal hold unavailable''
                                   | None \<Rightarrow>
                                       if read_active_hold (later db') (id_org i) \<noteq> None
                                       then Refuse 409 ''an audit legal hold is already active''
                                       else Refuse 503 ''audit legal hold unavailable'')))))))"

definition releasable :: "string \<Rightarrow> string \<Rightarrow> hold_row \<Rightarrow> bool" where
  "releasable org hold_id r = (hold_key r = (org, hold_id) \<and> hd_released_at r = None)"

definition hold_release_batch ::
  "string \<Rightarrow> string \<Rightarrow> string \<Rightarrow> string \<Rightarrow> org_audit \<Rightarrow> int \<Rightarrow> relay_db \<Rightarrow> (relay_db \<times> unit) option" where
  "hold_release_batch org hold_id request actor audit now db =
     (let n = sql_count (releasable org hold_id) (rd_holds db)
      in if 0 < n \<and> sql_exists (\<lambda>r. hd_org r = org \<and> hd_release_request_id r = Some request) (rd_holds db)
         then None
         else map_option (\<lambda>d. (org_audit_trim_statement org d, ()))
                (org_audit_statement audit True n
                  (db\<lparr>rd_holds := sql_update (releasable org hold_id)
                     (\<lambda>r. r\<lparr>hd_released_by := Some actor, hd_released_at := Some now, hd_release_request_id := Some request\<rparr>)
                     (rd_holds db)\<rparr>)))"

definition release_hold ::
  "batch_fate \<Rightarrow> admission \<Rightarrow> identity \<Rightarrow> request_headers \<Rightarrow> js_value option \<Rightarrow> string \<Rightarrow> int \<Rightarrow> relay_db \<Rightarrow> relay_db
   \<Rightarrow> (relay_db \<Rightarrow> relay_db) \<Rightarrow> relay_db \<times> hold_json option http" where
  "release_hold fate admit i req body hold_id now read_db db later =
     rate_limit admit (DurableLimit AUDIT_WRITE) (ByIdentity ''audit-hold-write:'') req i db
       (require_admin i db
         (case json_body parse_hold_release body None of
            None \<Rightarrow> (db, Refuse 400 ''invalid request'')
          | Some request \<Rightarrow>
              if \<not> audit_hold_id_re hold_id then (db, Refuse 404 ''audit legal hold not found'')
              else (case read_hold_by_release_request read_db (id_org i) request of
                      Some replay \<Rightarrow>
                        (db, if hd_hold_id replay \<noteq> hold_id
                             then Refuse 409 ''request id conflicts with an earlier hold release''
                             else Ok (public_audit_hold (Some replay)))
                    | None \<Rightarrow>
                        (case read_hold read_db (id_org i) hold_id of
                           None \<Rightarrow> (db, Refuse 404 ''audit legal hold not found'')
                         | Some existing \<Rightarrow>
                             if hd_released_at existing \<noteq> None
                             then (db, if hd_release_request_id existing \<noteq> Some request
                                       then Refuse 409 ''audit legal hold was already released''
                                       else Ok (public_audit_hold (Some existing)))
                             else (let audit = control_audit req (''audit-hold-release:'' @ id_org i @ '':'' @ request)
                                         AuditHoldRelease ActionU i TargetLegalHold hold_id
                                         (id_handle i @ '' released audit legal hold '' @ hold_id) now;
                                       (db', changes) = run_batch fate
                                         (hold_release_batch (id_org i) hold_id request (id_handle i) audit now) db
                                   in (db', (case changes of
                                          None \<Rightarrow>
                                            (case read_hold_by_release_request (later db') (id_org i) request of
                                               Some raced \<Rightarrow>
                                                 if hd_hold_id raced \<noteq> hold_id
                                                 then Refuse 409 ''request id conflicts with an earlier hold release''
                                                 else Ok (public_audit_hold (Some raced))
                                             | None \<Rightarrow> Refuse 503 ''audit legal hold release unavailable'')
                                        | Some _ \<Rightarrow>
                                            (case read_hold (later db') (id_org i) hold_id of
                                               Some released \<Rightarrow>
                                                 if hd_release_request_id released \<noteq> Some request
                                                 then Refuse 409 ''audit legal hold was already released''
                                                 else Ok (public_audit_hold (Some released))
                                             | None \<Rightarrow> Refuse 409 ''audit legal hold was already released''))))))))"

end
