(* ===== verification/TaskStore.thy ===== *)
theory TaskStore
  imports SignedToken CallLifecycle
begin

text \<open>
  \<open>apps/relay/src/task-store.ts\<close>: the persisted task, its A2A projection, and the listing a
  caller pages through. A page token is a signed token whose payload repeats the caller, the
  scope and the query, so it is only good for the listing it came from.
\<close>

subsection \<open>The persisted task\<close>

datatype a2a_state =
  TsSubmitted | TsWorking | TsCompleted | TsFailed | TsCanceled | TsInputRequired | TsRejected | TsAuthRequired

fun a2a_state_code :: "a2a_state \<Rightarrow> string" where
  "a2a_state_code TsSubmitted = ''TASK_STATE_SUBMITTED''"
| "a2a_state_code TsWorking = ''TASK_STATE_WORKING''"
| "a2a_state_code TsCompleted = ''TASK_STATE_COMPLETED''"
| "a2a_state_code TsFailed = ''TASK_STATE_FAILED''"
| "a2a_state_code TsCanceled = ''TASK_STATE_CANCELED''"
| "a2a_state_code TsInputRequired = ''TASK_STATE_INPUT_REQUIRED''"
| "a2a_state_code TsRejected = ''TASK_STATE_REJECTED''"
| "a2a_state_code TsAuthRequired = ''TASK_STATE_AUTH_REQUIRED''"

definition all_a2a_states :: "a2a_state list" where
  "all_a2a_states =
     [TsSubmitted, TsWorking, TsCompleted, TsFailed, TsCanceled, TsInputRequired, TsRejected, TsAuthRequired]"

definition parse_a2a_state :: "string \<Rightarrow> a2a_state option" where
  "parse_a2a_state s = find (\<lambda>c. a2a_state_code c = s) all_a2a_states"

lemma parse_a2a_state_code [simp]: "parse_a2a_state (a2a_state_code c) = Some c"
  by (cases c) (simp_all add: parse_a2a_state_def all_a2a_states_def)

datatype delivery_state = Queued | Leased | Started | Terminal

record lease =
  ls_lease_id :: string
  ls_listener_session_id :: string
  ls_expires_at :: int
  ls_attempt :: int

text \<open>
  \<open>PersistedTask\<close>. Only the truth of \<open>quota_released\<close> is ever read, so the absent flag is
  \<open>False\<close>.
\<close>

record task =
  tk_call_id :: string
  tk_correlation_id :: string
  tk_from :: string
  tk_org :: string
  tk_to :: string
  tk_deadline :: int
  tk_state :: call_state
  tk_task_state :: a2a_state
  tk_created_at :: int
  tk_updated_at :: int
  tk_principal :: "principal option"
  tk_outcome_envelope :: "envelope option"
  tk_message_id :: "string option"
  tk_from_agent_id :: "string option"
  tk_from_credential_generation :: "int option"
  tk_target_agent_id :: "string option"
  tk_request_envelope :: "envelope option"
  tk_request_envelope_sha256 :: "string option"
  tk_delivery_state :: "delivery_state option"
  tk_traceparent :: "string option"
  tk_lease :: "lease option"
  tk_execute_by :: "int option"
  tk_execution_deadline :: "int option"
  tk_purge_at :: "int option"
  tk_terminal_reason :: "terminal_reason option"
  tk_ciphertext_bytes :: "int option"
  tk_quota_released :: bool

definition task_belongs_to_caller :: "task \<Rightarrow> string \<Rightarrow> bool" where
  "task_belongs_to_caller t caller = (tk_from t = caller)"

definition terminal_task_states :: "a2a_state list" where
  "terminal_task_states = [TsCompleted, TsFailed, TsCanceled, TsRejected]"

definition task_is_terminal :: "task \<Rightarrow> bool" where
  "task_is_terminal t = (tk_task_state t \<in> set terminal_task_states)"

text \<open>\<open>updateTask\<close>: the two fields a caller may replace, absent meaning unchanged.\<close>

definition update_task :: "task \<Rightarrow> a2a_state option \<Rightarrow> envelope option \<Rightarrow> int \<Rightarrow> task" where
  "update_task t state outc now =
     t\<lparr>tk_task_state := or_default state (tk_task_state t),
       tk_outcome_envelope := (case outc of None \<Rightarrow> tk_outcome_envelope t | Some e \<Rightarrow> Some e),
       tk_updated_at := now\<rparr>"

subsection \<open>The A2A projection\<close>

text \<open>
  The timestamp is kept in milliseconds (the code renders it with \<open>toISOString\<close>), an
  artifact as its id and the envelope whose JSON the code wraps in base64. Call ids are
  never empty, so the response schema accepts every projection.
\<close>

record a2a_task =
  at_id :: string
  at_state :: a2a_state
  at_timestamp :: int
  at_terminal_reason :: "terminal_reason option"
  at_artifacts :: "(string \<times> envelope) list option"

definition to_a2a_task :: "task \<Rightarrow> bool \<Rightarrow> a2a_task" where
  "to_a2a_task t include_artifacts =
     \<lparr>at_id = tk_call_id t, at_state = tk_task_state t, at_timestamp = tk_updated_at t,
      at_terminal_reason = tk_terminal_reason t,
      at_artifacts =
        (if include_artifacts
         then map_option (\<lambda>e. [(tk_call_id t @ '':result'', e)]) (tk_outcome_envelope t)
         else None)\<rparr>"

subsection \<open>The listing query\<close>

record task_query =
  tq_status :: "a2a_state option"
  tq_page_size :: nat
  tq_page_token :: "string option"
  tq_history_length :: "int option"
  tq_status_timestamp_after :: "int option"
  tq_include_artifacts :: bool

definition MAX_PAGE_TOKEN_LENGTH :: nat where "MAX_PAGE_TOKEN_LENGTH = 1024"

definition json_null_or :: "('a \<Rightarrow> string) \<Rightarrow> 'a option \<Rightarrow> string" where
  "json_null_or f x = (case x of None \<Rightarrow> ''null'' | Some v \<Rightarrow> f v)"

definition json_bool :: "bool \<Rightarrow> string" where
  "json_bool b = (if b then ''true'' else ''false'')"

text \<open>\<open>JSON.stringify\<close> of the query without its page token.\<close>

definition query_fingerprint :: "task_query \<Rightarrow> string" where
  "query_fingerprint q =
     ''{'' @ json_field ''status'' (json_null_or (\<lambda>s. json_text (a2a_state_code s)) (tq_status q)) @ '',''
     @ json_field ''pageSize'' (js_number_string (int (tq_page_size q))) @ '',''
     @ json_field ''historyLength'' (json_null_or js_number_string (tq_history_length q)) @ '',''
     @ json_field ''statusTimestampAfter'' (json_null_or js_number_string (tq_status_timestamp_after q)) @ '',''
     @ json_field ''includeArtifacts'' (json_bool (tq_include_artifacts q)) @ ''}''"

subsection \<open>Cursors\<close>

record cursor =
  cu_created_at :: int
  cu_id :: string

text \<open>The platform behind a signed token, bundled: HMAC and the JSON codec of the payload.\<close>

record token_platform =
  tp_hmac :: "string \<Rightarrow> byte list \<Rightarrow> byte list"
  tp_json :: "js_value \<Rightarrow> byte list"
  tp_parse :: "byte list \<Rightarrow> js_value option"

definition cursor_payload :: "task \<Rightarrow> string \<Rightarrow> task_query \<Rightarrow> string \<Rightarrow> js_value" where
  "cursor_payload t caller q scope =
     JArr [JNum (tk_created_at t), JStr (tk_call_id t), JStr caller, JStr scope, JStr (query_fingerprint q)]"

definition encode_cursor :: "token_platform \<Rightarrow> task \<Rightarrow> string \<Rightarrow> task_query \<Rightarrow> string \<Rightarrow> string \<Rightarrow> string" where
  "encode_cursor tp t caller q key scope =
     encode_signed_token (tp_hmac tp) (tp_json tp) (cursor_payload t caller q scope) key"

datatype cursor_result = NoCursor | BadCursor | Cursor cursor

definition check_cursor :: "js_value \<Rightarrow> string \<Rightarrow> task_query \<Rightarrow> string \<Rightarrow> cursor_result" where
  "check_cursor parsed caller q scope = (case parsed of
     JArr [JNum created, JStr i, JStr c, JStr s, JStr f] \<Rightarrow>
       if length i < 1 \<or> length i > 128 \<or> c \<noteq> caller \<or> s \<noteq> scope \<or> f \<noteq> query_fingerprint q
       then BadCursor
       else Cursor \<lparr>cu_created_at = created, cu_id = i\<rparr>
   | _ \<Rightarrow> BadCursor)"

definition decode_cursor ::
  "token_platform \<Rightarrow> string option \<Rightarrow> string \<Rightarrow> task_query \<Rightarrow> string \<Rightarrow> string \<Rightarrow> cursor_result" where
  "decode_cursor tp value caller q key scope =
     (if \<not> truthy_str value then NoCursor
      else case decode_signed_token (tp_hmac tp) (tp_parse tp) (the value) key MAX_PAGE_TOKEN_LENGTH of
             None \<Rightarrow> BadCursor
           | Some parsed \<Rightarrow> check_cursor parsed caller q scope)"

definition after_cursor :: "task \<Rightarrow> cursor \<Rightarrow> bool" where
  "after_cursor t c =
     (tk_created_at t < cu_created_at c \<or> (tk_created_at t = cu_created_at c \<and> tk_call_id t > cu_id c))"

subsection \<open>The listing\<close>

text \<open>
  The comparison function of the sort: newest first, then \<open>localeCompare\<close> on the call ids,
  which is the platform's collation and the parameter \<open>collate\<close> (\<open>collate x y\<close> when \<open>x\<close>
  sorts at or before \<open>y\<close>). The sort is stable.
\<close>

definition task_at_or_before :: "(string \<Rightarrow> string \<Rightarrow> bool) \<Rightarrow> task \<Rightarrow> task \<Rightarrow> bool" where
  "task_at_or_before collate a b =
     (tk_created_at b < tk_created_at a \<or>
      (tk_created_at a = tk_created_at b \<and> collate (tk_call_id a) (tk_call_id b)))"

fun insert_task :: "(string \<Rightarrow> string \<Rightarrow> bool) \<Rightarrow> task \<Rightarrow> task list \<Rightarrow> task list" where
  "insert_task collate t [] = [t]"
| "insert_task collate t (u # us) =
     (if task_at_or_before collate t u then t # u # us else u # insert_task collate t us)"

definition sort_tasks :: "(string \<Rightarrow> string \<Rightarrow> bool) \<Rightarrow> task list \<Rightarrow> task list" where
  "sort_tasks collate ts = foldr (insert_task collate) ts []"

definition visible_tasks :: "(string \<Rightarrow> string \<Rightarrow> bool) \<Rightarrow> task list \<Rightarrow> string \<Rightarrow> task_query \<Rightarrow> task list" where
  "visible_tasks collate all_tasks caller q =
     sort_tasks collate
       (filter (\<lambda>t. case tq_status_timestamp_after q of None \<Rightarrow> True | Some ts \<Rightarrow> tk_updated_at t \<ge> ts)
         (filter (\<lambda>t. case tq_status q of None \<Rightarrow> True | Some s \<Rightarrow> tk_task_state t = s)
           (filter (\<lambda>t. task_belongs_to_caller t caller) all_tasks)))"

record task_page =
  pg_tasks :: "a2a_task list"
  pg_next_page_token :: string
  pg_page_size :: nat
  pg_total_size :: nat

definition page_from ::
  "token_platform \<Rightarrow> task list \<Rightarrow> task list \<Rightarrow> string \<Rightarrow> task_query \<Rightarrow> string \<Rightarrow> string \<Rightarrow> task_page" where
  "page_from tp visible remaining caller q key scope =
     (let selected = take (tq_page_size q) remaining
      in \<lparr>pg_tasks = map (\<lambda>t. to_a2a_task t (tq_include_artifacts q)) selected,
          pg_next_page_token =
            (if length remaining > length selected \<and> length selected > 0
             then encode_cursor tp (last selected) caller q key scope else []),
          pg_page_size = tq_page_size q, pg_total_size = length visible\<rparr>)"

definition list_caller_tasks ::
  "token_platform \<Rightarrow> (string \<Rightarrow> string \<Rightarrow> bool) \<Rightarrow> task list \<Rightarrow> string \<Rightarrow> task_query \<Rightarrow> string \<Rightarrow> string
   \<Rightarrow> task_page option" where
  "list_caller_tasks tp collate all_tasks caller q key scope =
     (let visible = visible_tasks collate all_tasks caller q
      in case decode_cursor tp (tq_page_token q) caller q key scope of
           BadCursor \<Rightarrow> None
         | NoCursor \<Rightarrow> Some (page_from tp visible visible caller q key scope)
         | Cursor c \<Rightarrow> Some (page_from tp visible (filter (\<lambda>t. after_cursor t c) visible) caller q key scope))"

subsection \<open>Order of the listing\<close>

definition task_key :: "task \<Rightarrow> int \<times> string" where
  "task_key t = (- tk_created_at t, tk_call_id t)"

definition collates :: "(string \<Rightarrow> string \<Rightarrow> bool) \<Rightarrow> task list \<Rightarrow> bool" where
  "collates collate ts =
     list_all (\<lambda>t. list_all (\<lambda>u. collate (tk_call_id t) (tk_call_id u) = (tk_call_id t \<le> tk_call_id u)) ts) ts"

lemma collates_at_or_before:
  "collates collate ts \<Longrightarrow> t \<in> set ts \<Longrightarrow> u \<in> set ts \<Longrightarrow>
   task_at_or_before collate t u = (task_key t \<le> task_key u)"
  by (auto simp: collates_def list_all_iff task_at_or_before_def task_key_def less_eq_prod_def)

lemma insert_task_insort:
  "(\<And>u. u \<in> set us \<Longrightarrow> task_at_or_before collate t u = (task_key t \<le> task_key u)) \<Longrightarrow>
   insert_task collate t us = insort_key task_key t us"
  by (induction us) auto

lemma sort_tasks_sort_key:
  assumes "collates collate ts"
  shows "sort_tasks collate ts = sort_key task_key ts"
proof -
  have "set us \<subseteq> set ts \<Longrightarrow> foldr (insert_task collate) us [] = sort_key task_key us" for us
  proof (induction us)
    case (Cons u us)
    then show ?case using collates_at_or_before[OF assms] by (auto intro!: insert_task_insort)
  qed simp
  then show ?thesis by (simp add: sort_tasks_def)
qed

lemma after_cursor_key:
  "after_cursor t \<lparr>cu_created_at = tk_created_at u, cu_id = tk_call_id u\<rparr> = (task_key u < task_key t)"
  by (auto simp: after_cursor_def task_key_def less_prod_def)

definition listed :: "task list \<Rightarrow> string \<Rightarrow> task_query \<Rightarrow> task list" where
  "listed all_tasks caller q =
     filter (\<lambda>t. tk_from t = caller \<and>
       (case tq_status q of None \<Rightarrow> True | Some s \<Rightarrow> tk_task_state t = s) \<and>
       (case tq_status_timestamp_after q of None \<Rightarrow> True | Some ts \<Rightarrow> tk_updated_at t \<ge> ts)) all_tasks"

lemma visible_tasks_listed:
  "visible_tasks collate all_tasks caller q = sort_tasks collate (listed all_tasks caller q)"
  by (auto simp: visible_tasks_def listed_def task_belongs_to_caller_def filter_filter
      intro!: arg_cong[where f = "sort_tasks collate"] filter_cong split: option.splits)

lemma collates_filter: "collates collate ts \<Longrightarrow> collates collate (filter P ts)"
  by (auto simp: collates_def list_all_iff)

lemma visible_tasks_sorted:
  assumes "collates collate all_tasks" "distinct (map tk_call_id all_tasks)"
  shows "set (visible_tasks collate all_tasks caller q) = set (listed all_tasks caller q)"
    "sorted_wrt (\<lambda>a b. task_key a < task_key b) (visible_tasks collate all_tasks caller q)"
    "length (visible_tasks collate all_tasks caller q) \<le> length all_tasks"
proof -
  let ?l = "listed all_tasks caller q"
  have v: "visible_tasks collate all_tasks caller q = sort_key task_key ?l"
    unfolding visible_tasks_listed
    by (rule sort_tasks_sort_key) (simp add: listed_def collates_filter assms(1))
  show "set (visible_tasks collate all_tasks caller q) = set ?l" by (simp add: v)
  show "length (visible_tasks collate all_tasks caller q) \<le> length all_tasks"
    by (simp add: v listed_def)
  have "distinct (map tk_call_id (listed all_tasks caller q))"
    unfolding listed_def using assms(2) by (rule distinct_map_filter)
  then have "inj_on tk_call_id (set ?l)" "distinct ?l" by (auto simp: distinct_map)
  then have "inj_on task_key (set ?l)" by (auto simp: task_key_def inj_on_def)
  then have "distinct (map task_key (sort_key task_key ?l))"
    using \<open>distinct ?l\<close> by (simp add: distinct_map)
  then have "sorted_wrt (<) (map task_key (sort_key task_key ?l))"
    by (simp add: strict_sorted_iff)
  then show "sorted_wrt (\<lambda>a b. task_key a < task_key b) (visible_tasks collate all_tasks caller q)"
    by (simp add: v sorted_wrt_map)
qed

lemma filter_after_sorted:
  assumes "sorted_wrt (\<lambda>a b. task_key a < task_key b) (xs @ t # ys)"
  shows "filter (\<lambda>u. task_key t < task_key u) (xs @ t # ys) = ys"
proof -
  have "filter (\<lambda>u. task_key t < task_key u) xs = []"
    using assms by (auto simp: sorted_wrt_append filter_empty_conv dest: less_asym)
  moreover have "filter (\<lambda>u. task_key t < task_key u) ys = ys"
    using assms by (auto simp: sorted_wrt_append filter_id_conv)
  ultimately show ?thesis by simp
qed

subsection \<open>The query fingerprint\<close>

lemma comma_free:
  "CHR '','' \<notin> set (js_number_string n)"
  "CHR '','' \<notin> set (json_null_or js_number_string x)"
  "CHR '','' \<notin> set (json_null_or (\<lambda>s. json_text (a2a_state_code s)) st)"
proof -
  show n: "CHR '','' \<notin> set (js_number_string n)" for n
    using dec_string_no_comma by (simp add: js_number_string_def)
  show "CHR '','' \<notin> set (json_null_or js_number_string x)"
    using n by (cases x) (simp_all add: json_null_or_def)
  show "CHR '','' \<notin> set (json_null_or (\<lambda>s. json_text (a2a_state_code s)) st)"
    by (cases st; (cases "the st")?) (simp_all add: json_null_or_def json_text_def)
qed

lemma js_number_string_inj: "js_number_string a = js_number_string b \<Longrightarrow> a = b"
proof -
  have d: "hd (dec_string n) \<noteq> CHR ''-'' \<and> dec_string n \<noteq> []" for n
  proof (induction n rule: dec_string.induct)
    case (1 n)
    have "digit_char n \<noteq> CHR ''-''" if "n < 10"
    proof
      assume "digit_char n = CHR ''-''"
      then have "(of_char (digit_char n) :: nat) = of_char (CHR ''-'')" by (rule arg_cong)
      then show False using that by (simp add: digit_char_def)
    qed
    then show ?case using 1 by (subst (1 2) dec_string.simps) auto
  qed
  assume eq: "js_number_string a = js_number_string b"
  show "a = b"
  proof (cases "a < 0"; cases "b < 0")
    assume "a < 0" "b < 0"
    then have "dec_string (nat (- a)) = dec_string (nat (- b))" using eq by (simp add: js_number_string_def)
    then have "nat (- a) = nat (- b)" by (rule dec_string_inj)
    then show ?thesis using \<open>a < 0\<close> \<open>b < 0\<close> by simp
  next
    assume "\<not> a < 0" "\<not> b < 0"
    then have "dec_string (nat a) = dec_string (nat b)" using eq by (simp add: js_number_string_def)
    then have "nat a = nat b" by (rule dec_string_inj)
    then show ?thesis using \<open>\<not> a < 0\<close> \<open>\<not> b < 0\<close> by simp
  next
    assume "a < 0" "\<not> b < 0"
    then have "CHR ''-'' # dec_string (nat (- a)) = dec_string (nat b)" using eq by (simp add: js_number_string_def)
    then show ?thesis using d[of "nat b"] by (metis list.sel(1))
  next
    assume "\<not> a < 0" "b < 0"
    then have "dec_string (nat a) = CHR ''-'' # dec_string (nat (- b))" using eq by (simp add: js_number_string_def)
    then show ?thesis using d[of "nat a"] by (metis list.sel(1))
  qed
qed

lemma js_number_string_not_null: "js_number_string n \<noteq> ''null''"
proof
  assume eq: "js_number_string n = ''null''"
  have "list_all (\<lambda>c. c \<noteq> CHR ''u'') (dec_string m)" for m
  proof (induction m rule: dec_string.induct)
    case (1 m)
    have "digit_char k \<noteq> CHR ''u''" if "k < 10" for k
    proof
      assume "digit_char k = CHR ''u''"
      then have "(of_char (digit_char k) :: nat) = of_char (CHR ''u'')" by (rule arg_cong)
      then show False using that by (simp add: digit_char_def)
    qed
    then show ?case using 1 by (subst dec_string.simps) auto
  qed
  then have "CHR ''u'' \<notin> set (js_number_string n)"
    by (auto simp: js_number_string_def list_all_iff)
  then show False using eq by simp
qed

lemma json_null_or_number_inj:
  "json_null_or js_number_string x = json_null_or js_number_string y \<Longrightarrow> x = y"
  by (cases x; cases y)
     (auto simp: json_null_or_def dest: js_number_string_inj js_number_string_not_null[THEN notE]
       js_number_string_not_null[symmetric, THEN notE])

lemma a2a_state_code_inj: "a2a_state_code a = a2a_state_code b \<Longrightarrow> a = b"
  by (metis parse_a2a_state_code option.inject)

lemma json_null_or_state_inj:
  "json_null_or (\<lambda>s. json_text (a2a_state_code s)) x = json_null_or (\<lambda>s. json_text (a2a_state_code s)) y \<Longrightarrow> x = y"
  by (cases x; cases y) (auto simp: json_null_or_def json_text_def dest: a2a_state_code_inj)

lemma json_field_comma_split:
  assumes "json_field k x @ '','' @ u = json_field k y @ '','' @ v" "CHR '','' \<notin> set x" "CHR '','' \<notin> set y"
  shows "x = y \<and> u = v"
proof -
  have "x @ '','' @ u = y @ '','' @ v"
    using assms(1) unfolding json_field_def append_assoc same_append_eq .
  then show ?thesis using split_at_mark[of x "CHR '',''" u y v] assms(2,3) by simp
qed

text \<open>The fingerprint determines everything about the query but its page token.\<close>

lemma query_fingerprint_inj:
  assumes "query_fingerprint q = query_fingerprint r"
  shows "q\<lparr>tq_page_token := None\<rparr> = r\<lparr>tq_page_token := None\<rparr>"
proof -
  note e0 = assms[unfolded query_fingerprint_def same_append_eq]
  note 1 = json_field_comma_split[OF e0 comma_free(3) comma_free(3)]
  note 2 = json_field_comma_split[OF conjunct2[OF 1] comma_free(1) comma_free(1)]
  note 3 = json_field_comma_split[OF conjunct2[OF 2] comma_free(2) comma_free(2)]
  note 4 = json_field_comma_split[OF conjunct2[OF 3] comma_free(2) comma_free(2)]
  have 5: "json_bool (tq_include_artifacts q) @ ''}'' = json_bool (tq_include_artifacts r) @ ''}''"
    using conjunct2[OF 4] unfolding json_field_def append_assoc same_append_eq .
  have "tq_include_artifacts q = tq_include_artifacts r"
    using 5 by (auto simp: json_bool_def split: if_splits)
  moreover have "tq_status q = tq_status r" using 1 json_null_or_state_inj by blast
  moreover have "tq_page_size q = tq_page_size r" using 2 js_number_string_inj by fastforce
  moreover have "tq_history_length q = tq_history_length r"
    "tq_status_timestamp_after q = tq_status_timestamp_after r"
    using 3 4 json_null_or_number_inj by blast+
  ultimately show ?thesis by simp
qed

subsection \<open>Walking the pages\<close>

text \<open>A client that follows every page token, with a bound on the number of requests.\<close>

fun walk_pages ::
  "nat \<Rightarrow> token_platform \<Rightarrow> (string \<Rightarrow> string \<Rightarrow> bool) \<Rightarrow> task list \<Rightarrow> string \<Rightarrow> task_query \<Rightarrow> string \<Rightarrow> string
   \<Rightarrow> a2a_task list list option" where
  "walk_pages 0 tp collate ts caller q key scope = None"
| "walk_pages (Suc n) tp collate ts caller q key scope =
     (case list_caller_tasks tp collate ts caller q key scope of
        None \<Rightarrow> None
      | Some page \<Rightarrow>
          if pg_next_page_token page = [] then Some [pg_tasks page]
          else map_option ((#) (pg_tasks page))
            (walk_pages n tp collate ts caller (q\<lparr>tq_page_token := Some (pg_next_page_token page)\<rparr>) key scope))"

text \<open>
  What paging needs of the platform: the JSON codec returns what it was given, neither JSON
  nor an HMAC is ever empty, and the tokens of the stored tasks fit the length limit.
\<close>

definition token_platform_ok :: "token_platform \<Rightarrow> task list \<Rightarrow> string \<Rightarrow> task_query \<Rightarrow> string \<Rightarrow> string \<Rightarrow> bool" where
  "token_platform_ok tp ts caller q key scope =
     list_all (\<lambda>t. let p = cursor_payload t caller q scope in
        tp_parse tp (tp_json tp p) = Some p \<and> tp_json tp p \<noteq> [] \<and> tp_hmac tp key (tp_json tp p) \<noteq> [] \<and>
        length (encode_cursor tp t caller q key scope) \<le> MAX_PAGE_TOKEN_LENGTH \<and>
        1 \<le> length (tk_call_id t) \<and> length (tk_call_id t) \<le> 128) ts"

lemma encode_cursor_nonempty [simp]: "encode_cursor tp t caller q key scope \<noteq> []"
  by (simp add: encode_cursor_def encode_signed_token_def Let_def)

lemma decode_encode_cursor:
  assumes "token_platform_ok tp ts caller q key scope" "t \<in> set ts"
  shows "decode_cursor tp (Some (encode_cursor tp t caller q key scope)) caller q key scope
    = Cursor \<lparr>cu_created_at = tk_created_at t, cu_id = tk_call_id t\<rparr>"
proof -
  let ?p = "cursor_payload t caller q scope"
  have h: "tp_parse tp (tp_json tp ?p) = Some ?p" "tp_json tp ?p \<noteq> []" "tp_hmac tp key (tp_json tp ?p) \<noteq> []"
    "length (encode_cursor tp t caller q key scope) \<le> MAX_PAGE_TOKEN_LENGTH"
    "1 \<le> length (tk_call_id t)" "length (tk_call_id t) \<le> 128"
    using assms by (auto simp: token_platform_ok_def list_all_iff Let_def)
  have "decode_signed_token (tp_hmac tp) (tp_parse tp) (encode_cursor tp t caller q key scope) key
      MAX_PAGE_TOKEN_LENGTH = Some ?p"
    using decode_encode_token[where json = "tp_json tp" and hmac = "tp_hmac tp" and p = ?p and key = key
        and n = MAX_PAGE_TOKEN_LENGTH and parse = "tp_parse tp"] h
    by (simp add: encode_cursor_def)
  moreover have "tk_call_id t \<noteq> []" using h(5) by auto
  ultimately show ?thesis
    using h(6) by (simp add: decode_cursor_def check_cursor_def cursor_payload_def not_less_eq)
qed

lemma fingerprint_token [simp]: "query_fingerprint (q\<lparr>tq_page_token := x\<rparr>) = query_fingerprint q"
  by (simp add: query_fingerprint_def)

lemma encode_cursor_token [simp]:
  "encode_cursor tp t caller (q\<lparr>tq_page_token := x\<rparr>) key scope = encode_cursor tp t caller q key scope"
  by (simp add: encode_cursor_def cursor_payload_def)

lemma decode_cursor_token [simp]:
  "decode_cursor tp v caller (q\<lparr>tq_page_token := x\<rparr>) key scope = decode_cursor tp v caller q key scope"
  by (simp add: decode_cursor_def check_cursor_def split: option.splits js_value.splits list.splits)

lemma visible_tasks_token [simp]:
  "visible_tasks collate ts caller (q\<lparr>tq_page_token := x\<rparr>) = visible_tasks collate ts caller q"
  by (simp add: visible_tasks_def)

lemma page_from_token [simp]:
  "page_from tp v r caller (q\<lparr>tq_page_token := x\<rparr>) key scope = page_from tp v r caller q key scope"
  by (simp add: page_from_def Let_def)

definition remaining_of ::
  "token_platform \<Rightarrow> (string \<Rightarrow> string \<Rightarrow> bool) \<Rightarrow> task list \<Rightarrow> string \<Rightarrow> task_query \<Rightarrow> string \<Rightarrow> string \<Rightarrow> task list option" where
  "remaining_of tp collate ts caller q key scope =
     (let visible = visible_tasks collate ts caller q
      in case decode_cursor tp (tq_page_token q) caller q key scope of
           BadCursor \<Rightarrow> None | NoCursor \<Rightarrow> Some visible
         | Cursor c \<Rightarrow> Some (filter (\<lambda>t. after_cursor t c) visible))"

lemma list_caller_tasks_remaining:
  "list_caller_tasks tp collate ts caller q key scope =
     map_option (\<lambda>r. page_from tp (visible_tasks collate ts caller q) r caller q key scope)
       (remaining_of tp collate ts caller q key scope)"
  by (simp add: list_caller_tasks_def remaining_of_def Let_def split: cursor_result.splits)

lemma walk_pages_from:
  assumes "token_platform_ok tp ts caller q key scope" "collates collate ts" "distinct (map tk_call_id ts)"
    "1 \<le> tq_page_size q"
    "remaining_of tp collate ts caller q key scope = Some rs"
    "visible_tasks collate ts caller q = ps @ rs" "length rs < n"
  shows "\<exists>pages. walk_pages n tp collate ts caller q key scope = Some pages \<and>
    concat pages = map (\<lambda>t. to_a2a_task t (tq_include_artifacts q)) rs \<and>
    list_all (\<lambda>p. length p \<le> tq_page_size q) pages"
  using assms
proof (induction n arbitrary: q ps rs)
  case (Suc n)
  note pre = Suc.prems
  let ?k = "tq_page_size q"
  let ?page = "page_from tp (ps @ rs) rs caller q key scope"
  have page: "list_caller_tasks tp collate ts caller q key scope = Some ?page"
    using pre(5,6) by (simp add: list_caller_tasks_remaining)
  show ?case
  proof (cases "length rs \<le> ?k")
    case True
    then show ?thesis using page by (simp add: page_from_def Let_def)
  next
    case False
    obtain m where k: "?k = Suc m" using pre(4) by (cases ?k) auto
    let ?t = "last (take ?k rs)"
    have take: "take ?k rs = butlast (take ?k rs) @ [?t]"
      using False k by (intro append_butlast_last_id[symmetric]) auto
    have split: "ps @ rs = (ps @ butlast (take ?k rs)) @ ?t # drop ?k rs"
      using take append_take_drop_id[of ?k rs]
      by (metis append.assoc append_Cons append_Nil)
    have sorted: "sorted_wrt (\<lambda>a b. task_key a < task_key b) (ps @ rs)"
      using visible_tasks_sorted(2)[OF pre(2,3), of caller q] pre(6) by simp
    have t_mem: "?t \<in> set ts"
    proof -
      have "?t \<in> set (ps @ rs)" unfolding split by simp
      then show ?thesis
        using visible_tasks_sorted(1)[OF pre(2,3), of caller q] pre(6) by (auto simp: listed_def)
    qed
    let ?q = "q\<lparr>tq_page_token := Some (encode_cursor tp ?t caller q key scope)\<rparr>"
    have tail: "filter (\<lambda>u. task_key ?t < task_key u) (ps @ rs) = drop ?k rs"
      unfolding split by (rule filter_after_sorted[OF sorted[unfolded split]])
    have rem: "remaining_of tp collate ts caller ?q key scope = Some (drop ?k rs)"
      using decode_encode_cursor[OF pre(1) t_mem] pre(6) tail
      by (simp add: remaining_of_def Let_def after_cursor_key del: filter_append)
    have vis: "visible_tasks collate ts caller ?q = (ps @ take ?k rs) @ drop ?k rs" using pre(6) by simp
    have ok: "token_platform_ok tp ts caller ?q key scope"
      using pre(1) by (simp add: token_platform_ok_def cursor_payload_def)
    have len: "length (drop ?k rs) < n" using pre(7) False k by simp
    obtain pages where IH: "walk_pages n tp collate ts caller ?q key scope = Some pages"
      "concat pages = map (\<lambda>t. to_a2a_task t (tq_include_artifacts q)) (drop ?k rs)"
      "list_all (\<lambda>p. length p \<le> ?k) pages"
      using Suc.IH[OF ok pre(2,3) _ rem vis len] pre(4) by auto
    have nxt: "pg_next_page_token ?page = encode_cursor tp ?t caller q key scope"
      using False k by (cases rs) (simp_all add: page_from_def Let_def)
    have tasks: "pg_tasks ?page = map (\<lambda>t. to_a2a_task t (tq_include_artifacts q)) (take ?k rs)"
      by (simp add: page_from_def Let_def)
    have "walk_pages (Suc n) tp collate ts caller q key scope = Some (pg_tasks ?page # pages)"
      using page IH(1) by (simp add: nxt)
    then show ?thesis using IH(2,3) tasks
      by (auto simp: map_append[symmetric] simp del: map_append)
  qed
qed simp

lemma insert_task_set: "set (insert_task collate t us) = insert t (set us) \<and>
    length (insert_task collate t us) = Suc (length us)"
  by (induction us) auto

lemma sort_tasks_set: "set (sort_tasks collate ts) = set ts \<and> length (sort_tasks collate ts) = length ts"
  by (induction ts) (auto simp: sort_tasks_def insert_task_set)

subsection \<open>Reading the query\<close>

text \<open>
  The search parameters are an association list, of which \<open>get\<close> reads the first match. Two
  parts of the standard library are parameters: \<open>number\<close> is \<open>Number(s)\<close> where that is an
  integer, and \<open>date_parse\<close> is \<open>Date.parse\<close> where that is finite.
\<close>

definition all_digits :: "string \<Rightarrow> bool" where
  "all_digits s = list_all (\<lambda>c. CHR ''0'' \<le> c \<and> c \<le> CHR ''9'') s"

definition digits_value :: "string \<Rightarrow> int" where
  "digits_value s = int (read_digits 0 s)"

definition valid_history_length :: "(string \<times> string) list \<Rightarrow> bool" where
  "valid_history_length params = (case map_of params ''historyLength'' of
     None \<Rightarrow> True
   | Some v \<Rightarrow> v \<noteq> [] \<and> all_digits v \<and> digits_value v \<le> 2147483647)"

text \<open>
  The RFC 3339 pattern: nineteen characters of date and time, an optional fraction of one
  to nine digits, and \<open>Z\<close> or a numeric offset.
\<close>

definition split_fraction :: "string \<Rightarrow> (string \<times> string) option" where
  "split_fraction rest = (case rest of
     c # cs \<Rightarrow>
       if c = CHR ''.'' then
         (let ds = takeWhile (\<lambda>d. CHR ''0'' \<le> d \<and> d \<le> CHR ''9'') cs
          in if ds = [] \<or> length ds > 9 then None else Some (ds, drop (length ds) cs))
       else Some ([], rest)
   | [] \<Rightarrow> Some ([], []))"

definition read_offset :: "string \<Rightarrow> (int \<times> int) option" where
  "read_offset z =
     (if z = ''Z'' then Some (0, 0)
      else if length z = 6 \<and> (z ! 0 = CHR ''+'' \<or> z ! 0 = CHR ''-'') \<and> all_digits (take 2 (drop 1 z))
           \<and> z ! 3 = CHR '':'' \<and> all_digits (drop 4 z)
      then Some (digits_value (take 2 (drop 1 z)), digits_value (drop 4 z))
      else None)"

definition days_in_month :: "int \<Rightarrow> int \<Rightarrow> int" where
  "days_in_month year month =
     (let leap_year = year mod 4 = 0 \<and> (year mod 100 \<noteq> 0 \<or> year mod 400 = 0)
      in [31, if leap_year then 29 else 28, 31, 30, 31, 30, 31, 31, 30, 31, 30, 31] ! nat (month - 1))"

definition parse_rfc3339_timestamp :: "(string \<Rightarrow> int option) \<Rightarrow> string \<Rightarrow> int option" where
  "parse_rfc3339_timestamp date_parse value =
     (if length value < 20 then None
      else if \<not> (all_digits (take 4 value) \<and> value ! 4 = CHR ''-'' \<and> all_digits (take 2 (drop 5 value))
             \<and> value ! 7 = CHR ''-'' \<and> all_digits (take 2 (drop 8 value)) \<and> value ! 10 = CHR ''T''
             \<and> all_digits (take 2 (drop 11 value)) \<and> value ! 13 = CHR '':'' \<and> all_digits (take 2 (drop 14 value))
             \<and> value ! 16 = CHR '':'' \<and> all_digits (take 2 (drop 17 value))) then None
      else case split_fraction (drop 19 value) of
        None \<Rightarrow> None
      | Some (fractional_digits, zone) \<Rightarrow>
         (case read_offset zone of
            None \<Rightarrow> None
          | Some (offset_hour, offset_minute) \<Rightarrow>
             (let year = digits_value (take 4 value); month = digits_value (take 2 (drop 5 value));
                  day = digits_value (take 2 (drop 8 value)); hour = digits_value (take 2 (drop 11 value));
                  minute = digits_value (take 2 (drop 14 value)); second = digits_value (take 2 (drop 17 value))
              in if year < 1 \<or> month < 1 \<or> month > 12 \<or> day < 1 \<or> day > days_in_month year month \<or>
                    hour > 23 \<or> minute > 59 \<or> second > 59 \<or> offset_hour > 23 \<or> offset_minute > 59 then None
                 else case date_parse value of
                   None \<Rightarrow> None
                 | Some timestamp \<Rightarrow>
                     Some (timestamp + (if list_ex (\<lambda>c. CHR ''1'' \<le> c \<and> c \<le> CHR ''9'') (drop 3 fractional_digits)
                                        then 1 else 0)))))"

definition parse_task_list_query ::
  "(string \<Rightarrow> int option) \<Rightarrow> (string \<Rightarrow> int option) \<Rightarrow> (string \<times> string) list \<Rightarrow> task_query option" where
  "parse_task_list_query number date_parse params =
     (if map_of params ''contextId'' \<noteq> None then None
      else case map_option parse_a2a_state (map_of params ''status'') of
        Some None \<Rightarrow> None
      | status \<Rightarrow>
         (case (case map_of params ''pageSize'' of None \<Rightarrow> Some 50 | Some v \<Rightarrow> number v) of
            None \<Rightarrow> None
          | Some page_size \<Rightarrow>
             if page_size < 1 \<or> page_size > 100 then None
             else if \<not> valid_history_length params then None
             else (case map_option (parse_rfc3339_timestamp date_parse) (map_of params ''statusTimestampAfter'') of
                     Some None \<Rightarrow> None
                   | timestamp \<Rightarrow>
                      (let include = map_of params ''includeArtifacts''
                       in if include \<noteq> None \<and> include \<noteq> Some ''true'' \<and> include \<noteq> Some ''false'' then None
                          else Some \<lparr>tq_status = Option.bind status id, tq_page_size = nat page_size,
                                     tq_page_token = map_of params ''pageToken'',
                                     tq_history_length = map_option digits_value (map_of params ''historyLength''),
                                     tq_status_timestamp_after = Option.bind timestamp id,
                                     tq_include_artifacts = (include = Some ''true'')\<rparr>))))"

lemma parse_task_list_query_page_size:
  "parse_task_list_query number date_parse params = Some q \<Longrightarrow> 1 \<le> tq_page_size q \<and> tq_page_size q \<le> 100"
  by (auto simp: parse_task_list_query_def Let_def split: option.splits if_splits)

subsection \<open>Properties\<close>

text \<open>
  Paging is complete and duplicate-free: following the page tokens returns every
  visible task exactly once, in listing order, each page within the page size, and it ends.
\<close>

theorem task_pages_partition:
  assumes "token_platform_ok tp ts caller q key scope" "collates collate ts" "distinct (map tk_call_id ts)"
    "1 \<le> tq_page_size q" "tq_page_token q = None"
  shows "\<exists>pages. walk_pages (Suc (length ts)) tp collate ts caller q key scope = Some pages \<and>
    concat pages = map (\<lambda>t. to_a2a_task t (tq_include_artifacts q)) (visible_tasks collate ts caller q) \<and>
    list_all (\<lambda>p. length p \<le> tq_page_size q) pages"
proof (rule walk_pages_from[OF assms(1-4), of _ "[]"])
  show "remaining_of tp collate ts caller q key scope = Some (visible_tasks collate ts caller q)"
    using assms(5) by (simp add: remaining_of_def decode_cursor_def Let_def)
  show "length (visible_tasks collate ts caller q) < Suc (length ts)"
    using visible_tasks_sorted(3)[OF assms(2,3)] by (simp add: le_imp_less_Suc)
qed simp

definition sample_task :: "string \<Rightarrow> int \<Rightarrow> task" where
  "sample_task cid created =
     \<lparr>tk_call_id = cid, tk_correlation_id = [], tk_from = ''alice'', tk_org = ''acme'', tk_to = ''bob'',
      tk_deadline = 9, tk_state = Ringing, tk_task_state = TsSubmitted, tk_created_at = created,
      tk_updated_at = created, tk_principal = None, tk_outcome_envelope = None, tk_message_id = None,
      tk_from_agent_id = None, tk_from_credential_generation = None, tk_target_agent_id = None,
      tk_request_envelope = None, tk_request_envelope_sha256 = None, tk_delivery_state = None,
      tk_traceparent = None, tk_lease = None, tk_execute_by = None, tk_execution_deadline = None,
      tk_purge_at = None, tk_terminal_reason = None, tk_ciphertext_bytes = None, tk_quota_released = False\<rparr>"

definition sample_query :: task_query where
  "sample_query = \<lparr>tq_status = None, tq_page_size = 1, tq_page_token = None, tq_history_length = None,
     tq_status_timestamp_after = None, tq_include_artifacts = False\<rparr>"

definition sample_platform :: token_platform where
  "sample_platform =
     \<lparr>tp_hmac = (\<lambda>_ bs. 7 # bs),
      tp_json = (\<lambda>v. case v of JArr (JNum n # _) \<Rightarrow> [word_of_int n] | _ \<Rightarrow> [0]),
      tp_parse = (\<lambda>bs. if bs = [1] then Some (cursor_payload (sample_task ''a'' 1) ''alice'' sample_query ''s'')
                      else if bs = [2] then Some (cursor_payload (sample_task ''b'' 2) ''alice'' sample_query ''s'')
                      else None)\<rparr>"

lemma sample_platform_ok:
  "token_platform_ok sample_platform [sample_task ''a'' 1, sample_task ''b'' 2] ''alice'' sample_query ''k'' ''s''"
  by (simp add: token_platform_ok_def sample_platform_def cursor_payload_def sample_task_def
      encode_cursor_def encode_signed_token_def Let_def MAX_PAGE_TOKEN_LENGTH_def)

lemma task_pages_partition_witness:
  "\<exists>pages. walk_pages 3 sample_platform (\<le>) [sample_task ''a'' 1, sample_task ''b'' 2] ''alice'' sample_query ''k'' ''s''
      = Some pages \<and>
    concat pages = [to_a2a_task (sample_task ''b'' 2) False, to_a2a_task (sample_task ''a'' 1) False] \<and>
    list_all (\<lambda>p. length p \<le> 1) pages"
proof -
  let ?ts = "[sample_task ''a'' 1, sample_task ''b'' 2]"
  have "collates (\<le>) ?ts" "distinct (map tk_call_id ?ts)" "1 \<le> tq_page_size sample_query"
    "tq_page_token sample_query = None"
    by (simp_all add: collates_def sample_task_def sample_query_def)
  note W = task_pages_partition[OF sample_platform_ok this]
  have n: "Suc (length ?ts) = 3" "tq_page_size sample_query = 1" "\<not> tq_include_artifacts sample_query"
    by (simp_all add: sample_query_def)
  have "visible_tasks (\<le>) ?ts ''alice'' sample_query = [sample_task ''b'' 2, sample_task ''a'' 1]"
    by (simp add: visible_tasks_def sample_query_def sample_task_def task_belongs_to_caller_def sort_tasks_def
        task_at_or_before_def)
  then show ?thesis using W[unfolded n(1,2)] n(3) by (simp del: walk_pages.simps)
qed

text \<open>
  A listing shows only tasks whose caller is the requester and that pass the query's
  filters, never more than the page size, and counts exactly those.
\<close>

theorem listing_authorized:
  assumes "list_caller_tasks tp collate ts caller q key scope = Some page"
  shows "set (pg_tasks page) \<subseteq> (\<lambda>t. to_a2a_task t (tq_include_artifacts q)) ` set (listed ts caller q) \<and>
    length (pg_tasks page) \<le> tq_page_size q \<and> pg_total_size page = length (listed ts caller q)"
proof -
  let ?v = "visible_tasks collate ts caller q"
  have v: "set ?v = set (listed ts caller q)" "length ?v = length (listed ts caller q)"
    by (simp_all add: visible_tasks_listed sort_tasks_set)
  obtain r where r: "page = page_from tp ?v r caller q key scope" "set r \<subseteq> set ?v"
    using assms by (auto simp: list_caller_tasks_def Let_def split: cursor_result.splits)
  have "set (take (tq_page_size q) r) \<subseteq> set ?v" using r(2) set_take_subset by fastforce
  then show ?thesis using r(1) v by (auto simp: page_from_def Let_def)
qed

lemma listing_authorized_witness:
  "\<exists>page. list_caller_tasks sample_platform (\<le>) [sample_task ''a'' 1, sample_task ''b'' 2] ''mallory'' sample_query ''k'' ''s''
     = Some page \<and> pg_tasks page = [] \<and> pg_total_size page = 0"
proof -
  let ?ts = "[sample_task ''a'' 1, sample_task ''b'' 2]"
  have l: "listed ?ts ''mallory'' sample_query = []" by (simp add: listed_def sample_task_def)
  have "list_caller_tasks sample_platform (\<le>) ?ts ''mallory'' sample_query ''k'' ''s'' \<noteq> None"
    by (simp add: list_caller_tasks_def decode_cursor_def sample_query_def Let_def)
  then obtain page where p: "list_caller_tasks sample_platform (\<le>) ?ts ''mallory'' sample_query ''k'' ''s'' = Some page"
    by blast
  show ?thesis using listing_authorized[OF p] l p by auto
qed

text \<open>
  A page token is bound to the listing it came from: presented by another caller, under
  another scope or with another query it is refused.
\<close>

theorem cursor_not_transferable:
  assumes "tp_parse tp (tp_json tp (cursor_payload t caller' q' scope')) = Some (cursor_payload t caller' q' scope')"
    "tp_json tp (cursor_payload t caller' q' scope') \<noteq> []"
    "decode_cursor tp (Some (encode_cursor tp t caller' q' key scope')) caller q key scope = Cursor c"
  shows "caller' = caller \<and> scope' = scope \<and> q'\<lparr>tq_page_token := None\<rparr> = q\<lparr>tq_page_token := None\<rparr> \<and>
    c = \<lparr>cu_created_at = tk_created_at t, cu_id = tk_call_id t\<rparr>"
proof -
  let ?p = "cursor_payload t caller' q' scope'"
  obtain v where v: "decode_signed_token (tp_hmac tp) (tp_parse tp) (encode_cursor tp t caller' q' key scope') key
      MAX_PAGE_TOKEN_LENGTH = Some v" and c: "check_cursor v caller q scope = Cursor c"
    using assms(3) by (auto simp: decode_cursor_def split: if_splits option.splits)
  have hmac_ne: "tp_hmac tp key (tp_json tp ?p) \<noteq> [] \<and>
      length (encode_cursor tp t caller' q' key scope') \<le> MAX_PAGE_TOKEN_LENGTH"
    using v assms(2) decode_token_nonempty[of "tp_hmac tp" "tp_parse tp" "tp_json tp ?p" key MAX_PAGE_TOKEN_LENGTH v]
    by (auto simp: encode_cursor_def encode_signed_token_def Let_def decode_signed_token_def split: if_splits)
  then have "v = ?p"
    using v decode_encode_token[of "tp_json tp" ?p "tp_hmac tp" key MAX_PAGE_TOKEN_LENGTH "tp_parse tp"] assms(1,2)
    by (simp add: encode_cursor_def)
  then show ?thesis using c query_fingerprint_inj[of q' q]
    by (auto simp: check_cursor_def cursor_payload_def split: if_splits)
qed

lemma cursor_not_transferable_witness:
  "decode_cursor sample_platform (Some (encode_cursor sample_platform (sample_task ''a'' 1) ''alice'' sample_query ''k'' ''s''))
     ''mallory'' sample_query ''k'' ''s'' = BadCursor"
proof -
  let ?d = "decode_cursor sample_platform (Some (encode_cursor sample_platform (sample_task ''a'' 1) ''alice'' sample_query ''k'' ''s''))
     ''mallory'' sample_query ''k'' ''s''"
  have p: "tp_parse sample_platform (tp_json sample_platform (cursor_payload (sample_task ''a'' 1) ''alice'' sample_query ''s''))
      = Some (cursor_payload (sample_task ''a'' 1) ''alice'' sample_query ''s'')"
    "tp_json sample_platform (cursor_payload (sample_task ''a'' 1) ''alice'' sample_query ''s'') \<noteq> []"
    by (simp_all add: sample_platform_def cursor_payload_def sample_task_def)
  have "?d \<noteq> Cursor c" for c
    using cursor_not_transferable[OF p, of "''k''" "''mallory''" sample_query "''s''" c] by auto
  moreover have "?d \<noteq> NoCursor" by (simp add: decode_cursor_def check_cursor_def split: option.splits js_value.splits list.splits)
  ultimately show ?thesis by (cases ?d) auto
qed

end
