(* ===== verification/AuditReadiness.thy ===== *)
theory AuditReadiness
  imports AuditControls TaskStore
begin

text \<open>
  \<open>apps/relay/src/audit-retention.ts\<close>: which ledger rows could be deleted, how many are not
  covered by an acknowledged export, and the report an administrator reads, with the schema
  it is validated against. All reads are one D1 batch, so they see one database.
\<close>

subsection \<open>The two ledgers\<close>

datatype ledger = OrgLedger | RosterLedger

text \<open>The columns the predicates read, of either table.\<close>

record ledger_entry =
  le_id :: nat
  le_org :: string
  le_at :: int

definition ledger_entries :: "ledger \<Rightarrow> relay_db \<Rightarrow> ledger_entry list" where
  "ledger_entries l db = (case l of
     OrgLedger \<Rightarrow> map (\<lambda>r. \<lparr>le_id = lr_id r, le_org = oa_org (lr_audit r), le_at = oa_at (lr_audit r)\<rparr>) (rd_events db)
   | RosterLedger \<Rightarrow> map (\<lambda>r. \<lparr>le_id = ro_id r, le_org = ro_org r, le_at = ro_at r\<rparr>) (rd_roster db))"

definition select_ack :: "relay_db \<Rightarrow> string \<Rightarrow> ack_row option" where
  "select_ack db org = find (\<lambda>r. ak_org r = org) (rd_acks db)"

definition checkpoint_column :: "ledger \<Rightarrow> ack_row \<Rightarrow> nat" where
  "checkpoint_column l a = (case l of
     OrgLedger \<Rightarrow> cp_org_event_id (ak_checkpoint a) | RosterLedger \<Rightarrow> cp_roster_event_id (ak_checkpoint a))"

definition acknowledged_through :: "ledger \<Rightarrow> relay_db \<Rightarrow> string \<Rightarrow> int" where
  "acknowledged_through l db org = (case select_ack db org of None \<Rightarrow> -1 | Some a \<Rightarrow> int (checkpoint_column l a))"

definition retention_cutoff_predicate :: "relay_db \<Rightarrow> string \<Rightarrow> int \<Rightarrow> ledger_entry \<Rightarrow> bool" where
  "retention_cutoff_predicate db org evaluated_at e =
     (le_org e = org \<and>
      le_at e < max 0 (evaluated_at -
        (case select_policy db org of None \<Rightarrow> DEFAULT_AUDIT_EVENT_RETENTION_DAYS | Some p \<Rightarrow> pl_event_retention_days p)
        * AUDIT_RETENTION_DAY_MS))"

definition audit_retention_eligibility_predicate :: "ledger \<Rightarrow> relay_db \<Rightarrow> string \<Rightarrow> int \<Rightarrow> ledger_entry \<Rightarrow> bool" where
  "audit_retention_eligibility_predicate l db org evaluated_at e =
     (retention_cutoff_predicate db org evaluated_at e \<and> int (le_id e) \<le> acknowledged_through l db org \<and>
      \<not> sql_exists (active_hold_of org) (rd_holds db))"

definition unacknowledged_cutoff_predicate :: "ledger \<Rightarrow> relay_db \<Rightarrow> string \<Rightarrow> int \<Rightarrow> ledger_entry \<Rightarrow> bool" where
  "unacknowledged_cutoff_predicate l db org evaluated_at e =
     (retention_cutoff_predicate db org evaluated_at e \<and>
      (\<not> sql_exists (\<lambda>a. ak_org a = org) (rd_acks db) \<or> int (le_id e) > acknowledged_through l db org))"

subsection \<open>The report\<close>

record ledger_readiness =
  lg_acknowledged_through_id :: "nat option"
  lg_eligible_event_count :: nat
  lg_unacknowledged_event_count :: nat
  lg_export_ready :: bool

definition ledger_readiness :: "nat option \<Rightarrow> nat \<Rightarrow> nat \<Rightarrow> ledger_readiness" where
  "ledger_readiness through eligible unacknowledged =
     \<lparr>lg_acknowledged_through_id = through, lg_eligible_event_count = eligible,
      lg_unacknowledged_event_count = unacknowledged,
      lg_export_ready = (through \<noteq> None \<and> unacknowledged = 0)\<rparr>"

datatype retention_state = Ready | Held | ExportRequired

record readiness =
  rn_state :: retention_state
  rn_evaluated_at :: int
  rn_cutoff_at :: int
  rn_policy :: policy_json
  rn_active_hold :: "hold_json option"
  rn_org :: ledger_readiness
  rn_roster :: ledger_readiness

text \<open>The schemas every answer is parsed with before it is sent.\<close>

definition policy_json_ok :: "policy_json \<Rightarrow> bool" where
  "policy_json_ok p =
     (retention_window (pj_event_retention_days p) \<and>
      ((pj_version p = 0 \<and> pj_updated_by p = None \<and> pj_updated_at p = None) \<or>
       (0 < pj_version p \<and> (case pj_updated_by p of None \<Rightarrow> False | Some s \<Rightarrow> s \<noteq> []) \<and>
        (case pj_updated_at p of None \<Rightarrow> False | Some t \<Rightarrow> 0 \<le> t))))"

definition hold_json_ok :: "hold_json \<Rightarrow> bool" where
  "hold_json_ok h =
     (audit_hold_id_re (hj_hold_id h) \<and> reason_ok (hj_reason h) \<and> hj_created_by h \<noteq> [] \<and> 0 \<le> hj_created_at h \<and>
      ((hj_released_by h = None \<and> hj_released_at h = None) \<or>
       ((case hj_released_by h of None \<Rightarrow> False | Some s \<Rightarrow> s \<noteq> []) \<and>
        (case hj_released_at h of None \<Rightarrow> False | Some t \<Rightarrow> 0 \<le> t))))"

definition ledger_readiness_ok :: "ledger_readiness \<Rightarrow> bool" where
  "ledger_readiness_ok l =
     (lg_export_ready l = (lg_acknowledged_through_id l \<noteq> None \<and> lg_unacknowledged_event_count l = 0))"

definition readiness_ok :: "readiness \<Rightarrow> bool" where
  "readiness_ok r =
     (0 \<le> rn_evaluated_at r \<and> 0 \<le> rn_cutoff_at r \<and> policy_json_ok (rn_policy r) \<and>
      opt_all hold_json_ok (rn_active_hold r) \<and> ledger_readiness_ok (rn_org r) \<and> ledger_readiness_ok (rn_roster r) \<and>
      rn_cutoff_at r = max 0 (rn_evaluated_at r - pj_event_retention_days (rn_policy r) * AUDIT_RETENTION_DAY_MS) \<and>
      (rn_active_hold r \<noteq> None \<longrightarrow>
         lg_eligible_event_count (rn_org r) = 0 \<and> lg_eligible_event_count (rn_roster r) = 0) \<and>
      rn_state r = (if rn_active_hold r \<noteq> None then Held
                    else if lg_export_ready (rn_org r) \<and> lg_export_ready (rn_roster r) then Ready else ExportRequired))"

definition report_ledger :: "ledger \<Rightarrow> relay_db \<Rightarrow> string \<Rightarrow> int \<Rightarrow> ledger_readiness" where
  "report_ledger l db org evaluated_at =
     ledger_readiness (map_option (checkpoint_column l) (select_ack db org))
       (sql_count (audit_retention_eligibility_predicate l db org evaluated_at) (ledger_entries l db))
       (sql_count (unacknowledged_cutoff_predicate l db org evaluated_at) (ledger_entries l db))"

definition build_readiness :: "relay_db \<Rightarrow> string \<Rightarrow> int \<Rightarrow> readiness" where
  "build_readiness db org evaluated_at =
     (let policy = read_policy db org;
          hold = public_audit_hold (read_active_hold db org);
          org_ledger = report_ledger OrgLedger db org evaluated_at;
          roster_ledger = report_ledger RosterLedger db org evaluated_at
      in \<lparr>rn_state = (if hold \<noteq> None then Held
             else if lg_export_ready org_ledger \<and> lg_export_ready roster_ledger then Ready else ExportRequired),
          rn_evaluated_at = evaluated_at,
          rn_cutoff_at = max 0 (evaluated_at - pj_event_retention_days policy * AUDIT_RETENTION_DAY_MS),
          rn_policy = policy, rn_active_hold = hold, rn_org = org_ledger, rn_roster = roster_ledger\<rparr>)"

text \<open>The policy and the hold are parsed by their own schemas first; any failure throws.\<close>

definition evaluate_audit_retention_readiness :: "relay_db \<Rightarrow> string \<Rightarrow> int \<Rightarrow> readiness option" where
  "evaluate_audit_retention_readiness db org evaluated_at =
     (let r = build_readiness db org evaluated_at
      in if policy_json_ok (rn_policy r) \<and> opt_all hold_json_ok (rn_active_hold r) \<and> readiness_ok r
         then Some r else None)"

definition parse_evaluation_time :: "string list \<Rightarrow> int \<Rightarrow> int option" where
  "parse_evaluation_time values now = (case values of
     [] \<Rightarrow> Some now
   | [v] \<Rightarrow> if v = [] \<or> \<not> all_digits v then None
            else if digits_value v \<le> MAX_SAFE_INTEGER \<and> digits_value v \<le> now then Some (digits_value v) else None
   | _ \<Rightarrow> None)"

definition get_retention_readiness ::
  "admission \<Rightarrow> identity \<Rightarrow> request_headers \<Rightarrow> (string \<times> string) list \<Rightarrow> int \<Rightarrow> relay_db \<Rightarrow> relay_db \<times> readiness http" where
  "get_retention_readiness admit i req params now db =
     rate_limit admit (DurableLimit AUDIT_READ) (ByIdentity ''audit-retention-read:'') req i db
       (require_admin i db
         (case parse_evaluation_time (map snd (filter (\<lambda>p. fst p = ''evaluated_at'') params)) now of
            None \<Rightarrow> (db, Refuse 400 ''invalid evaluation time'')
          | Some t \<Rightarrow>
              (case evaluate_audit_retention_readiness db (id_org i) t of
                 None \<Rightarrow> (db, Refuse 503 ''audit retention readiness unavailable'')
               | Some r \<Rightarrow> (db, Ok r))))"

subsection \<open>What the report promises\<close>

text \<open>The rows of the control tables satisfy the schemas of what is served from them.\<close>

definition controls_ok :: "relay_db \<Rightarrow> bool" where
  "controls_ok db =
     ((\<forall>p\<in>set (rd_policies db). policy_json_ok (retention_policy_from_row (Some p))) \<and>
      (\<forall>h\<in>set (rd_holds db). opt_all hold_json_ok (public_audit_hold (Some h))))"

lemma default_policy_ok: "policy_json_ok (retention_policy_from_row None)"
  by (simp add: policy_json_ok_def retention_policy_from_row_def retention_window_def
      DEFAULT_AUDIT_EVENT_RETENTION_DAYS_def MIN_AUDIT_EVENT_RETENTION_DAYS_def MAX_AUDIT_EVENT_RETENTION_DAYS_def)

lemma read_policy_ok: "controls_ok db \<Longrightarrow> policy_json_ok (read_policy db org)"
  unfolding controls_ok_def read_policy_def select_policy_def
  by (cases "find (\<lambda>r. pl_org r = org) (rd_policies db)") (auto simp: default_policy_ok dest: find_Some_iff_mem)

lemma active_hold_ok: "controls_ok db \<Longrightarrow> opt_all hold_json_ok (public_audit_hold (read_active_hold db org))"
  unfolding controls_ok_def read_active_hold_def
  by (cases "find (active_hold_of org) (rd_holds db)") (auto simp: public_audit_hold_def dest: find_Some_iff_mem)

lemma held_none_eligible:
  assumes "read_active_hold db org \<noteq> None"
  shows "sql_count (audit_retention_eligibility_predicate l db org t) xs = 0"
proof -
  have "sql_exists (active_hold_of org) (rd_holds db)"
    using assms by (auto simp: read_active_hold_def find_None_iff)
  then show ?thesis by (simp add: sql_count_zero audit_retention_eligibility_predicate_def)
qed

lemma select_ack_None: "select_ack db org = None \<longleftrightarrow> \<not> sql_exists (\<lambda>a. ak_org a = org) (rd_acks db)"
  by (auto simp: select_ack_def find_None_iff)

text \<open>Without a hold, the rows past the cutoff are either covered or counted as missing.\<close>

lemma eligible_partition:
  assumes "read_active_hold db org = None"
  shows "sql_count (audit_retention_eligibility_predicate l db org t) xs +
    sql_count (unacknowledged_cutoff_predicate l db org t) xs = sql_count (retention_cutoff_predicate db org t) xs"
proof -
  have h: "\<not> sql_exists (active_hold_of org) (rd_holds db)"
    using assms by (auto simp: read_active_hold_def find_None_iff)
  have u: "unacknowledged_cutoff_predicate l db org t e \<longleftrightarrow>
      retention_cutoff_predicate db org t e \<and> int (le_id e) > acknowledged_through l db org" for e
    unfolding unacknowledged_cutoff_predicate_def select_ack_None[symmetric] acknowledged_through_def
    by (cases "select_ack db org") auto
  have a: "audit_retention_eligibility_predicate l db org t e \<longleftrightarrow>
      retention_cutoff_predicate db org t e \<and> \<not> int (le_id e) > acknowledged_through l db org" for e
    using h by (auto simp: audit_retention_eligibility_predicate_def)
  show ?thesis unfolding sql_count_def u a by (induction xs) auto
qed

lemma build_readiness_ok:
  assumes "controls_ok db" "0 \<le> t"
  shows "readiness_ok (build_readiness db org t)"
  using assms(2) read_policy_ok[OF assms(1), of org] active_hold_ok[OF assms(1), of org]
  by (cases "read_active_hold db org")
     (simp_all add: readiness_ok_def build_readiness_def Let_def ledger_readiness_ok_def report_ledger_def
       ledger_readiness_def public_audit_hold_def held_none_eligible)

lemma evaluate_readiness_Some:
  assumes "controls_ok db" "0 \<le> t"
  shows "evaluate_audit_retention_readiness db org t = Some (build_readiness db org t)"
proof -
  have "readiness_ok (build_readiness db org t)" by (rule build_readiness_ok[OF assms])
  then show ?thesis by (simp add: evaluate_audit_retention_readiness_def Let_def readiness_ok_def)
qed

end
