(* ===== verification/AuditExport.thy ===== *)
theory AuditExport
  imports AuditReadiness
begin

text \<open>
  The audit export of \<open>apps/relay/src/audit.ts\<close>: a checkpoint of both ledgers is captured
  with the first page and travels in a signed cursor; every page is read below it and
  refused when a checkpointed row is gone; the last page of an unfiltered export carries a
  signed receipt, which an administrator can hand back as an acknowledgement.
\<close>

definition DEFAULT_PAGE_SIZE :: int where "DEFAULT_PAGE_SIZE = 100"
definition MAX_PAGE_SIZE :: int where "MAX_PAGE_SIZE = 500"
definition MAX_AUDIT_TOKEN_LENGTH :: nat where "MAX_AUDIT_TOKEN_LENGTH = 2048"
definition MAX_COMPLETION_RECEIPT_LENGTH :: nat where "MAX_COMPLETION_RECEIPT_LENGTH = 1024"
definition MAX_FILTER_LENGTH :: nat where "MAX_FILTER_LENGTH = 256"

subsection \<open>If-None-Match\<close>

definition ows :: "char \<Rightarrow> bool" where
  "ows c = (c = CHR '' '' \<or> c = CHR 0x09)"

definition etag_char :: "char \<Rightarrow> bool" where
  "etag_char c = (let code = (of_char c :: nat)
     in code = 0x21 \<or> (0x23 \<le> code \<and> code \<le> 0x7e) \<or> (0x80 \<le> code \<and> code \<le> 0xff))"

lemma etag_list_decreases:
  assumes "dropWhile P s = c # cs" "opaque = (if b then drop 2 (c # cs) else c # cs)" "opaque = q # body"
    "drop n body = x # rest"
  shows "length (dropWhile ows rest) < length s"
proof -
  have "length (dropWhile ows rest) \<le> length rest" by (rule length_dropWhile_le)
  also have "length rest < length (drop n body)" using assms(4) by simp
  also have "length (drop n body) \<le> length body" by simp
  also have "length body < length opaque" using assms(3) by simp
  also have "length opaque \<le> length (c # cs)" using assms(2) by auto
  also have "length (c # cs) \<le> length s" using assms(1) length_dropWhile_le[of P s] by simp
  finally show ?thesis .
qed

text \<open>The index loop, on the part of the input from the index onwards.\<close>

function etag_list :: "string \<Rightarrow> string list option" where
  "etag_list s =
     (case dropWhile (\<lambda>c. ows c \<or> c = CHR '','') s of
        [] \<Rightarrow> Some []
      | c # cs \<Rightarrow>
          (let opaque = (if take 2 (c # cs) = ''W/'' then drop 2 (c # cs) else c # cs)
           in case opaque of
              [] \<Rightarrow> None
            | q # body \<Rightarrow>
                if q \<noteq> CHR 0x22 then None
                else (let inner = takeWhile (\<lambda>x. x \<noteq> CHR 0x22) body
                      in if \<not> list_all etag_char inner then None
                         else case drop (length inner) body of
                             [] \<Rightarrow> None
                           | _ # rest \<Rightarrow>
                               (let after = dropWhile ows rest
                                in if after \<noteq> [] \<and> hd after \<noteq> CHR '','' then None
                                   else map_option ((#) ([CHR 0x22] @ inner @ [CHR 0x22])) (etag_list after)))))"
  by pat_completeness auto

termination etag_list
  by (relation "measure length") (auto intro: etag_list_decreases)

declare etag_list.simps [simp del]

datatype none_match = AnyTag | Tags "string list"

definition parse_if_none_match :: "string \<Rightarrow> none_match option" where
  "parse_if_none_match value =
     (let input = rev (dropWhile ows (rev (dropWhile ows value)))
      in if input = ''*'' then Some AnyTag else map_option Tags (etag_list input))"

definition if_none_match_matches :: "string option \<Rightarrow> string \<Rightarrow> bool" where
  "if_none_match_matches value current = (case value of
     None \<Rightarrow> False
   | Some v \<Rightarrow> (case parse_if_none_match v of
       None \<Rightarrow> False | Some AnyTag \<Rightarrow> True | Some (Tags tags) \<Rightarrow> current \<in> set tags))"

subsection \<open>The query\<close>

record export_query =
  eq_after :: "int option"
  eq_before :: "int option"
  eq_actor :: "string option"
  eq_event :: "string option"
  eq_actor_ip :: "string option"
  eq_page_size :: int
  eq_page_token :: "string option"

text \<open>\<open>undefined\<close> is \<open>Some None\<close> and the \<open>null\<close> of a bad value is \<open>None\<close>.\<close>

definition parse_integer :: "string option \<Rightarrow> int option option" where
  "parse_integer value = (case value of
     None \<Rightarrow> Some None
   | Some v \<Rightarrow> if v = [] \<or> \<not> all_digits v then None
              else if digits_value v \<le> MAX_SAFE_INTEGER then Some (Some (digits_value v)) else None)"

definition parse_filter :: "string option \<Rightarrow> string option option" where
  "parse_filter value = (case value of
     None \<Rightarrow> Some None
   | Some v \<Rightarrow> (let bytes = length (utf8 (js v))
                in if bytes < 1 \<or> bytes > MAX_FILTER_LENGTH then None else Some (Some v)))"

text \<open>\<open>parseInteger(...) ?? DEFAULT_PAGE_SIZE\<close>: both \<open>undefined\<close> and \<open>null\<close> take the default.\<close>

definition parse_page_size :: "string option \<Rightarrow> int" where
  "parse_page_size value = (case parse_integer value of Some (Some n) \<Rightarrow> n | _ \<Rightarrow> DEFAULT_PAGE_SIZE)"

definition parse_query :: "(string \<times> string) list \<Rightarrow> export_query option" where
  "parse_query params =
     (let page_size = parse_page_size (map_of params ''page_size'')
      in case (parse_integer (map_of params ''after''), parse_integer (map_of params ''before''),
               parse_filter (map_of params ''actor''), parse_filter (map_of params ''event''),
               parse_filter (map_of params ''actor_ip'')) of
           (Some since, Some before, Some actor, Some event, Some actor_ip) \<Rightarrow>
             if page_size < 1 \<or> page_size > MAX_PAGE_SIZE then None
             else if since \<noteq> None \<and> before \<noteq> None \<and> the since \<ge> the before then None
             else Some \<lparr>eq_after = since, eq_before = before, eq_actor = actor, eq_event = event,
                        eq_actor_ip = actor_ip, eq_page_size = page_size,
                        eq_page_token = map_of params ''page_token''\<rparr>
         | _ \<Rightarrow> None)"

subsection \<open>Checkpoints and positions\<close>

fun ledger_code :: "ledger \<Rightarrow> string" where
  "ledger_code OrgLedger = ''org''"
| "ledger_code RosterLedger = ''roster''"

record position =
  ps_at :: int
  ps_ledger :: ledger
  ps_id :: nat

definition org_ids :: "string \<Rightarrow> relay_db \<Rightarrow> nat list" where
  "org_ids org db = map lr_id (filter (of_org org) (rd_events db))"

definition roster_ids :: "string \<Rightarrow> relay_db \<Rightarrow> nat list" where
  "roster_ids org db = map ro_id (filter (\<lambda>r. ro_org r = org) (rd_roster db))"

definition coalesce_max :: "nat list \<Rightarrow> nat" where
  "coalesce_max ids = fold max ids 0"

definition capture_checkpoint :: "relay_db \<Rightarrow> string \<Rightarrow> checkpoint" where
  "capture_checkpoint db org =
     \<lparr>cp_org_event_id = coalesce_max (org_ids org db), cp_org_event_count = length (org_ids org db),
      cp_roster_event_id = coalesce_max (roster_ids org db), cp_roster_event_count = length (roster_ids org db)\<rparr>"

definition checkpoint_is_complete :: "relay_db \<Rightarrow> string \<Rightarrow> checkpoint \<Rightarrow> bool" where
  "checkpoint_is_complete db org cp =
     (length (filter (\<lambda>i. i \<le> cp_org_event_id cp) (org_ids org db)) = cp_org_event_count cp \<and>
      length (filter (\<lambda>i. i \<le> cp_roster_event_id cp) (roster_ids org db)) = cp_roster_event_count cp)"

definition checkpoint_value :: "checkpoint \<Rightarrow> js_value" where
  "checkpoint_value cp =
     JObj [(''orgEventId'', JNum (int (cp_org_event_id cp))), (''orgEventCount'', JNum (int (cp_org_event_count cp))),
           (''rosterEventId'', JNum (int (cp_roster_event_id cp))), (''rosterEventCount'', JNum (int (cp_roster_event_count cp)))]"

definition field :: "js_value \<Rightarrow> string \<Rightarrow> js_value" where
  "field v k = (case v of JObj kvs \<Rightarrow> obj_get kvs k | _ \<Rightarrow> JUndefined)"

fun safe_nonnegative :: "js_value \<Rightarrow> nat option" where
  "safe_nonnegative (JNum n) = (if 0 \<le> n then Some (nat n) else None)"
| "safe_nonnegative _ = None"

definition valid_checkpoint :: "js_value \<Rightarrow> checkpoint option" where
  "valid_checkpoint v =
     (case (safe_nonnegative (field v ''orgEventId''), safe_nonnegative (field v ''orgEventCount''),
            safe_nonnegative (field v ''rosterEventId''), safe_nonnegative (field v ''rosterEventCount'')) of
        (Some a, Some b, Some c, Some d) \<Rightarrow>
          Some \<lparr>cp_org_event_id = a, cp_org_event_count = b, cp_roster_event_id = c, cp_roster_event_count = d\<rparr>
      | _ \<Rightarrow> None)"

subsection \<open>Tokens\<close>

text \<open>
  The platform: SHA-256 (the keys of the two token domains and the filter digest), HMAC, and
  JSON of the payloads.
\<close>

record audit_platform =
  ap_digest :: "byte list \<Rightarrow> byte list"
  ap_hmac :: "byte list \<Rightarrow> byte list \<Rightarrow> byte list"
  ap_json :: "js_value \<Rightarrow> byte list"
  ap_parse :: "byte list \<Rightarrow> js_value option"

datatype token_purpose = CursorToken | CompletionToken

definition token_key :: "audit_platform \<Rightarrow> string \<Rightarrow> token_purpose \<Rightarrow> byte list" where
  "token_key ap secret purpose =
     (let domain = (if purpose = CursorToken then ''agentcall-audit-export'' else ''agentcall-audit-export-completion'')
      in ap_digest ap (utf8 (js (domain @ [CHR 0x00] @ secret))))"

fun or_null :: "js_value option \<Rightarrow> js_value" where
  "or_null None = JNull"
| "or_null (Some v) = v"

definition filter_digest :: "audit_platform \<Rightarrow> export_query \<Rightarrow> string" where
  "filter_digest ap q =
     to_base64url (ap_digest ap (ap_json ap (JArr
       [or_null (map_option JStr (eq_actor q)), or_null (map_option JStr (eq_event q)),
        or_null (map_option JStr (eq_actor_ip q))])))"

definition audit_cursor_payload ::
  "audit_platform \<Rightarrow> string \<Rightarrow> string \<Rightarrow> export_query \<Rightarrow> checkpoint \<Rightarrow> position \<Rightarrow> js_value" where
  "audit_cursor_payload ap org handle q cp p =
     JObj [(''org'', JStr org), (''handle'', JStr handle),
           (''after'', or_null (map_option JNum (eq_after q))), (''before'', or_null (map_option JNum (eq_before q))),
           (''pageSize'', JNum (eq_page_size q)), (''filterDigest'', JStr (filter_digest ap q)),
           (''checkpoint'', checkpoint_value cp),
           (''position'', JObj [(''at'', JNum (ps_at p)), (''ledger'', JStr (ledger_code (ps_ledger p))),
                                (''id'', JNum (int (ps_id p)))])]"

definition encode_audit_cursor ::
  "audit_platform \<Rightarrow> string \<Rightarrow> string \<Rightarrow> string \<Rightarrow> export_query \<Rightarrow> checkpoint \<Rightarrow> position \<Rightarrow> string" where
  "encode_audit_cursor ap secret org handle q cp p =
     encode_signed_token (ap_hmac ap) (ap_json ap) (audit_cursor_payload ap org handle q cp p)
       (token_key ap secret CursorToken)"

definition read_position :: "js_value \<Rightarrow> position option" where
  "read_position v =
     (case (field v ''at'', field v ''ledger'', field v ''id'') of
        (JNum at, JStr l, JNum i) \<Rightarrow>
          if at < 0 \<or> (l \<noteq> ''org'' \<and> l \<noteq> ''roster'') \<or> i < 1 then None
          else Some \<lparr>ps_at = at, ps_ledger = (if l = ''org'' then OrgLedger else RosterLedger), ps_id = nat i\<rparr>
      | _ \<Rightarrow> None)"

definition check_audit_cursor ::
  "audit_platform \<Rightarrow> string \<Rightarrow> string \<Rightarrow> export_query \<Rightarrow> js_value \<Rightarrow> (checkpoint \<times> position) option" where
  "check_audit_cursor ap org handle q payload =
     (if field payload ''org'' \<noteq> JStr org \<or> field payload ''handle'' \<noteq> JStr handle \<or>
         field payload ''after'' \<noteq> or_null (map_option JNum (eq_after q)) \<or>
         field payload ''before'' \<noteq> or_null (map_option JNum (eq_before q)) \<or>
         field payload ''filterDigest'' \<noteq> JStr (filter_digest ap q) \<or>
         field payload ''pageSize'' \<noteq> JNum (eq_page_size q)
      then None
      else case (valid_checkpoint (field payload ''checkpoint''), read_position (field payload ''position'')) of
          (Some cp, Some p) \<Rightarrow> Some (cp, p) | _ \<Rightarrow> None)"

definition decode_audit_cursor ::
  "audit_platform \<Rightarrow> string \<Rightarrow> string \<Rightarrow> string \<Rightarrow> string \<Rightarrow> export_query \<Rightarrow> (checkpoint \<times> position) option" where
  "decode_audit_cursor ap token secret org handle q =
     Option.bind (decode_signed_token (ap_hmac ap) (ap_parse ap) token (token_key ap secret CursorToken)
                    MAX_AUDIT_TOKEN_LENGTH)
       (check_audit_cursor ap org handle q)"

definition receipt_payload :: "string \<Rightarrow> checkpoint \<Rightarrow> js_value" where
  "receipt_payload org cp =
     JObj [(''version'', JNum 1), (''org'', JStr org), (''checkpoint'', checkpoint_value cp)]"

definition encode_completion_receipt :: "audit_platform \<Rightarrow> string \<Rightarrow> string \<Rightarrow> checkpoint \<Rightarrow> string" where
  "encode_completion_receipt ap secret org cp =
     encode_signed_token (ap_hmac ap) (ap_json ap) (receipt_payload org cp) (token_key ap secret CompletionToken)"

definition check_receipt :: "string \<Rightarrow> js_value \<Rightarrow> checkpoint option" where
  "check_receipt org payload =
     (if field payload ''version'' \<noteq> JNum 1 \<or> field payload ''org'' \<noteq> JStr org then None
      else valid_checkpoint (field payload ''checkpoint''))"

definition decode_completion_receipt :: "audit_platform \<Rightarrow> string \<Rightarrow> string \<Rightarrow> string \<Rightarrow> checkpoint option" where
  "decode_completion_receipt ap token secret org =
     Option.bind (decode_signed_token (ap_hmac ap) (ap_parse ap) token (token_key ap secret CompletionToken)
                    MAX_COMPLETION_RECEIPT_LENGTH)
       (check_receipt org)"

subsection \<open>Pages\<close>

record export_event =
  ex_ledger :: ledger
  ex_id :: nat
  ex_event :: string
  ex_action_type :: string
  ex_roster_id :: "string option"
  ex_actor :: string
  ex_actor_type :: string
  ex_target_type :: "string option"
  ex_target_id :: "string option"
  ex_target_role :: "org_role option"
  ex_actor_ip :: "string option"
  ex_actor_country :: "string option"
  ex_description :: string
  ex_at :: int

fun audit_event_code :: "audit_event \<Rightarrow> string" where
  "audit_event_code OrgInviteIssue = ''org.invite.issue''"
| "audit_event_code OrgInviteRedeem = ''org.invite.redeem''"
| "audit_event_code OrgInviteRevoke = ''org.invite.revoke''"
| "audit_event_code CallSubmit = ''call.submit''"
| "audit_event_code CallAccept = ''call.accept''"
| "audit_event_code CallComplete = ''call.complete''"
| "audit_event_code CallFail = ''call.fail''"
| "audit_event_code CallCancel = ''call.cancel''"
| "audit_event_code CallTimeout = ''call.timeout''"
| "audit_event_code AuditRetentionUpdate = ''audit.retention.update''"
| "audit_event_code AuditHoldCreate = ''audit.hold.create''"
| "audit_event_code AuditHoldRelease = ''audit.hold.release''"
| "audit_event_code CredentialRecoveryIssue = ''credential.recovery.issue''"
| "audit_event_code CredentialRecoveryRedeem = ''credential.recovery.redeem''"

fun action_code :: "audit_action \<Rightarrow> string" where
  "action_code ActionC = ''C''"
| "action_code ActionU = ''U''"

fun actor_code :: "audit_actor \<Rightarrow> string" where
  "actor_code ActorHandle = ''handle''"
| "actor_code ActorBootstrap = ''bootstrap''"
| "actor_code ActorInvite = ''invite''"
| "actor_code ActorSystem = ''system''"
| "actor_code ActorRecovery = ''recovery''"

fun target_code :: "audit_target \<Rightarrow> string" where
  "target_code TargetInvite = ''invite''"
| "target_code TargetHandle = ''handle''"
| "target_code TargetCall = ''call''"
| "target_code TargetRetentionPolicy = ''retention_policy''"
| "target_code TargetLegalHold = ''legal_hold''"

definition org_export :: "ledger_row \<Rightarrow> export_event" where
  "org_export r =
     (let a = lr_audit r
      in \<lparr>ex_ledger = OrgLedger, ex_id = lr_id r, ex_event = audit_event_code (oa_event a),
          ex_action_type = action_code (oa_action a), ex_roster_id = None, ex_actor = oa_actor a,
          ex_actor_type = actor_code (oa_actor_type a), ex_target_type = Some (target_code (oa_target_type a)),
          ex_target_id = Some (oa_target_id a), ex_target_role = oa_target_role a, ex_actor_ip = oa_actor_ip a,
          ex_actor_country = oa_actor_country a, ex_description = oa_description a, ex_at = oa_at a\<rparr>)"

definition roster_export :: "roster_row \<Rightarrow> export_event" where
  "roster_export r =
     \<lparr>ex_ledger = RosterLedger, ex_id = ro_id r, ex_event = ro_event r, ex_action_type = ro_action_type r,
      ex_roster_id = ro_roster_id r, ex_actor = ro_actor r, ex_actor_type = ro_actor_type r,
      ex_target_type = ro_target_type r, ex_target_id = ro_target_id r, ex_target_role = None,
      ex_actor_ip = ro_actor_ip r, ex_actor_country = ro_actor_country r, ex_description = ro_description r,
      ex_at = ro_at r\<rparr>"

definition combined :: "relay_db \<Rightarrow> string \<Rightarrow> checkpoint \<Rightarrow> export_event list" where
  "combined db org cp =
     map org_export (filter (\<lambda>r. of_org org r \<and> lr_id r \<le> cp_org_event_id cp) (rd_events db)) @
     map roster_export (filter (\<lambda>r. ro_org r = org \<and> ro_id r \<le> cp_roster_event_id cp) (rd_roster db))"

definition query_selects :: "export_query \<Rightarrow> export_event \<Rightarrow> bool" where
  "query_selects q e =
     (opt_all (\<lambda>t. ex_at e \<ge> t) (eq_after q) \<and> opt_all (\<lambda>t. ex_at e < t) (eq_before q) \<and>
      opt_all (\<lambda>a. ex_actor e = a) (eq_actor q) \<and> opt_all (\<lambda>v. ex_event e = v) (eq_event q) \<and>
      opt_all (\<lambda>p. ex_actor_ip e = Some p) (eq_actor_ip q))"

text \<open>The column \<open>ledger\<close> is compared as text, and \<open>'org'\<close> is before \<open>'roster'\<close>.\<close>

definition ledger_rank :: "ledger \<Rightarrow> nat" where
  "ledger_rank l = (case l of OrgLedger \<Rightarrow> 0 | RosterLedger \<Rightarrow> 1)"

definition export_key :: "export_event \<Rightarrow> int \<times> nat \<times> nat" where
  "export_key e = (ex_at e, ledger_rank (ex_ledger e), ex_id e)"

definition after_position :: "position \<Rightarrow> export_event \<Rightarrow> bool" where
  "after_position p e =
     (ex_at e > ps_at p \<or>
      (ex_at e = ps_at p \<and>
       (ledger_rank (ex_ledger e) > ledger_rank (ps_ledger p) \<or>
        (ex_ledger e = ps_ledger p \<and> ex_id e > ps_id p))))"

definition read_page :: "relay_db \<Rightarrow> string \<Rightarrow> export_query \<Rightarrow> checkpoint \<Rightarrow> position option \<Rightarrow> export_event list" where
  "read_page db org q cp p =
     take (Suc (nat (eq_page_size q)))
       (sort_key export_key (filter (\<lambda>e. query_selects q e \<and> opt_all (\<lambda>x. after_position x e) p) (combined db org cp)))"

record export_page =
  pg_events :: "export_event list"
  pg_checkpoint :: checkpoint
  pg_next_page_token :: string
  pg_completion_receipt :: "string option"
  pg_acknowledged_checkpoint :: "checkpoint option"

definition full_ledger :: "export_query \<Rightarrow> bool" where
  "full_ledger q =
     (eq_after q = None \<and> eq_before q = None \<and> eq_actor q = None \<and> eq_event q = None \<and> eq_actor_ip q = None)"

definition position_of :: "export_event \<Rightarrow> position" where
  "position_of e = \<lparr>ps_at = ex_at e, ps_ledger = ex_ledger e, ps_id = ex_id e\<rparr>"

definition assemble_page ::
  "audit_platform \<Rightarrow> string \<Rightarrow> string \<Rightarrow> string \<Rightarrow> export_query \<Rightarrow> checkpoint \<Rightarrow> export_event list \<Rightarrow> checkpoint option
   \<Rightarrow> export_page" where
  "assemble_page ap secret org handle q cp rows acknowledged =
     (let size = nat (eq_page_size q);
          events = take size rows;
          next_token = (if length rows > size \<and> events \<noteq> []
                        then encode_audit_cursor ap secret org handle q cp (position_of (last events)) else '''')
      in \<lparr>pg_events = events, pg_checkpoint = cp, pg_next_page_token = next_token,
          pg_completion_receipt =
            (if full_ledger q \<and> next_token = '''' then Some (encode_completion_receipt ap secret org cp) else None),
          pg_acknowledged_checkpoint = acknowledged\<rparr>)"

text \<open>
  The four reads of one request may each see a later database: \<open>cap_db\<close> for a fresh
  checkpoint, \<open>page_db\<close> for the rows, \<open>check_db\<close> for the completeness check and \<open>ack_db\<close> for
  the acknowledgement. The cursor's checkpoint replaces a fresh one.
\<close>

definition export_events ::
  "audit_platform \<Rightarrow> string option \<Rightarrow> identity \<Rightarrow> (string \<times> string) list \<Rightarrow> relay_db \<Rightarrow> relay_db \<Rightarrow> relay_db \<Rightarrow> relay_db
   \<Rightarrow> export_page http" where
  "export_events ap secret i params cap_db page_db check_db ack_db =
     (case parse_query params of
        None \<Rightarrow> Refuse 400 ''invalid audit export parameters''
      | Some q \<Rightarrow>
          if \<not> truthy_str secret then Refuse 503 ''audit export unavailable''
          else (let cursor = (if truthy_str (eq_page_token q)
                              then decode_audit_cursor ap (the (eq_page_token q)) (the secret) (id_org i) (id_handle i) q
                              else None)
                in if truthy_str (eq_page_token q) \<and> cursor = None then Refuse 400 ''invalid page token''
                   else (let cp = (case cursor of Some (c, _) \<Rightarrow> c | None \<Rightarrow> capture_checkpoint cap_db (id_org i));
                             rows = read_page page_db (id_org i) q cp (map_option snd cursor)
                         in if \<not> checkpoint_is_complete check_db (id_org i) cp
                            then Refuse 409 ''audit snapshot changed; restart export''
                            else Ok (assemble_page ap (the secret) (id_org i) (id_handle i) q cp rows
                                       (map_option ak_checkpoint (select_ack ack_db (id_org i)))))))"

text \<open>The body is the serialized page; its digest is the entity tag.\<close>

datatype export_response = NotModified string | PageBody string string

definition export_answer :: "relay_env \<Rightarrow> (export_page \<Rightarrow> string) \<Rightarrow> string option \<Rightarrow> export_page \<Rightarrow> export_response" where
  "export_answer env json if_none_match page =
     (let body = json page; etag = [CHR 0x22] @ sha256_hex env body @ [CHR 0x22]
      in if if_none_match_matches if_none_match etag then NotModified etag else PageBody etag body)"

definition get_audit_events ::
  "relay_env \<Rightarrow> audit_platform \<Rightarrow> (export_page \<Rightarrow> string) \<Rightarrow> string option \<Rightarrow> admission \<Rightarrow> identity \<Rightarrow> request_headers
   \<Rightarrow> string option \<Rightarrow> (string \<times> string) list \<Rightarrow> relay_db \<Rightarrow> relay_db \<Rightarrow> relay_db \<Rightarrow> relay_db
   \<Rightarrow> relay_db \<times> export_response http" where
  "get_audit_events env ap json secret admit i req if_none_match params cap_db page_db check_db ack_db =
     rate_limit admit (DurableLimit AUDIT_READ) (ByIdentity ''audit-export:'') req i ack_db
       (require_admin i ack_db
         (ack_db, (case export_events ap secret i params cap_db page_db check_db ack_db of
            Ok page \<Rightarrow> Ok (export_answer env json if_none_match page)
          | Refuse status e \<Rightarrow> Refuse status e
          | Uncaught \<Rightarrow> Uncaught)))"

subsection \<open>Acknowledgements\<close>

definition parse_acknowledgement_request :: "js_value \<Rightarrow> string option" where
  "parse_acknowledgement_request v = (case as_object v of None \<Rightarrow> None | Some kvs \<Rightarrow>
     if \<not> strict_keys [''completion_receipt''] kvs then None
     else read_str (\<lambda>s. 1 \<le> length s \<and> length s \<le> 1024) (obj_get kvs ''completion_receipt''))"

definition supersedes :: "checkpoint \<Rightarrow> checkpoint \<Rightarrow> bool" where
  "supersedes new old =
     (cp_org_event_id new \<ge> cp_org_event_id old \<and> cp_roster_event_id new \<ge> cp_roster_event_id old \<and>
      (cp_org_event_id new > cp_org_event_id old \<or> cp_roster_event_id new > cp_roster_event_id old))"

definition acknowledge_batch :: "string \<Rightarrow> checkpoint \<Rightarrow> string \<Rightarrow> int \<Rightarrow> relay_db \<Rightarrow> (relay_db \<times> unit) option" where
  "acknowledge_batch org cp actor now db =
     (let row = \<lparr>ak_org = org, ak_checkpoint = cp, ak_acknowledged_by = actor, ak_acknowledged_at = now\<rparr>
      in Some (db\<lparr>rd_acks := sql_upsert ak_org
             (\<lambda>old. if supersedes cp (ak_checkpoint old)
                    then old\<lparr>ak_checkpoint := cp, ak_acknowledged_by := actor, ak_acknowledged_at := now\<rparr> else old)
             row (rd_acks db)\<rparr>, ()))"

definition post_acknowledgement ::
  "audit_platform \<Rightarrow> string option \<Rightarrow> batch_fate \<Rightarrow> admission \<Rightarrow> identity \<Rightarrow> request_headers \<Rightarrow> js_value option \<Rightarrow> int
   \<Rightarrow> relay_db \<Rightarrow> (relay_db \<Rightarrow> relay_db) \<Rightarrow> relay_db \<times> ack_row http" where
  "post_acknowledgement ap secret fate admit i req body now db later =
     rate_limit admit (DurableLimit AUDIT_WRITE) (ByIdentity ''audit-ack:'') req i db
       (require_admin i db
         (case json_body parse_acknowledgement_request body None of
            None \<Rightarrow> (db, Refuse 400 ''invalid request'')
          | Some token \<Rightarrow>
              if \<not> truthy_str secret then (db, Refuse 503 ''audit export unavailable'')
              else (case decode_completion_receipt ap token (the secret) (id_org i) of
                      None \<Rightarrow> (db, Refuse 400 ''invalid completion receipt'')
                    | Some cp \<Rightarrow>
                        (let (db', changes) = run_batch fate (acknowledge_batch (id_org i) cp (id_handle i) now) db
                         in (db', (case changes of
                                None \<Rightarrow> Uncaught
                              | Some _ \<Rightarrow>
                                  (case select_ack (later db') (id_org i) of
                                     None \<Rightarrow> Refuse 503 ''audit acknowledgement unavailable''
                                   | Some row \<Rightarrow>
                                       if ak_checkpoint row \<noteq> cp
                                       then Refuse 409 ''completion receipt is older than the acknowledged checkpoint''
                                       else Ok row)))))))"

end
