(* ===== verification/AuditSnapshot.thy ===== *)
theory AuditSnapshot
  imports AuditExport
begin

text \<open>
  A finished audit export is the snapshot its first page captured: every page that passes its
  completeness check was read from ledgers that still held exactly the checkpointed rows,
  and the cursors walk these rows in order without a gap or a repetition.
\<close>

subsection \<open>Keyset paging\<close>

text \<open>
  The contract of a listing that is ordered by a key, read a page at a time, each page after
  the key of the last row of the page before.
\<close>

locale keyset_paging =
  fixes key :: "'a \<Rightarrow> 'k::linorder"
begin

definition strictly :: "'a list \<Rightarrow> bool" where
  "strictly xs = sorted_wrt (<) (map key xs)"

lemma strictly_sort: "distinct (map key xs) \<Longrightarrow> strictly (sort_key key xs)"
proof -
  assume "distinct (map key xs)"
  then have "distinct (map key (sort_key key xs))"
    by (simp add: distinct_map)
  moreover have "sorted (map key (sort_key key xs))" by simp
  ultimately show ?thesis unfolding strictly_def by (simp add: strict_sorted_iff)
qed

lemma sort_unique:
  assumes "distinct (map key xs)" "distinct (map key ys)" "set xs = set ys"
  shows "sort_key key xs = sort_key key ys"
proof (rule map_sorted_distinct_set_unique[of key])
  show "inj_on key (set (sort_key key xs) \<union> set (sort_key key ys))"
    using assms by (simp add: distinct_map)
qed (use assms in \<open>simp_all add: distinct_map\<close>)

lemma strictly_filter: "strictly xs \<Longrightarrow> strictly (filter P xs)"
  by (simp add: strictly_def sorted_wrt_map sorted_wrt_filter)

lemma after_last:
  assumes "strictly xs" "0 < n" "n \<le> length xs"
  shows "filter (\<lambda>x. key (last (take n xs)) < key x) xs = drop n xs"
proof -
  have s: "strictly (take n xs @ drop n xs)" using assms(1) by simp
  have ne: "take n xs \<noteq> []" using assms(2,3) by auto
  have hi: "x \<in> set (drop n xs) \<Longrightarrow> key (last (take n xs)) < key x" for x
    using s last_in_set[OF ne] by (auto simp: strictly_def sorted_wrt_append simp del: append_take_drop_id)
  have lo: "x \<in> set (take n xs) \<Longrightarrow> key x \<le> key (last (take n xs))" for x
  proof -
    assume x: "x \<in> set (take n xs)"
    obtain zs z where z: "take n xs = zs @ [z]" using ne by (metis append_butlast_last_id)
    have "strictly (zs @ [z])" using s z by (simp add: strictly_def sorted_wrt_append del: append_take_drop_id)
    then show ?thesis using x z by (auto simp: strictly_def sorted_wrt_append less_imp_le)
  qed
  have "filter (\<lambda>x. key (last (take n xs)) < key x) (take n xs @ drop n xs) = drop n xs"
    unfolding filter_append
    using hi lo by (auto simp: filter_empty_conv filter_id_conv not_less)
  then show ?thesis by simp
qed

end

interpretation export_paging: keyset_paging export_key .


lemma ledger_rank_inj: "ledger_rank a = ledger_rank b \<longleftrightarrow> a = b"
  by (cases a; cases b) (simp_all add: ledger_rank_def)

lemma after_position_key: "after_position (position_of e) x \<longleftrightarrow> export_key e < export_key x"
  by (auto simp: after_position_def position_of_def export_key_def less_prod_def ledger_rank_inj)

subsection \<open>The rows of a checkpoint\<close>

definition ledger_ids_ok :: "relay_db \<Rightarrow> bool" where
  "ledger_ids_ok db = (distinct (map lr_id (rd_events db)) \<and> distinct (map ro_id (rd_roster db)))"

lemma distinct_keys:
  assumes "ledger_ids_ok db"
  shows "distinct (map export_key (combined db org cp))"
proof -
  let ?os = "filter (\<lambda>r. of_org org r \<and> lr_id r \<le> cp_org_event_id cp) (rd_events db)"
  let ?rs = "filter (\<lambda>r. ro_org r = org \<and> ro_id r \<le> cp_roster_event_id cp) (rd_roster db)"
  have "distinct (map lr_id ?os)" "distinct (map ro_id ?rs)"
    using assms by (auto simp: ledger_ids_ok_def intro: distinct_map_filter)
  then have "inj_on lr_id (set ?os) \<and> distinct ?os" "inj_on ro_id (set ?rs) \<and> distinct ?rs"
    unfolding distinct_map by blast+
  then have "distinct (map (export_key \<circ> org_export) ?os)" "distinct (map (export_key \<circ> roster_export) ?rs)"
    unfolding distinct_map inj_on_def by (auto simp: export_key_def org_export_def roster_export_def Let_def)
  then show ?thesis
    by (auto simp: combined_def export_key_def org_export_def roster_export_def Let_def ledger_rank_def)
qed

lemma length_combined:
  "length (combined db org cp) =
   length (filter (\<lambda>i. i \<le> cp_org_event_id cp) (org_ids org db)) +
   length (filter (\<lambda>i. i \<le> cp_roster_event_id cp) (roster_ids org db))"
  by (simp add: combined_def org_ids_def roster_ids_def filter_map comp_def conj_commute)

lemma complete_length:
  "checkpoint_is_complete db org cp \<Longrightarrow>
   length (combined db org cp) = cp_org_event_count cp + cp_roster_event_count cp"
  by (simp add: length_combined checkpoint_is_complete_def)

lemma coalesce_max_ge: "i \<in> set ids \<Longrightarrow> i \<le> coalesce_max ids"
proof -
  have "i \<in> set ids \<Longrightarrow> i \<le> fold max ids k" "k \<le> fold max ids k" for k
    by (induction ids arbitrary: k) (auto intro: order_trans[OF max.cobounded2] order_trans[OF max.cobounded1])
  then show "i \<in> set ids \<Longrightarrow> i \<le> coalesce_max ids" by (simp add: coalesce_max_def)
qed

lemma capture_complete: "checkpoint_is_complete db org (capture_checkpoint db org)"
  by (simp add: checkpoint_is_complete_def capture_checkpoint_def coalesce_max_ge)

lemma combined_capture:
  "combined db org (capture_checkpoint db org) =
   map org_export (filter (of_org org) (rd_events db)) @
   map roster_export (filter (\<lambda>r. ro_org r = org) (rd_roster db))"
proof -
  have "of_org org r \<Longrightarrow> r \<in> set (rd_events db) \<Longrightarrow> lr_id r \<le> coalesce_max (org_ids org db)" for r
    by (rule coalesce_max_ge) (simp add: org_ids_def)
  moreover have "ro_org r = org \<Longrightarrow> r \<in> set (rd_roster db) \<Longrightarrow> ro_id r \<le> coalesce_max (roster_ids org db)" for r
    by (rule coalesce_max_ge) (simp add: roster_ids_def)
  ultimately show ?thesis
    by (auto simp: combined_def capture_checkpoint_def intro!: arg_cong2[of _ _ _ _ append] arg_cong[of _ _ "map _"] filter_cong)
qed

text \<open>A later database has lost rows below the checkpoint, and gained none.\<close>

definition shrinks :: "string \<Rightarrow> checkpoint \<Rightarrow> relay_db \<Rightarrow> relay_db \<Rightarrow> bool" where
  "shrinks org cp d d' = (set (combined d' org cp) \<subseteq> set (combined d org cp))"

lemma complete_pins_snapshot:
  assumes "ledger_ids_ok cap" "ledger_ids_ok check_db"
    "shrinks org cp cap page_db" "shrinks org cp page_db check_db"
    "checkpoint_is_complete cap org cp" "checkpoint_is_complete check_db org cp"
  shows "set (combined page_db org cp) = set (combined cap org cp)"
proof -
  have "distinct (combined cap org cp)" "distinct (combined check_db org cp)"
    using distinct_keys[OF assms(1)] distinct_keys[OF assms(2)] unfolding distinct_map by blast+
  then have "card (set (combined check_db org cp)) = card (set (combined cap org cp))"
    using complete_length assms(5,6) by (metis distinct_card)
  moreover have "set (combined check_db org cp) \<subseteq> set (combined cap org cp)"
    using assms(3,4) by (auto simp: shrinks_def)
  ultimately have "set (combined check_db org cp) = set (combined cap org cp)"
    by (metis List.finite_set card_subset_eq)
  then show ?thesis using assms(3,4) by (auto simp: shrinks_def)
qed

definition snapshot_rows :: "relay_db \<Rightarrow> string \<Rightarrow> export_query \<Rightarrow> checkpoint \<Rightarrow> export_event list" where
  "snapshot_rows db org q cp = sort_key export_key (filter (query_selects q) (combined db org cp))"

lemma snapshot_strictly: "ledger_ids_ok db \<Longrightarrow> export_paging.strictly (snapshot_rows db org q cp)"
  unfolding snapshot_rows_def
  by (rule export_paging.strictly_sort) (simp add: distinct_keys distinct_map_filter)

lemma read_page_snapshot:
  assumes "ledger_ids_ok cap" "ledger_ids_ok page_db" "set (combined page_db org cp) = set (combined cap org cp)"
  shows "read_page page_db org q cp p =
    take (Suc (nat (eq_page_size q))) (filter (\<lambda>e. opt_all (\<lambda>x. after_position x e) p) (snapshot_rows cap org q cp))"
proof -
  have "sort_key export_key (filter (\<lambda>e. query_selects q e \<and> opt_all (\<lambda>x. after_position x e) p) (combined page_db org cp)) =
    sort_key export_key (filter (\<lambda>e. opt_all (\<lambda>x. after_position x e) p) (filter (query_selects q) (combined cap org cp)))"
    by (rule export_paging.sort_unique)
       (use assms in \<open>auto intro!: distinct_map_filter simp: distinct_keys\<close>)
  also have "\<dots> = filter (\<lambda>e. opt_all (\<lambda>x. after_position x e) p) (snapshot_rows cap org q cp)"
    by (simp add: snapshot_rows_def filter_sort)
  finally show ?thesis by (simp add: read_page_def)
qed


subsection \<open>Following the tokens\<close>

text \<open>
  A client that asks for page after page with the token of the page before, each request at
  its own databases, until a page has no token. Any refusal ends the export without a result.
\<close>

type_synonym request_dbs = "relay_db \<times> relay_db \<times> relay_db"

fun follow_export ::
  "audit_platform \<Rightarrow> string \<Rightarrow> identity \<Rightarrow> (string \<times> string) list \<Rightarrow> relay_db \<Rightarrow> string option \<Rightarrow> request_dbs list
   \<Rightarrow> export_event list option" where
  "follow_export ap secret i params cap token [] = None"
| "follow_export ap secret i params cap token ((page_db, check_db, ack_db) # rest) =
     (case export_events ap (Some secret) i
         ((case token of None \<Rightarrow> [] | Some t \<Rightarrow> [(''page_token'', t)]) @ params) cap page_db check_db ack_db of
        Ok page \<Rightarrow>
          if pg_next_page_token page = [] then Some (pg_events page)
          else map_option (\<lambda>es. pg_events page @ es)
                 (follow_export ap secret i params cap (Some (pg_next_page_token page)) rest)
      | _ \<Rightarrow> None)"

text \<open>
  The platform on the tokens of one export: JSON round-trips, a MAC is not empty, and the
  cursors fit the limit. The rows have positive ids and times.
\<close>

definition tokens_ok :: "audit_platform \<Rightarrow> string \<Rightarrow> identity \<Rightarrow> export_query \<Rightarrow> checkpoint \<Rightarrow> export_event list \<Rightarrow> bool" where
  "tokens_ok ap secret i q cp rows =
     (\<forall>e\<in>set rows. 0 \<le> ex_at e \<and> 1 \<le> ex_id e \<and>
       (let payload = audit_cursor_payload ap (id_org i) (id_handle i) q cp (position_of e)
        in ap_json ap payload \<noteq> [] \<and> ap_hmac ap (token_key ap secret CursorToken) (ap_json ap payload) \<noteq> [] \<and>
           ap_parse ap (ap_json ap payload) = Some payload \<and>
           length (encode_audit_cursor ap secret (id_org i) (id_handle i) q cp (position_of e)) \<le> MAX_AUDIT_TOKEN_LENGTH))"

lemma parse_query_token:
  assumes "parse_query params = Some q" "map_of params ''page_token'' = None"
  shows "eq_page_token q = None" "parse_query ((''page_token'', t) # params) = Some (q\<lparr>eq_page_token := Some t\<rparr>)"
  using assms by (auto simp: parse_query_def Let_def split: option.splits if_splits)

lemma parse_query_size: "parse_query params = Some q \<Longrightarrow> 0 < nat (eq_page_size q)"
  by (auto simp: parse_query_def Let_def split: option.splits if_splits)

lemma valid_checkpoint_value: "valid_checkpoint (checkpoint_value cp) = Some cp"
  by (simp add: valid_checkpoint_def checkpoint_value_def field_def obj_get_def)

lemma read_position_value:
  "0 \<le> ps_at p \<Longrightarrow> 1 \<le> ps_id p \<Longrightarrow>
   read_position (JObj [(''at'', JNum (ps_at p)), (''ledger'', JStr (ledger_code (ps_ledger p))),
     (''id'', JNum (int (ps_id p)))]) = Some p"
  by (cases "ps_ledger p") (simp_all add: read_position_def field_def obj_get_def)

lemma payload_token [simp]:
  "audit_cursor_payload ap org handle (q\<lparr>eq_page_token := t\<rparr>) cp p = audit_cursor_payload ap org handle q cp p"
  by (simp add: audit_cursor_payload_def filter_digest_def)

lemma encode_audit_cursor_token [simp]:
  "encode_audit_cursor ap secret org handle (q\<lparr>eq_page_token := t\<rparr>) cp p = encode_audit_cursor ap secret org handle q cp p"
  by (simp add: encode_audit_cursor_def)

lemma check_audit_cursor_payload:
  assumes "0 \<le> ps_at p" "1 \<le> ps_id p"
  shows "check_audit_cursor ap org handle (q\<lparr>eq_page_token := t\<rparr>) (audit_cursor_payload ap org handle q cp p) = Some (cp, p)"
  using assms
  by (simp add: check_audit_cursor_def audit_cursor_payload_def filter_digest_def field_def obj_get_def
      valid_checkpoint_value read_position_value)

lemma decode_encode_audit_cursor:
  assumes "tokens_ok ap secret i q cp rows" "e \<in> set rows"
  shows "decode_audit_cursor ap (encode_audit_cursor ap secret (id_org i) (id_handle i) q cp (position_of e))
      secret (id_org i) (id_handle i) (q\<lparr>eq_page_token := t\<rparr>) = Some (cp, position_of e)"
    "encode_audit_cursor ap secret (id_org i) (id_handle i) q cp (position_of e) \<noteq> []"
proof -
  let ?pl = "audit_cursor_payload ap (id_org i) (id_handle i) q cp (position_of e)"
  have t: "0 \<le> ex_at e" "1 \<le> ex_id e" "ap_json ap ?pl \<noteq> []"
    "ap_hmac ap (token_key ap secret CursorToken) (ap_json ap ?pl) \<noteq> []" "ap_parse ap (ap_json ap ?pl) = Some ?pl"
    "length (encode_audit_cursor ap secret (id_org i) (id_handle i) q cp (position_of e)) \<le> MAX_AUDIT_TOKEN_LENGTH"
    using assms(1,2) by (auto simp: tokens_ok_def Let_def)
  show "decode_audit_cursor ap (encode_audit_cursor ap secret (id_org i) (id_handle i) q cp (position_of e))
      secret (id_org i) (id_handle i) (q\<lparr>eq_page_token := t\<rparr>) = Some (cp, position_of e)"
    unfolding decode_audit_cursor_def encode_audit_cursor_def
    by (subst decode_encode_token)
       (use t in \<open>auto simp: encode_audit_cursor_def check_audit_cursor_payload position_of_def\<close>)
  show "encode_audit_cursor ap secret (id_org i) (id_handle i) q cp (position_of e) \<noteq> []"
    by (simp add: encode_audit_cursor_def encode_signed_token_def Let_def)
qed


definition request_ok :: "string \<Rightarrow> checkpoint \<Rightarrow> relay_db \<Rightarrow> request_dbs \<Rightarrow> bool" where
  "request_ok org cp cap r = (case r of (page_db, check_db, ack_db) \<Rightarrow>
     ledger_ids_ok page_db \<and> ledger_ids_ok check_db \<and> shrinks org cp cap page_db \<and> shrinks org cp page_db check_db)"

text \<open>One accepted request, at the position its token stands for.\<close>

lemma export_request:
  assumes q: "parse_query params = Some q" "map_of params ''page_token'' = None"
    and cap: "ledger_ids_ok cap" "checkpoint_is_complete cap (id_org i) cp"
    and rows: "rows = snapshot_rows cap (id_org i) q cp"
    and req: "request_ok (id_org i) cp cap (page_db, check_db, ack_db)"
    and tok: "(token = None \<and> pos = None \<and> cp = capture_checkpoint cap (id_org i)) \<or>
      (\<exists>t e. token = Some t \<and> t \<noteq> [] \<and> pos = Some e \<and>
        decode_audit_cursor ap t secret (id_org i) (id_handle i) (q\<lparr>eq_page_token := Some t\<rparr>) = Some (cp, e))"
    and ok: "export_events ap (Some secret) i
      ((case token of None \<Rightarrow> [] | Some t \<Rightarrow> [(''page_token'', t)]) @ params) cap page_db check_db ack_db = Ok page"
  shows "\<exists>ack. page = assemble_page ap secret (id_org i) (id_handle i) q cp
    (take (Suc (nat (eq_page_size q))) (filter (\<lambda>e. opt_all (\<lambda>x. after_position x e) pos) rows)) ack"
proof -
  define q' where "q' = (case token of None \<Rightarrow> q | Some t \<Rightarrow> q\<lparr>eq_page_token := Some t\<rparr>)"
  have pq: "parse_query ((case token of None \<Rightarrow> [] | Some t \<Rightarrow> [(''page_token'', t)]) @ params) = Some q'"
    using q parse_query_token by (cases token) (auto simp: q'_def)
  have cur: "(case (if truthy_str (eq_page_token q')
       then decode_audit_cursor ap (the (eq_page_token q')) secret (id_org i) (id_handle i) q' else None) of
      Some (c, _) \<Rightarrow> c | None \<Rightarrow> capture_checkpoint cap (id_org i)) = cp"
    "map_option snd (if truthy_str (eq_page_token q')
       then decode_audit_cursor ap (the (eq_page_token q')) secret (id_org i) (id_handle i) q' else None) = pos"
    using tok parse_query_token(1)[OF q] by (auto simp: q'_def)
  have size: "eq_page_size q' = eq_page_size q" "query_selects q' = query_selects q"
    by (cases token; simp add: q'_def query_selects_def fun_eq_iff)+
  have compl: "checkpoint_is_complete check_db (id_org i) cp"
    and page: "\<exists>ack. page = assemble_page ap secret (id_org i) (id_handle i) q' cp
      (read_page page_db (id_org i) q' cp pos) ack"
    using ok unfolding export_events_def pq option.case Let_def cur option.sel by (auto split: if_splits)
  have snap: "set (combined page_db (id_org i) cp) = set (combined cap (id_org i) cp)"
    using req complete_pins_snapshot[OF cap(1) _ _ _ cap(2) compl] by (simp add: request_ok_def)
  have "snapshot_rows cap (id_org i) q' cp = rows" using size rows by (simp add: snapshot_rows_def)
  then have rp: "read_page page_db (id_org i) q' cp pos =
      take (Suc (nat (eq_page_size q))) (filter (\<lambda>e. opt_all (\<lambda>x. after_position x e) pos) rows)"
    using read_page_snapshot[OF cap(1) _ snap, of q' pos] req size by (simp add: request_ok_def)
  have "assemble_page ap secret (id_org i) (id_handle i) q' cp r ack = assemble_page ap secret (id_org i) (id_handle i) q cp r ack" for r ack
    by (cases token) (simp_all add: q'_def assemble_page_def full_ledger_def Let_def)
  then show ?thesis using page rp by auto
qed

lemma follow_from:
  assumes q: "parse_query params = Some q" "map_of params ''page_token'' = None"
    and cap: "ledger_ids_ok cap" "checkpoint_is_complete cap (id_org i) cp"
    and rows: "rows = snapshot_rows cap (id_org i) q cp"
    and toks: "tokens_ok ap secret i q cp rows"
  shows "(token = None \<and> pos = None \<and> cp = capture_checkpoint cap (id_org i)) \<or>
      (\<exists>t e. token = Some t \<and> t \<noteq> [] \<and> pos = Some e \<and>
        decode_audit_cursor ap t secret (id_org i) (id_handle i) (q\<lparr>eq_page_token := Some t\<rparr>) = Some (cp, e)) \<Longrightarrow>
    list_all (request_ok (id_org i) cp cap) dbs \<Longrightarrow>
    follow_export ap secret i params cap token dbs = Some es \<Longrightarrow>
    es = filter (\<lambda>e. opt_all (\<lambda>x. after_position x e) pos) rows"
proof (induction dbs arbitrary: token pos es)
  case (Cons r rest)
  obtain page_db check_db ack_db where r: "r = (page_db, check_db, ack_db)" by (cases r)
  let ?n = "nat (eq_page_size q)"
  let ?left = "filter (\<lambda>e. opt_all (\<lambda>x. after_position x e) pos) rows"
  obtain page where page: "export_events ap (Some secret) i
      ((case token of None \<Rightarrow> [] | Some t \<Rightarrow> [(''page_token'', t)]) @ params) cap page_db check_db ack_db = Ok page"
    using Cons.prems(3) r by (auto split: http.splits)
  obtain ack where p: "page = assemble_page ap secret (id_org i) (id_handle i) q cp (take (Suc ?n) ?left) ack"
    using export_request[OF q cap rows _ Cons.prems(1) page] Cons.prems(2) r by auto
  have n: "0 < ?n" by (rule parse_query_size[OF q(1)])
  have ev: "pg_events page = take ?n ?left" by (simp add: p assemble_page_def Let_def)
  have strict: "export_paging.strictly ?left"
    using snapshot_strictly[OF cap(1)] rows by (simp add: export_paging.strictly_filter)
  show ?case
  proof (cases "?n < length ?left")
    case False
    then have "pg_next_page_token page = []" by (simp add: p assemble_page_def Let_def)
    then show ?thesis using Cons.prems(3) r page ev False by simp
  next
    case True
    let ?e = "last (take ?n ?left)"
    have "take ?n ?left \<noteq> []" using n True by auto
    then have left: "?e \<in> set ?left" by (meson in_set_takeD last_in_set)
    then have mem: "?e \<in> set rows" by simp
    have tk: "pg_next_page_token page = encode_audit_cursor ap secret (id_org i) (id_handle i) q cp (position_of ?e)"
      using True n by (auto simp: p assemble_page_def Let_def)
    note dec = decode_encode_audit_cursor[OF toks mem]
    obtain es' where es': "follow_export ap secret i params cap (Some (pg_next_page_token page)) rest = Some es'"
      "es = take ?n ?left @ es'"
      using Cons.prems(3) r page tk dec(2) ev by auto
    have "es' = filter (\<lambda>x. opt_all (\<lambda>y. after_position y x) (Some (position_of ?e))) rows"
      by (rule Cons.IH[OF _ _ es'(1)]) (use tk dec Cons.prems(2) in auto)
    moreover have "filter (\<lambda>x. after_position (position_of ?e) x) rows =
        filter (\<lambda>x. after_position (position_of ?e) x) ?left"
    proof -
      have "opt_all (\<lambda>x. after_position x ?e) pos" using left by simp
      then have "after_position (position_of ?e) x \<Longrightarrow> opt_all (\<lambda>y. after_position y x) pos" for x
        by (cases pos) (auto simp: after_position_def position_of_def ledger_rank_inj)
      then show ?thesis unfolding filter_filter by (intro filter_cong) blast+
    qed
    moreover have "filter (\<lambda>x. after_position (position_of ?e) x) ?left = drop ?n ?left"
      using export_paging.after_last[OF strict n] True by (simp only: after_position_key less_imp_le)
    ultimately show ?thesis using es'(2) by simp
  qed
qed simp

subsection \<open>Properties\<close>

text \<open>
  C19: An administrator who follows the page tokens to the end, and is never refused, has every
  event of the two ledgers that the query selects as they stood when the first page was
  asked for, each once and in the order of time, ledger and id; whatever was appended or
  deleted while the pages were read.
\<close>

theorem export_is_the_snapshot:
  assumes "parse_query params = Some q" "map_of params ''page_token'' = None" "ledger_ids_ok cap"
    "tokens_ok ap secret i q (capture_checkpoint cap (id_org i)) (snapshot_rows cap (id_org i) q (capture_checkpoint cap (id_org i)))"
    "list_all (request_ok (id_org i) (capture_checkpoint cap (id_org i)) cap) dbs"
    "follow_export ap secret i params cap None dbs = Some es"
  shows "es = sort_key export_key (filter (query_selects q)
      (map org_export (filter (of_org (id_org i)) (rd_events cap)) @
       map roster_export (filter (\<lambda>r. ro_org r = id_org i) (rd_roster cap))))
    \<and> sorted_wrt (<) (map export_key es)"
proof -
  let ?cp = "capture_checkpoint cap (id_org i)"
  have "es = filter (\<lambda>e. opt_all (\<lambda>x. after_position x e) None) (snapshot_rows cap (id_org i) q ?cp)"
    by (rule follow_from[OF assms(1,2,3) capture_complete refl assms(4) _ assms(5,6)]) simp
  then have "es = snapshot_rows cap (id_org i) q ?cp" by simp
  moreover have "sorted_wrt (<) (map export_key (snapshot_rows cap (id_org i) q ?cp))"
    using snapshot_strictly[OF assms(3)] by (simp add: export_paging.strictly_def)
  ultimately show ?thesis by (simp add: snapshot_rows_def combined_capture)
qed

definition sample_audit :: "int \<Rightarrow> org_audit" where
  "sample_audit t =
     \<lparr>oa_event_key = None, oa_event = CallSubmit, oa_action = ActionC, oa_org = ''acme'', oa_actor = ''ann'',
      oa_actor_type = ActorHandle, oa_target_type = TargetCall, oa_target_id = ''c1'', oa_target_role = None,
      oa_actor_ip = None, oa_actor_country = None, oa_description = ''submitted'', oa_at = t\<rparr>"

definition sample_admin :: identity where
  "sample_admin = \<lparr>id_org = ''acme'', id_handle = ''ann'', id_agent_id = ''agt_1'', id_role = Admin,
     id_recovery_generation = 0\<rparr>"

definition sample_ledger :: "nat list \<Rightarrow> relay_db" where
  "sample_ledger ids = empty_db\<lparr>rd_events := map (\<lambda>n. \<lparr>lr_id = n, lr_audit = sample_audit (int n)\<rparr>) ids,
     rd_next_event := 10\<rparr>"

definition sample_export_query :: export_query where
  "sample_export_query = \<lparr>eq_after = None, eq_before = None, eq_actor = None, eq_event = None, eq_actor_ip = None,
     eq_page_size = 1, eq_page_token = None\<rparr>"

definition sample_cursor_payload :: "int \<Rightarrow> js_value" where
  "sample_cursor_payload n =
     JObj [(''org'', JStr ''acme''), (''handle'', JStr ''ann''), (''after'', JNull), (''before'', JNull),
       (''pageSize'', JNum 1), (''filterDigest'', JStr ''''),
       (''checkpoint'', JObj [(''orgEventId'', JNum 3), (''orgEventCount'', JNum 2), (''rosterEventId'', JNum 0),
          (''rosterEventCount'', JNum 0)]),
       (''position'', JObj [(''at'', JNum n), (''ledger'', JStr ''org''), (''id'', JNum n)])]"

definition sample_audit_platform :: audit_platform where
  "sample_audit_platform =
     \<lparr>ap_digest = (\<lambda>_. []), ap_hmac = (\<lambda>_ _. [7]),
      ap_json = (\<lambda>v. case field (field v ''position'') ''id'' of JNum n \<Rightarrow> [word_of_int n] | _ \<Rightarrow> [0]),
      ap_parse = (\<lambda>bs. Some (sample_cursor_payload (uint (hd bs))))\<rparr>"

lemma sample_checkpoint:
  "capture_checkpoint (sample_ledger [2, 3]) ''acme'' =
   \<lparr>cp_org_event_id = 3, cp_org_event_count = 2, cp_roster_event_id = 0, cp_roster_event_count = 0\<rparr>"
  by (simp add: capture_checkpoint_def sample_ledger_def org_ids_def roster_ids_def of_org_def sample_audit_def
      empty_db_def coalesce_max_def)

lemma sample_rows:
  "snapshot_rows (sample_ledger [2, 3]) ''acme'' sample_export_query
     (capture_checkpoint (sample_ledger [2, 3]) ''acme'') =
   [org_export \<lparr>lr_id = 2, lr_audit = sample_audit 2\<rparr>, org_export \<lparr>lr_id = 3, lr_audit = sample_audit 3\<rparr>]"
  unfolding sample_checkpoint snapshot_rows_def
  by (simp add: combined_def sample_ledger_def empty_db_def of_org_def sample_audit_def query_selects_def
      sample_export_query_def export_key_def org_export_def ledger_rank_def)

lemma sample_tokens:
  "tokens_ok sample_audit_platform ''s'' sample_admin sample_export_query
     (capture_checkpoint (sample_ledger [2, 3]) ''acme'')
     [org_export \<lparr>lr_id = 2, lr_audit = sample_audit 2\<rparr>, org_export \<lparr>lr_id = 3, lr_audit = sample_audit 3\<rparr>]"
  unfolding sample_checkpoint
  by (simp add: tokens_ok_def Let_def org_export_def sample_audit_def sample_admin_def audit_cursor_payload_def
      sample_export_query_def filter_digest_def sample_audit_platform_def position_of_def field_def obj_get_def
      encode_audit_cursor_def encode_signed_token_def checkpoint_value_def sample_cursor_payload_def
      MAX_AUDIT_TOKEN_LENGTH_def)

abbreviation "first_event \<equiv> org_export \<lparr>lr_id = 2, lr_audit = sample_audit 2\<rparr>"
abbreviation "second_event \<equiv> org_export \<lparr>lr_id = 3, lr_audit = sample_audit 3\<rparr>"
abbreviation "sample_cp \<equiv> \<lparr>cp_org_event_id = 3, cp_org_event_count = 2, cp_roster_event_id = 0, cp_roster_event_count = 0\<rparr>"

lemma sample_query: "parse_query [(''page_size'', ''1'')] = Some sample_export_query"
  by code_simp

lemma sample_size: "eq_page_size sample_export_query = 1"
  by (simp add: sample_export_query_def)

lemma sample_ids: "ledger_ids_ok (sample_ledger [2, 3])" "ledger_ids_ok (sample_ledger [2, 3, 5])"
  by (simp_all add: ledger_ids_ok_def sample_ledger_def empty_db_def)

lemma sample_no_ack: "select_ack (sample_ledger ids) org = None"
  by (simp add: select_ack_def sample_ledger_def empty_db_def)

lemma sample_combined:
  "combined (sample_ledger [2, 3]) ''acme'' sample_cp = [first_event, second_event]"
  "combined (sample_ledger [2, 3, 5]) ''acme'' sample_cp = [first_event, second_event]"
  by (simp_all add: combined_def sample_ledger_def empty_db_def of_org_def sample_audit_def)

lemma sample_requests:
  "list_all (request_ok ''acme'' sample_cp (sample_ledger [2, 3]))
     [(sample_ledger [2, 3], sample_ledger [2, 3], sample_ledger [2, 3]),
      (sample_ledger [2, 3, 5], sample_ledger [2, 3, 5], sample_ledger [2, 3, 5])]"
  using sample_ids by (simp add: request_ok_def shrinks_def sample_combined)

lemma sample_complete:
  "checkpoint_is_complete (sample_ledger [2, 3]) ''acme'' sample_cp"
  "checkpoint_is_complete (sample_ledger [2, 3, 5]) ''acme'' sample_cp"
  by (simp_all add: checkpoint_is_complete_def org_ids_def roster_ids_def sample_ledger_def empty_db_def of_org_def
      sample_audit_def)

lemma sample_first_page:
  "export_events sample_audit_platform (Some ''s'') sample_admin [(''page_size'', ''1'')] (sample_ledger [2, 3])
     (sample_ledger [2, 3]) (sample_ledger [2, 3]) (sample_ledger [2, 3]) =
   Ok (assemble_page sample_audit_platform ''s'' ''acme'' ''ann'' sample_export_query sample_cp [first_event, second_event] None)"
  using sample_complete(1) sample_checkpoint
  by (simp add: export_events_def sample_query sample_export_query_def sample_admin_def read_page_def sample_combined
      query_selects_def export_key_def org_export_def ledger_rank_def sample_audit_def sample_no_ack)

abbreviation "sample_token \<equiv>
  encode_audit_cursor sample_audit_platform ''s'' ''acme'' ''ann'' sample_export_query sample_cp (position_of first_event)"

lemma sample_decode:
  "decode_audit_cursor sample_audit_platform sample_token ''s'' ''acme'' ''ann''
     (sample_export_query\<lparr>eq_page_token := Some sample_token\<rparr>) = Some (sample_cp, position_of first_event)"
  "sample_token \<noteq> []"
  using decode_encode_audit_cursor[OF sample_tokens, of first_event] sample_checkpoint by (simp_all add: sample_admin_def)

lemma sample_second_page:
  "export_events sample_audit_platform (Some ''s'') sample_admin ((''page_token'', sample_token) # [(''page_size'', ''1'')])
     (sample_ledger [2, 3]) (sample_ledger [2, 3, 5]) (sample_ledger [2, 3, 5]) (sample_ledger [2, 3, 5]) =
   Ok (assemble_page sample_audit_platform ''s'' ''acme'' ''ann'' (sample_export_query\<lparr>eq_page_token := Some sample_token\<rparr>)
     sample_cp [second_event] None)"
proof -
  have "read_page (sample_ledger [2, 3, 5]) ''acme'' (sample_export_query\<lparr>eq_page_token := Some sample_token\<rparr>) sample_cp
      (Some (position_of first_event)) = [second_event]"
    by (simp add: read_page_def sample_combined sample_export_query_def query_selects_def after_position_def position_of_def
        org_export_def sample_audit_def)
  then show ?thesis
    using sample_complete(2) sample_decode parse_query_token(2)[OF sample_query, of sample_token]
    by (simp add: export_events_def Let_def sample_admin_def sample_no_ack)
qed

lemma export_is_the_snapshot_witness:
  "\<exists>es. follow_export sample_audit_platform ''s'' sample_admin [(''page_size'', ''1'')] (sample_ledger [2, 3]) None
      [(sample_ledger [2, 3], sample_ledger [2, 3], sample_ledger [2, 3]),
       (sample_ledger [2, 3, 5], sample_ledger [2, 3, 5], sample_ledger [2, 3, 5])] = Some es \<and> length es = 2
    \<and> sorted_wrt (<) (map export_key es)"
proof -
  have f: "follow_export sample_audit_platform ''s'' sample_admin [(''page_size'', ''1'')] (sample_ledger [2, 3]) None
      [(sample_ledger [2, 3], sample_ledger [2, 3], sample_ledger [2, 3]),
       (sample_ledger [2, 3, 5], sample_ledger [2, 3, 5], sample_ledger [2, 3, 5])] = Some [first_event, second_event]"
    using sample_decode(2)
    by (simp add: sample_first_page sample_second_page assemble_page_def Let_def sample_size)
  have org: "id_org sample_admin = ''acme''" by (simp add: sample_admin_def)
  have "sorted_wrt (<) (map export_key [first_event, second_event])"
  proof (rule export_is_the_snapshot[OF sample_query _ sample_ids(1) _ _ f, THEN conjunct2])
    show "map_of [(''page_size'', ''1'')] ''page_token'' = None" by simp
  qed (simp_all only: org sample_rows[unfolded sample_checkpoint] sample_tokens[unfolded sample_checkpoint]
      sample_checkpoint sample_requests)
  then show ?thesis using f by (intro exI[of _ "[first_event, second_event]"]) simp
qed

end
