(* ===== verification/RelayInvariant.thy ===== *)
theory RelayInvariant
  imports Recovery KeyDirectory AuditSnapshot
begin

text \<open>
  What the tables of the relay's database always satisfy, one predicate per group of tables,
  and that every batch of every handler keeps it. The predicates are on the tables, so a
  batch that does not write a table keeps its predicate by rewriting.
\<close>

subsection \<open>The predicates\<close>

definition registry_ok :: "handle_row list \<Rightarrow> bool" where
  "registry_ok hs =
     (handles_table.keyed hs \<and> (\<forall>h\<in>set hs. hn_agent_id h \<noteq> [] \<and> hn_handle h \<noteq> []) \<and>
      distinct (map (\<lambda>h. (hn_org h, hn_agent_id h)) hs))"

text \<open>A receipt is of a generation its handle has left.\<close>

definition receipts_ok :: "handle_row list \<Rightarrow> receipt_row list \<Rightarrow> bool" where
  "receipts_ok hs rs =
     (receipts_table.keyed rs \<and>
      (\<forall>r\<in>set rs. \<exists>h\<in>set hs. handle_key h = (rr_org r, rr_handle r) \<and> rr_consumed_generation r < hn_recovery_generation h))"

definition key_verified :: "key_platform \<Rightarrow> identity_key_row \<Rightarrow> encryption_key_row \<Rightarrow> bool" where
  "key_verified kl p x =
     (case encryption_key_transcript (sk_record (served_bundle p x)) of
        Inl _ \<Rightarrow> False | Inr t \<Rightarrow> kl_verify kl (ik_identity_pub p) t (xk_signature x))"

definition epochs_grow :: "encryption_key_row list \<Rightarrow> bool" where
  "epochs_grow xs =
     sorted_wrt (\<lambda>a b. xk_org a = xk_org b \<and> xk_handle a = xk_handle b \<longrightarrow> xk_epoch a < xk_epoch b) xs"

definition directory_ok :: "key_platform \<Rightarrow> identity_key_row list \<Rightarrow> encryption_key_row list \<Rightarrow> bool" where
  "directory_ok kl is xs =
     (identity_table.keyed is \<and> epochs_grow xs \<and>
      (\<forall>x\<in>set xs. xk_suite x = HPKE_SUITE \<and>
         (\<exists>p\<in>set is. identity_key_of p = (xk_org x, xk_handle x) \<and> key_verified kl p x)))"

definition holds_ok :: "hold_row list \<Rightarrow> bool" where
  "holds_ok hs =
     (sorted_wrt (\<lambda>a b. \<not> hold_conflict a b) hs \<and>
      (\<forall>h\<in>set hs. opt_all hold_json_ok (public_audit_hold (Some h)) \<and>
         (hd_released_at h = None) = (hd_release_request_id h = None)))"

definition policies_ok :: "policy_row list \<Rightarrow> policy_request_row list \<Rightarrow> bool" where
  "policies_ok ps qs =
     (policies_table.keyed ps \<and> policy_requests_table.keyed qs \<and>
      (\<forall>p\<in>set ps. policy_json_ok (retention_policy_from_row (Some p))))"

definition db_ok :: "key_platform \<Rightarrow> relay_db \<Rightarrow> bool" where
  "db_ok kl db =
     (events_ok db \<and> invites_table.keyed (rd_invites db) \<and> registry_ok (rd_handles db) \<and>
      receipts_ok (rd_handles db) (rd_receipts db) \<and> evictions_table.keyed (rd_evictions db) \<and>
      directory_ok kl (rd_identity_keys db) (rd_encryption_keys db) \<and> holds_ok (rd_holds db) \<and>
      policies_ok (rd_policies db) (rd_policy_requests db) \<and> acks_table.keyed (rd_acks db))"

lemma db_ok_empty: "db_ok kl empty_db"
  unfolding db_ok_def using events_ok_empty
  by (simp add: empty_db_def registry_ok_def receipts_ok_def directory_ok_def
      epochs_grow_def holds_ok_def policies_ok_def invites_table.keyed_nil handles_table.keyed_nil
      receipts_table.keyed_nil evictions_table.keyed_nil identity_table.keyed_nil policies_table.keyed_nil
      policy_requests_table.keyed_nil acks_table.keyed_nil)

subsection \<open>Handles\<close>

text \<open>
  The updates of a handle keep its address and its principal and never lower its generation,
  which is all that the registry and the receipts need.
\<close>

definition handle_update_ok :: "(handle_row \<Rightarrow> bool) \<Rightarrow> (handle_row \<Rightarrow> handle_row) \<Rightarrow> bool" where
  "handle_update_ok P f =
     (\<forall>h. P h \<longrightarrow> handle_key (f h) = handle_key h \<and> hn_agent_id (f h) = hn_agent_id h \<and>
        hn_role (f h) = hn_role h \<and> hn_recovery_generation h \<le> hn_recovery_generation (f h))"

lemma handle_update_maps:
  assumes "handle_update_ok P f"
  shows "map handle_key (sql_update P f hs) = map handle_key hs"
    "map (\<lambda>h. (hn_org h, hn_agent_id h)) (sql_update P f hs) = map (\<lambda>h. (hn_org h, hn_agent_id h)) hs"
  using assms by (auto simp: sql_update_def handle_update_ok_def handle_key_def)

lemma registry_update: "registry_ok hs \<Longrightarrow> handle_update_ok P f \<Longrightarrow> registry_ok (sql_update P f hs)"
  unfolding registry_ok_def handles_table.keyed_def handle_update_maps
  by (auto simp: sql_update_set handle_update_ok_def handle_key_def)

lemma receipts_update:
  assumes "receipts_ok hs rs" "handle_update_ok P f"
  shows "receipts_ok (sql_update P f hs) rs"
proof -
  have "\<exists>h\<in>set (sql_update P f hs). handle_key h = k \<and> g < hn_recovery_generation h"
    if "\<exists>h\<in>set hs. handle_key h = k \<and> g < hn_recovery_generation h" for k g
  proof -
    from that obtain h where h: "h \<in> set hs" "handle_key h = k" "g < hn_recovery_generation h" by blast
    then have "(if P h then f h else h) \<in> set (sql_update P f hs)" by (auto simp: sql_update_def)
    moreover have "handle_key (if P h then f h else h) = k \<and> g < hn_recovery_generation (if P h then f h else h)"
      using h assms(2) unfolding handle_update_ok_def by force
    ultimately show ?thesis by blast
  qed
  then show ?thesis using assms(1) unfolding receipts_ok_def by simp
qed

lemma registry_insert:
  assumes "registry_ok hs" "sql_insert handle_key r hs = Some hs'" "hn_agent_id r \<noteq> []" "hn_handle r \<noteq> []"
    "\<not> sql_exists (\<lambda>q. hn_org q = hn_org r \<and> hn_agent_id q = hn_agent_id r) hs"
  shows "registry_ok hs'"
  using assms(1,3-5) sql_insert_Some[of handle_key r hs hs', THEN iffD1, OF assms(2)]
    handles_table.keyed_insert[OF _ assms(2)]
  by (auto simp: registry_ok_def)

lemma receipts_more: "receipts_ok hs rs \<Longrightarrow> set hs \<subseteq> set hs' \<Longrightarrow> receipts_ok hs' rs"
  unfolding receipts_ok_def by blast

lemma receipts_fewer: "receipts_ok hs rs \<Longrightarrow> receipts_ok hs (sql_delete P rs)"
  unfolding receipts_ok_def by (auto simp: receipts_table.keyed_delete) (auto simp: sql_delete_def)

subsection \<open>Invites, registration and rotation\<close>

lemmas audit_tables = audit_and_trim_tables

lemma cleanup_keeps: "db_ok kl db \<Longrightarrow> db_ok kl (expired_invite_cleanup_statement org now db)"
  by (simp add: db_ok_def expired_invite_cleanup_statement_def invites_table.keyed_delete events_ok_def)

lemma audit_keeps: "db_ok kl db \<Longrightarrow> audit_and_trim a n db = Some db' \<Longrightarrow> db_ok kl db'"
  using audit_tables[of a n db db'] events_ok_audit_and_trim[of db a n db'] by (simp add: db_ok_def)

lemma create_invite_keeps:
  assumes "db_ok kl db" "create_invite_batch row audit now db = Some (db', n)"
  shows "db_ok kl db'"
proof -
  let ?db1 = "expired_invite_cleanup_statement (iv_org row) now db"
  have ok: "db_ok kl ?db1" by (rule cleanup_keeps[OF assms(1)])
  then have "sql_insert iv_token_hash row (rd_invites ?db1) = Some rows \<Longrightarrow> db_ok kl (?db1\<lparr>rd_invites := rows\<rparr>)" for rows
    using invites_table.keyed_insert by (fastforce simp: db_ok_def events_ok_def)
  then show ?thesis
    using assms(2) ok by (auto simp: create_invite_batch_def Let_def audit_keeps split: if_splits option.splits)
qed

lemma update_invites_keeps:
  "db_ok kl db \<Longrightarrow> (\<And>r. iv_token_hash (f r) = iv_token_hash r) \<Longrightarrow>
   db_ok kl (db\<lparr>rd_invites := sql_update P f (rd_invites db)\<rparr>)"
  by (simp add: db_ok_def invites_table.keyed_update events_ok_def)

lemma revoke_invite_keeps:
  assumes "db_ok kl db" "revoke_invite_batch i org audit now db = Some (db', n)"
  shows "db_ok kl db'"
  using assms
  by (auto simp: revoke_invite_batch_def Let_def intro!: cleanup_keeps elim!: audit_keeps[rotated] intro: update_invites_keeps)

lemma update_handles_keeps:
  assumes "db_ok kl db" "handle_update_ok P f"
  shows "db_ok kl (db\<lparr>rd_handles := sql_update P f (rd_handles db)\<rparr>)"
  using assms by (simp add: db_ok_def events_ok_def registry_update receipts_update)

lemma insert_handle_keeps:
  assumes "db_ok kl db" "insert_handle r db = Some (db', n)"
    "\<And>h. r = Some h \<Longrightarrow> hn_agent_id h \<noteq> [] \<and> hn_handle h \<noteq> []"
  shows "db_ok kl db'"
proof (cases r)
  case None
  then show ?thesis using assms(1,2) by (simp add: insert_handle_def)
next
  case (Some h)
  show ?thesis
  proof (cases "sql_insert handle_key h (rd_handles db)")
    case None
    then show ?thesis using assms(1,2) Some by (simp add: insert_handle_def sql_insert_or_ignore_def)
  next
    case (Some hs)
    have "\<not> sql_exists (\<lambda>q. hn_org q = hn_org h \<and> hn_agent_id q = hn_agent_id h) (rd_handles db)"
      and db': "db' = db\<lparr>rd_handles := hs\<rparr>"
      using assms(2) Some \<open>r = _\<close> by (auto simp: insert_handle_def sql_insert_or_ignore_def split: if_splits)
    moreover have "set (rd_handles db) \<subseteq> set hs" using Some by (auto simp: sql_insert_Some)
    ultimately show ?thesis
      using assms(1,3) Some \<open>r = _\<close> registry_insert[of "rd_handles db" h hs] receipts_more
      by (auto simp: db_ok_def events_ok_def)
  qed
qed

lemma register_keeps:
  assumes "db_ok kl db" "register_batch hash handle tok kind agent org audit now db = Some (db', n0, n1)"
    "agent \<noteq> []" "handle \<noteq> []"
  shows "db_ok kl db'"
proof -
  obtain db1 m0 where i: "insert_handle (map_option (\<lambda>iv. new_handle iv handle tok kind now agent)
      (find (redeemable hash now) (rd_invites db))) db = Some (db1, m0)"
    using assms(2) by (auto simp: register_batch_def split: option.splits)
  have "db_ok kl db1"
    by (rule insert_handle_keeps[OF assms(1) i]) (use assms(3,4) in \<open>auto simp: new_handle_def\<close>)
  then show ?thesis
    using assms(2) i
    by (auto simp: register_batch_def Let_def intro!: cleanup_keeps elim!: audit_keeps[rotated] intro: update_invites_keeps)
qed

lemma rotate_update: "handle_update_ok P (\<lambda>r. r\<lparr>hn_token_hash := t\<rparr>)"
  by (simp add: handle_update_ok_def handle_key_def)

lemma rotate_keeps: "db_ok kl db \<Longrightarrow> rotate_batch org handle old new db = Some (db', n) \<Longrightarrow> db_ok kl db'"
  by (auto simp: rotate_batch_def intro: update_handles_keeps rotate_update)

subsection \<open>Recovery\<close>

lemma issue_update:
  "handle_update_ok P (\<lambda>r. r\<lparr>hn_recovery_hash := h, hn_recovery_generation := hn_recovery_generation r + 1,
     hn_recovery_redeemed_at := t\<rparr>)"
  by (simp add: handle_update_ok_def handle_key_def)

lemma issue_keeps:
  assumes "db_ok kl db" "issue_batch org handle tok g digest audit db = Some (db', n)"
  shows "db_ok kl db'"
  using assms
  by (auto simp: issue_batch_def Let_def elim!: audit_keeps[rotated] intro: update_handles_keeps issue_update)

lemma redeem_update: "handle_update_ok (\<lambda>r. consumable q h r \<and> c) (redeem_handle q now)"
  by (auto simp: handle_update_ok_def redeem_handle_def consumable_def handle_key_def)

lemma enqueue_receipts [simp]:
  "rd_receipts (enqueue_eviction q now db) = rd_receipts db" "rd_handles (enqueue_eviction q now db) = rd_handles db"
  by (simp_all add: enqueue_eviction_def)

lemma org_audit_tables:
  assumes "org_audit_statement a p n db = Some db'"
  shows "rd_receipts db' = rd_receipts db \<and> rd_handles db' = rd_handles db \<and> rd_invites db' = rd_invites db \<and>
    rd_evictions db' = rd_evictions db \<and> rd_identity_keys db' = rd_identity_keys db \<and>
    rd_encryption_keys db' = rd_encryption_keys db"
  using assms by (auto simp: org_audit_statement_def dest!: ledger_insert_Some(1) split: if_splits)

text \<open>
  Between its first two statements a redemption has a receipt of the generation the handle
  still has; the update of the handle, which the receipt guards, restores the predicate.
\<close>

lemma redeem_tables:
  assumes "redeem_batch q h audit now e db = Some (db', n0, n1)"
  shows "if sql_exists (consumable q h) (rd_handles db)
    then (\<exists>rs db3. sql_insert receipt_key (new_receipt q h now e) (rd_receipts db) = Some rs \<and>
      n0 = 1 \<and> n1 = sql_count (consumable q h) (rd_handles db) \<and>
      org_audit_statement audit True n1 (db\<lparr>rd_receipts := rs,
        rd_handles := sql_update (consumable q h) (redeem_handle q now) (rd_handles db)\<rparr>) = Some db3 \<and>
      db' = org_audit_trim_statement (rm_org q) ((enqueue_eviction q now db3)
        \<lparr>rd_receipts := sql_delete (\<lambda>r. rr_expires_at r \<le> now) rs\<rparr>))
    else n0 = 0 \<and> n1 = 0 \<and>
      db' = org_audit_trim_statement (rm_org q) ((enqueue_eviction q now db)
        \<lparr>rd_receipts := sql_delete (\<lambda>r. rr_expires_at r \<le> now) (rd_receipts db)\<rparr>)"
proof -
  have rec: "receipt_of q (new_receipt q h now e)" by (simp add: receipt_of_def new_receipt_def receipt_key_def)
  show ?thesis
  proof (cases "sql_exists (consumable q h) (rd_handles db)")
    case True
    then obtain rs where rs: "sql_insert receipt_key (new_receipt q h now e) (rd_receipts db) = Some rs" "n0 = 1"
      using assms by (auto simp: redeem_batch_def insert_receipt_def Let_def split: option.splits if_splits)
    then have ex: "sql_exists (receipt_of q) rs" using rec by (auto simp: sql_insert_Some)
    have ir: "insert_receipt q h now e db = Some (db\<lparr>rd_receipts := rs\<rparr>, 1)"
      using True rs(1) by (simp add: insert_receipt_def)
    obtain db3 where db3: "org_audit_statement audit True n1 (db\<lparr>rd_receipts := rs,
        rd_handles := sql_update (consumable q h) (redeem_handle q now) (rd_handles db)\<rparr>) = Some db3"
      "n1 = sql_count (consumable q h) (rd_handles db)"
      "db' = org_audit_trim_statement (rm_org q) ((enqueue_eviction q now db3)
        \<lparr>rd_receipts := sql_delete (\<lambda>r. rr_expires_at r \<le> now) (rd_receipts (enqueue_eviction q now db3))\<rparr>)"
      using assms unfolding redeem_batch_def ir
      by (simp add: Let_def ex del: sql_exists_iff split: option.splits)
    then show ?thesis using True rs org_audit_tables[OF db3(1)] by (simp del: sql_exists_iff)
  next
    case False
    then have c: "\<not> consumable q h r" if "r \<in> set (rd_handles db)" for r using that by auto
    then have "sql_count (\<lambda>r. consumable q h r \<and> k) (rd_handles db) = 0" for k by (auto simp: sql_count_zero)
    then show ?thesis
      using assms False sql_update_none[of "\<lambda>r. consumable q h r \<and> k" "rd_handles db" for k]
      by (auto simp: redeem_batch_def insert_receipt_def Let_def org_audit_statement_def enqueue_eviction_def split: if_splits)
  qed
qed

lemma insert_receipt_keeps:
  assumes "registry_ok hs" "receipts_ok hs rs" "sql_exists (consumable q h) hs"
    "sql_insert receipt_key (new_receipt q h now e) rs = Some rs'"
  shows "receipts_ok (sql_update (consumable q h) (redeem_handle q now) hs) rs'"
proof -
  let ?hs = "sql_update (consumable q h) (redeem_handle q now) hs"
  have up: "handle_update_ok (consumable q h) (redeem_handle q now)"
    using redeem_update[of q h True now] by simp
  have old: "receipts_ok ?hs rs" by (rule receipts_update[OF assms(2) up])
  obtain x where x: "x \<in> set hs" "consumable q h x" using assms(3) by auto
  then have "redeem_handle q now x \<in> set ?hs" by (auto simp: sql_update_set)
  moreover have "handle_key (redeem_handle q now x) = (rm_org q, rm_handle q)"
    "hn_recovery_generation (redeem_handle q now x) = rm_generation q + 1"
    using x(2) by (simp_all add: redeem_handle_def handle_key_def consumable_def)
  ultimately have "\<exists>y\<in>set ?hs. handle_key y = (rm_org q, rm_handle q) \<and> rm_generation q < hn_recovery_generation y"
    by force
  then show ?thesis
    using old receipts_table.keyed_insert[OF _ assms(4)] assms(4)
    by (auto simp: receipts_ok_def sql_insert_Some new_receipt_def)
qed

lemma enqueue_eviction_keeps: "db_ok kl db \<Longrightarrow> db_ok kl (enqueue_eviction q now db)"
proof -
  assume ok: "db_ok kl db"
  have "evictions_table.keyed (sql_upsert eviction_key
      (\<lambda>old. old\<lparr>er_recovery_generation := rm_generation q + 1, er_attempts := 0, er_next_attempt := now,
                 er_last_attempt := None\<rparr>) (new_eviction q now) (rd_evictions db))"
    by (rule evictions_table.keyed_upsert) (use ok in \<open>simp_all add: db_ok_def eviction_key_def\<close>)
  then show ?thesis using ok by (simp add: enqueue_eviction_def db_ok_def events_ok_def)
qed

lemma org_audit_keeps: "db_ok kl db \<Longrightarrow> org_audit_statement a p n db = Some db' \<Longrightarrow> db_ok kl db'"
  using events_ok_insert[of db a db']
  by (auto simp: org_audit_statement_def db_ok_def dest!: ledger_insert_Some(1) split: if_splits)

lemma trim_keeps: "db_ok kl db \<Longrightarrow> db_ok kl (org_audit_trim_statement org db)"
  using events_ok_trim[of db org] by (simp add: db_ok_def org_audit_trim_statement_def)

lemma delete_receipts_keeps: "db_ok kl db \<Longrightarrow> db_ok kl (db\<lparr>rd_receipts := sql_delete P (rd_receipts db)\<rparr>)"
  by (simp add: db_ok_def events_ok_def receipts_fewer)

lemma redeem_keeps:
  assumes "db_ok kl db" "redeem_batch q h audit now e db = Some (db', n0, n1)"
  shows "db_ok kl db'"
proof (cases "sql_exists (consumable q h) (rd_handles db)")
  case True
  then obtain rs db3 where r: "sql_insert receipt_key (new_receipt q h now e) (rd_receipts db) = Some rs"
    and a: "org_audit_statement audit True n1 (db\<lparr>rd_receipts := rs,
        rd_handles := sql_update (consumable q h) (redeem_handle q now) (rd_handles db)\<rparr>) = Some db3"
    and d: "db' = org_audit_trim_statement (rm_org q) ((enqueue_eviction q now db3)
        \<lparr>rd_receipts := sql_delete (\<lambda>r. rr_expires_at r \<le> now) rs\<rparr>)"
    using redeem_tables[OF assms(2)] by auto
  have "db_ok kl (db\<lparr>rd_receipts := rs,
        rd_handles := sql_update (consumable q h) (redeem_handle q now) (rd_handles db)\<rparr>)"
    using assms(1) insert_receipt_keeps[OF _ _ True r] registry_update redeem_update[of q h True now]
    by (simp add: db_ok_def events_ok_def)
  then have "db_ok kl (enqueue_eviction q now db3)" by (rule enqueue_eviction_keeps[OF org_audit_keeps[OF _ a]])
  moreover have "rd_receipts (enqueue_eviction q now db3) = rs" using org_audit_tables[OF a] by simp
  ultimately show ?thesis unfolding d by (metis trim_keeps delete_receipts_keeps)
next
  case False
  then have "db' = org_audit_trim_statement (rm_org q) ((enqueue_eviction q now db)
        \<lparr>rd_receipts := sql_delete (\<lambda>r. rr_expires_at r \<le> now) (rd_receipts (enqueue_eviction q now db))\<rparr>)"
    using redeem_tables[OF assms(2)] by simp
  then show ?thesis using assms(1) by (metis trim_keeps delete_receipts_keeps enqueue_eviction_keeps)
qed

lemma drop_eviction_keeps: "db_ok kl db \<Longrightarrow> db_ok kl (drop_eviction org handle g db)"
  by (simp add: drop_eviction_def db_ok_def events_ok_def evictions_table.keyed_delete)

lemma delay_eviction_keeps: "db_ok kl db \<Longrightarrow> db_ok kl (delay_eviction org handle g now db)"
  by (cases "find (eviction_job org handle g) (rd_evictions db)")
     (simp_all add: delay_eviction_def Let_def db_ok_def events_ok_def evictions_table.keyed_update eviction_key_def)

lemma evict_keeps: "db_ok kl db \<Longrightarrow> db_ok kl (fst (evict accepts fate org handle g now db))"
  by (cases fate) (simp_all add: evict_def drop_eviction_keeps delay_eviction_keeps)

subsection \<open>The key directory\<close>

lemma insert_identity_keeps:
  assumes "db_ok kl db" "insert_identity row db = Some (db', n)"
  shows "db_ok kl db'" "set (rd_identity_keys db) \<subseteq> set (rd_identity_keys db')"
proof -
  have f: "db' = db\<lparr>rd_identity_keys := fst (sql_insert_or_ignore identity_key_of row (rd_identity_keys db))\<rparr>"
    using assms(2) by (auto simp: insert_identity_def split: prod.splits)
  have "set (rd_identity_keys db) \<subseteq> set (fst (sql_insert_or_ignore identity_key_of row (rd_identity_keys db)))"
    by (auto simp: sql_insert_or_ignore_def sql_insert_Some split: option.splits)
  then show "set (rd_identity_keys db) \<subseteq> set (rd_identity_keys db')" and "db_ok kl db'"
    using assms(1) identity_table.keyed_insert_or_ignore unfolding f
    by (fastforce simp: db_ok_def events_ok_def directory_ok_def)+
qed

definition key_admissible :: "key_platform \<Rightarrow> relay_db \<Rightarrow> encryption_key_row \<Rightarrow> bool" where
  "key_admissible kl db row =
     (xk_suite row = HPKE_SUITE \<and>
      (\<exists>p\<in>set (rd_identity_keys db). identity_key_of p = (xk_org row, xk_handle row) \<and> key_verified kl p row))"

lemma insert_key_cases:
  assumes "insert_key row db = Some (db', n)"
  shows "(n = 0 \<and> db' = db) \<or> (n = 1 \<and> db' = db\<lparr>rd_encryption_keys := rd_encryption_keys db @ [row]\<rparr> \<and>
    (\<forall>r\<in>set (rd_encryption_keys db). key_owned (xk_org row) (xk_handle row) r \<longrightarrow> xk_epoch r < xk_epoch row))"
  using assms unfolding insert_key_def by (auto simp: sql_insert_Some split: if_splits)

lemma insert_key_keeps:
  assumes "db_ok kl db" "insert_key row db = Some (db', n)" "key_admissible kl db row"
  shows "db_ok kl db'"
proof -
  have "db' = db\<lparr>rd_encryption_keys := rd_encryption_keys db @ [row]\<rparr> \<Longrightarrow>
      (\<forall>r\<in>set (rd_encryption_keys db). key_owned (xk_org row) (xk_handle row) r \<longrightarrow> xk_epoch r < xk_epoch row) \<Longrightarrow>
      db_ok kl db'"
    using assms(1,3)
    by (simp add: db_ok_def events_ok_def directory_ok_def epochs_grow_def sorted_wrt_append key_owned_def
        key_admissible_def)
  then show ?thesis using insert_key_cases[OF assms(2)] assms(1) by blast
qed

subsection \<open>Audit controls\<close>

lemma ledger_insert_keeps: "db_ok kl db \<Longrightarrow> ledger_insert a db = Some db' \<Longrightarrow> db_ok kl db'"
  using org_audit_keeps[of kl db a False 0 db'] by (simp add: org_audit_statement_def)

definition policy_update_ok :: "policy_update \<Rightarrow> bool" where
  "policy_update_ok u = (retention_window (pu_event_retention_days u) \<and> 0 \<le> pu_expected_version u)"

lemma parse_policy_update_ok: "parse_policy_update v = Some u \<Longrightarrow> policy_update_ok u"
  by (auto simp: parse_policy_update_def policy_update_ok_def split: option.splits if_splits dest!: read_intD)

lemma upsert_policy_keeps:
  assumes "db_ok kl db" "policy_update_ok u" "actor \<noteq> []" "0 \<le> now"
  shows "db_ok kl (upsert_policy org u actor now db)"
proof (cases "pu_expected_version u = 0")
  case True
  let ?up = "\<lambda>old. if pl_version old = pu_expected_version u
      then old\<lparr>pl_event_retention_days := pu_event_retention_days u, pl_version := pl_version old + 1,
               pl_updated_by := actor, pl_updated_at := now, pl_last_request_id := pu_request_id u\<rparr> else old"
  let ?row = "\<lparr>pl_org = org, pl_event_retention_days = pu_event_retention_days u, pl_version = pu_expected_version u + 1,
      pl_updated_by = actor, pl_updated_at = now, pl_last_request_id = pu_request_id u\<rparr>"
  have new: "policy_json_ok (retention_policy_from_row (Some ?row))"
    using assms(2-4) by (simp add: policy_json_ok_def retention_policy_from_row_def policy_update_ok_def)
  have "policy_json_ok (retention_policy_from_row (Some p)) \<Longrightarrow> ?up p = p" for p
    using True by (auto simp: policy_json_ok_def retention_policy_from_row_def)
  then have "\<forall>p\<in>set (sql_upsert pl_org ?up ?row (rd_policies db)). policy_json_ok (retention_policy_from_row (Some p))"
    using assms(1) new by (auto simp: db_ok_def policies_ok_def sql_upsert_def)
  moreover have "policies_table.keyed (sql_upsert pl_org ?up ?row (rd_policies db))"
    by (rule policies_table.keyed_upsert) (use assms(1) in \<open>simp_all add: db_ok_def policies_ok_def\<close>)
  ultimately show ?thesis
    using True assms(1) unfolding upsert_policy_def by (simp add: db_ok_def events_ok_def policies_ok_def)
next
  case False
  then show ?thesis using assms(1) by (simp add: upsert_policy_def)
qed

lemma insert_policy_request_keeps:
  "db_ok kl db \<Longrightarrow> db_ok kl (insert_policy_request org u actor now db)"
  by (auto simp: insert_policy_request_def db_ok_def events_ok_def policies_ok_def policy_requests_table.keyed_def
      policy_request_key_def)

lemma policy_batch_keeps:
  assumes "db_ok kl db" "policy_batch org u actor audit now db = Some (db', x)"
    "policy_update_ok u" "actor \<noteq> []" "0 \<le> now"
  shows "db_ok kl db'"
proof -
  have "db_ok kl (insert_policy_request org u actor now (upsert_policy org u actor now db))"
    by (intro insert_policy_request_keeps upsert_policy_keeps assms)
  then show ?thesis
    using assms(2) by (auto simp: policy_batch_def Let_def intro!: trim_keeps elim: ledger_insert_keeps split: if_splits)
qed

definition hold_new_ok :: "hold_row \<Rightarrow> bool" where
  "hold_new_ok r =
     (opt_all hold_json_ok (public_audit_hold (Some r)) \<and> hd_released_at r = None \<and> hd_release_request_id r = None)"

lemma hold_conflict_sym: "hold_conflict a b = hold_conflict b a"
  by (auto simp: hold_conflict_def)

lemma hold_create_keeps:
  assumes "db_ok kl db" "hold_create_batch row audit db = Some (db', x)" "hold_new_ok row"
  shows "db_ok kl db'"
proof -
  obtain db1 where i: "insert_hold row db = Some db1" using assms(2) by (auto simp: hold_create_batch_def split: option.splits)
  have "db_ok kl db1"
    using assms(1,3) i hold_conflict_sym
    by (auto simp: insert_hold_def db_ok_def events_ok_def holds_ok_def sorted_wrt_append hold_new_ok_def split: if_splits)
  then show ?thesis
    using assms(2) i by (auto simp: hold_create_batch_def intro!: trim_keeps elim: ledger_insert_keeps split: if_splits)
qed

lemma releasable_unique:
  assumes "holds_ok hs" "a \<in> set hs" "b \<in> set hs" "releasable org i a" "releasable org i b"
  shows "a = b"
proof (rule ccontr)
  assume "a \<noteq> b"
  have "hold_conflict a b" using assms(4,5) by (auto simp: hold_conflict_def releasable_def hold_key_def)
  moreover have "sorted_wrt (\<lambda>a b. \<not> hold_conflict a b) hs" using assms(1) by (simp add: holds_ok_def)
  ultimately show False using \<open>a \<noteq> b\<close> assms(2,3) hold_conflict_sym
    by (induction hs) auto
qed

lemma release_holds_ok:
  assumes "holds_ok hs" "actor \<noteq> []" "0 \<le> now"
    "\<not> (\<exists>r\<in>set hs. hd_org r = org \<and> hd_release_request_id r = Some request)"
  shows "holds_ok (sql_update (releasable org i)
    (\<lambda>r. r\<lparr>hd_released_by := Some actor, hd_released_at := Some now, hd_release_request_id := Some request\<rparr>) hs)"
proof -
  let ?f = "\<lambda>r. if releasable org i r
    then r\<lparr>hd_released_by := Some actor, hd_released_at := Some now, hd_release_request_id := Some request\<rparr> else r"
  have s: "sorted_wrt (\<lambda>a b. \<not> hold_conflict a b) hs" using assms(1) by (simp add: holds_ok_def)
  have "\<not> hold_conflict (?f a) (?f b)" if "a \<in> set hs" "b \<in> set hs" "\<not> hold_conflict a b" for a b
  proof (cases "releasable org i a \<and> releasable org i b")
    case True
    then show ?thesis using that releasable_unique[OF assms(1) that(1,2)] by (auto simp: hold_conflict_def)
  next
    case False
    then show ?thesis
      using that assms(4) by (auto simp: hold_conflict_def releasable_def hold_key_def)
  qed
  then have "sorted_wrt (\<lambda>a b. \<not> hold_conflict (?f a) (?f b)) hs"
    using s by (rule sorted_wrt_mono_rel)
  then show ?thesis
    using assms(1-3)
    by (auto simp: holds_ok_def sql_update_def sorted_wrt_map public_audit_hold_def hold_json_ok_def)
qed

lemma hold_release_keeps:
  assumes "db_ok kl db" "hold_release_batch org i request actor audit now db = Some (db', x)" "actor \<noteq> []" "0 \<le> now"
  shows "db_ok kl db'"
proof -
  let ?hs = "sql_update (releasable org i)
    (\<lambda>r. r\<lparr>hd_released_by := Some actor, hd_released_at := Some now, hd_release_request_id := Some request\<rparr>) (rd_holds db)"
  have "holds_ok ?hs"
  proof (cases "sql_count (releasable org i) (rd_holds db) = 0")
    case True
    then show ?thesis using assms(1) by (simp add: sql_update_none db_ok_def)
  next
    case False
    then show ?thesis using assms
      by (intro release_holds_ok) (auto simp: hold_release_batch_def Let_def db_ok_def split: if_splits)
  qed
  then have "db_ok kl (db\<lparr>rd_holds := ?hs\<rparr>)" using assms(1) by (simp add: db_ok_def events_ok_def)
  then show ?thesis
    using assms(2) by (auto simp: hold_release_batch_def Let_def intro!: trim_keeps elim: org_audit_keeps split: if_splits)
qed

lemma acknowledge_keeps:
  assumes "db_ok kl db" "acknowledge_batch org cp actor now db = Some (db', x)"
  shows "db_ok kl db'"
proof -
  have "acks_table.keyed (sql_upsert ak_org
      (\<lambda>old. if supersedes cp (ak_checkpoint old)
             then old\<lparr>ak_checkpoint := cp, ak_acknowledged_by := actor, ak_acknowledged_at := now\<rparr> else old)
      \<lparr>ak_org = org, ak_checkpoint = cp, ak_acknowledged_by = actor, ak_acknowledged_at = now\<rparr> (rd_acks db))"
    by (rule acks_table.keyed_upsert) (use assms(1) in \<open>simp_all add: db_ok_def\<close>)
  then show ?thesis using assms by (auto simp: acknowledge_batch_def Let_def db_ok_def events_ok_def)
qed

end
