(* ===== verification/RelayService.thy ===== *)
theory RelayService
  imports RelayInvariant
begin

text \<open>
  The relay's HTTP handlers together, as a step relation on their shared database: each step
  is one commit of one handler, at whatever database the other requests left, so every
  interleaving of requests is a run. A run keeps a history of the credentials it handed out,
  over which the properties of a whole run are stated.
\<close>

subsection \<open>Steps\<close>

datatype fact =
  InviteIssued string string org_role
| InviteEnrolled string string string org_role
| ProofIssued string string int
| ProofConsumed string string int

definition issued_facts :: "invite_row \<Rightarrow> nat \<Rightarrow> fact list" where
  "issued_facts row n = (if n = 1 then [InviteIssued (iv_token_hash row) (iv_org row) (iv_role row)] else [])"

definition enrolled_facts :: "string \<Rightarrow> string \<Rightarrow> int \<Rightarrow> relay_db \<Rightarrow> nat \<Rightarrow> fact list" where
  "enrolled_facts hash handle now db n =
     (case find (redeemable hash now) (rd_invites db) of
        None \<Rightarrow> []
      | Some iv \<Rightarrow> if n = 1 then [InviteEnrolled hash (iv_org iv) handle (iv_role iv)] else [])"

definition proof_facts :: "string \<Rightarrow> string \<Rightarrow> int \<Rightarrow> nat \<Rightarrow> fact list" where
  "proof_facts org handle g n = (if n = 1 then [ProofIssued org handle (g + 1)] else [])"

definition consumed_facts :: "redeem_request \<Rightarrow> nat \<Rightarrow> fact list" where
  "consumed_facts q n = (if n = 1 then [ProofConsumed (rm_org q) (rm_handle q) (rm_generation q)] else [])"

definition invite_hashes :: "fact list \<Rightarrow> string list" where
  "invite_hashes hist = concat (map (\<lambda>f. case f of InviteIssued h _ _ \<Rightarrow> [h] | _ \<Rightarrow> []) hist)"

definition enrolled_hashes :: "fact list \<Rightarrow> string list" where
  "enrolled_hashes hist = concat (map (\<lambda>f. case f of InviteEnrolled h _ _ _ \<Rightarrow> [h] | _ \<Rightarrow> []) hist)"

definition consumed_proofs :: "fact list \<Rightarrow> (string \<times> string \<times> int) list" where
  "consumed_proofs hist = concat (map (\<lambda>f. case f of ProofConsumed a b g \<Rightarrow> [(a, b, g)] | _ \<Rightarrow> []) hist)"

text \<open>
  The only demands on a step are the ones its handler checked before it commits: an invite
  token is freshly random, a registered agent has an id and a name, a published key verified
  under the publisher's stored identity, and the audit controls were parsed by their schemas.
\<close>

inductive relay_step :: "key_platform \<Rightarrow> relay_db \<times> fact list \<Rightarrow> relay_db \<times> fact list \<Rightarrow> bool"
  for kl :: key_platform where
  step_create_invite:
    "create_invite_batch row audit now db = Some (db', n) \<Longrightarrow> iv_token_hash row \<notin> set (invite_hashes hist) \<Longrightarrow>
     iv_used_at row = None \<Longrightarrow> relay_step kl (db, hist) (db', hist @ issued_facts row n)"
| step_revoke_invite:
    "revoke_invite_batch i org audit now db = Some (db', n) \<Longrightarrow> relay_step kl (db, hist) (db', hist)"
| step_register:
    "register_batch hash handle tok kind agent org audit now db = Some (db', n0, n1) \<Longrightarrow> agent \<noteq> [] \<Longrightarrow> handle \<noteq> [] \<Longrightarrow>
     relay_step kl (db, hist) (db', hist @ enrolled_facts hash handle now db n0)"
| step_rotate:
    "rotate_batch org handle old new db = Some (db', n) \<Longrightarrow> relay_step kl (db, hist) (db', hist)"
| step_issue:
    "issue_batch org handle tok g digest audit db = Some (db', n) \<Longrightarrow>
     relay_step kl (db, hist) (db', hist @ proof_facts org handle g n)"
| step_redeem:
    "redeem_batch q h audit now e db = Some (db', n0, n1) \<Longrightarrow>
     relay_step kl (db, hist) (db', hist @ consumed_facts q n1)"
| step_evict:
    "relay_step kl (db, hist) (fst (evict accepts fate org handle g now db), hist)"
| step_identity:
    "insert_identity row db = Some (db', n) \<Longrightarrow> relay_step kl (db, hist) (db', hist)"
| step_key:
    "insert_key row db = Some (db', n) \<Longrightarrow> key_admissible kl db row \<Longrightarrow> relay_step kl (db, hist) (db', hist)"
| step_policy:
    "policy_batch org u actor audit now db = Some (db', x) \<Longrightarrow> policy_update_ok u \<Longrightarrow> actor \<noteq> [] \<Longrightarrow> 0 \<le> now \<Longrightarrow>
     relay_step kl (db, hist) (db', hist)"
| step_hold:
    "hold_create_batch hold audit db = Some (db', x) \<Longrightarrow> hold_new_ok hold \<Longrightarrow> relay_step kl (db, hist) (db', hist)"
| step_release:
    "hold_release_batch org i request actor audit now db = Some (db', x) \<Longrightarrow> actor \<noteq> [] \<Longrightarrow> 0 \<le> now \<Longrightarrow>
     relay_step kl (db, hist) (db', hist)"
| step_acknowledge:
    "acknowledge_batch org cp actor now db = Some (db', x) \<Longrightarrow> relay_step kl (db, hist) (db', hist)"
| step_call_event:
    "ledger_insert a db = Some db' \<Longrightarrow> relay_step kl (db, hist) (org_audit_trim_statement (oa_org a) db', hist)"

definition relay_init :: "relay_db \<times> fact list \<Rightarrow> bool" where
  "relay_init s = (s = (empty_db, []))"

subsection \<open>The database stays well-formed\<close>

definition run_ok :: "key_platform \<Rightarrow> relay_db \<times> fact list \<Rightarrow> bool" where
  "run_ok kl s = db_ok kl (fst s)"

lemma relay_step_ok: "relay_step kl s t \<Longrightarrow> run_ok kl s \<Longrightarrow> run_ok kl t"
  unfolding run_ok_def
proof (induction rule: relay_step.induct)
  case step_create_invite then show ?case by (simp add: create_invite_keeps)
next
  case step_revoke_invite then show ?case by (simp add: revoke_invite_keeps)
next
  case step_register then show ?case using register_keeps by simp
next
  case step_rotate then show ?case by (simp add: rotate_keeps)
next
  case step_issue then show ?case by (simp add: issue_keeps)
next
  case step_redeem then show ?case using redeem_keeps by simp
next
  case step_evict then show ?case by (simp add: evict_keeps)
next
  case step_identity then show ?case by (simp add: insert_identity_keeps)
next
  case step_key then show ?case by (simp add: insert_key_keeps)
next
  case step_policy then show ?case using policy_batch_keeps by simp
next
  case step_hold then show ?case using hold_create_keeps by simp
next
  case step_release then show ?case using hold_release_keeps by simp
next
  case step_acknowledge then show ?case using acknowledge_keeps by simp
next
  case step_call_event then show ?case by (simp add: ledger_insert_keeps trim_keeps)
qed

interpretation relay_run: inductive_invariant relay_init "relay_step kl" "run_ok kl" for kl
  by unfold_locales (simp add: relay_init_def run_ok_def db_ok_empty, rule relay_step_ok)

lemma reach_db_ok: "reach relay_init (relay_step kl) (db, hist) \<Longrightarrow> db_ok kl db"
  using relay_run.reach_inv[of kl "(db, hist)"] by (simp add: run_ok_def)

subsection \<open>What a step leaves of the ledgers\<close>

text \<open>Ids are never given out twice: a row with an old id was there before.\<close>

definition ledger_after :: "relay_db \<Rightarrow> relay_db \<Rightarrow> bool" where
  "ledger_after db db' =
     (rd_next_event db \<le> rd_next_event db' \<and> rd_roster db' = rd_roster db \<and>
      (\<forall>r\<in>set (rd_events db'). lr_id r < rd_next_event db \<longrightarrow> r \<in> set (rd_events db)))"

lemma ledger_after_refl: "ledger_after db db"
  by (simp add: ledger_after_def)

lemma ledger_after_trans: "ledger_after a b \<Longrightarrow> ledger_after b c \<Longrightarrow> ledger_after a c"
  unfolding ledger_after_def by force

lemma ledger_after_same:
  "rd_events db' = rd_events db \<Longrightarrow> rd_next_event db' = rd_next_event db \<Longrightarrow> rd_roster db' = rd_roster db \<Longrightarrow>
   ledger_after db db'"
  by (simp add: ledger_after_def)

lemma ledger_after_insert: "ledger_insert a db = Some db' \<Longrightarrow> ledger_after db db'"
  by (auto dest!: ledger_insert_Some(1) simp: ledger_after_def)

lemma ledger_after_trim: "ledger_after db (org_audit_trim_statement org db)"
  using trim_subset by (fastforce simp: ledger_after_def org_audit_trim_statement_def)

lemma ledger_after_audit: "org_audit_statement a p n db = Some db' \<Longrightarrow> ledger_after db db'"
  by (auto simp: org_audit_statement_def ledger_after_refl ledger_after_insert split: if_splits)

lemma ledger_after_audit_and_trim: "audit_and_trim a n db = Some db' \<Longrightarrow> ledger_after db db'"
  unfolding audit_and_trim_def using ledger_after_audit ledger_after_trim ledger_after_trans by blast

text \<open>Through a change of other tables first.\<close>

lemma ledger_after_via:
  "ledger_after db1 db' \<Longrightarrow> rd_events db1 = rd_events db \<Longrightarrow> rd_next_event db1 = rd_next_event db \<Longrightarrow>
   rd_roster db1 = rd_roster db \<Longrightarrow> ledger_after db db'"
  by (simp add: ledger_after_def)

lemma cleanup_after: "ledger_after db d \<Longrightarrow> ledger_after db (expired_invite_cleanup_statement org now d)"
  by (simp add: ledger_after_def expired_invite_cleanup_statement_def)

lemma create_invite_after: "create_invite_batch row audit now db = Some (db', n) \<Longrightarrow> ledger_after db db'"
  by (auto simp: create_invite_batch_def Let_def expired_invite_cleanup_statement_def split: if_splits option.splits
      dest!: ledger_after_audit_and_trim elim!: ledger_after_via)

lemma revoke_invite_after: "revoke_invite_batch i org audit now db = Some (db', n) \<Longrightarrow> ledger_after db db'"
  by (auto simp: revoke_invite_batch_def Let_def dest!: ledger_after_audit_and_trim intro!: cleanup_after elim!: ledger_after_via)

lemma insert_handle_frame:
  "insert_handle r db = Some (db', n) \<Longrightarrow> \<exists>hs. db' = db\<lparr>rd_handles := hs\<rparr>"
  by (cases r) (auto simp: insert_handle_def intro: exI[of _ "rd_handles db"] split: prod.splits if_splits)

lemma register_after:
  assumes "register_batch hash handle tok kind agent org audit now db = Some (db', n0, n1)"
  shows "ledger_after db db'"
proof -
  obtain hs m0 where i: "insert_handle (map_option (\<lambda>iv. new_handle iv handle tok kind now agent)
      (find (redeemable hash now) (rd_invites db))) db = Some (db\<lparr>rd_handles := hs\<rparr>, m0)"
    using assms insert_handle_frame by (fastforce simp: register_batch_def split: option.splits)
  show ?thesis
    using assms unfolding register_batch_def i
    by (auto simp: Let_def dest!: ledger_after_audit_and_trim intro!: cleanup_after elim!: ledger_after_via)
qed

lemma issue_after: "issue_batch org handle tok g digest audit db = Some (db', n) \<Longrightarrow> ledger_after db db'"
  by (auto simp: issue_batch_def Let_def dest!: ledger_after_audit_and_trim elim!: ledger_after_via)

lemma enqueue_events: "rd_events (enqueue_eviction q now db) = rd_events db"
  "rd_next_event (enqueue_eviction q now db) = rd_next_event db" "rd_roster (enqueue_eviction q now db) = rd_roster db"
  by (simp_all add: enqueue_eviction_def)

lemma redeem_after:
  assumes "redeem_batch q h audit now e db = Some (db', n0, n1)"
  shows "ledger_after db db'"
proof (cases "sql_exists (consumable q h) (rd_handles db)")
  case True
  then obtain rs db3 where a: "org_audit_statement audit True n1 (db\<lparr>rd_receipts := rs,
        rd_handles := sql_update (consumable q h) (redeem_handle q now) (rd_handles db)\<rparr>) = Some db3"
    and d: "db' = org_audit_trim_statement (rm_org q) ((enqueue_eviction q now db3)
        \<lparr>rd_receipts := sql_delete (\<lambda>r. rr_expires_at r \<le> now) rs\<rparr>)"
    using redeem_tables[OF assms] by auto
  have "ledger_after db db3" by (rule ledger_after_via[OF ledger_after_audit[OF a]]) simp_all
  moreover have "ledger_after db3 db'"
    unfolding d by (rule ledger_after_via[OF ledger_after_trim]) (simp_all add: enqueue_events)
  ultimately show ?thesis by (rule ledger_after_trans)
next
  case False
  then have d: "db' = org_audit_trim_statement (rm_org q) ((enqueue_eviction q now db)
        \<lparr>rd_receipts := sql_delete (\<lambda>r. rr_expires_at r \<le> now) (rd_receipts db)\<rparr>)"
    using redeem_tables[OF assms] by simp
  show ?thesis unfolding d by (rule ledger_after_via[OF ledger_after_trim]) (simp_all add: enqueue_events)
qed

lemma evict_frame: "\<exists>es. fst (evict accepts fate org handle g now db) = db\<lparr>rd_evictions := es\<rparr>"
proof -
  have 1: "\<exists>es. drop_eviction org handle g d = d\<lparr>rd_evictions := es\<rparr>" for d
    by (auto simp: drop_eviction_def)
  have 2: "\<exists>es. delay_eviction org handle g now d = d\<lparr>rd_evictions := es\<rparr>" for d
    by (cases "find (eviction_job org handle g) (rd_evictions d)")
       (auto simp: delay_eviction_def Let_def intro: exI[of _ "rd_evictions d"])
  have 3: "\<exists>es. delay_eviction org handle g now (drop_eviction org handle g db) = db\<lparr>rd_evictions := es\<rparr>"
    using 2[of "drop_eviction org handle g db"] by (auto simp: drop_eviction_def)
  show ?thesis using 1[of db] 2[of db] 3 by (cases fate) (auto simp: evict_def)
qed

lemma policy_request_frame: "\<exists>qs. insert_policy_request org u actor now d = d\<lparr>rd_policy_requests := qs\<rparr>"
proof -
  have same: "\<exists>qs. d = d\<lparr>rd_policy_requests := qs\<rparr>" by (rule exI[of _ "rd_policy_requests d"]) simp
  have "\<exists>qs. d\<lparr>rd_policy_requests := x\<rparr> = d\<lparr>rd_policy_requests := qs\<rparr>" for x by (rule exI[of _ x]) (rule refl)
  with same show ?thesis unfolding insert_policy_request_def by (simp split: if_split del: sql_exists_iff)
qed

lemma policy_frame:
  "\<exists>ps qs. insert_policy_request org u actor now (upsert_policy org u actor now db) =
     db\<lparr>rd_policies := ps, rd_policy_requests := qs\<rparr>"
proof -
  obtain ps where "upsert_policy org u actor now db = db\<lparr>rd_policies := ps\<rparr>"
    by (cases "pu_expected_version u = 0") (auto simp: upsert_policy_def intro: that[of "rd_policies db"])
  then show ?thesis
    using policy_request_frame[of org u actor now "db\<lparr>rd_policies := ps\<rparr>"] by auto
qed

lemma policy_after: "policy_batch org u actor audit now db = Some (db', x) \<Longrightarrow> ledger_after db db'"
proof -
  assume p: "policy_batch org u actor audit now db = Some (db', x)"
  obtain ps qs where f: "insert_policy_request org u actor now (upsert_policy org u actor now db) =
     db\<lparr>rd_policies := ps, rd_policy_requests := qs\<rparr>" using policy_frame by blast
  obtain d where d: "db' = org_audit_trim_statement org d" "ledger_after (db\<lparr>rd_policies := ps, rd_policy_requests := qs\<rparr>) d"
    using p unfolding policy_batch_def f by (auto simp: Let_def ledger_after_refl ledger_after_insert split: if_splits)
  have "ledger_after db d" by (rule ledger_after_via[OF d(2)]) simp_all
  then show ?thesis using d(1) ledger_after_trim ledger_after_trans by blast
qed

lemma hold_create_after: "hold_create_batch row audit db = Some (db', x) \<Longrightarrow> ledger_after db db'"
proof -
  assume p: "hold_create_batch row audit db = Some (db', x)"
  then obtain d where d: "db' = org_audit_trim_statement (hd_org row) d" "ledger_after (db\<lparr>rd_holds := rd_holds db @ [row]\<rparr>) d"
    by (auto simp: hold_create_batch_def insert_hold_def ledger_after_refl ledger_after_insert split: if_splits option.splits)
  have "ledger_after db d" by (rule ledger_after_via[OF d(2)]) simp_all
  then show ?thesis using d(1) ledger_after_trim ledger_after_trans by blast
qed

lemma hold_release_after: "hold_release_batch org i request actor audit now db = Some (db', x) \<Longrightarrow> ledger_after db db'"
proof -
  assume p: "hold_release_batch org i request actor audit now db = Some (db', x)"
  then obtain hs d n where d: "db' = org_audit_trim_statement org d"
    "org_audit_statement audit True n (db\<lparr>rd_holds := hs\<rparr>) = Some d"
    by (auto simp: hold_release_batch_def Let_def split: if_splits)
  have "ledger_after db d" by (rule ledger_after_via[OF ledger_after_audit[OF d(2)]]) simp_all
  then show ?thesis using d(1) ledger_after_trim ledger_after_trans by blast
qed

lemma relay_step_after: "relay_step kl s t \<Longrightarrow> ledger_after (fst s) (fst t)"
proof (induction rule: relay_step.induct)
  case (step_evict db hist accepts fate org handle g now)
  show ?case using evict_frame[of accepts fate org handle g now db] by (auto simp: ledger_after_def)
next
  case (step_identity row db db' n hist)
  then show ?case by (auto simp: insert_identity_def ledger_after_def split: prod.splits)
next
  case (step_key row db db' n hist)
  then show ?case by (auto dest!: insert_key_cases simp: ledger_after_def)
next
  case (step_acknowledge org cp actor now db db' x hist)
  then show ?case by (auto simp: acknowledge_batch_def Let_def ledger_after_def)
next
  case (step_call_event a db db' hist)
  then show ?case using ledger_after_insert ledger_after_trim ledger_after_trans by fastforce
next
  case (step_rotate org handle old new db db' n hist)
  then show ?case by (auto simp: rotate_batch_def ledger_after_def)
qed (simp_all add: create_invite_after revoke_invite_after register_after issue_after redeem_after policy_after
    hold_create_after hold_release_after)

end
