(* ===== verification/RelayRuns.thy ===== *)
theory RelayRuns
  imports RelayService
begin

text \<open>
  What one step of the relay's service, and so any run of it, keeps of the registry, the key
  directory and the acknowledgements, and the properties of whole runs: published keys, the
  invites and the recovery proofs are each used as they should be, whatever requests run in
  between.
\<close>

subsection \<open>What a step keeps\<close>

definition followed :: "('r \<Rightarrow> 'r \<Rightarrow> bool) \<Rightarrow> 'r list \<Rightarrow> 'r list \<Rightarrow> bool" where
  "followed R xs ys = (\<forall>x\<in>set xs. \<exists>y\<in>set ys. R x y)"

lemma followed_more: "(\<And>x. R x x) \<Longrightarrow> set xs \<subseteq> set ys \<Longrightarrow> followed R xs ys"
  unfolding followed_def by blast

lemma followed_trans:
  "(\<And>x y z. R x y \<Longrightarrow> R y z \<Longrightarrow> R x z) \<Longrightarrow> followed R xs ys \<Longrightarrow> followed R ys zs \<Longrightarrow> followed R xs zs"
  unfolding followed_def by blast

definition handle_after :: "handle_row \<Rightarrow> handle_row \<Rightarrow> bool" where
  "handle_after h h' =
     (handle_key h' = handle_key h \<and> hn_agent_id h' = hn_agent_id h \<and> hn_role h' = hn_role h \<and>
      hn_recovery_generation h \<le> hn_recovery_generation h')"

definition ack_after :: "ack_row \<Rightarrow> ack_row \<Rightarrow> bool" where
  "ack_after a a' =
     (ak_org a' = ak_org a \<and> cp_org_event_id (ak_checkpoint a) \<le> cp_org_event_id (ak_checkpoint a') \<and>
      cp_roster_event_id (ak_checkpoint a) \<le> cp_roster_event_id (ak_checkpoint a'))"

definition db_after :: "relay_db \<Rightarrow> relay_db \<Rightarrow> bool" where
  "db_after db db' =
     (followed handle_after (rd_handles db) (rd_handles db') \<and> followed ack_after (rd_acks db) (rd_acks db') \<and>
      set (rd_identity_keys db) \<subseteq> set (rd_identity_keys db') \<and>
      (\<exists>xs. rd_encryption_keys db' = rd_encryption_keys db @ xs) \<and> ledger_after db db')"

lemma handles_more: "set hs \<subseteq> set hs' \<Longrightarrow> followed handle_after hs hs'"
  by (rule followed_more) (simp_all add: handle_after_def)

lemma acks_more: "set xs \<subseteq> set ys \<Longrightarrow> followed ack_after xs ys"
  by (rule followed_more) (simp_all add: ack_after_def)

lemma db_after_refl: "db_after db db"
  by (simp add: db_after_def handles_more acks_more ledger_after_refl)

lemma db_after_trans:
  assumes "db_after a b" "db_after b c"
  shows "db_after a c"
proof -
  have "followed handle_after (rd_handles a) (rd_handles c)"
    by (rule followed_trans) (use assms in \<open>auto simp: db_after_def handle_after_def\<close>)
  moreover have "followed ack_after (rd_acks a) (rd_acks c)"
    by (rule followed_trans) (use assms in \<open>auto simp: db_after_def ack_after_def\<close>)
  moreover have "ledger_after a c" using assms ledger_after_trans by (auto simp: db_after_def)
  ultimately show ?thesis using assms by (auto simp: db_after_def)
qed

lemma handles_updated: "handle_update_ok P f \<Longrightarrow> followed handle_after hs (sql_update P f hs)"
proof -
  assume ok: "handle_update_ok P f"
  have "\<exists>h'\<in>set (sql_update P f hs). handle_after h h'" if "h \<in> set hs" for h
  proof (rule bexI)
    show "handle_after h (if P h then f h else h)" using ok by (auto simp: handle_update_ok_def handle_after_def)
    show "(if P h then f h else h) \<in> set (sql_update P f hs)" using that by (auto simp: sql_update_def)
  qed
  then show ?thesis by (simp add: followed_def)
qed

text \<open>The four tables behind \<open>db_after\<close>, for the batches that leave all or most of them.\<close>

definition core :: "relay_db \<Rightarrow> handle_row list \<times> identity_key_row list \<times> encryption_key_row list \<times> ack_row list" where
  "core db = (rd_handles db, rd_identity_keys db, rd_encryption_keys db, rd_acks db)"

lemma core_trim [simp]: "core (org_audit_trim_statement org db) = core db"
  by (simp add: core_def org_audit_trim_statement_def)

lemma core_cleanup [simp]: "core (expired_invite_cleanup_statement org now db) = core db"
  by (simp add: core_def expired_invite_cleanup_statement_def)

lemma core_enqueue [simp]: "core (enqueue_eviction q now db) = core db"
  by (simp add: core_def enqueue_eviction_def)

lemma core_ledger: "ledger_insert a db = Some d \<Longrightarrow> core d = core db"
  by (auto simp: core_def dest!: ledger_insert_Some(1))

lemma core_statement: "org_audit_statement a p n db = Some d \<Longrightarrow> core d = core db"
  by (auto simp: org_audit_statement_def core_ledger split: if_splits)

lemma core_audit: "audit_and_trim a n db = Some d \<Longrightarrow> core d = core db"
  by (auto simp: audit_and_trim_def core_statement)

lemma core_after: "core db' = core db \<Longrightarrow> ledger_after db db' \<Longrightarrow> db_after db db'"
  by (simp add: core_def db_after_def handles_more acks_more)

lemma core_untouched [simp]:
  "core (db\<lparr>rd_invites := a\<rparr>) = core db" "core (db\<lparr>rd_receipts := b\<rparr>) = core db"
  "core (db\<lparr>rd_evictions := c\<rparr>) = core db" "core (db\<lparr>rd_policies := ps\<rparr>) = core db"
  "core (db\<lparr>rd_policies := ps, rd_policy_requests := qs\<rparr>) = core db" "core (db\<lparr>rd_holds := e\<rparr>) = core db"
  "core (db\<lparr>rd_receipts := b, rd_handles := hs\<rparr>) = core (db\<lparr>rd_handles := hs\<rparr>)"
  by (simp_all add: core_def)

lemma core_handles: "core d = core (db\<lparr>rd_handles := hs\<rparr>) \<Longrightarrow>
   rd_handles d = hs \<and> rd_identity_keys d = rd_identity_keys db \<and> rd_encryption_keys d = rd_encryption_keys db \<and>
   rd_acks d = rd_acks db"
  by (simp add: core_def)

lemma handles_db_after:
  "core db' = core (db\<lparr>rd_handles := hs\<rparr>) \<Longrightarrow> followed handle_after (rd_handles db) hs \<Longrightarrow> ledger_after db db' \<Longrightarrow>
   db_after db db'"
  by (auto simp: db_after_def acks_more dest!: core_handles)

lemma core_create_invite: "create_invite_batch row audit now db = Some (db', n) \<Longrightarrow> core db' = core db"
  by (auto simp: create_invite_batch_def Let_def dest!: core_audit split: if_splits option.splits)

lemma core_revoke_invite: "revoke_invite_batch i org audit now db = Some (db', n) \<Longrightarrow> core db' = core db"
  by (auto simp: revoke_invite_batch_def Let_def dest!: core_audit)

lemma core_register:
  assumes "register_batch hash handle tok kind agent org audit now db = Some (db', n0, n1)"
  obtains hs m0 where "insert_handle (map_option (\<lambda>iv. new_handle iv handle tok kind now agent)
      (find (redeemable hash now) (rd_invites db))) db = Some (db\<lparr>rd_handles := hs\<rparr>, m0)"
    "m0 = n0" "core db' = core (db\<lparr>rd_handles := hs\<rparr>)"
proof -
  obtain hs m0 where i: "insert_handle (map_option (\<lambda>iv. new_handle iv handle tok kind now agent)
      (find (redeemable hash now) (rd_invites db))) db = Some (db\<lparr>rd_handles := hs\<rparr>, m0)"
    using assms insert_handle_frame by (fastforce simp: register_batch_def split: option.splits)
  moreover have "core db' = core (db\<lparr>rd_handles := hs\<rparr>) \<and> m0 = n0"
    using assms unfolding register_batch_def i by (auto simp: Let_def dest!: core_audit)
  ultimately show ?thesis using that by blast
qed

lemma insert_handle_more:
  "insert_handle r db = Some (db\<lparr>rd_handles := hs\<rparr>, n) \<Longrightarrow> followed handle_after (rd_handles db) hs"
proof (rule handles_more)
  assume i: "insert_handle r db = Some (db\<lparr>rd_handles := hs\<rparr>, n)"
  have "rd_handles (db\<lparr>rd_handles := hs\<rparr>) = hs" by simp
  moreover have "set (rd_handles db) \<subseteq> set (rd_handles d)" if "insert_handle r db = Some (d, n)" for d
    using that by (cases r) (auto simp: insert_handle_def sql_insert_or_ignore_def sql_insert_Some
        split: prod.splits if_splits option.splits)
  ultimately show "set (rd_handles db) \<subseteq> set hs" using i by metis
qed

lemma core_issue:
  "issue_batch org handle tok g digest audit db = Some (db', n) \<Longrightarrow>
   core db' = core (db\<lparr>rd_handles := sql_update (issuable org handle tok g)
     (\<lambda>r. r\<lparr>hn_recovery_hash := Some digest, hn_recovery_generation := hn_recovery_generation r + 1,
        hn_recovery_redeemed_at := None\<rparr>) (rd_handles db)\<rparr>)"
  by (auto simp: issue_batch_def Let_def dest!: core_audit)

lemma core_redeem:
  assumes "redeem_batch q h audit now e db = Some (db', n0, n1)"
  shows "core db' = core (db\<lparr>rd_handles := sql_update (consumable q h) (redeem_handle q now) (rd_handles db)\<rparr>) \<and>
    n1 = sql_count (consumable q h) (rd_handles db)"
proof (cases "sql_exists (consumable q h) (rd_handles db)")
  case True
  then obtain rs db3 where a: "org_audit_statement audit True n1 (db\<lparr>rd_receipts := rs,
        rd_handles := sql_update (consumable q h) (redeem_handle q now) (rd_handles db)\<rparr>) = Some db3"
    and d: "db' = org_audit_trim_statement (rm_org q) ((enqueue_eviction q now db3)
        \<lparr>rd_receipts := sql_delete (\<lambda>r. rr_expires_at r \<le> now) rs\<rparr>)" and n: "n1 = sql_count (consumable q h) (rd_handles db)"
    using redeem_tables[OF assms] by auto
  show ?thesis using core_statement[OF a] n unfolding d by simp
next
  case False
  then have z: "sql_count (consumable q h) (rd_handles db) = 0" by (simp add: sql_count_zero)
  show ?thesis using redeem_tables[OF assms] False z by (simp add: sql_update_none[OF z] del: sql_exists_iff)
qed

lemma core_policy: "policy_batch org u actor audit now db = Some (db', x) \<Longrightarrow> core db' = core db"
proof -
  assume p: "policy_batch org u actor audit now db = Some (db', x)"
  obtain ps qs where f: "insert_policy_request org u actor now (upsert_policy org u actor now db) =
     db\<lparr>rd_policies := ps, rd_policy_requests := qs\<rparr>" using policy_frame by blast
  show ?thesis using p unfolding policy_batch_def f by (auto simp: Let_def dest!: core_ledger split: if_splits)
qed

lemma core_hold: "hold_create_batch hold audit db = Some (db', x) \<Longrightarrow> core db' = core db"
  by (auto simp: hold_create_batch_def insert_hold_def dest!: core_ledger split: if_splits option.splits)

lemma core_release: "hold_release_batch org i request actor audit now db = Some (db', x) \<Longrightarrow> core db' = core db"
  by (auto simp: hold_release_batch_def Let_def dest!: core_statement split: if_splits)

lemma followed_upsert:
  assumes "\<And>q. R q q" "\<And>q. R q (up q)"
  shows "followed R rows (sql_upsert key up r rows)"
proof (cases "list_ex (\<lambda>q. key q = key r) rows")
  case True
  have "\<exists>y\<in>set (sql_upsert key up r rows). R q y" if "q \<in> set rows" for q
  proof (rule bexI)
    show "R q (if key q = key r then up q else q)" using assms by simp
    show "(if key q = key r then up q else q) \<in> set (sql_upsert key up r rows)"
      using True that unfolding sql_upsert_def by simp
  qed
  then show ?thesis by (simp add: followed_def)
next
  case False
  then show ?thesis using followed_more[of R rows "rows @ [r]", OF assms(1)] by (auto simp: sql_upsert_def)
qed

lemma acknowledge_db_after:
  assumes "acknowledge_batch org cp actor now db = Some (db', x)"
  shows "db_after db db'"
proof -
  have "followed ack_after (rd_acks db) (rd_acks db')"
    using assms by (auto simp: acknowledge_batch_def Let_def ack_after_def supersedes_def intro!: followed_upsert)
  then show ?thesis using assms by (auto simp: acknowledge_batch_def Let_def db_after_def handles_more ledger_after_def)
qed

lemma relay_step_db_after: "relay_step kl s t \<Longrightarrow> db_after (fst s) (fst t)"
proof (induction rule: relay_step.induct)
  case (step_create_invite row audit now db db' n hist)
  then show ?case by (simp add: core_after core_create_invite create_invite_after)
next
  case (step_revoke_invite i org audit now db db' n hist)
  then show ?case by (simp add: core_after core_revoke_invite revoke_invite_after)
next
  case (step_register hash handle tok kind agent org audit now db db' n0 n1 hist)
  obtain hs m0 where "followed handle_after (rd_handles db) hs" "core db' = core (db\<lparr>rd_handles := hs\<rparr>)"
    using core_register[OF step_register(1)] insert_handle_more by metis
  then show ?case using register_after[OF step_register(1)] handles_db_after by simp
next
  case (step_rotate org handle old new db db' n hist)
  then show ?case using handles_updated[OF rotate_update]
    by (auto simp: rotate_batch_def ledger_after_def intro!: handles_db_after[OF refl])
next
  case (step_issue org handle tok g digest audit db db' n hist)
  then show ?case using handles_db_after[OF core_issue handles_updated[OF issue_update] issue_after] by simp
next
  case (step_redeem q h audit now e db db' n0 n1 hist)
  have "handle_update_ok (consumable q h) (redeem_handle q now)" using redeem_update[of q h True now] by simp
  then show ?case
    using handles_db_after[OF conjunct1[OF core_redeem] handles_updated redeem_after] step_redeem by simp
next
  case (step_evict db hist accepts fate org handle g now)
  obtain es where "fst (evict accepts fate org handle g now db) = db\<lparr>rd_evictions := es\<rparr>" using evict_frame by blast
  then show ?case using core_after[of "db\<lparr>rd_evictions := es\<rparr>" db] by (simp add: ledger_after_def)
next
  case (step_identity row db db' n hist)
  then show ?case
    by (auto simp: insert_identity_def db_after_def handles_more acks_more ledger_after_def sql_insert_or_ignore_def
        sql_insert_Some split: prod.splits option.splits)
next
  case (step_key row db db' n hist)
  then show ?case using insert_key_cases[OF step_key(1)] db_after_refl
    by (auto simp: db_after_def handles_more acks_more ledger_after_def)
next
  case (step_policy org u actor audit now db db' x hist)
  then show ?case by (simp add: core_after core_policy policy_after)
next
  case (step_hold hold audit db db' x hist)
  then show ?case by (simp add: core_after core_hold hold_create_after)
next
  case (step_release org i request actor audit now db db' x hist)
  then show ?case by (simp add: core_after core_release hold_release_after)
next
  case (step_acknowledge org cp actor now db db' x hist)
  then show ?case by (simp add: acknowledge_db_after)
next
  case (step_call_event a db db' hist)
  then show ?case using core_after[of "org_audit_trim_statement (oa_org a) db'" db] core_ledger
      ledger_after_trans[OF ledger_after_insert ledger_after_trim] by fastforce
qed

lemma relay_steps_db_after: "(relay_step kl)\<^sup>*\<^sup>* s t \<Longrightarrow> db_after (fst s) (fst t)"
  by (induction rule: rtranclp_induct) (use relay_step_db_after db_after_trans db_after_refl in blast)+

lemma reach_steps: "reach init step s \<Longrightarrow> step\<^sup>*\<^sup>* s t \<Longrightarrow> reach init step t"
  by (rotate_tac, induction rule: rtranclp_induct) (auto intro: reach_step)

subsection \<open>Invites\<close>

text \<open>A row of the invite table comes from an earlier row of the same invite.\<close>

definition invite_before_row :: "invite_row \<Rightarrow> invite_row \<Rightarrow> bool" where
  "invite_before_row iv' iv =
     (iv_token_hash iv' = iv_token_hash iv \<and> iv_org iv' = iv_org iv \<and> iv_role iv' = iv_role iv \<and>
      (iv_used_at iv \<noteq> None \<longrightarrow> iv_used_at iv' \<noteq> None))"

abbreviation invites_from :: "relay_db \<Rightarrow> relay_db \<Rightarrow> bool" where
  "invites_from db db' \<equiv> followed invite_before_row (rd_invites db') (rd_invites db)"

lemma invites_from_less: "set (rd_invites db') \<subseteq> set (rd_invites db) \<Longrightarrow> invites_from db db'"
  by (rule followed_more) (simp_all add: invite_before_row_def)

lemma invites_from_same: "rd_invites db' = rd_invites db \<Longrightarrow> invites_from db db'"
  by (simp add: invites_from_less)

lemma delete_less: "set (sql_delete P rows) \<subseteq> set rows"
  by (auto simp: sql_delete_def)

lemma invites_updated:
  assumes "\<And>iv. P iv \<Longrightarrow> invite_before_row (f iv) iv" "set rows \<subseteq> set (sql_update P f (rd_invites db))"
  shows "followed invite_before_row rows (rd_invites db)"
  unfolding followed_def
proof
  fix r assume "r \<in> set rows"
  then have "r \<in> set (sql_update P f (rd_invites db))" using assms(2) by blast
  then show "\<exists>iv\<in>set (rd_invites db). invite_before_row r iv"
    using assms(1) by (auto simp: sql_update_set) (auto simp: invite_before_row_def)
qed

definition invites_hist :: "relay_db \<Rightarrow> fact list \<Rightarrow> bool" where
  "invites_hist db hist =
     ((\<forall>iv\<in>set (rd_invites db). InviteIssued (iv_token_hash iv) (iv_org iv) (iv_role iv) \<in> set hist) \<and>
      (\<forall>iv\<in>set (rd_invites db). iv_token_hash iv \<in> set (enrolled_hashes hist) \<longrightarrow> iv_used_at iv \<noteq> None) \<and>
      distinct (enrolled_hashes hist) \<and>
      (\<forall>hash org handle role. InviteEnrolled hash org handle role \<in> set hist \<longrightarrow>
         InviteIssued hash org role \<in> set hist \<and>
         (\<exists>h\<in>set (rd_handles db). handle_key h = (org, handle) \<and> hn_role h = role)))"

lemma facts_of_append [simp]:
  "invite_hashes (a @ b) = invite_hashes a @ invite_hashes b"
  "enrolled_hashes (a @ b) = enrolled_hashes a @ enrolled_hashes b"
  "consumed_proofs (a @ b) = consumed_proofs a @ consumed_proofs b"
  by (simp_all add: invite_hashes_def enrolled_hashes_def consumed_proofs_def)

lemma invite_hashes_mem: "h \<in> set (invite_hashes hist) \<longleftrightarrow> (\<exists>org role. InviteIssued h org role \<in> set hist)"
  unfolding invite_hashes_def by (induction hist) (auto split: fact.splits)

lemma enrolled_hashes_mem:
  "h \<in> set (enrolled_hashes hist) \<longleftrightarrow> (\<exists>org handle role. InviteEnrolled h org handle role \<in> set hist)"
  unfolding enrolled_hashes_def by (induction hist) (auto split: fact.splits)

text \<open>Steps that neither issue nor redeem an invite keep the history's account of it.\<close>

lemma invites_hist_quiet:
  assumes "invites_hist db hist" "invites_from db db'" "followed handle_after (rd_handles db) (rd_handles db')"
    "enrolled_hashes fs = []" "\<And>a b c d. InviteEnrolled a b c d \<notin> set fs"
  shows "invites_hist db' (hist @ fs)"
proof -
  have iv: "InviteIssued (iv_token_hash r) (iv_org r) (iv_role r) \<in> set hist \<and>
      (iv_token_hash r \<in> set (enrolled_hashes hist) \<longrightarrow> iv_used_at r \<noteq> None)"
    if "r \<in> set (rd_invites db')" for r
    using assms(1,2) that unfolding invites_hist_def followed_def invite_before_row_def by force
  have h: "\<exists>h'\<in>set (rd_handles db'). handle_key h' = k \<and> hn_role h' = role"
    if "\<exists>h\<in>set (rd_handles db). handle_key h = k \<and> hn_role h = role" for k role
    using assms(3) that unfolding followed_def handle_after_def by force
  show ?thesis using assms(1,4,5) iv h unfolding invites_hist_def by auto
qed

lemma create_invite_hist:
  assumes "invites_hist db hist" "create_invite_batch row audit now db = Some (db', n)"
    "iv_token_hash row \<notin> set (invite_hashes hist)" "iv_used_at row = None"
  shows "invites_hist db' (hist @ issued_facts row n)"
proof -
  let ?fs = "issued_facts row n"
  let ?db1 = "expired_invite_cleanup_statement (iv_org row) now db"
  have e: "enrolled_hashes ?fs = []" "\<And>a b c d. InviteEnrolled a b c d \<notin> set ?fs"
    by (simp_all add: issued_facts_def enrolled_hashes_def)
  have less: "set (rd_invites ?db1) \<subseteq> set (rd_invites db)"
    by (simp add: expired_invite_cleanup_statement_def delete_less)
  have hs: "rd_handles db' = rd_handles db" using core_create_invite[OF assms(2)] by (simp add: core_def)
  show ?thesis
  proof (cases "active_invites (iv_org row) now ?db1 < MAX_ACTIVE_ORG_INVITES")
    case False
    then have "rd_invites db' = rd_invites ?db1" using assms(2)
      by (auto simp: create_invite_batch_def Let_def dest!: audit_and_trim_tables)
    then show ?thesis
      using invites_hist_quiet[OF assms(1) invites_from_less _ e] less hs handles_more by auto
  next
    case True
    then have t: "rd_invites db' = rd_invites ?db1 @ [row]" "n = 1" using assms(2)
      by (auto simp: create_invite_batch_def Let_def sql_insert_Some dest!: audit_and_trim_tables split: option.splits)
    have q: "invites_hist ?db1 (hist @ ?fs)"
      using invites_hist_quiet[OF assms(1) invites_from_less[OF less] _ e] handles_more
      by (simp add: expired_invite_cleanup_statement_def)
    have "iv_token_hash row \<notin> set (enrolled_hashes hist)"
      using assms(1,3) unfolding enrolled_hashes_mem invite_hashes_mem invites_hist_def by blast
    then show ?thesis using q e t hs assms(4)
      by (auto simp: invites_hist_def issued_facts_def expired_invite_cleanup_statement_def)
  qed
qed

text \<open>
  A registration inserts the handle and spends the invite together, or it inserts nothing.
\<close>

lemma find_redeemable: "find (redeemable hash now) rows = Some iv \<Longrightarrow> iv \<in> set rows \<and> redeemable hash now iv"
  using find_Some_iff_mem by fastforce

lemma register_invites:
  assumes "register_batch hash handle tok kind agent org audit now db = Some (db', n0, n1)"
  obtains hs where "insert_handle (map_option (\<lambda>iv. new_handle iv handle tok kind now agent)
      (find (redeemable hash now) (rd_invites db))) db = Some (db\<lparr>rd_handles := hs\<rparr>, n0)"
    "rd_handles db' = hs"
    "n1 = sql_count (claims_invite hash handle tok (db\<lparr>rd_handles := hs\<rparr>)) (rd_invites db)"
    "set (rd_invites db') \<subseteq> set (sql_update (claims_invite hash handle tok (db\<lparr>rd_handles := hs\<rparr>))
       (\<lambda>r. r\<lparr>iv_used_at := Some now, iv_used_by := Some handle\<rparr>) (rd_invites db))"
proof -
  obtain hs m0 where i: "insert_handle (map_option (\<lambda>iv. new_handle iv handle tok kind now agent)
      (find (redeemable hash now) (rd_invites db))) db = Some (db\<lparr>rd_handles := hs\<rparr>, m0)"
    and "m0 = n0" "core db' = core (db\<lparr>rd_handles := hs\<rparr>)" by (rule core_register[OF assms])
  moreover have "n1 = sql_count (claims_invite hash handle tok (db\<lparr>rd_handles := hs\<rparr>)) (rd_invites db) \<and>
      set (rd_invites db') \<subseteq> set (sql_update (claims_invite hash handle tok (db\<lparr>rd_handles := hs\<rparr>))
       (\<lambda>r. r\<lparr>iv_used_at := Some now, iv_used_by := Some handle\<rparr>) (rd_invites db))"
    using assms unfolding register_batch_def i
    by (auto simp: Let_def expired_invite_cleanup_statement_def sql_delete_def dest!: audit_and_trim_tables)
  ultimately show ?thesis using that by (simp add: core_def)
qed

lemma insert_handle_one:
  assumes "insert_handle r db = Some (db\<lparr>rd_handles := hs\<rparr>, n)" "n \<noteq> 0"
  shows "\<exists>h. r = Some h \<and> hs = rd_handles db @ [h] \<and> n = 1"
proof -
  have "\<exists>h. r = Some h \<and> rd_handles d = rd_handles db @ [h] \<and> n = 1" if "insert_handle r db = Some (d, n)" for d
    using that assms(2) by (cases r) (auto simp: insert_handle_def sql_insert_or_ignore_def sql_insert_Some
        split: prod.splits if_splits option.splits)
  from this[OF assms(1)] show ?thesis by simp
qed

lemma register_all_or_nothing:
  assumes "register_batch hash handle tok kind agent org audit now db = Some (db', n0, n1)"
    "invites_table.keyed (rd_invites db)" "n0 \<noteq> 0"
  obtains iv where "find (redeemable hash now) (rd_invites db) = Some iv" "n0 = 1" "n1 = 1"
    "rd_handles db' = rd_handles db @ [new_handle iv handle tok kind now agent]"
    "\<And>r. r \<in> set (rd_invites db') \<Longrightarrow> iv_token_hash r = hash \<Longrightarrow> iv_used_at r = Some now"
proof -
  obtain hs where i: "insert_handle (map_option (\<lambda>iv. new_handle iv handle tok kind now agent)
      (find (redeemable hash now) (rd_invites db))) db = Some (db\<lparr>rd_handles := hs\<rparr>, n0)" and hs: "rd_handles db' = hs"
    and n1: "n1 = sql_count (claims_invite hash handle tok (db\<lparr>rd_handles := hs\<rparr>)) (rd_invites db)"
    and s: "set (rd_invites db') \<subseteq> set (sql_update (claims_invite hash handle tok (db\<lparr>rd_handles := hs\<rparr>))
       (\<lambda>r. r\<lparr>iv_used_at := Some now, iv_used_by := Some handle\<rparr>) (rd_invites db))"
    by (rule register_invites[OF assms(1)])
  obtain iv where iv: "find (redeemable hash now) (rd_invites db) = Some iv" "n0 = 1"
    and app: "hs = rd_handles db @ [new_handle iv handle tok kind now agent]"
    using insert_handle_one[OF i assms(3)] by auto
  let ?c = "claims_invite hash handle tok (db\<lparr>rd_handles := hs\<rparr>)"
  have m: "iv \<in> set (rd_invites db)" "redeemable hash now iv" using find_redeemable[OF iv(1)] by auto
  have c: "?c iv" using m(2) app by (auto simp: claims_invite_def redeemable_def invite_live_def new_handle_def)
  have only: "r = iv" if "r \<in> set (rd_invites db)" "iv_token_hash r = hash" for r
    using that m invites_table.keyed_eq[OF assms(2)] by (simp add: redeemable_def)
  have "n1 \<le> 1" unfolding n1
    by (rule invites_table.count_le_one[OF assms(2), where k = hash]) (simp add: claims_invite_def)
  moreover have "0 < n1" unfolding n1 sql_count_pos using m(1) c by blast
  moreover have "iv_used_at r = Some now" if "r \<in> set (rd_invites db')" "iv_token_hash r = hash" for r
  proof -
    have "r \<in> set (sql_update ?c (\<lambda>r. r\<lparr>iv_used_at := Some now, iv_used_by := Some handle\<rparr>) (rd_invites db))"
      using s that(1) by blast
    then show ?thesis using only c that(2) by (auto simp: sql_update_set)
  qed
  ultimately show ?thesis using that iv app hs by simp
qed

lemma register_hist:
  assumes "invites_hist db hist" "invites_table.keyed (rd_invites db)"
    "register_batch hash handle tok kind agent org audit now db = Some (db', n0, n1)"
  shows "invites_hist db' (hist @ enrolled_facts hash handle now db n0)"
proof -
  obtain hs where i: "insert_handle (map_option (\<lambda>iv. new_handle iv handle tok kind now agent)
      (find (redeemable hash now) (rd_invites db))) db = Some (db\<lparr>rd_handles := hs\<rparr>, n0)" and hs: "rd_handles db' = hs"
    and s: "set (rd_invites db') \<subseteq> set (sql_update (claims_invite hash handle tok (db\<lparr>rd_handles := hs\<rparr>))
       (\<lambda>r. r\<lparr>iv_used_at := Some now, iv_used_by := Some handle\<rparr>) (rd_invites db))"
    by (rule register_invites[OF assms(3)])
  have from_db: "invites_from db db'"
    by (rule invites_updated[OF _ s]) (simp add: invite_before_row_def)
  have grow: "followed handle_after (rd_handles db) (rd_handles db')" using insert_handle_more[OF i] hs by simp
  have quiet: "invites_hist db' hist" using invites_hist_quiet[OF assms(1) from_db grow, of "[]"] by (simp add: enrolled_hashes_def)
  show ?thesis
  proof (cases "n0 = 0")
    case True
    then show ?thesis using quiet by (auto simp: enrolled_facts_def split: option.splits)
  next
    case False
    then obtain iv where iv: "find (redeemable hash now) (rd_invites db) = Some iv" "n0 = 1"
      and app: "rd_handles db' = rd_handles db @ [new_handle iv handle tok kind now agent]"
      and used: "\<And>r. r \<in> set (rd_invites db') \<Longrightarrow> iv_token_hash r = hash \<Longrightarrow> iv_used_at r = Some now"
      using register_all_or_nothing[OF assms(3,2)] by metis
    have m: "iv \<in> set (rd_invites db)" "iv_token_hash iv = hash" "iv_used_at iv = None"
      using find_redeemable[OF iv(1)] by (auto simp: redeemable_def invite_live_def)
    have fresh: "hash \<notin> set (enrolled_hashes hist)" and issued: "InviteIssued hash (iv_org iv) (iv_role iv) \<in> set hist"
      using assms(1) m unfolding invites_hist_def by auto
    show ?thesis using quiet fresh issued used iv app
      by (auto simp: invites_hist_def enrolled_facts_def enrolled_hashes_def new_handle_def handle_key_def)
  qed
qed

subsection \<open>Recovery proofs\<close>

text \<open>
  A proof on a handle was issued to it, by its holder or as the successor of the proof that was
  consumed before it; a consumed proof is of a generation the handle has left.
\<close>

definition proof_origin :: "fact list \<Rightarrow> handle_row \<Rightarrow> bool" where
  "proof_origin hist h =
     (hn_recovery_hash h \<noteq> None \<longrightarrow>
        ProofIssued (hn_org h) (hn_handle h) (hn_recovery_generation h) \<in> set hist \<or>
        ProofConsumed (hn_org h) (hn_handle h) (hn_recovery_generation h - 1) \<in> set hist)"

definition proofs_hist :: "relay_db \<Rightarrow> fact list \<Rightarrow> bool" where
  "proofs_hist db hist =
     ((\<forall>h\<in>set (rd_handles db). proof_origin hist h) \<and> distinct (consumed_proofs hist) \<and>
      (\<forall>org handle g. ProofConsumed org handle g \<in> set hist \<longrightarrow>
         (ProofIssued org handle g \<in> set hist \<or> ProofConsumed org handle (g - 1) \<in> set hist) \<and>
         (\<exists>h\<in>set (rd_handles db). handle_key h = (org, handle) \<and> g < hn_recovery_generation h)))"

lemma consumed_proofs_mem: "(a, b, g) \<in> set (consumed_proofs hist) \<longleftrightarrow> ProofConsumed a b g \<in> set hist"
  unfolding consumed_proofs_def by (induction hist) (auto split: fact.splits)

lemma generation_stays:
  "followed handle_after hs hs' \<Longrightarrow> \<exists>h\<in>set hs. handle_key h = k \<and> g < hn_recovery_generation h \<Longrightarrow>
   \<exists>h\<in>set hs'. handle_key h = k \<and> g < hn_recovery_generation h"
  unfolding followed_def handle_after_def by force

lemma proof_origin_more: "proof_origin hist h \<Longrightarrow> proof_origin (hist @ fs) h"
  by (auto simp: proof_origin_def)

lemma proofs_hist_quiet:
  assumes "proofs_hist db hist" "followed handle_after (rd_handles db) (rd_handles db')"
    "\<And>h. h \<in> set (rd_handles db') \<Longrightarrow> proof_origin (hist @ fs) h" "\<And>a b g. ProofConsumed a b g \<notin> set fs"
  shows "proofs_hist db' (hist @ fs)"
proof -
  have "consumed_proofs fs = []" using assms(4) by (metis consumed_proofs_mem equals0I prod_cases3 set_empty)
  then show ?thesis
    using assms(1,3,4) generation_stays[OF assms(2)] unfolding proofs_hist_def by (auto; blast)
qed

lemma issue_hist:
  assumes "proofs_hist db hist" "handles_table.keyed (rd_handles db)"
    "issue_batch org handle tok g digest audit db = Some (db', n)"
  shows "proofs_hist db' (hist @ proof_facts org handle g n)"
proof (rule proofs_hist_quiet[OF assms(1)])
  let ?P = "issuable org handle tok g"
  have hs: "rd_handles db' = sql_update ?P (\<lambda>r. r\<lparr>hn_recovery_hash := Some digest,
      hn_recovery_generation := hn_recovery_generation r + 1, hn_recovery_redeemed_at := None\<rparr>) (rd_handles db)"
    using core_issue[OF assms(3)] by (simp add: core_def)
  show "followed handle_after (rd_handles db) (rd_handles db')" unfolding hs by (rule handles_updated[OF issue_update])
  have n: "n = sql_count ?P (rd_handles db)" using assms(3) by (auto simp: issue_batch_def Let_def)
  show "proof_origin (hist @ proof_facts org handle g n) h" if "h \<in> set (rd_handles db')" for h
  proof (cases "\<exists>r\<in>set (rd_handles db). ?P r")
    case True
    have "sql_count ?P (rd_handles db) \<le> 1"
      by (rule handles_table.count_le_one[OF assms(2), where k = "(org, handle)"])
         (simp add: issuable_def holds_token_def handle_key_def)
    moreover have "0 < sql_count ?P (rd_handles db)" using True by (simp add: sql_count_pos)
    ultimately have "n = 1" using n by simp
    then show ?thesis using that assms(1) unfolding hs
      by (auto simp: sql_update_set proofs_hist_def proof_facts_def proof_origin_def issuable_def holds_token_def)
  next
    case False
    then have "rd_handles db' = rd_handles db" unfolding hs using sql_update_none[of ?P] by (simp add: sql_count_zero)
    then show ?thesis using that assms(1) proof_origin_more by (simp add: proofs_hist_def)
  qed
qed (simp add: proof_facts_def)

lemma redeem_hist:
  assumes "proofs_hist db hist" "handles_table.keyed (rd_handles db)"
    "redeem_batch q h audit now e db = Some (db', n0, n1)"
  shows "proofs_hist db' (hist @ consumed_facts q n1)"
proof -
  let ?P = "consumable q h"
  have hs: "rd_handles db' = sql_update ?P (redeem_handle q now) (rd_handles db)"
    and n: "n1 = sql_count ?P (rd_handles db)" using core_redeem[OF assms(3)] by (auto simp: core_def)
  have upd: "handle_update_ok ?P (redeem_handle q now)" using redeem_update[of q h True now] by simp
  have grow: "followed handle_after (rd_handles db) (rd_handles db')" unfolding hs by (rule handles_updated[OF upd])
  show ?thesis
  proof (cases "\<exists>r\<in>set (rd_handles db). ?P r")
    case False
    then have "n1 = 0" using n by (simp add: sql_count_zero)
    moreover have "rd_handles db' = rd_handles db" using hs False sql_update_none[of ?P] by (simp add: sql_count_zero)
    ultimately show ?thesis using assms(1) by (simp add: consumed_facts_def proofs_hist_def)
  next
    case True
    then obtain r where r: "r \<in> set (rd_handles db)" "?P r" by blast
    have "sql_count ?P (rd_handles db) \<le> 1"
      by (rule handles_table.count_le_one[OF assms(2), where k = "(rm_org q, rm_handle q)"])
         (simp add: consumable_def handle_key_def)
    moreover have "0 < sql_count ?P (rd_handles db)" using True by (simp add: sql_count_pos)
    ultimately have one: "n1 = 1" using n by simp
    let ?k = "(rm_org q, rm_handle q)" and ?g = "rm_generation q"
    have key: "handle_key r = ?k" "hn_recovery_generation r = ?g" "hn_recovery_hash r \<noteq> None"
      using r(2) by (auto simp: consumable_def handle_key_def)
    have "ProofConsumed (rm_org q) (rm_handle q) ?g \<notin> set hist"
    proof
      assume "ProofConsumed (rm_org q) (rm_handle q) ?g \<in> set hist"
      then obtain x where "x \<in> set (rd_handles db)" "handle_key x = ?k" "?g < hn_recovery_generation x"
        using assms(1) unfolding proofs_hist_def by blast
      then show False using handles_table.keyed_eq[OF assms(2), of x r] r(1) key by simp
    qed
    then have fresh: "(rm_org q, rm_handle q, ?g) \<notin> set (consumed_proofs hist)" by (simp add: consumed_proofs_mem)
    have origin: "ProofIssued (rm_org q) (rm_handle q) ?g \<in> set hist \<or> ProofConsumed (rm_org q) (rm_handle q) (?g - 1) \<in> set hist"
      using assms(1) r(1) key by (auto simp: proofs_hist_def proof_origin_def handle_key_def)
    have moved: "redeem_handle q now r \<in> set (rd_handles db')" using r unfolding hs by (auto simp: sql_update_set)
    have now_at: "\<exists>x\<in>set (rd_handles db'). handle_key x = ?k \<and> ?g < hn_recovery_generation x"
      using moved key(1) by (intro bexI[OF _ moved]) (simp add: redeem_handle_def handle_key_def)
    have orig: "proof_origin (hist @ consumed_facts q n1) x" if "x \<in> set (rd_handles db')" for x
    proof -
      have "x \<in> redeem_handle q now ` {r \<in> set (rd_handles db). ?P r} \<or> x \<in> set (rd_handles db)"
        using that unfolding hs by (auto simp: sql_update_set)
      then show ?thesis using assms(1) one proof_origin_more
        by (auto simp: proofs_hist_def proof_origin_def redeem_handle_def consumed_facts_def consumable_def)
    qed
    have "consumed_proofs (consumed_facts q n1) = [(rm_org q, rm_handle q, ?g)]"
      using one by (simp add: consumed_facts_def consumed_proofs_def)
    then show ?thesis
      using assms(1) fresh origin now_at orig one generation_stays[OF grow]
      unfolding proofs_hist_def by (auto simp: consumed_facts_def; blast)
  qed
qed

subsection \<open>The history of a run\<close>

definition hist_ok :: "key_platform \<Rightarrow> relay_db \<times> fact list \<Rightarrow> bool" where
  "hist_ok kl s = (run_ok kl s \<and> invites_hist (fst s) (snd s) \<and> proofs_hist (fst s) (snd s))"

lemma hist_keyed:
  assumes "hist_ok kl (db, hist)"
  shows "handles_table.keyed (rd_handles db) \<and> invites_table.keyed (rd_invites db) \<and> invites_hist db hist \<and> proofs_hist db hist"
  using assms by (simp add: hist_ok_def run_ok_def db_ok_def registry_ok_def)

text \<open>A step that leaves handles and invites alone and adds no fact.\<close>

lemma hist_same:
  assumes "invites_hist db hist \<and> proofs_hist db hist" "rd_handles db' = rd_handles db" "invites_from db db'"
  shows "invites_hist db' hist \<and> proofs_hist db' hist"
  using invites_hist_quiet[OF conjunct1[OF assms(1)] assms(3), of "[]"] assms(1,2) handles_more
  by (simp add: enrolled_hashes_def proofs_hist_def)

lemma hist_quiet:
  assumes "hist_ok kl (db, hist)" "rd_handles db' = rd_handles db" "rd_invites db' = rd_invites db"
  shows "invites_hist db' hist \<and> proofs_hist db' hist"
  using hist_same[OF _ assms(2) invites_from_same[OF assms(3)]] hist_keyed[OF assms(1)] by simp

lemma audit_invites: "org_audit_statement a p n db = Some d \<Longrightarrow> rd_invites d = rd_invites db"
  using org_audit_tables by blast

lemma core_rd_handles: "core db' = core db \<Longrightarrow> rd_handles db' = rd_handles db"
  by (simp add: core_def)

lemma trim_invites [simp]: "rd_invites (org_audit_trim_statement org db) = rd_invites db"
  by (simp add: org_audit_trim_statement_def)

lemma ledger_invites: "ledger_insert a db = Some d \<Longrightarrow> rd_invites d = rd_invites db"
  by (auto dest!: ledger_insert_Some(1))

lemma policy_invites: "policy_batch org u actor audit now db = Some (db', x) \<Longrightarrow> rd_invites db' = rd_invites db"
proof -
  assume p: "policy_batch org u actor audit now db = Some (db', x)"
  obtain ps qs where f: "insert_policy_request org u actor now (upsert_policy org u actor now db) =
     db\<lparr>rd_policies := ps, rd_policy_requests := qs\<rparr>" using policy_frame by blast
  show ?thesis using p unfolding policy_batch_def f by (auto simp: Let_def dest!: ledger_invites split: if_splits)
qed

lemma redeem_invites: "redeem_batch q h audit now e db = Some (db', n0, n1) \<Longrightarrow> rd_invites db' = rd_invites db"
  by (auto simp: redeem_batch_def insert_receipt_def Let_def enqueue_eviction_def dest!: audit_invites
      split: option.splits if_splits)

lemma register_origin:
  assumes "proofs_hist db hist" "register_batch hash handle tok kind agent org audit now db = Some (db', n0, n1)"
  shows "proofs_hist db' (hist @ enrolled_facts hash handle now db n0)"
proof (rule proofs_hist_quiet[OF assms(1)])
  obtain hs where i: "insert_handle (map_option (\<lambda>iv. new_handle iv handle tok kind now agent)
      (find (redeemable hash now) (rd_invites db))) db = Some (db\<lparr>rd_handles := hs\<rparr>, n0)" and hs: "rd_handles db' = hs"
    by (rule register_invites[OF assms(2)])
  show "followed handle_after (rd_handles db) (rd_handles db')" using insert_handle_more[OF i] hs by simp
  have old: "h \<in> set (rd_handles db) \<or> hn_recovery_hash h = None" if "h \<in> set hs" for h
  proof (cases "n0 = 0")
    case True
    have "rd_handles d = rd_handles db" if "insert_handle r db = Some (d, 0)" for r d
      using that by (cases r) (auto simp: insert_handle_def sql_insert_or_ignore_def split: prod.splits if_splits option.splits)
    from this[of _ "db\<lparr>rd_handles := hs\<rparr>"] show ?thesis using i that True by simp
  next
    case False
    then show ?thesis using insert_handle_one[OF i] that by (auto simp: new_handle_def)
  qed
  show "proof_origin (hist @ enrolled_facts hash handle now db n0) h" if "h \<in> set (rd_handles db')" for h
  proof (cases "hn_recovery_hash h = None")
    case True
    then show ?thesis by (simp add: proof_origin_def)
  next
    case False
    then have "h \<in> set (rd_handles db)" using old[of h] that hs by auto
    then show ?thesis using assms(1) proof_origin_more by (simp add: proofs_hist_def)
  qed
qed (auto simp: enrolled_facts_def split: option.splits)

lemma issued_facts_proofs: "proofs_hist db hist \<Longrightarrow> rd_handles db' = rd_handles db \<Longrightarrow> proofs_hist db' (hist @ issued_facts row n)"
  by (rule proofs_hist_quiet) (auto simp: issued_facts_def handles_more proofs_hist_def intro: proof_origin_more)

lemma relay_step_hist: "relay_step kl s t \<Longrightarrow> hist_ok kl s \<Longrightarrow> hist_ok kl t"
proof -
  assume st: "relay_step kl s t" and ok: "hist_ok kl s"
  have "invites_hist (fst t) (snd t) \<and> proofs_hist (fst t) (snd t)"
    using st ok
  proof (induction rule: relay_step.induct)
    case (step_create_invite row audit now db db' n hist)
    show ?case
      using hist_keyed[OF step_create_invite(4)] create_invite_hist[OF _ step_create_invite(1-3)]
        issued_facts_proofs[OF _ core_rd_handles[OF core_create_invite[OF step_create_invite(1)]]] by simp
  next
    case (step_revoke_invite i org audit now db db' n hist)
    have "invites_from db db'"
      by (rule invites_updated[where P = "revocable i org" and f = "\<lambda>r. r\<lparr>iv_revoked_at := Some now\<rparr>"])
         (use step_revoke_invite(1) in \<open>auto simp: revoke_invite_batch_def Let_def invite_before_row_def
            expired_invite_cleanup_statement_def sql_delete_def dest!: audit_and_trim_tables\<close>)
    then show ?case using hist_same[OF _ core_rd_handles[OF core_revoke_invite[OF step_revoke_invite(1)]]]
      hist_keyed[OF step_revoke_invite(2)] by simp
  next
    case (step_register hash handle tok kind agent org audit now db db' n0 n1 hist)
    then show ?case using hist_keyed register_hist register_origin by (metis fst_conv snd_conv)
  next
    case (step_rotate org handle old new db db' n hist)
    have d: "db' = db\<lparr>rd_handles := sql_update (holds_token org handle old) (\<lambda>r. r\<lparr>hn_token_hash := new\<rparr>) (rd_handles db)\<rparr>"
      using step_rotate(1) by (simp add: rotate_batch_def)
    have g: "followed handle_after (rd_handles db) (rd_handles db')" unfolding d by (simp add: handles_updated[OF rotate_update])
    have "proofs_hist db' (hist @ [])"
      by (rule proofs_hist_quiet[OF _ g])
         (use hist_keyed[OF step_rotate(2)] in \<open>auto simp: d sql_update_set proofs_hist_def proof_origin_def\<close>)
    moreover have "invites_hist db' (hist @ [])"
      by (rule invites_hist_quiet[OF _ invites_from_same g])
         (use hist_keyed[OF step_rotate(2)] in \<open>simp_all add: d enrolled_hashes_def\<close>)
    ultimately show ?case by simp
  next
    case (step_issue org handle tok g digest audit db db' n hist)
    have iv: "rd_invites db' = rd_invites db"
      using step_issue(1) by (auto simp: issue_batch_def Let_def dest!: audit_and_trim_tables)
    have grow: "followed handle_after (rd_handles db) (rd_handles db')"
      using core_issue[OF step_issue(1)] handles_updated[OF issue_update] by (simp add: core_def)
    have "invites_hist db' (hist @ proof_facts org handle g n)"
      by (rule invites_hist_quiet[OF _ invites_from_same[OF iv] grow])
         (use hist_keyed[OF step_issue(2)] in \<open>simp_all add: proof_facts_def enrolled_hashes_def\<close>)
    then show ?case using issue_hist[OF _ _ step_issue(1)] hist_keyed[OF step_issue(2)] by simp
  next
    case (step_redeem q h audit now e db db' n0 n1 hist)
    have grow: "followed handle_after (rd_handles db) (rd_handles db')"
      using relay_step_db_after[OF relay_step.step_redeem[OF step_redeem(1)]] by (simp add: db_after_def)
    have "invites_hist db' (hist @ consumed_facts q n1)"
      by (rule invites_hist_quiet[OF _ invites_from_same[OF redeem_invites[OF step_redeem(1)]] grow])
         (use hist_keyed[OF step_redeem(2)] in \<open>simp_all add: consumed_facts_def enrolled_hashes_def\<close>)
    then show ?case using redeem_hist[OF _ _ step_redeem(1)] hist_keyed[OF step_redeem(2)] by simp
  next
    case (step_evict db hist accepts fate org handle g now)
    obtain es where "fst (evict accepts fate org handle g now db) = db\<lparr>rd_evictions := es\<rparr>" using evict_frame by blast
    then show ?case using hist_quiet[OF step_evict, of "db\<lparr>rd_evictions := es\<rparr>"] by simp
  next
    case (step_identity row db db' n hist)
    then show ?case using hist_quiet[OF step_identity(2), of db'] by (auto simp: insert_identity_def split: prod.splits)
  next
    case (step_key row db db' n hist)
    then show ?case using hist_quiet[OF step_key(3), of db'] insert_key_cases[OF step_key(1)] by auto
  next
    case (step_policy org u actor audit now db db' x hist)
    show ?case using hist_quiet[OF step_policy(5) core_rd_handles[OF core_policy] policy_invites] step_policy(1) by simp
  next
    case (step_hold hold audit db db' x hist)
    have "rd_invites db' = rd_invites db" using step_hold(1)
      by (auto simp: hold_create_batch_def insert_hold_def dest!: ledger_invites split: if_splits option.splits)
    then show ?case using hist_quiet[OF step_hold(3) core_rd_handles[OF core_hold[OF step_hold(1)]]] by simp
  next
    case (step_release org i request actor audit now db db' x hist)
    have "rd_invites db' = rd_invites db" using step_release(1)
      by (auto simp: hold_release_batch_def Let_def dest!: audit_invites split: if_splits)
    then show ?case using hist_quiet[OF step_release(4) core_rd_handles[OF core_release[OF step_release(1)]]] by simp
  next
    case (step_acknowledge org cp actor now db db' x hist)
    then show ?case using hist_quiet[OF step_acknowledge(2), of db'] by (auto simp: acknowledge_batch_def Let_def)
  next
    case (step_call_event a db db' hist)
    have "core (org_audit_trim_statement (oa_org a) db') = core db" using core_ledger[OF step_call_event(1)] by simp
    then show ?case using hist_quiet[OF step_call_event(2) core_rd_handles] ledger_invites[OF step_call_event(1)] by simp
  qed
  then show ?thesis using relay_step_ok[OF st] ok by (simp add: hist_ok_def)
qed

interpretation history_run: inductive_invariant relay_init "relay_step kl" "hist_ok kl" for kl
proof unfold_locales
  show "relay_init s \<Longrightarrow> hist_ok kl s" for s
    using db_ok_empty
    by (auto simp: relay_init_def hist_ok_def run_ok_def invites_hist_def proofs_hist_def enrolled_hashes_def
        consumed_proofs_def) (auto simp: empty_db_def)
qed (rule relay_step_hist)

end
