(* ===== verification/RelayResults.thy ===== *)
theory RelayResults
  imports RelayRuns
begin

text \<open>
  The properties of the relay's credentials, keys and audit controls over whole runs of the
  service, from the invariants of \<open>RelayInvariant\<close> and the histories of \<open>RelayRuns\<close>.
\<close>

subsection \<open>Invites and recovery proofs\<close>

lemma reach_hist: "reach relay_init (relay_step kl) (db, hist) \<Longrightarrow> hist_ok kl (db, hist)"
  by (rule history_run.reach_inv)

text \<open>
  C6: An invite enrolls at most one handle. However requests interleave, no invite is
  redeemed twice; the handle it enrolled is in the organization and has the role the invite
  was issued for, and is still registered; and a registration that presents a redeemed
  invite again inserts nothing.
\<close>
theorem invite_enrolls_once:
  assumes "reach relay_init (relay_step kl) (db, hist)"
  shows "distinct (enrolled_hashes hist) \<and>
    (\<forall>hash org handle role. InviteEnrolled hash org handle role \<in> set hist \<longrightarrow>
       InviteIssued hash org role \<in> set hist \<and>
       (\<exists>h\<in>set (rd_handles db). handle_key h = (org, handle) \<and> hn_role h = role)) \<and>
    (\<forall>hash handle tok kind agent org audit now db' n0 n1.
       hash \<in> set (enrolled_hashes hist) \<longrightarrow>
       register_batch hash handle tok kind agent org audit now db = Some (db', n0, n1) \<longrightarrow>
       n0 = 0 \<and> rd_handles db' = rd_handles db)"
proof -
  have h: "invites_hist db hist" and k: "invites_table.keyed (rd_invites db)"
    using hist_keyed[OF reach_hist[OF assms]] by auto
  have spent: "n0 = 0 \<and> rd_handles db' = rd_handles db"
    if "hash \<in> set (enrolled_hashes hist)" and r: "register_batch hash handle tok kind agent org audit now db = Some (db', n0, n1)"
    for hash handle tok kind agent org audit now db' n0 n1
  proof -
    have none: "find (redeemable hash now) (rd_invites db) = None"
      using h that(1) unfolding invites_hist_def find_None_iff redeemable_def invite_live_def by fastforce
    obtain hs where "insert_handle None db = Some (db\<lparr>rd_handles := hs\<rparr>, n0)" "rd_handles db' = hs"
      using register_invites[OF r] none by (metis option.map(1))
    then show ?thesis by (auto simp: insert_handle_def) (metis relay_db.select_convs(1) relay_db.surjective relay_db.update_convs(1))
  qed
  show ?thesis using h spent unfolding invites_hist_def by blast
qed

text \<open>
  C20: A recovery proof is consumed at most once. Over a whole run no generation of a handle's
  proof is redeemed twice; a redeemed proof was issued to the handle, by the handle itself or
  as the successor named by the redemption before it, and the handle has moved past it.
\<close>
theorem recovery_proof_once:
  assumes "reach relay_init (relay_step kl) (db, hist)"
  shows "distinct (consumed_proofs hist) \<and>
    (\<forall>org handle g. ProofConsumed org handle g \<in> set hist \<longrightarrow>
       (ProofIssued org handle g \<in> set hist \<or> ProofConsumed org handle (g - 1) \<in> set hist) \<and>
       (\<exists>h\<in>set (rd_handles db). handle_key h = (org, handle) \<and> g < hn_recovery_generation h))"
  using hist_keyed[OF reach_hist[OF assms]] by (simp add: proofs_hist_def)

subsection \<open>The key directory\<close>

lemma stored_identity_iff:
  assumes "identity_table.keyed (rd_identity_keys db)"
  shows "stored_identity_row db org handle = Some p \<longleftrightarrow> p \<in> set (rd_identity_keys db) \<and> identity_key_of p = (org, handle)"
proof -
  have s: "stored_identity_row db org handle = find (\<lambda>q. identity_key_of q = (org, handle)) (rd_identity_keys db)"
    by (simp add: stored_identity_row_def identity_key_of_def)
  show ?thesis unfolding s
    using find_Some_iff_mem[of "\<lambda>q. identity_key_of q = (org, handle)" "rd_identity_keys db" p]
      identity_table.find_key[OF assms, of p] by auto
qed

lemma newest_key_greatest:
  assumes "newest_key db org handle = Some x"
  shows "x \<in> set (rd_encryption_keys db) \<and> key_owned org handle x \<and>
    (\<forall>y\<in>set (rd_encryption_keys db). key_owned org handle y \<longrightarrow> xk_epoch y \<le> xk_epoch x)"
proof -
  let ?le = "\<lambda>a b :: encryption_key_row. xk_epoch b \<le> xk_epoch a"
  let ?own = "filter (key_owned org handle) (rd_encryption_keys db)"
  obtain rs where s: "stable_sort ?le ?own = x # rs" using assms by (auto simp: newest_key_def split: list.splits)
  have "x \<in> set ?own" by (metis list.set_intros(1) s set_stable_sort)
  moreover have "xk_epoch y \<le> xk_epoch x" if "y \<in> set ?own" for y
    by (rule stable_sort_head[OF _ _ s that]) auto
  ultimately show ?thesis by simp
qed

lemma newest_key_exists: "x \<in> set (rd_encryption_keys db) \<Longrightarrow> key_owned org handle x \<Longrightarrow> newest_key db org handle \<noteq> None"
  unfolding newest_key_def by (auto split: list.splits dest!: arg_cong[where f = set])

lemma get_keys_ok:
  assumes "get_keys admit i req target db = (db', Ok b)"
  obtains p x where "stored_identity_row db (id_org i) target = Some p" "newest_key db (id_org i) target = Some x"
    "b = served_bundle p x" "db' = db"
  using assms by (auto simp: get_keys_def rate_limit_def split: if_splits option.splits)

text \<open>
  C21: The relay is a distributor, not an authority: every key bundle it serves, in every
  reachable state, carries a signature that verifies under the served identity key over the
  served record's own transcript, names the one supported suite, is published by the handle
  that was asked for, and is of the newest epoch. Reading it changes nothing.
\<close>
theorem served_keys_verify:
  assumes "reach relay_init (relay_step kl) (db, hist)"
    and "get_keys admit i req target db = (db', Ok b)"
  shows "db' = db \<and> sk_suite b = HPKE_SUITE \<and>
    (\<exists>t. encryption_key_transcript (sk_record b) = Inr t \<and>
       kl_verify kl (ir_identity_pub (sk_identity b)) t (sk_signature b)) \<and>
    (\<forall>y\<in>set (rd_encryption_keys db). key_owned (id_org i) target y \<longrightarrow> xk_epoch y \<le> ek_epoch (sk_record b))"
proof -
  obtain p x where b: "stored_identity_row db (id_org i) target = Some p" "newest_key db (id_org i) target = Some x"
    "b = served_bundle p x" "db' = db" by (rule get_keys_ok[OF assms(2)])
  have ok: "directory_ok kl (rd_identity_keys db) (rd_encryption_keys db)"
    using reach_db_ok[OF assms(1)] by (simp add: db_ok_def)
  have x: "x \<in> set (rd_encryption_keys db)" "key_owned (id_org i) target x"
    "\<forall>y\<in>set (rd_encryption_keys db). key_owned (id_org i) target y \<longrightarrow> xk_epoch y \<le> xk_epoch x"
    using newest_key_greatest[OF b(2)] by auto
  obtain p' where p': "p' \<in> set (rd_identity_keys db)" "identity_key_of p' = (xk_org x, xk_handle x)"
    "key_verified kl p' x" "xk_suite x = HPKE_SUITE" using ok x(1) by (auto simp: directory_ok_def)
  have "p' = p"
    using p'(1,2) x(2) b(1) stored_identity_iff[of db "id_org i" target p'] ok by (simp add: directory_ok_def key_owned_def)
  then show ?thesis using p' x(3) b(3,4)
    by (auto simp: key_verified_def served_bundle_def split: sum.splits)
qed

text \<open>
  A published identity is permanent. Once a bundle has been served for a handle, every
  later state of the service, whatever requests ran in between, serves the same identity
  record for it, with an epoch at least as new.
\<close>
theorem published_identity_permanent:
  assumes "reach relay_init (relay_step kl) (db, hist)" "(relay_step kl)\<^sup>*\<^sup>* (db, hist) (db', hist')"
    and "get_keys admit i req target db = (d, Ok b)" "admit NATIVE_READ (rate_limit_key ByIp req i)"
  shows "\<exists>b'. get_keys admit i req target db' = (db', Ok b') \<and> sk_identity b' = sk_identity b \<and>
    ek_epoch (sk_record b) \<le> ek_epoch (sk_record b')"
proof -
  obtain p x where b: "stored_identity_row db (id_org i) target = Some p" "newest_key db (id_org i) target = Some x"
    "b = served_bundle p x" by (rule get_keys_ok[OF assms(3)])
  have k: "identity_table.keyed (rd_identity_keys db)" "identity_table.keyed (rd_identity_keys db')"
    using reach_db_ok[OF assms(1)] reach_db_ok[OF reach_steps[OF assms(1,2)]] by (auto simp: db_ok_def directory_ok_def)
  have after: "db_after db db'" using relay_steps_db_after[OF assms(2)] by simp
  have p': "stored_identity_row db' (id_org i) target = Some p"
    using b(1) after unfolding stored_identity_iff[OF k(1)] stored_identity_iff[OF k(2)] db_after_def by blast
  have x: "x \<in> set (rd_encryption_keys db)" "key_owned (id_org i) target x" using newest_key_greatest[OF b(2)] by auto
  then have xin: "x \<in> set (rd_encryption_keys db')" using after by (auto simp: db_after_def)
  then obtain y where y: "newest_key db' (id_org i) target = Some y" using newest_key_exists x(2) by blast
  have "xk_epoch x \<le> xk_epoch y" using newest_key_greatest[OF y] xin x(2) by blast
  then show ?thesis using p' y b(3) assms(4) by (simp add: get_keys_def rate_limit_def served_bundle_def)
qed

subsection \<open>Audit controls\<close>

lemma reach_controls_ok: "reach relay_init (relay_step kl) (db, hist) \<Longrightarrow> controls_ok db"
  using reach_db_ok[of kl db hist] by (auto simp: db_ok_def controls_ok_def policies_ok_def holds_ok_def)

lemmas gates = rate_limit_def require_admin_def require_org_admin_def

lemma sorted_wrt_pair: "sorted_wrt R xs \<Longrightarrow> a \<in> set xs \<Longrightarrow> b \<in> set xs \<Longrightarrow> a \<noteq> b \<Longrightarrow> R a b \<or> R b a"
  by (induction xs) auto

text \<open>
  C23: The readiness report is always well-typed. In every reachable state an admitted
  administrator's request for it is answered, never refused for a report that fails its own
  schema: the report satisfies \<open>AuditRetentionReadiness\<close>, its state is \<open>held\<close> exactly under an
  active hold, and then no row of either ledger is reported as deletable; without a hold
  the rows past the cutoff are split into deletable and not yet exported.
\<close>
theorem readiness_always_valid:
  assumes "reach relay_init (relay_step kl) (db, hist)" "id_role i = Admin"
    and "admit (DurableLimit AUDIT_READ) (rate_limit_key (ByIdentity ''audit-retention-read:'') req i)"
    and "parse_evaluation_time (map snd (filter (\<lambda>p. fst p = ''evaluated_at'') params)) now = Some t" "0 \<le> t"
  shows "\<exists>r. get_retention_readiness admit i req params now db = (db, Ok r) \<and> readiness_ok r \<and>
    (rn_state r = Held) = (read_active_hold db (id_org i) \<noteq> None) \<and>
    (rn_state r = Held \<longrightarrow> lg_eligible_event_count (rn_org r) = 0 \<and> lg_eligible_event_count (rn_roster r) = 0) \<and>
    (rn_state r \<noteq> Held \<longrightarrow>
       lg_eligible_event_count (rn_org r) + lg_unacknowledged_event_count (rn_org r) =
         sql_count (retention_cutoff_predicate db (id_org i) t) (ledger_entries OrgLedger db))"
proof -
  let ?r = "build_readiness db (id_org i) t"
  have ok: "readiness_ok ?r" by (rule build_readiness_ok[OF reach_controls_ok[OF assms(1)] assms(5)])
  have "get_retention_readiness admit i req params now db = (db, Ok ?r)"
    using evaluate_readiness_Some[OF reach_controls_ok[OF assms(1)] assms(5)]
    by (simp add: get_retention_readiness_def gates assms(2-4))
  then show ?thesis
  proof (intro exI[of _ ?r] conjI impI)
    show held: "(rn_state ?r = Held) = (read_active_hold db (id_org i) \<noteq> None)"
      by (auto simp: build_readiness_def Let_def public_audit_hold_def)
    show "lg_eligible_event_count (rn_org ?r) = 0" "lg_eligible_event_count (rn_roster ?r) = 0" if "rn_state ?r = Held"
      using held that held_none_eligible
      by (simp_all add: build_readiness_def Let_def report_ledger_def ledger_readiness_def)
    show "lg_eligible_event_count (rn_org ?r) + lg_unacknowledged_event_count (rn_org ?r) =
        sql_count (retention_cutoff_predicate db (id_org i) t) (ledger_entries OrgLedger db)" if "rn_state ?r \<noteq> Held"
      using held that eligible_partition[of db "id_org i" OrgLedger t "ledger_entries OrgLedger db"]
      by (simp add: build_readiness_def Let_def report_ledger_def ledger_readiness_def)
  qed (simp_all add: ok)
qed

text \<open>
  C22: An organization has at most one legal hold at a time. In every reachable state two
  unreleased holds of an organization are the same, and while there is one, creating
  another, under any request id that was not used before, is refused and changes nothing.
\<close>
theorem one_active_hold:
  assumes "reach relay_init (relay_step kl) (db, hist)"
    and "h \<in> set (rd_holds db)" "active_hold_of (id_org i) h"
    and "id_role i = Admin" "admit (DurableLimit AUDIT_WRITE) (rate_limit_key (ByIdentity ''audit-hold-write:'') req i)"
    and "json_body parse_hold_create body None = Some c"
    and "read_hold_by_create_request db (id_org i) (hc_request_id c) = None"
  shows "(\<forall>h'\<in>set (rd_holds db). active_hold_of (id_org i) h' \<longrightarrow> h' = h) \<and>
    create_hold fate admit i req body uuid now db db later =
        (db, Refuse 409 ''an audit legal hold is already active'') \<and>
    (\<forall>hold audit. hd_org hold = id_org i \<longrightarrow> hd_released_at hold = None \<longrightarrow> hold_create_batch hold audit db = None)"
proof -
  have ok: "sorted_wrt (\<lambda>a b. \<not> hold_conflict a b) (rd_holds db)"
    using reach_db_ok[OF assms(1)] by (simp add: db_ok_def holds_ok_def)
  have one: "h' = h" if h': "h' \<in> set (rd_holds db)" "active_hold_of (id_org i) h'" for h'
  proof (rule ccontr)
    assume "h' \<noteq> h"
    then have "\<not> hold_conflict h h' \<or> \<not> hold_conflict h' h" using sorted_wrt_pair[OF ok] assms(2) h'(1) by blast
    then show False using assms(3) h'(2) by (auto simp: hold_conflict_def active_hold_of_def)
  qed
  have active: "read_active_hold db (id_org i) \<noteq> None"
    using assms(2,3) by (auto simp: read_active_hold_def find_None_iff)
  have "create_hold fate admit i req body uuid now db db later = (db, Refuse 409 ''an audit legal hold is already active'')"
    using active by (simp add: create_hold_def gates assms(4-7))
  moreover have "hold_create_batch hold audit db = None" if "hd_org hold = id_org i" "hd_released_at hold = None" for hold audit
  proof -
    have "hold_conflict hold h" using that assms(3) by (simp add: hold_conflict_def active_hold_of_def)
    then have "insert_hold hold db = None" using assms(2) by (auto simp: insert_hold_def)
    then show ?thesis by (simp add: hold_create_batch_def)
  qed
  ultimately show ?thesis using one by blast
qed

lemma policies_version_pos:
  assumes "reach relay_init (relay_step kl) (db, hist)" "p \<in> set (rd_policies db)"
  shows "0 < pl_version p"
proof -
  have "policy_json_ok (retention_policy_from_row (Some p))"
    using reach_controls_ok[OF assms(1)] assms(2) by (simp add: controls_ok_def)
  then show ?thesis by (auto simp: policy_json_ok_def retention_policy_from_row_def)
qed

lemma upsert_policy_frozen:
  assumes "p \<in> set (rd_policies db)" "0 < pl_version p"
  shows "p \<in> set (rd_policies (upsert_policy org u actor now db))"
proof (cases "pu_expected_version u = 0")
  case True
  then have "pl_version p \<noteq> pu_expected_version u" using assms(2) by simp
  then show ?thesis using True assms(1) by (auto simp: upsert_policy_def sql_upsert_def image_iff intro!: bexI[OF _ assms(1)])
qed (use assms in \<open>simp add: upsert_policy_def\<close>)

lemma trim_policies [simp]: "rd_policies (org_audit_trim_statement org db) = rd_policies db"
  by (simp add: org_audit_trim_statement_def)

lemma ledger_policies: "ledger_insert a db = Some d \<Longrightarrow> rd_policies d = rd_policies db"
  by (auto dest!: ledger_insert_Some(1))

lemma statement_policies: "org_audit_statement a p n db = Some d \<Longrightarrow> rd_policies d = rd_policies db"
  by (auto simp: org_audit_statement_def ledger_policies split: if_splits)

lemma policy_batch_frozen:
  assumes "policy_batch org u actor audit now db = Some (db', x)" "p \<in> set (rd_policies db)" "0 < pl_version p"
  shows "p \<in> set (rd_policies db')"
proof -
  have same: "rd_policies (insert_policy_request org u actor now d) = rd_policies d" for d
    by (simp add: insert_policy_request_def)
  show ?thesis using assms(1) upsert_policy_frozen[OF assms(2,3), of org u actor now]
    by (auto simp: policy_batch_def Let_def same dest!: ledger_policies split: if_splits)
qed

lemma create_invite_policies: "create_invite_batch row audit now db = Some (db', n) \<Longrightarrow> rd_policies db' = rd_policies db"
  by (auto simp: create_invite_batch_def Let_def expired_invite_cleanup_statement_def dest!: audit_and_trim_tables
      split: if_splits option.splits)

lemma revoke_invite_policies: "revoke_invite_batch i org audit now db = Some (db', n) \<Longrightarrow> rd_policies db' = rd_policies db"
  by (auto simp: revoke_invite_batch_def Let_def expired_invite_cleanup_statement_def dest!: audit_and_trim_tables)

lemma register_policies:
  assumes "register_batch hash handle tok kind agent org audit now db = Some (db', n0, n1)"
  shows "rd_policies db' = rd_policies db"
proof -
  obtain hs m0 where i: "insert_handle (map_option (\<lambda>iv. new_handle iv handle tok kind now agent)
      (find (redeemable hash now) (rd_invites db))) db = Some (db\<lparr>rd_handles := hs\<rparr>, m0)"
    by (rule core_register[OF assms])
  show ?thesis using assms unfolding register_batch_def i
    by (auto simp: Let_def expired_invite_cleanup_statement_def dest!: audit_and_trim_tables)
qed

lemma issue_policies: "issue_batch org handle tok g digest audit db = Some (db', n) \<Longrightarrow> rd_policies db' = rd_policies db"
  by (auto simp: issue_batch_def Let_def dest!: audit_and_trim_tables)

lemma enqueue_policies [simp]: "rd_policies (enqueue_eviction q now db) = rd_policies db"
  by (simp add: enqueue_eviction_def)

lemma insert_receipt_policies: "insert_receipt q h now e db = Some (d, n) \<Longrightarrow> rd_policies d = rd_policies db"
  by (auto simp: insert_receipt_def split: if_splits)

lemma redeem_policies: "redeem_batch q h audit now e db = Some (db', n0, n1) \<Longrightarrow> rd_policies db' = rd_policies db"
  by (auto simp: redeem_batch_def Let_def dest!: statement_policies insert_receipt_policies split: option.splits)

lemma hold_create_policies: "hold_create_batch hold audit db = Some (db', x) \<Longrightarrow> rd_policies db' = rd_policies db"
  by (auto simp: hold_create_batch_def insert_hold_def dest!: ledger_policies split: if_splits option.splits)

lemma hold_release_policies:
  "hold_release_batch org i request actor audit now db = Some (db', x) \<Longrightarrow> rd_policies db' = rd_policies db"
  by (auto simp: hold_release_batch_def Let_def dest!: statement_policies split: if_splits)

lemmas batch_policies = create_invite_policies revoke_invite_policies register_policies issue_policies redeem_policies
  hold_create_policies hold_release_policies ledger_policies

lemma relay_step_policies:
  assumes "relay_step kl s t" "p \<in> set (rd_policies (fst s))" "0 < pl_version p"
  shows "p \<in> set (rd_policies (fst t))"
  using assms
proof (induction rule: relay_step.induct)
  case (step_evict db hist accepts fate org handle g now)
  then show ?case using evict_frame[of accepts fate org handle g now db] by auto
next
  case (step_identity row db db' n hist)
  then show ?case by (auto simp: insert_identity_def split: prod.splits)
next
  case (step_key row db db' n hist)
  then show ?case using insert_key_cases[OF step_key(1)] by auto
next
  case (step_policy org u actor audit now db db' x hist)
  then show ?case using policy_batch_frozen[OF step_policy(1)] by simp
next
  case (step_rotate org handle old new db db' n hist)
  then show ?case by (auto simp: rotate_batch_def)
next
  case (step_acknowledge org cp actor now db db' x hist)
  then show ?case by (auto simp: acknowledge_batch_def Let_def)
qed (simp_all add: batch_policies)

lemma relay_steps_policies:
  assumes "(relay_step kl)\<^sup>*\<^sup>* s t" "p \<in> set (rd_policies (fst s))" "0 < pl_version p"
  shows "p \<in> set (rd_policies (fst t))"
  using assms by (induction rule: rtranclp_induct) (auto dest: relay_step_policies)

text \<open>
  C24: A retention policy can be set once and never changed. A stored policy row stays, as it
  is, in every later state of the service; and an administrator who asks to replace it,
  naming its current version and a fresh request id, is answered that the version changed,
  although the version he is shown is the one he named.
\<close>

theorem retention_policy_frozen:
  assumes "reach relay_init (relay_step kl) (db, hist)" "select_policy db (id_org i) = Some p"
  shows "(\<forall>db' hist'. (relay_step kl)\<^sup>*\<^sup>* (db, hist) (db', hist') \<longrightarrow> select_policy db' (id_org i) = Some p) \<and>
    (\<forall>admit req body u now.
       admit (DurableLimit AUDIT_WRITE) (rate_limit_key (ByIdentity ''audit-retention-write:'') req i) \<longrightarrow>
       id_role i = Admin \<longrightarrow> json_body parse_policy_update body None = Some u \<longrightarrow>
       pu_expected_version u = pl_version p \<longrightarrow> read_policy_request db (id_org i) (pu_request_id u) = None \<longrightarrow>
       (\<exists>db' current. put_retention_policy Commits admit i req body now db db (\<lambda>d. d) = (db', Ok (PolicyChanged current)) \<and>
          current = retention_policy_from_row (Some p) \<and> pj_version current = pu_expected_version u \<and>
          select_policy db' (id_org i) = Some p))"
proof (intro conjI allI impI)
  have p: "p \<in> set (rd_policies db)" "pl_org p = id_org i"
    using assms(2) find_Some_iff_mem by (fastforce simp: select_policy_def)+
  have pos: "0 < pl_version p" by (rule policies_version_pos[OF assms(1) p(1)])
  show "select_policy db' (id_org i) = Some p" if st: "(relay_step kl)\<^sup>*\<^sup>* (db, hist) (db', hist')" for db' hist'
  proof -
    have k: "policies_table.keyed (rd_policies db')"
      using reach_db_ok[OF reach_steps[OF assms(1) st]] by (simp add: db_ok_def policies_ok_def)
    have "p \<in> set (rd_policies db')" using relay_steps_policies[OF st] p(1) pos by simp
    from policies_table.find_key[OF k this] show ?thesis using p(2) by (simp add: select_policy_def)
  qed
  fix admit req body u now
  assume a: "admit (DurableLimit AUDIT_WRITE) (rate_limit_key (ByIdentity ''audit-retention-write:'') req i)"
    and adm: "id_role i = Admin" and u: "json_body parse_policy_update body None = Some u"
    and v: "pu_expected_version u = pl_version p" and r: "read_policy_request db (id_org i) (pu_request_id u) = None"
  have k: "policies_table.keyed (rd_policies db)" using reach_db_ok[OF assms(1)] by (simp add: db_ok_def policies_ok_def)
  have up: "upsert_policy (id_org i) u actor now db = db" for actor using v pos by (simp add: upsert_policy_def)
  have eq: "r = p" if "r \<in> set (rd_policies db)" "pl_org r = id_org i" for r
    by (rule policies_table.keyed_eq[OF k that(1) p(1)]) (simp add: that p(2))
  have no: "\<not> sql_exists (\<lambda>r. pl_org r = id_org i \<and> pl_version r = pu_expected_version u + 1 \<and>
      pl_last_request_id r = pu_request_id u) (rd_policies db)"
    using v by (auto dest: eq)
  have q: "\<not> sql_exists (\<lambda>r. policy_request_key r = (id_org i, pu_request_id u)) (rd_policy_requests db)"
    using r by (simp add: read_policy_request_def find_None_iff)
  have batch: "policy_batch (id_org i) u actor audit now db = Some (org_audit_trim_statement (id_org i) db, ())" for actor audit
    using no q by (simp add: policy_batch_def up insert_policy_request_def Let_def del: sql_exists_iff)
  have cur: "read_policy db (id_org i) = retention_policy_from_row (Some p)" using assms(2) by (simp add: read_policy_def)
  have ver: "pj_version (retention_policy_from_row (Some p)) = pl_version p" by (simp add: retention_policy_from_row_def)
  have later: "read_policy_request (org_audit_trim_statement g db) org rid = read_policy_request db org rid"
    "read_policy (org_audit_trim_statement g db) org = read_policy db org"
    "select_policy (org_audit_trim_statement g db) org = select_policy db org" for g org rid
    by (simp_all add: read_policy_request_def read_policy_def select_policy_def org_audit_trim_statement_def)
  show "\<exists>db' current. put_retention_policy Commits admit i req body now db db (\<lambda>d. d) = (db', Ok (PolicyChanged current)) \<and>
          current = retention_policy_from_row (Some p) \<and> pj_version current = pu_expected_version u \<and>
          select_policy db' (id_org i) = Some p"
    using a adm u r v by (simp add: put_retention_policy_def gates cur ver batch run_batch_def later assms(2))
qed

end
