(* ===== verification/RelayHandlers.thy ===== *)
theory RelayHandlers
  imports RelayResults
begin

text \<open>
  The HTTP handlers refine the step relation: whatever a handler does to the database, with
  the reads it made before and whatever becomes of its batch, is a run of at most two steps
  of \<open>relay_step\<close>, so the properties of runs hold of the handlers.
\<close>

definition moves :: "key_platform \<Rightarrow> relay_db \<Rightarrow> fact list \<Rightarrow> relay_db \<Rightarrow> bool" where
  "moves kl db hist db' \<longleftrightarrow> (\<exists>hist'. (relay_step kl)\<^sup>*\<^sup>* (db, hist) (db', hist'))"

lemma moves_refl: "moves kl db hist db"
  by (auto simp: moves_def)

lemma moves_step: "relay_step kl (db, hist) (db', hist') \<Longrightarrow> moves kl db hist db'"
  by (auto simp: moves_def)

lemma moves_batch:
  assumes "run_batch fate batch db = (db', r)" "\<And>x. batch db = Some (db', x) \<Longrightarrow> \<exists>hist'. relay_step kl (db, hist) (db', hist')"
  shows "moves kl db hist db'"
  using run_batch_cases[OF assms(1)] assms(2) moves_refl moves_step by blast

lemma gated_moves:
  "rate_limit admit policy by req i db route = (db', a) \<Longrightarrow> (route = (db', a) \<Longrightarrow> moves kl db hist db') \<Longrightarrow>
   moves kl db hist db'"
  "require_admin i db route = (db', a) \<Longrightarrow> (route = (db', a) \<Longrightarrow> moves kl db hist db') \<Longrightarrow> moves kl db hist db'"
  by (auto simp: gates moves_refl split: if_splits)

lemma audit_org [simp]: "oa_org (audit_of req event action org actor ty target tid role words at) = org"
  "oa_org (control_audit req key event action i target tid words at) = id_org i"
  by (simp_all add: audit_of_def control_audit_def)

subsection \<open>Enrollment\<close>

lemma create_invite_moves:
  assumes "create_invite env fate req org by actor at body role token now db = (db', a)"
    "sha256_hex env token \<notin> set (invite_hashes hist)"
  shows "moves kl db hist db'"
proof -
  let ?row = "new_invite (sha256_hex env token) org by now (now + cr_expires_in_days body * DAY_MS) (cr_description body) role"
  obtain audit r where "run_batch fate (create_invite_batch ?row audit now) db = (db', r)"
    using assms(1) by (auto simp: create_invite_def Let_def split: prod.splits)
  then show ?thesis
  proof (rule moves_batch)
    fix n assume b: "create_invite_batch ?row audit now db = Some (db', n)"
    show "\<exists>hist'. relay_step kl (db, hist) (db', hist')"
      using relay_step.step_create_invite[OF b, of hist kl] assms(2) by (auto simp: new_invite_def)
  qed
qed

lemma post_admin_invite_moves:
  assumes "post_admin_invite env fate admit boot req body token now db = (db', a)"
    "sha256_hex env token \<notin> set (invite_hashes hist)"
  shows "moves kl db hist db'"
  using assms create_invite_moves moves_refl[of kl db hist]
  by (auto simp: post_admin_invite_def Let_def split: if_splits option.splits)

lemma post_invites_moves:
  assumes "post_invites env fate admit i req body token now db = (db', a)"
    "sha256_hex env token \<notin> set (invite_hashes hist)"
  shows "moves kl db hist db'"
  using assms create_invite_moves moves_refl[of kl db hist]
  by (auto simp: post_invites_def elim!: gated_moves split: option.splits)

lemma revoke_invite_writes:
  assumes "revoke_invite fate admit i req invite_id now read_db db later = (db', a)"
  shows "db' = db \<or> (\<exists>audit r. oa_org audit = id_org i \<and> run_batch fate (revoke_invite_batch invite_id (id_org i) audit now) db = (db', r))"
  using assms by (auto simp: revoke_invite_def gates Let_def split: if_splits option.splits prod.splits)

lemma revoke_invite_moves:
  assumes "revoke_invite fate admit i req invite_id now read_db db later = (db', a)"
  shows "moves kl db hist db'"
proof -
  have "db' = db \<or> (\<exists>audit r. run_batch fate (revoke_invite_batch invite_id (id_org i) audit now) db = (db', r))"
    using revoke_invite_writes[OF assms] by blast
  then show ?thesis
    using moves_refl moves_batch relay_step.step_revoke_invite by blast
qed

lemma agent_id_nonempty: "generate_agent_id uuid \<noteq> []"
  by (simp add: generate_agent_id_def)

lemma parse_register_ok: "parse_register_request v = Some r \<Longrightarrow> rq_handle r \<noteq> []"
  by (auto simp: parse_register_request_def handle_re_def slug_def dest!: read_strD
      split: option.splits if_splits list.splits)

lemma json_body_None: "json_body schema body None = schema (or_default body JNull)"
  by (simp add: json_body_def)

lemma register_moves:
  assumes "register env fate admit req body token uuid read_now now read_db db later = (db', a)"
  shows "moves kl db hist db'"
proof -
  have "db' = db \<or> (\<exists>h q tok org audit r. json_body parse_register_request body None = Some q \<and> run_batch fate
      (register_batch h (rq_handle q) tok (rq_agent_kind q) (generate_agent_id uuid) org audit now) db = (db', r))"
    using assms by (auto simp: register_def Let_def split: if_splits option.splits prod.splits)
  then show ?thesis
  proof (elim disjE exE conjE)
    fix h q tok org audit r
    assume q: "json_body parse_register_request body None = Some q" and
      b: "run_batch fate (register_batch h (rq_handle q) tok (rq_agent_kind q) (generate_agent_id uuid) org audit now) db = (db', r)"
    have "rq_handle q \<noteq> []" using parse_register_ok q unfolding json_body_None by blast
    then show ?thesis
      using relay_step.step_register[OF _ agent_id_nonempty] by (intro moves_batch[OF b]) (metis surj_pair)
  qed (simp add: moves_refl)
qed

lemma rotate_token_writes:
  assumes "rotate_token env fate admit i req next_token db = (db', a)"
  shows "db' = db \<or> (\<exists>old new r. run_batch fate (rotate_batch (id_org i) (id_handle i) old new) db = (db', r))"
  using assms by (auto simp: rotate_token_def gates Let_def split: if_splits prod.splits)

lemma rotate_token_moves:
  assumes "rotate_token env fate admit i req next_token db = (db', a)"
  shows "moves kl db hist db'"
proof -
  have "db' = db \<or> (\<exists>old new r. run_batch fate (rotate_batch (id_org i) (id_handle i) old new) db = (db', r))"
    using rotate_token_writes[OF assms] by blast
  then show ?thesis using moves_refl moves_batch relay_step.step_rotate by blast
qed

subsection \<open>Recovery\<close>

lemma recovery_issue_writes:
  assumes "recovery_issue env fate admit i req body now db = (db', a)"
  shows "db' = db \<or> (\<exists>tok g digest audit r. oa_org audit = id_org i \<and> run_batch fate (issue_batch (id_org i) (id_handle i) tok g digest audit) db = (db', r))"
  using assms by (auto simp: recovery_issue_def gates Let_def split: if_splits option.splits prod.splits)

lemma recovery_issue_moves:
  assumes "recovery_issue env fate admit i req body now db = (db', a)"
  shows "moves kl db hist db'"
proof -
  have "db' = db \<or> (\<exists>tok g digest audit r. run_batch fate (issue_batch (id_org i) (id_handle i) tok g digest audit) db = (db', r))"
    using recovery_issue_writes[OF assms] by blast
  then show ?thesis
    by (elim disjE exE) (simp add: moves_refl, erule moves_batch, blast intro: relay_step.step_issue)
qed

lemma evict_moves: "moves kl db hist (fst (evict accepts fate org handle g now db))"
  by (rule moves_step[OF relay_step.step_evict])

lemma moves_evict:
  assumes "moves kl db hist d"
  shows "moves kl db hist (fst (evict accepts fate org handle g now d))"
proof -
  obtain h where "(relay_step kl)\<^sup>*\<^sup>* (db, hist) (d, h)" using assms by (auto simp: moves_def)
  then have "(relay_step kl)\<^sup>*\<^sup>* (db, hist) (fst (evict accepts fate org handle g now d), h)"
    by (rule rtranclp.rtrancl_into_rtrancl) (rule relay_step.step_evict)
  then show ?thesis by (auto simp: moves_def)
qed

lemma redeem_reply_db:
  "redeem_reply accepts fate q row now d = (db', a) \<Longrightarrow>
   db' = fst (evict accepts fate (rm_org q) (rm_handle q) (rm_generation q + 1) now d)"
  by (auto simp: redeem_reply_def Let_def split: prod.splits)

lemma concurrent_reply_db:
  "concurrent_reply accepts fate q h now otherwise d = (db', a) \<Longrightarrow>
   db' = d \<or> db' = fst (evict accepts fate (rm_org q) (rm_handle q) (rm_generation q + 1) now d)"
  by (auto simp: concurrent_reply_def dest: redeem_reply_db split: option.splits if_splits)

lemma recovery_redeem_moves:
  assumes "recovery_redeem env accepts evict_fate fate admit req body now read_db db (\<lambda>d. d) = (db', a)"
  shows "moves kl db hist db'"
proof -
  let ?e = "\<lambda>q d. fst (evict accepts evict_fate (rm_org q) (rm_handle q) (rm_generation q + 1) now d)"
  have "\<exists>q h audit e d r. (d = db \<or> run_batch fate (redeem_batch q h audit now e) db = (d, r)) \<and> (db' = d \<or> db' = ?e q d)"
    using assms
    by (auto simp: recovery_redeem_def Let_def dest!: redeem_reply_db concurrent_reply_db
        split: if_splits option.splits prod.splits; blast)
  then obtain q h audit e d r where d: "d = db \<or> run_batch fate (redeem_batch q h audit now e) db = (d, r)"
    and db': "db' = d \<or> db' = ?e q d" by blast
  have "moves kl db hist d"
    using d
  proof
    assume b: "run_batch fate (redeem_batch q h audit now e) db = (d, r)"
    show ?thesis by (rule moves_batch[OF b]) (metis surj_pair relay_step.step_redeem)
  qed (simp add: moves_refl)
  then show ?thesis using db' moves_evict by blast
qed

lemma drain_moves: "moves kl db hist (drain_recovery_evictions accepts fate now db)"
proof -
  have "moves kl db hist (fold (\<lambda>job d. fst (evict accepts fate (er_org job) (er_handle job)
      (er_recovery_generation job) now d)) jobs d)" if "moves kl db hist d" for jobs d
    using that by (induction jobs arbitrary: d) (simp_all add: moves_evict)
  then show ?thesis unfolding drain_recovery_evictions_def using moves_refl by blast
qed

subsection \<open>Keys\<close>

lemma put_identity_writes:
  assumes "put_identity kl fate admit i req body now db later = (db', a)"
  shows "db' = db \<or> (\<exists>q r. run_batch fate (insert_identity (new_identity_row i q now)) db = (db', r))"
  using assms by (auto simp: put_identity_def gates Let_def split: if_splits option.splits prod.splits sum.splits)

lemma put_identity_moves:
  assumes "put_identity kl fate admit i req body now db later = (db', a)"
  shows "moves kl db hist db'"
proof -
  have "db' = db \<or> (\<exists>q r. run_batch fate (insert_identity (new_identity_row i q now)) db = (db', r))"
    using put_identity_writes[OF assms] by blast
  then show ?thesis
    by (elim disjE exE) (simp add: moves_refl, erule moves_batch, blast intro: relay_step.step_identity)
qed

text \<open>The signature was checked against the identity read before, which is still there.\<close>

lemma new_key_record:
  "sk_record (served_bundle p (new_key_row i r signature now)) = r" "xk_signature (new_key_row i r signature now) = signature"
  by (cases r; simp add: served_bundle_def new_key_row_def)+

lemma put_encryption_key_writes:
  assumes "put_encryption_key kl fate admit i req body now read_db db later = (db', a)"
  shows "db' = db \<or> (\<exists>r signature p t x. run_batch fate (insert_key (new_key_row i r signature now)) db = (db', x) \<and>
      stored_identity_row read_db (id_org i) (id_handle i) = Some p \<and> encryption_key_transcript r = Inr t \<and>
      kl_verify kl (ik_identity_pub p) t signature)"
  using assms by (auto simp: put_encryption_key_def gates Let_def split: if_splits option.splits prod.splits sum.splits)

lemma put_encryption_key_moves:
  assumes "put_encryption_key kl fate admit i req body now read_db db later = (db', a)" "db_after read_db db"
  shows "moves kl db hist db'"
proof -
  have "db' = db \<or> (\<exists>r signature p t x. run_batch fate (insert_key (new_key_row i r signature now)) db = (db', x) \<and>
      stored_identity_row read_db (id_org i) (id_handle i) = Some p \<and> encryption_key_transcript r = Inr t \<and>
      kl_verify kl (ik_identity_pub p) t signature)"
    using put_encryption_key_writes[OF assms(1)] by blast
  then show ?thesis
  proof (elim disjE exE conjE)
    fix r signature p t x
    assume b: "run_batch fate (insert_key (new_key_row i r signature now)) db = (db', x)"
      and p: "stored_identity_row read_db (id_org i) (id_handle i) = Some p"
      and t: "encryption_key_transcript r = Inr t" "kl_verify kl (ik_identity_pub p) t signature"
    have "p \<in> set (rd_identity_keys db)" "identity_key_of p = (id_org i, id_handle i)"
      using p assms(2) find_Some_iff_mem unfolding stored_identity_row_def db_after_def identity_key_of_def by fastforce+
    then have "key_admissible kl db (new_key_row i r signature now)"
      using t by (auto simp: key_admissible_def key_verified_def new_key_record) (auto simp: new_key_row_def)
    then show ?thesis by (intro moves_batch[OF b]) (metis surj_pair relay_step.step_key)
  qed (simp add: moves_refl)
qed

subsection \<open>Audit controls\<close>

lemma put_retention_policy_writes:
  assumes "put_retention_policy fate admit i req body now read_db db later = (db', a)"
  shows "db' = db \<or> (\<exists>u audit r. json_body parse_policy_update body None = Some u \<and>
      oa_org audit = id_org i \<and> run_batch fate (policy_batch (id_org i) u (id_handle i) audit now) db = (db', r))"
  using assms by (auto simp: put_retention_policy_def gates Let_def split: if_splits option.splits prod.splits)

lemma put_retention_policy_moves:
  assumes "put_retention_policy fate admit i req body now read_db db later = (db', a)" "id_handle i \<noteq> []" "0 \<le> now"
  shows "moves kl db hist db'"
proof -
  have "db' = db \<or> (\<exists>u audit r. json_body parse_policy_update body None = Some u \<and>
      run_batch fate (policy_batch (id_org i) u (id_handle i) audit now) db = (db', r))"
    using put_retention_policy_writes[OF assms(1)] by blast
  then show ?thesis
  proof (elim disjE exE conjE)
    fix u audit r
    assume u: "json_body parse_policy_update body None = Some u"
      and b: "run_batch fate (policy_batch (id_org i) u (id_handle i) audit now) db = (db', r)"
    have "policy_update_ok u" using parse_policy_update_ok u unfolding json_body_None by blast
    then show ?thesis using assms(2,3) relay_step.step_policy by (intro moves_batch[OF b]) metis
  qed (simp add: moves_refl)
qed

lemma parse_hold_create_ok: "parse_hold_create v = Some h \<Longrightarrow> reason_ok (hc_reason h)"
  by (auto simp: parse_hold_create_def split: option.splits if_splits dest!: read_strD)

abbreviation requested_hold :: "identity \<Rightarrow> string \<Rightarrow> hold_create \<Rightarrow> int \<Rightarrow> hold_row" where
  "requested_hold i uuid h now \<equiv> \<lparr>hd_org = id_org i, hd_hold_id = generate_hold_id uuid, hd_reason = hc_reason h,
     hd_created_by = id_handle i, hd_created_at = now, hd_create_request_id = hc_request_id h,
     hd_released_by = None, hd_released_at = None, hd_release_request_id = None\<rparr>"

lemma create_hold_writes:
  assumes "create_hold fate admit i req body uuid now read_db db later = (db', a)"
  shows "db' = db \<or> (\<exists>h audit r. json_body parse_hold_create body None = Some h \<and>
      oa_org audit = id_org i \<and> run_batch fate (hold_create_batch (requested_hold i uuid h now) audit) db = (db', r))"
  using assms by (auto simp: create_hold_def gates Let_def split: if_splits option.splits prod.splits)

lemma create_hold_moves:
  assumes "create_hold fate admit i req body uuid now read_db db later = (db', a)" "id_handle i \<noteq> []" "0 \<le> now"
    "audit_hold_id_re (generate_hold_id uuid)"
  shows "moves kl db hist db'"
proof -
  have "db' = db \<or> (\<exists>h audit r. json_body parse_hold_create body None = Some h \<and>
      run_batch fate (hold_create_batch (requested_hold i uuid h now) audit) db = (db', r))"
    using create_hold_writes[OF assms(1)] by blast
  then show ?thesis
  proof (elim disjE exE conjE)
    fix h audit r
    assume h: "json_body parse_hold_create body None = Some h"
      and b: "run_batch fate (hold_create_batch (requested_hold i uuid h now) audit) db = (db', r)"
    have "reason_ok (hc_reason h)" using parse_hold_create_ok h unfolding json_body_None by blast
    then have "hold_new_ok (requested_hold i uuid h now)" using assms(2-4) by (simp add: hold_new_ok_def public_audit_hold_def hold_json_ok_def)
    then show ?thesis using relay_step.step_hold by (intro moves_batch[OF b]) metis
  qed (simp add: moves_refl)
qed

lemma release_hold_writes:
  assumes "release_hold fate admit i req body hold_id now read_db db later = (db', a)"
  shows "db' = db \<or> (\<exists>request audit r.
      oa_org audit = id_org i \<and> run_batch fate (hold_release_batch (id_org i) hold_id request (id_handle i) audit now) db = (db', r))"
  using assms by (auto simp: release_hold_def gates Let_def split: if_splits option.splits prod.splits)

lemma release_hold_moves:
  assumes "release_hold fate admit i req body hold_id now read_db db later = (db', a)" "id_handle i \<noteq> []" "0 \<le> now"
  shows "moves kl db hist db'"
proof -
  have "db' = db \<or> (\<exists>request audit r.
      run_batch fate (hold_release_batch (id_org i) hold_id request (id_handle i) audit now) db = (db', r))"
    using release_hold_writes[OF assms(1)] by blast
  then show ?thesis
    by (elim disjE exE) (simp add: moves_refl, erule moves_batch, metis assms(2,3) relay_step.step_release)
qed

lemma post_acknowledgement_writes:
  assumes "post_acknowledgement ap secret fate admit i req body now db later = (db', a)"
  shows "db' = db \<or> (\<exists>cp r. run_batch fate (acknowledge_batch (id_org i) cp (id_handle i) now) db = (db', r))"
  using assms by (auto simp: post_acknowledgement_def gates Let_def split: if_splits option.splits prod.splits)

lemma post_acknowledgement_moves:
  assumes "post_acknowledgement ap secret fate admit i req body now db later = (db', a)"
  shows "moves kl db hist db'"
proof -
  have "db' = db \<or> (\<exists>cp r. run_batch fate (acknowledge_batch (id_org i) cp (id_handle i) now) db = (db', r))"
    using post_acknowledgement_writes[OF assms] by blast
  then show ?thesis
    by (elim disjE exE) (simp add: moves_refl, erule moves_batch, metis surj_pair relay_step.step_acknowledge)
qed

subsection \<open>Every handler\<close>

text \<open>
  One request of the service at a database: the identity was authenticated at an earlier
  database, the reads of the handler may be older too, and random tokens are fresh.
\<close>

definition acts :: "relay_env \<Rightarrow> request_headers \<Rightarrow> identity \<Rightarrow> relay_db \<Rightarrow> bool" where
  "acts env req i db \<longleftrightarrow>
     (\<exists>before. authenticate_request env before req = Some i \<and> db_after before db \<and> registry_ok (rd_handles before))"

inductive served :: "key_platform \<Rightarrow> relay_env \<Rightarrow> fact list \<Rightarrow> relay_db \<Rightarrow> relay_db \<Rightarrow> bool"
  for kl :: key_platform and env :: relay_env and hist :: "fact list" where
  by_admin_invite: "post_admin_invite env fate admit boot req body token now db = (db', a) \<Longrightarrow>
     sha256_hex env token \<notin> set (invite_hashes hist) \<Longrightarrow> served kl env hist db db'"
| by_invite: "acts env req i db \<Longrightarrow> post_invites env fate admit i req body token now db = (db', a') \<Longrightarrow>
     sha256_hex env token \<notin> set (invite_hashes hist) \<Longrightarrow> served kl env hist db db'"
| by_revoke: "acts env req i db \<Longrightarrow> revoke_invite fate admit i req invite_id now read_db db later = (db', b) \<Longrightarrow>
     served kl env hist db db'"
| by_register: "register env fate admit req body token uuid read_now now old_db db later = (db', c) \<Longrightarrow>
     served kl env hist db db'"
| by_rotate: "acts env req i db \<Longrightarrow> rotate_token env fate admit i req next_token db = (db', d) \<Longrightarrow> served kl env hist db db'"
| by_issue: "acts env req i db \<Longrightarrow> recovery_issue env fate admit i req body now db = (db', e) \<Longrightarrow> served kl env hist db db'"
| by_redeem: "recovery_redeem env accepts evict_fate fate admit req body now read_db db (\<lambda>d. d) = (db', f) \<Longrightarrow>
     served kl env hist db db'"
| by_drain: "served kl env hist db (drain_recovery_evictions accepts fate now db)"
| by_identity: "acts env req i db \<Longrightarrow> put_identity kl fate admit i req body now db later = (db', g) \<Longrightarrow> served kl env hist db db'"
| by_key: "acts env req i db \<Longrightarrow> db_after read_db db \<Longrightarrow>
     put_encryption_key kl fate admit i req body now read_db db later = (db', g) \<Longrightarrow> served kl env hist db db'"
| by_policy: "acts env req i db \<Longrightarrow> 0 \<le> now \<Longrightarrow>
     put_retention_policy fate admit i req body now read_db db later = (db', h) \<Longrightarrow> served kl env hist db db'"
| by_hold: "acts env req i db \<Longrightarrow> 0 \<le> now \<Longrightarrow> audit_hold_id_re (generate_hold_id uuid) \<Longrightarrow>
     create_hold fate admit i req body uuid now read_db db later = (db', j) \<Longrightarrow> served kl env hist db db'"
| by_release: "acts env req i db \<Longrightarrow> 0 \<le> now \<Longrightarrow>
     release_hold fate admit i req body hold_id now read_db db later = (db', k) \<Longrightarrow> served kl env hist db db'"
| by_acknowledge: "acts env req i db \<Longrightarrow>
     post_acknowledgement ap secret fate admit i req body now db later = (db', l) \<Longrightarrow> served kl env hist db db'"

lemma acts_handle: "acts env req i db \<Longrightarrow> id_handle i \<noteq> []"
proof -
  assume "acts env req i db"
  then obtain d where a: "authenticate_request env d req = Some i" and ok: "registry_ok (rd_handles d)"
    by (auto simp: acts_def)
  obtain row where "select_handle d (id_org i) (id_handle i) = Some row" by (rule authenticate_request_Some[OF a])
  then show "id_handle i \<noteq> []" using select_handle_Some ok by (fastforce simp: registry_ok_def)
qed

lemma served_moves: "served kl env hist db db' \<Longrightarrow> moves kl db hist db'"
proof (induction rule: served.induct)
  case by_admin_invite then show ?case by (rule post_admin_invite_moves)
next
  case by_invite show ?case by (rule post_invites_moves[OF by_invite(2,3)])
next
  case by_revoke show ?case by (rule revoke_invite_moves[OF by_revoke(2)])
next
  case by_register then show ?case by (rule register_moves)
next
  case by_rotate show ?case by (rule rotate_token_moves[OF by_rotate(2)])
next
  case by_issue show ?case by (rule recovery_issue_moves[OF by_issue(2)])
next
  case by_redeem then show ?case by (rule recovery_redeem_moves)
next
  case by_drain show ?case by (rule drain_moves)
next
  case by_identity show ?case by (rule put_identity_moves[OF by_identity(2)])
next
  case by_key show ?case by (rule put_encryption_key_moves[OF by_key(3,2)])
next
  case by_policy show ?case by (rule put_retention_policy_moves[OF by_policy(3) acts_handle[OF by_policy(1)] by_policy(2)])
next
  case by_hold show ?case by (rule create_hold_moves[OF by_hold(4) acts_handle[OF by_hold(1)] by_hold(2,3)])
next
  case by_release show ?case by (rule release_hold_moves[OF by_release(3) acts_handle[OF by_release(1)] by_release(2)])
next
  case by_acknowledge show ?case by (rule post_acknowledgement_moves[OF by_acknowledge(2)])
qed


end
