(* ===== verification/RelaySecurity.thy ===== *)
theory RelaySecurity
  imports RelayHandlers
begin

text \<open>
  Credentials through rotation and recovery, the evidence each mutation leaves in the audit
  ledger, and that a request writes only the rows of its own organization.
\<close>

subsection \<open>Credentials\<close>

lemma authenticate_at:
  assumes "request_org (rh_org req) (en_mode env) (en_self_hosted_org env) = org" "org \<noteq> []"
    "or_default (rh_handle req) '''' = handle" "select_handle db org handle = Some row" "hn_agent_id row \<noteq> []"
  shows "authenticate_request env db req =
    (if hn_token_hash row = sha256_hex env (bearer_token (rh_authorization req))
     then Some \<lparr>id_org = org, id_handle = handle, id_agent_id = hn_agent_id row, id_role = hn_role row,
                id_recovery_generation = hn_recovery_generation row\<rparr> else None)"
  using assms by (simp add: authenticate_request_def authenticated_handle_def Let_def)

lemma authenticate_request_inv:
  assumes "authenticate_request env db req = Some i"
  shows "request_org (rh_org req) (en_mode env) (en_self_hosted_org env) = id_org i \<and> id_org i \<noteq> [] \<and>
    or_default (rh_handle req) '''' = id_handle i \<and>
    (\<exists>row. select_handle db (id_org i) (id_handle i) = Some row \<and> hn_agent_id row \<noteq> [] \<and>
       hn_token_hash row = sha256_hex env (bearer_token (rh_authorization req)) \<and>
       i = \<lparr>id_org = id_org i, id_handle = id_handle i, id_agent_id = hn_agent_id row, id_role = hn_role row,
            id_recovery_generation = hn_recovery_generation row\<rparr>)"
  using assms by (auto simp: authenticate_request_def authenticated_handle_def Let_def split: if_splits option.splits)

lemma handle_update_keys: "handle_update_ok P f \<Longrightarrow> handle_key ` set (sql_update P f hs) = handle_key ` set hs"
  using arg_cong[OF handle_update_maps(1), of P f set hs] by simp

lemma select_handle_update:
  assumes "handles_table.keyed hs" "select_handle db org handle = Some row" "rd_handles db = hs"
    "rd_handles db' = sql_update P f hs" "handle_update_ok P f"
  shows "select_handle db' org handle = Some (if P row then f row else row)"
proof -
  let ?row' = "if P row then f row else row"
  have row: "row \<in> set hs" "hn_org row = org" "hn_handle row = handle" using select_handle_Some[OF assms(2)] assms(3) by auto
  have "?row' \<in> set (rd_handles db')" using row(1) unfolding assms(4) sql_update_def by auto
  moreover have "handle_key ?row' = (org, handle)" using row assms(5) by (auto simp: handle_update_ok_def handle_key_def)
  moreover have "handles_table.keyed (rd_handles db')"
    using assms(1) handle_update_maps(1)[OF assms(5), of hs] unfolding assms(4) handles_table.keyed_def by simp
  ultimately show ?thesis using select_handle_unique[of db' ?row'] by (auto simp: handle_key_def)
qed

text \<open>
  Rotation revokes the old token and nothing else. When an authenticated request rotates
  its token, the request's own credentials are refused from then on, and the new token
  authenticates as the same principal; every other handle authenticates as before.
\<close>
theorem rotation_replaces_token:
  assumes "reach relay_init (relay_step kl) (db, hist)" "authenticate_request env db req = Some i"
    and "rotate_token env Commits admit i req next_token db = (db', Ok tok)"
    and "sha256_hex env next_token \<noteq> sha256_hex env (bearer_token (rh_authorization req))"
  shows "tok = next_token \<and> authenticate_request env db' req = None \<and>
    (\<forall>auth. bearer_token auth = next_token \<longrightarrow> authenticate_request env db' (req\<lparr>rh_authorization := auth\<rparr>) = Some i) \<and>
    (\<forall>org handle. (org, handle) \<noteq> (id_org i, id_handle i) \<longrightarrow> select_handle db' org handle = select_handle db org handle)"
proof -
  let ?old = "sha256_hex env (bearer_token (rh_authorization req))" and ?new = "sha256_hex env next_token"
  let ?P = "holds_token (id_org i) (id_handle i) ?old" and ?f = "\<lambda>r. r\<lparr>hn_token_hash := ?new\<rparr>"
  obtain row where a: "request_org (rh_org req) (en_mode env) (en_self_hosted_org env) = id_org i" "id_org i \<noteq> []"
    "or_default (rh_handle req) '''' = id_handle i" "select_handle db (id_org i) (id_handle i) = Some row"
    "hn_agent_id row \<noteq> []" "hn_token_hash row = ?old"
    "i = \<lparr>id_org = id_org i, id_handle = id_handle i, id_agent_id = hn_agent_id row, id_role = hn_role row,
            id_recovery_generation = hn_recovery_generation row\<rparr>"
    using authenticate_request_inv[OF assms(2)] by blast
  have k: "handles_table.keyed (rd_handles db)" using reach_db_ok[OF assms(1)] by (simp add: db_ok_def registry_ok_def)
  have db': "rd_handles db' = sql_update ?P ?f (rd_handles db)" and tok: "tok = next_token"
    using assms(3) by (auto simp: rotate_token_def gates Let_def rotate_batch_def run_batch_def split: if_splits)
  have P: "?P row" using select_handle_Some[OF a(4)] a(6) by (simp add: holds_token_def)
  have sel: "select_handle db' (id_org i) (id_handle i) = Some (?f row)"
    using select_handle_update[OF k a(4) refl db' rotate_update] P by simp
  have none: "authenticate_request env db' req = None"
    using authenticate_at[OF a(1-3) sel] a(5) assms(4) by simp
  have same: "authenticate_request env db' (req\<lparr>rh_authorization := auth\<rparr>) = Some i" if "bearer_token auth = next_token" for auth
    using authenticate_at[of "req\<lparr>rh_authorization := auth\<rparr>" env "id_org i" "id_handle i" db' "?f row"] a(1-3,5) sel that
    by (simp add: a(7)[symmetric])
  have other: "select_handle db' org handle = select_handle db org handle"
    if "(org, handle) \<noteq> (id_org i, id_handle i)" for org handle
  proof (cases "select_handle db org handle")
    case (Some r)
    then have "\<not> ?P r" using select_handle_Some that by (auto simp: holds_token_def)
    then show ?thesis using select_handle_update[OF k Some refl db' rotate_update] Some by simp
  next
    case None
    then have "select_handle db' org handle = None" unfolding select_handle_None db' handle_update_keys[OF rotate_update] .
    then show ?thesis using None by simp
  qed
  show ?thesis using tok none same other by blast
qed

subsection \<open>Recovery replaces the credential\<close>

text \<open>A redemption that goes through the batch: what it checked and what it committed.\<close>

lemma redeem_success:
  assumes "recovery_redeem env accepts ef Commits admit req body now db db (\<lambda>d. d) = (db', Ok r)"
    "json_body parse_redeem_request body None = Some q" "find_receipt db q now = None"
    "handles_table.keyed (rd_handles db)"
  obtains row d n0 where "select_handle db (rm_org q) (rm_handle q) = Some row"
    "consumable q (sha256_hex env (rm_current_proof q)) row"
    "redeem_batch q (sha256_hex env (rm_current_proof q)) (redeem_audit req q (sha256_hex env (rm_current_proof q)) now) now
       (now + RECEIPT_TTL_MS) db = Some (d, 1, 1)"
    "redeem_reply accepts ef q (new_receipt q (sha256_hex env (rm_current_proof q)) now (now + RECEIPT_TTL_MS)) now d = (db', Ok r)"
    "admit (DurableLimit REGISTER) (''recovery-ip:'' @ connecting_ip req)" "valid_public_ids q"
    "deployment_org_allows (en_mode env) (en_self_hosted_org env) (rm_org q)"
    "admit (DurableLimit REGISTER) (''recovery-proof:'' @ take 16 (sha256_hex env (rm_current_proof q)))"
proof -
  let ?h = "sha256_hex env (rm_current_proof q)"
  let ?audit = "redeem_audit req q ?h now" and ?e = "now + RECEIPT_TTL_MS"
  have g: "admit (DurableLimit REGISTER) (''recovery-ip:'' @ connecting_ip req)" "valid_public_ids q"
    "deployment_org_allows (en_mode env) (en_self_hosted_org env) (rm_org q)"
    "admit (DurableLimit REGISTER) (''recovery-proof:'' @ take 16 ?h)"
    using assms(1,2) by (auto simp: recovery_redeem_def Let_def split: if_splits)
  then obtain row where row: "select_handle db (rm_org q) (rm_handle q) = Some row" "truthy_str (hn_recovery_hash row)"
      "hn_recovery_generation row = rm_generation q" "the (hn_recovery_hash row) = ?h"
    using assms(1-3) by (auto simp: recovery_redeem_def Let_def split: option.splits if_splits)
  have c: "consumable q ?h row"
    using row select_handle_Some[OF row(1)] by (cases "hn_recovery_hash row") (auto simp: consumable_def truthy_str_def)
  have ex: "sql_exists (consumable q ?h) (rd_handles db)" using c select_handle_Some[OF row(1)] by auto
  have "sql_count (consumable q ?h) (rd_handles db) \<le> 1"
    by (rule handles_table.count_le_one[OF assms(4), where k = "(rm_org q, rm_handle q)"]) (simp add: consumable_def handle_key_def)
  moreover have "0 < sql_count (consumable q ?h) (rd_handles db)" using ex by (simp add: sql_count_pos)
  ultimately have one: "sql_count (consumable q ?h) (rd_handles db) = 1" by simp
  show ?thesis
  proof (cases "redeem_batch q ?h ?audit now ?e db")
    case None
    then have "concurrent_reply accepts ef q ?h now (Refuse 503 ''recovery temporarily unavailable'') db = (db', Ok r)"
      using assms(1-3) g row by (simp add: recovery_redeem_def run_batch_def Let_def)
    then show ?thesis using assms(3) by (simp add: concurrent_reply_def)
  next
    case (Some x)
    obtain d n0 n1 where x: "x = (d, n0, n1)" by (cases x)
    then have n: "n0 = 1" "n1 = 1" using redeem_tables[of q ?h ?audit now ?e db d n0 n1] Some ex one
      by (auto simp del: sql_exists_iff)
    then have "redeem_reply accepts ef q (new_receipt q ?h now ?e) now d = (db', Ok r)"
      using assms(1-3) g row Some x by (simp add: recovery_redeem_def run_batch_def Let_def)
    then show ?thesis using that[OF row(1) c] Some x n g by simp
  qed
qed

lemma evict_tables: "rd_handles (fst (evict accepts ef org handle g now d)) = rd_handles d"
  "rd_receipts (fst (evict accepts ef org handle g now d)) = rd_receipts d"
  using evict_frame[of accepts ef org handle g now d] by auto

lemma redeem_receipt_kept:
  assumes "redeem_batch q h audit now e db = Some (d, 1, 1)" "now < e"
  shows "new_receipt q h now e \<in> set (rd_receipts d)"
proof -
  have "sql_exists (consumable q h) (rd_handles db)" using redeem_tables[OF assms(1)] by (auto split: if_splits)
  then obtain rs db3 where rs: "sql_insert receipt_key (new_receipt q h now e) (rd_receipts db) = Some rs"
    and d: "d = org_audit_trim_statement (rm_org q) ((enqueue_eviction q now db3)
        \<lparr>rd_receipts := sql_delete (\<lambda>r. rr_expires_at r \<le> now) rs\<rparr>)"
    using redeem_tables[OF assms(1)] by auto
  show ?thesis using rs assms(2) unfolding d
    by (auto simp: sql_insert_Some sql_delete_def org_audit_trim_statement_def) (simp add: new_receipt_def)
qed

lemma find_receipt_unique:
  assumes "receipts_table.keyed (rd_receipts d)" "x \<in> set (rd_receipts d)" "receipt_of q x" "now < rr_expires_at x"
  shows "find_receipt d q now = Some x"
  unfolding find_receipt_def
  by (rule find_unique[of receipt_key]) (use assms in \<open>auto simp: receipts_table.keyed_def receipt_of_def\<close>)

text \<open>A retry finds the receipt and answers with it, evicting again.\<close>

lemma redeem_retry:
  fixes q :: redeem_request and env :: relay_env and now :: int
  defines "h \<equiv> sha256_hex env (rm_current_proof q)"
  defines "rc \<equiv> new_receipt q h now (now + RECEIPT_TTL_MS)"
  assumes "json_body parse_redeem_request body None = Some q"
    and g: "admit (DurableLimit REGISTER) (''recovery-ip:'' @ connecting_ip req)" "valid_public_ids q"
    "deployment_org_allows (en_mode env) (en_self_hosted_org env) (rm_org q)"
    "admit (DurableLimit REGISTER) (''recovery-proof:'' @ take 16 (sha256_hex env (rm_current_proof q)))"
    and rec: "new_receipt q (sha256_hex env (rm_current_proof q)) now (now + RECEIPT_TTL_MS) \<in> set (rd_receipts db')"
      "receipts_table.keyed (rd_receipts db')" "now' < now + RECEIPT_TTL_MS"
    and sel: "select_handle db' (rm_org q) (rm_handle q) = Some row"
  shows "\<exists>db'' c. recovery_redeem env accepts ef Commits admit req body now' db' db' (\<lambda>d. d) =
      (db'', Ok (receipt_json (new_receipt q (sha256_hex env (rm_current_proof q)) now (now + RECEIPT_TTL_MS)) c (hn_agent_kind row))) \<and>
    rd_handles db'' = rd_handles db'"
proof -
  have f: "find_receipt db' q now' = Some rc"
    using rec by (intro find_receipt_unique) (auto simp: rc_def h_def receipt_of_def new_receipt_def receipt_key_def)
  obtain db'' r' where rr: "redeem_reply accepts ef q rc now' db' = (db'', Ok r')"
    by (cases "redeem_reply accepts ef q rc now' db'") (auto simp: redeem_reply_def split: prod.splits)
  have "exact_receipt rc q h" by (simp add: exact_receipt_def rc_def new_receipt_def)
  then have "recovery_redeem env accepts ef Commits admit req body now' db' db' (\<lambda>d. d) = (db'', Ok r')"
    using g f rr assms(3) by (simp add: recovery_redeem_def Let_def h_def)
  moreover have "rd_handles db'' = rd_handles db'" using redeem_reply_db[OF rr] by (simp add: evict_tables)
  moreover from this obtain c where "r' = receipt_json rc c (hn_agent_kind row)"
    using rr sel by (auto simp: redeem_reply_def Let_def agent_kind_for_def select_handle_def split: prod.splits)
  ultimately show ?thesis by (auto simp: rc_def h_def)
qed


subsection \<open>Evidence\<close>

definition audited :: "org_audit \<Rightarrow> relay_db \<Rightarrow> relay_db \<Rightarrow> bool" where
  "audited a db db' \<longleftrightarrow>
     \<lparr>lr_id = rd_next_event db, lr_audit = a\<rparr> \<in> set (rd_events db') \<and>
     sql_count (of_org (oa_org a)) (rd_events db') \<le> MAX_RETAINED_ORG_AUDIT_EVENTS"

lemma audited_from:
  assumes "audit_and_trim a n d = Some d'" "0 < n" "events_ok d" "rd_next_event d = rd_next_event db"
    "rd_events db' = rd_events d'"
  shows "audited a db db'"
  using audit_and_trim_recorded[OF assms(3,1,2)] audit_and_trim_bound[OF assms(3,1)] assms(4,5)
  by (simp add: audited_def)

lemma create_invite_audited:
  assumes "create_invite_batch row audit now db = Some (db', n)" "n \<noteq> 0" "events_ok db"
  shows "audited audit db db'"
proof -
  obtain rows where "audit_and_trim audit n (expired_invite_cleanup_statement (iv_org row) now db\<lparr>rd_invites := rows\<rparr>) = Some db'"
    using assms(1,2) by (auto simp: create_invite_batch_def Let_def split: if_splits option.splits)
  from audited_from[OF this] show ?thesis using assms(2,3)
    by (simp add: expired_invite_cleanup_statement_def events_ok_def)
qed

lemma revoke_invite_audited:
  assumes "revoke_invite_batch i org audit now db = Some (db', n)" "n \<noteq> 0" "events_ok db"
  shows "audited audit db db'"
proof -
  obtain d rows where "audit_and_trim audit n (db\<lparr>rd_invites := rows\<rparr>) = Some d"
    and "db' = expired_invite_cleanup_statement org now d"
    using assms(1) by (auto simp: revoke_invite_batch_def Let_def)
  then show ?thesis using audited_from[of audit n "db\<lparr>rd_invites := rows\<rparr>" d db db'] assms(2,3)
    by (simp add: expired_invite_cleanup_statement_def events_ok_def)
qed

lemma register_audited:
  assumes "register_batch hash handle tok kind agent org audit now db = Some (db', n0, n1)" "n1 \<noteq> 0" "events_ok db"
  shows "audited audit db db'"
proof -
  obtain hs m0 where i: "insert_handle (map_option (\<lambda>iv. new_handle iv handle tok kind now agent)
      (find (redeemable hash now) (rd_invites db))) db = Some (db\<lparr>rd_handles := hs\<rparr>, m0)"
    by (rule core_register[OF assms(1)])
  obtain d rows where "audit_and_trim audit n1 (db\<lparr>rd_handles := hs, rd_invites := rows\<rparr>) = Some d"
    and "db' = expired_invite_cleanup_statement org now d"
    using assms(1) unfolding register_batch_def i by (auto simp: Let_def)
  then show ?thesis using audited_from[of audit n1 "db\<lparr>rd_handles := hs, rd_invites := rows\<rparr>" d db db'] assms(2,3)
    by (simp add: expired_invite_cleanup_statement_def events_ok_def)
qed

lemma issue_audited:
  assumes "issue_batch org handle tok g digest audit db = Some (db', n)" "n \<noteq> 0" "events_ok db"
  shows "audited audit db db'"
  using assms by (auto simp: issue_batch_def Let_def events_ok_def elim!: audited_from)

lemma post_invites_Ok:
  assumes "post_invites env Commits admit i req body token now db = (db', Ok (tok, meta))"
  shows "\<exists>row role words. im_id meta = sha256_hex env token \<and>
    create_invite_batch row (audit_of req OrgInviteIssue ActionC (id_org i) (id_handle i) ActorHandle TargetInvite
      (sha256_hex env token) role words now) now db = Some (db', 1)"
  using assms
  by (auto simp: post_invites_def gates create_invite_def Let_def public_invite_def
      split: if_splits option.splits prod.splits dest!: run_batch_Some) (auto simp: new_invite_def; blast)

lemma register_Ok:
  assumes "register env Commits admit req body token uuid read_now now (Some db) db later = (db', Ok (org, tok))"
  shows "\<exists>q role words. json_body parse_register_request body None = Some q \<and>
    register_batch (sha256_hex env (rq_invite q)) (rq_handle q) (sha256_hex env token) (rq_agent_kind q)
      (generate_agent_id uuid) org (audit_of req OrgInviteRedeem ActionC org (sha256_hex env (rq_invite q)) ActorInvite
        TargetHandle (rq_handle q) role words now) now db = Some (db', 1, 1)"
  using assms by (auto simp: register_def Let_def split: if_splits option.splits prod.splits dest!: run_batch_Some)

lemma recovery_issue_Ok:
  assumes "recovery_issue env Commits admit i req body now db = (db', Ok r)"
  shows "\<exists>tok g digest words. issue_batch (id_org i) (id_handle i) tok g digest
    (audit_of req CredentialRecoveryIssue ActionU (id_org i) (id_handle i) ActorHandle TargetHandle (id_handle i) None words now)
    db = Some (db', 1)"
  using assms by (auto simp: recovery_issue_def gates Let_def split: if_splits option.splits prod.splits dest!: run_batch_Some)

text \<open>
  No credential mutation without evidence. When the relay answers that an invite was
  issued or redeemed, or a recovery proof issued, the same commit has written that event,
  with its actor and target, as the newest row of the organization's ledger, and the ledger
  holds at most ten thousand rows of it.
\<close>
theorem mutations_are_audited:
  assumes "reach relay_init (relay_step kl) (db, hist)"
  shows "(\<forall>env admit i req body token now db' tok meta.
      post_invites env Commits admit i req body token now db = (db', Ok (tok, meta)) \<longrightarrow>
      (\<exists>a. audited a db db' \<and> oa_event a = OrgInviteIssue \<and> oa_org a = id_org i \<and> oa_actor a = id_handle i \<and>
         oa_target_id a = im_id meta \<and> oa_at a = now)) \<and>
    (\<forall>env admit req body token uuid read_now now db' org tok.
      register env Commits admit req body token uuid read_now now (Some db) db (\<lambda>d. d) = (db', Ok (org, tok)) \<longrightarrow>
      (\<exists>a q. json_body parse_register_request body None = Some q \<and> audited a db db' \<and> oa_event a = OrgInviteRedeem \<and>
         oa_org a = org \<and> oa_actor a = sha256_hex env (rq_invite q) \<and> oa_target_id a = rq_handle q)) \<and>
    (\<forall>env admit i req body now db' r.
      recovery_issue env Commits admit i req body now db = (db', Ok r) \<longrightarrow>
      (\<exists>a. audited a db db' \<and> oa_event a = CredentialRecoveryIssue \<and> oa_org a = id_org i \<and> oa_actor a = id_handle i \<and>
         oa_target_id a = id_handle i))"
proof (intro conjI allI impI)
  have ok: "events_ok db" using reach_db_ok[OF assms] by (simp add: db_ok_def)
  show "\<exists>a. audited a db db' \<and> oa_event a = OrgInviteIssue \<and> oa_org a = id_org i \<and> oa_actor a = id_handle i \<and>
      oa_target_id a = im_id meta \<and> oa_at a = now"
    if "post_invites env Commits admit i req body token now db = (db', Ok (tok, meta))"
    for env admit i req body token now db' tok meta
    using post_invites_Ok[OF that] create_invite_audited[OF _ _ ok] by (force simp: audit_of_def)
  show "\<exists>a q. json_body parse_register_request body None = Some q \<and> audited a db db' \<and> oa_event a = OrgInviteRedeem \<and>
         oa_org a = org \<and> oa_actor a = sha256_hex env (rq_invite q) \<and> oa_target_id a = rq_handle q"
    if "register env Commits admit req body token uuid read_now now (Some db) db (\<lambda>d. d) = (db', Ok (org, tok))"
    for env admit req body token uuid read_now now db' org tok
    using register_Ok[OF that] register_audited[OF _ _ ok] by (force simp: audit_of_def)
  show "\<exists>a. audited a db db' \<and> oa_event a = CredentialRecoveryIssue \<and> oa_org a = id_org i \<and> oa_actor a = id_handle i \<and>
         oa_target_id a = id_handle i"
    if "recovery_issue env Commits admit i req body now db = (db', Ok r)" for env admit i req body now db' r
    using recovery_issue_Ok[OF that] issue_audited[OF _ _ ok] by (force simp: audit_of_def)
qed

subsection \<open>Tenants\<close>

text \<open>Everything of the other organizations, in every table a request of an organization may write.\<close>

definition elsewhere :: "string \<Rightarrow> relay_db \<Rightarrow>
  (handle_row list \<times> invite_row list \<times> ledger_row list \<times> identity_key_row list \<times> encryption_key_row list) \<times>
  policy_row list \<times> policy_request_row list \<times> hold_row list \<times> ack_row list \<times> receipt_row list \<times> eviction_row list" where
  "elsewhere org db =
     ((filter (\<lambda>r. hn_org r \<noteq> org) (rd_handles db), filter (\<lambda>r. iv_org r \<noteq> org) (rd_invites db),
       filter (\<lambda>r. oa_org (lr_audit r) \<noteq> org) (rd_events db), filter (\<lambda>r. ik_org r \<noteq> org) (rd_identity_keys db),
       filter (\<lambda>r. xk_org r \<noteq> org) (rd_encryption_keys db)),
      filter (\<lambda>r. pl_org r \<noteq> org) (rd_policies db), filter (\<lambda>r. pq_org r \<noteq> org) (rd_policy_requests db),
      filter (\<lambda>r. hd_org r \<noteq> org) (rd_holds db), filter (\<lambda>r. ak_org r \<noteq> org) (rd_acks db),
      rd_receipts db, rd_evictions db)"

lemma filter_update: "(\<And>r. P r \<Longrightarrow> \<not> Q r \<and> \<not> Q (f r)) \<Longrightarrow> filter Q (sql_update P f rows) = filter Q rows"
  unfolding sql_update_def by (induction rows) auto

lemma filter_delete: "(\<And>r. P r \<Longrightarrow> \<not> Q r) \<Longrightarrow> filter Q (sql_delete P rows) = filter Q rows"
  unfolding sql_delete_def by (induction rows) auto

lemma filter_upsert:
  "(\<And>r. key r = key row \<Longrightarrow> \<not> Q r \<and> \<not> Q (up r)) \<Longrightarrow> filter Q (sql_upsert key up row rows) = filter Q rows"
  using filter_update[of "\<lambda>q. key q = key row" Q up rows] by (simp add: sql_upsert_def sql_update_def)

lemma elsewhere_trim: "elsewhere org (org_audit_trim_statement org db) = elsewhere org db"
  by (auto simp: elsewhere_def org_audit_trim_statement_def trim_ledger_def of_org_def intro!: filter_delete)

lemma elsewhere_cleanup: "elsewhere org (expired_invite_cleanup_statement org now db) = elsewhere org db"
  by (auto simp: elsewhere_def expired_invite_cleanup_statement_def intro!: filter_delete)

lemma elsewhere_ledger: "ledger_insert a db = Some d \<Longrightarrow> oa_org a = org \<Longrightarrow> elsewhere org d = elsewhere org db"
  by (auto simp: elsewhere_def ledger_insert_def split: if_splits)

lemma elsewhere_statement: "org_audit_statement a p n db = Some d \<Longrightarrow> oa_org a = org \<Longrightarrow> elsewhere org d = elsewhere org db"
  by (auto simp: org_audit_statement_def elsewhere_ledger split: if_splits)

lemma elsewhere_audit: "audit_and_trim a n db = Some d \<Longrightarrow> oa_org a = org \<Longrightarrow> elsewhere org d = elsewhere org db"
  by (auto simp: audit_and_trim_def elsewhere_trim elsewhere_statement)

lemma elsewhere_create_invite:
  assumes "create_invite_batch row audit now db = Some (db', n)" "oa_org audit = iv_org row"
  shows "elsewhere (iv_org row) db' = elsewhere (iv_org row) db"
proof -
  have ins: "elsewhere (iv_org row) (d\<lparr>rd_invites := rd_invites d @ [row]\<rparr>) = elsewhere (iv_org row) d" for d
    by (simp add: elsewhere_def)
  show ?thesis using assms
    by (auto simp: create_invite_batch_def Let_def sql_insert_Some elsewhere_cleanup ins dest!: elsewhere_audit
        split: if_splits option.splits)
qed

lemma elsewhere_revoke:
  assumes "revoke_invite_batch i org audit now db = Some (db', n)" "oa_org audit = org"
  shows "elsewhere org db' = elsewhere org db"
proof -
  have "elsewhere org (db\<lparr>rd_invites := sql_update (revocable i org) f (rd_invites db)\<rparr>) = elsewhere org db"
    if "\<And>r. iv_org (f r) = iv_org r" for f
    using that by (auto simp: elsewhere_def revocable_def intro!: filter_update)
  then show ?thesis using assms(1)
    by (auto simp: revoke_invite_batch_def Let_def elsewhere_cleanup dest!: elsewhere_audit[OF _ assms(2)])
qed

lemma elsewhere_handles:
  assumes "\<And>r. P r \<Longrightarrow> hn_org r = org \<and> hn_org (f r) = org"
  shows "elsewhere org (db\<lparr>rd_handles := sql_update P f (rd_handles db)\<rparr>) = elsewhere org db"
  using assms by (auto simp: elsewhere_def intro!: filter_update)

lemma elsewhere_rotate: "rotate_batch org handle old new db = Some (db', n) \<Longrightarrow> elsewhere org db' = elsewhere org db"
  by (auto simp: rotate_batch_def holds_token_def intro!: elsewhere_handles)

lemma elsewhere_issue:
  assumes "issue_batch org handle tok g digest audit db = Some (db', n)" "oa_org audit = org"
  shows "elsewhere org db' = elsewhere org db"
  using assms(1)
  by (auto simp: issue_batch_def Let_def issuable_def holds_token_def dest!: elsewhere_audit[OF _ assms(2)] intro!: elsewhere_handles)

lemma elsewhere_identity:
  assumes "insert_identity row db = Some (db', n)"
  shows "elsewhere (ik_org row) db' = elsewhere (ik_org row) db"
  using assms
  by (auto simp: insert_identity_def elsewhere_def sql_insert_or_ignore_def sql_insert_Some split: prod.splits option.splits)

lemma elsewhere_key: "insert_key row db = Some (db', n) \<Longrightarrow> elsewhere (xk_org row) db' = elsewhere (xk_org row) db"
  by (drule insert_key_cases) (auto simp: elsewhere_def)

lemma elsewhere_policy:
  assumes "policy_batch org u actor audit now db = Some (db', x)" "oa_org audit = org"
  shows "elsewhere org db' = elsewhere org db"
proof -
  have up: "elsewhere org (upsert_policy org u actor now db) = elsewhere org db"
    by (auto simp: upsert_policy_def elsewhere_def intro!: filter_upsert split: if_splits)
  have req: "elsewhere org (insert_policy_request org u actor now d) = elsewhere org d" for d
    by (simp add: insert_policy_request_def elsewhere_def)
  show ?thesis using assms(1)
    by (auto simp: policy_batch_def Let_def elsewhere_trim up req dest!: elsewhere_ledger[OF _ assms(2)] split: if_splits)
qed

lemma elsewhere_hold:
  assumes "hold_create_batch row audit db = Some (db', x)" "oa_org audit = hd_org row"
  shows "elsewhere (hd_org row) db' = elsewhere (hd_org row) db"
proof -
  have ins: "elsewhere (hd_org row) (db\<lparr>rd_holds := rd_holds db @ [row]\<rparr>) = elsewhere (hd_org row) db" by (simp add: elsewhere_def)
  show ?thesis using assms
    by (auto simp: hold_create_batch_def insert_hold_def elsewhere_trim ins dest!: elsewhere_ledger split: if_splits option.splits)
qed

lemma elsewhere_release:
  assumes "hold_release_batch org i request actor audit now db = Some (db', x)" "oa_org audit = org"
  shows "elsewhere org db' = elsewhere org db"
proof -
  have up: "elsewhere org (db\<lparr>rd_holds := sql_update (releasable org i) f (rd_holds db)\<rparr>) = elsewhere org db"
    if "\<And>r. hd_org (f r) = hd_org r" for f
    using that by (auto simp: elsewhere_def releasable_def hold_key_def intro!: filter_update)
  show ?thesis using assms(1)
    by (auto simp: hold_release_batch_def Let_def elsewhere_trim up dest!: elsewhere_statement[OF _ assms(2)] split: if_splits)
qed

lemma elsewhere_acknowledge:
  "acknowledge_batch org cp actor now db = Some (db', x) \<Longrightarrow> elsewhere org db' = elsewhere org db"
  by (auto simp: acknowledge_batch_def Let_def elsewhere_def intro!: filter_upsert split: if_splits)

text \<open>The requests an authenticated identity can make, whatever their arguments.\<close>

inductive requests :: "identity \<Rightarrow> relay_db \<Rightarrow> relay_db \<Rightarrow> bool" for i :: identity where
  req_invite: "post_invites env fate admit i req body token now db = (db', a) \<Longrightarrow> requests i db db'"
| req_revoke: "revoke_invite fate admit i req invite_id now read_db db later = (db', b) \<Longrightarrow> requests i db db'"
| req_rotate: "rotate_token env fate admit i req next_token db = (db', c) \<Longrightarrow> requests i db db'"
| req_issue: "recovery_issue env fate admit i req body now db = (db', d) \<Longrightarrow> requests i db db'"
| req_identity: "put_identity kl fate admit i req body now db later = (db', e) \<Longrightarrow> requests i db db'"
| req_key: "put_encryption_key kl fate admit i req body now read_db db later = (db', e) \<Longrightarrow> requests i db db'"
| req_policy: "put_retention_policy fate admit i req body now read_db db later = (db', f) \<Longrightarrow> requests i db db'"
| req_hold: "create_hold fate admit i req body uuid now read_db db later = (db', g) \<Longrightarrow> requests i db db'"
| req_release: "release_hold fate admit i req body hold_id now read_db db later = (db', h) \<Longrightarrow> requests i db db'"
| req_acknowledge: "post_acknowledgement ap secret fate admit i req body now db later = (db', j) \<Longrightarrow> requests i db db'"

lemma elsewhere_batch:
  assumes "run_batch fate batch db = (db', r)" "\<And>x. batch db = Some (db', x) \<Longrightarrow> elsewhere org db' = elsewhere org db"
  shows "elsewhere org db' = elsewhere org db"
  using run_batch_cases[OF assms(1)] assms(2) by blast

lemma post_invites_writes:
  assumes "post_invites env fate admit i req body token now db = (db', a)"
  shows "db' = db \<or> (\<exists>row audit r. oa_org audit = id_org i \<and> iv_org row = id_org i \<and>
    run_batch fate (create_invite_batch row audit now) db = (db', r))"
proof -
  have org: "iv_org (new_invite a (id_org i) b c d e f) = id_org i" for a b c d e f by (simp add: new_invite_def)
  show ?thesis using assms
    by (auto simp: post_invites_def gates create_invite_def Let_def split: if_splits option.splits prod.splits) (metis org audit_org(1))+
qed


end
