(* ===== verification/RelaySamples.thy ===== *)
theory RelaySamples
  imports RelaySecurity
begin

text \<open>
  A small run of the service, from the empty database: an administrator invites and enrolls a
  handle, which publishes its keys and a recovery proof, and sets the audit controls. The
  properties of runs are applied to it and to its states.
\<close>

definition sample_env :: relay_env where
  "sample_env = \<lparr>en_digest = (\<lambda>bs. replicate 32 (word_of_nat (length bs))), en_mode = Some ''hosted'', en_self_hosted_org = None\<rparr>"

definition sample_platform :: key_platform where
  "sample_platform = \<lparr>kl_import_ok = (\<lambda>_. True), kl_verify = (\<lambda>_ _ _. True)\<rparr>"

definition sample_event :: "audit_event \<Rightarrow> string \<Rightarrow> org_audit" where
  "sample_event e key = \<lparr>oa_event_key = (if key = [] then None else Some key), oa_event = e, oa_action = ActionC,
     oa_org = ''acme'', oa_actor = ''ops'', oa_actor_type = ActorHandle, oa_target_type = TargetInvite,
     oa_target_id = ''t'', oa_target_role = None, oa_actor_ip = None, oa_actor_country = None,
     oa_description = ''d'', oa_at = 1\<rparr>"

definition sample_invite :: invite_row where
  "sample_invite = new_invite ''h1'' ''acme'' None 0 1000000 ''laptop'' Admin"

definition sample_token_hash :: string where
  "sample_token_hash = sha256_hex sample_env ''token''"

lemmas table_simps = sql_update_def sql_count_def sql_delete_def sql_insert_def sql_insert_or_ignore_def sql_upsert_def
  sql_exists_def trim_ledger_def latest_ids_def of_org_def

lemmas ledger_simps = audit_and_trim_def org_audit_statement_def ledger_insert_def org_audit_trim_statement_def
  MAX_RETAINED_ORG_AUDIT_EVENTS_def event_key_of_def event_key_free_def

lemmas sample_simps = sample_env_def sample_event_def sample_invite_def new_invite_def empty_db_def Let_def
  expired_invite_cleanup_statement_def active_invites_def invite_live_def invite_settled_at_def MAX_ACTIVE_ORG_INVITES_def
  INVITE_RETENTION_MS_def

definition sample1 :: relay_db where
  "sample1 = empty_db\<lparr>rd_invites := [sample_invite], rd_events := [\<lparr>lr_id = 1, lr_audit = sample_event OrgInviteIssue []\<rparr>],
     rd_next_event := 2\<rparr>"

definition sample_handle :: handle_row where
  "sample_handle = new_handle sample_invite ''al'' sample_token_hash (Some Claude) 2 ''agt_1''"

definition sample2 :: relay_db where
  "sample2 = sample1\<lparr>rd_handles := [sample_handle],
     rd_invites := [sample_invite\<lparr>iv_used_at := Some 2, iv_used_by := Some ''al''\<rparr>],
     rd_events := rd_events sample1 @ [\<lparr>lr_id = 2, lr_audit = sample_event OrgInviteRedeem []\<rparr>], rd_next_event := 3\<rparr>"

definition sample_proof :: string where
  "sample_proof = replicate 32 (CHR ''p'')"

definition sample_proof_hash :: string where
  "sample_proof_hash = sha256_hex sample_env sample_proof"

definition sample3 :: relay_db where
  "sample3 = sample2\<lparr>rd_handles := [sample_handle\<lparr>hn_recovery_hash := Some sample_proof_hash, hn_recovery_generation := 1\<rparr>],
     rd_events := rd_events sample2 @ [\<lparr>lr_id = 3, lr_audit = sample_event CredentialRecoveryIssue []\<rparr>], rd_next_event := 4\<rparr>"

definition sample_identity_row :: identity_key_row where
  "sample_identity_row = \<lparr>ik_org = ''acme'', ik_handle = ''al'', ik_identity_pub = ''K'', ik_relay_origin = ''r.io'',
     ik_address = ''@acme/al'', ik_created_at = 3\<rparr>"

definition sample_key_row :: encryption_key_row where
  "sample_key_row = \<lparr>xk_org = ''acme'', xk_handle = ''al'', xk_key_id = replicate 32 (CHR ''0''), xk_suite = HPKE_SUITE,
     xk_pub = ''P'', xk_epoch = 1, xk_not_before = 0, xk_not_after = 10, xk_prev = None, xk_relay_origin = ''r.io'',
     xk_address = ''@acme/al'', xk_signature = ''s'', xk_created_at = 3\<rparr>"

definition sample4 :: relay_db where
  "sample4 = sample3\<lparr>rd_identity_keys := [sample_identity_row]\<rparr>"

definition sample5 :: relay_db where
  "sample5 = sample4\<lparr>rd_encryption_keys := [sample_key_row]\<rparr>"

definition sample_update :: policy_update where
  "sample_update = \<lparr>pu_event_retention_days = 30, pu_expected_version = 0, pu_request_id = ''req''\<rparr>"

definition sample_policy :: policy_row where
  "sample_policy = \<lparr>pl_org = ''acme'', pl_event_retention_days = 30, pl_version = 1, pl_updated_by = ''al'', pl_updated_at = 4,
     pl_last_request_id = ''req''\<rparr>"

definition sample6 :: relay_db where
  "sample6 = sample5\<lparr>rd_policies := [sample_policy],
     rd_policy_requests := [\<lparr>pq_org = ''acme'', pq_request_id = ''req'', pq_requested_days = 30, pq_expected_version = 0,
       pq_resulting_version = 1, pq_actor = ''al'', pq_at = 4\<rparr>],
     rd_events := rd_events sample5 @ [\<lparr>lr_id = 4, lr_audit = sample_event AuditRetentionUpdate ''k''\<rparr>], rd_next_event := 5\<rparr>"

definition sample_hold :: hold_row where
  "sample_hold = \<lparr>hd_org = ''acme'', hd_hold_id = ''hold_'' @ replicate 32 (CHR ''a''), hd_reason = ''case'', hd_created_by = ''al'',
     hd_created_at = 5, hd_create_request_id = ''c1'', hd_released_by = None, hd_released_at = None, hd_release_request_id = None\<rparr>"

definition sample7 :: relay_db where
  "sample7 = sample6\<lparr>rd_holds := [sample_hold],
     rd_events := rd_events sample6 @ [\<lparr>lr_id = 5, lr_audit = sample_event AuditHoldCreate ''l''\<rparr>], rd_next_event := 6\<rparr>"

subsection \<open>Its steps\<close>

lemma sample1_step: "create_invite_batch sample_invite (sample_event OrgInviteIssue []) 1 empty_db = Some (sample1, 1)"
  by (simp add: create_invite_batch_def sample1_def sample_simps table_simps ledger_simps)

lemma sample2_step: "register_batch ''h1'' ''al'' sample_token_hash (Some Claude) ''agt_1'' ''acme''
     (sample_event OrgInviteRedeem []) 2 sample1 = Some (sample2, 1, 1)"
  by (simp add: register_batch_def insert_handle_def redeemable_def claims_invite_def sample1_def sample2_def sample_handle_def
      new_handle_def handle_key_def sample_simps table_simps ledger_simps)

lemma sample3_step: "issue_batch ''acme'' ''al'' sample_token_hash 0 sample_proof_hash
     (sample_event CredentialRecoveryIssue []) sample2 = Some (sample3, 1)"
  by (simp add: issue_batch_def issuable_def holds_token_def sample1_def sample2_def sample3_def sample_handle_def
      new_handle_def sample_simps table_simps ledger_simps)

lemma sample4_step: "insert_identity sample_identity_row sample3 = Some (sample4, 1)"
  by (simp add: insert_identity_def sample1_def sample2_def sample3_def sample4_def identity_key_of_def empty_db_def table_simps)

lemma sample5_step: "insert_key sample_key_row sample4 = Some (sample5, 1)"
  by (simp add: insert_key_def sample1_def sample2_def sample3_def sample4_def sample5_def empty_db_def table_simps)

lemma sample6_step: "policy_batch ''acme'' sample_update ''al'' (sample_event AuditRetentionUpdate ''k'') 4 sample5 = Some (sample6, ())"
  by (simp add: policy_batch_def upsert_policy_def insert_policy_request_def policy_request_key_def sample_update_def sample_policy_def
      sample1_def sample2_def sample3_def sample4_def sample5_def sample6_def sample_simps table_simps ledger_simps)

lemma sample7_step: "hold_create_batch sample_hold (sample_event AuditHoldCreate ''l'') sample6 = Some (sample7, ())"
  by (simp add: hold_create_batch_def insert_hold_def sample_hold_def
      sample1_def sample2_def sample3_def sample4_def sample5_def sample6_def sample7_def sample_simps table_simps ledger_simps)

lemma sample_key_admissible: "key_admissible sample_platform sample4 sample_key_row"
proof -
  have "\<exists>t. encryption_key_transcript (sk_record (served_bundle sample_identity_row sample_key_row)) = Inr t"
    by (rule encryption_key_transcript_total) code_simp
  then show ?thesis
    by (auto simp: key_admissible_def sample4_def key_verified_def sample_platform_def)
      (simp_all add: sample_identity_row_def sample_key_row_def identity_key_of_def)
qed

text \<open>Every state of the run is reachable, the last one with every fact in its history.\<close>

definition sample_hist :: "fact list" where
  "sample_hist = [InviteIssued ''h1'' ''acme'' Admin, InviteEnrolled ''h1'' ''acme'' ''al'' Admin, ProofIssued ''acme'' ''al'' 1]"

lemma sample2_reach:
  "reach relay_init (relay_step kl) (sample2, [InviteIssued ''h1'' ''acme'' Admin, InviteEnrolled ''h1'' ''acme'' ''al'' Admin])"
proof -
  have "reach relay_init (relay_step kl) (empty_db, [])" by (rule reach_init) (simp add: relay_init_def)
  then have "reach relay_init (relay_step kl) (sample1, [] @ issued_facts sample_invite 1)"
    by (rule reach_step) (rule relay_step.step_create_invite[OF sample1_step], simp_all add: invite_hashes_def sample_invite_def new_invite_def)
  then have "reach relay_init (relay_step kl)
      (sample2, ([] @ issued_facts sample_invite 1) @ enrolled_facts ''h1'' ''al'' 2 sample1 1)"
    by (rule reach_step) (rule relay_step.step_register[OF sample2_step], simp_all)
  moreover have "issued_facts sample_invite 1 = [InviteIssued ''h1'' ''acme'' Admin]"
    "enrolled_facts ''h1'' ''al'' 2 sample1 1 = [InviteEnrolled ''h1'' ''acme'' ''al'' Admin]"
    by (simp_all add: issued_facts_def enrolled_facts_def sample1_def redeemable_def sample_simps)
  ultimately show ?thesis by simp
qed

lemma sample3_reach: "reach relay_init (relay_step kl) (sample3, sample_hist)"
proof -
  have "reach relay_init (relay_step kl) (sample3, [InviteIssued ''h1'' ''acme'' Admin, InviteEnrolled ''h1'' ''acme'' ''al'' Admin] @
      proof_facts ''acme'' ''al'' 0 1)"
    by (rule reach_step[OF sample2_reach]) (rule relay_step.step_issue[OF sample3_step])
  then show ?thesis by (simp add: proof_facts_def sample_hist_def)
qed

lemma sample5_steps: "(relay_step sample_platform)\<^sup>*\<^sup>* (sample3, sample_hist) (sample5, sample_hist)"
  using relay_step.step_identity[OF sample4_step] relay_step.step_key[OF sample5_step sample_key_admissible]
  by (meson rtranclp.rtrancl_into_rtrancl rtranclp.rtrancl_refl)

lemma sample5_reach: "reach relay_init (relay_step sample_platform) (sample5, sample_hist)"
  by (rule reach_steps[OF sample3_reach sample5_steps])

lemma sample6_next: "relay_step sample_platform (sample5, sample_hist) (sample6, sample_hist)"
  by (rule relay_step.step_policy[OF sample6_step])
     (simp_all add: policy_update_ok_def sample_update_def retention_window_def MIN_AUDIT_EVENT_RETENTION_DAYS_def MAX_AUDIT_EVENT_RETENTION_DAYS_def)

lemma sample_hold_ok: "hold_new_ok sample_hold"
  by code_simp

lemma sample7_next: "relay_step sample_platform (sample6, sample_hist) (sample7, sample_hist)"
  by (rule relay_step.step_hold[OF sample7_step sample_hold_ok])

lemma sample6_reach: "reach relay_init (relay_step sample_platform) (sample6, sample_hist)"
  by (rule reach_step[OF sample5_reach sample6_next])

lemma sample7_reach: "reach relay_init (relay_step sample_platform) (sample7, sample_hist)"
  by (rule reach_step[OF sample6_reach sample7_next])

subsection \<open>A request of the enrolled handle\<close>

definition sample_req :: request_headers where
  "sample_req = \<lparr>rh_org = Some ''acme'', rh_handle = Some ''al'', rh_authorization = Some ''Bearer token'',
     rh_connecting_ip = None, rh_country = None\<rparr>"

definition sample_id :: identity where
  "sample_id = \<lparr>id_org = ''acme'', id_handle = ''al'', id_agent_id = ''agt_1'', id_role = Admin, id_recovery_generation = 1\<rparr>"

lemma ascii_utf8_length:
  "list_all (\<lambda>c. (of_char c :: nat) < 128) s \<Longrightarrow> length (utf8 (js s)) = length s"
proof (induction s)
  case (Cons c s)
  have u: "unat (word_of_nat (of_char c) :: code_unit) = of_char c"
    using Cons.prems by (simp add: unat_of_nat take_bit_nat_eq_self)
  show ?case using Cons u
    by (simp add: utf8_def utf8_nats_def js_def is_high_def is_low_def utf8_point.simps)
qed (simp add: utf8_def utf8_nats_def js_def)

lemma sample_hash:
  "list_all (\<lambda>c. (of_char c :: nat) < 128) s \<Longrightarrow>
   sha256_hex sample_env s = concat (replicate 32 (hex_byte (word_of_nat (length s))))"
  by (simp add: sha256_hex_def sample_env_def ascii_utf8_length map_replicate_const[symmetric])

lemma concat_replicate_32: "concat (replicate 32 xs) = xs @ concat (replicate 31 xs)"
  by (simp add: numeral_eq_Suc)

lemma sample_hash_differs: "sha256_hex sample_env ''tok'' \<noteq> sha256_hex sample_env ''token''"
proof -
  have "hex_byte 3 = ''03''" "hex_byte 5 = ''05''" by (simp_all add: hex_byte_def hex_char_def)
  then show ?thesis by (simp add: sample_hash concat_replicate_32)
qed

lemma sample_bearer: "bearer_token (Some ''Bearer token'') = ''token''"
proof -
  have "char_of (98 :: nat) = CHR ''b''" by code_simp
  then show ?thesis
    by (simp add: bearer_token_def strip_bearer_def ascii_lower_def js_space_def upper_alpha_def Let_def less_eq_char_def)
qed

lemma sample_request_org: "request_org (Some ''acme'') (Some ''hosted'') None = ''acme''"
  by (simp add: request_org_def deployment_org_allows_def truthy_str_def org_re_def Let_def slug_def lower_alnum_def
      less_eq_char_def)

lemma sample3_select:
  "select_handle sample3 ''acme'' ''al'' =
     Some (sample_handle\<lparr>hn_recovery_hash := Some sample_proof_hash, hn_recovery_generation := 1\<rparr>)"
  by (simp add: select_handle_def sample3_def sample_handle_def new_handle_def sample_invite_def new_invite_def)

lemma sample3_authenticates: "authenticate_request sample_env sample3 sample_req = Some sample_id"
proof -
  have "authenticated_handle sample_env sample3 ''acme'' ''al'' ''token'' = Some (''agt_1'', Admin, 1)"
    unfolding authenticated_handle_def sample3_select
    by (simp add: sample_handle_def new_handle_def sample_invite_def new_invite_def sample_token_hash_def)
  then show ?thesis
    using sample_bearer sample_request_org
    by (simp add: authenticate_request_def sample_req_def sample_id_def) (simp add: sample_env_def)
qed

subsection \<open>The redemption of its proof\<close>


definition sample_redeem :: redeem_request where
  "sample_redeem = \<lparr>rm_org = ''acme'', rm_handle = ''al'', rm_generation = 1, rm_current_proof = sample_proof,
     rm_operation_id = replicate 22 (CHR ''o''), rm_client_token_digest = replicate 64 (CHR ''b''),
     rm_client_public_id = ''act_'' @ replicate 16 (CHR ''b''), rm_successor_digest = replicate 64 (CHR ''c''),
     rm_successor_public_id = ''agr_'' @ replicate 16 (CHR ''c'')\<rparr>"

definition sample_redeem_body :: js_value where
  "sample_redeem_body = JObj [(''org'', JStr ''acme''), (''handle'', JStr ''al''), (''generation'', JNum 1),
     (''current_recovery_proof'', JStr sample_proof), (''operation_id'', JStr (rm_operation_id sample_redeem)),
     (''client_token_digest'', JStr (rm_client_token_digest sample_redeem)),
     (''client_public_id'', JStr (rm_client_public_id sample_redeem)),
     (''successor_recovery_digest'', JStr (rm_successor_digest sample_redeem)),
     (''successor_recovery_public_id'', JStr (rm_successor_public_id sample_redeem))]"

lemma length_neq_replicate: "length xs \<noteq> n \<Longrightarrow> xs \<noteq> replicate n c"
  by auto

lemma slug_samples: "org_re ''acme''" "handle_re ''al''"
  by code_simp+

lemma sample_redeem_parses: "json_body parse_redeem_request (Some sample_redeem_body) None = Some sample_redeem"
  by code_simp


definition sample_redeem_audit :: org_audit where
  "sample_redeem_audit = redeem_audit sample_req sample_redeem sample_proof_hash 6"

definition sample8 :: relay_db where
  "sample8 = sample7\<lparr>rd_handles := map (redeem_handle sample_redeem 6) (rd_handles sample7),
     rd_receipts := [new_receipt sample_redeem sample_proof_hash 6 (6 + RECEIPT_TTL_MS)],
     rd_evictions := [new_eviction sample_redeem 6],
     rd_events := rd_events sample7 @ [\<lparr>lr_id = 6, lr_audit = sample_redeem_audit\<rparr>], rd_next_event := 7\<rparr>"

lemma sample8_step: "redeem_batch sample_redeem sample_proof_hash sample_redeem_audit 6 (6 + RECEIPT_TTL_MS) sample7 = Some (sample8, 1, 1)"
proof -
  have ka: "oa_event_key sample_redeem_audit = Some (''recovery:acme:al:'' @ js_number_string 1 @ '':'' @ replicate 22 (CHR ''o''))"
    by (simp add: sample_redeem_audit_def redeem_audit_def sample_redeem_def)
  have o: "oa_org sample_redeem_audit = ''acme''"
    by (simp add: sample_redeem_audit_def redeem_audit_def audit_of_def sample_redeem_def)
  show ?thesis
  by (simp add: redeem_batch_def insert_receipt_def consumable_def enqueue_eviction_def receipt_of_def new_receipt_def new_eviction_def
     sample_redeem_def redeem_handle_def RECEIPT_TTL_MS_def receipt_key_def eviction_key_def sample_hold_def ka o
     sample1_def sample2_def sample3_def sample4_def sample5_def sample6_def sample7_def sample8_def sample_handle_def new_handle_def sample_simps table_simps ledger_simps)
qed


lemma sample7_select:
  "select_handle sample7 ''acme'' ''al'' =
     Some (sample_handle\<lparr>hn_recovery_hash := Some sample_proof_hash, hn_recovery_generation := 1\<rparr>)"
  by (simp add: select_handle_def sample7_def sample6_def sample5_def sample4_def sample3_def sample_handle_def new_handle_def
      sample_invite_def new_invite_def)

lemma sample7_no_receipt: "find_receipt sample7 sample_redeem now = None"
  by (simp add: find_receipt_def sample7_def sample6_def sample5_def sample4_def sample3_def sample2_def sample1_def empty_db_def)

lemma sample_redeem_ok:
  "\<exists>db' r. recovery_redeem sample_env (\<lambda>_. True) Commits Commits (\<lambda>_ _. True) sample_req (Some sample_redeem_body) 6
     sample7 sample7 (\<lambda>d. d) = (db', Ok r)"
proof -
  have v: "valid_public_ids sample_redeem" by code_simp
  have d: "deployment_org_allows (en_mode sample_env) (en_self_hosted_org sample_env) (rm_org sample_redeem)"
    using slug_samples by (simp add: deployment_org_allows_def sample_env_def sample_redeem_def)
  have f: "rm_org sample_redeem = ''acme''" "rm_handle sample_redeem = ''al''" "rm_generation sample_redeem = 1"
    "rm_current_proof sample_redeem = sample_proof" by (simp_all add: sample_redeem_def)
  have h: "sha256_hex sample_env sample_proof = sample_proof_hash" by (simp add: sample_proof_hash_def)
  have n: "sample_proof_hash \<noteq> []"
    by (simp add: sample_proof_hash_def sample_hash sample_proof_def list_all_iff hex_byte_def concat_replicate_32)
  have a: "redeem_audit sample_req sample_redeem sample_proof_hash 6 = sample_redeem_audit"
    by (simp add: sample_redeem_audit_def)
  show ?thesis
    using v d n
    by (simp add: recovery_redeem_def sample_redeem_parses f h Let_def a sample7_no_receipt sample7_select run_batch_def sample8_step
        truthy_str_def redeem_reply_def split: prod.splits)
qed


lemma sample8_reach:
  "reach relay_init (relay_step sample_platform) (sample8, sample_hist @ [ProofConsumed ''acme'' ''al'' 1])"
proof -
  have "reach relay_init (relay_step sample_platform) (sample8, sample_hist @ consumed_facts sample_redeem 1)"
    by (rule reach_step[OF sample7_reach]) (rule relay_step.step_redeem[OF sample8_step])
  then show ?thesis by (simp add: consumed_facts_def sample_redeem_def)
qed

subsection \<open>The properties at the samples\<close>

lemma invite_enrolls_once_witness:
  "distinct (enrolled_hashes sample_hist) \<and> InviteEnrolled ''h1'' ''acme'' ''al'' Admin \<in> set sample_hist \<and>
   (\<exists>h\<in>set (rd_handles sample7). handle_key h = (''acme'', ''al'') \<and> hn_role h = Admin)"
  using invite_enrolls_once[OF sample7_reach] by (auto simp: sample_hist_def)

lemma recovery_proof_once_witness:
  "ProofIssued ''acme'' ''al'' 1 \<in> set sample_hist \<and>
   (\<exists>h\<in>set (rd_handles sample8). handle_key h = (''acme'', ''al'') \<and> 1 < hn_recovery_generation h)"
  using recovery_proof_once[OF sample8_reach] by (auto simp: sample_hist_def)

lemma sample5_keys:
  "get_keys (\<lambda>_ _. True) sample_id sample_req ''al'' sample5 = (sample5, Ok (served_bundle sample_identity_row sample_key_row))"
  by (simp add: get_keys_def rate_limit_def stored_identity_row_def newest_key_def key_owned_def stable_sort_def sample5_def sample4_def sample3_def
      sample2_def sample1_def empty_db_def sample_identity_row_def sample_key_row_def sample_id_def)

lemma served_keys_verify_witness:
  "\<exists>t. encryption_key_transcript (sk_record (served_bundle sample_identity_row sample_key_row)) = Inr t \<and>
     kl_verify sample_platform (ir_identity_pub (sk_identity (served_bundle sample_identity_row sample_key_row))) t ''s''"
  using served_keys_verify[OF sample5_reach sample5_keys] by (simp add: served_bundle_def sample_key_row_def)

lemma published_identity_permanent_witness:
  "\<exists>b. get_keys (\<lambda>_ _. True) sample_id sample_req ''al'' sample7 = (sample7, Ok b) \<and>
     sk_identity b = sk_identity (served_bundle sample_identity_row sample_key_row)"
proof -
  have "(relay_step sample_platform)\<^sup>*\<^sup>* (sample5, sample_hist) (sample7, sample_hist)"
    using sample6_next sample7_next by (meson rtranclp.rtrancl_into_rtrancl rtranclp.rtrancl_refl)
  from published_identity_permanent[OF sample5_reach this sample5_keys] show ?thesis by blast
qed

lemma sample7_hold: "sample_hold \<in> set (rd_holds sample7)" "active_hold_of ''acme'' sample_hold"
  by (simp_all add: sample7_def active_hold_of_def sample_hold_def)

lemma readiness_always_valid_witness:
  "\<exists>r. get_retention_readiness (\<lambda>_ _. True) sample_id sample_req [] 7 sample7 = (sample7, Ok r) \<and> readiness_ok r"
proof -
  have "id_role sample_id = Admin" by (simp add: sample_id_def)
  moreover have "parse_evaluation_time (map snd (filter (\<lambda>p. fst p = ''evaluated_at'') [])) 7 = Some 7"
    by (simp add: parse_evaluation_time_def)
  ultimately show ?thesis
    using readiness_always_valid[OF sample7_reach, of sample_id "\<lambda>_ _. True" sample_req "[]" 7 7] by auto
qed


definition sample_hold_body :: js_value where
  "sample_hold_body = JObj [(''reason'', JStr ''again''), (''request_id'', JStr (replicate 36 (CHR ''a'')))]"

lemma one_active_hold_witness:
  "create_hold Commits (\<lambda>_ _. True) sample_id sample_req (Some sample_hold_body) [] 7 sample7 sample7 (\<lambda>d. d) =
     (sample7, Refuse 409 ''an audit legal hold is already active'')"
proof -
  have body: "json_body parse_hold_create (Some sample_hold_body) None =
      Some \<lparr>hc_reason = ''again'', hc_request_id = replicate 36 (CHR ''a'')\<rparr>"
    by code_simp
  have "read_hold_by_create_request sample7 (id_org sample_id) (replicate 36 (CHR ''a'')) = None"
    by (simp add: read_hold_by_create_request_def sample7_def sample_hold_def length_neq_replicate)
  moreover have "id_role sample_id = Admin" "id_org sample_id = ''acme''" by (simp_all add: sample_id_def)
  ultimately show ?thesis
    using one_active_hold[OF sample7_reach sample7_hold(1), of sample_id "\<lambda>_ _. True" sample_req, OF _ _ _ body] sample7_hold(2)
    by simp
qed

definition sample_policy_body :: js_value where
  "sample_policy_body = JObj [(''event_retention_days'', JNum 90), (''expected_version'', JNum 1),
     (''request_id'', JStr (replicate 36 (CHR ''r'')))]"

lemma retention_policy_frozen_witness:
  "\<exists>db' current. put_retention_policy Commits (\<lambda>_ _. True) sample_id sample_req (Some sample_policy_body) 8 sample7 sample7 (\<lambda>d. d) =
     (db', Ok (PolicyChanged current)) \<and> pj_version current = 1 \<and> select_policy db' ''acme'' = Some sample_policy"
proof -
  have body: "json_body parse_policy_update (Some sample_policy_body) None =
      Some \<lparr>pu_event_retention_days = 90, pu_expected_version = 1, pu_request_id = replicate 36 (CHR ''r'')\<rparr>"
    by code_simp
  have i: "id_role sample_id = Admin" "id_org sample_id = ''acme''" by (simp_all add: sample_id_def)
  have p: "select_policy sample7 (id_org sample_id) = Some sample_policy"
    by (simp add: i select_policy_def sample7_def sample6_def sample_policy_def)
  have "read_policy_request sample7 (id_org sample_id) (replicate 36 (CHR ''r'')) = None"
    by (simp add: read_policy_request_def sample7_def sample6_def policy_request_key_def length_neq_replicate)
  then show ?thesis
    using retention_policy_frozen[OF sample7_reach p] body i by (fastforce simp: sample_policy_def)
qed



lemma sample_rotates:
  "rotate_token sample_env Commits (\<lambda>_ _. True) sample_id sample_req ''tok'' sample3 =
     (sample3\<lparr>rd_handles := [(sample_handle\<lparr>hn_recovery_hash := Some sample_proof_hash, hn_recovery_generation := 1\<rparr>)
        \<lparr>hn_token_hash := sha256_hex sample_env ''tok''\<rparr>]\<rparr>, Ok ''tok'')"
proof -
  have b: "bearer_token (rh_authorization sample_req) = ''token''" using sample_bearer by (simp add: sample_req_def)
  have "id_org sample_id = ''acme''" "id_handle sample_id = ''al''" by (simp_all add: sample_id_def)
  then show ?thesis
    by (simp add: rotate_token_def rate_limit_def b Let_def run_batch_def rotate_batch_def holds_token_def sql_update_def sql_count_def
        sample3_def sample_handle_def new_handle_def sample_invite_def new_invite_def sample_token_hash_def)
qed

lemma rotation_replaces_token_witness:
  "authenticate_request sample_env (fst (rotate_token sample_env Commits (\<lambda>_ _. True) sample_id sample_req ''tok'' sample3)) sample_req = None"
proof -
  have "bearer_token (rh_authorization sample_req) = ''token''" using sample_bearer by (simp add: sample_req_def)
  then show ?thesis
    using rotation_replaces_token[OF sample3_reach sample3_authenticates sample_rotates] sample_hash_differs
    by (simp add: sample_rotates)
qed



lemma sample_invite_answered:
  "\<exists>db' tok meta. post_invites sample_env Commits (\<lambda>_ _. True) sample_id sample_req (Some (JObj [])) ''fresh'' 3 sample3 =
     (db', Ok (tok, meta))"
proof -
  have body: "json_body parse_create_invite (Some (JObj [])) None =
      Some \<lparr>cr_role = Member, cr_description = [], cr_expires_in_days = DEFAULT_ORG_INVITE_EXPIRY_DAYS\<rparr>"
    by code_simp
  have i: "id_role sample_id = Admin" by (simp add: sample_id_def)
  have "sha256_hex sample_env ''fresh'' \<noteq> ''h1''"
  proof -
    have "hd (sha256_hex sample_env ''fresh'') = CHR ''0''"
      by (simp add: sample_hash hex_byte_def hex_char_def concat_replicate_32)
    then show ?thesis by auto
  qed
  then show ?thesis
    by (simp add: post_invites_def rate_limit_def require_admin_def require_org_admin_def i body create_invite_def Let_def run_batch_def create_invite_batch_def
      audit_of_def sample1_def sample2_def sample3_def sample_simps table_simps ledger_simps)
qed


lemma mutations_are_audited_witness:
  "\<exists>db' a. audited a sample3 db' \<and> oa_event a = OrgInviteIssue \<and> oa_org a = ''acme'' \<and> oa_actor a = ''al''"
proof -
  obtain db' tok meta where "post_invites sample_env Commits (\<lambda>_ _. True) sample_id sample_req (Some (JObj [])) ''fresh'' 3 sample3 =
     (db', Ok (tok, meta))" using sample_invite_answered by blast
  moreover have "id_org sample_id = ''acme''" "id_handle sample_id = ''al''" by (simp_all add: sample_id_def)
  ultimately show ?thesis using conjunct1[OF mutations_are_audited[OF sample3_reach]] by metis
qed

end
