(* ===== verification/Resumption.thy ===== *)
theory Resumption
  imports Prelude
begin

text \<open>
  Programs that share a state. A program is a sequence of atomic actions, each of which sees
  the state the others left behind (a resumption); several programs run by interleaving
  their actions, and any of them may crash between two actions. \<open>keeps\<close> is the rely and
  guarantee judgement: from a state, under any interference that is a \<open>guar\<close> step, every
  action of the program is one as well and its result satisfies a postcondition.
\<close>

datatype ('s, 'a) prog = Return 'a | Act "'s \<Rightarrow> 's \<times> ('s, 'a) prog"

primrec bindp :: "('s, 'a) prog \<Rightarrow> ('a \<Rightarrow> ('s, 'b) prog) \<Rightarrow> ('s, 'b) prog" where
  "bindp (Return x) k = k x"
| "bindp (Act f) k = Act (\<lambda>s. map_prod id (\<lambda>p. bindp p k) (f s))"

text \<open>The program on its own.\<close>

primrec run_prog :: "('s, 'a) prog \<Rightarrow> 's \<Rightarrow> 's \<times> 'a" where
  "run_prog (Return x) s = (s, x)"
| "run_prog (Act f) s = (case map_prod id run_prog (f s) of (s', r) \<Rightarrow> r s')"

definition act :: "('s \<Rightarrow> 's \<times> 'a) \<Rightarrow> ('s, 'a) prog" where
  "act f = Act (\<lambda>s. map_prod id Return (f s))"

definition reads :: "('s \<Rightarrow> 'a) \<Rightarrow> ('s, 'a) prog" where
  "reads g = act (\<lambda>s. (s, g s))"

text \<open>Programs that may fail: an error ends the rest.\<close>

definition and_then :: "('s, 'e + 'a) prog \<Rightarrow> ('a \<Rightarrow> ('s, 'e + 'b) prog) \<Rightarrow> ('s, 'e + 'b) prog" where
  "and_then m k = bindp m (\<lambda>r. case r of Inl e \<Rightarrow> Return (Inl e) | Inr x \<Rightarrow> k x)"

definition succeed :: "'a \<Rightarrow> ('s, 'e + 'a) prog" where "succeed x = Return (Inr x)"
definition raise :: "'e \<Rightarrow> ('s, 'e + 'a) prog" where "raise e = Return (Inl e)"
definition require :: "bool \<Rightarrow> 'e \<Rightarrow> ('s, 'e + unit) prog" where
  "require b e = (if b then succeed () else raise e)"

fun each :: "('x \<Rightarrow> ('s, 'e + 'a) prog) \<Rightarrow> 'x list \<Rightarrow> ('s, 'e + 'a list) prog" where
  "each f [] = succeed []"
| "each f (x # xs) = and_then (f x) (\<lambda>y. and_then (each f xs) (\<lambda>ys. succeed (y # ys)))"

subsection \<open>Running alone\<close>

lemma run_bindp [simp]: "run_prog (bindp p k) s = (case run_prog p s of (s', x) \<Rightarrow> run_prog (k x) s')"
proof (induction p arbitrary: s)
  case (Act f)
  obtain s' p where f: "f s = (s', p)" by (cases "f s")
  then have "(s', p) \<in> range f" by (metis rangeI)
  then show ?case using Act[of "(s', p)" p s'] f by simp
qed simp

lemma run_act [simp]: "run_prog (act f) s = f s"
  by (cases "f s") (simp add: act_def)

lemma run_reads [simp]: "run_prog (reads g) s = (s, g s)"
  by (simp add: reads_def)

lemma run_and_then [simp]:
  "run_prog (and_then m k) s = (case run_prog m s of (s', Inl e) \<Rightarrow> (s', Inl e) | (s', Inr x) \<Rightarrow> run_prog (k x) s')"
  by (simp add: and_then_def split: prod.splits sum.splits)

lemma run_results [simp]:
  "run_prog (succeed x) s = (s, Inr x)" "run_prog (raise e) s = (s, Inl e)"
  "run_prog (require b e) s = (s, if b then Inr () else Inl e)"
  by (simp_all add: succeed_def raise_def require_def)

text \<open>The states that a process may leave behind when it dies while the program runs.\<close>

primrec visits :: "('s, 'a) prog \<Rightarrow> 's \<Rightarrow> 's set" where
  "visits (Return x) s = {s}"
| "visits (Act f) s = insert s (case map_prod id visits (f s) of (s', v) \<Rightarrow> v s')"

lemma visits_start [simp]: "s \<in> visits p s"
  by (cases p) simp_all

lemma visits_end: "fst (run_prog p s) \<in> visits p s"
proof (induction p arbitrary: s)
  case (Act f)
  obtain s' p where f: "f s = (s', p)" by (cases "f s")
  then have "(s', p) \<in> range f" by (metis rangeI)
  then show ?case using Act[of "(s', p)" p s'] f by simp
qed simp

lemma visits_bindp: "visits (bindp p k) s = visits p s \<union> (case run_prog p s of (s', x) \<Rightarrow> visits (k x) s')"
proof (induction p arbitrary: s)
  case (Act f)
  obtain s' p where f: "f s = (s', p)" by (cases "f s")
  then have "(s', p) \<in> range f" by (metis rangeI)
  then show ?case using Act[of "(s', p)" p s'] f by simp
qed auto

lemma visits_act [simp]: "visits (act f) s = {s, fst (f s)}"
  by (cases "f s") (simp add: act_def)

lemma visits_reads [simp]: "visits (reads g) s = {s}"
  by (simp add: reads_def)

lemma visits_results [simp]: "visits (succeed x) s = {s}" "visits (raise e) s = {s}" "visits (require b e) s = {s}"
  by (simp_all add: succeed_def raise_def require_def)

lemma visits_and_then:
  "visits (and_then m k) s = visits m s \<union> (case run_prog m s of (s', Inl _) \<Rightarrow> {} | (s', Inr x) \<Rightarrow> visits (k x) s')"
  using visits_end[of m s] by (auto simp: and_then_def visits_bindp split: prod.splits sum.splits)

lemma run_each: "list_all2 (\<lambda>x y. run_prog (f x) s = (s, Inr y)) xs ys \<Longrightarrow> run_prog (each f xs) s = (s, Inr ys)"
  by (induction rule: list_all2_induct) simp_all

subsection \<open>A program on a part of the state\<close>

primrec zoom :: "('s \<Rightarrow> 't) \<Rightarrow> ('t \<Rightarrow> 's \<Rightarrow> 's) \<Rightarrow> ('t, 'a) prog \<Rightarrow> ('s, 'a) prog" where
  "zoom get put (Return x) = Return x"
| "zoom get put (Act f) = Act (\<lambda>s. map_prod (\<lambda>t. put t s) (zoom get put) (f (get s)))"

locale part_of =
  fixes get :: "'s \<Rightarrow> 't" and put :: "'t \<Rightarrow> 's \<Rightarrow> 's"
  assumes get_put: "get (put t s) = t" and put_get: "put (get s) s = s" and put_put: "put t' (put t s) = put t' s"
begin

lemma run_zoom: "run_prog (zoom get put p) s = (case run_prog p (get s) of (t, x) \<Rightarrow> (put t s, x))"
proof (induction p arbitrary: s)
  case (Return x)
  then show ?case by (simp add: put_get)
next
  case (Act f)
  obtain t p where f: "f (get s) = (t, p)" by fastforce
  then have "(t, p) \<in> range f" by (metis rangeI)
  then show ?case using Act[of "(t, p)" p "put t s"] f by (simp add: get_put put_put split: prod.splits)
qed

end

text \<open>A program that succeeds when it runs alone.\<close>

definition solo :: "('a \<Rightarrow> 's \<Rightarrow> bool) \<Rightarrow> ('s, 'e + 'a) prog \<Rightarrow> 's \<Rightarrow> bool" where
  "solo R p s \<longleftrightarrow> (\<exists>s' x. run_prog p s = (s', Inr x) \<and> R x s')"

lemma solo_and_then:
  "solo R m s \<Longrightarrow> (\<And>x s'. R x s' \<Longrightarrow> solo R' (k x) s') \<Longrightarrow> solo R' (and_then m k) s"
  by (fastforce simp: solo_def)

lemma solo_succeed: "R x s \<Longrightarrow> solo R (succeed x) s"
  by (simp add: solo_def)

lemma solo_require: "b \<Longrightarrow> R () s \<Longrightarrow> solo R (require b e) s"
  by (simp add: solo_def)

lemma solo_reads: "g s = Inr x \<Longrightarrow> R x s \<Longrightarrow> solo R (reads g) s"
  by (simp add: solo_def)

lemma solo_act: "snd (f s) = Inr x \<Longrightarrow> R x (fst (f s)) \<Longrightarrow> solo R (act f) s"
  by (cases "f s") (simp add: solo_def)

lemma solo_weaken: "solo R p s \<Longrightarrow> (\<And>x s'. R x s' \<Longrightarrow> R' x s') \<Longrightarrow> solo R' p s"
  unfolding solo_def by blast

lemma solo_each:
  assumes "\<And>x before s. (\<exists>rest. xs = before @ x # rest) \<Longrightarrow> I before s \<Longrightarrow> solo (\<lambda>_. I (before @ [x])) (f x) s" "I [] s"
  shows "solo (\<lambda>_. I xs) (each f xs) s"
proof -
  have "I before s \<Longrightarrow> xs = before @ zs \<Longrightarrow> solo (\<lambda>_. I xs) (each f zs) s" for before zs s
  proof (induction zs arbitrary: before s)
    case Nil
    then show ?case by (simp add: solo_succeed)
  next
    case (Cons z zs)
    have "solo (\<lambda>_. I (before @ [z])) (f z) s" by (rule assms(1)) (use Cons.prems in auto)
    then show ?case unfolding each.simps
      by (rule solo_and_then) (use Cons in \<open>auto intro!: solo_and_then[OF Cons.IH] solo_succeed\<close>)
  qed
  from this[of "[]" s xs] show ?thesis using assms(2) by simp
qed

subsection \<open>Interference\<close>

inductive keeps ::
  "('s \<Rightarrow> bool) \<Rightarrow> ('s \<Rightarrow> 's \<Rightarrow> bool) \<Rightarrow> ('s \<Rightarrow> 's \<Rightarrow> bool) \<Rightarrow> ('a \<Rightarrow> 's \<Rightarrow> bool) \<Rightarrow> ('s, 'a) prog \<Rightarrow> 's \<Rightarrow> bool"
  for good rely guar Q where
  keeps_return: "(\<And>s'. rely s s' \<Longrightarrow> good s' \<Longrightarrow> Q x s') \<Longrightarrow> keeps good rely guar Q (Return x) s"
| keeps_act: "(\<And>s' t p. rely s s' \<Longrightarrow> good s' \<Longrightarrow> f s' = (t, p) \<Longrightarrow> guar s' t \<and> good t \<and> keeps good rely guar Q p t)
    \<Longrightarrow> keeps good rely guar Q (Act f) s"

inductive_cases keeps_returnE: "keeps good rely guar Q (Return x) s"
inductive_cases keeps_actE: "keeps good rely guar Q (Act f) s"

text \<open>
  Several programs, each with a tag of its own: a new one starts, one takes its next action,
  one crashes or has ended.
\<close>

inductive conc ::
  "('t \<times> ('s, 'a) prog) set \<Rightarrow> 's \<times> 't set \<times> ('t \<times> ('s, 'a) prog) list \<Rightarrow> 's \<times> 't set \<times> ('t \<times> ('s, 'a) prog) list \<Rightarrow> bool"
  for P where
  conc_start: "(t, p) \<in> P \<Longrightarrow> t \<notin> used \<Longrightarrow> conc P (s, used, ps) (s, insert t used, (t, p) # ps)"
| conc_turn: "f s = (s', p) \<Longrightarrow> conc P (s, used, xs @ (t, Act f) # ys) (s', used, xs @ (t, p) # ys)"
| conc_end: "conc P (s, used, xs @ (t, p) # ys) (s, used, xs @ ys)"

lemma conc_alone:
  assumes "(t, p) \<in> P" "t \<notin> used" "run_prog p s = (s', x)"
  shows "(conc P)\<^sup>*\<^sup>* (s, used, []) (s', insert t used, [])"
proof -
  have turns: "(conc P)\<^sup>*\<^sup>* (s, u, [(t, p)]) (fst (run_prog p s), u, [(t, Return (snd (run_prog p s)))])" for s u
  proof (induction p arbitrary: s)
    case (Act f)
    obtain s1 q where f: "f s = (s1, q)" by (cases "f s")
    then have "(s1, q) \<in> range f" by (metis rangeI)
    then have "(conc P)\<^sup>*\<^sup>* (s1, u, [(t, q)]) (fst (run_prog q s1), u, [(t, Return (snd (run_prog q s1)))])"
      by (rule Act[of "(s1, q)" q]) simp
    moreover have "conc P (s, u, [] @ (t, Act f) # []) (s1, u, [] @ (t, q) # [])" by (rule conc_turn[where f = f, OF f])
    ultimately show ?case by (simp add: f converse_rtranclp_into_rtranclp)
  qed simp
  have "conc P (s, used, []) (s, insert t used, [(t, p)])" by (rule conc_start[OF assms(1,2)])
  then have "(conc P)\<^sup>*\<^sup>* (s, used, []) (s', insert t used, [(t, Return x)])"
    using turns[of s "insert t used"] assms(3) by (simp add: converse_rtranclp_into_rtranclp)
  moreover have "conc P (s', insert t used, [] @ (t, Return x) # []) (s', insert t used, [] @ [])" by (rule conc_end)
  ultimately show ?thesis by simp
qed

text \<open>A configuration in which every program keeps its guarantee, and unused tags are fresh.\<close>

definition side_by_side ::
  "('s \<Rightarrow> bool) \<Rightarrow> ('t \<Rightarrow> 's \<Rightarrow> 's \<Rightarrow> bool) \<Rightarrow> ('t \<Rightarrow> 's \<Rightarrow> 's \<Rightarrow> bool) \<Rightarrow> ('t \<Rightarrow> 's \<Rightarrow> bool)
   \<Rightarrow> ('t \<Rightarrow> 'a \<Rightarrow> 's \<Rightarrow> bool) \<Rightarrow> 's \<times> 't set \<times> ('t \<times> ('s, 'a) prog) list \<Rightarrow> bool" where
  "side_by_side good rely guar fresh Q c \<longleftrightarrow> (case c of (s, used, ps) \<Rightarrow>
     good s \<and> distinct (map fst ps) \<and> fst ` set ps \<subseteq> used \<and> (\<forall>t. t \<notin> used \<longrightarrow> fresh t s) \<and>
     (\<forall>(t, p)\<in>set ps. keeps good (rely t) (guar t) (Q t) p s))"

text \<open>
  Each program relies on what the others guarantee. \<open>fresh t\<close> is what a program may assume
  of a tag that nobody used before it starts.
\<close>

locale interference =
  fixes good :: "'s \<Rightarrow> bool" and rely guar :: "'t \<Rightarrow> 's \<Rightarrow> 's \<Rightarrow> bool" and fresh :: "'t \<Rightarrow> 's \<Rightarrow> bool"
  assumes rely_refl: "rely t s s"
    and rely_trans: "rely t s s' \<Longrightarrow> rely t s' s'' \<Longrightarrow> rely t s s''"
    and guar_rely: "guar t s s' \<Longrightarrow> t \<noteq> u \<Longrightarrow> rely u s s'"
    and fresh_rely: "fresh t s \<Longrightarrow> rely t s s' \<Longrightarrow> fresh t s'"
begin

lemma keeps_later:
  "keeps good (rely t) (guar t) Q p s \<Longrightarrow> rely t s s' \<Longrightarrow> keeps good (rely t) (guar t) Q p s'"
proof (induction arbitrary: s' rule: keeps.induct)
  case (keeps_return s x)
  show ?case
    by (rule keeps.keeps_return) (use keeps_return rely_trans in blast)
next
  case (keeps_act s f)
  show ?case
  proof (rule keeps.keeps_act)
    fix u v p assume a: "rely t s' u" "good u" "f u = (v, p)"
    have "rely t s u" by (rule rely_trans[OF keeps_act.prems a(1)])
    from keeps_act.IH[OF this a(2,3)] show "guar t u v \<and> good v \<and> keeps good (rely t) (guar t) Q p v" by blast
  qed
qed

lemma keeps_bindp:
  "keeps good (rely t) (guar t) Q p s \<Longrightarrow>
   (\<And>x s'. good s' \<Longrightarrow> Q x s' \<Longrightarrow> keeps good (rely t) (guar t) Q' (k x) s')
   \<Longrightarrow> good s \<Longrightarrow> keeps good (rely t) (guar t) Q' (bindp p k) s"
proof (induction rule: keeps.induct)
  case (keeps_return s x)
  then show ?case using rely_refl by simp
next
  case (keeps_act s f)
  show ?case unfolding bindp.simps
  proof (rule keeps.keeps_act)
    fix s' v q
    assume a: "rely t s s'" "good s'" "map_prod id (\<lambda>p. bindp p k) (f s') = (v, q)"
    then obtain p where p: "f s' = (v, p)" "q = bindp p k" by (cases "f s'") auto
    have "guar t s' v" "good v" using keeps_act.IH[OF a(1,2) p(1)] by blast+
    moreover from this have "keeps good (rely t) (guar t) Q' (bindp p k) v"
      using keeps_act.IH[OF a(1,2) p(1)] keeps_act.prems(1) by blast
    ultimately show "guar t s' v \<and> good v \<and> keeps good (rely t) (guar t) Q' q v" using p(2) by simp
  qed
qed

lemma keeps_act_single:
  fixes f :: "'s \<Rightarrow> 's \<times> 'a"
  assumes "\<And>s' v x. rely t s s' \<Longrightarrow> good s' \<Longrightarrow> f s' = (v, x) \<Longrightarrow> guar t s' v \<and> good v"
    "\<And>s' v x u. rely t s s' \<Longrightarrow> good s' \<Longrightarrow> f s' = (v, x) \<Longrightarrow> rely t v u \<Longrightarrow> good u \<Longrightarrow> Q x u"
  shows "keeps good (rely t) (guar t) Q (act f) s"
  unfolding act_def
proof (rule keeps.keeps_act)
  fix s' v and p :: "('s, 'a) prog"
  assume a: "rely t s s'" "good s'" "map_prod id Return (f s') = (v, p)"
  then obtain x where x: "f s' = (v, x)" "p = Return x" by (cases "f s'") auto
  show "guar t s' v \<and> good v \<and> keeps good (rely t) (guar t) Q p v"
    using assms(1)[OF a(1,2) x(1)] assms(2)[OF a(1,2) x(1)] x(2) by (auto intro: keeps.keeps_return)
qed

lemma keeps_weaken:
  "keeps good (rely t) (guar t) Q p s \<Longrightarrow> (\<And>x s'. good s' \<Longrightarrow> Q x s' \<Longrightarrow> Q' x s') \<Longrightarrow>
   keeps good (rely t) (guar t) Q' p s"
proof (induction rule: keeps.induct)
  case (keeps_return s x)
  then show ?case by (auto intro: keeps.keeps_return)
next
  case (keeps_act s f)
  show ?case
    by (rule keeps.keeps_act) (use keeps_act in blast)
qed

lemma keeps_and_then:
  assumes "keeps good (rely t) (guar t) Q m s" "good s"
    "\<And>x s'. good s' \<Longrightarrow> Q (Inr x) s' \<Longrightarrow> keeps good (rely t) (guar t) Q' (k x) s'"
    "\<And>e s'. good s' \<Longrightarrow> Q (Inl e) s' \<Longrightarrow> keeps good (rely t) (guar t) Q' (Return (Inl e)) s'"
  shows "keeps good (rely t) (guar t) Q' (and_then m k) s"
  unfolding and_then_def
  by (rule keeps_bindp[OF assms(1) _ assms(2)]) (auto split: sum.split intro: assms(3,4))

text \<open>Programs that keep their guarantees run side by side.\<close>

lemma conc_side_by_side:
  assumes "conc P c c'" "side_by_side good rely guar fresh Q c"
    and P: "\<And>t p s. (t, p) \<in> P \<Longrightarrow> good s \<Longrightarrow> fresh t s \<Longrightarrow> keeps good (rely t) (guar t) (Q t) p s"
  shows "side_by_side good rely guar fresh Q c'"
  using assms(1)
proof cases
  case (conc_start t p used s ps)
  then show ?thesis using assms(2) P by (auto simp: side_by_side_def)
next
  case (conc_turn f s s' p used xs t ys)
  have k: "keeps good (rely t) (guar t) (Q t) (Act f) s" and g: "good s"
    using assms(2) conc_turn by (auto simp: side_by_side_def)
  have own: "guar t s s' \<and> good s' \<and> keeps good (rely t) (guar t) (Q t) p s'"
    using k by (rule keeps_actE) (use rely_refl g conc_turn(3) in blast)
  have "keeps good (rely u) (guar u) (Q u) q s'" if "(u, q) \<in> set xs \<union> set ys" for u q
  proof (rule keeps_later)
    show "keeps good (rely u) (guar u) (Q u) q s" using that assms(2) conc_turn by (auto simp: side_by_side_def)
    have "u \<in> fst ` (set xs \<union> set ys)" using that by force
    moreover have "t \<notin> fst ` (set xs \<union> set ys)" using assms(2) conc_turn(1) by (simp add: side_by_side_def image_Un)
    ultimately have "t \<noteq> u" by blast
    then show "rely u s s'" by (rule guar_rely[OF conjunct1[OF own]])
  qed
  moreover have "fresh u s'" if "u \<notin> used" for u
  proof -
    have "t \<noteq> u" "fresh u s" using that assms(2) conc_turn(1) by (auto simp: side_by_side_def)
    then show ?thesis using fresh_rely guar_rely[OF conjunct1[OF own]] by blast
  qed
  ultimately show ?thesis using assms(2) conc_turn own by (auto simp: side_by_side_def)
next
  case (conc_end s used xs t p ys)
  then show ?thesis using assms(2) by (auto simp: side_by_side_def)
qed

lemma conc_guarantee:
  assumes "conc P c c'" "side_by_side good rely guar fresh Q c"
  shows "fst c' = fst c \<or> (\<exists>t. guar t (fst c) (fst c'))"
  using assms(1)
proof cases
  case (conc_turn f s s' p used xs t ys)
  have k: "keeps good (rely t) (guar t) (Q t) (Act f) s" and g: "good s"
    using assms(2) conc_turn by (auto simp: side_by_side_def)
  have "guar t s s'" using k by (rule keeps_actE) (use rely_refl g conc_turn(3) in blast)
  then show ?thesis using conc_turn by auto
qed simp_all

end

text \<open>A postcondition on success only.\<close>

definition on_ok :: "('a \<Rightarrow> 's \<Rightarrow> bool) \<Rightarrow> 'e + 'a \<Rightarrow> 's \<Rightarrow> bool" where
  "on_ok R r s \<longleftrightarrow> (case r of Inl _ \<Rightarrow> True | Inr x \<Rightarrow> R x s)"

lemma on_ok_simps [simp]: "on_ok R (Inl e) s" "on_ok R (Inr x) s = R x s"
  by (simp_all add: on_ok_def)

text \<open>The symmetric case: one relation, transitive over a program's own actions too.\<close>

locale shared_guarantee =
  fixes good :: "'s \<Rightarrow> bool" and step :: "'s \<Rightarrow> 's \<Rightarrow> bool"
  assumes step_refl: "step s s" and step_trans: "step s s' \<Longrightarrow> step s' s'' \<Longrightarrow> step s s''"

sublocale shared_guarantee \<subseteq> interference good "\<lambda>_ :: nat. step" "\<lambda>_. step" "\<lambda>_ _. True"
proof unfold_locales
  show "step s s" for s by (rule step_refl)
  show "step s s''" if "step s s'" "step s' s''" for s s' s'' by (rule step_trans[OF that])
qed

context shared_guarantee begin

lemma keeps_trail:
  "keeps good step step Q p s \<Longrightarrow> keeps good step step (\<lambda>x s'. step s s' \<and> Q x s') p s"
proof (induction rule: keeps.induct)
  case (keeps_return s x)
  then show ?case by (auto intro: keeps.keeps_return)
next
  case (keeps_act s f)
  show ?case
  proof (rule keeps.keeps_act)
    fix s' v p assume a: "step s s'" "good s'" "f s' = (v, p)"
    have i: "step s' v" "good v" "keeps good step step (\<lambda>x u. step v u \<and> Q x u) p v"
      using keeps_act.IH[OF a] by blast+
    have "step s v" by (rule step_trans[OF a(1) i(1)])
    then have "keeps good step step (\<lambda>x u. step s u \<and> Q x u) p v"
      by (intro keeps_weaken[OF i(3)]) (blast intro: step_trans)
    then show "step s' v \<and> good v \<and> keeps good step step (\<lambda>x u. step s u \<and> Q x u) p v" using i by blast
  qed
qed

lemma keeps_run:
  "keeps good step step Q p s \<Longrightarrow> good s \<Longrightarrow> run_prog p s = (t, x) \<Longrightarrow> step s t \<and> good t \<and> Q x t"
proof (induction arbitrary: t x rule: keeps.induct)
  case (keeps_return s y)
  then show ?case using step_refl by simp
next
  case (keeps_act s f)
  obtain u p where f: "f s = (u, p)" by (cases "f s")
  note ih = keeps_act.IH[OF step_refl keeps_act.prems(1) f]
  have "step u t \<and> good t \<and> Q x t" using ih keeps_act.prems(2) f by simp
  then show ?case using ih step_trans by blast
qed

text \<open>Rules for programs that may fail, read from their first action on.\<close>

lemma does_and_then:
  assumes "keeps good step step (on_ok R) m s" "good s"
    "\<And>x s'. step s s' \<Longrightarrow> good s' \<Longrightarrow> R x s' \<Longrightarrow> keeps good step step (on_ok R') (k x) s'"
  shows "keeps good step step (on_ok R') (and_then m k) s"
  by (rule keeps_and_then[OF keeps_trail[OF assms(1)] assms(2)]) (auto intro: assms(3) keeps.keeps_return)

lemma does_succeed: "(\<And>s'. step s s' \<Longrightarrow> good s' \<Longrightarrow> R x s') \<Longrightarrow> keeps good step step (on_ok R) (succeed x) s"
  unfolding succeed_def by (rule keeps.keeps_return) simp

lemma does_raise: "keeps good step step (on_ok R) (raise e) s"
  unfolding raise_def by (rule keeps.keeps_return) simp

lemma does_require: "keeps good step step (on_ok (\<lambda>_ _. b)) (require b e) s"
  unfolding require_def by (auto intro: does_succeed does_raise)

lemma does_act:
  assumes "\<And>s'. step s s' \<Longrightarrow> good s' \<Longrightarrow> step s' (fst (f s')) \<and> good (fst (f s'))"
    "\<And>s' x u. step s s' \<Longrightarrow> good s' \<Longrightarrow> snd (f s') = Inr x \<Longrightarrow> step (fst (f s')) u \<Longrightarrow> good u \<Longrightarrow> R x u"
  shows "keeps good step step (on_ok R) (act f) s"
  by (rule keeps_act_single) (use assms in \<open>force simp: on_ok_def split: sum.splits\<close>)+

lemma does_write:
  assumes "\<And>s'. step s s' \<Longrightarrow> good s' \<Longrightarrow> step s' (g s') \<and> good (g s')"
  shows "keeps good step step (on_ok (\<lambda>_ _. True)) (act (\<lambda>s. (g s, Inr ()))) s"
  by (rule does_act) (use assms in auto)

lemma does_reads:
  assumes "\<And>s' x u. step s s' \<Longrightarrow> good s' \<Longrightarrow> g s' = Inr x \<Longrightarrow> step s' u \<Longrightarrow> good u \<Longrightarrow> R x u"
  shows "keeps good step step (on_ok R) (reads g) s"
  unfolding reads_def by (rule does_act) (use assms step_refl in auto)

lemma does_weaken:
  "keeps good step step (on_ok R) p s \<Longrightarrow> (\<And>x s'. good s' \<Longrightarrow> R x s' \<Longrightarrow> R' x s') \<Longrightarrow> keeps good step step (on_ok R') p s"
  by (erule keeps_weaken) (simp add: on_ok_def split: sum.splits)

lemma does_each:
  assumes "\<And>x s'. x \<in> set xs \<Longrightarrow> step s s' \<Longrightarrow> good s' \<Longrightarrow> keeps good step step (on_ok (R x)) (f x) s'"
    and later: "\<And>x y s u. R x y s \<Longrightarrow> step s u \<Longrightarrow> R x y u" and "good s"
  shows "keeps good step step (on_ok (\<lambda>ys s. list_all2 (\<lambda>x y. R x y s) xs ys)) (each f xs) s"
  using assms(1,3)
proof (induction xs arbitrary: s)
  case Nil
  then show ?case by (auto intro: does_succeed)
next
  case (Cons x xs)
  show ?case unfolding each.simps
  proof (rule does_and_then[OF Cons.prems(1)])
    fix y s' assume s': "step s s'" "good s'" "R x y s'"
    show "keeps good step step (on_ok (\<lambda>ys s. list_all2 (\<lambda>x y. R x y s) (x # xs) ys)) (and_then (each f xs) (\<lambda>ys. succeed (y # ys))) s'"
    proof (rule does_and_then)
      show "keeps good step step (on_ok (\<lambda>ys s. list_all2 (\<lambda>x y. R x y s) xs ys)) (each f xs) s'"
        by (rule Cons.IH) (auto intro: Cons.prems(1) step_trans[OF s'(1)] s'(2))
      fix ys u assume u: "step s' u" "good u" "list_all2 (\<lambda>x y. R x y u) xs ys"
      have "list_all2 (\<lambda>x y. R x y v) xs ys" if "step u v" for v
        by (rule list_all2_mono[OF u(3)]) (rule later[OF _ that])
      then show "keeps good step step (on_ok (\<lambda>ys s. list_all2 (\<lambda>x y. R x y s) (x # xs) ys)) (succeed (y # ys)) u"
        by (intro does_succeed) (auto intro: later[OF s'(3)] step_trans[OF u(1)])
    qed (rule s'(2))
  qed (auto intro: step_refl Cons.prems(2))
qed

end

end
