(* ===== verification/FileLock.thy ===== *)
theory FileLock
  imports Resumption
begin

text \<open>
  The exclusive sidecar file that serializes updates of a store across processes,
  \<open>packages/cli/src/file-lock.ts\<close>, and an update of a store under it. A file that a process
  opened is known by the descriptor of its creator; the lock holds the owner token once it is
  written. Nobody removes another owner's lock, so a crash leaves it for explicit recovery.
\<close>

record 'd locked_store =
  ls_lock :: "(string \<times> string) option"
  ls_data :: 'd

datatype 'e lock_error = LockTimeout | OperationFailed 'e

text \<open>\<open>openSync(lockFile, "wx")\<close>, then the token through the descriptor.\<close>

definition open_lock :: "string \<Rightarrow> ('d locked_store, bool) prog" where
  "open_lock fd = act (\<lambda>s. if ls_lock s = None then (s\<lparr>ls_lock := Some (fd, [])\<rparr>, True) else (s, False))"

definition write_owner :: "string \<Rightarrow> string \<Rightarrow> ('d locked_store, unit) prog" where
  "write_owner fd owner = act (\<lambda>s. (s\<lparr>ls_lock := (case ls_lock s of
      Some (i, c) \<Rightarrow> if i = fd then Some (i, owner) else Some (i, c) | None \<Rightarrow> None)\<rparr>, ()))"

text \<open>The waiting loop; \<open>tries\<close> is how often it polls before its deadline has passed.\<close>

fun acquire_lock :: "string \<Rightarrow> nat \<Rightarrow> ('d locked_store, 'e lock_error + unit) prog" where
  "acquire_lock owner tries = bindp (open_lock owner) (\<lambda>opened.
     if opened then bindp (write_owner owner owner) (\<lambda>_. succeed ())
     else (case tries of 0 \<Rightarrow> raise LockTimeout | Suc n \<Rightarrow> acquire_lock owner n))"

declare acquire_lock.simps [simp del]

definition release_lock :: "string \<Rightarrow> ('d locked_store, unit) prog" where
  "release_lock owner = bindp (reads ls_lock) (\<lambda>l. case l of
      Some (i, c) \<Rightarrow> if c = owner then act (\<lambda>s. (s\<lparr>ls_lock := None\<rparr>, ())) else Return ()
    | None \<Rightarrow> Return ())"

text \<open>The lock is released on both paths; an error of the operation is the one reported.\<close>

definition with_file_lock ::
  "string \<Rightarrow> nat \<Rightarrow> ('d locked_store, 'e + 'a) prog \<Rightarrow> ('d locked_store, 'e lock_error + 'a) prog" where
  "with_file_lock owner tries operation = and_then (acquire_lock owner tries) (\<lambda>_.
     bindp operation (\<lambda>r. bindp (release_lock owner) (\<lambda>_.
       case r of Inl e \<Rightarrow> raise (OperationFailed e) | Inr x \<Rightarrow> succeed x)))"

text \<open>How the stores use it: read the file, compute, write the file.\<close>

definition read_then_write :: "('d \<Rightarrow> 'e + 'd \<times> 'a) \<Rightarrow> ('d locked_store, 'e + 'a) prog" where
  "read_then_write update = bindp (reads ls_data) (\<lambda>d. case update d of
     Inl e \<Rightarrow> raise e
   | Inr (d', x) \<Rightarrow> act (\<lambda>s. (s\<lparr>ls_data := d'\<rparr>, Inr x)))"

definition locked_update :: "string \<Rightarrow> nat \<Rightarrow> ('d \<Rightarrow> 'e + 'd \<times> 'a) \<Rightarrow> ('d locked_store, 'e lock_error + 'a) prog" where
  "locked_update owner tries update = with_file_lock owner tries (read_then_write update)"

subsection \<open>Alone\<close>

lemma run_release: "run_prog (release_lock o1) s =
  (if \<exists>i. ls_lock s = Some (i, o1) then (s\<lparr>ls_lock := None\<rparr>, ()) else (s, ()))"
  by (auto simp: release_lock_def split: option.splits)

lemma run_acquire_free:
  "ls_lock s = None \<Longrightarrow> run_prog (acquire_lock o1 n) s = (s\<lparr>ls_lock := Some (o1, o1)\<rparr>, Inr ())"
  by (simp add: acquire_lock.simps open_lock_def write_owner_def)

lemma run_acquire_held: "ls_lock s \<noteq> None \<Longrightarrow> run_prog (acquire_lock o1 n) s = (s, Inl LockTimeout)"
proof (induction n)
  case 0
  then show ?case by (subst acquire_lock.simps) (auto simp: open_lock_def)
next
  case (Suc n)
  then show ?case by (subst acquire_lock.simps) (auto simp: open_lock_def)
qed

lemma run_read_then_write:
  "run_prog (read_then_write f) s = (case f (ls_data s) of Inl e \<Rightarrow> (s, Inl e) | Inr (d', x) \<Rightarrow> (s\<lparr>ls_data := d'\<rparr>, Inr x))"
  by (simp add: read_then_write_def split: sum.splits prod.splits)

lemma locked_update_alone:
  "ls_lock s = None \<Longrightarrow> run_prog (locked_update o1 n f) s =
     (case f (ls_data s) of Inl e \<Rightarrow> (s, Inl (OperationFailed e)) | Inr (d', x) \<Rightarrow> (s\<lparr>ls_data := d'\<rparr>, Inr x))"
  by (simp add: locked_update_def with_file_lock_def run_acquire_free run_read_then_write run_release
      split: sum.splits prod.splits)

lemma locked_update_held:
  "ls_lock s \<noteq> None \<Longrightarrow> run_prog (locked_update o1 n f) s = (s, Inl LockTimeout)"
  by (simp add: locked_update_def with_file_lock_def run_acquire_held)

subsection \<open>Side by side\<close>

definition holds_lock :: "string \<Rightarrow> 'd locked_store \<Rightarrow> bool" where
  "holds_lock o1 s = (\<exists>c. ls_lock s = Some (o1, c))"

definition lock_rely :: "string \<Rightarrow> 'd locked_store \<Rightarrow> 'd locked_store \<Rightarrow> bool" where
  "lock_rely o1 s s' \<longleftrightarrow> (if holds_lock o1 s then s' = s else \<not> holds_lock o1 s')"

definition store_step :: "('d \<Rightarrow> 'e + 'd \<times> 'a) set \<Rightarrow> 'd \<Rightarrow> 'd \<Rightarrow> bool" where
  "store_step U d d' \<longleftrightarrow> (\<exists>f\<in>U. \<exists>x. f d = Inr (d', x))"

definition lock_guar :: "('d \<Rightarrow> 'e + 'd \<times> 'a) set \<Rightarrow> string \<Rightarrow> 'd locked_store \<Rightarrow> 'd locked_store \<Rightarrow> bool" where
  "lock_guar U o1 s s' \<longleftrightarrow> (\<forall>o2. o2 \<noteq> o1 \<longrightarrow> lock_rely o2 s s') \<and>
     (ls_data s' = ls_data s \<or> store_step U (ls_data s) (ls_data s'))"

text \<open>A lock file whose content is an owner token was created by that owner.\<close>

definition lock_good :: "'d locked_store \<Rightarrow> bool" where
  "lock_good s \<longleftrightarrow> (\<forall>i c. ls_lock s = Some (i, c) \<longrightarrow> c = [] \<or> c = i)"

interpretation file_lock: interference lock_good lock_rely "lock_guar U" "\<lambda>o1 s. \<not> holds_lock o1 s" for U
  by unfold_locales (auto simp: lock_rely_def lock_guar_def split: if_splits)

abbreviation lock_keeps where
  "lock_keeps U o1 Q p s \<equiv> keeps lock_good (lock_rely o1) (lock_guar U o1) Q p s"

lemma keeps_open:
  assumes "\<not> holds_lock o1 s"
  shows "lock_keeps U o1 (\<lambda>b s'. holds_lock o1 s' = b) (open_lock o1) s"
  unfolding open_lock_def
  by (rule file_lock.keeps_act_single)
     (use assms in \<open>auto simp: lock_rely_def lock_guar_def lock_good_def holds_lock_def split: if_splits\<close>)

lemma keeps_write_owner:
  assumes "holds_lock o1 s"
  shows "lock_keeps U o1 (\<lambda>_ s'. ls_lock s' = Some (o1, o1)) (write_owner o1 o1) s"
  unfolding write_owner_def
  by (rule file_lock.keeps_act_single)
     (use assms in \<open>auto simp: lock_rely_def lock_guar_def lock_good_def holds_lock_def split: if_splits\<close>)

lemma keeps_Return: "(\<And>s'. lock_rely o1 s s' \<Longrightarrow> lock_good s' \<Longrightarrow> Q x s') \<Longrightarrow> lock_keeps U o1 Q (Return x) s"
  by (rule keeps.keeps_return)

definition acquired :: "string \<Rightarrow> 'e lock_error + unit \<Rightarrow> 'd locked_store \<Rightarrow> bool" where
  "acquired o1 r s \<longleftrightarrow> (case r of Inr _ \<Rightarrow> ls_lock s = Some (o1, o1) | Inl _ \<Rightarrow> \<not> holds_lock o1 s)"

lemma keeps_owned:
  assumes "holds_lock o1 s" "lock_good s"
  shows "lock_keeps U o1 (acquired o1) (bindp (write_owner o1 o1) (\<lambda>_. succeed ())) s"
  by (rule file_lock.keeps_bindp[OF keeps_write_owner[OF assms(1)] _ assms(2)])
     (auto simp: acquired_def succeed_def lock_rely_def holds_lock_def intro!: keeps_Return)

lemma keeps_acquire:
  "\<not> holds_lock o1 s \<Longrightarrow> lock_good s \<Longrightarrow> lock_keeps U o1 (acquired o1) (acquire_lock o1 n) s"
proof (induction n arbitrary: s)
  case 0
  then show ?case
    by (subst acquire_lock.simps, intro file_lock.keeps_bindp[OF keeps_open])
       (auto simp: acquired_def raise_def lock_rely_def keeps_owned[simplified] intro!: keeps_Return)
next
  case (Suc n)
  then show ?case
    by (subst acquire_lock.simps, intro file_lock.keeps_bindp[OF keeps_open]) (auto simp: keeps_owned[simplified])
qed

lemma keeps_release:
  assumes "ls_lock s = Some (o1, o1)" "lock_good s" "o1 \<noteq> []"
  shows "lock_keeps U o1 (\<lambda>_ s'. \<not> holds_lock o1 s') (release_lock o1) s"
  unfolding release_lock_def
proof (rule file_lock.keeps_bindp[where Q = "\<lambda>l s'. l = Some (o1, o1) \<and> ls_lock s' = l"])
  show "lock_keeps U o1 (\<lambda>l s'. l = Some (o1, o1) \<and> ls_lock s' = l) (reads ls_lock) s"
    unfolding reads_def
    by (rule file_lock.keeps_act_single)
       (use assms in \<open>auto simp: lock_rely_def lock_guar_def holds_lock_def split: if_splits\<close>)
next
  fix l and s' :: "'a locked_store"
  assume g: "lock_good s'" "l = Some (o1, o1) \<and> ls_lock s' = l"
  have "lock_keeps U o1 (\<lambda>_ s'. \<not> holds_lock o1 s') (act (\<lambda>s. (s\<lparr>ls_lock := None\<rparr>, ()))) s'"
    by (rule file_lock.keeps_act_single)
       (use g in \<open>auto simp: lock_rely_def lock_guar_def lock_good_def holds_lock_def split: if_splits\<close>)
  then show "lock_keeps U o1 (\<lambda>_ s'. \<not> holds_lock o1 s')
      (case l of None \<Rightarrow> Return () | Some (i, c) \<Rightarrow> if c = o1 then act (\<lambda>s. (s\<lparr>ls_lock := None\<rparr>, ())) else Return ()) s'"
    using g by simp
qed (rule assms(2))

lemma keeps_read_then_write:
  assumes "ls_lock s = Some (o1, o1)" "lock_good s" "f \<in> U"
  shows "lock_keeps U o1 (\<lambda>_ s'. ls_lock s' = Some (o1, o1)) (read_then_write f) s"
  unfolding read_then_write_def
proof (rule file_lock.keeps_bindp[where Q = "\<lambda>d s'. ls_lock s' = Some (o1, o1) \<and> ls_data s' = d"])
  show "lock_keeps U o1 (\<lambda>d s'. ls_lock s' = Some (o1, o1) \<and> ls_data s' = d) (reads ls_data) s"
    unfolding reads_def
    by (rule file_lock.keeps_act_single)
       (use assms in \<open>auto simp: lock_rely_def lock_guar_def holds_lock_def split: if_splits\<close>)
next
  fix d and s' :: "'a locked_store"
  assume g: "lock_good s'" "ls_lock s' = Some (o1, o1) \<and> ls_data s' = d"
  show "lock_keeps U o1 (\<lambda>_ s'. ls_lock s' = Some (o1, o1))
      (case f d of Inl e \<Rightarrow> raise e | Inr (d', x) \<Rightarrow> act (\<lambda>s. (s\<lparr>ls_data := d'\<rparr>, Inr x))) s'"
  proof (cases "f d")
    case (Inl e)
    then show ?thesis using g by (auto simp: raise_def lock_rely_def holds_lock_def intro!: keeps_Return)
  next
    case (Inr y)
    obtain d' x where y: "y = (d', x)" by (cases y)
    have u: "store_step U d d'" using Inr y assms(3) by (auto simp: store_step_def)
    have "lock_keeps U o1 (\<lambda>_ s'. ls_lock s' = Some (o1, o1)) (act (\<lambda>s. (s\<lparr>ls_data := d'\<rparr>, Inr x))) s'"
      by (rule file_lock.keeps_act_single)
         (use g u in \<open>auto simp: lock_rely_def lock_guar_def lock_good_def holds_lock_def split: if_splits\<close>)
    then show ?thesis using Inr y by simp
  qed
qed (rule assms(2))

lemma keeps_locked_update:
  assumes "\<not> holds_lock o1 s" "lock_good s" "f \<in> U" "o1 \<noteq> []"
  shows "lock_keeps U o1 (\<lambda>_ s'. \<not> holds_lock o1 s') (locked_update o1 n f) s"
  unfolding locked_update_def with_file_lock_def
proof (rule file_lock.keeps_and_then[OF keeps_acquire[OF assms(1,2)] assms(2)])
  fix x :: unit and s' :: "'a locked_store"
  assume g: "lock_good s'" "acquired o1 (Inr x) s'"
  then have l: "ls_lock s' = Some (o1, o1)" by (simp add: acquired_def)
  show "lock_keeps U o1 (\<lambda>_ s'. \<not> holds_lock o1 s')
     (bindp (read_then_write f) (\<lambda>r. bindp (release_lock o1) (\<lambda>_. case r of Inl e \<Rightarrow> raise (OperationFailed e) | Inr x \<Rightarrow> succeed x))) s'"
  proof (rule file_lock.keeps_bindp[OF keeps_read_then_write[OF l g(1) assms(3)] _ g(1)])
    fix r :: "'b + 'c" and s2 :: "'a locked_store" assume h: "lock_good s2" "ls_lock s2 = Some (o1, o1)"
    show "lock_keeps U o1 (\<lambda>_ s'. \<not> holds_lock o1 s')
       (bindp (release_lock o1) (\<lambda>_. case r of Inl e \<Rightarrow> raise (OperationFailed e) | Inr x \<Rightarrow> succeed x)) s2"
      by (rule file_lock.keeps_bindp[OF keeps_release[OF h(2,1) assms(4)] _ h(1)])
         (auto simp: raise_def succeed_def lock_rely_def split: sum.split intro!: keeps_Return)
  qed
next
  fix e :: "'b lock_error" and s' :: "'a locked_store"
  assume "lock_good s'" "acquired o1 (Inl e) s'"
  then show "lock_keeps U o1 (\<lambda>_ s'. \<not> holds_lock o1 s') (Return (Inl e)) s'"
    by (auto simp: acquired_def lock_rely_def intro!: keeps_Return)
qed


subsection \<open>Locked updates serialize\<close>

definition lock_programs ::
  "('d \<Rightarrow> 'e + 'd \<times> 'a) set \<Rightarrow> (string \<times> ('d locked_store, 'e lock_error + 'a) prog) set" where
  "lock_programs U = {(owner, locked_update owner tries f) | owner tries f. owner \<noteq> [] \<and> f \<in> U}"

lemma locked_updates_run:
  assumes "(conc (lock_programs U))\<^sup>*\<^sup>* (s, used, []) c" "lock_good s" "\<And>o1. holds_lock o1 s \<Longrightarrow> o1 \<in> used"
  shows "side_by_side lock_good lock_rely (lock_guar U) (\<lambda>o1 s. \<not> holds_lock o1 s) (\<lambda>o1 _ s. \<not> holds_lock o1 s) c \<and> (store_step U)\<^sup>*\<^sup>* (ls_data s) (ls_data (fst c))"
  using assms(1)
proof (induction rule: rtranclp_induct)
  case base
  then show ?case using assms(2,3) by (auto simp: side_by_side_def)
next
  case (step c c')
  have "side_by_side lock_good lock_rely (lock_guar U) (\<lambda>o1 s. \<not> holds_lock o1 s) (\<lambda>o1 _ s. \<not> holds_lock o1 s) c'"
    by (rule file_lock.conc_side_by_side[OF step(2) conjunct1[OF step(3)]])
       (auto simp: lock_programs_def intro: keeps_locked_update)
  moreover have "fst c' = fst c \<or> (\<exists>t. lock_guar U t (fst c) (fst c'))"
    by (rule file_lock.conc_guarantee[OF step(2) conjunct1[OF step(3)]])
  then have "ls_data (fst c') = ls_data (fst c) \<or> store_step U (ls_data (fst c)) (ls_data (fst c'))"
    unfolding lock_guar_def by metis
  ultimately show ?case using step(3) by (auto intro: rtranclp.rtrancl_into_rtrancl)
qed

text \<open>
  C31: Updates under the file lock are atomic. However many processes read, compute and write
  a store under its lock, however their file operations interleave and whichever of them die
  in between, the contents of the store only change by whole updates applied to what it
  holds: no update is lost or mixed. Two live processes never hold the lock together.
\<close>
theorem locked_updates_serialize:
  assumes "(conc (lock_programs U))\<^sup>*\<^sup>* (s, used, []) (s', used', ps)" "ls_lock s = None"
  shows "(store_step U)\<^sup>*\<^sup>* (ls_data s) (ls_data s') \<and> distinct (map fst ps) \<and>
    (\<forall>o1 o2. holds_lock o1 s' \<longrightarrow> holds_lock o2 s' \<longrightarrow> o1 = o2) \<and>
    (ls_lock s' = None \<longrightarrow> (\<forall>owner n f. run_prog (locked_update owner n f) s' =
       (case f (ls_data s') of Inl e \<Rightarrow> (s', Inl (OperationFailed e)) | Inr (d, x) \<Rightarrow> (s'\<lparr>ls_data := d\<rparr>, Inr x))))"
proof -
  have "lock_good s" "\<And>o1. holds_lock o1 s \<Longrightarrow> o1 \<in> used" using assms(2) by (auto simp: lock_good_def holds_lock_def)
  from locked_updates_run[OF assms(1) this] show ?thesis
    by (auto simp: side_by_side_def holds_lock_def locked_update_alone)
qed

text \<open>Two increments of a counter.\<close>

definition bump :: "nat \<Rightarrow> string + nat \<times> unit" where "bump n = Inr (n + 1, ())"

lemma locked_updates_serialize_witness:
  "(store_step {bump})\<^sup>*\<^sup>* 0 2 \<and> run_prog (locked_update ''c'' 5 bump) \<lparr>ls_lock = None, ls_data = 2\<rparr> = (\<lparr>ls_lock = None, ls_data = 3\<rparr>, Inr ())"
proof -
  have p: "(''a'', locked_update ''a'' 5 bump) \<in> lock_programs {bump}" "(''b'', locked_update ''b'' 5 bump) \<in> lock_programs {bump}"
    by (auto simp: lock_programs_def)
  have r: "run_prog (locked_update owner 5 bump) \<lparr>ls_lock = None, ls_data = n\<rparr> = (\<lparr>ls_lock = None, ls_data = n + 1\<rparr>, Inr ())" for owner n
    by (simp add: locked_update_alone bump_def)
  from conc_alone[OF p(1) _ r, of "{}" 0] conc_alone[OF p(2) _ r, of "{''a''}" 1]
  have "(conc (lock_programs {bump}))\<^sup>*\<^sup>* (\<lparr>ls_lock = None, ls_data = 0\<rparr>, {}, []) (\<lparr>ls_lock = None, ls_data = 2\<rparr>, {''b'', ''a''}, [])"
    by (simp add: numeral_2_eq_2)
  note all = locked_updates_serialize[OF this locked_store.select_convs(1)]
  have "(store_step {bump})\<^sup>*\<^sup>* 0 2" using all[THEN conjunct1] unfolding locked_store.select_convs .
  then show ?thesis using r[of "''c''" 2] by simp
qed

end
