(* ===== verification/PathCanon.thy ===== *)
theory PathCanon
  imports Prelude
begin

text \<open>
  POSIX path strings as \<open>node:path\<close> treats them, and the comparison primitives of
  \<open>packages/cli/src/path-canon.ts\<close>. Paths are strings of characters below 256;
  \<open>cwd\<close> arguments and the working directory \<open>pcwd\<close> of the process are absolute. The file
  system enters only as \<open>realpath\<close>, absent where the call throws.
\<close>

subsection \<open>node:path\<close>

definition is_absolute :: "string \<Rightarrow> bool" where
  "is_absolute p = (case p of [] \<Rightarrow> False | c # _ \<Rightarrow> c = CHR ''/'')"

fun join_with :: "string \<Rightarrow> string list \<Rightarrow> string" where
  "join_with sep [] = []"
| "join_with sep [p] = p"
| "join_with sep (p # ps) = p @ sep @ join_with sep ps"

text \<open>The segments of a path, empty and \<open>.\<close> segments dropped and \<open>..\<close> resolved; \<open>up\<close> keeps leading ones.\<close>

fun norm_segs :: "bool \<Rightarrow> string list \<Rightarrow> string list \<Rightarrow> string list" where
  "norm_segs up acc [] = rev acc"
| "norm_segs up acc (s # ss) =
     (if s = [] \<or> s = ''.'' then norm_segs up acc ss
      else if s = ''..'' then
        (case acc of
           [] \<Rightarrow> norm_segs up (if up then [''..''] else []) ss
         | a # rest \<Rightarrow> if a = ''..'' then norm_segs up (if up then ''..'' # acc else acc) ss
                       else norm_segs up rest ss)
      else norm_segs up (s # acc) ss)"

definition abs_path :: "string list \<Rightarrow> string" where
  "abs_path segs = ''/'' @ join_with ''/'' segs"

definition path_segs :: "string \<Rightarrow> string list" where
  "path_segs p = norm_segs False [] (split_on (CHR ''/'') p)"

text \<open>\<open>resolve(...ps)\<close>: the arguments are read from the last to the first absolute one.\<close>

fun resolve_onto :: "string \<Rightarrow> string list \<Rightarrow> string \<Rightarrow> string" where
  "resolve_onto pcwd [] acc = pcwd @ ''/'' @ acc"
| "resolve_onto pcwd (p # ps) acc =
     (if p = [] then resolve_onto pcwd ps acc
      else if is_absolute p then p @ ''/'' @ acc
      else resolve_onto pcwd ps (p @ ''/'' @ acc))"

definition resolve_path :: "string \<Rightarrow> string list \<Rightarrow> string" where
  "resolve_path pcwd ps = abs_path (path_segs (resolve_onto pcwd (rev ps) []))"

definition normalize_path :: "string \<Rightarrow> string" where
  "normalize_path p =
     (if p = [] then ''.''
      else let trailing = (last p = CHR ''/'');
               body = join_with ''/'' (norm_segs (\<not> is_absolute p) [] (split_on (CHR ''/'') p))
           in if body = [] then (if is_absolute p then ''/'' else if trailing then ''./'' else ''.'')
              else (if is_absolute p then ''/'' else []) @ body @ (if trailing then ''/'' else []))"

definition path_join :: "string \<Rightarrow> string \<Rightarrow> string" where
  "path_join a b = normalize_path (join_with ''/'' (filter (\<lambda>p. p \<noteq> []) [a, b]))"

definition path_basename :: "string \<Rightarrow> string" where
  "path_basename p = (case rev (filter (\<lambda>s. s \<noteq> []) (split_on (CHR ''/'') p)) of [] \<Rightarrow> [] | s # _ \<Rightarrow> s)"

fun common_length :: "'a list \<Rightarrow> 'a list \<Rightarrow> nat" where
  "common_length (x # xs) (y # ys) = (if x = y then Suc (common_length xs ys) else 0)"
| "common_length _ _ = 0"

definition relative_path :: "string \<Rightarrow> string \<Rightarrow> string \<Rightarrow> string" where
  "relative_path pcwd source target =
     (let f = path_segs (resolve_path pcwd [source]); t = path_segs (resolve_path pcwd [target]);
          n = common_length f t
      in join_with ''/'' (replicate (length f - n) ''..'' @ drop n t))"

subsection \<open>path-canon.ts\<close>

text \<open>\<open>toLowerCase\<close> on characters below 256.\<close>

definition lower_char :: "char \<Rightarrow> char" where
  "lower_char c =
     (let n = of_char c :: nat
      in if 65 \<le> n \<and> n \<le> 90 \<or> 192 \<le> n \<and> n \<le> 222 \<and> n \<noteq> 215 then char_of (n + 32) else c)"

definition fold_path :: "string \<Rightarrow> string" where
  "fold_path p = map lower_char p"

definition starts_with :: "string \<Rightarrow> string \<Rightarrow> bool" where
  "starts_with pre s = (take (length pre) s = pre)"

definition expand_home :: "string \<Rightarrow> string \<Rightarrow> string" where
  "expand_home p home =
     (if p = ''~'' then home else if starts_with ''~/'' p then path_join home (drop 2 p) else p)"

text \<open>
  The loop over the ancestors: \<open>rsegs\<close> are the segments of \<open>cur\<close> from the last to the first,
  \<open>tail\<close> the unresolved segments below it in path order.
\<close>

fun climb :: "string \<Rightarrow> (string \<Rightarrow> string option) \<Rightarrow> string \<Rightarrow> string list \<Rightarrow> string list \<Rightarrow> string" where
  "climb pcwd realpath whole rsegs tail = (case realpath (abs_path (rev rsegs)) of
     Some r \<Rightarrow> resolve_path pcwd (r # tail)
   | None \<Rightarrow> (case rsegs of [] \<Rightarrow> whole | s # rest \<Rightarrow> climb pcwd realpath whole rest (s # tail)))"

declare climb.simps [simp del]

definition canonical :: "string \<Rightarrow> string \<Rightarrow> string \<Rightarrow> string \<Rightarrow> (string \<Rightarrow> string option) \<Rightarrow> string" where
  "canonical pcwd p cwd home realpath =
     (let expanded = expand_home p home;
          whole = (if is_absolute expanded then resolve_path pcwd [expanded] else resolve_path pcwd [cwd, expanded])
      in climb pcwd realpath whole (rev (path_segs whole)) [])"

definition is_inside :: "string \<Rightarrow> string \<Rightarrow> string \<Rightarrow> bool" where
  "is_inside pcwd target root =
     (let rel = relative_path pcwd (fold_path root) (fold_path target)
      in rel = [] \<or> \<not> starts_with ''..'' rel \<and> \<not> is_absolute rel)"

definition is_ancestor_of :: "string \<Rightarrow> string \<Rightarrow> string \<Rightarrow> bool" where
  "is_ancestor_of pcwd target root =
     (let rel = relative_path pcwd (fold_path target) (fold_path root)
      in rel \<noteq> [] \<and> \<not> starts_with ''..'' rel \<and> \<not> is_absolute rel)"

subsection \<open>Clean segments\<close>

definition clean_seg :: "string \<Rightarrow> bool" where
  "clean_seg s = (s \<noteq> [] \<and> s \<noteq> ''.'' \<and> s \<noteq> ''..'' \<and> CHR ''/'' \<notin> set s)"

lemma split_on_no_sep: "x \<in> set (split_on d s) \<Longrightarrow> d \<notin> set x"
  by (induction s arbitrary: x) (auto split: if_splits list.splits)

lemma norm_segs_clean:
  assumes "list_all clean_seg acc" "\<forall>s\<in>set ss. CHR ''/'' \<notin> set s"
  shows "list_all clean_seg (norm_segs False acc ss)"
  using assms
proof (induction ss arbitrary: acc)
  case Nil
  then show ?case by (simp add: list_all_iff)
next
  case (Cons s ss)
  then show ?case
    by (cases acc) (auto simp: clean_seg_def)
qed

lemma path_segs_clean: "list_all clean_seg (path_segs p)"
  unfolding path_segs_def by (rule norm_segs_clean) (auto dest: split_on_no_sep)

lemma norm_segs_id: "list_all clean_seg ss \<Longrightarrow> norm_segs a acc ss = rev acc @ ss"
  by (induction ss arbitrary: acc) (auto simp: clean_seg_def)

lemma split_join:
  assumes "list_all clean_seg ss" "ss \<noteq> []"
  shows "split_on (CHR ''/'') (join_with ''/'' ss) = ss"
  using assms
proof (induction ss)
  case (Cons s ss)
  then show ?case
    by (cases ss) (simp_all add: clean_seg_def split_on_none split_on_append)
qed simp

lemma path_segs_abs [simp]:
  assumes "list_all clean_seg ss"
  shows "path_segs (abs_path ss) = ss"
proof (cases "ss = []")
  case True
  then show ?thesis by (simp add: path_segs_def abs_path_def)
next
  case False
  then show ?thesis using assms by (simp add: path_segs_def abs_path_def split_join norm_segs_id)
qed

lemma norm_segs_skip_last: "norm_segs a acc (ss @ [[]]) = norm_segs a acc ss"
  by (induction a acc ss rule: norm_segs.induct) (auto split: list.split)

lemma split_on_snoc_sep: "split_on d (s @ [d]) = split_on d s @ [[]]"
proof (induction s)
  case (Cons c s)
  then show ?case using split_on_nonempty[of d s] by (auto split: list.split)
qed simp

lemma is_absolute_abs_path [simp]: "is_absolute (abs_path ss)"
  by (simp add: is_absolute_def abs_path_def)

lemma abs_path_nonempty [simp]: "abs_path ss \<noteq> []"
  by (simp add: abs_path_def)

text \<open>Resolving a path that is already resolved gives it back.\<close>

lemma resolve_abs [simp]:
  assumes "list_all clean_seg ss"
  shows "resolve_path pcwd [abs_path ss] = abs_path ss"
proof -
  have "path_segs (abs_path ss @ ''/'') = path_segs (abs_path ss)"
    by (simp add: path_segs_def split_on_snoc_sep norm_segs_skip_last)
  then show ?thesis using assms by (simp add: resolve_path_def)
qed

lemma resolve_path_abs: "\<exists>ss. list_all clean_seg ss \<and> resolve_path pcwd ps = abs_path ss"
  unfolding resolve_path_def using path_segs_clean by blast

lemma climb_abs:
  assumes "whole = abs_path ss" "list_all clean_seg ss"
  shows "\<exists>ts. list_all clean_seg ts \<and> climb pcwd realpath whole rsegs tail = abs_path ts"
proof (induction rsegs arbitrary: tail)
  case Nil
  then show ?case using assms resolve_path_abs by (auto simp: climb.simps split: option.split)
next
  case (Cons s rest)
  then show ?case using resolve_path_abs by (auto simp: climb.simps[of _ _ _ "s # rest"] split: option.split)
qed

lemma canonical_abs: "\<exists>ss. list_all clean_seg ss \<and> canonical pcwd p cwd home realpath = abs_path ss"
proof -
  let ?e = "expand_home p home"
  have r: "\<exists>ss. list_all clean_seg ss \<and>
      (if is_absolute ?e then resolve_path pcwd [?e] else resolve_path pcwd [cwd, ?e]) = abs_path ss"
    using resolve_path_abs by simp
  obtain ss where "list_all clean_seg ss"
    "(if is_absolute ?e then resolve_path pcwd [?e] else resolve_path pcwd [cwd, ?e]) = abs_path ss"
    using r by blast
  from climb_abs[OF this(2,1)] show ?thesis unfolding canonical_def Let_def by blast
qed

subsection \<open>Containment\<close>

text \<open>A segment that reads like a climb to \<open>isInside\<close>.\<close>

definition dotdot_seg :: "string \<Rightarrow> bool" where
  "dotdot_seg s = starts_with ''..'' s"

lemma lower_char_cases: "lower_char c = c \<or> (of_char (lower_char c) :: nat) \<ge> 97"
  by (auto simp: lower_char_def Let_def)

lemma lower_char_fixed:
  assumes "lower_char d = d" "(of_char d :: nat) < 97"
  shows "lower_char c = d \<longleftrightarrow> c = d"
  using lower_char_cases[of c] assms by auto

lemma lower_char_sep [simp]:
  "lower_char c = CHR ''/'' \<longleftrightarrow> c = CHR ''/''" "lower_char c = CHR ''.'' \<longleftrightarrow> c = CHR ''.''"
  by (rule lower_char_fixed; simp add: lower_char_def)+

lemma lower_char_slash [simp]: "lower_char (CHR ''/'') = CHR ''/''" "lower_char (CHR ''.'') = CHR ''.''"
  by (simp_all only: lower_char_sep)

lemma lower_char_sep_sym [simp]: "CHR ''/'' = lower_char c \<longleftrightarrow> c = CHR ''/''"
  by (simp only: eq_commute[of "CHR ''/''" "lower_char c"] lower_char_sep)

lemma fold_path_length [simp]: "length (fold_path s) = length s"
  by (simp add: fold_path_def)

lemma fold_path_clean: "clean_seg s \<Longrightarrow> clean_seg (fold_path s)"
  by (cases s rule: remdups_adj.cases) (auto simp: clean_seg_def fold_path_def dest: arg_cong[of _ _ length])

lemma fold_path_clean_list: "list_all clean_seg ss \<Longrightarrow> list_all clean_seg (map fold_path ss)"
  by (auto simp: list_all_iff fold_path_clean)

lemma dotdot_fold [simp]: "dotdot_seg (fold_path s) = dotdot_seg s"
  by (cases s rule: remdups_adj.cases) (auto simp: dotdot_seg_def starts_with_def fold_path_def)

lemma fold_join: "fold_path (join_with ''/'' ss) = join_with ''/'' (map fold_path ss)"
proof (induction "''/''" ss rule: join_with.induct)
  case (3 p q ps)
  then show ?case by (simp add: fold_path_def)
qed (simp_all add: fold_path_def)

lemma fold_abs_path: "fold_path (abs_path ss) = abs_path (map fold_path ss)"
proof -
  have "lower_char (CHR ''/'') = CHR ''/''" by simp
  then show ?thesis using fold_join[of ss] by (simp add: abs_path_def fold_path_def)
qed

lemma relative_abs_path:
  assumes "list_all clean_seg f" "list_all clean_seg t"
  shows "relative_path pcwd (abs_path f) (abs_path t) =
    join_with ''/'' (replicate (length f - common_length f t) ''..'' @ drop (common_length f t) t)"
  using assms by (simp add: relative_path_def Let_def)

lemma common_length_le: "common_length f t \<le> length f"
  by (induction f t rule: common_length.induct) auto

lemma common_length_prefix: "common_length f t = length f \<longleftrightarrow> (\<exists>rest. t = f @ rest)"
  by (induction f t rule: common_length.induct) auto

lemma starts_dotdot_join:
  assumes "x \<noteq> []"
  shows "starts_with ''..'' (join_with ''/'' (x # xs)) = dotdot_seg x"
proof -
  obtain c cs where "x = c # cs" using assms by (cases x) auto
  then show ?thesis by (cases xs; cases cs) (auto simp: starts_with_def dotdot_seg_def)
qed

lemma join_nonempty: "x \<noteq> [] \<Longrightarrow> join_with ''/'' (x # xs) \<noteq> []"
  by (cases xs) auto

lemma join_relative: "x \<noteq> [] \<Longrightarrow> CHR ''/'' \<notin> set x \<Longrightarrow> \<not> is_absolute (join_with ''/'' (x # xs))"
  by (cases x; cases xs) (auto simp: is_absolute_def)

text \<open>A relative path between resolved paths, by whether the first is a prefix of the second.\<close>

lemma relative_below:
  assumes "list_all clean_seg f" "list_all clean_seg (f @ rest)"
  shows "relative_path pcwd (abs_path f) (abs_path (f @ rest)) = join_with ''/'' rest"
  using relative_abs_path[OF assms] common_length_prefix[of f "f @ rest"] by simp

lemma relative_outside:
  assumes "list_all clean_seg f" "list_all clean_seg t" "\<nexists>rest. t = f @ rest"
  shows "starts_with ''..'' (relative_path pcwd (abs_path f) (abs_path t))"
proof -
  let ?n = "common_length f t"
  have "?n < length f" using common_length_le[of f t] common_length_prefix[of f t] assms(3) by fastforce
  then have "replicate (length f - ?n) ''..'' = ''..'' # replicate (length f - ?n - 1) ''..''"
    by (metis Suc_diff_1 replicate_Suc zero_less_diff)
  then show ?thesis
    using relative_abs_path[OF assms(1,2), of pcwd]
      starts_dotdot_join[of "''..''" "replicate (length f - ?n - 1) ''..'' @ drop ?n t"]
    by (simp add: dotdot_seg_def starts_with_def)
qed

definition no_climb :: "string list \<Rightarrow> bool" where
  "no_climb rest = (case rest of [] \<Rightarrow> True | x # _ \<Rightarrow> \<not> dotdot_seg x)"

lemma relative_clean_rest:
  assumes "list_all clean_seg rest"
  shows "join_with ''/'' rest = [] \<or> \<not> starts_with ''..'' (join_with ''/'' rest) \<and> \<not> is_absolute (join_with ''/'' rest)
    \<longleftrightarrow> no_climb rest"
proof (cases rest)
  case (Cons x xs)
  then show ?thesis using assms starts_dotdot_join[of x xs] join_nonempty[of x xs] join_relative[of x xs]
    by (simp add: no_climb_def clean_seg_def)
qed (simp add: no_climb_def)

theorem is_inside_abs:
  assumes "list_all clean_seg t" "list_all clean_seg r"
  shows "is_inside pcwd (abs_path t) (abs_path r) \<longleftrightarrow>
    (\<exists>rest. map fold_path t = map fold_path r @ rest \<and> no_climb rest)"
proof (cases "\<exists>rest. map fold_path t = map fold_path r @ rest")
  case True
  then obtain rest where rest: "map fold_path t = map fold_path r @ rest" by blast
  have c: "list_all clean_seg (map fold_path r @ rest)" using fold_path_clean_list[OF assms(1)] rest by simp
  then have "list_all clean_seg rest" by simp
  then show ?thesis
    using relative_below[OF fold_path_clean_list[OF assms(2)] c] relative_clean_rest rest
    by (simp add: is_inside_def fold_abs_path Let_def)
next
  case False
  then have "starts_with ''..'' (relative_path pcwd (fold_path (abs_path r)) (fold_path (abs_path t)))"
    unfolding fold_abs_path by (intro relative_outside fold_path_clean_list assms)
  then show ?thesis using False by (auto simp: is_inside_def Let_def starts_with_def)
qed

theorem is_ancestor_abs:
  assumes "list_all clean_seg t" "list_all clean_seg r"
  shows "is_ancestor_of pcwd (abs_path t) (abs_path r) \<longleftrightarrow>
    (\<exists>x rest. map fold_path r = map fold_path t @ x # rest \<and> \<not> dotdot_seg x)"
proof (cases "\<exists>rest. map fold_path r = map fold_path t @ rest")
  case True
  then obtain rest where rest: "map fold_path r = map fold_path t @ rest" by blast
  have c: "list_all clean_seg (map fold_path t @ rest)" using fold_path_clean_list[OF assms(2)] rest by simp
  then have "list_all clean_seg rest" by simp
  then show ?thesis
    using relative_below[OF fold_path_clean_list[OF assms(1)] c] relative_clean_rest[of rest] rest join_nonempty
    by (cases rest) (auto simp: is_ancestor_of_def fold_abs_path Let_def no_climb_def clean_seg_def)
next
  case False
  then have "starts_with ''..'' (relative_path pcwd (fold_path (abs_path t)) (fold_path (abs_path r)))"
    unfolding fold_abs_path by (intro relative_outside fold_path_clean_list assms)
  then show ?thesis using False by (auto simp: is_ancestor_of_def Let_def)
qed

text \<open>
  What a scan of \<open>root\<close> cannot reach: if \<open>root\<close> is neither inside nor above \<open>d\<close>, no path below
  \<open>root\<close> is inside \<open>d\<close>, as long as no segment below the root starts with two dots.
\<close>

lemma below_not_inside:
  assumes "list_all clean_seg root" "list_all clean_seg d" "list_all clean_seg (root @ below)"
    "\<not> is_inside pcwd (abs_path root) (abs_path d)" "\<not> is_ancestor_of pcwd (abs_path root) (abs_path d)"
    "list_all (\<lambda>s. \<not> dotdot_seg s) (root @ below)"
  shows "\<not> is_inside pcwd (abs_path (root @ below)) (abs_path d)"
proof
  assume "is_inside pcwd (abs_path (root @ below)) (abs_path d)"
  then obtain rest where rest: "map fold_path root @ map fold_path below = map fold_path d @ rest"
    using is_inside_abs[OF assms(3,2)] by auto
  then consider (longer) us where "map fold_path root = map fold_path d @ us"
    | (shorter) us where "map fold_path d = map fold_path root @ us" "us \<noteq> []" "map fold_path below = us @ rest"
    by (fastforce simp: append_eq_append_conv2)
  then show False
  proof cases
    case longer
    have "no_climb us"
    proof (cases us)
      case (Cons u us')
      then have "u \<in> set (map fold_path root)" using longer by simp
      then show ?thesis using assms(6) Cons by (auto simp: no_climb_def list_all_iff)
    qed (simp add: no_climb_def)
    then show False using is_inside_abs[OF assms(1,2)] longer assms(4) by blast
  next
    case shorter
    then obtain u us' where u: "us = u # us'" by (cases us) auto
    then have "u \<in> set (map fold_path below)" using shorter(3) by simp
    then have "\<not> dotdot_seg u" using assms(6) by (auto simp: list_all_iff)
    then show False using is_ancestor_abs[OF assms(1,2)] shorter(1) u assms(5) by blast
  qed
qed

end
