(* ===== verification/Scope.thy ===== *)
theory Scope
  imports PathCanon Frames
begin

text \<open>
  What an answering agent may read, \<open>packages/cli/src/scope.ts\<close>: the roots, the built-in
  denied paths and names, and the resolution of one path. The file system and the process
  are the record \<open>machine\<close>.
\<close>

record machine =
  m_cwd :: string
  m_home :: string
  m_realpath :: "string \<Rightarrow> string option"

record scope =
  sc_roots :: "string list"
  sc_denied :: "string list"

definition DEFAULT_SCOPE :: scope where
  "DEFAULT_SCOPE = \<lparr>sc_roots = [], sc_denied = []\<rparr>"

definition DENIED_DIRS :: "string list" where
  "DENIED_DIRS = [''.ssh'', ''.gnupg'', ''.aws'', ''.config/gcloud'', ''Library/Keychains'', ''.agentcall'',
     ''.claude'', ''.codex'', ''Library/LaunchAgents'', ''.config/systemd/user'']"

definition DENIED_FILES :: "string list" where
  "DENIED_FILES = [''.netrc'', ''.npmrc'', ''.docker/config.json'', ''.claude.json'',
     ''.zshrc'', ''.zprofile'', ''.bashrc'', ''.bash_profile'', ''.profile'']"

definition ALLOWED_EXCEPTIONS :: "string list" where
  "ALLOWED_EXCEPTIONS = [''.claude/skills'']"

definition ends_with :: "string \<Rightarrow> string \<Rightarrow> bool" where
  "ends_with suf s = starts_with (rev suf) (rev s)"

definition DENIED_BASENAMES :: "string \<Rightarrow> bool" where
  "DENIED_BASENAMES s =
     (s = ''.env'' \<or>
      starts_with ''.env.'' s \<and> drop 5 s \<notin> {''example'', ''sample'', ''template''} \<or>
      s = ''id_rsa'' \<or> s = ''id_ed25519'' \<or> s = ''id_ecdsa'' \<or>
      ends_with ''.pem'' s \<or> ends_with ''.p12'' s \<or> ends_with ''.pfx'' s)"

definition denied_basename :: "string \<Rightarrow> bool" where
  "denied_basename p = DENIED_BASENAMES (fold_path (path_basename p))"

subsection \<open>The file\<close>

text \<open>Reading a local file: its parsed JSON (absent when it does not parse), no file, or another failure.\<close>

datatype local_read = ReadJson "js_value option" | ReadMissing | ReadFailed

datatype load_error = Unreadable | Invalid

definition parse_scope :: "js_value \<Rightarrow> scope option" where
  "parse_scope v = do {
     kvs \<leftarrow> as_object v;
     _ \<leftarrow> (if strict_keys [''roots'', ''denied''] kvs then Some () else None);
     roots \<leftarrow> read_default [] (read_array (read_str (\<lambda>s. s \<noteq> []))) (obj_get kvs ''roots'');
     denied \<leftarrow> read_default [] (read_array (read_str (\<lambda>s. s \<noteq> []))) (obj_get kvs ''denied'');
     Some \<lparr>sc_roots = roots, sc_denied = denied\<rparr> }"

fun load_scope :: "local_read \<Rightarrow> load_error + scope" where
  "load_scope ReadMissing = Inr DEFAULT_SCOPE"
| "load_scope ReadFailed = Inl Unreadable"
| "load_scope (ReadJson parsed) = (case Option.bind parsed parse_scope of None \<Rightarrow> Inl Invalid | Some s \<Rightarrow> Inr s)"

definition default_scope :: "string \<Rightarrow> string option \<Rightarrow> scope" where
  "default_scope pcwd home = (case home of
     None \<Rightarrow> DEFAULT_SCOPE | Some h \<Rightarrow> \<lparr>sc_roots = [resolve_path pcwd [h]], sc_denied = []\<rparr>)"

subsection \<open>Resolution\<close>

definition scope_canon :: "machine \<Rightarrow> string \<Rightarrow> string \<Rightarrow> string" where
  "scope_canon m cwd p = canonical (m_cwd m) (expand_home p (m_home m)) cwd (m_home m) (m_realpath m)"

definition inside_of :: "machine \<Rightarrow> string \<Rightarrow> string \<Rightarrow> string list \<Rightarrow> string list" where
  "inside_of m cwd path roots = filter (is_inside (m_cwd m) path) (map (scope_canon m cwd) roots)"

definition builtin_denied :: "machine \<Rightarrow> string list" where
  "builtin_denied m = map (path_join (m_home m)) DENIED_DIRS @ map (path_join (m_home m)) DENIED_FILES"

definition longest :: "string list \<Rightarrow> int" where
  "longest ps = foldr max (map (\<lambda>p. int (length p)) ps) (-1)"

definition is_readable :: "machine \<Rightarrow> string \<Rightarrow> scope \<Rightarrow> string \<Rightarrow> bool" where
  "is_readable m cwd scope target =
     (let path = scope_canon m cwd target
      in if DENIED_BASENAMES (fold_path (path_basename path)) then False
         else
           let denied = inside_of m cwd path (builtin_denied m @ sc_denied scope);
               excepted = inside_of m cwd path (map (path_join (m_home m)) ALLOWED_EXCEPTIONS)
           in if longest denied > longest excepted then False
              else inside_of m cwd path (sc_roots scope) \<noteq> [])"

definition root_le :: "(string \<Rightarrow> string \<Rightarrow> int) \<Rightarrow> string \<Rightarrow> string \<Rightarrow> bool" where
  "root_le locale_compare a b =
     (length a < length b \<or> length a = length b \<and> locale_compare a b \<le> 0)"

text \<open>\<open>is_dir\<close> is \<open>statSync(p).isDirectory()\<close>, false where it throws.\<close>

definition readable_roots :: "(string \<Rightarrow> string \<Rightarrow> int) \<Rightarrow> (string \<Rightarrow> bool) \<Rightarrow> scope \<Rightarrow> string \<Rightarrow> string list" where
  "readable_roots locale_compare is_dir scope home =
     stable_sort (root_le locale_compare)
       (filter is_dir (filter is_absolute (map (\<lambda>p. expand_home p home) (sc_roots scope))))"

definition workdir_for ::
  "(string \<Rightarrow> string \<Rightarrow> int) \<Rightarrow> (string \<Rightarrow> bool) \<Rightarrow> scope \<Rightarrow> string \<Rightarrow> string \<Rightarrow> string" where
  "workdir_for locale_compare is_dir scope fallback home =
     (case readable_roots locale_compare is_dir scope home of [] \<Rightarrow> fallback | r # _ \<Rightarrow> r)"

definition denied_lexical :: "machine \<Rightarrow> scope \<Rightarrow> string list" where
  "denied_lexical m scope =
     map (\<lambda>p. resolve_path (m_cwd m) [p])
       (builtin_denied m @ map (\<lambda>d. expand_home d (m_home m)) (sc_denied scope))"

text \<open>\<open>new Set\<close> keeps the first of equal entries.\<close>

definition js_set :: "'a list \<Rightarrow> 'a list" where
  "js_set xs = rev (remdups (rev xs))"

definition denied_roots :: "machine \<Rightarrow> scope \<Rightarrow> string list" where
  "denied_roots m scope =
     (let lexical = denied_lexical m scope
      in js_set (lexical @ map (\<lambda>d. canonical (m_cwd m) d (m_home m) (m_home m) (m_realpath m)) lexical))"

subsection \<open>What resolution guarantees\<close>

lemma set_js_set [simp]: "set (js_set xs) = set xs"
  by (simp add: js_set_def)

lemma denied_roots_abs: "d \<in> set (denied_roots m scope) \<Longrightarrow> \<exists>ss. list_all clean_seg ss \<and> d = abs_path ss"
  unfolding denied_roots_def Let_def denied_lexical_def
  using resolve_path_abs canonical_abs by (auto simp: image_iff)

lemma is_readable_root:
  "is_readable m cwd scope target \<Longrightarrow>
   \<exists>r\<in>set (sc_roots scope). is_inside (m_cwd m) (scope_canon m cwd target) (scope_canon m cwd r)"
  by (auto simp: is_readable_def Let_def inside_of_def filter_empty_conv split: if_splits)

lemma is_readable_name: "is_readable m cwd scope target \<Longrightarrow> \<not> denied_basename (scope_canon m cwd target)"
  by (auto simp: is_readable_def Let_def denied_basename_def split: if_splits)

lemma no_roots_unreadable: "sc_roots scope = [] \<Longrightarrow> \<not> is_readable m cwd scope target"
  using is_readable_root by fastforce

end
