(* ===== verification/Policy.thy ===== *)
theory Policy
  imports Scope
begin

text \<open>
  Who an installation answers and what it offers: \<open>access.ts\<close>, \<open>policy.ts\<close>, \<open>tasks.ts\<close>,
  \<open>card.ts\<close> and \<open>verbs.ts\<close> of \<open>packages/cli/src\<close>, with the card schema of
  \<open>packages/shared/src/card.ts\<close> and the relay's \<open>stored-card.ts\<close>. Lengths of strings count
  their characters, which are below 256.
\<close>

definition MAX_CARD_TASKS :: nat where "MAX_CARD_TASKS = 50"
definition MAX_CARD_BLOCKED_CALLERS :: nat where "MAX_CARD_BLOCKED_CALLERS = 200"
definition MAX_TASK_KEYWORDS :: nat where "MAX_TASK_KEYWORDS = 20"
definition MAX_KEYWORD_LENGTH :: nat where "MAX_KEYWORD_LENGTH = 40"
definition MAX_POLICY_ASSERTIONS :: nat where "MAX_POLICY_ASSERTIONS = 100"

subsection \<open>Access\<close>

datatype access = AccessAllowed | AccessBlocked

fun read_access :: "js_value \<Rightarrow> access option" where
  "read_access (JStr s) =
     (if s = ''allowed'' then Some AccessAllowed else if s = ''blocked'' then Some AccessBlocked else None)"
| "read_access _ = None"

definition DEFAULT_ACCESS :: access where "DEFAULT_ACCESS = AccessAllowed"

text \<open>An assertion of the policy file: the access a caller is expected to resolve to.\<close>

record policy_assertion =
  pa_caller :: string
  pa_expect_access :: access

record policy =
  pl_description :: string
  pl_default_access :: access
  pl_callers :: "(string \<times> access option) list"
  pl_offline_enabled :: bool
  pl_tests :: "policy_assertion list option"

definition DEFAULT_POLICY :: policy where
  "DEFAULT_POLICY = \<lparr>pl_description = [], pl_default_access = AccessAllowed, pl_callers = [],
     pl_offline_enabled = False, pl_tests = None\<rparr>"

definition strict_object :: "string list \<Rightarrow> js_value \<Rightarrow> (string \<times> js_value) list option" where
  "strict_object shape v = (case v of
     JObj kvs \<Rightarrow> if strict_keys shape kvs then Some kvs else None
   | _ \<Rightarrow> None)"

fun read_bool :: "js_value \<Rightarrow> bool option" where
  "read_bool (JBool b) = Some b"
| "read_bool _ = None"

definition read_caller_access :: "js_value \<Rightarrow> access option option" where
  "read_caller_access v = do {
     kvs \<leftarrow> strict_object [''access''] v;
     optional read_access (obj_get kvs ''access'') }"

fun read_entries :: "(string \<times> js_value) list \<Rightarrow> (string \<times> access option) list option" where
  "read_entries [] = Some []"
| "read_entries ((k, v) # kvs) = (case (read_caller_access v, read_entries kvs) of
     (Some a, Some rest) \<Rightarrow> Some ((k, a) # rest) | _ \<Rightarrow> None)"

definition read_callers :: "js_value \<Rightarrow> (string \<times> access option) list option" where
  "read_callers v = Option.bind (as_object v) read_entries"

definition read_offline :: "js_value \<Rightarrow> bool option" where
  "read_offline v = do {
     kvs \<leftarrow> strict_object [''enabled''] v;
     read_bool (obj_get kvs ''enabled'') }"

definition read_assertion :: "js_value \<Rightarrow> policy_assertion option" where
  "read_assertion v = do {
     kvs \<leftarrow> strict_object [''caller'', ''expect_access''] v;
     caller \<leftarrow> read_str handle_re (obj_get kvs ''caller'');
     expected \<leftarrow> read_access (obj_get kvs ''expect_access'');
     Some \<lparr>pa_caller = caller, pa_expect_access = expected\<rparr> }"

definition at_most :: "nat \<Rightarrow> 'a list option \<Rightarrow> 'a list option" where
  "at_most n xs = (case xs of None \<Rightarrow> None | Some ys \<Rightarrow> if length ys \<le> n then Some ys else None)"

definition parse_policy :: "js_value \<Rightarrow> policy option" where
  "parse_policy v = do {
     kvs \<leftarrow> strict_object [''description'', ''default_access'', ''callers'', ''offline_delivery'', ''tests''] v;
     description \<leftarrow> read_default [] (read_str (\<lambda>s. length s \<le> 500)) (obj_get kvs ''description'');
     access \<leftarrow> read_default DEFAULT_ACCESS read_access (obj_get kvs ''default_access'');
     callers \<leftarrow> read_default [] read_callers (obj_get kvs ''callers'');
     offline \<leftarrow> read_default False read_offline (obj_get kvs ''offline_delivery'');
     tests \<leftarrow> optional (\<lambda>w. at_most MAX_POLICY_ASSERTIONS (read_array read_assertion w)) (obj_get kvs ''tests'');
     Some \<lparr>pl_description = description, pl_default_access = access, pl_callers = callers,
           pl_offline_enabled = offline, pl_tests = tests\<rparr> }"

definition access_for :: "policy \<Rightarrow> string \<Rightarrow> access" where
  "access_for policy from = (case map_of (pl_callers policy) from of
     Some (Some a) \<Rightarrow> a
   | _ \<Rightarrow> pl_default_access policy)"

subsection \<open>The policy file\<close>

datatype policy_error =
  PolicyUnreadable
| PolicyInvalid
| TooManyBlocked nat
| AssertionFailed nat policy_assertion access

fun load_user_policy :: "local_read \<Rightarrow> policy_error + policy" where
  "load_user_policy ReadMissing = Inr DEFAULT_POLICY"
| "load_user_policy ReadFailed = Inl PolicyUnreadable"
| "load_user_policy (ReadJson parsed) =
     (case Option.bind parsed parse_policy of None \<Rightarrow> Inl PolicyInvalid | Some p \<Rightarrow> Inr p)"

definition validate_effective_policy :: "policy \<Rightarrow> policy_error + policy" where
  "validate_effective_policy policy =
     (let blocked = length (filter (\<lambda>e. snd e = Some AccessBlocked) (pl_callers policy))
      in if blocked > MAX_CARD_BLOCKED_CALLERS then Inl (TooManyBlocked blocked) else Inr policy)"

fun validate_policy_assertions :: "policy \<Rightarrow> nat \<Rightarrow> policy_assertion list \<Rightarrow> policy_error option" where
  "validate_policy_assertions effective index [] = None"
| "validate_policy_assertions effective index (a # rest) =
     (let actual = access_for effective (pa_caller a)
      in if actual = pa_expect_access a then validate_policy_assertions effective (Suc index) rest
         else Some (AssertionFailed (Suc index) a actual))"

definition validate_policy :: "policy \<Rightarrow> policy_error + policy" where
  "validate_policy user = (case validate_effective_policy user of
     Inl e \<Rightarrow> Inl e
   | Inr effective \<Rightarrow>
       (case validate_policy_assertions effective 0 (or_default (pl_tests user) []) of
          Some e \<Rightarrow> Inl e | None \<Rightarrow> Inr effective))"

definition load_policy :: "local_read \<Rightarrow> policy_error + policy" where
  "load_policy file = (case load_user_policy file of Inl e \<Rightarrow> Inl e | Inr user \<Rightarrow> validate_policy user)"

definition caller_entry :: "policy \<Rightarrow> string \<Rightarrow> access option option" where
  "caller_entry policy handle = map_of (pl_callers policy) handle"

subsection \<open>Tasks\<close>

record skill_task =
  st_id :: string
  st_name :: string
  st_description :: string
  st_examples :: "string list"
  st_keywords :: "string list"
  st_timeout_s :: "int option"
  st_threadable :: bool
  st_skill :: string

definition ASK_TASK :: skill_task where
  "ASK_TASK = \<lparr>st_id = ''ask'', st_name = ''Ask a question'',
     st_description = ''Answer questions using the files in the public directory.'',
     st_examples = [], st_keywords = [], st_timeout_s = None, st_threadable = True, st_skill = []\<rparr>"

definition newline :: char where "newline = CHR 0x0A"
definition carriage :: char where "carriage = CHR 0x0D"

text \<open>\<open>\r?\n\<close> at the head of a text: what follows it.\<close>

definition eat_newline :: "string \<Rightarrow> string option" where
  "eat_newline s = (case s of
     a # rest \<Rightarrow> if a = newline then Some rest
                else (case rest of b # rest' \<Rightarrow> if a = carriage \<and> b = newline then Some rest' else None | [] \<Rightarrow> None)
   | [] \<Rightarrow> None)"

text \<open>The closing fence at the head of a text, with the line break before it.\<close>

definition closing_fence :: "string \<Rightarrow> string option" where
  "closing_fence s = (case eat_newline s of
     None \<Rightarrow> None
   | Some t \<Rightarrow>
       if \<not> starts_with ''---'' t then None
       else (let rest = dropWhile (\<lambda>c. c = CHR '' '' \<or> c = CHR 0x09) (drop 3 t)
             in if rest = [] then Some [] else eat_newline rest))"

fun find_fence :: "string \<Rightarrow> (string \<times> string) option" where
  "find_fence s = (case closing_fence s of
     Some body \<Rightarrow> Some ([], body)
   | None \<Rightarrow> (case s of [] \<Rightarrow> None
              | c # cs \<Rightarrow> map_option (\<lambda>(meta, body). (c # meta, body)) (find_fence cs)))"

declare find_fence.simps [simp del]

definition split_frontmatter :: "string \<Rightarrow> (string \<times> string) option" where
  "split_frontmatter s =
     (if starts_with ''---'' s then Option.bind (eat_newline (drop 3 s)) find_fence else None)"

record skill_frontmatter =
  fm_name :: "string option"
  fm_description :: string
  fm_examples :: "string list"
  fm_keywords :: "string list"
  fm_timeout_s :: "int option"
  fm_threadable :: bool

definition bounded_text :: "nat \<Rightarrow> nat \<Rightarrow> js_value \<Rightarrow> string option" where
  "bounded_text least most = read_str (\<lambda>s. least \<le> length s \<and> length s \<le> most)"

definition read_examples :: "js_value \<Rightarrow> string list option" where
  "read_examples v = at_most 10 (read_array (bounded_text 0 500) v)"

definition read_keywords :: "js_value \<Rightarrow> string list option" where
  "read_keywords v = at_most MAX_TASK_KEYWORDS (read_array (bounded_text 1 MAX_KEYWORD_LENGTH) v)"

definition parse_frontmatter :: "js_value \<Rightarrow> skill_frontmatter option" where
  "parse_frontmatter v = do {
     kvs \<leftarrow> strict_object [''name'', ''description'', ''examples'', ''keywords'', ''timeout_s'', ''threadable''] v;
     name \<leftarrow> optional (bounded_text 1 100) (obj_get kvs ''name'');
     description \<leftarrow> bounded_text 1 1000 (obj_get kvs ''description'');
     examples \<leftarrow> read_default [] read_examples (obj_get kvs ''examples'');
     keywords \<leftarrow> read_default [] read_keywords (obj_get kvs ''keywords'');
     timeout \<leftarrow> optional (read_int (\<lambda>n. 0 < n \<and> n \<le> 300)) (obj_get kvs ''timeout_s'');
     threadable \<leftarrow> read_default True read_bool (obj_get kvs ''threadable'');
     Some \<lparr>fm_name = name, fm_description = description, fm_examples = examples, fm_keywords = keywords,
           fm_timeout_s = timeout, fm_threadable = threadable\<rparr> }"

text \<open>A directory entry of the tasks directory, with the text of its \<open>SKILL.md\<close>.\<close>

datatype skill_file = NoSkillFile | SkillUnreadable | SkillText string

record dir_entry =
  de_name :: string
  de_is_directory :: bool
  de_skill :: skill_file

datatype task_warning = BadTaskId | DuplicateTaskId | MissingSkill | NoFrontmatter | BadFrontmatter

definition load_skill :: "(string \<Rightarrow> js_value option) \<Rightarrow> string \<Rightarrow> skill_file \<Rightarrow> task_warning + skill_task" where
  "load_skill parse_yaml i file = (case file of
     NoSkillFile \<Rightarrow> Inl MissingSkill
   | SkillUnreadable \<Rightarrow> Inl BadFrontmatter
   | SkillText s \<Rightarrow>
       (case split_frontmatter s of
          None \<Rightarrow> Inl NoFrontmatter
        | Some (meta, body) \<Rightarrow>
            (case Option.bind (parse_yaml meta) parse_frontmatter of
               None \<Rightarrow> Inl BadFrontmatter
             | Some fm \<Rightarrow> Inr \<lparr>st_id = i, st_name = or_default (fm_name fm) i, st_description = fm_description fm,
                 st_examples = fm_examples fm, st_keywords = fm_keywords fm, st_timeout_s = fm_timeout_s fm,
                 st_threadable = fm_threadable fm, st_skill = body\<rparr>)))"

fun load_entries ::
  "(string \<Rightarrow> js_value option) \<Rightarrow> dir_entry list \<Rightarrow> skill_task list
   \<Rightarrow> skill_task list \<times> (string \<times> task_warning) list" where
  "load_entries parse_yaml [] tasks = (tasks, [])"
| "load_entries parse_yaml (entry # entries) tasks =
     (if \<not> de_is_directory entry then load_entries parse_yaml entries tasks
      else
        let i = de_name entry;
            outcome = (if \<not> task_id_re i then Inl BadTaskId
                       else if list_ex (\<lambda>t. st_id t = i) tasks then Inl DuplicateTaskId
                       else load_skill parse_yaml i (de_skill entry))
        in case outcome of
             Inl w \<Rightarrow> (let (ts, ws) = load_entries parse_yaml entries tasks in (ts, (i, w) # ws))
           | Inr t \<Rightarrow> load_entries parse_yaml entries (tasks @ [t]))"

definition load_tasks ::
  "(string \<Rightarrow> js_value option) \<Rightarrow> dir_entry list option \<Rightarrow> skill_task list \<times> (string \<times> task_warning) list" where
  "load_tasks parse_yaml dir = (case dir of
     None \<Rightarrow> ([ASK_TASK], []) | Some entries \<Rightarrow> load_entries parse_yaml entries [ASK_TASK])"

datatype scaffold_result = InvalidTaskId | ReservedTaskId | TaskExists string | Scaffolded string

definition scaffold_task :: "string \<Rightarrow> (string \<Rightarrow> bool) \<Rightarrow> string \<Rightarrow> scaffold_result" where
  "scaffold_task tasks_root exists i =
     (let dir = path_join tasks_root i
      in if \<not> task_id_re i then InvalidTaskId
         else if i = st_id ASK_TASK then ReservedTaskId
         else if exists dir then TaskExists dir
         else Scaffolded (path_join dir ''SKILL.md''))"

datatype refusal = RefusedBlocked | RefusedTaskUnknown

datatype task_resolution = TaskResolved "skill_task option" | TaskRefused refusal "string list"

definition resolve_task :: "policy \<Rightarrow> skill_task list \<Rightarrow> string \<Rightarrow> string option \<Rightarrow> task_resolution" where
  "resolve_task policy tasks from requested =
     (if access_for policy from = AccessBlocked then TaskRefused RefusedBlocked []
      else case requested of
        Some r \<Rightarrow> (case find (\<lambda>t. st_id t = r) tasks of
                    None \<Rightarrow> TaskRefused RefusedTaskUnknown (map st_id tasks)
                  | Some t \<Rightarrow> TaskResolved (Some t))
      | None \<Rightarrow> TaskResolved (find (\<lambda>t. st_id t = ''ask'') tasks))"

subsection \<open>Cards\<close>

record card_task =
  ct_id :: string
  ct_name :: string
  ct_description :: string
  ct_examples :: "string list"
  ct_keywords :: "string list"

record card_upload =
  cu_description :: string
  cu_agent_kind :: agent_kind
  cu_tasks :: "card_task list"
  cu_blocked :: "string list"
  cu_offline_enabled :: bool

definition read_card_task :: "js_value \<Rightarrow> card_task option" where
  "read_card_task v = do {
     kvs \<leftarrow> strict_object [''id'', ''name'', ''description'', ''examples'', ''keywords''] v;
     i \<leftarrow> read_str task_id_re (obj_get kvs ''id'');
     name \<leftarrow> bounded_text 1 100 (obj_get kvs ''name'');
     description \<leftarrow> bounded_text 1 1000 (obj_get kvs ''description'');
     examples \<leftarrow> read_examples (obj_get kvs ''examples'');
     keywords \<leftarrow> read_keywords (obj_get kvs ''keywords'');
     Some \<lparr>ct_id = i, ct_name = name, ct_description = description, ct_examples = examples, ct_keywords = keywords\<rparr> }"

definition parse_card_upload :: "js_value \<Rightarrow> card_upload option" where
  "parse_card_upload v = do {
     kvs \<leftarrow> strict_object [''description'', ''agent_kind'', ''tasks'', ''blocked'', ''offline_delivery''] v;
     description \<leftarrow> bounded_text 0 500 (obj_get kvs ''description'');
     kind \<leftarrow> read_agent_kind (obj_get kvs ''agent_kind'');
     tasks \<leftarrow> at_most MAX_CARD_TASKS (read_array read_card_task (obj_get kvs ''tasks''));
     blocked \<leftarrow> at_most MAX_CARD_BLOCKED_CALLERS (read_array (read_str handle_re) (obj_get kvs ''blocked''));
     offline \<leftarrow> read_default False read_offline (obj_get kvs ''offline_delivery'');
     Some \<lparr>cu_description = description, cu_agent_kind = kind, cu_tasks = tasks, cu_blocked = blocked,
           cu_offline_enabled = offline\<rparr> }"

definition visible_card_tasks :: "card_upload \<Rightarrow> string \<Rightarrow> card_task list" where
  "visible_card_tasks upload viewer = (if viewer \<in> set (cu_blocked upload) then [] else cu_tasks upload)"

text \<open>\<open>parsed\<close> is \<open>JSON.parse\<close> of the row, absent when it throws.\<close>

definition parse_stored_card :: "js_value option \<Rightarrow> card_upload option" where
  "parse_stored_card parsed = Option.bind parsed parse_card_upload"

definition card_task_of :: "skill_task \<Rightarrow> card_task" where
  "card_task_of t = \<lparr>ct_id = st_id t, ct_name = st_name t, ct_description = st_description t,
     ct_examples = st_examples t, ct_keywords = st_keywords t\<rparr>"

definition build_card_upload :: "agent_kind option \<Rightarrow> policy \<Rightarrow> skill_task list \<Rightarrow> card_upload option" where
  "build_card_upload kind policy tasks = (case kind of
     None \<Rightarrow> None
   | Some k \<Rightarrow> Some \<lparr>cu_description = pl_description policy, cu_agent_kind = k,
       cu_tasks = map card_task_of tasks,
       cu_blocked = map fst (filter (\<lambda>e. snd e = Some AccessBlocked) (pl_callers policy)),
       cu_offline_enabled = pl_offline_enabled policy\<rparr>)"

subsection \<open>Policy verbs\<close>

datatype verb = VerbBlock | VerbUnblock | VerbAccessDefault | VerbOfflineDelivery

datatype verb_error = InvalidHandle | NeedsAccess | NeedsEnabled

text \<open>What the verb reports: the new setting, or for \<open>unblock\<close> what the caller resolves to.\<close>

datatype verb_line = LineBlocked string | LineResolved string access | LineDefault access | LineOffline bool

fun set_caller :: "string \<Rightarrow> access option \<Rightarrow> (string \<times> access option) list \<Rightarrow> (string \<times> access option) list" where
  "set_caller h a [] = [(h, a)]"
| "set_caller h a ((k, v) # kvs) = (if k = h then (h, a) # kvs else (k, v) # set_caller h a kvs)"

definition exec_verb :: "policy \<Rightarrow> verb \<Rightarrow> string \<Rightarrow> verb_error + (policy \<times> verb_line list)" where
  "exec_verb policy v a = (case v of
     VerbBlock \<Rightarrow>
       (if \<not> handle_re a then Inl InvalidHandle
        else Inr (policy\<lparr>pl_callers := set_caller a (Some AccessBlocked) (pl_callers policy)\<rparr>, [LineBlocked a]))
   | VerbUnblock \<Rightarrow>
       (if \<not> handle_re a then Inl InvalidHandle
        else let p = policy\<lparr>pl_callers := filter (\<lambda>e. fst e \<noteq> a) (pl_callers policy)\<rparr>
             in Inr (p, [LineResolved a (access_for p a)]))
   | VerbAccessDefault \<Rightarrow>
       (case read_access (JStr a) of
          None \<Rightarrow> Inl NeedsAccess
        | Some d \<Rightarrow> Inr (policy\<lparr>pl_default_access := d\<rparr>, [LineDefault d]))
   | VerbOfflineDelivery \<Rightarrow>
       (if a \<noteq> ''enabled'' \<and> a \<noteq> ''disabled'' then Inl NeedsEnabled
        else Inr (policy\<lparr>pl_offline_enabled := (a = ''enabled'')\<rparr>, [LineOffline (a = ''enabled'')])))"

end
