(* ===== verification/LocalStores.thy ===== *)
theory LocalStores
  imports Policy
begin

text \<open>
  The small local stores of an installation: replay reservations (\<open>replay-store.ts\<close>), the
  execution journal (\<open>execution-journal.ts\<close>) and the conversation contexts of both sides
  (\<open>contexts.ts\<close>, \<open>contexts-out.ts\<close>), all in \<open>packages/cli/src\<close>. Each update runs under a file
  lock, so an operation is one function on the store; \<open>stored\<close> is what the file holds.
\<close>

datatype 'a stored = StoreMissing | StoreNotPrivate | StoreCorrupt | Stored 'a

subsection \<open>Replay reservations\<close>

definition MAX_REPLAY_RESERVATIONS :: nat where "MAX_REPLAY_RESERVATIONS = 10000"
definition REPLAY_RETENTION_SKEW_MS :: int where "REPLAY_RETENTION_SKEW_MS = 120000"

definition MAX_RESERVATION_FUTURE_MS :: int where
  "MAX_RESERVATION_FUTURE_MS = RELAY_CALL_TIMEOUT_MS + REPLAY_RETENTION_SKEW_MS"

record replay_reservation =
  rr_sender_fingerprint :: string
  rr_request_id :: string
  rr_expires_at :: int

definition fingerprint_re :: "string \<Rightarrow> bool" where
  "fingerprint_re s = (take 7 s = ''SHA256:'' \<and> hex_of_length 32 (drop 7 s))"

definition reservation_ok :: "replay_reservation \<Rightarrow> bool" where
  "reservation_ok r =
     (fingerprint_re (rr_sender_fingerprint r) \<and> hex_of_length 32 (rr_request_id r) \<and>
      0 \<le> rr_expires_at r \<and> rr_expires_at r \<le> MAX_SAFE_INTEGER - REPLAY_RETENTION_SKEW_MS)"

definition reservation_key :: "replay_reservation \<Rightarrow> string" where
  "reservation_key r = rr_sender_fingerprint r @ '':'' @ rr_request_id r"

text \<open>The schema of the whole store: valid entries, no more than the cap, no key twice.\<close>

definition replay_store_ok :: "replay_reservation list \<Rightarrow> bool" where
  "replay_store_ok rs =
     (list_all reservation_ok rs \<and> length rs \<le> MAX_REPLAY_RESERVATIONS \<and> distinct (map reservation_key rs))"

datatype replay_error =
  ReservationInvalid | ReservationTimeInvalid | ReservationExpiry | ReplayNotPrivate | ReplayCorrupt
| ReplayDetected | ReplayFull | ReplayUnwritable

definition load_replay_reservations :: "replay_reservation list stored \<Rightarrow> replay_error + replay_reservation list" where
  "load_replay_reservations store = (case store of
     StoreMissing \<Rightarrow> Inr []
   | StoreNotPrivate \<Rightarrow> Inl ReplayNotPrivate
   | StoreCorrupt \<Rightarrow> Inl ReplayCorrupt
   | Stored rs \<Rightarrow> if replay_store_ok rs then Inr rs else Inl ReplayCorrupt)"

definition reservation_le :: "(string \<Rightarrow> string \<Rightarrow> int) \<Rightarrow> replay_reservation \<Rightarrow> replay_reservation \<Rightarrow> bool" where
  "reservation_le cmp a b =
     (let by_expiry = rr_expires_at a - rr_expires_at b;
          by_sender = cmp (rr_sender_fingerprint a) (rr_sender_fingerprint b)
      in if by_expiry \<noteq> 0 then by_expiry \<le> 0
         else if by_sender \<noteq> 0 then by_sender \<le> 0
         else cmp (rr_request_id a) (rr_request_id b) \<le> 0)"

definition live_reservations :: "int \<Rightarrow> replay_reservation list \<Rightarrow> replay_reservation list" where
  "live_reservations now rs = filter (\<lambda>e. now < rr_expires_at e + REPLAY_RETENTION_SKEW_MS) rs"

definition save_replay_reservations :: "replay_reservation list \<Rightarrow> replay_error + replay_reservation list" where
  "save_replay_reservations rs = (if replay_store_ok rs then Inr rs else Inl ReplayUnwritable)"

text \<open>The store after a reservation, or why it was refused; \<open>cmp\<close> is \<open>localeCompare\<close>.\<close>

definition reserve_replay ::
  "(string \<Rightarrow> string \<Rightarrow> int) \<Rightarrow> int \<Rightarrow> replay_reservation list stored \<Rightarrow> replay_reservation
   \<Rightarrow> replay_error + replay_reservation list" where
  "reserve_replay cmp now store r =
     (if \<not> reservation_ok r then Inl ReservationInvalid
      else if now < 0 \<or> now > MAX_SAFE_INTEGER then Inl ReservationTimeInvalid
      else if rr_expires_at r \<le> now \<or> rr_expires_at r > now + MAX_RESERVATION_FUTURE_MS then Inl ReservationExpiry
      else case load_replay_reservations store of
        Inl e \<Rightarrow> Inl e
      | Inr loaded \<Rightarrow>
          (let live = live_reservations now loaded
           in if list_ex (\<lambda>e. rr_sender_fingerprint e = rr_sender_fingerprint r \<and> rr_request_id e = rr_request_id r) live
              then Inl ReplayDetected
              else if length live \<ge> MAX_REPLAY_RESERVATIONS then Inl ReplayFull
              else save_replay_reservations (stable_sort (reservation_le cmp) (live @ [r]))))"

subsection \<open>The execution journal\<close>

definition MAX_EXECUTION_RECORDS :: nat where "MAX_EXECUTION_RECORDS = 1000"

datatype execution_state = ExClaimed | ExStarted | ExTerminal

record execution_record =
  er_call_id :: string
  er_request_envelope_sha256 :: string
  er_state :: execution_state
  er_updated_at :: int
  er_purge_after :: int

definition execution_record_ok :: "execution_record \<Rightarrow> bool" where
  "execution_record_ok r =
     (er_call_id r \<noteq> [] \<and> sha256_hex_re (er_request_envelope_sha256 r) \<and> 0 \<le> er_updated_at r \<and> 0 < er_purge_after r)"

definition journal_ok :: "execution_record list \<Rightarrow> bool" where
  "journal_ok rs =
     (list_all execution_record_ok rs \<and> length rs \<le> MAX_EXECUTION_RECORDS \<and> distinct (map er_call_id rs))"

datatype journal_error =
  JournalInput | JournalNotPrivate | JournalCorrupt | JournalFull | JournalMissingRecord
| JournalConflict | JournalNotClaimed | JournalAlreadyTerminal | JournalUnwritable

definition load_execution_journal :: "execution_record list stored \<Rightarrow> journal_error + execution_record list" where
  "load_execution_journal store = (case store of
     StoreMissing \<Rightarrow> Inr []
   | StoreNotPrivate \<Rightarrow> Inl JournalNotPrivate
   | StoreCorrupt \<Rightarrow> Inl JournalCorrupt
   | Stored rs \<Rightarrow> if journal_ok rs then Inr rs else Inl JournalCorrupt)"

definition save_journal :: "execution_record list \<Rightarrow> journal_error + execution_record list" where
  "save_journal rs = (if journal_ok rs then Inr rs else Inl JournalUnwritable)"

datatype claim_decision = ClaimExecute | ClaimConflict execution_state | ClaimIndeterminate | ClaimTerminal

definition new_claim :: "int \<Rightarrow> string \<Rightarrow> string \<Rightarrow> execution_record" where
  "new_claim now call_id digest = \<lparr>er_call_id = call_id, er_request_envelope_sha256 = digest, er_state = ExClaimed,
     er_updated_at = now, er_purge_after = now + MAILBOX_TTL_MS + MAILBOX_TOMBSTONE_TTL_MS\<rparr>"

fun existing_claim :: "execution_state \<Rightarrow> claim_decision" where
  "existing_claim ExClaimed = ClaimExecute"
| "existing_claim ExStarted = ClaimIndeterminate"
| "existing_claim ExTerminal = ClaimTerminal"

text \<open>The store is rewritten only by a new claim.\<close>

definition claim_execution ::
  "int \<Rightarrow> execution_record list stored \<Rightarrow> string \<Rightarrow> string
   \<Rightarrow> journal_error + (execution_record list stored \<times> claim_decision)" where
  "claim_execution now store call_id digest =
     (if call_id = [] \<or> \<not> sha256_hex_re digest then Inl JournalInput
      else case load_execution_journal store of
        Inl e \<Rightarrow> Inl e
      | Inr loaded \<Rightarrow>
          (let records = filter (\<lambda>r. now < er_purge_after r) loaded
           in case find (\<lambda>r. er_call_id r = call_id) records of
                Some existing \<Rightarrow>
                  Inr (store, if er_request_envelope_sha256 existing \<noteq> digest then ClaimConflict (er_state existing)
                              else existing_claim (er_state existing))
              | None \<Rightarrow>
                  if length records \<ge> MAX_EXECUTION_RECORDS then Inl JournalFull
                  else if \<not> execution_record_ok (new_claim now call_id digest) then Inl JournalInput
                  else case save_journal (records @ [new_claim now call_id digest]) of
                    Inl e \<Rightarrow> Inl e
                  | Inr rs \<Rightarrow> Inr (Stored rs, ClaimExecute)))"

fun transition_error :: "execution_state \<Rightarrow> execution_state \<Rightarrow> journal_error option" where
  "transition_error target current =
     (if target = ExStarted \<and> current \<noteq> ExClaimed then Some JournalNotClaimed
      else if target = ExTerminal \<and> current = ExTerminal then Some JournalAlreadyTerminal
      else None)"

fun update_record :: "string \<Rightarrow> (execution_record \<Rightarrow> execution_record) \<Rightarrow> execution_record list \<Rightarrow> execution_record list" where
  "update_record call_id f [] = []"
| "update_record call_id f (r # rs) =
     (if er_call_id r = call_id then f r # rs else r # update_record call_id f rs)"

definition journal_transition ::
  "execution_state \<Rightarrow> int \<Rightarrow> execution_record list stored \<Rightarrow> string \<Rightarrow> string
   \<Rightarrow> journal_error + execution_record list" where
  "journal_transition target now store call_id digest = (case load_execution_journal store of
     Inl e \<Rightarrow> Inl e
   | Inr records \<Rightarrow>
       (case find (\<lambda>r. er_call_id r = call_id) records of
          None \<Rightarrow> Inl JournalMissingRecord
        | Some record \<Rightarrow>
            if er_request_envelope_sha256 record \<noteq> digest then Inl JournalConflict
            else case transition_error target (er_state record) of
              Some e \<Rightarrow> Inl e
            | None \<Rightarrow> save_journal (update_record call_id (\<lambda>r. r\<lparr>er_state := target, er_updated_at := now\<rparr>) records)))"

definition mark_execution_started ::
  "int \<Rightarrow> execution_record list stored \<Rightarrow> string \<Rightarrow> string \<Rightarrow> journal_error + execution_record list" where
  "mark_execution_started = journal_transition ExStarted"

definition mark_execution_terminal ::
  "int \<Rightarrow> execution_record list stored \<Rightarrow> string \<Rightarrow> string \<Rightarrow> journal_error + execution_record list" where
  "mark_execution_terminal = journal_transition ExTerminal"

subsection \<open>Contexts of the callee\<close>

record context_binding =
  cb_context_id :: string
  cb_agent_session_id :: string
  cb_caller :: string
  cb_task :: string
  cb_agent_kind :: agent_kind
  cb_workdir :: string
  cb_turns :: int
  cb_created_at :: int
  cb_last_used_at :: int

definition read_binding :: "js_value \<Rightarrow> context_binding option" where
  "read_binding v = do {
     kvs \<leftarrow> as_object v;
     i \<leftarrow> read_str context_id_re (obj_get kvs ''context_id'');
     session \<leftarrow> read_str (\<lambda>s. s \<noteq> []) (obj_get kvs ''agent_session_id'');
     caller \<leftarrow> read_str (\<lambda>s. s \<noteq> []) (obj_get kvs ''caller'');
     task \<leftarrow> read_str (\<lambda>s. s \<noteq> []) (obj_get kvs ''task'');
     kind \<leftarrow> read_agent_kind (obj_get kvs ''agent_kind'');
     workdir \<leftarrow> read_str (\<lambda>s. s \<noteq> []) (obj_get kvs ''workdir'');
     turns \<leftarrow> read_int (\<lambda>n. 0 \<le> n) (obj_get kvs ''turns'');
     created \<leftarrow> read_int (\<lambda>_. True) (obj_get kvs ''created_at'');
     used \<leftarrow> read_int (\<lambda>_. True) (obj_get kvs ''last_used_at'');
     Some \<lparr>cb_context_id = i, cb_agent_session_id = session, cb_caller = caller, cb_task = task,
           cb_agent_kind = kind, cb_workdir = workdir, cb_turns = turns, cb_created_at = created,
           cb_last_used_at = used\<rparr> }"

fun load_contexts :: "local_read \<Rightarrow> context_binding list" where
  "load_contexts (ReadJson parsed) = or_default (Option.bind parsed (read_array read_binding)) []"
| "load_contexts _ = []"

record admit_input =
  ad_context_id :: string
  ad_caller :: string
  ad_task :: string
  ad_agent_kind :: agent_kind
  ad_workdir :: string
  ad_now :: int

definition admit_context :: "context_binding list \<Rightarrow> admit_input \<Rightarrow> context_binding option" where
  "admit_context bindings input = (case find (\<lambda>b. cb_context_id b = ad_context_id input) bindings of
     None \<Rightarrow> None
   | Some b \<Rightarrow>
       if cb_caller b \<noteq> ad_caller input then None
       else if cb_task b \<noteq> ad_task input then None
       else if cb_agent_kind b \<noteq> ad_agent_kind input then None
       else if cb_workdir b \<noteq> ad_workdir input then None
       else if ad_now input - cb_last_used_at b \<ge> CONTEXT_TTL_MS then None
       else if cb_turns b \<ge> MAX_CONTEXT_TURNS then None
       else Some b)"

definition prune_contexts :: "context_binding list \<Rightarrow> int \<Rightarrow> context_binding list" where
  "prune_contexts bindings now =
     take MAX_CONTEXTS (stable_sort (\<lambda>a b. cb_last_used_at b - cb_last_used_at a \<le> 0)
       (filter (\<lambda>b. now - cb_last_used_at b < CONTEXT_TTL_MS) bindings))"

definition upsert_context :: "context_binding list \<Rightarrow> context_binding \<Rightarrow> context_binding list" where
  "upsert_context bindings b = b # filter (\<lambda>x. cb_context_id x \<noteq> cb_context_id b) bindings"

subsection \<open>Contexts of the caller\<close>

record outbound_context =
  oc_relay :: string
  oc_from :: string
  oc_to :: string
  oc_task :: string
  oc_context_id :: string
  oc_at :: int

record outbound_key =
  ok_relay :: string
  ok_from :: string
  ok_to :: string
  ok_task :: "string option"

definition read_outbound :: "js_value \<Rightarrow> outbound_context option" where
  "read_outbound v = do {
     kvs \<leftarrow> as_object v;
     relay \<leftarrow> read_str (\<lambda>s. s \<noteq> []) (obj_get kvs ''relay'');
     from \<leftarrow> read_str (\<lambda>s. s \<noteq> []) (obj_get kvs ''from'');
     to \<leftarrow> read_str (\<lambda>s. s \<noteq> []) (obj_get kvs ''to'');
     task \<leftarrow> read_str (\<lambda>s. s \<noteq> []) (obj_get kvs ''task'');
     i \<leftarrow> read_str context_id_re (obj_get kvs ''context_id'');
     at \<leftarrow> read_int (\<lambda>_. True) (obj_get kvs ''at'');
     Some \<lparr>oc_relay = relay, oc_from = from, oc_to = to, oc_task = task, oc_context_id = i, oc_at = at\<rparr> }"

fun load_outbound :: "local_read \<Rightarrow> outbound_context list" where
  "load_outbound (ReadJson parsed) = or_default (Option.bind parsed (read_array read_outbound)) []"
| "load_outbound _ = []"

definition same_target :: "outbound_context \<Rightarrow> outbound_key \<Rightarrow> bool" where
  "same_target a k =
     (oc_relay a = ok_relay k \<and> oc_from a = ok_from k \<and> oc_to a = ok_to k \<and>
      (ok_task k = None \<or> ok_task k = Some (oc_task a)))"

definition match_outbound :: "outbound_context list \<Rightarrow> outbound_key \<Rightarrow> outbound_context list" where
  "match_outbound entries k = filter (\<lambda>e. same_target e k) entries"

definition outbound_key_of :: "outbound_context \<Rightarrow> outbound_key" where
  "outbound_key_of e = \<lparr>ok_relay = oc_relay e, ok_from = oc_from e, ok_to = oc_to e, ok_task = Some (oc_task e)\<rparr>"

definition remember_outbound :: "local_read \<Rightarrow> outbound_context \<Rightarrow> outbound_context list" where
  "remember_outbound file entry =
     entry # filter (\<lambda>e. \<not> same_target e (outbound_key_of entry)) (load_outbound file)"

definition forget_outbound :: "local_read \<Rightarrow> outbound_key \<Rightarrow> outbound_context list" where
  "forget_outbound file k = filter (\<lambda>e. \<not> same_target e k) (load_outbound file)"

subsection \<open>A request is accepted once\<close>

fun replay_run ::
  "(string \<Rightarrow> string \<Rightarrow> int) \<Rightarrow> (int \<times> replay_reservation) list \<Rightarrow> replay_reservation list stored \<Rightarrow> bool list" where
  "replay_run cmp [] store = []"
| "replay_run cmp ((now, r) # rest) store = (case reserve_replay cmp now store r of
     Inl _ \<Rightarrow> False # replay_run cmp rest store
   | Inr rs \<Rightarrow> True # replay_run cmp rest (Stored rs))"

text \<open>The clock may step back, but never more than the retention skew behind a time already seen.\<close>

fun steady_clock :: "int \<Rightarrow> (int \<times> 'a) list \<Rightarrow> bool" where
  "steady_clock latest [] = True"
| "steady_clock latest ((now, _) # rest) =
     (latest - REPLAY_RETENTION_SKEW_MS \<le> now \<and> steady_clock (max latest now) rest)"

text \<open>A reservation that cannot be accepted again: still stored, or expired for good.\<close>

definition spent :: "replay_reservation \<Rightarrow> replay_reservation list stored \<Rightarrow> int \<Rightarrow> bool" where
  "spent r store latest =
     ((\<exists>rs. store = Stored rs \<and> r \<in> set rs) \<or> rr_expires_at r + REPLAY_RETENTION_SKEW_MS \<le> latest)"

lemma length_replay_run [simp]: "length (replay_run cmp attempts store) = length attempts"
  by (induction cmp attempts store rule: replay_run.induct) (auto split: sum.split)

lemma reserve_replay_guards:
  assumes "reserve_replay cmp now store r = Inr rs"
  shows "now < rr_expires_at r" "\<exists>loaded. load_replay_reservations store = Inr loaded \<and>
    \<not> list_ex (\<lambda>e. rr_sender_fingerprint e = rr_sender_fingerprint r \<and> rr_request_id e = rr_request_id r)
        (live_reservations now loaded) \<and>
    save_replay_reservations (stable_sort (reservation_le cmp) (live_reservations now loaded @ [r])) = Inr rs"
proof -
  show "now < rr_expires_at r" using assms by (auto simp: reserve_replay_def split: if_split_asm)
  show "\<exists>loaded. load_replay_reservations store = Inr loaded \<and>
    \<not> list_ex (\<lambda>e. rr_sender_fingerprint e = rr_sender_fingerprint r \<and> rr_request_id e = rr_request_id r)
        (live_reservations now loaded) \<and>
    save_replay_reservations (stable_sort (reservation_le cmp) (live_reservations now loaded @ [r])) = Inr rs"
    using assms unfolding reserve_replay_def Let_def
    by (cases "load_replay_reservations store") (simp_all split: if_split_asm)
qed

lemma reserve_replay_accepted:
  assumes "reserve_replay cmp now store r = Inr rs"
  shows "now < rr_expires_at r \<and> r \<in> set rs \<and>
    (\<exists>loaded. load_replay_reservations store = Inr loaded \<and> set rs = insert r (set (live_reservations now loaded)) \<and>
       (\<forall>e\<in>set (live_reservations now loaded).
          rr_sender_fingerprint e = rr_sender_fingerprint r \<longrightarrow> rr_request_id e \<noteq> rr_request_id r))"
proof -
  obtain loaded where l: "load_replay_reservations store = Inr loaded"
    "\<not> list_ex (\<lambda>e. rr_sender_fingerprint e = rr_sender_fingerprint r \<and> rr_request_id e = rr_request_id r)
        (live_reservations now loaded)"
    "save_replay_reservations (stable_sort (reservation_le cmp) (live_reservations now loaded @ [r])) = Inr rs"
    using reserve_replay_guards(2)[OF assms] by blast
  then have "rs = stable_sort (reservation_le cmp) (live_reservations now loaded @ [r])"
    by (simp add: save_replay_reservations_def split: if_split_asm)
  then show ?thesis using reserve_replay_guards(1)[OF assms] l by (auto simp: list_ex_iff)
qed

lemma load_replay_stored: "load_replay_reservations store = Inr loaded \<Longrightarrow> store = StoreMissing \<and> loaded = [] \<or> store = Stored loaded"
  by (auto simp: load_replay_reservations_def split: stored.splits if_splits)

lemma spent_refused:
  assumes "spent r store latest" "latest - REPLAY_RETENTION_SKEW_MS \<le> now"
  shows "\<exists>e. reserve_replay cmp now store r = Inl e"
proof (rule ccontr)
  assume "\<nexists>e. reserve_replay cmp now store r = Inl e"
  then obtain rs where rs: "reserve_replay cmp now store r = Inr rs" by (cases "reserve_replay cmp now store r") auto
  note acc = reserve_replay_accepted[OF rs]
  then obtain loaded where l: "load_replay_reservations store = Inr loaded" "r \<notin> set (live_reservations now loaded)" by blast
  from acc have "now < rr_expires_at r" by blast
  then have "\<not> rr_expires_at r + REPLAY_RETENTION_SKEW_MS \<le> latest" using assms(2) by simp
  then have "r \<in> set loaded" using assms(1) load_replay_stored[OF l(1)] by (auto simp: spent_def)
  then show False using l(2) \<open>now < rr_expires_at r\<close> by (simp add: live_reservations_def REPLAY_RETENTION_SKEW_MS_def)
qed

lemma spent_kept:
  assumes "spent r store latest" "reserve_replay cmp now store x = Inr rs"
  shows "spent r (Stored rs) (max latest now)"
proof -
  obtain loaded where l: "load_replay_reservations store = Inr loaded" "set rs = insert x (set (live_reservations now loaded))"
    using reserve_replay_accepted[OF assms(2)] by blast
  consider "r \<in> set loaded" | "rr_expires_at r + REPLAY_RETENTION_SKEW_MS \<le> latest"
    using assms(1) load_replay_stored[OF l(1)] unfolding spent_def by fastforce
  then show ?thesis
  proof cases
    case 1
    then have "r \<in> set rs \<or> rr_expires_at r + REPLAY_RETENTION_SKEW_MS \<le> now"
      using l(2) unfolding live_reservations_def by fastforce
    then show ?thesis unfolding spent_def by fastforce
  next
    case 2
    then show ?thesis unfolding spent_def by fastforce
  qed
qed

lemma spent_mono: "spent r store latest \<Longrightarrow> spent r store (max latest now)"
  by (auto simp: spent_def)

lemma spent_run:
  "spent r store latest \<Longrightarrow> steady_clock latest attempts \<Longrightarrow> k < length attempts \<Longrightarrow> snd (attempts ! k) = r \<Longrightarrow>
   \<not> replay_run cmp attempts store ! k"
proof (induction attempts arbitrary: store latest k)
  case (Cons a rest)
  obtain now x where a: "a = (now, x)" by (cases a)
  show ?case
  proof (cases k)
    case 0
    then have "x = r" using Cons.prems(4) a by simp
    then obtain e where "reserve_replay cmp now store r = Inl e"
      using spent_refused Cons.prems(1,2) a by fastforce
    then show ?thesis using 0 a \<open>x = r\<close> by simp
  next
    case (Suc j)
    have "spent r store' (max latest now)" if "reserve_replay cmp now store x = Inl e \<and> store' = store \<or>
        (\<exists>rs. reserve_replay cmp now store x = Inr rs \<and> store' = Stored rs)" for store' e
      using that spent_kept[OF Cons.prems(1)] spent_mono[OF Cons.prems(1)] by auto
    then show ?thesis
      using Cons.IH[of _ "max latest now" j] Cons.prems(2-4) a Suc
      by (cases "reserve_replay cmp now store x") auto
  qed
qed simp

text \<open>
  C34: An encrypted request is accepted once. Over any run of attempts, from any store, a
  reservation that was accepted is refused at every later attempt, provided the clock never
  falls more than the two-minute retention skew behind a time it has already shown.
\<close>

theorem replay_accepted_once:
  assumes "steady_clock latest attempts" "i < j" "j < length attempts" "snd (attempts ! i) = snd (attempts ! j)"
    "replay_run cmp attempts store ! i"
  shows "\<not> replay_run cmp attempts store ! j"
  using assms
proof (induction attempts arbitrary: store latest i j)
  case (Cons a rest)
  obtain now x where a: "a = (now, x)" by (cases a)
  obtain j' where j: "j = Suc j'" using Cons.prems(2) by (cases j) auto
  have steady: "steady_clock (max latest now) rest" using Cons.prems(1) a by simp
  show ?case
  proof (cases i)
    case 0
    then obtain rs where rs: "reserve_replay cmp now store x = Inr rs"
      using Cons.prems(5) a by (cases "reserve_replay cmp now store x") auto
    have "spent x (Stored rs) (max latest now)" using reserve_replay_accepted[OF rs] by (auto simp: spent_def)
    then show ?thesis using spent_run[OF _ steady] Cons.prems(3,4) a j 0 rs by simp
  next
    case (Suc i')
    then show ?thesis using Cons.IH[OF steady, of i' j'] Cons.prems(2-5) a j
      by (cases "reserve_replay cmp now store x") auto
  qed
qed simp

definition sample_reservation :: replay_reservation where
  "sample_reservation = \<lparr>rr_sender_fingerprint = ''SHA256:'' @ replicate 32 (CHR ''a''),
     rr_request_id = replicate 32 (CHR ''b''), rr_expires_at = 5000\<rparr>"

lemma replay_accepted_once_witness:
  "\<not> replay_run (\<lambda>_ _. 0) [(1000, sample_reservation), (2000, sample_reservation)] StoreMissing ! 1"
proof (rule replay_accepted_once[of 0 _ 0])
  have "reservation_ok sample_reservation"
    by (simp add: reservation_ok_def sample_reservation_def fingerprint_re_def hex_of_length_def lower_hex_def list_all_iff
        MAX_SAFE_INTEGER_def REPLAY_RETENTION_SKEW_MS_def)
  then show "replay_run (\<lambda>_ _. 0) [(1000, sample_reservation), (2000, sample_reservation)] StoreMissing ! 0"
    by (simp add: reserve_replay_def load_replay_reservations_def live_reservations_def save_replay_reservations_def
        stable_sort_def replay_store_ok_def MAX_REPLAY_RESERVATIONS_def MAX_SAFE_INTEGER_def
        MAX_RESERVATION_FUTURE_MS_def RELAY_CALL_TIMEOUT_MS_def REPLAY_RETENTION_SKEW_MS_def
        sample_reservation_def[THEN arg_cong, of rr_expires_at] Let_def)
qed (simp_all add: REPLAY_RETENTION_SKEW_MS_def)

subsection \<open>A durable call is executed once\<close>

datatype journal_op = OpClaim string string | OpStarted string string | OpTerminal string string

fun op_call :: "journal_op \<Rightarrow> string" where
  "op_call (OpClaim c _) = c"
| "op_call (OpStarted c _) = c"
| "op_call (OpTerminal c _) = c"

datatype journal_outcome = Decided claim_decision | Marked | JournalRefused journal_error

definition marked :: "execution_record list stored \<Rightarrow> journal_error + execution_record list \<Rightarrow> execution_record list stored \<times> journal_outcome" where
  "marked store r = (case r of Inl e \<Rightarrow> (store, JournalRefused e) | Inr rs \<Rightarrow> (Stored rs, Marked))"

fun journal_apply :: "int \<Rightarrow> journal_op \<Rightarrow> execution_record list stored \<Rightarrow> execution_record list stored \<times> journal_outcome" where
  "journal_apply now (OpClaim c d) store = (case claim_execution now store c d of
     Inl e \<Rightarrow> (store, JournalRefused e) | Inr (store', decision) \<Rightarrow> (store', Decided decision))"
| "journal_apply now (OpStarted c d) store = marked store (mark_execution_started now store c d)"
| "journal_apply now (OpTerminal c d) store = marked store (mark_execution_terminal now store c d)"

fun journal_run :: "(int \<times> journal_op) list \<Rightarrow> execution_record list stored \<Rightarrow> journal_outcome list" where
  "journal_run [] store = []"
| "journal_run ((now, x) # rest) store =
     (let (store', outcome) = journal_apply now x store in outcome # journal_run rest store')"

text \<open>The journal holds the call, started or terminal, until \<open>purge\<close>.\<close>

definition holds_started :: "execution_record list stored \<Rightarrow> string \<Rightarrow> int \<Rightarrow> bool" where
  "holds_started store c purge = (\<exists>rs r. store = Stored rs \<and> journal_ok rs \<and> r \<in> set rs \<and>
     er_call_id r = c \<and> er_state r \<noteq> ExClaimed \<and> er_purge_after r = purge)"

lemma find_distinct:
  assumes "distinct (map er_call_id rs)" "r \<in> set rs"
  shows "find (\<lambda>x. er_call_id x = er_call_id r) rs = Some r"
  using assms by (induction rs) (auto simp: image_iff)

lemma set_update_record:
  assumes "distinct (map er_call_id rs)" "x \<in> set rs" "er_call_id x = c"
  shows "set (update_record c f rs) = insert (f x) (set rs - {x})"
  using assms by (induction rs) (auto simp: image_iff)

lemma claim_holds:
  assumes "holds_started store c purge" "now < purge" "claim_execution now store i d = Inr (store', decision)"
  shows "holds_started store' c purge \<and> (i = c \<longrightarrow> decision \<noteq> ClaimExecute)"
proof -
  obtain rs r where r: "store = Stored rs" "journal_ok rs" "r \<in> set rs" "er_call_id r = c" "er_state r \<noteq> ExClaimed"
    "er_purge_after r = purge" using assms(1) unfolding holds_started_def by blast
  let ?live = "filter (\<lambda>r. now < er_purge_after r) rs"
  have l: "load_execution_journal store = Inr rs" using r(1,2) by (simp add: load_execution_journal_def)
  have live: "r \<in> set ?live" "distinct (map er_call_id ?live)"
    using r assms(2) by (auto simp: journal_ok_def distinct_map_filter)
  show ?thesis
  proof (cases "find (\<lambda>x. er_call_id x = i) ?live")
    case (Some e)
    then have d: "store' = store" "decision = (if er_request_envelope_sha256 e \<noteq> d then ClaimConflict (er_state e)
        else existing_claim (er_state e))"
      using assms(3) l unfolding claim_execution_def Let_def by (simp_all split: if_split_asm)
    have "e = r" if "i = c" using find_distinct[OF live(2,1)] Some that r(4) by simp
    then show ?thesis using d assms(1) r(5) by (cases "er_state r") auto
  next
    case None
    then have "i \<noteq> c" using live(1) r(4) by (auto simp: find_None_iff)
    have "store' = Stored (?live @ [new_claim now i d])" "journal_ok (?live @ [new_claim now i d])"
      using assms(3) l None unfolding claim_execution_def Let_def by (auto simp: save_journal_def split: if_split_asm)
    then show ?thesis using live(1) r(4-6) \<open>i \<noteq> c\<close> unfolding holds_started_def by (metis Un_iff set_append)
  qed
qed

lemma transition_holds:
  assumes "holds_started store c purge" "journal_transition target now store i d = Inr rs'" "target \<noteq> ExClaimed"
  shows "holds_started (Stored rs') c purge \<and> (i = c \<longrightarrow> target \<noteq> ExStarted)"
proof -
  obtain rs r where r: "store = Stored rs" "journal_ok rs" "r \<in> set rs" "er_call_id r = c" "er_state r \<noteq> ExClaimed"
    "er_purge_after r = purge" using assms(1) unfolding holds_started_def by blast
  have l: "load_execution_journal store = Inr rs" using r(1,2) by (simp add: load_execution_journal_def)
  let ?f = "\<lambda>r. r\<lparr>er_state := target, er_updated_at := now\<rparr>"
  obtain x where x: "find (\<lambda>x. er_call_id x = i) rs = Some x" "transition_error target (er_state x) = None"
    "rs' = update_record i ?f rs" "journal_ok rs'"
    using assms(2) l unfolding journal_transition_def
    by (auto simp: save_journal_def simp del: transition_error.simps split: option.splits if_split_asm)
  have xi: "x \<in> set rs" "er_call_id x = i" using find_Some_iff_mem[OF x(1)] by auto
  have s: "set rs' = insert (?f x) (set rs - {x})" using set_update_record[OF _ xi] r(2) x(3) by (simp add: journal_ok_def)
  show ?thesis
  proof (cases "i = c")
    case True
    then have "x = r" using find_distinct[OF _ r(3)] r(2,4) x(1) by (simp add: journal_ok_def)
    then have "target \<noteq> ExStarted" using x(2) r(5) by (auto split: if_splits)
    have "er_call_id (?f r) = c \<and> er_state (?f r) \<noteq> ExClaimed \<and> er_purge_after (?f r) = purge"
      using r(4,6) assms(3) by simp
    moreover have "?f r \<in> set rs'" using s \<open>x = r\<close> by simp
    ultimately show ?thesis using x(4) \<open>target \<noteq> ExStarted\<close> unfolding holds_started_def by blast
  next
    case False
    then have "r \<in> set rs'" using s r(3,4) xi(2) by auto
    then show ?thesis using x(4) r(4-6) False unfolding holds_started_def by blast
  qed
qed

text \<open>
  C35: A started execution is never started again. While the journal record of a call that was
  started or finished is kept, no claim of that call, by whatever digest, answers "execute"
  and no attempt to mark it started succeeds, in any sequence of operations on any calls.
\<close>

theorem journal_no_reexecution:
  assumes "holds_started store c purge" "list_all (\<lambda>x. fst x < purge) ops" "k < length ops"
    "op_call (snd (ops ! k)) = c"
  shows "journal_run ops store ! k \<noteq> Decided ClaimExecute \<and>
    (\<forall>d. snd (ops ! k) = OpStarted c d \<longrightarrow> journal_run ops store ! k \<noteq> Marked)"
  using assms
proof (induction ops arbitrary: store k)
  case (Cons a rest)
  obtain now x where a: "a = (now, x)" by (cases a)
  obtain store' outcome where o: "journal_apply now x store = (store', outcome)" by fastforce
  have step: "holds_started store' c purge \<and> (op_call x = c \<longrightarrow> outcome \<noteq> Decided ClaimExecute \<and>
      (\<forall>d. x = OpStarted c d \<longrightarrow> outcome \<noteq> Marked))"
  proof (cases x)
    case (OpClaim i d)
    then show ?thesis using o claim_holds[OF Cons.prems(1), of now i d] Cons.prems(1,2) a
      by (auto split: sum.splits prod.splits)
  next
    case (OpStarted i d)
    then show ?thesis using o transition_holds[OF Cons.prems(1), of ExStarted now i d] Cons.prems(1)
      by (auto simp: marked_def mark_execution_started_def split: sum.splits)
  next
    case (OpTerminal i d)
    then show ?thesis using o transition_holds[OF Cons.prems(1), of ExTerminal now i d] Cons.prems(1)
      by (auto simp: marked_def mark_execution_terminal_def split: sum.splits)
  qed
  have run: "journal_run (a # rest) store = outcome # journal_run rest store'" using a o by simp
  show ?case
  proof (cases k)
    case 0
    then show ?thesis using step Cons.prems(4) a unfolding run by simp
  next
    case (Suc j)
    then show ?thesis using Cons.IH[of store' j] step Cons.prems(2-4) unfolding run by simp
  qed
qed simp

definition sample_execution :: execution_record where
  "sample_execution = \<lparr>er_call_id = ''c1'', er_request_envelope_sha256 = replicate 64 (CHR ''a''),
     er_state = ExStarted, er_updated_at = 1, er_purge_after = 9000\<rparr>"

lemma journal_no_reexecution_witness:
  "journal_run [(5, OpClaim ''c1'' (replicate 64 (CHR ''a'')))] (Stored [sample_execution]) ! 0 \<noteq> Decided ClaimExecute"
proof -
  have "holds_started (Stored [sample_execution]) ''c1'' 9000"
    by (simp add: holds_started_def journal_ok_def execution_record_ok_def sample_execution_def sha256_hex_re_def
        hex_of_length_def lower_hex_def list_all_iff MAX_EXECUTION_RECORDS_def)
  from journal_no_reexecution[OF this, of "[(5, OpClaim ''c1'' (replicate 64 (CHR ''a'')))]" 0]
  show ?thesis by simp
qed

end
