(* ===== verification/OutboundJobs.thy ===== *)
theory OutboundJobs
  imports FileLock LocalStores
begin

text \<open>
  The durable calls a client has in flight, \<open>packages/cli/src/outbound-jobs.ts\<close>: a job is
  written before the request leaves, bound to its ciphertext, gets its task id from the
  relay's receipt and is forgotten when its outcome has been authenticated. Every update
  runs under the file lock. \<open>url_ok\<close> is the schema's URL test.
\<close>

datatype job_state = JobPending | JobQueued

record outbound_job =
  oj_message_id :: string
  oj_relay :: string
  oj_address :: string
  oj_frame :: call_request
  oj_request_id :: string
  oj_transcript_hash :: string
  oj_recipient_pub :: string
  oj_sender_epoch :: int
  oj_created_at :: int
  oj_expires_at :: int
  oj_state :: job_state
  oj_task_id :: "string option"
  oj_submitted_at :: "int option"

definition MAX_OUTBOUND_JOBS :: nat where "MAX_OUTBOUND_JOBS = 1000"

definition outbound_job_ok :: "(string \<Rightarrow> bool) \<Rightarrow> outbound_job \<Rightarrow> bool" where
  "outbound_job_ok url_ok j =
     (message_id_re (oj_message_id j) \<and> url_ok (oj_relay j) \<and> oj_address j \<noteq> [] \<and>
      hex_of_length 32 (oj_request_id j) \<and> sha256_hex_re (oj_transcript_hash j) \<and> oj_recipient_pub j \<noteq> [] \<and>
      0 < oj_sender_epoch j \<and> 0 \<le> oj_created_at j \<and> 0 < oj_expires_at j \<and>
      opt_all (\<lambda>t. t \<noteq> []) (oj_task_id j) \<and> opt_all (\<lambda>n. 0 \<le> n) (oj_submitted_at j) \<and>
      oj_expires_at j > oj_created_at j)"

definition job_task_ids :: "outbound_job list \<Rightarrow> string list" where
  "job_task_ids jobs = concat (map (\<lambda>j. case oj_task_id j of None \<Rightarrow> [] | Some t \<Rightarrow> if t = [] then [] else [t]) jobs)"

definition outbound_jobs_ok :: "(string \<Rightarrow> bool) \<Rightarrow> outbound_job list \<Rightarrow> bool" where
  "outbound_jobs_ok url_ok jobs =
     (list_all (outbound_job_ok url_ok) jobs \<and> length jobs \<le> MAX_OUTBOUND_JOBS \<and>
      distinct (map oj_message_id jobs) \<and> distinct (job_task_ids jobs))"

datatype job_error =
  JobInvalid | JobsNotPrivate | JobsCorrupt | JobsUnwritable | CiphertextConflict | JobsFull | NoMatchingJob

definition load_outbound_jobs :: "(string \<Rightarrow> bool) \<Rightarrow> outbound_job list stored \<Rightarrow> job_error + outbound_job list" where
  "load_outbound_jobs url_ok store = (case store of
     StoreMissing \<Rightarrow> Inr []
   | StoreNotPrivate \<Rightarrow> Inl JobsNotPrivate
   | StoreCorrupt \<Rightarrow> Inl JobsCorrupt
   | Stored jobs \<Rightarrow> if outbound_jobs_ok url_ok jobs then Inr jobs else Inl JobsCorrupt)"

definition save_jobs :: "(string \<Rightarrow> bool) \<Rightarrow> outbound_job list \<Rightarrow> job_error + outbound_job list stored" where
  "save_jobs url_ok jobs = (if outbound_jobs_ok url_ok jobs then Inr (Stored jobs) else Inl JobsUnwritable)"

type_synonym 'a job_update = "outbound_job list stored \<Rightarrow> job_error + outbound_job list stored \<times> 'a"

text \<open>The candidate is parsed before the lock is taken; jobs that expired by its creation are dropped.\<close>

definition remember_outbound_job :: "(string \<Rightarrow> bool) \<Rightarrow> outbound_job \<Rightarrow> outbound_job job_update" where
  "remember_outbound_job url_ok raw store =
     (let candidate = raw\<lparr>oj_state := JobPending, oj_task_id := None, oj_submitted_at := None\<rparr>
      in if \<not> outbound_job_ok url_ok candidate then Inl JobInvalid
         else case load_outbound_jobs url_ok store of
             Inl e \<Rightarrow> Inl e
           | Inr loaded \<Rightarrow>
               (let jobs = filter (\<lambda>j. oj_expires_at j > oj_created_at candidate) loaded
                in case find (\<lambda>j. oj_message_id j = oj_message_id candidate) jobs of
                     Some existing \<Rightarrow>
                       if oj_frame existing \<noteq> oj_frame candidate then Inl CiphertextConflict else Inr (store, existing)
                   | None \<Rightarrow>
                       if length jobs \<ge> MAX_OUTBOUND_JOBS then Inl JobsFull
                       else map_sum id (\<lambda>d. (d, candidate)) (save_jobs url_ok (jobs @ [candidate]))))"

record durable_receipt =
  dr_task_id :: string
  dr_submitted_at :: int
  dr_expires_at :: int

definition queued_job :: "durable_receipt \<Rightarrow> outbound_job \<Rightarrow> outbound_job" where
  "queued_job r j = j\<lparr>oj_state := JobQueued, oj_task_id := Some (dr_task_id r), oj_submitted_at := Some (dr_submitted_at r),
     oj_expires_at := dr_expires_at r\<rparr>"

fun update_job :: "string \<Rightarrow> (outbound_job \<Rightarrow> outbound_job) \<Rightarrow> outbound_job list \<Rightarrow> outbound_job list" where
  "update_job m f [] = []"
| "update_job m f (j # kept) = (if oj_message_id j = m then f j # kept else j # update_job m f kept)"

definition acknowledge_outbound_job ::
  "(string \<Rightarrow> bool) \<Rightarrow> string \<Rightarrow> durable_receipt \<Rightarrow> outbound_job job_update" where
  "acknowledge_outbound_job url_ok m r store = (case load_outbound_jobs url_ok store of
     Inl e \<Rightarrow> Inl e
   | Inr jobs \<Rightarrow>
       (case find (\<lambda>j. oj_message_id j = m) jobs of
          None \<Rightarrow> Inl NoMatchingJob
        | Some j \<Rightarrow>
            if \<not> outbound_job_ok url_ok (queued_job r j) then Inl JobInvalid
            else map_sum id (\<lambda>d. (d, queued_job r j)) (save_jobs url_ok (update_job m (queued_job r) jobs))))"

definition find_outbound_job ::
  "(string \<Rightarrow> bool) \<Rightarrow> outbound_job list stored \<Rightarrow> string \<Rightarrow> string \<Rightarrow> job_error + outbound_job option" where
  "find_outbound_job url_ok store address task =
     map_sum id (find (\<lambda>j. oj_address j = address \<and> oj_task_id j = Some task)) (load_outbound_jobs url_ok store)"

definition forget_outbound_job :: "(string \<Rightarrow> bool) \<Rightarrow> string \<Rightarrow> unit job_update" where
  "forget_outbound_job url_ok m store = (case load_outbound_jobs url_ok store of
     Inl e \<Rightarrow> Inl e
   | Inr jobs \<Rightarrow>
       (let retained = filter (\<lambda>j. oj_message_id j \<noteq> m) jobs
        in if length retained \<noteq> length jobs then map_sum id (\<lambda>d. (d, ())) (save_jobs url_ok retained)
           else Inr (store, ())))"

subsection \<open>What an update does\<close>

text \<open>The updates of the store, with their results forgotten.\<close>

definition job_updates :: "(string \<Rightarrow> bool) \<Rightarrow> unit job_update set" where
  "job_updates url_ok =
     {\<lambda>d. map_sum id (apsnd (\<lambda>_. ())) (remember_outbound_job url_ok j d) | j. True} \<union>
     {\<lambda>d. map_sum id (apsnd (\<lambda>_. ())) (acknowledge_outbound_job url_ok m r d) | m r. True} \<union>
     {forget_outbound_job url_ok m | m. True}"

text \<open>What a job is bound to for good.\<close>

definition job_binding :: "outbound_job \<Rightarrow> string \<times> call_request \<times> string \<times> string \<times> string \<times> string \<times> int \<times> int" where
  "job_binding j = (oj_relay j, oj_frame j, oj_request_id j, oj_transcript_hash j, oj_recipient_pub j, oj_address j,
     oj_sender_epoch j, oj_created_at j)"

lemma save_jobs_Inr: "save_jobs u jobs = Inr d \<longleftrightarrow> d = Stored jobs \<and> outbound_jobs_ok u jobs"
  by (auto simp: save_jobs_def)

lemma load_saved: "outbound_jobs_ok u jobs \<Longrightarrow> load_outbound_jobs u (Stored jobs) = Inr jobs"
  by (simp add: load_outbound_jobs_def)

lemma load_ok: "load_outbound_jobs u d = Inr jobs \<Longrightarrow> outbound_jobs_ok u jobs"
  by (auto simp: load_outbound_jobs_def outbound_jobs_ok_def job_task_ids_def split: stored.splits if_splits)

lemma message_id_unique:
  assumes "outbound_jobs_ok u jobs" "j \<in> set jobs" "j' \<in> set jobs" "oj_message_id j = oj_message_id j'"
  shows "j = j'"
  using assms by (auto simp: outbound_jobs_ok_def distinct_map inj_on_def)

lemma update_job_mem: "x \<in> set (update_job m f kept) \<Longrightarrow> x \<in> set kept \<or> (\<exists>j\<in>set kept. oj_message_id j = m \<and> x = f j)"
  by (induction kept) (auto split: if_splits)

lemma remember_cases:
  assumes "remember_outbound_job u j d = Inr (d', x)"
  shows "\<exists>loaded. load_outbound_jobs u d = Inr loaded \<and>
    (d' = d \<and> x \<in> set loaded \<and> oj_frame x = oj_frame j \<and> oj_message_id x = oj_message_id j \<or>
     (\<exists>kept. d' = Stored (kept @ [x]) \<and> outbound_jobs_ok u (kept @ [x]) \<and> set kept \<subseteq> set loaded \<and>
        (\<forall>y\<in>set loaded. y \<in> set kept \<or> oj_expires_at y \<le> oj_created_at x) \<and>
        x = j\<lparr>oj_state := JobPending, oj_task_id := None, oj_submitted_at := None\<rparr>))"
proof -
  let ?c = "j\<lparr>oj_state := JobPending, oj_task_id := None, oj_submitted_at := None\<rparr>"
  obtain loaded where l: "load_outbound_jobs u d = Inr loaded"
    using assms by (auto simp: remember_outbound_job_def Let_def split: if_splits sum.splits)
  let ?kept = "filter (\<lambda>y. oj_expires_at y > oj_created_at ?c) loaded"
  show ?thesis
  proof (cases "find (\<lambda>y. oj_message_id y = oj_message_id ?c) ?kept")
    case (Some y)
    then have "y \<in> set loaded" "oj_message_id y = oj_message_id j" using find_Some_iff_mem by fastforce+
    moreover have "d' = d" "x = y" "oj_frame y = oj_frame j"
      using assms l Some by (auto simp: remember_outbound_job_def Let_def split: if_splits)
    ultimately show ?thesis using l by blast
  next
    case None
    then have "save_jobs u (?kept @ [?c]) = Inr d'" "x = ?c"
      using assms l by (auto simp: remember_outbound_job_def Let_def map_sum_def split: if_splits sum.splits)
    then show ?thesis using l by (intro exI[of _ loaded] conjI disjI2 exI[of _ ?kept]) (auto simp: save_jobs_Inr)
  qed
qed

lemma acknowledge_cases:
  assumes "acknowledge_outbound_job u m r d = Inr (d', x)"
  obtains jobs j where "load_outbound_jobs u d = Inr jobs" "j \<in> set jobs" "oj_message_id j = m" "x = queued_job r j"
    "d' = Stored (update_job m (queued_job r) jobs)" "outbound_jobs_ok u (update_job m (queued_job r) jobs)"
  using assms
  by (auto simp: acknowledge_outbound_job_def map_sum_def save_jobs_Inr split: if_splits sum.splits option.splits
      dest!: find_Some_iff_mem)


lemma forget_cases:
  assumes "forget_outbound_job u m d = Inr (d', x)"
  shows "\<exists>jobs. load_outbound_jobs u d = Inr jobs \<and>
    (d' = d \<or> d' = Stored (filter (\<lambda>j. oj_message_id j \<noteq> m) jobs) \<and> outbound_jobs_ok u (filter (\<lambda>j. oj_message_id j \<noteq> m) jobs))"
  using assms by (auto simp: forget_outbound_job_def Let_def map_sum_def save_jobs_Inr split: if_splits sum.splits)

lemma queued_binding [simp]: "job_binding (queued_job r j) = job_binding j" "oj_message_id (queued_job r j) = oj_message_id j"
  by (simp_all add: job_binding_def queued_job_def)

text \<open>One update keeps every binding, and replaces a job only after it expired.\<close>

definition job_kept :: "outbound_job list \<Rightarrow> outbound_job list \<Rightarrow> bool" where
  "job_kept jobs jobs' \<longleftrightarrow> (\<forall>j\<in>set jobs. \<forall>j'\<in>set jobs'. oj_message_id j = oj_message_id j' \<longrightarrow>
     job_binding j' = job_binding j \<or> oj_expires_at j \<le> oj_created_at j')"

lemma job_kept_subset:
  "outbound_jobs_ok u jobs \<Longrightarrow> set jobs' \<subseteq> set jobs \<Longrightarrow> job_kept jobs jobs'"
  unfolding job_kept_def using message_id_unique by blast

lemma job_step:
  assumes "store_step (job_updates u) d d'"
  shows "\<exists>jobs jobs'. load_outbound_jobs u d = Inr jobs \<and> load_outbound_jobs u d' = Inr jobs' \<and> job_kept jobs jobs'"
proof -
  consider (remember) j x where "remember_outbound_job u j d = Inr (d', x)"
    | (acknowledge) m r x where "acknowledge_outbound_job u m r d = Inr (d', x)"
    | (forget) m x where "forget_outbound_job u m d = Inr (d', x)"
    using assms by (fastforce simp: store_step_def job_updates_def map_sum_def split: sum.splits)
  then show ?thesis
  proof cases
    case remember
    then obtain loaded where l: "load_outbound_jobs u d = Inr loaded"
      and c: "d' = d \<and> x \<in> set loaded \<or>
       (\<exists>kept. d' = Stored (kept @ [x]) \<and> outbound_jobs_ok u (kept @ [x]) \<and> set kept \<subseteq> set loaded \<and>
          (\<forall>y\<in>set loaded. y \<in> set kept \<or> oj_expires_at y \<le> oj_created_at x))"
      using remember_cases by blast
    from c show ?thesis
    proof (elim disjE exE conjE)
      assume "d' = d"
      then show ?thesis using l job_kept_subset[OF load_ok[OF l]] by auto
    next
      fix kept
      assume k: "d' = Stored (kept @ [x])" "outbound_jobs_ok u (kept @ [x])" "set kept \<subseteq> set loaded"
        "\<forall>y\<in>set loaded. y \<in> set kept \<or> oj_expires_at y \<le> oj_created_at x"
      have "job_kept loaded (kept @ [x])"
        unfolding job_kept_def
      proof (intro ballI impI)
        fix y z assume yz: "y \<in> set loaded" "z \<in> set (kept @ [x])" "oj_message_id y = oj_message_id z"
        show "job_binding z = job_binding y \<or> oj_expires_at y \<le> oj_created_at z"
        proof (cases "z \<in> set kept")
          case True
          then show ?thesis using message_id_unique[OF load_ok[OF l] yz(1) _ yz(3)] k(3) by auto
        next
          case False
          then have "z = x" using yz(2) by simp
          moreover have "y \<notin> set kept \<or> y = x" using message_id_unique[OF k(2), of y x] yz(3) \<open>z = x\<close> by auto
          ultimately show ?thesis using k(4) yz(1) by auto
        qed
      qed
      then show ?thesis using l load_saved[OF k(2)] k(1) by blast
    qed
  next
    case acknowledge
    then obtain jobs j where a: "load_outbound_jobs u d = Inr jobs" "d' = Stored (update_job m (queued_job r) jobs)"
      "outbound_jobs_ok u (update_job m (queued_job r) jobs)" by (rule acknowledge_cases)
    have "job_kept jobs (update_job m (queued_job r) jobs)"
      unfolding job_kept_def
    proof (intro ballI impI disjI1)
      fix y z assume yz: "y \<in> set jobs" "z \<in> set (update_job m (queued_job r) jobs)" "oj_message_id y = oj_message_id z"
      from update_job_mem[OF yz(2)] obtain w where "w \<in> set jobs" "job_binding z = job_binding w" "oj_message_id z = oj_message_id w"
        by auto
      then show "job_binding z = job_binding y" using message_id_unique[OF load_ok[OF a(1)], of y w] yz by simp
    qed
    then show ?thesis using a load_saved[OF a(3)] by blast
  next
    case forget
    then obtain jobs where f: "load_outbound_jobs u d = Inr jobs"
      "d' = d \<or> d' = Stored (filter (\<lambda>j. oj_message_id j \<noteq> m) jobs) \<and> outbound_jobs_ok u (filter (\<lambda>j. oj_message_id j \<noteq> m) jobs)"
      using forget_cases by blast
    then show ?thesis using job_kept_subset[OF load_ok[OF f(1)]] load_saved by fastforce
  qed
qed

text \<open>
  C32: A durable call stays bound to its ciphertext. Whatever the processes of an installation
  do to the outbound store at the same time, and wherever one of them dies, the store stays
  readable, and the next update leaves every job it keeps bound to the same ciphertext,
  request, recipient key and sender epoch; a message id is bound anew only after the old
  job has expired.
\<close>
theorem outbound_binding_kept:
  assumes "(conc (lock_programs (job_updates url_ok)))\<^sup>*\<^sup>* (s, used, []) (s', used', ps)" "ls_lock s = None"
    and "load_outbound_jobs url_ok (ls_data s) = Inr jobs"
  shows "\<exists>jobs'. load_outbound_jobs url_ok (ls_data s') = Inr jobs' \<and> outbound_jobs_ok url_ok jobs' \<and>
    (\<forall>d. store_step (job_updates url_ok) (ls_data s') d \<longrightarrow>
       (\<exists>jobs''. load_outbound_jobs url_ok d = Inr jobs'' \<and> job_kept jobs' jobs''))"
proof -
  have "ls_lock s = None \<Longrightarrow> lock_good s" "\<And>o1. ls_lock s = None \<Longrightarrow> \<not> holds_lock o1 s"
    by (auto simp: lock_good_def holds_lock_def)
  then have "(store_step (job_updates url_ok))\<^sup>*\<^sup>* (ls_data s) (ls_data s')"
    using locked_updates_run[OF assms(1)] assms(2) by auto
  then have "\<exists>jobs'. load_outbound_jobs url_ok (ls_data s') = Inr jobs'"
    by (induction rule: rtranclp_induct) (use assms(3) job_step in blast)+
  then obtain jobs' where j: "load_outbound_jobs url_ok (ls_data s') = Inr jobs'" by blast
  then show ?thesis using load_ok[OF j] job_step by fastforce
qed

text \<open>A call is remembered by one process while the store is empty.\<close>

definition sample_job :: outbound_job where
  "sample_job = \<lparr>oj_message_id = replicate 32 CHR ''a'', oj_relay = ''https://r'', oj_address = ''@acme/bob'',
     oj_frame = \<lparr>cr_envelope = \<lparr>en_direction = Request, en_relay_origin = ''r'', en_from = ''@acme/ann'', en_to = ''@acme/bob'',
       en_key_id = ''k'', en_epoch = 1, en_enc = ''e'', en_ct = ''c''\<rparr>, cr_message_id = Some (replicate 32 CHR ''a''),
       cr_delivery_mode = Some Durable, cr_correlation_id = ''x'', cr_traceparent = None\<rparr>,
     oj_request_id = replicate 32 CHR ''b'', oj_transcript_hash = replicate 64 CHR ''c'', oj_recipient_pub = ''p'',
     oj_sender_epoch = 1, oj_created_at = 100, oj_expires_at = 200, oj_state = JobPending, oj_task_id = None, oj_submitted_at = None\<rparr>"

lemma outbound_binding_kept_witness:
  "\<exists>jobs''. load_outbound_jobs (\<lambda>_. True) (Stored []) = Inr jobs'' \<and> job_kept [sample_job] jobs''"
proof -
  let ?u = "\<lambda>_ :: string. True"
  let ?f = "\<lambda>d. map_sum id (apsnd (\<lambda>_. ())) (remember_outbound_job ?u sample_job d)"
  have mem: "?f \<in> job_updates ?u" "forget_outbound_job ?u (replicate 32 CHR ''a'') \<in> job_updates ?u"
    unfolding job_updates_def by blast+
  have f: "remember_outbound_job ?u sample_job StoreMissing = Inr (Stored [sample_job], sample_job)"
    "forget_outbound_job ?u (replicate 32 CHR ''a'') (Stored [sample_job]) = Inr (Stored [], ())"
    "load_outbound_jobs ?u (Stored [sample_job]) = Inr [sample_job]"
    by code_simp+
  have "(''o'', locked_update ''o'' 1 ?f) \<in> lock_programs (job_updates ?u)" using mem(1) by (auto simp: lock_programs_def)
  moreover have "run_prog (locked_update ''o'' 1 ?f) \<lparr>ls_lock = None, ls_data = StoreMissing\<rparr> =
      (\<lparr>ls_lock = None, ls_data = Stored [sample_job]\<rparr>, Inr ())" by (simp add: locked_update_alone f(1))
  ultimately have run: "(conc (lock_programs (job_updates ?u)))\<^sup>*\<^sup>* (\<lparr>ls_lock = None, ls_data = StoreMissing\<rparr>, {}, [])
      (\<lparr>ls_lock = None, ls_data = Stored [sample_job]\<rparr>, {''o''}, [])"
    using conc_alone[of "''o''" _ "lock_programs (job_updates ?u)" "{}"] by fastforce
  have "load_outbound_jobs ?u StoreMissing = Inr []" by (simp add: load_outbound_jobs_def)
  with outbound_binding_kept[OF run] have "\<forall>d. store_step (job_updates ?u) (Stored [sample_job]) d \<longrightarrow>
      (\<exists>jobs''. load_outbound_jobs ?u d = Inr jobs'' \<and> job_kept [sample_job] jobs'')" by (simp add: f(3))
  moreover have "store_step (job_updates ?u) (Stored [sample_job]) (Stored [])"
    unfolding store_step_def using mem(2) f(2) by blast
  ultimately show ?thesis by blast
qed

end
