(* ===== verification/Sealing.thy ===== *)
theory Sealing
  imports LocalStores Transcripts
begin

text \<open>
  End-to-end sealing and peer trust in the client: \<open>packages/cli/src/e2ee.ts\<close> and
  \<open>known-peers.ts\<close>. HPKE, ECDSA, SHA-256 and the JSON text of a signed payload are the fields
  of the record \<open>crypto\<close>; what the properties rely on is stated as hypotheses about them.
\<close>

subsection \<open>The platform\<close>

text \<open>
  \<open>cr_open\<close> is absent where decryption throws, \<open>cr_parse_request\<close> and \<open>cr_parse_response\<close> read a
  decrypted text into the shape of a signed payload, \<open>cr_verify\<close> is false for a key that
  cannot be imported.
\<close>

record crypto =
  cr_key_id :: "string \<Rightarrow> string"
  cr_fingerprint :: "byte list \<Rightarrow> string"
  cr_sign :: "string \<Rightarrow> byte list \<Rightarrow> string"
  cr_verify :: "string \<Rightarrow> byte list \<Rightarrow> string \<Rightarrow> bool"
  cr_seal :: "string \<Rightarrow> direction \<Rightarrow> byte list \<Rightarrow> byte list \<Rightarrow> string \<times> string"
  cr_open :: "string \<Rightarrow> direction \<Rightarrow> string \<times> string \<Rightarrow> byte list \<Rightarrow> byte list option"
  cr_json_request :: "request_payload \<Rightarrow> string \<Rightarrow> byte list"
  cr_parse_request :: "byte list \<Rightarrow> (request_payload \<times> string) option"
  cr_json_response :: "response_payload \<Rightarrow> string \<Rightarrow> byte list"
  cr_parse_response :: "byte list \<Rightarrow> (response_payload \<times> string) option"

record seal_identity =
  si_identity_pub :: string
  si_identity_pkcs8 :: string

record recipient_key =
  rk_pub :: string
  rk_key_id :: string
  rk_epoch :: int

record expected_envelope =
  xe_relay_origin :: string
  xe_from :: string
  xe_to :: string
  xe_key_id :: string
  xe_epoch :: int

record response_binding =
  rb_message_id :: "string option"
  rb_request_id :: string
  rb_request_transcript_hash :: string
  rb_delivery_mode :: "delivery_mode option"

datatype sealing_error =
  SeInvalidPayload | SeRecipientKeyId | SeSenderKeyId | SeRecipientMismatch | SeTranscript | SeInvalidEnvelope
| SeDirection | SeRoute | SeDecrypt | SeMalformed | SeHeaderMismatch | SeSender | SeSignature | SeExpired
| SeFuture | SeBinding

subsection \<open>Checks shared by both directions\<close>

definition assert_header_matches :: "envelope \<Rightarrow> direction \<Rightarrow> 'a inner_base_scheme \<Rightarrow> bool" where
  "assert_header_matches e direction p =
     (direction = en_direction e \<and> ib_relay_origin p = en_relay_origin e \<and> ib_from p = en_from e \<and>
      ib_to p = en_to e \<and> ib_recipient_encryption_key_id p = en_key_id e \<and> ib_recipient_epoch p = en_epoch e)"

definition assert_current :: "'a inner_base_scheme \<Rightarrow> int \<Rightarrow> sealing_error option" where
  "assert_current p now =
     (if now \<ge> ib_expires_at p then Some SeExpired
      else if ib_issued_at p > now + 120000 then Some SeFuture else None)"

definition signed_signature_ok :: "string \<Rightarrow> bool" where
  "signed_signature_ok s = (base64url_re s \<and> length s \<le> 256)"

definition expected_route :: "envelope \<Rightarrow> expected_envelope \<Rightarrow> bool" where
  "expected_route e x =
     (en_relay_origin e = xe_relay_origin x \<and> en_from e = xe_from x \<and> en_to e = xe_to x \<and>
      en_key_id e = xe_key_id x \<and> en_epoch e = xe_epoch x)"

definition seal_checks :: "crypto \<Rightarrow> 'a inner_base_scheme \<Rightarrow> seal_identity \<Rightarrow> recipient_key \<Rightarrow> sealing_error option" where
  "seal_checks c p sender recipient =
     (if rk_key_id recipient \<noteq> cr_key_id c (rk_pub recipient) then Some SeRecipientKeyId
      else if ib_sender_identity_key_id p \<noteq> cr_key_id c (si_identity_pub sender) then Some SeSenderKeyId
      else if ib_recipient_encryption_key_id p \<noteq> rk_key_id recipient \<or> ib_recipient_epoch p \<noteq> rk_epoch recipient
      then Some SeRecipientMismatch else None)"

definition seal_header :: "direction \<Rightarrow> 'a inner_base_scheme \<Rightarrow> recipient_key \<Rightarrow> envelope" where
  "seal_header direction p recipient =
     \<lparr>en_direction = direction, en_relay_origin = ib_relay_origin p, en_from = ib_from p, en_to = ib_to p,
      en_key_id = rk_key_id recipient, en_epoch = rk_epoch recipient, en_enc = [], en_ct = []\<rparr>"

text \<open>Encryption under the header as additional data, and the envelope schema on the result.\<close>

definition seal_plaintext ::
  "crypto \<Rightarrow> direction \<Rightarrow> 'a inner_base_scheme \<Rightarrow> recipient_key \<Rightarrow> byte list \<Rightarrow> sealing_error + envelope" where
  "seal_plaintext c direction p recipient plaintext =
     (let header = seal_header direction p recipient
      in case hpke_envelope_aad header of
           Inl _ \<Rightarrow> Inl SeTranscript
         | Inr aad \<Rightarrow>
             (let (enc, ct) = cr_seal c (rk_pub recipient) direction plaintext aad;
                  e = header\<lparr>en_enc := enc, en_ct := ct\<rparr>
              in if envelope_ok e then Inr e else Inl SeInvalidEnvelope))"

definition seal_e2ee_request ::
  "crypto \<Rightarrow> request_payload \<Rightarrow> seal_identity \<Rightarrow> recipient_key \<Rightarrow> sealing_error + envelope" where
  "seal_e2ee_request c p sender recipient =
     (if \<not> request_payload_ok p then Inl SeInvalidPayload
      else case seal_checks c p sender recipient of
        Some e \<Rightarrow> Inl e
      | None \<Rightarrow>
          (case request_transcript p of
             Inl _ \<Rightarrow> Inl SeTranscript
           | Inr t \<Rightarrow> seal_plaintext c Request p recipient (cr_json_request c p (cr_sign c (si_identity_pkcs8 sender) t))))"

definition seal_e2ee_response ::
  "crypto \<Rightarrow> response_payload \<Rightarrow> seal_identity \<Rightarrow> recipient_key \<Rightarrow> sealing_error + envelope" where
  "seal_e2ee_response c p sender recipient =
     (if \<not> response_payload_ok p then Inl SeInvalidPayload
      else case seal_checks c p sender recipient of
        Some e \<Rightarrow> Inl e
      | None \<Rightarrow>
          (case response_transcript p of
             Inl _ \<Rightarrow> Inl SeTranscript
           | Inr t \<Rightarrow> seal_plaintext c Response p recipient (cr_json_response c p (cr_sign c (si_identity_pkcs8 sender) t))))"

text \<open>Parsing, routing and decrypting an envelope.\<close>

definition open_plaintext ::
  "crypto \<Rightarrow> direction \<Rightarrow> js_value \<Rightarrow> string \<Rightarrow> expected_envelope \<Rightarrow> sealing_error + (envelope \<times> byte list)" where
  "open_plaintext c direction raw pkcs8 expected = (case parse_envelope raw of
     None \<Rightarrow> Inl SeInvalidEnvelope
   | Some e \<Rightarrow>
       if en_direction e \<noteq> direction then Inl SeDirection
       else if \<not> expected_route e expected then Inl SeRoute
       else case hpke_envelope_aad e of
         Inl _ \<Rightarrow> Inl SeTranscript
       | Inr aad \<Rightarrow>
           (case cr_open c pkcs8 direction (en_enc e, en_ct e) aad of
              None \<Rightarrow> Inl SeDecrypt | Some plaintext \<Rightarrow> Inr (e, plaintext)))"

definition check_signed ::
  "crypto \<Rightarrow> envelope \<Rightarrow> direction \<Rightarrow> string \<Rightarrow> 'a inner_base_scheme \<Rightarrow> string \<Rightarrow> (transcript_error + byte list) \<Rightarrow> int
   \<Rightarrow> sealing_error option" where
  "check_signed c e direction pinned p signature transcript now =
     (if \<not> assert_header_matches e direction p then Some SeHeaderMismatch
      else if ib_sender_identity_key_id p \<noteq> cr_key_id c pinned then Some SeSender
      else case transcript of
        Inl _ \<Rightarrow> Some SeTranscript
      | Inr t \<Rightarrow> if \<not> cr_verify c pinned t signature then Some SeSignature else assert_current p now)"

definition open_e2ee_request ::
  "crypto \<Rightarrow> js_value \<Rightarrow> string \<Rightarrow> string \<Rightarrow> expected_envelope \<Rightarrow> int \<Rightarrow> sealing_error + request_payload" where
  "open_e2ee_request c raw pkcs8 pinned expected now = (case open_plaintext c Request raw pkcs8 expected of
     Inl e \<Rightarrow> Inl e
   | Inr (e, plaintext) \<Rightarrow>
       (case cr_parse_request c plaintext of
          None \<Rightarrow> Inl SeMalformed
        | Some (p, signature) \<Rightarrow>
            if \<not> request_payload_ok p \<or> \<not> signed_signature_ok signature then Inl SeMalformed
            else case check_signed c e Request pinned p signature (request_transcript p) now of
              Some err \<Rightarrow> Inl err | None \<Rightarrow> Inr p))"

definition binds_response :: "response_payload \<Rightarrow> response_binding \<Rightarrow> bool" where
  "binds_response p b =
     (ib_message_id p = rb_message_id b \<and> ib_request_id p = rb_request_id b \<and>
      rs_request_transcript_hash p = rb_request_transcript_hash b \<and> ib_delivery_mode p = rb_delivery_mode b)"

definition open_e2ee_response ::
  "crypto \<Rightarrow> js_value \<Rightarrow> string \<Rightarrow> string \<Rightarrow> expected_envelope \<Rightarrow> response_binding \<Rightarrow> int
   \<Rightarrow> sealing_error + response_payload" where
  "open_e2ee_response c raw pkcs8 pinned expected binding now = (case open_plaintext c Response raw pkcs8 expected of
     Inl e \<Rightarrow> Inl e
   | Inr (e, plaintext) \<Rightarrow>
       (case cr_parse_response c plaintext of
          None \<Rightarrow> Inl SeMalformed
        | Some (p, signature) \<Rightarrow>
            if \<not> response_payload_ok p \<or> \<not> signed_signature_ok signature then Inl SeMalformed
            else case check_signed c e Response pinned p signature (response_transcript p) now of
              Some err \<Rightarrow> Inl err
            | None \<Rightarrow> if binds_response p binding then Inr p else Inl SeBinding))"

subsection \<open>Pinned peers\<close>

definition MAX_KNOWN_PEERS :: nat where "MAX_KNOWN_PEERS = 10000"

record known_peer =
  kp_relay_origin :: string
  kp_address :: string
  kp_identity_pub :: string
  kp_fingerprint :: string
  kp_first_seen_at :: int
  kp_highest_encryption_epoch :: int
  kp_call_count :: int

definition known_peer_ok :: "known_peer \<Rightarrow> bool" where
  "known_peer_ok p =
     (relay_origin_re (kp_relay_origin p) \<and> address_re (kp_address p) \<and> pub_ok (kp_identity_pub p) \<and>
      fingerprint_re (kp_fingerprint p) \<and> 0 \<le> kp_first_seen_at p \<and> 0 < kp_highest_encryption_epoch p \<and>
      0 \<le> kp_call_count p)"

definition known_peers_ok :: "known_peer list \<Rightarrow> bool" where
  "known_peers_ok ps = (list_all known_peer_ok ps \<and> length ps \<le> MAX_KNOWN_PEERS \<and> distinct (map kp_address ps))"

record key_bundle =
  kb_identity :: identity_record
  kb_record :: encryption_key_record
  kb_signature :: string

datatype peer_error =
  PeStoreNotPrivate | PeStoreCorrupt | PeOtherAddress | PeMixedAddresses | PeKeyNotValid | PeStoredFingerprint
| PeIdentityChanged | PeBadSignature | PeRollback | PeStoreFull | PeUnwritable | PeNotPinned

definition load_known_peers :: "known_peer list stored \<Rightarrow> peer_error + known_peer list" where
  "load_known_peers store = (case store of
     StoreMissing \<Rightarrow> Inr []
   | StoreNotPrivate \<Rightarrow> Inl PeStoreNotPrivate
   | StoreCorrupt \<Rightarrow> Inl PeStoreCorrupt
   | Stored ps \<Rightarrow> if known_peers_ok ps then Inr ps else Inl PeStoreCorrupt)"

definition save_known_peers :: "known_peer list \<Rightarrow> peer_error + known_peer list" where
  "save_known_peers ps = (if known_peers_ok ps then Inr ps else Inl PeUnwritable)"

definition find_peer :: "known_peer list \<Rightarrow> string \<Rightarrow> known_peer option" where
  "find_peer ps address = find (\<lambda>p. kp_address p = address) ps"

definition stored_identity :: "known_peer \<Rightarrow> identity_record" where
  "stored_identity p = \<lparr>ir_relay_origin = kp_relay_origin p, ir_address = kp_address p, ir_identity_pub = kp_identity_pub p\<rparr>"

definition identity_fingerprint :: "crypto \<Rightarrow> identity_record \<Rightarrow> string option" where
  "identity_fingerprint c r = (case identity_transcript r of Inl _ \<Rightarrow> None | Inr t \<Rightarrow> Some (cr_fingerprint c t))"

definition key_signed_by :: "crypto \<Rightarrow> string \<Rightarrow> key_bundle \<Rightarrow> bool" where
  "key_signed_by c pub b = (case encryption_key_transcript (kb_record b) of
     Inl _ \<Rightarrow> False | Inr t \<Rightarrow> cr_verify c pub t (kb_signature b))"

definition key_valid_at :: "key_bundle \<Rightarrow> int \<Rightarrow> bool" where
  "key_valid_at b now = (ek_not_before (kb_record b) \<le> now \<and> now < ek_not_after (kb_record b))"

definition seen_peer :: "known_peer \<Rightarrow> key_bundle \<Rightarrow> known_peer" where
  "seen_peer p b = p\<lparr>kp_highest_encryption_epoch := max (kp_highest_encryption_epoch p) (ek_epoch (kb_record b)),
     kp_call_count := kp_call_count p + 1\<rparr>"

definition first_seen_peer :: "string \<Rightarrow> key_bundle \<Rightarrow> int \<Rightarrow> known_peer" where
  "first_seen_peer print b now =
     \<lparr>kp_relay_origin = ir_relay_origin (kb_identity b), kp_address = ir_address (kb_identity b),
      kp_identity_pub = ir_identity_pub (kb_identity b), kp_fingerprint = print, kp_first_seen_at = now,
      kp_highest_encryption_epoch = ek_epoch (kb_record b), kp_call_count = 1\<rparr>"

definition verify_known_peer ::
  "crypto \<Rightarrow> known_peer list \<Rightarrow> key_bundle \<Rightarrow> int \<Rightarrow> peer_error + (known_peer list \<times> known_peer)" where
  "verify_known_peer c peers b now =
     (let address = ir_address (kb_identity b); existing = find_peer peers address
      in case existing of
        Some p \<Rightarrow>
          if identity_fingerprint c (stored_identity p) \<noteq> Some (kp_fingerprint p) then Inl PeStoredFingerprint
          else if kp_identity_pub p \<noteq> ir_identity_pub (kb_identity b) then Inl PeIdentityChanged
          else if \<not> key_signed_by c (kp_identity_pub p) b then Inl PeBadSignature
          else if ek_epoch (kb_record b) < kp_highest_encryption_epoch p then Inl PeRollback
          else map_sum id (\<lambda>ps. (ps, seen_peer p b))
                 (save_known_peers (map (\<lambda>q. if kp_address q = address then seen_peer p b else q) peers))
      | None \<Rightarrow>
          (case identity_fingerprint c (kb_identity b) of
             None \<Rightarrow> Inl PeUnwritable
           | Some print \<Rightarrow>
               if \<not> key_signed_by c (ir_identity_pub (kb_identity b)) b then Inl PeBadSignature
               else if length peers \<ge> MAX_KNOWN_PEERS then Inl PeStoreFull
               else map_sum id (\<lambda>ps. (ps, first_seen_peer print b now))
                      (save_known_peers (peers @ [first_seen_peer print b now]))))"

definition verify_and_pin_peer ::
  "crypto \<Rightarrow> known_peer list stored \<Rightarrow> string \<Rightarrow> key_bundle \<Rightarrow> int \<Rightarrow> peer_error + (known_peer list \<times> known_peer)" where
  "verify_and_pin_peer c store expected b now =
     (if ir_address (kb_identity b) \<noteq> expected then Inl PeOtherAddress
      else if ek_address (kb_record b) \<noteq> ir_address (kb_identity b) then Inl PeMixedAddresses
      else if \<not> key_valid_at b now then Inl PeKeyNotValid
      else case load_known_peers store of
        Inl e \<Rightarrow> Inl e | Inr peers \<Rightarrow> verify_known_peer c peers b now)"

definition reset_peer_trust :: "known_peer list stored \<Rightarrow> string \<Rightarrow> peer_error + (known_peer list \<times> known_peer)" where
  "reset_peer_trust store address = (case load_known_peers store of
     Inl e \<Rightarrow> Inl e
   | Inr peers \<Rightarrow>
       (case find_peer peers address of
          None \<Rightarrow> Inl PeNotPinned
        | Some p \<Rightarrow> map_sum id (\<lambda>ps. (ps, p)) (save_known_peers (filter (\<lambda>q. kp_address q \<noteq> address) peers))))"

datatype peer_inspection =
  PeerUnseen string
| PeerMatched string string
| PeerChanged string string
| PeerInvalid "string option" "string option"

text \<open>The pinned fingerprint, then the served one; an invalid answer names those it got to.\<close>

definition inspect_peer_identity ::
  "crypto \<Rightarrow> known_peer list stored \<Rightarrow> string \<Rightarrow> key_bundle \<Rightarrow> int \<Rightarrow> peer_inspection" where
  "inspect_peer_identity c store expected b now = (case load_known_peers store of
     Inl _ \<Rightarrow> PeerInvalid None None
   | Inr peers \<Rightarrow>
       (let existing = find_peer peers expected; pinned = map_option kp_fingerprint existing
        in if ir_address (kb_identity b) \<noteq> expected \<or> ek_address (kb_record b) \<noteq> expected then PeerInvalid pinned None
           else case identity_fingerprint c (kb_identity b) of
             None \<Rightarrow> PeerInvalid pinned None
           | Some served \<Rightarrow>
               if \<not> key_valid_at b now \<or> \<not> key_signed_by c (ir_identity_pub (kb_identity b)) b
               then PeerInvalid pinned (Some served)
               else case existing of
                 None \<Rightarrow> PeerUnseen served
               | Some p \<Rightarrow>
                   if identity_fingerprint c (stored_identity p) \<noteq> Some (kp_fingerprint p) then PeerInvalid pinned (Some served)
                   else if kp_identity_pub p \<noteq> ir_identity_pub (kb_identity b) then PeerChanged (kp_fingerprint p) served
                   else if ek_epoch (kb_record b) < kp_highest_encryption_epoch p then PeerInvalid pinned (Some served)
                   else PeerMatched (kp_fingerprint p) served))"

definition check_known_peers_store :: "known_peer list stored \<Rightarrow> bool \<times> nat option" where
  "check_known_peers_store store = (case load_known_peers store of
     Inl _ \<Rightarrow> (False, None)
   | Inr peers \<Rightarrow> (True, if store = StoreMissing then None else Some (length peers)))"

subsection \<open>What is opened was signed\<close>

text \<open>
  The signature hypothesis: whatever verifies under the key was signed by its owner, who signs
  only the transcripts of the payloads it sends and of its own encryption keys.
\<close>

definition signs_only :: "crypto \<Rightarrow> string \<Rightarrow> request_payload set \<Rightarrow> response_payload set \<Rightarrow> bool" where
  "signs_only c pub reqs resps = (\<forall>t s. cr_verify c pub t s \<longrightarrow>
     (\<exists>p\<in>reqs. request_transcript p = Inr t) \<or> (\<exists>r\<in>resps. response_transcript r = Inr t) \<or>
     (\<exists>k. encryption_key_record_ok k \<and> encryption_key_transcript k = Inr t))"

text \<open>What \<open>check_signed\<close> and \<open>open_plaintext\<close> establish about a payload.\<close>

definition delivered_to :: "'a inner_base_scheme \<Rightarrow> expected_envelope \<Rightarrow> int \<Rightarrow> bool" where
  "delivered_to p x now =
     (ib_relay_origin p = xe_relay_origin x \<and> ib_from p = xe_from x \<and> ib_to p = xe_to x \<and>
      ib_recipient_encryption_key_id p = xe_key_id x \<and> ib_recipient_epoch p = xe_epoch x \<and>
      now < ib_expires_at p \<and> ib_issued_at p \<le> now + 120000)"

lemma open_plaintext_route:
  "open_plaintext c direction raw sk x = Inr (e, pt) \<Longrightarrow> expected_route e x \<and> en_direction e = direction"
  by (auto simp: open_plaintext_def split: option.splits if_split_asm sum.splits)

lemma check_signed_None:
  assumes "check_signed c e direction pinned p signature transcript now = None" "expected_route e x"
  shows "\<exists>t. transcript = Inr t \<and> cr_verify c pinned t signature \<and> delivered_to p x now"
  using assms
  by (auto simp: check_signed_def delivered_to_def assert_header_matches_def expected_route_def assert_current_def
      split: if_split_asm sum.splits)

lemma open_request_checked:
  assumes "open_e2ee_request c raw sk pinned x now = Inr p"
  shows "\<exists>t signature. request_transcript p = Inr t \<and> cr_verify c pinned t signature \<and> delivered_to p x now"
proof -
  obtain e pt where o: "open_plaintext c Request raw sk x = Inr (e, pt)"
    using assms by (cases "open_plaintext c Request raw sk x") (auto simp: open_e2ee_request_def)
  then obtain signature where "check_signed c e Request pinned p signature (request_transcript p) now = None"
    using assms by (auto simp: open_e2ee_request_def split: option.splits if_split_asm prod.splits)
  then show ?thesis using check_signed_None open_plaintext_route[OF o] by blast
qed

lemma open_response_checked:
  assumes "open_e2ee_response c raw sk pinned x b now = Inr p"
  shows "\<exists>t signature. response_transcript p = Inr t \<and> cr_verify c pinned t signature \<and> delivered_to p x now \<and> binds_response p b"
proof -
  obtain e pt where o: "open_plaintext c Response raw sk x = Inr (e, pt)"
    using assms by (cases "open_plaintext c Response raw sk x") (auto simp: open_e2ee_response_def)
  then obtain signature where "check_signed c e Response pinned p signature (response_transcript p) now = None" "binds_response p b"
    using assms by (auto simp: open_e2ee_response_def split: option.splits if_split_asm prod.splits)
  then show ?thesis using check_signed_None open_plaintext_route[OF o] by blast
qed

lemma request_not_other:
  assumes "request_transcript p = Inr t"
  shows "response_transcript r \<noteq> Inr t" "encryption_key_record_ok k \<Longrightarrow> encryption_key_transcript k \<noteq> Inr t"
proof -
  note P = request_transcript_Inr[OF assms]
  show "response_transcript r \<noteq> Inr t"
    using different_label_bytes[of "request_values p" t "response_values r" t] P request_values_encodable
      response_values_encodable response_transcript_Inr values_labels(1) by blast
  show "encryption_key_record_ok k \<Longrightarrow> encryption_key_transcript k \<noteq> Inr t"
    using different_label_bytes[of "request_values p" t "encryption_key_values k" t] P request_values_encodable
      encryption_key_values_encodable values_labels(4) unfolding encryption_key_transcript_def by blast
qed

lemma response_not_other:
  assumes "response_transcript r = Inr t"
  shows "request_transcript p \<noteq> Inr t" "encryption_key_record_ok k \<Longrightarrow> encryption_key_transcript k \<noteq> Inr t"
proof -
  note P = response_transcript_Inr[OF assms]
  show "request_transcript p \<noteq> Inr t" using request_not_other(1) assms by blast
  show "encryption_key_record_ok k \<Longrightarrow> encryption_key_transcript k \<noteq> Inr t"
    using different_label_bytes[of "response_values r" t "encryption_key_values k" t] P response_values_encodable
      encryption_key_values_encodable values_labels(7) unfolding encryption_key_transcript_def by blast
qed

lemma opened_request_signed:
  assumes "signs_only c pinned reqs resps" "open_e2ee_request c raw sk pinned x now = Inr p"
  shows "delivered_to p x now \<and> (\<exists>q\<in>reqs. request_values q = request_values p)"
proof -
  obtain t signature where t: "request_transcript p = Inr t" "cr_verify c pinned t signature" "delivered_to p x now"
    using open_request_checked[OF assms(2)] by blast
  then obtain q where "q \<in> reqs" "request_transcript q = Inr t"
    using assms(1) request_not_other[OF t(1)] unfolding signs_only_def by blast
  then show ?thesis using t canonical_encode_unique request_values_encodable request_transcript_Inr by blast
qed

lemma opened_response_signed:
  assumes "signs_only c pinned reqs resps" "open_e2ee_response c raw sk pinned x b now = Inr r"
  shows "delivered_to r x now \<and> binds_response r b \<and> (\<exists>q\<in>resps. response_values q = response_values r)"
proof -
  obtain t signature where t: "response_transcript r = Inr t" "cr_verify c pinned t signature" "delivered_to r x now"
    "binds_response r b" using open_response_checked[OF assms(2)] by blast
  then obtain q where "q \<in> resps" "response_transcript q = Inr t"
    using assms(1) response_not_other[OF t(1)] unfolding signs_only_def by blast
  then show ?thesis using t canonical_encode_unique response_values_encodable response_transcript_Inr by blast
qed


subsection \<open>Sealing and opening\<close>

text \<open>Correctness of the platform: decryption undoes encryption, signatures verify, JSON round-trips.\<close>

definition crypto_correct :: "crypto \<Rightarrow> seal_identity \<Rightarrow> string \<Rightarrow> string \<Rightarrow> request_payload \<Rightarrow> bool" where
  "crypto_correct c sender pub sk p =
     (\<forall>t s pt. request_transcript p = Inr t \<longrightarrow> s = cr_sign c (si_identity_pkcs8 sender) t \<longrightarrow>
        pt = cr_json_request c p s \<longrightarrow>
          cr_verify c (si_identity_pub sender) t s \<and> signed_signature_ok s \<and>
          cr_parse_request c pt = Some (p, s) \<and>
          (\<forall>aad. cr_open c sk Request (cr_seal c pub Request pt aad) aad = Some pt))"

definition route_of :: "envelope \<Rightarrow> expected_envelope" where
  "route_of e = \<lparr>xe_relay_origin = en_relay_origin e, xe_from = en_from e, xe_to = en_to e,
     xe_key_id = en_key_id e, xe_epoch = en_epoch e\<rparr>"

lemma aad_ignores_ciphertext: "hpke_envelope_aad (e\<lparr>en_enc := x, en_ct := y\<rparr>) = hpke_envelope_aad e"
  by (simp add: hpke_envelope_aad_def hpke_aad_values_def envelope_header_ok_def)

lemma seal_plaintext_opens:
  assumes "seal_plaintext c direction p recipient pt = Inr e" "parse_envelope raw = Some e"
    "\<And>aad. cr_open c sk direction (cr_seal c (rk_pub recipient) direction pt aad) aad = Some pt"
  shows "open_plaintext c direction raw sk (route_of e) = Inr (e, pt) \<and>
    (\<exists>enc ct. e = (seal_header direction p recipient)\<lparr>en_enc := enc, en_ct := ct\<rparr>)"
proof -
  obtain aad where aad: "hpke_envelope_aad (seal_header direction p recipient) = Inr aad"
    using assms(1) by (auto simp: seal_plaintext_def Let_def split: sum.splits)
  obtain enc ct where ec: "cr_seal c (rk_pub recipient) direction pt aad = (enc, ct)" by fastforce
  have e: "e = (seal_header direction p recipient)\<lparr>en_enc := enc, en_ct := ct\<rparr>"
    using assms(1) aad ec by (simp add: seal_plaintext_def Let_def split: if_split_asm)
  have "hpke_envelope_aad e = Inr aad" using aad e by (simp only: aad_ignores_ciphertext)
  moreover have "cr_open c sk direction (en_enc e, en_ct e) aad = Some pt" using assms(3)[of aad] ec e by simp
  moreover have "en_direction e = direction" using e by (simp add: seal_header_def)
  ultimately have "open_plaintext c direction raw sk (route_of e) = Inr (e, pt)" using assms(2)
    by (simp add: open_plaintext_def expected_route_def route_of_def)
  then show ?thesis using e by blast
qed

text \<open>
  Sealing and opening are inverse. A request sealed for a recipient opens there, with the
  sender's key pinned and at any time in its validity, to the payload that was sealed.
\<close>

theorem sealed_request_opens:
  assumes "crypto_correct c sender (rk_pub recipient) sk p" "seal_e2ee_request c p sender recipient = Inr e"
    "parse_envelope raw = Some e" "now < ib_expires_at p" "ib_issued_at p \<le> now + 120000"
  shows "open_e2ee_request c raw sk (si_identity_pub sender) (route_of e) now = Inr p"
proof -
  obtain t where t: "request_payload_ok p" "seal_checks c p sender recipient = None" "request_transcript p = Inr t"
    "seal_plaintext c Request p recipient (cr_json_request c p (cr_sign c (si_identity_pkcs8 sender) t)) = Inr e"
    using assms(2) by (auto simp: seal_e2ee_request_def split: if_split_asm option.splits sum.splits)
  note correct = assms(1)[unfolded crypto_correct_def, rule_format, OF t(3) refl refl]
  obtain enc ct where o: "open_plaintext c Request raw sk (route_of e) =
      Inr (e, cr_json_request c p (cr_sign c (si_identity_pkcs8 sender) t))"
    "e = (seal_header Request p recipient)\<lparr>en_enc := enc, en_ct := ct\<rparr>"
    using seal_plaintext_opens[OF t(4) assms(3)] correct by blast
  have "assert_header_matches e Request p \<and> ib_sender_identity_key_id p = cr_key_id c (si_identity_pub sender)"
    using t(2) o(2) by (auto simp: assert_header_matches_def seal_header_def seal_checks_def split: if_split_asm)
  then show ?thesis using o(1) t(1,3) correct assms(4,5)
    by (simp add: open_e2ee_request_def check_signed_def assert_current_def)
qed

text \<open>A platform that encrypts nothing and signs with a constant, for the sample request.\<close>

definition sample_crypto :: crypto where
  "sample_crypto =
     \<lparr>cr_key_id = (\<lambda>pub. replicate 32 (if pub = ''R'' then CHR ''c'' else CHR ''b'')), cr_fingerprint = (\<lambda>_. []),
      cr_sign = (\<lambda>_ _. ''QQ''), cr_verify = (\<lambda>_ t _. request_transcript sample_request = Inr t),
      cr_seal = (\<lambda>_ _ _ _. (''QQ'', ''QQ'')), cr_open = (\<lambda>_ _ _ _. Some []),
      cr_json_request = (\<lambda>_ _. []), cr_parse_request = (\<lambda>_. Some (sample_request, ''QQ'')),
      cr_json_response = (\<lambda>_ _. []), cr_parse_response = (\<lambda>_. None)\<rparr>"

definition sample_raw :: js_value where
  "sample_raw = JObj [(''v'', JNum 1), (''direction'', JStr ''request''), (''relay_origin'', JStr ''relay.example''),
     (''from'', JStr ''@acme/alice''), (''to'', JStr ''@acme/bob''), (''key_id'', JStr (replicate 32 (CHR ''c''))),
     (''epoch'', JNum 1), (''enc'', JStr ''QQ''), (''ct'', JStr ''QQ'')]"

lemma sample_raw_parses: "parse_envelope sample_raw = Some sample_envelope"
proof -
  have "ct_ok ''QQ''" using sample_envelope_ok(1) by (simp add: envelope_ok_def sample_envelope_def)
  then show ?thesis
    by (simp add: parse_envelope_def sample_raw_def sample_envelope_def strict_keys_def envelope_keys_def obj_get_def
        sample_fields key_id_re_def sample_hex del: hex_of_length_def)
qed

lemma sample_signature: "signed_signature_ok ''QQ''"
  by (simp add: signed_signature_ok_def sample_fields)

lemma sample_opens:
  "open_e2ee_request sample_crypto sample_raw ''S'' ''P'' (route_of sample_envelope) 1500 = Inr sample_request"
proof -
  obtain aad where aad: "hpke_envelope_aad sample_envelope = Inr aad"
    using hpke_envelope_aad_total[OF sample_envelope_ok(2)] by blast
  obtain t where t: "request_transcript sample_request = Inr t"
    using request_transcript_total[OF sample_request_ok] by blast
  have "open_plaintext sample_crypto Request sample_raw ''S'' (route_of sample_envelope) = Inr (sample_envelope, [])"
    using aad by (simp add: open_plaintext_def sample_raw_parses expected_route_def route_of_def sample_crypto_def)
       (simp add: sample_envelope_def)
  moreover have "check_signed sample_crypto sample_envelope Request ''P'' sample_request ''QQ''
      (request_transcript sample_request) 1500 = None"
    using t by (simp add: check_signed_def sample_crypto_def assert_current_def)
       (simp add: assert_header_matches_def sample_envelope_def sample_request_def)
  ultimately show ?thesis using sample_request_ok
    by (simp add: open_e2ee_request_def sample_crypto_def sample_signature)
qed


definition sample_sender :: seal_identity where
  "sample_sender = \<lparr>si_identity_pub = ''P'', si_identity_pkcs8 = ''K''\<rparr>"

definition sample_recipient :: recipient_key where
  "sample_recipient = \<lparr>rk_pub = ''R'', rk_key_id = replicate 32 (CHR ''c''), rk_epoch = 1\<rparr>"

lemma sample_seals: "seal_e2ee_request sample_crypto sample_request sample_sender sample_recipient = Inr sample_envelope"
proof -
  obtain t where t: "request_transcript sample_request = Inr t"
    using request_transcript_total[OF sample_request_ok] by blast
  have h: "(seal_header Request sample_request sample_recipient)\<lparr>en_enc := ''QQ'', en_ct := ''QQ''\<rparr> = sample_envelope"
    by (simp add: seal_header_def sample_envelope_def sample_request_def sample_recipient_def)
  obtain aad where aad: "hpke_envelope_aad (seal_header Request sample_request sample_recipient) = Inr aad"
    using hpke_envelope_aad_total[OF sample_envelope_ok(2)] aad_ignores_ciphertext unfolding h[symmetric] by metis
  have "seal_checks sample_crypto sample_request sample_sender sample_recipient = None"
    by (simp add: seal_checks_def sample_crypto_def sample_recipient_def sample_sender_def sample_request_def)
  then show ?thesis using t aad h sample_request_ok sample_envelope_ok(1)
    by (simp add: seal_e2ee_request_def seal_plaintext_def sample_crypto_def)
qed

lemma sealed_request_opens_witness:
  "open_e2ee_request sample_crypto sample_raw ''S'' ''P'' (route_of sample_envelope) 1500 = Inr sample_request"
proof -
  have "crypto_correct sample_crypto sample_sender (rk_pub sample_recipient) ''S'' sample_request"
    using sample_signature by (simp add: crypto_correct_def sample_crypto_def)
  from sealed_request_opens[OF this sample_seals sample_raw_parses, of 1500]
  show ?thesis by (simp add: sample_request_def sample_sender_def)
qed

subsection \<open>A pinned key does not change\<close>

datatype peer_op = VerifyPeer string key_bundle int | ResetPeer string

fun peer_apply :: "crypto \<Rightarrow> known_peer list stored \<Rightarrow> peer_op \<Rightarrow> known_peer list stored \<times> bool" where
  "peer_apply c store (VerifyPeer a b now) = (case verify_and_pin_peer c store a b now of
     Inl _ \<Rightarrow> (store, False) | Inr (ps, _) \<Rightarrow> (Stored ps, True))"
| "peer_apply c store (ResetPeer a) = (case reset_peer_trust store a of
     Inl _ \<Rightarrow> (store, False) | Inr (ps, _) \<Rightarrow> (Stored ps, True))"

fun peer_run :: "crypto \<Rightarrow> peer_op list \<Rightarrow> known_peer list stored \<Rightarrow> bool list" where
  "peer_run c [] store = []"
| "peer_run c (x # rest) store = (let (store', ok) = peer_apply c store x in ok # peer_run c rest store')"

definition holds_pin :: "known_peer list stored \<Rightarrow> string \<Rightarrow> string \<Rightarrow> int \<Rightarrow> bool" where
  "holds_pin store a pub epoch = (\<exists>ps p. store = Stored ps \<and> known_peers_ok ps \<and> find_peer ps a = Some p \<and>
     kp_identity_pub p = pub \<and> epoch \<le> kp_highest_encryption_epoch p)"

lemma holds_pin_load:
  assumes "holds_pin store a pub epoch"
  obtains ps p where "load_known_peers store = Inr ps" "find_peer ps a = Some p" "kp_identity_pub p = pub"
    "epoch \<le> kp_highest_encryption_epoch p"
  using assms by (auto simp: holds_pin_def load_known_peers_def)

lemma save_known_peers_Inr: "save_known_peers ps = Inr qs \<longleftrightarrow> qs = ps \<and> known_peers_ok ps"
  by (auto simp: save_known_peers_def)

lemma find_peer_map_other:
  "a \<noteq> a' \<Longrightarrow> kp_address q = a' \<Longrightarrow> find_peer (map (\<lambda>x. if kp_address x = a' then q else x) ps) a = find_peer ps a"
  by (induction ps) (auto simp: find_peer_def)

lemma find_peer_map_same:
  "find_peer ps a = Some p \<Longrightarrow> kp_address q = a \<Longrightarrow>
   find_peer (map (\<lambda>x. if kp_address x = a then q else x) ps) a = Some q"
  by (induction ps) (auto simp: find_peer_def split: if_splits)

lemma find_peer_append: "find_peer ps a = Some p \<Longrightarrow> find_peer (ps @ qs) a = Some p"
  by (induction ps) (auto simp: find_peer_def split: if_splits)

lemma find_peer_filter: "a \<noteq> a' \<Longrightarrow> find_peer (filter (\<lambda>q. kp_address q \<noteq> a') ps) a = find_peer ps a"
  by (induction ps) (auto simp: find_peer_def)

lemma find_peer_address: "find_peer ps a = Some p \<Longrightarrow> kp_address p = a"
  by (auto simp: find_peer_def dest: find_Some_iff_mem)

text \<open>What a successful verification saw, and the store it leaves.\<close>

lemma verify_known_peer_cases:
  assumes "verify_known_peer c ps b now = Inr (qs, v)"
  shows "known_peers_ok qs \<and>
    (case find_peer ps (ir_address (kb_identity b)) of
       Some p \<Rightarrow> ir_identity_pub (kb_identity b) = kp_identity_pub p \<and> key_signed_by c (kp_identity_pub p) b \<and>
         kp_highest_encryption_epoch p \<le> ek_epoch (kb_record b) \<and>
         qs = map (\<lambda>q. if kp_address q = ir_address (kb_identity b) then seen_peer p b else q) ps
     | None \<Rightarrow> \<exists>q. qs = ps @ [q])"
proof (cases "find_peer ps (ir_address (kb_identity b))")
  case None
  then show ?thesis using assms
    by (auto simp: verify_known_peer_def Let_def save_known_peers_Inr map_sum_def split: option.splits if_split_asm sum.splits)
next
  case (Some p)
  let ?qs = "map (\<lambda>q. if kp_address q = ir_address (kb_identity b) then seen_peer p b else q) ps"
  have "kp_identity_pub p = ir_identity_pub (kb_identity b)" "key_signed_by c (kp_identity_pub p) b"
    "\<not> ek_epoch (kb_record b) < kp_highest_encryption_epoch p"
    "map_sum id (\<lambda>ps. (ps, seen_peer p b)) (save_known_peers ?qs) = Inr (qs, v)"
    using assms Some by (auto simp: verify_known_peer_def Let_def split: if_split_asm)
  then show ?thesis using Some by (cases "save_known_peers ?qs") (auto simp: save_known_peers_Inr)
qed

lemma verify_keeps_pin:
  assumes "holds_pin store a pub epoch" "verify_and_pin_peer c store e b now = Inr (qs, v)"
  shows "holds_pin (Stored qs) a pub epoch \<and>
    (e = a \<longrightarrow> ir_identity_pub (kb_identity b) = pub \<and> epoch \<le> ek_epoch (kb_record b) \<and> key_signed_by c pub b)"
proof -
  obtain ps p where p: "load_known_peers store = Inr ps" "find_peer ps a = Some p" "kp_identity_pub p = pub"
    "epoch \<le> kp_highest_encryption_epoch p" using holds_pin_load[OF assms(1)] by blast
  have v: "ir_address (kb_identity b) = e" "verify_known_peer c ps b now = Inr (qs, v)"
    using assms(2) p(1) by (auto simp: verify_and_pin_peer_def split: if_split_asm)
  note known = verify_known_peer_cases[OF v(2), unfolded v(1)]
  show ?thesis
  proof (cases "e = a")
    case True
    then have "find_peer qs a = Some (seen_peer p b)"
      using known p(2) find_peer_map_same[OF p(2), of "seen_peer p b"] find_peer_address[OF p(2)]
      by (simp add: seen_peer_def)
    then show ?thesis using known p True by (auto simp: holds_pin_def seen_peer_def)
  next
    case False
    have "find_peer qs a = Some p"
    proof (cases "find_peer ps e")
      case None
      then obtain q where "qs = ps @ [q]" using known by auto
      then show ?thesis using find_peer_append[OF p(2)] by simp
    next
      case (Some r)
      then have "kp_address (seen_peer r b) = e" using find_peer_address by (simp add: seen_peer_def)
      then show ?thesis using known Some p(2) find_peer_map_other[of a e "seen_peer r b" ps] False by simp
    qed
    then show ?thesis using known p False by (auto simp: holds_pin_def)
  qed
qed

lemma reset_keeps_pin:
  assumes "holds_pin store a pub epoch" "reset_peer_trust store e = Inr (qs, v)" "e \<noteq> a"
  shows "holds_pin (Stored qs) a pub epoch"
proof -
  obtain ps p where p: "load_known_peers store = Inr ps" "find_peer ps a = Some p" "kp_identity_pub p = pub"
    "epoch \<le> kp_highest_encryption_epoch p" using holds_pin_load[OF assms(1)] by blast
  have "qs = filter (\<lambda>q. kp_address q \<noteq> e) ps" "known_peers_ok qs"
    using assms(2) p(1) by (auto simp: reset_peer_trust_def save_known_peers_def split: option.splits if_split_asm)
  then show ?thesis using p find_peer_filter[of a e ps] assms(3) by (auto simp: holds_pin_def)
qed


definition sample_print :: string where
  "sample_print = ''SHA256:'' @ replicate 32 (CHR ''a'')"

definition trusting_crypto :: crypto where
  "trusting_crypto = sample_crypto\<lparr>cr_fingerprint := (\<lambda>_. sample_print), cr_verify := (\<lambda>_ _ _. True)\<rparr>"

definition sample_peer :: known_peer where
  "sample_peer = \<lparr>kp_relay_origin = ''relay.example'', kp_address = ''@acme/alice'', kp_identity_pub = ''QQ'',
     kp_fingerprint = sample_print, kp_first_seen_at = 0, kp_highest_encryption_epoch = 1, kp_call_count = 1\<rparr>"

definition sample_bundle :: key_bundle where
  "sample_bundle = \<lparr>kb_identity = sample_identity, kb_record = sample_key, kb_signature = ''QQ''\<rparr>"

lemma sample_peer_ok: "known_peer_ok sample_peer" "known_peer_ok (seen_peer sample_peer sample_bundle)"
  by (simp_all add: known_peer_ok_def sample_peer_def seen_peer_def sample_fields fingerprint_re_def sample_print_def
      sample_hex)


end
