(* ===== verification/SerialQueue.thy ===== *)
theory SerialQueue
  imports Prelude "HOL-Library.Sublist" "HOL-Library.Multiset"
begin

text \<open>
  The listener's job queue, \<open>packages/cli/src/queue.ts\<close>: one job runs at a time, at most
  \<open>maxPending\<close> wait. A job is its key and a number that tells runs apart. JavaScript runs each
  method, and \<open>drain\<close> up to the next \<open>await job.run\<close>, without interruption; \<open>settle\<close> is the rest
  of the loop's round once the running job's promise has settled.
\<close>

type_synonym job = "string \<times> nat"

record serial_queue =
  sq_jobs :: "job list"
  sq_active :: bool
  sq_running :: "job option"
  sq_aborted :: bool
  sq_closed :: bool
  sq_max_pending :: nat

definition new_queue :: "nat \<Rightarrow> serial_queue" where
  "new_queue n = \<lparr>sq_jobs = [], sq_active = False, sq_running = None, sq_aborted = False,
     sq_closed = False, sq_max_pending = n\<rparr>"

text \<open>The head of the loop: the next job starts, or the queue goes idle.\<close>

definition drain_round :: "serial_queue \<Rightarrow> serial_queue \<times> job option" where
  "drain_round q = (case sq_jobs q of
     [] \<Rightarrow> (q\<lparr>sq_active := False\<rparr>, None)
   | j # js \<Rightarrow> (q\<lparr>sq_jobs := js, sq_running := Some j, sq_aborted := False\<rparr>, Some j))"

definition drain :: "serial_queue \<Rightarrow> serial_queue \<times> job option" where
  "drain q = (if sq_active q then (q, None) else drain_round (q\<lparr>sq_active := True\<rparr>))"

definition try_enqueue :: "serial_queue \<Rightarrow> job \<Rightarrow> serial_queue \<times> bool \<times> job option" where
  "try_enqueue q j =
     (if sq_closed q then (q, False, None)
      else if sq_active q \<and> length (sq_jobs q) \<ge> sq_max_pending q then (q, False, None)
      else let (q', started) = drain (q\<lparr>sq_jobs := sq_jobs q @ [j]\<rparr>) in (q', True, started))"

definition settle :: "serial_queue \<Rightarrow> serial_queue \<times> job option" where
  "settle q = drain_round (q\<lparr>sq_running := None, sq_aborted := False\<rparr>)"

datatype cancel_outcome = CancelPending | CancelRunning | CancelUnknown

fun remove_key :: "string \<Rightarrow> job list \<Rightarrow> job list" where
  "remove_key key [] = []"
| "remove_key key (j # js) = (if fst j = key then js else j # remove_key key js)"

definition cancel_job :: "serial_queue \<Rightarrow> string \<Rightarrow> serial_queue \<times> cancel_outcome" where
  "cancel_job q key =
     (if list_ex (\<lambda>j. fst j = key) (sq_jobs q) then (q\<lparr>sq_jobs := remove_key key (sq_jobs q)\<rparr>, CancelPending)
      else if map_option fst (sq_running q) = Some key then (q\<lparr>sq_aborted := True\<rparr>, CancelRunning)
      else (q, CancelUnknown))"

definition stop_queue :: "serial_queue \<Rightarrow> serial_queue" where
  "stop_queue q = q\<lparr>sq_closed := True, sq_jobs := [], sq_aborted := (sq_aborted q \<or> sq_running q \<noteq> None)\<rparr>"

subsection \<open>Runs\<close>

text \<open>A queue with the jobs it accepted, started and dropped so far, oldest first.\<close>

record queue_run =
  qr_queue :: serial_queue
  qr_accepted :: "job list"
  qr_started :: "job list"
  qr_dropped :: "job list"

definition started_jobs :: "job option \<Rightarrow> job list" where
  "started_jobs x = (case x of None \<Rightarrow> [] | Some j \<Rightarrow> [j])"

lemma started_jobs_simps [simp]: "started_jobs None = []" "started_jobs (Some j) = [j]"
  by (simp_all add: started_jobs_def)

fun removed_by :: "string \<Rightarrow> job list \<Rightarrow> job list" where
  "removed_by key [] = []"
| "removed_by key (j # js) = (if fst j = key then [j] else removed_by key js)"

inductive queue_step :: "queue_run \<Rightarrow> queue_run \<Rightarrow> bool" where
  enqueue: "try_enqueue (qr_queue s) j = (q, True, started) \<Longrightarrow>
    queue_step s (s\<lparr>qr_queue := q, qr_accepted := qr_accepted s @ [j], qr_started := qr_started s @ started_jobs started\<rparr>)"
| refuse: "try_enqueue (qr_queue s) j = (q, False, started) \<Longrightarrow> queue_step s (s\<lparr>qr_queue := q\<rparr>)"
| settled: "sq_running (qr_queue s) \<noteq> None \<Longrightarrow> settle (qr_queue s) = (q, started) \<Longrightarrow>
    queue_step s (s\<lparr>qr_queue := q, qr_started := qr_started s @ started_jobs started\<rparr>)"
| cancel: "cancel_job (qr_queue s) key = (q, outcome) \<Longrightarrow>
    queue_step s (s\<lparr>qr_queue := q, qr_dropped := qr_dropped s @ removed_by key (sq_jobs (qr_queue s))\<rparr>)"
| stop: "queue_step s (s\<lparr>qr_queue := stop_queue (qr_queue s), qr_dropped := qr_dropped s @ sq_jobs (qr_queue s)\<rparr>)"

inductive_cases queue_stepE: "queue_step s t"

definition queue_start :: "nat \<Rightarrow> queue_run \<Rightarrow> bool" where
  "queue_start n s = (s = \<lparr>qr_queue = new_queue n, qr_accepted = [], qr_started = [], qr_dropped = []\<rparr>)"

definition queue_reachable :: "nat \<Rightarrow> queue_run \<Rightarrow> bool" where
  "queue_reachable n = reach (queue_start n) queue_step"

definition queue_inv :: "nat \<Rightarrow> queue_run \<Rightarrow> bool" where
  "queue_inv n s =
     (let q = qr_queue s
      in sq_max_pending q = n \<and> length (sq_jobs q) \<le> n \<and> (sq_active q = (sq_running q \<noteq> None)) \<and>
         (sq_active q \<or> sq_jobs q = []) \<and>
         (case sq_running q of None \<Rightarrow> True | Some j \<Rightarrow> qr_started s \<noteq> [] \<and> last (qr_started s) = j) \<and>
         mset (qr_accepted s) = mset (qr_started s) + mset (sq_jobs q) + mset (qr_dropped s) \<and>
         subseq (qr_started s @ sq_jobs q) (qr_accepted s))"

lemma mset_removed: "mset js = mset (remove_key key js) + mset (removed_by key js)"
  by (induction js) auto

lemma subseq_remove_key: "subseq (remove_key key js) js"
  by (induction js) auto

lemma length_remove_key: "length (remove_key key js) \<le> length js"
  by (induction js) auto

lemma removed_none: "\<not> list_ex (\<lambda>j. fst j = key) js \<Longrightarrow> removed_by key js = []"
  by (induction js) auto

lemma subseq_shrink: "subseq xs ys \<Longrightarrow> subseq (as @ ys) zs \<Longrightarrow> subseq (as @ xs) zs"
  by (meson list_emb_append_mono subseq_order.order_trans subseq_order.order_refl)

lemma queue_inv_step:
  assumes inv: "queue_inv n s" and step: "queue_step s t"
  shows "queue_inv n t"
  using step
proof (cases rule: queue_step.cases)
  case (enqueue j q started)
  show ?thesis
  proof (cases "sq_active (qr_queue s)")
    case True
    then have "q = (qr_queue s)\<lparr>sq_jobs := sq_jobs (qr_queue s) @ [j]\<rparr>" "started = None"
      "length (sq_jobs (qr_queue s)) < sq_max_pending (qr_queue s)"
      using enqueue(2) by (auto simp: try_enqueue_def drain_def split: if_splits)
    then show ?thesis using inv enqueue(1) True
      by (auto simp: queue_inv_def Let_def simp flip: append_assoc split: option.splits)
  next
    case False
    then have "sq_jobs (qr_queue s) = []" using inv by (auto simp: queue_inv_def Let_def)
    then have "q = (qr_queue s)\<lparr>sq_jobs := [], sq_active := True, sq_running := Some j, sq_aborted := False\<rparr>"
      "started = Some j"
      using enqueue(2) False by (auto simp: try_enqueue_def drain_def drain_round_def Let_def split: if_splits)
    then show ?thesis using inv enqueue(1) False by (auto simp: queue_inv_def Let_def split: option.splits)
  qed
next
  case (refuse j q started)
  then have "q = qr_queue s" by (auto simp: try_enqueue_def Let_def split: if_splits prod.splits)
  then have "t = s" using refuse(1) by simp
  then show ?thesis using inv by simp
next
  case (settled q started)
  then show ?thesis using inv
    by (cases "sq_jobs (qr_queue s)") (auto simp: settle_def drain_round_def queue_inv_def Let_def)
next
  case (cancel key q outcome)
  show ?thesis
  proof (cases "list_ex (\<lambda>j. fst j = key) (sq_jobs (qr_queue s))")
    case True
    then have q: "q = (qr_queue s)\<lparr>sq_jobs := remove_key key (sq_jobs (qr_queue s))\<rparr>"
      using cancel(2) by (simp add: cancel_job_def)
    note r = mset_removed[of "sq_jobs (qr_queue s)" key] length_remove_key[of key "sq_jobs (qr_queue s)"]
    have "subseq (qr_started s @ remove_key key (sq_jobs (qr_queue s))) (qr_accepted s)"
      using subseq_shrink[OF subseq_remove_key] inv by (auto simp: queue_inv_def Let_def)
    then show ?thesis using inv cancel(1) q r by (auto simp: queue_inv_def Let_def split: option.splits)
  next
    case False
    then have "sq_jobs q = sq_jobs (qr_queue s)" "sq_running q = sq_running (qr_queue s)"
      "sq_active q = sq_active (qr_queue s)" "sq_max_pending q = sq_max_pending (qr_queue s)"
      using cancel(2) by (auto simp: cancel_job_def split: if_splits)
    then show ?thesis using inv cancel(1) removed_none[OF False] by (auto simp: queue_inv_def Let_def split: option.splits)
  qed
next
  case stop
  have "subseq (qr_started s @ []) (qr_accepted s)"
    by (rule subseq_shrink[of _ "sq_jobs (qr_queue s)"]) (use inv in \<open>auto simp: queue_inv_def Let_def\<close>)
  then show ?thesis using inv stop by (auto simp: queue_inv_def Let_def stop_queue_def split: option.splits)
qed

interpretation serial: inductive_invariant "queue_start n" queue_step "queue_inv n" for n
proof
  show "queue_start n s \<Longrightarrow> queue_inv n s" for s
    by (simp add: queue_start_def queue_inv_def new_queue_def Let_def)
  show "queue_inv n s \<Longrightarrow> queue_step s t \<Longrightarrow> queue_inv n t" for s t
    by (rule queue_inv_step)
qed

text \<open>
  The queue is serial, bounded and fair. In every reachable state at most \<open>maxPending\<close>
  jobs wait; something waits only behind a running job, which is the last one started; every
  accepted job is started, waiting or dropped by a cancellation or a stop, once; and jobs
  start in the order they were accepted, so a dropped job never starts.
\<close>

theorem queue_is_serial:
  assumes "queue_reachable n s"
  shows "length (sq_jobs (qr_queue s)) \<le> n \<and>
    (sq_jobs (qr_queue s) \<noteq> [] \<longrightarrow> (\<exists>j. sq_running (qr_queue s) = Some j \<and> last (qr_started s) = j)) \<and>
    mset (qr_accepted s) = mset (qr_started s) + mset (sq_jobs (qr_queue s)) + mset (qr_dropped s) \<and>
    subseq (qr_started s @ sq_jobs (qr_queue s)) (qr_accepted s)"
proof -
  have "queue_inv n s" using serial.reach_inv[OF assms[unfolded queue_reachable_def]] .
  then show ?thesis by (auto simp: queue_inv_def Let_def split: option.splits)
qed

lemma queue_is_serial_witness:
  "\<exists>s. queue_reachable 1 s \<and> length (sq_jobs (qr_queue s)) \<le> 1 \<and> qr_started s = [(''a'', 0)]"
proof -
  let ?s0 = "\<lparr>qr_queue = new_queue 1, qr_accepted = [], qr_started = [], qr_dropped = []\<rparr>"
  let ?q1 = "(new_queue 1)\<lparr>sq_active := True, sq_running := Some (''a'', 0)\<rparr>"
  let ?s1 = "\<lparr>qr_queue = ?q1, qr_accepted = [(''a'', 0)], qr_started = [(''a'', 0)], qr_dropped = []\<rparr>"
  have "queue_step ?s0 ?s1"
    using enqueue[of ?s0 "(''a'', 0)" ?q1 "Some (''a'', 0)"]
    by (simp add: try_enqueue_def drain_def drain_round_def new_queue_def Let_def)
  then have "queue_reachable 1 ?s1"
    unfolding queue_reachable_def by (blast intro: reach_init reach_step queue_start_def[THEN iffD2] refl)
  then show ?thesis using queue_is_serial[of 1 ?s1] by (intro exI[of _ ?s1]) auto
qed

end
