(* ===== verification/Admission.thy ===== *)
theory Admission
  imports Sealing SerialQueue
begin

text \<open>
  The stages a call passes on the answering side, \<open>packages/cli/src/listener-stages.ts\<close>: the
  cancellation of a queued job, opening the envelope, sealing an outcome, resolving policy and
  task, and admitting a conversation context.
\<close>

subsection \<open>Cancellation\<close>

fun handle_cancel :: "serial_queue \<Rightarrow> string \<Rightarrow> string option \<Rightarrow> serial_queue \<times> listener_frame option" where
  "handle_cancel q call_id lease_id =
     (case cancel_job q call_id of
        (q', CancelPending) \<Rightarrow>
          (q', Some \<lparr>lf_call_id = call_id, lf_lease_id = lease_id, lf_body = CallCancelled CpPending\<rparr>)
      | (q', CancelRunning) \<Rightarrow> (q', None)
      | (q', CancelUnknown) \<Rightarrow>
          (q', Some \<lparr>lf_call_id = call_id, lf_lease_id = lease_id, lf_body = CallNotCancelled NcUnknown\<rparr>))"

subsection \<open>Opening an inbound envelope\<close>

text \<open>The private half of a \<open>StoredKeys\<close> for one encryption epoch.\<close>

record stored_keys =
  sk_identity_pub :: string
  sk_identity_pkcs8 :: string
  sk_encryption_pub :: string
  sk_encryption_pkcs8 :: string
  sk_epoch :: int

record opened_envelope =
  oe_request :: request_payload
  oe_caller_bundle :: key_bundle
  oe_caller_peer :: known_peer
  oe_local_keys :: stored_keys
  oe_relay_origin :: string
  oe_from_address :: string
  oe_to_address :: string

datatype inbound_error =
  InFetch | InPeer peer_error | InEnvelope | InKeys | InSealing sealing_error | InReplay replay_error

record inbound_stores =
  is_peers :: "known_peer list stored"
  is_replays :: "replay_reservation list stored"

record inbound_input =
  ii_relay_origin :: string
  ii_org :: string
  ii_handle :: string
  ii_from :: string
  ii_envelope :: js_value
  ii_reserve_replay :: bool

definition reservation_for :: "known_peer \<Rightarrow> request_payload \<Rightarrow> replay_reservation" where
  "reservation_for peer p = \<lparr>rr_sender_fingerprint = kp_fingerprint peer, rr_request_id = ib_request_id p,
     rr_expires_at = ib_expires_at p\<rparr>"

text \<open>
  \<open>fetched\<close> is the bundle the relay served, absent where the fetch failed; \<open>keys_for\<close> reads the
  local keys of an epoch. The trust store is updated even when a later step fails.
\<close>

definition open_inbound_envelope ::
  "crypto \<Rightarrow> (string \<Rightarrow> string \<Rightarrow> int) \<Rightarrow> int \<Rightarrow> key_bundle option \<Rightarrow> (int \<Rightarrow> stored_keys option) \<Rightarrow> inbound_input
   \<Rightarrow> inbound_stores \<Rightarrow> inbound_stores \<times> (inbound_error + opened_envelope)" where
  "open_inbound_envelope c cmp now fetched keys_for input stores =
     (let from_address = format_address (ii_org input) (ii_from input);
          to_address = format_address (ii_org input) (ii_handle input)
      in case fetched of
        None \<Rightarrow> (stores, Inl InFetch)
      | Some bundle \<Rightarrow>
      (case verify_and_pin_peer c (is_peers stores) from_address bundle now of
        Inl e \<Rightarrow> (stores, Inl (InPeer e))
      | Inr (peers, peer) \<Rightarrow>
      (let pinned = stores\<lparr>is_peers := Stored peers\<rparr>
       in case parse_envelope (ii_envelope input) of
        None \<Rightarrow> (pinned, Inl InEnvelope)
      | Some header \<Rightarrow>
      (case keys_for (en_epoch header) of
        None \<Rightarrow> (pinned, Inl InKeys)
      | Some keys \<Rightarrow>
      (case open_e2ee_request c (ii_envelope input) (sk_encryption_pkcs8 keys) (kp_identity_pub peer)
              \<lparr>xe_relay_origin = ii_relay_origin input, xe_from = from_address, xe_to = to_address,
               xe_key_id = cr_key_id c (sk_encryption_pub keys), xe_epoch = sk_epoch keys\<rparr> now of
        Inl e \<Rightarrow> (pinned, Inl (InSealing e))
      | Inr request \<Rightarrow>
          let opened = \<lparr>oe_request = request, oe_caller_bundle = bundle, oe_caller_peer = peer, oe_local_keys = keys,
                        oe_relay_origin = ii_relay_origin input, oe_from_address = from_address, oe_to_address = to_address\<rparr>
          in if \<not> ii_reserve_replay input then (pinned, Inr opened)
             else case reserve_replay cmp now (is_replays stores) (reservation_for peer request) of
               Inl e \<Rightarrow> (pinned, Inl (InReplay e))
             | Inr rs \<Rightarrow> (pinned\<lparr>is_replays := Stored rs\<rparr>, Inr opened))))))"

subsection \<open>Sealing an outcome\<close>

definition outcome_payload ::
  "crypto \<Rightarrow> opened_envelope \<Rightarrow> string \<Rightarrow> int \<Rightarrow> e2ee_outcome \<Rightarrow> response_payload" where
  "outcome_payload c oe request_hash now outcome =
     (let rq = oe_request oe; key = kb_record (oe_caller_bundle oe)
      in \<lparr>ib_relay_origin = oe_relay_origin oe, ib_from = oe_to_address oe, ib_to = oe_from_address oe,
          ib_message_id = ib_message_id rq, ib_delivery_mode = ib_delivery_mode rq,
          ib_request_id = ib_request_id rq,
          ib_sender_identity_key_id = cr_key_id c (sk_identity_pub (oe_local_keys oe)),
          ib_recipient_encryption_key_id = ek_key_id key, ib_recipient_epoch = ek_epoch key,
          ib_issued_at = now, ib_expires_at = ib_expires_at rq,
          rs_request_transcript_hash = request_hash, rs_outcome = outcome\<rparr>)"

fun is_reply :: "e2ee_outcome \<Rightarrow> bool" where
  "is_reply (Reply _ _ _) = True"
| "is_reply (Failure _ _ _) = False"

definition make_outcome_sender ::
  "crypto \<Rightarrow> opened_envelope \<Rightarrow> string \<Rightarrow> string \<Rightarrow> string option \<Rightarrow> int \<Rightarrow> e2ee_outcome \<Rightarrow> terminal_reason option
   \<Rightarrow> sealing_error + listener_frame" where
  "make_outcome_sender c oe request_hash call_id lease_id now outcome reason =
     (let key = kb_record (oe_caller_bundle oe); keys = oe_local_keys oe
      in case seal_e2ee_response c (outcome_payload c oe request_hash now outcome)
                \<lparr>si_identity_pub = sk_identity_pub keys, si_identity_pkcs8 = sk_identity_pkcs8 keys\<rparr>
                \<lparr>rk_pub = ek_pub key, rk_key_id = ek_key_id key, rk_epoch = ek_epoch key\<rparr> of
           Inl e \<Rightarrow> Inl e
         | Inr envelope \<Rightarrow>
             Inr \<lparr>lf_call_id = call_id,
                  lf_lease_id = (if truthy_str lease_id then lease_id else None),
                  lf_body = CallOutcome (if is_reply outcome then OtCompleted else OtFailed) reason envelope\<rparr>)"

subsection \<open>Policy and task\<close>

datatype admission_decision =
  Admit "skill_task option" policy scope
| AdmissionPolicyError
| AdmissionRefused refusal "string list"

definition resolve_admission ::
  "local_read \<Rightarrow> local_read \<Rightarrow> skill_task list \<Rightarrow> string \<Rightarrow> string option \<Rightarrow> admission_decision" where
  "resolve_admission policy_file scope_file tasks from requested =
     (case (load_policy policy_file, load_scope scope_file) of
        (Inr policy, Inr scope) \<Rightarrow>
          (case resolve_task policy tasks from requested of
             TaskRefused code offered \<Rightarrow> AdmissionRefused code offered
           | TaskResolved t \<Rightarrow> Admit t policy scope)
      | _ \<Rightarrow> AdmissionPolicyError)"

subsection \<open>Conversation contexts\<close>

record binding_input =
  bi_from :: string
  bi_task_id :: string
  bi_context_id :: "string option"
  bi_threadable :: bool
  bi_agent_kind :: agent_kind
  bi_codex_can_thread :: bool
  bi_workdir :: string
  bi_now :: int

record binding_decision =
  bd_ok :: bool
  bd_threading_available :: bool
  bd_contexts :: "context_binding list"
  bd_binding :: "context_binding option"

definition admit_binding :: "local_read \<Rightarrow> binding_input \<Rightarrow> binding_decision" where
  "admit_binding file input =
     (let threading = bi_threadable input \<and> (bi_agent_kind input = Claude \<or> bi_codex_can_thread input);
          contexts = prune_contexts (load_contexts file) (bi_now input)
      in case bi_context_id input of
           None \<Rightarrow> \<lparr>bd_ok = True, bd_threading_available = threading, bd_contexts = contexts, bd_binding = None\<rparr>
         | Some i \<Rightarrow>
             let binding = (if threading
                   then admit_context contexts \<lparr>ad_context_id = i, ad_caller = bi_from input, ad_task = bi_task_id input,
                          ad_agent_kind = bi_agent_kind input, ad_workdir = bi_workdir input, ad_now = bi_now input\<rparr>
                   else None)
             in \<lparr>bd_ok = (binding \<noteq> None), bd_threading_available = threading, bd_contexts = contexts,
                 bd_binding = binding\<rparr>)"

subsection \<open>What admission lets through\<close>

lemma resolve_task_cases:
  "resolve_task policy tasks from requested = TaskResolved (Some t) \<Longrightarrow>
     access_for policy from = AccessAllowed \<and> t \<in> set tasks \<and> st_id t = or_default requested ''ask''"
  by (cases "access_for policy from"; cases requested)
     (auto simp: resolve_task_def dest: find_Some_iff_mem split: option.splits)

lemma resolve_admission_admit:
  "resolve_admission pf sf tasks from requested = Admit t p s \<Longrightarrow>
   load_policy pf = Inr p \<and> load_scope sf = Inr s \<and> resolve_task p tasks from requested = TaskResolved t"
  by (auto simp: resolve_admission_def split: sum.splits task_resolution.splits)

lemma resolve_admission_blocked:
  "resolve_admission pf sf tasks from requested = AdmissionRefused RefusedBlocked offered \<Longrightarrow> offered = []"
  by (auto simp: resolve_admission_def resolve_task_def split: sum.splits task_resolution.splits if_split_asm option.splits)

lemma prune_contexts_mem: "b \<in> set (prune_contexts bs now) \<Longrightarrow> b \<in> set bs \<and> now - cb_last_used_at b < CONTEXT_TTL_MS"
  by (auto simp: prune_contexts_def dest: in_set_takeD)

lemma admit_context_Some:
  "admit_context bs i = Some b \<Longrightarrow> b \<in> set bs \<and> cb_context_id b = ad_context_id i \<and> cb_caller b = ad_caller i \<and>
    cb_task b = ad_task i \<and> cb_agent_kind b = ad_agent_kind i \<and> cb_workdir b = ad_workdir i \<and> cb_turns b < MAX_CONTEXT_TURNS"
  by (auto simp: admit_context_def dest: find_Some_iff_mem split: option.splits if_split_asm)

lemma admit_binding_Some:
  assumes "bd_binding (admit_binding file input) = Some b"
  shows "b \<in> set (load_contexts file) \<and> bi_threadable input \<and> bi_context_id input = Some (cb_context_id b) \<and>
    cb_caller b = bi_from input \<and> cb_task b = bi_task_id input \<and> cb_agent_kind b = bi_agent_kind input \<and>
    cb_workdir b = bi_workdir input \<and> cb_turns b < MAX_CONTEXT_TURNS \<and>
    bi_now input - cb_last_used_at b < CONTEXT_TTL_MS"
proof -
  obtain i where i: "bi_context_id input = Some i" "bi_threadable input"
    "admit_context (prune_contexts (load_contexts file) (bi_now input))
      \<lparr>ad_context_id = i, ad_caller = bi_from input, ad_task = bi_task_id input, ad_agent_kind = bi_agent_kind input,
       ad_workdir = bi_workdir input, ad_now = bi_now input\<rparr> = Some b"
    using assms by (auto simp: admit_binding_def Let_def split: option.splits if_split_asm)
  from admit_context_Some[OF this(3)] prune_contexts_mem i show ?thesis by fastforce
qed

text \<open>
  Admission is confined to what the owner declared. A call is admitted only under a policy
  and a scope that both load, for a caller that policy answers, to the requested task (the
  built-in one when none is named) among those on disk; a blocked caller is told of no task;
  and a conversation resumes only a stored binding of the same caller, task, agent and
  directory that is fresh, below its turn limit and still threadable.
\<close>

theorem admission_confined:
  "(\<forall>t p s. resolve_admission pf sf tasks from requested = Admit (Some t) p s \<longrightarrow>
      load_policy pf = Inr p \<and> load_scope sf = Inr s \<and> access_for p from = AccessAllowed \<and>
      t \<in> set tasks \<and> st_id t = or_default requested ''ask'') \<and>
   (\<forall>offered. resolve_admission pf sf tasks from requested = AdmissionRefused RefusedBlocked offered \<longrightarrow> offered = []) \<and>
   (\<forall>b. bd_binding (admit_binding file input) = Some b \<longrightarrow>
      b \<in> set (load_contexts file) \<and> bi_threadable input \<and> bi_context_id input = Some (cb_context_id b) \<and>
      cb_caller b = bi_from input \<and> cb_task b = bi_task_id input \<and> cb_agent_kind b = bi_agent_kind input \<and>
      cb_workdir b = bi_workdir input \<and> cb_turns b < MAX_CONTEXT_TURNS \<and>
      bi_now input - cb_last_used_at b < CONTEXT_TTL_MS)"
  using resolve_admission_admit resolve_task_cases resolve_admission_blocked admit_binding_Some by fast

lemma default_policy_loads: "load_policy ReadMissing = Inr DEFAULT_POLICY"
  by (simp add: load_policy_def validate_policy_def validate_effective_policy_def DEFAULT_POLICY_def Let_def)

lemma admission_confined_witness:
  "resolve_admission ReadMissing ReadMissing [ASK_TASK] ''bob'' None = Admit (Some ASK_TASK) DEFAULT_POLICY DEFAULT_SCOPE \<and>
   access_for DEFAULT_POLICY ''bob'' = AccessAllowed"
proof -
  have a: "resolve_admission ReadMissing ReadMissing [ASK_TASK] ''bob'' None = Admit (Some ASK_TASK) DEFAULT_POLICY DEFAULT_SCOPE"
    by (simp add: resolve_admission_def default_policy_loads)
       (simp add: resolve_task_def access_for_def DEFAULT_POLICY_def ASK_TASK_def)
  then show ?thesis using admission_confined[of ReadMissing ReadMissing "[ASK_TASK]" "''bob''" None] by blast
qed

end
