(* ===== verification/KeyRing.thy ===== *)
theory KeyRing
  imports OutboundJobs Admission KeyDirectory "HOL-Library.AList"
begin

text \<open>
  The key files of an installation, \<open>packages/cli/src/keys.ts\<close>: the identity root and, per
  encryption epoch, a state (private while active, a public tombstone once retired), a
  retained decryption key, a pending publication and a marker that the relay accepted it.
  The first writer of a file wins; a file that is locked, half-written or of another shape is
  \<open>Torn\<close>. An operation is a program over the directory whose actions are the file accesses,
  so several processes interleave between any two of them.
\<close>

datatype 'a slot = Torn | Whole 'a

record identity_keys =
  id_pkcs8 :: string
  id_pub :: string

datatype root_file =
  RootInitial identity_keys string string | RootStable identity_keys | RootPreChain | RootUnreadable

record active_epoch =
  ae_pkcs8 :: string
  ae_pub :: string
  ae_epoch :: int
  ae_prev :: string

record retired_epoch =
  re_pub :: string
  re_epoch :: int
  re_prev :: string

datatype epoch_state = EpochActive active_epoch | EpochRetired retired_epoch

fun state_epoch :: "epoch_state \<Rightarrow> int" where
  "state_epoch (EpochActive a) = ae_epoch a" | "state_epoch (EpochRetired r) = re_epoch r"
fun state_pub :: "epoch_state \<Rightarrow> string" where
  "state_pub (EpochActive a) = ae_pub a" | "state_pub (EpochRetired r) = re_pub r"
fun state_prev :: "epoch_state \<Rightarrow> string" where
  "state_prev (EpochActive a) = ae_prev a" | "state_prev (EpochRetired r) = re_prev r"

record retained_key =
  rk_pkcs8 :: string
  rk_pub :: string
  rk_epoch :: int
  rk_prev :: "string option"
  rk_until :: int

record published_epoch =
  pe_epoch :: int
  pe_pub :: string
  pe_prev :: "string option"
  pe_hash :: string

record key_publication =
  kp_record :: encryption_key_record
  kp_signature :: string

record key_dir =
  kd_root :: "root_file option"
  kd_states :: "(int \<times> epoch_state slot) list"
  kd_retained :: "(int \<times> retained_key slot) list"
  kd_published :: "(int \<times> published_epoch slot) list"
  kd_pending :: "(int \<times> key_publication slot) list"

text \<open>\<open>StoredKeys\<close>, the keys of one epoch with its link to the chain.\<close>

record ring_keys = stored_keys +
  rg_prev :: "string option"
  rg_published :: "string option"

datatype key_error =
  KeysMissing | KeysExist | KeysUnreadable | PreChainFormat | NoActiveEpoch | TopRetired | KeysMalformed
| RetainedInconsistent | PublishedInconsistent | ChangedInFlight | PendingMismatch | PendingUnwritten
| LiveEpochLimit nat int | NotPublished | RetiredWithoutSuccessor | NotExtending
| PublishedMismatch | RelayRefused | HashMalformed | IdentityChanged | AcknowledgedDifferently | EpochUnavailable

definition RETAINED_KEY_SKEW_MS :: int where "RETAINED_KEY_SKEW_MS = 120000"
definition RETAINED_KEY_TTL_MS :: int where
  "RETAINED_KEY_TTL_MS = MAILBOX_TTL_MS + RELAY_CALL_TIMEOUT_MS + RETAINED_KEY_SKEW_MS"
definition MAX_LIVE_ENCRYPTION_EPOCHS :: nat where "MAX_LIVE_ENCRYPTION_EPOCHS = 8"

type_synonym 'a key_op = "(key_dir, key_error + 'a) prog"

subsection \<open>Files\<close>

definition read_slot :: "(key_dir \<Rightarrow> (int \<times> 'a slot) list) \<Rightarrow> int \<Rightarrow> 'a key_op" where
  "read_slot family e = reads (\<lambda>d. case map_of (family d) e of Some (Whole x) \<Rightarrow> Inr x | _ \<Rightarrow> Inl KeysUnreadable)"

text \<open>\<open>existsSync\<close> and then the read, for a file that nothing removes.\<close>

definition read_optional :: "(key_dir \<Rightarrow> (int \<times> 'a slot) list) \<Rightarrow> int \<Rightarrow> 'a option key_op" where
  "read_optional family e = reads (\<lambda>d. case map_of (family d) e of
     None \<Rightarrow> Inr None | Some (Whole x) \<Rightarrow> Inr (Some x) | Some Torn \<Rightarrow> Inl KeysUnreadable)"

text \<open>The directory is listed first, then each file of the family is read.\<close>

definition read_epochs :: "(key_dir \<Rightarrow> (int \<times> 'a slot) list) \<Rightarrow> ('a \<Rightarrow> int) \<Rightarrow> 'a list key_op" where
  "read_epochs family epoch_of = and_then (reads (\<lambda>d. Inr (map fst (family d))))
     (each (\<lambda>e. and_then (read_slot family e)
        (\<lambda>x. and_then (require (epoch_of x = e) KeysUnreadable) (\<lambda>_. succeed x))))"

text \<open>
  The exclusive destination is the election slot: the winner creates it under its lock and then
  writes it, the others wait for it and read. A process that dies in between leaves it torn.
\<close>

type_synonym 'a family_update = "((int \<times> 'a slot) list \<Rightarrow> (int \<times> 'a slot) list) \<Rightarrow> key_dir \<Rightarrow> key_dir"

definition install_first_writer_wins ::
  "(key_dir \<Rightarrow> (int \<times> 'a slot) list) \<Rightarrow> 'a family_update \<Rightarrow> int \<Rightarrow> 'a \<Rightarrow> unit key_op" where
  "install_first_writer_wins family upd e x =
     and_then (act (\<lambda>d. if map_of (family d) e = None then (upd (\<lambda>xs. xs @ [(e, Torn)]) d, Inr True) else (d, Inr False)))
       (\<lambda>won. if \<not> won then succeed ()
          else act (\<lambda>d. (if map_of (family d) e = Some Torn then upd (AList.update e (Whole x)) d else d, Inr ())))"

definition list_epoch_states :: "epoch_state list key_op" where
  "list_epoch_states = read_epochs kd_states state_epoch"

definition list_retained_epochs :: "retained_key list key_op" where
  "list_retained_epochs = read_epochs kd_retained rk_epoch"

definition load_identity_root :: "(identity_keys \<times> (string \<times> string) option) key_op" where
  "load_identity_root = reads (\<lambda>d. case kd_root d of
     None \<Rightarrow> Inl KeysMissing
   | Some (RootStable i) \<Rightarrow> Inr (i, None)
   | Some (RootInitial i pkcs8 pub) \<Rightarrow> Inr (i, Some (pkcs8, pub))
   | Some RootPreChain \<Rightarrow> Inl PreChainFormat
   | Some RootUnreadable \<Rightarrow> Inl KeysUnreadable)"

subsection \<open>Retiring an epoch\<close>

definition retained_of :: "ring_keys \<Rightarrow> int \<Rightarrow> retained_key" where
  "retained_of k now = \<lparr>rk_pkcs8 = sk_encryption_pkcs8 k, rk_pub = sk_encryption_pub k, rk_epoch = sk_epoch k,
     rk_prev = rg_prev k, rk_until = now + RETAINED_KEY_TTL_MS\<rparr>"

definition retain_epoch :: "ring_keys \<Rightarrow> int \<Rightarrow> unit key_op" where
  "retain_epoch k now =
     and_then (install_first_writer_wins kd_retained kd_retained_update (sk_epoch k) (retained_of k now)) (\<lambda>_.
     and_then (read_slot kd_retained (sk_epoch k)) (\<lambda>p.
       require (rk_epoch p = sk_epoch k \<and> rk_pub p = sk_encryption_pub k \<and> rk_pkcs8 p = sk_encryption_pkcs8 k)
         RetainedInconsistent))"

definition write_root :: "root_file \<Rightarrow> unit key_op" where
  "write_root r = act (\<lambda>d. (d\<lparr>kd_root := Some r\<rparr>, Inr ()))"

text \<open>\<open>writeJsonAtomic\<close> on an epoch's state file.\<close>

definition write_state :: "int \<Rightarrow> epoch_state \<Rightarrow> unit key_op" where
  "write_state e x = act (\<lambda>d. (d\<lparr>kd_states := AList.update e (Whole x) (kd_states d)\<rparr>, Inr ()))"

definition retire_root :: "ring_keys \<Rightarrow> identity_keys \<Rightarrow> string \<Rightarrow> string \<Rightarrow> unit key_op" where
  "retire_root k i pkcs8 pub =
     and_then (require (id_pub i = sk_identity_pub k \<and> id_pkcs8 i = sk_identity_pkcs8 k \<and>
         pub = sk_encryption_pub k \<and> pkcs8 = sk_encryption_pkcs8 k) ChangedInFlight) (\<lambda>_.
     write_root (RootStable \<lparr>id_pkcs8 = sk_identity_pkcs8 k, id_pub = sk_identity_pub k\<rparr>))"

definition retire_active :: "ring_keys \<Rightarrow> active_epoch \<Rightarrow> unit key_op" where
  "retire_active k a =
     and_then (require (ae_pub a = sk_encryption_pub k \<and> ae_pkcs8 a = sk_encryption_pkcs8 k \<and>
         Some (ae_prev a) = rg_prev k) ChangedInFlight) (\<lambda>_.
     write_state (sk_epoch k) (EpochRetired \<lparr>re_pub = ae_pub a, re_epoch = ae_epoch a, re_prev = ae_prev a\<rparr>))"

definition retire_epoch :: "ring_keys \<Rightarrow> int \<Rightarrow> unit key_op" where
  "retire_epoch k now = and_then (retain_epoch k now) (\<lambda>_.
     if sk_epoch k = 1
     then and_then load_identity_root (\<lambda>root. case root of
            (_, None) \<Rightarrow> succeed ()
          | (i, Some (pkcs8, pub)) \<Rightarrow> retire_root k i pkcs8 pub)
     else and_then (read_slot kd_states (sk_epoch k)) (\<lambda>state. case state of
            EpochRetired _ \<Rightarrow> succeed ()
          | EpochActive a \<Rightarrow> retire_active k a))"

subsection \<open>Loading\<close>

definition load_published_epoch :: "ring_keys \<Rightarrow> published_epoch option key_op" where
  "load_published_epoch k = and_then (read_optional kd_published (sk_epoch k)) (\<lambda>p. case p of
     None \<Rightarrow> succeed None
   | Some m \<Rightarrow>
       and_then (require (pe_epoch m = sk_epoch k \<and> pe_pub m = sk_encryption_pub k \<and> pe_prev m = rg_prev k)
         PublishedInconsistent) (\<lambda>_. succeed (Some m)))"

definition keys_of_active :: "identity_keys \<Rightarrow> active_epoch \<Rightarrow> ring_keys" where
  "keys_of_active i a = \<lparr>sk_identity_pub = id_pub i, sk_identity_pkcs8 = id_pkcs8 i, sk_encryption_pub = ae_pub a,
     sk_encryption_pkcs8 = ae_pkcs8 a, sk_epoch = ae_epoch a, rg_prev = Some (ae_prev a), rg_published = None\<rparr>"

definition keys_of_initial :: "identity_keys \<Rightarrow> string \<Rightarrow> string \<Rightarrow> ring_keys" where
  "keys_of_initial i pkcs8 pub = \<lparr>sk_identity_pub = id_pub i, sk_identity_pkcs8 = id_pkcs8 i, sk_encryption_pub = pub,
     sk_encryption_pkcs8 = pkcs8, sk_epoch = 1, rg_prev = None, rg_published = None\<rparr>"

definition highest_state :: "epoch_state list \<Rightarrow> int" where
  "highest_state states = foldl (\<lambda>h s. max h (state_epoch s)) 0 states"

definition active_states :: "epoch_state list \<Rightarrow> active_epoch list" where
  "active_states states = stable_sort (\<lambda>a b. ae_epoch b \<le> ae_epoch a)
     (concat (map (\<lambda>s. case s of EpochActive a \<Rightarrow> [a] | EpochRetired _ \<Rightarrow> []) states))"

text \<open>
  The newest private epoch; every superseded private state is replaced by its tombstone.
  \<open>now\<close> is the clock that stamps what is retained on the way.
\<close>

definition current_keys :: "identity_keys \<Rightarrow> (string \<times> string) option \<Rightarrow> active_epoch list \<Rightarrow> ring_keys option" where
  "current_keys i initial active = (case active of
     a # _ \<Rightarrow> Some (keys_of_active i a)
   | [] \<Rightarrow> map_option (\<lambda>(pkcs8, pub). keys_of_initial i pkcs8 pub) initial)"

definition scrub_superseded ::
  "identity_keys \<Rightarrow> (string \<times> string) option \<Rightarrow> active_epoch list \<Rightarrow> ring_keys \<Rightarrow> int \<Rightarrow> unit key_op" where
  "scrub_superseded i initial active current now =
     and_then (case initial of
          Some (pkcs8, pub) \<Rightarrow> if sk_epoch current > 1 then retire_epoch (keys_of_initial i pkcs8 pub) now else succeed ()
        | None \<Rightarrow> succeed ()) (\<lambda>_.
     and_then (each (\<lambda>a. retire_epoch (keys_of_active i a) now) (tl active)) (\<lambda>_. succeed ()))"

definition load_current ::
  "identity_keys \<times> (string \<times> string) option \<Rightarrow> epoch_state list \<Rightarrow> int \<Rightarrow> ring_keys \<Rightarrow> ring_keys key_op" where
  "load_current root states now current =
     and_then (require (highest_state states \<le> sk_epoch current) TopRetired) (\<lambda>_.
     and_then (scrub_superseded (fst root) (snd root) (active_states states) current now) (\<lambda>_.
     and_then (load_published_epoch current) (\<lambda>p.
     and_then (require ((sk_epoch current = 1) = (rg_prev current = None)) KeysMalformed) (\<lambda>_.
     succeed (current\<lparr>rg_published := map_option pe_hash p\<rparr>)))))"

definition load_keys :: "int \<Rightarrow> ring_keys key_op" where
  "load_keys now = and_then load_identity_root (\<lambda>root.
     and_then list_epoch_states (\<lambda>states.
     case current_keys (fst root) (snd root) (active_states states) of
       None \<Rightarrow> raise NoActiveEpoch
     | Some current \<Rightarrow> load_current root states now current))"

subsection \<open>Rotation\<close>

definition unlink_retained :: "int \<Rightarrow> unit key_op" where
  "unlink_retained e = act (\<lambda>d. (d\<lparr>kd_retained := AList.delete e (kd_retained d)\<rparr>, Inr ()))"

definition oldest_retained :: "retained_key list \<Rightarrow> retained_key" where
  "oldest_retained ks = foldl (\<lambda>c k. if rk_epoch k < rk_epoch c then k else c) (hd ks) (tl ks)"

text \<open>\<open>jobs\<close> is the outbound store; \<open>pkcs8\<close> and \<open>pub\<close> the fresh key pair.\<close>

definition make_room :: "outbound_job list \<Rightarrow> int \<Rightarrow> unit key_op" where
  "make_room jobs now = and_then list_retained_epochs (\<lambda>all.
     let live = filter (\<lambda>k. now < rk_until k) all in
     if length live + 1 < MAX_LIVE_ENCRYPTION_EPOCHS then succeed ()
     else let oldest = oldest_retained live;
              blocking = length (filter (\<lambda>j. oj_expires_at j > now \<and> oj_sender_epoch j = rk_epoch oldest) jobs)
          in and_then (require (blocking = 0) (LiveEpochLimit blocking (rk_epoch oldest))) (\<lambda>_.
             unlink_retained (rk_epoch oldest)))"

definition rotation_candidate :: "ring_keys \<Rightarrow> string \<Rightarrow> string \<Rightarrow> string \<Rightarrow> active_epoch" where
  "rotation_candidate base link pkcs8 pub = \<lparr>ae_pkcs8 = pkcs8, ae_pub = pub, ae_epoch = sk_epoch base + 1, ae_prev = link\<rparr>"

definition elect_epoch :: "ring_keys \<Rightarrow> string \<Rightarrow> int \<Rightarrow> string \<Rightarrow> string \<Rightarrow> ring_keys key_op" where
  "elect_epoch base link now pkcs8 pub =
     (let target = sk_epoch base + 1
      in and_then (install_first_writer_wins kd_states kd_states_update target
           (EpochActive (rotation_candidate base link pkcs8 pub))) (\<lambda>_.
         and_then (read_slot kd_states target) (\<lambda>elected. case elected of
           EpochRetired _ \<Rightarrow>
             and_then (load_keys now) (\<lambda>current.
               if sk_epoch current > target \<and> sk_identity_pub current = sk_identity_pub base
               then succeed current else raise RetiredWithoutSuccessor)
         | EpochActive a \<Rightarrow>
             and_then (require (ae_epoch a = target \<and> ae_prev a = link) NotExtending) (\<lambda>_.
             and_then (retire_epoch base now) (\<lambda>_. load_keys now)))))"

definition rotate_encryption_key :: "outbound_job list \<Rightarrow> int \<Rightarrow> string \<Rightarrow> string \<Rightarrow> ring_keys key_op" where
  "rotate_encryption_key jobs now pkcs8 pub = and_then (load_keys now) (\<lambda>base.
     and_then (make_room jobs now) (\<lambda>_.
     case rg_published base of
       None \<Rightarrow> raise NotPublished
     | Some link \<Rightarrow> elect_epoch base link now pkcs8 pub))"

subsection \<open>Publication\<close>

definition matches_current :: "key_publication \<Rightarrow> ring_keys \<Rightarrow> bool" where
  "matches_current p k = (ek_epoch (kp_record p) = sk_epoch k \<and> ek_pub (kp_record p) = sk_encryption_pub k \<and>
     ek_prev (kp_record p) = rg_prev k)"

definition load_pending :: "ring_keys \<Rightarrow> key_publication option key_op" where
  "load_pending k = and_then (read_optional kd_pending (sk_epoch k)) (\<lambda>p. case p of
     None \<Rightarrow> succeed None
   | Some x \<Rightarrow> and_then (require (matches_current x k) PendingMismatch) (\<lambda>_. succeed (Some x)))"

definition choose_pending :: "int \<Rightarrow> key_publication \<Rightarrow> (ring_keys \<times> key_publication option) key_op" where
  "choose_pending now candidate = and_then (load_keys now) (\<lambda>current.
     if rg_published current \<noteq> None then succeed (current, None)
     else and_then (require (matches_current candidate current) PendingMismatch) (\<lambda>_.
          and_then (install_first_writer_wins kd_pending kd_pending_update (sk_epoch current) candidate) (\<lambda>_.
          and_then (load_pending current) (\<lambda>p. case p of
             None \<Rightarrow> raise PendingUnwritten
           | Some x \<Rightarrow> succeed (current, Some x)))))"

definition published_of :: "ring_keys \<Rightarrow> string \<Rightarrow> published_epoch" where
  "published_of k h = \<lparr>pe_epoch = sk_epoch k, pe_pub = sk_encryption_pub k, pe_prev = rg_prev k, pe_hash = h\<rparr>"

definition remember_published :: "int \<Rightarrow> ring_keys \<Rightarrow> string \<Rightarrow> ring_keys key_op" where
  "remember_published now k h = and_then (require (hex_of_length 32 h) HashMalformed) (\<lambda>_.
     and_then load_identity_root (\<lambda>(i, _).
     and_then (require (id_pub i = sk_identity_pub k \<and> id_pkcs8 i = sk_identity_pkcs8 k) IdentityChanged) (\<lambda>_.
     and_then (install_first_writer_wins kd_published kd_published_update (sk_epoch k) (published_of k h)) (\<lambda>_.
     and_then (read_slot kd_published (sk_epoch k)) (\<lambda>p.
     and_then (require (p = published_of k h) AcknowledgedDifferently) (\<lambda>_.
     load_keys now))))))"

text \<open>
  \<open>api.ts\<close>, \<open>publishEncryptionKey\<close>: one signed record per epoch is chosen and sent until the
  relay has taken it; then its transcript hash is the marker. \<open>sign_for\<close> builds and signs the
  record of a key, \<open>hash\<close> is its transcript hash, \<open>sent\<close> whether the relay accepted it.
\<close>

definition record_for ::
  "(string \<Rightarrow> string) \<Rightarrow> string \<Rightarrow> string \<Rightarrow> int \<Rightarrow> ring_keys \<Rightarrow> encryption_key_record" where
  "record_for key_id_for origin address now k =
     \<lparr>ek_relay_origin = origin, ek_address = address, ek_key_id = key_id_for (sk_encryption_pub k),
      ek_pub = sk_encryption_pub k, ek_epoch = sk_epoch k, ek_not_before = now,
      ek_not_after = now + MAX_ENCRYPTION_KEY_VALIDITY_MS, ek_prev = rg_prev k\<rparr>"

definition send_publication ::
  "(encryption_key_record \<Rightarrow> string) \<Rightarrow> (key_publication \<Rightarrow> bool) \<Rightarrow> int \<Rightarrow> ring_keys \<times> key_publication option \<Rightarrow> unit key_op" where
  "send_publication hash sent now chosen = (case snd chosen of
     None \<Rightarrow> succeed ()
   | Some p \<Rightarrow>
       and_then (require (sent p) RelayRefused) (\<lambda>_.
       and_then (remember_published now (fst chosen) (hash (kp_record p))) (\<lambda>_. succeed ())))"

definition publish_encryption_key ::
  "(ring_keys \<Rightarrow> key_publication) \<Rightarrow> (encryption_key_record \<Rightarrow> string) \<Rightarrow> (key_publication \<Rightarrow> bool) \<Rightarrow> int \<Rightarrow> unit key_op" where
  "publish_encryption_key sign_for hash sent now = and_then (load_keys now) (\<lambda>keys.
     and_then (load_pending keys) (\<lambda>publication.
     case rg_published keys of
       Some h \<Rightarrow> require (case publication of None \<Rightarrow> True | Some p \<Rightarrow> hash (kp_record p) = h) PublishedMismatch
     | None \<Rightarrow>
         (case publication of
            Some p \<Rightarrow> send_publication hash sent now (keys, Some p)
          | None \<Rightarrow> and_then (choose_pending now (sign_for keys)) (send_publication hash sent now))))"

subsection \<open>Setup and decryption\<close>

definition keys_exist :: "key_dir \<Rightarrow> bool" where
  "keys_exist d = (kd_root d \<noteq> None)"

definition generate_identity_keys :: "identity_keys \<Rightarrow> string \<Rightarrow> string \<Rightarrow> ring_keys key_op" where
  "generate_identity_keys i pkcs8 pub = bindp (reads keys_exist) (\<lambda>there.
     if there then raise KeysExist
     else and_then (write_root (RootInitial i pkcs8 pub)) (\<lambda>_. succeed (keys_of_initial i pkcs8 pub)))"

definition keys_of_retained :: "ring_keys \<Rightarrow> retained_key \<Rightarrow> ring_keys" where
  "keys_of_retained current r = \<lparr>sk_identity_pub = sk_identity_pub current, sk_identity_pkcs8 = sk_identity_pkcs8 current,
     sk_encryption_pub = rk_pub r, sk_encryption_pkcs8 = rk_pkcs8 r, sk_epoch = rk_epoch r, rg_prev = rk_prev r,
     rg_published = None\<rparr>"

definition load_encryption_keys_for_epoch :: "int \<Rightarrow> int \<Rightarrow> ring_keys key_op" where
  "load_encryption_keys_for_epoch e now = and_then (load_keys now) (\<lambda>current.
     if sk_epoch current = e then succeed current
     else and_then list_retained_epochs (\<lambda>all. case find (\<lambda>k. rk_epoch k = e) all of
        None \<Rightarrow> raise EpochUnavailable
      | Some r \<Rightarrow>
          if now \<ge> rk_until r then raise EpochUnavailable
          else and_then (require ((rk_epoch r = 1) = (rk_prev r = None)) KeysMalformed) (\<lambda>_.
               succeed (keys_of_retained current r))))"

record key_ring_report =
  kr_current_epoch :: int
  kr_live_epochs :: "int list"
  kr_earliest_release :: "int option"

definition inspect_encryption_key_ring :: "int \<Rightarrow> key_ring_report key_op" where
  "inspect_encryption_key_ring now = and_then (load_keys now) (\<lambda>current.
     and_then list_retained_epochs (\<lambda>all.
       let live = stable_sort (\<lambda>a b. rk_epoch a \<le> rk_epoch b) (filter (\<lambda>k. now < rk_until k) all)
       in succeed \<lparr>kr_current_epoch = sk_epoch current, kr_live_epochs = map rk_epoch live,
            kr_earliest_release = (case map rk_until live of [] \<Rightarrow> None | u # us \<Rightarrow> Some (foldl min u us))\<rparr>))"

end
