(* ===== verification/KeyRingRuns.thy ===== *)
theory KeyRingRuns
  imports KeyRing
begin

text \<open>
  What concurrent key operations may do to the key directory (\<open>ring_after\<close>), and the shape
  they keep it in (\<open>ring_ok\<close>): each elected epoch is linked to the transcript its predecessor
  was published with, and no private key is scrubbed before its successor is elected.
\<close>

abbreviation whole :: "(int \<times> 'a slot) list \<Rightarrow> int \<Rightarrow> 'a \<Rightarrow> bool" where
  "whole xs e x \<equiv> map_of xs e = Some (Whole x)"

definition keyed :: "(int \<times> 'a) list \<Rightarrow> bool" where "keyed xs \<longleftrightarrow> distinct (map fst xs)"

fun state_after :: "epoch_state \<Rightarrow> epoch_state \<Rightarrow> bool" where
  "state_after (EpochActive a) y = (y = EpochActive a \<or>
     y = EpochRetired \<lparr>re_pub = ae_pub a, re_epoch = ae_epoch a, re_prev = ae_prev a\<rparr>)"
| "state_after (EpochRetired r) y = (y = EpochRetired r)"

fun root_after :: "root_file option \<Rightarrow> root_file option \<Rightarrow> bool" where
  "root_after (Some (RootInitial i p q)) r = (r = Some (RootInitial i p q) \<or> r = Some (RootStable i))"
| "root_after r r' = (r' = r)"

definition ring_after :: "key_dir \<Rightarrow> key_dir \<Rightarrow> bool" where
  "ring_after d d' \<longleftrightarrow> root_after (kd_root d) (kd_root d') \<and>
     (\<forall>e x. whole (kd_states d) e x \<longrightarrow> (\<exists>y. whole (kd_states d') e y \<and> state_after x y)) \<and>
     (\<forall>e x. whole (kd_published d) e x \<longrightarrow> whole (kd_published d') e x) \<and>
     (\<forall>e x. whole (kd_pending d) e x \<longrightarrow> whole (kd_pending d') e x)"

text \<open>The public and the private part of an epoch, as far as the directory still fixes them.\<close>

definition epoch_pub_ok :: "int \<Rightarrow> string \<Rightarrow> string option \<Rightarrow> key_dir \<Rightarrow> bool" where
  "epoch_pub_ok e pub prev d \<longleftrightarrow>
     (if e = 1 then prev = None \<and> (\<forall>i p q. kd_root d = Some (RootInitial i p q) \<longrightarrow> pub = q)
      else e \<ge> 2 \<and> (\<exists>x. whole (kd_states d) e x \<and> state_pub x = pub \<and> prev = Some (state_prev x)))"

definition epoch_key_ok :: "int \<Rightarrow> string \<Rightarrow> key_dir \<Rightarrow> bool" where
  "epoch_key_ok e pkcs8 d \<longleftrightarrow>
     (if e = 1 then (\<forall>i p q. kd_root d = Some (RootInitial i p q) \<longrightarrow> pkcs8 = p)
      else (\<forall>a. whole (kd_states d) e (EpochActive a) \<longrightarrow> ae_pkcs8 a = pkcs8))"

definition states_ok :: "key_dir \<Rightarrow> bool" where
  "states_ok d \<longleftrightarrow> keyed (kd_states d) \<and>
     (\<forall>e x. whole (kd_states d) e x \<longrightarrow> state_epoch x = e \<and>
        (\<exists>p. whole (kd_published d) (e - 1) p \<and> pe_hash p = state_prev x)) \<and>
     (\<forall>e s. map_of (kd_states d) e = Some s \<longrightarrow> e \<ge> 2 \<and> (e \<ge> 3 \<longrightarrow> (\<exists>x. whole (kd_states d) (e - 1) x)))"

definition successors_ok :: "key_dir \<Rightarrow> bool" where
  "successors_ok d \<longleftrightarrow>
     (\<exists>i. (\<exists>p q. kd_root d = Some (RootInitial i p q)) \<or>
          kd_root d = Some (RootStable i) \<and> (\<exists>x. whole (kd_states d) 2 x)) \<and>
     (\<forall>e r. whole (kd_states d) e (EpochRetired r) \<longrightarrow> (\<exists>x. whole (kd_states d) (e + 1) x))"

definition published_ok :: "(encryption_key_record \<Rightarrow> string) \<Rightarrow> key_dir \<Rightarrow> bool" where
  "published_ok hash d \<longleftrightarrow> (\<forall>e p. whole (kd_published d) e p \<longrightarrow>
     pe_epoch p = e \<and> epoch_pub_ok e (pe_pub p) (pe_prev p) d \<and>
     (\<exists>x. whole (kd_pending d) e x \<and> pe_hash p = hash (kp_record x)))"

definition pending_ok :: "key_dir \<Rightarrow> bool" where
  "pending_ok d \<longleftrightarrow> (\<forall>e x. whole (kd_pending d) e x \<longrightarrow>
     ek_epoch (kp_record x) = e \<and> epoch_pub_ok e (ek_pub (kp_record x)) (ek_prev (kp_record x)) d)"

definition retained_ok :: "key_dir \<Rightarrow> bool" where
  "retained_ok d \<longleftrightarrow> keyed (kd_retained d) \<and> (\<forall>e r. whole (kd_retained d) e r \<longrightarrow>
     rk_epoch r = e \<and> epoch_pub_ok e (rk_pub r) (rk_prev r) d \<and> epoch_key_ok e (rk_pkcs8 r) d)"

definition ring_ok :: "(encryption_key_record \<Rightarrow> string) \<Rightarrow> key_dir \<Rightarrow> bool" where
  "ring_ok hash d \<longleftrightarrow> states_ok d \<and> successors_ok d \<and> published_ok hash d \<and> pending_ok d \<and> retained_ok d"

subsection \<open>The relation\<close>

lemma state_after_refl [simp]: "state_after x x"
  by (cases x) simp_all

lemma state_after_trans: "state_after x y \<Longrightarrow> state_after y z \<Longrightarrow> state_after x z"
  by (cases x; cases y) auto

lemma state_after_same:
  "state_after x y \<Longrightarrow> state_pub y = state_pub x \<and> state_prev y = state_prev x \<and> state_epoch y = state_epoch x"
  by (cases x) auto

lemma state_after_active: "state_after x (EpochActive a) \<Longrightarrow> x = EpochActive a"
  by (cases x) auto

lemma root_after_refl [simp]: "root_after r r"
  by (cases r) (simp_all split: root_file.split, metis root_after.simps root_file.exhaust)

lemma root_after_cases:
  "root_after r r' \<longleftrightarrow> r' = r \<or> (\<exists>i p q. r = Some (RootInitial i p q) \<and> r' = Some (RootStable i))"
  by (cases "(r, r')" rule: root_after.cases) auto

lemma root_after_trans: "root_after r r' \<Longrightarrow> root_after r' r'' \<Longrightarrow> root_after r r''"
  by (auto simp: root_after_cases)

lemma ring_after_refl: "ring_after d d"
  by (auto simp: ring_after_def root_after_cases)

lemma ring_after_trans:
  assumes a: "ring_after d d'" and b: "ring_after d' d''"
  shows "ring_after d d''"
proof -
  have "root_after (kd_root d) (kd_root d'')"
    using a b root_after_trans by (simp add: ring_after_def) blast
  moreover have "\<exists>z. whole (kd_states d'') e z \<and> state_after x z" if w: "whole (kd_states d) e x" for e x
  proof -
    obtain y where y: "whole (kd_states d') e y" "state_after x y" using a w unfolding ring_after_def by blast
    obtain z where "whole (kd_states d'') e z" "state_after y z" using b y(1) unfolding ring_after_def by blast
    then show ?thesis using state_after_trans[OF y(2)] by blast
  qed
  ultimately show ?thesis using a b by (simp add: ring_after_def)
qed

lemma ring_after_state:
  "ring_after d d' \<Longrightarrow> whole (kd_states d) e x \<Longrightarrow> \<exists>y. whole (kd_states d') e y \<and> state_after x y"
  by (simp add: ring_after_def)

text \<open>What a process learned about an epoch stays true.\<close>

lemma epoch_pub_ok_later:
  assumes "epoch_pub_ok e pub prev d" "ring_after d d'"
  shows "epoch_pub_ok e pub prev d'"
proof (cases "e = 1")
  case True
  then show ?thesis using assms by (auto simp: epoch_pub_ok_def ring_after_def root_after_cases)
next
  case False
  then obtain x where x: "whole (kd_states d) e x" "state_pub x = pub" "prev = Some (state_prev x)"
    using assms(1) by (auto simp: epoch_pub_ok_def)
  obtain y where y: "whole (kd_states d') e y" "state_after x y" using ring_after_state[OF assms(2) x(1)] by blast
  then have "state_pub y = pub" "prev = Some (state_prev y)" using state_after_same[OF y(2)] x(2,3) by simp_all
  then show ?thesis using False assms(1) y(1) unfolding epoch_pub_ok_def by (simp only: if_False) blast
qed

lemma epoch_key_ok_later:
  assumes "epoch_key_ok e pkcs8 d" "ring_after d d'" "epoch_pub_ok e pub prev d"
  shows "epoch_key_ok e pkcs8 d'"
proof (cases "e = 1")
  case True
  then show ?thesis using assms by (auto simp: epoch_key_ok_def ring_after_def root_after_cases)
next
  case False
  then obtain x where x: "whole (kd_states d) e x" using assms(3) by (auto simp: epoch_pub_ok_def)
  obtain y where y: "whole (kd_states d') e y" "state_after x y" using ring_after_state[OF assms(2) x] by blast
  show ?thesis
    unfolding epoch_key_ok_def if_not_P[OF False]
  proof (intro allI impI)
    fix a assume a: "whole (kd_states d') e (EpochActive a)"
    then have "x = EpochActive a" using y state_after_active by simp
    then show "ae_pkcs8 a = pkcs8" using assms(1) x False by (simp add: epoch_key_ok_def)
  qed
qed

subsection \<open>Single writes\<close>

lemma whole_reserved [simp]:
  "map_of xs e = None \<Longrightarrow> whole (xs @ [(e, Torn)]) e' x \<longleftrightarrow> whole xs e' x"
  by (auto simp: map_add_def split: option.splits)

lemma whole_filled [simp]:
  "whole (AList.update e (Whole x) xs) e' y \<longleftrightarrow> (if e' = e then y = x else whole xs e' y)"
  by (auto simp: update_conv')

lemma keyed_writes:
  "map_of xs e = None \<Longrightarrow> keyed xs \<Longrightarrow> keyed (xs @ [(e, Torn)])"
  "keyed ys \<Longrightarrow> keyed (AList.update e y ys)" "keyed ys \<Longrightarrow> keyed (AList.delete e ys)"
  by (auto simp: keyed_def map_of_eq_None_iff distinct_update distinct_delete)

lemmas ring_defs = ring_ok_def states_ok_def successors_ok_def published_ok_def pending_ok_def retained_ok_def
lemmas epoch_ok_defs = epoch_pub_ok_def epoch_key_ok_def

text \<open>A directory that differs in retained keys only.\<close>

lemma retained_write:
  assumes "ring_ok hash d" "keyed xs"
    "\<And>e r. whole xs e r \<Longrightarrow> whole (kd_retained d) e r \<or>
       rk_epoch r = e \<and> epoch_pub_ok e (rk_pub r) (rk_prev r) d \<and> epoch_key_ok e (rk_pkcs8 r) d"
  shows "ring_after d (d\<lparr>kd_retained := xs\<rparr>) \<and> ring_ok hash (d\<lparr>kd_retained := xs\<rparr>)"
proof -
  have e: "epoch_pub_ok e pub prev (d\<lparr>kd_retained := xs\<rparr>) = epoch_pub_ok e pub prev d"
    "epoch_key_ok e pk (d\<lparr>kd_retained := xs\<rparr>) = epoch_key_ok e pk d" for e pub prev pk
    by (simp_all add: epoch_ok_defs)
  have "retained_ok (d\<lparr>kd_retained := xs\<rparr>)"
    using assms unfolding ring_ok_def retained_ok_def e by simp blast
  moreover have "states_ok (d\<lparr>kd_retained := xs\<rparr>)" "successors_ok (d\<lparr>kd_retained := xs\<rparr>)"
    "published_ok hash (d\<lparr>kd_retained := xs\<rparr>)" "pending_ok (d\<lparr>kd_retained := xs\<rparr>)"
    using assms(1) unfolding ring_ok_def states_ok_def successors_ok_def published_ok_def pending_ok_def e by simp_all
  moreover have "ring_after d (d\<lparr>kd_retained := xs\<rparr>)"
    by (auto simp: ring_after_def root_after_cases)
  ultimately show ?thesis by (simp add: ring_ok_def)
qed

lemma pending_write:
  assumes "ring_ok hash d" "\<And>e x. whole (kd_pending d) e x \<Longrightarrow> whole xs e x"
    "\<And>e x. whole xs e x \<Longrightarrow> whole (kd_pending d) e x \<or>
       ek_epoch (kp_record x) = e \<and> epoch_pub_ok e (ek_pub (kp_record x)) (ek_prev (kp_record x)) d"
  shows "ring_after d (d\<lparr>kd_pending := xs\<rparr>) \<and> ring_ok hash (d\<lparr>kd_pending := xs\<rparr>)"
proof -
  have e: "epoch_pub_ok e pub prev (d\<lparr>kd_pending := xs\<rparr>) = epoch_pub_ok e pub prev d"
    "epoch_key_ok e pk (d\<lparr>kd_pending := xs\<rparr>) = epoch_key_ok e pk d" for e pub prev pk
    by (simp_all add: epoch_ok_defs)
  have "pending_ok (d\<lparr>kd_pending := xs\<rparr>)"
    using assms(1,3) unfolding ring_ok_def pending_ok_def e by simp blast
  moreover have "published_ok hash (d\<lparr>kd_pending := xs\<rparr>)"
    using assms(1,2) unfolding ring_ok_def published_ok_def e by simp blast
  moreover have "states_ok (d\<lparr>kd_pending := xs\<rparr>)" "successors_ok (d\<lparr>kd_pending := xs\<rparr>)" "retained_ok (d\<lparr>kd_pending := xs\<rparr>)"
    using assms(1) unfolding ring_ok_def states_ok_def successors_ok_def retained_ok_def e by simp_all
  moreover have "ring_after d (d\<lparr>kd_pending := xs\<rparr>)"
    using assms(2) by (auto simp: ring_after_def root_after_cases)
  ultimately show ?thesis by (simp add: ring_ok_def)
qed

lemma published_write:
  assumes "ring_ok hash d" "\<And>e x. whole (kd_published d) e x \<Longrightarrow> whole xs e x"
    "\<And>e p. whole xs e p \<Longrightarrow> whole (kd_published d) e p \<or>
       pe_epoch p = e \<and> epoch_pub_ok e (pe_pub p) (pe_prev p) d \<and>
       (\<exists>x. whole (kd_pending d) e x \<and> pe_hash p = hash (kp_record x))"
  shows "ring_after d (d\<lparr>kd_published := xs\<rparr>) \<and> ring_ok hash (d\<lparr>kd_published := xs\<rparr>)"
proof -
  have e: "epoch_pub_ok e pub prev (d\<lparr>kd_published := xs\<rparr>) = epoch_pub_ok e pub prev d"
    "epoch_key_ok e pk (d\<lparr>kd_published := xs\<rparr>) = epoch_key_ok e pk d" for e pub prev pk
    by (simp_all add: epoch_ok_defs)
  have "states_ok (d\<lparr>kd_published := xs\<rparr>)"
    using assms(1,2) unfolding ring_ok_def states_ok_def by simp blast
  moreover have "published_ok hash (d\<lparr>kd_published := xs\<rparr>)"
    using assms(1,3) unfolding ring_ok_def published_ok_def e by simp blast
  moreover have "pending_ok (d\<lparr>kd_published := xs\<rparr>)" "successors_ok (d\<lparr>kd_published := xs\<rparr>)" "retained_ok (d\<lparr>kd_published := xs\<rparr>)"
    using assms(1) unfolding ring_ok_def pending_ok_def successors_ok_def retained_ok_def e by simp_all
  moreover have "ring_after d (d\<lparr>kd_published := xs\<rparr>)"
    using assms(2) by (auto simp: ring_after_def root_after_cases)
  ultimately show ?thesis by (simp add: ring_ok_def)
qed

text \<open>A write of a state or of the root is judged by what stays fixed.\<close>

lemma later_records_ok:
  assumes "ring_after d d'" "published_ok hash d" "pending_ok d" "retained_ok d"
    "kd_published d' = kd_published d" "kd_pending d' = kd_pending d" "kd_retained d' = kd_retained d"
  shows "published_ok hash d' \<and> pending_ok d' \<and> retained_ok d'"
proof -
  have "published_ok hash d'"
    using assms(2) epoch_pub_ok_later[OF _ assms(1)] unfolding published_ok_def assms(5,6) by blast
  moreover have "pending_ok d'"
    using assms(3) epoch_pub_ok_later[OF _ assms(1)] unfolding pending_ok_def assms(6) by blast
  moreover have "retained_ok d'"
    using assms(4) epoch_pub_ok_later[OF _ assms(1)] epoch_key_ok_later[OF _ assms(1)]
    unfolding retained_ok_def assms(7) by blast
  ultimately show ?thesis by simp
qed

lemma ring_write:
  assumes "ring_ok hash d" "ring_after d d'" "states_ok d'" "successors_ok d'"
    "kd_published d' = kd_published d" "kd_pending d' = kd_pending d" "kd_retained d' = kd_retained d"
  shows "ring_after d d' \<and> ring_ok hash d'"
  using assms later_records_ok[OF assms(2) _ _ _ assms(5-7)] by (auto simp: ring_ok_def)

lemma state_reserved:
  assumes ok: "ring_ok hash d" and none: "map_of (kd_states d) e = None" and e: "e \<ge> 2"
    "e \<ge> 3 \<Longrightarrow> \<exists>x. whole (kd_states d) (e - 1) x"
  shows "ring_after d (d\<lparr>kd_states := kd_states d @ [(e, Torn)]\<rparr>) \<and> ring_ok hash (d\<lparr>kd_states := kd_states d @ [(e, Torn)]\<rparr>)"
proof -
  let ?d = "d\<lparr>kd_states := kd_states d @ [(e, Torn)]\<rparr>"
  have w: "whole (kd_states ?d) e' x \<longleftrightarrow> whole (kd_states d) e' x" for e' x
    using whole_reserved[OF none] by simp
  have m: "map_of (kd_states ?d) e' = Some s \<Longrightarrow> e' = e \<or> map_of (kd_states d) e' = Some s" for e' s
    using none by (auto simp: map_add_def split: option.splits if_splits)
  have so: "states_ok d" and su: "successors_ok d" using ok by (simp_all add: ring_ok_def)
  have "keyed (kd_states ?d)" using so keyed_writes(1)[OF none] by (simp add: states_ok_def)
  moreover have "e' \<ge> 2 \<and> (e' \<ge> 3 \<longrightarrow> (\<exists>x. whole (kd_states d) (e' - 1) x))" if "map_of (kd_states ?d) e' = Some s" for e' s
    using m[OF that] so e unfolding states_ok_def by blast
  ultimately have "states_ok ?d" using so unfolding states_ok_def w by simp
  moreover have "successors_ok ?d" using su unfolding successors_ok_def w by simp
  moreover have "ring_after d ?d" unfolding ring_after_def w by (auto simp: root_after_cases)
  ultimately show ?thesis by (intro ring_write[OF ok]) simp_all
qed

text \<open>A slot that holds a state afterwards: the elected one, or the tombstone of the one before.\<close>

lemma state_filled:
  assumes ok: "ring_ok hash d" and slot: "map_of (kd_states d) e = Some s" "s = Torn \<or> s = Whole w \<and> state_after w x"
    and x: "state_epoch x = e" "\<exists>p. whole (kd_published d) (e - 1) p \<and> pe_hash p = state_prev x"
    "\<And>r. x = EpochRetired r \<Longrightarrow> \<exists>y. whole (kd_states d) (e + 1) y"
  shows "ring_after d (d\<lparr>kd_states := AList.update e (Whole x) (kd_states d)\<rparr>) \<and>
    ring_ok hash (d\<lparr>kd_states := AList.update e (Whole x) (kd_states d)\<rparr>)"
proof -
  let ?d = "d\<lparr>kd_states := AList.update e (Whole x) (kd_states d)\<rparr>"
  have w: "whole (kd_states ?d) e' y \<longleftrightarrow> (if e' = e then y = x else whole (kd_states d) e' y)" for e' y by simp
  have keep: "whole (kd_states d) e' y \<Longrightarrow> \<exists>z. whole (kd_states ?d) e' z" for e' y by (cases "e' = e") auto
  have so: "states_ok d" and su: "successors_ok d" using ok by (simp_all add: ring_ok_def)
  have "\<exists>t. map_of (kd_states d) e' = Some t" if "map_of (kd_states ?d) e' = Some t" for e' t
    using that slot(1) by (auto simp: update_conv' split: if_splits)
  then have "e' \<ge> 2 \<and> (e' \<ge> 3 \<longrightarrow> (\<exists>y. whole (kd_states ?d) (e' - 1) y))" if "map_of (kd_states ?d) e' = Some t" for e' t
    using that so keep unfolding states_ok_def by blast
  moreover have "keyed (kd_states ?d)" using so by (auto simp: states_ok_def intro: keyed_writes)
  moreover have "state_epoch y = e' \<and> (\<exists>p. whole (kd_published d) (e' - 1) p \<and> pe_hash p = state_prev y)"
    if "whole (kd_states ?d) e' y" for e' y
  proof (cases "e' = e")
    case True
    then show ?thesis using x that unfolding w by simp
  next
    case False
    then show ?thesis using so that unfolding states_ok_def w by simp
  qed
  ultimately have "states_ok ?d" unfolding states_ok_def by simp
  moreover have "successors_ok ?d"
  proof -
    have "\<exists>z. whole (kd_states ?d) (e' + 1) z" if "whole (kd_states ?d) e' (EpochRetired r)" for e' r
    proof (cases "e' = e")
      case True
      then show ?thesis using that x(3) keep unfolding w by metis
    next
      case False
      then show ?thesis using that su keep unfolding w successors_ok_def by (metis (no_types, lifting))
    qed
    moreover have "(\<exists>p q. kd_root ?d = Some (RootInitial i p q)) \<or>
        kd_root ?d = Some (RootStable i) \<and> (\<exists>y. whole (kd_states ?d) 2 y)"
      if "(\<exists>p q. kd_root d = Some (RootInitial i p q)) \<or> kd_root d = Some (RootStable i) \<and> (\<exists>y. whole (kd_states d) 2 y)" for i
      using that keep by auto
    ultimately show ?thesis using su unfolding successors_ok_def by blast
  qed
  moreover have "ring_after d ?d"
  proof -
    have "\<exists>z. whole (kd_states ?d) e' z \<and> state_after y z" if "whole (kd_states d) e' y" for e' y
      by (cases "e' = e") (use that slot in auto)
    then show ?thesis unfolding ring_after_def by (simp add: root_after_cases)
  qed
  ultimately show ?thesis by (intro ring_write[OF ok]) simp_all
qed

lemma root_retired:
  assumes ok: "ring_ok hash d" and "kd_root d = Some (RootInitial i p q)" "whole (kd_states d) 2 x"
  shows "ring_after d (d\<lparr>kd_root := Some (RootStable i)\<rparr>) \<and> ring_ok hash (d\<lparr>kd_root := Some (RootStable i)\<rparr>)"
proof (rule ring_write[OF ok])
  show "ring_after d (d\<lparr>kd_root := Some (RootStable i)\<rparr>)"
    using assms by (auto simp: ring_after_def root_after_cases)
  show "states_ok (d\<lparr>kd_root := Some (RootStable i)\<rparr>)" using ok by (simp add: ring_ok_def states_ok_def)
  show "successors_ok (d\<lparr>kd_root := Some (RootStable i)\<rparr>)"
    using ok assms(3) by (auto simp: ring_ok_def successors_ok_def)
qed simp_all

end
