(* ===== verification/KeyRingSteps.thy ===== *)
theory KeyRingSteps
  imports KeyRingRuns "HOL-Library.Multiset"
begin

text \<open>
  Every key operation keeps the shape of the directory at each of its file accesses, whatever
  the other processes do in between, and what it loads is an elected, chained key.
\<close>

interpretation ring: shared_guarantee "ring_ok hash" ring_after for hash
  by unfold_locales (auto intro: ring_after_refl ring_after_trans)

abbreviation ring_does ::
  "(encryption_key_record \<Rightarrow> string) \<Rightarrow> ('a \<Rightarrow> key_dir \<Rightarrow> bool) \<Rightarrow> 'a key_op \<Rightarrow> key_dir \<Rightarrow> bool" where
  "ring_does hash R p d \<equiv> keeps (ring_ok hash) ring_after ring_after (on_ok R) p d"

text \<open>The keys that a process loaded: identity, epoch, link and marker are those of the directory.\<close>

fun root_identity :: "root_file option \<Rightarrow> identity_keys option" where
  "root_identity (Some (RootInitial i _ _)) = Some i" | "root_identity (Some (RootStable i)) = Some i"
| "root_identity _ = None"

definition epoch_loaded :: "ring_keys \<Rightarrow> key_dir \<Rightarrow> bool" where
  "epoch_loaded k d \<longleftrightarrow> epoch_pub_ok (sk_epoch k) (sk_encryption_pub k) (rg_prev k) d \<and>
     epoch_key_ok (sk_epoch k) (sk_encryption_pkcs8 k) d"

definition ring_loaded :: "ring_keys \<Rightarrow> key_dir \<Rightarrow> bool" where
  "ring_loaded k d \<longleftrightarrow> epoch_loaded k d \<and>
     root_identity (kd_root d) = Some \<lparr>id_pkcs8 = sk_identity_pkcs8 k, id_pub = sk_identity_pub k\<rparr> \<and>
     (\<forall>h. rg_published k = Some h \<longrightarrow> (\<exists>p. whole (kd_published d) (sk_epoch k) p \<and> pe_hash p = h))"

lemma root_identity_later:
  "ring_after d d' \<Longrightarrow> root_identity (kd_root d) = Some i \<Longrightarrow> root_identity (kd_root d') = Some i"
  by (auto simp: ring_after_def root_after_cases)

lemma epoch_loaded_later: "epoch_loaded k d \<Longrightarrow> ring_after d d' \<Longrightarrow> epoch_loaded k d'"
  unfolding epoch_loaded_def by (blast intro: epoch_pub_ok_later epoch_key_ok_later)

lemma ring_loaded_later: "ring_loaded k d \<Longrightarrow> ring_after d d' \<Longrightarrow> ring_loaded k d'"
  unfolding ring_loaded_def using epoch_loaded_later root_identity_later by (auto simp: ring_after_def)

lemma epoch_loaded_cong:
  "sk_epoch k = sk_epoch l \<Longrightarrow> sk_encryption_pub k = sk_encryption_pub l \<Longrightarrow> sk_encryption_pkcs8 k = sk_encryption_pkcs8 l
   \<Longrightarrow> rg_prev k = rg_prev l \<Longrightarrow> epoch_loaded k d = epoch_loaded l d"
  by (simp add: epoch_loaded_def)

lemma published_epoch_loaded:
  assumes "ring_ok hash d" "ring_loaded k d" "rg_published k = Some h"
  shows "sk_epoch k \<ge> 1 \<and> (sk_epoch k \<ge> 2 \<longrightarrow> (\<exists>x. whole (kd_states d) (sk_epoch k) x))"
  using assms(2) by (auto simp: ring_loaded_def epoch_loaded_def epoch_pub_ok_def split: if_splits)

subsection \<open>Reading\<close>

lemma slot_does:
  assumes "\<And>d x. ring_ok hash d \<Longrightarrow> ring_after d0 d \<Longrightarrow> whole (family d) e x \<Longrightarrow> R x d"
    and "\<And>x d u. R x d \<Longrightarrow> ring_after d u \<Longrightarrow> R x u"
  shows "ring_does hash R (read_slot family e) d0"
  unfolding read_slot_def
  by (rule ring.does_reads) (auto split: option.splits slot.splits intro: assms)

lemma optional_does:
  assumes "\<And>d x. ring_ok hash d \<Longrightarrow> ring_after d0 d \<Longrightarrow> whole (family d) e x \<Longrightarrow> R x d"
    and "\<And>x d u. R x d \<Longrightarrow> ring_after d u \<Longrightarrow> R x u"
  shows "ring_does hash (\<lambda>r d. case r of None \<Rightarrow> True | Some x \<Rightarrow> R x d) (read_optional family e) d0"
  unfolding read_optional_def
  by (rule ring.does_reads) (auto split: option.splits slot.splits intro: assms)

lemma epochs_does:
  assumes R: "\<And>e x d u. ring_ok hash d \<Longrightarrow> whole (family d) e x \<Longrightarrow> R e x d"
    and later: "\<And>e x d u. R e x d \<Longrightarrow> ring_after d u \<Longrightarrow> R e x u"
    and keyed: "\<And>d. ring_ok hash d \<Longrightarrow> keyed (family d)" and d0: "ring_ok hash d0"
  shows "ring_does hash (\<lambda>xs d. distinct (map epoch_of xs) \<and> (\<forall>x\<in>set xs. R (epoch_of x) x d)) (read_epochs family epoch_of) d0"
  unfolding read_epochs_def
proof (rule ring.does_and_then)
  show "ring_does hash (\<lambda>es _. distinct es) (reads (\<lambda>d. Inr (map fst (family d)))) d0"
    by (rule ring.does_reads) (use keyed in \<open>auto simp: keyed_def\<close>)
  fix es :: "int list" and d assume d: "ring_ok hash d" "distinct es"
  have one: "ring_does hash (\<lambda>x d. epoch_of x = e \<and> R e x d)
      (and_then (read_slot family e) (\<lambda>x. and_then (require (epoch_of x = e) KeysUnreadable) (\<lambda>_. succeed x))) d'"
    if "ring_ok hash d'" for e d'
    by (rule ring.does_and_then[where R = "R e"] slot_does that ring.does_and_then[OF ring.does_require] ring.does_succeed
        | auto intro: R later)+
  have "ring_does hash (\<lambda>xs d. list_all2 (\<lambda>e x. epoch_of x = e \<and> R e x d) es xs)
      (each (\<lambda>e. and_then (read_slot family e) (\<lambda>x. and_then (require (epoch_of x = e) KeysUnreadable) (\<lambda>_. succeed x))) es) d"
    by (rule ring.does_each[OF one]) (auto intro: later d)
  then show "ring_does hash (\<lambda>xs d. distinct (map epoch_of xs) \<and> (\<forall>x\<in>set xs. R (epoch_of x) x d))
      (each (\<lambda>e. and_then (read_slot family e) (\<lambda>x. and_then (require (epoch_of x = e) KeysUnreadable) (\<lambda>_. succeed x))) es) d"
  proof (rule ring.does_weaken)
    fix xs d' assume l: "list_all2 (\<lambda>e x. epoch_of x = e \<and> R e x d') es xs"
    then have "map epoch_of xs = es" by (induction rule: list_all2_induct) auto
    moreover from l have "\<forall>x\<in>set xs. R (epoch_of x) x d'" by (induction rule: list_all2_induct) auto
    ultimately show "distinct (map epoch_of xs) \<and> (\<forall>x\<in>set xs. R (epoch_of x) x d')" using d(2) by simp
  qed
qed (rule d0)

text \<open>A state that a process read is what the directory says of its epoch from then on.\<close>

definition state_seen :: "int \<Rightarrow> epoch_state \<Rightarrow> key_dir \<Rightarrow> bool" where
  "state_seen e x d \<longleftrightarrow> (\<exists>y. whole (kd_states d) e y \<and> state_after x y) \<and> state_epoch x = e \<and> e \<ge> 2 \<and>
     (\<exists>p. whole (kd_published d) (e - 1) p \<and> pe_hash p = state_prev x)"

lemma state_seen_later:
  assumes "state_seen e x d" "ring_after d u"
  shows "state_seen e x u"
proof -
  obtain y where y: "whole (kd_states d) e y" "state_after x y" using assms(1) by (auto simp: state_seen_def)
  obtain z where "whole (kd_states u) e z" "state_after x z"
    using ring_after_state[OF assms(2) y(1)] state_after_trans[OF y(2)] by blast
  moreover obtain p where "whole (kd_published u) (e - 1) p" "pe_hash p = state_prev x"
    using assms by (auto simp: state_seen_def ring_after_def)
  ultimately show ?thesis using assms(1) unfolding state_seen_def by blast
qed

lemma state_seen_now: "ring_ok hash d \<Longrightarrow> whole (kd_states d) e x \<Longrightarrow> state_seen e x d"
  unfolding state_seen_def ring_ok_def states_ok_def using state_after_refl by blast

lemma epoch_states_does:
  assumes "ring_ok hash d"
  shows "ring_does hash (\<lambda>xs d. distinct (map state_epoch xs) \<and> (\<forall>x\<in>set xs. state_seen (state_epoch x) x d)) list_epoch_states d"
  unfolding list_epoch_states_def
proof (rule epochs_does)
  show "keyed (kd_states d)" if "ring_ok hash d" for d using that by (simp add: ring_ok_def states_ok_def)
qed (use assms in \<open>auto intro: state_seen_now state_seen_later\<close>)

lemma retained_epochs_does: "ring_ok hash d \<Longrightarrow> ring_does hash (\<lambda>_ _. True) list_retained_epochs d"
  unfolding list_retained_epochs_def
  by (rule ring.does_weaken[OF epochs_does[where R = "\<lambda>_ _ _. True"]]) (auto simp: ring_ok_def retained_ok_def)

lemma identity_root_does:
  "ring_does hash (\<lambda>r d. root_identity (kd_root d) = Some (fst r) \<and>
     (\<forall>pkcs8 pub. snd r = Some (pkcs8, pub) \<longrightarrow> epoch_loaded (keys_of_initial (fst r) pkcs8 pub) d)) load_identity_root d0"
  unfolding load_identity_root_def
proof (rule ring.does_reads)
  fix d r u
  assume a: "ring_ok hash d" "ring_after d u"
    "(case kd_root d of None \<Rightarrow> Inl KeysMissing | Some (RootStable i) \<Rightarrow> Inr (i, None)
      | Some (RootInitial i pkcs8 pub) \<Rightarrow> Inr (i, Some (pkcs8, pub)) | Some RootPreChain \<Rightarrow> Inl PreChainFormat
      | Some RootUnreadable \<Rightarrow> Inl KeysUnreadable) = Inr r"
  then have "root_identity (kd_root d) = Some (fst r)" by (auto split: option.splits root_file.splits)
  moreover have "epoch_loaded (keys_of_initial (fst r) pkcs8 pub) d" if "snd r = Some (pkcs8, pub)" for pkcs8 pub
    using a(3) that by (auto simp: epoch_loaded_def epoch_pub_ok_def epoch_key_ok_def keys_of_initial_def
        split: option.splits root_file.splits)
  ultimately show "root_identity (kd_root u) = Some (fst r) \<and>
     (\<forall>pkcs8 pub. snd r = Some (pkcs8, pub) \<longrightarrow> epoch_loaded (keys_of_initial (fst r) pkcs8 pub) u)"
    using root_identity_later[OF a(2)] epoch_loaded_later[OF _ a(2)] by blast
qed

subsection \<open>Retiring\<close>

lemma family_updates:
  "kd_retained_update f d = d\<lparr>kd_retained := f (kd_retained d)\<rparr>"
  "kd_states_update g d = d\<lparr>kd_states := g (kd_states d)\<rparr>"
  "kd_published_update h d = d\<lparr>kd_published := h (kd_published d)\<rparr>"
  "kd_pending_update i d = d\<lparr>kd_pending := i (kd_pending d)\<rparr>"
  by (cases d, simp)+

lemma install_does:
  assumes "ring_ok hash d0"
    and "\<And>d. ring_ok hash d \<Longrightarrow> ring_after d0 d \<Longrightarrow> map_of (family d) e = None \<Longrightarrow>
      ring_after d (upd (\<lambda>xs. xs @ [(e, Torn)]) d) \<and> ring_ok hash (upd (\<lambda>xs. xs @ [(e, Torn)]) d)"
    and "\<And>d. ring_ok hash d \<Longrightarrow> ring_after d0 d \<Longrightarrow> map_of (family d) e = Some Torn \<Longrightarrow>
      ring_after d (upd (AList.update e (Whole x)) d) \<and> ring_ok hash (upd (AList.update e (Whole x)) d)"
  shows "ring_does hash (\<lambda>_ _. True) (install_first_writer_wins family upd e x) d0"
  unfolding install_first_writer_wins_def
proof (rule ring.does_and_then)
  show "ring_does hash (\<lambda>_ _. True) (act (\<lambda>d. if map_of (family d) e = None
      then (upd (\<lambda>xs. xs @ [(e, Torn)]) d, Inr True) else (d, Inr False))) d0"
    by (rule ring.does_act) (use assms(2) ring_after_refl in auto)
  fix won d assume d: "ring_after d0 d" "ring_ok hash d"
  have "ring_does hash (\<lambda>_ _. True) (act (\<lambda>d. (if map_of (family d) e = Some Torn then upd (AList.update e (Whole x)) d else d, Inr ()))) d"
    by (rule ring.does_act) (use assms(3) ring_after_refl ring_after_trans[OF d(1)] in auto)
  then show "ring_does hash (\<lambda>_ _. True) (if \<not> won then succeed ()
      else act (\<lambda>d. (if map_of (family d) e = Some Torn then upd (AList.update e (Whole x)) d else d, Inr ()))) d"
    by (auto intro: ring.does_succeed)
qed (rule assms(1))

lemma retain_does:
  assumes ok: "ring_ok hash d0" and k: "epoch_loaded k d0"
  shows "ring_does hash (\<lambda>_ _. True) (retain_epoch k now) d0"
  unfolding retain_epoch_def
proof (rule ring.does_and_then[OF install_does[OF ok]])
  fix d assume d: "ring_ok hash d" "ring_after d0 d"
  have k': "epoch_loaded k d" by (rule epoch_loaded_later[OF k d(2)])
  have keyed: "keyed (kd_retained d)" using d(1) by (simp add: ring_ok_def retained_ok_def)
  show "ring_after d (kd_retained_update (\<lambda>xs. xs @ [(sk_epoch k, Torn)]) d) \<and>
      ring_ok hash (kd_retained_update (\<lambda>xs. xs @ [(sk_epoch k, Torn)]) d)"
    if "map_of (kd_retained d) (sk_epoch k) = None"
    unfolding family_updates(1)[of "\<lambda>xs. xs @ [(sk_epoch k, Torn)]"]
    by (rule retained_write[OF d(1) keyed_writes(1)[OF that keyed]]) (simp only: whole_reserved[OF that] simp_thms)
  show "ring_after d (kd_retained_update (AList.update (sk_epoch k) (Whole (retained_of k now))) d) \<and>
      ring_ok hash (kd_retained_update (AList.update (sk_epoch k) (Whole (retained_of k now))) d)"
    if "map_of (kd_retained d) (sk_epoch k) = Some Torn"
    unfolding family_updates(1)[of "AList.update (sk_epoch k) (Whole (retained_of k now))"]
    by (rule retained_write[OF d(1) keyed_writes(2)[OF keyed]])
      (use k' in \<open>auto simp: epoch_loaded_def retained_of_def split: if_splits\<close>)
next
  fix d show "ring_does hash (\<lambda>_ _. True) (and_then (read_slot kd_retained (sk_epoch k)) (\<lambda>p.
       require (rk_epoch p = sk_epoch k \<and> rk_pub p = sk_encryption_pub k \<and> rk_pkcs8 p = sk_encryption_pkcs8 k)
         RetainedInconsistent)) d" if "ring_ok hash d"
    by (rule ring.does_and_then[OF slot_does[where R = "\<lambda>_ _. True"] that] ring.does_weaken[OF ring.does_require] TrueI)+
qed (rule ok)

definition succeeded :: "int \<Rightarrow> key_dir \<Rightarrow> bool" where
  "succeeded e d \<longleftrightarrow> (\<exists>x. whole (kd_states d) (e + 1) x)"

lemma succeeded_later: "succeeded e d \<Longrightarrow> ring_after d u \<Longrightarrow> succeeded e u"
  unfolding succeeded_def using ring_after_state by blast

lemma write_root_does:
  assumes "root_identity (kd_root d0) = Some i" "succeeded 1 d0" "ring_ok hash d0"
  shows "ring_does hash (\<lambda>_ _. True) (write_root (RootStable i)) d0"
  unfolding write_root_def
proof (rule ring.does_write)
  fix d assume d: "ring_after d0 d" "ring_ok hash d"
  have "root_identity (kd_root d) = Some i" by (rule root_identity_later[OF d(1) assms(1)])
  then consider p q where "kd_root d = Some (RootInitial i p q)" | "kd_root d = Some (RootStable i)"
    by (cases "kd_root d" rule: root_identity.cases) auto
  moreover obtain x where "whole (kd_states d) 2 x"
    using succeeded_later[OF assms(2) d(1)] by (auto simp: succeeded_def)
  ultimately show "ring_after d (d\<lparr>kd_root := Some (RootStable i)\<rparr>) \<and> ring_ok hash (d\<lparr>kd_root := Some (RootStable i)\<rparr>)"
  proof cases
    case 2
    then have "d\<lparr>kd_root := Some (RootStable i)\<rparr> = d" by (cases d) simp
    then show ?thesis using d(2) ring_after_refl by simp
  qed (use root_retired[OF d(2)] in simp)
qed

lemma write_retired_does:
  assumes seen: "state_seen e (EpochActive a) d0" and "succeeded e d0" "ring_ok hash d0"
  shows "ring_does hash (\<lambda>_ _. True)
    (write_state e (EpochRetired \<lparr>re_pub = ae_pub a, re_epoch = ae_epoch a, re_prev = ae_prev a\<rparr>)) d0"
  unfolding write_state_def
proof (rule ring.does_write)
  let ?r = "EpochRetired \<lparr>re_pub = ae_pub a, re_epoch = ae_epoch a, re_prev = ae_prev a\<rparr>"
  fix d assume d: "ring_after d0 d" "ring_ok hash d"
  have s: "state_seen e (EpochActive a) d" by (rule state_seen_later[OF seen d(1)])
  obtain y where y: "whole (kd_states d) e y" "y = EpochActive a \<or> y = ?r" using s by (auto simp: state_seen_def)
  show "ring_after d (d\<lparr>kd_states := AList.update e (Whole ?r) (kd_states d)\<rparr>) \<and>
      ring_ok hash (d\<lparr>kd_states := AList.update e (Whole ?r) (kd_states d)\<rparr>)"
    by (rule state_filled[OF d(2) y(1), where w = y])
      (use y s succeeded_later[OF assms(2) d(1)] in \<open>auto simp: state_seen_def succeeded_def\<close>)
qed

lemma retire_does:
  assumes ok: "ring_ok hash d0" and k: "epoch_loaded k d0" and s: "succeeded (sk_epoch k) d0"
  shows "ring_does hash (\<lambda>_ _. True) (retire_epoch k now) d0"
  unfolding retire_epoch_def
proof (rule ring.does_and_then[OF retain_does[OF ok k] ok])
  fix d assume d: "ring_after d0 d" "ring_ok hash d"
  have k': "epoch_loaded k d" and s': "succeeded (sk_epoch k) d"
    using epoch_loaded_later[OF k d(1)] succeeded_later[OF s d(1)] by blast+
  show "ring_does hash (\<lambda>_ _. True) (if sk_epoch k = 1
     then and_then load_identity_root (\<lambda>root. case root of
            (_, None) \<Rightarrow> succeed ()
          | (i, Some (pkcs8, pub)) \<Rightarrow> retire_root k i pkcs8 pub)
     else and_then (read_slot kd_states (sk_epoch k)) (\<lambda>state. case state of
EpochRetired _ \<Rightarrow> succeed () | EpochActive a \<Rightarrow> retire_active k a)) d"
  proof (cases "sk_epoch k = 1")
    case True
    show ?thesis unfolding if_P[OF True]
    proof (rule ring.does_and_then[OF identity_root_does d(2)])
      fix root d' assume d': "ring_after d d'" "ring_ok hash d'" and r: "root_identity (kd_root d') = Some (fst root) \<and>
        (\<forall>pkcs8 pub. snd root = Some (pkcs8, pub) \<longrightarrow> epoch_loaded (keys_of_initial (fst root) pkcs8 pub) d')"
      have "ring_does hash (\<lambda>_ _. True) (retire_root k i pkcs8 pub) d'" if "root = (i, Some (pkcs8, pub))" for i pkcs8 pub
        unfolding retire_root_def
      proof (rule ring.does_and_then[OF ring.does_require d'(2)])
        fix u assume u: "ring_after d' u" "ring_ok hash u" "id_pub i = sk_identity_pub k \<and> id_pkcs8 i = sk_identity_pkcs8 k \<and>
          pub = sk_encryption_pub k \<and> pkcs8 = sk_encryption_pkcs8 k"
        then have "i = \<lparr>id_pkcs8 = sk_identity_pkcs8 k, id_pub = sk_identity_pub k\<rparr>" by (cases i) simp
        then show "ring_does hash (\<lambda>_ _. True) (write_root (RootStable \<lparr>id_pkcs8 = sk_identity_pkcs8 k, id_pub = sk_identity_pub k\<rparr>)) u"
          using write_root_does[OF root_identity_later[OF u(1)] _ u(2)] r that
            succeeded_later[OF succeeded_later[OF s' d'(1)] u(1)] True by simp
      qed
      then show "ring_does hash (\<lambda>_ _. True) (case root of (_, None) \<Rightarrow> succeed () | (i, Some (pkcs8, pub)) \<Rightarrow> retire_root k i pkcs8 pub) d'"
        by (auto intro: ring.does_succeed split: option.splits prod.splits)
    qed
  next
    case False
    show ?thesis unfolding if_not_P[OF False]
    proof (rule ring.does_and_then[OF slot_does[where R = "\<lambda>x d. state_seen (sk_epoch k) x d"] d(2)])
      fix x u assume u: "ring_after d u" "ring_ok hash u" "state_seen (sk_epoch k) x u"
      show "ring_does hash (\<lambda>_ _. True) (case x of
EpochRetired _ \<Rightarrow> succeed () | EpochActive a \<Rightarrow> retire_active k a) u"
      proof (cases x)
        case (EpochActive a)
        show ?thesis unfolding EpochActive epoch_state.case retire_active_def
        proof (rule ring.does_and_then[OF ring.does_require u(2)])
          fix v assume v: "ring_after u v" "ring_ok hash v"
          show "ring_does hash (\<lambda>_ _. True) (write_state (sk_epoch k)
              (EpochRetired \<lparr>re_pub = ae_pub a, re_epoch = ae_epoch a, re_prev = ae_prev a\<rparr>)) v"
            by (rule write_retired_does[OF _ _ v(2)])
              (use u v EpochActive s' state_seen_later succeeded_later in blast)+
        qed
      qed (auto intro: ring.does_succeed)
    qed (auto intro: state_seen_now state_seen_later)
  qed
qed

subsection \<open>Loading\<close>

lemma published_does:
  "ring_does hash (\<lambda>r d. \<forall>m. r = Some m \<longrightarrow> whole (kd_published d) (sk_epoch k) m) (load_published_epoch k) d0"
  if "ring_ok hash d0"
  unfolding load_published_epoch_def
proof (rule ring.does_and_then[OF optional_does[where R = "\<lambda>m d. whole (kd_published d) (sk_epoch k) m"] that])
  fix r d assume d: "ring_ok hash d" "case r of None \<Rightarrow> True | Some m \<Rightarrow> whole (kd_published d) (sk_epoch k) m"
  show "ring_does hash (\<lambda>r d. \<forall>m. r = Some m \<longrightarrow> whole (kd_published d) (sk_epoch k) m) (case r of None \<Rightarrow> succeed None
     | Some m \<Rightarrow> and_then (require (pe_epoch m = sk_epoch k \<and> pe_pub m = sk_encryption_pub k \<and> pe_prev m = rg_prev k)
         PublishedInconsistent) (\<lambda>_. succeed (Some m))) d"
    using d by (cases r) (auto intro!: ring.does_and_then[OF ring.does_require] ring.does_succeed simp: ring_after_def)
qed (auto simp: ring_after_def)

lemma state_seen_active:
  assumes "state_seen e (EpochActive a) d" "root_identity (kd_root d) = Some i"
  shows "epoch_loaded (keys_of_active i a) d"
proof -
  obtain y where y: "whole (kd_states d) e y" "state_after (EpochActive a) y" "ae_epoch a = e" "e \<ge> 2"
    using assms(1) by (auto simp: state_seen_def)
  then show ?thesis by (auto simp: epoch_loaded_def epoch_ok_defs keys_of_active_def)
qed

lemma mem_active_states: "a \<in> set (active_states states) \<longleftrightarrow> EpochActive a \<in> set states"
  by (auto simp: active_states_def split: epoch_state.splits)

lemma mset_stable_sort: "mset (stable_sort le xs) = mset xs"
proof -
  have ins: "mset (insert_by le x ys) = add_mset x (mset ys)" for x ys by (induction ys) auto
  show ?thesis unfolding stable_sort_def by (induction xs) (simp_all add: ins)
qed

lemma active_states_distinct:
  assumes "distinct (map state_epoch states)"
  shows "distinct (map ae_epoch (active_states states))"
proof -
  let ?xs = "concat (map (\<lambda>s. case s of EpochActive a \<Rightarrow> [a] | EpochRetired _ \<Rightarrow> []) states)"
  have "distinct (map ae_epoch ?xs)"
    using assms by (induction states) (force split: epoch_state.splits simp: image_iff)+
  moreover have "mset (map ae_epoch (active_states states)) = mset (map ae_epoch ?xs)"
    by (simp add: active_states_def mset_stable_sort)
  ultimately show ?thesis by (metis mset_eq_imp_distinct_iff)
qed

lemma active_states_sorted:
  assumes "distinct (map state_epoch states)" "active_states states = a # bs"
  shows "\<forall>b\<in>set bs. ae_epoch b < ae_epoch a"
proof
  fix b assume b: "b \<in> set bs"
  let ?xs = "concat (map (\<lambda>s. case s of EpochActive a \<Rightarrow> [a] | EpochRetired _ \<Rightarrow> []) states)"
  have "b \<in> set ?xs" using assms(2) b set_stable_sort[of "\<lambda>a b. ae_epoch b \<le> ae_epoch a" ?xs] by (auto simp: active_states_def)
  then have le: "ae_epoch b \<le> ae_epoch a"
    by (intro stable_sort_head[OF _ _ assms(2)[unfolded active_states_def]]) auto
  then show "ae_epoch b < ae_epoch a" using active_states_distinct[OF assms(1)] assms(2) b by (force simp: image_iff)
qed

text \<open>Below an elected epoch every epoch has a successor.\<close>

lemma states_below:
  assumes "states_ok d" "whole (kd_states d) e x" "2 \<le> f" "f \<le> e"
  shows "\<exists>y. whole (kd_states d) f y"
  using assms(4,2)
proof (induction "nat (e - f)" arbitrary: e x)
  case 0
  then show ?case by (cases "e = f") auto
next
  case (Suc n)
  then have "e \<ge> 3" "map_of (kd_states d) e = Some (Whole x)" using assms(3) by auto
  then obtain y where "whole (kd_states d) (e - 1) y" using assms(1) unfolding states_ok_def by blast
  then show ?case using Suc.hyps(1)[of "e - 1"] Suc.hyps(2) Suc.prems by auto
qed

lemma seen_successor:
  assumes "ring_ok hash d" "state_seen e x d" "1 \<le> f" "f < e"
  shows "succeeded f d"
  unfolding succeeded_def
  using assms states_below[of d e _ "f + 1"] by (auto simp: state_seen_def ring_ok_def)

lemma scrub_does:
  assumes ok: "ring_ok hash d0" and i: "root_identity (kd_root d0) = Some i"
    and initial: "\<And>pkcs8 pub. initial = Some (pkcs8, pub) \<Longrightarrow> epoch_loaded (keys_of_initial i pkcs8 pub) d0"
    and active: "\<And>a. a \<in> set active \<Longrightarrow> state_seen (ae_epoch a) (EpochActive a) d0"
    and sorted: "\<And>a bs b. active = a # bs \<Longrightarrow> b \<in> set bs \<Longrightarrow> ae_epoch b < ae_epoch a"
    and current: "current_keys i initial active = Some current"
  shows "ring_does hash (\<lambda>_ _. True) (scrub_superseded i initial active current now) d0"
  unfolding scrub_superseded_def
proof (rule ring.does_and_then[OF _ ok])
  have "ring_does hash (\<lambda>_ _. True) (retire_epoch (keys_of_initial i pkcs8 pub) now) d0"
    if "initial = Some (pkcs8, pub)" "sk_epoch current > 1" for pkcs8 pub
  proof (rule retire_does[OF ok initial[OF that(1)]])
    from current that(2) obtain a bs where a: "active = a # bs" "ae_epoch a > 1"
      by (auto simp: current_keys_def keys_of_active_def keys_of_initial_def split: list.splits)
    have "succeeded 1 d0" by (rule seen_successor[OF ok active[of a]]) (use a in auto)
    then show "succeeded (sk_epoch (keys_of_initial i pkcs8 pub)) d0" by (simp add: keys_of_initial_def)
  qed
  then show "ring_does hash (\<lambda>_ _. True) (case initial of
          Some (pkcs8, pub) \<Rightarrow> if sk_epoch current > 1 then retire_epoch (keys_of_initial i pkcs8 pub) now else succeed ()
        | None \<Rightarrow> succeed ()) d0"
    by (auto intro: ring.does_succeed split: option.splits)
  fix d assume d: "ring_after d0 d" "ring_ok hash d"
  have "ring_does hash (\<lambda>_ _. True) (retire_epoch (keys_of_active i b) now) u"
    if b: "b \<in> set (tl active)" and that: "ring_after d u" "ring_ok hash u" for b u
  proof -
    obtain a bs where a: "active = a # bs" "b \<in> set bs" using b by (cases active) auto
    have u: "ring_after d0 u" by (rule ring_after_trans[OF d(1) that(1)])
    have seen: "state_seen (ae_epoch c) (EpochActive c) u" if "c \<in> set active" for c
      by (rule state_seen_later[OF active[OF that] u])
    have "epoch_loaded (keys_of_active i b) u"
      by (rule state_seen_active[OF seen root_identity_later[OF u i]]) (use a in simp)
    moreover have "succeeded (ae_epoch b) u"
    proof (rule seen_successor[OF that(2) seen[of a] _ sorted[OF a]])
      show "1 \<le> ae_epoch b" using seen[of b] a by (simp add: state_seen_def)
    qed (use a in simp)
    ultimately show ?thesis by (intro retire_does[OF that(2)]) (simp_all add: keys_of_active_def)
  qed
  then show "ring_does hash (\<lambda>_ _. True) (and_then (each (\<lambda>a. retire_epoch (keys_of_active i a) now) (tl active)) (\<lambda>_. succeed ())) d"
    by (intro ring.does_and_then[OF ring.does_each[where R = "\<lambda>_ _ _. True"]] ring.does_succeed) (auto simp: d)
qed

lemma current_keys_loaded:
  assumes "current_keys i initial (active_states states) = Some k" "root_identity (kd_root d) = Some i"
    "\<And>pkcs8 pub. initial = Some (pkcs8, pub) \<Longrightarrow> epoch_loaded (keys_of_initial i pkcs8 pub) d"
    "\<And>a. a \<in> set (active_states states) \<Longrightarrow> state_seen (ae_epoch a) (EpochActive a) d"
  shows "ring_loaded k d" "rg_published k = None" "(sk_epoch k = 1) = (rg_prev k = None)"
proof -
  have "epoch_loaded k d"
    using assms state_seen_active[OF assms(4) assms(2)]
    by (auto simp: current_keys_def split: list.splits)
  moreover have "sk_identity_pub k = id_pub i \<and> sk_identity_pkcs8 k = id_pkcs8 i \<and> rg_published k = None"
    using assms(1) by (auto simp: current_keys_def keys_of_active_def keys_of_initial_def split: list.splits)
  ultimately show "ring_loaded k d" "rg_published k = None" using assms(2) by (auto simp: ring_loaded_def)
  show "(sk_epoch k = 1) = (rg_prev k = None)"
    using \<open>epoch_loaded k d\<close> by (auto simp: epoch_loaded_def epoch_pub_ok_def split: if_splits)
qed

lemma load_current_does:
  assumes u: "ring_ok hash u" and i: "root_identity (kd_root u) = Some (fst root)"
    and initial: "\<And>pkcs8 pub. snd root = Some (pkcs8, pub) \<Longrightarrow> epoch_loaded (keys_of_initial (fst root) pkcs8 pub) u"
    and st: "distinct (map state_epoch states)" "\<forall>x\<in>set states. state_seen (state_epoch x) x u"
    and k: "current_keys (fst root) (snd root) (active_states states) = Some k"
  shows "ring_does hash ring_loaded (load_current root states now k) u"
  unfolding load_current_def
proof (rule ring.does_and_then[OF ring.does_require u], rule ring.does_and_then)
  have active: "a \<in> set (active_states states) \<Longrightarrow> state_seen (ae_epoch a) (EpochActive a) u" for a
    using st(2) mem_active_states by fastforce
  have sorted: "active_states states = a # bs \<Longrightarrow> b \<in> set bs \<Longrightarrow> ae_epoch b < ae_epoch a" for a bs b
    using active_states_sorted st(1) by blast
  fix v assume v: "ring_after u v" "ring_ok hash v"
  show "ring_does hash (\<lambda>_ _. True) (scrub_superseded (fst root) (snd root) (active_states states) k now) v"
    by (rule scrub_does[OF v(2) root_identity_later[OF v(1) i] _ _ _ k])
      (blast intro: epoch_loaded_later[OF initial v(1)] state_seen_later[OF active v(1)] sorted)+
  show "ring_ok hash v" by (rule v(2))
  fix w assume w: "ring_after v w" "ring_ok hash w"
  have loaded: "ring_loaded k w"
    by (rule ring_loaded_later[OF current_keys_loaded(1)[OF k i initial active] ring_after_trans[OF v(1) w(1)]])
  show "ring_does hash ring_loaded (and_then (load_published_epoch k) (\<lambda>p.
     and_then (require ((sk_epoch k = 1) = (rg_prev k = None)) KeysMalformed) (\<lambda>_.
     succeed (k\<lparr>rg_published := map_option pe_hash p\<rparr>)))) w"
  proof (rule ring.does_and_then[OF published_does[OF w(2)] w(2)], rule ring.does_and_then[OF ring.does_require], assumption, rule ring.does_succeed)
    fix p x y z assume p: "\<forall>m. p = Some m \<longrightarrow> whole (kd_published x) (sk_epoch k) m"
      and l: "ring_after w x" "ring_after x y" "ring_after y z"
    have "ring_loaded k z" using ring_loaded_later loaded l by blast
    moreover have "\<forall>m. p = Some m \<longrightarrow> whole (kd_published z) (sk_epoch k) m" using p l by (simp add: ring_after_def)
    ultimately show "ring_loaded (k\<lparr>rg_published := map_option pe_hash p\<rparr>) z"
      by (auto simp: ring_loaded_def epoch_loaded_def)
  qed
qed

lemma load_keys_does:
  assumes ok: "ring_ok hash d0"
  shows "ring_does hash ring_loaded (load_keys now) d0"
  unfolding load_keys_def
proof (rule ring.does_and_then[OF identity_root_does ok])
  fix root d assume d: "ring_ok hash d" "root_identity (kd_root d) = Some (fst root) \<and>
     (\<forall>pkcs8 pub. snd root = Some (pkcs8, pub) \<longrightarrow> epoch_loaded (keys_of_initial (fst root) pkcs8 pub) d)"
  show "ring_does hash ring_loaded (and_then list_epoch_states (\<lambda>states.
     case current_keys (fst root) (snd root) (active_states states) of
       None \<Rightarrow> raise NoActiveEpoch | Some current \<Rightarrow> load_current root states now current)) d"
  proof (rule ring.does_and_then[OF epoch_states_does[OF d(1)] d(1)])
    fix states u assume u: "ring_after d u" "ring_ok hash u"
      and st: "distinct (map state_epoch states) \<and> (\<forall>x\<in>set states. state_seen (state_epoch x) x u)"
    have "ring_does hash ring_loaded (load_current root states now k) u"
      if k: "current_keys (fst root) (snd root) (active_states states) = Some k" for k
      by (rule load_current_does[OF u(2) _ _ _ _ k])
        (use d(2) st root_identity_later[OF u(1)] epoch_loaded_later[OF _ u(1)] in blast)+
    then show "ring_does hash ring_loaded (case current_keys (fst root) (snd root) (active_states states) of
       None \<Rightarrow> raise NoActiveEpoch | Some k \<Rightarrow> load_current root states now k) u"
      by (auto intro: ring.does_raise split: option.splits)
  qed
qed

subsection \<open>Rotation\<close>

lemma make_room_does:
  assumes "ring_ok hash d0"
  shows "ring_does hash (\<lambda>_ _. True) (make_room jobs now) d0"
  unfolding make_room_def
proof (rule ring.does_and_then[OF retained_epochs_does[OF assms] assms])
  fix all d assume d: "ring_ok hash d"
  have "ring_does hash (\<lambda>_ _. True) (unlink_retained e) u" for e u
    unfolding unlink_retained_def
  proof (rule ring.does_write)
    fix v assume v: "ring_ok hash v"
    show "ring_after v (v\<lparr>kd_retained := AList.delete e (kd_retained v)\<rparr>) \<and> ring_ok hash (v\<lparr>kd_retained := AList.delete e (kd_retained v)\<rparr>)"
    proof (rule retained_write[OF v keyed_writes(3)])
      show "keyed (kd_retained v)" using v by (simp add: ring_ok_def retained_ok_def)
    qed (auto simp: delete_conv' split: if_splits)
  qed
  then show "ring_does hash (\<lambda>_ _. True) (let live = filter (\<lambda>k. now < rk_until k) all in
     if length live + 1 < MAX_LIVE_ENCRYPTION_EPOCHS then succeed ()
     else let oldest = oldest_retained live;
              blocking = length (filter (\<lambda>j. oj_expires_at j > now \<and> oj_sender_epoch j = rk_epoch oldest) jobs)
          in and_then (require (blocking = 0) (LiveEpochLimit blocking (rk_epoch oldest))) (\<lambda>_.
             unlink_retained (rk_epoch oldest))) d"
    unfolding Let_def by (auto intro!: ring.does_succeed ring.does_and_then[OF ring.does_require d])
qed

lemma elect_does:
  assumes ok: "ring_ok hash d0" and base: "ring_loaded base d0" and link: "rg_published base = Some link"
  shows "ring_does hash (\<lambda>_ _. True)
    (install_first_writer_wins kd_states kd_states_update (sk_epoch base + 1) (EpochActive (rotation_candidate base link pkcs8 pub))) d0"
proof (rule install_does[OF ok])
  let ?e = "sk_epoch base + 1" and ?x = "EpochActive (rotation_candidate base link pkcs8 pub)"
  fix d assume d: "ring_ok hash d" "ring_after d0 d"
  have l: "ring_loaded base d" by (rule ring_loaded_later[OF base d(2)])
  have e: "sk_epoch base \<ge> 1" "sk_epoch base \<ge> 2 \<longrightarrow> (\<exists>x. whole (kd_states d) (sk_epoch base) x)"
    using published_epoch_loaded[OF d(1) l link] by blast+
  obtain p where p: "whole (kd_published d) (sk_epoch base) p" "pe_hash p = link"
    using l link by (auto simp: ring_loaded_def)
  show "ring_after d (kd_states_update (\<lambda>xs. xs @ [(?e, Torn)]) d) \<and> ring_ok hash (kd_states_update (\<lambda>xs. xs @ [(?e, Torn)]) d)"
    if "map_of (kd_states d) ?e = None"
    unfolding family_updates(2)[of "\<lambda>xs. xs @ [(?e, Torn)]"] by (rule state_reserved[OF d(1) that]) (use e in auto)
  show "ring_after d (kd_states_update (AList.update ?e (Whole ?x)) d) \<and> ring_ok hash (kd_states_update (AList.update ?e (Whole ?x)) d)"
    if "map_of (kd_states d) ?e = Some Torn"
    unfolding family_updates(2)[of "AList.update ?e (Whole ?x)"]
    by (rule state_filled[OF d(1) that]) (use p in \<open>auto simp: rotation_candidate_def\<close>)
qed

lemma elect_epoch_does:
  assumes ok: "ring_ok hash d0" and base: "ring_loaded base d0" and link: "rg_published base = Some link"
  shows "ring_does hash ring_loaded (elect_epoch base link now pkcs8 pub) d0"
  unfolding elect_epoch_def Let_def
proof (rule ring.does_and_then[OF elect_does[OF ok base link] ok],
    rule ring.does_and_then[OF slot_does[where R = "state_seen (sk_epoch base + 1)"]])
  let ?target = "sk_epoch base + 1"
  fix d elected d' assume d: "ring_after d0 d" "ring_after d d'" "ring_ok hash d'" and el: "state_seen ?target elected d'"
  have base': "epoch_loaded base d'"
    using ring_loaded_later[OF base ring_after_trans[OF d(1,2)]] by (simp add: ring_loaded_def)
  have succ: "succeeded (sk_epoch base) d'" using el by (auto simp: state_seen_def succeeded_def)
  show "ring_does hash ring_loaded (case elected of
         EpochRetired _ \<Rightarrow>
           and_then (load_keys now) (\<lambda>current.
             if sk_epoch current > ?target \<and> sk_identity_pub current = sk_identity_pub base
             then succeed current else raise RetiredWithoutSuccessor)
       | EpochActive a \<Rightarrow>
           and_then (require (ae_epoch a = ?target \<and> ae_prev a = link) NotExtending) (\<lambda>_.
           and_then (retire_epoch base now) (\<lambda>_. load_keys now))) d'"
  proof (cases elected)
    case (EpochActive a)
    show ?thesis unfolding EpochActive epoch_state.case
    proof (rule ring.does_and_then[OF ring.does_require d(3)], rule ring.does_and_then)
      fix u assume u: "ring_after d' u" "ring_ok hash u"
      show "ring_does hash (\<lambda>_ _. True) (retire_epoch base now) u"
        by (rule retire_does[OF u(2) epoch_loaded_later[OF base' u(1)] succeeded_later[OF succ u(1)]])
    qed (auto intro: load_keys_does)
  next
    case (EpochRetired r)
    show ?thesis unfolding EpochRetired epoch_state.case
      by (rule ring.does_and_then[OF load_keys_does[OF d(3)] d(3)])
        (auto intro: ring.does_succeed ring.does_raise ring_loaded_later)
  qed
qed (auto intro: state_seen_now state_seen_later)

lemma rotate_does:
  assumes ok: "ring_ok hash d0"
  shows "ring_does hash ring_loaded (rotate_encryption_key jobs now pkcs8 pub) d0"
  unfolding rotate_encryption_key_def
proof (rule ring.does_and_then[OF load_keys_does[OF ok] ok], rule ring.does_and_then[OF make_room_does])
  fix base d x u assume d: "ring_ok hash d" "ring_loaded base d" "ring_after d u" "ring_ok hash u"
  show "ring_does hash ring_loaded (case rg_published base of None \<Rightarrow> raise NotPublished
     | Some link \<Rightarrow> elect_epoch base link now pkcs8 pub) u"
    by (auto intro: ring.does_raise elect_epoch_does[OF d(4) ring_loaded_later[OF d(2,3)]] split: option.splits)
qed

end
