(* ===== verification/KeyRingResults.thy ===== *)
theory KeyRingResults
  imports KeyRingSteps
begin

text \<open>
  The key ring under concurrency and crashes: the chain of elected epochs never forks, what a
  process loads is on it, and the current private key is never lost. Then what single
  operations do when they run alone.
\<close>

subsection \<open>Publication\<close>

definition pending_chosen :: "ring_keys \<Rightarrow> key_publication \<Rightarrow> key_dir \<Rightarrow> bool" where
  "pending_chosen k p d \<longleftrightarrow> ring_loaded k d \<and> whole (kd_pending d) (sk_epoch k) p"

lemma pending_chosen_later: "pending_chosen k p d \<Longrightarrow> ring_after d u \<Longrightarrow> pending_chosen k p u"
  unfolding pending_chosen_def using ring_loaded_later by (auto simp: ring_after_def)

lemma load_pending_does:
  assumes ok: "ring_ok hash d0" and k: "ring_loaded k d0"
  shows "ring_does hash (\<lambda>r d. \<forall>p. r = Some p \<longrightarrow> pending_chosen k p d) (load_pending k) d0"
  unfolding load_pending_def
proof (rule ring.does_and_then[OF optional_does[where R = "\<lambda>p d. pending_chosen k p d"] ok])
  fix r d assume d: "ring_ok hash d" "case r of None \<Rightarrow> True | Some p \<Rightarrow> pending_chosen k p d"
  show "ring_does hash (\<lambda>r d. \<forall>p. r = Some p \<longrightarrow> pending_chosen k p d) (case r of None \<Rightarrow> succeed None
    | Some x \<Rightarrow> and_then (require (matches_current x k) PendingMismatch) (\<lambda>_. succeed (Some x))) d"
    using d by (cases r) (auto intro!: ring.does_and_then[OF ring.does_require] ring.does_succeed intro: pending_chosen_later)
qed (simp add: pending_chosen_def ring_loaded_later[OF k], rule pending_chosen_later)

lemma install_pending_does:
  assumes ok: "ring_ok hash d0" and k: "ring_loaded k d0" and m: "matches_current x k"
  shows "ring_does hash (\<lambda>_ _. True) (install_first_writer_wins kd_pending kd_pending_update (sk_epoch k) x) d0"
proof (rule install_does[OF ok])
  fix d assume d: "ring_ok hash d" "ring_after d0 d"
  have l: "epoch_pub_ok (sk_epoch k) (sk_encryption_pub k) (rg_prev k) d"
    using ring_loaded_later[OF k d(2)] by (simp add: ring_loaded_def epoch_loaded_def)
  show "ring_after d (kd_pending_update (\<lambda>xs. xs @ [(sk_epoch k, Torn)]) d) \<and>
      ring_ok hash (kd_pending_update (\<lambda>xs. xs @ [(sk_epoch k, Torn)]) d)" if "map_of (kd_pending d) (sk_epoch k) = None"
    unfolding family_updates(4)[of "\<lambda>xs. xs @ [(sk_epoch k, Torn)]"]
    by (rule pending_write[OF d(1)]) (simp_all only: whole_reserved[OF that] simp_thms)
  show "ring_after d (kd_pending_update (AList.update (sk_epoch k) (Whole x)) d) \<and>
      ring_ok hash (kd_pending_update (AList.update (sk_epoch k) (Whole x)) d)" if "map_of (kd_pending d) (sk_epoch k) = Some Torn"
    unfolding family_updates(4)[of "AList.update (sk_epoch k) (Whole x)"]
    by (rule pending_write[OF d(1)]) (use m l that in \<open>auto simp: matches_current_def split: if_splits\<close>)
qed

lemma choose_pending_does:
  assumes ok: "ring_ok hash d0"
  shows "ring_does hash (\<lambda>r d. \<forall>p. snd r = Some p \<longrightarrow> pending_chosen (fst r) p d) (choose_pending now candidate) d0"
  unfolding choose_pending_def
proof (rule ring.does_and_then[OF load_keys_does[OF ok] ok])
  fix k d assume d: "ring_ok hash d" "ring_loaded k d"
  show "ring_does hash (\<lambda>r d. \<forall>p. snd r = Some p \<longrightarrow> pending_chosen (fst r) p d) (if rg_published k \<noteq> None then succeed (k, None)
     else and_then (require (matches_current candidate k) PendingMismatch) (\<lambda>_.
          and_then (install_first_writer_wins kd_pending kd_pending_update (sk_epoch k) candidate) (\<lambda>_.
          and_then (load_pending k) (\<lambda>p. case p of None \<Rightarrow> raise PendingUnwritten | Some x \<Rightarrow> succeed (k, Some x))))) d"
  proof (cases "rg_published k")
    case None
    show ?thesis unfolding None simp_thms if_False
    proof (rule ring.does_and_then[OF ring.does_require d(1)], rule ring.does_and_then[OF install_pending_does])
      fix u assume u: "ring_after d u"
      show "ring_loaded k u" by (rule ring_loaded_later[OF d(2) u])
    next
      fix u v assume u: "ring_after d u" "ring_ok hash u" "matches_current candidate k" "ring_after u v" "ring_ok hash v"
      show "ring_does hash (\<lambda>r d. \<forall>p. snd r = Some p \<longrightarrow> pending_chosen (fst r) p d)
        (and_then (load_pending k) (\<lambda>p. case p of None \<Rightarrow> raise PendingUnwritten | Some x \<Rightarrow> succeed (k, Some x))) v"
        by (rule ring.does_and_then[OF load_pending_does[OF u(5) ring_loaded_later[OF d(2) ring_after_trans[OF u(1,4)]]] u(5)])
          (auto intro: ring.does_raise intro!: ring.does_succeed dest: pending_chosen_later split: option.splits)
    qed
  qed (auto intro: ring.does_succeed)
qed

lemma install_published_does:
  assumes ok: "ring_ok hash d0" and k: "pending_chosen k x d0"
  shows "ring_does hash (\<lambda>_ _. True) (install_first_writer_wins kd_published kd_published_update (sk_epoch k)
    (published_of k (hash (kp_record x)))) d0"
proof (rule install_does[OF ok])
  let ?m = "published_of k (hash (kp_record x))"
  fix d assume d: "ring_ok hash d" "ring_after d0 d"
  have l: "epoch_pub_ok (sk_epoch k) (sk_encryption_pub k) (rg_prev k) d" "whole (kd_pending d) (sk_epoch k) x"
    using pending_chosen_later[OF k d(2)] by (auto simp: pending_chosen_def ring_loaded_def epoch_loaded_def)
  show "ring_after d (kd_published_update (\<lambda>xs. xs @ [(sk_epoch k, Torn)]) d) \<and>
      ring_ok hash (kd_published_update (\<lambda>xs. xs @ [(sk_epoch k, Torn)]) d)" if "map_of (kd_published d) (sk_epoch k) = None"
    unfolding family_updates(3)[of "\<lambda>xs. xs @ [(sk_epoch k, Torn)]"]
    by (rule published_write[OF d(1)]) (simp_all only: whole_reserved[OF that] simp_thms)
  show "ring_after d (kd_published_update (AList.update (sk_epoch k) (Whole ?m)) d) \<and>
      ring_ok hash (kd_published_update (AList.update (sk_epoch k) (Whole ?m)) d)" if "map_of (kd_published d) (sk_epoch k) = Some Torn"
    unfolding family_updates(3)[of "AList.update (sk_epoch k) (Whole ?m)"]
    by (rule published_write[OF d(1)]) (use l that in \<open>auto simp: published_of_def split: if_splits\<close>)
qed

lemma remember_does:
  assumes ok: "ring_ok hash d0" and k: "pending_chosen k x d0"
  shows "ring_does hash ring_loaded (remember_published now k (hash (kp_record x))) d0"
  unfolding remember_published_def
  apply (rule ring.does_and_then[OF ring.does_require ok], rule ring.does_and_then[OF identity_root_does], assumption)
  apply (clarsimp split: prod.splits, rule ring.does_and_then[OF ring.does_require], assumption)
  apply (rule ring.does_and_then[OF install_published_does], assumption)
    apply (blast intro: pending_chosen_later[OF k] ring_after_trans)
   apply assumption
  apply (rule ring.does_and_then[OF slot_does[where R = "\<lambda>_ _. True"]])
     apply (auto intro!: ring.does_and_then[OF ring.does_require] load_keys_does)
  done

lemma send_does:
  assumes ok: "ring_ok hash d0" and k: "\<And>p. snd r = Some p \<Longrightarrow> pending_chosen (fst r) p d0"
  shows "ring_does hash (\<lambda>_ _. True) (send_publication hash sent now r) d0"
proof (cases "snd r")
  case (Some p)
  show ?thesis unfolding send_publication_def Some option.case
  proof (rule ring.does_and_then[OF ring.does_require ok], rule ring.does_and_then[OF remember_does])
    fix u assume "ring_after d0 u"
    then show "pending_chosen (fst r) p u" by (rule pending_chosen_later[OF k[OF Some]])
  qed (auto intro: ring.does_succeed)
qed (auto simp: send_publication_def intro: ring.does_succeed)

lemma publish_does:
  assumes ok: "ring_ok hash d0"
  shows "ring_does hash (\<lambda>_ _. True) (publish_encryption_key sign_for hash sent now) d0"
  unfolding publish_encryption_key_def
proof (rule ring.does_and_then[OF load_keys_does[OF ok] ok], rule ring.does_and_then[OF load_pending_does])
  fix k d r u assume d: "ring_ok hash d" "ring_loaded k d" "ring_after d u" "ring_ok hash u"
    and r: "\<forall>p. r = Some p \<longrightarrow> pending_chosen k p u"
  have "ring_does hash (\<lambda>_ _. True) (and_then (choose_pending now (sign_for k)) (send_publication hash sent now)) u"
    by (rule ring.does_and_then[OF choose_pending_does[OF d(4)] d(4)]) (auto intro: send_does)
  then show "ring_does hash (\<lambda>_ _. True) (case rg_published k of
       Some h \<Rightarrow> require (case r of None \<Rightarrow> True | Some p \<Rightarrow> hash (kp_record p) = h) PublishedMismatch
     | None \<Rightarrow>
         (case r of
            Some p \<Rightarrow> send_publication hash sent now (k, Some p)
          | None \<Rightarrow> and_then (choose_pending now (sign_for k)) (send_publication hash sent now))) u"
    using r by (auto intro!: send_does[OF d(4)] ring.does_weaken[OF ring.does_require] split: option.splits)
qed

lemma for_epoch_does:
  assumes ok: "ring_ok hash d0"
  shows "ring_does hash epoch_loaded (load_encryption_keys_for_epoch e now) d0"
  unfolding load_encryption_keys_for_epoch_def
proof (rule ring.does_and_then[OF load_keys_does[OF ok] ok])
  fix k d assume d: "ring_ok hash d" "ring_loaded k d"
  let ?R = "\<lambda>e r d. epoch_pub_ok e (rk_pub r) (rk_prev r) d \<and> epoch_key_ok e (rk_pkcs8 r) d"
  let ?lookup = "\<lambda>all. case find (\<lambda>k. rk_epoch k = e) all of
        None \<Rightarrow> raise EpochUnavailable
      | Some r \<Rightarrow> if now \<ge> rk_until r then raise EpochUnavailable
          else and_then (require ((rk_epoch r = 1) = (rk_prev r = None)) KeysMalformed) (\<lambda>_. succeed (keys_of_retained k r))"
  have "ring_does hash epoch_loaded (?lookup all) u"
    if u: "ring_ok hash u" "\<forall>r\<in>set all. ?R (rk_epoch r) r u" for all u
  proof (cases "find (\<lambda>k. rk_epoch k = e) all")
    case (Some r)
    then have "r \<in> set all" using find_Some_iff_mem by fastforce
    then have "epoch_loaded (keys_of_retained k r) u" using u(2) by (auto simp: epoch_loaded_def keys_of_retained_def)
    then show ?thesis unfolding Some
      by (auto intro!: ring.does_and_then[OF ring.does_require u(1)] intro: ring.does_raise ring.does_succeed epoch_loaded_later)
  qed (auto intro: ring.does_raise)
  moreover have "ring_does hash (\<lambda>xs d. distinct (map rk_epoch xs) \<and> (\<forall>r\<in>set xs. ?R (rk_epoch r) r d)) list_retained_epochs d"
    unfolding list_retained_epochs_def
    by (rule epochs_does[OF _ _ _ d(1)]) (auto simp: ring_ok_def retained_ok_def intro: epoch_pub_ok_later epoch_key_ok_later)
  ultimately have "ring_does hash epoch_loaded (and_then list_retained_epochs ?lookup) d"
    by (intro ring.does_and_then[OF _ d(1)]) blast+
  moreover have "ring_does hash epoch_loaded (succeed k) d"
    using d(2) by (auto intro!: ring.does_succeed intro: epoch_loaded_later simp: ring_loaded_def)
  ultimately show "ring_does hash epoch_loaded (if sk_epoch k = e then succeed k else and_then list_retained_epochs ?lookup) d"
    by simp
qed

lemma inspect_does: "ring_ok hash d0 \<Longrightarrow> ring_does hash (\<lambda>_ _. True) (inspect_encryption_key_ring now) d0"
  unfolding inspect_encryption_key_ring_def
  by (rule ring.does_and_then[OF load_keys_does], assumption, assumption,
      rule ring.does_and_then[OF retained_epochs_does], assumption, assumption, unfold Let_def, rule ring.does_succeed, rule TrueI)

subsection \<open>Side by side\<close>

text \<open>The operations of any number of processes, each run by a process of its own.\<close>

definition forget :: "('s, 'a) prog \<Rightarrow> ('s, unit) prog" where
  "forget p = bindp p (\<lambda>_. Return ())"

definition key_programs :: "(encryption_key_record \<Rightarrow> string) \<Rightarrow> (nat \<times> (key_dir, unit) prog) set" where
  "key_programs hash = UNIV \<times> (
     range (\<lambda>now. forget (load_keys now)) \<union>
     range (\<lambda>(jobs, now, pkcs8, pub). forget (rotate_encryption_key jobs now pkcs8 pub)) \<union>
     range (\<lambda>(sign_for, sent, now). forget (publish_encryption_key sign_for hash sent now)) \<union>
     range (\<lambda>(e, now). forget (load_encryption_keys_for_epoch e now)) \<union>
     range (\<lambda>now. forget (inspect_encryption_key_ring now)))"

lemma forget_keeps:
  "ring_does hash R p d \<Longrightarrow> ring_ok hash d \<Longrightarrow> keeps (ring_ok hash) ring_after ring_after (\<lambda>_ _. True) (forget p) d"
  unfolding forget_def by (rule ring.keeps_bindp[where Q = "on_ok R"]) (auto intro: keeps.keeps_return)

lemma key_programs_keep:
  assumes "(t, p) \<in> key_programs hash" "ring_ok hash d"
  shows "keeps (ring_ok hash) ring_after ring_after (\<lambda>_ _. True) p d"
  using assms(1) unfolding key_programs_def
  by (auto intro: forget_keeps[OF load_keys_does[OF assms(2)] assms(2)] forget_keeps[OF rotate_does[OF assms(2)] assms(2)]
      forget_keeps[OF publish_does[OF assms(2)] assms(2)] forget_keeps[OF for_epoch_does[OF assms(2)] assms(2)]
      forget_keeps[OF inspect_does[OF assms(2)] assms(2)])

lemma key_runs:
  assumes "(conc (key_programs hash))\<^sup>*\<^sup>* (d, {}, []) (d', used, ps)" "ring_ok hash d"
  shows "ring_ok hash d' \<and> ring_after d d'"
proof -
  let ?I = "side_by_side (ring_ok hash) (\<lambda>_ :: nat. ring_after) (\<lambda>_. ring_after) (\<lambda>_ _. True) (\<lambda>_ _ _. True)"
  have "?I c' \<and> ring_after d (fst c')"
    if "(conc (key_programs hash))\<^sup>*\<^sup>* (d, {}, []) c'" for c'
    using that
  proof (induction rule: rtranclp_induct)
    case base
    then show ?case using assms(2) by (simp add: side_by_side_def ring_after_refl)
  next
    case (step c c')
    have "?I c'"
      by (rule ring.conc_side_by_side[OF step(2)]) (use step key_programs_keep in auto)
    moreover have "ring_after (fst c) (fst c')"
      using ring.conc_guarantee[OF step(2)] step ring_after_refl by fastforce
    ultimately show ?case using step ring_after_trans by blast
  qed
  from this[OF assms(1)] show ?thesis by (simp add: side_by_side_def)
qed

end
