(* ===== verification/KeyRingSolo.thy ===== *)
theory KeyRingSolo
  imports KeyRingResults
begin

text \<open>
  Key operations that run alone on a directory without half-written files: loading succeeds,
  returns the newest elected epoch and scrubs the private keys below it; a rotation keeps the
  superseded key for decryption.
\<close>

definition untorn :: "key_dir \<Rightarrow> bool" where
  "untorn d \<longleftrightarrow> (\<forall>e. map_of (kd_states d) e \<noteq> Some Torn \<and> map_of (kd_retained d) e \<noteq> Some Torn \<and>
     map_of (kd_published d) e \<noteq> Some Torn \<and> map_of (kd_pending d) e \<noteq> Some Torn)"

lemma solo_keeps:
  assumes "solo R p d" "ring_does hash Q p d" "ring_ok hash d"
  shows "solo (\<lambda>x d'. R x d' \<and> Q x d' \<and> ring_after d d' \<and> ring_ok hash d') p d"
proof -
  obtain d' x where r: "run_prog p d = (d', Inr x)" "R x d'" using assms(1) by (auto simp: solo_def)
  have "ring_after d d' \<and> ring_ok hash d' \<and> on_ok Q (Inr x :: key_error + 'a) d'"
    by (rule ring.keeps_run[OF assms(2,3) r(1)])
  then show ?thesis using r by (auto simp: solo_def)
qed

lemma solo_slot: "whole (family d) e x \<Longrightarrow> R x d \<Longrightarrow> solo R (read_slot family e) d"
  unfolding read_slot_def by (rule solo_reads) auto

lemma whole_if_untorn: "map_of xs e \<noteq> Some Torn \<Longrightarrow> map_of xs e = Some s \<Longrightarrow> \<exists>x. s = Whole x"
  by (cases s) auto

lemma solo_epochs:
  assumes torn: "\<And>e. map_of (family d) e \<noteq> Some Torn" and k: "keyed (family d)"
    and named: "\<And>e x. whole (family d) e x \<Longrightarrow> epoch_of x = e"
  shows "solo (\<lambda>xs d'. d' = d \<and> distinct (map epoch_of xs) \<and> (\<forall>x. x \<in> set xs \<longleftrightarrow> (\<exists>e. whole (family d) e x))) (read_epochs family epoch_of) d"
proof -
  let ?f = "\<lambda>e. and_then (read_slot family e) (\<lambda>x. and_then (require (epoch_of x = e) KeysUnreadable) (\<lambda>_. succeed x))"
  have one: "\<exists>x. whole (family d) e x \<and> run_prog (?f e) d = (d, Inr x)" if mem: "e \<in> fst ` set (family d)" for e
  proof -
    obtain s where s: "map_of (family d) e = Some s" using mem map_of_eq_None_iff[of "family d" e]
      by (cases "map_of (family d) e") simp_all
    then obtain x where x: "whole (family d) e x" using whole_if_untorn[OF torn s] by auto
    then show ?thesis using named[OF x] by (auto simp: read_slot_def)
  qed
  define pick where "pick e = (case map_of (family d) e of Some (Whole x) \<Rightarrow> x | _ \<Rightarrow> undefined)" for e
  define xs where "xs = map pick (map fst (family d))"
  have all: "whole (family d) e (pick e) \<and> run_prog (?f e) d = (d, Inr (pick e))" if "e \<in> fst ` set (family d)" for e
    using one[OF that] by (auto simp: pick_def)
  then have "list_all2 (\<lambda>e x. run_prog (?f e) d = (d, Inr x)) (map fst (family d)) xs"
    by (simp add: xs_def list_all2_map1 list_all2_map2 list_all2_same del: run_and_then)
  then have run: "run_prog (each ?f (map fst (family d))) d = (d, Inr xs)" by (rule run_each)
  have xs: "list_all2 (whole (family d)) (map fst (family d)) xs"
    using all by (simp add: xs_def list_all2_map1 list_all2_map2 list_all2_same)
  have "map epoch_of xs = map fst (family d)"
    using xs by (induction rule: list_all2_induct) (auto dest: named)
  moreover have "x \<in> set xs \<longleftrightarrow> (\<exists>e. whole (family d) e x)" for x
  proof
    assume "\<exists>e. whole (family d) e x"
    then obtain e where e: "whole (family d) e x" by blast
    then have m: "e \<in> fst ` set (family d)" by (force dest: map_of_SomeD)
    then have "pick e = x" using all[OF m] e by simp
    then show "x \<in> set xs" using m by (auto simp: xs_def)
  next
    assume "x \<in> set xs"
    then obtain e where "e \<in> fst ` set (family d)" "x = pick e" by (auto simp: xs_def)
    then show "\<exists>e. whole (family d) e x" using all[of e] by blast
  qed
  ultimately show ?thesis
    using run k unfolding solo_def read_epochs_def keyed_def by simp
qed

text \<open>What a retirement leaves.\<close>

definition retired_by :: "ring_keys \<Rightarrow> int \<Rightarrow> key_dir \<Rightarrow> key_dir \<Rightarrow> bool" where
  "retired_by k now d d' \<longleftrightarrow> untorn d' \<and> kd_published d' = kd_published d \<and> kd_pending d' = kd_pending d \<and>
     (\<forall>f. f \<noteq> sk_epoch k \<longrightarrow> map_of (kd_states d') f = map_of (kd_states d) f) \<and>
     (if sk_epoch k = 1 then (\<exists>i. kd_root d' = Some (RootStable i))
      else kd_root d' = kd_root d \<and> (\<exists>r. whole (kd_states d') (sk_epoch k) (EpochRetired r))) \<and>
     (\<forall>f r. whole (kd_retained d) f r \<longrightarrow> whole (kd_retained d') f r) \<and>
     (map_of (kd_retained d) (sk_epoch k) = None \<longrightarrow> whole (kd_retained d') (sk_epoch k) (retained_of k now))"

text \<open>A private key that is still in its place.\<close>

definition private_in_place :: "ring_keys \<Rightarrow> key_dir \<Rightarrow> bool" where
  "private_in_place k d \<longleftrightarrow>
     (\<exists>i pkcs8 pub. kd_root d = Some (RootInitial i pkcs8 pub) \<and> k = keys_of_initial i pkcs8 pub) \<or>
     (\<exists>i a. whole (kd_states d) (ae_epoch a) (EpochActive a) \<and> ae_epoch a \<ge> 2 \<and> k = keys_of_active i a)"

lemma retain_solo:
  assumes ok: "ring_ok hash d" and "untorn d" and k: "private_in_place k d"
  shows "solo (\<lambda>_ d'. \<exists>xs. d' = d\<lparr>kd_retained := xs\<rparr> \<and> untorn d' \<and>
      (\<forall>f r. whole (kd_retained d) f r \<longrightarrow> whole xs f r) \<and>
      (map_of (kd_retained d) (sk_epoch k) = None \<longrightarrow> whole xs (sk_epoch k) (retained_of k now))) (retain_epoch k now) d"
proof (cases "map_of (kd_retained d) (sk_epoch k)")
  case None
  let ?xs = "AList.update (sk_epoch k) (Whole (retained_of k now)) (kd_retained d @ [(sk_epoch k, Torn)])"
  have run: "run_prog (retain_epoch k now) d = (d\<lparr>kd_retained := ?xs\<rparr>, Inr ())"
    using None by (simp add: retain_epoch_def install_first_writer_wins_def read_slot_def retained_of_def map_add_def)
      (cases d, simp add: update_conv')
  have m: "map_of ?xs f = (if f = sk_epoch k then Some (Whole (retained_of k now)) else map_of (kd_retained d) f)" for f
    by (auto simp: update_conv' map_add_def split: option.splits)
  show ?thesis unfolding solo_def run
  proof (intro exI conjI)
    show "(d\<lparr>kd_retained := ?xs\<rparr>, Inr ()) = (d\<lparr>kd_retained := ?xs\<rparr>, Inr ())" by (rule refl)
  qed (use assms(2) None m in \<open>auto simp: untorn_def simp del: map_of_append\<close>)
next
  case (Some s)
  then obtain r where r: "whole (kd_retained d) (sk_epoch k) r"
    using whole_if_untorn[of "kd_retained d" "sk_epoch k" s] assms(2) by (auto simp: untorn_def)
  have "rk_epoch r = sk_epoch k \<and> epoch_pub_ok (sk_epoch k) (rk_pub r) (rk_prev r) d \<and> epoch_key_ok (sk_epoch k) (rk_pkcs8 r) d"
    using ok r by (simp add: ring_ok_def retained_ok_def)
  then have "rk_epoch r = sk_epoch k \<and> rk_pub r = sk_encryption_pub k \<and> rk_pkcs8 r = sk_encryption_pkcs8 k"
    using k unfolding private_in_place_def
    by (elim disjE exE conjE) (simp_all add: epoch_ok_defs keys_of_initial_def keys_of_active_def)
  then have run: "run_prog (retain_epoch k now) d = (d, Inr ())"
    using r by (simp add: retain_epoch_def install_first_writer_wins_def read_slot_def)
  show ?thesis unfolding solo_def run
    using assms(2) r by (intro exI[of _ d]) (auto intro: exI[of _ "kd_retained d"])
qed

lemma retire_solo:
  assumes ok: "ring_ok hash d" and t: "untorn d" and k: "private_in_place k d"
  shows "solo (\<lambda>_ d'. retired_by k now d d') (retire_epoch k now) d"
  unfolding retire_epoch_def
proof (rule solo_and_then[OF retain_solo[OF ok t k]], elim exE conjE)
  fix d1 xs assume d1: "d1 = d\<lparr>kd_retained := xs\<rparr>" "untorn d1"
    and r: "\<forall>f r. whole (kd_retained d) f r \<longrightarrow> whole xs f r"
      "map_of (kd_retained d) (sk_epoch k) = None \<longrightarrow> whole xs (sk_epoch k) (retained_of k now)"
  show "solo (\<lambda>_ d'. retired_by k now d d') (if sk_epoch k = 1
     then and_then load_identity_root (\<lambda>root. case root of
            (_, None) \<Rightarrow> succeed () | (i, Some (pkcs8, pub)) \<Rightarrow> retire_root k i pkcs8 pub)
     else and_then (read_slot kd_states (sk_epoch k)) (\<lambda>state. case state of
            EpochRetired _ \<Rightarrow> succeed () | EpochActive a \<Rightarrow> retire_active k a)) d1"
    using k unfolding private_in_place_def
  proof (elim disjE exE conjE)
    fix i pkcs8 pub assume "kd_root d = Some (RootInitial i pkcs8 pub)" "k = keys_of_initial i pkcs8 pub"
    then show ?thesis
      using d1 r by (simp add: solo_def load_identity_root_def retire_root_def write_root_def keys_of_initial_def retired_by_def untorn_def)
  next
    fix i a assume a: "whole (kd_states d) (ae_epoch a) (EpochActive a)" "2 \<le> ae_epoch a" "k = keys_of_active i a"
    then have "run_prog (read_slot kd_states (ae_epoch a)) d1 = (d1, Inr (EpochActive a))" by (simp add: read_slot_def d1)
    then show ?thesis
      using a d1 r by (simp add: solo_def retire_active_def write_state_def keys_of_active_def retired_by_def untorn_def)
        (auto simp: update_conv')
  qed
qed

subsection \<open>Loading\<close>

definition newest_epoch :: "key_dir \<Rightarrow> int \<Rightarrow> bool" where
  "newest_epoch d e \<longleftrightarrow> (e = 1 \<and> kd_states d = [] \<or> (\<exists>x. whole (kd_states d) e x)) \<and>
     (\<forall>f. map_of (kd_states d) f \<noteq> None \<longrightarrow> f \<le> e)"

text \<open>The only private key left is that of \<open>k\<close>.\<close>

definition scrubbed :: "ring_keys \<Rightarrow> key_dir \<Rightarrow> bool" where
  "scrubbed k d \<longleftrightarrow> (\<forall>e a. whole (kd_states d) e (EpochActive a) \<longrightarrow> e = sk_epoch k) \<and>
     (\<forall>i pkcs8 pub. kd_root d = Some (RootInitial i pkcs8 pub) \<longrightarrow> sk_epoch k = 1)"

lemma exists_newest:
  assumes ok: "ring_ok hash d" and t: "untorn d"
  shows "\<exists>e. newest_epoch d e"
proof (cases "kd_states d = []")
  case True
  then show ?thesis by (auto simp: newest_epoch_def)
next
  case False
  let ?E = "fst ` set (kd_states d)"
  have E: "finite ?E" "?E \<noteq> {}" using False by auto
  have "Max ?E \<in> ?E" by (rule Max_in[OF E])
  then obtain s where "map_of (kd_states d) (Max ?E) = Some s"
    using map_of_eq_None_iff[of "kd_states d" "Max ?E"] by (cases "map_of (kd_states d) (Max ?E)") auto
  then have "\<exists>x. whole (kd_states d) (Max ?E) x"
    using whole_if_untorn t unfolding untorn_def by metis
  moreover have "f \<le> Max ?E" if "map_of (kd_states d) f \<noteq> None" for f
    using that map_of_eq_None_iff[of "kd_states d" f] by (intro Max_ge E) auto
  ultimately show ?thesis unfolding newest_epoch_def by blast
qed

lemma newest_active:
  assumes ok: "ring_ok hash d" and n: "newest_epoch d e"
  shows "e = 1 \<and> kd_states d = [] \<and> (\<exists>i pkcs8 pub. kd_root d = Some (RootInitial i pkcs8 pub)) \<or>
    e \<ge> 2 \<and> (\<exists>a. whole (kd_states d) e (EpochActive a) \<and> ae_epoch a = e)"
proof (cases "kd_states d = []")
  case True
  then show ?thesis using ok n by (auto simp: ring_ok_def successors_ok_def newest_epoch_def)
next
  case False
  then obtain x where x: "whole (kd_states d) e x" using n by (auto simp: newest_epoch_def)
  then have e: "e \<ge> 2" "state_epoch x = e" using ok unfolding ring_ok_def states_ok_def by blast+
  have "x \<noteq> EpochRetired r" for r
  proof
    assume "x = EpochRetired r"
    then obtain y where "whole (kd_states d) (e + 1) y" using ok x unfolding ring_ok_def successors_ok_def by blast
    then have "e + 1 \<le> e" using n unfolding newest_epoch_def by blast
    then show False by simp
  qed
  then show ?thesis using x e by (cases x) auto
qed

lemma published_solo:
  assumes ok: "ring_ok hash d" and t: "untorn d" and k: "private_in_place k d"
  shows "solo (\<lambda>_ d'. d' = d) (load_published_epoch k) d"
proof (cases "map_of (kd_published d) (sk_epoch k)")
  case None
  then show ?thesis by (simp add: solo_def load_published_epoch_def read_optional_def)
next
  case (Some s)
  then obtain p where p: "whole (kd_published d) (sk_epoch k) p"
    using whole_if_untorn[OF _ Some] t by (auto simp: untorn_def)
  then have "pe_epoch p = sk_epoch k \<and> epoch_pub_ok (sk_epoch k) (pe_pub p) (pe_prev p) d"
    using ok unfolding ring_ok_def published_ok_def by blast
  then have "pe_epoch p = sk_epoch k \<and> pe_pub p = sk_encryption_pub k \<and> pe_prev p = rg_prev k"
    using k unfolding private_in_place_def
    by (elim disjE exE conjE) (simp_all add: epoch_ok_defs keys_of_initial_def keys_of_active_def)
  then show ?thesis using p by (simp add: solo_def load_published_epoch_def read_optional_def)
qed

text \<open>Some states replaced by their tombstones, and nothing else but retained keys added.\<close>

definition tombstones :: "int set \<Rightarrow> key_dir \<Rightarrow> key_dir \<Rightarrow> bool" where
  "tombstones E d d' \<longleftrightarrow> untorn d' \<and> kd_root d' = kd_root d \<and> kd_published d' = kd_published d \<and>
     kd_pending d' = kd_pending d \<and>
     (\<forall>f. f \<notin> E \<longrightarrow> map_of (kd_states d') f = map_of (kd_states d) f) \<and>
     (\<forall>f\<in>E. \<exists>r. whole (kd_states d') f (EpochRetired r)) \<and>
     (\<forall>f r. whole (kd_retained d) f r \<longrightarrow> whole (kd_retained d') f r)"

lemma retire_each_solo:
  assumes ok: "ring_ok hash d" and t: "untorn d" and i: "root_identity (kd_root d) = Some i"
    and bs: "\<And>b. b \<in> set bs \<Longrightarrow> whole (kd_states d) (ae_epoch b) (EpochActive b) \<and> succeeded (ae_epoch b) d" "distinct (map ae_epoch bs)"
  shows "solo (\<lambda>_ d'. ring_ok hash d' \<and> ring_after d d' \<and> tombstones (ae_epoch ` set bs) d d')
    (each (\<lambda>a. retire_epoch (keys_of_active i a) now) bs) d"
proof (rule solo_each[where I = "\<lambda>before d'. ring_ok hash d' \<and> ring_after d d' \<and> tombstones (ae_epoch ` set before) d d'"])
  fix b before d1
  assume b: "\<exists>rest. bs = before @ b # rest" and I: "ring_ok hash d1 \<and> ring_after d d1 \<and> tombstones (ae_epoch ` set before) d d1"
  then have new: "ae_epoch b \<notin> ae_epoch ` set before" "b \<in> set bs" using bs(2) by auto
  have st: "whole (kd_states d1) (ae_epoch b) (EpochActive b)"
    using I new bs(1)[OF new(2)] unfolding tombstones_def by simp
  then have two: "ae_epoch b \<ge> 2" using I unfolding ring_ok_def states_ok_def by blast
  have seen: "state_seen (ae_epoch b) (EpochActive b) d1" by (rule state_seen_now[OF _ st]) (use I in blast)
  have id1: "root_identity (kd_root d1) = Some i" using root_identity_later i I by blast
  have "solo (\<lambda>_ d'. retired_by (keys_of_active i b) now d1 d') (retire_epoch (keys_of_active i b) now) d1"
    by (rule retire_solo) (use I st two in \<open>auto simp: tombstones_def private_in_place_def\<close>)
  then have "solo (\<lambda>_ d'. retired_by (keys_of_active i b) now d1 d' \<and> True \<and> ring_after d1 d' \<and> ring_ok hash d')
      (retire_epoch (keys_of_active i b) now) d1"
  proof (rule solo_keeps)
    have "sk_epoch (keys_of_active i b) = ae_epoch b" by (simp add: keys_of_active_def)
    moreover have "succeeded (ae_epoch b) d1" using succeeded_later bs(1)[OF new(2)] I by blast
    ultimately show "ring_does hash (\<lambda>_ _. True) (retire_epoch (keys_of_active i b) now) d1"
      using I state_seen_active[OF seen id1] by (intro retire_does) auto
  qed (use I in blast)
  then show "solo (\<lambda>_ d'. ring_ok hash d' \<and> ring_after d d' \<and> tombstones (ae_epoch ` set (before @ [b])) d d')
      (retire_epoch (keys_of_active i b) now) d1"
  proof (rule solo_weaken)
    fix x d' assume r: "retired_by (keys_of_active i b) now d1 d' \<and> True \<and> ring_after d1 d' \<and> ring_ok hash d'"
    have "sk_epoch (keys_of_active i b) = ae_epoch b" by (simp add: keys_of_active_def)
    then have "tombstones (ae_epoch ` set (before @ [b])) d d'"
      using r I two new(1) unfolding retired_by_def tombstones_def by (simp, metis imageI)
    then show "ring_ok hash d' \<and> ring_after d d' \<and> tombstones (ae_epoch ` set (before @ [b])) d d'"
      using r I ring_after_trans by blast
  qed
qed (use ok t in \<open>auto simp: tombstones_def ring_after_refl\<close>)

text \<open>What scrubbing leaves of the directory it started on.\<close>

definition scrub_of :: "ring_keys \<Rightarrow> key_dir \<Rightarrow> key_dir \<Rightarrow> bool" where
  "scrub_of k d d' \<longleftrightarrow> untorn d' \<and> scrubbed k d' \<and> private_in_place k d' \<and> kd_published d' = kd_published d \<and>
     kd_pending d' = kd_pending d \<and> (\<forall>f r. whole (kd_retained d) f r \<longrightarrow> whole (kd_retained d') f r) \<and>
     (\<forall>f. map_of (kd_states d) f = None \<longrightarrow> map_of (kd_states d') f = None)"

lemma retire_initial_solo:
  assumes ok: "ring_ok hash d" and t: "untorn d" and r: "kd_root d = Some (RootInitial i pkcs8 pub)" and s: "succeeded 1 d"
  shows "solo (\<lambda>_ d'. ring_ok hash d' \<and> ring_after d d' \<and> kd_root d' = Some (RootStable i) \<and>
      (\<forall>f. map_of (kd_states d') f = map_of (kd_states d) f) \<and> retired_by (keys_of_initial i pkcs8 pub) now d d')
    (retire_epoch (keys_of_initial i pkcs8 pub) now) d"
proof -
  let ?k = "keys_of_initial i pkcs8 pub"
  have k: "sk_epoch ?k = 1" "epoch_loaded ?k d"
    using r by (simp_all add: keys_of_initial_def epoch_loaded_def epoch_ok_defs)
  have "solo (\<lambda>_ d'. retired_by ?k now d d') (retire_epoch ?k now) d"
    by (rule retire_solo[OF ok t]) (use r in \<open>auto simp: private_in_place_def\<close>)
  then have "solo (\<lambda>_ d'. retired_by ?k now d d' \<and> True \<and> ring_after d d' \<and> ring_ok hash d') (retire_epoch ?k now) d"
    by (rule solo_keeps) (use retire_does[OF ok k(2)] k(1) s ok in auto)
  then show ?thesis
  proof (rule solo_weaken)
    fix x d' assume p: "retired_by ?k now d d' \<and> True \<and> ring_after d d' \<and> ring_ok hash d'"
    have none: "map_of (kd_states c) 1 = None" if "ring_ok hash c" for c
      using that unfolding ring_ok_def states_ok_def by (cases "map_of (kd_states c) 1") force+
    have "map_of (kd_states d') f = map_of (kd_states d) f" for f
      using p none[OF ok] none[of d'] k(1) by (cases "f = 1") (auto simp: retired_by_def)
    moreover have "kd_root d' = Some (RootStable i)" using p r k(1) by (auto simp: retired_by_def ring_after_def)
    ultimately show "ring_ok hash d' \<and> ring_after d d' \<and> kd_root d' = Some (RootStable i) \<and>
      (\<forall>f. map_of (kd_states d') f = map_of (kd_states d) f) \<and> retired_by ?k now d d'" using p by blast
  qed
qed

lemma scrub_solo:
  assumes ok: "ring_ok hash d" and t: "untorn d" and n: "newest_epoch d e"
    and root: "root_identity (kd_root d) = Some i"
      "initial = (case kd_root d of Some (RootInitial _ p q) \<Rightarrow> Some (p, q) | _ \<Rightarrow> None)"
    and st: "distinct (map state_epoch states)" "\<And>x. x \<in> set states \<longleftrightarrow> (\<exists>f. whole (kd_states d) f x)"
    and k: "current_keys i initial (active_states states) = Some k" "sk_epoch k = e"
  shows "solo (\<lambda>_ d'. ring_ok hash d' \<and> ring_after d d' \<and> scrub_of k d d')
    (scrub_superseded i initial (active_states states) k now) d"
proof -
  have so: "states_ok d" using ok by (simp add: ring_ok_def)
  have act: "a \<in> set (active_states states) \<longleftrightarrow> whole (kd_states d) (ae_epoch a) (EpochActive a)" for a
  proof -
    have "whole (kd_states d) f (EpochActive a) \<Longrightarrow> f = ae_epoch a" for f
      using so unfolding states_ok_def by fastforce
    then show ?thesis unfolding mem_active_states st(2) by blast
  qed
  show ?thesis
  proof (cases "active_states states")
    case Nil
    then obtain p q where r: "kd_root d = Some (RootInitial i p q)" "k = keys_of_initial i p q"
      using k root by (auto simp: current_keys_def split: option.splits root_file.splits)
    then have one: "sk_epoch k = 1" by (simp add: keys_of_initial_def)
    have "scrubbed k d" using act Nil one so unfolding scrubbed_def states_ok_def by fastforce
    then have "scrub_of k d d" using t r unfolding scrub_of_def private_in_place_def by blast
    then show ?thesis using r root one Nil ok unfolding scrub_superseded_def
      by (auto simp: solo_def succeed_def ring_after_refl)
  next
    case (Cons a bs)
    then have a: "k = keys_of_active i a" "ae_epoch a = e" using k by (auto simp: current_keys_def keys_of_active_def)
    have wa: "whole (kd_states d) e (EpochActive a)" using act[of a] Cons a(2) by simp
    then have e2: "e \<ge> 2" using so unfolding states_ok_def by blast
    have seen: "state_seen e (EpochActive a) d" by (rule state_seen_now[OF ok wa])
    have lower: "\<forall>b\<in>set bs. ae_epoch b < e" using active_states_sorted[OF st(1) Cons] a(2) by simp
    have dist: "distinct (map ae_epoch bs)" using active_states_distinct[OF st(1)] Cons by simp
    have bs: "whole (kd_states d) (ae_epoch b) (EpochActive b) \<and> succeeded (ae_epoch b) d" if "b \<in> set bs" for b
    proof -
      have w: "whole (kd_states d) (ae_epoch b) (EpochActive b)" using act[of b] Cons that by simp
      then have "ae_epoch b \<ge> 2" using so unfolding states_ok_def by blast
      then show ?thesis using w seen_successor[OF ok seen] lower that by auto
    qed
    let ?I = "\<lambda>d1. ring_ok hash d1 \<and> ring_after d d1 \<and> untorn d1 \<and> kd_published d1 = kd_published d \<and>
      kd_pending d1 = kd_pending d \<and> (\<forall>f. map_of (kd_states d1) f = map_of (kd_states d) f) \<and>
      (\<forall>f r. whole (kd_retained d) f r \<longrightarrow> whole (kd_retained d1) f r) \<and> kd_root d1 = Some (RootStable i)"
    have first: "solo (\<lambda>_. ?I) (case initial of
          Some (pkcs8, pub) \<Rightarrow> if sk_epoch k > 1 then retire_epoch (keys_of_initial i pkcs8 pub) now else succeed ()
        | None \<Rightarrow> succeed ()) d"
    proof (cases initial)
      case None
      then have "kd_root d = Some (RootStable i)" using root by (cases "kd_root d" rule: root_identity.cases) auto
      then show ?thesis unfolding None using ok t by (auto intro!: solo_succeed ring_after_refl)
    next
      case (Some pq)
      then obtain p q where r: "kd_root d = Some (RootInitial i p q)" "initial = Some (p, q)"
        using root by (cases "kd_root d" rule: root_identity.cases) auto
      have "succeeded 1 d" by (rule seen_successor[OF ok seen]) (use e2 in auto)
      from retire_initial_solo[OF ok t r(1) this, of now]
      have "solo (\<lambda>_. ?I) (retire_epoch (keys_of_initial i p q) now) d"
        by (rule solo_weaken) (auto simp: retired_by_def)
      then show ?thesis using r(2) k(2) e2 by simp
    qed
    have rest: "solo (\<lambda>_ d'. ring_ok hash d' \<and> ring_after d d' \<and> scrub_of k d d')
        (and_then (each (\<lambda>a. retire_epoch (keys_of_active i a) now) bs) (\<lambda>_. succeed ())) d1" if I: "?I d1" for d1
    proof (rule solo_and_then[OF retire_each_solo[of hash d1 i bs now]])
      fix x d2 assume p: "ring_ok hash d2 \<and> ring_after d1 d2 \<and> tombstones (ae_epoch ` set bs) d1 d2"
      have "f = e" if f: "whole (kd_states d2) f (EpochActive c)" for f c
      proof -
        have "f \<notin> ae_epoch ` set bs" using p f unfolding tombstones_def by auto
        then have w: "whole (kd_states d) f (EpochActive c)" using p I f unfolding tombstones_def by simp
        then have "ae_epoch c = f" using so unfolding states_ok_def by fastforce
        then show ?thesis using act[of c] w Cons \<open>f \<notin> _\<close> a(2) by auto
      qed
      then have "scrubbed k d2" using p I k(2) unfolding scrubbed_def tombstones_def by simp
      moreover have "e \<notin> ae_epoch ` set bs" using lower by auto
      then have "whole (kd_states d2) e (EpochActive a)" using p I wa unfolding tombstones_def by simp
      then have "private_in_place k d2" using a e2 unfolding private_in_place_def by blast
      moreover have "map_of (kd_states d2) f = None" if "map_of (kd_states d) f = None" for f
        using p I that bs unfolding tombstones_def by (cases "f \<in> ae_epoch ` set bs") force+
      ultimately have "scrub_of k d d2" using p I unfolding scrub_of_def tombstones_def by simp
      then show "solo (\<lambda>_ d'. ring_ok hash d' \<and> ring_after d d' \<and> scrub_of k d d') (succeed ()) d2"
        using p I ring_after_trans by (auto intro!: solo_succeed)
    qed (use I bs dist succeeded_later in auto)
    show ?thesis unfolding scrub_superseded_def Cons list.sel
      by (rule solo_and_then[OF first rest])
  qed
qed

lemma highest_state_le: "\<forall>x\<in>set states. state_epoch x \<le> e \<Longrightarrow> 0 \<le> e \<Longrightarrow> highest_state states \<le> e"
proof -
  have "h \<le> e \<Longrightarrow> \<forall>x\<in>set states. state_epoch x \<le> e \<Longrightarrow> foldl (\<lambda>h s. max h (state_epoch s)) h states \<le> e" for h
    by (induction states arbitrary: h) auto
  then show "\<forall>x\<in>set states. state_epoch x \<le> e \<Longrightarrow> 0 \<le> e \<Longrightarrow> highest_state states \<le> e" by (simp add: highest_state_def)
qed

text \<open>The keys that loading selects from complete listings.\<close>

lemma current_newest:
  assumes ok: "ring_ok hash d" and n: "newest_epoch d e" and root: "root_identity (kd_root d) = Some i"
      "initial = (case kd_root d of Some (RootInitial _ p q) \<Rightarrow> Some (p, q) | _ \<Rightarrow> None)"
    and st: "distinct (map state_epoch states)" "\<And>x. x \<in> set states \<longleftrightarrow> (\<exists>f. whole (kd_states d) f x)"
  shows "\<exists>k. current_keys i initial (active_states states) = Some k \<and> sk_epoch k = e \<and> private_in_place k d \<and> rg_published k = None"
proof -
  have so: "states_ok d" using ok by (simp add: ring_ok_def)
  from newest_active[OF ok n] show ?thesis
  proof (elim disjE conjE exE)
    fix j p q assume e: "e = 1" "kd_states d = []" "kd_root d = Some (RootInitial j p q)"
    then have "states = []" using st(2) by (cases states) auto
    then have "active_states states = []" by (simp add: active_states_def stable_sort_def)
    then show ?thesis using e root by (auto simp: current_keys_def keys_of_initial_def private_in_place_def)
  next
    fix a assume e: "e \<ge> 2" "whole (kd_states d) e (EpochActive a)" "ae_epoch a = e"
    then have a: "a \<in> set (active_states states)" using st(2) mem_active_states by auto
    then obtain b bs where b: "active_states states = b # bs" by (cases "active_states states") auto
    then have "EpochActive b \<in> set states" using mem_active_states[of b states] by simp
    then obtain f where f: "whole (kd_states d) f (EpochActive b)" using st(2) by blast
    then have "ae_epoch b = f" "map_of (kd_states d) f \<noteq> None" using so unfolding states_ok_def by fastforce+
    then have le: "ae_epoch b \<le> e" using n unfolding newest_epoch_def by blast
    have "b = a"
    proof (rule ccontr)
      assume "b \<noteq> a"
      then have "a \<in> set bs" using a b by simp
      then show False using active_states_sorted[OF st(1) b] le e(3) by auto
    qed
    then show ?thesis using e b unfolding current_keys_def private_in_place_def by (auto simp: keys_of_active_def)
  qed
qed

definition loaded_alone :: "(encryption_key_record \<Rightarrow> string) \<Rightarrow> int \<Rightarrow> ring_keys \<Rightarrow> key_dir \<Rightarrow> key_dir \<Rightarrow> bool" where
  "loaded_alone hash e k d d' \<longleftrightarrow> sk_epoch k = e \<and> ring_loaded k d' \<and> ring_ok hash d' \<and> ring_after d d' \<and>
     (\<exists>p. scrub_of (k\<lparr>rg_published := p\<rparr>) d d')"

lemma load_current_solo:
  assumes le: "highest_state states \<le> sk_epoch k" and one: "(sk_epoch k = 1) = (rg_prev k = None)" and k: "rg_published k = None"
    and scrub: "solo (\<lambda>_ d'. ring_ok hash d' \<and> ring_after d d' \<and> scrub_of k d d')
      (scrub_superseded (fst root) (snd root) (active_states states) k now) d"
  shows "solo (\<lambda>k' d'. sk_epoch k' = sk_epoch k \<and> (\<exists>p. scrub_of (k'\<lparr>rg_published := p\<rparr>) d d')) (load_current root states now k) d"
  unfolding load_current_def
proof (rule solo_and_then[OF solo_require[where R = "\<lambda>_ d'. d' = d"]], rule le, rule refl, simp only:, rule solo_and_then[OF scrub])
  fix x d1 assume d1: "ring_ok hash d1 \<and> ring_after d d1 \<and> scrub_of k d d1"
  have "solo (\<lambda>_ d'. d' = d1) (load_published_epoch k) d1"
    by (rule published_solo) (use d1 in \<open>auto simp: scrub_of_def\<close>)
  then show "solo (\<lambda>k' d'. sk_epoch k' = sk_epoch k \<and> (\<exists>p. scrub_of (k'\<lparr>rg_published := p\<rparr>) d d'))
      (and_then (load_published_epoch k) (\<lambda>p.
       and_then (require ((sk_epoch k = 1) = (rg_prev k = None)) KeysMalformed) (\<lambda>_.
       succeed (k\<lparr>rg_published := map_option pe_hash p\<rparr>)))) d1"
  proof (rule solo_and_then)
    fix p d2 assume d2: "d2 = d1"
    have "k\<lparr>rg_published := map_option pe_hash p, rg_published := None\<rparr> = k" using k by simp
    then have "\<exists>q. scrub_of (k\<lparr>rg_published := map_option pe_hash p, rg_published := q\<rparr>) d d1" using d1 by metis
    then show "solo (\<lambda>k' d'. sk_epoch k' = sk_epoch k \<and> (\<exists>p. scrub_of (k'\<lparr>rg_published := p\<rparr>) d d'))
      (and_then (require ((sk_epoch k = 1) = (rg_prev k = None)) KeysMalformed) (\<lambda>_. succeed (k\<lparr>rg_published := map_option pe_hash p\<rparr>))) d2"
      using one d2 by (auto simp: solo_def)
  qed
qed

lemma load_keys_solo:
  assumes ok: "ring_ok hash d" and t: "untorn d" and n: "newest_epoch d e"
  shows "solo (\<lambda>k d'. loaded_alone hash e k d d') (load_keys now) d"
proof -
  obtain i where i: "root_identity (kd_root d) = Some i" using ok by (auto simp: ring_ok_def successors_ok_def)
  define initial where "initial = (case kd_root d of Some (RootInitial _ p q) \<Rightarrow> Some (p, q) | _ \<Rightarrow> None)"
  have so: "states_ok d" using ok by (simp add: ring_ok_def)
  let ?Q = "\<lambda>k d'. sk_epoch k = e \<and> (\<exists>p. scrub_of (k\<lparr>rg_published := p\<rparr>) d d')"
  let ?S = "\<lambda>xs d'. d' = d \<and> distinct (map state_epoch xs) \<and> (\<forall>x. x \<in> set xs \<longleftrightarrow> (\<exists>e. whole (kd_states d) e x))"
  have S: "solo ?S list_epoch_states d"
    unfolding list_epoch_states_def by (rule solo_epochs) (use t so in \<open>auto simp: untorn_def states_ok_def\<close>)
  have one: "solo ?Q (case current_keys i initial (active_states states) of
       None \<Rightarrow> raise NoActiveEpoch | Some current \<Rightarrow> load_current (i, initial) states now current) d1" if st': "?S states d1" for states d1
  proof -
    have d1: "d1 = d" and st: "?S states d" using st' by simp_all
    obtain k where k: "current_keys i initial (active_states states) = Some k" "sk_epoch k = e" "private_in_place k d" "rg_published k = None"
      using current_newest[OF ok n i initial_def, of states] st by blast
    have pos: "sk_epoch k \<ge> 1" "(sk_epoch k = 1) = (rg_prev k = None)"
      using k(3) by (auto simp: private_in_place_def keys_of_initial_def keys_of_active_def)
    have le: "highest_state states \<le> sk_epoch k"
    proof (rule highest_state_le)
      show "\<forall>x\<in>set states. state_epoch x \<le> sk_epoch k"
        using st n so k(2) unfolding newest_epoch_def states_ok_def by fastforce
    qed (use pos in simp)
    have "solo (\<lambda>_ d'. ring_ok hash d' \<and> ring_after d d' \<and> scrub_of k d d')
        (scrub_superseded i initial (active_states states) k now) d"
      by (rule scrub_solo[OF ok t n i initial_def _ _ k(1,2)]) (use st in auto)
    then have "solo (\<lambda>k' d'. sk_epoch k' = sk_epoch k \<and> (\<exists>p. scrub_of (k'\<lparr>rg_published := p\<rparr>) d d'))
        (load_current (i, initial) states now k) d"
      by (intro load_current_solo[OF le pos(2) k(4)]) simp
    then show ?thesis using k(1,2) d1 by simp
  qed
  have "solo ?Q (load_keys now) d"
    unfolding load_keys_def
  proof (rule solo_and_then[where R = "\<lambda>r d'. d' = d \<and> r = (i, initial)"])
    show "solo (\<lambda>r d'. d' = d \<and> r = (i, initial)) load_identity_root d"
      unfolding load_identity_root_def
      by (cases "kd_root d" rule: root_identity.cases) (use i in \<open>auto simp: initial_def solo_def\<close>)
  qed (use solo_and_then[OF S one] in auto)
  from solo_keeps[OF this load_keys_does[OF ok] ok] show ?thesis
    by (rule solo_weaken) (auto simp: loaded_alone_def)
qed

end
