(* ===== verification/KeyRingProps.thy ===== *)
theory KeyRingProps
  imports KeyRingSolo
begin

text \<open>
  The key ring's properties: no fork of the epoch chain under concurrency and crashes, recovery
  by the next load, the superseded key after a rotation, and what a refused rotation does.
\<close>

subsection \<open>Under concurrency\<close>

text \<open>
  C5: The chain of encryption epochs never forks. Processes that load, rotate, publish and
  decrypt on the same directory, interleaved file access by file access and dying anywhere,
  leave the identity, every elected public key with its link and every publication marker
  unchanged, and an epoch above the first is linked to the transcript of the one record that
  was signed for its predecessor.
\<close>
theorem key_chain_never_forks:
  assumes "ring_ok hash d" "(conc (key_programs hash))\<^sup>*\<^sup>* (d, {}, []) (d', used, ps)"
  shows "root_identity (kd_root d') = root_identity (kd_root d) \<and>
    (\<forall>e x. whole (kd_states d) e x \<longrightarrow> (\<exists>y. whole (kd_states d') e y \<and> state_pub y = state_pub x \<and> state_prev y = state_prev x)) \<and>
    (\<forall>e p. whole (kd_published d) e p \<longrightarrow> whole (kd_published d') e p) \<and>
    (\<forall>e x. whole (kd_states d') e x \<longrightarrow> e \<ge> 2 \<and> state_epoch x = e \<and>
       (\<exists>p q. whole (kd_published d') (e - 1) p \<and> whole (kd_pending d') (e - 1) q \<and>
          state_prev x = hash (kp_record q) \<and> pe_hash p = hash (kp_record q) \<and> ek_epoch (kp_record q) = e - 1 \<and>
          (e \<ge> 3 \<longrightarrow> (\<exists>y. whole (kd_states d') (e - 1) y \<and> state_pub y = ek_pub (kp_record q)))))"
proof (intro conjI allI impI)
  have ok: "ring_ok hash d'" and after: "ring_after d d'" using key_runs[OF assms(2,1)] by blast+
  obtain i where "root_identity (kd_root d) = Some i" using assms(1) by (auto simp: ring_ok_def successors_ok_def)
  then show "root_identity (kd_root d') = root_identity (kd_root d)" using root_identity_later[OF after] by simp
  show "\<exists>y. whole (kd_states d') e y \<and> state_pub y = state_pub x \<and> state_prev y = state_prev x"
    if "whole (kd_states d) e x" for e x
    using ring_after_state[OF after that] state_after_same by blast
  show "whole (kd_published d') e p" if "whole (kd_published d) e p" for e p
    using that after by (simp add: ring_after_def)
  fix e x assume x: "whole (kd_states d') e x"
  show "e \<ge> 2" "state_epoch x = e" using x ok unfolding ring_ok_def states_ok_def by blast+
  obtain p where p: "whole (kd_published d') (e - 1) p" "pe_hash p = state_prev x"
    using x ok unfolding ring_ok_def states_ok_def by blast
  then obtain q where q: "whole (kd_pending d') (e - 1) q" "pe_hash p = hash (kp_record q)"
    using ok unfolding ring_ok_def published_ok_def by blast
  then have "ek_epoch (kp_record q) = e - 1" "epoch_pub_ok (e - 1) (ek_pub (kp_record q)) (ek_prev (kp_record q)) d'"
    using ok unfolding ring_ok_def pending_ok_def by blast+
  then show "\<exists>p q. whole (kd_published d') (e - 1) p \<and> whole (kd_pending d') (e - 1) q \<and>
      state_prev x = hash (kp_record q) \<and> pe_hash p = hash (kp_record q) \<and> ek_epoch (kp_record q) = e - 1 \<and>
      (e \<ge> 3 \<longrightarrow> (\<exists>y. whole (kd_states d') (e - 1) y \<and> state_pub y = ek_pub (kp_record q)))"
    using p q unfolding epoch_pub_ok_def by (intro exI[of _ p] exI[of _ q]) (auto split: if_splits)
qed


subsection \<open>Rotation\<close>

lemma retire_ignores_marker: "retire_epoch (k\<lparr>rg_published := p\<rparr>) now = retire_epoch k now"
proof -
  have "retain_epoch (k\<lparr>rg_published := p\<rparr>) now = retain_epoch k now"
    by (simp add: retain_epoch_def retained_of_def)
  moreover have "retire_root (k\<lparr>rg_published := p\<rparr>) = retire_root k" "retire_active (k\<lparr>rg_published := p\<rparr>) = retire_active k"
    by (simp_all add: fun_eq_iff retire_root_def retire_active_def)
  ultimately show ?thesis by (simp add: retire_epoch_def)
qed

lemma retained_of_marker [simp]: "retained_of (k\<lparr>rg_published := p\<rparr>) now = retained_of k now"
  by (simp add: retained_of_def)

lemma retired_by_marker: "retired_by (k\<lparr>rg_published := p\<rparr>) now d d' = retired_by k now d d'"
  unfolding retired_by_def retained_of_marker by simp

lemma make_room_leaves:
  assumes "run_prog (make_room jobs now) d = (d', Inr ())" "untorn d"
  shows "\<exists>xs. d' = d\<lparr>kd_retained := xs\<rparr> \<and> untorn d' \<and> (\<forall>e. map_of xs e = None \<or> map_of xs e = map_of (kd_retained d) e)"
proof -
  have same: "run_prog list_retained_epochs d = (d1, r) \<Longrightarrow> d1 = d" for d1 r
  proof -
    have "fst (run_prog (each (\<lambda>e. and_then (read_slot kd_retained e)
        (\<lambda>x. and_then (require (rk_epoch x = e) KeysUnreadable) (\<lambda>_. succeed x))) es) d) = d" for es
      by (induction es) (auto simp: read_slot_def split: prod.splits sum.splits)
    then show "run_prog list_retained_epochs d = (d1, r) \<Longrightarrow> d1 = d"
      by (auto simp: list_retained_epochs_def read_epochs_def dest: arg_cong[where f = fst])
  qed
  have u: "\<exists>xs. d' = d\<lparr>kd_retained := xs\<rparr> \<and> untorn d' \<and> (\<forall>e. map_of xs e = None \<or> map_of xs e = map_of (kd_retained d) e)"
    if "d' = d \<or> (\<exists>e. d' = d\<lparr>kd_retained := AList.delete e (kd_retained d)\<rparr>)"
    using that
  proof (elim disjE exE)
    assume "d' = d"
    then show ?thesis using assms(2) by (intro exI[of _ "kd_retained d"]) simp
  next
    fix e assume "d' = d\<lparr>kd_retained := AList.delete e (kd_retained d)\<rparr>"
    then show ?thesis using assms(2)
      by (intro exI[of _ "AList.delete e (kd_retained d)"]) (simp add: untorn_def delete_conv')
  qed
  show ?thesis
    by (rule u) (use assms(1) same in \<open>auto simp: make_room_def Let_def unlink_retained_def split: prod.splits sum.splits if_splits\<close>)
qed

lemma newest_after_load:
  assumes "newest_epoch d e" "loaded_alone hash e k d d'"
  shows "newest_epoch d' e"
proof -
  have after: "ring_after d d'" and none: "map_of (kd_states d) f = None \<Longrightarrow> map_of (kd_states d') f = None" for f
    using assms(2) unfolding loaded_alone_def scrub_of_def by blast+
  have "kd_states d' = []" if "kd_states d = []"
  proof (rule ccontr)
    assume "kd_states d' \<noteq> []"
    then obtain f s xs where "kd_states d' = (f, s) # xs" by (cases "kd_states d'") auto
    then show False using none[of f] that by simp
  qed
  moreover have "\<exists>y. whole (kd_states d') e y" if "whole (kd_states d) e x" for x
    using ring_after_state[OF after that] by blast
  moreover have "f \<le> e" if "map_of (kd_states d') f \<noteq> None" for f
    using assms(1) none[of f] that unfolding newest_epoch_def by blast
  ultimately show ?thesis using assms(1) unfolding newest_epoch_def by blast
qed

text \<open>A retained key is what decryption of its epoch selects.\<close>

lemma retained_key_selected:
  assumes ok: "ring_ok hash d" and t: "untorn d" and r: "whole (kd_retained d) e r"
    and x: "whole (kd_states d) (e + 1) x" and until: "now < rk_until r"
  shows "\<exists>d' k. run_prog (load_encryption_keys_for_epoch e now) d = (d', Inr k) \<and> sk_epoch k = rk_epoch r \<and>
    sk_encryption_pkcs8 k = rk_pkcs8 r \<and> sk_encryption_pub k = rk_pub r"
proof -
  obtain n where n: "newest_epoch d n" using exists_newest[OF ok t] by blast
  have e: "rk_epoch r = e" "epoch_pub_ok e (rk_pub r) (rk_prev r) d" using ok r unfolding ring_ok_def retained_ok_def by blast+
  then have malformed: "(rk_epoch r = 1) = (rk_prev r = None)" by (auto simp: epoch_pub_ok_def split: if_splits)
  have "n \<ge> e + 1" using n x unfolding newest_epoch_def by blast
  obtain k d1 where k: "run_prog (load_keys now) d = (d1, Inr k)" "loaded_alone hash n k d d1"
    using load_keys_solo[OF ok t n, of now] by (auto simp: solo_def)
  then have d1: "ring_ok hash d1" "untorn d1" "whole (kd_retained d1) e r" "sk_epoch k \<noteq> e"
    using r \<open>n \<ge> e + 1\<close> unfolding loaded_alone_def scrub_of_def by auto
  have ret: "keyed (kd_retained d1)" "\<And>f s. whole (kd_retained d1) f s \<Longrightarrow> rk_epoch s = f"
    using d1(1) unfolding ring_ok_def retained_ok_def by blast+
  have "solo (\<lambda>xs d'. d' = d1 \<and> distinct (map rk_epoch xs) \<and> (\<forall>x. x \<in> set xs \<longleftrightarrow> (\<exists>e. whole (kd_retained d1) e x))) list_retained_epochs d1"
    unfolding list_retained_epochs_def by (rule solo_epochs) (use d1(2) ret in \<open>auto simp: untorn_def\<close>)
  then obtain all where all: "run_prog list_retained_epochs d1 = (d1, Inr all)" "distinct (map rk_epoch all)" "r \<in> set all"
    using d1(3) by (auto simp: solo_def)
  have "find (\<lambda>k. rk_epoch k = e) all = Some r"
    using all(2,3) e(1) by (induction all) (auto simp: image_iff)
  then show ?thesis using k(1) d1(4) all(1) until malformed e(1)
    by (auto simp: load_encryption_keys_for_epoch_def keys_of_retained_def)
qed

lemma solo_result: "solo R p d \<Longrightarrow> run_prog p d = (d', r) \<Longrightarrow> \<exists>x. r = Inr x \<and> R x d'"
  by (auto simp: solo_def)

text \<open>The election alone: the candidate wins, the base is retained and retired, the candidate is loaded.\<close>

lemma elect_epoch_solo:
  assumes ok: "ring_ok hash d" and t: "untorn d" and n: "newest_epoch d (sk_epoch base)"
    and base: "ring_loaded base d" "rg_published base = Some link" "private_in_place (base\<lparr>rg_published := p\<rparr>) d"
    and ret: "map_of (kd_retained d) (sk_epoch base) = None"
  shows "solo (\<lambda>k d'. sk_epoch k = sk_epoch base + 1 \<and> ring_ok hash d' \<and> untorn d' \<and> (\<exists>x. whole (kd_states d') (sk_epoch base + 1) x) \<and>
      whole (kd_retained d') (sk_epoch base) (retained_of base now)) (elect_epoch base link now pkcs8 pub) d"
proof -
  let ?e = "sk_epoch base" and ?c = "rotation_candidate base link pkcs8 pub"
  let ?install = "install_first_writer_wins kd_states kd_states_update (?e + 1) (EpochActive ?c)"
  let ?d1 = "d\<lparr>kd_states := AList.update (?e + 1) (Whole (EpochActive ?c)) (kd_states d @ [(?e + 1, Torn)])\<rparr>"
  have pos: "?e \<ge> 1" using published_epoch_loaded[OF ok base(1,2)] by blast
  have none: "map_of (kd_states d) (?e + 1) = None" using n unfolding newest_epoch_def by force
  then have run: "run_prog ?install d = (?d1, Inr ())"
    by (cases d) (simp add: install_first_writer_wins_def map_add_def)
  have m: "map_of (kd_states ?d1) f = (if f = ?e + 1 then Some (Whole (EpochActive ?c)) else map_of (kd_states d) f)" for f
    by (auto simp: update_conv' map_add_def split: option.splits)
  have keep: "ring_after d ?d1 \<and> ring_ok hash ?d1"
    using ring.keeps_run[OF elect_does[OF ok base(1,2)] ok run] by blast
  have t1: "untorn ?d1" using t m unfolding untorn_def by (simp del: map_of_append)
  have w: "whole (kd_states ?d1) (?e + 1) (EpochActive ?c)" using m by simp
  have p1: "private_in_place (base\<lparr>rg_published := p\<rparr>) ?d1"
    using base(3)[unfolded private_in_place_def]
  proof (elim disjE exE conjE)
    fix i a assume a: "whole (kd_states d) (ae_epoch a) (EpochActive a)" "ae_epoch a \<ge> 2" "base\<lparr>rg_published := p\<rparr> = keys_of_active i a"
    have "sk_epoch (base\<lparr>rg_published := p\<rparr>) = ae_epoch a" unfolding a(3) by (simp add: keys_of_active_def)
    then have "ae_epoch a = ?e" by simp
    then have "whole (kd_states ?d1) (ae_epoch a) (EpochActive a)" using a(1) m by simp
    then show ?thesis using a(2,3) unfolding private_in_place_def by blast
  qed (simp add: private_in_place_def)
  have l1: "epoch_loaded base ?d1" using ring_loaded_later[OF base(1)] keep by (simp add: ring_loaded_def)
  have s1: "succeeded ?e ?d1" using w unfolding succeeded_def by blast
  have "solo (\<lambda>_ d'. retired_by base now ?d1 d' \<and> True \<and> ring_after ?d1 d' \<and> ring_ok hash d') (retire_epoch base now) ?d1"
  proof (rule solo_keeps)
    show "solo (\<lambda>_ d'. retired_by base now ?d1 d') (retire_epoch base now) ?d1"
      using retire_solo[OF conjunct2[OF keep] t1 p1, of now] unfolding retire_ignores_marker retired_by_marker .
    show "ring_does hash (\<lambda>_ _. True) (retire_epoch base now) ?d1" using keep l1 s1 by (auto intro: retire_does)
  qed (use keep in blast)
  then have retire: "solo (\<lambda>_ d2. retired_by base now ?d1 d2 \<and> ring_ok hash d2 \<and> newest_epoch d2 (?e + 1)) (retire_epoch base now) ?d1"
  proof (rule solo_weaken)
    fix x d2 assume r: "retired_by base now ?d1 d2 \<and> True \<and> ring_after ?d1 d2 \<and> ring_ok hash d2"
    then have "whole (kd_states d2) (?e + 1) (EpochActive ?c)" using w unfolding retired_by_def by simp
    moreover have "f \<le> ?e + 1" if "map_of (kd_states d2) f \<noteq> None" for f
    proof (cases "f = ?e")
      case False
      then have "map_of (kd_states ?d1) f \<noteq> None" using that r unfolding retired_by_def by simp
      then show ?thesis using n m[of f] unfolding newest_epoch_def by (cases "f = ?e + 1") force+
    qed simp
    ultimately show "retired_by base now ?d1 d2 \<and> ring_ok hash d2 \<and> newest_epoch d2 (?e + 1)"
      using r unfolding newest_epoch_def by blast
  qed
  have load: "solo (\<lambda>k d'. sk_epoch k = ?e + 1 \<and> ring_ok hash d' \<and> untorn d' \<and> (\<exists>x. whole (kd_states d') (?e + 1) x) \<and>
      whole (kd_retained d') ?e (retained_of base now)) (load_keys now) d2"
    if d2: "retired_by base now ?d1 d2 \<and> ring_ok hash d2 \<and> newest_epoch d2 (?e + 1)" for d2
  proof -
    have r: "whole (kd_retained d2) ?e (retained_of base now)" "untorn d2"
      using d2 ret unfolding retired_by_def by simp_all
    obtain x where x: "whole (kd_states d2) (?e + 1) x" using d2 pos unfolding newest_epoch_def by auto
    have "solo (\<lambda>k d'. loaded_alone hash (?e + 1) k d2 d') (load_keys now) d2"
      using d2 r(2) by (intro load_keys_solo) auto
    then show ?thesis
    proof (rule solo_weaken)
      fix k d' assume l: "loaded_alone hash (?e + 1) k d2 d'"
      then have "\<exists>y. whole (kd_states d') (?e + 1) y" using ring_after_state[OF _ x] unfolding loaded_alone_def by blast
      then show "sk_epoch k = ?e + 1 \<and> ring_ok hash d' \<and> untorn d' \<and> (\<exists>x. whole (kd_states d') (?e + 1) x) \<and>
          whole (kd_retained d') ?e (retained_of base now)"
        using l r(1) unfolding loaded_alone_def scrub_of_def by blast
    qed
  qed
  have elected: "solo (\<lambda>el d'. el = EpochActive ?c \<and> d' = ?d1) (read_slot kd_states (?e + 1)) ?d1"
    by (rule solo_slot[where family = kd_states, OF w]) simp
  have installed: "solo (\<lambda>_ d'. d' = ?d1) ?install d" by (simp add: solo_def run)
  show ?thesis unfolding elect_epoch_def Let_def
  proof (rule solo_and_then[OF installed], simp only:, rule solo_and_then[OF elected], elim conjE, simp only: epoch_state.case,
      rule solo_and_then[OF solo_require[where R = "\<lambda>_ d'. d' = ?d1"]], simp add: rotation_candidate_def, rule refl, simp only:)
  qed (rule solo_and_then[OF retire load])
qed

text \<open>
  A rotation loses nothing. When a rotation of a published epoch succeeds, the new epoch is
  the next one, and a message that a peer sealed to the old key can still be opened: until the
  retention time is over, decryption selects the private key that was current before.
\<close>
theorem rotation_keeps_old_key:
  assumes "ring_ok hash d" "untorn d" and base: "run_prog (load_keys now) d = (d1, Inr base)"
    and rotated: "run_prog (rotate_encryption_key jobs now pkcs8 pub) d = (d', Inr k)"
    and ret: "map_of (kd_retained d1) (sk_epoch base) = None" and later: "t < now + RETAINED_KEY_TTL_MS"
  shows "sk_epoch k = sk_epoch base + 1 \<and> (\<exists>d'' k'. run_prog (load_encryption_keys_for_epoch (sk_epoch base) t) d' = (d'', Inr k') \<and>
    sk_epoch k' = sk_epoch base \<and> sk_encryption_pkcs8 k' = sk_encryption_pkcs8 base \<and> sk_encryption_pub k' = sk_encryption_pub base)"
proof -
  let ?e = "sk_epoch base"
  obtain e where n: "newest_epoch d e" using exists_newest[OF assms(1,2)] by blast
  have l: "loaded_alone hash e base d d1" using solo_result[OF load_keys_solo[OF assms(1,2) n] base] by simp
  obtain d2 where room: "run_prog (make_room jobs now) d1 = (d2, Inr ())" and link: "rg_published base \<noteq> None"
    and el: "run_prog (elect_epoch base (the (rg_published base)) now pkcs8 pub) d2 = (d', Inr k)"
    using rotated base by (auto simp: rotate_encryption_key_def split: prod.splits sum.splits option.splits)
  obtain link where lk: "rg_published base = Some link" using link by blast
  obtain xs where xs: "d2 = d1\<lparr>kd_retained := xs\<rparr>" "untorn d2" "\<forall>e. map_of xs e = None \<or> map_of xs e = map_of (kd_retained d1) e"
    using make_room_leaves[OF room] l unfolding loaded_alone_def scrub_of_def by blast
  have k2: "ring_ok hash d2" "ring_after d1 d2"
    using ring.keeps_run[OF make_room_does _ room] l unfolding loaded_alone_def by blast+
  have b2: "ring_loaded base d2" using ring_loaded_later[OF _ k2(2)] l unfolding loaded_alone_def by blast
  obtain p where p: "private_in_place (base\<lparr>rg_published := p\<rparr>) d2"
    using l xs(1) unfolding loaded_alone_def scrub_of_def private_in_place_def by simp blast
  have n2: "newest_epoch d2 ?e" using newest_after_load[OF n l] l xs(1) unfolding newest_epoch_def loaded_alone_def by simp
  have "solo (\<lambda>k d'. sk_epoch k = ?e + 1 \<and> ring_ok hash d' \<and> untorn d' \<and> (\<exists>x. whole (kd_states d') (?e + 1) x) \<and>
      whole (kd_retained d') ?e (retained_of base now)) (elect_epoch base link now pkcs8 pub) d2"
    by (rule elect_epoch_solo[OF k2(1) xs(2) n2 b2 lk p]) (use ret xs in auto)
  from solo_result[OF this] el lk
  have r: "sk_epoch k = ?e + 1" "ring_ok hash d'" "untorn d'" "\<exists>x. whole (kd_states d') (?e + 1) x"
    "whole (kd_retained d') ?e (retained_of base now)" by auto
  obtain x where "whole (kd_states d') (?e + 1) x" using r(4) by blast
  from retained_key_selected[OF r(2,3,5) this, of t] show ?thesis using later r(1) by (auto simp: retained_of_def)
qed

text \<open>
  C33: A rotation that is refused may still have destroyed a key. At the limit of live epochs
  room is made before the publication of the current epoch is checked, so a rotation that
  fails because that epoch was never published has already deleted the oldest retained
  decryption key, which was live and which nothing replaces.
\<close>
theorem refused_rotation_drops_key:
  assumes "run_prog (load_keys now) d = (d1, Inr base)" "rg_published base = None"
    and "run_prog list_retained_epochs d1 = (d1, Inr all)"
    and "live = filter (\<lambda>k. now < rk_until k) all" "length live + 1 \<ge> MAX_LIVE_ENCRYPTION_EPOCHS"
    and "\<forall>j\<in>set jobs. oj_expires_at j \<le> now \<or> oj_sender_epoch j \<noteq> rk_epoch (oldest_retained live)"
  shows "run_prog (rotate_encryption_key jobs now pkcs8 pub) d =
    (d1\<lparr>kd_retained := AList.delete (rk_epoch (oldest_retained live)) (kd_retained d1)\<rparr>, Inl NotPublished)"
proof -
  have none: "filter (\<lambda>j. oj_expires_at j > now \<and> oj_sender_epoch j = rk_epoch (oldest_retained live)) jobs = []"
    using assms(6) by (auto simp: filter_empty_conv)
  have "run_prog (make_room jobs now) d1 =
    (d1\<lparr>kd_retained := AList.delete (rk_epoch (oldest_retained live)) (kd_retained d1)\<rparr>, Inr ())"
    unfolding make_room_def run_and_then assms(3) prod.case sum.case Let_def assms(4)[symmetric] none
    using assms(5) by (simp add: unlink_retained_def)
  then show ?thesis by (simp add: rotate_encryption_key_def assms(1,2))
qed

end
