(* ===== verification/KeyRingSamples.thy ===== *)
theory KeyRingSamples
  imports KeyRingProps
begin

text \<open>
  The key ring's properties applied to a concrete installation: keys are generated, published
  and rotated; and eight epochs later a rotation is refused.
\<close>

definition ring_sample_identity :: identity_keys where
  "ring_sample_identity = \<lparr>id_pkcs8 = ''ik'', id_pub = ''ip''\<rparr>"

definition first_ring :: key_dir where
  "first_ring = \<lparr>kd_root = Some (RootInitial ring_sample_identity ''k1'' ''p1''), kd_states = [], kd_retained = [],
     kd_published = [], kd_pending = []\<rparr>"

definition sample_hash :: "encryption_key_record \<Rightarrow> string" where
  "sample_hash r = replicate 32 (if ek_epoch r = 1 then CHR ''a'' else CHR ''b'')"

definition sample_sign :: "ring_keys \<Rightarrow> key_publication" where
  "sample_sign k = \<lparr>kp_record = record_for id ''r'' ''me@org'' 1000 k, kp_signature = ''s''\<rparr>"

definition published_ring :: key_dir where
  "published_ring = fst (run_prog (publish_encryption_key sample_sign sample_hash (\<lambda>_. True) 1000) first_ring)"

definition rotated_ring :: key_dir where
  "rotated_ring = fst (run_prog (rotate_encryption_key [] 2000 ''k2'' ''p2'') published_ring)"

lemma first_ring_ok: "ring_ok sample_hash first_ring"
  by (simp add: ring_defs first_ring_def keyed_def)

lemma sample_run: "(conc (key_programs sample_hash))\<^sup>*\<^sup>* (first_ring, {}, []) (rotated_ring, {1, 0}, [])"
proof -
  have "forget (publish_encryption_key sample_sign sample_hash (\<lambda>_. True) 1000) \<in>
      range (\<lambda>(sign_for, sent, now). forget (publish_encryption_key sign_for sample_hash sent now))"
    by (rule image_eqI[where x = "(sample_sign, \<lambda>_. True, 1000)"]) simp_all
  then have p: "(0, forget (publish_encryption_key sample_sign sample_hash (\<lambda>_. True) 1000)) \<in> key_programs sample_hash"
    unfolding key_programs_def by (intro SigmaI UNIV_I) (simp only: Un_iff simp_thms)
  have "forget (rotate_encryption_key [] 2000 ''k2'' ''p2'') \<in>
      range (\<lambda>(jobs, now, pkcs8, pub). forget (rotate_encryption_key jobs now pkcs8 pub))"
    by (rule image_eqI[where x = "([], 2000, ''k2'', ''p2'')"]) simp_all
  then have q: "(1, forget (rotate_encryption_key [] 2000 ''k2'' ''p2'')) \<in> key_programs sample_hash"
    unfolding key_programs_def by (intro SigmaI UNIV_I) (simp only: Un_iff simp_thms)
  have "run_prog (forget q) d = (fst (run_prog q d), ())" for q :: "'b key_op" and d
    by (simp add: forget_def split: prod.splits)
  then have "run_prog (forget (publish_encryption_key sample_sign sample_hash (\<lambda>_. True) 1000)) first_ring = (published_ring, ())"
    "run_prog (forget (rotate_encryption_key [] 2000 ''k2'' ''p2'')) published_ring = (rotated_ring, ())"
    by (simp_all add: published_ring_def rotated_ring_def)
  from conc_alone[OF p _ this(1), of "{}"] conc_alone[OF q _ this(2), of "{0}"] show ?thesis by simp
qed

lemma rotated_ring_eq:
  "rotated_ring = \<lparr>kd_root = Some (RootStable ring_sample_identity),
     kd_states = [(2, Whole (EpochActive \<lparr>ae_pkcs8 = ''k2'', ae_pub = ''p2'', ae_epoch = 2, ae_prev = replicate 32 CHR ''a''\<rparr>))],
     kd_retained = [(1, Whole \<lparr>rk_pkcs8 = ''k1'', rk_pub = ''p1'', rk_epoch = 1, rk_prev = None, rk_until = 2000 + RETAINED_KEY_TTL_MS\<rparr>)],
     kd_published = [(1, Whole \<lparr>pe_epoch = 1, pe_pub = ''p1'', pe_prev = None, pe_hash = replicate 32 CHR ''a''\<rparr>)],
     kd_pending = [(1, Whole (sample_sign (keys_of_initial ring_sample_identity ''k1'' ''p1'')))]\<rparr>"
  by code_simp

lemma key_chain_never_forks_witness:
  "\<exists>p q. whole (kd_published rotated_ring) 1 p \<and> whole (kd_pending rotated_ring) 1 q \<and>
     pe_hash p = sample_hash (kp_record q) \<and> ek_epoch (kp_record q) = 1"
proof -
  have "whole (kd_states rotated_ring) 2 (EpochActive \<lparr>ae_pkcs8 = ''k2'', ae_pub = ''p2'', ae_epoch = 2, ae_prev = replicate 32 CHR ''a''\<rparr>)"
    by (simp add: rotated_ring_eq)
  with key_chain_never_forks[OF first_ring_ok sample_run] show ?thesis by fastforce
qed

lemma rotated_untorn: "untorn rotated_ring"
  by (simp add: untorn_def rotated_ring_eq)


lemma published_ring_ok: "ring_ok sample_hash published_ring" "untorn published_ring"
proof -
  have "run_prog (publish_encryption_key sample_sign sample_hash (\<lambda>_. True) 1000) first_ring = (published_ring, Inr ())"
    by code_simp
  from ring.keeps_run[OF publish_does[OF first_ring_ok] first_ring_ok this] show "ring_ok sample_hash published_ring" by blast
  have "published_ring = first_ring\<lparr>
     kd_published := [(1, Whole \<lparr>pe_epoch = 1, pe_pub = ''p1'', pe_prev = None, pe_hash = replicate 32 CHR ''a''\<rparr>)],
     kd_pending := [(1, Whole (sample_sign (keys_of_initial ring_sample_identity ''k1'' ''p1'')))]\<rparr>"
    by code_simp
  from this show "untorn published_ring" by (elim ssubst) (simp add: untorn_def first_ring_def)
qed

definition base_keys :: ring_keys where
  "base_keys = (keys_of_initial ring_sample_identity ''k1'' ''p1'')\<lparr>rg_published := Some (replicate 32 CHR ''a'')\<rparr>"

definition second_keys :: ring_keys where
  "second_keys = keys_of_active ring_sample_identity \<lparr>ae_pkcs8 = ''k2'', ae_pub = ''p2'', ae_epoch = 2, ae_prev = replicate 32 CHR ''a''\<rparr>"

lemma rotation_keeps_old_key_witness:
  "\<exists>d k. run_prog (load_encryption_keys_for_epoch 1 2001) rotated_ring = (d, Inr k) \<and> sk_encryption_pkcs8 k = ''k1''"
proof -
  have "run_prog (load_keys 2000) published_ring = (published_ring, Inr base_keys)"
    "run_prog (rotate_encryption_key [] 2000 ''k2'' ''p2'') published_ring = (rotated_ring, Inr second_keys)"
    "map_of (kd_retained published_ring) (sk_epoch base_keys) = None" "(2001 :: int) < 2000 + RETAINED_KEY_TTL_MS"
    by code_simp+
  from rotation_keeps_old_key[OF published_ring_ok this] show ?thesis
    by (auto simp: base_keys_def keys_of_initial_def)
qed

text \<open>Eight epochs, of which the newest was never published.\<close>

definition sample_retained :: "int \<Rightarrow> retained_key" where
  "sample_retained e = \<lparr>rk_pkcs8 = ''k'', rk_pub = ''p'', rk_epoch = e, rk_prev = (if e = 1 then None else Some ''h''), rk_until = 9000\<rparr>"

definition full_ring :: key_dir where
  "full_ring = \<lparr>kd_root = Some (RootStable ring_sample_identity),
     kd_states = [(8, Whole (EpochActive \<lparr>ae_pkcs8 = ''k8'', ae_pub = ''p8'', ae_epoch = 8, ae_prev = ''h''\<rparr>))],
     kd_retained = map (\<lambda>e. (e, Whole (sample_retained e))) [1, 2, 3, 4, 5, 6, 7],
     kd_published = [], kd_pending = []\<rparr>"

definition eighth_keys :: ring_keys where
  "eighth_keys = keys_of_active ring_sample_identity \<lparr>ae_pkcs8 = ''k8'', ae_pub = ''p8'', ae_epoch = 8, ae_prev = ''h''\<rparr>"

lemma refused_rotation_drops_key_witness:
  "run_prog (rotate_encryption_key [] 2000 ''k9'' ''p9'') full_ring =
    (full_ring\<lparr>kd_retained := AList.delete 1 (kd_retained full_ring)\<rparr>, Inl NotPublished)"
proof -
  have "run_prog (load_keys 2000) full_ring = (full_ring, Inr eighth_keys)" "rg_published eighth_keys = None"
    "run_prog list_retained_epochs full_ring = (full_ring, Inr (map sample_retained [1, 2, 3, 4, 5, 6, 7]))"
    "map sample_retained [1, 2, 3, 4, 5, 6, 7] = filter (\<lambda>k. (2000 :: int) < rk_until k) (map sample_retained [1, 2, 3, 4, 5, 6, 7])"
    "MAX_LIVE_ENCRYPTION_EPOCHS \<le> length (map sample_retained [1, 2, 3, 4, 5, 6, 7]) + 1"
    "rk_epoch (oldest_retained (map sample_retained [1, 2, 3, 4, 5, 6, 7])) = 1"
    by code_simp+
  with refused_rotation_drops_key[OF this(1-5), of "[]"] show ?thesis by simp
qed

end
