(* ===== verification/RecoveryClient.thy ===== *)
theory RecoveryClient
  imports FileLock RelaySecurity
begin

text \<open>
  Credential recovery at the client, \<open>packages/cli/src/commands/recovery.ts\<close>: the new token is
  written to a pending file before the relay is asked, and replaces the credential in the
  configuration only when the relay's receipt is for this very operation. The state is the
  two files and the database of the relay; a process may die between any two actions.
\<close>

datatype 'a local_file = FileAbsent | FileIrregular | FileCorrupt | FileHolds 'a

record client_config =
  cc_org :: string
  cc_handle :: string
  cc_token :: string
  cc_relay :: string
  cc_agent_kind :: "agent_kind option"

record pending_recovery =
  pv_org :: string
  pv_handle :: string
  pv_relay :: string
  pv_generation :: int
  pv_operation_id :: string
  pv_candidate_token :: string
  pv_candidate_digest :: string
  pv_client_public_id :: string
  pv_successor_digest :: string
  pv_successor_public_id :: string

definition pending_recovery_ok :: "(string \<Rightarrow> bool) \<Rightarrow> pending_recovery \<Rightarrow> bool" where
  "pending_recovery_ok url_ok p =
     (org_re (pv_org p) \<and> handle_re (pv_handle p) \<and> url_ok (pv_relay p) \<and> 0 < pv_generation p \<and>
      recovery_operation_id_re (pv_operation_id p) \<and> 32 \<le> length (pv_candidate_token p) \<and>
      sha256_hex_re (pv_candidate_digest p) \<and> client_public_id_re (pv_client_public_id p) \<and>
      sha256_hex_re (pv_successor_digest p) \<and> recovery_public_id_re (pv_successor_public_id p))"

record recovery_world =
  rw_config :: "client_config local_file"
  rw_pending :: "pending_recovery local_file"
  rw_relay :: relay_db

record recovery_target =
  rt_org :: "string option"
  rt_handle :: "string option"
  rt_relay :: "string option"
  rt_generation :: "int option"
  rt_resume :: bool

text \<open>What the owner types at the prompts, and the fresh secrets of the process.\<close>

record recovery_answers =
  ra_saved :: string
  ra_current :: string
  ra_successor :: string

record recovery_secrets =
  rx_candidate :: string
  rx_successor :: string
  rx_operation :: string

datatype recovery_error =
  ForeignInstallation | TargetIncomplete | NoPending | PendingIrregular | PendingCorrupt | SuccessorMismatch
| PendingExists | GenerationMissing | NotSaved | ProofInvalid | OtherReceipt | ConfigUnreadable | NetworkFailure
| RelayAnswered nat | NoInstallation

type_synonym 'a recovery_op = "(recovery_world, recovery_error + 'a) prog"

definition normalize_relay :: "string \<Rightarrow> string" where
  "normalize_relay url = rev (dropWhile (\<lambda>c. c = CHR ''/'') (rev url))"

definition recovery_identity :: "client_config option \<Rightarrow> recovery_target \<Rightarrow> recovery_error + string \<times> string \<times> string" where
  "recovery_identity config t =
     (if (case config of None \<Rightarrow> False
          | Some c \<Rightarrow> rt_org t \<noteq> None \<and> rt_org t \<noteq> Some (cc_org c) \<or> rt_handle t \<noteq> None \<and> rt_handle t \<noteq> Some (cc_handle c) \<or>
              (case rt_relay t of None \<Rightarrow> False | Some r \<Rightarrow> normalize_relay r \<noteq> normalize_relay (cc_relay c)))
      then Inl ForeignInstallation
      else let pick = (\<lambda>given own. case given of Some x \<Rightarrow> x | None \<Rightarrow> (case config of None \<Rightarrow> '''' | Some c \<Rightarrow> own c));
               org = pick (rt_org t) cc_org; handle = pick (rt_handle t) cc_handle; relay = pick (rt_relay t) cc_relay
           in if org = [] \<or> handle = [] \<or> relay = [] then Inl TargetIncomplete
              else Inr (org, handle, normalize_relay relay))"

definition same_installation :: "client_config option \<Rightarrow> pending_recovery \<Rightarrow> bool" where
  "same_installation config p = (case config of None \<Rightarrow> True
   | Some c \<Rightarrow> cc_org c = pv_org p \<and> cc_handle c = pv_handle p \<and> normalize_relay (cc_relay c) = normalize_relay (pv_relay p))"

definition read_pending :: "(string \<Rightarrow> bool) \<Rightarrow> pending_recovery recovery_op" where
  "read_pending url_ok = reads (\<lambda>w. case rw_pending w of
     FileAbsent \<Rightarrow> Inl NoPending
   | FileIrregular \<Rightarrow> Inl PendingIrregular
   | FileCorrupt \<Rightarrow> Inl PendingCorrupt
   | FileHolds p \<Rightarrow> if pending_recovery_ok url_ok p then Inr p else Inl PendingCorrupt)"

definition make_pending ::
  "relay_env \<Rightarrow> client_config option \<Rightarrow> recovery_target \<Rightarrow> recovery_secrets \<Rightarrow> recovery_error + pending_recovery" where
  "make_pending env config t x = (case recovery_identity config t of
     Inl e \<Rightarrow> Inl e
   | Inr (org, handle, relay) \<Rightarrow>
       (case rt_generation t of
          None \<Rightarrow> Inl GenerationMissing
        | Some g \<Rightarrow>
            if g = 0 then Inl GenerationMissing
            else (let candidate_digest = sha256_hex env (rx_candidate x); successor_digest = sha256_hex env (rx_successor x)
                  in Inr \<lparr>pv_org = org, pv_handle = handle, pv_relay = relay, pv_generation = g,
                       pv_operation_id = rx_operation x, pv_candidate_token = rx_candidate x,
                       pv_candidate_digest = candidate_digest, pv_client_public_id = public_id ''act'' candidate_digest,
                       pv_successor_digest = successor_digest,
                       pv_successor_public_id = public_id ''agr'' successor_digest\<rparr>)))"

definition exact_client_receipt :: "receipt_json \<Rightarrow> pending_recovery \<Rightarrow> bool" where
  "exact_client_receipt r p =
     (rj_org r = pv_org p \<and> rj_handle r = pv_handle p \<and> rj_operation_id r = pv_operation_id p \<and>
      rj_consumed_generation r = pv_generation p \<and> rj_recovery_generation r = pv_generation p + 1 \<and>
      rj_client_public_id r = pv_client_public_id p \<and> rj_recovery_public_id r = pv_successor_public_id p)"

subsection \<open>The request\<close>

definition redeem_request_of :: "pending_recovery \<Rightarrow> string \<Rightarrow> redeem_request" where
  "redeem_request_of p proof_text =
     \<lparr>rm_org = pv_org p, rm_handle = pv_handle p, rm_generation = pv_generation p, rm_current_proof = proof_text,
      rm_operation_id = pv_operation_id p, rm_client_token_digest = pv_candidate_digest p,
      rm_client_public_id = pv_client_public_id p, rm_successor_digest = pv_successor_digest p,
      rm_successor_public_id = pv_successor_public_id p\<rparr>"

definition redeem_body :: "redeem_request \<Rightarrow> js_value" where
  "redeem_body q = JObj
     [(''org'', JStr (rm_org q)), (''handle'', JStr (rm_handle q)), (''generation'', JNum (rm_generation q)),
      (''current_recovery_proof'', JStr (rm_current_proof q)), (''operation_id'', JStr (rm_operation_id q)),
      (''client_token_digest'', JStr (rm_client_token_digest q)), (''client_public_id'', JStr (rm_client_public_id q)),
      (''successor_recovery_digest'', JStr (rm_successor_digest q)),
      (''successor_recovery_public_id'', JStr (rm_successor_public_id q))]"

text \<open>
  One exchange with the relay: its handler runs on its database, the fates are those of its
  batches, and the reply may be lost on the way back.
\<close>

record relay_exchange =
  xc_env :: relay_env
  xc_accepts :: "evict_call \<Rightarrow> bool"
  xc_evict_fate :: batch_fate
  xc_fate :: batch_fate
  xc_admit :: admission
  xc_headers :: request_headers
  xc_now :: int
  xc_lost :: bool

definition relay_reply :: "bool \<Rightarrow> 'a http \<Rightarrow> recovery_error + 'a" where
  "relay_reply lost r = (if lost then Inl NetworkFailure else case r of
     Ok x \<Rightarrow> Inr x | Refuse status _ \<Rightarrow> Inl (RelayAnswered status) | Uncaught \<Rightarrow> Inl (RelayAnswered 500))"

definition redeem_recovery :: "relay_exchange \<Rightarrow> redeem_request \<Rightarrow> receipt_json recovery_op" where
  "redeem_recovery x q = act (\<lambda>w.
     case recovery_redeem (xc_env x) (xc_accepts x) (xc_evict_fate x) (xc_fate x) (xc_admit x) (xc_headers x)
            (Some (redeem_body q)) (xc_now x) (rw_relay w) (rw_relay w) (\<lambda>d. d) of
       (db, reply) \<Rightarrow> (w\<lparr>rw_relay := db\<rparr>, relay_reply (xc_lost x) reply))"

subsection \<open>Redeeming\<close>

definition write_pending :: "pending_recovery \<Rightarrow> unit recovery_op" where
  "write_pending p = act (\<lambda>w. (w\<lparr>rw_pending := FileHolds p\<rparr>, Inr ()))"

definition remove_pending :: "unit recovery_op" where
  "remove_pending = act (\<lambda>w. (w\<lparr>rw_pending := FileAbsent\<rparr>, Inr ()))"

definition write_config :: "client_config \<Rightarrow> unit recovery_op" where
  "write_config c = act (\<lambda>w. (w\<lparr>rw_config := FileHolds c\<rparr>, Inr ()))"

definition recovered_config :: "client_config option \<Rightarrow> pending_recovery \<Rightarrow> receipt_json \<Rightarrow> client_config" where
  "recovered_config config p r = (case config of
     Some c \<Rightarrow> c\<lparr>cc_org := pv_org p, cc_handle := pv_handle p, cc_relay := pv_relay p, cc_token := pv_candidate_token p\<rparr>
   | None \<Rightarrow> \<lparr>cc_org = pv_org p, cc_handle = pv_handle p, cc_token = pv_candidate_token p, cc_relay = pv_relay p,
       cc_agent_kind = rj_agent_kind r\<rparr>)"

definition finish_redeem ::
  "relay_exchange \<Rightarrow> client_config option \<Rightarrow> pending_recovery \<Rightarrow> string \<Rightarrow> client_config recovery_op" where
  "finish_redeem x config p proof_text =
     and_then (require (32 \<le> length proof_text) ProofInvalid) (\<lambda>_.
     and_then (redeem_recovery x (redeem_request_of p proof_text)) (\<lambda>receipt.
     and_then (require (exact_client_receipt receipt p) OtherReceipt) (\<lambda>_.
     and_then (require (same_installation config p) ForeignInstallation) (\<lambda>_.
     and_then (write_config (recovered_config config p receipt)) (\<lambda>_.
     and_then remove_pending (\<lambda>_. succeed (recovered_config config p receipt)))))))"

definition resume_redeem ::
  "(string \<Rightarrow> bool) \<Rightarrow> relay_exchange \<Rightarrow> client_config option \<Rightarrow> recovery_answers \<Rightarrow> client_config recovery_op" where
  "resume_redeem url_ok x config a =
     and_then (read_pending url_ok) (\<lambda>p.
     and_then (require (same_installation config p) ForeignInstallation) (\<lambda>_.
     and_then (require (sha256_hex (xc_env x) (js_trim (ra_successor a)) = pv_successor_digest p) SuccessorMismatch) (\<lambda>_.
     finish_redeem x config p (js_trim (ra_current a)))))"

definition start_redeem ::
  "relay_exchange \<Rightarrow> client_config option \<Rightarrow> recovery_target \<Rightarrow> recovery_answers \<Rightarrow> recovery_secrets \<Rightarrow> client_config recovery_op" where
  "start_redeem x config t a s =
     and_then (bindp (reads rw_pending) (\<lambda>f. require (f = FileAbsent) PendingExists)) (\<lambda>_.
     case make_pending (xc_env x) config t s of
       Inl e \<Rightarrow> raise e
     | Inr p \<Rightarrow>
         and_then (require (js_trim (ra_saved a) = ''SAVED'') NotSaved) (\<lambda>_.
         and_then (write_pending p) (\<lambda>_.
         finish_redeem x config p (js_trim (ra_current a)))))"

definition redeem_locked ::
  "(string \<Rightarrow> bool) \<Rightarrow> relay_exchange \<Rightarrow> client_config option \<Rightarrow> recovery_target \<Rightarrow> recovery_answers \<Rightarrow> recovery_secrets
   \<Rightarrow> client_config recovery_op" where
  "redeem_locked url_ok x config t a s =
     (if rt_resume t then resume_redeem url_ok x config a else start_redeem x config t a s)"

text \<open>The configuration is read under its lock; a missing one is no error.\<close>

definition run_recovery_redeem ::
  "(string \<Rightarrow> bool) \<Rightarrow> relay_exchange \<Rightarrow> recovery_target \<Rightarrow> recovery_answers \<Rightarrow> recovery_secrets \<Rightarrow> client_config recovery_op" where
  "run_recovery_redeem url_ok x t a s = bindp (reads rw_config) (\<lambda>c. case c of
     FileAbsent \<Rightarrow> redeem_locked url_ok x None t a s
   | FileHolds config \<Rightarrow> redeem_locked url_ok x (Some config) t a s
   | _ \<Rightarrow> raise ConfigUnreadable)"

subsection \<open>Issuing a proof\<close>

definition issue_body :: "int \<Rightarrow> string \<Rightarrow> js_value" where
  "issue_body g digest = JObj
     [(''expected_generation'', JNum g), (''successor_recovery_digest'', JStr digest),
      (''successor_recovery_public_id'', JStr (public_id ''agr'' digest))]"

text \<open>The relay answers an authenticated client only; \<open>xc_headers\<close> carries the credential.\<close>

definition get_recovery_status :: "relay_exchange \<Rightarrow> recovery_status recovery_op" where
  "get_recovery_status x = reads (\<lambda>w. case authenticate_request (xc_env x) (rw_relay w) (xc_headers x) of
     None \<Rightarrow> Inl (RelayAnswered 401) | Some i \<Rightarrow> relay_reply (xc_lost x) (Ok (recovery_status i (rw_relay w))))"

definition issue_recovery :: "relay_exchange \<Rightarrow> int \<Rightarrow> string \<Rightarrow> (int \<times> string) recovery_op" where
  "issue_recovery x g digest = act (\<lambda>w. case authenticate_request (xc_env x) (rw_relay w) (xc_headers x) of
     None \<Rightarrow> (w, Inl (RelayAnswered 401))
   | Some i \<Rightarrow> (case recovery_issue (xc_env x) (xc_fate x) (xc_admit x) i (xc_headers x) (Some (issue_body g digest))
          (xc_now x) (rw_relay w) of (db, reply) \<Rightarrow> (w\<lparr>rw_relay := db\<rparr>, relay_reply (xc_lost x) reply)))"

definition run_recovery_issue ::
  "relay_exchange \<Rightarrow> client_config option \<Rightarrow> string \<Rightarrow> string \<Rightarrow> int recovery_op" where
  "run_recovery_issue x config proof_text answer = (case config of
     None \<Rightarrow> raise NoInstallation
   | Some _ \<Rightarrow>
       and_then (get_recovery_status x) (\<lambda>current.
       and_then (require (js_trim answer = ''SAVED'') NotSaved) (\<lambda>_.
       and_then (issue_recovery x (rs_generation current) (sha256_hex (xc_env x) proof_text)) (\<lambda>result.
       succeed (fst result)))))"

end
