(* ===== verification/RecoveryRuns.thy ===== *)
theory RecoveryRuns
  imports RecoveryClient
begin

text \<open>
  Recovery at the client together with the relay's handler: wherever the client dies and
  whatever becomes of the relay's batch and its reply, the owner is not locked out.
\<close>

text \<open>One attempt at the relay: nothing happens, or the redemption is committed with its receipt.\<close>

definition redemption :: "relay_env \<Rightarrow> redeem_request \<Rightarrow> int \<Rightarrow> relay_db \<Rightarrow> relay_db \<Rightarrow> bool" where
  "redemption env q now db db' \<longleftrightarrow> (let h = sha256_hex env (rm_current_proof q) in
     \<exists>row d audit. select_handle db (rm_org q) (rm_handle q) = Some row \<and> consumable q h row \<and>
       redeem_batch q h audit now (now + RECEIPT_TTL_MS) db = Some (d, 1, 1) \<and>
       rd_handles db' = rd_handles d \<and> rd_receipts db' = rd_receipts d)"

definition redeem_admitted :: "relay_env \<Rightarrow> redeem_request \<Rightarrow> bool" where
  "redeem_admitted env q \<longleftrightarrow> valid_public_ids q \<and> deployment_org_allows (en_mode env) (en_self_hosted_org env) (rm_org q)"

lemma redeem_reply_tables:
  assumes "redeem_reply accepts ef q row now d = (db', reply)"
  shows "rd_handles db' = rd_handles d \<and> rd_receipts db' = rd_receipts d"
  using assms evict_tables[of accepts ef "rm_org q" "rm_handle q" "rm_generation q + 1" now d]
  by (auto simp: redeem_reply_def Let_def split: prod.splits)

lemma racing_reply_db:
  "concurrent_reply accepts ef q h now refuse d = (db', reply) \<Longrightarrow>
   rd_handles db' = rd_handles d \<and> rd_receipts db' = rd_receipts d \<and> (find_receipt d q now = None \<longrightarrow> db' = d \<and> reply = refuse)"
  by (auto simp: concurrent_reply_def split: option.splits if_splits dest: redeem_reply_tables)

definition after_batch ::
  "(evict_call \<Rightarrow> bool) \<Rightarrow> batch_fate \<Rightarrow> redeem_request \<Rightarrow> string \<Rightarrow> int \<Rightarrow> (nat \<times> nat) option \<Rightarrow> relay_db \<Rightarrow> relay_db \<times> receipt_json http" where
  "after_batch accepts ef q h now changes d = (case changes of
     None \<Rightarrow> concurrent_reply accepts ef q h now (Refuse 503 ''recovery temporarily unavailable'') d
   | Some (n0, n1) \<Rightarrow> if n0 \<noteq> 1 \<or> n1 \<noteq> 1 then concurrent_reply accepts ef q h now (Refuse 401 ''unauthorized'') d
       else redeem_reply accepts ef q (new_receipt q h now (now + RECEIPT_TTL_MS)) now d)"

lemma redeem_gate:
  assumes run: "recovery_redeem env accepts ef fate admit req body now db db (\<lambda>d. d) = (db', reply)"
    and q: "json_body parse_redeem_request body None = Some q" "find_receipt db q now = None"
  shows "(db' = db \<and> (\<forall>r. reply \<noteq> Ok r)) \<or> redeem_admitted env q \<and>
    (\<exists>row d changes. select_handle db (rm_org q) (rm_handle q) = Some row \<and> consumable q (sha256_hex env (rm_current_proof q)) row \<and>
       run_batch fate (redeem_batch q (sha256_hex env (rm_current_proof q)) (redeem_audit req q (sha256_hex env (rm_current_proof q)) now)
         now (now + RECEIPT_TTL_MS)) db = (d, changes) \<and>
       after_batch accepts ef q (sha256_hex env (rm_current_proof q)) now changes d = (db', reply))"
proof -
  define h where "h = sha256_hex env (rm_current_proof q)"
  define batch where "batch = redeem_batch q h (redeem_audit req q h now) now (now + RECEIPT_TTL_MS)"
  define gate where "gate = (admit (DurableLimit REGISTER) (''recovery-ip:'' @ connecting_ip req) \<and> redeem_admitted env q \<and>
    admit (DurableLimit REGISTER) (''recovery-proof:'' @ take 16 h))"
  have "(if \<not> gate then db' = db \<and> (\<forall>r. reply \<noteq> Ok r)
     else case select_handle db (rm_org q) (rm_handle q) of
       None \<Rightarrow> db' = db \<and> (\<forall>r. reply \<noteq> Ok r)
     | Some row \<Rightarrow> if \<not> truthy_str (hn_recovery_hash row) \<or> hn_recovery_generation row \<noteq> rm_generation q \<or>
           the (hn_recovery_hash row) \<noteq> h then db' = db \<and> (\<forall>r. reply \<noteq> Ok r)
         else after_batch accepts ef q h now (snd (run_batch fate batch db)) (fst (run_batch fate batch db)) = (db', reply))"
    using run unfolding recovery_redeem_def q h_def[symmetric] Let_def option.case batch_def[symmetric] redeem_admitted_def gate_def after_batch_def
    by (auto split: if_splits option.splits prod.splits)
  then show ?thesis
    using select_handle_Some[of db "rm_org q" "rm_handle q"]
    unfolding gate_def h_def[symmetric] batch_def[symmetric]
    by (fastforce split: if_splits option.splits simp: consumable_def truthy_str_def prod_eq_iff)
qed

lemma redeem_outcome:
  assumes run: "recovery_redeem env accepts ef fate admit req body now db db (\<lambda>d. d) = (db', reply)"
    and q: "json_body parse_redeem_request body None = Some q" "find_receipt db q now = None"
    and k: "handles_table.keyed (rd_handles db)"
  shows "(db' = db \<and> (\<forall>r. reply \<noteq> Ok r)) \<or> redemption env q now db db' \<and> redeem_admitted env q"
proof -
  let ?h = "sha256_hex env (rm_current_proof q)" and ?e = "now + RECEIPT_TTL_MS"
  consider "db' = db" "\<forall>r. reply \<noteq> Ok r"
    | row d changes where "redeem_admitted env q" "select_handle db (rm_org q) (rm_handle q) = Some row" "consumable q ?h row"
       "run_batch fate (redeem_batch q ?h (redeem_audit req q ?h now) now ?e) db = (d, changes)"
       "after_batch accepts ef q ?h now changes d = (db', reply)"
    using redeem_gate[OF run q] by blast
  then show ?thesis
  proof cases
    case 2
    have ex: "sql_exists (consumable q ?h) (rd_handles db)"
      using 2(3) select_handle_Some[OF 2(2)] by auto
    then have "0 < sql_count (consumable q ?h) (rd_handles db)" by (simp add: sql_count_pos)
    moreover have "sql_count (consumable q ?h) (rd_handles db) \<le> 1"
      by (rule handles_table.count_le_one[OF k, where k = "(rm_org q, rm_handle q)"]) (simp add: consumable_def handle_key_def)
    ultimately have one: "sql_count (consumable q ?h) (rd_handles db) = 1" by linarith
    consider "d = db" "changes = None" | n0 n1 where "redeem_batch q ?h (redeem_audit req q ?h now) now ?e db = Some (d, n0, n1)"
        "changes = None \<or> changes = Some (n0, n1)" using run_batch_cases[OF 2(4)] by auto
    then show ?thesis
    proof cases
      case 1
      then show ?thesis using 2(5) q(2) unfolding after_batch_def by (auto dest!: racing_reply_db)
    next
      case b: 2
      have n: "n0 = 1" "n1 = 1" using redeem_tables[OF b(1)] one ex by (auto simp del: sql_exists_iff)
      have "rd_handles db' = rd_handles d \<and> rd_receipts db' = rd_receipts d"
        using b(2) 2(5) n unfolding after_batch_def
        by (auto dest: racing_reply_db redeem_reply_tables)
      then have "redemption env q now db db'"
        using 2(2,3) b(1) n unfolding redemption_def Let_def by blast
      then show ?thesis using 2(1) by blast
    qed
  qed blast
qed

text \<open>What a redemption leaves at the relay.\<close>

lemma redemption_leaves:
  assumes r: "redemption env q now db db'" and ok: "db_ok kl db"
  shows "\<exists>row. select_handle db' (rm_org q) (rm_handle q) = Some (redeem_handle q now row)"
    "new_receipt q (sha256_hex env (rm_current_proof q)) now (now + RECEIPT_TTL_MS) \<in> set (rd_receipts db')"
    "receipts_table.keyed (rd_receipts db')"
proof -
  let ?h = "sha256_hex env (rm_current_proof q)"
  obtain row d audit where row: "select_handle db (rm_org q) (rm_handle q) = Some row" "consumable q ?h row"
    and b: "redeem_batch q ?h audit now (now + RECEIPT_TTL_MS) db = Some (d, 1, 1)"
    and d: "rd_handles db' = rd_handles d" "rd_receipts db' = rd_receipts d"
    using r by (auto simp: redemption_def Let_def)
  have k: "handles_table.keyed (rd_handles db)" using ok by (simp add: db_ok_def registry_ok_def)
  have "handle_update_ok (consumable q ?h) (redeem_handle q now)" using redeem_update[of q ?h True now] by simp
  moreover have "rd_handles db' = sql_update (consumable q ?h) (redeem_handle q now) (rd_handles db)"
    using core_redeem[OF b] by (simp add: d core_def)
  ultimately show "\<exists>row. select_handle db' (rm_org q) (rm_handle q) = Some (redeem_handle q now row)"
    using select_handle_update[OF k row(1) refl, of db' "consumable q ?h" "redeem_handle q now"] row(2) by auto
  show "new_receipt q ?h now (now + RECEIPT_TTL_MS) \<in> set (rd_receipts db')"
    using redeem_receipt_kept[OF b] by (simp add: d RECEIPT_TTL_MS_def)
  show "receipts_table.keyed (rd_receipts db')" using redeem_keeps[OF ok b] by (simp add: d db_ok_def receipts_ok_def)
qed

text \<open>The request on the wire is the request that the relay reads.\<close>

definition redeem_request_ok :: "redeem_request \<Rightarrow> bool" where
  "redeem_request_ok q = (org_re (rm_org q) \<and> handle_re (rm_handle q) \<and> 0 < rm_generation q \<and>
     32 \<le> length (rm_current_proof q) \<and> length (rm_current_proof q) \<le> 200 \<and> recovery_operation_id_re (rm_operation_id q) \<and>
     sha256_hex_re (rm_client_token_digest q) \<and> client_public_id_re (rm_client_public_id q) \<and>
     sha256_hex_re (rm_successor_digest q) \<and> recovery_public_id_re (rm_successor_public_id q))"

lemma parse_redeem_body: "parse_redeem_request (redeem_body q) = (if redeem_request_ok q then Some q else None)"
  by (simp add: parse_redeem_request_def redeem_body_def redeem_request_ok_def strict_keys_def redeem_request_keys_def obj_get_def)

lemma json_redeem_body: "json_body parse_redeem_request (Some (redeem_body q)) None = (if redeem_request_ok q then Some q else None)"
  by (simp add: json_body_def parse_redeem_body)

lemma redeem_refused_body:
  "\<not> redeem_request_ok q \<Longrightarrow> recovery_redeem env accepts ef fate admit req (Some (redeem_body q)) now db db (\<lambda>d. d) = (db', reply)
   \<Longrightarrow> db' = db \<and> (\<forall>r. reply \<noteq> Ok r)"
  by (auto simp: recovery_redeem_def json_redeem_body split: if_splits)

lemma normalize_relay_twice [simp]: "normalize_relay (normalize_relay r) = normalize_relay r"
proof -
  have "dropWhile (\<lambda>c. c = CHR ''/'') (dropWhile (\<lambda>c. c = CHR ''/'') xs) = dropWhile (\<lambda>c. c = CHR ''/'') xs" for xs :: string
    by (induction xs) auto
  then show ?thesis by (simp add: normalize_relay_def)
qed

lemma make_pending_same: "make_pending env config t s = Inr p \<Longrightarrow> same_installation config p"
  by (cases config) (auto simp: make_pending_def recovery_identity_def same_installation_def Let_def
      split: if_splits option.splits sum.splits)

definition relay_accepts :: "relay_env \<Rightarrow> relay_db \<Rightarrow> client_config \<Rightarrow> bool" where
  "relay_accepts env db c \<longleftrightarrow>
     (\<exists>row. select_handle db (cc_org c) (cc_handle c) = Some row \<and> hn_token_hash row = sha256_hex env (cc_token c))"

text \<open>One attempt of the client: the states it goes through.\<close>

lemma finish_visits:
  assumes w: "w \<in> visits (finish_redeem x config p proof_text) w0"
    and ex: "recovery_redeem (xc_env x) (xc_accepts x) (xc_evict_fate x) (xc_fate x) (xc_admit x) (xc_headers x)
       (Some (redeem_body (redeem_request_of p proof_text))) (xc_now x) (rw_relay w0) (rw_relay w0) (\<lambda>d. d) = (db', reply)"
  shows "w = w0 \<or> w = w0\<lparr>rw_relay := db'\<rparr> \<or>
    (\<exists>r. reply = Ok r \<and> rw_config w = FileHolds (recovered_config config p r) \<and> rw_relay w = db')"
  using w by (auto simp: finish_redeem_def visits_and_then redeem_recovery_def ex relay_reply_def write_config_def remove_pending_def
      split: if_splits http.splits)

text \<open>The resumed operation, once the relay has committed.\<close>

lemma resume_completes:
  assumes q: "q = redeem_request_of p (js_trim (ra_current a))" "redeem_request_ok q" "redeem_admitted (xc_env x) q"
    and p: "pending_recovery_ok url_ok p" "pv_candidate_digest p = sha256_hex (xc_env x) (pv_candidate_token p)"
      "pv_successor_digest p = sha256_hex (xc_env x) (js_trim (ra_successor a))"
    and red: "redemption (xc_env x) q now db (rw_relay w)" "db_ok kl db"
    and w: "rw_pending w = FileHolds p" "rw_config w = (case config of None \<Rightarrow> FileAbsent | Some c \<Rightarrow> FileHolds c)" "same_installation config p"
    and x: "xc_admit x = (\<lambda>_ _. True)" "xc_fate x = Commits" "\<not> xc_lost x" "xc_now x < now + RECEIPT_TTL_MS"
    and t: "rt_resume t"
  shows "\<exists>w' c. run_prog (run_recovery_redeem url_ok x t a s) w = (w', Inr c) \<and> rw_config w' = FileHolds c \<and>
    cc_token c = pv_candidate_token p \<and> rw_pending w' = FileAbsent \<and> relay_accepts (xc_env x) (rw_relay w') c"
proof -
  let ?h = "sha256_hex (xc_env x) (rm_current_proof q)"
  obtain row where sel: "select_handle (rw_relay w) (rm_org q) (rm_handle q) = Some (redeem_handle q now row)"
    and rec: "new_receipt q ?h now (now + RECEIPT_TTL_MS) \<in> set (rd_receipts (rw_relay w))" "receipts_table.keyed (rd_receipts (rw_relay w))"
    using redemption_leaves[OF red] by blast
  have body: "json_body parse_redeem_request (Some (redeem_body q)) None = Some q" using q(2) by (simp add: json_redeem_body)
  have adm: "xc_admit x (DurableLimit REGISTER) (''recovery-ip:'' @ connecting_ip (xc_headers x))" "valid_public_ids q"
    "deployment_org_allows (en_mode (xc_env x)) (en_self_hosted_org (xc_env x)) (rm_org q)"
    "xc_admit x (DurableLimit REGISTER) (''recovery-proof:'' @ take 16 ?h)"
    using q(3) x(1) by (simp_all add: redeem_admitted_def)
  obtain db'' c where retry: "recovery_redeem (xc_env x) (xc_accepts x) (xc_evict_fate x) (xc_fate x) (xc_admit x) (xc_headers x)
      (Some (redeem_body q)) (xc_now x) (rw_relay w) (rw_relay w) (\<lambda>d. d) =
      (db'', Ok (receipt_json (new_receipt q ?h now (now + RECEIPT_TTL_MS)) c (hn_agent_kind (redeem_handle q now row))))"
    "rd_handles db'' = rd_handles (rw_relay w)"
    using redeem_retry[where admit = "xc_admit x" and req = "xc_headers x", OF body adm rec x(4) sel, of "xc_accepts x" "xc_evict_fate x"] x(2) by auto
  let ?r = "receipt_json (new_receipt q ?h now (now + RECEIPT_TTL_MS)) c (hn_agent_kind (redeem_handle q now row))"
  let ?c = "recovered_config config p ?r"
  have exact: "exact_client_receipt ?r p"
    by (simp add: exact_client_receipt_def receipt_json_def new_receipt_def q(1) redeem_request_of_def)
  have len: "32 \<le> length (js_trim (ra_current a))" using q(1,2) by (simp add: redeem_request_ok_def redeem_request_of_def)
  have run: "run_prog (finish_redeem x config p (js_trim (ra_current a))) w =
      (w\<lparr>rw_relay := db'', rw_config := FileHolds ?c, rw_pending := FileAbsent\<rparr>, Inr ?c)"
    using exact len w(3) x(3)
    by (simp add: finish_redeem_def redeem_recovery_def q(1)[symmetric] retry(1) relay_reply_def write_config_def remove_pending_def)
  have "run_prog (run_recovery_redeem url_ok x t a s) w = run_prog (resume_redeem url_ok x config a) w"
    using w(2) t by (cases config) (simp_all add: run_recovery_redeem_def redeem_locked_def)
  also have "\<dots> = (w\<lparr>rw_relay := db'', rw_config := FileHolds ?c, rw_pending := FileAbsent\<rparr>, Inr ?c)"
    using w(1,3) p(1,3) run by (simp add: resume_redeem_def read_pending_def)
  finally have "run_prog (run_recovery_redeem url_ok x t a s) w =
      (w\<lparr>rw_relay := db'', rw_config := FileHolds ?c, rw_pending := FileAbsent\<rparr>, Inr ?c)" .
  moreover have "cc_token ?c = pv_candidate_token p" "cc_org ?c = pv_org p" "cc_handle ?c = pv_handle p"
    by (auto simp: recovered_config_def split: option.splits)
  moreover from this have "relay_accepts (xc_env x) db'' ?c"
    using sel retry(2) p(2)
    by (simp add: relay_accepts_def select_handle_def redeem_handle_def q(1) redeem_request_of_def)
  ultimately show ?thesis by simp
qed

lemma start_visits:
  assumes w: "w \<in> visits (run_recovery_redeem url_ok x t a s) w0" and t: "\<not> rt_resume t"
  obtains (same) "w = w0"
    | (finish) config p where "rw_config w0 = (case config of None \<Rightarrow> FileAbsent | Some c \<Rightarrow> FileHolds c)" "make_pending (xc_env x) config t s = Inr p"
      "w \<in> visits (finish_redeem x config p (js_trim (ra_current a))) (w0\<lparr>rw_pending := FileHolds p\<rparr>)"
proof (cases "rw_config w0")
  case (FileHolds c)
  then show ?thesis using w t finish[of "Some c"] same
    by (auto simp: run_recovery_redeem_def redeem_locked_def start_redeem_def visits_bindp visits_and_then write_pending_def
        split: sum.splits if_splits)
next
  case FileAbsent
  then show ?thesis using w t finish[of None] same
    by (auto simp: run_recovery_redeem_def redeem_locked_def start_redeem_def visits_bindp visits_and_then write_pending_def
        split: sum.splits if_splits)
qed (use w same in \<open>auto simp: run_recovery_redeem_def visits_bindp\<close>)

lemma make_pending_fields:
  "make_pending env config t s = Inr p \<Longrightarrow> pv_candidate_token p = rx_candidate s \<and> pv_candidate_digest p = sha256_hex env (rx_candidate s) \<and>
     pv_successor_digest p = sha256_hex env (rx_successor s) \<and> pv_operation_id p = rx_operation s"
  by (auto simp: make_pending_def Let_def split: sum.splits option.splits if_splits)

text \<open>The attempt as a whole: before it, committed with the old configuration, or done.\<close>

lemma attempt_states:
  assumes ok: "db_ok kl (rw_relay w0)" and p: "make_pending (xc_env x) config t s = Inr p"
    and fresh: "\<forall>r\<in>set (rd_receipts (rw_relay w0)). rr_operation_id r \<noteq> rx_operation s"
    and q: "q = redeem_request_of p proof_text"
    and w: "w \<in> visits (finish_redeem x config p proof_text) (w0\<lparr>rw_pending := FileHolds p\<rparr>)"
  shows "(rd_handles (rw_relay w) = rd_handles (rw_relay w0) \<and> rw_config w = rw_config w0) \<or>
    redeem_request_ok q \<and> redeem_admitted (xc_env x) q \<and> redemption (xc_env x) q (xc_now x) (rw_relay w0) (rw_relay w) \<and>
      (rw_pending w = FileHolds p \<and> rw_config w = rw_config w0 \<or> (\<exists>r. rw_config w = FileHolds (recovered_config config p r)))"
proof -
  have keyed: "handles_table.keyed (rd_handles (rw_relay w0))" using ok by (simp add: db_ok_def registry_ok_def)
  have none: "find_receipt (rw_relay w0) q (xc_now x) = None"
    using fresh make_pending_fields[OF p] by (auto simp: find_receipt_def find_None_iff receipt_of_def receipt_key_def q redeem_request_of_def)
  obtain db' reply where ex: "recovery_redeem (xc_env x) (xc_accepts x) (xc_evict_fate x) (xc_fate x) (xc_admit x) (xc_headers x)
     (Some (redeem_body q)) (xc_now x) (rw_relay w0) (rw_relay w0) (\<lambda>d. d) = (db', reply)"
    by (meson surj_pair)
  have step: "w = w0\<lparr>rw_pending := FileHolds p\<rparr> \<or> w = w0\<lparr>rw_pending := FileHolds p, rw_relay := db'\<rparr> \<or>
      (\<exists>r. reply = Ok r \<and> rw_config w = FileHolds (recovered_config config p r) \<and> rw_relay w = db')"
    using finish_visits[OF w] ex by (simp add: q)
  consider "db' = rw_relay w0" "\<And>r. reply \<noteq> Ok r"
    | "redeem_request_ok q" "redemption (xc_env x) q (xc_now x) (rw_relay w0) db'" "redeem_admitted (xc_env x) q"
    using redeem_refused_body[OF _ ex] redeem_outcome[OF ex _ none keyed] by (cases "redeem_request_ok q") (auto simp: json_redeem_body)
  then show ?thesis using step by cases auto
qed


end
