(* ===== verification/RecoverySamples.thy ===== *)
theory RecoverySamples
  imports RecoveryRuns RelaySamples
begin

text \<open>Recovery applied to a concrete relay and a lost configuration.\<close>

definition lost_installation :: recovery_world where
  "lost_installation = \<lparr>rw_config = FileAbsent, rw_pending = FileAbsent, rw_relay = sample7\<rparr>"

definition sample_exchange :: "int \<Rightarrow> bool \<Rightarrow> relay_exchange" where
  "sample_exchange now lost = \<lparr>xc_env = sample_env, xc_accepts = (\<lambda>_. True), xc_evict_fate = Commits, xc_fate = Commits,
     xc_admit = (\<lambda>_ _. True), xc_headers = sample_req, xc_now = now, xc_lost = lost\<rparr>"

definition sample_target :: "bool \<Rightarrow> recovery_target" where
  "sample_target resume = \<lparr>rt_org = Some ''acme'', rt_handle = Some ''al'', rt_relay = Some ''https://r/'',
     rt_generation = Some 1, rt_resume = resume\<rparr>"

definition sample_answers :: recovery_answers where
  "sample_answers = \<lparr>ra_saved = ''SAVED'', ra_current = sample_proof, ra_successor = replicate 40 CHR ''y''\<rparr>"

definition sample_secrets :: recovery_secrets where
  "sample_secrets = \<lparr>rx_candidate = replicate 43 CHR ''x'', rx_successor = replicate 40 CHR ''y'', rx_operation = replicate 22 CHR ''o''\<rparr>"

definition interrupted_installation :: recovery_world where
  "interrupted_installation = fst (run_prog (run_recovery_redeem (\<lambda>_. True) (sample_exchange 6 True) (sample_target False)
     sample_answers sample_secrets) lost_installation)"


end
