(* ===== verification/ApiClient.thy ===== *)
theory ApiClient
  imports KeyRing KeyDirectory "HOL-Library.AList"
begin

text \<open>
  The client's requests to the relay, \<open>packages/cli/src/api.ts\<close>. \<open>fetch\<close> is a parameter, a
  network that answers a request or fails and may change the world while it does; a request
  is a program over that world. The texts of the errors are left out, their codes kept; an
  error that is not an \<open>ApiError\<close> is \<open>Thrown\<close>. Schemas of responses that the client only
  hands on are parameters.
\<close>

datatype api_code =
  AcHandleTaken | AcInviteInvalid | AcInvalid | AcUnknownHandle | AcStatusUnavailable | AcUnauthorized | AcNetwork

datatype api_failure = ApiError api_code | Thrown

record api_auth =
  au_org :: string
  au_handle :: string
  au_token :: string

definition auth_headers :: "api_auth \<Rightarrow> (string \<times> string) list" where
  "auth_headers a = [(''Authorization'', ''Bearer '' @ au_token a), (''X-AgentCall-Org'', au_org a),
     (''X-AgentCall-Handle'', au_handle a)]"

definition assert_valid_handle :: "string \<Rightarrow> ('w, api_failure + unit) prog" where
  "assert_valid_handle h = require (handle_re h) (ApiError AcInvalid)"

subsection \<open>Requests\<close>

datatype http_method = MGet | MPost | MPut

record api_request =
  aq_url :: string
  aq_method :: "http_method option"
  aq_headers :: "(string \<times> string) list"
  aq_body :: "js_value option"

datatype fetch_failure = FetchTimedOut | IdleSocketClosed | FetchFailed

text \<open>A \<open>Retry-After\<close> header as \<open>Number\<close> reads it; a missing one is read as 0.\<close>

datatype retry_after = NoRetryAfter | RetrySeconds int | RetryUnreadable

record api_response =
  rp_status :: nat
  rp_json :: "js_value option"
  rp_retry_after :: retry_after

type_synonym 'w network = "api_request \<Rightarrow> 'w \<Rightarrow> 'w \<times> (fetch_failure + api_response)"

definition is_get :: "api_request \<Rightarrow> bool" where
  "is_get q = (case aq_method q of None \<Rightarrow> True | Some x \<Rightarrow> x = MGet)"

definition relay_fetch :: "'w network \<Rightarrow> api_request \<Rightarrow> ('w, api_failure + api_response) prog" where
  "relay_fetch net q = bindp (act (net q)) (\<lambda>r. case r of
     Inr res \<Rightarrow> succeed res
   | Inl failure \<Rightarrow>
       if is_get q \<and> aq_body q = None \<and> failure = IdleSocketClosed
       then bindp (act (net q)) (\<lambda>again. case again of Inr res \<Rightarrow> succeed res | Inl _ \<Rightarrow> raise (ApiError AcNetwork))
       else raise (ApiError AcNetwork))"

record call_options =
  co_relay :: string
  co_path :: string
  co_method :: "http_method option"
  co_auth :: "api_auth option"
  co_headers :: "(string \<times> string) list"
  co_body :: "js_value option"
  co_errors :: "(nat \<times> api_code) list"
  co_failed_code :: api_code

definition call_to :: "string \<Rightarrow> string \<Rightarrow> call_options" where
  "call_to relay path = \<lparr>co_relay = relay, co_path = path, co_method = None, co_auth = None, co_headers = [],
     co_body = None, co_errors = [], co_failed_code = AcNetwork\<rparr>"

definition spread_headers :: "('k \<times> 'v) list \<Rightarrow> ('k \<times> 'v) list \<Rightarrow> ('k \<times> 'v) list" where
  "spread_headers xs ys = fold (\<lambda>(k, v). AList.update k v) ys xs"

definition request_for :: "call_options \<Rightarrow> api_request" where
  "request_for opts =
     (let given = spread_headers (case co_auth opts of None \<Rightarrow> [] | Some a \<Rightarrow> auth_headers a) (co_headers opts);
          headers = (if co_body opts \<noteq> None \<and> map_of given ''content-type'' = None
                     then given @ [(''content-type'', ''application/json'')] else given)
      in \<lparr>aq_url = co_relay opts @ co_path opts, aq_method = co_method opts, aq_headers = headers, aq_body = co_body opts\<rparr>)"

definition status_ok :: "nat \<Rightarrow> bool" where "status_ok n = (200 \<le> n \<and> n \<le> 299)"

definition relay_raw :: "'w network \<Rightarrow> call_options \<Rightarrow> ('w, api_failure + api_response) prog" where
  "relay_raw net opts = relay_fetch net (request_for opts)"

definition relay_response :: "'w network \<Rightarrow> call_options \<Rightarrow> ('w, api_failure + api_response) prog" where
  "relay_response net opts = and_then (relay_raw net opts) (\<lambda>res.
     case map_of (co_errors opts) (rp_status res) of
       Some code \<Rightarrow> raise (ApiError code)
     | None \<Rightarrow>
         if rp_status res = 401 then raise (ApiError AcInvalid)
         else if \<not> status_ok (rp_status res) then raise (ApiError (co_failed_code opts))
         else succeed res)"

definition parsed_json :: "(js_value \<Rightarrow> 'a option) \<Rightarrow> api_response \<Rightarrow> ('w, api_failure + 'a) prog" where
  "parsed_json schema res = (case Option.bind (rp_json res) schema of None \<Rightarrow> raise Thrown | Some x \<Rightarrow> succeed x)"

definition relay_call :: "'w network \<Rightarrow> (js_value \<Rightarrow> 'a option) \<Rightarrow> call_options \<Rightarrow> ('w, api_failure + 'a) prog" where
  "relay_call net schema opts = and_then (relay_response net opts) (parsed_json schema)"

definition relay_command :: "'w network \<Rightarrow> call_options \<Rightarrow> ('w, api_failure + unit) prog" where
  "relay_command net opts = and_then (relay_response net opts) (\<lambda>_. succeed ())"

subsection \<open>Path segments and queries\<close>

definition percent :: "nat \<Rightarrow> string" where
  "percent n = [CHR ''%'', ''0123456789ABCDEF'' ! (n div 16), ''0123456789ABCDEF'' ! (n mod 16)]"

definition char_bytes :: "char \<Rightarrow> nat list" where
  "char_bytes c = (let n = of_char c in if n < 128 then [n] else [192 + n div 64, 128 + n mod 64])"

definition letter_or_digit :: "char \<Rightarrow> bool" where
  "letter_or_digit c = (lower_alnum c \<or> upper_alpha c)"

definition encode_uri_component :: "string \<Rightarrow> string" where
  "encode_uri_component s = concat (map (\<lambda>c.
     if letter_or_digit c \<or> c \<in> set ''-_.!~*()'' \<or> c = CHR 0x27 then [c] else concat (map percent (char_bytes c))) s)"

definition form_encode :: "string \<Rightarrow> string" where
  "form_encode s = concat (map (\<lambda>c.
     if letter_or_digit c \<or> c \<in> set ''*-._'' then [c] else if c = CHR '' '' then ''+''
     else concat (map percent (char_bytes c))) s)"

fun search_params :: "(string \<times> string) list \<Rightarrow> string" where
  "search_params [] = ''''"
| "search_params [(k, v)] = form_encode k @ ''='' @ form_encode v"
| "search_params ((k, v) # rest) = form_encode k @ ''='' @ form_encode v @ ''&'' @ search_params rest"

definition given :: "string \<Rightarrow> string option \<Rightarrow> (string \<times> string) list" where
  "given k x = (case x of None \<Rightarrow> [] | Some v \<Rightarrow> [(k, v)])"

subsection \<open>Registration, invites and tokens\<close>

definition register_response :: "js_value \<Rightarrow> (string \<times> string) option" where
  "register_response v = (case as_object v of None \<Rightarrow> None | Some kvs \<Rightarrow>
     (case (read_str org_re (obj_get kvs ''org''), read_str (\<lambda>_. True) (obj_get kvs ''token'')) of
        (Some org, Some token) \<Rightarrow> Some (org, token) | _ \<Rightarrow> None))"

fun kind_json :: "agent_kind option \<Rightarrow> (string \<times> js_value) list" where
  "kind_json None = []"
| "kind_json (Some Claude) = [(''agent_kind'', JStr ''claude'')]"
| "kind_json (Some Codex) = [(''agent_kind'', JStr ''codex'')]"

definition register_handle ::
  "'w network \<Rightarrow> string \<Rightarrow> string \<Rightarrow> string \<Rightarrow> agent_kind option \<Rightarrow> ('w, api_failure + string \<times> string) prog" where
  "register_handle net relay invite handle kind =
     and_then (require (invite \<noteq> []) (ApiError AcInviteInvalid)) (\<lambda>_.
     and_then (assert_valid_handle handle) (\<lambda>_.
     relay_call net register_response ((call_to relay ''/v1/register'')\<lparr>co_method := Some MPost,
       co_body := Some (JObj ([(''invite'', JStr invite), (''handle'', JStr handle)] @ kind_json kind)),
       co_errors := [(404, AcInviteInvalid), (409, AcHandleTaken), (503, AcNetwork), (401, AcInvalid)],
       co_failed_code := AcInvalid\<rparr>)))"

definition client_create_invite ::
  "'w network \<Rightarrow> (js_value \<Rightarrow> 'r option) \<Rightarrow> string \<Rightarrow> api_auth \<Rightarrow> js_value \<Rightarrow> ('w, api_failure + 'r) prog" where
  "client_create_invite net schema relay a input = relay_call net schema
     ((call_to relay ''/v1/invites'')\<lparr>co_method := Some MPost, co_auth := Some a, co_body := Some input,
       co_errors := [(403, AcInvalid), (429, AcNetwork)]\<rparr>)"

definition client_list_invites ::
  "'w network \<Rightarrow> (js_value \<Rightarrow> 'r option) \<Rightarrow> string \<Rightarrow> api_auth \<Rightarrow> ('w, api_failure + 'r) prog" where
  "client_list_invites net schema relay a = relay_call net schema
     ((call_to relay ''/v1/invites/list'')\<lparr>co_method := Some MPost, co_auth := Some a,
       co_errors := [(403, AcInvalid), (429, AcNetwork)]\<rparr>)"

definition client_revoke_invite ::
  "'w network \<Rightarrow> (js_value \<Rightarrow> 'r option) \<Rightarrow> string \<Rightarrow> api_auth \<Rightarrow> string \<Rightarrow> ('w, api_failure + 'r) prog" where
  "client_revoke_invite net schema relay a invite_id = relay_call net schema
     ((call_to relay (''/v1/invites/'' @ encode_uri_component invite_id @ ''/revoke''))\<lparr>co_method := Some MPost,
       co_auth := Some a, co_errors := [(403, AcInvalid), (400, AcInvalid), (404, AcInvalid), (429, AcNetwork)]\<rparr>)"

definition get_status :: "'w network \<Rightarrow> string \<Rightarrow> string \<Rightarrow> api_auth \<Rightarrow> ('w, api_failure + js_value) prog" where
  "get_status net relay handle a = relay_call net Some
     ((call_to relay (''/v1/status/'' @ handle))\<lparr>co_auth := Some a, co_errors := [(429, AcNetwork), (404, AcStatusUnavailable)]\<rparr>)"

definition client_rotate_token :: "'w network \<Rightarrow> string \<Rightarrow> api_auth \<Rightarrow> ('w, api_failure + js_value) prog" where
  "client_rotate_token net relay a = relay_call net Some
     ((call_to relay ''/v1/token/rotate'')\<lparr>co_method := Some MPost, co_auth := Some a, co_errors := [(429, AcNetwork)]\<rparr>)"

subsection \<open>Audit export\<close>

record page_query =
  xq_after :: "int option"
  xq_before :: "int option"
  xq_actor :: "string option"
  xq_event :: "string option"
  xq_actor_ip :: "string option"
  xq_page_size :: "int option"
  xq_page_token :: "string option"

definition export_search :: "page_query \<Rightarrow> (string \<times> string) list" where
  "export_search q =
     given ''after'' (map_option js_number_string (xq_after q)) @ given ''before'' (map_option js_number_string (xq_before q)) @
     given ''actor'' (xq_actor q) @ given ''event'' (xq_event q) @ given ''actor_ip'' (xq_actor_ip q) @
     given ''page_size'' (map_option js_number_string (xq_page_size q)) @
     (case xq_page_token q of None \<Rightarrow> [] | Some t \<Rightarrow> if t = [] then [] else [(''page_token'', t)])"

definition retry_delay :: "retry_after \<Rightarrow> int" where
  "retry_delay r = (case r of NoRetryAfter \<Rightarrow> 0 | RetryUnreadable \<Rightarrow> 60000
     | RetrySeconds n \<Rightarrow> if n \<ge> 0 then min (n * 1000) 60000 else 60000)"

primrec export_attempts ::
  "'w network \<Rightarrow> (int \<Rightarrow> 'w \<Rightarrow> 'w) \<Rightarrow> bool \<Rightarrow> call_options \<Rightarrow> nat \<Rightarrow> ('w, api_failure + api_response) prog" where
  "export_attempts net sleep retry opts 0 = relay_raw net opts"
| "export_attempts net sleep retry opts (Suc left) = and_then (relay_raw net opts) (\<lambda>res.
     if rp_status res \<noteq> 429 \<or> \<not> retry then succeed res
     else bindp (act (\<lambda>w. (sleep (retry_delay (rp_retry_after res)) w, ()))) (\<lambda>_.
       export_attempts net sleep retry opts left))"

definition MAX_RATE_LIMIT_RETRIES :: nat where "MAX_RATE_LIMIT_RETRIES = 2"

definition fetch_audit_export_page ::
  "'w network \<Rightarrow> (int \<Rightarrow> 'w \<Rightarrow> 'w) \<Rightarrow> (js_value \<Rightarrow> 'r option) \<Rightarrow> bool \<Rightarrow> string \<Rightarrow> api_auth \<Rightarrow> page_query
   \<Rightarrow> ('w, api_failure + 'r) prog" where
  "fetch_audit_export_page net sleep schema retry relay a q =
     (let search = export_search q; path = ''/v1/audit/events'' @ (if search = [] then [] else ''?'' @ search_params search)
      in and_then (export_attempts net sleep retry ((call_to relay path)\<lparr>co_headers := auth_headers a\<rparr>)
                     MAX_RATE_LIMIT_RETRIES) (\<lambda>res.
         if rp_status res \<in> {401, 403, 400} then raise (ApiError AcInvalid)
         else if rp_status res \<in> {409, 429} then raise (ApiError AcNetwork)
         else if \<not> status_ok (rp_status res) then raise (ApiError AcNetwork)
         else parsed_json schema res))"

subsection \<open>Cards and jobs\<close>

definition push_card :: "'w network \<Rightarrow> string \<Rightarrow> api_auth \<Rightarrow> js_value \<Rightarrow> ('w, api_failure + unit) prog" where
  "push_card net relay a upload = relay_command net
     ((call_to relay ''/v1/card'')\<lparr>co_method := Some MPut, co_auth := Some a, co_body := Some upload\<rparr>)"

definition fetch_card ::
  "'w network \<Rightarrow> (js_value \<Rightarrow> 'r option) \<Rightarrow> string \<Rightarrow> string \<Rightarrow> api_auth \<Rightarrow> ('w, api_failure + 'r) prog" where
  "fetch_card net schema relay handle a = relay_call net schema
     ((call_to relay (''/v1/card/'' @ handle))\<lparr>co_auth := Some a, co_errors := [(404, AcUnknownHandle)]\<rparr>)"

definition A2A_HEADERS :: "(string \<times> string) list" where
  "A2A_HEADERS = [(''A2A-Version'', ''1.0''), (''Accept'', ''application/a2a+json'')]"

definition jobs_path :: "string \<Rightarrow> string" where
  "jobs_path handle = ''/v1/a2a/'' @ encode_uri_component handle @ ''/tasks''"

definition list_agent_jobs ::
  "'w network \<Rightarrow> (js_value \<Rightarrow> 'r option) \<Rightarrow> string \<Rightarrow> string \<Rightarrow> api_auth \<Rightarrow> string option \<Rightarrow> int option
   \<Rightarrow> ('w, api_failure + 'r) prog" where
  "list_agent_jobs net schema relay handle a status page_size =
     (let query = [(''pageSize'', js_number_string (or_default page_size 50))] @
                  (case status of None \<Rightarrow> [] | Some s \<Rightarrow> if s = [] then [] else [(''status'', s)])
      in relay_call net schema ((call_to relay (jobs_path handle @ ''?'' @ search_params query))\<lparr>co_auth := Some a,
           co_headers := A2A_HEADERS\<rparr>))"

definition get_agent_job ::
  "'w network \<Rightarrow> (js_value \<Rightarrow> 'r option) \<Rightarrow> string \<Rightarrow> string \<Rightarrow> string \<Rightarrow> api_auth \<Rightarrow> bool \<Rightarrow> ('w, api_failure + 'r) prog" where
  "get_agent_job net schema relay handle task_id a artifacts = relay_call net schema
     ((call_to relay (jobs_path handle @ ''/'' @ encode_uri_component task_id @ ''?includeArtifacts='' @
         (if artifacts then ''true'' else ''false'')))\<lparr>co_auth := Some a, co_headers := A2A_HEADERS\<rparr>)"

definition cancel_agent_job ::
  "'w network \<Rightarrow> (js_value \<Rightarrow> 'r option) \<Rightarrow> string \<Rightarrow> string \<Rightarrow> string \<Rightarrow> api_auth \<Rightarrow> ('w, api_failure + 'r) prog" where
  "cancel_agent_job net schema relay handle task_id a = relay_call net schema
     ((call_to relay (jobs_path handle @ ''/'' @ encode_uri_component task_id @ '':cancel''))\<lparr>co_method := Some MPost,
       co_auth := Some a, co_headers := A2A_HEADERS @ [(''content-type'', ''application/a2a+json'')],
       co_body := Some (JObj [])\<rparr>)"

subsection \<open>Keys\<close>

definition identity_json :: "identity_record \<Rightarrow> js_value" where
  "identity_json r = JObj [(''v'', JNum 1), (''relay_origin'', JStr (ir_relay_origin r)), (''address'', JStr (ir_address r)),
     (''identity_pub'', JStr (ir_identity_pub r))]"

definition publish_identity_key ::
  "'w network \<Rightarrow> (string \<Rightarrow> string) \<Rightarrow> (string \<Rightarrow> byte list \<Rightarrow> string option) \<Rightarrow> string \<Rightarrow> api_auth \<Rightarrow> ring_keys
   \<Rightarrow> ('w, api_failure + unit) prog" where
  "publish_identity_key net hostname sign relay a keys =
     (let r = \<lparr>ir_relay_origin = hostname relay, ir_address = format_address (au_org a) (au_handle a),
               ir_identity_pub = sk_identity_pub keys\<rparr>
      in and_then (require (identity_record_ok r) Thrown) (\<lambda>_.
         case identity_transcript r of
           Inl _ \<Rightarrow> raise Thrown
         | Inr t \<Rightarrow>
             (case sign (sk_identity_pkcs8 keys) t of
                None \<Rightarrow> raise Thrown
              | Some signature \<Rightarrow>
                  relay_command net ((call_to relay ''/v1/keys/identity'')\<lparr>co_method := Some MPut, co_auth := Some a,
                    co_body := Some (JObj [(''record'', identity_json r), (''signature'', JStr signature)]),
                    co_errors := [(401, AcNetwork), (409, AcInvalid)]\<rparr>))))"

definition served_bundle_json :: "string \<Rightarrow> string \<Rightarrow> js_value \<Rightarrow> api_failure + key_bundle" where
  "served_bundle_json org handle body = (if body = JNull then Inl Thrown else
     (case (parse_identity_record (prop_of body ''identity''),
            parse_encryption_key_record (prop_of (prop_of body ''encryption'') ''record''),
            prop_of (prop_of body ''encryption'') ''signature'') of
        (Some r, Some k, JStr signature) \<Rightarrow>
          if ir_address r \<noteq> ek_address k then Inl (ApiError AcInvalid)
          else if parse_address (ir_address r) \<noteq> Some (org, handle) then Inl (ApiError AcInvalid)
          else Inr \<lparr>kb_identity = r, kb_record = k, kb_signature = signature\<rparr>
      | _ \<Rightarrow> Inl (ApiError AcInvalid)))"

definition fetch_keys :: "'w network \<Rightarrow> string \<Rightarrow> api_auth \<Rightarrow> string \<Rightarrow> ('w, api_failure + key_bundle) prog" where
  "fetch_keys net relay a handle =
     and_then (assert_valid_handle handle) (\<lambda>_.
     and_then (relay_response net ((call_to relay (''/v1/keys/'' @ handle))\<lparr>co_auth := Some a,
                 co_errors := [(404, AcUnknownHandle), (401, AcUnauthorized)], co_failed_code := AcStatusUnavailable\<rparr>)) (\<lambda>res.
     case rp_json res of
       None \<Rightarrow> raise (ApiError AcInvalid)
     | Some body \<Rightarrow> (case served_bundle_json (au_org a) handle body of Inl e \<Rightarrow> raise e | Inr b \<Rightarrow> succeed b)))"

end
