(* ===== verification/ApiResults.thy ===== *)
theory ApiResults
  imports ApiClient
begin

text \<open>
  What the client can rely on. The requests a program sends are counted by a network that
  records them; a request that changes the relay is sent at most once by each call, because
  only a body-less GET is retried, and the keys that are accepted are those of the handle
  that was asked for.
\<close>

definition recording :: "'w network \<Rightarrow> ('w \<times> api_request list) network" where
  "recording net q s = (case s of (w, log) \<Rightarrow> (case net q w of (w', r) \<Rightarrow> ((w', log @ [q]), r)))"

definition requests_sent :: "('w \<times> api_request list, 'a) prog \<Rightarrow> 'w \<Rightarrow> api_request list" where
  "requests_sent p w = snd (fst (run_prog p (w, [])))"

text \<open>A program sends at most \<open>n\<close> requests, and those satisfy \<open>P\<close>.\<close>

definition sends :: "nat \<Rightarrow> (api_request \<Rightarrow> bool) \<Rightarrow> ('w \<times> api_request list, 'a) prog \<Rightarrow> bool" where
  "sends n P p \<longleftrightarrow> (\<forall>s. \<exists>extra. snd (fst (run_prog p s)) = snd s @ extra \<and> length extra \<le> n \<and> list_all P extra)"

lemma sends_silent: "(\<And>s. snd (fst (run_prog p s)) = snd s) \<Longrightarrow> sends n P p"
  unfolding sends_def by simp

lemma sends_results [simp]:
  "sends n P (succeed x)" "sends n P (raise e)" "sends n P (require b e)" "sends n P (assert_valid_handle h)"
  by (auto intro!: sends_silent simp: assert_valid_handle_def)

lemma sends_bindp:
  assumes "sends n P m" "\<And>x. sends k P (f x)"
  shows "sends (n + k) P (bindp m f)"
  unfolding sends_def
proof (intro allI)
  fix s
  obtain s' x where m: "run_prog m s = (s', x)" by fastforce
  obtain a where a: "snd s' = snd s @ a" "length a \<le> n" "list_all P a"
    using assms(1) m unfolding sends_def by (metis fst_conv)
  obtain b where b: "snd (fst (run_prog (f x) s')) = snd s' @ b" "length b \<le> k" "list_all P b"
    using assms(2) unfolding sends_def by blast
  show "\<exists>extra. snd (fst (run_prog (bindp m f) s)) = snd s @ extra \<and> length extra \<le> n + k \<and> list_all P extra"
    using m a b by (intro exI[of _ "a @ b"]) auto
qed

lemma sends_and_then:
  assumes "sends n P m" "\<And>x. sends k P (f x)"
  shows "sends (n + k) P (and_then m f)"
  unfolding and_then_def
  by (rule sends_bindp[OF assms(1)]) (auto simp: assms(2) intro!: sends_silent split: sum.split)

lemma sends_then_silent: "sends n P m \<Longrightarrow> (\<And>x. sends 0 P (f x)) \<Longrightarrow> sends n P (and_then m f)"
  using sends_and_then[of n P m 0 f] by simp

lemma sends_after: "(\<And>x. sends n P (f x)) \<Longrightarrow> sends 0 P m \<Longrightarrow> sends n P (and_then m f)"
  using sends_and_then[of 0 P m n f] by simp

lemma sends_more: "sends n P p \<Longrightarrow> n \<le> k \<Longrightarrow> sends k P p"
  unfolding sends_def by (meson order_trans)

lemma sends_fetch_once: "P q \<Longrightarrow> sends 1 P (act (recording net q))"
  unfolding sends_def by (auto simp: recording_def split: prod.splits)

lemma sends_fetch:
  assumes q: "P q"
  shows "sends (if is_get q \<and> aq_body q = None then 2 else 1) P (relay_fetch (recording net) q)"
proof -
  let ?n = "if is_get q \<and> aq_body q = None then 1 else 0 :: nat"
  note once = sends_fetch_once[where P = P and q = q and net = net, OF q]
  have again: "sends 1 P (bindp (act (recording net q))
      (\<lambda>again. case again of Inr res \<Rightarrow> succeed res | Inl _ \<Rightarrow> raise (ApiError AcNetwork)))"
    using sends_bindp[OF once, where k = 0 and
        f = "\<lambda>again. case again of Inr res \<Rightarrow> succeed res | Inl _ \<Rightarrow> raise (ApiError AcNetwork)"]
    by (simp split: sum.split)
  have "sends (1 + ?n) P (relay_fetch (recording net) q)"
    unfolding relay_fetch_def
    by (rule sends_bindp[OF once]) (use again in \<open>auto split: sum.split\<close>)
  then show ?thesis by (cases "is_get q"; cases "aq_body q") (simp_all add: numeral_2_eq_2)
qed

definition changing :: "call_options \<Rightarrow> bool" where
  "changing opts = (case co_method opts of None \<Rightarrow> False | Some m \<Rightarrow> m \<noteq> MGet)"

definition attempts :: "call_options \<Rightarrow> nat" where "attempts opts = (if changing opts then 1 else 2)"

lemma attempts_fetch: "(if is_get (request_for opts) \<and> aq_body (request_for opts) = None then 2 else 1) \<le> attempts opts"
  by (auto simp: attempts_def changing_def is_get_def request_for_def Let_def split: option.splits)

lemma sends_response: "P (request_for opts) \<Longrightarrow> sends (attempts opts) P (relay_response (recording net) opts)"
  unfolding relay_response_def relay_raw_def
  by (rule sends_then_silent, rule sends_more[OF sends_fetch attempts_fetch]) (auto split: option.splits)

lemma sends_parsed [simp]: "sends n P (parsed_json schema res)"
  by (auto simp: parsed_json_def split: option.split)

lemma sends_call: "P (request_for opts) \<Longrightarrow> sends (attempts opts) P (relay_call (recording net) schema opts)"
  unfolding relay_call_def by (rule sends_then_silent[OF sends_response]) simp_all

lemma sends_command: "P (request_for opts) \<Longrightarrow> sends (attempts opts) P (relay_command (recording net) opts)"
  unfolding relay_command_def by (rule sends_then_silent[OF sends_response]) simp_all

lemma sends_requests: "sends n P p \<Longrightarrow> length (requests_sent p w) \<le> n \<and> list_all P (requests_sent p w)"
  unfolding sends_def requests_sent_def by (metis append_Nil snd_conv)

text \<open>Every request but a registration carries the credential of the installation.\<close>

definition carries :: "api_auth \<Rightarrow> api_request \<Rightarrow> bool" where
  "carries a q = (\<forall>h\<in>set (auth_headers a). map_of (aq_headers q) (fst h) = Some (snd h))"

lemma request_carries:
  "co_auth opts = Some a \<Longrightarrow> co_headers opts \<in> {[], A2A_HEADERS, A2A_HEADERS @ [(''content-type'', x)]} \<Longrightarrow>
   carries a (request_for opts)"
  by (auto simp: carries_def request_for_def Let_def auth_headers_def spread_headers_def A2A_HEADERS_def)

lemmas mutation_defs = client_create_invite_def client_revoke_invite_def client_rotate_token_def push_card_def cancel_agent_job_def

lemma changing_attempts: "changing opts \<Longrightarrow> attempts opts = 1"
  by (simp add: attempts_def)

lemma sends_mutation: "changing opts \<Longrightarrow> P (request_for opts) \<Longrightarrow> sends 1 P (relay_call (recording net) schema opts)"
  "changing opts \<Longrightarrow> P (request_for opts) \<Longrightarrow> sends 1 P (relay_command (recording net) opts)"
  using sends_call[of P opts net schema] sends_command[of P opts net] changing_attempts[of opts] by simp_all

lemma register_sends: "sends 1 (\<lambda>_. True) (register_handle (recording net) relay invite h kind)"
  unfolding register_handle_def
  by (intro sends_after sends_mutation sends_results) (simp_all add: changing_def call_to_def)

lemma identity_sends: "sends 1 (carries a) (publish_identity_key (recording net) hostname sign relay a keys)"
  unfolding publish_identity_key_def Let_def
  by (intro sends_after sends_results)
     (auto split: sum.split option.split intro!: sends_mutation(2)[unfolded One_nat_def] request_carries
       simp: changing_def call_to_def)

definition sent_once :: "api_auth \<Rightarrow> ('w \<times> api_request list, 'a) prog \<Rightarrow> 'w \<Rightarrow> bool" where
  "sent_once a p w = (length (requests_sent p w) \<le> 1 \<and> list_all (carries a) (requests_sent p w))"

lemma sends_once: "sends 1 (carries a) p \<Longrightarrow> sent_once a p w"
  unfolding sent_once_def by (rule sends_requests)

lemma mutation_once:
  assumes "changing opts" "carries a (request_for opts)"
  shows "sent_once a (relay_call (recording net) schema opts) w" "sent_once a (relay_command (recording net) opts) w"
  by (rule sends_once, rule sends_mutation[where P = "carries a", OF assms])+


subsection \<open>Fetched keys\<close>

lemma served_bundle_bound:
  assumes "served_bundle_json org h body = Inr b"
  shows "identity_record_ok (kb_identity b) \<and> encryption_key_record_ok (kb_record b) \<and>
    ek_address (kb_record b) = ir_address (kb_identity b) \<and> ir_address (kb_identity b) = format_address org h"
  using assms parse_identity_record_ok parse_encryption_key_record_ok parse_address_Some
  by (auto simp: served_bundle_json_def split: if_split_asm option.splits js_value.splits)

text \<open>
  The answer is bound to the question. However the relay answers a request for the keys
  of a handle, the client accepts only a pair of well-formed records of one address, and
  that address is the handle asked for in the client's own organization.
\<close>

theorem fetched_keys_bound:
  assumes "run_prog (fetch_keys net relay a h) w = (w', Inr b)"
  shows "identity_record_ok (kb_identity b) \<and> encryption_key_record_ok (kb_record b) \<and>
    ek_address (kb_record b) = ir_address (kb_identity b) \<and> ir_address (kb_identity b) = format_address (au_org a) h"
proof -
  have "\<exists>body. served_bundle_json (au_org a) h body = Inr b"
    using assms by (auto simp: fetch_keys_def assert_valid_handle_def split: prod.splits sum.splits option.splits if_splits)
  then show ?thesis using served_bundle_bound by blast
qed

definition sample_bundle_json :: js_value where
  "sample_bundle_json = JObj
     [(''identity'', identity_json sample_identity),
      (''encryption'', JObj [(''record'', JObj [(''v'', JNum 1), (''relay_origin'', JStr ''relay.example''),
          (''address'', JStr ''@acme/alice''), (''key_id'', JStr (ek_key_id sample_key)), (''suite'', JStr HPKE_SUITE),
          (''pub'', JStr ''QQ''), (''epoch'', JNum 1), (''not_before'', JNum 0), (''not_after'', JNum 1000),
          (''prev'', JNull)]), (''signature'', JStr ''QQ'')])]"

definition sample_network :: "unit network" where
  "sample_network q w = (w, Inr \<lparr>rp_status = 200, rp_json = Some sample_bundle_json, rp_retry_after = NoRetryAfter\<rparr>)"

definition sample_auth :: api_auth where
  "sample_auth = \<lparr>au_org = ''acme'', au_handle = ''bob'', au_token = ''t''\<rparr>"

definition sample_bundle_served :: key_bundle where
  "sample_bundle_served = \<lparr>kb_identity = sample_identity, kb_record = sample_key, kb_signature = ''QQ''\<rparr>"

lemma sample_records_parse:
  "parse_identity_record (prop_of sample_bundle_json ''identity'') = Some sample_identity"
  "parse_encryption_key_record (prop_of (prop_of sample_bundle_json ''encryption'') ''record'') = Some sample_key"
  using sample_fields sample_identity_ok sample_key_ok
  by (simp_all add: sample_bundle_json_def prop_of_def obj_get_def identity_json_def sample_identity_def sample_key_def
      parse_identity_record_def parse_encryption_key_record_def read_literal_def read_nullable_def
      identity_record_ok_def encryption_key_record_ok_def sample_safe)

lemma sample_served: "served_bundle_json ''acme'' ''alice'' sample_bundle_json = Inr sample_bundle_served"
proof -
  have a: "parse_address ''@acme/alice'' = Some (''acme'', ''alice'')" by code_simp
  have "prop_of (prop_of sample_bundle_json ''encryption'') ''signature'' = JStr ''QQ''" "sample_bundle_json \<noteq> JNull"
    by (simp_all add: sample_bundle_json_def prop_of_def obj_get_def)
  then show ?thesis using a sample_records_parse
    by (simp add: served_bundle_json_def sample_bundle_served_def sample_identity_def sample_key_def)
qed

lemma sample_fetch: "run_prog (fetch_keys sample_network relay sample_auth ''alice'') () = ((), Inr sample_bundle_served)"
proof -
  have "handle_re ''alice''" by code_simp
  then show ?thesis
    by (simp add: fetch_keys_def assert_valid_handle_def relay_response_def relay_raw_def relay_fetch_def sample_network_def
        sample_auth_def call_to_def status_ok_def sample_served)
qed

lemma fetched_keys_bound_witness:
  "\<exists>b. run_prog (fetch_keys sample_network ''https://r'' sample_auth ''alice'') () = ((), Inr b) \<and>
     ir_address (kb_identity b) = format_address ''acme'' ''alice''"
  using fetched_keys_bound[OF sample_fetch[of "''https://r''"]] sample_fetch[of "''https://r''"]
  by (auto simp: sample_auth_def)

end
