(* ===== verification/CallClient.thy ===== *)
theory CallClient
  imports ApiClient OutboundJobs Sealing
begin

text \<open>
  One call at the caller, \<open>packages/cli/src/call-client.ts\<close>. Before any socket opens, the
  recipient's keys are fetched and checked against the pinned identity, the request is sealed
  and, for a durable call, the job is written down; this is a program over the network, the
  trust store, the key directory and the outbound jobs. After that the promise lives on
  socket events: a step function takes one event at a time, and a handler that awaits
  something is a waiting entry that a later event resumes. The texts of the errors are left
  out; what a peer said in its failure is kept, sanitized.
\<close>

subsection \<open>Errors and results\<close>

datatype call_origin = FromPeer | FromRelay | FromTransport

record call_error =
  cx_code :: string
  cx_offered :: "string list option"
  cx_call_id :: "string option"
  cx_correlation :: "string option"
  cx_origin :: call_origin
  cx_detail :: "js_string option"

definition call_error_from :: "call_origin \<Rightarrow> string \<Rightarrow> string option \<Rightarrow> string option \<Rightarrow> call_error" where
  "call_error_from origin code call_id correlation = \<lparr>cx_code = code, cx_offered = None, cx_call_id = call_id,
     cx_correlation = correlation, cx_origin = origin, cx_detail = None\<rparr>"

record queued_frame =
  qf_call_id :: string
  qf_message_id :: string
  qf_correlation :: string
  qf_submitted_at :: int
  qf_expires_at :: int

record call_reply =
  cy_call_id :: string
  cy_correlation :: string
  cy_text :: js_string
  cy_context_id :: "string option"
  cy_task :: "string option"

datatype call_answer = Replied call_reply | QueuedCall queued_frame string

subsection \<open>Frames from the relay\<close>

datatype caller_frame =
  CfStatus call_state "string option" "string option"
| CfQueued queued_frame
| CfError relay_error "string option" "string option"
| CfOutcome string outcome_terminal js_value

fun read_call_state :: "js_value \<Rightarrow> call_state option" where
  "read_call_state (JStr s) =
     (if s = ''ringing'' then Some Ringing else if s = ''answered'' then Some Answered
      else if s = ''working'' then Some CallWorking else None)"
| "read_call_state _ = None"

definition all_relay_errors :: "relay_error list" where
  "all_relay_errors = [ReUnknownHandle, ReOffline, ReTimeout, ReCanceled, ReUnauthorized, ReRateLimited,
     ReMessageTooLarge, ReProtocolError, ReBusy]"

fun read_relay_error :: "js_value \<Rightarrow> relay_error option" where
  "read_relay_error (JStr s) = find (\<lambda>e. relay_error_code e = s) all_relay_errors"
| "read_relay_error _ = None"

definition required :: "bool \<Rightarrow> unit option" where "required b = (if b then Some () else None)"

text \<open>A status keeps no unknown keys but accepts them; the other frames are strict.\<close>

definition parse_status :: "(string \<times> js_value) list \<Rightarrow> caller_frame option" where
  "parse_status kvs = do {
     state \<leftarrow> read_call_state (obj_get kvs ''state'');
     call_id \<leftarrow> optional (read_str (\<lambda>_. True)) (obj_get kvs ''call_id'');
     correlation \<leftarrow> optional (read_str correlation_id_re) (obj_get kvs ''correlation_id'');
     Some (CfStatus state call_id correlation) }"

definition parse_queued :: "(string \<times> js_value) list \<Rightarrow> caller_frame option" where
  "parse_queued kvs = do {
     _ \<leftarrow> required (strict_keys [''type'', ''call_id'', ''message_id'', ''correlation_id'', ''submitted_at'', ''expires_at''] kvs);
     call_id \<leftarrow> read_str (\<lambda>s. s \<noteq> []) (obj_get kvs ''call_id'');
     message_id \<leftarrow> read_str message_id_re (obj_get kvs ''message_id'');
     correlation \<leftarrow> read_str correlation_id_re (obj_get kvs ''correlation_id'');
     submitted \<leftarrow> read_int (\<lambda>n. 0 \<le> n) (obj_get kvs ''submitted_at'');
     expires \<leftarrow> read_int (\<lambda>n. 0 < n) (obj_get kvs ''expires_at'');
     _ \<leftarrow> required (expires > submitted);
     Some (CfQueued \<lparr>qf_call_id = call_id, qf_message_id = message_id, qf_correlation = correlation,
       qf_submitted_at = submitted, qf_expires_at = expires\<rparr>) }"

definition parse_relay_error :: "(string \<times> js_value) list \<Rightarrow> caller_frame option" where
  "parse_relay_error kvs = do {
     _ \<leftarrow> required (strict_keys [''type'', ''origin'', ''code'', ''call_id'', ''correlation_id''] kvs);
     _ \<leftarrow> read_literal ''relay'' (obj_get kvs ''origin'');
     code \<leftarrow> read_relay_error (obj_get kvs ''code'');
     call_id \<leftarrow> optional (read_str (\<lambda>_. True)) (obj_get kvs ''call_id'');
     correlation \<leftarrow> optional (read_str correlation_id_re) (obj_get kvs ''correlation_id'');
     Some (CfError code call_id correlation) }"

text \<open>The envelope of an outcome is kept as it came: opening it parses it again.\<close>

definition parse_caller_outcome :: "(string \<Rightarrow> bool) \<Rightarrow> (string \<times> js_value) list \<Rightarrow> caller_frame option" where
  "parse_caller_outcome uuid kvs = do {
     _ \<leftarrow> required (strict_keys [''type'', ''call_id'', ''terminal'', ''terminal_reason'', ''envelope'', ''lease_id''] kvs);
     call_id \<leftarrow> read_str (\<lambda>_. True) (obj_get kvs ''call_id'');
     terminal \<leftarrow> read_outcome_terminal (obj_get kvs ''terminal'');
     _ \<leftarrow> optional read_terminal_reason (obj_get kvs ''terminal_reason'');
     _ \<leftarrow> response_envelope (obj_get kvs ''envelope'');
     _ \<leftarrow> optional (read_str uuid) (obj_get kvs ''lease_id'');
     Some (CfOutcome call_id terminal (obj_get kvs ''envelope'')) }"

definition parse_caller_frame :: "(string \<Rightarrow> bool) \<Rightarrow> js_value \<Rightarrow> caller_frame option" where
  "parse_caller_frame uuid input = do {
     kvs \<leftarrow> as_object input;
     (case obj_get kvs ''type'' of
        JStr t \<Rightarrow>
          if t = ''call_status'' then parse_status kvs
          else if t = ''call_queued'' then parse_queued kvs
          else if t = ''call_error'' then parse_relay_error kvs
          else if t = ''call_outcome'' then parse_caller_outcome uuid kvs
          else None
      | _ \<Rightarrow> None) }"

subsection \<open>Before the socket opens\<close>

record call_args =
  cl_relay :: string
  cl_org :: string
  cl_from :: string
  cl_token :: string
  cl_target :: string
  cl_message :: js_string
  cl_context_id :: "string option"
  cl_task :: "string option"
  cl_correlation :: "string option"
  cl_traceparent :: "string option"

record call_fresh =
  fr_correlation :: string
  fr_message_id :: string
  fr_request_id :: string

record call_clock =
  ck_pin :: int
  ck_load :: int
  ck_issue :: int

text \<open>The platform: \<open>ce_hash\<close> is the hex SHA-256, \<open>ce_card\<close> parses a card to its offline switch.\<close>

record 'w call_env =
  ce_crypto :: crypto
  ce_hash :: "byte list \<Rightarrow> string"
  ce_hostname :: "string \<Rightarrow> string"
  ce_url_ok :: "string \<Rightarrow> bool"
  ce_uuid :: "string \<Rightarrow> bool"
  ce_card :: "js_value \<Rightarrow> bool option"
  ce_net :: "'w network"

record 'w client_world =
  cw_net :: 'w
  cw_peers :: "known_peer list stored"
  cw_keys :: key_dir
  cw_jobs :: "outbound_job list stored"

datatype call_failure =
  CallFailed call_error | PeerRefused peer_error | KeysRefused key_error | NotSealed sealing_error
| JobRefused job_error | FrameRefused

type_synonym ('w, 'a) call_op = "('w client_world, call_failure + 'a) prog"

definition on_network :: "('w, 'a) prog \<Rightarrow> ('w client_world, 'a) prog" where
  "on_network = zoom cw_net (\<lambda>t. cw_net_update (\<lambda>_. t))"

definition on_keys :: "(key_dir, 'a) prog \<Rightarrow> ('w client_world, 'a) prog" where
  "on_keys = zoom cw_keys (\<lambda>t. cw_keys_update (\<lambda>_. t))"

definition failing :: "('e \<Rightarrow> call_failure) \<Rightarrow> ('w client_world, 'e + 'a) prog \<Rightarrow> ('w, 'a) call_op" where
  "failing f p = bindp p (\<lambda>r. Return (map_sum f id r))"

definition keys_call_error :: "string \<Rightarrow> api_failure \<Rightarrow> call_failure" where
  "keys_call_error correlation e = CallFailed (case e of
     Thrown \<Rightarrow> call_error_from FromTransport ''connection_failed'' None (Some correlation)
   | ApiError code \<Rightarrow>
       if code = AcNetwork then call_error_from FromTransport ''connection_failed'' None (Some correlation)
       else call_error_from FromRelay
              (if code = AcUnknownHandle then ''unknown_handle''
               else if code = AcUnauthorized then ''unauthorized'' else ''protocol_error'') None (Some correlation))"

definition pin_recipient :: "crypto \<Rightarrow> string \<Rightarrow> key_bundle \<Rightarrow> int \<Rightarrow> ('w, known_peer) call_op" where
  "pin_recipient c address b now = act (\<lambda>w. case verify_and_pin_peer c (cw_peers w) address b now of
     Inl e \<Rightarrow> (w, Inl (PeerRefused e)) | Inr (peers, peer) \<Rightarrow> (w\<lparr>cw_peers := Stored peers\<rparr>, Inr peer))"

definition remember_job :: "(string \<Rightarrow> bool) \<Rightarrow> outbound_job \<Rightarrow> ('w, outbound_job) call_op" where
  "remember_job url_ok j = act (\<lambda>w. case remember_outbound_job url_ok j (cw_jobs w) of
     Inl e \<Rightarrow> (w, Inl (JobRefused e)) | Inr (jobs, kept) \<Rightarrow> (w\<lparr>cw_jobs := jobs\<rparr>, Inr kept))"

definition if_given :: "string option \<Rightarrow> string option" where
  "if_given x = (if x = Some [] then None else x)"

definition call_correlation :: "call_args \<Rightarrow> call_fresh \<Rightarrow> string" where
  "call_correlation opts fresh = (case if_given (cl_correlation opts) of
     Some c \<Rightarrow> if correlation_id_re c then c else fr_correlation fresh | None \<Rightarrow> fr_correlation fresh)"

definition call_request_payload ::
  "'w call_env \<Rightarrow> call_args \<Rightarrow> call_fresh \<Rightarrow> bool \<Rightarrow> key_bundle \<Rightarrow> ring_keys \<Rightarrow> int \<Rightarrow> request_payload" where
  "call_request_payload env opts fresh mailbox b keys issued =
     \<lparr>ib_relay_origin = ce_hostname env (cl_relay opts), ib_from = format_address (cl_org opts) (cl_from opts),
      ib_to = format_address (cl_org opts) (cl_target opts), ib_message_id = Some (fr_message_id fresh),
      ib_delivery_mode = (if mailbox then Some Durable else None), ib_request_id = fr_request_id fresh,
      ib_sender_identity_key_id = cr_key_id (ce_crypto env) (sk_identity_pub keys),
      ib_recipient_encryption_key_id = ek_key_id (kb_record b), ib_recipient_epoch = ek_epoch (kb_record b),
      ib_issued_at = issued, ib_expires_at = issued + (if mailbox then MAILBOX_TTL_MS else RELAY_CALL_TIMEOUT_MS),
      rq_task = if_given (cl_task opts), rq_context_id = if_given (cl_context_id opts), rq_message = cl_message opts\<rparr>"

definition caller_frame_for ::
  "call_args \<Rightarrow> call_fresh \<Rightarrow> bool \<Rightarrow> envelope \<Rightarrow> call_request option" where
  "caller_frame_for opts fresh mailbox e =
     (let correlation = call_correlation opts fresh
      in if envelope_ok e \<and> en_direction e = Request \<and> message_id_re (fr_message_id fresh) \<and> correlation_id_re correlation
         then Some \<lparr>cr_envelope = e, cr_message_id = Some (fr_message_id fresh),
                 cr_delivery_mode = (if mailbox then Some Durable else None), cr_correlation_id = correlation,
                 cr_traceparent = (case cl_traceparent opts of None \<Rightarrow> None
                    | Some t \<Rightarrow> normalize_traceparent (Some correlation) (JStr t))\<rparr>
         else None)"

record prepared_call =
  pp_correlation :: string
  pp_message_id :: string
  pp_mailbox :: bool
  pp_address :: string
  pp_frame :: call_request
  pp_pkcs8 :: string
  pp_peer_identity :: string
  pp_expected :: expected_envelope
  pp_binding :: response_binding

definition outbound_job_for ::
  "call_args \<Rightarrow> prepared_call \<Rightarrow> request_payload \<Rightarrow> ring_keys \<Rightarrow> string \<Rightarrow> outbound_job" where
  "outbound_job_for opts p request keys transcript_hash =
     \<lparr>oj_message_id = pp_message_id p, oj_relay = cl_relay opts, oj_address = pp_address p, oj_frame = pp_frame p,
      oj_request_id = ib_request_id request, oj_transcript_hash = transcript_hash,
      oj_recipient_pub = pp_peer_identity p, oj_sender_epoch = sk_epoch keys, oj_created_at = ib_issued_at request,
      oj_expires_at = ib_expires_at request, oj_state = JobPending, oj_task_id = None, oj_submitted_at = None\<rparr>"

text \<open>Sealing, the binding of the answer, and the job that is written down before the socket opens.\<close>

definition seal_call ::
  "'w call_env \<Rightarrow> call_args \<Rightarrow> call_fresh \<Rightarrow> bool \<Rightarrow> key_bundle \<Rightarrow> known_peer \<Rightarrow> ring_keys \<Rightarrow> int
   \<Rightarrow> call_failure + prepared_call \<times> outbound_job" where
  "seal_call env opts fresh mailbox b peer keys issued =
     (let c = ce_crypto env; request = call_request_payload env opts fresh mailbox b keys issued
      in case seal_e2ee_request c request
                \<lparr>si_identity_pub = sk_identity_pub keys, si_identity_pkcs8 = sk_identity_pkcs8 keys\<rparr>
                \<lparr>recipient_key.rk_pub = ek_pub (kb_record b), recipient_key.rk_key_id = ek_key_id (kb_record b),
                 recipient_key.rk_epoch = ek_epoch (kb_record b)\<rparr> of
           Inl e \<Rightarrow> Inl (NotSealed e)
         | Inr e \<Rightarrow>
             (case (request_transcript request, caller_frame_for opts fresh mailbox e) of
                (Inl _, _) \<Rightarrow> Inl (NotSealed SeTranscript)
              | (Inr _, None) \<Rightarrow> Inl FrameRefused
              | (Inr t, Some frame) \<Rightarrow>
                  (let p = \<lparr>pp_correlation = call_correlation opts fresh, pp_message_id = fr_message_id fresh,
                        pp_mailbox = mailbox, pp_address = ib_to request, pp_frame = frame,
                        pp_pkcs8 = sk_encryption_pkcs8 keys, pp_peer_identity = kp_identity_pub peer,
                        pp_expected = \<lparr>xe_relay_origin = ib_relay_origin request, xe_from = ib_to request,
                          xe_to = ib_from request, xe_key_id = cr_key_id c (sk_encryption_pub keys),
                          xe_epoch = sk_epoch keys\<rparr>,
                        pp_binding = \<lparr>rb_message_id = Some (fr_message_id fresh), rb_request_id = ib_request_id request,
                          rb_request_transcript_hash = ce_hash env t, rb_delivery_mode = ib_delivery_mode request\<rparr>\<rparr>
                   in Inr (p, outbound_job_for opts p request keys (ce_hash env t)))))"

definition fetch_mailbox :: "'w call_env \<Rightarrow> call_args \<Rightarrow> api_auth \<Rightarrow> ('w, bool) call_op" where
  "fetch_mailbox env opts a = bindp (on_network (fetch_card (ce_net env) (ce_card env) (cl_relay opts) (cl_target opts) a))
     (\<lambda>r. succeed (case r of Inl _ \<Rightarrow> False | Inr enabled \<Rightarrow> enabled))"

definition prepare_call :: "'w call_env \<Rightarrow> call_args \<Rightarrow> call_fresh \<Rightarrow> call_clock \<Rightarrow> ('w, prepared_call) call_op" where
  "prepare_call env opts fresh clock =
     (let correlation = call_correlation opts fresh; address = format_address (cl_org opts) (cl_target opts);
          a = \<lparr>au_org = cl_org opts, au_handle = cl_from opts, au_token = cl_token opts\<rparr>
      in and_then (require (handle_re (cl_target opts))
             (CallFailed (call_error_from FromTransport ''protocol_error'' None (Some correlation)))) (\<lambda>_.
         and_then (fetch_mailbox env opts a) (\<lambda>mailbox.
         and_then (failing (keys_call_error correlation)
             (on_network (fetch_keys (ce_net env) (cl_relay opts) a (cl_target opts)))) (\<lambda>b.
         and_then (pin_recipient (ce_crypto env) address b (ck_pin clock)) (\<lambda>peer.
         and_then (failing KeysRefused (on_keys (load_keys (ck_load clock)))) (\<lambda>keys.
         case seal_call env opts fresh mailbox b peer keys (ck_issue clock) of
           Inl e \<Rightarrow> raise e
         | Inr (p, job) \<Rightarrow>
             if mailbox then and_then (remember_job (ce_url_ok env) job) (\<lambda>_. succeed p) else succeed p))))))"

subsection \<open>The socket\<close>

text \<open>
  A handler that awaits: the acknowledgement of a receipt, the opening of an outcome, or the
  removal of the finished job.
\<close>

datatype awaiting =
  Acknowledging queued_frame | Opening string outcome_terminal js_value | Forgetting string e2ee_outcome

record call_session =
  ses_settled :: "(call_error + call_answer) option"
  ses_terminal :: bool
  ses_sent :: bool
  ses_status :: "call_state list"
  ses_waiting :: "awaiting list"
  ses_jobs :: "outbound_job list stored"

definition open_session :: "outbound_job list stored \<Rightarrow> call_session" where
  "open_session jobs = \<lparr>ses_settled = None, ses_terminal = False, ses_sent = False, ses_status = [], ses_waiting = [],
     ses_jobs = jobs\<rparr>"

text \<open>\<open>finish\<close>: the first result wins.\<close>

definition settle_call :: "call_error + call_answer \<Rightarrow> call_session \<Rightarrow> call_session" where
  "settle_call r s = (if ses_settled s = None then s\<lparr>ses_settled := Some r\<rparr> else s)"

definition refuse :: "prepared_call \<Rightarrow> string option \<Rightarrow> call_session \<Rightarrow> call_session" where
  "refuse p call_id = settle_call (Inl (call_error_from FromTransport ''protocol_error'' call_id (Some (pp_correlation p))))"

definition await_then :: "awaiting \<Rightarrow> call_session \<Rightarrow> call_session" where
  "await_then h s = s\<lparr>ses_waiting := ses_waiting s @ [h]\<rparr>"

fun on_frame :: "prepared_call \<Rightarrow> caller_frame \<Rightarrow> call_session \<Rightarrow> call_session" where
  "on_frame p (CfStatus state _ _) s = s\<lparr>ses_status := ses_status s @ [state]\<rparr>"
| "on_frame p (CfQueued q) s =
     (if qf_message_id q \<noteq> pp_message_id p \<or> qf_correlation q \<noteq> pp_correlation p then refuse p (Some (qf_call_id q)) s
      else await_then (Acknowledging q) s)"
| "on_frame p (CfOutcome call_id terminal raw) s = await_then (Opening call_id terminal raw) (s\<lparr>ses_terminal := True\<rparr>)"
| "on_frame p (CfError code call_id correlation) s =
     settle_call (Inl (call_error_from FromRelay (relay_error_code code) call_id correlation)) s"

fun replies :: "e2ee_outcome \<Rightarrow> bool" where
  "replies (Reply _ _ _) = True"
| "replies (Failure _ _ _) = False"

text \<open>What an authenticated outcome settles the call with.\<close>

fun outcome_result :: "prepared_call \<Rightarrow> string \<Rightarrow> e2ee_outcome \<Rightarrow> call_error + call_answer" where
  "outcome_result p call_id (Reply text context_id task) =
     Inr (Replied \<lparr>cy_call_id = call_id, cy_correlation = pp_correlation p, cy_text = text,
       cy_context_id = if_given context_id, cy_task = if_given task\<rparr>)"
| "outcome_result p call_id (Failure code detail offered) =
     Inl \<lparr>cx_code = peer_failure_code code, cx_offered = offered, cx_call_id = Some call_id,
       cx_correlation = Some (pp_correlation p), cx_origin = FromPeer,
       cx_detail = map_option (\<lambda>d. sanitize_detail d MAX_DETAIL_LENGTH) detail\<rparr>"

definition frame_receipt :: "queued_frame \<Rightarrow> durable_receipt" where
  "frame_receipt q = \<lparr>dr_task_id = qf_call_id q, dr_submitted_at = qf_submitted_at q, dr_expires_at = qf_expires_at q\<rparr>"

text \<open>\<open>locked\<close> is whether the store's lock was obtained in time.\<close>

definition acknowledged :: "'w call_env \<Rightarrow> prepared_call \<Rightarrow> bool \<Rightarrow> queued_frame \<Rightarrow> call_session \<Rightarrow> call_session" where
  "acknowledged env p locked q s =
     (case (if locked then acknowledge_outbound_job (ce_url_ok env) (pp_message_id p) (frame_receipt q) (ses_jobs s)
            else Inl JobsUnwritable) of
        Inl _ \<Rightarrow> refuse p (Some (qf_call_id q)) s
      | Inr (jobs, _) \<Rightarrow> settle_call (Inr (QueuedCall q (pp_address p))) (s\<lparr>ses_jobs := jobs\<rparr>))"

definition opened ::
  "'w call_env \<Rightarrow> prepared_call \<Rightarrow> int \<Rightarrow> string \<Rightarrow> outcome_terminal \<Rightarrow> js_value \<Rightarrow> call_session \<Rightarrow> call_session" where
  "opened env p now call_id terminal raw s =
     (case open_e2ee_response (ce_crypto env) raw (pp_pkcs8 p) (pp_peer_identity p) (pp_expected p) (pp_binding p) now of
        Inl _ \<Rightarrow> refuse p (Some call_id) s
      | Inr r \<Rightarrow>
          if (terminal = OtCompleted) \<noteq> replies (rs_outcome r) then refuse p (Some call_id) s
          else if pp_mailbox p then await_then (Forgetting call_id (rs_outcome r)) s
          else settle_call (outcome_result p call_id (rs_outcome r)) s)"

definition forgotten :: "'w call_env \<Rightarrow> prepared_call \<Rightarrow> bool \<Rightarrow> call_session \<Rightarrow> call_session" where
  "forgotten env p locked s =
     (case (if locked then forget_outbound_job (ce_url_ok env) (pp_message_id p) (ses_jobs s) else Inl JobsUnwritable) of
        Inl _ \<Rightarrow> s | Inr (jobs, _) \<Rightarrow> s\<lparr>ses_jobs := jobs\<rparr>)"

fun resume_handler ::
  "'w call_env \<Rightarrow> prepared_call \<Rightarrow> int \<Rightarrow> bool \<Rightarrow> awaiting \<Rightarrow> call_session \<Rightarrow> call_session" where
  "resume_handler env p now locked (Acknowledging q) s = acknowledged env p locked q s"
| "resume_handler env p now locked (Opening call_id terminal raw) s = opened env p now call_id terminal raw s"
| "resume_handler env p now locked (Forgetting call_id outc) s = settle_call (outcome_result p call_id outc) (forgotten env p locked s)"

datatype call_event =
  UnexpectedResponse nat | SocketError | SocketOpen | FrameArrived nat "js_value option" | SocketClosed | TimerFired
| Resumed nat int bool | JobsReplaced "outbound_job list stored"

fun call_step :: "'w call_env \<Rightarrow> prepared_call \<Rightarrow> call_session \<Rightarrow> call_event \<Rightarrow> call_session" where
  "call_step env p s (UnexpectedResponse status) =
     settle_call (Inl (call_error_from FromRelay (if status = 404 then ''unknown_handle'' else ''unauthorized'') None
       (Some (pp_correlation p)))) s"
| "call_step env p s SocketError = settle_call (Inl (call_error_from FromTransport ''connection_failed'' None None)) s"
| "call_step env p s SocketOpen = s\<lparr>ses_sent := True\<rparr>"
| "call_step env p s (FrameArrived bytes parsed) =
     (if bytes > MAX_E2EE_WIRE_BYTES then refuse p None s
      else case safe_parse_frame (parse_caller_frame (ce_uuid env)) parsed of
        None \<Rightarrow> s | Some f \<Rightarrow> on_frame p f s)"
| "call_step env p s SocketClosed =
     (if ses_terminal s then s else settle_call (Inl (call_error_from FromTransport ''connection_failed'' None None)) s)"
| "call_step env p s TimerFired = settle_call (Inl (call_error_from FromTransport ''timeout'' None None)) s"
| "call_step env p s (Resumed i now locked) =
     (if i < length (ses_waiting s)
      then resume_handler env p now locked (ses_waiting s ! i)
             (s\<lparr>ses_waiting := take i (ses_waiting s) @ drop (Suc i) (ses_waiting s)\<rparr>)
      else s)"
| "call_step env p s (JobsReplaced jobs) = s\<lparr>ses_jobs := jobs\<rparr>"

definition run_call :: "'w call_env \<Rightarrow> prepared_call \<Rightarrow> call_event list \<Rightarrow> call_session \<Rightarrow> call_session" where
  "run_call env p events s = foldl (call_step env p) s events"

text \<open>The whole call: what it settles with, and the world it leaves.\<close>

definition call_agent ::
  "'w call_env \<Rightarrow> call_args \<Rightarrow> call_fresh \<Rightarrow> call_clock \<Rightarrow> call_event list \<Rightarrow> 'w client_world
   \<Rightarrow> 'w client_world \<times> (call_failure + call_answer) option" where
  "call_agent env opts fresh clock events w = (case run_prog (prepare_call env opts fresh clock) w of
     (w', Inl e) \<Rightarrow> (w', Some (Inl e))
   | (w', Inr p) \<Rightarrow>
       (let s = run_call env p events (open_session (cw_jobs w'))
        in (w'\<lparr>cw_jobs := ses_jobs s\<rparr>, map_option (map_sum CallFailed id) (ses_settled s))))"

end
