(* ===== verification/CallRuns.thy ===== *)
theory CallRuns
  imports CallClient
begin

text \<open>
  What a call settles with. Its promise is settled once and never stays open after the
  socket closed; a reply, or a failure that is attributed to the peer, was opened from a
  response that the pinned peer signed for this very request; and a durable call is written
  down before its socket opens. A receipt whose acknowledgement is still being stored when
  the relay closes the socket is reported as a lost connection.
\<close>

subsection \<open>Settling\<close>

lemma settled_settle [simp]: "ses_settled (settle_call r s) = (case ses_settled s of None \<Rightarrow> Some r | Some x \<Rightarrow> Some x)"
  by (simp add: settle_call_def split: option.split)

lemma settle_keeps [simp]:
  "ses_terminal (settle_call r s) = ses_terminal s" "ses_waiting (settle_call r s) = ses_waiting s" "ses_jobs (settle_call r s) = ses_jobs s"
  by (simp_all add: settle_call_def)

lemma refuse_keeps [simp]:
  "ses_terminal (refuse p c s) = ses_terminal s" "ses_waiting (refuse p c s) = ses_waiting s"
  "ses_settled (refuse p c s) \<noteq> None" "\<exists>y. ses_settled (refuse p c s) = Some y"
  by (simp_all add: refuse_def split: option.split)

lemma await_keeps [simp]:
  "ses_terminal (await_then h s) = ses_terminal s" "ses_waiting (await_then h s) = ses_waiting s @ [h]"
  "ses_settled (await_then h s) = ses_settled s"
  by (simp_all add: await_then_def)

lemma forgotten_keeps [simp]:
  "ses_terminal (forgotten env p l s) = ses_terminal s" "ses_waiting (forgotten env p l s) = ses_waiting s"
  "ses_settled (forgotten env p l s) = ses_settled s"
  by (simp_all add: forgotten_def split: sum.split prod.split)

lemma acknowledged_keeps [simp]:
  "ses_terminal (acknowledged env p l q s) = ses_terminal s" "ses_waiting (acknowledged env p l q s) = ses_waiting s"
  "\<exists>y. ses_settled (acknowledged env p l q s) = Some y"
  by (simp_all add: acknowledged_def split: sum.split prod.split option.split)

text \<open>The promise is settled by its first result.\<close>

lemma refuse_settled: "ses_settled s = Some x \<Longrightarrow> ses_settled (refuse p c s) = Some x"
  by (simp add: refuse_def)

lemma step_keeps_settled:
  assumes "ses_settled s = Some x"
  shows "ses_settled (call_step env p s e) = Some x"
proof -
  have frame: "ses_settled (on_frame p f s) = Some x" for f
    using assms by (cases f) (simp_all add: refuse_settled)
  have handler: "ses_settled t = Some x \<Longrightarrow> ses_settled (resume_handler env p now l h t) = Some x" for now l h t
    by (cases h) (auto simp: acknowledged_def opened_def refuse_settled split: sum.split prod.split)
  show ?thesis using assms frame handler
    by (cases e) (simp_all add: refuse_settled split: option.split)
qed

lemma run_append: "run_call env p (es @ fs) s = run_call env p fs (run_call env p es s)"
  by (simp add: run_call_def)

lemma run_keeps_settled: "ses_settled s = Some x \<Longrightarrow> ses_settled (run_call env p es s) = Some x"
  by (induction es arbitrary: s) (simp_all add: run_call_def step_keeps_settled)

text \<open>An unsettled call that saw its outcome still has a handler that will settle it.\<close>

fun finishing :: "awaiting \<Rightarrow> bool" where
  "finishing (Acknowledging _) = False"
| "finishing (Opening _ _ _) = True"
| "finishing (Forgetting _ _) = True"

definition will_settle :: "call_session \<Rightarrow> bool" where
  "will_settle s \<longleftrightarrow> (ses_settled s = None \<longrightarrow> ses_terminal s \<longrightarrow> (\<exists>h\<in>set (ses_waiting s). finishing h))"

lemma set_remove_nth: "i < length xs \<Longrightarrow> set xs = insert (xs ! i) (set (take i xs @ drop (Suc i) xs))"
  by (subst id_take_nth_drop[of i xs]) auto

lemma opened_settles: "ses_settled (opened env p now c t raw s) \<noteq> None \<or>
  (\<exists>o1. opened env p now c t raw s = await_then (Forgetting c o1) s)"
  by (auto simp: opened_def split: sum.split option.split)

lemma step_will_settle:
  assumes "will_settle s"
  shows "will_settle (call_step env p s e)"
proof (cases "ses_settled (call_step env p s e) = None")
  case False
  then show ?thesis by (auto simp: will_settle_def)
next
  case open_still: True
  have "ses_settled s = None" using open_still step_keeps_settled[of s _ env p e] by fastforce
  then have s: "ses_terminal s \<longrightarrow> (\<exists>h\<in>set (ses_waiting s). finishing h)" using assms by (simp add: will_settle_def)
  show ?thesis
  proof (cases e)
    case (FrameArrived n parsed)
    have "will_settle (on_frame p f s)" for f using s by (cases f) (auto simp: will_settle_def)
    then show ?thesis using s FrameArrived open_still by (auto simp: will_settle_def split: option.split if_splits)
  next
    case (Resumed i now l)
    let ?t = "s\<lparr>ses_waiting := take i (ses_waiting s) @ drop (Suc i) (ses_waiting s)\<rparr>"
    show ?thesis
    proof (cases "i < length (ses_waiting s)")
      case True
      note rest = set_remove_nth[OF True]
      show ?thesis
      proof (cases "ses_waiting s ! i")
        case (Opening c t raw)
        then show ?thesis using open_still Resumed True opened_settles[of env p now c t raw ?t] by (auto simp: will_settle_def)
      next
        case (Acknowledging q)
        then show ?thesis using open_still Resumed True acknowledged_keeps(3)[of env p l q ?t] by auto
      next
        case (Forgetting c o1)
        then show ?thesis using open_still Resumed True \<open>ses_settled s = None\<close> by simp
      qed
    qed (use assms Resumed in simp)
  qed (use s open_still in \<open>auto simp: will_settle_def split: if_splits option.splits\<close>)
qed

lemma run_will_settle: "will_settle s \<Longrightarrow> will_settle (run_call env p es s)"
  by (induction es arbitrary: s) (simp_all add: run_call_def step_will_settle)

lemma step_keeps_terminal: "ses_terminal s \<Longrightarrow> ses_terminal (call_step env p s e)"
proof -
  assume t: "ses_terminal s"
  have frame: "ses_terminal (on_frame p f s)" for f using t by (cases f) simp_all
  have handler: "ses_terminal u \<Longrightarrow> ses_terminal (resume_handler env p now l h u)" for now l h u
    by (cases h) (auto simp: opened_def split: sum.split)
  show ?thesis using t frame handler by (cases e) (simp_all split: option.split)
qed

lemma closed_call:
  assumes "e = SocketClosed \<or> e = TimerFired \<or> e = SocketError"
  shows "ses_settled (call_step env p s e) \<noteq> None \<or> ses_terminal (call_step env p s e)"
  using assms by (auto split: option.split)

text \<open>
  C12: A call never hangs. After the socket closed or failed or the timer fired, in whatever
  order the other events came, the promise is settled as soon as no handler is in flight;
  and whatever it settled with first, no later event changes.
\<close>

theorem call_settles_once:
  assumes "e \<in> {SocketClosed, TimerFired, SocketError}"
    and "s = run_call env p (before @ e # after) (open_session jobs)"
  shows "(ses_waiting s = [] \<longrightarrow> ses_settled s \<noteq> None) \<and>
    (\<forall>r more. ses_settled s = Some r \<longrightarrow> ses_settled (run_call env p more s) = Some r)"
proof (intro conjI impI allI)
  let ?c = "call_step env p (run_call env p before (open_session jobs)) e"
  have s: "s = run_call env p after ?c" using assms(2) by (simp add: run_call_def)
  have w: "will_settle s" unfolding assms(2) by (rule run_will_settle) (simp add: will_settle_def open_session_def)
  have t: "ses_terminal x \<Longrightarrow> ses_terminal (run_call env p after x)" for x
    by (induction after arbitrary: x) (simp_all add: run_call_def step_keeps_terminal)
  show "ses_settled s \<noteq> None" if "ses_waiting s = []"
    using closed_call[of e env p "run_call env p before (open_session jobs)"] assms(1) w that t[of ?c]
      run_keeps_settled[of ?c _ env p after] unfolding s will_settle_def by fastforce
  show "ses_settled (run_call env p more s) = Some r" if "ses_settled s = Some r" for r more
    using run_keeps_settled[OF that] .
qed

subsection \<open>Authenticity\<close>

definition was_opened :: "'w call_env \<Rightarrow> prepared_call \<Rightarrow> e2ee_outcome \<Rightarrow> bool" where
  "was_opened env p outc \<longleftrightarrow> (\<exists>raw now r. rs_outcome r = outc \<and>
     open_e2ee_response (ce_crypto env) raw (pp_pkcs8 p) (pp_peer_identity p) (pp_expected p) (pp_binding p) now = Inr r)"

fun from_peer :: "call_error + call_answer \<Rightarrow> bool" where
  "from_peer (Inr (Replied _)) = True"
| "from_peer (Inr (QueuedCall _ _)) = False"
| "from_peer (Inl e) = (cx_origin e = FromPeer)"

definition authentic :: "'w call_env \<Rightarrow> prepared_call \<Rightarrow> call_session \<Rightarrow> bool" where
  "authentic env p s \<longleftrightarrow>
     (\<forall>c outc. Forgetting c outc \<in> set (ses_waiting s) \<longrightarrow> was_opened env p outc) \<and>
     (\<forall>r. ses_settled s = Some r \<longrightarrow> from_peer r \<longrightarrow> (\<exists>c outc. was_opened env p outc \<and> r = outcome_result p c outc))"

lemma authentic_settle:
  "authentic env p s \<Longrightarrow> (from_peer r \<Longrightarrow> \<exists>c outc. was_opened env p outc \<and> r = outcome_result p c outc) \<Longrightarrow>
   authentic env p (settle_call r s)"
  by (auto simp: authentic_def split: option.splits)

lemma authentic_refuse: "authentic env p s \<Longrightarrow> authentic env p (refuse p c s)"
  unfolding refuse_def by (rule authentic_settle) (simp_all add: call_error_from_def)

lemma authentic_await: "authentic env p s \<Longrightarrow> (\<And>c outc. h = Forgetting c outc \<Longrightarrow> was_opened env p outc) \<Longrightarrow>
  authentic env p (await_then h s)"
  by (auto simp: authentic_def)

lemma authentic_same:
  "authentic env p s \<Longrightarrow> set (ses_waiting t) \<subseteq> set (ses_waiting s) \<Longrightarrow> ses_settled t = ses_settled s \<Longrightarrow> authentic env p t"
  by (auto simp: authentic_def)

lemma authentic_frame: "authentic env p s \<Longrightarrow> authentic env p (on_frame p f s)"
  by (cases f) (auto intro!: authentic_settle authentic_refuse authentic_await intro: authentic_same simp: call_error_from_def)

lemma authentic_handler:
  assumes "authentic env p s" "\<And>c outc. h = Forgetting c outc \<Longrightarrow> was_opened env p outc"
  shows "authentic env p (resume_handler env p now l h s)"
proof (cases h)
  case (Acknowledging q)
  then show ?thesis using assms(1)
    by (auto simp: acknowledged_def intro!: authentic_refuse authentic_settle intro: authentic_same split: sum.split)
next
  case (Opening c t raw)
  show ?thesis
  proof (cases "open_e2ee_response (ce_crypto env) raw (pp_pkcs8 p) (pp_peer_identity p) (pp_expected p) (pp_binding p) now")
    case (Inl e)
    then show ?thesis using assms(1) Opening by (simp add: opened_def authentic_refuse)
  next
    case (Inr r)
    then have "was_opened env p (rs_outcome r)" unfolding was_opened_def by blast
    then show ?thesis using assms(1) Opening Inr
      by (auto simp: opened_def intro!: authentic_refuse authentic_await authentic_settle)
  qed
next
  case (Forgetting c outc)
  then show ?thesis using assms
    by (auto intro!: authentic_settle intro: authentic_same[of env p s "forgotten env p l s"])
qed

lemma authentic_step:
  assumes "authentic env p s"
  shows "authentic env p (call_step env p s e)"
proof (cases e)
  case (Resumed i now l)
  show ?thesis
  proof (cases "i < length (ses_waiting s)")
    case True
    let ?t = "s\<lparr>ses_waiting := take i (ses_waiting s) @ drop (Suc i) (ses_waiting s)\<rparr>"
    note rest = set_remove_nth[OF True]
    have "authentic env p ?t" by (rule authentic_same[OF assms]) (use rest in auto)
    moreover have "ses_waiting s ! i = Forgetting c outc \<Longrightarrow> was_opened env p outc" for c outc
      using assms nth_mem[OF True] unfolding authentic_def by metis
    ultimately show ?thesis using Resumed True by (simp add: authentic_handler)
  qed (use assms Resumed in simp)
qed (use assms in \<open>auto intro!: authentic_settle authentic_refuse authentic_frame intro: authentic_same
       simp: call_error_from_def split: option.split\<close>)

lemma authentic_run: "authentic env p s \<Longrightarrow> authentic env p (run_call env p es s)"
  by (induction es arbitrary: s) (simp_all add: run_call_def authentic_step)

subsection \<open>What preparing established\<close>

interpretation net_part: part_of cw_net "\<lambda>t. cw_net_update (\<lambda>_. t)" by unfold_locales simp_all

interpretation keys_part: part_of cw_keys "\<lambda>t. cw_keys_update (\<lambda>_. t)" by unfold_locales simp_all

lemma run_on_network: "run_prog (on_network m) w = (case run_prog m (cw_net w) of (t, x) \<Rightarrow> (w\<lparr>cw_net := t\<rparr>, x))"
  unfolding on_network_def by (rule net_part.run_zoom)

lemma run_on_keys: "run_prog (on_keys m) w = (case run_prog m (cw_keys w) of (t, x) \<Rightarrow> (w\<lparr>cw_keys := t\<rparr>, x))"
  unfolding on_keys_def by (rule keys_part.run_zoom)

lemma find_peer_new: "find_peer ps a = None \<Longrightarrow> kp_address v = a \<Longrightarrow> find_peer (ps @ [v]) a = Some v"
  by (induction ps) (auto simp: find_peer_def split: if_splits)

lemma verified_peer:
  assumes "verify_and_pin_peer c store address b now = Inr (peers, v)"
  shows "find_peer peers address = Some v \<and>
    (\<forall>ps q. load_known_peers store = Inr ps \<longrightarrow> find_peer ps address = Some q \<longrightarrow> kp_identity_pub q = kp_identity_pub v)"
proof -
  obtain ps where ps: "load_known_peers store = Inr ps" "verify_known_peer c ps b now = Inr (peers, v)"
    and a: "ir_address (kb_identity b) = address"
    using assms by (auto simp: verify_and_pin_peer_def split: if_split_asm sum.splits)
  show ?thesis
  proof (cases "find_peer ps address")
    case None
    then have "peers = ps @ [v] \<and> kp_address v = address" using ps(2) a
      by (auto simp: verify_known_peer_def Let_def save_known_peers_Inr map_sum_def first_seen_peer_def
          split: option.splits if_split_asm sum.splits)
    then show ?thesis using None ps(1) by (simp add: find_peer_new)
  next
    case (Some q)
    have v: "v = seen_peer q b" "peers = map (\<lambda>x. if kp_address x = address then seen_peer q b else x) ps"
      using ps(2) a Some by (auto simp: verify_known_peer_def Let_def save_known_peers_Inr map_sum_def
          split: if_split_asm sum.splits)
    have "kp_address (seen_peer q b) = address" using find_peer_address[OF Some] by (simp add: seen_peer_def)
    then show ?thesis using Some v ps(1) find_peer_map_same[OF Some] by (auto simp: seen_peer_def)
  qed
qed

text \<open>A prepared call, with the request behind it.\<close>

definition prepared_for ::
  "'w call_env \<Rightarrow> call_args \<Rightarrow> call_fresh \<Rightarrow> prepared_call \<Rightarrow> request_payload \<Rightarrow> outbound_job \<Rightarrow> bool" where
  "prepared_for env opts fresh p request job \<longleftrightarrow> (\<exists>t. request_transcript request = Inr t \<and>
     rq_message request = cl_message opts \<and> ib_to request = format_address (cl_org opts) (cl_target opts) \<and>
     ib_from request = format_address (cl_org opts) (cl_from opts) \<and> ib_request_id request = fr_request_id fresh \<and>
     rb_request_transcript_hash (pp_binding p) = ce_hash env t \<and> rb_request_id (pp_binding p) = fr_request_id fresh \<and>
     xe_from (pp_expected p) = ib_to request \<and> xe_to (pp_expected p) = ib_from request \<and>
     pp_message_id p = fr_message_id fresh \<and> oj_message_id job = fr_message_id fresh \<and> oj_frame job = pp_frame p \<and>
     oj_transcript_hash job = ce_hash env t \<and> oj_recipient_pub job = pp_peer_identity p)"

lemma seal_call_for:
  assumes "seal_call env opts fresh mailbox b peer keys issued = Inr (p, job)"
  shows "(\<exists>request. prepared_for env opts fresh p request job) \<and> pp_peer_identity p = kp_identity_pub peer \<and>
    pp_mailbox p = mailbox"
proof -
  let ?request = "call_request_payload env opts fresh mailbox b keys issued"
  obtain t where t: "request_transcript ?request = Inr t"
    using assms by (auto simp: seal_call_def Let_def split: sum.splits)
  with assms have "prepared_for env opts fresh p ?request job \<and> pp_peer_identity p = kp_identity_pub peer \<and> pp_mailbox p = mailbox"
    by (auto simp: seal_call_def Let_def prepared_for_def call_request_payload_def outbound_job_for_def
        split: sum.splits option.splits)
  then show ?thesis by blast
qed

lemma run_and_then_Inr: "run_prog (and_then m k) s = (s', Inr y) \<longleftrightarrow>
    (\<exists>s1 x. run_prog m s = (s1, Inr x) \<and> run_prog (k x) s1 = (s', Inr y))"
  by (auto split: prod.splits sum.splits)

lemma run_failing_Inr: "run_prog (failing f m) s = (s', Inr y) \<longleftrightarrow> run_prog m s = (s', Inr y)"
  by (cases "run_prog m s"; cases "snd (run_prog m s)") (auto simp: failing_def)

lemma fetch_mailbox_run:
  "\<exists>w1 mailbox. run_prog (fetch_mailbox env opts a) w = (w1, Inr mailbox) \<and> cw_peers w1 = cw_peers w \<and>
     cw_jobs w1 = cw_jobs w \<and> cw_keys w1 = cw_keys w"
  by (cases "run_prog (fetch_card (ce_net env) (ce_card env) (cl_relay opts) (cl_target opts) a) (cw_net w)")
     (simp add: fetch_mailbox_def run_on_network)

lemma prepared_call_cases:
  assumes "run_prog (prepare_call env opts fresh clock) w = (w', Inr p)"
  obtains b peer keys peers request job where
    "verify_and_pin_peer (ce_crypto env) (cw_peers w) (format_address (cl_org opts) (cl_target opts)) b (ck_pin clock) = Inr (peers, peer)"
    "cw_peers w' = Stored peers" "pp_peer_identity p = kp_identity_pub peer" "prepared_for env opts fresh p request job"
    "pp_mailbox p \<longrightarrow> (\<exists>kept. remember_outbound_job (ce_url_ok env) job (cw_jobs w) = Inr (cw_jobs w', kept))"
    "\<not> pp_mailbox p \<longrightarrow> cw_jobs w' = cw_jobs w"
proof -
  let ?a = "\<lparr>au_org = cl_org opts, au_handle = cl_from opts, au_token = cl_token opts\<rparr>"
  obtain w1 mailbox where m: "run_prog (fetch_mailbox env opts ?a) w = (w1, Inr mailbox)"
    and w1: "cw_peers w1 = cw_peers w" "cw_jobs w1 = cw_jobs w"
    using fetch_mailbox_run[of env opts ?a w] by blast
  obtain w2 b w3 peer w4 keys where
      k: "run_prog (on_network (fetch_keys (ce_net env) (cl_relay opts) ?a (cl_target opts))) w1 = (w2, Inr b)"
    and v: "run_prog (pin_recipient (ce_crypto env) (format_address (cl_org opts) (cl_target opts)) b (ck_pin clock)) w2
        = (w3, Inr peer)"
    and l: "run_prog (on_keys (load_keys (ck_load clock))) w3 = (w4, Inr keys)"
    and s: "run_prog (case seal_call env opts fresh mailbox b peer keys (ck_issue clock) of Inl e \<Rightarrow> raise e
         | Inr (p, job) \<Rightarrow> if mailbox then and_then (remember_job (ce_url_ok env) job) (\<lambda>_. succeed p) else succeed p) w4
        = (w', Inr p)"
    using assms m unfolding prepare_call_def Let_def run_and_then_Inr run_failing_Inr by auto
  have w2: "cw_peers w2 = cw_peers w" "cw_jobs w2 = cw_jobs w" using k w1 by (auto simp: run_on_network split: prod.splits)
  obtain peers where pin: "verify_and_pin_peer (ce_crypto env) (cw_peers w)
      (format_address (cl_org opts) (cl_target opts)) b (ck_pin clock) = Inr (peers, peer)"
    and w3: "cw_peers w3 = Stored peers" "cw_jobs w3 = cw_jobs w"
    using v w2 by (auto simp: pin_recipient_def split: sum.splits)
  have w4: "cw_peers w4 = Stored peers" "cw_jobs w4 = cw_jobs w" using l w3 by (auto simp: run_on_keys split: prod.splits)
  obtain job where job: "seal_call env opts fresh mailbox b peer keys (ck_issue clock) = Inr (p, job)"
    and r: "mailbox \<longrightarrow> (\<exists>kept. remember_outbound_job (ce_url_ok env) job (cw_jobs w) = Inr (cw_jobs w', kept) \<and>
        cw_peers w' = Stored peers)" "\<not> mailbox \<longrightarrow> w' = w4"
    using s w4 by (auto simp: remember_job_def run_and_then_Inr split: sum.splits if_splits)
  note s' = seal_call_for[OF job]
  then obtain request where "prepared_for env opts fresh p request job" by blast
  then show thesis using that[OF pin] s' r w4 by (cases mailbox) auto
qed

end
