(* ===== verification/CallResults.thy ===== *)
theory CallResults
  imports CallRuns
begin

text \<open>
  The properties of a whole call, from its arguments to what it settles with, and their
  witnesses on a durable call between two sample handles.
\<close>

definition pinned_as :: "known_peer list stored \<Rightarrow> string \<Rightarrow> string \<Rightarrow> bool" where
  "pinned_as store address pub \<longleftrightarrow>
     (\<exists>ps v. load_known_peers store = Inr ps \<and> find_peer ps address = Some v \<and> kp_identity_pub v = pub)"

lemma pinned_peer:
  assumes "verify_and_pin_peer c store address b now = Inr (peers, v)"
  shows "pinned_as (Stored peers) address (kp_identity_pub v) \<and>
    (\<forall>old. pinned_as store address old \<longrightarrow> old = kp_identity_pub v)"
proof -
  obtain ps where "verify_known_peer c ps b now = Inr (peers, v)"
    using assms by (auto simp: verify_and_pin_peer_def split: if_split_asm sum.splits)
  then have "known_peers_ok peers" using verify_known_peer_cases by blast
  then show ?thesis using verified_peer[OF assms] unfolding pinned_as_def by (auto simp: load_known_peers_def)
qed

text \<open>The answer of a peer: the text of a reply, or the code of a failure.\<close>

fun answers :: "e2ee_outcome \<Rightarrow> call_failure + call_answer \<Rightarrow> bool" where
  "answers (Reply text context_id task) (Inr (Replied r)) =
     (cy_text r = text \<and> cy_context_id r = if_given context_id \<and> cy_task r = if_given task)"
| "answers (Failure code detail offered) (Inl (CallFailed e)) =
     (cx_code e = peer_failure_code code \<and> cx_detail e = map_option (\<lambda>d. sanitize_detail d MAX_DETAIL_LENGTH) detail)"
| "answers _ _ = False"

fun peer_result :: "call_failure + call_answer \<Rightarrow> bool" where
  "peer_result (Inr (Replied _)) = True"
| "peer_result (Inr (QueuedCall _ _)) = False"
| "peer_result (Inl (CallFailed e)) = (cx_origin e = FromPeer)"
| "peer_result (Inl _) = False"

lemma answers_same:
  "same_outcome a b \<Longrightarrow> r = outcome_result p c a \<Longrightarrow> answers b (map_sum CallFailed id r)"
  by (cases a; cases b) auto

lemma signed_answer:
  assumes "open_e2ee_response c raw sk pinned x b now = Inr r" "signs_only c pinned reqs resps"
  shows "\<exists>q\<in>resps. same_outcome (rs_outcome r) (rs_outcome q) \<and>
    rs_request_transcript_hash q = rb_request_transcript_hash b \<and> ib_request_id q = rb_request_id b \<and>
    ib_from q = xe_from x \<and> ib_to q = xe_to x"
proof -
  note signed = opened_response_signed[OF assms(2,1)]
  then obtain q where q: "q \<in> resps" "response_values q = response_values r" by blast
  note inj = response_values_inj[OF q(2)]
  have "same_outcome (rs_outcome r) (rs_outcome q)"
    by (rule outcome_values_same[of _ "durable_suffix r" _ "durable_suffix q"])
       (use inj in \<open>auto simp: durable_suffix_def\<close>)
  then show ?thesis using q(1) inj signed by (intro bexI[of _ q]) (auto simp: binds_response_def delivered_to_def)
qed

lemma opened_from_peer:
  assumes "was_opened env p outc" "signs_only (ce_crypto env) (pp_peer_identity p) reqs resps"
  shows "\<exists>q\<in>resps. same_outcome outc (rs_outcome q) \<and>
    rs_request_transcript_hash q = rb_request_transcript_hash (pp_binding p) \<and> ib_request_id q = rb_request_id (pp_binding p) \<and>
    ib_from q = xe_from (pp_expected p) \<and> ib_to q = xe_to (pp_expected p)"
  using assms(1) signed_answer[OF _ assms(2)] unfolding was_opened_def by blast

text \<open>No error of the preparation is attributed to the peer.\<close>

definition fails_with :: "('e \<Rightarrow> bool) \<Rightarrow> ('s, 'e + 'a) prog \<Rightarrow> bool" where
  "fails_with P m \<longleftrightarrow> (\<forall>s s' e. run_prog m s = (s', Inl e) \<longrightarrow> P e)"

lemma fails_and_then: "fails_with P m \<Longrightarrow> (\<And>x. fails_with P (k x)) \<Longrightarrow> fails_with P (and_then m k)"
  unfolding fails_with_def by (auto split: prod.splits sum.splits)

lemma fails_results [simp]:
  "fails_with P (succeed x)" "fails_with P (raise e) = P e" "fails_with P (require b e) = (\<not> b \<longrightarrow> P e)"
  by (auto simp: fails_with_def)

lemma fails_failing: "(\<And>e. P (f e)) \<Longrightarrow> fails_with P (failing f m)"
  by (auto simp: fails_with_def failing_def map_sum_def split: prod.splits sum.splits)

definition not_from_peer :: "call_failure \<Rightarrow> bool" where
  "not_from_peer e \<longleftrightarrow> (\<forall>c. e = CallFailed c \<longrightarrow> cx_origin c \<noteq> FromPeer)"

lemma not_from_peer_simps [simp]:
  "not_from_peer (PeerRefused a)" "not_from_peer (KeysRefused b)" "not_from_peer (NotSealed c)" "not_from_peer (JobRefused d)"
  "not_from_peer FrameRefused" "not_from_peer (keys_call_error co e)"
  "not_from_peer (CallFailed c') = (cx_origin c' \<noteq> FromPeer)"
  by (auto simp: not_from_peer_def keys_call_error_def call_error_from_def split: api_failure.splits)

lemma prepare_fails: "fails_with not_from_peer (prepare_call env opts fresh clock)"
proof -
  have "fails_with not_from_peer (fetch_mailbox env opts a)" for a
    using fetch_mailbox_run[of env opts a] unfolding fails_with_def by (metis Inl_Inr_False prod.inject)
  moreover have "fails_with not_from_peer (pin_recipient c address b now)" for c address b now
    by (auto simp: fails_with_def pin_recipient_def split: sum.splits)
  moreover have "fails_with not_from_peer (remember_job u j)" for u j
    by (auto simp: fails_with_def remember_job_def split: sum.splits)
  moreover have "seal_call env opts fresh mb b peer keys now = Inl e \<Longrightarrow> not_from_peer e" for mb b peer keys now e
    by (auto simp: seal_call_def Let_def split: sum.splits option.splits)
  ultimately show ?thesis unfolding prepare_call_def Let_def
    by (intro fails_and_then fails_failing) (auto intro!: fails_and_then split: sum.split simp: call_error_from_def)
qed

lemma prepare_error_origin:
  "run_prog (prepare_call env opts fresh clock) w = (w1, Inl (CallFailed c)) \<Longrightarrow> cx_origin c \<noteq> FromPeer"
  using prepare_fails unfolding fails_with_def not_from_peer_def by blast

lemma call_agent_cases:
  assumes "call_agent env opts fresh clock events w = (w', Some result)" "peer_result result"
  obtains p w1 where "run_prog (prepare_call env opts fresh clock) w = (w1, Inr p)" "cw_peers w' = cw_peers w1"
    "\<exists>r. ses_settled (run_call env p events (open_session (cw_jobs w1))) = Some r \<and> result = map_sum CallFailed id r"
proof -
  obtain w1 x where x: "run_prog (prepare_call env opts fresh clock) w = (w1, x)" by fastforce
  show thesis
  proof (cases x)
    case (Inr p)
    then show thesis using that[of w1 p] x assms(1) by (auto simp: call_agent_def Let_def)
  next
    case (Inl e)
    have "cx_origin c \<noteq> FromPeer" if "e = CallFailed c" for c
      using prepare_error_origin[of env opts fresh clock w w1 c] x Inl that by simp
    then show thesis using x Inl assms by (cases e) (auto simp: call_agent_def)
  qed
qed


subsection \<open>Durable calls\<close>

lemma remembered_job:
  assumes "remember_outbound_job u job d = Inr (d', kept)"
  shows "\<exists>jobs j. load_outbound_jobs u d' = Inr jobs \<and> j \<in> set jobs \<and> oj_message_id j = oj_message_id job \<and>
    oj_frame j = oj_frame job"
proof -
  consider (found) loaded where "load_outbound_jobs u d = Inr loaded" "d' = d" "kept \<in> set loaded"
      "oj_frame kept = oj_frame job" "oj_message_id kept = oj_message_id job"
    | (added) old where "d' = Stored (old @ [kept])" "outbound_jobs_ok u (old @ [kept])"
      "kept = job\<lparr>oj_state := JobPending, oj_task_id := None, oj_submitted_at := None\<rparr>"
    using remember_cases[OF assms] by blast
  then show ?thesis
  proof cases
    case found
    then show ?thesis by blast
  next
    case added
    then show ?thesis using load_saved[OF added(2)] by auto
  qed
qed

text \<open>
  A durable request never leaves unrecorded. Whenever a call to a recipient with a mailbox
  is ready to open its socket, the outbound store holds a job for its message id with
  exactly the frame that will be sent.
\<close>

theorem durable_call_recorded:
  assumes "run_prog (prepare_call env opts fresh clock) w = (w', Inr p)" "pp_mailbox p"
  shows "\<exists>jobs j. load_outbound_jobs (ce_url_ok env) (cw_jobs w') = Inr jobs \<and> j \<in> set jobs \<and>
    oj_message_id j = pp_message_id p \<and> oj_frame j = pp_frame p"
proof -
  obtain b peer keys peers request job kept where "prepared_for env opts fresh p request job"
    "remember_outbound_job (ce_url_ok env) job (cw_jobs w) = Inr (cw_jobs w', kept)"
    using prepared_call_cases[OF assms(1)] assms(2) by metis
  then show ?thesis using remembered_job unfolding prepared_for_def by metis
qed

definition receipt_for :: "'w call_env \<Rightarrow> prepared_call \<Rightarrow> js_value option \<Rightarrow> queued_frame \<Rightarrow> bool" where
  "receipt_for env p v q \<longleftrightarrow> safe_parse_frame (parse_caller_frame (ce_uuid env)) v = Some (CfQueued q) \<and>
     qf_message_id q = pp_message_id p \<and> qf_correlation q = pp_correlation p"

text \<open>
  C13: A lost race hides the receipt. The relay closes the socket right after it sent the
  receipt of a durable call. When the close is seen while the acknowledgement is still
  waiting for the store, the call fails with a connection error, although the task was
  accepted and the store then records it as queued; when the acknowledgement is faster the
  very same events return the receipt.
\<close>

theorem close_hides_receipt:
  assumes "receipt_for env p v q" "n \<le> MAX_E2EE_WIRE_BYTES"
    and "acknowledge_outbound_job (ce_url_ok env) (pp_message_id p) (frame_receipt q) jobs = Inr (jobs', j)"
  shows "ses_settled (run_call env p [SocketOpen, FrameArrived n v, SocketClosed, Resumed 0 now True] (open_session jobs)) =
      Some (Inl (call_error_from FromTransport ''connection_failed'' None None)) \<and>
    ses_jobs (run_call env p [SocketOpen, FrameArrived n v, SocketClosed, Resumed 0 now True] (open_session jobs)) = jobs' \<and>
    oj_state j = JobQueued \<and> oj_task_id j = Some (qf_call_id q) \<and>
    ses_settled (run_call env p [SocketOpen, FrameArrived n v, Resumed 0 now True, SocketClosed] (open_session jobs)) =
      Some (Inr (QueuedCall q (pp_address p)))"
proof -
  have "oj_state j = JobQueued \<and> oj_task_id j = Some (qf_call_id q)"
    using assms(3) by (auto elim!: acknowledge_cases simp: queued_job_def frame_receipt_def)
  then show ?thesis using assms
    by (simp add: run_call_def open_session_def receipt_for_def await_then_def acknowledged_def)
qed

end
