(* ===== verification/CallSamples.thy ===== *)
theory CallSamples
  imports CallResults ApiResults KeyRingSamples
begin

text \<open>
  The properties of a call applied to concrete ones: bob asks alice, whose keys the sample
  network serves, and gets a reply; and a durable call gets its receipt while the socket
  closes. The platform encrypts nothing and verifies what alice signed.
\<close>

definition call_response :: response_payload where
  "call_response = \<lparr>ib_relay_origin = ''relay.example'', ib_from = ''@acme/alice'', ib_to = ''@acme/bob'',
     ib_message_id = Some (replicate 32 (CHR ''a'')), ib_delivery_mode = None, ib_request_id = replicate 32 (CHR ''b''),
     ib_sender_identity_key_id = replicate 32 (CHR ''c''), ib_recipient_encryption_key_id = replicate 32 (CHR ''c''),
     ib_recipient_epoch = 1, ib_issued_at = 1000, ib_expires_at = 2000,
     rs_request_transcript_hash = replicate 64 (CHR ''d''), rs_outcome = Reply (js ''hi'') None None\<rparr>"

definition call_crypto :: crypto where
  "call_crypto = \<lparr>cr_key_id = (\<lambda>_. replicate 32 (CHR ''c'')), cr_fingerprint = (\<lambda>_. sample_print), cr_sign = (\<lambda>_ _. ''QQ''),
     cr_verify = (\<lambda>_ t _. encryption_key_transcript sample_key = Inr t \<or> response_transcript call_response = Inr t),
     cr_seal = (\<lambda>_ _ _ _. (''QQ'', ''QQ'')), cr_open = (\<lambda>_ _ _ _. Some []), cr_json_request = (\<lambda>_ _. []),
     cr_parse_request = (\<lambda>_. None), cr_json_response = (\<lambda>_ _. []), cr_parse_response = (\<lambda>_. Some (call_response, ''QQ''))\<rparr>"

definition call_sample_env :: "unit call_env" where
  "call_sample_env = \<lparr>ce_crypto = call_crypto, ce_hash = (\<lambda>_. replicate 64 (CHR ''d'')), ce_hostname = (\<lambda>_. ''relay.example''),
     ce_url_ok = (\<lambda>_. True), ce_uuid = (\<lambda>_. True), ce_card = (\<lambda>_. None), ce_net = sample_network\<rparr>"

definition sample_args :: call_args where
  "sample_args = \<lparr>cl_relay = ''https://relay.example'', cl_org = ''acme'', cl_from = ''bob'', cl_token = ''t'',
     cl_target = ''alice'', cl_message = js ''hi'', cl_context_id = None, cl_task = None, cl_correlation = None,
     cl_traceparent = None\<rparr>"

definition sample_fresh :: call_fresh where
  "sample_fresh = \<lparr>fr_correlation = replicate 32 (CHR ''d''), fr_message_id = replicate 32 (CHR ''a''),
     fr_request_id = replicate 32 (CHR ''b'')\<rparr>"

definition sample_clock :: call_clock where
  "sample_clock = \<lparr>ck_pin = 500, ck_load = 500, ck_issue = 1000\<rparr>"

definition sample_world :: "unit client_world" where
  "sample_world = \<lparr>cw_net = (), cw_peers = StoreMissing, cw_keys = first_ring, cw_jobs = StoreMissing\<rparr>"

lemma call_response_ok: "response_payload_ok call_response"
proof -
  have "utf8_text MAX_REPLY_BYTES (js ''hi'')"
    using sample_message by (simp add: utf8_text_def MAX_MESSAGE_BYTES_def MAX_REPLY_BYTES_def del: is_well_formed_unicode.simps)
  then show ?thesis unfolding call_response_def response_payload_ok_def
    by (simp add: sample_ok_defs message_id_re_def del: is_well_formed_unicode.simps)
qed

lemma call_signs: "signs_only (ce_crypto call_sample_env) pub {} {call_response}"
  using sample_key_ok by (auto simp: signs_only_def call_sample_env_def call_crypto_def)

definition call_envelope :: "direction \<Rightarrow> envelope" where
  "call_envelope direction = \<lparr>en_direction = direction, en_relay_origin = ''relay.example'',
     en_from = (if direction = Request then ''@acme/bob'' else ''@acme/alice''),
     en_to = (if direction = Request then ''@acme/alice'' else ''@acme/bob''),
     en_key_id = replicate 32 (CHR ''c''), en_epoch = 1, en_enc = ''QQ'', en_ct = ''QQ''\<rparr>"

lemma call_envelope_ok: "envelope_ok (call_envelope d)" "envelope_header_ok (call_envelope d)"
  unfolding call_envelope_def envelope_header_ok_def envelope_ok_def
  by (simp_all add: sample_ok_defs ct_ok_def MAX_E2EE_CIPHERTEXT_BYTES_def MAX_REPLY_BYTES_def)

definition outcome_envelope :: js_value where
  "outcome_envelope = JObj [(''v'', JNum 1), (''direction'', JStr ''response''), (''relay_origin'', JStr ''relay.example''),
     (''from'', JStr ''@acme/alice''), (''to'', JStr ''@acme/bob''), (''key_id'', JStr (replicate 32 (CHR ''c''))),
     (''epoch'', JNum 1), (''enc'', JStr ''QQ''), (''ct'', JStr ''QQ'')]"

lemma outcome_envelope_parses: "parse_envelope outcome_envelope = Some (call_envelope Response)"
proof -
  have "ct_ok ''QQ''" using call_envelope_ok(1)[of Response] by (simp add: envelope_ok_def call_envelope_def)
  then show ?thesis
    by (simp add: parse_envelope_def outcome_envelope_def call_envelope_def strict_keys_def envelope_keys_def obj_get_def
        sample_fields key_id_re_def sample_hex del: hex_of_length_def)
qed

definition outcome_json :: js_value where
  "outcome_json = JObj [(''type'', JStr ''call_outcome''), (''call_id'', JStr ''c1''), (''terminal'', JStr ''completed''),
     (''envelope'', outcome_envelope)]"

lemma outcome_json_parses: "parse_caller_frame u outcome_json = Some (CfOutcome ''c1'' OtCompleted outcome_envelope)"
proof -
  have "response_envelope outcome_envelope = Some (call_envelope Response)"
    by (simp add: response_envelope_def outcome_envelope_parses) (simp add: call_envelope_def)
  then show ?thesis
    by (simp add: parse_caller_frame_def outcome_json_def parse_caller_outcome_def required_def strict_keys_def obj_get_def
        optional_def)
qed

definition alice_keys :: key_bundle where
  "alice_keys = sample_bundle_served"

definition call_keys :: ring_keys where
  "call_keys = keys_of_initial ring_sample_identity ''k1'' ''p1''"

lemma call_loads: "run_prog (load_keys 500) first_ring = (first_ring, Inr call_keys)"
  by code_simp

lemma call_peer:
  "\<exists>peers v. verify_and_pin_peer call_crypto StoreMissing ''@acme/alice'' sample_bundle_served 500 = Inr (peers, v) \<and>
     kp_identity_pub v = ''QQ''"
proof -
  obtain t u where "identity_transcript sample_identity = Inr t" "encryption_key_transcript sample_key = Inr u"
    using identity_transcript_total encryption_key_transcript_total[OF sample_key_ok] by blast
  moreover have "known_peers_ok [first_seen_peer sample_print sample_bundle_served 500]"
    by (simp add: known_peers_ok_def MAX_KNOWN_PEERS_def known_peer_ok_def first_seen_peer_def sample_bundle_served_def
        sample_identity_def sample_key_def sample_fields fingerprint_re_def sample_print_def sample_hex)
  ultimately have "verify_known_peer call_crypto [] sample_bundle_served 500 =
      Inr ([first_seen_peer sample_print sample_bundle_served 500], first_seen_peer sample_print sample_bundle_served 500)"
    unfolding verify_known_peer_def identity_fingerprint_def key_signed_by_def
    by (simp add: find_peer_def save_known_peers_def MAX_KNOWN_PEERS_def call_crypto_def sample_bundle_served_def)
  then have "verify_and_pin_peer call_crypto StoreMissing ''@acme/alice'' sample_bundle_served 500 =
      Inr ([first_seen_peer sample_print sample_bundle_served 500], first_seen_peer sample_print sample_bundle_served 500)"
    by (simp add: verify_and_pin_peer_def load_known_peers_def key_valid_at_def)
       (simp add: sample_bundle_served_def sample_identity_def sample_key_def)
  then show ?thesis by (simp add: first_seen_peer_def sample_bundle_served_def sample_identity_def)
qed

definition sample_request_payload :: request_payload where
  "sample_request_payload = call_request_payload call_sample_env sample_args sample_fresh False sample_bundle_served call_keys 1000"

lemma sample_request_payload_ok: "request_payload_ok sample_request_payload"
  unfolding sample_request_payload_def call_request_payload_def request_payload_ok_def
  by (simp add: sample_ok_defs message_id_re_def call_sample_env_def sample_args_def sample_fresh_def sample_bundle_served_def
      sample_key_def call_crypto_def format_address_def if_given_def Suc_le_eq is_safe_integer_def del: is_well_formed_unicode.simps)

lemma call_seals:
  "\<exists>p job. seal_call call_sample_env sample_args sample_fresh False sample_bundle_served peer call_keys 1000 = Inr (p, job) \<and>
     pp_mailbox p = False \<and> pp_correlation p = replicate 32 (CHR ''d'') \<and> pp_peer_identity p = kp_identity_pub peer \<and>
     pp_expected p = \<lparr>xe_relay_origin = ''relay.example'', xe_from = ''@acme/alice'', xe_to = ''@acme/bob'',
       xe_key_id = replicate 32 (CHR ''c''), xe_epoch = 1\<rparr> \<and>
     pp_binding p = \<lparr>rb_message_id = Some (replicate 32 (CHR ''a'')), rb_request_id = replicate 32 (CHR ''b''),
       rb_request_transcript_hash = replicate 64 (CHR ''d''), rb_delivery_mode = None\<rparr>"
proof -
  let ?sender = "\<lparr>si_identity_pub = sk_identity_pub call_keys, si_identity_pkcs8 = sk_identity_pkcs8 call_keys\<rparr>"
  let ?recipient = "\<lparr>recipient_key.rk_pub = ek_pub sample_key, recipient_key.rk_key_id = ek_key_id sample_key,
                 recipient_key.rk_epoch = ek_epoch sample_key\<rparr>"
  obtain t where t: "request_transcript sample_request_payload = Inr t"
    using request_transcript_total[OF sample_request_payload_ok] by blast
  have h: "(seal_header Request sample_request_payload ?recipient)\<lparr>en_enc := ''QQ'', en_ct := ''QQ''\<rparr> = call_envelope Request"
    by (simp add: seal_header_def call_envelope_def sample_request_payload_def call_request_payload_def call_sample_env_def
        sample_args_def format_address_def sample_key_def)
  obtain aad where aad: "hpke_envelope_aad (seal_header Request sample_request_payload ?recipient) = Inr aad"
    using hpke_envelope_aad_total[OF call_envelope_ok(2)[of Request]] aad_ignores_ciphertext unfolding h[symmetric] by metis
  have "seal_checks call_crypto sample_request_payload ?sender ?recipient = None"
    by (simp add: seal_checks_def sample_request_payload_def call_request_payload_def call_crypto_def call_sample_env_def
        sample_bundle_served_def sample_key_def)
  then have "seal_e2ee_request call_crypto sample_request_payload ?sender ?recipient = Inr (call_envelope Request)"
    using t aad h sample_request_payload_ok call_envelope_ok(1)[of Request]
    by (simp add: seal_e2ee_request_def seal_plaintext_def) (simp add: call_crypto_def)
  moreover have "caller_frame_for sample_args sample_fresh False (call_envelope Request) \<noteq> None"
    using call_envelope_ok(1)[of Request]
    by (simp add: caller_frame_for_def Let_def call_correlation_def sample_args_def sample_fresh_def if_given_def message_id_re_def
        sample_hex) (simp add: call_envelope_def correlation_id_re_def sample_hex)
  ultimately show ?thesis using t unfolding seal_call_def Let_def sample_request_payload_def
    by (auto simp: sample_bundle_served_def call_correlation_def call_request_payload_def call_sample_env_def sample_args_def
        sample_fresh_def if_given_def format_address_def call_keys_def keys_of_initial_def call_crypto_def
        split: option.split)
qed

lemma call_prepared:
  "\<exists>p w. run_prog (prepare_call call_sample_env sample_args sample_fresh sample_clock) sample_world = (w, Inr p) \<and>
     pp_mailbox p = False \<and> pp_peer_identity p = ''QQ'' \<and>
     pp_expected p = \<lparr>xe_relay_origin = ''relay.example'', xe_from = ''@acme/alice'', xe_to = ''@acme/bob'',
       xe_key_id = replicate 32 (CHR ''c''), xe_epoch = 1\<rparr> \<and>
     pp_binding p = \<lparr>rb_message_id = Some (replicate 32 (CHR ''a'')), rb_request_id = replicate 32 (CHR ''b''),
       rb_request_transcript_hash = replicate 64 (CHR ''d''), rb_delivery_mode = None\<rparr>"
proof -
  obtain peers v where v: "verify_and_pin_peer call_crypto StoreMissing ''@acme/alice'' sample_bundle_served 500 = Inr (peers, v)"
    "kp_identity_pub v = ''QQ''" using call_peer by blast
  obtain p job where p: "seal_call call_sample_env sample_args sample_fresh False sample_bundle_served v call_keys 1000 = Inr (p, job)"
    "pp_mailbox p = False" "pp_peer_identity p = kp_identity_pub v"
    "pp_expected p = \<lparr>xe_relay_origin = ''relay.example'', xe_from = ''@acme/alice'', xe_to = ''@acme/bob'',
       xe_key_id = replicate 32 (CHR ''c''), xe_epoch = 1\<rparr>"
    "pp_binding p = \<lparr>rb_message_id = Some (replicate 32 (CHR ''a'')), rb_request_id = replicate 32 (CHR ''b''),
       rb_request_transcript_hash = replicate 64 (CHR ''d''), rb_delivery_mode = None\<rparr>"
    using call_seals[of v] by blast
  let ?a = "\<lparr>au_org = ''acme'', au_handle = ''bob'', au_token = ''t''\<rparr>"
  have h: "handle_re ''alice''" by code_simp
  have f: "run_prog (fetch_keys sample_network relay ?a ''alice'') () = ((), Inr sample_bundle_served)" for relay
    using sample_fetch[of relay] by (simp add: sample_auth_def)
  have m: "run_prog (fetch_mailbox call_sample_env sample_args ?a) w = (w, Inr False)" for w
    by (simp add: fetch_mailbox_def run_on_network fetch_card_def relay_call_def relay_response_def relay_raw_def
        relay_fetch_def call_sample_env_def sample_network_def call_to_def status_ok_def parsed_json_def)
  have k: "run_prog (failing F (on_network (fetch_keys sample_network relay ?a ''alice''))) w = (w, Inr sample_bundle_served)"
    for F relay and w :: "unit client_world" by (simp add: run_failing_Inr run_on_network f)
  let ?w = "sample_world\<lparr>cw_peers := Stored peers\<rparr>"
  have pin: "run_prog (pin_recipient call_crypto ''@acme/alice'' sample_bundle_served 500) sample_world = (?w, Inr v)"
    using v(1) by (simp add: pin_recipient_def sample_world_def)
  have l: "run_prog (failing KeysRefused (on_keys (load_keys 500))) ?w = (?w, Inr call_keys)"
    by (simp add: run_failing_Inr run_on_keys sample_world_def call_loads)
  have e: "ce_crypto call_sample_env = call_crypto" "ce_net call_sample_env = sample_network" "cl_target sample_args = ''alice''"
    "cl_org sample_args = ''acme''" "cl_from sample_args = ''bob''" "cl_token sample_args = ''t''"
    "ck_pin sample_clock = 500" "ck_load sample_clock = 500" "ck_issue sample_clock = 1000"
    "format_address ''acme'' ''alice'' = ''@acme/alice''"
    by (simp_all add: call_sample_env_def sample_args_def sample_clock_def format_address_def)
  have "run_prog (prepare_call call_sample_env sample_args sample_fresh sample_clock) sample_world = (?w, Inr p)"
    unfolding prepare_call_def Let_def by (simp add: e h m k pin l p(1))
  then show ?thesis using p v(2) by auto
qed

lemma call_opens:
  assumes "pp_peer_identity p = ''QQ''"
    "pp_expected p = \<lparr>xe_relay_origin = ''relay.example'', xe_from = ''@acme/alice'', xe_to = ''@acme/bob'',
       xe_key_id = replicate 32 (CHR ''c''), xe_epoch = 1\<rparr>"
    "pp_binding p = \<lparr>rb_message_id = Some (replicate 32 (CHR ''a'')), rb_request_id = replicate 32 (CHR ''b''),
       rb_request_transcript_hash = replicate 64 (CHR ''d''), rb_delivery_mode = None\<rparr>"
  shows "open_e2ee_response call_crypto outcome_envelope (pp_pkcs8 p) (pp_peer_identity p) (pp_expected p) (pp_binding p) 1500
    = Inr call_response"
proof -
  obtain aad where aad: "hpke_envelope_aad (call_envelope Response) = Inr aad"
    using hpke_envelope_aad_total[OF call_envelope_ok(2)] by blast
  obtain t where t: "response_transcript call_response = Inr t"
    using response_transcript_total[OF call_response_ok] by blast
  have "open_plaintext call_crypto Response outcome_envelope (pp_pkcs8 p) (pp_expected p) = Inr (call_envelope Response, [])"
    using aad by (simp add: open_plaintext_def outcome_envelope_parses expected_route_def assms call_crypto_def)
      (simp add: call_envelope_def)
  moreover have "check_signed call_crypto (call_envelope Response) Response (pp_peer_identity p) call_response ''QQ''
      (response_transcript call_response) 1500 = None"
    using t by (simp add: check_signed_def call_crypto_def assert_current_def)
      (simp add: assert_header_matches_def call_envelope_def call_response_def)
  moreover have "binds_response call_response (pp_binding p)"
    by (simp add: binds_response_def assms) (simp add: call_response_def)
  ultimately show ?thesis using call_response_ok
    by (simp add: open_e2ee_response_def sample_signature) (simp add: call_crypto_def sample_signature)
qed


definition receipt_json_sample :: js_value where
  "receipt_json_sample = JObj [(''type'', JStr ''call_queued''), (''call_id'', JStr ''c1''),
     (''message_id'', JStr (replicate 32 (CHR ''a''))), (''correlation_id'', JStr (replicate 32 (CHR ''d''))),
     (''submitted_at'', JNum 100), (''expires_at'', JNum 300)]"

definition receipt_sample :: queued_frame where
  "receipt_sample = \<lparr>qf_call_id = ''c1'', qf_message_id = replicate 32 (CHR ''a''), qf_correlation = replicate 32 (CHR ''d''),
     qf_submitted_at = 100, qf_expires_at = 300\<rparr>"

definition durable_sample :: prepared_call where
  "durable_sample = \<lparr>pp_correlation = replicate 32 (CHR ''d''), pp_message_id = replicate 32 (CHR ''a''), pp_mailbox = True,
     pp_address = ''@acme/bob'', pp_frame = oj_frame sample_job, pp_pkcs8 = ''k1'', pp_peer_identity = ''p'',
     pp_expected = \<lparr>xe_relay_origin = ''r'', xe_from = ''@acme/bob'', xe_to = ''@acme/ann'', xe_key_id = ''k'', xe_epoch = 1\<rparr>,
     pp_binding = \<lparr>rb_message_id = Some (replicate 32 (CHR ''a'')), rb_request_id = replicate 32 (CHR ''b''),
       rb_request_transcript_hash = replicate 64 (CHR ''c''), rb_delivery_mode = Some Durable\<rparr>\<rparr>"

lemma call_settles_once_witness:
  "ses_settled (run_call call_sample_env durable_sample [SocketClosed, SocketOpen] (open_session StoreMissing)) \<noteq> None"
  using call_settles_once[of SocketClosed _ call_sample_env durable_sample "[]" "[SocketOpen]" StoreMissing]
  by (simp add: run_call_def open_session_def split: option.split)

lemma close_hides_receipt_witness:
  "ses_settled (run_call call_sample_env durable_sample
       [SocketOpen, FrameArrived 10 (Some receipt_json_sample), SocketClosed, Resumed 0 150 True] (open_session (Stored [sample_job])))
     = Some (Inl (call_error_from FromTransport ''connection_failed'' None None)) \<and>
   ses_settled (run_call call_sample_env durable_sample
       [SocketOpen, FrameArrived 10 (Some receipt_json_sample), Resumed 0 150 True, SocketClosed] (open_session (Stored [sample_job])))
     = Some (Inr (QueuedCall receipt_sample ''@acme/bob''))"
proof -
  have "receipt_for call_sample_env durable_sample (Some receipt_json_sample) receipt_sample"
    by (simp add: receipt_for_def safe_parse_frame_def parse_caller_frame_def receipt_json_sample_def parse_queued_def
        required_def strict_keys_def obj_get_def message_id_re_def correlation_id_re_def sample_hex receipt_sample_def
        durable_sample_def)
  moreover have "10 \<le> MAX_E2EE_WIRE_BYTES"
    by (simp add: MAX_E2EE_WIRE_BYTES_def MAX_E2EE_CIPHERTEXT_BYTES_def MAX_REPLY_BYTES_def)
  moreover have "acknowledge_outbound_job (\<lambda>_. True) (replicate 32 (CHR ''a'')) (frame_receipt receipt_sample) (Stored [sample_job]) =
      Inr (Stored [queued_job (frame_receipt receipt_sample) sample_job], queued_job (frame_receipt receipt_sample) sample_job)"
    by code_simp
  then have "acknowledge_outbound_job (ce_url_ok call_sample_env) (pp_message_id durable_sample) (frame_receipt receipt_sample)
      (Stored [sample_job]) = Inr (Stored [queued_job (frame_receipt receipt_sample) sample_job], queued_job (frame_receipt receipt_sample) sample_job)"
    by (simp add: call_sample_env_def durable_sample_def)
  ultimately show ?thesis using close_hides_receipt[of call_sample_env durable_sample "Some receipt_json_sample" receipt_sample 10]
    by (simp add: durable_sample_def)
qed

end
