(* ===== verification/JobResult.thy ===== *)
theory JobResult
  imports CallResults
begin

text \<open>
  The result of a durable call, \<open>packages/cli/src/job-result.ts\<close>: the artifact of a finished
  task is opened with the keys of the epoch it was sealed to, and only under the binding that
  the outbound store kept when the request left. \<open>decode\<close> is base64 and \<open>JSON.parse\<close>, absent
  when either fails.
\<close>

datatype a2a_part = TextPart js_string | RawPart string string

record job_task =
  jt_id :: string
  jt_artifacts :: "a2a_part list list"

datatype result_failure =
  NoOutboundJob | OutboundStoreFailed job_error | NotAnEnvelope | ResultKeys key_error | ResultRefused sealing_error

definition RESULT_MEDIA_TYPE :: string where "RESULT_MEDIA_TYPE = ''application/vnd.agentcall.hpke+json''"

fun result_part :: "a2a_part \<Rightarrow> string option" where
  "result_part (RawPart raw media) = (if media = RESULT_MEDIA_TYPE then Some raw else None)"
| "result_part (TextPart _) = None"

definition raw_part :: "job_task \<Rightarrow> string option" where
  "raw_part task = (case List.map_filter result_part (concat (jt_artifacts task)) of [] \<Rightarrow> None | raw # _ \<Rightarrow> Some raw)"

definition job_expected :: "crypto \<Rightarrow> outbound_job \<Rightarrow> ring_keys \<Rightarrow> expected_envelope" where
  "job_expected c job keys = (let e = cr_envelope (oj_frame job)
     in \<lparr>xe_relay_origin = en_relay_origin e, xe_from = en_to e, xe_to = en_from e,
         xe_key_id = cr_key_id c (sk_encryption_pub keys), xe_epoch = sk_epoch keys\<rparr>)"

definition job_response_binding :: "outbound_job \<Rightarrow> response_binding" where
  "job_response_binding job = \<lparr>rb_message_id = Some (oj_message_id job), rb_request_id = oj_request_id job,
     rb_request_transcript_hash = oj_transcript_hash job, rb_delivery_mode = Some Durable\<rparr>"

definition open_result ::
  "crypto \<Rightarrow> outbound_job \<Rightarrow> js_value \<Rightarrow> int \<Rightarrow> ring_keys \<Rightarrow> result_failure + e2ee_outcome" where
  "open_result c job body now keys =
     (case open_e2ee_response c body (sk_encryption_pkcs8 keys) (oj_recipient_pub job) (job_expected c job keys)
             (job_response_binding job) now of
        Inl e \<Rightarrow> Inl (ResultRefused e) | Inr r \<Rightarrow> Inr (rs_outcome r))"

definition decrypt_job_outcome ::
  "'w call_env \<Rightarrow> (string \<Rightarrow> js_value option) \<Rightarrow> string \<Rightarrow> job_task \<Rightarrow> int
   \<Rightarrow> ('w client_world, result_failure + e2ee_outcome option) prog" where
  "decrypt_job_outcome env decode address task now =
     bindp (reads (\<lambda>w. find_outbound_job (ce_url_ok env) (cw_jobs w) address (jt_id task))) (\<lambda>found. case found of
       Inl e \<Rightarrow> raise (OutboundStoreFailed e)
     | Inr None \<Rightarrow> raise NoOutboundJob
     | Inr (Some job) \<Rightarrow>
         (case raw_part task of
            None \<Rightarrow> succeed None
          | Some raw \<Rightarrow>
              (case decode raw of
                 None \<Rightarrow> raise NotAnEnvelope
               | Some body \<Rightarrow>
                   (case parse_envelope body of
                      None \<Rightarrow> raise NotAnEnvelope
                    | Some e \<Rightarrow>
                        bindp (on_keys (load_encryption_keys_for_epoch (en_epoch e) now)) (\<lambda>loaded. case loaded of
                          Inl err \<Rightarrow> raise (ResultKeys err)
                        | Inr keys \<Rightarrow>
                            (case open_result (ce_crypto env) job body now keys of
                               Inl err \<Rightarrow> raise err | Inr outc \<Rightarrow> succeed (Some outc)))))))"

lemma found_job:
  assumes "find_outbound_job u d address task = Inr (Some job)"
  shows "\<exists>jobs. load_outbound_jobs u d = Inr jobs \<and> job \<in> set jobs \<and> oj_address job = address \<and> oj_task_id job = Some task"
  using assms by (auto simp: find_outbound_job_def map_sum_def split: sum.splits dest!: find_Some_iff_mem)


end
