(* ===== verification/JobSamples.thy ===== *)
theory JobSamples
  imports JobResult CallSamples
begin

text \<open>
  A queued job of ann to bob whose result is fetched later: the artifact opens under the
  binding in the store.
\<close>

definition result_response :: response_payload where
  "result_response = call_response\<lparr>ib_from := ''@acme/bob'', ib_to := ''@acme/ann'', ib_delivery_mode := Some Durable,
     rs_request_transcript_hash := replicate 64 (CHR ''c'')\<rparr>"

definition result_crypto :: crypto where
  "result_crypto = call_crypto\<lparr>cr_verify := (\<lambda>_ t _. response_transcript result_response = Inr t),
     cr_parse_response := (\<lambda>_. Some (result_response, ''QQ''))\<rparr>"

definition job_sample_env :: "unit call_env" where
  "job_sample_env = call_sample_env\<lparr>ce_crypto := result_crypto\<rparr>"

definition queued_sample :: outbound_job where
  "queued_sample = (queued_job (frame_receipt receipt_sample) sample_job)\<lparr>oj_frame :=
     (oj_frame sample_job)\<lparr>cr_envelope := (cr_envelope (oj_frame sample_job))\<lparr>en_relay_origin := ''relay.example''\<rparr>\<rparr>\<rparr>"

definition job_world :: "unit client_world" where
  "job_world = sample_world\<lparr>cw_jobs := Stored [queued_sample]\<rparr>"

definition result_task :: job_task where
  "result_task = \<lparr>jt_id = ''c1'', jt_artifacts = [[RawPart ''QQ'' RESULT_MEDIA_TYPE]]\<rparr>"

definition result_envelope :: js_value where
  "result_envelope = JObj [(''v'', JNum 1), (''direction'', JStr ''response''), (''relay_origin'', JStr ''relay.example''),
     (''from'', JStr ''@acme/bob''), (''to'', JStr ''@acme/ann''), (''key_id'', JStr (replicate 32 (CHR ''c''))),
     (''epoch'', JNum 1), (''enc'', JStr ''QQ''), (''ct'', JStr ''QQ'')]"

definition result_header :: envelope where
  "result_header = (call_envelope Response)\<lparr>en_from := ''@acme/bob'', en_to := ''@acme/ann''\<rparr>"

lemma ann_address: "address_re ''@acme/ann''" by code_simp

lemma result_header_ok: "envelope_ok result_header" "envelope_header_ok result_header"
  using call_envelope_ok[of Response] ann_address
  by (simp_all add: result_header_def call_envelope_def envelope_ok_def envelope_header_ok_def sample_fields)

lemma result_envelope_parses: "parse_envelope result_envelope = Some result_header"
proof -
  have "ct_ok ''QQ''" using result_header_ok(1) by (simp add: envelope_ok_def result_header_def call_envelope_def)
  then show ?thesis
    by (simp add: parse_envelope_def result_envelope_def result_header_def call_envelope_def strict_keys_def envelope_keys_def
        obj_get_def sample_fields ann_address key_id_re_def sample_hex del: hex_of_length_def)
qed

lemma result_response_ok: "response_payload_ok result_response"
  using call_response_ok ann_address
  by (simp add: result_response_def call_response_def response_payload_ok_def inner_base_ok_def sample_fields sample_hex
      sha256_hex_re_def validity_ok_def is_durable_def MAILBOX_TTL_MS_def)

lemma result_signs: "signs_only (ce_crypto job_sample_env) pub {} {result_response}"
  by (auto simp: signs_only_def job_sample_env_def result_crypto_def)

lemma result_opens:
  "open_e2ee_response result_crypto result_envelope ''k1'' ''p'' (job_expected result_crypto queued_sample call_keys)
     (job_response_binding queued_sample) 1500 = Inr result_response"
proof -
  let ?x = "job_expected result_crypto queued_sample call_keys"
  obtain aad where aad: "hpke_envelope_aad result_header = Inr aad"
    using hpke_envelope_aad_total[OF result_header_ok(2)] by blast
  obtain t where t: "response_transcript result_response = Inr t"
    using response_transcript_total[OF result_response_ok] by blast
  have x: "?x = \<lparr>xe_relay_origin = ''relay.example'', xe_from = ''@acme/bob'', xe_to = ''@acme/ann'',
      xe_key_id = replicate 32 (CHR ''c''), xe_epoch = 1\<rparr>"
    by (simp add: job_expected_def queued_sample_def queued_job_def sample_job_def result_crypto_def call_crypto_def
        call_keys_def keys_of_initial_def)
  have "open_plaintext result_crypto Response result_envelope ''k1'' ?x = Inr (result_header, [])"
    using aad unfolding x by (simp add: open_plaintext_def result_envelope_parses expected_route_def result_crypto_def
        call_crypto_def) (simp add: result_header_def call_envelope_def)
  moreover have "check_signed result_crypto result_header Response ''p'' result_response ''QQ''
      (response_transcript result_response) 1500 = None"
    using t by (simp add: check_signed_def result_crypto_def call_crypto_def assert_current_def)
      (simp add: assert_header_matches_def result_header_def call_envelope_def result_response_def call_response_def)
  moreover have "binds_response result_response (job_response_binding queued_sample)"
    by (simp add: binds_response_def job_response_binding_def result_response_def call_response_def queued_sample_def
        queued_job_def sample_job_def)
  ultimately show ?thesis using result_response_ok
    by (simp add: open_e2ee_response_def sample_signature) (simp add: result_crypto_def sample_signature)
qed


end
