(* ===== verification/Storage.thy ===== *)
theory Storage
  imports Prelude
begin

text \<open>
  The ordered key-value storage of a Durable Object: \<open>get\<close>, \<open>put\<close>, \<open>delete\<close> and the
  lexicographic \<open>list\<close> the relay relies on. The code keeps several families of keys in one
  namespace, told apart by a literal prefix (\<open>call:\<close>, \<open>queue:\<close>, \<open>due:\<close>, ...); here each
  family is a store of its own, ordered by the key that follows the prefix. The theory
  \<open>StorageKeys\<close> justifies the order of the composed keys.

  The locale \<open>ordered_store\<close> states the contract the relay uses; the sorted association
  list below is the executable store of the model and interprets it.
\<close>

subsection \<open>The contract\<close>

locale ordered_store =
  fixes get :: "'s \<Rightarrow> 'k::linorder \<Rightarrow> 'v option"
    and put :: "'k \<Rightarrow> 'v \<Rightarrow> 's \<Rightarrow> 's"
    and del :: "'k \<Rightarrow> 's \<Rightarrow> 's"
    and entries :: "'s \<Rightarrow> ('k \<times> 'v) list"
    and wf :: "'s \<Rightarrow> bool"
  assumes get_entries: "wf s \<Longrightarrow> get s k = Some v \<longleftrightarrow> (k, v) \<in> set (entries s)"
    and entries_sorted: "wf s \<Longrightarrow> sorted_wrt (<) (map fst (entries s))"
    and get_put: "wf s \<Longrightarrow> get (put k v s) k' = (if k' = k then Some v else get s k')"
    and get_del: "wf s \<Longrightarrow> get (del k s) k' = (if k' = k then None else get s k')"
    and wf_put: "wf s \<Longrightarrow> wf (put k v s)"
    and wf_del: "wf s \<Longrightarrow> wf (del k s)"
begin

lemma keys_distinct: "wf s \<Longrightarrow> distinct (map fst (entries s))"
  using entries_sorted sorted_wrt_less_distinct by blast

lemma entries_distinct: "wf s \<Longrightarrow> distinct (entries s)"
  using keys_distinct distinct_map by blast

lemma keys_dom: "wf s \<Longrightarrow> fst ` set (entries s) = dom (get s)"
  by (force simp: get_entries dom_def)

lemma finite_dom: "wf s \<Longrightarrow> finite (dom (get s))"
  by (metis keys_dom finite_imageI finite_set)

lemma get_fst_snd: "wf s \<Longrightarrow> e \<in> set (entries s) \<Longrightarrow> get s (fst e) = Some (snd e)"
  by (simp add: get_entries)

text \<open>The first entry of a listing is the least key, which is what \<open>limit: 1\<close> relies on.\<close>

lemma first_least:
  assumes "wf s" "entries s = (k, v) # rest"
  shows "get s k = Some v" "get s k' = Some v' \<Longrightarrow> k \<le> k'"
proof -
  show "get s k = Some v" using assms by (simp add: get_entries)
  assume "get s k' = Some v'"
  then have "(k', v') \<in> set (entries s)" using assms(1) get_entries by simp
  moreover have "sorted_wrt (<) (map fst (entries s))" using assms(1) entries_sorted by simp
  ultimately show "k \<le> k'" using assms(2) by (force simp: less_imp_le)
qed

lemma entries_empty_iff: "wf s \<Longrightarrow> entries s = [] \<longleftrightarrow> (\<forall>k. get s k = None)"
  by (metis get_entries list.set_intros(1) neq_Nil_conv not_Some_eq option.distinct(1) set_empty2
      equals0D surj_pair)

text \<open>
  A total over the stored values is a sum over the domain, so a \<open>put\<close> or \<open>delete\<close> changes
  it by the difference at its own key. The quota proofs of the mailbox rest on these.
\<close>

definition total :: "('v \<Rightarrow> int) \<Rightarrow> 's \<Rightarrow> int" where
  "total f s = sum_list (map (\<lambda>e. f (snd e)) (entries s))"

lemma total_dom: "wf s \<Longrightarrow> total f s = (\<Sum>k\<in>dom (get s). f (the (get s k)))"
proof -
  assume wf: "wf s"
  have "total f s = sum_list (map ((\<lambda>k. f (the (get s k))) \<circ> fst) (entries s))"
    unfolding total_def by (rule arg_cong[where f = sum_list]) (auto simp: get_fst_snd[OF wf])
  also have "\<dots> = sum_list (map (\<lambda>k. f (the (get s k))) (map fst (entries s)))" by simp
  also have "\<dots> = (\<Sum>k\<in>set (map fst (entries s)). f (the (get s k)))"
    by (rule sum_list_distinct_conv_sum_set[OF keys_distinct[OF wf]])
  also have "set (map fst (entries s)) = dom (get s)" using keys_dom[OF wf] by simp
  finally show ?thesis .
qed

lemma total_put:
  assumes wf: "wf s"
  shows "total f (put k v s) = total f s + f v - (case get s k of None \<Rightarrow> 0 | Some w \<Rightarrow> f w)"
proof -
  have fin: "finite (dom (get s))" using finite_dom wf by blast
  have dom': "dom (get (put k v s)) = insert k (dom (get s))"
    by (auto simp: get_put[OF wf] dom_def)
  have "total f (put k v s) = f v + (\<Sum>j\<in>dom (get s) - {k}. f (the (get (put k v s) j)))"
    unfolding total_dom[OF wf_put[OF wf]] dom'
    using fin by (simp add: sum.insert_remove get_put[OF wf])
  also have "(\<Sum>j\<in>dom (get s) - {k}. f (the (get (put k v s) j))) =
      (\<Sum>j\<in>dom (get s) - {k}. f (the (get s j)))"
    by (rule sum.cong) (auto simp: get_put[OF wf])
  also have "\<dots> = total f s - (case get s k of None \<Rightarrow> 0 | Some w \<Rightarrow> f w)"
    unfolding total_dom[OF wf]
    using fin by (auto simp: sum_diff1 dom_def split: option.splits)
  finally show ?thesis by simp
qed

lemma total_del:
  assumes wf: "wf s"
  shows "total f (del k s) = total f s - (case get s k of None \<Rightarrow> 0 | Some w \<Rightarrow> f w)"
proof -
  have fin: "finite (dom (get s))" using finite_dom wf by blast
  have dom': "dom (get (del k s)) = dom (get s) - {k}"
    by (auto simp: get_del[OF wf] dom_def)
  have "total f (del k s) = (\<Sum>j\<in>dom (get s) - {k}. f (the (get s j)))"
    unfolding total_dom[OF wf_del[OF wf]] dom'
    by (rule sum.cong) (auto simp: get_del[OF wf])
  also have "\<dots> = total f s - (case get s k of None \<Rightarrow> 0 | Some w \<Rightarrow> f w)"
    unfolding total_dom[OF wf]
    using fin by (auto simp: sum_diff1 dom_def split: option.splits)
  finally show ?thesis .
qed

lemma total_nonneg: "(\<And>v. 0 \<le> f v) \<Longrightarrow> 0 \<le> total f s"
  unfolding total_def by (rule sum_list_nonneg) auto

lemma total_ge_member:
  assumes wf: "wf s" and pos: "\<And>v. 0 \<le> f v" and g: "get s k = Some v"
  shows "f v \<le> total f s"
proof -
  have "total f (del k s) = total f s - f v" using total_del[OF wf, of f k] g by simp
  moreover have "0 \<le> total f (del k s)" using total_nonneg[of f "del k s"] pos by simp
  ultimately show ?thesis by simp
qed

end

subsection \<open>The executable store\<close>

type_synonym ('k, 'v) kv = "('k \<times> 'v) list"

definition kv_get :: "('k, 'v) kv \<Rightarrow> 'k \<Rightarrow> 'v option" where
  "kv_get m k = map_of m k"

fun kv_put :: "'k::linorder \<Rightarrow> 'v \<Rightarrow> ('k, 'v) kv \<Rightarrow> ('k, 'v) kv" where
  "kv_put k v [] = [(k, v)]"
| "kv_put k v ((k', v') # m) =
     (if k < k' then (k, v) # (k', v') # m
      else if k = k' then (k, v) # m
      else (k', v') # kv_put k v m)"

definition kv_del :: "'k \<Rightarrow> ('k, 'v) kv \<Rightarrow> ('k, 'v) kv" where
  "kv_del k m = filter (\<lambda>e. fst e \<noteq> k) m"

definition kv_entries :: "('k, 'v) kv \<Rightarrow> ('k \<times> 'v) list" where
  "kv_entries m = m"

definition kv_wf :: "('k::linorder, 'v) kv \<Rightarrow> bool" where
  "kv_wf m = sorted_wrt (<) (map fst m)"

text \<open>\<open>storage.list({ prefix, limit: n })\<close>: the first \<open>n\<close> entries in key order.\<close>

definition kv_list_limit :: "nat \<Rightarrow> ('k, 'v) kv \<Rightarrow> ('k \<times> 'v) list" where
  "kv_list_limit n m = take n (kv_entries m)"

definition kv_first :: "('k, 'v) kv \<Rightarrow> ('k \<times> 'v) option" where
  "kv_first m = (case kv_list_limit 1 m of [] \<Rightarrow> None | e # _ \<Rightarrow> Some e)"

definition kv_del_all :: "'k list \<Rightarrow> ('k, 'v) kv \<Rightarrow> ('k, 'v) kv" where
  "kv_del_all ks m = filter (\<lambda>e. fst e \<notin> set ks) m"

lemma kv_put_keys: "set (map fst (kv_put k v m)) = insert k (set (map fst m))"
  by (induction k v m rule: kv_put.induct) auto

lemma kv_put_sorted:
  "sorted_wrt (<) (map fst m) \<Longrightarrow> sorted_wrt (<) (map fst (kv_put k v m))"
proof (induction k v m rule: kv_put.induct)
  case (2 k v k' v' m)
  then show ?case using kv_put_keys[of k v m] by (fastforce simp: not_less)
qed simp

lemma kv_put_get:
  "sorted_wrt (<) (map fst m) \<Longrightarrow> map_of (kv_put k v m) k' = (if k' = k then Some v else map_of m k')"
  by (induction k v m rule: kv_put.induct) (auto dest: map_of_SomeD)

lemma kv_del_get: "map_of (filter (\<lambda>e. fst e \<noteq> k) m) k' = (if k' = k then None else map_of m k')"
  by (induction m) auto

lemma kv_del_all_get:
  "map_of (filter (\<lambda>e. fst e \<notin> set ks) m) k' = (if k' \<in> set ks then None else map_of m k')"
  by (induction m) auto

lemma sorted_wrt_map_filter: "sorted_wrt P (map f m) \<Longrightarrow> sorted_wrt P (map f (filter Q m))"
  by (induction m) auto

interpretation kv: ordered_store kv_get kv_put kv_del kv_entries kv_wf
proof unfold_locales
  fix s :: "('k::linorder, 'v) kv" and k v
  assume "kv_wf s"
  then have "distinct (map fst s)" by (simp add: kv_wf_def sorted_wrt_less_distinct)
  then show "kv_get s k = Some v \<longleftrightarrow> (k, v) \<in> set (kv_entries s)"
    by (simp add: kv_get_def kv_entries_def)
qed (auto simp: kv_wf_def kv_entries_def kv_get_def kv_del_def kv_put_get kv_del_get
       kv_put_sorted sorted_wrt_map_filter)

lemmas kv_simps [simp] = kv.get_put kv.get_del kv.wf_put kv.wf_del

lemma kv_wf_Nil [simp]: "kv_wf []"
  by (simp add: kv_wf_def)

lemma kv_get_Nil [simp]: "kv_get [] k = None"
  by (simp add: kv_get_def)

lemma kv_total_Nil [simp]: "kv.total f [] = 0"
  by (simp add: kv.total_def kv_entries_def)

lemma kv_wf_del_all [simp]: "kv_wf m \<Longrightarrow> kv_wf (kv_del_all ks m)"
  by (simp add: kv_wf_def kv_del_all_def sorted_wrt_map_filter)

lemma kv_get_del_all [simp]: "kv_get (kv_del_all ks m) k = (if k \<in> set ks then None else kv_get m k)"
  by (simp add: kv_get_def kv_del_all_def kv_del_all_get)

lemma kv_first_None: "kv_first m = None \<longleftrightarrow> m = []"
  by (cases m) (auto simp: kv_first_def kv_list_limit_def kv_entries_def)

lemma kv_first_Some: "kv_first m = Some e \<longleftrightarrow> (\<exists>rest. m = e # rest)"
  by (cases m) (auto simp: kv_first_def kv_list_limit_def kv_entries_def)

lemma kv_first_get: "kv_wf m \<Longrightarrow> kv_first m = Some (k, v) \<Longrightarrow> kv_get m k = Some v"
  by (auto simp: kv_first_Some kv_get_def)

lemma kv_first_least:
  "kv_wf m \<Longrightarrow> kv_first m = Some (k, v) \<Longrightarrow> kv_get m k' = Some v' \<Longrightarrow> k \<le> k'"
  by (metis kv_entries_def kv_first_Some kv.first_least(2))

lemma kv_del_length: "kv_get m k \<noteq> None \<Longrightarrow> length (kv_del k m) < length m"
  by (induction m) (auto simp: kv_get_def kv_del_def less_Suc_eq_le)

lemma kv_del_length_le: "length (kv_del k m) \<le> length m"
  by (simp add: kv_del_def)

end
