(* ===== verification/CallRateLimit.thy ===== *)
theory CallRateLimit
  imports SlidingWindow Storage Protocol
begin

text \<open>
  \<open>apps/relay/src/call-rate-limit.ts\<close>: the sliding window of call timestamps a mailbox keeps
  per caller under the \<open>rl:\<close> prefix, and the bounded sweep that prunes stale keys a few
  pages at a time, leaving a cursor behind when it did not finish.

  Stored values are untrusted: an array element that is not a finite number is \<open>None\<close>, a
  value that is not an array is \<open>RlOther\<close>.
\<close>

definition RATE_LIMIT_WINDOW_MS :: int where "RATE_LIMIT_WINDOW_MS = 3600000"
definition RATE_LIMIT_PRUNE_INTERVAL_MS :: int where "RATE_LIMIT_PRUNE_INTERVAL_MS = 60000"
definition RATE_LIMIT_PRUNE_PAGE_SIZE :: nat where "RATE_LIMIT_PRUNE_PAGE_SIZE = 128"
definition RATE_LIMIT_PRUNE_MAX_PAGES :: nat where "RATE_LIMIT_PRUNE_MAX_PAGES = 4"
definition RATE_LIMIT_PRUNE_CONTINUE_DELAY_MS :: int where "RATE_LIMIT_PRUNE_CONTINUE_DELAY_MS = 1000"

datatype rl_value = RlArray "int option list" | RlOther

record rl_maintenance =
  rm_cursor :: string
  rm_due :: int

datatype stored_maintenance = MaintenanceOk rl_maintenance | MaintenanceMalformed

record rate_state =
  rs_rl :: "(string, rl_value) kv"
  rs_pruned_at :: "int option"
  rs_maintenance :: "stored_maintenance option"

definition live_stamp :: "int \<Rightarrow> int option \<Rightarrow> bool" where
  "live_stamp now stamp = (case stamp of None \<Rightarrow> False | Some at \<Rightarrow> now - at < RATE_LIMIT_WINDOW_MS)"

definition read_rate_limit_maintenance :: "rate_state \<Rightarrow> rl_maintenance option \<times> rate_state" where
  "read_rate_limit_maintenance s = (case rs_maintenance s of
     None \<Rightarrow> (None, s)
   | Some (MaintenanceOk m) \<Rightarrow> (Some m, s)
   | Some MaintenanceMalformed \<Rightarrow> (None, s\<lparr>rs_maintenance := None\<rparr>))"

definition value_live :: "int \<Rightarrow> rl_value \<Rightarrow> bool" where
  "value_live now v = (case v of RlArray stamps \<Rightarrow> list_ex (live_stamp now) stamps | RlOther \<Rightarrow> False)"

definition keys_after :: "string option \<Rightarrow> (string, rl_value) kv \<Rightarrow> (string \<times> rl_value) list" where
  "keys_after start m =
     filter (\<lambda>e. case start of None \<Rightarrow> True | Some c \<Rightarrow> c < fst e) (kv_entries m)"

text \<open>
  The page loop: the remaining number of pages, the key to start after and the store; the
  result is the store, the last key seen and whether the end of the prefix was reached.
\<close>

fun prune_pages ::
  "nat \<Rightarrow> int \<Rightarrow> string option \<Rightarrow> (string, rl_value) kv \<Rightarrow> (string, rl_value) kv \<times> string option \<times> bool" where
  "prune_pages 0 now start m = (m, start, False)"
| "prune_pages (Suc n) now start m =
     (let page = take RATE_LIMIT_PRUNE_PAGE_SIZE (keys_after start m)
      in if page = [] then (m, start, True)
         else let start' = Some (fst (last page));
                  stale = map fst (filter (\<lambda>e. \<not> value_live now (snd e)) page);
                  m' = (if stale \<noteq> [] then kv_del_all stale m else m)
              in if length page < RATE_LIMIT_PRUNE_PAGE_SIZE then (m', start', True)
                 else prune_pages n now start' m')"

definition prune_stale_rate_limit_keys :: "rate_state \<Rightarrow> int \<Rightarrow> rate_state \<times> bool" where
  "prune_stale_rate_limit_keys s now =
     (let (maintenance, s1) = read_rate_limit_maintenance s;
          cursor = map_option rm_cursor maintenance
      in if cursor = None \<and> (case rs_pruned_at s of None \<Rightarrow> False
              | Some at \<Rightarrow> now - at < RATE_LIMIT_PRUNE_INTERVAL_MS)
         then (s1, False)
         else let (m, start_after, complete) = prune_pages RATE_LIMIT_PRUNE_MAX_PAGES now cursor (rs_rl s1);
                  s2 = s1\<lparr>rs_rl := m, rs_pruned_at := Some now\<rparr>
              in if complete then (s2\<lparr>rs_maintenance := None\<rparr>, False)
                 else (s2\<lparr>rs_maintenance := Some (MaintenanceOk
                        \<lparr>rm_cursor = the start_after, rm_due = now + RATE_LIMIT_PRUNE_CONTINUE_DELAY_MS\<rparr>)\<rparr>, True))"

fun live_numbers :: "int \<Rightarrow> int option list \<Rightarrow> int list" where
  "live_numbers now [] = []"
| "live_numbers now (None # xs) = live_numbers now xs"
| "live_numbers now (Some at # xs) =
     (if now - at < RATE_LIMIT_WINDOW_MS then at # live_numbers now xs else live_numbers now xs)"

definition read_live_rate_limit_stamps :: "rate_state \<Rightarrow> string \<Rightarrow> int \<Rightarrow> int list" where
  "read_live_rate_limit_stamps s caller now = (case kv_get (rs_rl s) caller of
     Some (RlArray stored) \<Rightarrow> live_numbers now stored | _ \<Rightarrow> [])"

definition record_rate_limit_hit :: "rate_state \<Rightarrow> string \<Rightarrow> int list \<Rightarrow> int \<Rightarrow> rate_state \<times> bool" where
  "record_rate_limit_hit s caller live_stamps now =
     (let (s1, needs_continuation) = prune_stale_rate_limit_keys s now
      in (s1\<lparr>rs_rl := kv_put caller (RlArray (map Some (live_stamps @ [now]))) (rs_rl s1)\<rparr>, needs_continuation))"

definition continue_rate_limit_maintenance :: "rate_state \<Rightarrow> int \<Rightarrow> rate_state \<times> bool" where
  "continue_rate_limit_maintenance s now =
     (let (maintenance, s1) = read_rate_limit_maintenance s
      in case maintenance of
           None \<Rightarrow> (s1, False)
         | Some m \<Rightarrow> if rm_due m > now then (s1, False) else prune_stale_rate_limit_keys s1 now)"

text \<open>
  The decision of \<open>webSocketMessage\<close> around the module: refuse at the budget, otherwise
  record the hit with the stamps read.
\<close>

definition call_budget_check :: "rate_state \<Rightarrow> string \<Rightarrow> int \<Rightarrow> rate_state \<times> bool" where
  "call_budget_check s caller now =
     (let stamps = read_live_rate_limit_stamps s caller now
      in if length stamps \<ge> RATE_LIMIT_PER_HOUR then (s, False)
         else (fst (record_rate_limit_hit s caller stamps now), True))"

subsection \<open>Pruning\<close>

definition rate_wf :: "rate_state \<Rightarrow> bool" where
  "rate_wf s = kv_wf (rs_rl s)"

lemma maintenance_frame [simp]:
  "rs_rl (snd (read_rate_limit_maintenance s)) = rs_rl s"
  "rs_pruned_at (snd (read_rate_limit_maintenance s)) = rs_pruned_at s"
  by (simp_all add: read_rate_limit_maintenance_def split: option.splits stored_maintenance.splits)

text \<open>A sweep removes keys with no live stamp and nothing else.\<close>

definition only_stale_removed :: "int \<Rightarrow> (string, rl_value) kv \<Rightarrow> (string, rl_value) kv \<Rightarrow> bool" where
  "only_stale_removed now m m' =
     (\<forall>k. kv_get m' k = kv_get m k \<or> (\<exists>v. kv_get m k = Some v \<and> \<not> value_live now v \<and> kv_get m' k = None))"

lemma only_stale_removed_trans:
  "only_stale_removed now a b \<Longrightarrow> only_stale_removed now b c \<Longrightarrow> only_stale_removed now a c"
  unfolding only_stale_removed_def by (metis)

lemma stale_page_removed:
  assumes "kv_wf m" "stale = map fst (filter (\<lambda>e. \<not> value_live now (snd e)) page)" "set page \<subseteq> set (kv_entries m)"
  shows "only_stale_removed now m (kv_del_all stale m)"
  unfolding only_stale_removed_def
proof
  fix k
  show "kv_get (kv_del_all stale m) k = kv_get m k \<or>
      (\<exists>v. kv_get m k = Some v \<and> \<not> value_live now v \<and> kv_get (kv_del_all stale m) k = None)"
  proof (cases "k \<in> set stale")
    case True
    then obtain e where "e \<in> set page" "\<not> value_live now (snd e)" "k = fst e" using assms(2) by auto
    then show ?thesis using True assms(1,3) kv.get_fst_snd[OF assms(1), of e] by auto
  qed simp
qed

lemma take_keys_after_subset: "set (take n (keys_after start m)) \<subseteq> set (kv_entries m)"
  by (auto simp: keys_after_def dest: in_set_takeD)

definition prune_page :: "int \<Rightarrow> (string \<times> rl_value) list \<Rightarrow> (string, rl_value) kv \<Rightarrow> (string, rl_value) kv" where
  "prune_page now page m =
     (let stale = map fst (filter (\<lambda>e. \<not> value_live now (snd e)) page)
      in if stale \<noteq> [] then kv_del_all stale m else m)"

lemma prune_page_stale:
  assumes "kv_wf m" "set page \<subseteq> set (kv_entries m)"
  shows "kv_wf (prune_page now page m) \<and> only_stale_removed now m (prune_page now page m)"
  using assms stale_page_removed[OF assms(1) refl assms(2)]
  by (simp add: prune_page_def Let_def only_stale_removed_def)

lemma prune_pages_Suc:
  "prune_pages (Suc n) now start m =
     (let page = take RATE_LIMIT_PRUNE_PAGE_SIZE (keys_after start m)
      in if page = [] then (m, start, True)
         else if length page < RATE_LIMIT_PRUNE_PAGE_SIZE
              then (prune_page now page m, Some (fst (last page)), True)
              else prune_pages n now (Some (fst (last page))) (prune_page now page m))"
  by (simp add: Let_def prune_page_def)

lemma prune_pages_stale:
  "kv_wf m \<Longrightarrow> prune_pages n now start m = (m', start', complete) \<Longrightarrow>
   kv_wf m' \<and> only_stale_removed now m m'"
proof (induction n arbitrary: start m)
  case 0
  then show ?case by (simp add: only_stale_removed_def)
next
  case (Suc n)
  obtain page where page: "page = take RATE_LIMIT_PRUNE_PAGE_SIZE (keys_after start m)" by simp
  have sub: "set page \<subseteq> set (kv_entries m)" unfolding page by (rule take_keys_after_subset)
  note st = prune_page_stale[OF Suc.prems(1) sub, of now]
  note eq = Suc.prems(2)[unfolded prune_pages_Suc Let_def page[symmetric]]
  show ?case
  proof (cases "page = [] \<or> length page < RATE_LIMIT_PRUNE_PAGE_SIZE")
    case True
    then show ?thesis using eq st Suc.prems(1) by (auto simp: only_stale_removed_def split: if_splits)
  next
    case False
    then have "prune_pages n now (Some (fst (last page))) (prune_page now page m) = (m', start', complete)"
      using eq by simp
    from Suc.IH[OF _ this] st show ?thesis using only_stale_removed_trans by blast
  qed
qed

lemma kv_entries_after:
  assumes "kv_wf m"
  shows "set (keys_after start m) = {(k, v). kv_get m k = Some v \<and> (case start of None \<Rightarrow> True | Some c \<Rightarrow> c < k)}"
  using kv.get_entries[OF assms] by (auto simp: keys_after_def split: option.splits)

lemma keys_after_sorted: "kv_wf m \<Longrightarrow> sorted_wrt (<) (map fst (keys_after start m))"
  by (simp add: kv_wf_def keys_after_def kv_entries_def sorted_wrt_map_filter)

text \<open>A completed sweep leaves only keys with a live stamp after the key it started from.\<close>

lemma prune_page_get:
  "kv_get (prune_page now page m) k =
     (if k \<in> set (map fst (filter (\<lambda>e. \<not> value_live now (snd e)) page)) then None else kv_get m k)"
  by (auto simp: prune_page_def Let_def filter_empty_conv)

lemma prune_pages_complete:
  "kv_wf m \<Longrightarrow> prune_pages n now start m = (m', start', True) \<Longrightarrow>
   kv_get m' k = Some v \<Longrightarrow> (case start of None \<Rightarrow> True | Some c \<Rightarrow> c < k) \<Longrightarrow> value_live now v"
proof (induction n arbitrary: start m)
  case (Suc n)
  obtain page where page: "page = take RATE_LIMIT_PRUNE_PAGE_SIZE (keys_after start m)" by simp
  have sub: "set page \<subseteq> set (kv_entries m)" unfolding page by (rule take_keys_after_subset)
  note st = prune_page_stale[OF Suc.prems(1) sub, of now]
  note eq = Suc.prems(2)[unfolded prune_pages_Suc Let_def page[symmetric]]
  have live_in_page: "value_live now w" if g: "kv_get (prune_page now page m) k = Some w" and i: "k \<in> fst ` set page" for w
  proof -
    have "kv_get m k = Some w" using g by (simp add: prune_page_get split: if_splits)
    moreover obtain u where u: "(k, u) \<in> set page" using i by auto
    ultimately have "u = w" using sub kv.get_entries[OF Suc.prems(1), of k u] by auto
    then show ?thesis using g u by (force simp: prune_page_get split: if_splits)
  qed
  show ?case
  proof (cases "page = []")
    case True
    then have "keys_after start m = []"
      using page by (simp add: RATE_LIMIT_PRUNE_PAGE_SIZE_def)
    then show ?thesis using eq True Suc.prems(3,4) kv_entries_after[OF Suc.prems(1), of start] by auto
  next
    case ne: False
    show ?thesis
    proof (cases "length page < RATE_LIMIT_PRUNE_PAGE_SIZE")
      case True
      then have all: "page = keys_after start m" using page by simp
      have m': "m' = prune_page now page m" using eq ne True by simp
      then have "kv_get m k = Some v" using Suc.prems(3) by (simp add: prune_page_get split: if_splits)
      then have "(k, v) \<in> set page" using all kv_entries_after[OF Suc.prems(1)] Suc.prems(4) by auto
      then show ?thesis using live_in_page[of v] Suc.prems(3) m' by force
    next
      case False
      have rec: "prune_pages n now (Some (fst (last page))) (prune_page now page m) = (m', start', True)"
        using eq ne False by simp
      have m1: "kv_get (prune_page now page m) k = Some v"
        using prune_pages_stale[OF conjunct1[OF st] rec] Suc.prems(3)
        by (auto simp: only_stale_removed_def dest!: spec[of _ k])
      show ?thesis
      proof (cases "fst (last page) < k")
        case True
        then show ?thesis using Suc.IH[OF conjunct1[OF st] rec Suc.prems(3)] by simp
      next
        case le: False
        have "kv_get m k = Some v" using m1 by (simp add: prune_page_get split: if_splits)
        then have mem: "(k, v) \<in> set (keys_after start m)"
          using kv_entries_after[OF Suc.prems(1)] Suc.prems(4) by auto
        have split: "keys_after start m = page @ drop RATE_LIMIT_PRUNE_PAGE_SIZE (keys_after start m)"
          using page by simp
        have "(k, v) \<notin> set (drop RATE_LIMIT_PRUNE_PAGE_SIZE (keys_after start m))"
        proof
          assume "(k, v) \<in> set (drop RATE_LIMIT_PRUNE_PAGE_SIZE (keys_after start m))"
          moreover have "sorted_wrt (<) (map fst (page @ drop RATE_LIMIT_PRUNE_PAGE_SIZE (keys_after start m)))"
            using keys_after_sorted[OF Suc.prems(1), of start] split by simp
          ultimately have "fst (last page) < k"
            using ne by (force simp: sorted_wrt_append)
          then show False using le by simp
        qed
        then have "(k, v) \<in> set page" using mem split by (metis Un_iff set_append)
        then show ?thesis using live_in_page[OF m1] by force
      qed
    qed
  qed
qed simp

lemma prune_frame:
  assumes "rate_wf s"
  shows "rate_wf (fst (prune_stale_rate_limit_keys s now)) \<and>
    only_stale_removed now (rs_rl s) (rs_rl (fst (prune_stale_rate_limit_keys s now)))"
proof -
  obtain mt s1 where r: "read_rate_limit_maintenance s = (mt, s1)" by fastforce
  have s1: "rs_rl s1 = rs_rl s" using maintenance_frame(1)[of s] r by simp
  obtain m st c where p: "prune_pages RATE_LIMIT_PRUNE_MAX_PAGES now (map_option rm_cursor mt) (rs_rl s) = (m, st, c)"
    using prod_cases3 by blast
  have "kv_wf m \<and> only_stale_removed now (rs_rl s) m"
    using prune_pages_stale[OF _ p] assms by (simp add: rate_wf_def)
  then show ?thesis
    using assms by (auto simp: prune_stale_rate_limit_keys_def r s1 p rate_wf_def only_stale_removed_def Let_def)
qed

lemma record_hit_rl:
  assumes "rate_wf s"
  shows "rate_wf (fst (record_rate_limit_hit s caller ls now)) \<and>
    kv_get (rs_rl (fst (record_rate_limit_hit s caller ls now))) k =
      (if k = caller then Some (RlArray (map Some (ls @ [now])))
       else kv_get (rs_rl (fst (prune_stale_rate_limit_keys s now))) k)"
  using prune_frame[OF assms, of now]
  by (simp add: record_rate_limit_hit_def Let_def split_beta rate_wf_def)

subsection \<open>The budget is a sliding window\<close>

text \<open>The hits a caller's stored value stands for.\<close>

fun numbers :: "int option list \<Rightarrow> int list" where
  "numbers [] = []"
| "numbers (None # xs) = numbers xs"
| "numbers (Some at # xs) = at # numbers xs"

definition call_hits :: "rate_state \<Rightarrow> string \<Rightarrow> int list" where
  "call_hits s caller = (case kv_get (rs_rl s) caller of Some (RlArray stored) \<Rightarrow> numbers stored | _ \<Rightarrow> [])"

lemma live_numbers_live: "live_numbers now xs = live_hits RATE_LIMIT_WINDOW_MS now (numbers xs)"
  by (induction now xs rule: live_numbers.induct) (auto simp: live_hits_def)

lemma read_live_hits: "read_live_rate_limit_stamps s caller now = live_hits RATE_LIMIT_WINDOW_MS now (call_hits s caller)"
  by (auto simp: read_live_rate_limit_stamps_def call_hits_def live_numbers_live split: option.splits rl_value.splits)

lemma numbers_Some [simp]: "numbers (map Some xs) = xs"
  by (induction xs) auto

lemma numbers_append [simp]: "numbers (xs @ ys) = numbers xs @ numbers ys"
  by (induction xs rule: numbers.induct) auto

lemma not_value_live: "\<not> value_live now (RlArray xs) \<Longrightarrow> live_hits RATE_LIMIT_WINDOW_MS now (numbers xs) = []"
  by (induction xs rule: numbers.induct) (auto simp: value_live_def live_stamp_def live_hits_def)

lemma stale_removed_live:
  "only_stale_removed now (rs_rl s) (rs_rl s') \<Longrightarrow>
   live_hits RATE_LIMIT_WINDOW_MS now (call_hits s' k) = live_hits RATE_LIMIT_WINDOW_MS now (call_hits s k)"
  using not_value_live
  by (auto simp: only_stale_removed_def call_hits_def dest!: spec[of _ k] split: option.splits rl_value.splits)

lemma live_hits_idem: "live_hits w now (live_hits w now xs) = live_hits w now xs"
  by (simp add: live_hits_def)

interpretation call_budget:
  sliding_window call_budget_check call_hits rate_wf RATE_LIMIT_WINDOW_MS RATE_LIMIT_PER_HOUR
proof unfold_locales
  fix s k now k'
  assume wf: "rate_wf s"
  show "snd (call_budget_check s k now) \<Longrightarrow> length (live_hits RATE_LIMIT_WINDOW_MS now (call_hits s k)) < RATE_LIMIT_PER_HOUR"
    by (auto simp: call_budget_check_def Let_def read_live_hits split: if_splits)
  show "rate_wf (fst (call_budget_check s k now))"
    using wf record_hit_rl[OF wf] by (simp add: call_budget_check_def Let_def)
  show "live_hits RATE_LIMIT_WINDOW_MS now (call_hits (fst (call_budget_check s k now)) k') =
      live_hits RATE_LIMIT_WINDOW_MS now (call_hits s k') @ (if snd (call_budget_check s k now) \<and> k' = k then [now] else [])"
  proof (cases "length (read_live_rate_limit_stamps s k now) \<ge> RATE_LIMIT_PER_HOUR")
    case False
    let ?s = "fst (record_rate_limit_hit s k (read_live_rate_limit_stamps s k now) now)"
    have c: "call_budget_check s k now = (?s, True)" using False by (simp add: call_budget_check_def)
    show ?thesis
    proof (cases "k' = k")
      case True
      then have "call_hits ?s k' = read_live_rate_limit_stamps s k now @ [now]"
        using record_hit_rl[OF wf, of k _ now k'] by (simp add: call_hits_def)
      then show ?thesis using True c
        by (simp add: read_live_hits live_hits_idem) (simp add: live_hits_def RATE_LIMIT_WINDOW_MS_def)
    next
      case other: False
      have "call_hits ?s k' = call_hits (fst (prune_stale_rate_limit_keys s now)) k'"
        using record_hit_rl[OF wf, of k _ now k'] other by (simp add: call_hits_def)
      then show ?thesis using c other stale_removed_live[OF conjunct2[OF prune_frame[OF wf, of now]]] by simp
    qed
  qed (simp add: call_budget_check_def)
qed

subsection \<open>Properties\<close>


definition empty_rate_state :: rate_state where
  "empty_rate_state = \<lparr>rs_rl = [], rs_pruned_at = None, rs_maintenance = None\<rparr>"


text \<open>
  A sweep never drops a caller with a live stamp, and a sweep that started at the
  beginning and reports completion leaves no stale key behind and no cursor.
\<close>

theorem prune_exact:
  assumes "rate_wf s" "rs_maintenance s = None" "rs_pruned_at s = None"
    "prune_stale_rate_limit_keys s now = (s', False)" "kv_get (rs_rl s) k = Some v"
  shows "kv_get (rs_rl s') k = (if value_live now v then Some v else None) \<and> rs_maintenance s' = None"
proof -
  obtain m st c where p: "prune_pages RATE_LIMIT_PRUNE_MAX_PAGES now None (rs_rl s) = (m, st, c)"
    using prod_cases3 by blast
  have s': "rs_rl s' = m" "c" "rs_maintenance s' = None"
    using assms(2-4) p
    by (auto simp: prune_stale_rate_limit_keys_def read_rate_limit_maintenance_def Let_def split: if_splits)
  note st = prune_pages_stale[OF _ p]
  have "kv_get m k = Some v \<or> (\<not> value_live now v \<and> kv_get m k = None)"
    using st assms(1,5) by (auto simp: rate_wf_def only_stale_removed_def dest!: spec[of _ k])
  moreover have "kv_get m k = Some v \<Longrightarrow> value_live now v"
    using prune_pages_complete[of "rs_rl s" RATE_LIMIT_PRUNE_MAX_PAGES now None m st k v] p s'(2) assms(1)
    by (simp add: rate_wf_def)
  ultimately show ?thesis using s' by auto
qed

lemma prune_exact_witness:
  "kv_get (rs_rl (fst (prune_stale_rate_limit_keys
     (empty_rate_state\<lparr>rs_rl := [(''a'', RlArray [Some 0]), (''b'', RlOther)]\<rparr>) 10))) ''a'' = Some (RlArray [Some 0])"
proof -
  let ?s = "empty_rate_state\<lparr>rs_rl := [(''a'', RlArray [Some 0]), (''b'', RlOther)]\<rparr>"
  have "rate_wf ?s" "rs_maintenance ?s = None" "rs_pruned_at ?s = None"
    by (simp_all add: rate_wf_def kv_wf_def empty_rate_state_def)
  moreover have "snd (prune_stale_rate_limit_keys ?s 10) = False" by code_simp
  then have "prune_stale_rate_limit_keys ?s 10 = (fst (prune_stale_rate_limit_keys ?s 10), False)"
    by (metis prod.collapse)
  moreover have "kv_get (rs_rl ?s) ''a'' = Some (RlArray [Some 0])" by (simp add: kv_get_def)
  ultimately have "kv_get (rs_rl (fst (prune_stale_rate_limit_keys ?s 10))) ''a'' =
      (if value_live 10 (RlArray [Some 0]) then Some (RlArray [Some 0]) else None)"
    using prune_exact by blast
  then show ?thesis by (simp add: value_live_def live_stamp_def RATE_LIMIT_WINDOW_MS_def)
qed

end
