(* ===== verification/MailboxState.thy ===== *)
theory MailboxState
  imports TaskStore CallRateLimit AuditCommon
begin

text \<open>
  The state of a \<open>HandleDO\<close> (\<open>apps/relay/src/do.ts\<close>) and its storage transactions. Every
  function below is the body of one transaction or of one stretch of storage operations
  without another await, so the Durable Object runs it without interleaving; \<open>now\<close> is the
  clock it reads. The theory \<open>MailboxHandlers\<close> composes them into the handlers.

  The object's storage is one record field per key family. Composed keys are the pairs the
  theory \<open>StorageKeys\<close> justifies; the JSON pair keys of \<open>dedupe:\<close> and of the credential floor
  are the pairs themselves.
\<close>

subsection \<open>Constants\<close>

definition CANCEL_CONFIRM_TIMEOUT_MS :: int where "CANCEL_CONFIRM_TIMEOUT_MS = 10000"
definition CALL_AUDIT_RETRY_MS :: int where "CALL_AUDIT_RETRY_MS = 1000"
definition START_WINDOW_MS :: int where "START_WINDOW_MS = 24 * 60 * 60000"
definition DELIVERY_LEASE_MS :: int where "DELIVERY_LEASE_MS = 30000"
definition CALL_AUDIT_DRAIN_LIMIT :: nat where "CALL_AUDIT_DRAIN_LIMIT = 24"

definition clamp_timeout_ms :: "int option \<Rightarrow> int" where
  "clamp_timeout_ms requested = min (or_default requested RELAY_CALL_TIMEOUT_MS) RELAY_CALL_TIMEOUT_MS"

subsection \<open>Audit intents\<close>

datatype call_audit_event = EvSubmit | EvAccept | EvComplete | EvFail | EvCancel | EvTimeout

fun call_audit_event_code :: "call_audit_event \<Rightarrow> string" where
  "call_audit_event_code EvSubmit = ''call.submit''"
| "call_audit_event_code EvAccept = ''call.accept''"
| "call_audit_event_code EvComplete = ''call.complete''"
| "call_audit_event_code EvFail = ''call.fail''"
| "call_audit_event_code EvCancel = ''call.cancel''"
| "call_audit_event_code EvTimeout = ''call.timeout''"

fun call_audit_rank :: "call_audit_event \<Rightarrow> nat" where
  "call_audit_rank EvSubmit = 0"
| "call_audit_rank EvAccept = 1"
| "call_audit_rank EvComplete = 2"
| "call_audit_rank EvFail = 2"
| "call_audit_rank EvCancel = 2"
| "call_audit_rank EvTimeout = 2"

datatype actor_type = HandleActor | SystemActor

record audit_intent =
  ai_event_key :: string
  ai_event :: call_audit_event
  ai_action :: audit_action
  ai_org :: string
  ai_actor :: string
  ai_actor_type :: actor_type
  ai_target_id :: string
  ai_actor_ip :: "string option"
  ai_actor_country :: "string option"
  ai_description :: string
  ai_at :: int

record audit_source =
  so_actor_ip :: "string option"
  so_actor_country :: "string option"

definition no_source :: audit_source where
  "no_source = \<lparr>so_actor_ip = None, so_actor_country = None\<rparr>"

fun audit_description :: "call_audit_event \<Rightarrow> task \<Rightarrow> string" where
  "audit_description EvSubmit t = tk_from t @ '' submitted call '' @ tk_call_id t @ '' to '' @ tk_to t"
| "audit_description EvAccept t = tk_to t @ '' accepted call '' @ tk_call_id t @ '' from '' @ tk_from t"
| "audit_description EvComplete t = tk_to t @ '' completed call '' @ tk_call_id t @ '' from '' @ tk_from t"
| "audit_description EvFail t = tk_to t @ '' failed call '' @ tk_call_id t @ '' from '' @ tk_from t"
| "audit_description EvCancel t =
     tk_to t @ '' confirmed cancellation of call '' @ tk_call_id t @ '' from '' @ tk_from t"
| "audit_description EvTimeout t =
     ''The relay expired call '' @ tk_call_id t @ '' from '' @ tk_from t @ '' to '' @ tk_to t"

definition call_audit_intent ::
  "call_audit_event \<Rightarrow> task \<Rightarrow> string \<Rightarrow> actor_type \<Rightarrow> audit_source \<Rightarrow> int \<Rightarrow> audit_intent option" where
  "call_audit_intent event t actor actor_type source at =
     (if tk_org t = [] \<or> tk_to t = [] then None
      else let reason = (case tk_terminal_reason t of None \<Rightarrow> []
                | Some r \<Rightarrow> '' (reason: '' @ terminal_reason_code r @ '')'')
           in Some \<lparr>ai_event_key = tk_org t @ '':'' @ tk_call_id t @ '':'' @ call_audit_event_code event,
                ai_event = event, ai_action = (if event = EvSubmit then ActionC else ActionU),
                ai_org = tk_org t, ai_actor = actor, ai_actor_type = actor_type, ai_target_id = tk_call_id t,
                ai_actor_ip = so_actor_ip source, ai_actor_country = so_actor_country source,
                ai_description = audit_description event t @ reason, ai_at = at\<rparr>)"

subsection \<open>State\<close>

record dedupe_record =
  dr_call_id :: string
  dr_request_envelope_sha256 :: string
  dr_purge_at :: int

type_synonym audit_key = "int \<times> nat \<times> string"

record do_state =
  d_calls :: "(string, task) kv"
  d_dedupe :: "(string \<times> string, dedupe_record) kv"
  d_queue :: "(int \<times> string, string) kv"
  d_due :: "(int \<times> string, string) kv"
  d_starts :: "(int \<times> string, int) kv"
  d_outbox :: "(audit_key, audit_intent) kv"
  d_active :: "string option"
  d_outstanding :: "int option"
  d_caller_outstanding :: "(string, int) kv"
  d_ciphertext_bytes :: "int option"
  d_floors :: "(string \<times> string, int) kv"
  d_rate :: rate_state
  d_alarm :: "int option"

definition empty_do_state :: do_state where
  "empty_do_state =
     \<lparr>d_calls = [], d_dedupe = [], d_queue = [], d_due = [], d_starts = [], d_outbox = [], d_active = None,
      d_outstanding = None, d_caller_outstanding = [], d_ciphertext_bytes = None, d_floors = [],
      d_rate = empty_rate_state, d_alarm = None\<rparr>"

definition get_call :: "do_state \<Rightarrow> string \<Rightarrow> task option" where
  "get_call st call_id = kv_get (d_calls st) call_id"

definition task_queue_key :: "task \<Rightarrow> int \<times> string" where
  "task_queue_key t = (tk_created_at t, tk_call_id t)"

definition task_due_key :: "task \<Rightarrow> int \<times> string" where
  "task_due_key t = (tk_deadline t, tk_call_id t)"

definition audit_outbox_key :: "audit_intent \<Rightarrow> audit_key" where
  "audit_outbox_key i = (ai_at i, call_audit_rank (ai_event i), ai_event_key i)"

definition put_call :: "task \<Rightarrow> do_state \<Rightarrow> do_state" where
  "put_call t st = st\<lparr>d_calls := kv_put (tk_call_id t) t (d_calls st)\<rparr>"

definition due_del :: "task \<Rightarrow> do_state \<Rightarrow> do_state" where
  "due_del t st = st\<lparr>d_due := kv_del (task_due_key t) (d_due st)\<rparr>"

definition due_put :: "task \<Rightarrow> do_state \<Rightarrow> do_state" where
  "due_put t st = st\<lparr>d_due := kv_put (task_due_key t) (tk_call_id t) (d_due st)\<rparr>"

definition queue_del :: "task \<Rightarrow> do_state \<Rightarrow> do_state" where
  "queue_del t st = st\<lparr>d_queue := kv_del (task_queue_key t) (d_queue st)\<rparr>"

definition clear_active_if :: "string \<Rightarrow> do_state \<Rightarrow> do_state" where
  "clear_active_if call_id st = (if d_active st = Some call_id then st\<lparr>d_active := None\<rparr> else st)"

text \<open>\<open>alarm === null || alarm > at\<close>, then \<open>setAlarm(at)\<close>.\<close>

definition arm_at :: "int \<Rightarrow> do_state \<Rightarrow> do_state" where
  "arm_at at st = (case d_alarm st of
     None \<Rightarrow> st\<lparr>d_alarm := Some at\<rparr>
   | Some a \<Rightarrow> if a > at then st\<lparr>d_alarm := Some at\<rparr> else st)"

definition arm_audit_retry :: "int \<Rightarrow> do_state \<Rightarrow> do_state" where
  "arm_audit_retry now st = arm_at (now + CALL_AUDIT_RETRY_MS) st"

definition put_intent :: "int \<Rightarrow> audit_intent option \<Rightarrow> do_state \<Rightarrow> do_state" where
  "put_intent now intent st = (case intent of
     None \<Rightarrow> st
   | Some i \<Rightarrow> arm_audit_retry now (st\<lparr>d_outbox := kv_put (audit_outbox_key i) i (d_outbox st)\<rparr>))"

subsection \<open>The lifecycle of a stored task\<close>

fun durable_phase :: "call_state \<Rightarrow> live_phase" where
  "durable_phase Ringing = PhSubmitted"
| "durable_phase Answered = PhAccepted"
| "durable_phase CallWorking = PhWorking"

definition team_call_lifecycle :: "task \<Rightarrow> call_lifecycle" where
  "team_call_lifecycle t =
     \<lparr>lc_principal = or_default (tk_principal t)
        \<lparr>pr_organization = tk_org t, pr_participant = tk_from t, pr_credential_generation = 0\<rparr>,
      lc_phase = durable_phase (tk_state t), lc_deadline = tk_deadline t, lc_terminal = None\<rparr>"

definition without_ciphertext :: "task \<Rightarrow> task" where
  "without_ciphertext t = t\<lparr>tk_request_envelope := None, tk_lease := None\<rparr>"

subsection \<open>Quota\<close>

definition release_durable_quota :: "do_state \<Rightarrow> task \<Rightarrow> task \<Rightarrow> do_state \<times> task" where
  "release_durable_quota st previous nxt =
     (if tk_delivery_state previous = None \<or> tk_quota_released previous then (st, nxt)
      else
        let outstanding = or_default (d_outstanding st) 0;
            caller_key = (if truthy_str (tk_from_agent_id previous) then tk_from_agent_id previous else None);
            caller_outstanding = (case caller_key of None \<Rightarrow> 0
              | Some a \<Rightarrow> or_default (kv_get (d_caller_outstanding st) a) 0);
            stored_bytes = or_default (d_ciphertext_bytes st) 0;
            previous_bytes = or_default (tk_ciphertext_bytes previous) 0;
            retained_bytes = or_default (tk_ciphertext_bytes nxt) 0;
            st1 = st\<lparr>d_outstanding := Some (max 0 (outstanding - 1))\<rparr>;
            st2 = (case caller_key of None \<Rightarrow> st1
              | Some a \<Rightarrow> st1\<lparr>d_caller_outstanding :=
                   kv_put a (max 0 (caller_outstanding - 1)) (d_caller_outstanding st1)\<rparr>);
            st3 = st2\<lparr>d_ciphertext_bytes := Some (max 0 (stored_bytes - previous_bytes + retained_bytes))\<rparr>
        in (st3, nxt\<lparr>tk_quota_released := True\<rparr>))"

subsection \<open>Persisting a task with its audit intent\<close>

definition persist_txn :: "int \<Rightarrow> do_state \<Rightarrow> task \<Rightarrow> audit_intent option \<Rightarrow> do_state" where
  "persist_txn now st t intent =
     (let previous = get_call st (tk_call_id t);
          (st1, persisted) = (case previous of
             Some p \<Rightarrow> if task_is_terminal t then release_durable_quota st p t else (st, t)
           | None \<Rightarrow> (st, t));
          st2 = put_call persisted st1;
          st3 = (case previous of
             Some p \<Rightarrow> if task_due_key p \<noteq> task_due_key persisted then due_del p st2 else st2
           | None \<Rightarrow> st2);
          st4 = due_put persisted st3
      in put_intent now intent st4)"

subsection \<open>Durable admission\<close>

datatype durable_admission = Admitted task | Existing task | Capacity | Conflict

definition task_dedupe_key :: "task \<Rightarrow> string \<times> string" where
  "task_dedupe_key t = (the (tk_from_agent_id t), the (tk_message_id t))"

definition admit_txn :: "int \<Rightarrow> do_state \<Rightarrow> task \<Rightarrow> audit_intent option \<Rightarrow> do_state \<times> durable_admission" where
  "admit_txn now st t intent =
     (let key = task_dedupe_key t; agent = the (tk_from_agent_id t)
      in case kv_get (d_dedupe st) key of
        Some dedupe \<Rightarrow>
          if Some (dr_request_envelope_sha256 dedupe) \<noteq> tk_request_envelope_sha256 t then (st, Conflict)
          else (case get_call st (dr_call_id dedupe) of
                  Some existing \<Rightarrow> (st, Existing existing)
                | None \<Rightarrow> (st, Conflict))
      | None \<Rightarrow>
          let outstanding = or_default (d_outstanding st) 0;
              caller_outstanding = or_default (kv_get (d_caller_outstanding st) agent) 0;
              stored_bytes = or_default (d_ciphertext_bytes st) 0;
              task_bytes = or_default (tk_ciphertext_bytes t) 0
          in if outstanding \<ge> MAILBOX_MAX_QUEUED_TASKS \<or>
                caller_outstanding \<ge> MAILBOX_MAX_OUTSTANDING_PER_CALLER \<or>
                stored_bytes + task_bytes > MAILBOX_MAX_STORED_CIPHERTEXT_BYTES
             then (st, Capacity)
             else
               let st1 = put_call t st;
                   st2 = st1\<lparr>d_dedupe := kv_put key
                      \<lparr>dr_call_id = tk_call_id t, dr_request_envelope_sha256 = the (tk_request_envelope_sha256 t),
                       dr_purge_at = the (tk_purge_at t)\<rparr> (d_dedupe st1)\<rparr>;
                   st3 = st2\<lparr>d_queue := kv_put (task_queue_key t) (tk_call_id t) (d_queue st2)\<rparr>;
                   st4 = due_put t st3;
                   st5 = st4\<lparr>d_outstanding := Some (outstanding + 1),
                      d_caller_outstanding := kv_put agent (caller_outstanding + 1) (d_caller_outstanding st4),
                      d_ciphertext_bytes := Some (stored_bytes + task_bytes)\<rparr>
               in (put_intent now intent st5, Admitted t))"

subsection \<open>Revocation\<close>

definition revoked_task :: "int \<Rightarrow> task \<Rightarrow> task" where
  "revoked_task now t =
     (without_ciphertext t)
       \<lparr>tk_deadline := or_default (tk_purge_at t) (tk_deadline t), tk_task_state := TsRejected,
        tk_delivery_state := Some Terminal, tk_terminal_reason := Some TrRevoked,
        tk_ciphertext_bytes := Some 0, tk_updated_at := now\<rparr>"

definition revoke_txn :: "int \<Rightarrow> do_state \<Rightarrow> task \<Rightarrow> do_state" where
  "revoke_txn now st t =
     (let revoked = revoked_task now t;
          intent = call_audit_intent EvFail revoked ''relay'' SystemActor no_source (tk_updated_at revoked)
      in case get_call st (tk_call_id t) of
           None \<Rightarrow> st
         | Some current \<Rightarrow>
             if task_is_terminal current \<or> tk_delivery_state current \<noteq> Some Queued then st
             else let (st1, persisted) = release_durable_quota st current revoked;
                      st2 = put_call persisted st1;
                      st3 = queue_del current st2;
                      st4 = due_del current st3;
                      st5 = due_put revoked st4
                  in put_intent now intent st5)"

subsection \<open>Leasing\<close>

definition next_lease :: "int \<Rightarrow> string \<Rightarrow> string \<Rightarrow> int option \<Rightarrow> task \<Rightarrow> lease" where
  "next_lease now lease_id session lease_ms t =
     \<lparr>ls_lease_id = lease_id, ls_listener_session_id = session,
      ls_expires_at = now + or_default lease_ms DELIVERY_LEASE_MS,
      ls_attempt = (case tk_lease t of None \<Rightarrow> 0 | Some l \<Rightarrow> ls_attempt l) + 1\<rparr>"

definition leased_task :: "int \<Rightarrow> lease \<Rightarrow> task \<Rightarrow> task" where
  "leased_task now l t = t\<lparr>tk_delivery_state := Some Leased, tk_lease := Some l, tk_updated_at := now\<rparr>"

definition lease_txn :: "int \<Rightarrow> do_state \<Rightarrow> string \<Rightarrow> string \<Rightarrow> int option \<Rightarrow> do_state \<times> task option" where
  "lease_txn now st lease_id session lease_ms =
     (if truthy_str (d_active st) then (st, None)
      else case kv_first (d_queue st) of
        None \<Rightarrow> (st, None)
      | Some (key, call_id) \<Rightarrow>
          (case get_call st call_id of
             None \<Rightarrow> (st\<lparr>d_queue := kv_del key (d_queue st)\<rparr>, None)
           | Some t \<Rightarrow>
               if task_is_terminal t \<or> tk_delivery_state t \<noteq> Some Queued
               then (st\<lparr>d_queue := kv_del key (d_queue st)\<rparr>, None)
               else let l = next_lease now lease_id session lease_ms t;
                        leased = leased_task now l t
                    in (arm_at (ls_expires_at l)
                          (st\<lparr>d_calls := kv_put call_id leased (d_calls st), d_active := Some call_id\<rparr>),
                        Some leased)))"

definition rebound_task :: "int \<Rightarrow> string \<Rightarrow> string \<Rightarrow> task \<Rightarrow> task" where
  "rebound_task now lease_id session t =
     t\<lparr>tk_lease := Some \<lparr>ls_lease_id = lease_id, ls_listener_session_id = session,
         ls_expires_at = tk_deadline t,
         ls_attempt = (case tk_lease t of None \<Rightarrow> 1 | Some l \<Rightarrow> ls_attempt l)\<rparr>,
       tk_updated_at := now\<rparr>"

definition rebindable :: "task \<Rightarrow> bool" where
  "rebindable t =
     (tk_delivery_state t = Some Started \<and> tk_request_envelope t \<noteq> None \<and> truthy_str (tk_message_id t) \<and>
      truthy_num (tk_execute_by t) \<and> \<not> task_is_terminal t)"

definition finish_txn :: "do_state \<Rightarrow> task \<Rightarrow> do_state" where
  "finish_txn st t = clear_active_if (tk_call_id t) (queue_del t st)"

definition recover_expired_lease :: "int \<Rightarrow> do_state \<Rightarrow> string \<Rightarrow> do_state" where
  "recover_expired_lease now st call_id = (case get_call st call_id of
     None \<Rightarrow> st
   | Some current \<Rightarrow>
       (case tk_lease current of
          None \<Rightarrow> st
        | Some l \<Rightarrow>
            if tk_delivery_state current \<noteq> Some Leased \<or> ls_expires_at l > now \<or> task_is_terminal current then st
            else
              let st1 = clear_active_if call_id st
              in if ls_attempt l < 3
                 then st1\<lparr>d_calls := kv_put call_id
                        (current\<lparr>tk_delivery_state := Some Queued, tk_updated_at := now\<rparr>) (d_calls st1)\<rparr>
                 else
                   let failed = (without_ciphertext current)
                         \<lparr>tk_deadline := or_default (tk_purge_at current) (tk_deadline current),
                          tk_task_state := TsFailed, tk_delivery_state := Some Terminal,
                          tk_terminal_reason := Some TrDeliveryFailed, tk_ciphertext_bytes := Some 0,
                          tk_updated_at := now\<rparr>;
                       (st2, persisted) = release_durable_quota st1 current failed;
                       st3 = st2\<lparr>d_calls := kv_put call_id persisted (d_calls st2)\<rparr>;
                       st4 = due_put failed (due_del current (queue_del current st3));
                       intent = call_audit_intent EvFail failed ''relay'' SystemActor no_source now
                   in put_intent now intent st4))"

end
