(* ===== verification/MailboxCalls.thy ===== *)
theory MailboxCalls
  imports MailboxState
begin

text \<open>
  The transactions of \<open>do.ts\<close> that move a call: expiry and purge, advancing on a listener's
  frame, cancellation, the terminal frames, the audit outbox with its D1 table, and the
  alarm. Sockets carry an attachment, which survives hibernation and so is state.
\<close>

subsection \<open>Attachments\<close>

record caller_attachment =
  ca_principal :: principal
  ca_from :: string
  ca_org :: string
  ca_to :: string
  ca_source :: audit_source
  ca_relay_origin :: string
  ca_call_id :: "string option"
  ca_correlation_id :: "string option"
  ca_timeout_ms :: "int option"
  ca_credential_generation :: "int option"
  ca_from_agent_id :: string
  ca_target_agent_id :: string
  ca_mailbox_enabled :: bool
  ca_caller_blocked :: bool

record listener_attachment =
  la_principal :: "principal option"
  la_org :: "string option"
  la_handle :: "string option"
  la_source :: audit_source
  la_relay_origin :: "string option"
  la_credential_generation :: "int option"
  la_mailbox_capable :: bool
  la_listener_session_id :: "string option"
  la_lease_ms :: "int option"
  la_execution_timeout_ms :: "int option"

subsection \<open>Expiry\<close>

definition retained_task :: "task \<Rightarrow> int \<Rightarrow> task" where
  "retained_task current purge_at =
     (let retained = current\<lparr>tk_deadline := purge_at\<rparr>
      in if tk_outcome_envelope retained \<noteq> None
         then retained\<lparr>tk_outcome_envelope := None, tk_ciphertext_bytes := Some 0\<rparr> else retained)"

definition retain_txn :: "do_state \<Rightarrow> task \<Rightarrow> int \<Rightarrow> do_state" where
  "retain_txn st current purge_at =
     (let st1 = (if tk_outcome_envelope current \<noteq> None
                 then st\<lparr>d_ciphertext_bytes := Some (max 0 (or_default (d_ciphertext_bytes st) 0
                           - or_default (tk_ciphertext_bytes current) 0))\<rparr> else st);
          retained = retained_task current purge_at
      in due_put retained (due_del current (put_call retained st1)))"

definition purge_txn :: "do_state \<Rightarrow> task \<Rightarrow> do_state" where
  "purge_txn st current =
     (let call_id = tk_call_id current;
          st1 = st\<lparr>d_calls := kv_del call_id (d_calls st)\<rparr>;
          st2 = due_del current (queue_del current st1);
          st3 = (if truthy_str (tk_from_agent_id current) \<and> truthy_str (tk_message_id current)
                 then st2\<lparr>d_dedupe := kv_del (task_dedupe_key current) (d_dedupe st2)\<rparr> else st2);
          st4 = (if tk_quota_released current \<and> or_default (tk_ciphertext_bytes current) 0 > 0
                 then st3\<lparr>d_ciphertext_bytes := Some (max 0 (or_default (d_ciphertext_bytes st3) 0
                           - or_default (tk_ciphertext_bytes current) 0))\<rparr> else st3)
      in clear_active_if call_id st4)"

definition expired_task :: "int \<Rightarrow> task \<Rightarrow> task" where
  "expired_task now current =
     (without_ciphertext current)
       \<lparr>tk_deadline := or_default (tk_purge_at current) (now + MAILBOX_TOMBSTONE_TTL_MS),
        tk_task_state := TsFailed, tk_delivery_state := Some Terminal,
        tk_terminal_reason := Some (if tk_delivery_state current = Some Started then TrFailed else TrExpired),
        tk_ciphertext_bytes := Some 0, tk_updated_at := now\<rparr>"

definition expire_durable_txn :: "int \<Rightarrow> do_state \<Rightarrow> task \<Rightarrow> do_state" where
  "expire_durable_txn now st current =
     (let expired = expired_task now current;
          (st1, persisted) = release_durable_quota st current expired;
          st2 = put_call persisted st1;
          st3 = due_put expired (due_del current (queue_del current st2));
          st4 = clear_active_if (tk_call_id current) st3
      in put_intent now (call_audit_intent EvTimeout expired ''relay'' SystemActor no_source now) st4)"

text \<open>The task handed back to the alarm, and whether it timed out.\<close>

definition expire_task :: "int \<Rightarrow> do_state \<Rightarrow> string \<Rightarrow> do_state \<times> (task \<times> bool) option" where
  "expire_task now st call_id = (case get_call st call_id of
     None \<Rightarrow> (st, None)
   | Some current \<Rightarrow>
       if tk_delivery_state current \<noteq> None then
         (if tk_deadline current > now then (st, None)
          else if task_is_terminal current then
            (case tk_purge_at current of
               Some p \<Rightarrow> if p \<noteq> 0 \<and> p > now then (retain_txn st current p, Some (current, False))
                         else (purge_txn st current, Some (current, False))
             | None \<Rightarrow> (purge_txn st current, Some (current, False)))
          else (expire_durable_txn now st current, Some (expired_task now current, True)))
       else case expire_authorized_call (team_call_lifecycle current) now of
         None \<Rightarrow> (st, None)
       | Some _ \<Rightarrow>
           (let st1 = due_del current (st\<lparr>d_calls := kv_del call_id (d_calls st)\<rparr>)
            in if task_is_terminal current then (st1, Some (current, False))
               else (put_intent now (call_audit_intent EvTimeout current ''relay'' SystemActor no_source now) st1,
                     Some (current, True))))"

subsection \<open>Advancing a call\<close>

definition started_deadline :: "int \<Rightarrow> task \<Rightarrow> listener_attachment \<Rightarrow> int" where
  "started_deadline now rec att =
     min (or_default (tk_execute_by rec) (tk_deadline rec))
         (now + or_default (la_execution_timeout_ms att) RELAY_CALL_TIMEOUT_MS)"

definition advanced_task :: "int \<Rightarrow> task \<Rightarrow> call_state \<Rightarrow> listener_attachment \<Rightarrow> task" where
  "advanced_task now rec state att =
     (let nxt = rec\<lparr>tk_state := state,
            tk_task_state := (if state = CallWorking then TsWorking else tk_task_state rec),
            tk_delivery_state :=
              (if state = CallWorking \<and> tk_delivery_state rec \<noteq> None then Some Started else tk_delivery_state rec),
            tk_updated_at := now\<rparr>
      in if tk_delivery_state nxt = Some Started \<and> state = CallWorking
         then nxt\<lparr>tk_execution_deadline := Some (started_deadline now rec att),
                  tk_deadline := started_deadline now rec att\<rparr>
         else nxt)"

definition accepted_intent :: "int \<Rightarrow> task \<Rightarrow> call_state \<Rightarrow> listener_attachment \<Rightarrow> audit_intent option" where
  "accepted_intent now rec state att =
     (if state = Answered \<or> (state = CallWorking \<and> tk_state rec = Ringing)
      then call_audit_intent EvAccept (advanced_task now rec state att) (tk_to rec) HandleActor (la_source att) now
      else None)"

definition start_txn :: "int \<Rightarrow> do_state \<Rightarrow> task \<Rightarrow> task \<Rightarrow> audit_intent option \<Rightarrow> do_state" where
  "start_txn now st rec nxt accepted =
     (let st1 = put_call nxt st;
          st2 = (if task_due_key rec \<noteq> task_due_key nxt then due_put nxt (due_del rec st1) else st1);
          st3 = st2\<lparr>d_starts := kv_put (tk_updated_at nxt, tk_call_id nxt) (tk_updated_at nxt) (d_starts st2)\<rparr>;
          st4 = arm_at (tk_deadline nxt) st3
      in put_intent now accepted st4)"

text \<open>
  \<open>advanceCall\<close> up to the outbox flush. The second component is absent when the frame is a
  duplicate or moves backward, else whether the outbox is flushed next.
\<close>

definition advance_txn ::
  "int \<Rightarrow> do_state \<Rightarrow> task \<Rightarrow> call_state \<Rightarrow> listener_attachment \<Rightarrow> do_state \<times> bool option" where
  "advance_txn now st rec state att =
     (if lc_phase (advance_authorized_call (team_call_lifecycle rec) (durable_phase state)) = durable_phase (tk_state rec)
      then (st, None)
      else let nxt = advanced_task now rec state att;
               accepted = accepted_intent now rec state att
           in if tk_delivery_state nxt = Some Started \<and> state = CallWorking
              then (start_txn now st rec nxt accepted, Some (accepted \<noteq> None))
              else if accepted \<noteq> None then (persist_txn now st nxt accepted, Some True)
              else (put_call nxt st, Some False))"

subsection \<open>Terminal frames\<close>

definition cancellation_principal :: "task \<Rightarrow> principal" where
  "cancellation_principal t = lc_principal (terminate_authorized_call (team_call_lifecycle t) CtCanceled)"

definition canceled_by_listener :: "int \<Rightarrow> task \<Rightarrow> task" where
  "canceled_by_listener now rec =
     (let canceled = (update_task rec (Some TsCanceled) None now)\<lparr>tk_principal := Some (cancellation_principal rec)\<rparr>
      in if tk_delivery_state canceled \<noteq> None
         then (without_ciphertext canceled)
           \<lparr>tk_deadline := or_default (tk_purge_at canceled) (tk_deadline canceled),
            tk_delivery_state := Some Terminal, tk_terminal_reason := Some TrCanceled, tk_ciphertext_bytes := Some 0\<rparr>
         else canceled)"

definition rejected_by_listener :: "int \<Rightarrow> task \<Rightarrow> task" where
  "rejected_by_listener now rec =
     (let failed = update_task rec (Some TsFailed) None now
      in if tk_delivery_state failed \<noteq> None
         then (without_ciphertext failed)
           \<lparr>tk_deadline := or_default (tk_purge_at failed) (tk_deadline failed),
            tk_delivery_state := Some Terminal, tk_terminal_reason := Some TrDeliveryFailed,
            tk_ciphertext_bytes := Some 0\<rparr>
         else failed)"

fun outcome_state :: "outcome_terminal \<Rightarrow> a2a_state" where
  "outcome_state OtCompleted = TsCompleted"
| "outcome_state OtFailed = TsFailed"

fun outcome_reason :: "outcome_terminal \<Rightarrow> terminal_reason" where
  "outcome_reason OtCompleted = TrCompleted"
| "outcome_reason OtFailed = TrFailed"

definition finished_by_listener ::
  "int \<Rightarrow> task \<Rightarrow> outcome_terminal \<Rightarrow> terminal_reason option \<Rightarrow> envelope \<Rightarrow> task" where
  "finished_by_listener now rec terminal reason e =
     (let finished = update_task rec (Some (outcome_state terminal)) (Some e) now
      in if tk_delivery_state finished \<noteq> None
         then (without_ciphertext finished)
           \<lparr>tk_deadline := or_default (tk_execute_by finished) (tk_deadline finished),
            tk_delivery_state := Some Terminal,
            tk_terminal_reason := Some (or_default reason (outcome_reason terminal)),
            tk_ciphertext_bytes := Some (envelope_bytes e)\<rparr>
         else finished)"

definition outcome_addressed :: "listener_attachment \<Rightarrow> task \<Rightarrow> envelope \<Rightarrow> bool" where
  "outcome_addressed att rec e =
     (truthy_str (la_relay_origin att) \<and> truthy_str (la_handle att) \<and> truthy_str (la_org att) \<and>
      Some (en_relay_origin e) = la_relay_origin att \<and>
      en_from e = format_address (the (la_org att)) (the (la_handle att)) \<and>
      en_to e = format_address (the (la_org att)) (tk_from rec))"

definition valid_durable_lease :: "task \<Rightarrow> string option \<Rightarrow> listener_attachment \<Rightarrow> bool" where
  "valid_durable_lease t frame_lease att =
     (if tk_delivery_state t = None then True
      else case tk_lease t of None \<Rightarrow> False
         | Some l \<Rightarrow> frame_lease = Some (ls_lease_id l) \<and>
                     la_listener_session_id att = Some (ls_listener_session_id l))"

text \<open>
  The part of \<open>webSocketMessage\<close> for a parsed listener frame up to the first await outside
  storage: read the record, check it, and run the transaction of the frame.
\<close>

datatype listener_result =
  LrIgnored
| LrAdvanced task call_state bool
| LrTerminal task task
| LrNotCancelled

definition listener_txn ::
  "int \<Rightarrow> do_state \<Rightarrow> listener_attachment \<Rightarrow> listener_frame \<Rightarrow> do_state \<times> listener_result" where
  "listener_txn now st att frame = (case get_call st (lf_call_id frame) of
     None \<Rightarrow> (st, LrIgnored)
   | Some rec \<Rightarrow>
       if task_is_terminal rec then (st, LrIgnored)
       else if \<not> valid_durable_lease rec (lf_lease_id frame) att then (st, LrIgnored)
       else (case lf_body frame of
          CallAccepted \<Rightarrow>
            (case advance_txn now st rec Answered att of
               (st', None) \<Rightarrow> (st', LrIgnored)
             | (st', Some fl) \<Rightarrow> (st', LrAdvanced rec Answered fl))
        | CallStarted \<Rightarrow>
            (case advance_txn now st rec CallWorking att of
               (st', None) \<Rightarrow> (st', LrIgnored)
             | (st', Some fl) \<Rightarrow> (st', LrAdvanced rec CallWorking fl))
        | CallCancelled _ \<Rightarrow>
            (let canceled = canceled_by_listener now rec
             in (persist_txn now st canceled
                   (call_audit_intent EvCancel canceled (tk_to rec) HandleActor (la_source att) now),
                 LrTerminal rec canceled))
        | CallNotCancelled _ \<Rightarrow> (st, LrNotCancelled)
        | CallRejected \<Rightarrow>
            (let failed = rejected_by_listener now rec
             in (persist_txn now st failed
                   (call_audit_intent EvFail failed (tk_to rec) HandleActor (la_source att) now),
                 LrTerminal rec failed))
        | CallOutcome terminal reason e \<Rightarrow>
            if \<not> outcome_addressed att rec e then (st, LrIgnored)
            else (let finished = finished_by_listener now rec terminal reason e;
                      event = (if terminal = OtCompleted then EvComplete else EvFail)
                  in (persist_txn now st finished
                        (call_audit_intent event finished (tk_to rec) HandleActor (la_source att) now),
                      LrTerminal rec finished))))"

subsection \<open>Cancellation by the caller\<close>

definition canceled_by_caller :: "int \<Rightarrow> task \<Rightarrow> task" where
  "canceled_by_caller now current =
     (without_ciphertext current)
       \<lparr>tk_principal := Some (cancellation_principal current),
        tk_deadline := or_default (tk_purge_at current) (tk_deadline current), tk_task_state := TsCanceled,
        tk_delivery_state := Some Terminal, tk_terminal_reason := Some TrCanceled,
        tk_ciphertext_bytes := Some 0, tk_updated_at := now\<rparr>"

definition cancelable_state :: "task \<Rightarrow> bool" where
  "cancelable_state t = (tk_delivery_state t = Some Queued \<or> tk_delivery_state t = Some Leased)"

definition cancel_txn :: "int \<Rightarrow> do_state \<Rightarrow> string \<Rightarrow> do_state \<times> task option" where
  "cancel_txn now st call_id = (case get_call st call_id of
     None \<Rightarrow> (st, None)
   | Some current \<Rightarrow>
       if task_is_terminal current \<or> \<not> cancelable_state current then (st, None)
       else let canceled = canceled_by_caller now current;
                (st1, persisted) = release_durable_quota st current canceled;
                st2 = st1\<lparr>d_calls := kv_put call_id persisted (d_calls st1)\<rparr>;
                st3 = due_put canceled (due_del current (queue_del current st2));
                st4 = clear_active_if call_id st3
            in (put_intent now
                  (call_audit_intent EvCancel canceled (tk_from current) HandleActor no_source now) st4,
                Some canceled))"

subsection \<open>The audit outbox and the D1 table\<close>

text \<open>
  The rows of \<open>org_events\<close> a call writes, oldest first (the id is the position). A batch is one
  D1 transaction: it commits or not, and a commit whose reply is lost looks like a failure.
\<close>

type_synonym org_events = "audit_intent list"

datatype d1_outcome = D1Committed | D1Rejected | D1LostReply

definition insert_event :: "org_events \<Rightarrow> audit_intent \<Rightarrow> org_events" where
  "insert_event events i =
     (if list_ex (\<lambda>e. ai_event_key e = ai_event_key i) events then events else events @ [i])"

fun drop_oldest :: "nat \<Rightarrow> string \<Rightarrow> org_events \<Rightarrow> org_events" where
  "drop_oldest n org [] = []"
| "drop_oldest n org (e # es) =
     (if n > 0 \<and> ai_org e = org then drop_oldest (n - 1) org es else e # drop_oldest n org es)"

definition trim_org :: "org_events \<Rightarrow> string \<Rightarrow> org_events" where
  "trim_org events org =
     drop_oldest (length (filter (\<lambda>e. ai_org e = org) events) - MAX_RETAINED_ORG_AUDIT_EVENTS) org events"

definition d1_batch :: "org_events \<Rightarrow> audit_intent list \<Rightarrow> org_events" where
  "d1_batch events pending =
     foldl trim_org (foldl insert_event events pending) (remdups (map ai_org pending))"

definition schedule_next_alarm :: "int \<Rightarrow> do_state \<Rightarrow> do_state" where
  "schedule_next_alarm now st =
     (let due = (case kv_first (d_due st) of None \<Rightarrow> [] | Some ((at, _), _) \<Rightarrow> [at]);
          active = (if truthy_str (d_active st)
                    then (case Option.bind (get_call st (the (d_active st))) tk_lease of
                            None \<Rightarrow> [] | Some l \<Rightarrow> [ls_expires_at l])
                    else []);
          audit = (case kv_first (d_outbox st) of None \<Rightarrow> [] | Some _ \<Rightarrow> [now + CALL_AUDIT_RETRY_MS]);
          (maintenance, rate) = read_rate_limit_maintenance (d_rate st);
          rl = (case maintenance of None \<Rightarrow> [] | Some m \<Rightarrow> [rm_due m]);
          st1 = st\<lparr>d_rate := rate\<rparr>
      in case due @ active @ audit @ rl of
           [] \<Rightarrow> st1
         | t # ts \<Rightarrow> st1\<lparr>d_alarm := Some (fold min ts t)\<rparr>)"

definition flush_pending :: "do_state \<Rightarrow> (audit_key \<times> audit_intent) list" where
  "flush_pending st = kv_list_limit CALL_AUDIT_DRAIN_LIMIT (d_outbox st)"

definition flush_end :: "int \<Rightarrow> do_state \<Rightarrow> audit_key list \<Rightarrow> do_state" where
  "flush_end now st keys = schedule_next_alarm now (st\<lparr>d_outbox := kv_del_all keys (d_outbox st)\<rparr>)"

definition flush_failed :: "int \<Rightarrow> do_state \<Rightarrow> do_state" where
  "flush_failed now st = st\<lparr>d_alarm := Some (now + CALL_AUDIT_RETRY_MS)\<rparr>"

definition flush_audit_outbox :: "d1_outcome \<Rightarrow> int \<Rightarrow> do_state \<Rightarrow> org_events \<Rightarrow> do_state \<times> org_events" where
  "flush_audit_outbox d1 now st events =
     (let pending = flush_pending st
      in if pending = [] then (st, events)
         else case d1 of
           D1Committed \<Rightarrow> (flush_end now st (map fst pending), d1_batch events (map snd pending))
         | D1Rejected \<Rightarrow> (flush_failed now st, events)
         | D1LostReply \<Rightarrow> (flush_failed now st, d1_batch events (map snd pending)))"

end
