(* ===== verification/MailboxInv.thy ===== *)
theory MailboxInv
  imports MailboxCalls
begin

text \<open>
  The invariant of a mailbox and its preservation by every transaction of \<open>MailboxState\<close>
  and \<open>MailboxCalls\<close>. What a transaction does to one stored task is summarised by
  \<open>task_step\<close>; the invariant is proved for that summary once and each transaction is shown
  to fit it.
\<close>

subsection \<open>Stored tasks\<close>

definition durable :: "task \<Rightarrow> bool" where
  "durable t = (tk_delivery_state t \<noteq> None)"

definition holds_quota :: "task \<Rightarrow> int" where
  "holds_quota t = (if durable t \<and> \<not> tk_quota_released t then 1 else 0)"

definition stored_bytes :: "task \<Rightarrow> int" where
  "stored_bytes t = or_default (tk_ciphertext_bytes t) 0"

definition attempt_between :: "int \<Rightarrow> lease option \<Rightarrow> bool" where
  "attempt_between hi l = opt_all (\<lambda>x. 1 \<le> ls_attempt x \<and> ls_attempt x \<le> hi) l"

definition delivery_ok :: "task \<Rightarrow> bool" where
  "delivery_ok t = (case tk_delivery_state t of
     None \<Rightarrow> True
   | Some Queued \<Rightarrow> tk_request_envelope t \<noteq> None \<and> attempt_between 2 (tk_lease t) \<and> tk_state t \<noteq> CallWorking
        \<and> tk_deadline t \<le> the (tk_execute_by t)
   | Some Leased \<Rightarrow> tk_request_envelope t \<noteq> None \<and> tk_lease t \<noteq> None \<and> attempt_between 3 (tk_lease t)
        \<and> tk_state t \<noteq> CallWorking \<and> tk_deadline t \<le> the (tk_execute_by t)
   | Some Started \<Rightarrow> tk_request_envelope t \<noteq> None \<and> tk_lease t \<noteq> None \<and> attempt_between 3 (tk_lease t)
        \<and> tk_state t = CallWorking \<and> tk_deadline t \<le> the (tk_execute_by t)
   | Some Terminal \<Rightarrow> tk_request_envelope t = None \<and> tk_lease t = None)"

definition task_ok :: "task \<Rightarrow> bool" where
  "task_ok t =
     (if durable t
      then truthy_str (tk_from_agent_id t) \<and> truthy_str (tk_message_id t) \<and>
           tk_request_envelope_sha256 t \<noteq> None \<and> tk_execute_by t \<noteq> None \<and>
           tk_purge_at t = Some (the (tk_execute_by t) + MAILBOX_TOMBSTONE_TTL_MS) \<and>
           tk_deadline t \<le> the (tk_purge_at t) \<and> 0 \<le> stored_bytes t \<and>
           task_is_terminal t = (tk_delivery_state t = Some Terminal) \<and>
           tk_quota_released t = (tk_delivery_state t = Some Terminal) \<and> delivery_ok t
      else \<not> tk_quota_released t \<and> tk_ciphertext_bytes t = None)"

definition same_origin :: "task \<Rightarrow> task \<Rightarrow> bool" where
  "same_origin t u =
     (tk_call_id u = tk_call_id t \<and> tk_created_at u = tk_created_at t \<and> tk_from u = tk_from t \<and>
      tk_org u = tk_org t \<and> tk_to u = tk_to t \<and> tk_from_agent_id u = tk_from_agent_id t \<and>
      tk_message_id u = tk_message_id t \<and> tk_request_envelope_sha256 u = tk_request_envelope_sha256 t \<and>
      tk_execute_by u = tk_execute_by t \<and> tk_purge_at u = tk_purge_at t \<and> durable u = durable t)"

text \<open>
  How a stored task may change: a terminal task keeps its outcome (only the ciphertext may
  be dropped), and a live one never moves its phase backward.
\<close>

definition evolves :: "task \<Rightarrow> task \<Rightarrow> bool" where
  "evolves t u =
     (same_origin t u \<and>
      (if task_is_terminal t
       then tk_task_state u = tk_task_state t \<and> tk_terminal_reason u = tk_terminal_reason t \<and>
            tk_state u = tk_state t \<and>
            (tk_outcome_envelope u = tk_outcome_envelope t \<or> tk_outcome_envelope u = None)
       else task_is_terminal u \<or> phase_rank (durable_phase (tk_state t)) \<le> phase_rank (durable_phase (tk_state u))))"

lemma same_origin_refl [simp]: "same_origin t t"
  by (simp add: same_origin_def)

lemma same_origin_trans: "same_origin a b \<Longrightarrow> same_origin b c \<Longrightarrow> same_origin a c"
  by (simp add: same_origin_def)

lemma same_origin_sym: "same_origin a b \<Longrightarrow> same_origin b a"
  by (auto simp: same_origin_def)

lemma evolves_refl [simp]: "evolves t t"
  by (simp add: evolves_def)

lemma evolves_terminal: "evolves t u \<Longrightarrow> task_is_terminal t \<Longrightarrow> task_is_terminal u"
  by (simp add: evolves_def task_is_terminal_def)

lemma evolves_trans:
  assumes "evolves a b" "evolves b c"
  shows "evolves a c"
proof (cases "task_is_terminal a")
  case True
  then have "task_is_terminal b" using assms(1) evolves_terminal by blast
  then show ?thesis using assms True same_origin_trans[of a b c] by (auto simp: evolves_def)
next
  case a: False
  show ?thesis
  proof (cases "task_is_terminal b")
    case True
    then have "task_is_terminal c" using assms(2) evolves_terminal by blast
    then show ?thesis using assms a True same_origin_trans[of a b c] by (simp add: evolves_def)
  next
    case False
    then show ?thesis using assms a same_origin_trans[of a b c] by (auto simp: evolves_def)
  qed
qed

subsection \<open>The invariant\<close>

abbreviation outstanding_of :: "do_state \<Rightarrow> int" where
  "outstanding_of st \<equiv> or_default (d_outstanding st) 0"

abbreviation caller_outstanding_of :: "do_state \<Rightarrow> string \<Rightarrow> int" where
  "caller_outstanding_of st a \<equiv> or_default (kv_get (d_caller_outstanding st) a) 0"

abbreviation bytes_of :: "do_state \<Rightarrow> int" where
  "bytes_of st \<equiv> or_default (d_ciphertext_bytes st) 0"

definition caller_quota :: "string \<Rightarrow> task \<Rightarrow> int" where
  "caller_quota a t = (if tk_from_agent_id t = Some a then holds_quota t else 0)"

definition store_inv :: "string set \<Rightarrow> do_state \<Rightarrow> bool" where
  "store_inv used st =
     (kv_wf (d_calls st) \<and> kv_wf (d_dedupe st) \<and> kv_wf (d_queue st) \<and> kv_wf (d_due st) \<and>
      kv_wf (d_caller_outstanding st) \<and>
      (\<forall>i t. get_call st i = Some t \<longrightarrow> tk_call_id t = i \<and> i \<in> used \<and> i \<noteq> [] \<and> task_ok t))"

definition quota_inv :: "do_state \<Rightarrow> bool" where
  "quota_inv st =
     (outstanding_of st = kv.total holds_quota (d_calls st) \<and>
      (\<forall>a. caller_outstanding_of st a = kv.total (caller_quota a) (d_calls st)) \<and>
      bytes_of st = kv.total stored_bytes (d_calls st) \<and>
      outstanding_of st \<le> MAILBOX_MAX_QUEUED_TASKS \<and>
      (\<forall>a. caller_outstanding_of st a \<le> MAILBOX_MAX_OUTSTANDING_PER_CALLER))"

definition waiting :: "task \<Rightarrow> bool" where
  "waiting t = (tk_delivery_state t = Some Queued \<or> tk_delivery_state t = Some Leased)"

definition queue_inv :: "string set \<Rightarrow> do_state \<Rightarrow> bool" where
  "queue_inv used st =
     ((\<forall>i t. get_call st i = Some t \<and> waiting t \<longrightarrow> kv_get (d_queue st) (tk_created_at t, i) = Some i) \<and>
      (\<forall>c i v. kv_get (d_queue st) (c, i) = Some v \<longrightarrow>
         v = i \<and> i \<in> used \<and> (\<forall>t. get_call st i = Some t \<longrightarrow> tk_created_at t = c)))"

definition due_inv :: "do_state \<Rightarrow> bool" where
  "due_inv st =
     ((\<forall>i t. get_call st i = Some t \<longrightarrow> kv_get (d_due st) (tk_deadline t, i) = Some i) \<and>
      (\<forall>d i v. kv_get (d_due st) (d, i) = Some v \<longrightarrow>
         v = i \<and> (\<exists>t. get_call st i = Some t \<and> tk_deadline t = d)))"

definition active_inv :: "string set \<Rightarrow> do_state \<Rightarrow> bool" where
  "active_inv used st =
     ((\<forall>i t. get_call st i = Some t \<and> tk_delivery_state t = Some Leased \<longrightarrow> d_active st = Some i) \<and>
      (\<forall>i. d_active st = Some i \<longrightarrow> i \<in> used \<and> i \<noteq> [] \<and>
         (\<forall>t. get_call st i = Some t \<longrightarrow> tk_delivery_state t \<noteq> Some Queued)))"

definition dedupe_inv :: "do_state \<Rightarrow> bool" where
  "dedupe_inv st =
     ((\<forall>a m r. kv_get (d_dedupe st) (a, m) = Some r \<longrightarrow>
        (\<exists>t. get_call st (dr_call_id r) = Some t \<and> durable t \<and> tk_from_agent_id t = Some a \<and>
             tk_message_id t = Some m \<and> tk_request_envelope_sha256 t = Some (dr_request_envelope_sha256 r) \<and>
             tk_purge_at t = Some (dr_purge_at r))) \<and>
      (\<forall>i t. get_call st i = Some t \<and> durable t \<longrightarrow>
        (\<exists>r. kv_get (d_dedupe st) (task_dedupe_key t) = Some r \<and> dr_call_id r = i)))"

definition do_inv :: "string set \<Rightarrow> do_state \<Rightarrow> bool" where
  "do_inv used st =
     (store_inv used st \<and> quota_inv st \<and> queue_inv used st \<and> due_inv st \<and> active_inv used st \<and> dedupe_inv st)"

lemma do_inv_empty: "do_inv {} empty_do_state"
  by (simp add: do_inv_def store_inv_def quota_inv_def queue_inv_def due_inv_def active_inv_def dedupe_inv_def
      empty_do_state_def get_call_def MAILBOX_MAX_QUEUED_TASKS_def MAILBOX_MAX_OUTSTANDING_PER_CALLER_def)

lemma do_inv_used_mono: "do_inv used st \<Longrightarrow> used \<subseteq> used' \<Longrightarrow> do_inv used' st"
  unfolding do_inv_def store_inv_def queue_inv_def active_inv_def by blast

text \<open>The fields the invariant reads.\<close>

definition same_core :: "do_state \<Rightarrow> do_state \<Rightarrow> bool" where
  "same_core st st' =
     (d_calls st' = d_calls st \<and> d_dedupe st' = d_dedupe st \<and> d_queue st' = d_queue st \<and> d_due st' = d_due st \<and>
      d_active st' = d_active st \<and> d_outstanding st' = d_outstanding st \<and>
      d_caller_outstanding st' = d_caller_outstanding st \<and> d_ciphertext_bytes st' = d_ciphertext_bytes st)"

lemma do_inv_core: "same_core st st' \<Longrightarrow> do_inv used st' = do_inv used st"
  by (simp add: same_core_def do_inv_def store_inv_def quota_inv_def queue_inv_def due_inv_def active_inv_def
      dedupe_inv_def get_call_def)

lemma same_core_refl [simp]: "same_core st st"
  by (simp add: same_core_def)

lemma arm_at_core: "same_core st (arm_at at st)"
  by (simp add: same_core_def arm_at_def split: option.splits)

lemma put_intent_core: "same_core st (put_intent now i st)"
  by (simp add: same_core_def put_intent_def arm_audit_retry_def arm_at_def split: option.splits)

lemma core_fields:
  "d_calls (put_intent now i st) = d_calls st" "d_dedupe (put_intent now i st) = d_dedupe st"
  "d_queue (put_intent now i st) = d_queue st" "d_due (put_intent now i st) = d_due st"
  "d_active (put_intent now i st) = d_active st" "d_outstanding (put_intent now i st) = d_outstanding st"
  "d_caller_outstanding (put_intent now i st) = d_caller_outstanding st"
  "d_ciphertext_bytes (put_intent now i st) = d_ciphertext_bytes st"
  "d_calls (arm_at at st) = d_calls st" "d_dedupe (arm_at at st) = d_dedupe st"
  "d_queue (arm_at at st) = d_queue st" "d_due (arm_at at st) = d_due st"
  "d_active (arm_at at st) = d_active st" "d_outstanding (arm_at at st) = d_outstanding st"
  "d_caller_outstanding (arm_at at st) = d_caller_outstanding st"
  "d_ciphertext_bytes (arm_at at st) = d_ciphertext_bytes st"
  using put_intent_core[of st now i] arm_at_core[of st at] by (simp_all add: same_core_def)

subsection \<open>One task changes\<close>

text \<open>
  \<open>task_step st t u st'\<close>: the transaction replaced the stored task \<open>t\<close> by \<open>u\<close>, moved its due
  entry, kept or dropped its queue entry, settled its quota and left every other task,
  index entry and counter alone.
\<close>

definition task_step :: "do_state \<Rightarrow> task \<Rightarrow> task \<Rightarrow> do_state \<Rightarrow> bool" where
  "task_step st t u st' =
     (get_call st (tk_call_id t) = Some t \<and> same_origin t u \<and> task_ok u \<and>
      d_calls st' = kv_put (tk_call_id t) u (d_calls st) \<and> d_dedupe st' = d_dedupe st \<and>
      kv_wf (d_queue st') \<and> kv_wf (d_due st') \<and> kv_wf (d_caller_outstanding st') \<and>
      (\<forall>k. kv_get (d_due st') k =
         (if k = task_due_key u then Some (tk_call_id t) else if k = task_due_key t then None else kv_get (d_due st) k)) \<and>
      (\<forall>k. kv_get (d_queue st') k = kv_get (d_queue st) k \<or>
           (k = task_queue_key t \<and> \<not> waiting u \<and> kv_get (d_queue st') k = None)) \<and>
      (waiting u \<longrightarrow> waiting t) \<and>
      outstanding_of st' = outstanding_of st + holds_quota u - holds_quota t \<and>
      (\<forall>a. caller_outstanding_of st' a = caller_outstanding_of st a + caller_quota a u - caller_quota a t) \<and>
      bytes_of st' = bytes_of st + stored_bytes u - stored_bytes t \<and>
      holds_quota u \<le> holds_quota t \<and>
      (d_active st' = d_active st \<or> d_active st' = None \<and> d_active st = Some (tk_call_id t) \<or>
       d_active st' = Some (tk_call_id t) \<and> d_active st = None) \<and>
      (tk_delivery_state u = Some Leased \<longrightarrow> d_active st' = Some (tk_call_id t)) \<and>
      (tk_delivery_state u = Some Queued \<longrightarrow> d_active st' \<noteq> Some (tk_call_id t)))"

lemma task_step_facts:
  assumes "task_step st t u st'"
  shows "get_call st (tk_call_id t) = Some t" "same_origin t u" "task_ok u" "d_dedupe st' = d_dedupe st"
    "kv_get (d_due st') k =
       (if k = task_due_key u then Some (tk_call_id t) else if k = task_due_key t then None else kv_get (d_due st) k)"
    "kv_get (d_queue st') k = kv_get (d_queue st) k \<or>
       (k = task_queue_key t \<and> \<not> waiting u \<and> kv_get (d_queue st') k = None)"
    "waiting u \<longrightarrow> waiting t"
    "d_active st' = d_active st \<or> d_active st' = None \<and> d_active st = Some (tk_call_id t) \<or>
       d_active st' = Some (tk_call_id t) \<and> d_active st = None"
    "tk_delivery_state u = Some Leased \<longrightarrow> d_active st' = Some (tk_call_id t)"
    "tk_delivery_state u = Some Queued \<longrightarrow> d_active st' \<noteq> Some (tk_call_id t)"
  by (insert assms[unfolded task_step_def]; elim conjE; (assumption | erule spec))+

lemma task_step_get:
  assumes "task_step st t u st'" "kv_wf (d_calls st)"
  shows "get_call st' i = (if i = tk_call_id t then Some u else get_call st i)"
  using assms by (simp add: task_step_def get_call_def)

lemma task_step_store:
  assumes "task_step st t u st'" "store_inv used st"
  shows "store_inv used st'"
proof -
  have wf: "kv_wf (d_calls st)" using assms(2) by (simp add: store_inv_def)
  have "kv_wf (d_calls st')" "tk_call_id u = tk_call_id t" "task_ok u"
    using assms(1) wf by (auto simp: task_step_def same_origin_def)
  then show ?thesis
    using assms task_step_get[OF assms(1) wf] by (auto simp: store_inv_def task_step_def)
qed

lemma task_step_quota:
  assumes s: "task_step st t u st'" and "store_inv used st" and q: "quota_inv st"
  shows "quota_inv st'"
proof -
  have wf: "kv_wf (d_calls st)" using assms(2) by (simp add: store_inv_def)
  have tot: "kv.total f (d_calls st') = kv.total f (d_calls st) + f u - f t" for f
    using s kv.total_put[OF wf, of f "tk_call_id t" u] by (auto simp: task_step_def get_call_def)
  have cq: "caller_quota a u \<le> caller_quota a t" for a
    using s by (simp add: task_step_def caller_quota_def same_origin_def)
  show ?thesis
    unfolding quota_inv_def tot
  proof (intro conjI allI)
    fix a
    have "caller_outstanding_of st' a = caller_outstanding_of st a + caller_quota a u - caller_quota a t"
      using s by (simp add: task_step_def)
    then show "caller_outstanding_of st' a = kv.total (caller_quota a) (d_calls st) + caller_quota a u - caller_quota a t"
      and "caller_outstanding_of st' a \<le> MAILBOX_MAX_OUTSTANDING_PER_CALLER"
      using q cq[of a] by (auto simp: quota_inv_def dest!: spec[of _ a])
  qed (use s q in \<open>auto simp: task_step_def quota_inv_def\<close>)
qed

lemma task_step_queue:
  assumes s: "task_step st t u st'" and st: "store_inv used st" and q: "queue_inv used st"
  shows "queue_inv used st'"
proof -
  have wf: "kv_wf (d_calls st)" using st by (simp add: store_inv_def)
  note get = task_step_get[OF s wf]
  note t = task_step_facts(1)[OF s] and k = task_step_facts(6)[OF s]
  have same: "tk_created_at u = tk_created_at t" using task_step_facts(2)[OF s] by (simp add: same_origin_def)
  have w: "waiting u \<Longrightarrow> waiting t" using task_step_facts(7)[OF s] by simp
  have kept: "kv_get (d_queue st') k = kv_get (d_queue st) k" if "k \<noteq> task_queue_key t \<or> waiting u" for k
    using k[of k] that by auto
  have sub: "kv_get (d_queue st) k = Some v" if "kv_get (d_queue st') k = Some v" for k v
    using k[of k] that by auto
  have "kv_get (d_queue st') (tk_created_at v, i) = Some i" if "get_call st' i = Some v" "waiting v" for i v
  proof (cases "i = tk_call_id t")
    case True
    then have "v = u" using that get by simp
    then show ?thesis
      using True that kept w q t same by (auto simp: queue_inv_def)
  next
    case False
    then show ?thesis using that get q kept[of "(tk_created_at v, i)"]
      by (auto simp: queue_inv_def task_queue_key_def)
  qed
  moreover have "v = i \<and> i \<in> used \<and> (\<forall>w. get_call st' i = Some w \<longrightarrow> tk_created_at w = c)"
    if "kv_get (d_queue st') (c, i) = Some v" for c i v
    using sub[OF that] q t get same unfolding queue_inv_def by (metis option.inject)
  ultimately show ?thesis unfolding queue_inv_def by blast
qed

lemma task_step_due:
  assumes s: "task_step st t u st'" and st: "store_inv used st" and d: "due_inv st"
  shows "due_inv st'"
proof -
  have wf: "kv_wf (d_calls st)" using st by (simp add: store_inv_def)
  note get = task_step_get[OF s wf]
  note t = task_step_facts(1)[OF s] and k = task_step_facts(5)[OF s]
  have id: "tk_call_id u = tk_call_id t" using task_step_facts(2)[OF s] by (simp add: same_origin_def)
  have "kv_get (d_due st') (tk_deadline v, i) = Some i" if "get_call st' i = Some v" for i v
    using that get[of i] k[of "(tk_deadline v, i)"] d id
    by (auto simp: due_inv_def task_due_key_def split: if_splits)
  moreover have "v = i \<and> (\<exists>w. get_call st' i = Some w \<and> tk_deadline w = e)"
    if g: "kv_get (d_due st') (e, i) = Some v" for e i v
  proof (cases "(e, i) = task_due_key u")
    case True
    then show ?thesis using g k[of "(e, i)"] get id by (auto simp: task_due_key_def)
  next
    case False
    then have old: "kv_get (d_due st) (e, i) = Some v" "(e, i) \<noteq> task_due_key t"
      using g k[of "(e, i)"] by (auto split: if_splits)
    obtain w where "get_call st i = Some w" "tk_deadline w = e" "v = i"
      using old(1) d unfolding due_inv_def by blast
    moreover have "i \<noteq> tk_call_id t" using calculation old(2) t by (auto simp: task_due_key_def)
    ultimately show ?thesis using get by auto
  qed
  ultimately show ?thesis unfolding due_inv_def by blast
qed

lemma task_step_active:
  assumes s: "task_step st t u st'" and st: "store_inv used st" and a: "active_inv used st"
  shows "active_inv used st'"
proof -
  have wf: "kv_wf (d_calls st)" using st by (simp add: store_inv_def)
  note get = task_step_get[OF s wf]
  note t = task_step_facts(1)[OF s]
  then have tid: "tk_call_id t \<in> used" "tk_call_id t \<noteq> []" using st unfolding store_inv_def by blast+
  note act = task_step_facts(8)[OF s] and l = task_step_facts(9)[OF s] and q = task_step_facts(10)[OF s]
  have "d_active st' = Some i" if "get_call st' i = Some v" "tk_delivery_state v = Some Leased" for i v
  proof (cases "i = tk_call_id t")
    case True
    then show ?thesis using that get l by auto
  next
    case False
    then have "d_active st = Some i" using that get a by (auto simp: active_inv_def)
    then show ?thesis using act False by auto
  qed
  moreover have "i \<in> used \<and> i \<noteq> [] \<and> (\<forall>v. get_call st' i = Some v \<longrightarrow> tk_delivery_state v \<noteq> Some Queued)"
    if "d_active st' = Some i" for i
  proof (cases "i = tk_call_id t")
    case True
    then show ?thesis using that get q tid by auto
  next
    case False
    then have "d_active st = Some i" using act that by auto
    then show ?thesis using a get False by (auto simp: active_inv_def)
  qed
  ultimately show ?thesis unfolding active_inv_def by blast
qed

lemma task_step_dedupe:
  assumes s: "task_step st t u st'" and st: "store_inv used st" and d: "dedupe_inv st"
  shows "dedupe_inv st'"
proof -
  have wf: "kv_wf (d_calls st)" using st by (simp add: store_inv_def)
  note get = task_step_get[OF s wf]
  note t = task_step_facts(1)[OF s] and so = task_step_facts(2)[OF s] and dd = task_step_facts(4)[OF s]
  have "\<exists>v. get_call st' (dr_call_id r) = Some v \<and> durable v \<and> tk_from_agent_id v = Some a \<and>
      tk_message_id v = Some m \<and> tk_request_envelope_sha256 v = Some (dr_request_envelope_sha256 r) \<and>
      tk_purge_at v = Some (dr_purge_at r)" if g: "kv_get (d_dedupe st') (a, m) = Some r" for a m r
  proof -
    obtain v where v: "get_call st (dr_call_id r) = Some v" "durable v" "tk_from_agent_id v = Some a"
      "tk_message_id v = Some m" "tk_request_envelope_sha256 v = Some (dr_request_envelope_sha256 r)"
      "tk_purge_at v = Some (dr_purge_at r)"
      using g d unfolding dd dedupe_inv_def by blast
    show ?thesis
    proof (cases "dr_call_id r = tk_call_id t")
      case True
      then have "v = t" using v(1) t by simp
      then show ?thesis using v so True get by (auto simp: same_origin_def)
    qed (use v get in auto)
  qed
  moreover have "\<exists>r. kv_get (d_dedupe st') (task_dedupe_key v) = Some r \<and> dr_call_id r = i"
    if "get_call st' i = Some v" "durable v" for i v
  proof (cases "i = tk_call_id t")
    case True
    then have "v = u" using that get by simp
    then have "durable t" "task_dedupe_key v = task_dedupe_key t"
      using that so by (auto simp: same_origin_def task_dedupe_key_def)
    then show ?thesis using d t True unfolding dd dedupe_inv_def by auto
  qed (use that get d dd in \<open>auto simp: dedupe_inv_def\<close>)
  ultimately show ?thesis unfolding dedupe_inv_def by blast
qed

lemma task_step_inv:
  assumes s: "task_step st t u st'" and i: "do_inv used st"
  shows "do_inv used st'"
proof -
  have st: "store_inv used st" "quota_inv st" "queue_inv used st" "due_inv st" "active_inv used st" "dedupe_inv st"
    using i by (simp_all add: do_inv_def)
  show ?thesis
    unfolding do_inv_def
    by (intro conjI task_step_store[OF s st(1)] task_step_quota[OF s st(1,2)] task_step_queue[OF s st(1,3)]
        task_step_due[OF s st(1,4)] task_step_active[OF s st(1,5)] task_step_dedupe[OF s st(1,6)])
qed

end
