(* ===== verification/MailboxOps.thy ===== *)
theory MailboxOps
  imports MailboxInv
begin

text \<open>
  Every transaction of the mailbox fits \<open>task_step\<close> and therefore keeps the invariant, and
  changes stored tasks only as \<open>evolves\<close> allows. Admission, purging and leasing, which add,
  remove or activate a task, are treated on their own.
\<close>

lemma do_inv_parts:
  assumes "do_inv used st"
  shows "store_inv used st" "quota_inv st" "queue_inv used st" "due_inv st" "active_inv used st" "dedupe_inv st"
  using assms by (simp_all add: do_inv_def)

lemma store_inv_wf:
  assumes "store_inv used st"
  shows "kv_wf (d_calls st)" "kv_wf (d_dedupe st)" "kv_wf (d_queue st)" "kv_wf (d_due st)"
    "kv_wf (d_caller_outstanding st)"
  using assms unfolding store_inv_def by blast+

lemma store_inv_get:
  assumes "store_inv used st" "get_call st i = Some t"
  shows "tk_call_id t = i" "i \<in> used" "i \<noteq> []" "task_ok t"
  using assms unfolding store_inv_def by blast+

lemma durable_ok:
  assumes "task_ok t" "durable t"
  shows "truthy_str (tk_from_agent_id t)" "truthy_str (tk_message_id t)" "tk_execute_by t \<noteq> None"
    "tk_request_envelope_sha256 t \<noteq> None"
    "tk_purge_at t = Some (the (tk_execute_by t) + MAILBOX_TOMBSTONE_TTL_MS)"
    "tk_deadline t \<le> the (tk_purge_at t)" "0 \<le> stored_bytes t"
    "task_is_terminal t = (tk_delivery_state t = Some Terminal)"
    "tk_quota_released t = (tk_delivery_state t = Some Terminal)" "delivery_ok t"
  using assms(1)[unfolded task_ok_def if_P[OF assms(2)]] by blast+

lemma sync_ok:
  assumes "task_ok t" "\<not> durable t"
  shows "\<not> tk_quota_released t" "tk_ciphertext_bytes t = None" "holds_quota t = 0" "stored_bytes t = 0"
  using assms by (simp_all add: task_ok_def holds_quota_def stored_bytes_def)

lemma waiting_durable: "waiting t \<Longrightarrow> durable t"
  by (auto simp: waiting_def durable_def)

lemma holds_quota_bounds: "0 \<le> holds_quota t" "holds_quota t \<le> 1"
  by (simp_all add: holds_quota_def)

lemma stored_bytes_nonneg: "store_inv used st \<Longrightarrow> get_call st i = Some t \<Longrightarrow> 0 \<le> stored_bytes t"
  using durable_ok(7) sync_ok(4) store_inv_get(4) by (cases "durable t") fastforce+

lemma same_origin_durable: "same_origin t u \<Longrightarrow> durable u = durable t"
  by (simp add: same_origin_def)

subsection \<open>Quota release\<close>

lemma total_stored_ge:
  assumes st: "store_inv used st" and g: "get_call st i = Some t"
  shows "stored_bytes t \<le> kv.total stored_bytes (d_calls st)"
proof -
  have wf: "kv_wf (d_calls st)" using store_inv_wf(1)[OF st] .
  have "0 \<le> kv.total stored_bytes (kv_del i (d_calls st))"
    unfolding kv.total_def
  proof (rule sum_list_nonneg)
    fix x assume "x \<in> set (map (\<lambda>e. stored_bytes (snd e)) (kv_entries (kv_del i (d_calls st))))"
    then obtain e where e: "e \<in> set (kv_entries (kv_del i (d_calls st)))" "x = stored_bytes (snd e)" by auto
    then have "kv_get (kv_del i (d_calls st)) (fst e) = Some (snd e)"
      using kv.get_fst_snd[of "kv_del i (d_calls st)" e] wf by simp
    then have "get_call st (fst e) = Some (snd e)" using wf by (simp add: get_call_def split: if_splits)
    then show "0 \<le> x" using stored_bytes_nonneg[OF st] e(2) by simp
  qed
  then show ?thesis using kv.total_del[OF wf, of stored_bytes i] g by (simp add: get_call_def)
qed

lemma release_facts:
  assumes inv: "do_inv used st" and g: "get_call st i = Some p" and live: "durable p" "\<not> tk_quota_released p"
    and n: "0 \<le> stored_bytes n"
  shows "\<exists>st1. release_durable_quota st p n = (st1, n\<lparr>tk_quota_released := True\<rparr>) \<and>
    d_calls st1 = d_calls st \<and> d_dedupe st1 = d_dedupe st \<and> d_queue st1 = d_queue st \<and> d_due st1 = d_due st \<and>
    d_active st1 = d_active st \<and> kv_wf (d_caller_outstanding st1) \<and>
    outstanding_of st1 = outstanding_of st - 1 \<and>
    (\<forall>a. caller_outstanding_of st1 a =
       caller_outstanding_of st a - (if tk_from_agent_id p = Some a then 1 else 0)) \<and>
    bytes_of st1 = bytes_of st - stored_bytes p + stored_bytes n \<and>
    d_outbox st1 = d_outbox st"
proof -
  note P = do_inv_parts[OF inv]
  have wf: "kv_wf (d_calls st)" "kv_wf (d_caller_outstanding st)" using store_inv_wf[OF P(1)] by simp_all
  have ok: "task_ok p" using store_inv_get[OF P(1) g] by simp
  obtain a where a: "tk_from_agent_id p = Some a" "a \<noteq> []"
    using durable_ok(1)[OF ok live(1)] by (cases "tk_from_agent_id p") auto
  have h: "holds_quota p = 1" using live by (simp add: holds_quota_def)
  have kg: "kv_get (d_calls st) i = Some p" using g by (simp add: get_call_def)
  have o: "1 \<le> outstanding_of st"
    using kv.total_ge_member[OF wf(1) _ kg, of holds_quota] holds_quota_bounds(1) h P(2) by (simp add: quota_inv_def)
  have c0: "0 \<le> caller_quota a t" for t using holds_quota_bounds(1) by (simp add: caller_quota_def)
  have c: "1 \<le> caller_outstanding_of st a"
    using kv.total_ge_member[of "d_calls st" "caller_quota a", OF wf(1) _ kg] c0 h P(2) a(1)
    by (simp add: quota_inv_def caller_quota_def)
  have b: "0 \<le> bytes_of st - stored_bytes p"
    using total_stored_ge[OF P(1) g] P(2) by (simp add: quota_inv_def)
  have d: "tk_delivery_state p \<noteq> None" using live(1) by (simp add: durable_def)
  show ?thesis
    using a d live(2) o c b n wf(2)
    by (simp add: release_durable_quota_def Let_def stored_bytes_def)
qed

subsection \<open>Ending a waiting or started task\<close>

text \<open>The shape shared by cancellation, revocation, failed delivery and expiry.\<close>

definition terminate_txn :: "int \<Rightarrow> do_state \<Rightarrow> task \<Rightarrow> task \<Rightarrow> audit_intent option \<Rightarrow> do_state" where
  "terminate_txn now st p n intent =
     (let (st1, persisted) = release_durable_quota st p n
      in put_intent now intent
           (clear_active_if (tk_call_id p) (due_put n (due_del p (queue_del p (put_call persisted st1))))))"

lemma terminate_step:
  assumes inv: "do_inv used st" and g: "get_call st i = Some p" and live: "durable p" "\<not> task_is_terminal p"
    and so: "same_origin p n" and ok: "task_ok (n\<lparr>tk_quota_released := True\<rparr>)"
    and fin: "tk_delivery_state n = Some Terminal"
  shows "task_step st p (n\<lparr>tk_quota_released := True\<rparr>) (terminate_txn now st p n intent)"
proof -
  note P = do_inv_parts[OF inv]
  note W = store_inv_wf[OF P(1)]
  have id: "tk_call_id p = i" "tk_call_id n = i" using store_inv_get[OF P(1) g] so by (simp_all add: same_origin_def)
  have pok: "task_ok p" using store_inv_get[OF P(1) g] by simp
  have nrel: "\<not> tk_quota_released p" using durable_ok(8,9)[OF pok live(1)] live(2) by simp
  have nd: "durable n" using same_origin_durable[OF so] live(1) by simp
  have nb: "0 \<le> stored_bytes n"
    using durable_ok(7)[OF ok] nd by (simp add: durable_def stored_bytes_def)
  obtain st1 where r: "release_durable_quota st p n = (st1, n\<lparr>tk_quota_released := True\<rparr>)"
    and f: "d_calls st1 = d_calls st" "d_dedupe st1 = d_dedupe st" "d_queue st1 = d_queue st" "d_due st1 = d_due st"
      "d_active st1 = d_active st" "kv_wf (d_caller_outstanding st1)" "outstanding_of st1 = outstanding_of st - 1"
      "\<And>a. caller_outstanding_of st1 a =
         caller_outstanding_of st a - (if tk_from_agent_id p = Some a then 1 else 0)"
      "bytes_of st1 = bytes_of st - stored_bytes p + stored_bytes n"
    using release_facts[OF inv g live(1) nrel nb] by blast
  let ?n = "n\<lparr>tk_quota_released := True\<rparr>" and ?st = "terminate_txn now st p n intent"
  have F: "d_calls ?st = kv_put i ?n (d_calls st)" "d_dedupe ?st = d_dedupe st"
    "d_queue ?st = kv_del (task_queue_key p) (d_queue st)"
    "d_due ?st = kv_put (task_due_key n) i (kv_del (task_due_key p) (d_due st))"
    "d_active ?st = (if d_active st = Some i then None else d_active st)"
    "d_outstanding ?st = d_outstanding st1" "d_caller_outstanding ?st = d_caller_outstanding st1"
    "d_ciphertext_bytes ?st = d_ciphertext_bytes st1"
    using r f(1-5) id
    by (simp_all add: terminate_txn_def core_fields clear_active_if_def due_put_def due_del_def queue_del_def put_call_def)
  have hq: "holds_quota ?n = 0" "holds_quota p = 1" "\<not> waiting ?n"
    using live(1) nrel fin by (simp_all add: holds_quota_def waiting_def)
  have ks: "task_due_key ?n = task_due_key n" "stored_bytes ?n = stored_bytes n"
    by (simp_all add: task_due_key_def stored_bytes_def)
  show ?thesis
    unfolding task_step_def F ks
  proof (intro conjI allI impI)
    show "same_origin p ?n" using so by (simp add: same_origin_def durable_def)
    fix a show "or_default (kv_get (d_caller_outstanding st1) a) 0 =
        caller_outstanding_of st a + caller_quota a ?n - caller_quota a p"
      using f(8)[of a] hq by (simp add: caller_quota_def)
  qed (use g id ok f(6,7,9) hq W fin in \<open>auto simp: task_queue_key_def\<close>)
qed

lemma terminate_evolves:
  assumes "\<not> task_is_terminal p" "same_origin p n" "task_is_terminal n"
  shows "evolves p (n\<lparr>tk_quota_released := True\<rparr>)"
  using assms by (simp add: evolves_def same_origin_def durable_def task_is_terminal_def)

lemma ended_ok:
  assumes "task_ok p" "durable p" "same_origin p n" "task_is_terminal n" "tk_delivery_state n = Some Terminal"
    "tk_request_envelope n = None" "tk_lease n = None" "tk_deadline n \<le> the (tk_purge_at p)" "0 \<le> stored_bytes n"
  shows "task_ok (n\<lparr>tk_quota_released := True\<rparr>)"
  using durable_ok(1-5)[OF assms(1,2)] assms(3-)
  by (simp add: task_ok_def durable_def same_origin_def delivery_ok_def task_is_terminal_def stored_bytes_def)

lemma put_intent_calls [simp]: "get_call (put_intent now i st) c = get_call st c"
  by (simp add: get_call_def core_fields)

lemma revoked_task_facts:
  assumes "task_ok p" "durable p" "same_origin p t"
  shows "same_origin p (revoked_task now t)" "task_ok ((revoked_task now t)\<lparr>tk_quota_released := True\<rparr>)"
    "tk_delivery_state (revoked_task now t) = Some Terminal" "task_is_terminal (revoked_task now t)"
proof -
  show so: "same_origin p (revoked_task now t)"
    using assms(2,3) by (simp add: same_origin_def revoked_task_def without_ciphertext_def durable_def)
  show tm: "tk_delivery_state (revoked_task now t) = Some Terminal" "task_is_terminal (revoked_task now t)"
    by (simp_all add: revoked_task_def task_is_terminal_def terminal_task_states_def)
  have "tk_purge_at t = tk_purge_at p" using assms(3) by (simp add: same_origin_def)
  then show "task_ok ((revoked_task now t)\<lparr>tk_quota_released := True\<rparr>)"
    using durable_ok(5)[OF assms(1,2)]
    by (intro ended_ok[OF assms(1,2) so tm(2,1)])
       (simp_all add: revoked_task_def without_ciphertext_def stored_bytes_def)
qed

lemma revoke_step:
  assumes inv: "do_inv used st" and g: "get_call st (tk_call_id t) = Some p" and so: "same_origin p t"
    and live: "\<not> task_is_terminal p" "tk_delivery_state p = Some Queued"
  shows "task_step st p ((revoked_task now t)\<lparr>tk_quota_released := True\<rparr>) (revoke_txn now st t)"
proof -
  note P = do_inv_parts[OF inv]
  have d: "durable p" using live(2) by (simp add: durable_def)
  have ok: "task_ok p" using store_inv_get[OF P(1) g] by simp
  note R = revoked_task_facts[OF ok d so, of now]
  have id: "tk_call_id (revoked_task now t) = tk_call_id p" using R(1) by (simp add: same_origin_def)
  have na: "d_active st \<noteq> Some (tk_call_id p)"
    using P(5) g live(2) store_inv_get(1)[OF P(1) g] by (auto simp: active_inv_def)
  obtain st1 q where r: "release_durable_quota st p (revoked_task now t) = (st1, q)" by fastforce
  have "d_active st1 = d_active st"
    using r by (auto simp: release_durable_quota_def Let_def split: if_splits option.splits)
  then have "revoke_txn now st t = terminate_txn now st p (revoked_task now t)
      (call_audit_intent EvFail (revoked_task now t) ''relay'' SystemActor no_source (tk_updated_at (revoked_task now t)))"
    using g live na r
    by (simp add: revoke_txn_def terminate_txn_def Let_def clear_active_if_def put_call_def due_put_def due_del_def queue_del_def)
  then show ?thesis using terminate_step[OF inv g d live(1) R(1,2,3)] by simp
qed

lemma canceled_by_caller_facts:
  assumes "task_ok p" "durable p"
  shows "same_origin p (canceled_by_caller now p)" "task_ok ((canceled_by_caller now p)\<lparr>tk_quota_released := True\<rparr>)"
    "tk_delivery_state (canceled_by_caller now p) = Some Terminal" "task_is_terminal (canceled_by_caller now p)"
proof -
  show so: "same_origin p (canceled_by_caller now p)"
    using assms(2) by (simp add: same_origin_def canceled_by_caller_def without_ciphertext_def durable_def)
  show tm: "tk_delivery_state (canceled_by_caller now p) = Some Terminal" "task_is_terminal (canceled_by_caller now p)"
    by (simp_all add: canceled_by_caller_def task_is_terminal_def terminal_task_states_def)
  show "task_ok ((canceled_by_caller now p)\<lparr>tk_quota_released := True\<rparr>)"
    using durable_ok(5)[OF assms]
    by (intro ended_ok[OF assms so tm(2,1)])
       (simp_all add: canceled_by_caller_def without_ciphertext_def stored_bytes_def)
qed

lemma cancel_step:
  assumes inv: "do_inv used st" and g: "get_call st i = Some p" and live: "\<not> task_is_terminal p" "cancelable_state p"
  shows "task_step st p ((canceled_by_caller now p)\<lparr>tk_quota_released := True\<rparr>) (fst (cancel_txn now st i))"
    "snd (cancel_txn now st i) = Some (canceled_by_caller now p)"
proof -
  note P = do_inv_parts[OF inv]
  have d: "durable p" using live(2) by (auto simp: durable_def cancelable_state_def)
  have ok: "task_ok p" and id: "tk_call_id p = i" using store_inv_get[OF P(1) g] by simp_all
  note R = canceled_by_caller_facts[OF ok d, of now]
  have cid: "tk_call_id (canceled_by_caller now p) = i" using R(1) id by (simp add: same_origin_def)
  obtain st1 q where r: "release_durable_quota st p (canceled_by_caller now p) = (st1, q)" by fastforce
  have "tk_call_id q = i"
    using r cid by (auto simp: release_durable_quota_def Let_def split: if_splits)
  then have "cancel_txn now st i = (terminate_txn now st p (canceled_by_caller now p)
      (call_audit_intent EvCancel (canceled_by_caller now p) (tk_from p) HandleActor no_source now),
      Some (canceled_by_caller now p))"
    using g live r id by (simp add: cancel_txn_def terminate_txn_def Let_def put_call_def)
  then show "task_step st p ((canceled_by_caller now p)\<lparr>tk_quota_released := True\<rparr>) (fst (cancel_txn now st i))"
    "snd (cancel_txn now st i) = Some (canceled_by_caller now p)"
    using terminate_step[OF inv g d live(1) R(1,2,3)] by simp_all
qed

lemma cancel_other:
  assumes "\<not> (\<exists>p. get_call st i = Some p \<and> \<not> task_is_terminal p \<and> cancelable_state p)"
  shows "cancel_txn now st i = (st, None)"
  using assms by (auto simp: cancel_txn_def split: option.splits)

lemma expired_task_facts:
  assumes "task_ok p" "durable p"
  shows "same_origin p (expired_task now p)" "task_ok ((expired_task now p)\<lparr>tk_quota_released := True\<rparr>)"
    "tk_delivery_state (expired_task now p) = Some Terminal" "task_is_terminal (expired_task now p)"
proof -
  show so: "same_origin p (expired_task now p)"
    using assms(2) by (simp add: same_origin_def expired_task_def without_ciphertext_def durable_def)
  show tm: "tk_delivery_state (expired_task now p) = Some Terminal" "task_is_terminal (expired_task now p)"
    by (simp_all add: expired_task_def task_is_terminal_def terminal_task_states_def)
  show "task_ok ((expired_task now p)\<lparr>tk_quota_released := True\<rparr>)"
    using durable_ok(5)[OF assms]
    by (intro ended_ok[OF assms so tm(2,1)])
       (simp_all add: expired_task_def without_ciphertext_def stored_bytes_def)
qed

lemma expire_durable_step:
  assumes inv: "do_inv used st" and g: "get_call st i = Some p" and live: "durable p" "\<not> task_is_terminal p"
  shows "task_step st p ((expired_task now p)\<lparr>tk_quota_released := True\<rparr>) (expire_durable_txn now st p)"
proof -
  note P = do_inv_parts[OF inv]
  have ok: "task_ok p" using store_inv_get[OF P(1) g] by simp
  note R = expired_task_facts[OF ok live(1), of now]
  have "expire_durable_txn now st p = terminate_txn now st p (expired_task now p)
      (call_audit_intent EvTimeout (expired_task now p) ''relay'' SystemActor no_source now)"
    by (simp add: expire_durable_txn_def terminate_txn_def Let_def split_beta)
  then show ?thesis using terminate_step[OF inv g live R(1,2,3)] by simp
qed

definition failed_delivery :: "int \<Rightarrow> task \<Rightarrow> task" where
  "failed_delivery now p =
     (without_ciphertext p)
       \<lparr>tk_deadline := or_default (tk_purge_at p) (tk_deadline p), tk_task_state := TsFailed,
        tk_delivery_state := Some Terminal, tk_terminal_reason := Some TrDeliveryFailed,
        tk_ciphertext_bytes := Some 0, tk_updated_at := now\<rparr>"

lemma failed_delivery_facts:
  assumes "task_ok p" "durable p"
  shows "same_origin p (failed_delivery now p)" "task_ok ((failed_delivery now p)\<lparr>tk_quota_released := True\<rparr>)"
    "tk_delivery_state (failed_delivery now p) = Some Terminal" "task_is_terminal (failed_delivery now p)"
proof -
  show so: "same_origin p (failed_delivery now p)"
    using assms(2) by (simp add: same_origin_def failed_delivery_def without_ciphertext_def durable_def)
  show tm: "tk_delivery_state (failed_delivery now p) = Some Terminal" "task_is_terminal (failed_delivery now p)"
    by (simp_all add: failed_delivery_def task_is_terminal_def terminal_task_states_def)
  show "task_ok ((failed_delivery now p)\<lparr>tk_quota_released := True\<rparr>)"
    using durable_ok(5)[OF assms]
    by (intro ended_ok[OF assms so tm(2,1)])
       (simp_all add: failed_delivery_def without_ciphertext_def stored_bytes_def)
qed

definition requeued_task :: "int \<Rightarrow> task \<Rightarrow> task" where
  "requeued_task now p = p\<lparr>tk_delivery_state := Some Queued, tk_updated_at := now\<rparr>"

text \<open>What lease recovery does, by cases.\<close>

lemma recover_cases:
  assumes inv: "do_inv used st"
  shows "recover_expired_lease now st i = st \<or>
    (\<exists>p u. get_call st i = Some p \<and> \<not> task_is_terminal p \<and> tk_delivery_state p = Some Leased \<and>
       (u = requeued_task now p \<or> u = (failed_delivery now p)\<lparr>tk_quota_released := True\<rparr>) \<and>
       task_step st p u (recover_expired_lease now st i))"
proof (cases "\<exists>p l. get_call st i = Some p \<and> tk_lease p = Some l \<and> tk_delivery_state p = Some Leased \<and>
    ls_expires_at l \<le> now \<and> \<not> task_is_terminal p")
  case False
  then show ?thesis by (auto simp: recover_expired_lease_def not_less split: option.splits)
next
  case True
  then obtain p l where g: "get_call st i = Some p" and l: "tk_lease p = Some l" "ls_expires_at l \<le> now"
    and d: "tk_delivery_state p = Some Leased" and nt: "\<not> task_is_terminal p" by blast
  note P = do_inv_parts[OF inv]
  note W = store_inv_wf[OF P(1)]
  have ok: "task_ok p" and id: "tk_call_id p = i" using store_inv_get[OF P(1) g] by simp_all
  have dur: "durable p" using d by (simp add: durable_def)
  have act: "d_active st = Some i" using P(5) g d by (auto simp: active_inv_def)
  show ?thesis
  proof (cases "ls_attempt l < 3")
    case True
    have eq: "recover_expired_lease now st i =
        st\<lparr>d_active := None, d_calls := kv_put i (requeued_task now p) (d_calls st)\<rparr>"
      using g l d nt True act
      by (simp add: recover_expired_lease_def Let_def clear_active_if_def requeued_task_def)
    have ok': "task_ok (requeued_task now p)"
      using durable_ok[OF ok dur] d nt l True
      by (simp add: task_ok_def requeued_task_def durable_def delivery_ok_def task_is_terminal_def stored_bytes_def
          attempt_between_def)
    have same: "task_due_key (requeued_task now p) = task_due_key p" "holds_quota (requeued_task now p) = holds_quota p"
      "stored_bytes (requeued_task now p) = stored_bytes p" "caller_quota a (requeued_task now p) = caller_quota a p"
      "waiting p" for a
      using d by (simp_all add: requeued_task_def task_due_key_def holds_quota_def durable_def stored_bytes_def
          caller_quota_def waiting_def)
    have due: "kv_get (d_due st) (task_due_key p) = Some i"
      using P(4) g id by (auto simp: due_inv_def task_due_key_def)
    have "task_step st p (requeued_task now p) (recover_expired_lease now st i)"
      unfolding task_step_def eq
      using g id ok' same due W d act
      by (auto simp: same_origin_def requeued_task_def durable_def)
    then show ?thesis using g nt d by blast
  next
    case False
    note R = failed_delivery_facts[OF ok dur, of now]
    have fid: "tk_call_id (failed_delivery now p) = i" using R(1) id by (simp add: same_origin_def)
    have rel: "release_durable_quota (clear_active_if i st) p n =
        (clear_active_if i (fst (release_durable_quota st p n)), snd (release_durable_quota st p n))" for n
      by (simp add: release_durable_quota_def clear_active_if_def Let_def split: option.splits)
    have qid: "tk_call_id (snd (release_durable_quota st p (failed_delivery now p))) = i"
      using fid by (simp add: release_durable_quota_def Let_def)
    obtain st1 q where r: "release_durable_quota st p (failed_delivery now p) = (st1, q)" by fastforce
    have "recover_expired_lease now st i = terminate_txn now st p (failed_delivery now p)
        (call_audit_intent EvFail (failed_delivery now p) ''relay'' SystemActor no_source now)"
      using g l d nt False rel[of "failed_delivery now p"] r qid id
      by (cases st1)
         (simp add: recover_expired_lease_def terminate_txn_def Let_def failed_delivery_def[symmetric]
          clear_active_if_def put_call_def due_put_def due_del_def queue_del_def)
    then have "task_step st p ((failed_delivery now p)\<lparr>tk_quota_released := True\<rparr>) (recover_expired_lease now st i)"
      using terminate_step[OF inv g dur nt R(1,2,3)] by simp
    then show ?thesis using g nt d by blast
  qed
qed

subsection \<open>Persisting with an audit intent\<close>

definition persisted_task :: "task \<Rightarrow> task \<Rightarrow> task" where
  "persisted_task p n =
     (if task_is_terminal n \<and> durable p \<and> \<not> tk_quota_released p then n\<lparr>tk_quota_released := True\<rparr> else n)"

lemma persist_fields:
  assumes inv: "do_inv used st" and g: "get_call st i = Some p" and so: "same_origin p n"
    and nb: "durable p \<Longrightarrow> task_is_terminal n \<Longrightarrow> 0 \<le> stored_bytes n"
    and rest: "task_is_terminal n \<and> durable p \<and> \<not> tk_quota_released p \<or> (holds_quota n = holds_quota p \<and> stored_bytes n = stored_bytes p)"
  shows "d_calls (persist_txn now st n x) = kv_put i (persisted_task p n) (d_calls st) \<and>
    d_dedupe (persist_txn now st n x) = d_dedupe st \<and> d_queue (persist_txn now st n x) = d_queue st \<and>
    d_active (persist_txn now st n x) = d_active st \<and> kv_wf (d_due (persist_txn now st n x)) \<and>
    kv_wf (d_caller_outstanding (persist_txn now st n x)) \<and>
    (\<forall>k. kv_get (d_due (persist_txn now st n x)) k =
       (if k = task_due_key n then Some i else if k = task_due_key p then None else kv_get (d_due st) k)) \<and>
    outstanding_of (persist_txn now st n x) = outstanding_of st + holds_quota (persisted_task p n) - holds_quota p \<and>
    (\<forall>a. caller_outstanding_of (persist_txn now st n x) a =
       caller_outstanding_of st a + caller_quota a (persisted_task p n) - caller_quota a p) \<and>
    bytes_of (persist_txn now st n x) = bytes_of st + stored_bytes (persisted_task p n) - stored_bytes p"
proof -
  note P = do_inv_parts[OF inv]
  note W = store_inv_wf[OF P(1)]
  have id: "tk_call_id p = i" "tk_call_id n = i" using store_inv_get[OF P(1) g] so by (simp_all add: same_origin_def)
  show ?thesis
  proof (cases "task_is_terminal n \<and> durable p \<and> \<not> tk_quota_released p")
    case True
    then obtain st1 where r: "release_durable_quota st p n = (st1, n\<lparr>tk_quota_released := True\<rparr>)"
      and f: "d_calls st1 = d_calls st" "d_dedupe st1 = d_dedupe st" "d_queue st1 = d_queue st" "d_due st1 = d_due st"
        "d_active st1 = d_active st" "kv_wf (d_caller_outstanding st1)" "outstanding_of st1 = outstanding_of st - 1"
        "\<And>a. caller_outstanding_of st1 a = caller_outstanding_of st a - (if tk_from_agent_id p = Some a then 1 else 0)"
        "bytes_of st1 = bytes_of st - stored_bytes p + stored_bytes n"
      using release_facts[OF inv g, of n] nb by blast
    let ?n = "n\<lparr>tk_quota_released := True\<rparr>"
    have pt: "persisted_task p n = ?n" using True by (simp add: persisted_task_def)
    have dk: "task_due_key ?n = task_due_key n" "stored_bytes ?n = stored_bytes n" "holds_quota ?n = 0" "holds_quota p = 1"
      using True by (simp_all add: task_due_key_def stored_bytes_def holds_quota_def)
    have cq: "caller_quota a ?n = 0" "caller_quota a p = (if tk_from_agent_id p = Some a then 1 else 0)" for a
      using dk by (simp_all add: caller_quota_def)
    show ?thesis
      unfolding pt dk cq
      using g r f(1-7,9) f(8) id W True
      by (simp add: persist_txn_def core_fields put_call_def due_put_def due_del_def dk(1) Let_def)
  next
    case False
    then have r: "(if task_is_terminal n then release_durable_quota st p n else (st, n)) = (st, n)"
      by (auto simp: release_durable_quota_def durable_def)
    have pt: "persisted_task p n = n" using False by (auto simp: persisted_task_def)
    have cq: "caller_quota a n = caller_quota a p" for a
      using rest False so by (auto simp: caller_quota_def same_origin_def)
    show ?thesis
      unfolding pt cq
      using g r id W rest False
      by (auto simp: persist_txn_def core_fields put_call_def due_put_def due_del_def Let_def)
  qed
qed

lemma persist_step:
  assumes inv: "do_inv used st" and g: "get_call st i = Some p" and so: "same_origin p n"
    and ok: "task_ok (persisted_task p n)"
    and nb: "durable p \<Longrightarrow> task_is_terminal n \<Longrightarrow> 0 \<le> stored_bytes n"
    and rest: "task_is_terminal n \<and> durable p \<and> \<not> tk_quota_released p \<or> (holds_quota n = holds_quota p \<and> stored_bytes n = stored_bytes p)"
    and same_delivery: "tk_delivery_state n = tk_delivery_state p \<or> tk_delivery_state n = Some Terminal"
  shows "task_step st p (persisted_task p n) (persist_txn now st n x)"
proof -
  note P = do_inv_parts[OF inv]
  note W = store_inv_wf[OF P(1)]
  note F = persist_fields[OF inv g so nb rest, of now x]
  have id: "tk_call_id p = i" using store_inv_get[OF P(1) g] by simp
  have pt: "tk_delivery_state (persisted_task p n) = tk_delivery_state n"
    "task_due_key (persisted_task p n) = task_due_key n" "same_origin p (persisted_task p n)"
    using so by (simp_all add: persisted_task_def task_due_key_def same_origin_def durable_def)
  have hq: "holds_quota (persisted_task p n) \<le> holds_quota p"
    using rest holds_quota_bounds(1)[of p] by (auto simp: persisted_task_def holds_quota_def)
  have act: "tk_delivery_state n = Some Leased \<Longrightarrow> d_active st = Some i"
    "tk_delivery_state n = Some Queued \<Longrightarrow> d_active st \<noteq> Some i"
    using P(5) g same_delivery by (auto simp: active_inv_def)
  have wt: "waiting (persisted_task p n) \<Longrightarrow> waiting p"
    using same_delivery pt(1) by (auto simp: waiting_def)
  show ?thesis
    unfolding task_step_def pt(1,2)
    using F g id pt(3) ok hq act wt W by simp
qed

text \<open>The task a terminal listener frame leaves behind.\<close>

lemma terminal_frame_facts:
  assumes ok: "task_ok p" and nt: "\<not> task_is_terminal p"
    and n: "n = canceled_by_listener now p \<or> n = rejected_by_listener now p \<or> (\<exists>t r e. n = finished_by_listener now p t r e)"
  shows "same_origin p n" "task_is_terminal n" "durable p \<Longrightarrow> tk_delivery_state n = Some Terminal"
    "\<not> durable p \<Longrightarrow> tk_delivery_state n = None" "0 \<le> stored_bytes n" "task_ok (persisted_task p n)"
    "\<not> durable p \<Longrightarrow> holds_quota n = holds_quota p \<and> stored_bytes n = stored_bytes p"
    "durable p \<Longrightarrow> \<not> tk_quota_released p"
proof -
  have bytes: "0 \<le> envelope_bytes e" for e using envelope_bytes_pos[of e] by simp
  show so: "same_origin p n"
    using n by (cases "tk_delivery_state p")
      (auto simp: same_origin_def canceled_by_listener_def rejected_by_listener_def finished_by_listener_def
        update_task_def without_ciphertext_def durable_def Let_def)
  have os: "outcome_state t = TsCompleted \<or> outcome_state t = TsFailed" for t
    by (cases t) simp_all
  have ts: "tk_task_state (canceled_by_listener now p) = TsCanceled" "tk_task_state (rejected_by_listener now p) = TsFailed"
    "tk_task_state (finished_by_listener now p t r e) = outcome_state t" for t r e
    by (simp_all add: canceled_by_listener_def rejected_by_listener_def finished_by_listener_def update_task_def
        without_ciphertext_def Let_def)
  have "tk_task_state n = TsCanceled \<or> tk_task_state n = TsFailed \<or> tk_task_state n = TsCompleted"
    using n ts os by metis
  then show tm: "task_is_terminal n" by (auto simp: task_is_terminal_def terminal_task_states_def)
  show dt: "durable p \<Longrightarrow> tk_delivery_state n = Some Terminal"
    using n by (auto simp: canceled_by_listener_def rejected_by_listener_def finished_by_listener_def
        update_task_def durable_def Let_def)
  show dn: "\<not> durable p \<Longrightarrow> tk_delivery_state n = None"
    using n by (auto simp: canceled_by_listener_def rejected_by_listener_def finished_by_listener_def
        update_task_def durable_def Let_def)
  have sync: "tk_ciphertext_bytes n = tk_ciphertext_bytes p" "tk_quota_released n = tk_quota_released p" if "\<not> durable p"
    using n that by (auto simp: canceled_by_listener_def rejected_by_listener_def finished_by_listener_def
        update_task_def durable_def Let_def)
  show rel: "durable p \<Longrightarrow> \<not> tk_quota_released p"
    using durable_ok(8,9)[OF ok] nt by simp
  have ended: "tk_request_envelope n = None \<and> tk_lease n = None \<and> tk_deadline n \<le> the (tk_purge_at p) \<and> 0 \<le> stored_bytes n"
    if d: "durable p"
  proof -
    have "the (tk_execute_by p) \<le> the (tk_purge_at p)" "tk_purge_at p \<noteq> None" "tk_execute_by p \<noteq> None"
      using durable_ok(3,5)[OF ok d] by (simp_all add: MAILBOX_TOMBSTONE_TTL_MS_def)
    then show ?thesis
      using n d bytes by (auto simp: canceled_by_listener_def rejected_by_listener_def finished_by_listener_def
          update_task_def without_ciphertext_def durable_def Let_def stored_bytes_def or_default_def split: option.splits)
  qed
  show "0 \<le> stored_bytes n"
    using ended sync sync_ok(2)[OF ok] by (cases "durable p") (auto simp: stored_bytes_def)
  show "\<not> durable p \<Longrightarrow> holds_quota n = holds_quota p \<and> stored_bytes n = stored_bytes p"
    using sync dn by (simp add: holds_quota_def durable_def stored_bytes_def)
  show "task_ok (persisted_task p n)"
  proof (cases "durable p")
    case True
    then have "persisted_task p n = n\<lparr>tk_quota_released := True\<rparr>" using tm rel by (simp add: persisted_task_def)
    then show ?thesis using ended_ok[OF ok True so tm dt[OF True]] ended[OF True] by simp
  next
    case False
    then show ?thesis
      using dn sync sync_ok(1,2)[OF ok] by (simp add: persisted_task_def task_ok_def durable_def)
  qed
qed

lemma terminal_frame_step:
  assumes inv: "do_inv used st" and g: "get_call st i = Some p" and nt: "\<not> task_is_terminal p"
    and n: "n = canceled_by_listener now p \<or> n = rejected_by_listener now p \<or> (\<exists>t r e. n = finished_by_listener now p t r e)"
  shows "task_step st p (persisted_task p n) (persist_txn now st n x)"
proof -
  have ok: "task_ok p" using store_inv_get[OF do_inv_parts(1)[OF inv] g] by simp
  note T = terminal_frame_facts[OF ok nt n]
  have dd: "\<not> durable p \<Longrightarrow> tk_delivery_state p = None" by (simp add: durable_def)
  have sd: "tk_delivery_state n = tk_delivery_state p \<or> tk_delivery_state n = Some Terminal"
    using T(3,4) dd by (cases "durable p") simp_all
  have rest: "task_is_terminal n \<and> durable p \<and> \<not> tk_quota_released p \<or> (holds_quota n = holds_quota p \<and> stored_bytes n = stored_bytes p)"
    using T(2,7,8) by (cases "durable p") simp_all
  show ?thesis by (rule persist_step[OF inv g T(1,6) T(5) rest sd])
qed

lemma terminal_frame_evolves:
  assumes "task_ok p" "\<not> task_is_terminal p"
    "n = canceled_by_listener now p \<or> n = rejected_by_listener now p \<or> (\<exists>t r e. n = finished_by_listener now p t r e)"
  shows "evolves p (persisted_task p n)"
  using terminal_frame_facts[OF assms] assms(2)
  by (auto simp: evolves_def persisted_task_def same_origin_def durable_def task_is_terminal_def)

end
