(* ===== verification/MailboxMoves.thy ===== *)
theory MailboxMoves
  imports MailboxOps
begin

text \<open>
  The transactions that advance, rebind, lease or retain a stored task, and those that only
  drop an index entry.
\<close>

subsection \<open>Replacing a task in place\<close>

text \<open>A write of the task record alone keeps its due entry, queue entry and quota.\<close>

lemma put_step:
  assumes inv: "do_inv used st" and g: "get_call st i = Some p" and so: "same_origin p n" and ok: "task_ok n"
    and same: "tk_delivery_state n = tk_delivery_state p" "tk_deadline n = tk_deadline p"
      "tk_quota_released n = tk_quota_released p" "stored_bytes n = stored_bytes p"
  shows "task_step st p n (put_call n st)"
proof -
  note P = do_inv_parts[OF inv]
  note W = store_inv_wf[OF P(1)]
  have id: "tk_call_id p = i" "tk_call_id n = i" using store_inv_get[OF P(1) g] so by (simp_all add: same_origin_def)
  have k: "task_due_key n = task_due_key p" using same(2) id by (simp add: task_due_key_def)
  have due: "kv_get (d_due st) (task_due_key p) = Some i" using P(4) g id by (auto simp: due_inv_def task_due_key_def)
  have h: "holds_quota n = holds_quota p" "waiting n = waiting p"
    using same by (simp_all add: holds_quota_def durable_def waiting_def)
  then have c: "caller_quota a n = caller_quota a p" for a using so by (simp add: caller_quota_def same_origin_def)
  have act: "tk_delivery_state n = Some Leased \<longrightarrow> d_active st = Some i"
    "tk_delivery_state n = Some Queued \<longrightarrow> d_active st \<noteq> Some i"
    using P(5) g same(1) by (auto simp: active_inv_def)
  have id': "tk_call_id p = tk_call_id n" using id by simp
  show ?thesis
    unfolding task_step_def
    using g id so ok k due h c same(4) act W by (simp add: put_call_def)
qed

subsection \<open>Advancing\<close>

lemma advanced_facts:
  assumes ok: "task_ok p" and nt: "\<not> task_is_terminal p" and ph: "tk_state p \<noteq> CallWorking"
    and st: "state = Answered \<or> state = CallWorking" and lease: "durable p \<Longrightarrow> tk_lease p \<noteq> None"
  shows "same_origin p (advanced_task now p state att)" "task_ok (advanced_task now p state att)"
    "\<not> task_is_terminal (advanced_task now p state att)"
    "tk_quota_released (advanced_task now p state att) = tk_quota_released p"
    "stored_bytes (advanced_task now p state att) = stored_bytes p"
    "tk_state (advanced_task now p state att) = state"
    "tk_delivery_state (advanced_task now p state att) = Some Started \<and> state = CallWorking \<or>
     tk_delivery_state (advanced_task now p state att) = tk_delivery_state p \<and>
     tk_deadline (advanced_task now p state att) = tk_deadline p"
    "tk_lease (advanced_task now p state att) = tk_lease p"
proof -
  let ?n = "advanced_task now p state att"
  have cases: "state = Answered \<and> ?n = p\<lparr>tk_state := Answered, tk_updated_at := now\<rparr> \<or>
      state = CallWorking \<and> \<not> durable p \<and> ?n = p\<lparr>tk_state := CallWorking, tk_task_state := TsWorking, tk_updated_at := now\<rparr> \<or>
      state = CallWorking \<and> durable p \<and>
        ?n = p\<lparr>tk_state := CallWorking, tk_task_state := TsWorking, tk_delivery_state := Some Started, tk_updated_at := now,
               tk_execution_deadline := Some (started_deadline now p att), tk_deadline := started_deadline now p att\<rparr>"
    using st by (auto simp: advanced_task_def durable_def Let_def)
  have nw: "tk_delivery_state p \<noteq> Some Started" if "durable p"
    using durable_ok(10)[OF ok that] ph by (auto simp: delivery_ok_def)
  have nterm: "tk_delivery_state p \<noteq> Some Terminal" if "durable p"
    using durable_ok(8)[OF ok that] nt by auto
  have wait: "tk_delivery_state p = Some Queued \<or> tk_delivery_state p = Some Leased" if d: "durable p"
    using nw[OF d] nterm[OF d] d by (cases "tk_delivery_state p"; cases "the (tk_delivery_state p)") (auto simp: durable_def)
  have tw: "\<not> TsWorking \<in> set terminal_task_states" by (simp add: terminal_task_states_def)
  show "same_origin p ?n" using cases by (auto simp: same_origin_def durable_def)
  show n: "\<not> task_is_terminal ?n" using cases nt tw by (auto simp: task_is_terminal_def)
  show "tk_quota_released ?n = tk_quota_released p" "stored_bytes ?n = stored_bytes p" "tk_state ?n = state"
    "tk_lease ?n = tk_lease p"
    using cases by (auto simp: stored_bytes_def)
  show "tk_delivery_state ?n = Some Started \<and> state = CallWorking \<or>
     tk_delivery_state ?n = tk_delivery_state p \<and> tk_deadline ?n = tk_deadline p"
    using cases by auto
  show "task_ok ?n"
  proof (cases "durable p")
    case False
    then show ?thesis using cases ok by (auto simp: task_ok_def durable_def)
  next
    case True
    note D = durable_ok[OF ok True] and w = wait[OF True] and l = lease[OF True]
    show ?thesis
    proof (cases "state = Answered")
      case True
      then have eq: "?n = p\<lparr>tk_state := Answered, tk_updated_at := now\<rparr>" using cases by auto
      have "delivery_ok ?n" using D(10) w eq by (auto simp: delivery_ok_def)
      then show ?thesis
        using D n nt \<open>durable p\<close> unfolding eq by (simp add: task_ok_def durable_def stored_bytes_def task_is_terminal_def)
    next
      case False
      then have eq: "?n = p\<lparr>tk_state := CallWorking, tk_task_state := TsWorking, tk_delivery_state := Some Started,
          tk_updated_at := now, tk_execution_deadline := Some (started_deadline now p att),
          tk_deadline := started_deadline now p att\<rparr>" using cases True st by auto
      have sd: "started_deadline now p att \<le> the (tk_execute_by p)"
        using D(3) by (auto simp: started_deadline_def)
      have att: "attempt_between 3 (tk_lease p)" "tk_request_envelope p \<noteq> None"
        using D(10) w by (cases "tk_lease p"; auto simp: delivery_ok_def attempt_between_def)+
      have "delivery_ok ?n" using att sd l unfolding eq by (simp add: delivery_ok_def)
      moreover have "started_deadline now p att \<le> the (tk_purge_at p)"
        using sd D(3,5) by (simp add: MAILBOX_TOMBSTONE_TTL_MS_def)
      moreover have "\<not> tk_quota_released p" using D(8,9) nt by simp
      ultimately show ?thesis
        using D n unfolding eq by (simp add: task_ok_def durable_def stored_bytes_def)
    qed
  qed
qed

lemma start_step:
  assumes inv: "do_inv used st" and g: "get_call st i = Some p" and so: "same_origin p n" and ok: "task_ok n"
    and fin: "tk_delivery_state n = Some Started" "tk_quota_released n = tk_quota_released p" "stored_bytes n = stored_bytes p"
  shows "task_step st p n (start_txn now st p n x)"
proof -
  note P = do_inv_parts[OF inv]
  note W = store_inv_wf[OF P(1)]
  have id: "tk_call_id p = i" "tk_call_id n = i" using store_inv_get[OF P(1) g] so by (simp_all add: same_origin_def)
  have due: "kv_get (d_due st) (task_due_key p) = Some i" using P(4) g id by (auto simp: due_inv_def task_due_key_def)
  have due': "task_due_key p = task_due_key n \<longrightarrow> kv_get (d_due st) (task_due_key n) = Some i" using due by auto
  have d: "durable n = durable p" "durable n" using so fin(1) by (simp_all add: same_origin_def durable_def)
  have h: "holds_quota n = holds_quota p" "\<not> waiting n" using fin d by (simp_all add: holds_quota_def waiting_def)
  then have c: "caller_quota a n = caller_quota a p" for a using so by (simp add: caller_quota_def same_origin_def)
  have F: "d_calls (start_txn now st p n x) = kv_put i n (d_calls st)"
    "d_dedupe (start_txn now st p n x) = d_dedupe st" "d_queue (start_txn now st p n x) = d_queue st"
    "d_active (start_txn now st p n x) = d_active st"
    "d_outstanding (start_txn now st p n x) = d_outstanding st"
    "d_caller_outstanding (start_txn now st p n x) = d_caller_outstanding st"
    "d_ciphertext_bytes (start_txn now st p n x) = d_ciphertext_bytes st"
    "d_due (start_txn now st p n x) =
       (if task_due_key p \<noteq> task_due_key n then kv_put (task_due_key n) i (kv_del (task_due_key p) (d_due st)) else d_due st)"
    using id by (simp_all add: start_txn_def core_fields Let_def put_call_def due_put_def due_del_def)
  show ?thesis
    unfolding task_step_def F
    using g id so ok h c fin W due due' by simp
qed

lemma advance_phase:
  assumes "advance_txn now st p state att = (st', Some fl)"
  shows "phase_rank (durable_phase (tk_state p)) < phase_rank (durable_phase state)"
  using assms by (auto simp: advance_txn_def advance_authorized_call_def team_call_lifecycle_def split: if_splits)

lemma advance_cases:
  assumes inv: "do_inv used st" and g: "get_call st i = Some p" and nt: "\<not> task_is_terminal p"
    and sa: "state = Answered \<or> state = CallWorking" and lease: "durable p \<Longrightarrow> tk_lease p \<noteq> None"
  shows "fst (advance_txn now st p state att) = st \<or>
    (task_step st p (advanced_task now p state att) (fst (advance_txn now st p state att)) \<and>
     evolves p (advanced_task now p state att))"
proof (cases "snd (advance_txn now st p state att)")
  case None
  then show ?thesis by (auto simp: advance_txn_def Let_def split: if_splits)
next
  case (Some fl)
  let ?n = "advanced_task now p state att" and ?x = "accepted_intent now p state att"
  obtain st' where a: "advance_txn now st p state att = (st', Some fl)" using Some by (cases "advance_txn now st p state att") auto
  have rank: "phase_rank (durable_phase (tk_state p)) < phase_rank (durable_phase state)" using advance_phase[OF a] .
  then have ph: "tk_state p \<noteq> CallWorking" by (cases state) auto
  have ok: "task_ok p" using store_inv_get[OF do_inv_parts(1)[OF inv] g] by simp
  note A = advanced_facts[OF ok nt ph sa lease, of now att]
  have ev: "evolves p ?n" using A(1,3,6) nt rank by (simp add: evolves_def)
  have pt: "persisted_task p ?n = ?n" using A(3) by (simp add: persisted_task_def)
  have h: "holds_quota ?n = holds_quota p" using A(1,4) by (simp add: holds_quota_def same_origin_def)
  have "st' = (if tk_delivery_state ?n = Some Started \<and> state = CallWorking then start_txn now st p ?n ?x
               else if ?x \<noteq> None then persist_txn now st ?n ?x else put_call ?n st)"
    using a by (auto simp: advance_txn_def Let_def split: if_splits)
  moreover have "task_step st p ?n (start_txn now st p ?n ?x)" if "tk_delivery_state ?n = Some Started"
    using start_step[OF inv g A(1,2) that A(4,5)] .
  moreover have "task_step st p ?n (persist_txn now st ?n ?x)" if "tk_delivery_state ?n = tk_delivery_state p"
    using persist_step[OF inv g A(1), of now ?x] pt A(2,3,5) h that by simp
  moreover have "task_step st p ?n (put_call ?n st)"
    if "tk_delivery_state ?n = tk_delivery_state p" "tk_deadline ?n = tk_deadline p"
    using put_step[OF inv g A(1,2) that A(4,5)] .
  ultimately show ?thesis using A(7) ev a by auto
qed

subsection \<open>Rebinding a started task\<close>

lemma rebound_facts:
  assumes ok: "task_ok p" and r: "rebindable p"
  shows "same_origin p (rebound_task now l s p)" "task_ok (rebound_task now l s p)" "evolves p (rebound_task now l s p)"
proof -
  have d: "durable p" "tk_delivery_state p = Some Started" "\<not> task_is_terminal p"
    using r by (auto simp: rebindable_def durable_def)
  show so: "same_origin p (rebound_task now l s p)" by (simp add: same_origin_def rebound_task_def durable_def)
  show "task_ok (rebound_task now l s p)"
    using durable_ok[OF ok d(1)] d
    by (auto simp: task_ok_def rebound_task_def durable_def delivery_ok_def attempt_between_def stored_bytes_def
        task_is_terminal_def split: option.splits)
  show "evolves p (rebound_task now l s p)" using so d(3) by (simp add: evolves_def rebound_task_def)
qed

lemma rebind_step:
  assumes inv: "do_inv used st" and g: "get_call st i = Some p" and r: "rebindable p"
  shows "task_step st p (rebound_task now l s p) (put_call (rebound_task now l s p) st)"
proof -
  have ok: "task_ok p" using store_inv_get[OF do_inv_parts(1)[OF inv] g] by simp
  show ?thesis
    using put_step[OF inv g rebound_facts(1,2)[OF ok r], of now l s]
    by (simp add: rebound_task_def stored_bytes_def)
qed

subsection \<open>Dropping index entries\<close>

lemma drop_queue_inv:
  assumes inv: "do_inv used st" and nw: "\<And>c i t. key = (c, i) \<Longrightarrow> get_call st i = Some t \<Longrightarrow> \<not> waiting t"
  shows "do_inv used (st\<lparr>d_queue := kv_del key (d_queue st)\<rparr>)"
proof -
  note P = do_inv_parts[OF inv]
  have wf: "kv_wf (d_queue st)" using store_inv_wf[OF P(1)] by simp
  have "queue_inv used (st\<lparr>d_queue := kv_del key (d_queue st)\<rparr>)"
    using P(3) wf nw by (auto simp: queue_inv_def get_call_def)
  moreover have "store_inv used (st\<lparr>d_queue := kv_del key (d_queue st)\<rparr>)"
    using P(1) wf by (simp add: store_inv_def get_call_def)
  moreover have "quota_inv (st\<lparr>d_queue := kv_del key (d_queue st)\<rparr>) = quota_inv st"
    "due_inv (st\<lparr>d_queue := kv_del key (d_queue st)\<rparr>) = due_inv st"
    "active_inv used (st\<lparr>d_queue := kv_del key (d_queue st)\<rparr>) = active_inv used st"
    "dedupe_inv (st\<lparr>d_queue := kv_del key (d_queue st)\<rparr>) = dedupe_inv st"
    by (simp_all add: quota_inv_def due_inv_def active_inv_def dedupe_inv_def get_call_def)
  ultimately show ?thesis using P by (simp add: do_inv_def)
qed

lemma clear_active_inv:
  assumes inv: "do_inv used st" and nl: "\<And>t. get_call st i = Some t \<Longrightarrow> tk_delivery_state t \<noteq> Some Leased"
  shows "do_inv used (clear_active_if i st)"
proof -
  note P = do_inv_parts[OF inv]
  have "active_inv used (clear_active_if i st)"
    using P(5) nl by (auto simp: active_inv_def clear_active_if_def get_call_def)
  moreover have "store_inv used (clear_active_if i st) = store_inv used st"
    "quota_inv (clear_active_if i st) = quota_inv st" "queue_inv used (clear_active_if i st) = queue_inv used st"
    "due_inv (clear_active_if i st) = due_inv st" "dedupe_inv (clear_active_if i st) = dedupe_inv st"
    by (simp_all add: clear_active_if_def store_inv_def quota_inv_def queue_inv_def due_inv_def dedupe_inv_def get_call_def)
  ultimately show ?thesis using P by (simp add: do_inv_def)
qed

lemma finish_inv:
  assumes inv: "do_inv used st" and nw: "\<And>v. get_call st (tk_call_id t) = Some v \<Longrightarrow> \<not> waiting v"
  shows "do_inv used (finish_txn st t)"
proof -
  have "do_inv used (queue_del t st)"
    unfolding queue_del_def using nw by (intro drop_queue_inv[OF inv]) (auto simp: task_queue_key_def)
  then show ?thesis
    unfolding finish_txn_def using nw by (intro clear_active_inv) (auto simp: queue_del_def get_call_def waiting_def)
qed

subsection \<open>Leasing\<close>

lemma active_None:
  assumes "active_inv used st"
  shows "truthy_str (d_active st) = (d_active st \<noteq> None)"
  using assms by (cases "d_active st") (auto simp: active_inv_def)

lemma leased_facts:
  assumes ok: "task_ok p" and q: "tk_delivery_state p = Some Queued" and nt: "\<not> task_is_terminal p"
  shows "same_origin p (leased_task now (next_lease now l s ms p) p)"
    "task_ok (leased_task now (next_lease now l s ms p) p)" "evolves p (leased_task now (next_lease now l s ms p) p)"
proof -
  have d: "durable p" using q by (simp add: durable_def)
  show so: "same_origin p (leased_task now (next_lease now l s ms p) p)"
    using q by (simp add: same_origin_def leased_task_def durable_def)
  show "task_ok (leased_task now (next_lease now l s ms p) p)"
    using durable_ok[OF ok d] q nt
    by (auto simp: task_ok_def leased_task_def durable_def delivery_ok_def attempt_between_def stored_bytes_def
        task_is_terminal_def next_lease_def split: option.splits)
  show "evolves p (leased_task now (next_lease now l s ms p) p)"
    using so nt by (simp add: evolves_def leased_task_def)
qed

lemma lease_cases:
  assumes inv: "do_inv used st"
  shows "(lease_txn now st l s ms = (st, None)) \<or>
    (\<exists>key i. d_active st = None \<and> kv_first (d_queue st) = Some (key, i) \<and>
       (\<forall>t. get_call st i = Some t \<longrightarrow> \<not> waiting t) \<and>
       lease_txn now st l s ms = (st\<lparr>d_queue := kv_del key (d_queue st)\<rparr>, None)) \<or>
    (\<exists>key i p u. d_active st = None \<and> kv_first (d_queue st) = Some (key, i) \<and> get_call st i = Some p \<and>
       tk_delivery_state p = Some Queued \<and> \<not> task_is_terminal p \<and>
       u = leased_task now (next_lease now l s ms p) p \<and> snd (lease_txn now st l s ms) = Some u \<and>
       d_active (fst (lease_txn now st l s ms)) = Some i \<and>
       task_step st p u (fst (lease_txn now st l s ms)))"
proof (cases "d_active st = None \<and> d_queue st \<noteq> []")
  case False
  note P = do_inv_parts[OF inv]
  show ?thesis using False active_None[OF P(5)] by (auto simp: lease_txn_def kv_first_None[THEN iffD2])
next
  case True
  note P = do_inv_parts[OF inv]
  note W = store_inv_wf[OF P(1)]
  obtain key i where f: "kv_first (d_queue st) = Some (key, i)"
    using True by (cases "kv_first (d_queue st)") (auto simp: kv_first_None)
  have na: "\<not> truthy_str (d_active st)" using True by simp
  have nl: "tk_delivery_state t \<noteq> Some Leased" if "get_call st j = Some t" for j t
    using P(5) that True by (auto simp: active_inv_def)
  show ?thesis
  proof (cases "\<exists>p. get_call st i = Some p \<and> \<not> task_is_terminal p \<and> tk_delivery_state p = Some Queued")
    case False
    have "\<not> waiting t" if "get_call st i = Some t" for t
    proof
      assume w: "waiting t"
      then have q: "tk_delivery_state t = Some Queued" using nl[OF that] by (simp add: waiting_def)
      then have "durable t" by (simp add: durable_def)
      then have "\<not> task_is_terminal t" using durable_ok(8)[OF store_inv_get(4)[OF P(1) that]] q by simp
      then show False using False that q by blast
    qed
    moreover have "lease_txn now st l s ms = (st\<lparr>d_queue := kv_del key (d_queue st)\<rparr>, None)"
      using False na f by (auto simp: lease_txn_def split: option.splits)
    ultimately show ?thesis using True f by blast
  next
    case ex: True
    then obtain p where g: "get_call st i = Some p" and nt: "\<not> task_is_terminal p" and q: "tk_delivery_state p = Some Queued"
      by blast
    have ok: "task_ok p" and id: "tk_call_id p = i" using store_inv_get[OF P(1) g] by simp_all
    let ?u = "leased_task now (next_lease now l s ms p) p"
    note L = leased_facts[OF ok q nt, of now l s ms]
    have eq: "lease_txn now st l s ms = (arm_at (ls_expires_at (next_lease now l s ms p))
        (st\<lparr>d_calls := kv_put i ?u (d_calls st), d_active := Some i\<rparr>), Some ?u)"
      using na f g nt q by (simp add: lease_txn_def Let_def)
    have due: "kv_get (d_due st) (task_due_key p) = Some i" using P(4) g id by (auto simp: due_inv_def task_due_key_def)
    have same: "task_due_key ?u = task_due_key p" "holds_quota ?u = holds_quota p" "stored_bytes ?u = stored_bytes p"
      "caller_quota a ?u = caller_quota a p" "waiting p" "tk_delivery_state ?u = Some Leased" for a
      using q by (simp_all add: leased_task_def task_due_key_def holds_quota_def durable_def stored_bytes_def
          caller_quota_def waiting_def)
    have "task_step st p ?u (fst (lease_txn now st l s ms))"
      unfolding task_step_def eq
      using g id L(1,2) due same W True by (simp add: core_fields)
    then show ?thesis using True f g q nt eq by (auto simp: core_fields)
  qed
qed

subsection \<open>Retaining a tombstone\<close>

lemma retain_step:
  assumes inv: "do_inv used st" and g: "get_call st i = Some p" and t: "durable p" "task_is_terminal p"
    and pa: "tk_purge_at p = Some pa"
  shows "task_step st p (retained_task p pa) (retain_txn st p pa)" "evolves p (retained_task p pa)"
proof -
  note P = do_inv_parts[OF inv]
  note W = store_inv_wf[OF P(1)]
  have ok: "task_ok p" and id: "tk_call_id p = i" using store_inv_get[OF P(1) g] by simp_all
  note D = durable_ok[OF ok t(1)]
  let ?u = "retained_task p pa"
  have ds: "tk_delivery_state p = Some Terminal" using D(8) t(2) by simp
  have so: "same_origin p ?u" by (simp add: same_origin_def retained_task_def durable_def Let_def)
  have uid: "tk_call_id ?u = i" "tk_delivery_state ?u = Some Terminal" "tk_quota_released ?u"
    using id ds D(9) by (simp_all add: retained_task_def Let_def)
  have ok': "task_ok ?u"
    using D pa t by (auto simp: task_ok_def retained_task_def Let_def durable_def delivery_ok_def stored_bytes_def task_is_terminal_def)
  have h: "holds_quota ?u = 0" "holds_quota p = 0" "\<not> waiting ?u"
    using uid D(9) ds by (simp_all add: holds_quota_def waiting_def)
  have b: "0 \<le> bytes_of st - stored_bytes p" using total_stored_ge[OF P(1) g] P(2) by (simp add: quota_inv_def)
  have F: "d_calls (retain_txn st p pa) = kv_put i ?u (d_calls st)"
    "d_dedupe (retain_txn st p pa) = d_dedupe st" "d_queue (retain_txn st p pa) = d_queue st"
    "d_active (retain_txn st p pa) = d_active st" "d_outstanding (retain_txn st p pa) = d_outstanding st"
    "d_caller_outstanding (retain_txn st p pa) = d_caller_outstanding st"
    "bytes_of (retain_txn st p pa) = bytes_of st + stored_bytes ?u - stored_bytes p"
    "d_due (retain_txn st p pa) = kv_put (task_due_key ?u) i (kv_del (task_due_key p) (d_due st))"
    using uid id b
    by (simp_all add: retain_txn_def Let_def put_call_def due_put_def due_del_def retained_task_def stored_bytes_def)
  show "task_step st p ?u (retain_txn st p pa)"
    unfolding task_step_def F
    using g id so ok' h uid W by (simp add: caller_quota_def)
  show "evolves p ?u" using so t(2) by (simp add: evolves_def retained_task_def Let_def)
qed

end
