(* ===== verification/MailboxEntries.thy ===== *)
theory MailboxEntries
  imports MailboxMoves
begin

text \<open>
  How tasks enter and leave the store: the records \<open>webSocketMessage\<close> builds for a caller's
  frame, admission of a durable task, the synchronous submit, purging a tombstone and
  dropping an expired synchronous call.
\<close>

subsection \<open>New tasks\<close>

definition queued_task :: "int \<Rightarrow> caller_attachment \<Rightarrow> call_request \<Rightarrow> string \<Rightarrow> string \<Rightarrow> task" where
  "queued_task now att frame digest call_id =
     (let execute_by = now + min MAILBOX_TTL_MS (or_default (ca_timeout_ms att) MAILBOX_TTL_MS)
      in \<lparr>tk_call_id = call_id, tk_correlation_id = cr_correlation_id frame, tk_from = ca_from att, tk_org = ca_org att,
          tk_to = ca_to att, tk_deadline = execute_by, tk_state = Ringing, tk_task_state = TsSubmitted,
          tk_created_at = now, tk_updated_at = now,
          tk_principal = Some (lc_principal (begin_authorized_call (ca_principal att) execute_by)),
          tk_outcome_envelope = None, tk_message_id = cr_message_id frame, tk_from_agent_id = Some (ca_from_agent_id att),
          tk_from_credential_generation = Some (or_default (ca_credential_generation att) 0),
          tk_target_agent_id = Some (ca_target_agent_id att), tk_request_envelope = Some (cr_envelope frame),
          tk_request_envelope_sha256 = Some digest, tk_delivery_state = Some Queued, tk_traceparent = cr_traceparent frame,
          tk_lease = None, tk_execute_by = Some execute_by, tk_execution_deadline = None,
          tk_purge_at = Some (execute_by + MAILBOX_TOMBSTONE_TTL_MS), tk_terminal_reason = None,
          tk_ciphertext_bytes = Some (envelope_bytes (cr_envelope frame)), tk_quota_released = False\<rparr>)"

definition ringing_task :: "int \<Rightarrow> caller_attachment \<Rightarrow> call_request \<Rightarrow> string \<Rightarrow> task" where
  "ringing_task now att frame call_id =
     (let deadline = now + clamp_timeout_ms (ca_timeout_ms att)
      in \<lparr>tk_call_id = call_id, tk_correlation_id = cr_correlation_id frame, tk_from = ca_from att, tk_org = ca_org att,
          tk_to = ca_to att, tk_deadline = deadline, tk_state = Ringing, tk_task_state = TsSubmitted,
          tk_created_at = now, tk_updated_at = now,
          tk_principal = Some (lc_principal (begin_authorized_call (ca_principal att) deadline)),
          tk_outcome_envelope = None, tk_message_id = None, tk_from_agent_id = None,
          tk_from_credential_generation = None, tk_target_agent_id = None, tk_request_envelope = None,
          tk_request_envelope_sha256 = None, tk_delivery_state = None, tk_traceparent = None, tk_lease = None,
          tk_execute_by = None, tk_execution_deadline = None, tk_purge_at = None, tk_terminal_reason = None,
          tk_ciphertext_bytes = None, tk_quota_released = False\<rparr>)"

lemma queued_task_ok:
  assumes "ca_from_agent_id att \<noteq> []" "truthy_str (cr_message_id frame)"
  shows "task_ok (queued_task now att frame digest call_id)"
  using assms envelope_bytes_pos[of "cr_envelope frame"]
  by (simp add: queued_task_def Let_def task_ok_def durable_def stored_bytes_def task_is_terminal_def
      terminal_task_states_def delivery_ok_def attempt_between_def MAILBOX_TOMBSTONE_TTL_MS_def)

lemma ringing_task_ok: "task_ok (ringing_task now att frame call_id)"
  by (simp add: ringing_task_def Let_def task_ok_def durable_def)

subsection \<open>A task enters\<close>

definition task_enter :: "do_state \<Rightarrow> task \<Rightarrow> do_state \<Rightarrow> bool" where
  "task_enter st t st' =
     (task_ok t \<and> tk_call_id t \<noteq> [] \<and> (durable t \<longrightarrow> tk_delivery_state t = Some Queued) \<and>
      d_calls st' = kv_put (tk_call_id t) t (d_calls st) \<and>
      d_due st' = kv_put (task_due_key t) (tk_call_id t) (d_due st) \<and>
      d_active st' = d_active st \<and> kv_wf (d_caller_outstanding st') \<and>
      (if durable t
       then d_queue st' = kv_put (task_queue_key t) (tk_call_id t) (d_queue st) \<and>
            kv_get (d_dedupe st) (task_dedupe_key t) = None \<and>
            d_dedupe st' = kv_put (task_dedupe_key t)
              \<lparr>dr_call_id = tk_call_id t, dr_request_envelope_sha256 = the (tk_request_envelope_sha256 t),
               dr_purge_at = the (tk_purge_at t)\<rparr> (d_dedupe st)
       else d_queue st' = d_queue st \<and> d_dedupe st' = d_dedupe st) \<and>
      outstanding_of st' = outstanding_of st + holds_quota t \<and>
      (\<forall>a. caller_outstanding_of st' a = caller_outstanding_of st a + caller_quota a t) \<and>
      bytes_of st' = bytes_of st + stored_bytes t \<and>
      outstanding_of st' \<le> MAILBOX_MAX_QUEUED_TASKS \<and>
      (\<forall>a. caller_outstanding_of st' a \<le> MAILBOX_MAX_OUTSTANDING_PER_CALLER))"

lemma task_enter_facts:
  assumes "task_enter st t st'"
  shows "task_ok t" "tk_call_id t \<noteq> []" "durable t \<longrightarrow> tk_delivery_state t = Some Queued"
    "d_calls st' = kv_put (tk_call_id t) t (d_calls st)"
    "d_due st' = kv_put (task_due_key t) (tk_call_id t) (d_due st)" "d_active st' = d_active st"
    "kv_wf (d_caller_outstanding st')"
    "if durable t
       then d_queue st' = kv_put (task_queue_key t) (tk_call_id t) (d_queue st) \<and>
            kv_get (d_dedupe st) (task_dedupe_key t) = None \<and>
            d_dedupe st' = kv_put (task_dedupe_key t)
              \<lparr>dr_call_id = tk_call_id t, dr_request_envelope_sha256 = the (tk_request_envelope_sha256 t),
               dr_purge_at = the (tk_purge_at t)\<rparr> (d_dedupe st)
       else d_queue st' = d_queue st \<and> d_dedupe st' = d_dedupe st"
    "outstanding_of st' = outstanding_of st + holds_quota t"
    "caller_outstanding_of st' a = caller_outstanding_of st a + caller_quota a t"
    "bytes_of st' = bytes_of st + stored_bytes t" "outstanding_of st' \<le> MAILBOX_MAX_QUEUED_TASKS"
    "caller_outstanding_of st' a \<le> MAILBOX_MAX_OUTSTANDING_PER_CALLER"
  by (insert assms[unfolded task_enter_def]; elim conjE; (assumption | erule spec))+

lemma due_entry:
  "due_inv st \<Longrightarrow> kv_get (d_due st) (d, i) = Some v \<Longrightarrow> v = i \<and> (\<exists>t. get_call st i = Some t \<and> tk_deadline t = d)"
  unfolding due_inv_def by blast

lemma queue_entry:
  "queue_inv used st \<Longrightarrow> kv_get (d_queue st) (c, i) = Some v \<Longrightarrow>
   v = i \<and> i \<in> used \<and> (\<forall>t. get_call st i = Some t \<longrightarrow> tk_created_at t = c)"
  unfolding queue_inv_def by blast

lemma dedupe_entry:
  "dedupe_inv st \<Longrightarrow> kv_get (d_dedupe st) (a, m) = Some r \<Longrightarrow>
   \<exists>t. get_call st (dr_call_id r) = Some t \<and> durable t \<and> tk_from_agent_id t = Some a \<and> tk_message_id t = Some m \<and>
       tk_request_envelope_sha256 t = Some (dr_request_envelope_sha256 r) \<and> tk_purge_at t = Some (dr_purge_at r)"
  unfolding dedupe_inv_def by blast

lemma dedupe_task:
  "dedupe_inv st \<Longrightarrow> get_call st i = Some t \<Longrightarrow> durable t \<Longrightarrow>
   \<exists>r. kv_get (d_dedupe st) (task_dedupe_key t) = Some r \<and> dr_call_id r = i"
  unfolding dedupe_inv_def by blast

lemma fresh_absent: "store_inv used st \<Longrightarrow> i \<notin> used \<Longrightarrow> get_call st i = None"
  using store_inv_get(2) by (cases "get_call st i") blast+

lemma task_enter_inv:
  assumes inv: "do_inv used st" and e: "task_enter st t st'" and fresh: "tk_call_id t \<notin> used"
  shows "do_inv (insert (tk_call_id t) used) st'"
proof -
  let ?i = "tk_call_id t"
  note P = do_inv_parts[OF inv]
  note W = store_inv_wf[OF P(1)]
  note E = task_enter_facts[OF e]
  have none: "get_call st ?i = None" using fresh_absent[OF P(1) fresh] .
  have get: "get_call st' j = (if j = ?i then Some t else get_call st j)" for j
    using E(4) W(1) by (simp add: get_call_def)
  have wf: "kv_wf (d_calls st')" "kv_wf (d_dedupe st')" "kv_wf (d_queue st')" "kv_wf (d_due st')"
    using E(4,5,8) W by (auto split: if_splits)
  have nq: "kv_get (d_queue st) (c, ?i) = None" for c
    using queue_entry[OF P(3)] fresh by (cases "kv_get (d_queue st) (c, ?i)") blast+
  have nd: "kv_get (d_due st) (c, ?i) = None" for c
    using due_entry[OF P(4)] none by (cases "kv_get (d_due st) (c, ?i)") fastforce+
  have "store_inv (insert ?i used) st'"
    using P(1) wf E(1,2,7) get by (auto simp: store_inv_def)
  moreover have "quota_inv st'"
  proof -
    have tot: "kv.total f (d_calls st') = kv.total f (d_calls st) + f t" for f
      using kv.total_put[OF W(1), of f ?i t] none E(4) by (simp add: get_call_def)
    show ?thesis
      unfolding quota_inv_def tot using P(2) E(9-13) unfolding quota_inv_def by metis
  qed
  moreover have "queue_inv (insert ?i used) st'"
  proof (cases "durable t")
    case True
    then have q: "kv_get (d_queue st') k = (if k = (tk_created_at t, ?i) then Some ?i else kv_get (d_queue st) k)" for k
      using E(8) W(3) by (simp add: task_queue_key_def)
    show ?thesis
      unfolding queue_inv_def get q
    proof (intro conjI allI impI; (elim conjE)?)
      fix i v assume "(if i = ?i then Some t else get_call st i) = Some v" "waiting v"
      then show "(if (tk_created_at v, i) = (tk_created_at t, ?i) then Some ?i else kv_get (d_queue st) (tk_created_at v, i)) = Some i"
        using P(3) nq by (auto simp: queue_inv_def split: if_splits)
    next
      fix c i v assume k: "(if (c, i) = (tk_created_at t, ?i) then Some ?i else kv_get (d_queue st) (c, i)) = Some v"
      show "v = i" using k P(3) unfolding queue_inv_def by (auto split: if_splits)
      show "i \<in> insert ?i used" using k P(3) unfolding queue_inv_def by (auto split: if_splits)
      fix u assume "(if i = ?i then Some t else get_call st i) = Some u"
      then show "tk_created_at u = c"
        using k P(3) nq[of c] unfolding queue_inv_def by (auto split: if_splits)
    qed
  next
    case False
    then have q: "d_queue st' = d_queue st" using E(8) by simp
    have nw: "\<not> waiting t" using False by (auto simp: waiting_def durable_def)
    show ?thesis
      using P(3) get nq nw unfolding queue_inv_def q by (auto split: if_splits)
  qed
  moreover have "due_inv st'"
  proof -
    have d: "kv_get (d_due st') k = (if k = (tk_deadline t, ?i) then Some ?i else kv_get (d_due st) k)" for k
      using E(5) W(4) by (simp add: task_due_key_def)
    show ?thesis
      unfolding due_inv_def get d
    proof (intro conjI allI impI)
      fix i v assume "(if i = ?i then Some t else get_call st i) = Some v"
      then show "(if (tk_deadline v, i) = (tk_deadline t, ?i) then Some ?i else kv_get (d_due st) (tk_deadline v, i)) = Some i"
        using P(4) by (auto simp: due_inv_def split: if_splits)
    next
      fix c i v assume k: "(if (c, i) = (tk_deadline t, ?i) then Some ?i else kv_get (d_due st) (c, i)) = Some v"
      show "v = i" using k P(4) unfolding due_inv_def by (auto split: if_splits)
      show "\<exists>u. (if i = ?i then Some t else get_call st i) = Some u \<and> tk_deadline u = c"
        using k P(4) nd[of c] unfolding due_inv_def by (auto split: if_splits)
    qed
  qed
  moreover have "active_inv (insert ?i used) st'"
  proof -
    have nl: "tk_delivery_state t \<noteq> Some Leased" using E(3) by (auto simp: durable_def)
    show ?thesis using P(5) get E(6) nl fresh unfolding active_inv_def by (auto split: if_splits)
  qed
  moreover have "dedupe_inv st'"
  proof (cases "durable t")
    case True
    let ?r = "\<lparr>dr_call_id = ?i, dr_request_envelope_sha256 = the (tk_request_envelope_sha256 t), dr_purge_at = the (tk_purge_at t)\<rparr>"
    have dd: "kv_get (d_dedupe st') k = (if k = task_dedupe_key t then Some ?r else kv_get (d_dedupe st) k)" for k
      using True E(8) W(2) by simp
    have fk: "kv_get (d_dedupe st) (task_dedupe_key t) = None" using True E(8) by simp
    note D = durable_ok[OF E(1) True]
    have sm: "tk_from_agent_id t = Some (the (tk_from_agent_id t))" "tk_message_id t = Some (the (tk_message_id t))"
      "tk_request_envelope_sha256 t = Some (the (tk_request_envelope_sha256 t))" "tk_purge_at t = Some (the (tk_purge_at t))"
      using D(1,2,4,5) by (auto simp: truthy_str_def split: option.splits)
    have old: "\<exists>v. get_call st (dr_call_id r) = Some v \<and> durable v \<and> tk_from_agent_id v = Some a \<and>
        tk_message_id v = Some m \<and> tk_request_envelope_sha256 v = Some (dr_request_envelope_sha256 r) \<and>
        tk_purge_at v = Some (dr_purge_at r)" if "kv_get (d_dedupe st) (a, m) = Some r" for a m r
      using P(6) that unfolding dedupe_inv_def by blast
    show ?thesis
      unfolding dedupe_inv_def get dd
    proof (intro conjI allI impI)
      fix a m r assume k: "(if (a, m) = task_dedupe_key t then Some ?r else kv_get (d_dedupe st) (a, m)) = Some r"
      show "\<exists>v. (if dr_call_id r = ?i then Some t else get_call st (dr_call_id r)) = Some v \<and> durable v \<and>
          tk_from_agent_id v = Some a \<and> tk_message_id v = Some m \<and>
          tk_request_envelope_sha256 v = Some (dr_request_envelope_sha256 r) \<and> tk_purge_at v = Some (dr_purge_at r)"
      proof (cases "(a, m) = task_dedupe_key t")
        case key: True
        then have "r = ?r" using k by simp
        then show ?thesis using True key sm by (simp add: task_dedupe_key_def)
      next
        case False
        then show ?thesis using k old[of a m r] none by (auto split: if_splits)
      qed
    next
      fix i v assume v: "(if i = ?i then Some t else get_call st i) = Some v \<and> durable v"
      show "\<exists>r. (if task_dedupe_key v = task_dedupe_key t then Some ?r else kv_get (d_dedupe st) (task_dedupe_key v)) = Some r \<and>
          dr_call_id r = i"
      proof (cases "i = ?i")
        case False
        then obtain r where "kv_get (d_dedupe st) (task_dedupe_key v) = Some r" "dr_call_id r = i"
          using v dedupe_task[OF P(6), of i v] by (auto split: if_splits)
        then show ?thesis using fk by auto
      qed (use v in auto)
    qed
  next
    case False
    then have same: "d_dedupe st' = d_dedupe st" using E(8) by simp
    show ?thesis
      unfolding dedupe_inv_def get same
    proof (intro conjI allI impI)
      fix a m r assume "kv_get (d_dedupe st) (a, m) = Some r"
      then obtain v where "get_call st (dr_call_id r) = Some v" "durable v" "tk_from_agent_id v = Some a"
        "tk_message_id v = Some m" "tk_request_envelope_sha256 v = Some (dr_request_envelope_sha256 r)"
        "tk_purge_at v = Some (dr_purge_at r)" using dedupe_entry[OF P(6)] by blast
      then show "\<exists>v. (if dr_call_id r = ?i then Some t else get_call st (dr_call_id r)) = Some v \<and> durable v \<and>
          tk_from_agent_id v = Some a \<and> tk_message_id v = Some m \<and>
          tk_request_envelope_sha256 v = Some (dr_request_envelope_sha256 r) \<and> tk_purge_at v = Some (dr_purge_at r)"
        using none by auto
    next
      fix i v assume "(if i = ?i then Some t else get_call st i) = Some v \<and> durable v"
      then have "get_call st i = Some v" "durable v" using False by (auto split: if_splits)
      then show "\<exists>r. kv_get (d_dedupe st) (task_dedupe_key v) = Some r \<and> dr_call_id r = i"
        using dedupe_task[OF P(6)] by blast
    qed
  qed
  ultimately show ?thesis unfolding do_inv_def by blast
qed

subsection \<open>A task leaves\<close>

definition task_leave :: "do_state \<Rightarrow> task \<Rightarrow> do_state \<Rightarrow> bool" where
  "task_leave st t st' =
     (get_call st (tk_call_id t) = Some t \<and> holds_quota t = 0 \<and> \<not> waiting t \<and>
      d_calls st' = kv_del (tk_call_id t) (d_calls st) \<and> d_due st' = kv_del (task_due_key t) (d_due st) \<and>
      d_dedupe st' = (if durable t then kv_del (task_dedupe_key t) (d_dedupe st) else d_dedupe st) \<and>
      (d_queue st' = d_queue st \<or> d_queue st' = kv_del (task_queue_key t) (d_queue st)) \<and>
      d_outstanding st' = d_outstanding st \<and> d_caller_outstanding st' = d_caller_outstanding st \<and>
      bytes_of st' = bytes_of st - stored_bytes t \<and>
      (d_active st' = d_active st \<or> d_active st' = None \<and> d_active st = Some (tk_call_id t)))"

lemma task_leave_facts:
  assumes "task_leave st t st'"
  shows "get_call st (tk_call_id t) = Some t" "holds_quota t = 0" "\<not> waiting t"
    "d_calls st' = kv_del (tk_call_id t) (d_calls st)" "d_due st' = kv_del (task_due_key t) (d_due st)"
    "d_dedupe st' = (if durable t then kv_del (task_dedupe_key t) (d_dedupe st) else d_dedupe st)"
    "d_queue st' = d_queue st \<or> d_queue st' = kv_del (task_queue_key t) (d_queue st)"
    "d_outstanding st' = d_outstanding st" "d_caller_outstanding st' = d_caller_outstanding st"
    "bytes_of st' = bytes_of st - stored_bytes t"
    "d_active st' = d_active st \<or> d_active st' = None \<and> d_active st = Some (tk_call_id t)"
  by (insert assms[unfolded task_leave_def]; elim conjE; assumption)+

lemma task_leave_get:
  assumes "do_inv used st" "task_leave st t st'"
  shows "get_call st' j = (if j = tk_call_id t then None else get_call st j)"
  using task_leave_facts(4)[OF assms(2)] store_inv_wf(1)[OF do_inv_parts(1)[OF assms(1)]] by (simp add: get_call_def)

lemma task_leave_dedupe:
  assumes inv: "do_inv used st" and l: "task_leave st t st'"
  shows "dedupe_inv st'"
proof -
  note P = do_inv_parts[OF inv]
  note W = store_inv_wf[OF P(1)]
  note L = task_leave_facts[OF l] and get = task_leave_get[OF inv l]
  have tid: "tk_call_id t = dr_call_id r \<Longrightarrow> durable t"
    if "kv_get (d_dedupe st) (a, m) = Some r" for a m r
    using dedupe_entry[OF P(6) that] L(1) by auto
  have dd: "kv_get (d_dedupe st') k = (if durable t \<and> k = task_dedupe_key t then None else kv_get (d_dedupe st) k)" for k
    using L(6) W(2) by simp
  show ?thesis
    unfolding dedupe_inv_def get dd
  proof (intro conjI allI impI)
    fix a m r
    assume k: "(if durable t \<and> (a, m) = task_dedupe_key t then None else kv_get (d_dedupe st) (a, m)) = Some r"
    then have old: "kv_get (d_dedupe st) (a, m) = Some r" "\<not> (durable t \<and> (a, m) = task_dedupe_key t)"
      by (auto split: if_splits)
    obtain v where v: "get_call st (dr_call_id r) = Some v" "durable v" "tk_from_agent_id v = Some a"
      "tk_message_id v = Some m" "tk_request_envelope_sha256 v = Some (dr_request_envelope_sha256 r)"
      "tk_purge_at v = Some (dr_purge_at r)" using dedupe_entry[OF P(6) old(1)] by blast
    have "dr_call_id r \<noteq> tk_call_id t"
    proof
      assume "dr_call_id r = tk_call_id t"
      then have "v = t" using v(1) L(1) by simp
      then show False using old(2) v(2-4) by (simp add: task_dedupe_key_def)
    qed
    then show "\<exists>v. (if dr_call_id r = tk_call_id t then None else get_call st (dr_call_id r)) = Some v \<and> durable v \<and>
        tk_from_agent_id v = Some a \<and> tk_message_id v = Some m \<and>
        tk_request_envelope_sha256 v = Some (dr_request_envelope_sha256 r) \<and> tk_purge_at v = Some (dr_purge_at r)"
      using v by auto
  next
    fix i v assume a: "(if i = tk_call_id t then None else get_call st i) = Some v \<and> durable v"
    then have g: "get_call st i = Some v" "durable v" "i \<noteq> tk_call_id t" by (auto split: if_splits)
    obtain r where r: "kv_get (d_dedupe st) (task_dedupe_key v) = Some r" "dr_call_id r = i"
      using dedupe_task[OF P(6) g(1,2)] by blast
    have "\<not> (durable t \<and> task_dedupe_key v = task_dedupe_key t)"
      using dedupe_task[OF P(6) L(1)] r g(3) by auto
    then show "\<exists>r. (if durable t \<and> task_dedupe_key v = task_dedupe_key t then None
        else kv_get (d_dedupe st) (task_dedupe_key v)) = Some r \<and> dr_call_id r = i"
      using r by auto
  qed
qed

lemma task_leave_inv:
  assumes inv: "do_inv used st" and l: "task_leave st t st'"
  shows "do_inv used st'"
proof -
  note P = do_inv_parts[OF inv]
  note W = store_inv_wf[OF P(1)]
  note L = task_leave_facts[OF l] and get = task_leave_get[OF inv l]
  have "kv_wf (d_calls st')" "kv_wf (d_dedupe st')" "kv_wf (d_queue st')" "kv_wf (d_due st')" "kv_wf (d_caller_outstanding st')"
    using L(4-7,9) W by auto
  then have "store_inv used st'"
    using P(1) get by (auto simp: store_inv_def)
  moreover have "quota_inv st'"
  proof -
    have tot: "kv.total f (d_calls st') = kv.total f (d_calls st) - f t" for f
      using kv.total_del[OF W(1), of f "tk_call_id t"] L(1,4) by (simp add: get_call_def)
    have cq: "caller_quota a t = 0" for a using L(2) by (simp add: caller_quota_def)
    show ?thesis
      using P(2) unfolding quota_inv_def tot L(8,9,10) cq L(2) diff_zero by (elim conjE) (intro conjI; simp only: simp_thms)
  qed
  moreover have "queue_inv used st'"
  proof -
    have kept: "kv_get (d_queue st') (c, i) = kv_get (d_queue st) (c, i)" if "i \<noteq> tk_call_id t" for c i
      using L(7) W(3) that by (auto simp: task_queue_key_def)
    have sub: "kv_get (d_queue st) (c, i) = Some v" if "kv_get (d_queue st') (c, i) = Some v" for c i v
      using L(7) W(3) that by (auto split: if_splits)
    show ?thesis
      unfolding queue_inv_def get
    proof (intro conjI allI impI)
      fix i v assume a: "(if i = tk_call_id t then None else get_call st i) = Some v \<and> waiting v"
      then show "kv_get (d_queue st') (tk_created_at v, i) = Some i"
        using P(3) kept[of i] unfolding queue_inv_def by (auto split: if_splits)
    qed (use queue_entry[OF P(3)] sub in \<open>fastforce split: if_splits\<close>)+
  qed
  moreover have "due_inv st'"
  proof -
    have d: "kv_get (d_due st') (c, i) = (if (c, i) = task_due_key t then None else kv_get (d_due st) (c, i))" for c i
      using L(5) W(4) by simp
    show ?thesis
      unfolding due_inv_def get d
    proof (intro conjI allI impI)
      fix i v assume "(if i = tk_call_id t then None else get_call st i) = Some v"
      then show "(if (tk_deadline v, i) = task_due_key t then None else kv_get (d_due st) (tk_deadline v, i)) = Some i"
        using P(4) unfolding due_inv_def task_due_key_def by (auto split: if_splits)
    next
      fix c i v assume "(if (c, i) = task_due_key t then None else kv_get (d_due st) (c, i)) = Some v"
      then have k: "kv_get (d_due st) (c, i) = Some v" "(c, i) \<noteq> task_due_key t" by (auto split: if_splits)
      show "v = i" using due_entry[OF P(4) k(1)] by simp
      obtain u where u: "get_call st i = Some u" "tk_deadline u = c" using due_entry[OF P(4) k(1)] by blast
      then have "i \<noteq> tk_call_id t" using k(2) L(1) by (auto simp: task_due_key_def)
      then show "\<exists>u. (if i = tk_call_id t then None else get_call st i) = Some u \<and> tk_deadline u = c"
        using u by auto
    qed
  qed
  moreover have "active_inv used st'"
  proof -
    have act: "d_active st = Some i" if "d_active st' = Some i" for i using L(11) that by auto
    have lea: "d_active st' = Some i" if "get_call st i = Some v" "tk_delivery_state v = Some Leased" "i \<noteq> tk_call_id t" for i v
      using P(5) that L(11) unfolding active_inv_def by auto
    show ?thesis
      unfolding active_inv_def get
    proof (intro conjI allI impI; (elim conjE)?)
      fix i v assume "(if i = tk_call_id t then None else get_call st i) = Some v" "tk_delivery_state v = Some Leased"
      then show "d_active st' = Some i" using lea by (auto split: if_splits)
    next
      fix i assume a: "d_active st' = Some i"
      have e: "i \<in> used \<and> i \<noteq> [] \<and> (\<forall>v. get_call st i = Some v \<longrightarrow> tk_delivery_state v \<noteq> Some Queued)"
        using P(5) act[OF a] unfolding active_inv_def by blast
      then show "i \<in> used" "i \<noteq> []" by simp_all
      fix v assume "(if i = tk_call_id t then None else get_call st i) = Some v"
      then show "tk_delivery_state v \<noteq> Some Queued" using e by (auto split: if_splits)
    qed
  qed
  ultimately show ?thesis using task_leave_dedupe[OF inv l] unfolding do_inv_def by blast
qed

lemma purge_leave:
  assumes inv: "do_inv used st" and g: "get_call st i = Some p" and t: "durable p" "task_is_terminal p"
  shows "task_leave st p (purge_txn st p)"
proof -
  note P = do_inv_parts[OF inv]
  have ok: "task_ok p" and id: "tk_call_id p = i" using store_inv_get[OF P(1) g] by simp_all
  note D = durable_ok[OF ok t(1)]
  have b: "0 \<le> bytes_of st - stored_bytes p" using total_stored_ge[OF P(1) g] P(2) by (simp add: quota_inv_def)
  have q: "tk_quota_released p" "tk_delivery_state p = Some Terminal" using D(8,9) t(2) by simp_all
  show ?thesis
    using g id t(1) q D(1,2,7) b
    by (auto simp: task_leave_def purge_txn_def Let_def due_del_def queue_del_def clear_active_if_def holds_quota_def
        waiting_def stored_bytes_def)
qed

lemma sync_leave:
  assumes inv: "do_inv used st" and g: "get_call st i = Some p" and s: "\<not> durable p"
  shows "task_leave st p (due_del p (st\<lparr>d_calls := kv_del i (d_calls st)\<rparr>))"
proof -
  note P = do_inv_parts[OF inv]
  have ok: "task_ok p" and id: "tk_call_id p = i" using store_inv_get[OF P(1) g] by simp_all
  show ?thesis
    using g id s sync_ok[OF ok s] waiting_durable
    by (auto simp: task_leave_def due_del_def)
qed

text \<open>What \<open>expireTask\<close> may do to the task it re-reads.\<close>

definition expires_to :: "int \<Rightarrow> do_state \<Rightarrow> string \<Rightarrow> do_state \<Rightarrow> bool" where
  "expires_to now st i st' =
     (st' = st \<or>
      (\<exists>p. get_call st i = Some p \<and> tk_deadline p \<le> now \<and>
         ((\<exists>u. task_step st p u st' \<and> evolves p u) \<or>
          (\<exists>st1. task_leave st p st1 \<and> same_core st1 st' \<and>
             (durable p \<longrightarrow> task_is_terminal p \<and> (the (tk_purge_at p) \<le> now \<or> the (tk_purge_at p) = 0))))))"

lemma expires_leave:
  assumes "get_call st i = Some p" "tk_deadline p \<le> now" "task_leave st p st1" "same_core st1 st'"
    "durable p \<Longrightarrow> task_is_terminal p \<and> (the (tk_purge_at p) \<le> now \<or> the (tk_purge_at p) = 0)"
  shows "expires_to now st i st'"
  using assms unfolding expires_to_def by blast

lemma expire_cases:
  assumes inv: "do_inv used st"
  shows "expires_to now st i (fst (expire_task now st i))"
proof (cases "get_call st i")
  case None
  then show ?thesis by (simp add: expires_to_def expire_task_def)
next
  case (Some p)
  note P = do_inv_parts[OF inv]
  have ok: "task_ok p" and id: "tk_call_id p = i" using store_inv_get[OF P(1) Some] by simp_all
  show ?thesis
  proof (cases "durable p")
    case d: True
    then have ds: "tk_delivery_state p \<noteq> None" by (simp add: durable_def)
    note D = durable_ok[OF ok d]
    obtain pa where pa: "tk_purge_at p = Some pa" using D(5) by simp
    consider "tk_deadline p > now" | "tk_deadline p \<le> now" "\<not> task_is_terminal p"
      | "tk_deadline p \<le> now" "task_is_terminal p" "pa \<noteq> 0 \<and> pa > now"
      | "tk_deadline p \<le> now" "task_is_terminal p" "\<not> (pa \<noteq> 0 \<and> pa > now)" by linarith
    then show ?thesis
    proof cases
      case 1
      then show ?thesis using Some ds by (simp add: expires_to_def expire_task_def)
    next
      case 2
      note X = expired_task_facts[OF ok d, of now]
      show ?thesis
        using Some ds 2 expire_durable_step[OF inv Some d 2(2)] terminate_evolves[OF 2(2) X(1,4)]
        unfolding expires_to_def by (auto simp: expire_task_def)
    next
      case 3
      then show ?thesis
        using Some ds pa retain_step[OF inv Some d 3(2) pa]
        unfolding expires_to_def by (auto simp: expire_task_def)
    next
      case 4
      then show ?thesis
        using Some ds pa 4 purge_leave[OF inv Some d 4(2)] same_core_refl
        unfolding expires_to_def by (auto simp: expire_task_def)
    qed
  next
    case False
    then have ds: "tk_delivery_state p = None" by (simp add: durable_def)
    let ?l = "due_del p (st\<lparr>d_calls := kv_del i (d_calls st)\<rparr>)"
    show ?thesis
    proof (cases "tk_deadline p \<le> now")
      case True
      have "same_core ?l (fst (expire_task now st i))"
        using Some ds True put_intent_core
        by (simp add: expire_task_def expire_authorized_call_def team_call_lifecycle_def Let_def)
      from expires_leave[OF Some True sync_leave[OF inv Some False] this] show ?thesis using False by simp
    next
      case later: False
      then show ?thesis
        using Some ds
        by (simp add: expires_to_def expire_task_def expire_authorized_call_def team_call_lifecycle_def)
    qed
  qed
qed

subsection \<open>Admission and submission\<close>

text \<open>
  What the gateway guarantees of a caller's attachment: \<open>fetch\<close> refuses a caller without
  organization and target, and the gateway's identity always carries an agent id.
\<close>

definition caller_ok :: "caller_attachment \<Rightarrow> bool" where
  "caller_ok att = (ca_from_agent_id att \<noteq> [] \<and> ca_org att \<noteq> [] \<and> ca_to att \<noteq> [])"

lemma quota_caps:
  assumes "quota_inv st"
  shows "outstanding_of st \<le> MAILBOX_MAX_QUEUED_TASKS"
    "caller_outstanding_of st a \<le> MAILBOX_MAX_OUTSTANDING_PER_CALLER"
  using assms unfolding quota_inv_def by blast+

lemma quota_bound_unless:
  assumes "quota_inv st" "x \<le> MAILBOX_MAX_OUTSTANDING_PER_CALLER"
  shows "(if a = b then x else caller_outstanding_of st a) \<le> MAILBOX_MAX_OUTSTANDING_PER_CALLER"
  using assms(2) quota_caps(2)[OF assms(1)] by simp

lemma admit_enter:
  assumes inv: "do_inv used st" and ok: "task_ok t" and q: "tk_delivery_state t = Some Queued"
    and fresh: "tk_call_id t \<noteq> []" and adm: "admit_txn now st t x = (st', Admitted t')"
  shows "task_enter st t st'" "t' = t"
proof -
  note P = do_inv_parts[OF inv]
  note W = store_inv_wf[OF P(1)]
  have d: "durable t" using q by (simp add: durable_def)
  note D = durable_ok[OF ok d]
  have h: "holds_quota t = 1" using d q D(9) by (simp add: holds_quota_def)
  obtain a where a: "tk_from_agent_id t = Some a" using D(1) by (cases "tk_from_agent_id t") auto
  have none: "kv_get (d_dedupe st) (task_dedupe_key t) = None"
    using adm by (auto simp: admit_txn_def Let_def split: option.splits if_splits)
  have cap: "outstanding_of st < MAILBOX_MAX_QUEUED_TASKS" "caller_outstanding_of st a < MAILBOX_MAX_OUTSTANDING_PER_CALLER"
    using adm none a by (auto simp: admit_txn_def Let_def split: if_splits)
  have res: "st' = put_intent now x ((due_put t ((put_call t st)
      \<lparr>d_dedupe := kv_put (task_dedupe_key t) \<lparr>dr_call_id = tk_call_id t,
         dr_request_envelope_sha256 = the (tk_request_envelope_sha256 t), dr_purge_at = the (tk_purge_at t)\<rparr> (d_dedupe st),
       d_queue := kv_put (task_queue_key t) (tk_call_id t) (d_queue st)\<rparr>))
      \<lparr>d_outstanding := Some (outstanding_of st + 1),
       d_caller_outstanding := kv_put a (caller_outstanding_of st a + 1) (d_caller_outstanding st),
       d_ciphertext_bytes := Some (bytes_of st + stored_bytes t)\<rparr>)" and t': "t' = t"
    using adm none a by (auto simp: admit_txn_def Let_def put_call_def due_put_def stored_bytes_def split: if_splits)
  show "t' = t" by (rule t')
  have F: "d_calls st' = kv_put (tk_call_id t) t (d_calls st)" "d_due st' = kv_put (task_due_key t) (tk_call_id t) (d_due st)"
    "d_active st' = d_active st" "d_queue st' = kv_put (task_queue_key t) (tk_call_id t) (d_queue st)"
    "d_dedupe st' = kv_put (task_dedupe_key t) \<lparr>dr_call_id = tk_call_id t,
         dr_request_envelope_sha256 = the (tk_request_envelope_sha256 t), dr_purge_at = the (tk_purge_at t)\<rparr> (d_dedupe st)"
    "outstanding_of st' = outstanding_of st + 1" "bytes_of st' = bytes_of st + stored_bytes t"
    "d_caller_outstanding st' = kv_put a (caller_outstanding_of st a + 1) (d_caller_outstanding st)"
    unfolding res by (simp_all add: core_fields put_call_def due_put_def)
  have co: "caller_outstanding_of st' b = (if b = a then caller_outstanding_of st a + 1 else caller_outstanding_of st b)" for b
    using F(8) W(5) by simp
  have cq: "caller_quota b t = (if b = a then 1 else 0)" for b
    using a h by (simp add: caller_quota_def)
  show "task_enter st t st'"
    unfolding task_enter_def F(1-7) co cq
    using ok fresh q none h cap d F(8) W(5) quota_caps(2)[OF P(2)] by auto
qed

lemma admit_not_admitted:
  assumes "admit_txn now st t x = (st', r)" "\<And>u. r \<noteq> Admitted u"
  shows "st' = st"
  using assms by (auto simp: admit_txn_def Let_def split: option.splits if_splits)

lemma submit_enter:
  assumes inv: "do_inv used st" and ok: "task_ok t" and s: "\<not> durable t" "\<not> task_is_terminal t"
    and fresh: "tk_call_id t \<notin> used" "tk_call_id t \<noteq> []"
  shows "task_enter st t (persist_txn now st t x)"
proof -
  note P = do_inv_parts[OF inv]
  note W = store_inv_wf[OF P(1)]
  have none: "get_call st (tk_call_id t) = None" using fresh_absent[OF P(1) fresh(1)] .
  have z: "holds_quota t = 0" "stored_bytes t = 0" "caller_quota a t = 0" for a
    using sync_ok[OF ok s(1)] by (simp_all add: caller_quota_def)
  have F: "d_calls (persist_txn now st t x) = kv_put (tk_call_id t) t (d_calls st)"
    "d_due (persist_txn now st t x) = kv_put (task_due_key t) (tk_call_id t) (d_due st)"
    "d_active (persist_txn now st t x) = d_active st" "d_queue (persist_txn now st t x) = d_queue st"
    "d_dedupe (persist_txn now st t x) = d_dedupe st" "d_outstanding (persist_txn now st t x) = d_outstanding st"
    "d_caller_outstanding (persist_txn now st t x) = d_caller_outstanding st"
    "d_ciphertext_bytes (persist_txn now st t x) = d_ciphertext_bytes st"
    using none by (simp_all add: persist_txn_def Let_def core_fields put_call_def due_put_def)
  note q = quota_caps[OF P(2)]
  show ?thesis
    unfolding task_enter_def F z
    using ok fresh(2) s(1) W(5) q by (auto simp: durable_def)
qed

end
