(* ===== verification/MailboxSteps.thy ===== *)
theory MailboxSteps
  imports MailboxEntries
begin

text \<open>
  The contract every mailbox transaction keeps, \<open>txn_ok\<close>: the invariant, how stored tasks
  may change, the alarm and the audit outbox. One lemma per transaction; the theory
  \<open>MailboxSystem\<close> interleaves them.
\<close>

subsection \<open>What a transaction may do\<close>

text \<open>Stored tasks evolve, leave after their time, or enter under an unused id.\<close>

definition may_leave :: "int \<Rightarrow> task \<Rightarrow> bool" where
  "may_leave now t =
     (tk_deadline t \<le> now \<and>
      (durable t \<longrightarrow> task_is_terminal t \<and> (the (tk_purge_at t) \<le> now \<or> the (tk_purge_at t) = 0)))"

definition calls_change :: "int \<Rightarrow> string set \<Rightarrow> do_state \<Rightarrow> do_state \<Rightarrow> bool" where
  "calls_change now used st st' =
     (\<forall>i. case get_call st i of
        None \<Rightarrow> get_call st' i \<noteq> None \<longrightarrow> i \<notin> used
      | Some t \<Rightarrow> (case get_call st' i of
           None \<Rightarrow> may_leave now t
         | Some u \<Rightarrow> evolves t u \<and> (waiting u \<longrightarrow> waiting t)))"

text \<open>The alarm is never lost, and outbox entries are only added.\<close>

definition alarm_safe :: "do_state \<Rightarrow> do_state \<Rightarrow> bool" where
  "alarm_safe st st' =
     ((d_alarm st \<noteq> None \<longrightarrow> d_alarm st' \<noteq> None) \<and>
      (d_alarm st' \<noteq> None \<or> (d_due st = [] \<and> d_outbox st = [] \<longrightarrow> d_due st' = [] \<and> d_outbox st' = [])))"

definition outbox_grows :: "do_state \<Rightarrow> do_state \<Rightarrow> bool" where
  "outbox_grows st st' = (\<forall>k. kv_get (d_outbox st) k \<noteq> None \<longrightarrow> kv_get (d_outbox st') k \<noteq> None)"

definition outbox_inv :: "do_state \<Rightarrow> bool" where
  "outbox_inv st =
     (kv_wf (d_outbox st) \<and> (\<forall>k i. kv_get (d_outbox st) k = Some i \<longrightarrow> k = audit_outbox_key i))"

definition txn_ok :: "int \<Rightarrow> string set \<Rightarrow> do_state \<Rightarrow> string set \<Rightarrow> do_state \<Rightarrow> bool" where
  "txn_ok now used st used' st' =
     (used \<subseteq> used' \<and> do_inv used' st' \<and> calls_change now used st st' \<and> alarm_safe st st' \<and>
      outbox_grows st st' \<and> outbox_inv st')"

lemma calls_change_refl: "d_calls st' = d_calls st \<Longrightarrow> calls_change now used st st'"
  by (simp add: calls_change_def get_call_def split: option.splits)

lemma calls_change_step:
  assumes "do_inv used st" "task_step st t u st'" "evolves t u"
  shows "calls_change now used st st'"
  using task_step_get[OF assms(2) store_inv_wf(1)[OF do_inv_parts(1)[OF assms(1)]]] assms(3)
    task_step_facts(1,7)[OF assms(2)]
  by (auto simp: calls_change_def split: option.splits)

lemma calls_change_leave:
  assumes "do_inv used st" "task_leave st t st1" "d_calls st' = d_calls st1" "may_leave now t"
  shows "calls_change now used st st'"
  using task_leave_get[OF assms(1,2)] assms(3,4) task_leave_facts(1)[OF assms(2)]
  by (auto simp: calls_change_def get_call_def split: option.splits)

lemma calls_change_enter:
  assumes "do_inv used st" "task_enter st t st'" "tk_call_id t \<notin> used"
  shows "calls_change now used st st'"
proof -
  note P = do_inv_parts[OF assms(1)]
  have "get_call st' j = (if j = tk_call_id t then Some t else get_call st j)" for j
    using task_enter_facts(4)[OF assms(2)] store_inv_wf(1)[OF P(1)] by (simp add: get_call_def)
  then show ?thesis
    using assms(3) fresh_absent[OF P(1) assms(3)] by (auto simp: calls_change_def split: option.splits)
qed

text \<open>Clock, outbox and alarm of the building blocks.\<close>

definition aux_ok :: "do_state \<Rightarrow> do_state \<Rightarrow> bool" where
  "aux_ok st st' = (alarm_safe st st' \<and> outbox_grows st st' \<and> (outbox_inv st \<longrightarrow> outbox_inv st'))"

lemma call_due:
  assumes "do_inv used st" "get_call st i = Some p"
  shows "d_due st \<noteq> []"
  using do_inv_parts(4)[OF assms(1)] assms(2) by (auto simp: due_inv_def)

lemma arm_at_fields:
  "d_alarm (arm_at at st) \<noteq> None" "d_outbox (arm_at at st) = d_outbox st" "d_due (arm_at at st) = d_due st"
  by (simp_all add: arm_at_def split: option.splits)

lemma aux_put_intent:
  assumes "d_alarm st1 = d_alarm st" "d_outbox st1 = d_outbox st" "x \<noteq> None \<or> d_due st \<noteq> [] \<or> d_due st1 = []"
    "outbox_inv st"
  shows "aux_ok st (put_intent now x st1)"
  using assms arm_at_fields
  by (auto simp: aux_ok_def alarm_safe_def outbox_grows_def outbox_inv_def put_intent_def arm_audit_retry_def
      split: option.splits)

lemma aux_same:
  assumes "d_alarm st' = d_alarm st \<or> d_alarm st' \<noteq> None" "d_outbox st' = d_outbox st" "d_due st \<noteq> [] \<or> d_due st' = [] \<or> d_alarm st' \<noteq> None"
  shows "aux_ok st st'"
  using assms by (auto simp: aux_ok_def alarm_safe_def outbox_grows_def outbox_inv_def)

lemma aux_trans: "aux_ok a b \<Longrightarrow> aux_ok b c \<Longrightarrow> aux_ok a c"
  by (auto simp: aux_ok_def alarm_safe_def outbox_grows_def)

lemma txn_okI:
  assumes "used \<subseteq> used'" "do_inv used' st'" "calls_change now used st st'" "aux_ok st st'" "outbox_inv st"
  shows "txn_ok now used st used' st'"
  using assms by (simp add: txn_ok_def aux_ok_def)

lemma txn_ok_refl: "do_inv used st \<Longrightarrow> outbox_inv st \<Longrightarrow> txn_ok now used st used st"
  by (simp add: txn_ok_def calls_change_refl alarm_safe_def outbox_grows_def)

lemma txn_ok_step:
  assumes "do_inv used st" "outbox_inv st" "task_step st t u st'" "evolves t u" "aux_ok st st'"
  shows "txn_ok now used st used st'"
  using assms task_step_inv calls_change_step by (intro txn_okI) blast+

subsection \<open>Every transaction\<close>

text \<open>The steps of a transaction other than its intent leave the alarm and the outbox alone.\<close>

lemma quiet [simp]:
  "d_alarm (put_call t st) = d_alarm st" "d_outbox (put_call t st) = d_outbox st"
  "d_alarm (due_put t st) = d_alarm st" "d_outbox (due_put t st) = d_outbox st"
  "d_alarm (due_del t st) = d_alarm st" "d_outbox (due_del t st) = d_outbox st"
  "d_alarm (queue_del t st) = d_alarm st" "d_outbox (queue_del t st) = d_outbox st"
  "d_alarm (clear_active_if i st) = d_alarm st" "d_outbox (clear_active_if i st) = d_outbox st"
  by (simp_all add: put_call_def due_put_def due_del_def queue_del_def clear_active_if_def)

lemma release_quiet [simp]:
  "d_alarm (fst (release_durable_quota st p n)) = d_alarm st"
  "d_outbox (fst (release_durable_quota st p n)) = d_outbox st"
  by (simp_all add: release_durable_quota_def Let_def split: option.splits)

lemma persist_aux:
  assumes "outbox_inv st" "x \<noteq> None \<or> d_due st \<noteq> []"
  shows "aux_ok st (persist_txn now st n x)"
proof -
  obtain st1 q where r: "(case get_call st (tk_call_id n) of
      Some p \<Rightarrow> if task_is_terminal n then release_durable_quota st p n else (st, n) | None \<Rightarrow> (st, n)) = (st1, q)"
    by fastforce
  have "fst (st1, q) = st1" by simp
  then have "d_alarm st1 = d_alarm st" "d_outbox st1 = d_outbox st"
    unfolding r[symmetric] by (auto split: option.splits if_splits)
  then show ?thesis
    using assms unfolding persist_txn_def Let_def r prod.case
    by (intro aux_put_intent) (auto split: option.splits)
qed

lemma terminate_aux:
  assumes "outbox_inv st" "d_due st \<noteq> []"
  shows "aux_ok st (terminate_txn now st p n x)"
  unfolding terminate_txn_def using assms
  by (cases "release_durable_quota st p n", simp)
     (intro aux_put_intent; simp; metis release_quiet fst_conv)

lemma txn_terminal_frame:
  assumes "do_inv used st" "outbox_inv st" "get_call st i = Some p" "\<not> task_is_terminal p"
    "n = canceled_by_listener now' p \<or> n = rejected_by_listener now' p \<or> (\<exists>t r e. n = finished_by_listener now' p t r e)"
  shows "txn_ok now used st used (persist_txn now' st n x)"
proof -
  have "task_ok p" using store_inv_get[OF do_inv_parts(1)[OF assms(1)] assms(3)] by simp
  then show ?thesis
    using txn_ok_step[OF assms(1,2) terminal_frame_step[OF assms(1,3,4)] terminal_frame_evolves persist_aux] assms
      call_due[OF assms(1,3)] by blast
qed

lemma txn_advance:
  assumes inv: "do_inv used st" "outbox_inv st" and g: "get_call st i = Some p" "\<not> task_is_terminal p"
    and sa: "state = Answered \<or> state = CallWorking" and lease: "durable p \<Longrightarrow> tk_lease p \<noteq> None"
  shows "txn_ok now used st used (fst (advance_txn now' st p state att))"
proof -
  have due: "d_due st \<noteq> []" using call_due[OF inv(1) g(1)] .
  let ?n = "advanced_task now' p state att" and ?x = "accepted_intent now' p state att"
  have "aux_ok st (start_txn now' st p ?n ?x)"
  proof -
    obtain st1 where st1: "start_txn now' st p ?n ?x = put_intent now' ?x (arm_at (tk_deadline ?n) st1)"
      and f: "d_alarm st1 = d_alarm st" "d_outbox st1 = d_outbox st"
      by (auto simp: start_txn_def Let_def)
    have "aux_ok st (arm_at (tk_deadline ?n) st1)"
      using f arm_at_fields[of "tk_deadline ?n" st1] due by (intro aux_same) auto
    moreover have "aux_ok (arm_at (tk_deadline ?n) st1) (put_intent now' ?x (arm_at (tk_deadline ?n) st1))"
      if "outbox_inv (arm_at (tk_deadline ?n) st1)" using that by (intro aux_put_intent) auto
    ultimately show ?thesis using inv(2) unfolding st1 by (metis aux_ok_def aux_trans)
  qed
  moreover have "aux_ok st (put_call ?n st)" using due by (intro aux_same) auto
  moreover have "aux_ok st st" by (intro aux_same) auto
  ultimately have "aux_ok st (fst (advance_txn now' st p state att))"
    using persist_aux[OF inv(2), of ?x now' ?n] due by (auto simp: advance_txn_def Let_def)
  then show ?thesis
    using advance_cases[OF inv(1) g sa lease, of now' att] txn_ok_step[OF inv] txn_ok_refl[OF inv] by auto
qed

lemma recover_aux:
  assumes inv: "do_inv used st" "outbox_inv st"
  shows "aux_ok st (recover_expired_lease now st i)"
proof (cases "get_call st i")
  case None
  then show ?thesis by (simp add: recover_expired_lease_def aux_same)
next
  case (Some p)
  have due: "d_due st \<noteq> []" using call_due[OF inv(1) Some] .
  obtain st2 q where r: "release_durable_quota (clear_active_if i st) p (failed_delivery now p) = (st2, q)" by fastforce
  have f: "d_alarm st2 = d_alarm st" "d_outbox st2 = d_outbox st"
    using release_quiet[of "clear_active_if i st" p "failed_delivery now p"] r by simp_all
  show ?thesis
    unfolding recover_expired_lease_def Some option.case Let_def failed_delivery_def[symmetric] r prod.case
    using due f inv(2)
    by (cases "tk_lease p") (auto intro!: aux_put_intent intro: aux_same)
qed

lemma txn_listener:
  assumes inv: "do_inv used st" "outbox_inv st"
  shows "txn_ok now used st used (fst (listener_txn now' st att frame))"
proof (cases "\<exists>p. get_call st (lf_call_id frame) = Some p \<and> \<not> task_is_terminal p \<and>
    valid_durable_lease p (lf_lease_id frame) att")
  case False
  then show ?thesis using txn_ok_refl[OF inv] by (auto simp: listener_txn_def split: option.splits)
next
  case True
  then obtain p where g: "get_call st (lf_call_id frame) = Some p" "\<not> task_is_terminal p"
    and v: "valid_durable_lease p (lf_lease_id frame) att" by blast
  have lease: "tk_lease p \<noteq> None" if "durable p"
    using v that by (auto simp: valid_durable_lease_def durable_def split: option.splits)
  note adv = txn_advance[OF inv g _ lease, of _ now now' att]
  note fin = txn_terminal_frame[OF inv g, of _ now' now]
  have fin': "txn_ok now used st used (persist_txn now' st (finished_by_listener now' p t r e) x)" for t r e x
    using fin by blast
  have st: "txn_ok now used st used st" using txn_ok_refl[OF inv] .
  have adv': "txn_ok now used st used st'" if "advance_txn now' st p state att = (st', r)" "state = Answered \<or> state = CallWorking" for state st' r
    using adv[of state] that by simp
  show ?thesis
    using g v st fin fin'
    by (cases "lf_body frame")
       (auto simp: listener_txn_def Let_def intro: adv' split: prod.splits option.splits)
qed

lemma txn_revoke:
  assumes inv: "do_inv used st" "outbox_inv st" and so: "\<And>v. get_call st (tk_call_id t) = Some v \<Longrightarrow> same_origin v t"
  shows "txn_ok now used st used (revoke_txn now' st t)"
proof (cases "\<exists>p. get_call st (tk_call_id t) = Some p \<and> \<not> task_is_terminal p \<and> tk_delivery_state p = Some Queued")
  case False
  then show ?thesis using txn_ok_refl[OF inv] by (auto simp: revoke_txn_def Let_def split: option.splits)
next
  case True
  then obtain p where g: "get_call st (tk_call_id t) = Some p" "\<not> task_is_terminal p" "tk_delivery_state p = Some Queued"
    by blast
  note P = do_inv_parts[OF inv(1)]
  have d: "durable p" using g(3) by (simp add: durable_def)
  note R = revoked_task_facts[OF store_inv_get(4)[OF P(1) g(1)] d so[OF g(1)], of now']
  obtain st1 q where r: "release_durable_quota st p (revoked_task now' t) = (st1, q)" by fastforce
  have "d_alarm st1 = d_alarm st" "d_outbox st1 = d_outbox st"
    using release_quiet[of st p "revoked_task now' t"] r by simp_all
  then have "aux_ok st (revoke_txn now' st t)"
    using g r inv(2) call_due[OF inv(1) g(1)] by (simp add: revoke_txn_def Let_def aux_put_intent)
  then show ?thesis
    using txn_ok_step[OF inv revoke_step[OF inv(1) g(1) so[OF g(1)] g(2,3)] terminate_evolves[OF g(2) R(1,4)]] by simp
qed

lemma txn_cancel:
  assumes inv: "do_inv used st" "outbox_inv st"
  shows "txn_ok now used st used (fst (cancel_txn now' st i))"
proof (cases "\<exists>p. get_call st i = Some p \<and> \<not> task_is_terminal p \<and> cancelable_state p")
  case False
  then show ?thesis using txn_ok_refl[OF inv] by (auto simp: cancel_txn_def split: option.splits)
next
  case True
  then obtain p where g: "get_call st i = Some p" "\<not> task_is_terminal p" "cancelable_state p" by blast
  note P = do_inv_parts[OF inv(1)]
  have d: "durable p" using g(3) by (auto simp: durable_def cancelable_state_def)
  note R = canceled_by_caller_facts[OF store_inv_get(4)[OF P(1) g(1)] d, of now']
  obtain st1 q where r: "release_durable_quota st p (canceled_by_caller now' p) = (st1, q)" by fastforce
  have "d_alarm st1 = d_alarm st" "d_outbox st1 = d_outbox st"
    using release_quiet[of st p "canceled_by_caller now' p"] r by simp_all
  then have "aux_ok st (fst (cancel_txn now' st i))"
    using g r inv(2) call_due[OF inv(1) g(1)] by (simp add: cancel_txn_def Let_def aux_put_intent)
  then show ?thesis
    using txn_ok_step[OF inv cancel_step(1)[OF inv(1) g] terminate_evolves[OF g(2) R(1,4)]] by simp
qed

lemma txn_recover:
  assumes inv: "do_inv used st" "outbox_inv st"
  shows "txn_ok now used st used (recover_expired_lease now' st i)"
proof -
  note aux = recover_aux[OF inv, of now' i]
  consider "recover_expired_lease now' st i = st"
    | p u where "get_call st i = Some p" "\<not> task_is_terminal p" "tk_delivery_state p = Some Leased"
      "u = requeued_task now' p \<or> u = (failed_delivery now' p)\<lparr>tk_quota_released := True\<rparr>"
      "task_step st p u (recover_expired_lease now' st i)"
    using recover_cases[OF inv(1), of now' i] by blast
  then show ?thesis
  proof cases
    case 1
    then show ?thesis using txn_ok_refl[OF inv] by simp
  next
    case (2 p u)
    have d: "durable p" using 2(3) by (simp add: durable_def)
    note F = failed_delivery_facts[OF store_inv_get(4)[OF do_inv_parts(1)[OF inv(1)] 2(1)] d, of now']
    have "evolves p (requeued_task now' p)"
      using 2(2,3) by (simp add: evolves_def same_origin_def requeued_task_def durable_def)
    then have "evolves p u" using 2(4) terminate_evolves[OF 2(2) F(1,4)] by auto
    then show ?thesis using txn_ok_step[OF inv 2(5) _ aux] by simp
  qed
qed

lemma txn_rebind:
  assumes inv: "do_inv used st" "outbox_inv st" and g: "get_call st i = Some p" "rebindable p"
  shows "txn_ok now used st used (put_call (rebound_task now' l s p) st)"
  using txn_ok_step[OF inv rebind_step[OF inv(1) g]] rebound_facts(3)[OF store_inv_get(4)[OF do_inv_parts(1)[OF inv(1)] g(1)] g(2)]
    call_due[OF inv(1) g(1)] by (simp add: aux_same)

lemma txn_lease:
  assumes inv: "do_inv used st" "outbox_inv st"
  shows "txn_ok now used st used (fst (lease_txn now' st l s ms))"
proof -
  note P = do_inv_parts[OF inv(1)]
  have aux: "aux_ok st (fst (lease_txn now' st l s ms))"
  proof (cases "snd (lease_txn now' st l s ms)")
    case None
    then have "fst (lease_txn now' st l s ms) = st \<or> (\<exists>q. fst (lease_txn now' st l s ms) = st\<lparr>d_queue := q\<rparr>)"
      by (auto simp: lease_txn_def Let_def split: if_splits option.splits)
    then show ?thesis by (auto intro: aux_same)
  next
    case (Some u)
    then have "\<exists>i at c. get_call st i \<noteq> None \<and>
        fst (lease_txn now' st l s ms) = arm_at at (st\<lparr>d_calls := c, d_active := Some i\<rparr>)"
      by (auto simp: lease_txn_def Let_def split: if_splits option.splits)
    then show ?thesis using arm_at_fields by (auto intro!: aux_same)
  qed
  consider "fst (lease_txn now' st l s ms) = st"
    | key i where "\<forall>t. get_call st i = Some t \<longrightarrow> \<not> waiting t" "kv_first (d_queue st) = Some (key, i)"
      "fst (lease_txn now' st l s ms) = st\<lparr>d_queue := kv_del key (d_queue st)\<rparr>"
    | i p where "get_call st i = Some p" "tk_delivery_state p = Some Queued" "\<not> task_is_terminal p"
      "task_step st p (leased_task now' (next_lease now' l s ms p) p) (fst (lease_txn now' st l s ms))"
  proof (atomize_elim)
    show "fst (lease_txn now' st l s ms) = st \<or>
      (\<exists>i key. (\<forall>t. get_call st i = Some t \<longrightarrow> \<not> waiting t) \<and> kv_first (d_queue st) = Some (key, i) \<and>
         fst (lease_txn now' st l s ms) = st\<lparr>d_queue := kv_del key (d_queue st)\<rparr>) \<or>
      (\<exists>i p. get_call st i = Some p \<and> tk_delivery_state p = Some Queued \<and> \<not> task_is_terminal p \<and>
         task_step st p (leased_task now' (next_lease now' l s ms p) p) (fst (lease_txn now' st l s ms)))"
      using lease_cases[OF inv(1), of now' l s ms] by (metis fst_conv)
  qed
  then show ?thesis
  proof cases
    case 1
    then show ?thesis using txn_ok_refl[OF inv] by simp
  next
    case (2 key i)
    obtain c j where k: "key = (c, j)" by (cases key)
    have "kv_get (d_queue st) key = Some i" using kv_first_get[OF _ 2(2)] store_inv_wf(3)[OF P(1)] by simp
    then have "i = j" using queue_entry[OF P(3)] k by blast
    then have "do_inv used (fst (lease_txn now' st l s ms))"
      using drop_queue_inv[OF inv(1), of key] 2(1,3) k by auto
    then show ?thesis using aux inv(2) 2(3) by (intro txn_okI calls_change_refl) auto
  next
    case (3 i p)
    show ?thesis
      using txn_ok_step[OF inv 3(4) _ aux] leased_facts(3)[OF store_inv_get(4)[OF P(1) 3(1)] 3(2,3)] by simp
  qed
qed

lemma txn_finish:
  assumes inv: "do_inv used st" "outbox_inv st" and nw: "\<And>v. get_call st (tk_call_id t) = Some v \<Longrightarrow> \<not> waiting v"
  shows "txn_ok now used st used (finish_txn st t)"
proof -
  have "aux_ok st (finish_txn st t)"
    unfolding finish_txn_def by (intro aux_same) (auto simp: clear_active_if_def queue_del_def)
  then show ?thesis
    using finish_inv[OF inv(1) nw] inv(2)
    by (intro txn_okI calls_change_refl) (auto simp: finish_txn_def clear_active_if_def queue_del_def)
qed

text \<open>\<open>expireTask\<close>, and the index entry the alarm drops when it found nothing to expire.\<close>

definition expire_due :: "int \<Rightarrow> do_state \<Rightarrow> int \<times> string \<Rightarrow> do_state \<times> (task \<times> bool) option" where
  "expire_due now st key = (case expire_task now st (snd key) of
     (st1, None) \<Rightarrow> (st1\<lparr>d_due := kv_del key (d_due st1)\<rparr>, None)
   | (st1, Some r) \<Rightarrow> (st1, Some r))"

lemma expire_aux:
  assumes inv: "do_inv used st" "outbox_inv st"
  shows "aux_ok st (fst (expire_task now st i))"
proof (cases "get_call st i")
  case None
  then show ?thesis by (simp add: expire_task_def aux_same)
next
  case (Some p)
  have due: "d_due st \<noteq> []" using call_due[OF inv(1) Some] .
  obtain st1 q where r: "release_durable_quota st p (expired_task now p) = (st1, q)" by fastforce
  have f: "d_alarm st1 = d_alarm st" "d_outbox st1 = d_outbox st"
    using release_quiet[of st p "expired_task now p"] r by simp_all
  have "aux_ok st (expire_durable_txn now st p)"
    unfolding expire_durable_txn_def Let_def r prod.case using f due inv(2) by (intro aux_put_intent) auto
  moreover have "aux_ok st (retain_txn st p pa)" for pa
    using due by (intro aux_same) (auto simp: retain_txn_def Let_def)
  moreover have "aux_ok st (purge_txn st p)"
    using due by (intro aux_same) (auto simp: purge_txn_def Let_def)
  moreover have "aux_ok st (put_intent now x (due_del p (st\<lparr>d_calls := c\<rparr>)))" for x c
    using due inv(2) by (intro aux_put_intent) auto
  moreover have "aux_ok st (due_del p (st\<lparr>d_calls := c\<rparr>))" for c
    using due by (intro aux_same) auto
  moreover have "aux_ok st st" by (intro aux_same) auto
  ultimately show ?thesis
    using Some by (auto simp: expire_task_def Let_def split: option.splits)
qed

lemma txn_expire:
  assumes inv: "do_inv used st" "outbox_inv st"
  shows "txn_ok now used st used (fst (expire_task now st i))"
proof -
  note aux = expire_aux[OF inv, of now i]
  consider "fst (expire_task now st i) = st"
    | p u where "task_step st p u (fst (expire_task now st i))" "evolves p u"
    | p st1 where "tk_deadline p \<le> now" "task_leave st p st1" "same_core st1 (fst (expire_task now st i))"
      "durable p \<longrightarrow> task_is_terminal p \<and> (the (tk_purge_at p) \<le> now \<or> the (tk_purge_at p) = 0)"
    using expire_cases[OF inv(1), of now i] unfolding expires_to_def by blast
  then show ?thesis
  proof cases
    case 1
    then show ?thesis using txn_ok_refl[OF inv] by simp
  next
    case (2 p u)
    then show ?thesis using txn_ok_step[OF inv 2 aux] by simp
  next
    case (3 p st1)
    have "do_inv used (fst (expire_task now st i))"
      using task_leave_inv[OF inv(1) 3(2)] do_inv_core[OF 3(3)] by simp
    moreover have "calls_change now used st (fst (expire_task now st i))"
      using calls_change_leave[OF inv(1) 3(2)] 3(1,3,4) by (simp add: same_core_def may_leave_def)
    ultimately show ?thesis using aux inv(2) by (intro txn_okI) auto
  qed
qed

lemma expire_due_eq:
  assumes inv: "do_inv used st" and at: "fst key \<le> now"
  shows "fst (expire_due now st key) = fst (expire_task now st (snd key))"
proof (cases "snd (expire_task now st (snd key))")
  case (Some r)
  then show ?thesis by (auto simp: expire_due_def split: prod.splits)
next
  case None
  obtain c i where k: "key = (c, i)" by (cases key)
  note P = do_inv_parts[OF inv]
  have st: "fst (expire_task now st i) = st" and later: "\<And>t. get_call st i = Some t \<Longrightarrow> now < tk_deadline t"
    using None k
    by (auto simp: expire_task_def Let_def expire_authorized_call_def team_call_lifecycle_def not_le
        split: option.splits if_splits)
  have "kv_get (d_due st) key = None"
    using due_entry[OF P(4)] later at k by (cases "kv_get (d_due st) key") fastforce+
  then have "kv_del key (d_due st) = d_due st"
    by (force simp: kv_del_def kv_get_def map_of_eq_None_iff filter_id_conv)
  then show ?thesis using None k st by (cases "expire_task now st i") (simp add: expire_due_def)
qed

lemma txn_submit:
  assumes inv: "do_inv used st" "outbox_inv st" and fresh: "tk_call_id t \<notin> used" "tk_call_id t \<noteq> []"
    and t: "task_ok t" "\<not> durable t" "\<not> task_is_terminal t" and x: "x \<noteq> None"
  shows "txn_ok now used st (insert (tk_call_id t) used) (persist_txn now' st t x)"
proof -
  note e = submit_enter[OF inv(1) t fresh, of now' x]
  show ?thesis
    using task_enter_inv[OF inv(1) e fresh(1)] calls_change_enter[OF inv(1) e fresh(1)] persist_aux[OF inv(2)] x inv(2)
    by (intro txn_okI) auto
qed

lemma txn_admit:
  assumes inv: "do_inv used st" "outbox_inv st" and fresh: "tk_call_id t \<notin> used" "tk_call_id t \<noteq> []"
    and t: "task_ok t" "tk_delivery_state t = Some Queued" and x: "x \<noteq> None"
  shows "txn_ok now used st (insert (tk_call_id t) used) (fst (admit_txn now' st t x))"
proof (cases "\<exists>u. snd (admit_txn now' st t x) = Admitted u")
  case False
  then have "fst (admit_txn now' st t x) = st"
    using admit_not_admitted[of now' st t x "fst (admit_txn now' st t x)" "snd (admit_txn now' st t x)"] by simp
  then show ?thesis
    using do_inv_used_mono[OF inv(1), of "insert (tk_call_id t) used"] inv(2)
    by (intro txn_okI) (auto intro: calls_change_refl aux_same)
next
  case True
  then obtain u st' where adm: "admit_txn now' st t x = (st', Admitted u)" by (metis prod.collapse)
  note e = admit_enter(1)[OF inv(1) t fresh(2) adm]
  have "aux_ok st st'"
    using adm x inv(2) by (auto simp: admit_txn_def Let_def intro!: aux_put_intent split: option.splits if_splits)
  then show ?thesis
    using task_enter_inv[OF inv(1) e fresh(1)] calls_change_enter[OF inv(1) e fresh(1)] adm inv(2)
    by (intro txn_okI) auto
qed

end
