(* ===== verification/MailboxSystem.thy ===== *)
theory MailboxSystem
  imports MailboxSteps
begin

text \<open>
  The mailbox as a concurrent system. A Durable Object runs one event at a time up to an
  await that leaves the object (a D1 query); then other events may run. Each rule of
  \<open>sys_step\<close> is one such stretch, the continuation it leaves behind is kept in
  \<open>sy_pending\<close>, and a crash may drop any continuation (the platform retries a dropped
  alarm). The clock \<open>now\<close> of a step is arbitrary: nothing assumes that it only grows.
  \<open>sy_used\<close> and \<open>sy_logged\<close> are history: the call ids ever drawn, and the event keys ever
  inserted in D1.
\<close>

datatype continuation =
  CFinish task
| CRevoke task
| CFlush "(audit_key \<times> audit_intent) list"
| CFlushed "(audit_key \<times> audit_intent) list"
| CAlarm

record system =
  sy_do :: do_state
  sy_used :: "string set"
  sy_pending :: "continuation list"
  sy_events :: org_events
  sy_logged :: "string set"

definition empty_system :: system where
  "empty_system = \<lparr>sy_do = empty_do_state, sy_used = {}, sy_pending = [], sy_events = [], sy_logged = {}\<rparr>"

abbreviation add_pending :: "continuation list \<Rightarrow> system \<Rightarrow> system" where
  "add_pending cs s \<equiv> s\<lparr>sy_pending := cs @ sy_pending s\<rparr>"

abbreviation done_pending :: "continuation \<Rightarrow> system \<Rightarrow> system" where
  "done_pending c s \<equiv> s\<lparr>sy_pending := remove1 c (sy_pending s)\<rparr>"

fun frame_continuation :: "listener_result \<Rightarrow> continuation list" where
  "frame_continuation (LrTerminal rec t) = [CFinish t]"
| "frame_continuation _ = []"

definition keep_floor :: "string \<times> string \<Rightarrow> int \<Rightarrow> do_state \<Rightarrow> do_state" where
  "keep_floor key generation st =
     (if generation > or_default (kv_get (d_floors st) key) 0
      then st\<lparr>d_floors := kv_put key generation (d_floors st)\<rparr> else st)"

inductive sys_step :: "int \<Rightarrow> system \<Rightarrow> system \<Rightarrow> bool" for now where
  sync_submit: "\<lbrakk>caller_ok att; call_id \<noteq> []; call_id \<notin> sy_used s; t = ringing_task now att frame call_id\<rbrakk> \<Longrightarrow>
    sys_step now s (s\<lparr>sy_do := persist_txn now (sy_do s) t
        (call_audit_intent EvSubmit t (ca_from att) HandleActor (ca_source att) now),
      sy_used := insert call_id (sy_used s)\<rparr>)"
| admit: "\<lbrakk>caller_ok att; truthy_str (cr_message_id frame); call_id \<noteq> []; call_id \<notin> sy_used s;
      t = queued_task now att frame digest call_id\<rbrakk> \<Longrightarrow>
    sys_step now s (s\<lparr>sy_do := fst (admit_txn now (sy_do s) t
        (call_audit_intent EvSubmit t (ca_from att) HandleActor (ca_source att) now)),
      sy_used := insert call_id (sy_used s)\<rparr>)"
| listener_frame: "listener_txn now (sy_do s) att frame = (st', r) \<Longrightarrow>
    sys_step now s (add_pending (frame_continuation r) (s\<lparr>sy_do := st'\<rparr>))"
| finish: "CFinish t \<in> set (sy_pending s) \<Longrightarrow>
    sys_step now s (done_pending (CFinish t) (s\<lparr>sy_do := finish_txn (sy_do s) t\<rparr>))"
| rebind: "\<lbrakk>get_call (sy_do s) i = Some p; rebindable p\<rbrakk> \<Longrightarrow>
    sys_step now s (s\<lparr>sy_do := put_call (rebound_task now l session p) (sy_do s)\<rparr>)"
| refuse_authority: "get_call (sy_do s) i = Some t \<Longrightarrow> sys_step now s (add_pending [CRevoke t] s)"
| revoke: "CRevoke t \<in> set (sy_pending s) \<Longrightarrow>
    sys_step now s (done_pending (CRevoke t) (s\<lparr>sy_do := revoke_txn now (sy_do s) t\<rparr>))"
| prune_starts: "sys_step now s (s\<lparr>sy_do := (sy_do s)\<lparr>d_starts := starts\<rparr>\<rparr>)"
| lease: "sys_step now s (s\<lparr>sy_do := fst (lease_txn now (sy_do s) l session ms)\<rparr>)"
| cancel: "sys_step now s (s\<lparr>sy_do := fst (cancel_txn now (sy_do s) i)\<rparr>)"
| recover: "sys_step now s (s\<lparr>sy_do := recover_expired_lease now (sy_do s) i\<rparr>)"
| expire: "fst key \<le> now \<Longrightarrow> sys_step now s (s\<lparr>sy_do := fst (expire_due now (sy_do s) key)\<rparr>)"
| flush_begin: "flush_pending (sy_do s) \<noteq> [] \<Longrightarrow> sys_step now s (add_pending [CFlush (flush_pending (sy_do s))] s)"
| d1_commit: "CFlush ps \<in> set (sy_pending s) \<Longrightarrow>
    sys_step now s (add_pending [CFlushed ps] (done_pending (CFlush ps)
      (s\<lparr>sy_events := d1_batch (sy_events s) (map snd ps),
         sy_logged := sy_logged s \<union> set (map (ai_event_key \<circ> snd) ps)\<rparr>)))"
| flush_ok: "CFlushed ps \<in> set (sy_pending s) \<Longrightarrow>
    sys_step now s (done_pending (CFlushed ps) (s\<lparr>sy_do := flush_end now (sy_do s) (map fst ps)\<rparr>))"
| flush_error: "c = CFlush ps \<or> c = CFlushed ps \<Longrightarrow> c \<in> set (sy_pending s) \<Longrightarrow>
    sys_step now s (done_pending c (s\<lparr>sy_do := flush_failed now (sy_do s)\<rparr>))"
| alarm_fires: "sys_step now s (add_pending [CAlarm] (s\<lparr>sy_do := (sy_do s)\<lparr>d_alarm := None\<rparr>\<rparr>))"
| alarm_ends: "CAlarm \<in> set (sy_pending s) \<Longrightarrow>
    sys_step now s (done_pending CAlarm (s\<lparr>sy_do := schedule_next_alarm now (sy_do s)\<rparr>))"
| alarm_retried: "CAlarm \<in> set (sy_pending s) \<Longrightarrow>
    sys_step now s (done_pending CAlarm (s\<lparr>sy_do := (sy_do s)\<lparr>d_alarm := Some again\<rparr>\<rparr>))"
| reschedule: "sys_step now s (s\<lparr>sy_do := schedule_next_alarm now (sy_do s)\<rparr>)"
| arm: "sys_step now s (s\<lparr>sy_do := arm_at at (sy_do s)\<rparr>)"
| rate: "sys_step now s (s\<lparr>sy_do := (sy_do s)\<lparr>d_rate := r\<rparr>\<rparr>)"
| raise_floor: "sys_step now s (s\<lparr>sy_do := keep_floor key generation (sy_do s)\<rparr>)"
| crash: "c \<noteq> CAlarm \<Longrightarrow> sys_step now s (done_pending c s)"

subsection \<open>The invariant\<close>

fun continuation_ok :: "system \<Rightarrow> continuation \<Rightarrow> bool" where
  "continuation_ok s (CFinish t) =
     (tk_call_id t \<in> sy_used s \<and> (\<forall>v. get_call (sy_do s) (tk_call_id t) = Some v \<longrightarrow> \<not> waiting v))"
| "continuation_ok s (CRevoke t) =
     (tk_call_id t \<in> sy_used s \<and> (\<forall>v. get_call (sy_do s) (tk_call_id t) = Some v \<longrightarrow> same_origin v t))"
| "continuation_ok s (CFlush ps) = (\<forall>(k, i) \<in> set ps. k = audit_outbox_key i)"
| "continuation_ok s (CFlushed ps) = (\<forall>(k, i) \<in> set ps. k = audit_outbox_key i \<and> ai_event_key i \<in> sy_logged s)"
| "continuation_ok s CAlarm = True"

definition alarm_inv :: "system \<Rightarrow> bool" where
  "alarm_inv s =
     (d_alarm (sy_do s) \<noteq> None \<or> CAlarm \<in> set (sy_pending s) \<or>
      d_due (sy_do s) = [] \<and> d_outbox (sy_do s) = [])"

definition sys_inv :: "system \<Rightarrow> bool" where
  "sys_inv s =
     (do_inv (sy_used s) (sy_do s) \<and> outbox_inv (sy_do s) \<and> alarm_inv s \<and>
      (\<forall>c \<in> set (sy_pending s). continuation_ok s c) \<and> distinct (map ai_event_key (sy_events s)))"

lemma sys_invD:
  assumes "sys_inv s"
  shows "do_inv (sy_used s) (sy_do s)" "outbox_inv (sy_do s)" "alarm_inv s"
    "c \<in> set (sy_pending s) \<Longrightarrow> continuation_ok s c" "distinct (map ai_event_key (sy_events s))"
  using assms by (simp_all add: sys_inv_def)

lemma kept_pending [simp]: "\<forall>c \<in> set (remove1 d xs). c \<in> set xs \<or> P c"
  using set_remove1_subset[of d xs] by blast

text \<open>Continuations stay valid over any transaction that keeps its contract.\<close>

lemma continuation_kept:
  assumes c: "continuation_ok s c" and t: "calls_change now (sy_used s) (sy_do s) st'"
    and more: "sy_do s' = st'" "sy_used s \<subseteq> sy_used s'" "sy_logged s \<subseteq> sy_logged s'"
  shows "continuation_ok s' c"
proof -
  have ch: "case get_call (sy_do s) i of None \<Rightarrow> get_call st' i \<noteq> None \<longrightarrow> i \<notin> sy_used s
      | Some t \<Rightarrow> (case get_call st' i of None \<Rightarrow> may_leave now t | Some u \<Rightarrow> evolves t u \<and> (waiting u \<longrightarrow> waiting t))" for i
    using t unfolding calls_change_def by blast
  show ?thesis
  proof (cases c)
    case (CFinish x)
    then show ?thesis using c more ch[of "tk_call_id x"] by (auto split: option.splits)
  next
    case (CRevoke x)
    have "same_origin u x" if "evolves t u" "same_origin t x" for t u
      using that same_origin_trans same_origin_sym by (meson evolves_def)
    then show ?thesis using CRevoke c more ch[of "tk_call_id x"] by (auto split: option.splits)
  qed (use c more in auto)
qed

lemma txn_sys_inv:
  assumes inv: "sys_inv s" and t: "txn_ok now (sy_used s) (sy_do s) used' st'"
    and s': "sy_do s' = st'" "sy_used s' = used'" "sy_logged s' = sy_logged s" "sy_events s' = sy_events s"
    and old: "\<forall>c \<in> set (sy_pending s'). c \<in> set (sy_pending s) \<or> continuation_ok s' c"
    and al: "CAlarm \<in> set (sy_pending s) \<longrightarrow> CAlarm \<in> set (sy_pending s')"
  shows "sys_inv s'"
proof -
  note I = sys_invD[OF inv]
  have T: "sy_used s \<subseteq> used'" "do_inv used' st'" "calls_change now (sy_used s) (sy_do s) st'"
    "alarm_safe (sy_do s) st'" "outbox_inv st'" using t by (simp_all add: txn_ok_def)
  have "alarm_inv s'" using T(4) I(3) al s'(1) by (auto simp: alarm_inv_def alarm_safe_def)
  moreover have "continuation_ok s' c" if "c \<in> set (sy_pending s')" for c
    using old that I(4) continuation_kept[OF _ T(3), of c s'] s' T(1) by auto
  ultimately show ?thesis using T s' I(5) by (simp add: sys_inv_def)
qed

lemma schedule_fields:
  "d_calls (schedule_next_alarm now st) = d_calls st" "same_core st (schedule_next_alarm now st)"
  "d_outbox (schedule_next_alarm now st) = d_outbox st" "d_due (schedule_next_alarm now st) = d_due st"
  "d_alarm st \<noteq> None \<Longrightarrow> d_alarm (schedule_next_alarm now st) \<noteq> None"
  by (auto simp: schedule_next_alarm_def Let_def same_core_def split: prod.splits list.splits)

lemma schedule_arms:
  assumes "d_due st \<noteq> [] \<or> d_outbox st \<noteq> []"
  shows "d_alarm (schedule_next_alarm now st) \<noteq> None"
proof -
  have "kv_first (d_due st) \<noteq> None \<or> kv_first (d_outbox st) \<noteq> None" using assms by (simp add: kv_first_None)
  then show ?thesis
    by (auto simp: schedule_next_alarm_def Let_def split: prod.splits list.splits option.splits)
qed

text \<open>Steps that change neither the tasks nor their indexes.\<close>

lemma core_sys_inv:
  assumes inv: "sys_inv s" and core: "same_core (sy_do s) (sy_do s')" and u: "sy_used s' = sy_used s"
    and ob: "outbox_inv (sy_do s')" and al: "alarm_inv s'"
    and log: "sy_logged s \<subseteq> sy_logged s'" and ev: "distinct (map ai_event_key (sy_events s'))"
    and old: "\<forall>c \<in> set (sy_pending s'). c \<in> set (sy_pending s) \<or> continuation_ok s' c"
  shows "sys_inv s'"
proof -
  note I = sys_invD[OF inv]
  have ch: "calls_change now (sy_used s) (sy_do s) (sy_do s')" for now
    using core by (intro calls_change_refl) (simp add: same_core_def)
  have "continuation_ok s' c" if "c \<in> set (sy_pending s')" for c
    using old that I(4) continuation_kept[OF _ ch refl] u log by auto
  then show ?thesis using do_inv_core[OF core] I(1) u ob al ev by (simp add: sys_inv_def)
qed

lemma insert_event_distinct:
  "distinct (map ai_event_key ev) \<Longrightarrow> distinct (map ai_event_key (insert_event ev i))"
  by (auto simp: insert_event_def list_ex_iff)

lemma drop_oldest_set: "set (map f (drop_oldest n org ev)) \<subseteq> set (map f ev)"
  by (induction n org ev rule: drop_oldest.induct) auto

lemma drop_oldest_distinct:
  "distinct (map f ev) \<Longrightarrow> distinct (map f (drop_oldest n org ev))"
proof (induction n org ev rule: drop_oldest.induct)
  case (2 n org e es)
  then show ?case using drop_oldest_set[of f n org es] by auto
qed simp

lemma d1_batch_distinct:
  assumes "distinct (map ai_event_key ev)"
  shows "distinct (map ai_event_key (d1_batch ev ps))"
proof -
  have "distinct (map ai_event_key (foldl insert_event ev xs))" for xs
    using assms by (induction xs arbitrary: ev) (auto intro: insert_event_distinct)
  moreover have "distinct (map ai_event_key (foldl trim_org e os))" if "distinct (map ai_event_key e)" for e os
    using that by (induction os arbitrary: e) (auto simp: trim_org_def intro: drop_oldest_distinct)
  ultimately show ?thesis by (simp add: d1_batch_def)
qed

lemma flush_pending_keys:
  assumes "outbox_inv st" "(k, i) \<in> set (flush_pending st)"
  shows "k = audit_outbox_key i" "kv_get (d_outbox st) k = Some i"
proof -
  have "(k, i) \<in> set (kv_entries (d_outbox st))"
    using assms(2) by (auto simp: flush_pending_def kv_list_limit_def dest: in_set_takeD)
  then show "kv_get (d_outbox st) k = Some i" using assms(1) kv.get_entries[of "d_outbox st" k i] by (simp add: outbox_inv_def)
  then show "k = audit_outbox_key i" using assms(1) unfolding outbox_inv_def by blast
qed

lemma listener_used:
  assumes "do_inv used st" "listener_txn now st att frame = (st', LrTerminal rec t)"
  shows "tk_call_id t \<in> used" "\<And>v. get_call st' (tk_call_id t) = Some v \<Longrightarrow> \<not> waiting v"
proof -
  obtain p where g: "get_call st (lf_call_id frame) = Some p" "\<not> task_is_terminal p"
    and n: "t = canceled_by_listener now p \<or> t = rejected_by_listener now p \<or> (\<exists>x r e. t = finished_by_listener now p x r e)"
    and st': "\<exists>x. st' = persist_txn now st t x"
    using assms(2)
    by (auto simp: listener_txn_def Let_def split: option.splits if_splits listener_body.splits prod.splits)
  note P = do_inv_parts[OF assms(1)]
  note T = terminal_frame_facts[OF store_inv_get(4)[OF P(1) g(1)] g(2) n]
  have id: "tk_call_id t = tk_call_id p" "tk_call_id p \<in> used"
    using T(1) store_inv_get[OF P(1) g(1)] by (simp_all add: same_origin_def)
  then show "tk_call_id t \<in> used" by simp
  fix v assume v: "get_call st' (tk_call_id t) = Some v"
  obtain x where "st' = persist_txn now st t x" using st' by blast
  then have "task_step st p (persisted_task p t) st'" using terminal_frame_step[OF assms(1) g n] by simp
  then have "v = persisted_task p t"
    using task_step_get[OF _ store_inv_wf(1)[OF P(1)]] v id by auto
  then have "task_is_terminal v" "durable v \<Longrightarrow> tk_delivery_state v = Some Terminal"
    using T(2,3) same_origin_durable[OF T(1)] by (simp_all add: persisted_task_def durable_def task_is_terminal_def split: if_splits)
  then show "\<not> waiting v" by (auto simp: waiting_def durable_def)
qed

text \<open>Every step keeps the invariant.\<close>

lemma intent_some: "tk_org t \<noteq> [] \<Longrightarrow> tk_to t \<noteq> [] \<Longrightarrow> call_audit_intent e t a ty so at \<noteq> None"
  by (simp add: call_audit_intent_def)

lemma flush_end_inv:
  assumes "outbox_inv st"
  shows "outbox_inv (flush_end now st keys)" "same_core st (flush_end now st keys)"
  using assms schedule_fields(3)[of now "st\<lparr>d_outbox := kv_del_all keys (d_outbox st)\<rparr>"]
    schedule_fields(2)[of "st\<lparr>d_outbox := kv_del_all keys (d_outbox st)\<rparr>" now]
  by (auto simp: flush_end_def outbox_inv_def same_core_def split: if_splits)

lemma alarm_inv_flush_end:
  assumes "alarm_inv s" "sy_do s' = flush_end now (sy_do s) keys" "CAlarm \<in> set (sy_pending s) \<longrightarrow> CAlarm \<in> set (sy_pending s')"
  shows "alarm_inv s'"
proof -
  let ?st = "(sy_do s)\<lparr>d_outbox := kv_del_all keys (d_outbox (sy_do s))\<rparr>"
  have e: "kv_del_all keys [] = []" by (simp add: kv_del_all_def)
  show ?thesis
    using assms schedule_fields(3,4)[of now ?st] schedule_fields(5)[of ?st now] e by (auto simp: alarm_inv_def flush_end_def)
qed

lemma sys_step_inv:
  assumes inv: "sys_inv s" and step: "sys_step now s s'"
  shows "sys_inv s'"
proof -
  note I = sys_invD[OF inv] and D = sys_invD(1,2)[OF inv]
  show ?thesis
    using step
  proof cases
    case (sync_submit att i t frame)
    have t: "tk_call_id t = i" "\<not> durable t" "\<not> task_is_terminal t" "tk_org t \<noteq> []" "tk_to t \<noteq> []"
      using sync_submit by (simp_all add: ringing_task_def Let_def durable_def task_is_terminal_def terminal_task_states_def caller_ok_def)
    have ok: "task_ok t" using sync_submit ringing_task_ok by simp
    show ?thesis
      using txn_sys_inv[OF inv txn_submit[OF D _ _ ok t(2,3) intent_some[OF t(4,5)]], of s'] sync_submit t by simp
  next
    case (admit att frame i t digest)
    have t: "tk_call_id t = i" "tk_delivery_state t = Some Queued" "tk_org t \<noteq> []" "tk_to t \<noteq> []"
      using admit by (simp_all add: queued_task_def Let_def caller_ok_def)
    have ok: "task_ok t" using admit queued_task_ok by (simp add: caller_ok_def)
    show ?thesis
      using txn_sys_inv[OF inv txn_admit[OF D _ _ ok t(2) intent_some[OF t(3,4)]], of s'] admit t by simp
  next
    case (listener_frame att frame st' r)
    have "continuation_ok s' c" if "c \<in> set (frame_continuation r)" for c
      using that listener_used[OF D(1)] listener_frame by (cases r) auto
    then show ?thesis
      using txn_sys_inv[OF inv txn_listener[OF D, of now now att frame], of s'] listener_frame by auto
  next
    case (finish t)
    have "\<not> waiting v" if "get_call (sy_do s) (tk_call_id t) = Some v" for v
      using I(4)[OF finish(2)] that by simp
    then show ?thesis
      using txn_sys_inv[OF inv txn_finish[OF D, of t now], of s'] finish by (auto dest: notin_set_remove1)
  next
    case (rebind i p l session)
    then show ?thesis using txn_sys_inv[OF inv txn_rebind[OF D, of i p now now l session], of s'] by simp
  next
    case (refuse_authority i t)
    have "continuation_ok s' (CRevoke t)"
      using refuse_authority store_inv_get(1,2)[OF do_inv_parts(1)[OF D(1)] refuse_authority(2)] by simp
    then show ?thesis
      using txn_sys_inv[OF inv txn_ok_refl[OF D, of now], of s'] refuse_authority by auto
  next
    case (revoke t)
    have "same_origin v t" if "get_call (sy_do s) (tk_call_id t) = Some v" for v
      using I(4)[OF revoke(2)] that by simp
    then show ?thesis
      using txn_sys_inv[OF inv txn_revoke[OF D, of t now now], of s'] revoke by (auto dest: notin_set_remove1)
  next
    case (prune_starts starts)
    then show ?thesis
      using core_sys_inv[OF inv, of s'] I by (simp add: same_core_def outbox_inv_def alarm_inv_def)
  next
    case (lease l session ms)
    then show ?thesis using txn_sys_inv[OF inv txn_lease[OF D, of now now l session ms], of s'] by simp
  next
    case (cancel i)
    then show ?thesis using txn_sys_inv[OF inv txn_cancel[OF D, of now now i], of s'] by simp
  next
    case (recover i)
    then show ?thesis using txn_sys_inv[OF inv txn_recover[OF D, of now now i], of s'] by simp
  next
    case (expire key)
    then show ?thesis
      using txn_sys_inv[OF inv txn_expire[OF D, of now "snd key"], of s'] expire_due_eq[OF D(1) expire(2)] by simp
  next
    case flush_begin
    have "continuation_ok s' (CFlush (flush_pending (sy_do s)))"
      using flush_pending_keys[OF D(2)] by auto
    then show ?thesis
      using txn_sys_inv[OF inv txn_ok_refl[OF D, of now], of s'] flush_begin by auto
  next
    case (d1_commit ps)
    have "continuation_ok s' (CFlushed ps)" using I(4)[OF d1_commit(2)] d1_commit(1) by (force intro: rev_image_eqI)
    moreover have "alarm_inv s'" using I(3) d1_commit by (auto simp: alarm_inv_def)
    ultimately show ?thesis
      using core_sys_inv[OF inv, of s'] d1_commit I d1_batch_distinct[OF I(5), of "map snd ps"]
      by (auto dest: in_set_remove1 notin_set_remove1)
  next
    case (flush_ok ps)
    have "CAlarm \<in> set (sy_pending s) \<longrightarrow> CAlarm \<in> set (sy_pending s')" using flush_ok by auto
    then have "alarm_inv s'" using alarm_inv_flush_end[OF I(3), of s' now "map fst ps"] flush_ok by simp
    then show ?thesis
      using core_sys_inv[OF inv, of s'] flush_ok I flush_end_inv[OF D(2), of now "map fst ps"]
      by (auto dest: notin_set_remove1)
  next
    case (flush_error c ps)
    then show ?thesis
      using core_sys_inv[OF inv, of s'] I
      by (auto simp: same_core_def outbox_inv_def alarm_inv_def flush_failed_def dest: notin_set_remove1)
  next
    case alarm_fires
    then show ?thesis
      using core_sys_inv[OF inv, of s'] I by (auto simp: same_core_def outbox_inv_def alarm_inv_def)
  next
    case alarm_ends
    have "alarm_inv s'"
      using schedule_arms[of "sy_do s" now] schedule_fields(3,4)[of now "sy_do s"] alarm_ends
      by (auto simp: alarm_inv_def)
    then show ?thesis
      using core_sys_inv[OF inv, of s'] I schedule_fields(2)[of "sy_do s" now] schedule_fields(3)[of now "sy_do s"] alarm_ends
      by (auto simp: outbox_inv_def dest: notin_set_remove1)
  next
    case (alarm_retried again)
    then show ?thesis
      using core_sys_inv[OF inv, of s'] I
      by (auto simp: same_core_def outbox_inv_def alarm_inv_def dest: notin_set_remove1)
  next
    case reschedule
    have "alarm_inv s'"
      using schedule_arms[of "sy_do s" now] schedule_fields(3,4)[of now "sy_do s"] reschedule
      by (auto simp: alarm_inv_def)
    then show ?thesis
      using core_sys_inv[OF inv, of s'] I schedule_fields(2)[of "sy_do s" now] schedule_fields(3)[of now "sy_do s"] reschedule
      by (auto simp: outbox_inv_def)
  next
    case (arm at)
    then show ?thesis
      using core_sys_inv[OF inv, of s'] I arm_at_core[of "sy_do s" at] arm_at_fields[of at "sy_do s"]
      by (auto simp: outbox_inv_def alarm_inv_def)
  next
    case (rate r)
    then show ?thesis
      using core_sys_inv[OF inv, of s'] I by (simp add: same_core_def outbox_inv_def alarm_inv_def)
  next
    case (raise_floor key generation)
    then show ?thesis
      using core_sys_inv[OF inv, of s'] I by (simp add: same_core_def outbox_inv_def alarm_inv_def keep_floor_def)
  next
    case (crash c)
    have "CAlarm \<in> set (sy_pending s) \<longrightarrow> CAlarm \<in> set (sy_pending s')" using crash by auto
    then have "alarm_inv s'" using I(3) crash by (auto simp: alarm_inv_def)
    then show ?thesis
      using core_sys_inv[OF inv, of s'] I crash by (auto dest: notin_set_remove1)
  qed
qed

text \<open>What a step does to the stored tasks and to the outbox.\<close>

definition sys_effect :: "int \<Rightarrow> system \<Rightarrow> system \<Rightarrow> bool" where
  "sys_effect now s s' =
     (calls_change now (sy_used s) (sy_do s) (sy_do s') \<and> sy_used s \<subseteq> sy_used s' \<and> sy_logged s \<subseteq> sy_logged s' \<and>
      (\<forall>k i. kv_get (d_outbox (sy_do s)) k = Some i \<longrightarrow>
         kv_get (d_outbox (sy_do s')) k \<noteq> None \<or> ai_event_key i \<in> sy_logged s'))"

lemma txn_effect:
  assumes "txn_ok now (sy_used s) (sy_do s) used' st'" "sy_do s' = st'" "sy_used s' = used'" "sy_logged s \<subseteq> sy_logged s'"
  shows "sys_effect now s s'"
  using assms unfolding sys_effect_def txn_ok_def outbox_grows_def by blast

lemma core_effect:
  assumes "d_calls (sy_do s') = d_calls (sy_do s)" "d_outbox (sy_do s') = d_outbox (sy_do s)" "sy_used s \<subseteq> sy_used s'"
    "sy_logged s \<subseteq> sy_logged s'"
  shows "sys_effect now s s'"
  using assms calls_change_refl[of "sy_do s'" "sy_do s" now "sy_used s"] by (auto simp: sys_effect_def)

lemma flush_ok_effect:
  assumes inv: "sys_inv s" and p: "CFlushed ps \<in> set (sy_pending s)"
    and s': "sy_do s' = flush_end now (sy_do s) (map fst ps)" "sy_used s' = sy_used s" "sy_logged s' = sy_logged s"
  shows "sys_effect now s s'"
proof -
  note I = sys_invD[OF inv]
  have logged: "ai_event_key i \<in> sy_logged s" if g: "kv_get (d_outbox (sy_do s)) k = Some i" and m: "k \<in> set (map fst ps)" for k i
  proof -
    obtain j where j: "(k, j) \<in> set ps" using m by auto
    have "k = audit_outbox_key j" "ai_event_key j \<in> sy_logged s" using I(4)[OF p] j by auto
    moreover have "k = audit_outbox_key i" using I(2) g unfolding outbox_inv_def by blast
    ultimately show ?thesis by (simp add: audit_outbox_key_def)
  qed
  have "d_calls (sy_do s') = d_calls (sy_do s)"
    "d_outbox (sy_do s') = kv_del_all (map fst ps) (d_outbox (sy_do s))"
    using s'(1) schedule_fields(1,3) by (simp_all add: flush_end_def)
  then show ?thesis
    using logged s' calls_change_refl[of "sy_do s'" "sy_do s" now "sy_used s"] by (auto simp: sys_effect_def)
qed

lemma sys_step_effect:
  assumes inv: "sys_inv s" and step: "sys_step now s s'"
  shows "sys_effect now s s'"
proof -
  note I = sys_invD[OF inv] and D = sys_invD(1,2)[OF inv]
  show ?thesis
    using step
  proof cases
    case (sync_submit att i t frame)
    have t: "tk_call_id t = i" "\<not> durable t" "\<not> task_is_terminal t" "tk_org t \<noteq> []" "tk_to t \<noteq> []"
      using sync_submit by (simp_all add: ringing_task_def Let_def durable_def task_is_terminal_def terminal_task_states_def caller_ok_def)
    have ok: "task_ok t" using sync_submit ringing_task_ok by simp
    show ?thesis
      using txn_effect[OF txn_submit[OF D _ _ ok t(2,3) intent_some[OF t(4,5)]], of s'] sync_submit t by simp
  next
    case (admit att frame i t digest)
    have t: "tk_call_id t = i" "tk_delivery_state t = Some Queued" "tk_org t \<noteq> []" "tk_to t \<noteq> []"
      using admit by (simp_all add: queued_task_def Let_def caller_ok_def)
    have ok: "task_ok t" using admit queued_task_ok by (simp add: caller_ok_def)
    show ?thesis
      using txn_effect[OF txn_admit[OF D _ _ ok t(2) intent_some[OF t(3,4)]], of s'] admit t by simp
  next
    case (listener_frame att frame st' r)
    then show ?thesis using txn_effect[OF txn_listener[OF D, of now now att frame], of s'] by simp
  next
    case (finish t)
    have "\<not> waiting v" if "get_call (sy_do s) (tk_call_id t) = Some v" for v
      using I(4)[OF finish(2)] that by simp
    then show ?thesis using txn_effect[OF txn_finish[OF D, of t now], of s'] finish by simp
  next
    case (rebind i p l session)
    then show ?thesis using txn_effect[OF txn_rebind[OF D, of i p now now l session], of s'] by simp
  next
    case (revoke t)
    have "same_origin v t" if "get_call (sy_do s) (tk_call_id t) = Some v" for v
      using I(4)[OF revoke(2)] that by simp
    then show ?thesis using txn_effect[OF txn_revoke[OF D, of t now now], of s'] revoke by simp
  next
    case (lease l session ms)
    then show ?thesis using txn_effect[OF txn_lease[OF D, of now now l session ms], of s'] by simp
  next
    case (cancel i)
    then show ?thesis using txn_effect[OF txn_cancel[OF D, of now now i], of s'] by simp
  next
    case (recover i)
    then show ?thesis using txn_effect[OF txn_recover[OF D, of now now i], of s'] by simp
  next
    case (expire key)
    then show ?thesis
      using txn_effect[OF txn_expire[OF D, of now "snd key"], of s'] expire_due_eq[OF D(1) expire(2)] by simp
  next
    case (flush_ok ps)
    then show ?thesis using flush_ok_effect[OF inv, of ps s' now] by simp
  next
    case (arm at)
    then show ?thesis using arm_at_core[of "sy_do s" at] arm_at_fields[of at "sy_do s"]
      by (intro core_effect) (simp_all add: same_core_def)
  next
    case (raise_floor key generation)
    then show ?thesis by (intro core_effect) (simp_all add: keep_floor_def)
  next
    case (flush_error c ps)
    then show ?thesis by (intro core_effect) (simp_all add: flush_failed_def)
  qed (auto intro!: core_effect simp: schedule_fields(1,3))
qed

end
