(* ===== verification/MailboxSafety.thy ===== *)
theory MailboxSafety
  imports MailboxSystem
begin

text \<open>
  What holds in every reachable state of a mailbox, whatever the interleaving of callers,
  listeners, alarms, D1 replies and crashes.
\<close>

definition mailbox_reachable :: "system \<Rightarrow> bool" where
  "mailbox_reachable = reach (\<lambda>s. s = empty_system) (\<lambda>s s'. \<exists>now. sys_step now s s')"

lemma sys_inv_empty: "sys_inv empty_system"
proof -
  have "outbox_inv empty_do_state" by (simp add: outbox_inv_def empty_do_state_def)
  then show ?thesis
    using do_inv_empty by (simp add: sys_inv_def empty_system_def alarm_inv_def empty_do_state_def)
qed

interpretation mailbox: inductive_invariant "\<lambda>s. s = empty_system" "\<lambda>s s'. \<exists>now. sys_step now s s'" sys_inv
  using sys_inv_empty sys_step_inv by unfold_locales auto

lemma reachable_inv: "mailbox_reachable s \<Longrightarrow> sys_inv s"
  unfolding mailbox_reachable_def by (rule mailbox.reach_inv)

lemma reachable_do_inv:
  assumes "mailbox_reachable s"
  shows "do_inv (sy_used s) (sy_do s)" "outbox_inv (sy_do s)"
  using sys_invD(1,2)[OF reachable_inv[OF assms]] .

lemma reachable_parts:
  assumes "mailbox_reachable s"
  shows "store_inv (sy_used s) (sy_do s)" "quota_inv (sy_do s)" "queue_inv (sy_used s) (sy_do s)" "due_inv (sy_do s)"
    "active_inv (sy_used s) (sy_do s)" "dedupe_inv (sy_do s)"
  using do_inv_parts[OF reachable_do_inv(1)[OF assms]] .

lemma reachable_empty: "mailbox_reachable empty_system"
  unfolding mailbox_reachable_def by (rule reach_init) simp

lemma reachable_step: "mailbox_reachable s \<Longrightarrow> sys_step now s s' \<Longrightarrow> mailbox_reachable s'"
  unfolding mailbox_reachable_def by (rule reach_step) auto

subsection \<open>A mailbox with one leased task\<close>

definition mb_envelope :: envelope where
  "mb_envelope = \<lparr>en_direction = Request, en_relay_origin = ''https://r'', en_from = ''@acme/ann'', en_to = ''@acme/bob'',
     en_key_id = ''k'', en_epoch = 1, en_enc = ''e'', en_ct = ''c''\<rparr>"

definition mb_caller :: caller_attachment where
  "mb_caller = \<lparr>ca_principal = \<lparr>pr_organization = ''acme'', pr_participant = ''ann'', pr_credential_generation = 0\<rparr>,
     ca_from = ''ann'', ca_org = ''acme'', ca_to = ''bob'', ca_source = no_source, ca_relay_origin = ''https://r'',
     ca_call_id = None, ca_correlation_id = None, ca_timeout_ms = None, ca_credential_generation = None,
     ca_from_agent_id = ''A1'', ca_target_agent_id = ''B1'', ca_mailbox_enabled = True, ca_caller_blocked = False\<rparr>"

definition mb_frame :: call_request where
  "mb_frame = \<lparr>cr_envelope = mb_envelope, cr_message_id = Some ''m1'', cr_delivery_mode = Some Durable,
     cr_correlation_id = ''x1'', cr_traceparent = None\<rparr>"

definition mb_task :: task where
  "mb_task = queued_task 1000 mb_caller mb_frame ''digest'' ''c1''"

definition mb_admitted :: system where
  "mb_admitted = empty_system\<lparr>sy_do := fst (admit_txn 1000 (sy_do empty_system) mb_task
      (call_audit_intent EvSubmit mb_task (ca_from mb_caller) HandleActor (ca_source mb_caller) 1000)),
    sy_used := insert ''c1'' {}\<rparr>"

definition mb_leased :: system where
  "mb_leased = mb_admitted\<lparr>sy_do := fst (lease_txn 2000 (sy_do mb_admitted) ''l1'' ''s1'' None)\<rparr>"

definition mb_leased_task :: task where
  "mb_leased_task = leased_task 2000 (next_lease 2000 ''l1'' ''s1'' None mb_task) mb_task"

lemma mb_admitted_reachable: "mailbox_reachable mb_admitted"
proof -
  have "sys_step 1000 empty_system mb_admitted"
    using admit[of mb_caller mb_frame "''c1''" empty_system mb_task 1000 "''digest''"]
    by (simp add: mb_admitted_def mb_task_def caller_ok_def mb_caller_def mb_frame_def empty_system_def)
  then show ?thesis using reachable_step[OF reachable_empty] by blast
qed

lemma mb_leased_reachable: "mailbox_reachable mb_leased"
  using reachable_step[OF mb_admitted_reachable lease[of 2000 mb_admitted "''l1''" "''s1''" None]]
  by (simp add: mb_leased_def)

lemma mb_envelope_bytes: "envelope_bytes mb_envelope = 134"
  by (simp add: envelope_bytes_def envelope_json_def mb_envelope_def json_field_def json_text_def js_number_string_def
      dec_string.simps)

lemma mb_task_fields:
  "tk_call_id mb_task = ''c1''" "tk_created_at mb_task = 1000" "tk_from_agent_id mb_task = Some ''A1''"
  "tk_message_id mb_task = Some ''m1''" "tk_delivery_state mb_task = Some Queued" "tk_quota_released mb_task = False"
  "tk_request_envelope_sha256 mb_task = Some ''digest''" "tk_ciphertext_bytes mb_task = Some 134"
  "tk_deadline mb_task = 259201000" "tk_execute_by mb_task = Some 259201000" "tk_purge_at mb_task = Some 345601000"
  "tk_org mb_task = ''acme''" "tk_to mb_task = ''bob''" "tk_from mb_task = ''ann''" "tk_task_state mb_task = TsSubmitted"
  "tk_lease mb_task = None" "tk_state mb_task = Ringing" "tk_terminal_reason mb_task = None"
  "tk_request_envelope mb_task = Some mb_envelope" "tk_outcome_envelope mb_task = None"
  by (simp_all add: mb_task_def queued_task_def Let_def mb_caller_def mb_frame_def mb_envelope_bytes
      MAILBOX_TTL_MS_def MAILBOX_TOMBSTONE_TTL_MS_def)

lemma mb_admitted_fields:
  "d_calls (sy_do mb_admitted) = [(''c1'', mb_task)]" "d_queue (sy_do mb_admitted) = [((1000, ''c1''), ''c1'')]"
  "d_active (sy_do mb_admitted) = None" "d_outstanding (sy_do mb_admitted) = Some 1"
  "d_dedupe (sy_do mb_admitted) = [((''A1'', ''m1''), \<lparr>dr_call_id = ''c1'', dr_request_envelope_sha256 = ''digest'', dr_purge_at = 345601000\<rparr>)]"
  "d_due (sy_do mb_admitted) = [((259201000, ''c1''), ''c1'')]" "length (d_outbox (sy_do mb_admitted)) = 1"
  by (simp_all add: mb_admitted_def admit_txn_def empty_system_def empty_do_state_def Let_def task_dedupe_key_def
      mb_task_fields core_fields put_call_def due_put_def task_queue_key_def task_due_key_def put_intent_def
      call_audit_intent_def arm_audit_retry_def arm_at_def
      MAILBOX_MAX_QUEUED_TASKS_def MAILBOX_MAX_OUTSTANDING_PER_CALLER_def MAILBOX_MAX_STORED_CIPHERTEXT_BYTES_def)

lemma mb_leased_fields:
  "d_calls (sy_do mb_leased) = [(''c1'', mb_leased_task)]" "d_active (sy_do mb_leased) = Some ''c1''"
  "d_dedupe (sy_do mb_leased) = d_dedupe (sy_do mb_admitted)" "d_outbox (sy_do mb_leased) = d_outbox (sy_do mb_admitted)"
  "get_call (sy_do mb_leased) ''c1'' = Some mb_leased_task"
  by (simp_all add: mb_leased_def lease_txn_def mb_admitted_fields kv_first_def kv_list_limit_def kv_entries_def
      get_call_def kv_get_def mb_task_fields task_is_terminal_def terminal_task_states_def core_fields Let_def
      mb_leased_task_def arm_at_fields)

lemma mb_leased_task_fields:
  "tk_delivery_state mb_leased_task = Some Leased" "durable mb_leased_task" "\<not> task_is_terminal mb_leased_task"
  "tk_lease mb_leased_task = Some \<lparr>ls_lease_id = ''l1'', ls_listener_session_id = ''s1'', ls_expires_at = 32000, ls_attempt = 1\<rparr>"
  by (simp_all add: mb_leased_task_def leased_task_def next_lease_def DELIVERY_LEASE_MS_def durable_def
      task_is_terminal_def mb_task_fields terminal_task_states_def)

subsection \<open>Reading the invariant\<close>

definition stored_tasks :: "do_state \<Rightarrow> task list" where
  "stored_tasks st = map snd (d_calls st)"

definition outstanding_task :: "task \<Rightarrow> bool" where
  "outstanding_task t = (durable t \<and> \<not> task_is_terminal t)"

lemma sum_list_indicator: "sum_list (map (\<lambda>e. if P (snd e) then 1 else (0::int)) xs) = int (length (filter P (map snd xs)))"
  by (induction xs) auto

lemma stored_iff:
  assumes "mailbox_reachable s"
  shows "t \<in> set (stored_tasks (sy_do s)) \<longleftrightarrow> (\<exists>i. get_call (sy_do s) i = Some t)"
proof -
  have "kv_wf (d_calls (sy_do s))" using store_inv_wf(1)[OF reachable_parts(1)[OF assms]] .
  then show ?thesis
    using kv.get_entries[of "d_calls (sy_do s)"] by (force simp: stored_tasks_def get_call_def kv_entries_def)
qed

lemma stored_ok:
  assumes "mailbox_reachable s" "t \<in> set (stored_tasks (sy_do s))"
  shows "task_ok t" "get_call (sy_do s) (tk_call_id t) = Some t"
  using assms stored_iff[OF assms(1)] store_inv_get[OF reachable_parts(1)[OF assms(1)]] by auto

lemma holds_quota_iff: "task_ok t \<Longrightarrow> holds_quota t = (if outstanding_task t then 1 else 0)"
  using durable_ok(8,9)[of t] by (auto simp: holds_quota_def outstanding_task_def)

lemma total_indicator:
  assumes "mailbox_reachable s" "\<And>t. task_ok t \<Longrightarrow> f t = (if P t then 1 else (0::int))"
  shows "kv.total f (d_calls (sy_do s)) = int (length (filter P (stored_tasks (sy_do s))))"
proof -
  have "f (snd e) = (if P (snd e) then 1 else 0)" if "e \<in> set (d_calls (sy_do s))" for e
    using that assms(2) stored_ok(1)[OF assms(1)] by (force simp: stored_tasks_def)
  then have "map (\<lambda>e. f (snd e)) (d_calls (sy_do s)) = map (\<lambda>e. if P (snd e) then 1 else 0) (d_calls (sy_do s))" by auto
  then show ?thesis by (simp only: kv.total_def kv_entries_def sum_list_indicator stored_tasks_def)
qed

subsection \<open>Properties\<close>

text \<open>
  C1: In every reachable state the quota counters are exact: the outstanding counter is the
  number of stored durable tasks that are not terminal, each caller's counter the number of
  those that are its own, and the byte counter the sum of the stored ciphertext sizes. The
  mailbox never holds more than 100 outstanding tasks, nor more than 10 of one caller.
\<close>

theorem quota_counters_exact:
  assumes "mailbox_reachable s"
  shows "or_default (d_outstanding (sy_do s)) 0 = int (length (filter outstanding_task (stored_tasks (sy_do s)))) \<and>
    (\<forall>a. or_default (kv_get (d_caller_outstanding (sy_do s)) a) 0 =
       int (length (filter (\<lambda>t. outstanding_task t \<and> tk_from_agent_id t = Some a) (stored_tasks (sy_do s))))) \<and>
    or_default (d_ciphertext_bytes (sy_do s)) 0 =
      sum_list (map (\<lambda>t. or_default (tk_ciphertext_bytes t) 0) (stored_tasks (sy_do s))) \<and>
    length (filter outstanding_task (stored_tasks (sy_do s))) \<le> 100 \<and>
    (\<forall>a. length (filter (\<lambda>t. outstanding_task t \<and> tk_from_agent_id t = Some a) (stored_tasks (sy_do s))) \<le> 10)"
proof -
  note q = reachable_parts(2)[OF assms]
  have tot: "kv.total holds_quota (d_calls (sy_do s)) = int (length (filter outstanding_task (stored_tasks (sy_do s))))"
    by (intro total_indicator[OF assms] holds_quota_iff)
  have cal: "kv.total (caller_quota a) (d_calls (sy_do s)) =
      int (length (filter (\<lambda>t. outstanding_task t \<and> tk_from_agent_id t = Some a) (stored_tasks (sy_do s))))" for a
    by (intro total_indicator[OF assms]) (simp add: caller_quota_def holds_quota_iff)
  have byt: "kv.total stored_bytes (d_calls (sy_do s)) =
      sum_list (map (\<lambda>t. or_default (tk_ciphertext_bytes t) 0) (stored_tasks (sy_do s)))"
    by (simp add: kv.total_def kv_entries_def stored_bytes_def stored_tasks_def comp_def)
  have Q: "or_default (d_outstanding (sy_do s)) 0 = kv.total holds_quota (d_calls (sy_do s))"
    "or_default (kv_get (d_caller_outstanding (sy_do s)) a) 0 = kv.total (caller_quota a) (d_calls (sy_do s))"
    "or_default (d_ciphertext_bytes (sy_do s)) 0 = kv.total stored_bytes (d_calls (sy_do s))" for a
    using q unfolding quota_inv_def by blast+
  show ?thesis
    using quota_caps(1)[OF q] quota_caps(2)[OF q] unfolding Q tot cal byt
    by (simp add: MAILBOX_MAX_QUEUED_TASKS_def MAILBOX_MAX_OUTSTANDING_PER_CALLER_def)
qed

theorem quota_counters_exact_witness:
  "or_default (d_outstanding (sy_do mb_admitted)) 0 = 1 \<and>
   length (filter outstanding_task (stored_tasks (sy_do mb_admitted))) \<le> 100"
  using quota_counters_exact[OF mb_admitted_reachable] by (simp add: mb_admitted_fields)

text \<open>
  C2: A stored task never changes behind its parties' back. In one step a terminal task
  keeps its state and reason (only its result may be dropped), a live one keeps its
  identity and never moves its phase backward, and a task leaves the store only when its
  deadline has passed and, for a durable task, it is terminal and its tombstone time is over.
\<close>

theorem stored_task_history:
  assumes "mailbox_reachable s" "sys_step now s s'" "get_call (sy_do s) i = Some t"
  shows "case get_call (sy_do s') i of
      None \<Rightarrow> may_leave now t
    | Some u \<Rightarrow> evolves t u \<and> (waiting u \<longrightarrow> waiting t)"
  using sys_step_effect[OF reachable_inv[OF assms(1)] assms(2)] assms(3)
  unfolding sys_effect_def calls_change_def by (auto dest!: spec[of _ i])

theorem stored_task_history_witness:
  "case get_call (sy_do mb_leased) ''c1'' of None \<Rightarrow> may_leave 2000 mb_task
   | Some u \<Rightarrow> evolves mb_task u \<and> (waiting u \<longrightarrow> waiting mb_task)"
proof -
  have "sys_step 2000 mb_admitted mb_leased"
    using lease[of 2000 mb_admitted "''l1''" "''s1''" None] by (simp add: mb_leased_def)
  then show ?thesis
    using stored_task_history[OF mb_admitted_reachable, of 2000 mb_leased "''c1''" mb_task]
    by (simp add: get_call_def kv_get_def mb_admitted_fields)
qed

text \<open>
  C8: No accepted task is ever lost. Every stored task has exactly one due entry, at its
  deadline, a queued or leased one also has its queue entry, every due entry belongs to a
  stored task, and while anything is stored or unsent the alarm is armed or its handler is
  running.
\<close>

theorem no_task_lost:
  assumes "mailbox_reachable s" "get_call (sy_do s) i = Some t"
  shows "(\<forall>d. kv_get (d_due (sy_do s)) (d, i) = (if d = tk_deadline t then Some i else None)) \<and>
    (waiting t \<longrightarrow> kv_get (d_queue (sy_do s)) (tk_created_at t, i) = Some i) \<and>
    (d_alarm (sy_do s) \<noteq> None \<or> CAlarm \<in> set (sy_pending s))"
proof -
  note P = reachable_parts[OF assms(1)] and I = reachable_inv[OF assms(1)]
  have "kv_get (d_due (sy_do s)) (d, i) = (if d = tk_deadline t then Some i else None)" for d
  proof (cases "kv_get (d_due (sy_do s)) (d, i)")
    case None
    then show ?thesis using P(4) assms(2) by (auto simp: due_inv_def)
  next
    case (Some v)
    then show ?thesis using due_entry[OF P(4) Some] assms(2) by auto
  qed
  moreover have "waiting t \<longrightarrow> kv_get (d_queue (sy_do s)) (tk_created_at t, i) = Some i"
    using P(3) assms(2) unfolding queue_inv_def by blast
  moreover have "d_alarm (sy_do s) \<noteq> None \<or> CAlarm \<in> set (sy_pending s)"
    using sys_invD(3)[OF I] call_due[OF sys_invD(1)[OF I] assms(2)] by (auto simp: alarm_inv_def)
  ultimately show ?thesis by blast
qed

theorem no_task_lost_witness:
  "kv_get (d_due (sy_do mb_leased)) (tk_deadline mb_leased_task, ''c1'') = Some ''c1'' \<and>
   ((\<exists>at. d_alarm (sy_do mb_leased) = Some at) \<or> CAlarm \<in> set (sy_pending mb_leased))"
  using no_task_lost[OF mb_leased_reachable mb_leased_fields(5)] by auto

text \<open>
  C9: One message, one task. Two stored durable tasks of the same caller and message id are
  the same task, and the deduplication record of a stored durable task exists, points to it
  and keeps the digest of the request it was admitted with, for as long as it is stored.
\<close>

theorem dedupe_exactly_once:
  assumes "mailbox_reachable s" "get_call (sy_do s) i = Some t" "durable t"
  shows "(\<exists>r. kv_get (d_dedupe (sy_do s)) (task_dedupe_key t) = Some r \<and> dr_call_id r = i \<and>
        Some (dr_request_envelope_sha256 r) = tk_request_envelope_sha256 t \<and> Some (dr_purge_at r) = tk_purge_at t) \<and>
    (\<forall>j u. get_call (sy_do s) j = Some u \<and> durable u \<and> tk_from_agent_id u = tk_from_agent_id t \<and>
        tk_message_id u = tk_message_id t \<longrightarrow> j = i)"
proof -
  note d = reachable_parts(6)[OF assms(1)]
  obtain r where r: "kv_get (d_dedupe (sy_do s)) (task_dedupe_key t) = Some r" "dr_call_id r = i"
    using dedupe_task[OF d assms(2,3)] by blast
  obtain a m where k: "task_dedupe_key t = (a, m)" by (cases "task_dedupe_key t")
  have "Some (dr_request_envelope_sha256 r) = tk_request_envelope_sha256 t" "Some (dr_purge_at r) = tk_purge_at t"
    using dedupe_entry[OF d r(1)[unfolded k]] r(2) assms(2) by auto
  moreover have "j = i" if "get_call (sy_do s) j = Some u" "durable u" "tk_from_agent_id u = tk_from_agent_id t"
    "tk_message_id u = tk_message_id t" for j u
    using dedupe_task[OF d that(1,2)] that(3,4) r by (auto simp: task_dedupe_key_def)
  ultimately show ?thesis using r by blast
qed

theorem dedupe_exactly_once_witness:
  "\<exists>r. kv_get (d_dedupe (sy_do mb_leased)) (task_dedupe_key mb_leased_task) = Some r \<and> dr_call_id r = ''c1''"
  using dedupe_exactly_once[OF mb_leased_reachable mb_leased_fields(5) mb_leased_task_fields(2)] by blast

text \<open>
  A retry is idempotent. While a durable task is stored, admitting another task with its
  caller and message id changes nothing: the same request is answered with the stored task,
  a different request is a conflict.
\<close>

theorem admission_idempotent:
  assumes "mailbox_reachable s" "get_call (sy_do s) i = Some t" "durable t"
    "tk_from_agent_id u = tk_from_agent_id t" "tk_message_id u = tk_message_id t"
  shows "admit_txn now (sy_do s) u x =
    (sy_do s, if tk_request_envelope_sha256 u = tk_request_envelope_sha256 t then Existing t else Conflict)"
proof -
  obtain r where r: "kv_get (d_dedupe (sy_do s)) (task_dedupe_key t) = Some r" "dr_call_id r = i"
    using dedupe_task[OF reachable_parts(6)[OF assms(1)] assms(2,3)] by blast
  obtain a m where k: "task_dedupe_key t = (a, m)" by (cases "task_dedupe_key t")
  have "tk_request_envelope_sha256 t = Some (dr_request_envelope_sha256 r)"
    using dedupe_entry[OF reachable_parts(6)[OF assms(1)] r(1)[unfolded k]] r(2) assms(2) by auto
  moreover have "task_dedupe_key u = task_dedupe_key t" using assms(4,5) by (simp add: task_dedupe_key_def)
  ultimately show ?thesis using r assms(2) by (auto simp: admit_txn_def Let_def)
qed

theorem admission_idempotent_witness:
  "admit_txn 5000 (sy_do mb_leased) (mb_task\<lparr>tk_call_id := ''c2''\<rparr>) None = (sy_do mb_leased, Existing mb_leased_task)"
proof -
  have "tk_from_agent_id (mb_task\<lparr>tk_call_id := ''c2''\<rparr>) = tk_from_agent_id mb_leased_task"
    "tk_message_id (mb_task\<lparr>tk_call_id := ''c2''\<rparr>) = tk_message_id mb_leased_task"
    "tk_request_envelope_sha256 (mb_task\<lparr>tk_call_id := ''c2''\<rparr>) = tk_request_envelope_sha256 mb_leased_task"
    by (simp_all add: mb_leased_task_def leased_task_def)
  then show ?thesis
    using admission_idempotent[OF mb_leased_reachable mb_leased_fields(5) mb_leased_task_fields(2)] by simp
qed

text \<open>
  Admission of a new message is exactly the capacity check: the task is stored unless
  the mailbox holds 100 outstanding tasks, or 10 of this caller, or its ciphertext would
  exceed the byte budget; a refusal changes nothing.
\<close>

theorem admission_capacity:
  assumes "kv_get (d_dedupe st) (task_dedupe_key t) = None"
  shows "(if or_default (d_outstanding st) 0 \<ge> 100 \<or>
             or_default (kv_get (d_caller_outstanding st) (the (tk_from_agent_id t))) 0 \<ge> 10 \<or>
             or_default (d_ciphertext_bytes st) 0 + or_default (tk_ciphertext_bytes t) 0 > 33554432
          then admit_txn now st t x = (st, Capacity)
          else snd (admit_txn now st t x) = Admitted t \<and>
               d_calls (fst (admit_txn now st t x)) = kv_put (tk_call_id t) t (d_calls st) \<and>
               d_queue (fst (admit_txn now st t x)) = kv_put (tk_created_at t, tk_call_id t) (tk_call_id t) (d_queue st) \<and>
               d_outstanding (fst (admit_txn now st t x)) = Some (or_default (d_outstanding st) 0 + 1))"
  using assms
  by (simp add: admit_txn_def Let_def core_fields put_call_def due_put_def task_queue_key_def
      MAILBOX_MAX_QUEUED_TASKS_def MAILBOX_MAX_OUTSTANDING_PER_CALLER_def MAILBOX_MAX_STORED_CIPHERTEXT_BYTES_def)

theorem admission_capacity_witness:
  "admit_txn 1 (empty_do_state\<lparr>d_outstanding := Some 100\<rparr>) mb_task None = (empty_do_state\<lparr>d_outstanding := Some 100\<rparr>, Capacity)"
proof -
  have "kv_get (d_dedupe (empty_do_state\<lparr>d_outstanding := Some 100\<rparr>)) (task_dedupe_key mb_task) = None"
    by (simp add: empty_do_state_def)
  from admission_capacity[OF this, of 1 None] show ?thesis by simp
qed

text \<open>
  At most one task is out for delivery. A leased task is the active one, so there is
  only one; it has been handed out between one and three times; and it still carries the
  request its listener needs.
\<close>

theorem one_delivery_at_a_time:
  assumes "mailbox_reachable s" "get_call (sy_do s) i = Some t" "tk_delivery_state t = Some Leased"
  shows "d_active (sy_do s) = Some i \<and>
    (\<forall>j u. get_call (sy_do s) j = Some u \<and> tk_delivery_state u = Some Leased \<longrightarrow> j = i) \<and>
    (\<exists>l. tk_lease t = Some l \<and> 1 \<le> ls_attempt l \<and> ls_attempt l \<le> 3) \<and> tk_request_envelope t \<noteq> None"
proof -
  note P = reachable_parts[OF assms(1)]
  have act: "d_active (sy_do s) = Some j" if "get_call (sy_do s) j = Some u" "tk_delivery_state u = Some Leased" for j u
    using P(5) that unfolding active_inv_def by blast
  have "durable t" using assms(3) by (simp add: durable_def)
  then have "delivery_ok t" using durable_ok(10)[OF store_inv_get(4)[OF P(1) assms(2)]] by simp
  then have "(\<exists>l. tk_lease t = Some l \<and> 1 \<le> ls_attempt l \<and> ls_attempt l \<le> 3) \<and> tk_request_envelope t \<noteq> None"
    using assms(3) by (auto simp: delivery_ok_def attempt_between_def)
  then show ?thesis using act[OF assms(2,3)] act by auto
qed

theorem one_delivery_at_a_time_witness:
  "d_active (sy_do mb_leased) = Some ''c1'' \<and> tk_request_envelope mb_leased_task \<noteq> None"
  using one_delivery_at_a_time[OF mb_leased_reachable mb_leased_fields(5) mb_leased_task_fields(1)] by blast

text \<open>
  Delivery is first come first served. A lease transaction hands out the queued task
  with the least creation time (ties by id), marks it active with one more attempt, and
  leaves every other task alone; it hands out nothing while a task is active.
\<close>

theorem lease_is_fifo:
  assumes "mailbox_reachable s" "lease_txn now (sy_do s) l session ms = (st', Some u)"
  shows "d_active (sy_do s) = None \<and> d_active st' = Some (tk_call_id u) \<and> tk_delivery_state u = Some Leased \<and>
    (\<exists>p. get_call (sy_do s) (tk_call_id u) = Some p \<and> tk_delivery_state p = Some Queued \<and>
       tk_created_at u = tk_created_at p \<and>
       tk_lease u = Some \<lparr>ls_lease_id = l, ls_listener_session_id = session,
         ls_expires_at = now + or_default ms 30000,
         ls_attempt = (case tk_lease p of None \<Rightarrow> 0 | Some x \<Rightarrow> ls_attempt x) + 1\<rparr>) \<and>
    (\<forall>j v. get_call (sy_do s) j = Some v \<and> tk_delivery_state v = Some Queued \<longrightarrow>
       (tk_created_at u, tk_call_id u) \<le> (tk_created_at v, j)) \<and>
    (\<forall>j. j \<noteq> tk_call_id u \<longrightarrow> get_call st' j = get_call (sy_do s) j)"
proof -
  note P = reachable_parts[OF assms(1)]
  note D = reachable_do_inv(1)[OF assms(1)]
  obtain key i p where act: "d_active (sy_do s) = None" and f: "kv_first (d_queue (sy_do s)) = Some (key, i)"
    and g: "get_call (sy_do s) i = Some p" and q: "tk_delivery_state p = Some Queued"
    and u: "u = leased_task now (next_lease now l session ms p) p" and a: "d_active st' = Some i"
    and ts: "task_step (sy_do s) p u st'"
    using lease_cases[OF D, of now l session ms] assms(2) by auto
  have id: "tk_call_id p = i" using store_inv_get(1)[OF P(1) g] .
  have wfq: "kv_wf (d_queue (sy_do s))" using store_inv_wf(3)[OF P(1)] .
  have kf: "kv_get (d_queue (sy_do s)) key = Some i" using kv_first_get[OF wfq f] .
  obtain c k where key: "key = (c, k)" by (cases key)
  have k: "k = i" "tk_created_at p = c" using queue_entry[OF P(3) kf[unfolded key]] g by auto
  have least: "(tk_created_at p, i) \<le> (tk_created_at v, j)"
    if "get_call (sy_do s) j = Some v" "tk_delivery_state v = Some Queued" for j v
  proof -
    have "kv_get (d_queue (sy_do s)) (tk_created_at v, j) = Some j"
      using P(3) that unfolding queue_inv_def waiting_def by blast
    from kv_first_least[OF wfq f this] show ?thesis using key k by simp
  qed
  have "get_call st' j = get_call (sy_do s) j" if "j \<noteq> i" for j
    using task_step_get[OF ts store_inv_wf(1)[OF P(1)]] that id by simp
  then show ?thesis
    using act a g q u id least by (auto simp: leased_task_def next_lease_def DELIVERY_LEASE_MS_def)
qed

theorem lease_is_fifo_witness:
  "tk_delivery_state mb_leased_task = Some Leased \<and> d_active (sy_do mb_leased) = Some (tk_call_id mb_leased_task)"
proof -
  have "lease_txn 2000 (sy_do mb_admitted) ''l1'' ''s1'' None = (sy_do mb_leased, Some mb_leased_task)"
    by (simp add: mb_leased_def lease_txn_def mb_admitted_fields kv_first_def kv_list_limit_def kv_entries_def
      get_call_def kv_get_def mb_task_fields task_is_terminal_def terminal_task_states_def Let_def mb_leased_task_def)
  from lease_is_fifo[OF mb_admitted_reachable this] show ?thesis by blast
qed

text \<open>
  Call evidence is not lost. An intent in the outbox stays there until a D1 batch that
  contains its event key has committed, whatever fails or is interleaved, and the table
  never holds the same event twice.
\<close>

theorem audit_evidence_kept:
  assumes "mailbox_reachable s" "sys_step now s s'" "kv_get (d_outbox (sy_do s)) k = Some i"
  shows "(kv_get (d_outbox (sy_do s')) k \<noteq> None \<or> ai_event_key i \<in> sy_logged s') \<and> sy_logged s \<subseteq> sy_logged s' \<and>
    distinct (map ai_event_key (sy_events s'))"
proof -
  note I = reachable_inv[OF assms(1)]
  show ?thesis
    using sys_step_effect[OF I assms(2)] assms(3) sys_invD(5)[OF sys_step_inv[OF I assms(2)]]
    unfolding sys_effect_def by blast
qed

theorem audit_evidence_kept_witness:
  "\<exists>k i. kv_get (d_outbox (sy_do mb_admitted)) k = Some i \<and>
     (kv_get (d_outbox (sy_do mb_leased)) k \<noteq> None \<or> ai_event_key i \<in> sy_logged mb_leased)"
proof -
  obtain e where e: "d_outbox (sy_do mb_admitted) = [e]" using mb_admitted_fields(7) by (auto simp: length_Suc_conv)
  then have g: "kv_get (d_outbox (sy_do mb_admitted)) (fst e) = Some (snd e)" by (cases e) (simp add: kv_get_def)
  have "sys_step 2000 mb_admitted mb_leased"
    using lease[of 2000 mb_admitted "''l1''" "''s1''" None] by (simp add: mb_leased_def)
  from audit_evidence_kept[OF mb_admitted_reachable this g] show ?thesis using g by blast
qed

lemma fold_min_le: "fold min xs (a::int) \<le> a" "x \<in> set xs \<Longrightarrow> fold min xs a \<le> x"
proof (induction xs arbitrary: a)
  case (Cons y ys)
  { case 1 then show ?case using Cons.IH(1)[of "min y a"] by simp }
  { case 2 then show ?case using Cons.IH(1)[of "min y a"] Cons.IH(2)[of "min y a"] by auto }
qed auto

text \<open>
  When anything is stored, rescheduling arms the alarm no later than the earliest
  deadline, the active lease's expiry and one second after now for unsent evidence.
\<close>

theorem alarm_covers_due:
  assumes "mailbox_reachable s" "get_call (sy_do s) i = Some t"
  shows "\<exists>at. d_alarm (schedule_next_alarm now (sy_do s)) = Some at \<and> at \<le> tk_deadline t \<and>
    (d_outbox (sy_do s) \<noteq> [] \<longrightarrow> at \<le> now + 1000) \<and>
    (\<forall>l. tk_delivery_state t = Some Leased \<and> tk_lease t = Some l \<longrightarrow> at \<le> ls_expires_at l)"
proof -
  let ?st = "sy_do s"
  note P = reachable_parts[OF assms(1)]
  have due: "kv_get (d_due ?st) (tk_deadline t, i) = Some i" using P(4) assms(2) unfolding due_inv_def by blast
  have wf: "kv_wf (d_due ?st)" using store_inv_wf(4)[OF P(1)] .
  obtain d j v where f: "kv_first (d_due ?st) = Some ((d, j), v)"
    using due by (cases "kv_first (d_due ?st)") (auto simp: kv_first_None)
  have le: "d \<le> tk_deadline t" using kv_first_least[OF wf f due] by auto
  obtain active where active: "active = (if truthy_str (d_active ?st)
      then (case Option.bind (get_call ?st (the (d_active ?st))) tk_lease of None \<Rightarrow> [] | Some l \<Rightarrow> [ls_expires_at l])
      else [])" by simp
  obtain audit where audit: "audit = (case kv_first (d_outbox ?st) of None \<Rightarrow> [] | Some _ \<Rightarrow> [now + CALL_AUDIT_RETRY_MS])"
    by simp
  obtain m rate where m: "read_rate_limit_maintenance (d_rate ?st) = (m, rate)" by fastforce
  obtain rest where rest: "rest = active @ audit @ (case m of None \<Rightarrow> [] | Some m \<Rightarrow> [rm_due m])" by simp
  have alarm: "d_alarm (schedule_next_alarm now ?st) = Some (fold min rest d)"
    by (simp add: schedule_next_alarm_def f m Let_def active audit rest)
  have "at \<le> ls_expires_at l" if "tk_delivery_state t = Some Leased" "tk_lease t = Some l" "at = fold min rest d" for l at
  proof -
    have "d_active ?st = Some i" "i \<noteq> []"
      using P(5) assms(2) that(1) store_inv_get(3)[OF P(1) assms(2)] unfolding active_inv_def by blast+
    then have "active = [ls_expires_at l]" using active assms(2) that(2) by simp
    then show ?thesis using fold_min_le(2)[of "ls_expires_at l" rest d] that(3) rest by simp
  qed
  moreover have "fold min rest d \<le> now + 1000" if ne: "d_outbox ?st \<noteq> []"
  proof -
    have "audit = [now + CALL_AUDIT_RETRY_MS]"
      using ne audit by (cases "kv_first (d_outbox ?st)") (auto simp: kv_first_None)
    then show ?thesis using fold_min_le(2)[of "now + 1000" rest d] rest by (simp add: CALL_AUDIT_RETRY_MS_def)
  qed
  ultimately show ?thesis using alarm fold_min_le(1)[of rest d] le by auto
qed

theorem alarm_covers_due_witness:
  "\<exists>at. d_alarm (schedule_next_alarm 3000 (sy_do mb_leased)) = Some at \<and> at \<le> 32000"
  using alarm_covers_due[OF mb_leased_reachable mb_leased_fields(5), of 3000] mb_leased_task_fields(1,4) by auto

end
