(* ===== verification/MailboxHandlers.thy ===== *)
theory MailboxHandlers
  imports MailboxSafety
begin

text \<open>
  The handlers of a \<open>HandleDO\<close>, composed from the transactions, run without interruption:
  \<open>dispatchNext\<close>, the caller and listener halves of \<open>webSocketMessage\<close>, \<open>cancelTask\<close>,
  \<open>alarm\<close> and the credential eviction of \<open>fetch\<close>. The environment of a run is a record:
  the clock, the D1 rows and the D1 outcome, the random ids. Each handler is shown to be a
  sequence of steps of \<open>MailboxSystem\<close>, so what is proved there holds of it; that theory
  covers the interleavings.
\<close>

subsection \<open>The environment\<close>

record stored_card =
  sc_offline_enabled :: bool
  sc_blocked :: "string list"

text \<open>
  The rows \<open>durableAuthorityIsCurrent\<close> reads: agent id and recovery generation of a handle,
  and the stored card parsed for that handle, absent when there is none or it is malformed.
\<close>

record environment =
  env_now :: int
  env_handles :: "string \<Rightarrow> string \<Rightarrow> (string option \<times> int) option"
  env_cards :: "string \<Rightarrow> string \<Rightarrow> string \<Rightarrow> stored_card option"
  env_d1 :: d1_outcome
  env_lease_id :: string
  env_call_id :: string
  env_digest :: "envelope \<Rightarrow> string"

datatype relay_output =
  OutError relay_error "string option"
| OutQueued task
| OutStatus call_state string
| OutIncomingDurable task
| OutIncoming string envelope
| OutCancelCall string "string option"
| OutOutcome listener_frame
| OutStaleSocket

definition durable_authority_is_current :: "environment \<Rightarrow> task \<Rightarrow> bool" where
  "durable_authority_is_current env t =
     (if \<not> truthy_str (tk_from_agent_id t) \<or> \<not> truthy_str (tk_target_agent_id t) then False
      else
        let caller = env_handles env (tk_org t) (tk_from t);
            target = env_handles env (tk_org t) (tk_to t);
            card = env_cards env (tk_org t) (the (tk_target_agent_id t)) (tk_to t)
        in (case caller of None \<Rightarrow> False
            | Some (agent, generation) \<Rightarrow> agent = tk_from_agent_id t \<and>
                Some generation = tk_from_credential_generation t) \<and>
           (case target of None \<Rightarrow> False | Some (agent, _) \<Rightarrow> agent = tk_target_agent_id t) \<and>
           (case card of None \<Rightarrow> False | Some c \<Rightarrow> sc_offline_enabled c \<and> tk_from t \<notin> set (sc_blocked c)))"

subsection \<open>Dispatch\<close>

definition live_starts :: "int \<Rightarrow> do_state \<Rightarrow> ((int \<times> string) \<times> int) list" where
  "live_starts now st = filter (\<lambda>e. fst (fst e) + START_WINDOW_MS > now) (kv_entries (d_starts st))"

definition delete_stale_starts :: "int \<Rightarrow> do_state \<Rightarrow> do_state" where
  "delete_stale_starts now st =
     (let stale = filter (\<lambda>k. k \<notin> set (map fst (live_starts now st))) (map fst (kv_entries (d_starts st)))
      in if stale \<noteq> [] then st\<lparr>d_starts := kv_del_all stale (d_starts st)\<rparr> else st)"

definition release_at :: "((int \<times> string) \<times> int) list \<Rightarrow> int" where
  "release_at live = Min (set (map (fst \<circ> fst) live)) + START_WINDOW_MS"

text \<open>The frame for a leased or rebound task, if the record carries everything it needs.\<close>

definition incoming_frame :: "task \<Rightarrow> relay_output list" where
  "incoming_frame t =
     (if tk_request_envelope t \<noteq> None \<and> truthy_str (tk_message_id t) \<and> tk_lease t \<noteq> None \<and> truthy_num (tk_execute_by t)
      then [OutIncomingDurable t] else [])"

definition lease_next ::
  "environment \<Rightarrow> listener_attachment \<Rightarrow> do_state \<Rightarrow> org_events \<Rightarrow> do_state \<times> org_events \<times> relay_output list" where
  "lease_next env att st events =
     (let (st', leased) = lease_txn (env_now env) st (env_lease_id env) (the (la_listener_session_id att)) (la_lease_ms att)
      in (st', events, case leased of None \<Rightarrow> [] | Some t \<Rightarrow> incoming_frame t))"

datatype dispatch_check = DispatchLease | DispatchStop | DispatchRevoke task

text \<open>
  The checks on the queue head before a lease: the day's start limit, the parties' current
  authority, and enough time left to run.
\<close>

definition check_head :: "environment \<Rightarrow> do_state \<Rightarrow> do_state \<times> dispatch_check" where
  "check_head env st = (case kv_first (d_queue st) of
     None \<Rightarrow> (st, DispatchLease)
   | Some (key, call_id) \<Rightarrow>
       (case get_call st call_id of
          None \<Rightarrow> (st, DispatchLease)
        | Some candidate \<Rightarrow>
            if tk_delivery_state candidate \<noteq> Some Queued \<or> task_is_terminal candidate then (st, DispatchLease)
            else
              let now = env_now env; live = live_starts now st; st1 = delete_stale_starts now st
              in if length live \<ge> MAILBOX_MAX_STARTS_PER_DAY then (arm_at (release_at live) st1, DispatchStop)
                 else if \<not> durable_authority_is_current env candidate then (st1, DispatchRevoke candidate)
                 else if or_default (tk_execute_by candidate) 0 - now < RELAY_CALL_TIMEOUT_MS then (st1, DispatchStop)
                 else (st1, DispatchLease)))"

text \<open>\<open>fuel\<close> bounds the revoked heads; \<open>dispatch_terminates\<close> shows how much is enough.\<close>

fun dispatch_next ::
  "nat \<Rightarrow> environment \<Rightarrow> listener_attachment \<Rightarrow> do_state \<Rightarrow> org_events
   \<Rightarrow> (do_state \<times> org_events \<times> relay_output list) option" where
  "dispatch_next 0 env att st events = None"
| "dispatch_next (Suc fuel) env att st events =
     (if \<not> la_mailbox_capable att \<or> \<not> truthy_str (la_listener_session_id att) then Some (st, events, [])
      else if truthy_str (d_active st) then
        (case get_call st (the (d_active st)) of
           None \<Rightarrow> Some (st, events, [])
         | Some active \<Rightarrow>
             if rebindable active then
               (let rebound = rebound_task (env_now env) (env_lease_id env) (the (la_listener_session_id att)) active
                in Some (st\<lparr>d_calls := kv_put (the (d_active st)) rebound (d_calls st)\<rparr>, events, [OutIncomingDurable rebound]))
             else Some (st, events, []))
      else
        (case check_head env st of
           (st1, DispatchStop) \<Rightarrow> Some (st1, events, [])
         | (st1, DispatchRevoke candidate) \<Rightarrow>
             (let st2 = revoke_txn (env_now env) st1 candidate;
                  (st3, events') = flush_audit_outbox (env_d1 env) (env_now env) st2 events
              in dispatch_next fuel env att st3 events')
         | (st1, DispatchLease) \<Rightarrow> Some (lease_next env att st1 events)))"

definition queued_count :: "do_state \<Rightarrow> nat" where
  "queued_count st = length (filter (\<lambda>t. tk_delivery_state t = Some Queued) (map snd (d_calls st)))"

definition dispatch_fuel :: "do_state \<Rightarrow> nat" where
  "dispatch_fuel st = Suc (queued_count st)"

subsection \<open>Runs of steps\<close>

definition sys_run :: "system \<Rightarrow> system \<Rightarrow> bool" where
  "sys_run s s' = (\<lambda>s s'. \<exists>now. sys_step now s s')\<^sup>*\<^sup>* s s'"

lemma sys_run_refl [simp]: "sys_run s s"
  by (simp add: sys_run_def)

lemma sys_run_trans: "sys_run a b \<Longrightarrow> sys_run b c \<Longrightarrow> sys_run a c"
  by (auto simp: sys_run_def)

lemma sys_run_step: "sys_step now a b \<Longrightarrow> sys_run a b"
  by (auto simp: sys_run_def)

lemma sys_run_snoc: "sys_run a b \<Longrightarrow> sys_step now b c \<Longrightarrow> sys_run a c"
  using sys_run_trans sys_run_step by blast

lemma sys_run_reachable: "sys_run s s' \<Longrightarrow> mailbox_reachable s \<Longrightarrow> mailbox_reachable s'"
  unfolding sys_run_def by (induction rule: rtranclp_induct) (auto intro: reachable_step)

text \<open>
  \<open>ends_in s st events\<close>: from \<open>s\<close> the system can run to a state with this storage and this
  table, with the same continuations pending.
\<close>

definition ends_in :: "system \<Rightarrow> do_state \<Rightarrow> org_events \<Rightarrow> bool" where
  "ends_in s st events =
     (\<exists>s'. sys_run s s' \<and> sy_do s' = st \<and> sy_events s' = events \<and> sy_pending s' = sy_pending s)"

lemma ends_inI:
  "sys_run s s' \<Longrightarrow> sy_do s' = st \<Longrightarrow> sy_events s' = events \<Longrightarrow> sy_pending s' = sy_pending s \<Longrightarrow> ends_in s st events"
  unfolding ends_in_def by blast

lemma ends_in_self: "ends_in s (sy_do s) (sy_events s)"
  by (rule ends_inI[of s s]) simp_all

lemma ends_in_step:
  assumes "sys_step now s s'" "sy_do s' = st" "sy_events s' = sy_events s" "sy_pending s' = sy_pending s"
  shows "ends_in s st (sy_events s)"
  using ends_inI[OF sys_run_step[OF assms(1)]] assms(2-4) by blast

lemma ends_in_trans:
  assumes "ends_in s st events"
    "\<And>s1. sys_run s s1 \<Longrightarrow> sy_do s1 = st \<Longrightarrow> sy_events s1 = events \<Longrightarrow> sy_pending s1 = sy_pending s \<Longrightarrow> ends_in s1 st' events'"
  shows "ends_in s st' events'"
  using assms sys_run_trans unfolding ends_in_def by metis

text \<open>One flush is begin, commit or not, and the deletion or the failure.\<close>

lemma flush_ends_in:
  assumes "flush_audit_outbox d1 now (sy_do s) (sy_events s) = (st, events)"
  shows "ends_in s st events"
proof (cases "flush_pending (sy_do s) = []")
  case True
  then show ?thesis using assms ends_in_self[of s] by (auto simp: flush_audit_outbox_def)
next
  case False
  let ?ps = "flush_pending (sy_do s)"
  let ?s1 = "add_pending [CFlush ?ps] s"
  have b: "sys_run s ?s1" using sys_run_step[OF flush_begin[OF False]] .
  let ?s2 = "add_pending [CFlushed ?ps] (done_pending (CFlush ?ps)
      (?s1\<lparr>sy_events := d1_batch (sy_events ?s1) (map snd ?ps),
         sy_logged := sy_logged ?s1 \<union> set (map (ai_event_key \<circ> snd) ?ps)\<rparr>))"
  have c: "sys_run s ?s2" using sys_run_snoc[OF b d1_commit[of ?ps ?s1 now]] by simp
  have s2: "sy_do ?s2 = sy_do s" "sy_events ?s2 = d1_batch (sy_events s) (map snd ?ps)"
    "sy_pending ?s2 = CFlushed ?ps # sy_pending s" by simp_all
  show ?thesis
  proof (cases d1)
    case D1Committed
    have "sys_run s (done_pending (CFlushed ?ps) (?s2\<lparr>sy_do := flush_end now (sy_do ?s2) (map fst ?ps)\<rparr>))"
      using sys_run_snoc[OF c flush_ok[of ?ps ?s2 now]] by simp
    from ends_inI[OF this] show ?thesis using assms False D1Committed by (simp add: flush_audit_outbox_def Let_def)
  next
    case D1Rejected
    have "sys_run s (done_pending (CFlush ?ps) (?s1\<lparr>sy_do := flush_failed now (sy_do ?s1)\<rparr>))"
      using sys_run_snoc[OF b flush_error[of "CFlush ?ps" ?ps ?s1 now]] by simp
    from ends_inI[OF this] show ?thesis using assms False D1Rejected by (simp add: flush_audit_outbox_def Let_def)
  next
    case D1LostReply
    have "sys_run s (done_pending (CFlushed ?ps) (?s2\<lparr>sy_do := flush_failed now (sy_do ?s2)\<rparr>))"
      using sys_run_snoc[OF c flush_error[of "CFlushed ?ps" ?ps ?s2 now]] by simp
    from ends_inI[OF this] show ?thesis using assms False D1LostReply by (simp add: flush_audit_outbox_def Let_def)
  qed
qed

subsection \<open>Dispatch as steps\<close>

lemma check_head_cases:
  assumes "check_head env st = (st1, r)"
  shows "\<exists>starts. st1 = st\<lparr>d_starts := starts\<rparr> \<or> (\<exists>at. st1 = arm_at at (st\<lparr>d_starts := starts\<rparr>))"
    "\<And>t. r = DispatchRevoke t \<Longrightarrow> \<exists>i. get_call st i = Some t \<and> get_call st1 i = Some t \<and>
       tk_delivery_state t = Some Queued \<and> \<not> task_is_terminal t \<and> (\<exists>starts. st1 = st\<lparr>d_starts := starts\<rparr>)"
proof -
  have d: "\<exists>starts. delete_stale_starts now st = st\<lparr>d_starts := starts\<rparr>" for now
    by (rule exI[of _ "d_starts (delete_stale_starts now st)"]) (simp add: delete_stale_starts_def Let_def)
  have s: "\<exists>starts. st = st\<lparr>d_starts := starts\<rparr>" by (rule exI[of _ "d_starts st"]) simp
  have "st1 = st \<or> st1 = delete_stale_starts (env_now env) st \<or>
      (\<exists>at. st1 = arm_at at (delete_stale_starts (env_now env) st))"
    using assms by (auto simp: check_head_def Let_def split: option.splits if_splits prod.splits)
  then show "\<exists>starts. st1 = st\<lparr>d_starts := starts\<rparr> \<or> (\<exists>at. st1 = arm_at at (st\<lparr>d_starts := starts\<rparr>))"
    using d[of "env_now env"] s by metis
  fix t assume "r = DispatchRevoke t"
  then have "\<exists>i. get_call st i = Some t \<and> tk_delivery_state t = Some Queued \<and> \<not> task_is_terminal t \<and>
      st1 = delete_stale_starts (env_now env) st"
    using assms by (auto simp: check_head_def Let_def split: option.splits if_splits prod.splits)
  then obtain i where i: "get_call st i = Some t" "tk_delivery_state t = Some Queued" "\<not> task_is_terminal t"
    and st1: "st1 = delete_stale_starts (env_now env) st" by blast
  obtain starts where e: "st1 = st\<lparr>d_starts := starts\<rparr>" using d[of "env_now env"] st1 by auto
  then have "get_call st1 i = Some t" using i(1) by (simp add: get_call_def)
  then show "\<exists>i. get_call st i = Some t \<and> get_call st1 i = Some t \<and> tk_delivery_state t = Some Queued \<and>
      \<not> task_is_terminal t \<and> (\<exists>starts. st1 = st\<lparr>d_starts := starts\<rparr>)"
    using i e by blast
qed

lemma check_head_ends:
  assumes "check_head env (sy_do s) = (st1, r)"
  shows "ends_in s st1 (sy_events s)"
proof -
  obtain starts where c: "st1 = (sy_do s)\<lparr>d_starts := starts\<rparr> \<or> (\<exists>at. st1 = arm_at at ((sy_do s)\<lparr>d_starts := starts\<rparr>))"
    using check_head_cases(1)[OF assms] by blast
  have p: "ends_in s ((sy_do s)\<lparr>d_starts := starts\<rparr>) (sy_events s)"
    by (rule ends_in_step[OF prune_starts]) simp_all
  then have "ends_in s (arm_at at ((sy_do s)\<lparr>d_starts := starts\<rparr>)) (sy_events s)" for at
  proof (rule ends_in_trans)
    fix s1 :: system assume "sy_do s1 = (sy_do s)\<lparr>d_starts := starts\<rparr>" "sy_events s1 = sy_events s"
    then show "ends_in s1 (arm_at at ((sy_do s)\<lparr>d_starts := starts\<rparr>)) (sy_events s)"
      using ends_in_step[OF arm[of _ s1 at]] by simp
  qed
  then show ?thesis using c p by auto
qed

lemma revoke_ends:
  assumes "get_call (sy_do s) i = Some t"
  shows "ends_in s (revoke_txn now (sy_do s) t) (sy_events s)"
proof -
  let ?s1 = "add_pending [CRevoke t] s"
  have a: "sys_run s ?s1" using sys_run_step[OF refuse_authority[OF assms]] .
  have "sys_run s (done_pending (CRevoke t) (?s1\<lparr>sy_do := revoke_txn now (sy_do ?s1) t\<rparr>))"
    by (rule sys_run_snoc[OF a revoke]) simp
  from ends_inI[OF this] show ?thesis by simp
qed

lemma lease_next_ends:
  assumes "lease_next env att (sy_do s) (sy_events s) = (st, ev, out)"
  shows "ends_in s st ev"
  using assms ends_in_step[OF lease[of "env_now env" s "env_lease_id env" "the (la_listener_session_id att)" "la_lease_ms att"]]
  by (auto simp: lease_next_def split: prod.splits)

lemma rebind_put:
  assumes "mailbox_reachable s" "get_call (sy_do s) i = Some p"
  shows "put_call (rebound_task now l session p) (sy_do s) =
    (sy_do s)\<lparr>d_calls := kv_put i (rebound_task now l session p) (d_calls (sy_do s))\<rparr>"
  using store_inv_get(1)[OF reachable_parts(1)[OF assms(1)] assms(2)] by (simp add: put_call_def rebound_task_def)

lemma dispatch_ends_in:
  assumes "dispatch_next fuel env att (sy_do s) (sy_events s) = Some (st, ev, out)" "mailbox_reachable s"
  shows "ends_in s st ev"
  using assms
proof (induction fuel arbitrary: s)
  case (Suc fuel)
  let ?capable = "la_mailbox_capable att \<and> truthy_str (la_listener_session_id att)"
  show ?case
  proof (cases "?capable \<and> \<not> truthy_str (d_active (sy_do s))")
    case False
    then show ?thesis
    proof (cases "?capable \<and> (\<exists>p. get_call (sy_do s) (the (d_active (sy_do s))) = Some p \<and> rebindable p)")
      case True
      then obtain p where g: "get_call (sy_do s) (the (d_active (sy_do s))) = Some p" "rebindable p" by blast
      show ?thesis
        using Suc.prems(1) False True g rebind_put[OF Suc.prems(2) g(1), of "env_now env" "env_lease_id env" "the (la_listener_session_id att)"]
          ends_in_step[OF rebind[OF g, of "env_now env" "env_lease_id env" "the (la_listener_session_id att)"]]
        by (auto simp: Let_def)
    next
      case no: False
      then have "st = sy_do s \<and> ev = sy_events s"
        using Suc.prems(1) False by (auto split: if_splits option.splits)
      then show ?thesis using ends_in_self by simp
    qed
  next
    case True
    obtain st1 r where c: "check_head env (sy_do s) = (st1, r)" by fastforce
    note e1 = check_head_ends[OF c]
    show ?thesis
    proof (cases r)
      case DispatchStop
      then show ?thesis using Suc.prems(1) True c e1 by simp
    next
      case DispatchLease
      show ?thesis
        by (rule ends_in_trans[OF e1], rule lease_next_ends) (use Suc.prems(1) True c DispatchLease in simp)
    next
      case (DispatchRevoke t)
      obtain i where g: "get_call st1 i = Some t" using check_head_cases(2)[OF c DispatchRevoke] by blast
      obtain st3 ev3 where f: "flush_audit_outbox (env_d1 env) (env_now env) (revoke_txn (env_now env) st1 t) (sy_events s) = (st3, ev3)"
        by fastforce
      have rec: "dispatch_next fuel env att st3 ev3 = Some (st, ev, out)"
        using Suc.prems(1) True c DispatchRevoke f by simp
      have e2: "ends_in s (revoke_txn (env_now env) st1 t) (sy_events s)"
        by (rule ends_in_trans[OF e1]) (use revoke_ends g in metis)
      have e3: "ends_in s st3 ev3"
        by (rule ends_in_trans[OF e2], rule flush_ends_in) (use f in simp)
      show ?thesis
        by (rule ends_in_trans[OF e3])
           (use Suc.IH rec sys_run_reachable Suc.prems(2) in blast)
    qed
  qed
qed simp

subsection \<open>Dispatch terminates\<close>

lemma flush_core: "same_core st (fst (flush_audit_outbox d1 now st ev))"
proof -
  have "same_core st (flush_end now st keys)" for keys
    using schedule_fields(2)[of "st\<lparr>d_outbox := kv_del_all keys (d_outbox st)\<rparr>" now]
    by (auto simp: flush_end_def same_core_def)
  then show ?thesis
    by (auto simp: flush_audit_outbox_def Let_def flush_failed_def same_core_def split: d1_outcome.splits)
qed

definition queued_one :: "task \<Rightarrow> int" where
  "queued_one t = (if tk_delivery_state t = Some Queued then 1 else 0)"

lemma queued_count_total: "int (queued_count st) = kv.total queued_one (d_calls st)"
  unfolding kv.total_def kv_entries_def queued_one_def queued_count_def by (simp only: sum_list_indicator[of "\<lambda>t. tk_delivery_state t = Some Queued"])

lemma revoke_queued_count:
  assumes inv: "do_inv used st" and g: "get_call st i = Some t" and q: "tk_delivery_state t = Some Queued" "\<not> task_is_terminal t"
  shows "queued_count (revoke_txn now st t) < queued_count st" "do_inv used (revoke_txn now st t)"
proof -
  note P = do_inv_parts[OF inv]
  have id: "tk_call_id t = i" using store_inv_get(1)[OF P(1) g] .
  have ts: "task_step st t ((revoked_task now t)\<lparr>tk_quota_released := True\<rparr>) (revoke_txn now st t)"
    using revoke_step[OF inv _ _ q(2,1)] g id by simp
  then show "do_inv used (revoke_txn now st t)" using task_step_inv[OF _ inv] by blast
  have "d_calls (revoke_txn now st t) = kv_put i ((revoked_task now t)\<lparr>tk_quota_released := True\<rparr>) (d_calls st)"
    using ts id by (simp add: task_step_def)
  then have "int (queued_count (revoke_txn now st t)) = int (queued_count st) - 1"
    using kv.total_put[OF store_inv_wf(1)[OF P(1)], of queued_one i] g q
    by (simp add: queued_count_total get_call_def queued_one_def revoked_task_def)
  then show "queued_count (revoke_txn now st t) < queued_count st" by simp
qed

lemma dispatch_returns:
  assumes "do_inv used st" "queued_count st < fuel"
  shows "dispatch_next fuel env att st ev \<noteq> None"
  using assms
proof (induction fuel arbitrary: st ev)
  case (Suc fuel)
  obtain st1 r where c: "check_head env st = (st1, r)" by fastforce
  show ?case
  proof (cases r)
    case (DispatchRevoke t)
    obtain i where g: "get_call st1 i = Some t" "tk_delivery_state t = Some Queued" "\<not> task_is_terminal t"
      and st1: "\<exists>starts. st1 = st\<lparr>d_starts := starts\<rparr>" using check_head_cases(2)[OF c DispatchRevoke] by blast
    have core: "same_core st st1" using st1 by (auto simp: same_core_def)
    have qc: "queued_count st1 = queued_count st" using core by (simp add: same_core_def queued_count_def)
    have inv1: "do_inv used st1" using do_inv_core[OF core] Suc.prems(1) by simp
    let ?st2 = "revoke_txn (env_now env) st1 t"
    note r = revoke_queued_count[OF inv1 g, of "env_now env"]
    obtain st3 ev3 where f: "flush_audit_outbox (env_d1 env) (env_now env) ?st2 ev = (st3, ev3)" by fastforce
    have core3: "same_core ?st2 st3" using flush_core[of ?st2 "env_d1 env" "env_now env" ev] f by simp
    have "dispatch_next fuel env att st3 ev3 \<noteq> None"
      using Suc.IH[of st3 ev3] do_inv_core[OF core3] r qc Suc.prems(2) core3
      by (simp add: same_core_def queued_count_def)
    then show ?thesis using c DispatchRevoke f by (auto simp: Let_def split: option.splits)
  qed (use c in \<open>auto simp: Let_def lease_next_def split: option.splits prod.splits\<close>)
qed simp

end
