(* ===== verification/MailboxEvents.thy ===== *)
theory MailboxEvents
  imports MailboxHandlers Transcripts
begin

text \<open>
  The entry points of the object: opening a socket, a frame on a socket, cancelling a task,
  the alarm, evicting credentials. Sockets appear through their attachments; \<open>listener\<close> is
  the attachment of \<open>getWebSockets("listener")[0]\<close>, absent when nobody listens.
\<close>

definition dispatch ::
  "environment \<Rightarrow> listener_attachment \<Rightarrow> do_state \<Rightarrow> org_events \<Rightarrow> do_state \<times> org_events \<times> relay_output list" where
  "dispatch env att st events = (case dispatch_next (dispatch_fuel st) env att st events of
     None \<Rightarrow> (st, events, []) | Some r \<Rightarrow> r)"

subsection \<open>Opening a socket\<close>

text \<open>
  The request of the gateway: headers as they arrive, the numeric ones and the numeric query
  parameters as \<open>Number\<close> reads them, absent when that is not a number.
\<close>

record ws_request =
  wr_role :: string
  wr_from :: string
  wr_org :: "string option"
  wr_target :: "string option"
  wr_actor_ip :: "string option"
  wr_actor_country :: "string option"
  wr_relay_origin :: "string option"
  wr_credential_generation :: "int option"
  wr_agent_id :: string
  wr_target_agent_id :: string
  wr_mailbox_enabled :: bool
  wr_caller_blocked :: bool
  wr_test_timeout_ms :: "int option"
  wr_test_execution_timeout_ms :: "int option"
  wr_listener_session_id :: string
  wr_capability :: string

text \<open>\<open>x || undefined\<close>.\<close>

definition or_undefined :: "string option \<Rightarrow> string option" where
  "or_undefined x = (if truthy_str x then x else None)"

definition num_or_undefined :: "int option \<Rightarrow> int option" where
  "num_or_undefined x = (if truthy_num x then x else None)"

definition hex_i :: "nat \<Rightarrow> string \<Rightarrow> bool" where
  "hex_i n s = (length s = n \<and>
     list_all (\<lambda>c. CHR ''0'' \<le> c \<and> c \<le> CHR ''9'' \<or> CHR ''a'' \<le> c \<and> c \<le> CHR ''f'' \<or> CHR ''A'' \<le> c \<and> c \<le> CHR ''F'') s)"

definition uuid_v4_re :: "string \<Rightarrow> bool" where
  "uuid_v4_re s =
     (length s = 36 \<and> hex_i 8 (take 8 s) \<and> s ! 8 = CHR ''-'' \<and> hex_i 4 (take 4 (drop 9 s)) \<and> s ! 13 = CHR ''-'' \<and>
      s ! 14 = CHR ''4'' \<and> hex_i 3 (take 3 (drop 15 s)) \<and> s ! 18 = CHR ''-'' \<and>
      s ! 19 \<in> {CHR ''8'', CHR ''9'', CHR ''a'', CHR ''b'', CHR ''A'', CHR ''B''} \<and> hex_i 3 (take 3 (drop 20 s)) \<and>
      s ! 23 = CHR ''-'' \<and> hex_i 12 (drop 24 s))"

datatype ws_answer =
  WsBadRole
| WsStaleCredentials
| WsMissingMetadata
| WsListener listener_attachment
| WsCaller caller_attachment

definition request_principal :: "ws_request \<Rightarrow> principal option" where
  "request_principal r =
     (if truthy_str (wr_org r) \<and> wr_from r \<noteq> []
      then Some \<lparr>pr_organization = the (wr_org r), pr_participant = wr_from r,
                 pr_credential_generation = or_default (wr_credential_generation r) 0\<rparr>
      else None)"

definition accept_socket :: "do_state \<Rightarrow> ws_request \<Rightarrow> ws_answer" where
  "accept_socket st r =
     (let org = or_undefined (wr_org r); target = or_undefined (wr_target r);
          source = \<lparr>so_actor_ip = or_undefined (wr_actor_ip r), so_actor_country = or_undefined (wr_actor_country r)\<rparr>;
          origin = or_undefined (wr_relay_origin r);
          generation = or_default (wr_credential_generation r) 0;
          floor = or_default (kv_get (d_floors st) (or_default org [], wr_agent_id r)) 0;
          test_timeout = num_or_undefined (wr_test_timeout_ms r)
      in if wr_role r \<noteq> ''listen'' \<and> wr_role r \<noteq> ''call'' then WsBadRole
         else if generation < floor then WsStaleCredentials
         else if wr_role r = ''listen'' then
           (let capable = (wr_capability r = ''durable-mailbox-v1'' \<and> uuid_v4_re (wr_listener_session_id r))
            in WsListener \<lparr>la_principal = request_principal r, la_org = org, la_handle = target, la_source = source,
                 la_relay_origin = origin, la_credential_generation = Some generation, la_mailbox_capable = capable,
                 la_listener_session_id = (if capable then Some (wr_listener_session_id r) else None),
                 la_lease_ms = Some (min DELIVERY_LEASE_MS (or_default test_timeout DELIVERY_LEASE_MS)),
                 la_execution_timeout_ms = num_or_undefined (wr_test_execution_timeout_ms r)\<rparr>)
         else (case (org, target, origin, request_principal r) of
             (Some o', Some t', Some g', Some p') \<Rightarrow>
               WsCaller \<lparr>ca_principal = p', ca_from = wr_from r, ca_org = o', ca_to = t', ca_source = source,
                 ca_relay_origin = g', ca_call_id = None, ca_correlation_id = None, ca_timeout_ms = test_timeout,
                 ca_credential_generation = Some generation, ca_from_agent_id = wr_agent_id r,
                 ca_target_agent_id = wr_target_agent_id r, ca_mailbox_enabled = wr_mailbox_enabled r,
                 ca_caller_blocked = wr_caller_blocked r\<rparr>
           | _ \<Rightarrow> WsMissingMetadata))"

definition open_socket ::
  "environment \<Rightarrow> ws_request \<Rightarrow> do_state \<Rightarrow> org_events \<Rightarrow> ws_answer \<times> do_state \<times> org_events \<times> relay_output list" where
  "open_socket env r st events = (case accept_socket st r of
     WsListener att \<Rightarrow> (WsListener att, if la_mailbox_capable att then dispatch env att st events else (st, events, []))
   | answer \<Rightarrow> (answer, st, events, []))"

subsection \<open>Evicting credentials\<close>

datatype attachment = Caller caller_attachment | Listener listener_attachment

fun attachment_credentials :: "attachment \<Rightarrow> string option \<times> string option \<times> int option" where
  "attachment_credentials (Caller a) = (Some (ca_org a), Some (ca_from a), ca_credential_generation a)"
| "attachment_credentials (Listener a) = (la_org a, la_handle a, la_credential_generation a)"

definition evicts :: "string \<Rightarrow> string \<Rightarrow> int \<Rightarrow> attachment \<Rightarrow> bool" where
  "evicts org handle generation a = (case attachment_credentials a of
     (aorg, ahandle, agen) \<Rightarrow> aorg = Some org \<and> ahandle = Some handle \<and> or_default agen 0 < generation)"

text \<open>The answer is absent for an invalid command, else the sockets closed.\<close>

definition evict_credentials ::
  "string \<Rightarrow> string \<Rightarrow> string \<Rightarrow> int option \<Rightarrow> attachment list \<Rightarrow> do_state \<Rightarrow> do_state \<times> attachment list option" where
  "evict_credentials org handle agent_id generation sockets st = (case generation of
     None \<Rightarrow> (st, None)
   | Some g \<Rightarrow>
       if org = [] \<or> handle = [] \<or> agent_id = [] \<or> \<not> is_safe_integer g \<or> g < 1 then (st, None)
       else (keep_floor (org, agent_id) g st, Some (filter (evicts org handle g) sockets)))"

subsection \<open>A frame from a caller\<close>

definition caller_addressed :: "caller_attachment \<Rightarrow> envelope \<Rightarrow> bool" where
  "caller_addressed att e =
     (ca_relay_origin att \<noteq> [] \<and> ca_to att \<noteq> [] \<and> en_relay_origin e = ca_relay_origin att \<and>
      en_from e = format_address (ca_org att) (ca_from att) \<and> en_to e = format_address (ca_org att) (ca_to att))"

definition rate_hit :: "int \<Rightarrow> string \<Rightarrow> int list \<Rightarrow> do_state \<Rightarrow> do_state" where
  "rate_hit now caller stamps st = st\<lparr>d_rate := fst (record_rate_limit_hit (d_rate st) caller stamps now)\<rparr>"

definition with_call :: "caller_attachment \<Rightarrow> string \<Rightarrow> string \<Rightarrow> caller_attachment" where
  "with_call att call_id correlation_id = att\<lparr>ca_call_id := Some call_id, ca_correlation_id := Some correlation_id\<rparr>"

text \<open>The answer to a message that was already admitted.\<close>

definition durable_retry :: "environment \<Rightarrow> caller_attachment \<Rightarrow> call_request \<Rightarrow> do_state \<Rightarrow> relay_output list option" where
  "durable_retry env att frame st =
     (if cr_delivery_mode frame \<noteq> Some Durable then None
      else case kv_get (d_dedupe st) (ca_from_agent_id att, the (cr_message_id frame)) of
        None \<Rightarrow> None
      | Some dedupe \<Rightarrow>
          if dr_request_envelope_sha256 dedupe \<noteq> env_digest env (cr_envelope frame)
          then Some [OutError ReProtocolError None]
          else (case get_call st (dr_call_id dedupe) of
                  None \<Rightarrow> Some [OutError ReProtocolError None]
                | Some existing \<Rightarrow> Some [OutQueued existing]))"

definition queue_call ::
  "environment \<Rightarrow> caller_attachment \<Rightarrow> call_request \<Rightarrow> int list \<Rightarrow> do_state \<Rightarrow> org_events
   \<Rightarrow> do_state \<times> org_events \<times> caller_attachment \<times> relay_output list" where
  "queue_call env att frame stamps st events =
     (let now = env_now env;
          t = queued_task now att frame (env_digest env (cr_envelope frame)) (env_call_id env);
          att' = with_call att (env_call_id env) (cr_correlation_id frame);
          (st1, admission) = admit_txn now st t (call_audit_intent EvSubmit t (ca_from att) HandleActor (ca_source att) now)
      in case admission of
           Conflict \<Rightarrow> (st1, events, att', [OutError ReProtocolError None])
         | Existing existing \<Rightarrow> (st1, events, att', [OutQueued existing])
         | Capacity \<Rightarrow> (rate_hit now (ca_from att) stamps st1, events, att', [OutError ReBusy None])
         | Admitted _ \<Rightarrow>
             (let (st2, events') = flush_audit_outbox (env_d1 env) now st1 events
              in (schedule_next_alarm now (rate_hit now (ca_from att) stamps st2), events', att', [OutQueued t])))"

definition ring_call ::
  "environment \<Rightarrow> caller_attachment \<Rightarrow> call_request \<Rightarrow> int list \<Rightarrow> do_state \<Rightarrow> org_events
   \<Rightarrow> do_state \<times> org_events \<times> caller_attachment \<times> relay_output list" where
  "ring_call env att frame stamps st events =
     (let now = env_now env;
          st1 = rate_hit now (ca_from att) stamps st;
          t = ringing_task now att frame (env_call_id env);
          st2 = persist_txn now st1 t (call_audit_intent EvSubmit t (ca_from att) HandleActor (ca_source att) now);
          (st3, events') = flush_audit_outbox (env_d1 env) now st2 events
      in (schedule_next_alarm now st3, events', with_call att (env_call_id env) (cr_correlation_id frame),
          [OutStatus Ringing (env_call_id env), OutIncoming (env_call_id env) (cr_envelope frame)]))"

definition caller_message ::
  "environment \<Rightarrow> bool \<Rightarrow> caller_attachment \<Rightarrow> nat \<Rightarrow> js_value option \<Rightarrow> do_state \<Rightarrow> org_events
   \<Rightarrow> do_state \<times> org_events \<times> caller_attachment \<times> relay_output list" where
  "caller_message env listening att raw_bytes parsed st events =
     (let now = env_now env; stamps = read_live_rate_limit_stamps (d_rate st) (ca_from att) now
      in if truthy_str (ca_call_id att) then (st, events, att, [OutError ReProtocolError (ca_call_id att)])
         else if raw_bytes > MAX_E2EE_WIRE_BYTES then
           (if length stamps \<ge> RATE_LIMIT_PER_HOUR then (st, events, att, [OutError ReRateLimited None])
            else (schedule_next_alarm now (rate_hit now (ca_from att) stamps st), events, att, [OutError ReMessageTooLarge None]))
         else case safe_parse_frame parse_call_request parsed of
           None \<Rightarrow> (st, events, att, [OutError ReProtocolError None])
         | Some frame \<Rightarrow>
             if \<not> caller_addressed att (cr_envelope frame) then (st, events, att, [OutError ReProtocolError None])
             else case durable_retry env att frame st of
               Some answer \<Rightarrow> (st, events, att, answer)
             | None \<Rightarrow>
                 if length stamps \<ge> RATE_LIMIT_PER_HOUR then (st, events, att, [OutError ReRateLimited None])
                 else
                   let durable_mode = (cr_delivery_mode frame = Some Durable);
                       backlog = (durable_mode \<and> kv_first (d_queue st) \<noteq> None)
                   in if (\<not> listening \<or> backlog) \<and> durable_mode \<and> ca_mailbox_enabled att \<and> \<not> ca_caller_blocked att
                      then queue_call env att frame stamps st events
                      else if \<not> listening then (st, events, att, [OutError ReOffline None])
                      else ring_call env att frame stamps st events)"

subsection \<open>A frame from a listener\<close>

definition finish_durable_task ::
  "environment \<Rightarrow> task \<Rightarrow> listener_attachment \<Rightarrow> do_state \<Rightarrow> org_events \<Rightarrow> do_state \<times> org_events \<times> relay_output list" where
  "finish_durable_task env t att st events =
     (if tk_delivery_state t = None then (st, events, []) else dispatch env att (finish_txn st t) events)"

fun terminal_answer :: "listener_frame \<Rightarrow> listener_body \<Rightarrow> relay_output list" where
  "terminal_answer f (CallCancelled _) = [OutError ReCanceled (Some (lf_call_id f))]"
| "terminal_answer f CallRejected = [OutError ReProtocolError (Some (lf_call_id f))]"
| "terminal_answer f (CallOutcome _ _ _) = [OutOutcome f]"
| "terminal_answer f _ = []"

text \<open>
  The outputs are those sent while the caller is connected; a rejected call is answered before
  the next delivery, the other terminal frames after it.
\<close>

definition listener_message ::
  "environment \<Rightarrow> (string \<Rightarrow> bool) \<Rightarrow> listener_attachment \<Rightarrow> nat \<Rightarrow> js_value option \<Rightarrow> do_state \<Rightarrow> org_events
   \<Rightarrow> do_state \<times> org_events \<times> relay_output list" where
  "listener_message env uuid att raw_bytes parsed st events =
     (if raw_bytes > MAX_E2EE_WIRE_BYTES then (st, events, [])
      else case safe_parse_frame (parse_listener_frame uuid) parsed of
        None \<Rightarrow> (st, events, [])
      | Some frame \<Rightarrow>
          (case listener_txn (env_now env) st att frame of
             (st1, LrIgnored) \<Rightarrow> (st1, events, [])
           | (st1, LrNotCancelled) \<Rightarrow> (st1, events, [])
           | (st1, LrAdvanced rec state flushes) \<Rightarrow>
               (let (st2, events') = (if flushes then flush_audit_outbox (env_d1 env) (env_now env) st1 events else (st1, events))
                in (st2, events', [OutStatus state (tk_call_id rec)]))
           | (st1, LrTerminal rec t) \<Rightarrow>
               (let (st2, events') = flush_audit_outbox (env_d1 env) (env_now env) st1 events;
                    (st3, events'', outs) = finish_durable_task env t att st2 events'
                in (st3, events'', if lf_body frame = CallRejected then terminal_answer frame (lf_body frame) @ outs
                                   else outs @ terminal_answer frame (lf_body frame)))))"

subsection \<open>Cancelling a task\<close>

datatype cancel_answer =
  CancelUnauthorized
| CancelNotFound
| CancelNotCancelable
| CancelDone task
| CancelAsked int

definition then_dispatch ::
  "environment \<Rightarrow> listener_attachment option \<Rightarrow> do_state \<Rightarrow> org_events \<Rightarrow> do_state \<times> org_events \<times> relay_output list" where
  "then_dispatch env listener st events = (case listener of
     None \<Rightarrow> (st, events, []) | Some att \<Rightarrow> dispatch env att st events)"

text \<open>
  \<open>asked\<close> says whether a request to cancel this call already waits for the listener, which is
  then not asked again; \<open>CancelAsked\<close> carries how long it has to confirm.
\<close>

definition cancel_task ::
  "environment \<Rightarrow> listener_attachment option \<Rightarrow> bool \<Rightarrow> string \<Rightarrow> string \<Rightarrow> do_state \<Rightarrow> org_events
   \<Rightarrow> do_state \<times> org_events \<times> cancel_answer \<times> relay_output list" where
  "cancel_task env listener asked call_id caller st events =
     (if caller = [] then (st, events, CancelUnauthorized, [])
      else case get_call st call_id of
        None \<Rightarrow> (st, events, CancelNotFound, [])
      | Some t \<Rightarrow>
          if \<not> task_belongs_to_caller t caller then (st, events, CancelNotFound, [])
          else if task_is_terminal t then (st, events, CancelNotCancelable, [])
          else case (if cancelable_state t then cancel_txn (env_now env) st call_id else (st, None)) of
            (st1, Some canceled) \<Rightarrow>
              (let (st2, events') = flush_audit_outbox (env_d1 env) (env_now env) st1 events;
                   (st3, events'', outs) = then_dispatch env listener st2 events'
               in (st3, events'', CancelDone canceled, outs))
          | (st1, None) \<Rightarrow>
              (case listener of
                 None \<Rightarrow> (st1, events, CancelNotCancelable, [])
               | Some _ \<Rightarrow> (st1, events,
                   CancelAsked (min CANCEL_CONFIRM_TIMEOUT_MS (max 1 (tk_deadline t - env_now env))),
                   if asked then [] else [OutCancelCall call_id (map_option ls_lease_id (tk_lease t))])))"

subsection \<open>The alarm\<close>

fun expire_all :: "int \<Rightarrow> ((int \<times> string) \<times> string) list \<Rightarrow> do_state \<Rightarrow> do_state \<times> task list" where
  "expire_all now [] st = (st, [])"
| "expire_all now ((key, call_id) # due) st =
     (if fst key > now then (st, [])
      else let (st1, expired) = expire_due now st key;
               (st2, timed_out) = expire_all now due st1
           in (st2, (case expired of Some (t, True) \<Rightarrow> t # timed_out | _ \<Rightarrow> timed_out)))"

definition alarm ::
  "environment \<Rightarrow> listener_attachment option \<Rightarrow> do_state \<Rightarrow> org_events \<Rightarrow> do_state \<times> org_events \<times> relay_output list" where
  "alarm env listener st events =
     (let now = env_now env;
          st0 = st\<lparr>d_alarm := None\<rparr>;
          st1 = (if truthy_str (d_active st0) then recover_expired_lease now st0 (the (d_active st0)) else st0);
          (st2, timed_out) = expire_all now (kv_list_limit CALL_AUDIT_DRAIN_LIMIT (d_due st1)) st1;
          (st3, events') = flush_audit_outbox (env_d1 env) now st2 events;
          st4 = st3\<lparr>d_rate := fst (continue_rate_limit_maintenance (d_rate st3) now)\<rparr>;
          (st5, events'', outs) = then_dispatch env listener st4 events'
      in (schedule_next_alarm now st5, events'',
          map (\<lambda>t. OutError ReTimeout (Some (tk_call_id t))) timed_out @ outs))"

subsection \<open>Every entry point is a run of steps\<close>

lemma dispatch_runs:
  assumes "dispatch env att (sy_do s) (sy_events s) = (st, ev, out)" "mailbox_reachable s"
  shows "ends_in s st ev"
proof -
  have "dispatch_next (dispatch_fuel (sy_do s)) env att (sy_do s) (sy_events s) \<noteq> None"
    by (rule dispatch_returns[OF reachable_do_inv(1)[OF assms(2)]]) (simp add: dispatch_fuel_def)
  then show ?thesis using assms(1) dispatch_ends_in[OF _ assms(2)] by (auto simp: dispatch_def)
qed

lemma then_dispatch_runs:
  assumes "then_dispatch env listener (sy_do s) (sy_events s) = (st, ev, out)" "mailbox_reachable s"
  shows "ends_in s st ev"
  using assms dispatch_runs ends_in_self by (cases listener) (auto simp: then_dispatch_def)

lemma ends_in_flush:
  assumes "ends_in s st1 ev1" "flush_audit_outbox d1 now st1 ev1 = (st2, ev2)"
  shows "ends_in s st2 ev2"
  by (rule ends_in_trans[OF assms(1)], rule flush_ends_in) (use assms(2) in simp)

lemma ends_in_dispatch:
  assumes "ends_in s st1 ev1" "then_dispatch env listener st1 ev1 = (st2, ev2, out)" "mailbox_reachable s"
  shows "ends_in s st2 ev2"
  by (rule ends_in_trans[OF assms(1)], rule then_dispatch_runs)
     (use assms(2,3) sys_run_reachable in auto)

lemma ends_in_do:
  assumes "ends_in s st ev" "\<And>s1 :: system. sy_do s1 = st \<Longrightarrow> sys_step now s1 (s1\<lparr>sy_do := st'\<rparr>)"
  shows "ends_in s st' ev"
proof (rule ends_in_trans[OF assms(1)])
  fix s1 :: system assume a: "sy_do s1 = st" "sy_events s1 = ev"
  show "ends_in s1 st' ev" using ends_in_step[OF assms(2)[OF a(1)]] a(2) by simp
qed

lemma ends_in_rate: "ends_in s st ev \<Longrightarrow> ends_in s (st\<lparr>d_rate := r\<rparr>) ev"
  by (erule ends_in_do[where now = 0]) (use rate in metis)

lemma ends_in_hit: "ends_in s st ev \<Longrightarrow> ends_in s (rate_hit now caller stamps st) ev"
  unfolding rate_hit_def by (rule ends_in_rate)

lemma ends_in_schedule: "ends_in s st ev \<Longrightarrow> ends_in s (schedule_next_alarm now st) ev"
  by (erule ends_in_do[where now = now]) (use reschedule in metis)

lemma evict_runs:
  assumes "evict_credentials org handle agent_id generation sockets (sy_do s) = (st, r)"
  shows "ends_in s st (sy_events s)"
proof (cases "st = sy_do s")
  case True
  then show ?thesis using ends_in_self by simp
next
  case False
  then obtain g where "st = keep_floor (org, agent_id) g (sy_do s)"
    using assms by (auto simp: evict_credentials_def split: option.splits if_splits)
  then show ?thesis using ends_in_step[OF raise_floor[of 0 s "(org, agent_id)" g]] by simp
qed

text \<open>A caller's frame.\<close>

lemma call_request_message:
  assumes "safe_parse_frame parse_call_request parsed = Some frame" "cr_delivery_mode frame = Some Durable"
  shows "truthy_str (cr_message_id frame)"
proof -
  obtain v where "parse_call_request v = Some frame" using assms(1) by (auto simp: safe_parse_frame_def split: option.splits)
  from parse_call_request_ok(4)[OF this assms(2)] obtain m where "cr_message_id frame = Some m" "message_id_re m" by blast
  then show ?thesis by (auto simp: message_id_re_def hex_of_length_def)
qed

lemma queue_call_runs:
  assumes q: "queue_call env att frame stamps (sy_do s) (sy_events s) = (st, ev, att', out)"
    and ok: "caller_ok att" "truthy_str (cr_message_id frame)" and fresh: "env_call_id env \<noteq> []" "env_call_id env \<notin> sy_used s"
  shows "ends_in s st ev"
proof -
  let ?t = "queued_task (env_now env) att frame (env_digest env (cr_envelope frame)) (env_call_id env)"
  let ?x = "call_audit_intent EvSubmit ?t (ca_from att) HandleActor (ca_source att) (env_now env)"
  obtain st1 r where a: "admit_txn (env_now env) (sy_do s) ?t ?x = (st1, r)" by fastforce
  have e1: "ends_in s st1 (sy_events s)"
    using ends_in_step[OF admit[OF ok fresh refl, of "env_now env" "env_digest env (cr_envelope frame)"]] a by simp
  obtain st2 ev2 where f: "flush_audit_outbox (env_d1 env) (env_now env) st1 (sy_events s) = (st2, ev2)" by fastforce
  note e2 = ends_in_flush[OF e1 f]
  show ?thesis
    using q a f e1 ends_in_hit[OF e1] ends_in_schedule[OF ends_in_hit[OF e2]]
    by (cases r) (auto simp: queue_call_def Let_def)
qed

lemma ring_call_runs:
  assumes q: "ring_call env att frame stamps (sy_do s) (sy_events s) = (st, ev, att', out)"
    and ok: "caller_ok att" and fresh: "env_call_id env \<noteq> []" "env_call_id env \<notin> sy_used s"
  shows "ends_in s st ev"
proof -
  let ?now = "env_now env" and ?t = "ringing_task (env_now env) att frame (env_call_id env)"
  let ?x = "call_audit_intent EvSubmit ?t (ca_from att) HandleActor (ca_source att) ?now"
  let ?s1 = "s\<lparr>sy_do := rate_hit ?now (ca_from att) stamps (sy_do s)\<rparr>"
  have r1: "sys_run s ?s1" unfolding rate_hit_def by (rule sys_run_step[OF rate])
  have "env_call_id env \<notin> sy_used ?s1" using fresh by simp
  from sys_run_snoc[OF r1 sync_submit[OF ok fresh(1) this refl, of ?now frame]]
  have e1: "ends_in s (persist_txn ?now (rate_hit ?now (ca_from att) stamps (sy_do s)) ?t ?x) (sy_events s)"
    by (rule ends_inI) simp_all
  obtain st2 ev2 where f: "flush_audit_outbox (env_d1 env) ?now
      (persist_txn ?now (rate_hit ?now (ca_from att) stamps (sy_do s)) ?t ?x) (sy_events s) = (st2, ev2)" by fastforce
  show ?thesis
    using q f ends_in_schedule[OF ends_in_flush[OF e1 f]] by (auto simp: ring_call_def Let_def)
qed

lemma caller_message_runs:
  assumes "caller_message env listening att n parsed (sy_do s) (sy_events s) = (st, ev, att', out)"
    and ok: "caller_ok att" and fresh: "env_call_id env \<noteq> []" "env_call_id env \<notin> sy_used s"
  shows "ends_in s st ev"
proof -
  have self: "ends_in s (sy_do s) (sy_events s)" by (rule ends_in_self)
  have big: "ends_in s (schedule_next_alarm now (rate_hit now caller stamps (sy_do s))) (sy_events s)" for now caller stamps
    by (intro ends_in_schedule ends_in_hit self)
  show ?thesis
    using assms(1) self big queue_call_runs[OF _ ok call_request_message fresh] ring_call_runs[OF _ ok fresh]
    by (auto simp: caller_message_def Let_def split: if_splits option.splits)
qed

text \<open>A listener's frame.\<close>

lemma listener_message_runs:
  assumes m: "listener_message env uuid att n parsed (sy_do s) (sy_events s) = (st, ev, out)" and r: "mailbox_reachable s"
  shows "ends_in s st ev"
proof (cases "n > MAX_E2EE_WIRE_BYTES \<or> safe_parse_frame (parse_listener_frame uuid) parsed = None")
  case True
  then have "st = sy_do s \<and> ev = sy_events s" using m by (auto simp: listener_message_def split: if_splits)
  then show ?thesis using ends_in_self by simp
next
  case False
  then obtain frame where p: "safe_parse_frame (parse_listener_frame uuid) parsed = Some frame"
    "\<not> n > MAX_E2EE_WIRE_BYTES" by auto
  obtain st1 res where t: "listener_txn (env_now env) (sy_do s) att frame = (st1, res)" by fastforce
  have run: "sys_run s (add_pending (frame_continuation res) (s\<lparr>sy_do := st1\<rparr>))"
    by (rule sys_run_step[OF listener_frame[OF t]])
  have plain: "ends_in s st1 (sy_events s)" if "frame_continuation res = []"
    by (rule ends_inI[OF run]) (simp_all add: that)
  show ?thesis
  proof (cases res)
    case (LrTerminal rec x)
    let ?s1 = "add_pending [CFinish x] (s\<lparr>sy_do := st1\<rparr>)"
    obtain st2 ev2 where f: "flush_audit_outbox (env_d1 env) (env_now env) st1 (sy_events s) = (st2, ev2)" by fastforce
    obtain st3 ev3 o3 where d: "finish_durable_task env x att st2 ev2 = (st3, ev3, o3)" by (metis prod_cases3)
    have eq: "st = st3" "ev = ev3" using m p t LrTerminal f d by (auto simp: listener_message_def)
    have run1: "sys_run s ?s1" using run LrTerminal by simp
    have "ends_in ?s1 st2 ev2" by (rule flush_ends_in) (use f in simp)
    then obtain s2 where s2: "sys_run ?s1 s2" "sy_do s2 = st2" "sy_events s2 = ev2" "sy_pending s2 = CFinish x # sy_pending s"
      unfolding ends_in_def by auto
    have run2: "sys_run s s2" using sys_run_trans[OF run1 s2(1)] .
    show ?thesis
    proof (cases "tk_delivery_state x = None")
      case True
      have "sys_run s (done_pending (CFinish x) s2)"
        by (rule sys_run_snoc[OF run2 crash[where now = 0]]) simp
      from ends_inI[OF this] show ?thesis using True d s2(2-4) eq by (simp add: finish_durable_task_def)
    next
      case False
      let ?s3 = "done_pending (CFinish x) (s2\<lparr>sy_do := finish_txn (sy_do s2) x\<rparr>)"
      have run3: "sys_run s ?s3" by (rule sys_run_snoc[OF run2 finish[where now = 0]]) (simp add: s2(4))
      then have e3: "ends_in s (finish_txn st2 x) ev2" by (rule ends_inI) (use s2 in simp_all)
      have "dispatch env att (finish_txn st2 x) ev2 = (st3, ev3, o3)" using d False by (simp add: finish_durable_task_def)
      then show ?thesis
        using ends_in_dispatch[OF e3, of env "Some att" st3 ev3 o3] r eq by (simp add: then_dispatch_def)
    qed
  next
    case (LrAdvanced rec state fl)
    show ?thesis
    proof (cases fl)
      case True
      obtain st2 ev2 where f: "flush_audit_outbox (env_d1 env) (env_now env) st1 (sy_events s) = (st2, ev2)" by fastforce
      then show ?thesis using m p t LrAdvanced True ends_in_flush[OF plain f] by (auto simp: listener_message_def)
    next
      case False
      then show ?thesis using m p t LrAdvanced plain by (auto simp: listener_message_def)
    qed
  qed (use m p t plain in \<open>auto simp: listener_message_def\<close>)
qed

lemma cancel_task_runs:
  assumes m: "cancel_task env listener asked call_id caller (sy_do s) (sy_events s) = (st, ev, answer, out)" and r: "mailbox_reachable s"
  shows "ends_in s st ev"
proof (cases "\<exists>t. caller \<noteq> [] \<and> get_call (sy_do s) call_id = Some t \<and> task_belongs_to_caller t caller \<and>
    \<not> task_is_terminal t \<and> cancelable_state t")
  case False
  then have "st = sy_do s \<and> ev = sy_events s"
    using m by (auto simp: cancel_task_def split: if_splits option.splits)
  then show ?thesis using ends_in_self by simp
next
  case True
  then obtain t where t: "caller \<noteq> []" "get_call (sy_do s) call_id = Some t" "task_belongs_to_caller t caller"
    "\<not> task_is_terminal t" "cancelable_state t" by blast
  obtain st1 c where c: "cancel_txn (env_now env) (sy_do s) call_id = (st1, c)" by fastforce
  obtain canceled where cs: "c = Some canceled" using c t by (auto simp: cancel_txn_def Let_def split: prod.splits)
  obtain st2 ev2 where f: "flush_audit_outbox (env_d1 env) (env_now env) st1 (sy_events s) = (st2, ev2)" by fastforce
  obtain st3 ev3 o3 where d: "then_dispatch env listener st2 ev2 = (st3, ev3, o3)" by (metis prod_cases3)
  have "ends_in s st1 (sy_events s)" using ends_in_step[OF cancel[of "env_now env" s call_id]] c by simp
  from ends_in_dispatch[OF ends_in_flush[OF this f] d r] show ?thesis
    using m t c cs f d by (simp add: cancel_task_def)
qed

text \<open>The alarm runs with its own continuation pending, which its last step removes.\<close>

lemma expire_all_runs:
  assumes "expire_all now due st0 = (st, timed_out)" "ends_in s st0 ev"
  shows "ends_in s st ev"
  using assms
proof (induction now due st0 arbitrary: st timed_out rule: expire_all.induct)
  case (2 now key call_id due st0)
  show ?case
  proof (cases "fst key > now")
    case False
    obtain st1 x where e: "expire_due now st0 key = (st1, x)" by fastforce
    obtain st2 y where r: "expire_all now due st1 = (st2, y)" by fastforce
    have "ends_in s st1 ev"
    proof (rule ends_in_do[OF "2.prems"(2)])
      fix s1 :: system assume "sy_do s1 = st0"
      then show "sys_step now s1 (s1\<lparr>sy_do := st1\<rparr>)" using expire[of key now s1] False e by simp
    qed
    then show ?thesis using "2.IH"[OF False e[symmetric] refl r] "2.prems"(1) False e r by simp
  qed (use 2 in simp)
qed simp

lemma alarm_runs:
  assumes m: "alarm env listener (sy_do s) (sy_events s) = (st, ev, out)" and r: "mailbox_reachable s"
  shows "ends_in s st ev"
proof -
  let ?now = "env_now env"
  let ?s0 = "add_pending [CAlarm] (s\<lparr>sy_do := (sy_do s)\<lparr>d_alarm := None\<rparr>\<rparr>)"
  have run0: "sys_run s ?s0" by (rule sys_run_step[OF alarm_fires[of 0 s]])
  let ?st0 = "(sy_do s)\<lparr>d_alarm := None\<rparr>"
  obtain st1 where st1: "st1 = (if truthy_str (d_active ?st0) then recover_expired_lease ?now ?st0 (the (d_active ?st0)) else ?st0)"
    by simp
  have self0: "ends_in ?s0 ?st0 (sy_events s)" using ends_in_self[of ?s0] by simp
  have e1: "ends_in ?s0 st1 (sy_events s)"
  proof (cases "truthy_str (d_active ?st0)")
    case True
    have "ends_in ?s0 (recover_expired_lease ?now ?st0 (the (d_active ?st0))) (sy_events s)"
    proof (rule ends_in_do[OF self0])
      fix s1 :: system assume "sy_do s1 = ?st0"
      then show "sys_step ?now s1 (s1\<lparr>sy_do := recover_expired_lease ?now ?st0 (the (d_active ?st0))\<rparr>)"
        using recover[of ?now s1 "the (d_active ?st0)"] by simp
    qed
    then show ?thesis using st1 True by simp
  qed (use self0 st1 in simp)
  obtain st2 tos where x: "expire_all ?now (kv_list_limit CALL_AUDIT_DRAIN_LIMIT (d_due st1)) st1 = (st2, tos)" by fastforce
  note e2 = expire_all_runs[OF x e1]
  obtain st3 ev3 where f: "flush_audit_outbox (env_d1 env) ?now st2 (sy_events s) = (st3, ev3)" by fastforce
  note e3 = ends_in_flush[OF e2 f]
  let ?st4 = "st3\<lparr>d_rate := fst (continue_rate_limit_maintenance (d_rate st3) ?now)\<rparr>"
  note e4 = ends_in_rate[OF e3, of "fst (continue_rate_limit_maintenance (d_rate st3) ?now)"]
  obtain st5 ev5 o5 where d: "then_dispatch env listener ?st4 ev3 = (st5, ev5, o5)" by (metis prod_cases3)
  have e5: "ends_in ?s0 st5 ev5"
    by (rule ends_in_dispatch[OF e4 d]) (rule sys_run_reachable[OF run0 r])
  obtain s5 where s5: "sys_run ?s0 s5" "sy_do s5 = st5" "sy_events s5 = ev5" "sy_pending s5 = CAlarm # sy_pending s"
    using e5 unfolding ends_in_def by auto
  have "sys_run s (done_pending CAlarm (s5\<lparr>sy_do := schedule_next_alarm ?now (sy_do s5)\<rparr>))"
    by (rule sys_run_snoc[OF sys_run_trans[OF run0 s5(1)] alarm_ends]) (simp add: s5(4))
  from ends_inI[OF this] show ?thesis
    using m s5 d f x st1 by (simp add: alarm_def Let_def)
qed

lemma open_socket_runs:
  assumes "open_socket env q (sy_do s) (sy_events s) = (answer, st, ev, out)" "mailbox_reachable s"
  shows "ends_in s st ev"
  using assms dispatch_runs[OF _ assms(2)] ends_in_self[of s]
  by (cases "accept_socket (sy_do s) q") (auto simp: open_socket_def split: if_splits)

end
