(* ===== verification/MailboxResults.thy ===== *)
theory MailboxResults
  imports MailboxEvents
begin

text \<open>
  The properties of the handlers: they refine the step relation, dispatch terminates and
  hands out only what it checked, and three behaviours the interleavings allow.
\<close>

datatype mailbox_request =
  OpenSocket ws_request
| EvictCredentials string string string "int option" "attachment list"
| CallerFrame bool caller_attachment nat "js_value option"
| ListenerFrame "string \<Rightarrow> bool" listener_attachment nat "js_value option"
| CancelTask bool string string
| AlarmFires

fun handle ::
  "environment \<Rightarrow> listener_attachment option \<Rightarrow> mailbox_request \<Rightarrow> do_state \<Rightarrow> org_events \<Rightarrow> do_state \<times> org_events" where
  "handle env listener (OpenSocket r) st ev = (case open_socket env r st ev of (_, st', ev', _) \<Rightarrow> (st', ev'))"
| "handle env listener (EvictCredentials org h a g sockets) st ev = (fst (evict_credentials org h a g sockets st), ev)"
| "handle env listener (CallerFrame listening att n parsed) st ev =
     (case caller_message env listening att n parsed st ev of (st', ev', _, _) \<Rightarrow> (st', ev'))"
| "handle env listener (ListenerFrame uuid att n parsed) st ev =
     (case listener_message env uuid att n parsed st ev of (st', ev', _) \<Rightarrow> (st', ev'))"
| "handle env listener (CancelTask asked call_id caller) st ev =
     (case cancel_task env listener asked call_id caller st ev of (st', ev', _, _) \<Rightarrow> (st', ev'))"
| "handle env listener AlarmFires st ev = (case alarm env listener st ev of (st', ev', _) \<Rightarrow> (st', ev'))"

fun request_ok :: "environment \<Rightarrow> system \<Rightarrow> mailbox_request \<Rightarrow> bool" where
  "request_ok env s (CallerFrame _ att _ _) = (caller_ok att \<and> env_call_id env \<noteq> [] \<and> env_call_id env \<notin> sy_used s)"
| "request_ok env s _ = True"

text \<open>
  C16: Every handler refines the step relation. Run from a reachable state on any request,
  with any D1 outcome, it ends in the storage and event table of a reachable state, with no
  continuation left over.
\<close>

theorem handlers_refine_steps:
  assumes "mailbox_reachable s" "request_ok env s q" "handle env listener q (sy_do s) (sy_events s) = (st, ev)"
  shows "\<exists>s'. sys_run s s' \<and> mailbox_reachable s' \<and> sy_do s' = st \<and> sy_events s' = ev \<and> sy_pending s' = sy_pending s"
proof -
  have "ends_in s st ev"
  proof (cases q)
    case (OpenSocket r)
    then show ?thesis using assms open_socket_runs by (auto split: prod.splits)
  next
    case (EvictCredentials org h a g sockets)
    then show ?thesis using assms(3) evict_runs[of org h a g sockets s] by (cases "evict_credentials org h a g sockets (sy_do s)") auto
  next
    case (CallerFrame listening att n parsed)
    then show ?thesis using assms caller_message_runs[of env listening att n parsed s] by (auto split: prod.splits)
  next
    case (ListenerFrame uuid att n parsed)
    then show ?thesis using assms listener_message_runs[of env uuid att n parsed s] by (auto split: prod.splits)
  next
    case (CancelTask asked i caller)
    then show ?thesis using assms cancel_task_runs[of env listener asked i caller s] by (auto split: prod.splits)
  next
    case AlarmFires
    then show ?thesis using assms alarm_runs[of env listener s] by (auto split: prod.splits)
  qed
  then show ?thesis using sys_run_reachable assms(1) unfolding ends_in_def by blast
qed

definition mb_env :: environment where
  "mb_env = \<lparr>env_now = 5000, env_handles = (\<lambda>_ h. if h = ''ann'' then Some (Some ''A1'', 0) else if h = ''bob'' then Some (Some ''B1'', 0) else None),
     env_cards = (\<lambda>_ _ _. Some \<lparr>sc_offline_enabled = True, sc_blocked = []\<rparr>), env_d1 = D1LostReply,
     env_lease_id = ''l2'', env_call_id = ''c9'', env_digest = (\<lambda>_. ''digest'')\<rparr>"

definition mb_listener :: listener_attachment where
  "mb_listener = \<lparr>la_principal = None, la_org = Some ''acme'', la_handle = Some ''bob'', la_source = no_source,
     la_relay_origin = Some ''https://r'', la_credential_generation = None, la_mailbox_capable = True,
     la_listener_session_id = Some ''s1'', la_lease_ms = None, la_execution_timeout_ms = None\<rparr>"

theorem handlers_refine_steps_witness:
  "\<exists>s'. sys_run mb_leased s' \<and> mailbox_reachable s' \<and>
     sy_do s' = fst (handle mb_env None AlarmFires (sy_do mb_leased) (sy_events mb_leased))"
proof -
  obtain st ev where h: "handle mb_env None AlarmFires (sy_do mb_leased) (sy_events mb_leased) = (st, ev)" by fastforce
  show ?thesis using handlers_refine_steps[OF mb_leased_reachable _ h] h by auto
qed

text \<open>
  C26: Dispatch terminates. However many queued heads lost their authority, one more round
  than there are queued tasks is enough, whatever D1 answers.
\<close>

theorem dispatch_terminates:
  assumes "mailbox_reachable s"
  shows "\<exists>r. dispatch_next (Suc (queued_count (sy_do s))) env att (sy_do s) events = Some r"
proof -
  have "dispatch_next (Suc (queued_count (sy_do s))) env att (sy_do s) events \<noteq> None"
    by (rule dispatch_returns[OF reachable_do_inv(1)[OF assms]]) simp
  then show ?thesis by blast
qed

theorem dispatch_terminates_witness:
  "\<exists>r. dispatch_next (Suc (queued_count (sy_do mb_admitted))) mb_env mb_listener (sy_do mb_admitted) [] = Some r"
  by (rule dispatch_terminates[OF mb_admitted_reachable])

subsection \<open>What dispatch checked\<close>

lemma authority_leased: "durable_authority_is_current env (leased_task now l t) = durable_authority_is_current env t"
  by (simp add: durable_authority_is_current_def leased_task_def Let_def split: option.split prod.split)

lemma lease_checked:
  assumes c: "check_head env st = (st1, DispatchLease)" and l: "lease_next env att st1 ev = (st2, ev2, [OutIncomingDurable u])"
  shows "durable_authority_is_current env u \<and> length (live_starts (env_now env) st) < MAILBOX_MAX_STARTS_PER_DAY \<and>
    or_default (tk_execute_by u) 0 - env_now env \<ge> RELAY_CALL_TIMEOUT_MS"
proof -
  have q: "d_queue st1 = d_queue st" "d_calls st1 = d_calls st"
    using c by (auto simp: check_head_def Let_def delete_stale_starts_def split: option.splits if_splits prod.splits)
  obtain key i p where f: "kv_first (d_queue st) = Some (key, i)" and g: "get_call st i = Some p"
    and p: "tk_delivery_state p = Some Queued" "\<not> task_is_terminal p"
    and u: "u = leased_task (env_now env) (next_lease (env_now env) (env_lease_id env) (the (la_listener_session_id att)) (la_lease_ms att) p) p"
    using l q
    by (auto simp: lease_next_def lease_txn_def Let_def incoming_frame_def get_call_def split: prod.splits option.splits if_splits)
  have "durable_authority_is_current env p \<and> length (live_starts (env_now env) st) < MAILBOX_MAX_STARTS_PER_DAY \<and>
      or_default (tk_execute_by p) 0 - env_now env \<ge> RELAY_CALL_TIMEOUT_MS"
    using c f g p by (auto simp: check_head_def Let_def split: if_splits)
  then show ?thesis unfolding u by (simp only: authority_leased) (simp add: leased_task_def)
qed

text \<open>
  Undisturbed, dispatch delivers only what it checked. A queued task it hands out has
  parties whose identities, recovery generation, card and block list are still those D1
  holds, the target has started fewer than 30 tasks in the last day, and at least the call
  timeout is left before the task must have run.
\<close>

theorem dispatch_delivers_checked:
  assumes "dispatch_next fuel env att st ev = Some (st', ev', [OutIncomingDurable u])" "\<not> truthy_str (d_active st)"
  shows "durable_authority_is_current env u \<and> or_default (tk_execute_by u) 0 - env_now env \<ge> RELAY_CALL_TIMEOUT_MS \<and>
    length (live_starts (env_now env) st) < MAILBOX_MAX_STARTS_PER_DAY"
  using assms
proof (induction fuel arbitrary: st ev)
  case (Suc fuel)
  obtain st1 r where c: "check_head env st = (st1, r)" by fastforce
  have cap: "la_mailbox_capable att" "truthy_str (la_listener_session_id att)"
    using Suc.prems by (auto split: if_splits)
  show ?case
  proof (cases r)
    case DispatchLease
    then show ?thesis using lease_checked[of env st st1 att ev] c Suc.prems cap by simp
  next
    case DispatchStop
    then show ?thesis using c Suc.prems cap by simp
  next
    case (DispatchRevoke t)
    obtain i where st1: "\<exists>starts. st1 = st\<lparr>d_starts := starts\<rparr>" using check_head_cases(2)[OF c DispatchRevoke] by blast
    obtain st3 ev3 where f: "flush_audit_outbox (env_d1 env) (env_now env) (revoke_txn (env_now env) st1 t) ev = (st3, ev3)"
      by fastforce
    have rec: "dispatch_next fuel env att st3 ev3 = Some (st', ev', [OutIncomingDurable u])"
      using Suc.prems c DispatchRevoke f cap by simp
    have live: "length (live_starts (env_now env) st) < MAILBOX_MAX_STARTS_PER_DAY"
      using c DispatchRevoke by (auto simp: check_head_def Let_def split: option.splits if_splits prod.splits)
    have "d_active (revoke_txn (env_now env) st1 t) = d_active st1"
      by (auto simp: revoke_txn_def Let_def core_fields put_call_def due_put_def due_del_def queue_del_def
          release_durable_quota_def split: option.splits)
    then have "d_active st3 = d_active st"
      using flush_core[of "revoke_txn (env_now env) st1 t" "env_d1 env" "env_now env" ev] f st1
      by (auto simp: same_core_def)
    then show ?thesis using Suc.IH[OF rec] Suc.prems(2) live by simp
  qed
qed simp

theorem dispatch_delivers_checked_witness:
  "\<exists>u. durable_authority_is_current mb_env u \<and> tk_call_id u = ''c1''"
proof -
  let ?u = "leased_task 5000 (next_lease 5000 ''l2'' ''s1'' None mb_task) mb_task"
  have start: "d_starts (sy_do mb_admitted) = []"
    by (simp add: mb_admitted_def admit_txn_def empty_system_def empty_do_state_def Let_def mb_task_fields
        put_call_def due_put_def put_intent_def arm_audit_retry_def arm_at_def call_audit_intent_def
        MAILBOX_MAX_QUEUED_TASKS_def MAILBOX_MAX_OUTSTANDING_PER_CALLER_def MAILBOX_MAX_STORED_CIPHERTEXT_BYTES_def)
  have auth: "durable_authority_is_current mb_env mb_task"
    by (simp add: durable_authority_is_current_def mb_env_def mb_task_def queued_task_def Let_def mb_caller_def)
  have head: "check_head mb_env (sy_do mb_admitted) = (sy_do mb_admitted, DispatchLease)"
    using auth start
    by (simp add: check_head_def mb_admitted_fields kv_first_def kv_list_limit_def kv_entries_def get_call_def kv_get_def
        mb_task_fields task_is_terminal_def terminal_task_states_def Let_def live_starts_def delete_stale_starts_def
        MAILBOX_MAX_STARTS_PER_DAY_def RELAY_CALL_TIMEOUT_MS_def mb_env_def)
  have lease: "lease_next mb_env mb_listener (sy_do mb_admitted) [] =
      (fst (lease_txn 5000 (sy_do mb_admitted) ''l2'' ''s1'' None), [], [OutIncomingDurable ?u])"
    by (simp add: lease_next_def lease_txn_def mb_admitted_fields kv_first_def kv_list_limit_def kv_entries_def
      get_call_def kv_get_def mb_task_fields task_is_terminal_def terminal_task_states_def Let_def mb_env_def mb_listener_def
      incoming_frame_def leased_task_def)
  have "dispatch_next 1 mb_env mb_listener (sy_do mb_admitted) [] =
      Some (fst (lease_txn 5000 (sy_do mb_admitted) ''l2'' ''s1'' None), [], [OutIncomingDurable ?u])"
    using head lease by (simp add: mb_admitted_fields mb_listener_def)
  from dispatch_delivers_checked[OF this] show ?thesis
    by (intro exI[of _ ?u]) (simp add: mb_admitted_fields leased_task_def mb_task_fields)
qed

subsection \<open>Three behaviours the interleavings allow\<close>

text \<open>The listener's frames used below.\<close>

definition mb_started :: listener_frame where
  "mb_started = \<lparr>lf_call_id = ''c1'', lf_lease_id = Some ''l1'', lf_body = CallStarted\<rparr>"

definition mb_rejected :: listener_frame where
  "mb_rejected = \<lparr>lf_call_id = ''c1'', lf_lease_id = Some ''l1'', lf_body = CallRejected\<rparr>"

definition mb_requeued :: system where
  "mb_requeued = mb_leased\<lparr>sy_do := recover_expired_lease 40000 (sy_do mb_leased) ''c1''\<rparr>"

lemma mb_requeued_reachable: "mailbox_reachable mb_requeued"
  unfolding mb_requeued_def by (rule reachable_step[OF mb_leased_reachable recover])

lemma mb_requeued_fields:
  "d_calls (sy_do mb_requeued) = [(''c1'', requeued_task 40000 mb_leased_task)]" "d_active (sy_do mb_requeued) = None"
  by (simp_all add: mb_requeued_def recover_expired_lease_def mb_leased_fields mb_leased_task_fields clear_active_if_def
      Let_def requeued_task_def)

text \<open>
  C25: A lease outlives its recovery. After the alarm has taken an expired lease back and
  requeued the task, the old lease id is still stored and a late \<open>call_started\<close> under it is
  accepted: the task is then executing while no task is active, so the next dispatch can
  hand out another one beside it.
\<close>

theorem stale_lease_starts_task:
  "\<exists>s t. mailbox_reachable s \<and> get_call (sy_do s) ''c1'' = Some t \<and> tk_delivery_state t = Some Started \<and>
     \<not> task_is_terminal t \<and> d_active (sy_do s) = None \<and>
     (\<exists>s0. mailbox_reachable s0 \<and> sys_step 41000 s0 s \<and> map_option tk_delivery_state (get_call (sy_do s0) ''c1'') = Some (Some Queued))"
proof -
  let ?p = "requeued_task 40000 mb_leased_task"
  obtain st' r where l: "listener_txn 41000 (sy_do mb_requeued) mb_listener mb_started = (st', r)" by fastforce
  let ?s = "add_pending (frame_continuation r) (mb_requeued\<lparr>sy_do := st'\<rparr>)"
  have step: "sys_step 41000 mb_requeued ?s" by (rule listener_frame[OF l])
  have g: "get_call (sy_do mb_requeued) ''c1'' = Some ?p" by (simp add: get_call_def kv_get_def mb_requeued_fields)
  have f: "\<not> task_is_terminal ?p" "tk_state ?p = Ringing" "tk_delivery_state ?p = Some Queued" "tk_call_id ?p = ''c1''"
    "valid_durable_lease ?p (Some ''l1'') mb_listener"
    using mb_leased_task_fields
    by (simp_all add: requeued_task_def task_is_terminal_def valid_durable_lease_def mb_listener_def
        mb_leased_task_def leased_task_def mb_task_fields)
  let ?n = "advanced_task 41000 ?p CallWorking mb_listener" and ?x = "accepted_intent 41000 ?p CallWorking mb_listener"
  have n: "tk_delivery_state ?n = Some Started" "tk_call_id ?n = ''c1''" "tk_task_state ?n = TsWorking"
    using f by (simp_all add: advanced_task_def Let_def)
  have "advance_txn 41000 (sy_do mb_requeued) ?p CallWorking mb_listener = (start_txn 41000 (sy_do mb_requeued) ?p ?n ?x, Some (?x \<noteq> None))"
    using f n(1) by (simp add: advance_txn_def advance_authorized_call_def team_call_lifecycle_def Let_def)
  then have st': "st' = start_txn 41000 (sy_do mb_requeued) ?p ?n ?x"
    using l g f by (simp add: listener_txn_def mb_started_def)
  have "d_calls st' = kv_put ''c1'' ?n (d_calls (sy_do mb_requeued))" "d_active st' = None"
    unfolding st' using n(2)
    by (simp_all add: start_txn_def Let_def core_fields put_call_def due_put_def due_del_def mb_requeued_fields)
  then have "get_call (sy_do ?s) ''c1'' = Some ?n" "d_active (sy_do ?s) = None"
    by (simp_all add: get_call_def kv_get_def mb_requeued_fields)
  moreover have "\<not> task_is_terminal ?n" by (simp add: task_is_terminal_def n(3) terminal_task_states_def)
  ultimately show ?thesis
    using reachable_step[OF mb_requeued_reachable step] step mb_requeued_reachable g f(3) n(1)
    by (intro exI[of _ ?s] exI[of _ ?n]) auto
qed

text \<open>
  C27: A crash can block the mailbox. The terminal write of a task and the release of the
  active slot are two transactions with a D1 call between; if the object stops there, the
  slot stays with the finished task, and every later dispatch returns without delivering
  anything, whatever is queued.
\<close>

theorem crash_blocks_dispatch:
  "\<exists>s t. mailbox_reachable s \<and> sy_pending s = [] \<and> get_call (sy_do s) ''c1'' = Some t \<and> task_is_terminal t \<and>
     d_active (sy_do s) = Some ''c1'' \<and>
     (\<forall>fuel env att ev. dispatch_next (Suc fuel) env att (sy_do s) ev = Some (sy_do s, ev, []))"
proof -
  obtain st' r where l: "listener_txn 3000 (sy_do mb_leased) mb_listener mb_rejected = (st', r)" by fastforce
  let ?s1 = "add_pending (frame_continuation r) (mb_leased\<lparr>sy_do := st'\<rparr>)"
  have step: "sys_step 3000 mb_leased ?s1" by (rule listener_frame[OF l])
  let ?n = "rejected_by_listener 3000 mb_leased_task"
  let ?x = "call_audit_intent EvFail ?n (tk_to mb_leased_task) HandleActor (la_source mb_listener) 3000"
  have v: "valid_durable_lease mb_leased_task (Some ''l1'') mb_listener"
    using mb_leased_task_fields by (simp add: valid_durable_lease_def mb_listener_def)
  have eq: "st' = persist_txn 3000 (sy_do mb_leased) ?n ?x" "r = LrTerminal mb_leased_task ?n"
    using l v mb_leased_task_fields(3) by (simp_all add: listener_txn_def mb_rejected_def mb_leased_fields Let_def)
  have T: "task_step (sy_do mb_leased) mb_leased_task (persisted_task mb_leased_task ?n) st'"
    unfolding eq using terminal_frame_step[OF reachable_do_inv(1)[OF mb_leased_reachable] mb_leased_fields(5) mb_leased_task_fields(3)]
    by blast
  have id: "tk_call_id mb_leased_task = ''c1''" by (simp add: mb_leased_task_def leased_task_def mb_task_fields)
  have g: "get_call st' ''c1'' = Some (persisted_task mb_leased_task ?n)"
    using task_step_get[OF T store_inv_wf(1)[OF reachable_parts(1)[OF mb_leased_reachable]]] id by simp
  have ok: "task_ok mb_leased_task" using store_inv_get(4)[OF reachable_parts(1)[OF mb_leased_reachable] mb_leased_fields(5)] .
  have tm: "task_is_terminal (persisted_task mb_leased_task ?n)"
    using terminal_frame_facts(2)[OF ok mb_leased_task_fields(3), of ?n 3000] by (simp add: persisted_task_def task_is_terminal_def)
  have act: "d_active st' = Some ''c1''"
    using persist_fields[OF reachable_do_inv(1)[OF mb_leased_reachable] mb_leased_fields(5), of ?n 3000 ?x]
      terminal_frame_facts[OF ok mb_leased_task_fields(3), of ?n 3000] mb_leased_task_fields(2) mb_leased_fields(2)
    unfolding eq by auto
  let ?s = "done_pending (CFinish ?n) ?s1"
  have "mailbox_reachable ?s"
    by (rule reachable_step[OF reachable_step[OF mb_leased_reachable step] crash[where now = 0]]) simp
  moreover have "sy_pending ?s = []" using eq(2) by (simp add: mb_leased_def mb_admitted_def empty_system_def)
  moreover have "dispatch_next (Suc fuel) env att (sy_do ?s) ev = Some (sy_do ?s, ev, [])" for fuel env att ev
    using act g tm by (simp add: rebindable_def)
  ultimately show ?thesis
    using g tm act by (intro exI[of _ ?s] exI[of _ "persisted_task mb_leased_task ?n"]) simp
qed

end
