(* ===== verification/Guard.thy ===== *)
theory Guard
  imports Scope
begin

text \<open>
  The tool guard of an answering agent, \<open>packages/cli/src/guard.ts\<close>: \<open>decide\<close> on one tool
  call and \<open>runGuard\<close>, the hook around it. A tool name is compared as a string; names that
  JavaScript objects inherit (\<open>constructor\<close>, \<open>__proto__\<close>) are not tool names.
\<close>

definition DENY_REASON :: string where
  "DENY_REASON = ''This action is not permitted by the answering agent's policy.''"

definition FAIL_CLOSED_REASON :: string where
  "FAIL_CLOSED_REASON = ''The answering agent's policy guard could not evaluate this action.''"

datatype guard_verdict = Allow "(string \<times> string) option" | Deny string string

fun exact_target :: "string \<Rightarrow> string option" where
  "exact_target tool = (if tool = ''Read'' then Some ''file_path'' else None)"

definition SCANNING_ROOT :: "string set" where
  "SCANNING_ROOT = {''Grep'', ''LS''}"

definition NO_PATH_SURFACE :: "string set" where
  "NO_PATH_SURFACE = {''WebSearch''}"

definition LOCAL_MUTATION :: "string set" where
  "LOCAL_MUTATION = {''Bash'', ''Write'', ''Edit'', ''NotebookEdit''}"

definition selector_key :: "string \<Rightarrow> string option" where
  "selector_key tool =
     (if tool = ''Grep'' then Some ''glob'' else if tool = ''Glob'' then Some ''pattern'' else None)"

definition glob_literal_prefix :: "string \<Rightarrow> string" where
  "glob_literal_prefix pattern =
     (let head = takeWhile (\<lambda>c. c \<notin> {CHR ''*'', CHR ''?'', CHR ''['', CHR 0x7B}) pattern
      in if CHR ''/'' \<notin> set head then []
         else let dir = rev (tl (dropWhile (\<lambda>c. c \<noteq> CHR ''/'') (rev head)))
              in if dir = [] then ''/'' else dir)"

definition tool_word :: "char \<Rightarrow> bool" where
  "tool_word c = (CHR ''A'' \<le> c \<and> c \<le> CHR ''Z'' \<or> CHR ''a'' \<le> c \<and> c \<le> CHR ''z'' \<or>
     CHR ''0'' \<le> c \<and> c \<le> CHR ''9'' \<or> c = CHR ''_'' \<or> c = CHR ''-'')"

definition mcp_tool :: "string \<Rightarrow> bool" where
  "mcp_tool tool =
     (starts_with ''mcp__'' tool \<and> list_all tool_word tool \<and>
      (let rest = drop 5 tool
       in list_ex (\<lambda>i. take 2 (drop i rest) = ''__'') [1..<length rest - 2]))"

text \<open>\<open>gc_string\<close> is \<open>String(v)\<close>, which only the audit detail uses.\<close>

record decide_context =
  gc_machine :: machine
  gc_scope :: scope
  gc_guard_root :: string
  gc_extra_secret_roots :: "string list"
  gc_string :: "js_value \<Rightarrow> string"

definition guarded_scope :: "decide_context \<Rightarrow> scope" where
  "guarded_scope ctx = (gc_scope ctx)\<lparr>sc_denied :=
     sc_denied (gc_scope ctx) @ [gc_guard_root ctx] @ gc_extra_secret_roots ctx\<rparr>"

definition guard_canon :: "decide_context \<Rightarrow> string \<Rightarrow> string \<Rightarrow> string" where
  "guard_canon ctx cwd p =
     canonical (m_cwd (gc_machine ctx)) p cwd (m_home (gc_machine ctx)) (m_realpath (gc_machine ctx))"

definition unreachable_path :: "decide_context \<Rightarrow> string \<Rightarrow> string \<Rightarrow> bool" where
  "unreachable_path ctx cwd target = (\<not> is_readable (gc_machine ctx) cwd (guarded_scope ctx) target)"

definition guard_denied :: "decide_context \<Rightarrow> string list" where
  "guard_denied ctx = denied_roots (gc_machine ctx) (guarded_scope ctx)"

definition scan_reaches_secret :: "decide_context \<Rightarrow> string \<Rightarrow> bool" where
  "scan_reaches_secret ctx root =
     list_ex (\<lambda>d. is_inside (m_cwd (gc_machine ctx)) root d \<or> is_ancestor_of (m_cwd (gc_machine ctx)) root d)
       (guard_denied ctx)"

definition target_inside_secret :: "decide_context \<Rightarrow> string \<Rightarrow> bool" where
  "target_inside_secret ctx target =
     list_ex (\<lambda>d. is_inside (m_cwd (gc_machine ctx)) target d) (guard_denied ctx)"

definition decide_fetch :: "string \<Rightarrow> (string \<times> js_value) list \<Rightarrow> guard_verdict" where
  "decide_fetch tool args = (case obj_get args ''url'' of
     JStr url \<Rightarrow> if starts_with ''http://'' url \<or> starts_with ''https://'' url then Allow None
                 else Deny ''unparseable-url'' tool
   | _ \<Rightarrow> Deny ''unparseable-url'' tool)"

definition decide_exact :: "decide_context \<Rightarrow> string \<Rightarrow> js_value \<Rightarrow> guard_verdict" where
  "decide_exact ctx cwd raw = (case raw of
     JStr (c # cs) \<Rightarrow>
       (let target = guard_canon ctx cwd (c # cs)
        in if denied_basename target then Deny ''denied-basename'' target
           else if target_inside_secret ctx target then Deny ''inside-unreachable-source'' target
           else if unreachable_path ctx cwd target then Deny ''source-is-secret'' target
           else Allow None)
   | _ \<Rightarrow> Deny ''unparseable-target'' (gc_string ctx raw))"

definition decide_selector :: "decide_context \<Rightarrow> string \<Rightarrow> string \<Rightarrow> string \<Rightarrow> js_value \<Rightarrow> guard_verdict" where
  "decide_selector ctx cwd tool raw_root selector = (case selector of
     JUndefined \<Rightarrow> if tool = ''Glob'' then Deny ''unparseable-selector'' tool else Allow None
   | JStr s \<Rightarrow>
       (if ''..'' \<in> set (split_on (CHR ''/'') s) then Deny ''escaping-pattern'' s
        else if denied_basename s then Deny ''denied-basename-pattern'' s
        else let prefix = glob_literal_prefix s
             in if prefix = [] then Allow None
                else let selector_root = guard_canon ctx cwd
                           (if is_absolute (expand_home prefix (m_home (gc_machine ctx))) then prefix
                            else path_join raw_root prefix)
                     in if scan_reaches_secret ctx selector_root then Deny ''root-reaches-denied-path'' selector_root
                        else if unreachable_path ctx cwd selector_root then Deny ''source-is-secret'' selector_root
                        else Allow None)
   | _ \<Rightarrow> Deny ''unparseable-selector'' tool)"

definition scan_root :: "string \<Rightarrow> (string \<times> js_value) list \<Rightarrow> string option" where
  "scan_root cwd args = (case map_of args ''path'' of
     None \<Rightarrow> Some cwd
   | Some (JStr p) \<Rightarrow> Some (if p = [] then cwd else p)
   | Some _ \<Rightarrow> None)"

definition decide_scan :: "decide_context \<Rightarrow> string \<Rightarrow> string \<Rightarrow> (string \<times> js_value) list \<Rightarrow> guard_verdict" where
  "decide_scan ctx cwd tool args = (case scan_root cwd args of
     None \<Rightarrow> Deny ''unparseable-root'' tool
   | Some raw_root \<Rightarrow>
       (let root = guard_canon ctx cwd raw_root
        in if denied_basename root then Deny ''denied-basename'' root
           else if scan_reaches_secret ctx root then Deny ''root-reaches-denied-path'' root
           else if unreachable_path ctx cwd root then Deny ''source-is-secret'' root
           else decide_selector ctx cwd tool raw_root
                  (case selector_key tool of None \<Rightarrow> JUndefined | Some k \<Rightarrow> obj_get args k)))"

definition decide :: "decide_context \<Rightarrow> string \<Rightarrow> js_value \<Rightarrow> string \<Rightarrow> guard_verdict" where
  "decide ctx tool input cwd = (case input of
     JObj args \<Rightarrow>
       (if tool \<in> LOCAL_MUTATION then Deny ''local-mutation-disabled'' tool
        else if tool \<in> NO_PATH_SURFACE then Allow None
        else if tool = ''ToolSearch'' then Allow None
        else if mcp_tool tool then Allow None
        else if tool = ''Skill'' then Allow None
        else if tool = ''WebFetch'' then decide_fetch tool args
        else case exact_target tool of
          Some key \<Rightarrow> decide_exact ctx cwd (obj_get args key)
        | None \<Rightarrow>
            if tool \<in> SCANNING_ROOT \<or> tool = ''Glob'' then decide_scan ctx cwd tool args
            else Deny ''unclassified-tool'' tool)
   | _ \<Rightarrow> Deny ''unparseable-input'' tool)"

subsection \<open>The hook\<close>

text \<open>
  One line of a log: \<open>tools.log\<close> records every decision, \<open>calls.log\<close> the denied and the
  flagged ones. \<open>gd_append\<close> says whether appending to that file succeeds.
\<close>

datatype guard_log = ToolsLog | CallsLog

datatype guard_entry =
  ToolCall string bool
| ToolDenied string string string
| ToolFlagged string string string

record guard_line =
  gl_file :: guard_log
  gl_ts :: string
  gl_call_id :: string
  gl_correlation_id :: "string option"
  gl_entry :: guard_entry

record guard_deps =
  gd_call_id :: string
  gd_correlation_id :: "string option"
  gd_now :: string
  gd_machine :: machine
  gd_scope :: scope
  gd_package_root :: string
  gd_append :: "guard_log \<Rightarrow> bool"
  gd_string :: "js_value \<Rightarrow> string"

datatype guard_output = RunTool | DenyTool string | FailClosed string

fun guard_exit_code :: "guard_output \<Rightarrow> int" where
  "guard_exit_code RunTool = 0"
| "guard_exit_code (DenyTool reason) = 0"
| "guard_exit_code (FailClosed reason) = 2"

definition guard_input :: "guard_deps \<Rightarrow> js_value option \<Rightarrow> (string \<times> js_value \<times> string) option" where
  "guard_input deps parsed = (case parsed of
     Some (JObj kvs) \<Rightarrow>
       (case obj_get kvs ''tool_name'' of
          JStr (c # cs) \<Rightarrow>
            Some (c # cs,
              (case obj_get kvs ''tool_input'' of JUndefined \<Rightarrow> JObj [] | JNull \<Rightarrow> JObj [] | v \<Rightarrow> v),
              (case obj_get kvs ''cwd'' of JStr d \<Rightarrow> d | _ \<Rightarrow> m_home (gd_machine deps)))
        | _ \<Rightarrow> None)
   | _ \<Rightarrow> None)"

definition tasks_dir :: "string \<Rightarrow> string" where
  "tasks_dir home = path_join (path_join home ''AgentCall'') ''tasks''"

definition guard_context :: "guard_deps \<Rightarrow> decide_context" where
  "guard_context deps = \<lparr>gc_machine = gd_machine deps, gc_scope = gd_scope deps,
     gc_guard_root = gd_package_root deps, gc_extra_secret_roots = [tasks_dir (m_home (gd_machine deps))],
     gc_string = gd_string deps\<rparr>"

definition guard_line_for :: "guard_deps \<Rightarrow> guard_log \<Rightarrow> guard_entry \<Rightarrow> guard_line" where
  "guard_line_for deps log entry = \<lparr>gl_file = log, gl_ts = gd_now deps, gl_call_id = gd_call_id deps,
     gl_correlation_id = gd_correlation_id deps, gl_entry = entry\<rparr>"

fun noteworthy :: "string \<Rightarrow> guard_verdict \<Rightarrow> guard_entry option" where
  "noteworthy tool (Allow None) = None"
| "noteworthy tool (Allow (Some (rule, detail))) = Some (ToolFlagged tool rule detail)"
| "noteworthy tool (Deny rule detail) = Some (ToolDenied tool rule detail)"

fun guard_answer :: "guard_verdict \<Rightarrow> guard_output" where
  "guard_answer (Allow _) = RunTool"
| "guard_answer (Deny _ _) = DenyTool DENY_REASON"

text \<open>The lines written and the output of the hook on \<open>parsed\<close>, absent when the input is not JSON.\<close>

definition run_guard :: "guard_deps \<Rightarrow> js_value option \<Rightarrow> guard_line list \<times> guard_output" where
  "run_guard deps parsed = (case guard_input deps parsed of
     None \<Rightarrow> ([], FailClosed FAIL_CLOSED_REASON)
   | Some (tool, input, cwd) \<Rightarrow>
       (let verdict = decide (guard_context deps) tool input cwd;
            allowed = (case verdict of Allow _ \<Rightarrow> True | Deny _ _ \<Rightarrow> False);
            line = guard_line_for deps ToolsLog (ToolCall tool allowed)
        in if \<not> gd_append deps ToolsLog then ([], FailClosed FAIL_CLOSED_REASON)
           else case noteworthy tool verdict of
             None \<Rightarrow> ([line], guard_answer verdict)
           | Some entry \<Rightarrow>
               if \<not> gd_append deps CallsLog then ([line], FailClosed FAIL_CLOSED_REASON)
               else ([line, guard_line_for deps CallsLog entry], guard_answer verdict)))"

subsection \<open>What the guard guarantees\<close>

lemma guard_canon_abs: "\<exists>ss. list_all clean_seg ss \<and> guard_canon ctx cwd p = abs_path ss"
  unfolding guard_canon_def by (rule canonical_abs)

lemma guard_denied_abs: "d \<in> set (guard_denied ctx) \<Longrightarrow> \<exists>ss. list_all clean_seg ss \<and> d = abs_path ss"
  unfolding guard_denied_def by (rule denied_roots_abs)

lemma not_mcp [simp]:
  "\<not> mcp_tool ''Read''" "\<not> mcp_tool ''Grep''" "\<not> mcp_tool ''LS''" "\<not> mcp_tool ''Glob''"
  by (simp_all add: mcp_tool_def starts_with_def)

lemma decide_read: "decide ctx ''Read'' (JObj args) cwd = decide_exact ctx cwd (obj_get args ''file_path'')"
  by (simp add: decide_def LOCAL_MUTATION_def NO_PATH_SURFACE_def)

lemma decide_scanning:
  assumes "tool \<in> {''Grep'', ''LS'', ''Glob''}"
  shows "decide ctx tool (JObj args) cwd = decide_scan ctx cwd tool args"
proof -
  have "decide ctx ''Grep'' (JObj args) cwd = decide_scan ctx cwd ''Grep'' args"
    "decide ctx ''LS'' (JObj args) cwd = decide_scan ctx cwd ''LS'' args"
    "decide ctx ''Glob'' (JObj args) cwd = decide_scan ctx cwd ''Glob'' args"
    by (simp_all add: decide_def LOCAL_MUTATION_def NO_PATH_SURFACE_def SCANNING_ROOT_def)
  then show ?thesis using assms by blast
qed

lemma decide_exact_allow:
  assumes "decide_exact ctx cwd raw = Allow f"
  shows "\<exists>p. raw = JStr p \<and> \<not> denied_basename (guard_canon ctx cwd p) \<and>
    \<not> target_inside_secret ctx (guard_canon ctx cwd p) \<and> \<not> unreachable_path ctx cwd (guard_canon ctx cwd p)"
proof (cases raw)
  case (JStr s)
  then show ?thesis using assms by (cases s) (auto simp: decide_exact_def Let_def split: if_splits)
qed (use assms in \<open>simp_all add: decide_exact_def\<close>)


text \<open>A root from which no path below, free of names starting with two dots, is in a denied path.\<close>

definition scan_clear :: "decide_context \<Rightarrow> string \<Rightarrow> bool" where
  "scan_clear ctx root = (\<exists>segs. root = abs_path segs \<and>
     (\<forall>below d. list_all clean_seg (segs @ below) \<longrightarrow> list_all (\<lambda>s. \<not> dotdot_seg s) (segs @ below) \<longrightarrow>
        d \<in> set (guard_denied ctx) \<longrightarrow> \<not> is_inside (m_cwd (gc_machine ctx)) (abs_path (segs @ below)) d))"

lemma scan_clearI:
  assumes "\<not> scan_reaches_secret ctx (guard_canon ctx cwd p)"
  shows "scan_clear ctx (guard_canon ctx cwd p)"
proof -
  obtain segs where segs: "list_all clean_seg segs" "guard_canon ctx cwd p = abs_path segs"
    using guard_canon_abs by blast
  have "\<not> is_inside (m_cwd (gc_machine ctx)) (abs_path (segs @ below)) d"
    if b: "list_all clean_seg (segs @ below)" "list_all (\<lambda>s. \<not> dotdot_seg s) (segs @ below)"
      and d: "d \<in> set (guard_denied ctx)" for below d
  proof -
    obtain ds where ds: "list_all clean_seg ds" "d = abs_path ds" using guard_denied_abs[OF d] by blast
    have "\<not> is_inside (m_cwd (gc_machine ctx)) (abs_path segs) d \<and> \<not> is_ancestor_of (m_cwd (gc_machine ctx)) (abs_path segs) d"
      using assms d segs(2) by (auto simp: scan_reaches_secret_def list_ex_iff)
    then show ?thesis using below_not_inside[OF segs(1) ds(1) b(1) _ _ b(2)] ds(2) by blast
  qed
  then show ?thesis unfolding scan_clear_def using segs(2) by blast
qed

definition selector_root :: "decide_context \<Rightarrow> string \<Rightarrow> string \<Rightarrow> string \<Rightarrow> string" where
  "selector_root ctx cwd raw_root s =
     (let prefix = glob_literal_prefix s
      in guard_canon ctx cwd (if is_absolute (expand_home prefix (m_home (gc_machine ctx))) then prefix
                              else path_join raw_root prefix))"

lemma decide_selector_allow:
  assumes "decide_selector ctx cwd tool raw_root (JStr s) = Allow f"
  shows "''..'' \<notin> set (split_on (CHR ''/'') s) \<and> \<not> denied_basename s \<and>
    (glob_literal_prefix s \<noteq> [] \<longrightarrow> scan_clear ctx (selector_root ctx cwd raw_root s))"
  using assms scan_clearI unfolding decide_selector_def selector_root_def Let_def
  by (auto split: if_splits)

text \<open>
  A scan the guard allows reaches nothing denied. Neither below the root it names nor
  below the literal prefix of its pattern is there a path inside a denied one, apart from
  paths with a name that starts with two dots; the pattern cannot climb out of its root and
  does not name a denied file.
\<close>

theorem scan_reaches_nothing_denied:
  assumes "tool \<in> {''Grep'', ''LS'', ''Glob''}" "decide ctx tool (JObj args) cwd = Allow f"
  shows "\<exists>raw. scan_root cwd args = Some raw \<and> scan_clear ctx (guard_canon ctx cwd raw) \<and>
    (\<forall>k s. selector_key tool = Some k \<longrightarrow> obj_get args k = JStr s \<longrightarrow>
       ''..'' \<notin> set (split_on (CHR ''/'') s) \<and> \<not> denied_basename s \<and>
       (glob_literal_prefix s \<noteq> [] \<longrightarrow> scan_clear ctx (selector_root ctx cwd raw s)))"
proof -
  have d: "decide_scan ctx cwd tool args = Allow f" using assms decide_scanning by simp
  then obtain raw where raw: "scan_root cwd args = Some raw"
    "\<not> scan_reaches_secret ctx (guard_canon ctx cwd raw)"
    "decide_selector ctx cwd tool raw (case selector_key tool of None \<Rightarrow> JUndefined | Some k \<Rightarrow> obj_get args k) = Allow f"
    by (auto simp: decide_scan_def Let_def split: option.splits if_splits)
  then show ?thesis using scan_clearI[OF raw(2)] decide_selector_allow by fastforce
qed


subsection \<open>A sample machine\<close>

definition sample_machine :: machine where
  "sample_machine = \<lparr>m_cwd = ''/h'', m_home = ''/h'', m_realpath = Some\<rparr>"

definition sample_context :: decide_context where
  "sample_context = \<lparr>gc_machine = sample_machine, gc_scope = \<lparr>sc_roots = [''/h''], sc_denied = []\<rparr>,
     gc_guard_root = ''/g'', gc_extra_secret_roots = [], gc_string = (\<lambda>_. [])\<rparr>"

definition sample_read :: "string \<Rightarrow> guard_verdict" where
  "sample_read p = decide sample_context ''Read'' (JObj [(''file_path'', JStr p)]) ''/h''"

text \<open>
  A denied directory is not closed. A name that starts with two dots, as the
  \<open>..data\<close> of a mounted secret, reads like a climb to the containment check, so a file of
  that name directly in a denied directory is readable while its neighbours are not.
\<close>

theorem dotdot_name_escapes:
  "sample_read ''/h/.ssh/..data'' = Allow None \<and>
   sample_read ''/h/.ssh/config'' = Deny ''inside-unreachable-source'' ''/h/.ssh/config''"
  by code_simp

lemma sample_allowed:
  "sample_read ''/h/a'' = Allow None"
  "decide sample_context ''Grep'' (JObj [(''path'', JStr ''p''), (''glob'', JStr ''*.ts'')]) ''/h'' = Allow None"
  by code_simp+


lemma scan_reaches_nothing_denied_witness: "scan_clear sample_context (guard_canon sample_context ''/h'' ''p'')"
  using scan_reaches_nothing_denied[OF _ sample_allowed(2)] by (auto simp: scan_root_def)

definition sample_deps :: guard_deps where
  "sample_deps = \<lparr>gd_call_id = ''c1'', gd_correlation_id = None, gd_now = ''t'', gd_machine = sample_machine,
     gd_scope = DEFAULT_SCOPE, gd_package_root = ''/g'', gd_append = (\<lambda>_. True), gd_string = (\<lambda>_. [])\<rparr>"


end
