(* ===== verification/Spec2Isabelle.thy ===== *)
theory Spec2Isabelle
  imports RelaySamples KeyRingSamples RecoverySamples OutboundJobs ApiResults CallSamples JobSamples MailboxResults RateLimiter SignedToken Admission Guard Canonical Protocol CallLifecycle StorageKeys Frames Transcripts
begin

text \<open>
  A verification library for AgentCall: a relay (\<open>apps/relay\<close>, a Cloudflare Worker with
  Durable Objects) that carries end-to-end encrypted calls between coding agents, the shared
  protocol code (\<open>packages/shared\<close>) and the command-line client (\<open>packages/cli\<close>).

  How the parts interact. A caller's client seals a request under a signed transcript and
  sends it over a WebSocket to the relay; the gateway authenticates it, checks the HTTP rate
  limits and forwards it to the \<open>HandleDO\<close> of the callee. That object rings a connected
  listener, or, for a durable call, stores the task in a mailbox and hands it out under a
  lease when a listener connects. The listener answers with lifecycle frames and a sealed
  outcome; the caller reads tasks back through a paged listing. Every transition leaves an
  audit intent in an outbox, drained into D1.

  Theories and the code they model.
  \<^item> \<open>Prelude\<close>, \<open>Storage\<close>, \<open>Unicode\<close>: shared automation; the ordered key-value store of a
    Durable Object as a locale \<open>ordered_store\<close>, interpreted on sorted association lists;
    JavaScript strings as lists of 16-bit code units and \<open>TextEncoder\<close>.
  \<^item> \<open>Canonical\<close> (\<open>shared/src/canonical.ts\<close>), \<open>Transcripts\<close> and \<open>Frames\<close>
    (\<open>shared/src/e2ee.ts\<close>, \<open>keys.ts\<close>): the signing encoding, injective and with disjoint
    domains; envelope, payload and frame schemas over parsed JSON values.
  \<^item> \<open>Protocol\<close> (\<open>shared/src/protocol.ts\<close>): limits, patterns, addresses, terminal sanitizers.
  \<^item> \<open>SignedToken\<close> (\<open>signing.ts\<close>, \<open>signed-token.ts\<close>): base64url and the signed token codec.
  \<^item> \<open>CallLifecycle\<close> (\<open>apps/relay/src/call-lifecycle.ts\<close>).
  \<^item> \<open>TaskStore\<close> (\<open>task-store.ts\<close>): the stored task record, its projection, cursors, listing.
  \<^item> \<open>SlidingWindow\<close>, \<open>CallRateLimit\<close> (\<open>call-rate-limit.ts\<close>), \<open>RateLimiter\<close>
    (\<open>ratelimit/do.ts\<close>, \<open>ratelimit/index.ts\<close>): a locale of sliding-window limiters, its bound
    proved once and interpreted on both limiters of the code.
  \<^item> \<open>StorageKeys\<close>: composed storage keys sort as the pairs the model uses for them.
  \<^item> The mailbox, \<open>apps/relay/src/do.ts\<close>. \<open>MailboxState\<close> and \<open>MailboxCalls\<close>: the object's
    storage as a record with one field per key family, and each storage transaction as one
    function. \<open>MailboxInv\<close>, \<open>MailboxOps\<close>, \<open>MailboxMoves\<close>, \<open>MailboxEntries\<close>, \<open>MailboxSteps\<close>:
    the invariant (quota counters, queue, due and dedupe entries, active slot, outbox) and
    that each transaction keeps it. \<open>MailboxSystem\<close>, \<open>MailboxSafety\<close>: the object under
    concurrency, as a step relation whose steps are the stretches between awaits that leave
    the object, with crashes; reachable states and the properties of all of them.
    \<open>MailboxHandlers\<close>, \<open>MailboxEvents\<close>, \<open>MailboxResults\<close>: the handlers run without
    interruption (dispatch, sockets, frames, cancellation, alarm, eviction), each shown to
    be a run of steps, so the properties of reachable states hold after it.

  The relay's HTTP handlers and their database.
  \<^item> \<open>Tables\<close>, \<open>RelayDb\<close>, \<open>AuditCommon\<close> (\<open>events.ts\<close>): tables as lists of rows with the keys
    and constraints the statements rely on; a batch commits, is rejected, or commits and loses
    its reply.
  \<^item> \<open>Tenancy\<close> (\<open>auth.ts\<close>, \<open>tenant.ts\<close>, \<open>identity.ts\<close>, \<open>middleware.ts\<close>), \<open>Enrollment\<close>
    (\<open>invites.ts\<close>, registration and rotation of \<open>index.ts\<close>), \<open>Recovery\<close> (\<open>recovery.ts\<close>),
    \<open>KeyDirectory\<close> (\<open>keys.ts\<close>), \<open>AuditControls\<close>, \<open>AuditReadiness\<close>, \<open>AuditExport\<close>,
    \<open>AuditSnapshot\<close> (\<open>audit.ts\<close>, \<open>audit-retention.ts\<close>): each handler as a function of the
    database it reads, the fate of its batch and what others wrote in between.
  \<^item> \<open>RelayInvariant\<close>, \<open>RelayService\<close>, \<open>RelayRuns\<close>, \<open>RelayHandlers\<close>: the batches as a step
    relation, an invariant of its reachable states, and that every handler is a run of it.
    \<open>RelayResults\<close>, \<open>RelaySecurity\<close>: an invite enrols once, a recovery proof is consumed once,
    tenants are isolated, served keys verify. \<open>RelaySamples\<close>: concrete requests.

  The command-line client, \<open>packages/cli/src\<close>.
  \<^item> \<open>PathCanon\<close> (\<open>path-canon.ts\<close> and the parts of \<open>node:path\<close> it calls), \<open>Scope\<close>
    (\<open>scope.ts\<close>), \<open>Guard\<close> (\<open>guard.ts\<close>): canonical paths, the layers of an owner's scope, and
    the decision on one tool call of the answering agent. A read that is allowed stays in a
    visible root and outside every denied path; a recursive scan reaches nothing denied;
    an unknown tool, a malformed input or a failing canonicalisation is refused.
  \<^item> \<open>Policy\<close> (\<open>access.ts\<close>, \<open>policy.ts\<close>, \<open>tasks.ts\<close>, \<open>verbs.ts\<close>, \<open>card.ts\<close>,
    \<open>stored-card.ts\<close> and \<open>shared/src/card.ts\<close>): who may call which task.
  \<^item> \<open>LocalStores\<close> (\<open>replay-store.ts\<close>, \<open>execution-journal.ts\<close>, \<open>contexts.ts\<close>,
    \<open>contexts-out.ts\<close>): the JSON stores of the listener and their expiry; a request id is
    accepted once and a journaled call is not executed again.
  \<^item> \<open>Sealing\<close> (\<open>e2ee.ts\<close>, \<open>known-peers.ts\<close>): sealing and opening of requests and outcomes,
    trust on first use. What opens was signed by the expected key; a pinned identity is
    never overwritten.
  \<^item> \<open>SerialQueue\<close> (\<open>queue.ts\<close>): the one-at-a-time queue as a step relation.
  \<^item> \<open>Admission\<close> (\<open>listener-stages.ts\<close>): the stages a delivered call passes before it runs.
  \<^item> \<open>Resumption\<close>: programs of atomic actions that interleave and crash, a rely-guarantee
    judgement as a locale, and programs on a part of a state. \<open>FileLock\<close> (\<open>file-lock.ts\<close>): a
    store under its lock changes by whole updates, one after the other. \<open>OutboundJobs\<close>
    (\<open>outbound-jobs.ts\<close>): a durable call stays bound to its ciphertext.
  \<^item> \<open>KeyRing\<close> (\<open>keys.ts\<close> and the publication in \<open>api.ts\<close>), \<open>KeyRingRuns\<close>, \<open>KeyRingSteps\<close>,
    \<open>KeyRingResults\<close>, \<open>KeyRingSolo\<close>, \<open>KeyRingProps\<close>, \<open>KeyRingSamples\<close>: the epochs of the
    encryption key in slots that the first writer wins and that a crash can leave torn; the
    chain never forks, an untorn directory loads, a rotation keeps the old key.
  \<^item> \<open>RecoveryClient\<close> (\<open>commands/recovery.ts\<close>), \<open>RecoveryRuns\<close>, \<open>RecoverySamples\<close>: the pending
    file, the relay's handler from \<open>Recovery\<close> with lost replies, and the configuration; a
    recovery that dies anywhere can be resumed.
  \<^item> \<open>ApiClient\<close> (\<open>api.ts\<close>), \<open>ApiResults\<close>: the requests over a network parameter; a mutation
    is sent at most once and fetched keys are those asked for.
  \<^item> \<open>CallClient\<close> (\<open>call-client.ts\<close>), \<open>CallRuns\<close>, \<open>CallResults\<close>, \<open>CallSamples\<close>: a call from its
    arguments to its settled promise, as a program before the socket opens and a step
    function on socket events with handlers that await. An answer is authentic, a call
    settles once and never hangs; a receipt can lose the race with the close of its socket.
    \<open>JobResult\<close> (\<open>job-result.ts\<close>), \<open>JobSamples\<close>: the result of a durable call opens only under
    the binding that the outbound store kept.

  Bounds and fuel. \<open>dispatchNext\<close> recurses after it revokes a queued task; the model takes
  fuel, \<open>dispatch_fuel\<close> is one more than the number of queued tasks and
  \<open>dispatch_terminates\<close> shows it is enough. The paging walk is bounded by the number of
  tasks in the same way. Other loops are structural.

  Assumptions. Times are integers and the clock of a step is arbitrary in the mailbox
  system (it need not grow), while the window bounds take check times in order. Random call
  ids are fresh. Digests, HMAC, HPKE, ECDSA, \<open>JSON.parse\<close>, \<open>localeCompare\<close> and \<open>Date.parse\<close> are
  parameters or act on parsed values; what is relied on is a named hypothesis. D1 either
  commits a batch, rejects it, or commits it and loses the reply. In the client, the
  primitives of signing and sealing are fields of a record, and the properties that rest on
  them name the law they need (a signature verifies only if the key signed it; what is
  sealed to a key opens with it). \<open>realpath\<close> and the existence of files are parameters of
  the path functions. A store update under its file lock is one atomic function,
  which \<open>FileLock\<close> justifies. SHA-256 is a parameter and fresh secrets are fresh. YAML and
  \<open>JSON.parse\<close> are outside: the stores and policies are parsed values.

  Not modelled: the cryptographic primitives; \<open>cancelTask\<close>'s in-memory waiters and timers
  (the model says whether the listener is asked and for how long); telemetry; response
  bodies and headers; a failing D1 read inside \<open>dispatchNext\<close>; the gateway routes of the
  relay that only forward (\<open>a2a.ts\<close>, \<open>presence.ts\<close>, the socket and card routes of
  \<open>index.ts\<close>) and the A2A response schemas; in the client the agent runner and the listener
  loop (processes, sockets and timers around the modelled stages, queue and stores), the
  diagnosis and verification reports, history, contacts, prompts and redaction, the
  installers and the interactive command-line glue.
\<close>

end
